(* ===== verification/Prelude.thy ===== *)
theory Prelude
  imports Main "HOL-Library.Word"
begin

text \<open>
  Shared vocabulary of the development: results of code that may throw, byte strings,
  big-endian conversions, the rounding done by JavaScript's \<open>Number(bigint)\<close>, and the
  generic lemmas the component theories use.

  \<^item> A call that may throw is a value of \<open>'e + 'a\<close>: \<open>Inl e\<close> for the exception \<open>e\<close>, \<open>Inr a\<close>
    for the result. \<open>ebind\<close> is sequential composition; its congruence rule lets recursive
    functions be defined through it.
  \<^item> A \<open>Uint8Array\<close>, a \<open>Buffer\<close> and the \<open>HexBlob\<close> string that denotes one are a \<open>byte list\<close>.
  \<^item> A \<open>bigint\<close> and an integral \<open>number\<close> are an \<open>int\<close> (or a \<open>nat\<close> where it is never negative);
    where the source converts a \<open>bigint\<close> to a \<open>number\<close> the model applies \<open>js_Number\<close>.
\<close>

named_theorems result_simps \<open>evaluation of the exception monad\<close>
named_theorems byte_simps \<open>facts on bytes and big-endian numbers\<close>

subsection \<open>Exceptions\<close>

datatype cbor_reason =
    UnexpectedEndOfBuffer
  | NoMoreDataItems
  | EndOfRootLevel
  | InvalidIndefiniteStringItem
  | MajorTypeMismatch
  | NotAtEndOfIndefiniteItem
  | IsAtRootContext
  | PopMajorTypeMismatch
  | NotAtEndOfDefiniteItem
  | TagNotFollowedByValue
  | BufferOffsetOutOfBounds
  | InvalidMajorTypeOnStack
  | UnexpectedBreakByte
  | KeyMissingValue
  | InvalidMajorType
  | IntegerOverflow
  | ReaderTypeMismatch
  | InvalidIntegerEncoding
  | NotAFloatEncoding
  | NotASimpleValueEncoding
  | NotABooleanEncoding
  | NotANullEncoding
  | DefiniteLengthExceedsBuffer
  | NotIndefiniteLengthString
  | ExpectedDefiniteLength
  | SkipInvalidState

datatype InputSelectionFailure =
    UtxoBalanceInsufficient
  | UtxoNotFragmentedEnough
  | UtxoFullyDepleted
  | MaximumInputCountExceeded

text \<open>
  The exception classes the modelled code throws. A reason stands for the message; the values
  the messages interpolate are left out.
\<close>

datatype js_error =
    CborInvalidOperationException cbor_reason
  | CborContentException cbor_reason
  | InputSelectionError InputSelectionFailure
  | LossOfPrecisionException
  | InvalidArgumentError
  | InvalidStateError
  | InvalidStringError
  | NotImplementedError
  | SerializationError
  | EraSummaryError
  | InvalidProtocolParametersError
  | InvalidHereafterError
  | OutOfSyncRewardAccounts
  | InsufficientRewardAccounts
  | DeRegistrationsWithRewardsLocked
  | RangeError
  | TypeError
  | ReferenceError
  | SyntaxError
  | GenericError

type_synonym 'a result = "js_error + 'a"

definition ebind :: "'e + 'a \<Rightarrow> ('a \<Rightarrow> 'e + 'b) \<Rightarrow> 'e + 'b" where
  "ebind m f = (case m of Inl e \<Rightarrow> Inl e | Inr a \<Rightarrow> f a)"

lemma ebind_Inl [simp, result_simps]: "ebind (Inl e) f = Inl e"
  by (simp add: ebind_def)

lemma ebind_Inr [simp, result_simps]: "ebind (Inr a) f = f a"
  by (simp add: ebind_def)

lemma ebind_cong [fundef_cong]:
  "m = m' \<Longrightarrow> (\<And>a. m' = Inr a \<Longrightarrow> f a = g a) \<Longrightarrow> ebind m f = ebind m' g"
  by (cases m') simp_all

lemma ebind_eq_Inr: "ebind m f = Inr b \<longleftrightarrow> (\<exists>a. m = Inr a \<and> f a = Inr b)"
  by (cases m) simp_all

lemma ebind_InrE [elim!]:
  assumes "ebind m f = Inr b"
  obtains a where "m = Inr a" and "f a = Inr b"
  using assms by (auto simp: ebind_eq_Inr)

lemma ebind_assoc: "ebind (ebind m f) g = ebind m (\<lambda>a. ebind (f a) g)"
  by (cases m) simp_all

text \<open>An assertion: throws \<open>e\<close> when the condition holds.\<close>

definition throw_if :: "bool \<Rightarrow> 'e \<Rightarrow> 'e + unit" where
  "throw_if b e = (if b then Inl e else Inr ())"

lemma throw_if_True [simp, result_simps]: "throw_if True e = Inl e"
  by (simp add: throw_if_def)

lemma throw_if_False [simp, result_simps]: "throw_if False e = Inr ()"
  by (simp add: throw_if_def)

lemma throw_if_eq_Inr [simp]: "throw_if b e = Inr u \<longleftrightarrow> \<not> b"
  by (simp add: throw_if_def)

text \<open>Running a function over a list in order, stopping at the first exception.\<close>

primrec emap :: "('a \<Rightarrow> 'e + 'b) \<Rightarrow> 'a list \<Rightarrow> 'e + 'b list" where
  "emap f [] = Inr []"
| "emap f (x # xs) = ebind (f x) (\<lambda>y. ebind (emap f xs) (\<lambda>ys. Inr (y # ys)))"

lemma emap_cong [fundef_cong]:
  "xs = ys \<Longrightarrow> (\<And>x. x \<in> set ys \<Longrightarrow> f x = g x) \<Longrightarrow> emap f xs = emap g ys"
  by (induction ys arbitrary: xs) auto

lemma emap_Inr: "(\<And>x. x \<in> set xs \<Longrightarrow> f x = Inr (g x)) \<Longrightarrow> emap f xs = Inr (map g xs)"
  by (induction xs) auto

lemma emap_eq_Inr: "emap f xs = Inr ys \<longleftrightarrow> list_all2 (\<lambda>x y. f x = Inr y) xs ys"
  by (induction xs arbitrary: ys) (auto simp: ebind_eq_Inr list_all2_Cons1)

text \<open>A loop that carries a state over a list and stops at the first exception.\<close>

primrec efoldl :: "('s \<Rightarrow> 'a \<Rightarrow> 'e + 's) \<Rightarrow> 's \<Rightarrow> 'a list \<Rightarrow> 'e + 's" where
  "efoldl f s [] = Inr s"
| "efoldl f s (x # xs) = ebind (f s x) (\<lambda>s'. efoldl f s' xs)"

text \<open>An invariant that may speak of the elements already visited.\<close>

lemma efoldl_invariant:
  assumes "efoldl f s xs = Inr s'" and "P ps s"
    and "\<And>ps x ys s s'. pre @ xs = ps @ x # ys \<Longrightarrow> P ps s \<Longrightarrow> f s x = Inr s' \<Longrightarrow> P (ps @ [x]) s'"
    and "ps = pre"
  shows "P (ps @ xs) s'"
  using assms
proof (induction xs arbitrary: s ps pre)
  case (Cons x xs)
  then obtain t where t: "f s x = Inr t" "efoldl f t xs = Inr s'" by auto
  have "P (ps @ [x]) t" using Cons.prems(2,3,4) t(1) by blast
  from Cons.IH [OF t(2) this _ refl] Cons.prems(3,4) show ?case by simp
qed simp

subsection \<open>Bytes and big-endian numbers\<close>

type_synonym byte = "8 word"
type_synonym bytes = "byte list"

lemma unat_byte_less [simp]: "unat (b :: byte) < 256"
  using unsigned_less [where 'b = 8 and 'a = nat, of b] by simp

definition byte_of :: "nat \<Rightarrow> byte" where
  "byte_of n = word_of_nat n"

lemma byte_of_unat [simp]: "byte_of (unat b) = b"
  by (simp add: byte_of_def)

lemma unat_byte_of [byte_simps]: "unat (byte_of n) = n mod 256"
  by (simp add: byte_of_def unat_of_nat)

lemma unat_byte_of_id [simp]: "n < 256 \<Longrightarrow> unat (byte_of n) = n"
  by (simp add: byte_simps)

text \<open>\<open>be_bytes k n\<close>: the last \<open>k\<close> base-256 digits of \<open>n\<close>, most significant first.\<close>

primrec be_bytes :: "nat \<Rightarrow> nat \<Rightarrow> bytes" where
  "be_bytes 0 n = []"
| "be_bytes (Suc k) n = be_bytes k (n div 256) @ [byte_of n]"

definition be_nat :: "bytes \<Rightarrow> nat" where
  "be_nat bs = foldl (\<lambda>acc b. acc * 256 + unat b) 0 bs"

lemma length_be_bytes [simp]: "length (be_bytes k n) = k"
  by (induction k arbitrary: n) simp_all

lemma be_nat_Nil [simp]: "be_nat [] = 0"
  by (simp add: be_nat_def)

lemma be_nat_snoc [simp]: "be_nat (bs @ [b]) = be_nat bs * 256 + unat b"
  by (simp add: be_nat_def)

lemma be_nat_be_bytes: "be_nat (be_bytes k n) = n mod 256 ^ k"
proof (induction k arbitrary: n)
  case 0
  then show ?case by simp
next
  case (Suc k)
  have "be_nat (be_bytes (Suc k) n) = (n div 256 mod 256 ^ k) * 256 + n mod 256"
    by (simp add: Suc.IH byte_simps)
  also have "\<dots> = n mod (256 * 256 ^ k)"
    by (simp add: mod_mult2_eq)
  finally show ?case by simp
qed

lemma be_nat_be_bytes_id [simp]: "n < 256 ^ k \<Longrightarrow> be_nat (be_bytes k n) = n"
  by (simp add: be_nat_be_bytes)

lemma be_nat_less: "be_nat bs < 256 ^ length bs"
proof (induction bs rule: rev_induct)
  case Nil
  then show ?case by simp
next
  case (snoc b bs)
  have "be_nat bs * 256 + unat b < (be_nat bs + 1) * 256"
    using unat_byte_less [of b] by simp
  also have "\<dots> \<le> 256 ^ length bs * 256"
    using snoc.IH by (intro mult_right_mono) simp_all
  finally show ?case by (simp add: mult.commute)
qed

lemma be_bytes_be_nat: "be_bytes (length bs) (be_nat bs) = bs"
proof (induction bs rule: rev_induct)
  case Nil
  then show ?case by simp
next
  case (snoc b bs)
  have "byte_of (be_nat bs * 256 + unat b) = b"
    unfolding word_unat_eq_iff unat_byte_of by (simp add: mod_mult_self3)
  moreover have "(be_nat bs * 256 + unat b) div 256 = be_nat bs"
    using unat_byte_less [of b] by simp
  ultimately show ?case using snoc.IH by simp
qed

subsection \<open>JavaScript numbers\<close>

fun bit_length :: "nat \<Rightarrow> nat" where
  "bit_length n = (if n = 0 then 0 else Suc (bit_length (n div 2)))"

declare bit_length.simps [simp del]

text \<open>
  \<open>Number(n)\<close> for a non-negative \<open>bigint\<close> below \<open>2 ^ 1024\<close>: the closest double, ties to the even
  significand. Below \<open>2 ^ 53\<close> it is exact.
\<close>

definition js_Number :: "nat \<Rightarrow> nat" where
  "js_Number n =
     (if n < 2 ^ 53 then n
      else let e = bit_length n - 53; q = n div 2 ^ e; r = n mod 2 ^ e; h = 2 ^ (e - 1)
           in (if h < r \<or> (h = r \<and> odd q) then Suc q else q) * 2 ^ e)"

definition js_Number_int :: "int \<Rightarrow> int" where
  "js_Number_int i = (if i < 0 then - int (js_Number (nat (- i))) else int (js_Number (nat i)))"

lemma js_Number_exact [simp]: "n < 9007199254740992 \<Longrightarrow> js_Number n = n"
  by (simp add: js_Number_def)

lemma js_Number_int_exact [simp]:
  "- 9007199254740992 < i \<Longrightarrow> i < 9007199254740992 \<Longrightarrow> js_Number_int i = i"
  by (simp add: js_Number_int_def nat_less_iff)

text \<open>The conversion to a signed 32-bit integer that the operands of \<open>|\<close>, \<open>&\<close> and the shifts go through.\<close>

definition to_int32 :: "int \<Rightarrow> int" where
  "to_int32 i = (i + 2147483648) mod 4294967296 - 2147483648"

lemma to_int32_id [simp]: "- 2147483648 \<le> i \<Longrightarrow> i < 2147483648 \<Longrightarrow> to_int32 i = i"
  by (simp add: to_int32_def)

end
