(* ===== verification/Cbor_Types.thy ===== *)
theory Cbor_Types
  imports Prelude
begin

text \<open>
  The vocabulary of \<open>core/src/Serialization/CBOR\<close>: major types, additional information, the
  initial byte, semantic tags and the states a reader can report.
\<close>

unbundle bit_operations_syntax

named_theorems cbor_head \<open>initial bytes and their parts\<close>

datatype CborMajorType =
    UnsignedInteger | NegativeInteger | ByteString | Utf8String | ArrayType | MapType | TagType | Simple

fun major_num :: "CborMajorType \<Rightarrow> nat" where
  "major_num UnsignedInteger = 0"
| "major_num NegativeInteger = 1"
| "major_num ByteString = 2"
| "major_num Utf8String = 3"
| "major_num ArrayType = 4"
| "major_num MapType = 5"
| "major_num TagType = 6"
| "major_num Simple = 7"

definition major_of :: "nat \<Rightarrow> CborMajorType" where
  "major_of n =
     (if n = 0 then UnsignedInteger else if n = 1 then NegativeInteger
      else if n = 2 then ByteString else if n = 3 then Utf8String
      else if n = 4 then ArrayType else if n = 5 then MapType
      else if n = 6 then TagType else Simple)"

lemma major_of_num [simp]: "major_of (major_num m) = m"
  by (cases m) (simp_all add: major_of_def)

lemma major_num_less [simp]: "major_num m < 8"
  by (cases m) simp_all

abbreviation (input) AdditionalFalse :: nat where "AdditionalFalse \<equiv> 20"
abbreviation (input) AdditionalTrue :: nat where "AdditionalTrue \<equiv> 21"
abbreviation (input) AdditionalNull :: nat where "AdditionalNull \<equiv> 22"
abbreviation (input) Additional8BitData :: nat where "Additional8BitData \<equiv> 24"
abbreviation (input) Additional16BitData :: nat where "Additional16BitData \<equiv> 25"
abbreviation (input) Additional32BitData :: nat where "Additional32BitData \<equiv> 26"
abbreviation (input) Additional64BitData :: nat where "Additional64BitData \<equiv> 27"
abbreviation (input) IndefiniteLength :: nat where "IndefiniteLength \<equiv> 31"

text \<open>\<open>CborInitialByte\<close>: the packed byte, its major type (\<open>>> 5\<close>) and additional info (\<open>& 0x1f\<close>).\<close>

abbreviation (input) IndefiniteLengthBreakByte :: byte where "IndefiniteLengthBreakByte \<equiv> 0xff"

definition getMajorType :: "byte \<Rightarrow> CborMajorType" where
  "getMajorType b = major_of (unat (drop_bit 5 b))"

definition getAdditionalInfo :: "byte \<Rightarrow> nat" where
  "getAdditionalInfo b = unat (b AND 0x1f)"

lemma getMajorType_div [cbor_head]: "getMajorType b = major_of (unat b div 32)"
  by (simp add: getMajorType_def drop_bit_eq_div unat_div_distrib)

lemma getAdditionalInfo_mod [cbor_head]: "getAdditionalInfo b = unat b mod 32"
proof -
  have "b AND 0x1f = take_bit 5 b"
    by (simp add: take_bit_eq_mask mask_eq_exp_minus_1)
  then show ?thesis
    by (simp add: getAdditionalInfo_def take_bit_eq_mod unat_mod_distrib)
qed

text \<open>The tags the modelled code names; a tag that is read is any number.\<close>

abbreviation (input) CborTag_UnsignedBigNum :: nat where "CborTag_UnsignedBigNum \<equiv> 2"
abbreviation (input) CborTag_NegativeBigNum :: nat where "CborTag_NegativeBigNum \<equiv> 3"
abbreviation (input) CborTag_EncodedCborDataItem :: nat where "CborTag_EncodedCborDataItem \<equiv> 24"
abbreviation (input) CborTag_RationalNumber :: nat where "CborTag_RationalNumber \<equiv> 30"
abbreviation (input) CborTag_Set :: nat where "CborTag_Set \<equiv> 258"

datatype CborReaderState =
    UndefinedState
  | UnsignedIntegerState
  | NegativeIntegerState
  | ByteStringState
  | StartIndefiniteLengthByteString
  | EndIndefiniteLengthByteString
  | TextStringState
  | StartIndefiniteLengthTextString
  | EndIndefiniteLengthTextString
  | StartArray
  | EndArray
  | StartMap
  | EndMap
  | TagState
  | SimpleValueState
  | HalfPrecisionFloat
  | SinglePrecisionFloat
  | DoublePrecisionFloat
  | NullState
  | BooleanState
  | Finished

text \<open>An initial byte put together from a major type and additional information below 32.\<close>

definition initial_byte :: "CborMajorType \<Rightarrow> nat \<Rightarrow> byte" where
  "initial_byte m i = byte_of (32 * major_num m + i)"

lemma unat_initial_byte [simp]: "i < 32 \<Longrightarrow> unat (initial_byte m i) = 32 * major_num m + i"
proof -
  assume "i < 32"
  then have "32 * major_num m + i < 256" using major_num_less [of m] by linarith
  then show ?thesis by (simp add: initial_byte_def)
qed

lemma getMajorType_initial_byte [simp]: "i < 32 \<Longrightarrow> getMajorType (initial_byte m i) = m"
  by (simp add: cbor_head)

lemma getAdditionalInfo_initial_byte [simp]: "i < 32 \<Longrightarrow> getAdditionalInfo (initial_byte m i) = i"
  by (simp add: cbor_head)

lemma initial_byte_not_break [simp]:
  "i < 32 \<Longrightarrow> m \<noteq> Simple \<or> i \<noteq> 31 \<Longrightarrow> initial_byte m i \<noteq> 0xff"
proof
  assume i: "i < 32" "m \<noteq> Simple \<or> i \<noteq> 31" and "initial_byte m i = 0xff"
  then have "32 * major_num m + i = 255"
    using unat_initial_byte [OF i(1), of m] by simp
  with i show False by (cases m) auto
qed

lemma int_or_disjoint: "v < 32 \<Longrightarrow> (int (32 * k) OR int v) = int (32 * k + v)"
proof -
  assume "v < 32"
  then have v: "take_bit 5 (int v) = int v"
    by (simp add: take_bit_eq_mod)
  have k: "int (32 * k) = push_bit 5 (int k)"
    by (simp add: push_bit_eq_mult)
  have "push_bit 5 (int k) AND take_bit 5 (int v) = 0"
    by (rule bit_eqI) (simp add: bit_simps)
  then show ?thesis
    by (simp only: of_nat_add k v disjunctive_add_eq_or)
qed

end
