(* ===== verification/Utf8.thy ===== *)
theory Utf8
  imports Prelude
begin

text \<open>
  JavaScript strings and their UTF-8 conversions, as the serialization code uses them through
  \<open>Buffer.from(s, 'utf8')\<close> and \<open>buffer.toString('utf8')\<close>. A string is a list of UTF-16 code
  units; encoding replaces a lone surrogate by U+FFFD, decoding replaces each maximal ill-formed
  subsequence by U+FFFD (the WHATWG algorithm, which Node implements). The lemma
  \<open>utf8_decode_encode\<close> is what every text round trip rests on: a string without lone surrogates
  survives encoding and decoding.
\<close>

type_synonym js_string = "16 word list"

text \<open>An ASCII literal as a JavaScript string.\<close>

definition js_ascii :: "string \<Rightarrow> js_string" where
  "js_ascii s = map (\<lambda>c. word_of_nat (of_char c)) s"

definition is_high :: "nat \<Rightarrow> bool" where
  "is_high u \<longleftrightarrow> 0xD800 \<le> u \<and> u < 0xDC00"

definition is_low :: "nat \<Rightarrow> bool" where
  "is_low u \<longleftrightarrow> 0xDC00 \<le> u \<and> u < 0xE000"

definition cp_bytes :: "nat \<Rightarrow> bytes" where
  "cp_bytes c =
     (if c < 0x80 then [byte_of c]
      else if c < 0x800 then [byte_of (0xC0 + c div 64), byte_of (0x80 + c mod 64)]
      else if c < 0x10000 then
        [byte_of (0xE0 + c div 4096), byte_of (0x80 + c div 64 mod 64),
         byte_of (0x80 + c mod 64)]
      else
        [byte_of (0xF0 + c div 262144), byte_of (0x80 + c div 4096 mod 64),
         byte_of (0x80 + c div 64 mod 64), byte_of (0x80 + c mod 64)])"

definition surrogate_pair :: "nat \<Rightarrow> nat \<Rightarrow> nat" where
  "surrogate_pair h l = 0x10000 + (h - 0xD800) * 1024 + (l - 0xDC00)"

fun utf8_encode :: "js_string \<Rightarrow> bytes" where
  "utf8_encode [] = []"
| "utf8_encode [u] = cp_bytes (if is_high (unat u) \<or> is_low (unat u) then 0xFFFD else unat u)"
| "utf8_encode (u # v # us) =
     (if is_high (unat u) \<and> is_low (unat v)
      then cp_bytes (surrogate_pair (unat u) (unat v)) @ utf8_encode us
      else cp_bytes (if is_high (unat u) \<or> is_low (unat u) then 0xFFFD else unat u)
           @ utf8_encode (v # us))"

definition cp_units :: "nat \<Rightarrow> js_string" where
  "cp_units c =
     (if c < 0x10000 then [word_of_nat c]
      else [word_of_nat (0xD800 + (c - 0x10000) div 1024),
            word_of_nat (0xDC00 + (c - 0x10000) mod 1024)])"

function utf8_decode :: "bytes \<Rightarrow> js_string"
  and utf8_cont :: "nat \<Rightarrow> nat \<Rightarrow> nat \<Rightarrow> nat \<Rightarrow> bytes \<Rightarrow> js_string" where
  "utf8_decode [] = []"
| "utf8_decode (b # bs) =
     (let n = unat b in
      if n < 0x80 then word_of_nat n # utf8_decode bs
      else if n < 0xC2 then 0xFFFD # utf8_decode bs
      else if n < 0xE0 then utf8_cont 1 0x80 0xBF (n - 0xC0) bs
      else if n < 0xF0 then
        utf8_cont 2 (if n = 0xE0 then 0xA0 else 0x80) (if n = 0xED then 0x9F else 0xBF) (n - 0xE0) bs
      else if n < 0xF5 then
        utf8_cont 3 (if n = 0xF0 then 0x90 else 0x80) (if n = 0xF4 then 0x8F else 0xBF) (n - 0xF0) bs
      else 0xFFFD # utf8_decode bs)"
| "utf8_cont need lo hi cp [] = [0xFFFD]"
| "utf8_cont need lo hi cp (b # bs) =
     (let n = unat b in
      if n < lo \<or> hi < n then 0xFFFD # utf8_decode (b # bs)
      else let cp' = cp * 64 + (n - 0x80)
           in if need \<le> 1 then cp_units cp' @ utf8_decode bs
              else utf8_cont (need - 1) 0x80 0xBF cp' bs)"
  by pat_completeness auto
termination
  by (relation "measure (\<lambda>x. case x of Inl bs \<Rightarrow> 2 * length bs
                                     | Inr (_, _, _, _, bs) \<Rightarrow> Suc (2 * length bs))") auto

text \<open>Strings whose surrogates all come in pairs.\<close>

fun well_formed_utf16 :: "js_string \<Rightarrow> bool" where
  "well_formed_utf16 [] \<longleftrightarrow> True"
| "well_formed_utf16 [u] \<longleftrightarrow> \<not> is_high (unat u) \<and> \<not> is_low (unat u)"
| "well_formed_utf16 (u # v # us) \<longleftrightarrow>
     (if is_high (unat u) then is_low (unat v) \<and> well_formed_utf16 us
      else \<not> is_low (unat u) \<and> well_formed_utf16 (v # us))"

lemma base64_digits:
  obtains x y w z where "c = 64 * x + w" "x = 64 * y + z" "w < 64" "z < (64 :: nat)"
    "c mod 64 = w" "c div 64 = x" "x mod 64 = z" "c div 4096 = y"
proof
  show "c = 64 * (c div 64) + c mod 64" and "c div 64 = 64 * (c div 4096) + c div 64 mod 64"
    using div_mult2_eq [of c 64 64] by simp_all
qed simp_all

lemma utf8_decode_cp_bytes:
  assumes "c < 0x110000" and "\<not> is_high c" and "\<not> is_low c"
  shows "utf8_decode (cp_bytes c @ bs) = cp_units c @ utf8_decode bs"
proof -
  obtain x y w z where c: "c = 64 * x + w" "x = 64 * y + z" "w < 64" "z < 64"
    and d: "c mod 64 = w" "c div 64 = x" "x mod 64 = z" "c div 4096 = y"
    by (rule base64_digits [of c])
  consider "c < 0x80" | "0x80 \<le> c" "c < 0x800" | "0x800 \<le> c" "c < 0x10000" | "0x10000 \<le> c"
    by linarith
  then show ?thesis
  proof cases
    case 1
    then show ?thesis by (simp add: cp_bytes_def cp_units_def)
  next
    case 2
    then have "2 \<le> x" and "x < 32" using c by linarith+
    moreover have "x * 64 + w = c" using c by simp
    ultimately show ?thesis using 2 c(3) by (simp add: cp_bytes_def d Let_def)
  next
    case 3
    have eq: "(y * 64 + z) * 64 + w = c" using c by simp
    have q: "y < 16" using 3 c by linarith
    have lo: "y = 0 \<Longrightarrow> 32 \<le> z" using 3 c by linarith
    have hi: "y = 13 \<Longrightarrow> z < 32"
      using assms(2,3) c unfolding is_high_def is_low_def by linarith
    show ?thesis using 3 eq q lo hi c(3,4) by (auto simp: cp_bytes_def d Let_def)
  next
    case 4
    obtain s t where y: "y = 64 * t + s" "s < 64" "y mod 64 = s" "y div 64 = t"
      by (metis mod_less_divisor mult_div_mod_eq zero_less_numeral)
    have t: "c div 262144 = t"
      using div_mult2_eq [of c 4096 64] by (simp add: d y)
    have eq: "((t * 64 + s) * 64 + z) * 64 + w = c" using c y(1) by simp
    have q: "t \<le> 4" using 4 c y(1,2) assms(1) by linarith
    have lo: "t = 0 \<Longrightarrow> 16 \<le> s" using 4 c y(1,2) by linarith
    have hi: "t = 4 \<Longrightarrow> s < 16" using c y(1,2) assms(1) by linarith
    show ?thesis using 4 eq q lo hi c(3,4) y(2) by (auto simp: cp_bytes_def d y(3,4) t Let_def)
  qed
qed

lemma unat_unit_less [simp]: "unat (u :: 16 word) < 65536"
  using unsigned_less [where 'b = 16 and 'a = nat, of u] by simp

lemma cp_units_unat [simp]: "cp_units (unat (u :: 16 word)) = [u]"
  by (simp add: cp_units_def)

lemma cp_units_surrogate_pair:
  assumes "is_high (unat u)" and "is_low (unat v)"
  shows "cp_units (surrogate_pair (unat u) (unat v)) = [u, v]"
proof -
  let ?h = "unat u - 0xD800" and ?l = "unat v - 0xDC00"
  have l: "?l < 1024" and "?h < 1024"
    using assms by (auto simp: is_high_def is_low_def)
  then have d: "(?h * 1024 + ?l) div 1024 = ?h" and m: "(?h * 1024 + ?l) mod 1024 = ?l"
    by simp_all
  have "0xD800 + ?h = unat u" and "0xDC00 + ?l = unat v"
    using assms by (auto simp: is_high_def is_low_def)
  then show ?thesis
    using d m by (simp add: cp_units_def surrogate_pair_def del: of_nat_add)
qed

lemma surrogate_pair_range:
  assumes "is_high h" and "is_low l"
  shows "surrogate_pair h l < 0x110000" and "0x10000 \<le> surrogate_pair h l"
  using assms by (auto simp: is_high_def is_low_def surrogate_pair_def)

lemma utf8_decode_encode [simp]:
  "well_formed_utf16 s \<Longrightarrow> utf8_decode (utf8_encode s) = s"
proof (induction s rule: utf8_encode.induct)
  case 1
  then show ?case by simp
next
  case (2 u)
  then show ?case
    using utf8_decode_cp_bytes [of "unat u" "[]"] unat_unit_less [of u] by simp
next
  case (3 u v us)
  show ?case
  proof (cases "is_high (unat u)")
    case True
    with "3.prems" have "is_low (unat v)" and "well_formed_utf16 us" by simp_all
    moreover have "\<not> is_high (surrogate_pair (unat u) (unat v))"
      and "\<not> is_low (surrogate_pair (unat u) (unat v))"
      using surrogate_pair_range [of "unat u" "unat v"] True \<open>is_low (unat v)\<close>
      by (auto simp: is_high_def is_low_def)
    ultimately show ?thesis
      using True "3.IH"(1) surrogate_pair_range(1) [of "unat u" "unat v"]
      by (simp add: utf8_decode_cp_bytes cp_units_surrogate_pair)
  next
    case False
    with "3.prems" have "\<not> is_low (unat u)" and "well_formed_utf16 (v # us)" by simp_all
    with False show ?thesis
      using "3.IH"(2) utf8_decode_cp_bytes [of "unat u"] unat_unit_less [of u] by simp
  qed
qed

end
