(* ===== verification/Cbor_Reader.thy ===== *)
theory Cbor_Reader
  imports Cbor_Types Utf8
begin

text \<open>
  \<open>CborReader\<close> (\<open>core/src/Serialization/CBOR/CborReader.ts\<close>): a forward-only reader with a stack
  of frames for nested items. The record \<open>CborReader\<close> has the class's private fields; the array
  \<open>#nestedItems\<close> is a list with the last pushed frame first. Every method is a function from the
  reader to its result and the updated reader, or the exception it throws. Lengths and tags go
  through \<open>js_Number\<close>, as the source converts them with \<open>Number(...)\<close>.
\<close>

record StackFrame =
  frame_type :: "CborMajorType option"
  frameOffset :: nat
  definiteLength :: "nat option"
  itemsRead :: nat
  currentKeyOffset :: "nat option"

record CborReader =
  rd_data :: bytes
  rd_offset :: nat
  nestedItems :: "StackFrame list"
  isTagContext :: bool
  currentFrame :: StackFrame
  cachedState :: CborReaderState

definition root_frame :: StackFrame where
  "root_frame = \<lparr>frame_type = None, frameOffset = 0, definiteLength = None, itemsRead = 0,
                 currentKeyOffset = None\<rparr>"

definition new_reader :: "bytes \<Rightarrow> CborReader" where
  "new_reader data = \<lparr>rd_data = data, rd_offset = 0, nestedItems = [], isTagContext = False,
                      currentFrame = root_frame, cachedState = UndefinedState\<rparr>"

subsection \<open>Private helpers\<close>

definition getRemainingBytes :: "CborReader \<Rightarrow> bytes" where
  "getRemainingBytes r = drop (rd_offset r) (rd_data r)"

definition getBytesRemaining :: "CborReader \<Rightarrow> int" where
  "getBytesRemaining r = int (length (rd_data r)) - int (rd_offset r)"

definition advanceDataItemCounters :: "CborReader \<Rightarrow> CborReader" where
  "advanceDataItemCounters r =
     r\<lparr>currentFrame := (currentFrame r)\<lparr>itemsRead := Suc (itemsRead (currentFrame r))\<rparr>,
       isTagContext := False\<rparr>"

definition advanceBuffer :: "nat \<Rightarrow> CborReader \<Rightarrow> CborReader result" where
  "advanceBuffer n r =
     (if rd_offset r + n > length (rd_data r) then Inl (CborContentException BufferOffsetOutOfBounds)
      else Inr (r\<lparr>rd_offset := rd_offset r + n, cachedState := UndefinedState\<rparr>))"

definition ensureReadCapacity :: "nat \<Rightarrow> CborReader \<Rightarrow> unit result" where
  "ensureReadCapacity n r =
     throw_if (length (rd_data r) < rd_offset r + n) (CborContentException UnexpectedEndOfBuffer)"

definition ensureReadCapacityInArray :: "bytes \<Rightarrow> nat \<Rightarrow> unit result" where
  "ensureReadCapacityInArray data n =
     throw_if (length data < n) (CborContentException UnexpectedEndOfBuffer)"

text \<open>\<open>definiteLength - itemsRead === 0\<close> with a defined \<open>definiteLength\<close>.\<close>

definition at_definite_end :: "StackFrame \<Rightarrow> bool" where
  "at_definite_end f \<longleftrightarrow> definiteLength f = Some (itemsRead f)"

definition peekInitialByte :: "CborMajorType option \<Rightarrow> CborReader \<Rightarrow> byte result" where
  "peekInitialByte expectedType r =
     (let f = currentFrame r in
      if at_definite_end f then Inl (CborInvalidOperationException NoMoreDataItems)
      else if rd_offset r = length (rd_data r) then
        (if frame_type f = None \<and> definiteLength f = None \<and> 0 < rd_offset r
         then Inl (CborInvalidOperationException EndOfRootLevel)
         else Inl (CborContentException UnexpectedEndOfBuffer))
      else let nextByte = rd_data r ! rd_offset r in
        if (frame_type f = Some ByteString \<or> frame_type f = Some Utf8String) \<and>
           \<not> (nextByte = IndefiniteLengthBreakByte \<or>
              Some (getMajorType nextByte) = frame_type f \<and>
              getAdditionalInfo nextByte \<noteq> IndefiniteLength)
        then Inl (CborContentException InvalidIndefiniteStringItem)
        else if expectedType \<noteq> None \<and> expectedType \<noteq> Some UnsignedInteger \<and>
                expectedType \<noteq> Some (getMajorType nextByte)
        then Inl (CborInvalidOperationException MajorTypeMismatch)
        else Inr nextByte)"

definition peekNextInitialByte :: "bytes \<Rightarrow> CborMajorType \<Rightarrow> byte result" where
  "peekNextInitialByte buffer expectedType =
     ebind (ensureReadCapacityInArray buffer 1) (\<lambda>_.
       let header = buffer ! 0 in
       if header \<noteq> IndefiniteLengthBreakByte \<and> getMajorType header \<noteq> expectedType
       then Inl (CborContentException InvalidIndefiniteStringItem) else Inr header)"

definition validateNextByteIsBreakByte :: "CborReader \<Rightarrow> unit result" where
  "validateNextByteIsBreakByte r =
     ebind (peekInitialByte None r) (\<lambda>b.
       throw_if (b \<noteq> IndefiniteLengthBreakByte) (CborInvalidOperationException NotAtEndOfIndefiniteItem))"

definition pushDataItem :: "CborMajorType \<Rightarrow> nat option \<Rightarrow> CborReader \<Rightarrow> CborReader" where
  "pushDataItem majorType len r =
     r\<lparr>nestedItems := currentFrame r # nestedItems r,
       currentFrame := \<lparr>frame_type = Some majorType, frameOffset = rd_offset r,
                        definiteLength = len, itemsRead = 0, currentKeyOffset = None\<rparr>,
       isTagContext := False\<rparr>"

definition restoreStackFrame :: "StackFrame \<Rightarrow> CborReader \<Rightarrow> CborReader" where
  "restoreStackFrame frame r = r\<lparr>currentFrame := frame, cachedState := UndefinedState\<rparr>"

definition popDataItem :: "CborMajorType \<Rightarrow> CborReader \<Rightarrow> CborReader result" where
  "popDataItem expectedType r =
     (let f = currentFrame r in
      case nestedItems r of
        [] \<Rightarrow> Inl (CborInvalidOperationException IsAtRootContext)
      | frame # rest \<Rightarrow>
          if frame_type f = None then Inl (CborInvalidOperationException IsAtRootContext)
          else if frame_type f \<noteq> Some expectedType
          then Inl (CborInvalidOperationException PopMajorTypeMismatch)
          else if (case definiteLength f of Some d \<Rightarrow> itemsRead f < d | None \<Rightarrow> False)
          then Inl (CborInvalidOperationException NotAtEndOfDefiniteItem)
          else if isTagContext r then Inl (CborContentException TagNotFollowedByValue)
          else Inr (restoreStackFrame frame (r\<lparr>nestedItems := rest\<rparr>)))"

text \<open>\<open>#decodeUnsignedInteger\<close>: the head's argument and the number of bytes it takes.\<close>

definition decodeUnsignedInteger :: "byte \<Rightarrow> bytes \<Rightarrow> (nat \<times> nat) result" where
  "decodeUnsignedInteger header data =
     (let info = getAdditionalInfo header in
      if info < Additional8BitData then Inr (info, 1)
      else if info = Additional8BitData then
        ebind (ensureReadCapacityInArray data 2) (\<lambda>_. Inr (unat (data ! 1), 2))
      else if info = Additional16BitData then
        ebind (ensureReadCapacityInArray data 3) (\<lambda>_. Inr (be_nat (take 2 (drop 1 data)), 3))
      else if info = Additional32BitData then
        ebind (ensureReadCapacityInArray data 5) (\<lambda>_. Inr (be_nat (take 4 (drop 1 data)), 5))
      else if info = Additional64BitData then
        ebind (ensureReadCapacityInArray data 9) (\<lambda>_. Inr (be_nat (take 8 (drop 1 data)), 9))
      else Inl (CborContentException InvalidIntegerEncoding))"

definition peekDefiniteLength :: "byte \<Rightarrow> bytes \<Rightarrow> (nat \<times> nat) result" where
  "peekDefiniteLength header data =
     ebind (decodeUnsignedInteger header data) (\<lambda>(len, bytesRead). Inr (js_Number len, bytesRead))"

definition peekUnsignedInteger :: "CborReader \<Rightarrow> (nat \<times> nat) result" where
  "peekUnsignedInteger r =
     ebind (peekInitialByte None r) (\<lambda>header.
       case getMajorType header of
         UnsignedInteger \<Rightarrow> decodeUnsignedInteger header (getRemainingBytes r)
       | NegativeInteger \<Rightarrow> Inl (CborContentException IntegerOverflow)
       | _ \<Rightarrow> Inl (CborInvalidOperationException ReaderTypeMismatch))"

definition peekSignedInteger :: "CborReader \<Rightarrow> (int \<times> nat) result" where
  "peekSignedInteger r =
     ebind (peekInitialByte None r) (\<lambda>header.
       case getMajorType header of
         UnsignedInteger \<Rightarrow>
           ebind (decodeUnsignedInteger header (getRemainingBytes r)) (\<lambda>(u, n). Inr (int u, n))
       | NegativeInteger \<Rightarrow>
           ebind (decodeUnsignedInteger header (getRemainingBytes r)) (\<lambda>(u, n). Inr (- 1 - int u, n))
       | _ \<Rightarrow> Inl (CborInvalidOperationException ReaderTypeMismatch))"

definition peekTagCore :: "CborReader \<Rightarrow> (nat \<times> nat) result" where
  "peekTagCore r =
     ebind (peekInitialByte (Some TagType) r) (\<lambda>header.
     ebind (decodeUnsignedInteger header (getRemainingBytes r)) (\<lambda>(u, n). Inr (js_Number u, n)))"

definition mapSimpleValueDataToReaderState :: "nat \<Rightarrow> CborReaderState" where
  "mapSimpleValueDataToReaderState value =
     (if value = AdditionalNull then NullState
      else if value = AdditionalFalse \<or> value = AdditionalTrue then BooleanState
      else if value = Additional16BitData then HalfPrecisionFloat
      else if value = Additional32BitData then SinglePrecisionFloat
      else if value = Additional64BitData then DoublePrecisionFloat
      else SimpleValueState)"

text \<open>The state that an initial byte announces (the last \<open>switch\<close> of \<open>#peekStateCore\<close>).\<close>

definition state_of_initial_byte :: "byte \<Rightarrow> CborReaderState" where
  "state_of_initial_byte b =
     (case getMajorType b of
        UnsignedInteger \<Rightarrow> UnsignedIntegerState
      | NegativeInteger \<Rightarrow> NegativeIntegerState
      | ByteString \<Rightarrow> if getAdditionalInfo b = IndefiniteLength then StartIndefiniteLengthByteString
                      else ByteStringState
      | Utf8String \<Rightarrow> if getAdditionalInfo b = IndefiniteLength then StartIndefiniteLengthTextString
                      else TextStringState
      | ArrayType \<Rightarrow> StartArray
      | MapType \<Rightarrow> StartMap
      | TagType \<Rightarrow> TagState
      | Simple \<Rightarrow> mapSimpleValueDataToReaderState (getAdditionalInfo b))"

definition peekStateCore :: "CborReader \<Rightarrow> CborReaderState result" where
  "peekStateCore r =
     (let f = currentFrame r in
      if at_definite_end f then
        (case frame_type f of
           None \<Rightarrow> Inr Finished
         | Some ArrayType \<Rightarrow> Inr EndArray
         | Some MapType \<Rightarrow> Inr EndMap
         | Some _ \<Rightarrow> Inl (CborInvalidOperationException InvalidMajorTypeOnStack))
      else if rd_offset r = length (rd_data r) then
        (if frame_type f = None \<and> definiteLength f = None then Inr Finished
         else Inl (CborInvalidOperationException UnexpectedEndOfBuffer))
      else let initialByte = rd_data r ! rd_offset r in
        if initialByte = IndefiniteLengthBreakByte then
          (if isTagContext r then Inl (CborContentException TagNotFollowedByValue)
           else if definiteLength f = None then
             (case frame_type f of
                None \<Rightarrow> Inl (CborContentException UnexpectedBreakByte)
              | Some ByteString \<Rightarrow> Inr EndIndefiniteLengthByteString
              | Some Utf8String \<Rightarrow> Inr EndIndefiniteLengthTextString
              | Some ArrayType \<Rightarrow> Inr EndArray
              | Some MapType \<Rightarrow>
                  if even (itemsRead f) then Inr EndMap else Inl (CborContentException KeyMissingValue)
              | Some _ \<Rightarrow> Inl (CborInvalidOperationException InvalidMajorTypeOnStack))
           else Inl (CborContentException UnexpectedBreakByte))
        else if (frame_type f = Some ByteString \<or> frame_type f = Some Utf8String) \<and>
                Some (getMajorType initialByte) \<noteq> frame_type f
        then Inl (CborContentException InvalidIndefiniteStringItem)
        else Inr (state_of_initial_byte initialByte))"

subsection \<open>Public operations\<close>

definition peekState :: "CborReader \<Rightarrow> (CborReaderState \<times> CborReader) result" where
  "peekState r =
     (if cachedState r = UndefinedState
      then ebind (peekStateCore r) (\<lambda>s. Inr (s, r\<lparr>cachedState := s\<rparr>))
      else Inr (cachedState r, r))"

definition readStartArray :: "CborReader \<Rightarrow> (nat option \<times> CborReader) result" where
  "readStartArray r =
     ebind (peekInitialByte (Some ArrayType) r) (\<lambda>header.
       if getAdditionalInfo header = IndefiniteLength then
         ebind (advanceBuffer 1 r) (\<lambda>r. Inr (None, pushDataItem ArrayType None r))
       else
         ebind (peekDefiniteLength header (getRemainingBytes r)) (\<lambda>(len, bytesRead).
         ebind (advanceBuffer bytesRead r) (\<lambda>r.
           Inr (Some len, pushDataItem ArrayType (Some len) r))))"

definition readEndArray :: "CborReader \<Rightarrow> CborReader result" where
  "readEndArray r =
     (if definiteLength (currentFrame r) = None then
        ebind (validateNextByteIsBreakByte r) (\<lambda>_.
        ebind (popDataItem ArrayType r) (\<lambda>r. advanceBuffer 1 (advanceDataItemCounters r)))
      else ebind (popDataItem ArrayType r) (\<lambda>r. Inr (advanceDataItemCounters r)))"

definition readInt :: "CborReader \<Rightarrow> (int \<times> CborReader) result" where
  "readInt r =
     ebind (peekSignedInteger r) (\<lambda>(value, n).
     ebind (advanceBuffer n r) (\<lambda>r. Inr (value, advanceDataItemCounters r)))"

definition readUInt :: "CborReader \<Rightarrow> (nat \<times> CborReader) result" where
  "readUInt r =
     ebind (peekUnsignedInteger r) (\<lambda>(value, n).
     ebind (advanceBuffer n r) (\<lambda>r. Inr (value, advanceDataItemCounters r)))"

text \<open>
  \<open>readDouble\<close> returns the payload of the float with its width; reading it as an IEEE 754 value is
  not modelled here.
\<close>

datatype float_payload = Half bytes | Single bytes | Double bytes

definition readDouble :: "CborReader \<Rightarrow> (float_payload \<times> CborReader) result" where
  "readDouble r =
     ebind (peekInitialByte (Some Simple) r) (\<lambda>header.
       let remaining = getRemainingBytes r; info = getAdditionalInfo header in
       if info = Additional16BitData then
         ebind (ensureReadCapacity 3 r) (\<lambda>_.
         ebind (advanceBuffer 3 r) (\<lambda>r.
           Inr (Half (take 2 (drop 1 remaining)), advanceDataItemCounters r)))
       else if info = Additional32BitData then
         ebind (ensureReadCapacity 5 r) (\<lambda>_.
         ebind (advanceBuffer 5 r) (\<lambda>r.
           Inr (Single (take 4 (drop 1 remaining)), advanceDataItemCounters r)))
       else if info = Additional64BitData then
         ebind (ensureReadCapacity 9 r) (\<lambda>_.
         ebind (advanceBuffer 9 r) (\<lambda>r.
           Inr (Double (take 8 (drop 1 remaining)), advanceDataItemCounters r)))
       else Inl (CborInvalidOperationException NotAFloatEncoding))"

definition readSimpleValue :: "CborReader \<Rightarrow> (nat \<times> CborReader) result" where
  "readSimpleValue r =
     ebind (peekInitialByte (Some Simple) r) (\<lambda>header.
       if getAdditionalInfo header < Additional8BitData then
         ebind (advanceBuffer 1 r) (\<lambda>r. Inr (getAdditionalInfo header, advanceDataItemCounters r))
       else if getAdditionalInfo header = Additional8BitData then
         ebind (ensureReadCapacity 2 r) (\<lambda>_.
           let value = unat (rd_data r ! (rd_offset r + 1)) in
           ebind (advanceBuffer 2 r) (\<lambda>r. Inr (value, advanceDataItemCounters r)))
       else Inl (CborInvalidOperationException NotASimpleValueEncoding))"

definition readCborNegativeIntegerRepresentation :: "CborReader \<Rightarrow> (nat \<times> CborReader) result" where
  "readCborNegativeIntegerRepresentation r =
     ebind (peekInitialByte (Some NegativeInteger) r) (\<lambda>header.
     ebind (decodeUnsignedInteger header (getRemainingBytes r)) (\<lambda>(value, n).
     ebind (advanceBuffer n r) (\<lambda>r. Inr (value, advanceDataItemCounters r))))"

definition setCurrentKeyOffset :: "CborReader \<Rightarrow> CborReader" where
  "setCurrentKeyOffset r =
     r\<lparr>currentFrame := (currentFrame r)\<lparr>currentKeyOffset := Some (rd_offset r)\<rparr>\<rparr>"

definition readStartMap :: "CborReader \<Rightarrow> (nat option \<times> CborReader) result" where
  "readStartMap r =
     ebind (peekInitialByte (Some MapType) r) (\<lambda>header.
       if getAdditionalInfo header = IndefiniteLength then
         ebind (advanceBuffer 1 r) (\<lambda>r.
           Inr (None, setCurrentKeyOffset (pushDataItem MapType None r)))
       else
         let buffer = getRemainingBytes r in
         ebind (peekDefiniteLength header buffer) (\<lambda>(len, bytesRead).
           if length buffer < 2 * len + bytesRead
           then Inl (CborContentException DefiniteLengthExceedsBuffer)
           else ebind (advanceBuffer bytesRead r) (\<lambda>r.
             Inr (Some len, setCurrentKeyOffset (pushDataItem MapType (Some (2 * len)) r)))))"

definition readEndMap :: "CborReader \<Rightarrow> CborReader result" where
  "readEndMap r =
     (if definiteLength (currentFrame r) = None then
        ebind (validateNextByteIsBreakByte r) (\<lambda>_.
          if odd (itemsRead (currentFrame r)) then Inl (CborContentException KeyMissingValue)
          else ebind (popDataItem MapType r) (\<lambda>r. advanceBuffer 1 (advanceDataItemCounters r)))
      else ebind (popDataItem MapType r) (\<lambda>r. Inr (advanceDataItemCounters r)))"

definition readBoolean :: "CborReader \<Rightarrow> (bool \<times> CborReader) result" where
  "readBoolean r =
     ebind (peekInitialByte (Some Simple) r) (\<lambda>header.
       let val = getAdditionalInfo header in
       if val \<noteq> AdditionalTrue \<and> val \<noteq> AdditionalFalse
       then Inl (CborContentException NotABooleanEncoding)
       else ebind (advanceBuffer 1 r) (\<lambda>r. Inr (val = AdditionalTrue, advanceDataItemCounters r)))"

definition readNull :: "CborReader \<Rightarrow> CborReader result" where
  "readNull r =
     ebind (peekInitialByte (Some Simple) r) (\<lambda>header.
       if getAdditionalInfo header \<noteq> AdditionalNull
       then Inl (CborContentException NotANullEncoding)
       else ebind (advanceBuffer 1 r) (\<lambda>r. Inr (advanceDataItemCounters r)))"

text \<open>
  The start and the end of an indefinite-length string, for byte strings (major type 2) and text
  strings (major type 3).
\<close>

definition readStartIndefiniteLengthString :: "CborMajorType \<Rightarrow> CborReader \<Rightarrow> CborReader result" where
  "readStartIndefiniteLengthString ty r =
     ebind (peekInitialByte (Some ty) r) (\<lambda>header.
       if getAdditionalInfo header \<noteq> IndefiniteLength
       then Inl (CborInvalidOperationException NotIndefiniteLengthString)
       else ebind (advanceBuffer 1 r) (\<lambda>r. Inr (pushDataItem ty None r)))"

definition readEndIndefiniteLengthString :: "CborMajorType \<Rightarrow> CborReader \<Rightarrow> CborReader result" where
  "readEndIndefiniteLengthString ty r =
     ebind (validateNextByteIsBreakByte r) (\<lambda>_.
     ebind (popDataItem ty r) (\<lambda>r. advanceBuffer 1 (advanceDataItemCounters r)))"

definition readStartIndefiniteLengthByteString :: "CborReader \<Rightarrow> CborReader result" where
  "readStartIndefiniteLengthByteString r = readStartIndefiniteLengthString ByteString r"

definition readEndIndefiniteLengthByteString :: "CborReader \<Rightarrow> CborReader result" where
  "readEndIndefiniteLengthByteString r = readEndIndefiniteLengthString ByteString r"

definition readStartIndefiniteLengthTextString :: "CborReader \<Rightarrow> CborReader result" where
  "readStartIndefiniteLengthTextString r = readStartIndefiniteLengthString Utf8String r"

definition readEndIndefiniteLengthTextString :: "CborReader \<Rightarrow> CborReader result" where
  "readEndIndefiniteLengthTextString r = readEndIndefiniteLengthString Utf8String r"

lemma decodeUnsignedInteger_bytesRead:
  "decodeUnsignedInteger b data = Inr (v, n) \<Longrightarrow> 1 \<le> n \<and> (n \<le> length data \<or> n = 1)"
  by (auto simp: decodeUnsignedInteger_def ensureReadCapacityInArray_def Let_def split: if_splits)

lemma peekDefiniteLength_bytesRead:
  "peekDefiniteLength b data = Inr (v, n) \<Longrightarrow> 1 \<le> n \<and> (n \<le> length data \<or> n = 1)"
  unfolding peekDefiniteLength_def using decodeUnsignedInteger_bytesRead by fastforce

text \<open>
  The loop of \<open>#readIndefiniteLengthByteStringConcatenated\<close>: \<open>i\<close> is the position in \<open>data\<close>,
  \<open>chunks\<close> the chunks read so far. It ends because every chunk has a head of at least one byte.
\<close>

function readIndefiniteChunks ::
    "CborMajorType \<Rightarrow> bytes \<Rightarrow> nat \<Rightarrow> bytes \<Rightarrow> (bytes \<times> nat) result" where
  "readIndefiniteChunks ty data i chunks =
     ebind (peekNextInitialByte (drop i data) ty) (\<lambda>nextInitialByte.
       if nextInitialByte = IndefiniteLengthBreakByte then Inr (chunks, i + 1)
       else ebind (peekDefiniteLength nextInitialByte (drop i data)) (\<lambda>(chunkLength, bytesRead).
         readIndefiniteChunks ty data (i + (bytesRead + chunkLength))
           (chunks @ take chunkLength (drop (i + bytesRead) data))))"
  by pat_completeness auto
termination
proof (relation "measure (\<lambda>(ty, data, i, chunks). length data - i)", goal_cases)
  case 1
  then show ?case by simp
next
  case (2 ty data i chunks b x len n)
  then have "i < length data"
    by (auto simp: peekNextInitialByte_def ensureReadCapacityInArray_def split: if_splits)
  moreover have "1 \<le> n" using 2 peekDefiniteLength_bytesRead by auto
  ultimately show ?case by auto
qed

declare readIndefiniteChunks.simps [simp del]

definition readIndefiniteLengthByteStringConcatenated ::
    "CborMajorType \<Rightarrow> CborReader \<Rightarrow> (bytes \<times> nat) result" where
  "readIndefiniteLengthByteStringConcatenated ty r =
     readIndefiniteChunks ty (getRemainingBytes r) 1 []"

text \<open>
  The definite-length part that \<open>readByteString\<close>, \<open>readDefiniteLengthByteString\<close>,
  \<open>readTextString\<close> and \<open>readDefiniteLengthTextString\<close> share.
\<close>

definition readDefiniteString :: "byte \<Rightarrow> CborReader \<Rightarrow> (bytes \<times> CborReader) result" where
  "readDefiniteString header r =
     (let buffer = getRemainingBytes r in
      ebind (peekDefiniteLength header buffer) (\<lambda>(len, bytesRead).
      ebind (ensureReadCapacity (bytesRead + len) r) (\<lambda>_.
      ebind (advanceBuffer (bytesRead + len) r) (\<lambda>r.
        Inr (take len (drop bytesRead buffer), advanceDataItemCounters r)))))"

definition readString :: "CborMajorType \<Rightarrow> CborReader \<Rightarrow> (bytes \<times> CborReader) result" where
  "readString ty r =
     ebind (peekInitialByte (Some ty) r) (\<lambda>header.
       if getAdditionalInfo header = IndefiniteLength then
         ebind (readIndefiniteLengthByteStringConcatenated ty r) (\<lambda>(val, encodingLength).
         ebind (advanceBuffer encodingLength r) (\<lambda>r. Inr (val, advanceDataItemCounters r)))
       else readDefiniteString header r)"

definition readByteString :: "CborReader \<Rightarrow> (bytes \<times> CborReader) result" where
  "readByteString r = readString ByteString r"

definition readTextString :: "CborReader \<Rightarrow> (js_string \<times> CborReader) result" where
  "readTextString r = ebind (readString Utf8String r) (\<lambda>(val, r). Inr (utf8_decode val, r))"

definition readDefiniteLengthByteString :: "CborReader \<Rightarrow> (bytes \<times> CborReader) result" where
  "readDefiniteLengthByteString r =
     ebind (peekInitialByte (Some ByteString) r) (\<lambda>header.
       if getAdditionalInfo header = IndefiniteLength
       then Inl (CborInvalidOperationException ExpectedDefiniteLength)
       else readDefiniteString header r)"

definition readDefiniteLengthTextString :: "CborReader \<Rightarrow> (js_string \<times> CborReader) result" where
  "readDefiniteLengthTextString r =
     ebind (peekInitialByte (Some Utf8String) r) (\<lambda>header.
       if getAdditionalInfo header = IndefiniteLength
       then Inl (CborInvalidOperationException ExpectedDefiniteLength)
       else ebind (readDefiniteString header r) (\<lambda>(val, r). Inr (utf8_decode val, r)))"

definition readTag :: "CborReader \<Rightarrow> (nat \<times> CborReader) result" where
  "readTag r =
     ebind (peekTagCore r) (\<lambda>(tag, n).
     ebind (advanceBuffer n r) (\<lambda>r. Inr (tag, r\<lparr>isTagContext := True\<rparr>)))"

definition peekTag :: "CborReader \<Rightarrow> nat result" where
  "peekTag r = ebind (peekTagCore r) (\<lambda>(tag, n). Inr tag)"

subsection \<open>Skipping a data item\<close>

text \<open>
  A measure for the loops: a step consumes input, or closes a frame without consuming input
  (the end of a definite-length array or map).
\<close>

definition reader_size :: "CborReader \<Rightarrow> nat" where
  "reader_size r = 2 * (length (rd_data r) - rd_offset r) + length (nestedItems r)"

lemma advanceBuffer_eq_Inr [simp]:
  "advanceBuffer n r = Inr r' \<longleftrightarrow>
     rd_offset r + n \<le> length (rd_data r) \<and>
     r' = r\<lparr>rd_offset := rd_offset r + n, cachedState := UndefinedState\<rparr>"
  by (auto simp: advanceBuffer_def)

text \<open>What every successful read guarantees: same data, no step back, a smaller measure.\<close>

definition progress :: "CborReader \<Rightarrow> CborReader \<Rightarrow> bool" where
  "progress r r' \<longleftrightarrow> rd_data r' = rd_data r \<and> rd_offset r \<le> rd_offset r' \<and>
     (rd_offset r' = rd_offset r \<or> rd_offset r' \<le> length (rd_data r)) \<and>
     reader_size r' < reader_size r"

lemma progress_trans [trans]: "progress r r' \<Longrightarrow> progress r' r'' \<Longrightarrow> progress r r''"
  by (auto simp: progress_def)

lemma readTag_progress: "readTag r = Inr (t, r') \<Longrightarrow> progress r r'"
  unfolding readTag_def peekTagCore_def
  by (auto dest!: decodeUnsignedInteger_bytesRead simp: progress_def reader_size_def)

text \<open>\<open>while ((state = this.#peekStateCore()) === CborReaderState.Tag) this.readTag();\<close>\<close>

function skipTags :: "CborReader \<Rightarrow> (CborReaderState \<times> CborReader) result" where
  "skipTags r =
     ebind (peekStateCore r) (\<lambda>state.
       if state = TagState then ebind (readTag r) (\<lambda>(tag, r'). skipTags r')
       else Inr (state, r))"
  by pat_completeness auto
termination
  by (relation "measure reader_size") (auto dest!: readTag_progress simp: progress_def)

declare skipTags.simps [simp del]

text \<open>The body of \<open>#skipNextNode\<close> after the tags; the result is the change of depth.\<close>

definition skipNode :: "CborReaderState \<Rightarrow> int \<Rightarrow> CborReader \<Rightarrow> (int \<times> CborReader) result" where
  "skipNode state depth r =
     (case state of
        UnsignedIntegerState \<Rightarrow> ebind (readUInt r) (\<lambda>(v, r). Inr (depth, r))
      | NegativeIntegerState \<Rightarrow>
          ebind (readCborNegativeIntegerRepresentation r) (\<lambda>(v, r). Inr (depth, r))
      | ByteStringState \<Rightarrow> ebind (readByteString r) (\<lambda>(v, r). Inr (depth, r))
      | TextStringState \<Rightarrow> ebind (readTextString r) (\<lambda>(v, r). Inr (depth, r))
      | StartIndefiniteLengthByteString \<Rightarrow>
          ebind (readStartIndefiniteLengthByteString r) (\<lambda>r. Inr (depth + 1, r))
      | EndIndefiniteLengthByteString \<Rightarrow>
          ebind (readEndIndefiniteLengthByteString r) (\<lambda>r. Inr (depth - 1, r))
      | StartIndefiniteLengthTextString \<Rightarrow>
          ebind (readStartIndefiniteLengthTextString r) (\<lambda>r. Inr (depth + 1, r))
      | EndIndefiniteLengthTextString \<Rightarrow>
          if depth = 0 then Inl (CborInvalidOperationException SkipInvalidState)
          else ebind (readEndIndefiniteLengthTextString r) (\<lambda>r. Inr (depth - 1, r))
      | StartArray \<Rightarrow> ebind (readStartArray r) (\<lambda>(l, r). Inr (depth + 1, r))
      | EndArray \<Rightarrow>
          if depth = 0 then Inl (CborInvalidOperationException SkipInvalidState)
          else ebind (readEndArray r) (\<lambda>r. Inr (depth - 1, r))
      | StartMap \<Rightarrow> ebind (readStartMap r) (\<lambda>(l, r). Inr (depth + 1, r))
      | EndMap \<Rightarrow>
          if depth = 0 then Inl (CborInvalidOperationException SkipInvalidState)
          else ebind (readEndMap r) (\<lambda>r. Inr (depth - 1, r))
      | HalfPrecisionFloat \<Rightarrow> ebind (readDouble r) (\<lambda>(v, r). Inr (depth, r))
      | SinglePrecisionFloat \<Rightarrow> ebind (readDouble r) (\<lambda>(v, r). Inr (depth, r))
      | DoublePrecisionFloat \<Rightarrow> ebind (readDouble r) (\<lambda>(v, r). Inr (depth, r))
      | NullState \<Rightarrow> ebind (readSimpleValue r) (\<lambda>(v, r). Inr (depth, r))
      | BooleanState \<Rightarrow> ebind (readSimpleValue r) (\<lambda>(v, r). Inr (depth, r))
      | SimpleValueState \<Rightarrow> ebind (readSimpleValue r) (\<lambda>(v, r). Inr (depth, r))
      | _ \<Rightarrow> Inl (CborInvalidOperationException SkipInvalidState))"

definition skipNextNode :: "int \<Rightarrow> CborReader \<Rightarrow> (int \<times> CborReader) result" where
  "skipNextNode initialDepth r = ebind (skipTags r) (\<lambda>(state, r). skipNode state initialDepth r)"

named_theorems progress_intros \<open>every read makes progress\<close>

lemma readUInt_progress [progress_intros]: "readUInt r = Inr (v, r') \<Longrightarrow> progress r r'"
  unfolding readUInt_def peekUnsignedInteger_def
  by (auto simp: advanceDataItemCounters_def dest!: decodeUnsignedInteger_bytesRead simp: progress_def reader_size_def split: CborMajorType.splits)

lemma readInt_progress [progress_intros]: "readInt r = Inr (v, r') \<Longrightarrow> progress r r'"
  unfolding readInt_def peekSignedInteger_def
  by (auto simp: advanceDataItemCounters_def dest!: decodeUnsignedInteger_bytesRead simp: progress_def reader_size_def split: CborMajorType.splits)

lemma readNegative_progress [progress_intros]:
  "readCborNegativeIntegerRepresentation r = Inr (v, r') \<Longrightarrow> progress r r'"
  unfolding readCborNegativeIntegerRepresentation_def
  by (auto simp: advanceDataItemCounters_def dest!: decodeUnsignedInteger_bytesRead simp: progress_def reader_size_def)

lemma readIndefiniteChunks_length:
  "readIndefiniteChunks ty data i cs = Inr (v, n) \<Longrightarrow> i < n"
proof (induction ty data i cs arbitrary: v n rule: readIndefiniteChunks.induct)
  case (1 ty data i cs)
  from "1.prems" show ?case
    apply (subst (asm) readIndefiniteChunks.simps)
    using "1.IH" by (fastforce split: if_splits)
qed

lemma readString_progress: "readString ty r = Inr (v, r') \<Longrightarrow> progress r r'"
  unfolding readString_def readDefiniteString_def readIndefiniteLengthByteStringConcatenated_def
  by (auto simp: advanceDataItemCounters_def Let_def dest!: peekDefiniteLength_bytesRead
      readIndefiniteChunks_length simp: progress_def reader_size_def split: if_splits)

lemma readByteString_progress [progress_intros]: "readByteString r = Inr (v, r') \<Longrightarrow> progress r r'"
  by (auto simp: readByteString_def intro: readString_progress)

lemma readTextString_progress [progress_intros]: "readTextString r = Inr (v, r') \<Longrightarrow> progress r r'"
  by (auto simp: readTextString_def intro: readString_progress)

lemma readStart_progress [progress_intros]:
  "readStartArray r = Inr (l, r') \<Longrightarrow> progress r r'"
  "readStartMap r = Inr (l, r') \<Longrightarrow> progress r r'"
  "readStartIndefiniteLengthByteString r = Inr r' \<Longrightarrow> progress r r'"
  "readStartIndefiniteLengthTextString r = Inr r' \<Longrightarrow> progress r r'"
  unfolding readStartArray_def readStartMap_def readStartIndefiniteLengthByteString_def
    readStartIndefiniteLengthTextString_def readStartIndefiniteLengthString_def
  by ((auto simp: pushDataItem_def setCurrentKeyOffset_def Let_def
      dest!: peekDefiniteLength_bytesRead simp: progress_def reader_size_def split: if_splits), linarith+)

lemma popDataItem_Inr:
  "popDataItem ty r = Inr r' \<Longrightarrow>
     \<exists>frame rest. nestedItems r = frame # rest \<and>
       r' = r\<lparr>nestedItems := rest, currentFrame := frame, cachedState := UndefinedState\<rparr>"
  by (auto simp: popDataItem_def restoreStackFrame_def Let_def split: list.splits if_splits)

lemma readEnd_progress [progress_intros]:
  "readEndArray r = Inr r' \<Longrightarrow> progress r r'"
  "readEndMap r = Inr r' \<Longrightarrow> progress r r'"
  "readEndIndefiniteLengthByteString r = Inr r' \<Longrightarrow> progress r r'"
  "readEndIndefiniteLengthTextString r = Inr r' \<Longrightarrow> progress r r'"
  unfolding readEndArray_def readEndMap_def readEndIndefiniteLengthByteString_def
    readEndIndefiniteLengthTextString_def readEndIndefiniteLengthString_def
  by (auto simp: advanceDataItemCounters_def progress_def reader_size_def
      dest!: popDataItem_Inr split: if_splits)

lemma readSimple_progress [progress_intros]:
  "readDouble r = Inr (x, r') \<Longrightarrow> progress r r'"
  "readSimpleValue r = Inr (v, r') \<Longrightarrow> progress r r'"
  unfolding readDouble_def readSimpleValue_def
  by (auto simp: advanceDataItemCounters_def Let_def ensureReadCapacity_def simp: progress_def reader_size_def
      split: if_splits)

lemma skipTags_progress: "skipTags r = Inr (s, r') \<Longrightarrow> r' = r \<or> progress r r'"
proof (induction r rule: skipTags.induct)
  case (1 r)
  from "1.prems" show ?case
    apply (subst (asm) skipTags.simps)
    using "1.IH" by (fastforce split: if_splits dest: readTag_progress intro: progress_trans)
qed

lemma skipNode_progress: "skipNode s d r = Inr (d', r') \<Longrightarrow> progress r r'"
  by (cases s) (auto simp: skipNode_def intro: progress_intros split: if_splits)

lemma skipNextNode_progress: "skipNextNode d r = Inr (d', r') \<Longrightarrow> progress r r'"
  unfolding skipNextNode_def
  by (auto dest!: skipTags_progress skipNode_progress intro: progress_trans)

text \<open>The \<open>do \<dots> while (depth > 0)\<close> loop of \<open>readEncodedValue\<close>. It always ends.\<close>

function skipLoop :: "int \<Rightarrow> CborReader \<Rightarrow> CborReader result" where
  "skipLoop depth r =
     ebind (skipNextNode depth r) (\<lambda>(depth', r'). if 0 < depth' then skipLoop depth' r' else Inr r')"
  by pat_completeness auto
termination
  by (relation "measure (\<lambda>(d, r). reader_size r)")
    (auto dest: skipNextNode_progress simp: progress_def)

declare skipLoop.simps [simp del]

definition readEncodedValue :: "CborReader \<Rightarrow> (bytes \<times> CborReader) result" where
  "readEncodedValue r =
     ebind (skipLoop 0 r) (\<lambda>r'.
       Inr (take (rd_offset r' - rd_offset r) (drop (rd_offset r) (rd_data r')), r'))"

declare advanceBuffer_eq_Inr [simp del]

definition skipValue :: "CborReader \<Rightarrow> CborReader result" where
  "skipValue r = ebind (readEncodedValue r) (\<lambda>(v, r). Inr r)"

end
