(* ===== verification/Cbor_Writer.thy ===== *)
theory Cbor_Writer
  imports Cbor_Types Utf8
begin

text \<open>
  \<open>CborWriter\<close> (\<open>core/src/Serialization/CBOR/CborWriter.ts\<close>). The writer's only state is its
  buffer, so an operation is a function from the buffer to the new buffer or an exception
  (Node's \<open>writeUIntN\<close> functions throw a \<open>RangeError\<close> outside their range). The private
  \<open>writeTypeValue\<close> is shown equal to the reference encoding \<open>enc_head\<close> of RFC 7049 heads.
\<close>

type_synonym writer = bytes
type_synonym writer_op = "writer \<Rightarrow> writer result"

subsection \<open>Operations\<close>

definition pushUInt8 :: "int \<Rightarrow> writer_op" where
  "pushUInt8 value w =
     (if 0 \<le> value \<and> value < 256 then Inr (w @ [byte_of (nat value)]) else Inl RangeError)"

definition pushUInt16 :: "int \<Rightarrow> writer_op" where
  "pushUInt16 value w =
     (if 0 \<le> value \<and> value < 65536 then Inr (w @ be_bytes 2 (nat value)) else Inl RangeError)"

definition pushUInt32 :: "int \<Rightarrow> writer_op" where
  "pushUInt32 value w =
     (if 0 \<le> value \<and> value < 4294967296 then Inr (w @ be_bytes 4 (nat value)) else Inl RangeError)"

definition writeTypeValue :: "CborMajorType \<Rightarrow> int \<Rightarrow> writer_op" where
  "writeTypeValue majorType value w =
     (let m = int (32 * major_num majorType) in
      if value < 24 then pushUInt8 (m OR to_int32 (js_Number_int value)) w
      else if value < 256 then ebind (pushUInt8 (m OR 24) w) (pushUInt8 value)
      else if value < 65536 then ebind (pushUInt8 (m OR 25) w) (pushUInt16 value)
      else if value < 4294967296 then ebind (pushUInt8 (m OR 26) w) (pushUInt32 value)
      else ebind (pushUInt8 (m OR 27) w) (\<lambda>w.
             ebind (pushUInt32 (value div 4294967296) w) (pushUInt32 (value mod 4294967296))))"

definition writeEncodedValue :: "bytes \<Rightarrow> writer_op" where
  "writeEncodedValue value w = Inr (w @ value)"

definition writeTag :: "int \<Rightarrow> writer_op" where
  "writeTag tag w = writeTypeValue TagType tag w"

text \<open>\<open>value.toString(16)\<close>, left-padded to whole bytes and read back as bytes.\<close>

fun magnitude_bytes :: "nat \<Rightarrow> bytes" where
  "magnitude_bytes n = (if n < 256 then [byte_of n] else magnitude_bytes (n div 256) @ [byte_of n])"

declare magnitude_bytes.simps [simp del]

definition writeBigInteger :: "int \<Rightarrow> writer_op" where
  "writeBigInteger value w =
     (let (v, tag) = (if value < 0 then (- value + (- 1), CborTag_NegativeBigNum)
                      else (value, CborTag_UnsignedBigNum));
          buffer = magnitude_bytes (nat v)
      in ebind (writeTag (int tag) w) (\<lambda>w.
         ebind (writeTypeValue ByteString (int (length buffer)) w) (\<lambda>w. Inr (w @ buffer))))"

definition writeBoolean :: "bool \<Rightarrow> writer_op" where
  "writeBoolean value w = pushUInt8 (if value then 0xf5 else 0xf4) w"

definition writeByteString :: "bytes \<Rightarrow> writer_op" where
  "writeByteString value w =
     ebind (writeTypeValue ByteString (int (length value)) w) (\<lambda>w. Inr (w @ value))"

definition writeTextString :: "js_string \<Rightarrow> writer_op" where
  "writeTextString value w =
     ebind (writeTypeValue Utf8String (int (length (utf8_encode value))) w)
       (\<lambda>w. Inr (w @ utf8_encode value))"

definition writeStartArray :: "nat option \<Rightarrow> writer_op" where
  "writeStartArray len w =
     (case len of Some l \<Rightarrow> writeTypeValue ArrayType (int l) w | None \<Rightarrow> pushUInt8 0x9f w)"

definition writeEndArray :: "writer_op" where
  "writeEndArray w = pushUInt8 0xff w"

definition writeStartMap :: "nat option \<Rightarrow> writer_op" where
  "writeStartMap len w =
     (case len of Some l \<Rightarrow> writeTypeValue MapType (int l) w | None \<Rightarrow> pushUInt8 0xbf w)"

definition writeEndMap :: "writer_op" where
  "writeEndMap w = pushUInt8 0xff w"

definition writeInt :: "int \<Rightarrow> writer_op" where
  "writeInt value w =
     (if value < 0 then writeTypeValue NegativeInteger (- (value + 1)) w
      else writeTypeValue UnsignedInteger value w)"

definition writeNull :: "writer_op" where
  "writeNull w = pushUInt8 0xf6 w"

definition writeUndefined :: "writer_op" where
  "writeUndefined w = pushUInt8 0xf7 w"

definition encode :: "writer \<Rightarrow> bytes" where
  "encode w = w"

definition reset :: "writer \<Rightarrow> writer" where
  "reset w = []"

text \<open>A \<open>toCbor\<close> method: a new writer, the given operations in order, then the encoded bytes.\<close>

primrec run_ops :: "writer_op list \<Rightarrow> writer_op" where
  "run_ops [] w = Inr w"
| "run_ops (f # fs) w = ebind (f w) (run_ops fs)"

definition write_all :: "writer_op list \<Rightarrow> bytes result" where
  "write_all ops = ebind (run_ops ops []) (\<lambda>w. Inr (encode w))"

subsection \<open>The reference encoding\<close>

text \<open>The shortest head for major type \<open>m\<close> and argument \<open>n\<close> (RFC 7049, section 2.1).\<close>

definition enc_head :: "CborMajorType \<Rightarrow> nat \<Rightarrow> bytes" where
  "enc_head m n =
     (if n < 24 then [initial_byte m n]
      else if n < 256 then initial_byte m 24 # be_bytes 1 n
      else if n < 65536 then initial_byte m 25 # be_bytes 2 n
      else if n < 4294967296 then initial_byte m 26 # be_bytes 4 n
      else initial_byte m 27 # be_bytes 8 n)"

definition enc_int :: "int \<Rightarrow> bytes" where
  "enc_int i = (if i < 0 then enc_head NegativeInteger (nat (- (i + 1)))
                else enc_head UnsignedInteger (nat i))"

definition enc_bytes :: "bytes \<Rightarrow> bytes" where
  "enc_bytes b = enc_head ByteString (length b) @ b"

definition enc_text :: "js_string \<Rightarrow> bytes" where
  "enc_text s = enc_head Utf8String (length (utf8_encode s)) @ utf8_encode s"

text \<open>The integers, and the sizes, that a CBOR head can carry.\<close>

definition cbor_int :: "int \<Rightarrow> bool" where
  "cbor_int i \<longleftrightarrow> - 18446744073709551616 \<le> i \<and> i < 18446744073709551616"

lemma be_bytes_split: "be_bytes (j + k) n = be_bytes j (n div 256 ^ k) @ be_bytes k n"
  by (induction k arbitrary: n) (simp_all add: div_mult2_eq mult.commute flip: div_mult2_eq)

lemma be_bytes_mod: "be_bytes k (n mod 256 ^ k) = be_bytes k n"
proof (induction k arbitrary: n)
  case 0
  then show ?case by simp
next
  case (Suc k)
  have "(n mod (256 * 256 ^ k)) div 256 = n div 256 mod 256 ^ k"
    by (simp add: mod_mult2_eq)
  moreover have "byte_of (n mod (256 * 256 ^ k)) = byte_of n"
    unfolding word_unat_eq_iff unat_byte_of by (simp add: mod_mult2_eq)
  ultimately show ?case using Suc.IH [of "n div 256"] by simp
qed

lemma pushUInt8_initial [simp]:
  "i < 32 \<Longrightarrow> pushUInt8 (int (32 * major_num m) OR int i) w = Inr (w @ [initial_byte m i])"
proof -
  assume i: "i < 32"
  then have "32 * major_num m + i < 256" using major_num_less [of m] by linarith
  then show ?thesis
    unfolding int_or_disjoint [OF i] by (simp add: pushUInt8_def initial_byte_def del: of_nat_add of_nat_mult)
qed

text \<open>Numerals and the masked forms the writer uses.\<close>

lemmas pushUInt8_numeral = pushUInt8_initial [of 24] pushUInt8_initial [of 25]
  pushUInt8_initial [of 26] pushUInt8_initial [of 27]

lemma writeTypeValue_enc:
  assumes "0 \<le> v" and "v < 18446744073709551616"
  shows "writeTypeValue m v w = Inr (w @ enc_head m (nat v))"
proof -
  obtain n where v: "v = int n" and n: "n < 18446744073709551616"
    using assms by (metis nat_less_numeral_power_cancel_iff nonneg_int_cases of_nat_less_numeral_iff)
  have hi: "n div 4294967296 < 4294967296" using n by linarith
  have split8: "be_bytes 8 n = be_bytes 4 (n div 4294967296) @ be_bytes 4 (n mod 4294967296)"
    using be_bytes_split [of 4 4 n] be_bytes_mod [of 4 n] by simp
  show ?thesis
    using pushUInt8_initial [of n m w] pushUInt8_numeral [of m w] hi
    by (auto simp: v writeTypeValue_def enc_head_def Let_def pushUInt8_def pushUInt16_def
        pushUInt32_def split8 nat_div_distrib nat_mod_distrib)
qed

lemma writeTypeValue_out_of_range:
  "- 2147483648 \<le> v \<and> v < 0 \<or> 18446744073709551616 \<le> v \<Longrightarrow> writeTypeValue m v w = Inl RangeError"
proof (elim disjE conjE)
  assume small: "- 2147483648 \<le> v" and "v < 0"
  then have "int (32 * major_num m) OR v < 0" by (simp add: or_negative_int_iff)
  with \<open>v < 0\<close> small show ?thesis by (simp add: writeTypeValue_def pushUInt8_def Let_def)
next
  assume v: "18446744073709551616 \<le> v"
  then have "4294967296 \<le> v div 4294967296" by linarith
  with v show ?thesis
    using pushUInt8_initial [of 27 m w] by (simp add: writeTypeValue_def Let_def pushUInt32_def)
qed

lemma writeTypeValue_nat [simp]:
  "n < 18446744073709551616 \<Longrightarrow> writeTypeValue m (int n) w = Inr (w @ enc_head m n)"
  by (simp add: writeTypeValue_enc)

lemma writeInt_enc [simp]: "cbor_int i \<Longrightarrow> writeInt i w = Inr (w @ enc_int i)"
  by (simp add: writeInt_def enc_int_def cbor_int_def writeTypeValue_enc)

lemma writeInt_out_of_range: "\<not> cbor_int i \<Longrightarrow> writeInt i w = Inl RangeError"
  by (auto simp: writeInt_def cbor_int_def writeTypeValue_out_of_range)

lemma writeByteString_enc [simp]:
  "length b < 18446744073709551616 \<Longrightarrow> writeByteString b w = Inr (w @ enc_bytes b)"
  by (simp add: writeByteString_def enc_bytes_def)

lemma writeTextString_enc [simp]:
  "length (utf8_encode s) < 18446744073709551616 \<Longrightarrow> writeTextString s w = Inr (w @ enc_text s)"
  by (simp add: writeTextString_def enc_text_def)

lemma writeTag_enc [simp]:
  "0 \<le> t \<Longrightarrow> t < 18446744073709551616 \<Longrightarrow> writeTag t w = Inr (w @ enc_head TagType (nat t))"
  by (simp add: writeTag_def writeTypeValue_enc)

lemma writeStartArray_enc [simp]:
  "n < 18446744073709551616 \<Longrightarrow> writeStartArray (Some n) w = Inr (w @ enc_head ArrayType n)"
  by (simp add: writeStartArray_def)

lemma writeStartMap_enc [simp]:
  "n < 18446744073709551616 \<Longrightarrow> writeStartMap (Some n) w = Inr (w @ enc_head MapType n)"
  by (simp add: writeStartMap_def)

lemma byte_of_numeral [simp]: "byte_of (numeral n) = numeral n"
  by (simp add: byte_of_def)

lemma write_constants [simp]:
  "writeStartArray None w = Inr (w @ [0x9f])" "writeEndArray w = Inr (w @ [0xff])"
  "writeStartMap None w = Inr (w @ [0xbf])" "writeEndMap w = Inr (w @ [0xff])"
  "writeNull w = Inr (w @ [0xf6])" "writeUndefined w = Inr (w @ [0xf7])"
  "writeBoolean b w = Inr (w @ [if b then 0xf5 else 0xf4])"
  by (simp_all add: writeStartArray_def writeEndArray_def writeStartMap_def writeEndMap_def
      writeNull_def writeUndefined_def writeBoolean_def pushUInt8_def)

lemma writeEncodedValue_enc [simp]: "writeEncodedValue b w = Inr (w @ b)"
  by (simp add: writeEncodedValue_def)

lemma run_ops_append: "run_ops (fs @ gs) w = ebind (run_ops fs w) (run_ops gs)"
  by (induction fs arbitrary: w) (simp_all add: ebind_def split: sum.split)

lemma run_ops_encoded [simp]:
  "run_ops (map writeEncodedValue bs) w = Inr (w @ concat bs)"
  by (induction bs arbitrary: w) simp_all

subsection \<open>Magnitudes\<close>

lemma be_nat_magnitude_bytes [simp]: "be_nat (magnitude_bytes n) = n"
proof (induction n rule: magnitude_bytes.induct)
  case (1 n)
  show ?case
  proof (cases "n < 256")
    case True
    then show ?thesis
      by (subst magnitude_bytes.simps) (simp add: be_nat_def)
  next
    case False
    with 1 show ?thesis
      by (subst magnitude_bytes.simps) (simp add: byte_simps)
  qed
qed

subsection \<open>Properties\<close>

text \<open>C31. The writer's head of an item is the shortest one for its argument; an argument that needs
  more than 64 bits, or a negative one of at most 32 bits, is refused with a \<open>RangeError\<close>.\<close>

theorem writeTypeValue_shortest:
  assumes "- 2147483648 \<le> v"
  shows "writeTypeValue m v w =
     (if 0 \<le> v \<and> v < 18446744073709551616 then Inr (w @ enc_head m (nat v)) else Inl RangeError)"
proof (cases "0 \<le> v \<and> v < 18446744073709551616")
  case True
  then show ?thesis by (simp add: writeTypeValue_enc)
next
  case False
  with assms have "- 2147483648 \<le> v \<and> v < 0 \<or> 18446744073709551616 \<le> v" by linarith
  with False show ?thesis by (simp add: writeTypeValue_out_of_range)
qed

theorem writeTypeValue_shortest_witness:
  "writeTypeValue ArrayType 300 [] = Inr (enc_head ArrayType 300) \<and> writeTypeValue TagType (- 1) [] = Inl RangeError"
  using writeTypeValue_shortest [of 300 ArrayType "[]"] writeTypeValue_shortest [of "- 1" TagType "[]"] by simp

end
