(* ===== verification/Cbor_Item.thy ===== *)
theory Cbor_Item
  imports Cbor_Reader Cbor_Writer
begin

text \<open>
  Well-formed CBOR data items (RFC 7049) as an inductive grammar on byte strings, and the
  correctness of the reader against it: at an item, \<open>readEncodedValue\<close> returns exactly the bytes
  of that item and leaves the reader right after it, whatever follows and however deeply the item
  nests. The lemmas are stated on readers in the explicit form \<open>rd c pre bs fr stk tag\<close> (bytes
  consumed so far, bytes left, current frame, stack), so that the simplifier can run a sequence
  of reads.
\<close>

named_theorems rd_simps \<open>running the reader on explicit states\<close>

subsection \<open>Readers in explicit form\<close>

definition rd :: "CborReaderState \<Rightarrow> bytes \<Rightarrow> bytes \<Rightarrow> StackFrame \<Rightarrow> StackFrame list \<Rightarrow> bool \<Rightarrow> CborReader"
  where "rd c pre bs fr stk tag =
    \<lparr>rd_data = pre @ bs, rd_offset = length pre, nestedItems = stk, isTagContext = tag,
     currentFrame = fr, cachedState = c\<rparr>"

abbreviation (input) U :: CborReaderState where "U \<equiv> UndefinedState"

definition bumps :: "nat \<Rightarrow> StackFrame \<Rightarrow> StackFrame" where
  "bumps n fr = fr\<lparr>itemsRead := itemsRead fr + n\<rparr>"

definition open_frame :: "StackFrame \<Rightarrow> bool" where
  "open_frame fr \<longleftrightarrow> \<not> at_definite_end fr \<and> frame_type fr \<noteq> Some ByteString \<and>
     frame_type fr \<noteq> Some Utf8String"

text \<open>A frame in which an item that starts with major type \<open>m\<close> (and is no new string) may come.\<close>

definition accepts :: "CborMajorType \<Rightarrow> StackFrame \<Rightarrow> bool" where
  "accepts m fr \<longleftrightarrow> \<not> at_definite_end fr \<and>
     (frame_type fr = Some ByteString \<or> frame_type fr = Some Utf8String \<longrightarrow> frame_type fr = Some m)"

lemma open_frame_accepts [simp]: "open_frame fr \<Longrightarrow> accepts m fr"
  by (simp add: open_frame_def accepts_def)

definition arr_frame :: "nat \<Rightarrow> nat option \<Rightarrow> nat \<Rightarrow> StackFrame" where
  "arr_frame off len n = \<lparr>frame_type = Some ArrayType, frameOffset = off, definiteLength = len,
                          itemsRead = n, currentKeyOffset = None\<rparr>"

definition map_frame :: "nat \<Rightarrow> nat option \<Rightarrow> nat \<Rightarrow> StackFrame" where
  "map_frame off len n = \<lparr>frame_type = Some MapType, frameOffset = off, definiteLength = len,
                          itemsRead = n, currentKeyOffset = Some off\<rparr>"

lemma new_reader_rd [rd_simps]: "new_reader bs = rd U [] bs root_frame [] False"
  by (simp add: new_reader_def rd_def)

lemma bumps_bumps [simp]: "bumps m (bumps n fr) = bumps (n + m) fr"
  by (simp add: bumps_def)

lemma bumps_0 [simp]: "bumps 0 fr = fr"
  by (simp add: bumps_def)

lemma bumps_frames [simp]:
  "bumps m (arr_frame off len n) = arr_frame off len (n + m)"
  "bumps m (map_frame off len n) = map_frame off len (n + m)"
  by (simp_all add: bumps_def arr_frame_def map_frame_def)

lemma open_frames [simp]:
  "open_frame (bumps n root_frame)" "open_frame root_frame"
  "open_frame (arr_frame off None n)" "open_frame (arr_frame off (Some k) n) \<longleftrightarrow> n \<noteq> k"
  "open_frame (map_frame off None n)" "open_frame (map_frame off (Some k) n) \<longleftrightarrow> n \<noteq> k"
  by (auto simp: open_frame_def bumps_def root_frame_def arr_frame_def map_frame_def at_definite_end_def)

lemma rd_fields [simp]:
  "rd_data (rd c pre bs fr stk tag) = pre @ bs" "rd_offset (rd c pre bs fr stk tag) = length pre"
  "nestedItems (rd c pre bs fr stk tag) = stk" "isTagContext (rd c pre bs fr stk tag) = tag"
  "currentFrame (rd c pre bs fr stk tag) = fr" "cachedState (rd c pre bs fr stk tag) = c"
  "getRemainingBytes (rd c pre bs fr stk tag) = bs"
  by (simp_all add: rd_def getRemainingBytes_def)

lemma advanceBuffer_rd [simp]:
  "advanceBuffer (length x) (rd c pre (x @ bs) fr stk tag) = Inr (rd U (pre @ x) bs fr stk tag)"
  "advanceBuffer (length x + length y) (rd c pre (x @ y @ bs) fr stk tag) =
     Inr (rd U (pre @ x @ y) bs fr stk tag)"
  "advanceBuffer (Suc 0) (rd c pre (b # bs) fr stk tag) = Inr (rd U (pre @ [b]) bs fr stk tag)"
  by (simp_all add: advanceBuffer_def rd_def)

lemma advanceDataItemCounters_rd [simp]:
  "advanceDataItemCounters (rd c pre bs fr stk tag) = rd c pre bs (bumps 1 fr) stk False"
  by (simp add: advanceDataItemCounters_def rd_def bumps_def)

lemma peekInitialByte_rd:
  assumes "open_frame fr" and "ty = None \<or> ty = Some (getMajorType b)"
  shows "peekInitialByte ty (rd c pre (b # bs) fr stk tag) = Inr b"
  using assms by (auto simp: peekInitialByte_def open_frame_def Let_def)

lemma peekStateCore_rd:
  assumes "open_frame fr" and "b \<noteq> 0xff"
  shows "peekStateCore (rd c pre (b # bs) fr stk tag) = Inr (state_of_initial_byte b)"
  using assms by (simp add: peekStateCore_def open_frame_def Let_def)

subsection \<open>Heads\<close>

text \<open>A head for major type \<open>m\<close> and argument \<open>n\<close>, of any of the widths the format allows.\<close>

definition is_head :: "CborMajorType \<Rightarrow> nat \<Rightarrow> bytes \<Rightarrow> bool" where
  "is_head m n h \<longleftrightarrow>
     n < 24 \<and> h = [initial_byte m n] \<or>
     n < 256 ^ 1 \<and> h = initial_byte m 24 # be_bytes 1 n \<or>
     n < 256 ^ 2 \<and> h = initial_byte m 25 # be_bytes 2 n \<or>
     n < 256 ^ 4 \<and> h = initial_byte m 26 # be_bytes 4 n \<or>
     n < 256 ^ 8 \<and> h = initial_byte m 27 # be_bytes 8 n"

lemma is_head_enc_head [simp]: "n < 18446744073709551616 \<Longrightarrow> is_head m n (enc_head m n)"
  by (simp add: is_head_def enc_head_def)

lemma head_decode [simp]:
  assumes "is_head m n h"
  shows "decodeUnsignedInteger (hd h) (h @ rest) = Inr (n, length h)"
proof -
  have take_be: "take (length x) (x @ rest) = x" for x rest :: bytes by simp
  have one: "unat (be_bytes 1 k ! 0) = k" if "k < 256" for k
    using that by simp
  show ?thesis
    using assms one [of n] be_nat_be_bytes_id [of n 2] be_nat_be_bytes_id [of n 4]
      be_nat_be_bytes_id [of n 8] take_be [of "be_bytes 2 n"] take_be [of "be_bytes 4 n"]
      take_be [of "be_bytes 8 n"]
    unfolding is_head_def
    by (elim disjE) (auto simp: decodeUnsignedInteger_def ensureReadCapacityInArray_def)
qed

lemma head_info:
  assumes "is_head m n h"
  shows "getMajorType (hd h) = m" and "getAdditionalInfo (hd h) \<noteq> 31" and "hd h \<noteq> 0xff" and "h \<noteq> []"
  using assms by (auto simp: is_head_def)

lemma head_peek:
  assumes "is_head m n h" and "accepts m fr"
  shows "peekInitialByte None (rd c pre (h @ bs) fr stk tag) = Inr (hd h)"
    and "peekInitialByte (Some m) (rd c pre (h @ bs) fr stk tag) = Inr (hd h)"
    and "peekStateCore (rd c pre (h @ bs) fr stk tag) = Inr (state_of_initial_byte (hd h))"
  using head_info [OF assms(1)] assms(2)
  by (cases h; auto simp: peekInitialByte_def peekStateCore_def accepts_def Let_def)+

lemmas head_simps = head_decode head_info head_peek

subsection \<open>Single reads\<close>

lemma readUInt_head:
  assumes "is_head UnsignedInteger n h" and "open_frame fr"
  shows "readUInt (rd c pre (h @ bs) fr stk tag) = Inr (n, rd U (pre @ h) bs (bumps 1 fr) stk False)"
  using assms by (simp add: readUInt_def peekUnsignedInteger_def head_simps)

lemma readInt_unsigned:
  assumes "is_head UnsignedInteger n h" and "open_frame fr"
  shows "readInt (rd c pre (h @ bs) fr stk tag) =
    Inr (int n, rd U (pre @ h) bs (bumps 1 fr) stk False)"
  using assms by (simp add: readInt_def peekSignedInteger_def head_simps)

lemma readInt_negative:
  assumes "is_head NegativeInteger n h" and "open_frame fr"
  shows "readInt (rd c pre (h @ bs) fr stk tag) =
      Inr (- 1 - int n, rd U (pre @ h) bs (bumps 1 fr) stk False)"
    and "readCborNegativeIntegerRepresentation (rd c pre (h @ bs) fr stk tag) =
      Inr (n, rd U (pre @ h) bs (bumps 1 fr) stk False)"
  using assms by (simp_all add: readInt_def peekSignedInteger_def head_simps
      readCborNegativeIntegerRepresentation_def)

lemma readInt_rd [rd_simps]:
  assumes "cbor_int i" and "open_frame fr"
  shows "readInt (rd c pre (enc_int i @ bs) fr stk tag) =
    Inr (i, rd U (pre @ enc_int i) bs (bumps 1 fr) stk False)"
proof (cases "i < 0")
  case True
  with assms have "is_head NegativeInteger (nat (- (i + 1))) (enc_int i)"
    by (simp add: enc_int_def cbor_int_def)
  from readInt_negative(1) [OF this assms(2)] True show ?thesis by simp
next
  case False
  with assms have "is_head UnsignedInteger (nat i) (enc_int i)"
    by (simp add: enc_int_def cbor_int_def)
  from readInt_unsigned [OF this assms(2)] False show ?thesis by simp
qed

lemma readUInt_rd [rd_simps]:
  assumes "0 \<le> i" and "i < 18446744073709551616" and "open_frame fr"
  shows "readUInt (rd c pre (enc_int i @ bs) fr stk tag) =
    Inr (nat i, rd U (pre @ enc_int i) bs (bumps 1 fr) stk False)"
proof -
  from assms have "is_head UnsignedInteger (nat i) (enc_int i)"
    by (simp add: enc_int_def)
  from readUInt_head [OF this assms(3)] show ?thesis .
qed

lemma readDefiniteString_head:
  assumes "is_head m (length p) h" and "length p < 9007199254740992"
  shows "readDefiniteString (hd h) (rd c pre (h @ p @ bs) fr stk tag) =
    Inr (p, rd U (pre @ h @ p) bs (bumps 1 fr) stk False)"
  using assms by (simp add: readDefiniteString_def peekDefiniteLength_def ensureReadCapacity_def
      head_simps)

lemma readString_head:
  assumes "is_head ty (length p) h" and "length p < 9007199254740992" and "accepts ty fr"
  shows "readString ty (rd c pre (h @ p @ bs) fr stk tag) =
    Inr (p, rd U (pre @ h @ p) bs (bumps 1 fr) stk False)"
  using assms by (simp add: readString_def readDefiniteString_head head_simps)

lemma readByteString_rd [rd_simps]:
  "length p < 9007199254740992 \<Longrightarrow> open_frame fr \<Longrightarrow>
   readByteString (rd c pre (enc_bytes p @ bs) fr stk tag) =
     Inr (p, rd U (pre @ enc_bytes p) bs (bumps 1 fr) stk False)"
  using readString_head [of ByteString p "enc_head ByteString (length p)" fr c pre bs stk tag]
  by (simp add: readByteString_def enc_bytes_def)

lemma readTextString_rd [rd_simps]:
  "length (utf8_encode s) < 9007199254740992 \<Longrightarrow> well_formed_utf16 s \<Longrightarrow> open_frame fr \<Longrightarrow>
   readTextString (rd c pre (enc_text s @ bs) fr stk tag) =
     Inr (s, rd U (pre @ enc_text s) bs (bumps 1 fr) stk False)"
  using readString_head [of Utf8String "utf8_encode s" "enc_head Utf8String (length (utf8_encode s))"
      fr c pre bs stk tag]
  by (simp add: readTextString_def enc_text_def)

lemma rd_set_tag [simp]: "rd c pre bs fr stk tag\<lparr>isTagContext := t\<rparr> = rd c pre bs fr stk t"
  by (simp add: rd_def)

lemma readTag_head:
  assumes "is_head TagType n h" and "open_frame fr"
  shows "readTag (rd c pre (h @ bs) fr stk tag) = Inr (js_Number n, rd U (pre @ h) bs fr stk True)"
    and "peekTag (rd c pre (h @ bs) fr stk tag) = Inr (js_Number n)"
  using assms by (simp_all add: readTag_def peekTag_def peekTagCore_def head_simps)

lemma readTag_rd [rd_simps]:
  "n < 9007199254740992 \<Longrightarrow> open_frame fr \<Longrightarrow>
   readTag (rd c pre (enc_head TagType n @ bs) fr stk tag) =
     Inr (n, rd U (pre @ enc_head TagType n) bs fr stk True)"
  "n < 9007199254740992 \<Longrightarrow> open_frame fr \<Longrightarrow>
   peekTag (rd c pre (enc_head TagType n @ bs) fr stk tag) = Inr n"
  using readTag_head [of n "enc_head TagType n" fr c pre bs stk tag] by simp_all

subsection \<open>Arrays and maps\<close>

lemma pushDataItem_array [simp]:
  "pushDataItem ArrayType len (rd c pre bs fr stk tag) =
     rd c pre bs (arr_frame (length pre) len 0) (fr # stk) False"
  by (simp add: pushDataItem_def rd_def arr_frame_def)

lemma pushDataItem_map [simp]:
  "setCurrentKeyOffset (pushDataItem MapType len (rd c pre bs fr stk tag)) =
     rd c pre bs (map_frame (length pre) len 0) (fr # stk) False"
  by (simp add: setCurrentKeyOffset_def pushDataItem_def rd_def map_frame_def)

lemma readStartArray_head:
  assumes "is_head ArrayType n h" and "n < 9007199254740992" and "open_frame fr"
  shows "readStartArray (rd c pre (h @ bs) fr stk tag) =
    Inr (Some n, rd U (pre @ h) bs (arr_frame (length (pre @ h)) (Some n) 0) (fr # stk) False)"
  using assms by (simp add: readStartArray_def peekDefiniteLength_def head_simps)

lemma readStartArray_rd [rd_simps]:
  "n < 9007199254740992 \<Longrightarrow> open_frame fr \<Longrightarrow>
   readStartArray (rd c pre (enc_head ArrayType n @ bs) fr stk tag) =
     Inr (Some n, rd U (pre @ enc_head ArrayType n) bs
       (arr_frame (length (pre @ enc_head ArrayType n)) (Some n) 0) (fr # stk) False)"
  by (rule readStartArray_head) simp_all

lemma indefinite_bytes [simp]:
  "getMajorType 0x9f = ArrayType" "getAdditionalInfo 0x9f = 31"
  "getMajorType 0xbf = MapType" "getAdditionalInfo 0xbf = 31"
  "getMajorType 0x5f = ByteString" "getAdditionalInfo 0x5f = 31"
  "getMajorType 0x7f = Utf8String" "getAdditionalInfo 0x7f = 31"
  by (simp_all add: cbor_head major_of_def)

lemma readStartArray_indef [rd_simps]:
  "open_frame fr \<Longrightarrow>
   readStartArray (rd c pre (0x9f # bs) fr stk tag) =
     Inr (None, rd U (pre @ [0x9f]) bs (arr_frame (Suc (length pre)) None 0) (fr # stk) False)"
  by (simp add: readStartArray_def peekInitialByte_rd)

lemma frames_indef [simp]:
  "\<not> at_definite_end (arr_frame off None n)" "\<not> at_definite_end (map_frame off None n)"
  "definiteLength (arr_frame off len n) = len" "definiteLength (map_frame off len n) = len"
  "itemsRead (map_frame off len n) = n" "frame_type (arr_frame off len n) = Some ArrayType"
  "frame_type (map_frame off len n) = Some MapType" "itemsRead (arr_frame off len n) = n"
  by (simp_all add: at_definite_end_def arr_frame_def map_frame_def)

lemma popDataItem_array:
  "popDataItem ArrayType (rd c pre bs (arr_frame off len n) (fr # stk) False) =
     (if (case len of Some d \<Rightarrow> n < d | None \<Rightarrow> False)
      then Inl (CborInvalidOperationException NotAtEndOfDefiniteItem)
      else Inr (rd U pre bs fr stk False))"
  by (cases len) (simp_all add: popDataItem_def arr_frame_def restoreStackFrame_def rd_def)

lemma popDataItem_map:
  "popDataItem MapType (rd c pre bs (map_frame off len n) (fr # stk) False) =
     (if (case len of Some d \<Rightarrow> n < d | None \<Rightarrow> False)
      then Inl (CborInvalidOperationException NotAtEndOfDefiniteItem)
      else Inr (rd U pre bs fr stk False))"
  by (cases len) (simp_all add: popDataItem_def map_frame_def restoreStackFrame_def rd_def)

lemma readEndArray_definite [rd_simps]:
  "n = k \<Longrightarrow> readEndArray (rd c pre bs (arr_frame off (Some n) k) (fr # stk) False) =
     Inr (rd U pre bs (bumps 1 fr) stk False)"
  by (simp add: readEndArray_def popDataItem_array)

lemma validateNextByteIsBreakByte_rd:
  "\<not> at_definite_end fr \<Longrightarrow> validateNextByteIsBreakByte (rd c pre (0xff # bs) fr stk tag) = Inr ()"
  by (auto simp: validateNextByteIsBreakByte_def peekInitialByte_def Let_def)

lemma readEndArray_indef [rd_simps]:
  "readEndArray (rd c pre (0xff # bs) (arr_frame off None n) (fr # stk) False) =
     Inr (rd U (pre @ [0xff]) bs (bumps 1 fr) stk False)"
  by (simp add: readEndArray_def popDataItem_array validateNextByteIsBreakByte_rd)

lemma readStartMap_head:
  assumes "is_head MapType n h" and "n < 9007199254740992" and "open_frame fr" and "2 * n \<le> length bs"
  shows "readStartMap (rd c pre (h @ bs) fr stk tag) =
    Inr (Some n, rd U (pre @ h) bs (map_frame (length (pre @ h)) (Some (2 * n)) 0) (fr # stk) False)"
  using assms by (simp add: readStartMap_def peekDefiniteLength_def head_simps)

lemma readStartMap_rd [rd_simps]:
  "n < 9007199254740992 \<Longrightarrow> open_frame fr \<Longrightarrow> 2 * n \<le> length bs \<Longrightarrow>
   readStartMap (rd c pre (enc_head MapType n @ bs) fr stk tag) =
     Inr (Some n, rd U (pre @ enc_head MapType n) bs
       (map_frame (length (pre @ enc_head MapType n)) (Some (2 * n)) 0) (fr # stk) False)"
  by (rule readStartMap_head) simp_all

lemma readStartMap_indef [rd_simps]:
  "open_frame fr \<Longrightarrow>
   readStartMap (rd c pre (0xbf # bs) fr stk tag) =
     Inr (None, rd U (pre @ [0xbf]) bs (map_frame (Suc (length pre)) None 0) (fr # stk) False)"
  by (simp add: readStartMap_def peekInitialByte_rd)

lemma readEndMap_definite [rd_simps]:
  "n = k \<Longrightarrow> readEndMap (rd c pre bs (map_frame off (Some n) k) (fr # stk) False) =
     Inr (rd U pre bs (bumps 1 fr) stk False)"
  by (simp add: readEndMap_def popDataItem_map)

lemma readEndMap_indef [rd_simps]:
  "even n \<Longrightarrow> readEndMap (rd c pre (0xff # bs) (map_frame off None n) (fr # stk) False) =
     Inr (rd U (pre @ [0xff]) bs (bumps 1 fr) stk False)"
  by (simp add: readEndMap_def popDataItem_map validateNextByteIsBreakByte_rd)

subsection \<open>Indefinite-length strings\<close>

definition str_frame :: "nat \<Rightarrow> CborMajorType \<Rightarrow> nat \<Rightarrow> StackFrame" where
  "str_frame off ty n = \<lparr>frame_type = Some ty, frameOffset = off, definiteLength = None,
                         itemsRead = n, currentKeyOffset = None\<rparr>"

lemma str_frame_simps [simp]:
  "bumps m (str_frame off ty n) = str_frame off ty (n + m)" "accepts ty (str_frame off ty n)"
  "definiteLength (str_frame off ty n) = None" "\<not> at_definite_end (str_frame off ty n)"
  "frame_type (str_frame off ty n) = Some ty"
  by (simp_all add: bumps_def str_frame_def accepts_def at_definite_end_def)

text \<open>A definite-length chunk \<open>c\<close> with payload \<open>p\<close>.\<close>

definition is_chunk :: "CborMajorType \<Rightarrow> bytes \<Rightarrow> bytes \<Rightarrow> bool" where
  "is_chunk ty c p \<longleftrightarrow> (\<exists>h. is_head ty (length p) h \<and> c = h @ p \<and> length p < 9007199254740992)"

lemma is_chunk_enc_bytes: "length p < 9007199254740992 \<Longrightarrow> is_chunk ByteString (enc_bytes p) p"
  by (auto simp: is_chunk_def enc_bytes_def)

lemma readIndefiniteChunks_chunks:
  assumes "list_all2 (is_chunk ty) cs ps"
  shows "readIndefiniteChunks ty (pre @ concat cs @ 0xff # rest) (length pre) acc =
    Inr (acc @ concat ps, length pre + length (concat cs) + 1)"
  using assms
proof (induction cs ps arbitrary: pre acc rule: list_all2_induct)
  case Nil
  then show ?case
    by (subst readIndefiniteChunks.simps)
      (simp add: peekNextInitialByte_def ensureReadCapacityInArray_def)
next
  case (Cons c cs p ps)
  then obtain h where h: "is_head ty (length p) h" and c: "c = h @ p" and p: "length p < 9007199254740992"
    by (auto simp: is_chunk_def)
  let ?tail = "concat cs @ 0xff # rest"
  have "peekNextInitialByte (h @ p @ ?tail) ty = Inr (hd h)"
    using head_info [OF h] by (cases h) (auto simp: peekNextInitialByte_def ensureReadCapacityInArray_def)
  moreover have "peekDefiniteLength (hd h) (h @ p @ ?tail) = Inr (length p, length h)"
    using h p by (simp add: peekDefiniteLength_def)
  moreover have "readIndefiniteChunks ty ((pre @ h @ p) @ ?tail) (length (pre @ h @ p)) (acc @ p) =
      Inr ((acc @ p) @ concat ps, length (pre @ h @ p) + length (concat cs) + 1)"
    by (rule Cons.IH)
  ultimately show ?case
    using head_info [OF h] by (subst readIndefiniteChunks.simps) (simp add: c)
qed

lemma readString_indefinite:
  assumes "list_all2 (is_chunk ty) cs ps" and "b = initial_byte ty 31" and "ty \<noteq> Simple"
    and "open_frame fr"
  shows "readString ty (rd c pre (b # concat cs @ 0xff # bs) fr stk tag) =
    Inr (concat ps, rd U (pre @ b # concat cs @ [0xff]) bs (bumps 1 fr) stk False)"
  using assms readIndefiniteChunks_chunks [OF assms(1), of "[b]" bs "[]"]
    advanceBuffer_rd(1) [of "b # concat cs @ [0xff]" c pre bs fr stk tag]
  by (simp add: readString_def peekInitialByte_rd readIndefiniteLengthByteStringConcatenated_def)

lemma pushDataItem_str:
  "pushDataItem ty None (rd c pre bs fr stk tag) =
     rd c pre bs (str_frame (length pre) ty 0) (fr # stk) False"
  by (simp add: pushDataItem_def rd_def str_frame_def)

lemma readStartIndefiniteLengthString_rd:
  assumes "open_frame fr"
  shows "readStartIndefiniteLengthString ty (rd c pre (initial_byte ty 31 # bs) fr stk tag) =
    Inr (rd U (pre @ [initial_byte ty 31]) bs (str_frame (Suc (length pre)) ty 0) (fr # stk) False)"
  using assms by (simp add: readStartIndefiniteLengthString_def peekInitialByte_rd pushDataItem_str)

lemma popDataItem_str:
  "popDataItem ty (rd c pre bs (str_frame off ty n) (fr # stk) False) =
     Inr (rd U pre bs fr stk False)"
  by (simp add: popDataItem_def str_frame_def restoreStackFrame_def rd_def)

lemma readEndIndefiniteLengthString_rd:
  "readEndIndefiniteLengthString ty (rd c pre (0xff # bs) (str_frame off ty n) (fr # stk) False) =
     Inr (rd U (pre @ [0xff]) bs (bumps 1 fr) stk False)"
  by (simp add: readEndIndefiniteLengthString_def validateNextByteIsBreakByte_rd popDataItem_str)

subsection \<open>The grammar of data items\<close>

inductive cbor_item :: "bytes \<Rightarrow> bool" where
  ci_uint: "is_head UnsignedInteger n h \<Longrightarrow> cbor_item h"
| ci_nint: "is_head NegativeInteger n h \<Longrightarrow> cbor_item h"
| ci_bytes: "is_chunk ByteString c p \<Longrightarrow> cbor_item c"
| ci_text: "is_chunk Utf8String c p \<Longrightarrow> cbor_item c"
| ci_bytes_indef: "list_all2 (is_chunk ByteString) cs ps \<Longrightarrow> cbor_item (0x5f # concat cs @ [0xff])"
| ci_text_indef: "list_all2 (is_chunk Utf8String) cs ps \<Longrightarrow> cbor_item (0x7f # concat cs @ [0xff])"
| ci_array: "is_head ArrayType (length xs) h \<Longrightarrow> length xs < 9007199254740992 \<Longrightarrow>
    (\<forall>x \<in> set xs. cbor_item x) \<Longrightarrow> cbor_item (h @ concat xs)"
| ci_array_indef: "(\<forall>x \<in> set xs. cbor_item x) \<Longrightarrow> cbor_item (0x9f # concat xs @ [0xff])"
| ci_map: "is_head MapType n h \<Longrightarrow> n < 9007199254740992 \<Longrightarrow> length xs = 2 * n \<Longrightarrow>
    (\<forall>x \<in> set xs. cbor_item x) \<Longrightarrow> cbor_item (h @ concat xs)"
| ci_map_indef: "even (length xs) \<Longrightarrow> (\<forall>x \<in> set xs. cbor_item x) \<Longrightarrow>
    cbor_item (0xbf # concat xs @ [0xff])"
| ci_tag: "is_head TagType n h \<Longrightarrow> cbor_item x \<Longrightarrow> cbor_item (h @ x)"
| ci_simple: "i < 24 \<Longrightarrow> cbor_item [initial_byte Simple i]"
| ci_simple8: "cbor_item [initial_byte Simple 24, v]"
| ci_half: "length p = 2 \<Longrightarrow> cbor_item (initial_byte Simple 25 # p)"
| ci_single: "length p = 4 \<Longrightarrow> cbor_item (initial_byte Simple 26 # p)"
| ci_double: "length p = 8 \<Longrightarrow> cbor_item (initial_byte Simple 27 # p)"

lemma cbor_item_hd: "cbor_item x \<Longrightarrow> x \<noteq> [] \<and> hd x \<noteq> 0xff"
proof (induction rule: cbor_item.induct)
  case (ci_bytes c p)
  then obtain h where "is_head ByteString (length p) h" "c = h @ p"
    by (auto simp: is_chunk_def)
  then show ?case using head_info [of ByteString "length p" h] by simp
next
  case (ci_text c p)
  then obtain h where "is_head Utf8String (length p) h" "c = h @ p"
    by (auto simp: is_chunk_def)
  then show ?case using head_info [of Utf8String "length p" h] by simp
next
  case (ci_uint n h)
  then show ?case using head_info [of UnsignedInteger n h] by simp
next
  case (ci_nint n h)
  then show ?case using head_info [of NegativeInteger n h] by simp
next
  case (ci_array xs h)
  then show ?case using head_info [of ArrayType "length xs" h] by simp
next
  case (ci_map n h xs)
  then show ?case using head_info [of MapType n h] by simp
next
  case (ci_tag n h x)
  then show ?case using head_info [of TagType n h] by simp
qed simp_all

lemma length_concat_items: "\<forall>x \<in> set xs. cbor_item x \<Longrightarrow> length xs \<le> length (concat xs)"
proof (induction xs)
  case Nil
  then show ?case by simp
next
  case (Cons x xs)
  then have "1 \<le> length x" using cbor_item_hd [of x] by (simp add: Suc_le_eq)
  with Cons show ?case by (simp del: One_nat_def)
qed

text \<open>Items the writer produces.\<close>

lemma cbor_item_enc_int [simp, intro]: "cbor_int i \<Longrightarrow> cbor_item (enc_int i)"
  by (cases "i < 0")
    (auto simp: enc_int_def cbor_int_def intro: ci_uint [where n = "nat i"]
      ci_nint [where n = "nat (- (i + 1))"])

lemma cbor_item_enc_bytes [simp, intro]: "length b < 9007199254740992 \<Longrightarrow> cbor_item (enc_bytes b)"
  by (rule ci_bytes) (rule is_chunk_enc_bytes)

lemma cbor_item_enc_text [simp, intro]:
  "length (utf8_encode s) < 9007199254740992 \<Longrightarrow> cbor_item (enc_text s)"
  by (rule ci_text [where p = "utf8_encode s"]) (auto simp: is_chunk_def enc_text_def)

lemma cbor_item_array:
  "length xs < 9007199254740992 \<Longrightarrow> (\<And>x. x \<in> set xs \<Longrightarrow> cbor_item x) \<Longrightarrow>
   cbor_item (enc_head ArrayType (length xs) @ concat xs)"
  by (rule ci_array) simp_all

lemma cbor_item_tag:
  "n < 18446744073709551616 \<Longrightarrow> cbor_item x \<Longrightarrow> cbor_item (enc_head TagType n @ x)"
  by (rule ci_tag [where n = n]) simp_all

subsection \<open>Skipping one item\<close>

lemma peekStateCore_ends [rd_simps]:
  "peekStateCore (rd c pre (0xff # bs) (str_frame off ByteString n) stk False) =
     Inr EndIndefiniteLengthByteString"
  "peekStateCore (rd c pre (0xff # bs) (str_frame off Utf8String n) stk False) =
     Inr EndIndefiniteLengthTextString"
  "peekStateCore (rd c pre (0xff # bs) (arr_frame off None n) stk False) = Inr EndArray"
  "even n \<Longrightarrow> peekStateCore (rd c pre (0xff # bs) (map_frame off None n) stk False) = Inr EndMap"
  "n = k \<Longrightarrow> peekStateCore (rd c pre bs (arr_frame off (Some n) k) stk tag) = Inr EndArray"
  "n = k \<Longrightarrow> peekStateCore (rd c pre bs (map_frame off (Some n) k) stk tag) = Inr EndMap"
  by (simp_all add: peekStateCore_def at_definite_end_def Let_def)

definition finish :: "int \<Rightarrow> CborReader \<Rightarrow> CborReader result" where
  "finish d r = (if 0 < d then skipLoop d r else Inr r)"

lemma skipLoop_step: "skipNextNode d r = Inr (d', r') \<Longrightarrow> skipLoop d r = finish d' r'"
  by (subst skipLoop.simps) (simp add: finish_def)

lemma skipNextNode_state:
  "peekStateCore r = Inr s \<Longrightarrow> s \<noteq> TagState \<Longrightarrow> skipNextNode d r = skipNode s d r"
  by (simp add: skipNextNode_def skipTags.simps)

lemma skipNextNode_tag:
  assumes "is_head TagType n h" and "open_frame fr"
  shows "skipNextNode d (rd c pre (h @ bs) fr stk tag) =
    skipNextNode d (rd U (pre @ h) bs fr stk True)"
proof -
  have "peekStateCore (rd c pre (h @ bs) fr stk tag) = Inr TagState"
    using assms by (simp add: head_simps state_of_initial_byte_def)
  then show ?thesis
    using readTag_head [OF assms, of c pre bs stk tag]
    by (simp add: skipNextNode_def skipTags.simps [of "rd c pre (h @ bs) fr stk tag"])
qed

lemma state_of_simple [simp]:
  "i < 32 \<Longrightarrow> state_of_initial_byte (initial_byte Simple i) = mapSimpleValueDataToReaderState i"
  by (simp add: state_of_initial_byte_def)

lemma skip_simple:
  assumes "i < 24" and "open_frame fr"
  shows "skipNextNode d (rd c pre (initial_byte Simple i # bs) fr stk tag) =
    Inr (d, rd U (pre @ [initial_byte Simple i]) bs (bumps 1 fr) stk False)"
proof -
  let ?r = "rd c pre (initial_byte Simple i # bs) fr stk tag"
  have "peekStateCore ?r = Inr (mapSimpleValueDataToReaderState i)"
    using assms by (simp add: peekStateCore_rd)
  moreover have "mapSimpleValueDataToReaderState i \<in> {NullState, BooleanState, SimpleValueState}"
    using assms by (simp add: mapSimpleValueDataToReaderState_def)
  moreover have "readSimpleValue ?r =
      Inr (i, rd U (pre @ [initial_byte Simple i]) bs (bumps 1 fr) stk False)"
    using assms by (simp add: readSimpleValue_def peekInitialByte_rd)
  ultimately show ?thesis
    by (auto simp: skipNextNode_state skipNode_def)
qed

lemma skip_float:
  assumes "(i, length p) \<in> {(24, 1), (25, 2), (26, 4), (27, 8)}" and "open_frame fr"
  shows "skipNextNode d (rd c pre (initial_byte Simple i # p @ bs) fr stk tag) =
    Inr (d, rd U (pre @ initial_byte Simple i # p) bs (bumps 1 fr) stk False)"
proof -
  let ?b = "initial_byte Simple i"
  let ?r = "rd c pre (?b # p @ bs) fr stk tag"
  let ?r' = "rd U (pre @ ?b # p) bs (bumps 1 fr) stk False"
  have i: "i < 32" "i \<noteq> 31" using assms by auto
  have adv: "advanceBuffer (Suc (length p)) ?r = Inr (rd U (pre @ ?b # p) bs fr stk tag)"
    using advanceBuffer_rd(1) [of "?b # p" c pre bs fr stk tag] by simp
  have st: "peekStateCore ?r = Inr (mapSimpleValueDataToReaderState i)"
    using i assms(2) by (simp add: peekStateCore_rd)
  have pk: "peekInitialByte (Some Simple) ?r = Inr ?b"
    using i assms(2) by (simp add: peekInitialByte_rd)
  show ?thesis
  proof (cases "i = 24")
    case True
    with assms have "readSimpleValue ?r = Inr (unat ((pre @ ?b # p @ bs) ! (length pre + 1)), ?r')"
      using pk adv i by (simp add: readSimpleValue_def ensureReadCapacity_def numeral_2_eq_2)
    with True st show ?thesis
      by (simp add: skipNextNode_state skipNode_def mapSimpleValueDataToReaderState_def)
  next
    case False
    with assms have "\<exists>x. readDouble ?r = Inr (x, ?r')"
      using pk adv i by (auto simp: readDouble_def ensureReadCapacity_def numeral_eq_Suc)
    with False assms st show ?thesis
      by (auto simp: skipNextNode_state skipNode_def mapSimpleValueDataToReaderState_def)
  qed
qed

lemma skip_number:
  assumes "is_head UnsignedInteger n h \<or> is_head NegativeInteger n h" and "open_frame fr"
  shows "skipNextNode d (rd c pre (h @ bs) fr stk tag) =
    Inr (d, rd U (pre @ h) bs (bumps 1 fr) stk False)"
  using assms(1)
proof
  assume h: "is_head UnsignedInteger n h"
  then have "peekStateCore (rd c pre (h @ bs) fr stk tag) = Inr UnsignedIntegerState"
    using assms(2) by (simp add: head_simps state_of_initial_byte_def)
  then show ?thesis
    using readUInt_head [OF h assms(2)] by (simp add: skipNextNode_state skipNode_def)
next
  assume h: "is_head NegativeInteger n h"
  then have "peekStateCore (rd c pre (h @ bs) fr stk tag) = Inr NegativeIntegerState"
    using assms(2) by (simp add: head_simps state_of_initial_byte_def)
  then show ?thesis
    using readInt_negative(2) [OF h assms(2)] by (simp add: skipNextNode_state skipNode_def)
qed

lemma skip_chunk:
  assumes "is_chunk ty x p" and "ty = ByteString \<or> ty = Utf8String" and "accepts ty fr"
  shows "skipNextNode d (rd c pre (x @ bs) fr stk tag) =
    Inr (d, rd U (pre @ x) bs (bumps 1 fr) stk False)"
proof -
  obtain h where h: "is_head ty (length p) h" and x: "x = h @ p" and p: "length p < 9007199254740992"
    using assms(1) by (auto simp: is_chunk_def)
  have "peekStateCore (rd c pre (h @ p @ bs) fr stk tag) =
      Inr (if ty = ByteString then ByteStringState else TextStringState)"
    using assms(2,3) h by (auto simp: head_simps state_of_initial_byte_def)
  then show ?thesis
    using assms(2) readString_head [OF h p assms(3), of c pre bs stk tag]
    by (auto simp: x skipNextNode_state skipNode_def readByteString_def readTextString_def)
qed

lemma skip_chunks:
  assumes "list_all2 (is_chunk ty) cs ps" and "ty = ByteString \<or> ty = Utf8String" and "0 < d"
  shows "skipLoop d (rd U pre (concat cs @ bs) (str_frame off ty n) stk False) =
    skipLoop d (rd U (pre @ concat cs) bs (str_frame off ty (n + length cs)) stk False)"
  using assms(1)
proof (induction cs ps arbitrary: pre n rule: list_all2_induct)
  case Nil
  then show ?case by simp
next
  case (Cons c cs p ps)
  then show ?case
    using skipLoop_step [OF skip_chunk [OF Cons.hyps(1) assms(2) str_frame_simps(2)]] assms(3)
    by (simp add: finish_def)
qed

lemma skip_indefinite_string:
  assumes "list_all2 (is_chunk ty) cs ps" and "ty = ByteString \<or> ty = Utf8String"
    and "open_frame fr" and "0 \<le> d" and "b = initial_byte ty 31"
  shows "skipLoop d (rd c pre (b # concat cs @ 0xff # bs) fr stk tag) =
    finish d (rd U (pre @ b # concat cs @ [0xff]) bs (bumps 1 fr) stk False)"
proof -
  let ?off = "Suc (length pre)"
  let ?tail = "0xff # bs"
  have b: "b \<noteq> 0xff" "state_of_initial_byte b =
      (if ty = ByteString then StartIndefiniteLengthByteString else StartIndefiniteLengthTextString)"
    using assms(2,5) by (auto simp: state_of_initial_byte_def)
  have "skipNextNode d (rd c pre (b # concat cs @ ?tail) fr stk tag) =
      Inr (d + 1, rd U (pre @ [b]) (concat cs @ ?tail) (str_frame ?off ty 0) (fr # stk) False)"
    using assms(2,3,5) b readStartIndefiniteLengthString_rd [OF assms(3), of ty]
    by (auto simp: skipNextNode_state peekStateCore_rd skipNode_def
        readStartIndefiniteLengthByteString_def readStartIndefiniteLengthTextString_def)
  moreover have "skipNextNode (d + 1)
      (rd U (pre @ b # concat cs) ?tail (str_frame ?off ty (length cs)) (fr # stk) False) =
      Inr (d, rd U (pre @ b # concat cs @ [0xff]) bs (bumps 1 fr) stk False)"
  proof -
    let ?r = "rd U (pre @ b # concat cs) ?tail (str_frame ?off ty (length cs)) (fr # stk) False"
    have "peekStateCore ?r = Inr (if ty = ByteString then EndIndefiniteLengthByteString
        else EndIndefiniteLengthTextString)"
      using assms(2) by (auto simp: peekStateCore_ends)
    then show ?thesis
      using assms(2,4)
        readEndIndefiniteLengthString_rd [of ty U "pre @ b # concat cs" bs ?off "length cs" fr stk]
      by (auto simp: skipNextNode_state skipNode_def readEndIndefiniteLengthByteString_def
          readEndIndefiniteLengthTextString_def)
  qed
  ultimately show ?thesis
    using skip_chunks [OF assms(1,2), of "d + 1" "pre @ [b]" ?tail ?off 0 "fr # stk"] assms(4)
    by (simp add: skipLoop_step finish_def)
qed

text \<open>The statement proved by rule induction, for an item in any open frame.\<close>

definition skips :: "bytes \<Rightarrow> bool" where
  "skips x \<longleftrightarrow> (\<forall>d c pre bs fr stk tag. 0 \<le> d \<longrightarrow> open_frame fr \<longrightarrow>
     skipLoop d (rd c pre (x @ bs) fr stk tag) = finish d (rd U (pre @ x) bs (bumps 1 fr) stk False))"

lemma skips_items:
  assumes "\<forall>x \<in> set xs. skips x" and "0 < d"
    and "\<And>i. i < length xs \<Longrightarrow> open_frame (bumps i fr)"
  shows "skipLoop d (rd U pre (concat xs @ bs) fr stk False) =
    skipLoop d (rd U (pre @ concat xs) bs (bumps (length xs) fr) stk False)"
  using assms(1,3)
proof (induction xs arbitrary: pre fr)
  case Nil
  then show ?case by simp
next
  case (Cons x xs)
  have "skipLoop d (rd U pre (x @ concat xs @ bs) fr stk False) =
      skipLoop d (rd U (pre @ x) (concat xs @ bs) (bumps 1 fr) stk False)"
    using Cons.prems(1) Cons.prems(2) [of 0] assms(2) by (simp add: skips_def finish_def)
  also have "\<dots> = skipLoop d (rd U ((pre @ x) @ concat xs) bs (bumps (length xs) (bumps 1 fr)) stk False)"
  proof (rule Cons.IH)
    show "\<forall>x \<in> set xs. skips x" using Cons.prems(1) by simp
    show "open_frame (bumps i (bumps 1 fr))" if "i < length xs" for i
      using Cons.prems(2) [of "Suc i"] that by simp
  qed
  finally show ?case by simp
qed

lemma skips_array:
  assumes "is_head ArrayType (length xs) h" and "length xs < 9007199254740992"
    and "\<forall>x \<in> set xs. skips x"
  shows "skips (h @ concat xs)"
  unfolding skips_def
proof (intro allI impI)
  fix d c fr stk tag and pre bs :: bytes
  assume d: "0 \<le> (d :: int)" and fr: "open_frame fr"
  let ?off = "length (pre @ h)" and ?n = "length xs"
  have "peekStateCore (rd c pre (h @ concat xs @ bs) fr stk tag) = Inr StartArray"
    using assms(1) fr by (simp add: head_simps state_of_initial_byte_def)
  then have "skipNextNode d (rd c pre (h @ concat xs @ bs) fr stk tag) =
      Inr (d + 1, rd U (pre @ h) (concat xs @ bs) (arr_frame ?off (Some ?n) 0) (fr # stk) False)"
    using readStartArray_head [OF assms(1,2) fr, of c pre "concat xs @ bs" stk tag]
    by (simp add: skipNextNode_state skipNode_def)
  moreover have "skipNextNode (d + 1)
      (rd U (pre @ h @ concat xs) bs (arr_frame ?off (Some ?n) ?n) (fr # stk) False) =
      Inr (d, rd U (pre @ h @ concat xs) bs (bumps 1 fr) stk False)"
    using d by (simp add: skipNextNode_state peekStateCore_ends skipNode_def readEndArray_definite)
  ultimately show "skipLoop d (rd c pre ((h @ concat xs) @ bs) fr stk tag) =
      finish d (rd U (pre @ h @ concat xs) bs (bumps 1 fr) stk False)"
    using d skips_items [OF assms(3), of "d + 1" "arr_frame ?off (Some ?n) 0" "pre @ h" bs "fr # stk"]
    by (simp add: skipLoop_step finish_def)
qed

lemma skips_array_indef:
  assumes "\<forall>x \<in> set xs. skips x"
  shows "skips (0x9f # concat xs @ [0xff])"
  unfolding skips_def
proof (intro allI impI)
  fix d c fr stk tag and pre bs :: bytes
  assume d: "0 \<le> (d :: int)" and fr: "open_frame fr"
  let ?off = "Suc (length pre)" and ?n = "length xs" and ?tail = "concat xs @ 0xff # bs"
  have "skipNextNode d (rd c pre (0x9f # ?tail) fr stk tag) =
      Inr (d + 1, rd U (pre @ [0x9f]) ?tail (arr_frame ?off None 0) (fr # stk) False)"
    using fr readStartArray_indef [OF fr, of c pre ?tail stk tag]
    by (simp add: skipNextNode_state peekStateCore_rd state_of_initial_byte_def skipNode_def)
  moreover have "skipNextNode (d + 1)
      (rd U (pre @ 0x9f # concat xs) (0xff # bs) (arr_frame ?off None ?n) (fr # stk) False) =
      Inr (d, rd U (pre @ 0x9f # concat xs @ [0xff]) bs (bumps 1 fr) stk False)"
    using d by (simp add: skipNextNode_state peekStateCore_ends skipNode_def readEndArray_indef)
  ultimately show "skipLoop d (rd c pre ((0x9f # concat xs @ [0xff]) @ bs) fr stk tag) =
      finish d (rd U (pre @ 0x9f # concat xs @ [0xff]) bs (bumps 1 fr) stk False)"
    using d skips_items [OF assms, of "d + 1" "arr_frame ?off None 0" "pre @ [0x9f]" "0xff # bs" "fr # stk"]
    by (simp add: skipLoop_step finish_def)
qed

lemma skips_map:
  assumes "is_head MapType n h" and "n < 9007199254740992" and "length xs = 2 * n"
    and "\<forall>x \<in> set xs. skips x" and "\<forall>x \<in> set xs. cbor_item x"
  shows "skips (h @ concat xs)"
  unfolding skips_def
proof (intro allI impI)
  fix d c fr stk tag and pre bs :: bytes
  assume d: "0 \<le> (d :: int)" and fr: "open_frame fr"
  let ?off = "length (pre @ h)"
  have len: "2 * n \<le> length (concat xs @ bs)"
    using length_concat_items [OF assms(5)] assms(3) by simp
  have "peekStateCore (rd c pre (h @ concat xs @ bs) fr stk tag) = Inr StartMap"
    using assms(1) fr by (simp add: head_simps state_of_initial_byte_def)
  then have "skipNextNode d (rd c pre (h @ concat xs @ bs) fr stk tag) =
      Inr (d + 1, rd U (pre @ h) (concat xs @ bs) (map_frame ?off (Some (2 * n)) 0) (fr # stk) False)"
    using readStartMap_head [OF assms(1,2) fr len, of c pre stk tag]
    by (simp add: skipNextNode_state skipNode_def)
  moreover have "skipNextNode (d + 1)
      (rd U (pre @ h @ concat xs) bs (map_frame ?off (Some (2 * n)) (2 * n)) (fr # stk) False) =
      Inr (d, rd U (pre @ h @ concat xs) bs (bumps 1 fr) stk False)"
    using d by (simp add: skipNextNode_state peekStateCore_ends skipNode_def readEndMap_definite)
  ultimately show "skipLoop d (rd c pre ((h @ concat xs) @ bs) fr stk tag) =
      finish d (rd U (pre @ h @ concat xs) bs (bumps 1 fr) stk False)"
    using d assms(3)
      skips_items [OF assms(4), of "d + 1" "map_frame ?off (Some (2 * n)) 0" "pre @ h" bs "fr # stk"]
    by (simp add: skipLoop_step finish_def)
qed

lemma skips_map_indef:
  assumes "even (length xs)" and "\<forall>x \<in> set xs. skips x"
  shows "skips (0xbf # concat xs @ [0xff])"
  unfolding skips_def
proof (intro allI impI)
  fix d c fr stk tag and pre bs :: bytes
  assume d: "0 \<le> (d :: int)" and fr: "open_frame fr"
  let ?off = "Suc (length pre)" and ?n = "length xs" and ?tail = "concat xs @ 0xff # bs"
  have "skipNextNode d (rd c pre (0xbf # ?tail) fr stk tag) =
      Inr (d + 1, rd U (pre @ [0xbf]) ?tail (map_frame ?off None 0) (fr # stk) False)"
    using fr readStartMap_indef [OF fr, of c pre ?tail stk tag]
    by (simp add: skipNextNode_state peekStateCore_rd state_of_initial_byte_def skipNode_def)
  moreover have "skipNextNode (d + 1)
      (rd U (pre @ 0xbf # concat xs) (0xff # bs) (map_frame ?off None ?n) (fr # stk) False) =
      Inr (d, rd U (pre @ 0xbf # concat xs @ [0xff]) bs (bumps 1 fr) stk False)"
    using d assms(1) by (simp add: skipNextNode_state peekStateCore_ends skipNode_def readEndMap_indef)
  ultimately show "skipLoop d (rd c pre ((0xbf # concat xs @ [0xff]) @ bs) fr stk tag) =
      finish d (rd U (pre @ 0xbf # concat xs @ [0xff]) bs (bumps 1 fr) stk False)"
    using d skips_items [OF assms(2), of "d + 1" "map_frame ?off None 0" "pre @ [0xbf]" "0xff # bs" "fr # stk"]
    by (simp add: skipLoop_step finish_def)
qed

lemma skips_node:
  assumes "\<And>d c pre bs fr stk tag. open_frame fr \<Longrightarrow> skipNextNode d (rd c pre (x @ bs) fr stk tag) =
    Inr (d, rd U (pre @ x) bs (bumps 1 fr) stk False)"
  shows "skips x"
  using assms by (simp add: skips_def skipLoop_step)

lemma cbor_item_skips: "cbor_item x \<Longrightarrow> skips x"
proof (induction rule: cbor_item.induct)
  case (ci_uint n h)
  then show ?case by (auto intro!: skips_node skip_number)
next
  case (ci_nint n h)
  then show ?case by (auto intro!: skips_node skip_number)
next
  case (ci_bytes c p)
  then show ?case by (auto intro!: skips_node skip_chunk)
next
  case (ci_text c p)
  then show ?case by (auto intro!: skips_node skip_chunk)
next
  case (ci_bytes_indef cs ps)
  have "initial_byte ByteString 31 = 0x5f" by (simp add: initial_byte_def)
  then show ?case using skip_indefinite_string [OF ci_bytes_indef] by (simp add: skips_def)
next
  case (ci_text_indef cs ps)
  have "initial_byte Utf8String 31 = 0x7f" by (simp add: initial_byte_def)
  then show ?case using skip_indefinite_string [OF ci_text_indef] by (simp add: skips_def)
next
  case (ci_array xs h)
  then show ?case by (intro skips_array) simp_all
next
  case (ci_array_indef xs)
  then show ?case by (intro skips_array_indef) simp
next
  case (ci_map n h xs)
  then show ?case by (intro skips_map) simp_all
next
  case (ci_map_indef xs)
  then show ?case by (intro skips_map_indef) simp_all
next
  case (ci_tag n h x)
  have "skipLoop d (rd c pre (h @ x @ bs) fr stk tag) = skipLoop d (rd U (pre @ h) (x @ bs) fr stk True)"
    if "open_frame fr" for d c pre bs fr stk tag
    using skipNextNode_tag [OF ci_tag(1) that, of d c pre "x @ bs" stk tag]
    by (subst (1 2) skipLoop.simps) simp
  with ci_tag show ?case by (simp add: skips_def)
next
  case (ci_simple i)
  then show ?case using skip_simple [of i] by (auto intro!: skips_node)
next
  case (ci_simple8 v)
  show ?case using skip_float [of 24 "[v]"] by (auto intro!: skips_node)
next
  case (ci_half p)
  then show ?case using skip_float [of 25 p] by (auto intro!: skips_node)
next
  case (ci_single p)
  then show ?case using skip_float [of 26 p] by (auto intro!: skips_node)
next
  case (ci_double p)
  then show ?case using skip_float [of 27 p] by (auto intro!: skips_node)
qed

lemma readEncodedValue_rd [rd_simps]:
  assumes "cbor_item x" and "open_frame fr"
  shows "readEncodedValue (rd c pre (x @ bs) fr stk tag) =
    Inr (x, rd U (pre @ x) bs (bumps 1 fr) stk False)"
  using cbor_item_skips [OF assms(1)] assms(2)
  by (simp add: skips_def readEncodedValue_def finish_def)

subsection \<open>Properties\<close>

text \<open>C1. On a buffer that starts with a well-formed data item, nested to any depth and with
  definite or indefinite lengths, \<open>readEncodedValue\<close> returns exactly the bytes of that item, stops
  right behind it and is back at the level it started from.\<close>

theorem readEncodedValue_item:
  assumes "cbor_item x"
  shows "\<exists>r. readEncodedValue (new_reader (x @ rest)) = Inr (x, r) \<and> getRemainingBytes r = rest \<and>
    nestedItems r = []"
  using readEncodedValue_rd [OF assms, of root_frame U "[]" rest "[]" False] by (simp add: new_reader_rd)

lemma cbor_item_example: "cbor_item [0x82, 0x01, 0x9f, 0x41, 0x07, 0xff]"
proof -
  have heads: "is_head ArrayType 2 [0x82]" "is_head UnsignedInteger 1 [0x01]" "is_head ByteString 1 [0x41]"
    by (simp_all add: is_head_def initial_byte_def byte_of_def)
  have "cbor_item [0x41, 0x07]"
    using heads(3) by (intro ci_bytes [of _ "[0x07]"]) (auto simp: is_chunk_def)
  then have "cbor_item [0x9f, 0x41, 0x07, 0xff]" using ci_array_indef [of "[[0x41, 0x07]]"] by simp
  with ci_array [of "[[0x01], [0x9f, 0x41, 0x07, 0xff]]" "[0x82]"] ci_uint [OF heads(2)] heads(1)
  show ?thesis by (simp add: numeral_2_eq_2)
qed

theorem readEncodedValue_item_witness:
  "\<exists>r. readEncodedValue (new_reader ([0x82, 0x01, 0x9f, 0x41, 0x07, 0xff] @ [0x05])) =
      Inr ([0x82, 0x01, 0x9f, 0x41, 0x07, 0xff], r) \<and> getRemainingBytes r = [0x05] \<and> nestedItems r = []"
  by (rule readEncodedValue_item [OF cbor_item_example])

text \<open>An integer that a CBOR head can carry is read back as it was written, whatever follows it.\<close>

theorem int_roundtrip:
  assumes "cbor_int i"
  shows "\<exists>b r. write_all [writeInt i] = Inr b \<and> readInt (new_reader (b @ rest)) = Inr (i, r) \<and>
    getRemainingBytes r = rest"
  using assms by (simp add: write_all_def encode_def new_reader_rd readInt_rd)

theorem int_roundtrip_witness:
  "\<exists>b r. write_all [writeInt (- 18446744073709551616)] = Inr b \<and>
    readInt (new_reader (b @ [0xff])) = Inr (- 18446744073709551616, r) \<and> getRemainingBytes r = [0xff]"
  by (rule int_roundtrip) (simp add: cbor_int_def)

text \<open>A text of well-formed UTF-16 is read back as it was written.\<close>

theorem text_roundtrip:
  assumes "well_formed_utf16 s" and "length (utf8_encode s) < 9007199254740992"
  shows "\<exists>b r. write_all [writeTextString s] = Inr b \<and> readTextString (new_reader (b @ rest)) = Inr (s, r) \<and>
    getRemainingBytes r = rest"
  using assms by (simp add: write_all_def encode_def new_reader_rd readTextString_rd)

theorem text_roundtrip_witness:
  "\<exists>b r. write_all [writeTextString [0x41, 0xE9, 0xD83D, 0xDE00]] = Inr b \<and>
    readTextString (new_reader (b @ [])) = Inr ([0x41, 0xE9, 0xD83D, 0xDE00], r) \<and> getRemainingBytes r = []"
  by (rule text_roundtrip) (simp_all add: is_high_def is_low_def surrogate_pair_def cp_bytes_def)

end
