(* ===== verification/Cbor_Reader_Inv.thy ===== *)
theory Cbor_Reader_Inv
  imports Cbor_Item
begin

text \<open>
  The reader as a state machine. \<open>reader_trans\<close> is an abstract machine on a position and a stack of
  frames with five kinds of transition: caching the state, consuming an item, consuming a tag,
  opening a container and closing one. \<open>reader_step\<close> is a successful call of a public operation of
  \<open>CborReader\<close>; every one of them is one or more transitions. The invariant \<open>reader_inv\<close> is proved
  of the abstract machine and holds of every reader a program can reach without an exception.
\<close>

subsection \<open>The abstract machine\<close>

definition moved :: "CborReader \<Rightarrow> nat \<Rightarrow> CborReader" where
  "moved r p = r\<lparr>rd_offset := p, cachedState := UndefinedState\<rparr>"

definition can_move :: "CborReader \<Rightarrow> nat \<Rightarrow> bool" where
  "can_move r p \<longleftrightarrow> \<not> at_definite_end (currentFrame r) \<and> rd_offset r < p \<and> p \<le> length (rd_data r)"

definition container :: "CborMajorType \<Rightarrow> nat option \<Rightarrow> bool" where
  "container ty len \<longleftrightarrow> ty = ArrayType \<or> ty = MapType \<or> ((ty = ByteString \<or> ty = Utf8String) \<and> len = None)"

inductive reader_trans :: "CborReader \<Rightarrow> CborReader \<Rightarrow> bool" where
  t_peek: "cachedState r = UndefinedState \<Longrightarrow> peekStateCore r = Inr s \<Longrightarrow>
    reader_trans r (r\<lparr>cachedState := s\<rparr>)"
| t_item: "can_move r p \<Longrightarrow> reader_trans r (advanceDataItemCounters (moved r p))"
| t_tag: "can_move r p \<Longrightarrow> reader_trans r (moved r p\<lparr>isTagContext := True\<rparr>)"
| t_push: "can_move r p \<Longrightarrow> container ty len \<Longrightarrow>
    reader_trans r (moved r p\<lparr>nestedItems := currentFrame r # nestedItems r,
      currentFrame := \<lparr>frame_type = Some ty, frameOffset = p, definiteLength = len, itemsRead = 0,
        currentKeyOffset = k\<rparr>, isTagContext := False\<rparr>)"
| t_pop: "nestedItems r = f # fs \<Longrightarrow> \<not> isTagContext r \<Longrightarrow> rd_offset r \<le> p \<Longrightarrow>
    p \<le> length (rd_data r) \<Longrightarrow>
    (case definiteLength (currentFrame r) of None \<Rightarrow> p = Suc (rd_offset r)
      | Some d \<Rightarrow> d \<le> itemsRead (currentFrame r) \<and> p = rd_offset r) \<Longrightarrow>
    reader_trans r (advanceDataItemCounters (r\<lparr>nestedItems := fs, currentFrame := f, rd_offset := p,
      cachedState := UndefinedState\<rparr>))"

definition frame_ok :: "StackFrame \<Rightarrow> bool" where
  "frame_ok f \<longleftrightarrow> (case definiteLength f of
     None \<Rightarrow> frame_type f \<in> {None, Some ByteString, Some Utf8String, Some ArrayType, Some MapType}
   | Some d \<Rightarrow> frame_type f \<in> {Some ArrayType, Some MapType} \<and> itemsRead f \<le> d)"

fun stack_ok :: "StackFrame \<Rightarrow> StackFrame list \<Rightarrow> bool" where
  "stack_ok f [] \<longleftrightarrow> frame_type f = None \<and> definiteLength f = None"
| "stack_ok f (g # gs) \<longleftrightarrow> frame_type f \<noteq> None \<and> frame_ok f \<and> \<not> at_definite_end g \<and> stack_ok g gs"

definition reader_inv :: "CborReader \<Rightarrow> bool" where
  "reader_inv r \<longleftrightarrow> rd_offset r \<le> length (rd_data r) \<and> stack_ok (currentFrame r) (nestedItems r) \<and>
     (cachedState r = UndefinedState \<or> peekStateCore r = Inr (cachedState r))"

lemma stack_ok_frame: "stack_ok f gs \<Longrightarrow> frame_ok f"
  by (cases gs) (simp_all add: frame_ok_def)

lemma stack_ok_bump:
  assumes "stack_ok f gs" and "\<not> at_definite_end f"
  shows "stack_ok (f\<lparr>itemsRead := Suc (itemsRead f)\<rparr>) gs"
  using assms by (cases gs) (auto simp: frame_ok_def at_definite_end_def split: option.splits)

lemma peekStateCore_cached [simp]: "peekStateCore (r\<lparr>cachedState := s\<rparr>) = peekStateCore r"
  by (cases r) (simp add: peekStateCore_def)

lemma reader_inv_new: "reader_inv (new_reader bs)"
  by (simp add: reader_inv_def new_reader_def root_frame_def)

lemma reader_trans_inv: "reader_trans r r' \<Longrightarrow> reader_inv r \<Longrightarrow> reader_inv r'"
proof (induction rule: reader_trans.induct)
  case (t_push r p ty len k)
  then show ?case
    by (auto simp: reader_inv_def moved_def can_move_def container_def frame_ok_def split: option.split)
next
  case (t_pop r f fs p)
  then show ?case
    by (auto simp: reader_inv_def moved_def advanceDataItemCounters_def stack_ok_bump)
qed (auto simp: reader_inv_def moved_def advanceDataItemCounters_def can_move_def stack_ok_bump)

subsection \<open>The operations as transitions\<close>

lemma peekInitialByte_Inr:
  "peekInitialByte ty r = Inr b \<Longrightarrow> \<not> at_definite_end (currentFrame r) \<and> rd_offset r \<noteq> length (rd_data r)"
  by (auto simp: peekInitialByte_def Let_def split: if_splits)

lemma advanceBuffer_moved:
  "advanceBuffer n r = Inr r' \<longleftrightarrow> rd_offset r + n \<le> length (rd_data r) \<and> r' = moved r (rd_offset r + n)"
  by (auto simp: advanceBuffer_def moved_def)

text \<open>The shape of every read: a look at the initial byte, then a step forward.\<close>

lemmas read_moves = advanceBuffer_moved can_move_def

lemmas read_defs = readInt_def readUInt_def readDouble_def readSimpleValue_def readBoolean_def
  readNull_def readCborNegativeIntegerRepresentation_def peekSignedInteger_def peekUnsignedInteger_def

lemma readString_trans: "readString ty r = Inr (v, r') \<Longrightarrow> reader_trans r r'"
  unfolding readString_def readDefiniteString_def readIndefiniteLengthByteStringConcatenated_def Let_def
  by (auto simp: read_moves dest!: peekInitialByte_Inr peekDefiniteLength_bytesRead
      readIndefiniteChunks_length intro!: t_item split: if_splits)

lemma read_item_trans:
  "readInt r = Inr (i, r') \<Longrightarrow> reader_trans r r'"
  "readUInt r = Inr (n, r') \<Longrightarrow> reader_trans r r'"
  "readCborNegativeIntegerRepresentation r = Inr (n, r') \<Longrightarrow> reader_trans r r'"
  unfolding read_defs
  by (auto simp: read_moves dest!: peekInitialByte_Inr decodeUnsignedInteger_bytesRead intro!: t_item
      split: CborMajorType.splits)

lemma read_simple_trans:
  "readDouble r = Inr (x, r') \<Longrightarrow> reader_trans r r'"
  "readSimpleValue r = Inr (n, r') \<Longrightarrow> reader_trans r r'"
  "readBoolean r = Inr (b, r') \<Longrightarrow> reader_trans r r'"
  "readNull r = Inr r' \<Longrightarrow> reader_trans r r'"
  unfolding read_defs Let_def
  by (auto simp: read_moves dest!: peekInitialByte_Inr intro!: t_item split: if_splits)

lemma read_string_trans:
  "readByteString r = Inr (v, r') \<Longrightarrow> reader_trans r r'"
  "readTextString r = Inr (s, r') \<Longrightarrow> reader_trans r r'"
  "readDefiniteLengthByteString r = Inr (v, r') \<Longrightarrow> reader_trans r r'"
  "readDefiniteLengthTextString r = Inr (s, r') \<Longrightarrow> reader_trans r r'"
proof -
  have *: "readDefiniteLengthByteString r = Inr (v, r') \<Longrightarrow> readString ByteString r = Inr (v, r')"
    "readDefiniteLengthTextString r = Inr (s, r') \<Longrightarrow> \<exists>v. readString Utf8String r = Inr (v, r')" for v s
    by (auto simp: readDefiniteLengthByteString_def readDefiniteLengthTextString_def readString_def
        split: if_splits)
  then show "readDefiniteLengthByteString r = Inr (v, r') \<Longrightarrow> reader_trans r r'"
    "readDefiniteLengthTextString r = Inr (s, r') \<Longrightarrow> reader_trans r r'"
    using readString_trans by blast+
  show "readByteString r = Inr (v, r') \<Longrightarrow> reader_trans r r'"
    "readTextString r = Inr (s, r') \<Longrightarrow> reader_trans r r'"
    using readString_trans by (auto simp: readByteString_def readTextString_def)
qed

lemma readTag_trans: "readTag r = Inr (t, r') \<Longrightarrow> reader_trans r r'"
  unfolding readTag_def peekTagCore_def
  by (auto simp: read_moves dest!: peekInitialByte_Inr decodeUnsignedInteger_bytesRead intro!: t_tag)

lemma pushDataItem_moved:
  "pushDataItem ty len (moved r p) = moved r p\<lparr>nestedItems := currentFrame r # nestedItems r,
     currentFrame := \<lparr>frame_type = Some ty, frameOffset = p, definiteLength = len, itemsRead = 0,
       currentKeyOffset = None\<rparr>, isTagContext := False\<rparr>"
  "setCurrentKeyOffset (moved r p\<lparr>nestedItems := ns,
       currentFrame := \<lparr>frame_type = ft, frameOffset = off, definiteLength = len, itemsRead = 0,
       currentKeyOffset = None\<rparr>, isTagContext := False\<rparr>) =
     moved r p\<lparr>nestedItems := ns,
     currentFrame := \<lparr>frame_type = ft, frameOffset = off, definiteLength = len, itemsRead = 0,
       currentKeyOffset = Some p\<rparr>, isTagContext := False\<rparr>"
  by (simp_all add: pushDataItem_def setCurrentKeyOffset_def moved_def)

lemma read_start_trans:
  "readStartArray r = Inr (len, r') \<Longrightarrow> reader_trans r r'"
  "readStartMap r = Inr (len, r') \<Longrightarrow> reader_trans r r'"
  "readStartIndefiniteLengthByteString r = Inr r' \<Longrightarrow> reader_trans r r'"
  "readStartIndefiniteLengthTextString r = Inr r' \<Longrightarrow> reader_trans r r'"
  unfolding readStartArray_def readStartMap_def readStartIndefiniteLengthByteString_def
    readStartIndefiniteLengthTextString_def readStartIndefiniteLengthString_def Let_def
  by (auto simp: read_moves pushDataItem_moved container_def
      dest!: peekInitialByte_Inr peekDefiniteLength_bytesRead intro!: t_push split: if_splits)

lemma popDataItem_trans:
  assumes "popDataItem ty r = Inr r'"
  obtains f fs where "nestedItems r = f # fs" and "\<not> isTagContext r"
    and "\<And>d. definiteLength (currentFrame r) = Some d \<Longrightarrow> d \<le> itemsRead (currentFrame r)"
    and "r' = r\<lparr>nestedItems := fs, currentFrame := f, cachedState := UndefinedState\<rparr>"
  using assms
  by (auto simp: popDataItem_def restoreStackFrame_def Let_def split: list.splits if_splits option.splits)

lemma pop_trans:
  assumes "nestedItems r = f # fs" and "\<not> isTagContext r" and "rd_offset r' \<le> length (rd_data r)"
    and "case definiteLength (currentFrame r) of None \<Rightarrow> rd_offset r' = Suc (rd_offset r)
      | Some d \<Rightarrow> d \<le> itemsRead (currentFrame r) \<and> rd_offset r' = rd_offset r"
    and "rd_data r' = rd_data r" "nestedItems r' = fs" "isTagContext r' = False"
    and "cachedState r' = UndefinedState" "currentFrame r' = f\<lparr>itemsRead := Suc (itemsRead f)\<rparr>"
  shows "reader_trans r r'"
proof -
  have "r' = advanceDataItemCounters (r\<lparr>nestedItems := fs, currentFrame := f, rd_offset := rd_offset r',
      cachedState := UndefinedState\<rparr>)"
    using assms(5-) by (intro CborReader.equality) (simp_all add: advanceDataItemCounters_def)
  then show ?thesis
    using t_pop [OF assms(1,2) _ assms(3,4)] assms(4) by (simp split: option.splits)
qed

lemma read_end_trans:
  assumes "reader_inv r"
  shows "readEndArray r = Inr r' \<Longrightarrow> reader_trans r r'"
    and "readEndMap r = Inr r' \<Longrightarrow> reader_trans r r'"
  using assms unfolding readEndArray_def readEndMap_def reader_inv_def
  by (auto elim!: popDataItem_trans simp: advanceBuffer_moved advanceDataItemCounters_def moved_def
      intro!: pop_trans split: if_splits)

text \<open>
  The end of an indefinite-length string: the string frame has no definite length.
\<close>

lemma read_end_string_trans:
  assumes "reader_inv r"
  shows "readEndIndefiniteLengthByteString r = Inr r' \<Longrightarrow> reader_trans r r'"
    and "readEndIndefiniteLengthTextString r = Inr r' \<Longrightarrow> reader_trans r r'"
proof -
  have end_string: "reader_trans r r'" if "readEndIndefiniteLengthString ty r = Inr r'"
    and ty: "ty = ByteString \<or> ty = Utf8String" for ty
  proof -
    from that obtain r1 where "popDataItem ty r = Inr r1"
      and r1: "advanceBuffer 1 (advanceDataItemCounters r1) = Inr r'"
      by (auto simp: readEndIndefiniteLengthString_def)
    then obtain f fs where pop: "nestedItems r = f # fs" "\<not> isTagContext r"
      "r1 = r\<lparr>nestedItems := fs, currentFrame := f, cachedState := UndefinedState\<rparr>"
      by (elim popDataItem_trans)
    have "frame_type (currentFrame r) = Some ty"
      using \<open>popDataItem ty r = Inr r1\<close> by (auto simp: popDataItem_def Let_def split: list.splits if_splits)
    with assms ty have "definiteLength (currentFrame r) = None"
      by (auto simp: reader_inv_def frame_ok_def dest!: stack_ok_frame split: option.splits)
    with pop r1 show ?thesis
      by (intro pop_trans [OF pop(1,2)]) (auto simp: advanceBuffer_moved moved_def advanceDataItemCounters_def)
  qed
  show "readEndIndefiniteLengthByteString r = Inr r' \<Longrightarrow> reader_trans r r'"
    and "readEndIndefiniteLengthTextString r = Inr r' \<Longrightarrow> reader_trans r r'"
    using end_string by (auto simp: readEndIndefiniteLengthByteString_def readEndIndefiniteLengthTextString_def)
qed

lemmas op_trans = read_item_trans read_simple_trans read_string_trans readTag_trans read_start_trans
  read_end_trans read_end_string_trans

lemma reader_trans_star_inv: "reader_trans\<^sup>*\<^sup>* r r' \<Longrightarrow> reader_inv r \<Longrightarrow> reader_inv r'"
  by (induction rule: rtranclp_induct) (auto dest: reader_trans_inv)

lemma skipTags_trans: "skipTags r = Inr (s, r') \<Longrightarrow> reader_trans\<^sup>*\<^sup>* r r'"
proof (induction r rule: skipTags.induct)
  case (1 r)
  from "1.prems" show ?case
    apply (subst (asm) skipTags.simps)
    using "1.IH" by (fastforce split: if_splits dest: readTag_trans intro: converse_rtranclp_into_rtranclp)
qed

lemma skipNode_trans: "skipNode s d r = Inr (d', r') \<Longrightarrow> reader_inv r \<Longrightarrow> reader_trans r r'"
  by (cases s) (auto simp: skipNode_def intro: op_trans split: if_splits)

lemma skipNextNode_trans:
  assumes "skipNextNode d r = Inr (d', r')" and "reader_inv r"
  shows "reader_trans\<^sup>*\<^sup>* r r'"
proof -
  obtain s r1 where "skipTags r = Inr (s, r1)" "skipNode s d r1 = Inr (d', r')"
    using assms(1) by (auto simp: skipNextNode_def)
  then show ?thesis
    by (meson assms(2) reader_trans_star_inv rtranclp.rtrancl_into_rtrancl skipNode_trans skipTags_trans)
qed

lemma skipLoop_trans: "skipLoop d r = Inr r' \<Longrightarrow> reader_inv r \<Longrightarrow> reader_trans\<^sup>*\<^sup>* r r'"
proof (induction d r rule: skipLoop.induct)
  case (1 d r)
  then obtain d1 r1 where step: "skipNextNode d r = Inr (d1, r1)"
    "(if 0 < d1 then skipLoop d1 r1 else Inr r1) = Inr r'"
    by (subst (asm) (2) skipLoop.simps) auto
  have "reader_trans\<^sup>*\<^sup>* r r1" by (rule skipNextNode_trans [OF step(1) "1.prems"(2)])
  moreover from this have "reader_trans\<^sup>*\<^sup>* r1 r'"
    using "1.IH" [OF step(1)] step(2) "1.prems"(2) by (auto dest: reader_trans_star_inv split: if_splits)
  ultimately show ?case by simp
qed

subsection \<open>Programs that use the reader\<close>

text \<open>One successful call of a public operation.\<close>

inductive reader_step :: "CborReader \<Rightarrow> CborReader \<Rightarrow> bool" where
  s_peekState: "peekState r = Inr (s, r') \<Longrightarrow> reader_step r r'"
| s_skipValue: "skipValue r = Inr r' \<Longrightarrow> reader_step r r'"
| s_readEncodedValue: "readEncodedValue r = Inr (b, r') \<Longrightarrow> reader_step r r'"
| s_readStartArray: "readStartArray r = Inr (len, r') \<Longrightarrow> reader_step r r'"
| s_readEndArray: "readEndArray r = Inr r' \<Longrightarrow> reader_step r r'"
| s_readInt: "readInt r = Inr (i, r') \<Longrightarrow> reader_step r r'"
| s_readUInt: "readUInt r = Inr (n, r') \<Longrightarrow> reader_step r r'"
| s_readDouble: "readDouble r = Inr (x, r') \<Longrightarrow> reader_step r r'"
| s_readSimpleValue: "readSimpleValue r = Inr (n, r') \<Longrightarrow> reader_step r r'"
| s_readNegative: "readCborNegativeIntegerRepresentation r = Inr (n, r') \<Longrightarrow> reader_step r r'"
| s_readStartMap: "readStartMap r = Inr (len, r') \<Longrightarrow> reader_step r r'"
| s_readEndMap: "readEndMap r = Inr r' \<Longrightarrow> reader_step r r'"
| s_readBoolean: "readBoolean r = Inr (bool, r') \<Longrightarrow> reader_step r r'"
| s_readNull: "readNull r = Inr r' \<Longrightarrow> reader_step r r'"
| s_startByteString: "readStartIndefiniteLengthByteString r = Inr r' \<Longrightarrow> reader_step r r'"
| s_endByteString: "readEndIndefiniteLengthByteString r = Inr r' \<Longrightarrow> reader_step r r'"
| s_readByteString: "readByteString r = Inr (b, r') \<Longrightarrow> reader_step r r'"
| s_readDefiniteByteString: "readDefiniteLengthByteString r = Inr (b, r') \<Longrightarrow> reader_step r r'"
| s_startTextString: "readStartIndefiniteLengthTextString r = Inr r' \<Longrightarrow> reader_step r r'"
| s_endTextString: "readEndIndefiniteLengthTextString r = Inr r' \<Longrightarrow> reader_step r r'"
| s_readTextString: "readTextString r = Inr (t, r') \<Longrightarrow> reader_step r r'"
| s_readDefiniteTextString: "readDefiniteLengthTextString r = Inr (t, r') \<Longrightarrow> reader_step r r'"
| s_readTag: "readTag r = Inr (tag, r') \<Longrightarrow> reader_step r r'"

inductive reachable :: "bytes \<Rightarrow> CborReader \<Rightarrow> bool" for bs where
  reach_new: "reachable bs (new_reader bs)"
| reach_step: "reachable bs r \<Longrightarrow> reader_step r r' \<Longrightarrow> reachable bs r'"

lemma peekState_trans: "peekState r = Inr (s, r') \<Longrightarrow> reader_trans\<^sup>*\<^sup>* r r'"
  by (auto simp: peekState_def intro: t_peek split: if_splits)

text \<open>Every operation is a run of the abstract machine.\<close>

lemma reader_step_trans: "reader_step r r' \<Longrightarrow> reader_inv r \<Longrightarrow> reader_trans\<^sup>*\<^sup>* r r'"
proof (induction rule: reader_step.induct)
  case (s_peekState r s r')
  then show ?case by (blast intro: peekState_trans)
next
  case (s_skipValue r r')
  then show ?case by (auto simp: skipValue_def readEncodedValue_def intro: skipLoop_trans)
next
  case (s_readEncodedValue r b r')
  then show ?case by (auto simp: readEncodedValue_def intro: skipLoop_trans)
qed (rule r_into_rtranclp, blast intro: op_trans)+

lemma reachable_inv: "reachable bs r \<Longrightarrow> reader_inv r"
proof (induction rule: reachable.induct)
  case reach_new
  show ?case by (rule reader_inv_new)
next
  case (reach_step r r')
  then show ?case by (meson reader_step_trans reader_trans_star_inv)
qed

subsection \<open>Internal errors\<close>

text \<open>
  Two exceptions of the reader report an inconsistency of its own state rather than bad input or a
  wrong call: a move past the end of the buffer, and a frame of an impossible type on the stack.
\<close>

definition internal_error :: "js_error \<Rightarrow> bool" where
  "internal_error e \<longleftrightarrow> e = CborContentException BufferOffsetOutOfBounds \<or>
     e = CborInvalidOperationException InvalidMajorTypeOnStack"

definition safe :: "'a result \<Rightarrow> bool" where
  "safe m \<longleftrightarrow> (\<forall>e. m = Inl e \<longrightarrow> \<not> internal_error e)"

named_theorems safe_intros \<open>calls that raise no internal error\<close>

lemma safe_Inr [simp]: "safe (Inr x)"
  by (simp add: safe_def)

lemma safe_Inl [simp]: "safe (Inl e) \<longleftrightarrow> \<not> internal_error e"
  by (simp add: safe_def)

lemma safe_ebind: "safe m \<Longrightarrow> (\<And>a. m = Inr a \<Longrightarrow> safe (f a)) \<Longrightarrow> safe (ebind m f)"
  by (cases m) simp_all

lemma safe_throw_if [simp]: "\<not> internal_error e \<Longrightarrow> safe (throw_if c e)"
  by (simp add: throw_if_def)

lemma internal_error_simps [simp]:
  "internal_error (CborContentException c) \<longleftrightarrow> c = BufferOffsetOutOfBounds"
  "internal_error (CborInvalidOperationException c) \<longleftrightarrow> c = InvalidMajorTypeOnStack"
  by (auto simp: internal_error_def)

lemma safe_peekInitialByte: "safe (peekInitialByte ty r)"
  by (simp add: peekInitialByte_def Let_def)

lemma safe_decodeUnsignedInteger: "safe (decodeUnsignedInteger b data)"
  by (auto simp: decodeUnsignedInteger_def ensureReadCapacityInArray_def Let_def intro!: safe_ebind)

lemma safe_peekDefiniteLength: "safe (peekDefiniteLength b data)"
  by (auto simp: peekDefiniteLength_def intro!: safe_ebind safe_decodeUnsignedInteger)

lemma safe_ensure: "safe (ensureReadCapacity n r)" "safe (ensureReadCapacityInArray data n)"
  by (simp_all add: ensureReadCapacity_def ensureReadCapacityInArray_def)

lemma safe_advanceBuffer: "rd_offset r + n \<le> length (rd_data r) \<Longrightarrow> safe (advanceBuffer n r)"
  by (simp add: advanceBuffer_def)

lemma safe_popDataItem: "safe (popDataItem ty r)"
  by (simp add: popDataItem_def Let_def split: list.splits)

lemma safe_readIndefiniteChunks: "safe (readIndefiniteChunks ty data i cs)"
proof (induction ty data i cs rule: readIndefiniteChunks.induct)
  case (1 ty data i cs)
  have "safe (peekNextInitialByte (drop i data) ty)"
    by (auto simp: peekNextInitialByte_def Let_def intro!: safe_ebind safe_ensure)
  then show ?case
    apply (subst readIndefiniteChunks.simps)
    using "1.IH" by (fastforce intro!: safe_ebind safe_peekDefiniteLength)
qed

lemma readIndefiniteChunks_bound:
  "readIndefiniteChunks ty data i cs = Inr (v, n) \<Longrightarrow> n \<le> length data"
proof (induction ty data i cs arbitrary: v n rule: readIndefiniteChunks.induct)
  case (1 ty data i cs)
  have "peekNextInitialByte (drop i data) ty = Inr b \<Longrightarrow> i < length data" for b
    by (auto simp: peekNextInitialByte_def ensureReadCapacityInArray_def)
  with "1.prems" show ?case
    apply (subst (asm) readIndefiniteChunks.simps)
    using "1.IH" by (fastforce split: if_splits)
qed

text \<open>A position that is not at the end of the buffer leaves room for the initial byte.\<close>

lemma length_remaining: "length (getRemainingBytes r) = length (rd_data r) - rd_offset r"
  by (simp add: getRemainingBytes_def)

lemmas safe_basics = safe_ebind safe_peekInitialByte safe_decodeUnsignedInteger safe_peekDefiniteLength
  safe_ensure safe_advanceBuffer safe_popDataItem safe_readIndefiniteChunks

lemmas safe_bounds = length_remaining ensureReadCapacity_def Let_def

lemma safe_read_items [safe_intros]:
  assumes "rd_offset r \<le> length (rd_data r)"
  shows "safe (readInt r)" and "safe (readUInt r)" and "safe (readCborNegativeIntegerRepresentation r)"
    and "safe (readTag r)"
  using assms unfolding read_defs readTag_def peekTagCore_def
  by (auto simp: safe_bounds intro!: safe_basics dest!: peekInitialByte_Inr decodeUnsignedInteger_bytesRead
      split: CborMajorType.splits)

lemma safe_read_simple [safe_intros]:
  assumes "rd_offset r \<le> length (rd_data r)"
  shows "safe (readDouble r)" and "safe (readSimpleValue r)" and "safe (readBoolean r)" and "safe (readNull r)"
  using assms unfolding read_defs
  by (auto simp: safe_bounds intro!: safe_basics dest!: peekInitialByte_Inr)

lemma safe_readString:
  assumes "rd_offset r \<le> length (rd_data r)"
  shows "safe (readString ty r)" and "\<And>b. peekInitialByte ty' r = Inr b \<Longrightarrow> safe (readDefiniteString b r)"
  using assms
  unfolding readString_def readDefiniteString_def readIndefiniteLengthByteStringConcatenated_def
  by (auto simp: safe_bounds intro!: safe_basics
      dest!: peekInitialByte_Inr peekDefiniteLength_bytesRead readIndefiniteChunks_bound)

lemma safe_read_strings [safe_intros]:
  assumes "rd_offset r \<le> length (rd_data r)"
  shows "safe (readByteString r)" and "safe (readTextString r)" and "safe (readDefiniteLengthByteString r)"
    and "safe (readDefiniteLengthTextString r)"
  using safe_readString [OF assms]
  unfolding readByteString_def readTextString_def readDefiniteLengthByteString_def readDefiniteLengthTextString_def
  by (auto intro!: safe_ebind safe_peekInitialByte)

lemma safe_read_starts [safe_intros]:
  assumes "rd_offset r \<le> length (rd_data r)"
  shows "safe (readStartArray r)" and "safe (readStartMap r)" and "safe (readStartIndefiniteLengthByteString r)"
    and "safe (readStartIndefiniteLengthTextString r)"
  using assms
  unfolding readStartArray_def readStartMap_def readStartIndefiniteLengthByteString_def
    readStartIndefiniteLengthTextString_def readStartIndefiniteLengthString_def
  by (auto simp: safe_bounds not_less le_diff_conv2 intro!: safe_basics
      dest!: peekInitialByte_Inr peekDefiniteLength_bytesRead)

lemma safe_validate: "safe (validateNextByteIsBreakByte r)"
  by (auto simp: validateNextByteIsBreakByte_def intro!: safe_basics)

lemma validate_Inr: "validateNextByteIsBreakByte r = Inr u \<Longrightarrow> rd_offset r \<noteq> length (rd_data r)"
  by (auto simp: validateNextByteIsBreakByte_def dest: peekInitialByte_Inr)

lemma safe_read_ends [safe_intros]:
  assumes "rd_offset r \<le> length (rd_data r)"
  shows "safe (readEndArray r)" and "safe (readEndMap r)" and "safe (readEndIndefiniteLengthByteString r)"
    and "safe (readEndIndefiniteLengthTextString r)"
  using assms
  unfolding readEndArray_def readEndMap_def readEndIndefiniteLengthByteString_def
    readEndIndefiniteLengthTextString_def readEndIndefiniteLengthString_def
  by (auto simp: advanceDataItemCounters_def intro!: safe_basics safe_validate
      dest!: validate_Inr popDataItem_Inr)

lemma safe_peekStateCore: "reader_inv r \<Longrightarrow> safe (peekStateCore r)"
  by (auto simp: peekStateCore_def Let_def reader_inv_def frame_ok_def at_definite_end_def
      dest!: stack_ok_frame split: option.splits CborMajorType.splits)

lemma safe_skipTags: "reader_inv r \<Longrightarrow> safe (skipTags r)"
proof (induction r rule: skipTags.induct)
  case (1 r)
  have IH: "safe (skipTags r')" if "peekStateCore r = Inr TagState" "readTag r = Inr (t, r')" for t r'
    using "1.IH" [OF that(1) refl that(2) refl] reader_trans_inv [OF readTag_trans [OF that(2)] "1.prems"] .
  have "safe (readTag r)" using "1.prems" by (intro safe_intros) (simp add: reader_inv_def)
  then show ?case
    by (subst skipTags.simps) (auto intro!: safe_ebind safe_peekStateCore [OF "1.prems"] IH)
qed

lemma safe_skipNode: "reader_inv r \<Longrightarrow> safe (skipNode s d r)"
  by (cases s) (auto simp: skipNode_def reader_inv_def intro!: safe_ebind safe_intros)

lemma safe_skipNextNode: "reader_inv r \<Longrightarrow> safe (skipNextNode d r)"
  unfolding skipNextNode_def
  by (auto intro!: safe_ebind safe_skipTags safe_skipNode dest: skipTags_trans reader_trans_star_inv)

lemma safe_skipLoop: "reader_inv r \<Longrightarrow> safe (skipLoop d r)"
proof (induction d r rule: skipLoop.induct)
  case (1 d r)
  have IH: "safe (skipLoop d' r')" if "skipNextNode d r = Inr (d', r')" "0 < d'" for d' r'
    using "1.IH" [OF that(1) refl that(2)]
      reader_trans_star_inv [OF skipNextNode_trans [OF that(1) "1.prems"] "1.prems"] .
  show ?case
    by (subst skipLoop.simps) (auto intro!: safe_ebind safe_skipNextNode [OF "1.prems"] IH)
qed

lemma safe_skipping [safe_intros]:
  assumes "reader_inv r"
  shows "safe (readEncodedValue r)" and "safe (skipValue r)" and "safe (peekState r)" and "safe (peekTag r)"
  using assms safe_read_items(4) [of r]
  by (auto simp: readEncodedValue_def skipValue_def peekState_def peekTag_def peekTagCore_def
      intro!: safe_basics safe_skipLoop safe_peekStateCore)

subsection \<open>Properties\<close>

text \<open>C12. Every reader that successful calls can produce stays inside its buffer, has a consistent
  stack of frames (no frame has read more items than its definite length, every enclosing frame
  still expects one, the root is the only untyped frame), and \<open>peekState\<close> answers what
  \<open>#peekStateCore\<close> would compute afresh: the cached state is never stale.\<close>

theorem reachable_reader_invariant:
  assumes "reachable bs r"
  shows "rd_offset r \<le> length (rd_data r) \<and> stack_ok (currentFrame r) (nestedItems r) \<and>
    peekState r = ebind (peekStateCore r) (\<lambda>s. Inr (s, r\<lparr>cachedState := s\<rparr>))"
  using reachable_inv [OF assms] by (auto simp: reader_inv_def peekState_def)

lemma readStartArray_example:
  "\<exists>r. readStartArray (new_reader [0x82, 0x01]) = Inr (Some 2, r) \<and> reachable [0x82, 0x01] r"
proof -
  have "enc_head ArrayType 2 = [0x82]" by (simp add: enc_head_def initial_byte_def byte_of_def)
  then have "\<exists>r. readStartArray (new_reader [0x82, 0x01]) = Inr (Some 2, r)"
    using readStartArray_rd [of 2 root_frame U "[]" "[0x01]" "[]" False] by (simp add: new_reader_rd)
  then show ?thesis by (metis reach_new reach_step s_readStartArray)
qed

theorem reachable_reader_invariant_witness:
  "\<exists>r. readStartArray (new_reader [0x82, 0x01]) = Inr (Some 2, r) \<and>
    rd_offset r \<le> length (rd_data r) \<and> stack_ok (currentFrame r) (nestedItems r) \<and>
    peekState r = ebind (peekStateCore r) (\<lambda>s. Inr (s, r\<lparr>cachedState := s\<rparr>))"
  using readStartArray_example reachable_reader_invariant by blast

text \<open>C13. The reader refines the abstract machine: every successful public operation is a run of
  the transitions peek, item, tag, open and close.\<close>

theorem reader_refines_machine:
  assumes "reachable bs r" and "reader_step r r'"
  shows "reader_trans\<^sup>*\<^sup>* r r'"
  using reader_step_trans [OF assms(2) reachable_inv [OF assms(1)]] .

theorem reader_refines_machine_witness:
  "\<exists>i r'. readInt (new_reader [0x01]) = Inr (i, r') \<and> reader_trans\<^sup>*\<^sup>* (new_reader [0x01]) r'"
proof -
  obtain i r' where run: "readInt (new_reader [0x01]) = Inr (i, r')"
    using readInt_rd [of 1 root_frame U "[]" "[]" "[]" False]
    by (auto simp: new_reader_rd enc_int_def enc_head_def initial_byte_def byte_of_def cbor_int_def)
  with reader_refines_machine [OF reach_new s_readInt [OF run]] show ?thesis by blast
qed

text \<open>C14. No public operation on a reachable reader raises one of the reader's two internal errors
  (a move past the end of the buffer, an impossible frame on the stack), whatever the input.\<close>

theorem no_internal_errors:
  assumes "reachable bs r"
  shows "safe (peekState r) \<and> safe (skipValue r) \<and> safe (readEncodedValue r) \<and> safe (readStartArray r) \<and>
    safe (readEndArray r) \<and> safe (readInt r) \<and> safe (readUInt r) \<and> safe (readDouble r) \<and>
    safe (readSimpleValue r) \<and> safe (readCborNegativeIntegerRepresentation r) \<and> safe (readStartMap r) \<and>
    safe (readEndMap r) \<and> safe (readBoolean r) \<and> safe (readNull r) \<and>
    safe (readStartIndefiniteLengthByteString r) \<and> safe (readEndIndefiniteLengthByteString r) \<and>
    safe (readByteString r) \<and> safe (readDefiniteLengthByteString r) \<and>
    safe (readStartIndefiniteLengthTextString r) \<and> safe (readEndIndefiniteLengthTextString r) \<and>
    safe (readTextString r) \<and> safe (readDefiniteLengthTextString r) \<and> safe (readTag r) \<and> safe (peekTag r)"
proof -
  have "reader_inv r" by (rule reachable_inv [OF assms])
  moreover from this have "rd_offset r \<le> length (rd_data r)" by (simp add: reader_inv_def)
  ultimately show ?thesis by (intro conjI safe_intros)
qed

theorem no_internal_errors_witness:
  "\<exists>r. readStartArray (new_reader [0x82, 0x01]) = Inr (Some 2, r) \<and> safe (readEndArray r) \<and>
    safe (readEncodedValue r)"
  using readStartArray_example no_internal_errors by blast

end
