(* ===== verification/Cbor_Codec.thy ===== *)
theory Cbor_Codec
  imports Cbor_Item
begin

text \<open>
  What the serialization classes share: the cached original bytes, the loops that read the items
  of an array or the entries of a map, and the contract of a class that can be written to CBOR and
  read back. The contract is the locale \<open>cbor_codec\<close>; \<open>caching_codec\<close> adds what a class promises
  that keeps the bytes it was read from. The lemmas inside the locales are the facts a container
  of such objects needs; every class of the development interprets one of them.
\<close>

subsection \<open>Cached bytes\<close>

text \<open>\<open>if (this.#originalBytes) return this.#originalBytes;\<close> (an empty string is falsy).\<close>

definition cached :: "bytes option \<Rightarrow> bytes result \<Rightarrow> bytes result" where
  "cached original fresh = (case original of Some (b # bs) \<Rightarrow> Inr (b # bs) | _ \<Rightarrow> fresh)"

lemma cached_None [simp]: "cached None m = m"
  by (simp add: cached_def)

lemma cached_Some [simp]: "bs \<noteq> [] \<Longrightarrow> cached (Some bs) m = Inr bs"
  by (cases bs) (simp_all add: cached_def)

subsection \<open>Reading the items of an array, the entries of a map\<close>

lemma peekState_size: "peekState r = Inr (s, r') \<Longrightarrow>
    rd_data r' = rd_data r \<and> rd_offset r' = rd_offset r \<and> nestedItems r' = nestedItems r"
  by (auto simp: peekState_def split: if_splits)

lemma skipLoop_progress: "skipLoop d r = Inr r' \<Longrightarrow> progress r r'"
proof (induction d r rule: skipLoop.induct)
  case (1 d r)
  from "1.prems" show ?case
    apply (subst (asm) skipLoop.simps)
    using "1.IH" by (fastforce split: if_splits dest: skipNextNode_progress intro: progress_trans)
qed

lemma readEncodedValue_progress [progress_intros]:
  assumes "readEncodedValue r = Inr (b, r')"
  shows "progress r r'"
  using assms by (auto simp: readEncodedValue_def dest: skipLoop_progress)

lemma readEncodedValue_length:
  assumes "readEncodedValue r = Inr (b, r')"
  shows "length b = rd_offset r' - rd_offset r"
proof -
  from assms have "progress r r'" by (rule readEncodedValue_progress)
  with assms show ?thesis
    by (auto simp: readEncodedValue_def progress_def)
qed

lemma peekState_reader_size: "peekState r = Inr (s, r') \<Longrightarrow> reader_size r' = reader_size r"
  by (auto dest!: peekState_size simp: reader_size_def)

text \<open>\<open>while (reader.peekState() !== stop) items.push(f(reader.readEncodedValue()));\<close>\<close>

function readItems ::
    "CborReaderState \<Rightarrow> (bytes \<Rightarrow> 'a result) \<Rightarrow> CborReader \<Rightarrow> ('a list \<times> CborReader) result" where
  "readItems stop f r =
     ebind (peekState r) (\<lambda>(s, r1).
       if s = stop then Inr ([], r1)
       else ebind (readEncodedValue r1) (\<lambda>(b, r2).
            ebind (f b) (\<lambda>x.
            ebind (readItems stop f r2) (\<lambda>(xs, r3). Inr (x # xs, r3)))))"
  by pat_completeness auto
termination
  by (relation "measure (\<lambda>(stop, f, r). reader_size r)")
    (auto dest!: readEncodedValue_progress peekState_reader_size simp: progress_def)

declare readItems.simps [simp del]

text \<open>
  \<open>while (reader.peekState() !== stop) { key = f(reader.readEncodedValue()); value =
  g(reader.readEncodedValue()); \<dots> }\<close>
\<close>

function readEntries ::
    "CborReaderState \<Rightarrow> (bytes \<Rightarrow> 'a result) \<Rightarrow> (bytes \<Rightarrow> 'b result) \<Rightarrow> CborReader \<Rightarrow>
     (('a \<times> 'b) list \<times> CborReader) result" where
  "readEntries stop f g r =
     ebind (peekState r) (\<lambda>(s, r1).
       if s = stop then Inr ([], r1)
       else ebind (readEncodedValue r1) (\<lambda>(kb, r2).
            ebind (f kb) (\<lambda>k.
            ebind (readEncodedValue r2) (\<lambda>(vb, r3).
            ebind (g vb) (\<lambda>v.
            ebind (readEntries stop f g r3) (\<lambda>(kvs, r4). Inr ((k, v) # kvs, r4)))))))"
  by pat_completeness auto
termination
  by (relation "measure (\<lambda>(stop, f, g, r). reader_size r)")
    (auto dest!: readEncodedValue_progress peekState_reader_size simp: progress_def)

declare readEntries.simps [simp del]

definition remaining :: "CborReader \<Rightarrow> nat" where
  "remaining r = length (rd_data r) - rd_offset r"

lemma readEncodedValue_remaining:
  assumes "readEncodedValue r = Inr (b, r')"
  shows "length b \<le> remaining r" and "remaining r' \<le> remaining r"
  using readEncodedValue_progress [OF assms] readEncodedValue_length [OF assms]
  by (auto simp: progress_def remaining_def)

lemma peekState_remaining: "peekState r = Inr (s, r') \<Longrightarrow> remaining r' = remaining r"
  by (auto dest!: peekState_size simp: remaining_def)

text \<open>The functions are only applied to parts of the remaining input, so recursion through them
  is on shorter byte strings.\<close>

lemma readItems_cong [fundef_cong]:
  assumes "stop = stop'" and "r = r'" and "\<And>b. length b \<le> remaining r' \<Longrightarrow> f b = g b"
  shows "readItems stop f r = readItems stop' g r'"
  unfolding assms(1,2) using assms(3)
proof (induction stop' f r' rule: readItems.induct)
  case (1 stop f r)
  have IH: "readItems stop f r2 = readItems stop g r2"
    if "peekState r = Inr (s, r1)" "s \<noteq> stop" "readEncodedValue r1 = Inr (b, r2)" "f b = Inr x" for s r1 b r2 x
  proof (rule "1.IH" [OF that(1) refl that(2) that(3) refl that(4)])
    show "f b = g b" if "length b \<le> remaining r2" for b
      using that \<open>peekState r = Inr (s, r1)\<close> \<open>readEncodedValue r1 = Inr (_, r2)\<close> "1.prems"
      by (metis order_trans peekState_remaining readEncodedValue_remaining(2))
  qed
  have fg: "f b = g b" if "peekState r = Inr (s, r1)" "readEncodedValue r1 = Inr (b, r2)" for s r1 b r2
    using that "1.prems" by (metis peekState_remaining readEncodedValue_remaining(1))
  show ?case
    unfolding readItems.simps [of stop f r] readItems.simps [of stop g r]
    by (intro ebind_cong refl) (auto simp: IH fg intro!: ebind_cong)
qed

lemma readEntries_cong [fundef_cong]:
  assumes "stop = stop'" and "r = r'"
    and "\<And>b. length b \<le> remaining r' \<Longrightarrow> f b = f' b" and "\<And>b. length b \<le> remaining r' \<Longrightarrow> g b = g' b"
  shows "readEntries stop f g r = readEntries stop' f' g' r'"
  unfolding assms(1,2) using assms(3,4)
proof (induction stop' f g r' rule: readEntries.induct)
  case (1 stop f g r)
  have rem: "remaining r3 \<le> remaining r" "length kb \<le> remaining r" "length vb \<le> remaining r"
    if "peekState r = Inr (s, r1)" "readEncodedValue r1 = Inr (kb, r2)" "readEncodedValue r2 = Inr (vb, r3)"
    for s r1 kb r2 vb r3
    using that by (metis order_trans peekState_remaining readEncodedValue_remaining)+
  have IH: "readEntries stop f g r3 = readEntries stop f' g' r3"
    if "peekState r = Inr (s, r1)" "s \<noteq> stop" "readEncodedValue r1 = Inr (kb, r2)" "f kb = Inr k"
      "readEncodedValue r2 = Inr (vb, r3)" "g vb = Inr v" for s r1 kb r2 k vb r3 v
  proof (rule "1.IH" [OF that(1) refl that(2) that(3) refl that(4) that(5) refl that(6)])
    show "f b = f' b" and "g b = g' b" if "length b \<le> remaining r3" for b
      using that rem(1) [OF \<open>peekState r = _\<close> \<open>readEncodedValue r1 = _\<close> \<open>readEncodedValue r2 = _\<close>]
        "1.prems" by auto
  qed
  have f: "f b = f' b" if "peekState r = Inr (s, r1)" "readEncodedValue r1 = Inr (b, r2)" for s r1 b r2
    using that "1.prems" by (metis peekState_remaining readEncodedValue_remaining(1))
  have g: "g b = g' b" if "peekState r = Inr (s, r1)" "readEncodedValue r1 = Inr (kb, r2)"
    "readEncodedValue r2 = Inr (b, r3)" for s r1 kb r2 b r3
    using that "1.prems" rem(3) by metis
  show ?case
    unfolding readEntries.simps [of stop f g r] readEntries.simps [of stop f' g' r]
    by (intro ebind_cong refl) (auto simp: IH f g intro!: ebind_cong)
qed

subsection \<open>The loops on explicit states\<close>

lemma peekState_rd [rd_simps]:
  "peekState (rd U pre bs fr stk tag) =
     ebind (peekStateCore (rd U pre bs fr stk tag)) (\<lambda>s. Inr (s, rd s pre bs fr stk tag))"
  by (simp add: peekState_def rd_def)

lemma state_of_initial_byte_not_end [simp]:
  "state_of_initial_byte b \<noteq> EndArray" "state_of_initial_byte b \<noteq> EndMap"
  "state_of_initial_byte b \<noteq> Finished" "state_of_initial_byte b \<noteq> UndefinedState"
  by (auto simp: state_of_initial_byte_def mapSimpleValueDataToReaderState_def
      split: CborMajorType.splits)

lemma peekStateCore_item:
  assumes "cbor_item x" and "open_frame fr"
  shows "peekStateCore (rd c pre (x @ bs) fr stk tag) = Inr (state_of_initial_byte (hd x))"
  using cbor_item_hd [OF assms(1)] assms(2) by (cases x) (simp_all add: peekStateCore_rd)

lemma readItems_step:
  assumes "cbor_item x" and "open_frame fr" and "f x = Inr y" and "stop \<in> {EndArray, EndMap}"
  shows "readItems stop f (rd U pre (x @ bs) fr stk tag) =
    ebind (readItems stop f (rd U (pre @ x) bs (bumps 1 fr) stk False)) (\<lambda>(ys, r). Inr (y # ys, r))"
  using assms by (subst readItems.simps)
    (auto simp: peekState_rd peekStateCore_item readEncodedValue_rd)

lemma readItems_definite [rd_simps]:
  assumes "list_all2 (\<lambda>x y. f x = Inr y) xs ys" and "\<forall>x \<in> set xs. cbor_item x"
    and "n = k + length xs"
  shows "readItems EndArray f (rd U pre (concat xs @ bs) (arr_frame off (Some n) k) stk False) =
    Inr (ys, rd EndArray (pre @ concat xs) bs (arr_frame off (Some n) n) stk False)"
  using assms
proof (induction xs ys arbitrary: pre k rule: list_all2_induct)
  case Nil
  then show ?case
    by (subst readItems.simps) (simp add: peekState_rd peekStateCore_ends)
next
  case (Cons x xs y ys)
  then show ?case
    by (simp add: readItems_step)
qed

lemma readItems_indefinite [rd_simps]:
  assumes "list_all2 (\<lambda>x y. f x = Inr y) xs ys" and "\<forall>x \<in> set xs. cbor_item x"
  shows "readItems EndArray f (rd U pre (concat xs @ 0xff # bs) (arr_frame off None k) stk False) =
    Inr (ys, rd EndArray (pre @ concat xs) (0xff # bs) (arr_frame off None (k + length xs)) stk False)"
  using assms
proof (induction xs ys arbitrary: pre k rule: list_all2_induct)
  case Nil
  then show ?case
    by (subst readItems.simps) (simp add: peekState_rd peekStateCore_ends)
next
  case (Cons x xs y ys)
  then show ?case
    by (simp add: readItems_step)
qed

lemma readEntries_step:
  assumes "cbor_item kx" and "cbor_item vx" and "open_frame fr" and "open_frame (bumps 1 fr)"
    and "f kx = Inr k" and "g vx = Inr v" and "stop \<in> {EndArray, EndMap}"
  shows "readEntries stop f g (rd U pre (kx @ vx @ bs) fr stk tag) =
    ebind (readEntries stop f g (rd U (pre @ kx @ vx) bs (bumps 2 fr) stk False))
      (\<lambda>(kvs, r). Inr ((k, v) # kvs, r))"
  using assms by (subst readEntries.simps)
    (auto simp: peekState_rd peekStateCore_item readEncodedValue_rd numeral_2_eq_2)

text \<open>The flat list of the encodings of a map's entries.\<close>

definition flat :: "(bytes \<times> bytes) list \<Rightarrow> bytes list" where
  "flat kvs = concat (map (\<lambda>(k, v). [k, v]) kvs)"

lemma flat_simps [simp]: "flat [] = []" "flat ((k, v) # kvs) = k # v # flat kvs"
  by (simp_all add: flat_def)

lemma length_flat [simp]: "length (flat kvs) = 2 * length kvs"
  by (induction kvs) (auto simp: flat_def)

lemma readEntries_definite [rd_simps]:
  assumes "list_all2 (\<lambda>(kx, vx) (k, v). f kx = Inr k \<and> g vx = Inr v) xs ys"
    and "\<forall>x \<in> set (flat xs). cbor_item x" and "n = k + 2 * length xs"
  shows "readEntries EndMap f g (rd U pre (concat (flat xs) @ bs) (map_frame off (Some n) k) stk False) =
    Inr (ys, rd EndMap (pre @ concat (flat xs)) bs (map_frame off (Some n) n) stk False)"
  using assms
proof (induction xs ys arbitrary: pre k rule: list_all2_induct)
  case Nil
  then show ?case
    by (subst readEntries.simps) (simp add: peekState_rd peekStateCore_ends)
next
  case (Cons x xs y ys)
  then show ?case
    by (cases x; cases y) (simp add: readEntries_step)
qed

lemma readEntries_indefinite [rd_simps]:
  assumes "list_all2 (\<lambda>(kx, vx) (k, v). f kx = Inr k \<and> g vx = Inr v) xs ys"
    and "\<forall>x \<in> set (flat xs). cbor_item x" and "even k"
  shows "readEntries EndMap f g
      (rd U pre (concat (flat xs) @ 0xff # bs) (map_frame off None k) stk False) =
    Inr (ys, rd EndMap (pre @ concat (flat xs)) (0xff # bs)
      (map_frame off None (k + 2 * length xs)) stk False)"
  using assms
proof (induction xs ys arbitrary: pre k rule: list_all2_induct)
  case Nil
  then show ?case
    by (subst readEntries.simps) (simp add: peekState_rd peekStateCore_ends)
next
  case (Cons x xs y ys)
  then show ?case
    by (cases x; cases y) (simp add: readEntries_step)
qed

subsection \<open>The contract of a serializable class\<close>

text \<open>
  \<open>valid\<close> holds of the objects with fields in range and no cached bytes; \<open>content\<close> is what an
  object denotes, its cached bytes left out.
\<close>

locale cbor_codec =
  fixes toCbor :: "'a \<Rightarrow> bytes result"
    and fromCbor :: "bytes \<Rightarrow> 'a result"
    and valid :: "'a \<Rightarrow> bool"
    and content :: "'a \<Rightarrow> 'c"
  assumes encodes: "valid x \<Longrightarrow>
    \<exists>b. toCbor x = Inr b \<and> cbor_item b \<and> (\<exists>y. fromCbor b = Inr y \<and> content y = content x)"
begin

lemma encode_list:
  assumes "\<forall>x \<in> set xs. valid x"
  shows "\<exists>bs. emap toCbor xs = Inr bs \<and> (\<forall>b \<in> set bs. cbor_item b) \<and> length bs = length xs \<and>
    (\<exists>ys. list_all2 (\<lambda>b y. fromCbor b = Inr y) bs ys \<and> map content ys = map content xs)"
  using assms
proof (induction xs)
  case Nil
  then show ?case by simp
next
  case (Cons x xs)
  then obtain bs ys where "emap toCbor xs = Inr bs" "\<forall>b \<in> set bs. cbor_item b" "length bs = length xs"
    "list_all2 (\<lambda>b y. fromCbor b = Inr y) bs ys" "map content ys = map content xs"
    by auto
  moreover obtain b y where "toCbor x = Inr b" "cbor_item b" "fromCbor b = Inr y" "content y = content x"
    using encodes [of x] Cons.prems by auto
  ultimately show ?case
    by (intro exI [of _ "b # bs"] conjI exI [of _ "y # ys"]) simp_all
qed

lemma content_injective_on_bytes:
  assumes "valid x" and "valid x'" and "toCbor x = toCbor x'"
  shows "content x = content x'"
  using encodes [OF assms(1)] encodes [OF assms(2)] assms(3) by auto

end

locale caching_codec = cbor_codec +
  assumes keeps_bytes: "fromCbor b = Inr y \<Longrightarrow> toCbor y = Inr b"
begin

lemma reencode:
  assumes "valid x"
  shows "\<exists>b y. toCbor x = Inr b \<and> fromCbor b = Inr y \<and> content y = content x \<and> toCbor y = Inr b"
  using encodes [OF assms] keeps_bytes by blast

lemma decoding_injective: "fromCbor b = Inr y \<Longrightarrow> fromCbor b' = Inr y \<Longrightarrow> b = b'"
  using keeps_bytes [of b y] keeps_bytes [of b' y] by simp

end

text \<open>A map whose keys and whose values are serializable: the entries in order.\<close>

locale entry_codec =
  key: cbor_codec keyToCbor keyFromCbor keyValid keyContent +
  val: cbor_codec valToCbor valFromCbor valValid valContent
  for keyToCbor :: "'k \<Rightarrow> bytes result" and keyFromCbor :: "bytes \<Rightarrow> 'k result"
    and keyValid :: "'k \<Rightarrow> bool" and keyContent :: "'k \<Rightarrow> 'kc"
    and valToCbor :: "'v \<Rightarrow> bytes result" and valFromCbor :: "bytes \<Rightarrow> 'v result"
    and valValid :: "'v \<Rightarrow> bool" and valContent :: "'v \<Rightarrow> 'vc"
begin

lemma encode_entries:
  assumes "\<forall>(k, v) \<in> set es. keyValid k \<and> valValid v"
  shows "\<exists>kvs. emap (\<lambda>(k, v). ebind (keyToCbor k) (\<lambda>kb. ebind (valToCbor v) (\<lambda>vb. Inr (kb, vb)))) es =
      Inr kvs \<and> (\<forall>b \<in> set (flat kvs). cbor_item b) \<and> length kvs = length es \<and>
    (\<exists>ys. list_all2 (\<lambda>(kx, vx) (k, v). keyFromCbor kx = Inr k \<and> valFromCbor vx = Inr v) kvs ys \<and>
      map (map_prod keyContent valContent) ys = map (map_prod keyContent valContent) es)"
  using assms
proof (induction es)
  case Nil
  then show ?case by simp
next
  case (Cons e es)
  obtain k v where e: "e = (k, v)" by force
  from Cons obtain kvs ys where IH:
    "emap (\<lambda>(k, v). ebind (keyToCbor k) (\<lambda>kb. ebind (valToCbor v) (\<lambda>vb. Inr (kb, vb)))) es = Inr kvs"
    "\<forall>b \<in> set (flat kvs). cbor_item b" "length kvs = length es"
    "list_all2 (\<lambda>(kx, vx) (k, v). keyFromCbor kx = Inr k \<and> valFromCbor vx = Inr v) kvs ys"
    "map (map_prod keyContent valContent) ys = map (map_prod keyContent valContent) es"
    by auto
  obtain kb k' where k: "keyToCbor k = Inr kb" "cbor_item kb" "keyFromCbor kb = Inr k'"
    "keyContent k' = keyContent k"
    using key.encodes [of k] Cons.prems e by auto
  obtain vb v' where v: "valToCbor v = Inr vb" "cbor_item vb" "valFromCbor vb = Inr v'"
    "valContent v' = valContent v"
    using val.encodes [of v] Cons.prems e by auto
  from IH k v show ?case
    by (intro exI [of _ "(kb, vb) # kvs"] conjI exI [of _ "(k', v') # ys"]) (simp_all add: e)
qed

end

end
