(* ===== verification/Common.thy ===== *)
theory Common
  imports Cbor_Codec
begin

text \<open>
  The value classes of \<open>core/src/Serialization/Common\<close>: execution units, unit intervals, protocol
  versions, anchors, governance action ids, hashes, credentials and sets. Each class is a record
  with its private fields (the cached \<open>#originalBytes\<close> among them); a method is a definition named
  \<open>Class_method\<close>. Each class interprets \<open>cbor_codec\<close> or \<open>caching_codec\<close>.
\<close>

text \<open>Byte strings and texts of a size JavaScript can hold.\<close>

abbreviation small_bytes :: "bytes \<Rightarrow> bool" where
  "small_bytes b \<equiv> length b < 9007199254740992"

abbreviation safe_int :: "int \<Rightarrow> bool" where
  "safe_int i \<equiv> - 9007199254740992 < i \<and> i < 9007199254740992"

abbreviation uint64 :: "int \<Rightarrow> bool" where
  "uint64 i \<equiv> 0 \<le> i \<and> i < 18446744073709551616"

lemma cbor_int_ranges [simp]: "uint64 i \<Longrightarrow> cbor_int i" "safe_int i \<Longrightarrow> cbor_int i"
  by (simp_all add: cbor_int_def)

lemma cbor_int_numeral [simp]: "cbor_int 0" "cbor_int 1" "numeral k < (18446744073709551616 :: int) \<Longrightarrow> cbor_int (numeral k)"
  by (simp_all add: cbor_int_def)

text \<open>
  Bytes ending an item: the read lemmas for the last field of an object.
\<close>

lemmas rd_last = readInt_rd [where bs = "[]", simplified] readUInt_rd [where bs = "[]", simplified]
  readByteString_rd [where bs = "[]", simplified] readTextString_rd [where bs = "[]", simplified]
  readEncodedValue_rd [where bs = "[]", simplified] readItems_definite [where bs = "[]", simplified]
  readEntries_definite [where bs = "[]", simplified]

lemma cbor_item_array2:
  "cbor_item x \<Longrightarrow> cbor_item y \<Longrightarrow> cbor_item (enc_head ArrayType 2 @ x @ y)"
  using cbor_item_array [of "[x, y]"] by (auto simp: numeral_2_eq_2)

lemma cbor_item_array3:
  "cbor_item x \<Longrightarrow> cbor_item y \<Longrightarrow> cbor_item z \<Longrightarrow> cbor_item (enc_head ArrayType 3 @ x @ y @ z)"
  using cbor_item_array [of "[x, y, z]"] by (auto simp: numeral_3_eq_3)

lemmas cbor_items = cbor_item_array2 cbor_item_array3 cbor_item_tag

text \<open>Nothing can be read from an empty buffer.\<close>

lemma empty_reads [simp]:
  "readStartArray (new_reader []) = Inl (CborContentException UnexpectedEndOfBuffer)"
  "readTag (new_reader []) = Inl (CborContentException UnexpectedEndOfBuffer)"
  "readByteString (new_reader []) = Inl (CborContentException UnexpectedEndOfBuffer)"
  "readStartMap (new_reader []) = Inl (CborContentException UnexpectedEndOfBuffer)"
  by (simp_all add: readStartArray_def readTag_def peekTagCore_def readByteString_def readString_def
      readStartMap_def peekInitialByte_def new_reader_def root_frame_def at_definite_end_def)

text \<open>\<open>const length = reader.readStartArray(); if (length !== n) throw new InvalidArgumentError(...)\<close>\<close>

definition expectArray :: "nat \<Rightarrow> CborReader \<Rightarrow> CborReader result" where
  "expectArray n r =
     ebind (readStartArray r) (\<lambda>(len, r).
     ebind (throw_if (len \<noteq> Some n) InvalidArgumentError) (\<lambda>_. Inr r))"

lemma expectArray_rd [rd_simps]:
  "n < 9007199254740992 \<Longrightarrow> open_frame fr \<Longrightarrow>
   expectArray n (rd c pre (enc_head ArrayType n @ bs) fr stk tag) =
     Inr (rd U (pre @ enc_head ArrayType n) bs
       (arr_frame (length (pre @ enc_head ArrayType n)) (Some n) 0) (fr # stk) False)"
  by (simp add: expectArray_def readStartArray_rd)

lemma expectArray_empty [simp]:
  "expectArray n (new_reader []) = Inl (CborContentException UnexpectedEndOfBuffer)"
  by (simp add: expectArray_def)

subsection \<open>ExUnits\<close>

record ExUnits =
  eu_mem :: int
  eu_steps :: int
  eu_originalBytes :: "bytes option"

record Core_ExUnits =
  core_memory :: int
  core_steps :: int

definition ExUnits_new :: "int \<Rightarrow> int \<Rightarrow> ExUnits" where
  "ExUnits_new mem steps = \<lparr>eu_mem = mem, eu_steps = steps, eu_originalBytes = None\<rparr>"

definition ExUnits_toCbor :: "ExUnits \<Rightarrow> bytes result" where
  "ExUnits_toCbor u = cached (eu_originalBytes u)
     (write_all [writeStartArray (Some 2), writeInt (eu_mem u), writeInt (eu_steps u)])"

definition ExUnits_fromCbor :: "bytes \<Rightarrow> ExUnits result" where
  "ExUnits_fromCbor cbor =
     ebind (expectArray 2 (new_reader cbor)) (\<lambda>r.
     ebind (readUInt r) (\<lambda>(mem, r).
     ebind (readUInt r) (\<lambda>(steps, r).
     ebind (readEndArray r) (\<lambda>r.
       Inr ((ExUnits_new (int mem) (int steps))\<lparr>eu_originalBytes := Some cbor\<rparr>)))))"

definition ExUnits_toCore :: "ExUnits \<Rightarrow> Core_ExUnits" where
  "ExUnits_toCore u = \<lparr>core_memory = js_Number_int (eu_mem u), core_steps = js_Number_int (eu_steps u)\<rparr>"

definition ExUnits_fromCore :: "Core_ExUnits \<Rightarrow> ExUnits" where
  "ExUnits_fromCore c = ExUnits_new (core_memory c) (core_steps c)"

definition ExUnits_setMem :: "int \<Rightarrow> ExUnits \<Rightarrow> ExUnits" where
  "ExUnits_setMem mem u = u\<lparr>eu_mem := mem, eu_originalBytes := None\<rparr>"

definition ExUnits_setSteps :: "int \<Rightarrow> ExUnits \<Rightarrow> ExUnits" where
  "ExUnits_setSteps steps u = u\<lparr>eu_steps := steps, eu_originalBytes := None\<rparr>"

definition ExUnits_add :: "ExUnits \<Rightarrow> ExUnits \<Rightarrow> ExUnits" where
  "ExUnits_add u v = ExUnits_new (eu_mem u + eu_mem v) (eu_steps u + eu_steps v)"

definition ExUnits_valid :: "ExUnits \<Rightarrow> bool" where
  "ExUnits_valid u \<longleftrightarrow> uint64 (eu_mem u) \<and> uint64 (eu_steps u) \<and> eu_originalBytes u = None"

interpretation ex_units: caching_codec ExUnits_toCbor ExUnits_fromCbor ExUnits_valid
  "\<lambda>u. (eu_mem u, eu_steps u)"
proof
  fix x assume "ExUnits_valid x"
  then show "\<exists>b. ExUnits_toCbor x = Inr b \<and> cbor_item b \<and>
      (\<exists>y. ExUnits_fromCbor b = Inr y \<and> (eu_mem y, eu_steps y) = (eu_mem x, eu_steps x))"
    by (simp add: ExUnits_valid_def ExUnits_toCbor_def ExUnits_fromCbor_def ExUnits_new_def
        write_all_def encode_def rd_simps rd_last cbor_items)
next
  fix b y assume *: "ExUnits_fromCbor b = Inr y"
  then have "b \<noteq> []" by (auto simp: ExUnits_fromCbor_def)
  with * show "ExUnits_toCbor y = Inr b"
    by (auto simp: ExUnits_fromCbor_def ExUnits_toCbor_def)
qed

subsection \<open>UnitInterval\<close>

record UnitInterval =
  ui_numerator :: int
  ui_denominator :: int
  ui_originalBytes :: "bytes option"

record Core_Fraction =
  core_numerator :: int
  core_denominator :: int

definition UnitInterval_new :: "int \<Rightarrow> int \<Rightarrow> UnitInterval" where
  "UnitInterval_new n d = \<lparr>ui_numerator = n, ui_denominator = d, ui_originalBytes = None\<rparr>"

definition UnitInterval_toCbor :: "UnitInterval \<Rightarrow> bytes result" where
  "UnitInterval_toCbor u = cached (ui_originalBytes u)
     (write_all [writeTag (int CborTag_RationalNumber), writeStartArray (Some 2),
                 writeInt (ui_numerator u), writeInt (ui_denominator u)])"

text \<open>The message of the tag error calls \<open>peekTag\<close> again, which may itself throw.\<close>

definition UnitInterval_fromCbor :: "bytes \<Rightarrow> UnitInterval result" where
  "UnitInterval_fromCbor cbor =
     ebind (readTag (new_reader cbor)) (\<lambda>(tag, r).
     ebind (if tag \<noteq> CborTag_RationalNumber then ebind (peekTag r) (\<lambda>_. Inl InvalidArgumentError)
            else Inr ()) (\<lambda>_.
     ebind (expectArray 2 r) (\<lambda>r.
     ebind (readInt r) (\<lambda>(numerator, r).
     ebind (readInt r) (\<lambda>(denominator, r).
     ebind (readEndArray r) (\<lambda>r.
       Inr ((UnitInterval_new numerator denominator)\<lparr>ui_originalBytes := Some cbor\<rparr>)))))))"

definition UnitInterval_toCore :: "UnitInterval \<Rightarrow> Core_Fraction" where
  "UnitInterval_toCore u = \<lparr>core_numerator = js_Number_int (ui_numerator u),
                            core_denominator = js_Number_int (ui_denominator u)\<rparr>"

definition UnitInterval_fromCore :: "Core_Fraction \<Rightarrow> UnitInterval" where
  "UnitInterval_fromCore c = UnitInterval_new (core_numerator c) (core_denominator c)"

definition UnitInterval_setNumerator :: "int \<Rightarrow> UnitInterval \<Rightarrow> UnitInterval" where
  "UnitInterval_setNumerator n u = u\<lparr>ui_numerator := n, ui_originalBytes := None\<rparr>"

definition UnitInterval_setDenominator :: "int \<Rightarrow> UnitInterval \<Rightarrow> UnitInterval" where
  "UnitInterval_setDenominator d u = u\<lparr>ui_denominator := d, ui_originalBytes := None\<rparr>"

definition UnitInterval_valid :: "UnitInterval \<Rightarrow> bool" where
  "UnitInterval_valid u \<longleftrightarrow>
     cbor_int (ui_numerator u) \<and> cbor_int (ui_denominator u) \<and> ui_originalBytes u = None"

interpretation unit_interval: caching_codec UnitInterval_toCbor UnitInterval_fromCbor
  UnitInterval_valid "\<lambda>u. (ui_numerator u, ui_denominator u)"
proof
  fix x assume "UnitInterval_valid x"
  then show "\<exists>b. UnitInterval_toCbor x = Inr b \<and> cbor_item b \<and> (\<exists>y. UnitInterval_fromCbor b = Inr y \<and>
      (ui_numerator y, ui_denominator y) = (ui_numerator x, ui_denominator x))"
    by (simp add: UnitInterval_valid_def UnitInterval_toCbor_def UnitInterval_fromCbor_def
        UnitInterval_new_def write_all_def encode_def rd_simps rd_last cbor_items)
next
  fix b y assume *: "UnitInterval_fromCbor b = Inr y"
  then have "b \<noteq> []" by (auto simp: UnitInterval_fromCbor_def)
  with * show "UnitInterval_toCbor y = Inr b"
    by (auto simp: UnitInterval_fromCbor_def UnitInterval_toCbor_def split: if_splits)
qed

subsection \<open>ProtocolVersion\<close>

record ProtocolVersion =
  pv_major :: int
  pv_minor :: int
  pv_originalBytes :: "bytes option"

definition ProtocolVersion_new :: "int \<Rightarrow> int \<Rightarrow> ProtocolVersion" where
  "ProtocolVersion_new ma mi = \<lparr>pv_major = ma, pv_minor = mi, pv_originalBytes = None\<rparr>"

definition ProtocolVersion_toCbor :: "ProtocolVersion \<Rightarrow> bytes result" where
  "ProtocolVersion_toCbor v = cached (pv_originalBytes v)
     (if pv_minor v < 0 \<or> 4294967295 < pv_minor v then Inl InvalidStateError
      else write_all [writeStartArray (Some 2), writeInt (pv_major v), writeInt (pv_minor v)])"

definition ProtocolVersion_fromCbor :: "bytes \<Rightarrow> ProtocolVersion result" where
  "ProtocolVersion_fromCbor cbor =
     ebind (expectArray 2 (new_reader cbor)) (\<lambda>r.
     ebind (readInt r) (\<lambda>(major, r).
     ebind (readInt r) (\<lambda>(minor, r).
     ebind (readEndArray r) (\<lambda>r.
       Inr ((ProtocolVersion_new (js_Number_int major) (js_Number_int minor))
              \<lparr>pv_originalBytes := Some cbor\<rparr>)))))"

definition ProtocolVersion_setMajor :: "int \<Rightarrow> ProtocolVersion \<Rightarrow> ProtocolVersion" where
  "ProtocolVersion_setMajor n v = v\<lparr>pv_major := n, pv_originalBytes := None\<rparr>"

definition ProtocolVersion_setMinor :: "int \<Rightarrow> ProtocolVersion \<Rightarrow> ProtocolVersion" where
  "ProtocolVersion_setMinor n v = v\<lparr>pv_minor := n, pv_originalBytes := None\<rparr>"

definition ProtocolVersion_valid :: "ProtocolVersion \<Rightarrow> bool" where
  "ProtocolVersion_valid v \<longleftrightarrow> safe_int (pv_major v) \<and> 0 \<le> pv_minor v \<and> pv_minor v \<le> 4294967295 \<and>
     pv_originalBytes v = None"

interpretation protocol_version: caching_codec ProtocolVersion_toCbor ProtocolVersion_fromCbor
  ProtocolVersion_valid "\<lambda>v. (pv_major v, pv_minor v)"
proof
  fix x assume "ProtocolVersion_valid x"
  then show "\<exists>b. ProtocolVersion_toCbor x = Inr b \<and> cbor_item b \<and>
      (\<exists>y. ProtocolVersion_fromCbor b = Inr y \<and> (pv_major y, pv_minor y) = (pv_major x, pv_minor x))"
    by (simp add: ProtocolVersion_valid_def ProtocolVersion_toCbor_def ProtocolVersion_fromCbor_def
        ProtocolVersion_new_def write_all_def encode_def rd_simps rd_last cbor_items)
next
  fix b y assume *: "ProtocolVersion_fromCbor b = Inr y"
  then have "b \<noteq> []" by (auto simp: ProtocolVersion_fromCbor_def)
  with * show "ProtocolVersion_toCbor y = Inr b"
    by (auto simp: ProtocolVersion_fromCbor_def ProtocolVersion_toCbor_def)
qed

subsection \<open>Anchor\<close>

record Anchor =
  an_url :: js_string
  an_dataHash :: bytes
  an_originalBytes :: "bytes option"

text \<open>\<open>typedHex(value, 2 * n)\<close> on the hex string of a byte string: the length check remains.\<close>

definition typedHash :: "nat \<Rightarrow> bytes \<Rightarrow> bytes result" where
  "typedHash n value = (if length value \<noteq> n then Inl InvalidStringError else Inr value)"

definition Anchor_new :: "js_string \<Rightarrow> bytes \<Rightarrow> Anchor result" where
  "Anchor_new url dataHash =
     (if 128 < length url then Inl InvalidArgumentError
      else Inr \<lparr>an_url = url, an_dataHash = dataHash, an_originalBytes = None\<rparr>)"

definition Anchor_toCbor :: "Anchor \<Rightarrow> bytes result" where
  "Anchor_toCbor a = cached (an_originalBytes a)
     (write_all [writeStartArray (Some 2), writeTextString (an_url a), writeByteString (an_dataHash a)])"

definition Anchor_fromCbor :: "bytes \<Rightarrow> Anchor result" where
  "Anchor_fromCbor cbor =
     ebind (expectArray 2 (new_reader cbor)) (\<lambda>r.
     ebind (readTextString r) (\<lambda>(url, r).
     ebind (readByteString r) (\<lambda>(h, r).
     ebind (typedHash 32 h) (\<lambda>hash.
     ebind (readEndArray r) (\<lambda>r.
     ebind (Anchor_new url hash) (\<lambda>anchor. Inr (anchor\<lparr>an_originalBytes := Some cbor\<rparr>)))))))"

definition Anchor_setUrl :: "js_string \<Rightarrow> Anchor \<Rightarrow> Anchor" where
  "Anchor_setUrl url a = a\<lparr>an_url := url, an_originalBytes := None\<rparr>"

definition Anchor_setDataHash :: "bytes \<Rightarrow> Anchor \<Rightarrow> Anchor" where
  "Anchor_setDataHash h a = a\<lparr>an_dataHash := h, an_originalBytes := None\<rparr>"

definition Anchor_valid :: "Anchor \<Rightarrow> bool" where
  "Anchor_valid a \<longleftrightarrow> length (an_url a) \<le> 128 \<and> well_formed_utf16 (an_url a) \<and>
     length (an_dataHash a) = 32 \<and> an_originalBytes a = None"

lemma length_cp_bytes: "length (cp_bytes c) \<le> 4"
  by (simp add: cp_bytes_def)

lemma length_utf8_encode: "length (utf8_encode s) \<le> 4 * length s"
proof (induction s rule: utf8_encode.induct)
  case (2 u)
  show ?case using length_cp_bytes by (simp only: utf8_encode.simps) simp
next
  case (3 u v us)
  show ?case
    using 3 length_cp_bytes [of "surrogate_pair (unat u) (unat v)"] length_cp_bytes [of "0xFFFD"]
      length_cp_bytes [of "unat u"]
    by (auto simp: is_high_def is_low_def)
qed simp

lemma Anchor_url_small: "Anchor_valid a \<Longrightarrow> length (utf8_encode (an_url a)) < 9007199254740992"
  using length_utf8_encode [of "an_url a"] by (simp add: Anchor_valid_def)

interpretation anchor: caching_codec Anchor_toCbor Anchor_fromCbor Anchor_valid
  "\<lambda>a. (an_url a, an_dataHash a)"
proof
  fix x assume x: "Anchor_valid x"
  with Anchor_url_small [OF x]
  show "\<exists>b. Anchor_toCbor x = Inr b \<and> cbor_item b \<and>
      (\<exists>y. Anchor_fromCbor b = Inr y \<and> (an_url y, an_dataHash y) = (an_url x, an_dataHash x))"
    by (simp add: Anchor_valid_def Anchor_toCbor_def Anchor_fromCbor_def Anchor_new_def typedHash_def
        write_all_def encode_def rd_simps rd_last cbor_items)
next
  fix b y assume *: "Anchor_fromCbor b = Inr y"
  then have "b \<noteq> []" by (auto simp: Anchor_fromCbor_def)
  with * show "Anchor_toCbor y = Inr b"
    by (auto simp: Anchor_fromCbor_def Anchor_toCbor_def)
qed

subsection \<open>GovernanceActionId\<close>

record GovernanceActionId =
  ga_id :: bytes
  ga_index :: int
  ga_originalBytes :: "bytes option"

definition GovernanceActionId_new :: "bytes \<Rightarrow> int \<Rightarrow> GovernanceActionId" where
  "GovernanceActionId_new i n = \<lparr>ga_id = i, ga_index = n, ga_originalBytes = None\<rparr>"

definition GovernanceActionId_toCbor :: "GovernanceActionId \<Rightarrow> bytes result" where
  "GovernanceActionId_toCbor g = cached (ga_originalBytes g)
     (write_all [writeStartArray (Some 2), writeByteString (ga_id g), writeInt (ga_index g)])"

definition GovernanceActionId_fromCbor :: "bytes \<Rightarrow> GovernanceActionId result" where
  "GovernanceActionId_fromCbor cbor =
     ebind (expectArray 2 (new_reader cbor)) (\<lambda>r.
     ebind (readByteString r) (\<lambda>(txId, r).
     ebind (readInt r) (\<lambda>(index, r).
       Inr ((GovernanceActionId_new txId index)\<lparr>ga_originalBytes := Some cbor\<rparr>))))"

definition GovernanceActionId_setTransactionId :: "bytes \<Rightarrow> GovernanceActionId \<Rightarrow> GovernanceActionId" where
  "GovernanceActionId_setTransactionId i g = g\<lparr>ga_id := i, ga_originalBytes := None\<rparr>"

definition GovernanceActionId_setIndex :: "int \<Rightarrow> GovernanceActionId \<Rightarrow> GovernanceActionId" where
  "GovernanceActionId_setIndex n g = g\<lparr>ga_index := n, ga_originalBytes := None\<rparr>"

definition GovernanceActionId_equals :: "GovernanceActionId \<Rightarrow> GovernanceActionId \<Rightarrow> bool" where
  "GovernanceActionId_equals g h \<longleftrightarrow> ga_index g = ga_index h \<and> ga_id g = ga_id h"

definition GovernanceActionId_valid :: "GovernanceActionId \<Rightarrow> bool" where
  "GovernanceActionId_valid g \<longleftrightarrow>
     small_bytes (ga_id g) \<and> cbor_int (ga_index g) \<and> ga_originalBytes g = None"

interpretation governance_action_id: caching_codec GovernanceActionId_toCbor
  GovernanceActionId_fromCbor GovernanceActionId_valid "\<lambda>g. (ga_id g, ga_index g)"
proof
  fix x assume "GovernanceActionId_valid x"
  then show "\<exists>b. GovernanceActionId_toCbor x = Inr b \<and> cbor_item b \<and>
      (\<exists>y. GovernanceActionId_fromCbor b = Inr y \<and> (ga_id y, ga_index y) = (ga_id x, ga_index x))"
    by (simp add: GovernanceActionId_valid_def GovernanceActionId_toCbor_def
        GovernanceActionId_fromCbor_def GovernanceActionId_new_def
        write_all_def encode_def rd_simps rd_last cbor_items)
next
  fix b y assume *: "GovernanceActionId_fromCbor b = Inr y"
  then have "b \<noteq> []" by (auto simp: GovernanceActionId_fromCbor_def)
  with * show "GovernanceActionId_toCbor y = Inr b"
    by (auto simp: GovernanceActionId_fromCbor_def GovernanceActionId_toCbor_def)
qed

subsection \<open>Hash and Credential\<close>

definition Hash_toCbor :: "bytes \<Rightarrow> bytes result" where
  "Hash_toCbor value = write_all [writeByteString value]"

definition Hash_fromCbor :: "bytes \<Rightarrow> bytes result" where
  "Hash_fromCbor cbor = ebind (readByteString (new_reader cbor)) (\<lambda>(value, r). Inr value)"

interpretation hash_codec: cbor_codec Hash_toCbor Hash_fromCbor "\<lambda>b. small_bytes b" "\<lambda>b. b"
proof
  fix x :: bytes assume "small_bytes x"
  then show "\<exists>b. Hash_toCbor x = Inr b \<and> cbor_item b \<and> (\<exists>y. Hash_fromCbor b = Inr y \<and> y = x)"
    by (simp add: Hash_toCbor_def Hash_fromCbor_def write_all_def encode_def rd_simps rd_last)
qed

datatype CredentialType = KeyHash | ScriptHash

fun credentialType_num :: "CredentialType \<Rightarrow> int" where
  "credentialType_num KeyHash = 0"
| "credentialType_num ScriptHash = 1"

record Credential =
  cred_type :: CredentialType
  cred_hash :: bytes

definition readCredentialType :: "CborReader \<Rightarrow> (CredentialType \<times> CborReader) result" where
  "readCredentialType r =
     ebind (readInt r) (\<lambda>(i, r).
       let type = js_Number_int i in
       if type = 0 then Inr (KeyHash, r)
       else if type = 1 then Inr (ScriptHash, r)
       else Inl InvalidStateError)"

definition Credential_toCbor :: "Credential \<Rightarrow> bytes result" where
  "Credential_toCbor c =
     write_all [writeStartArray (Some 2), writeInt (credentialType_num (cred_type c)),
                writeByteString (cred_hash c)]"

text \<open>
  The message of the size error interpolates \<open>length\<close>, which the function does not declare: under
  Node evaluating it throws a \<open>ReferenceError\<close> before the intended exception is built.
\<close>

definition Credential_fromCbor :: "bytes \<Rightarrow> Credential result" where
  "Credential_fromCbor cbor =
     ebind (readStartArray (new_reader cbor)) (\<lambda>(len, r).
     ebind (throw_if (len \<noteq> Some 2) ReferenceError) (\<lambda>_.
     ebind (readCredentialType r) (\<lambda>(type, r).
     ebind (readByteString r) (\<lambda>(hash, r).
     ebind (readEndArray r) (\<lambda>r.
       Inr \<lparr>cred_type = type, cred_hash = hash\<rparr>)))))"

definition Credential_valid :: "Credential \<Rightarrow> bool" where
  "Credential_valid c \<longleftrightarrow> small_bytes (cred_hash c)"

interpretation credential_codec: cbor_codec Credential_toCbor Credential_fromCbor Credential_valid
  "\<lambda>c. c"
proof
  fix x :: Credential assume "Credential_valid x"
  then show "\<exists>b. Credential_toCbor x = Inr b \<and> cbor_item b \<and> (\<exists>y. Credential_fromCbor b = Inr y \<and> y = x)"
    by (cases "cred_type x")
      (simp_all add: Credential_valid_def Credential_toCbor_def Credential_fromCbor_def
        readCredentialType_def write_all_def encode_def rd_simps rd_last cbor_items)
qed

subsection \<open>CborSet\<close>

record 't CborSet =
  cs_values :: "'t list"
  cs_originalBytes :: "bytes option"

text \<open>\<open>fromCbor\<close> takes the element decoder as a callback; the tag 258 is optional.\<close>

definition CborSet_fromCbor :: "(bytes \<Rightarrow> 't result) \<Rightarrow> bytes \<Rightarrow> 't CborSet result" where
  "CborSet_fromCbor fromCbor cbor =
     ebind (peekState (new_reader cbor)) (\<lambda>(state, r).
     ebind (if state = TagState
            then ebind (peekTag r) (\<lambda>tag.
                   if tag = CborTag_Set then ebind (readTag r) (\<lambda>(_, r). Inr r) else Inr r)
            else Inr r) (\<lambda>r.
     ebind (readStartArray r) (\<lambda>(len, r).
     ebind (readItems EndArray fromCbor r) (\<lambda>(values, r).
       Inr \<lparr>cs_values = values, cs_originalBytes = Some cbor\<rparr>))))"

text \<open>\<open>inConwayEra\<close> is the module-level flag of \<open>core/src/util/conwayEra.ts\<close>.\<close>

definition CborSet_toCbor :: "bool \<Rightarrow> ('t \<Rightarrow> bytes result) \<Rightarrow> 't CborSet \<Rightarrow> bytes result" where
  "CborSet_toCbor inConwayEra toCbor s = cached (cs_originalBytes s)
     (ebind (emap toCbor (cs_values s)) (\<lambda>bs.
        write_all ((if inConwayEra then [writeTag (int CborTag_Set)] else []) @
                   [writeStartArray (Some (length (cs_values s)))] @ map writeEncodedValue bs)))"

definition CborSet_fromCore :: "('c \<Rightarrow> 't) \<Rightarrow> 'c list \<Rightarrow> 't CborSet" where
  "CborSet_fromCore fromCore cs = \<lparr>cs_values = map fromCore cs, cs_originalBytes = None\<rparr>"

definition CborSet_toCore :: "('t \<Rightarrow> 'c) \<Rightarrow> 't CborSet \<Rightarrow> 'c list" where
  "CborSet_toCore toCore s = map toCore (cs_values s)"

definition CborSet_setValues :: "'t list \<Rightarrow> 't CborSet \<Rightarrow> 't CborSet" where
  "CborSet_setValues vs s = \<lparr>cs_values = vs, cs_originalBytes = None\<rparr>"

definition CborSet_size :: "'t CborSet \<Rightarrow> nat" where
  "CborSet_size s = length (cs_values s)"

lemma peekStateCore_enc_head [rd_simps]:
  assumes "n < 18446744073709551616" and "open_frame fr"
  shows "peekStateCore (rd c pre (enc_head TagType n @ bs) fr stk tag) = Inr TagState"
    and "peekStateCore (rd c pre (enc_head ArrayType n @ bs) fr stk tag) = Inr StartArray"
    and "peekStateCore (rd c pre (enc_head MapType n @ bs) fr stk tag) = Inr StartMap"
  using assms head_peek(3) [OF is_head_enc_head] head_info(1) [OF is_head_enc_head]
  by (simp_all add: state_of_initial_byte_def)

context cbor_codec
begin

lemma set_encodes:
  assumes "\<forall>x \<in> set (cs_values s). valid x" and "length (cs_values s) < 9007199254740992"
    and "cs_originalBytes s = None"
  shows "\<exists>b. CborSet_toCbor conway toCbor s = Inr b \<and> cbor_item b \<and>
    (\<exists>t. CborSet_fromCbor fromCbor b = Inr t \<and> map content (cs_values t) = map content (cs_values s))"
proof -
  obtain bs ys where bs: "emap toCbor (cs_values s) = Inr bs" "\<forall>b \<in> set bs. cbor_item b"
    "length bs = length (cs_values s)" "list_all2 (\<lambda>b y. fromCbor b = Inr y) bs ys"
    "map content ys = map content (cs_values s)"
    using encode_list [OF assms(1)] by blast
  let ?arr = "enc_head ArrayType (length bs) @ concat bs"
  have arr: "cbor_item ?arr" using bs assms(2) by (intro cbor_item_array) auto
  have to: "CborSet_toCbor conway toCbor s = Inr ((if conway then enc_head TagType 258 else []) @ ?arr)"
    using bs assms(2,3) by (simp add: CborSet_toCbor_def write_all_def run_ops_append encode_def)
  have "CborSet_fromCbor fromCbor ((if conway then enc_head TagType 258 else []) @ ?arr) =
      Inr \<lparr>cs_values = ys, cs_originalBytes = Some ((if conway then enc_head TagType 258 else []) @ ?arr)\<rparr>"
    using bs assms(2) by (simp add: CborSet_fromCbor_def rd_simps rd_last)
  with to arr bs(5) show ?thesis by (auto intro: cbor_items)
qed

end

lemma CborSet_keeps_bytes:
  assumes "CborSet_fromCbor f b = Inr s"
  shows "CborSet_toCbor conway g s = Inr b"
proof -
  have "b \<noteq> []"
  proof
    assume "b = []"
    then have "CborSet_fromCbor f b = Inl (CborContentException UnexpectedEndOfBuffer)"
      by (simp add: CborSet_fromCbor_def peekState_def peekStateCore_def new_reader_def root_frame_def
          at_definite_end_def readStartArray_def peekInitialByte_def)
    with assms show False by simp
  qed
  with assms show ?thesis
    by (auto simp: CborSet_fromCbor_def CborSet_toCbor_def)
qed

subsection \<open>Properties\<close>

text \<open>Execution units, unit intervals, protocol versions, anchors, governance action ids and
  credentials with fields in range can be written, and reading the bytes gives back an object with
  the same fields.\<close>

theorem common_classes_roundtrip:
  assumes "ExUnits_valid u" and "UnitInterval_valid i" and "ProtocolVersion_valid v"
    and "Anchor_valid a" and "GovernanceActionId_valid g" and "Credential_valid c"
  shows "(\<exists>b y. ExUnits_toCbor u = Inr b \<and> ExUnits_fromCbor b = Inr y \<and>
      eu_mem y = eu_mem u \<and> eu_steps y = eu_steps u) \<and>
    (\<exists>b y. UnitInterval_toCbor i = Inr b \<and> UnitInterval_fromCbor b = Inr y \<and>
      ui_numerator y = ui_numerator i \<and> ui_denominator y = ui_denominator i) \<and>
    (\<exists>b y. ProtocolVersion_toCbor v = Inr b \<and> ProtocolVersion_fromCbor b = Inr y \<and>
      pv_major y = pv_major v \<and> pv_minor y = pv_minor v) \<and>
    (\<exists>b y. Anchor_toCbor a = Inr b \<and> Anchor_fromCbor b = Inr y \<and>
      an_url y = an_url a \<and> an_dataHash y = an_dataHash a) \<and>
    (\<exists>b y. GovernanceActionId_toCbor g = Inr b \<and> GovernanceActionId_fromCbor b = Inr y \<and>
      GovernanceActionId_equals y g) \<and>
    (\<exists>b. Credential_toCbor c = Inr b \<and> Credential_fromCbor b = Inr c)"
  using ex_units.encodes [OF assms(1)] unit_interval.encodes [OF assms(2)]
    protocol_version.encodes [OF assms(3)] anchor.encodes [OF assms(4)]
    governance_action_id.encodes [OF assms(5)] credential_codec.encodes [OF assms(6)]
  by (simp add: GovernanceActionId_equals_def) blast

theorem common_classes_roundtrip_witness:
  "(\<exists>b y. ExUnits_toCbor (ExUnits_new 1 18446744073709551615) = Inr b \<and> ExUnits_fromCbor b = Inr y \<and>
      eu_mem y = 1 \<and> eu_steps y = 18446744073709551615) \<and>
    (\<exists>b y. UnitInterval_toCbor (UnitInterval_new 1 3) = Inr b \<and> UnitInterval_fromCbor b = Inr y \<and>
      ui_numerator y = 1 \<and> ui_denominator y = 3)"
  using common_classes_roundtrip [of "ExUnits_new 1 18446744073709551615" "UnitInterval_new 1 3"
      "ProtocolVersion_new 9 0" "\<lparr>an_url = [0x68], an_dataHash = replicate 32 0, an_originalBytes = None\<rparr>"
      "GovernanceActionId_new (replicate 32 0) 0" "\<lparr>cred_type = ScriptHash, cred_hash = replicate 28 0\<rparr>"]
  by (simp add: ExUnits_valid_def ExUnits_new_def UnitInterval_valid_def UnitInterval_new_def
      ProtocolVersion_valid_def ProtocolVersion_new_def Anchor_valid_def GovernanceActionId_valid_def
      GovernanceActionId_new_def Credential_valid_def is_high_def is_low_def)

text \<open>Whatever bytes such an object, or a set, was read from (non-canonical ones too), \<open>toCbor\<close>
  returns exactly those bytes.\<close>

theorem common_classes_keep_bytes:
  "(ExUnits_fromCbor b = Inr u \<longrightarrow> ExUnits_toCbor u = Inr b) \<and>
   (UnitInterval_fromCbor b = Inr i \<longrightarrow> UnitInterval_toCbor i = Inr b) \<and>
   (ProtocolVersion_fromCbor b = Inr v \<longrightarrow> ProtocolVersion_toCbor v = Inr b) \<and>
   (Anchor_fromCbor b = Inr a \<longrightarrow> Anchor_toCbor a = Inr b) \<and>
   (GovernanceActionId_fromCbor b = Inr g \<longrightarrow> GovernanceActionId_toCbor g = Inr b) \<and>
   (CborSet_fromCbor f b = Inr s \<longrightarrow> CborSet_toCbor conway h s = Inr b)"
  using ex_units.keeps_bytes unit_interval.keeps_bytes protocol_version.keeps_bytes anchor.keeps_bytes
    governance_action_id.keeps_bytes CborSet_keeps_bytes by blast

theorem common_classes_keep_bytes_witness:
  "\<exists>u. ExUnits_fromCbor [0x82, 0x18, 0x01, 0x02] = Inr u \<and>
     ExUnits_toCbor u = Inr [0x82, 0x18, 0x01, 0x02]"
proof -
  have "is_head ArrayType 2 [0x82]" "is_head UnsignedInteger 1 [0x18, 0x01]" "is_head UnsignedInteger 2 [0x02]"
    by (simp_all add: is_head_def initial_byte_def byte_of_def)
  then have "\<exists>u. ExUnits_fromCbor [0x82, 0x18, 0x01, 0x02] = Inr u"
    using readStartArray_head [of 2 "[0x82]" root_frame U "[]" "[0x18, 0x01, 0x02]" "[]" False]
      readUInt_head [of 1 "[0x18, 0x01]" _ U "[0x82]" "[0x02]"]
      readUInt_head [of 2 "[0x02]" _ U "[0x82, 0x18, 0x01]" "[]"]
    by (simp add: ExUnits_fromCbor_def expectArray_def new_reader_rd rd_simps)
  with common_classes_keep_bytes [of "[0x82, 0x18, 0x01, 0x02]"] show ?thesis by blast
qed

text \<open>A setter takes effect: after it the object is written from its fields, not from the bytes
  it was read from.\<close>

theorem setters_drop_cached_bytes:
  "ExUnits_toCbor (ExUnits_setMem m u) = ExUnits_toCbor (ExUnits_new m (eu_steps u)) \<and>
   ExUnits_toCbor (ExUnits_setSteps n u) = ExUnits_toCbor (ExUnits_new (eu_mem u) n) \<and>
   UnitInterval_toCbor (UnitInterval_setNumerator m i) = UnitInterval_toCbor (UnitInterval_new m (ui_denominator i)) \<and>
   UnitInterval_toCbor (UnitInterval_setDenominator n i) = UnitInterval_toCbor (UnitInterval_new (ui_numerator i) n) \<and>
   ProtocolVersion_toCbor (ProtocolVersion_setMajor m v) = ProtocolVersion_toCbor (ProtocolVersion_new m (pv_minor v)) \<and>
   ProtocolVersion_toCbor (ProtocolVersion_setMinor n v) = ProtocolVersion_toCbor (ProtocolVersion_new (pv_major v) n) \<and>
   GovernanceActionId_toCbor (GovernanceActionId_setTransactionId t g) =
     GovernanceActionId_toCbor (GovernanceActionId_new t (ga_index g)) \<and>
   GovernanceActionId_toCbor (GovernanceActionId_setIndex n g) =
     GovernanceActionId_toCbor (GovernanceActionId_new (ga_id g) n)"
  by (simp add: ExUnits_toCbor_def ExUnits_setMem_def ExUnits_setSteps_def ExUnits_new_def
      UnitInterval_toCbor_def UnitInterval_setNumerator_def UnitInterval_setDenominator_def UnitInterval_new_def
      ProtocolVersion_toCbor_def ProtocolVersion_setMajor_def ProtocolVersion_setMinor_def ProtocolVersion_new_def
      GovernanceActionId_toCbor_def GovernanceActionId_setTransactionId_def GovernanceActionId_setIndex_def
      GovernanceActionId_new_def)

text \<open>A set of hashes is read back with the same elements in the same order, in the Conway
  encoding with tag 258 as well as in the older one without.\<close>

theorem hash_set_roundtrip:
  assumes "\<forall>h \<in> set (cs_values s). small_bytes h" and "length (cs_values s) < 9007199254740992"
    and "cs_originalBytes s = None"
  shows "\<exists>b t. CborSet_toCbor conway Hash_toCbor s = Inr b \<and> CborSet_fromCbor Hash_fromCbor b = Inr t \<and>
    cs_values t = cs_values s"
  using hash_codec.set_encodes [OF assms, of conway] by auto

theorem hash_set_roundtrip_witness:
  "\<exists>b t. CborSet_toCbor True Hash_toCbor \<lparr>cs_values = [[1, 2], [3]], cs_originalBytes = None\<rparr> = Inr b \<and>
    CborSet_fromCbor Hash_fromCbor b = Inr t \<and> cs_values t = [[1, 2], [3]]"
  using hash_set_roundtrip [of "\<lparr>cs_values = [[1, 2], [3]], cs_originalBytes = None\<rparr>" True] by simp

end
