(* ===== verification/Native_Script.thy ===== *)
theory Native_Script
  imports Common
begin

text \<open>
  Native scripts (\<open>core/src/Serialization/Scripts/NativeScript\<close>): the class \<open>NativeScript\<close> wraps one
  of seven script classes. Wrapper and wrapped object each cache the bytes they were read from,
  so both carry an optional cache here. \<open>fromCbor\<close> of the list scripts calls
  \<open>NativeScript.fromCbor\<close> on every element: those definitions take the decoder as an argument and
  \<open>NativeScript_fromCbor\<close> ties the knot; it terminates because an element is shorter than the
  script it is part of.
\<close>

subsection \<open>Data\<close>

datatype NativeScript = NativeScript script_object "bytes option"
  and script_object =
    ScriptPubkey bytes "bytes option"
  | ScriptAll "NativeScript list" "bytes option"
  | ScriptAny "NativeScript list" "bytes option"
  | ScriptNOfK "NativeScript list" int "bytes option"
  | TimelockStart int "bytes option"
  | TimelockExpiry int "bytes option"
  | RequireGuard Credential "bytes option"

text \<open>\<open>Cardano.NativeScript\<close> of \<open>core/src/Cardano/types/Script.ts\<close>.\<close>

datatype Core_NativeScript =
    RequireSignatureScript bytes
  | RequireAllOfScript "Core_NativeScript list"
  | RequireAnyOfScript "Core_NativeScript list"
  | RequireAtLeastScript int "Core_NativeScript list"
  | RequireTimeAfterScript int
  | RequireTimeBeforeScript int
  | RequireGuardScript Credential

abbreviation (input) Kind_RequireSignature :: int where "Kind_RequireSignature \<equiv> 0"
abbreviation (input) Kind_RequireAllOf :: int where "Kind_RequireAllOf \<equiv> 1"
abbreviation (input) Kind_RequireAnyOf :: int where "Kind_RequireAnyOf \<equiv> 2"
abbreviation (input) Kind_RequireNOf :: int where "Kind_RequireNOf \<equiv> 3"
abbreviation (input) Kind_RequireTimeAfter :: int where "Kind_RequireTimeAfter \<equiv> 4"
abbreviation (input) Kind_RequireTimeBefore :: int where "Kind_RequireTimeBefore \<equiv> 5"
abbreviation (input) Kind_RequireGuard :: int where "Kind_RequireGuard \<equiv> 6"

subsection \<open>Core objects\<close>

fun NativeScript_toCore :: "NativeScript \<Rightarrow> Core_NativeScript"
  and script_object_toCore :: "script_object \<Rightarrow> Core_NativeScript" where
  "NativeScript_toCore (NativeScript s original) = script_object_toCore s"
| "script_object_toCore (ScriptPubkey h original) = RequireSignatureScript h"
| "script_object_toCore (ScriptAll ss original) = RequireAllOfScript (map NativeScript_toCore ss)"
| "script_object_toCore (ScriptAny ss original) = RequireAnyOfScript (map NativeScript_toCore ss)"
| "script_object_toCore (ScriptNOfK ss n original) = RequireAtLeastScript n (map NativeScript_toCore ss)"
| "script_object_toCore (TimelockStart slot original) = RequireTimeAfterScript slot"
| "script_object_toCore (TimelockExpiry slot original) = RequireTimeBeforeScript slot"
| "script_object_toCore (RequireGuard c original) = RequireGuardScript c"

fun NativeScript_fromCore :: "Core_NativeScript \<Rightarrow> NativeScript" where
  "NativeScript_fromCore (RequireSignatureScript h) = NativeScript (ScriptPubkey h None) None"
| "NativeScript_fromCore (RequireAllOfScript ss) =
     NativeScript (ScriptAll (map NativeScript_fromCore ss) None) None"
| "NativeScript_fromCore (RequireAnyOfScript ss) =
     NativeScript (ScriptAny (map NativeScript_fromCore ss) None) None"
| "NativeScript_fromCore (RequireAtLeastScript n ss) =
     NativeScript (ScriptNOfK (map NativeScript_fromCore ss) n None) None"
| "NativeScript_fromCore (RequireTimeAfterScript slot) = NativeScript (TimelockStart slot None) None"
| "NativeScript_fromCore (RequireTimeBeforeScript slot) = NativeScript (TimelockExpiry slot None) None"
| "NativeScript_fromCore (RequireGuardScript c) = NativeScript (RequireGuard c None) None"

subsection \<open>Writing\<close>

text \<open>
  What each class's \<open>toCbor\<close> writes when it has no cached bytes; \<open>bs\<close> are the encodings of the nested
  scripts.
\<close>

definition ScriptPubkey_write :: "bytes \<Rightarrow> bytes result" where
  "ScriptPubkey_write h =
     write_all [writeStartArray (Some 2), writeInt Kind_RequireSignature, writeByteString h]"

definition ScriptAll_write :: "bytes list \<Rightarrow> bytes result" where
  "ScriptAll_write bs =
     write_all ([writeStartArray (Some 2), writeInt Kind_RequireAllOf,
                 writeStartArray (Some (length bs))] @ map writeEncodedValue bs)"

definition ScriptAny_write :: "bytes list \<Rightarrow> bytes result" where
  "ScriptAny_write bs =
     write_all ([writeStartArray (Some 2), writeInt Kind_RequireAnyOf,
                 writeStartArray (Some (length bs))] @ map writeEncodedValue bs)"

definition ScriptNOfK_write :: "int \<Rightarrow> bytes list \<Rightarrow> bytes result" where
  "ScriptNOfK_write n bs =
     write_all ([writeStartArray (Some 3), writeInt Kind_RequireNOf, writeInt n,
                 writeStartArray (Some (length bs))] @ map writeEncodedValue bs)"

definition TimelockStart_write :: "int \<Rightarrow> bytes result" where
  "TimelockStart_write slot =
     write_all [writeStartArray (Some 2), writeInt Kind_RequireTimeAfter, writeInt slot]"

definition TimelockExpiry_write :: "int \<Rightarrow> bytes result" where
  "TimelockExpiry_write slot =
     write_all [writeStartArray (Some 2), writeInt Kind_RequireTimeBefore, writeInt slot]"

definition RequireGuard_write :: "Credential \<Rightarrow> bytes result" where
  "RequireGuard_write c =
     ebind (Credential_toCbor c) (\<lambda>b.
       write_all [writeStartArray (Some 2), writeInt Kind_RequireGuard, writeEncodedValue b])"

lemmas script_writes = ScriptPubkey_write_def ScriptAll_write_def ScriptAny_write_def ScriptNOfK_write_def
  TimelockStart_write_def TimelockExpiry_write_def RequireGuard_write_def

fun NativeScript_toCbor :: "NativeScript \<Rightarrow> bytes result"
  and script_object_toCbor :: "script_object \<Rightarrow> bytes result" where
  "NativeScript_toCbor (NativeScript s original) = cached original (script_object_toCbor s)"
| "script_object_toCbor (ScriptPubkey h original) = cached original (ScriptPubkey_write h)"
| "script_object_toCbor (ScriptAll ss original) =
     cached original (ebind (emap NativeScript_toCbor ss) ScriptAll_write)"
| "script_object_toCbor (ScriptAny ss original) =
     cached original (ebind (emap NativeScript_toCbor ss) ScriptAny_write)"
| "script_object_toCbor (ScriptNOfK ss n original) =
     cached original (ebind (emap NativeScript_toCbor ss) (ScriptNOfK_write n))"
| "script_object_toCbor (TimelockStart slot original) = cached original (TimelockStart_write slot)"
| "script_object_toCbor (TimelockExpiry slot original) = cached original (TimelockExpiry_write slot)"
| "script_object_toCbor (RequireGuard c original) = cached original (RequireGuard_write c)"

subsection \<open>Reading\<close>

text \<open>The array head and the kind every script class checks.\<close>

definition expectKind :: "nat \<Rightarrow> int \<Rightarrow> bytes \<Rightarrow> CborReader result" where
  "expectKind n kind cbor =
     ebind (expectArray n (new_reader cbor)) (\<lambda>r.
     ebind (readInt r) (\<lambda>(k, r).
     ebind (throw_if (js_Number_int k \<noteq> kind) InvalidArgumentError) (\<lambda>_. Inr r)))"

text \<open>The inner list: \<open>readStartArray\<close>, the elements, \<open>readEndArray\<close>.\<close>

definition readScripts :: "(bytes \<Rightarrow> NativeScript result) \<Rightarrow> CborReader \<Rightarrow>
    (NativeScript list \<times> CborReader) result" where
  "readScripts fromCbor r =
     ebind (readStartArray r) (\<lambda>(len, r).
     ebind (readItems EndArray fromCbor r) (\<lambda>(scripts, r).
     ebind (readEndArray r) (\<lambda>r. Inr (scripts, r))))"

definition ScriptPubkey_fromCbor :: "bytes \<Rightarrow> script_object result" where
  "ScriptPubkey_fromCbor cbor =
     ebind (expectKind 2 Kind_RequireSignature cbor) (\<lambda>r.
     ebind (readByteString r) (\<lambda>(b, r).
     ebind (typedHash 28 b) (\<lambda>key. Inr (ScriptPubkey key (Some cbor)))))"

definition ScriptAll_fromCbor :: "(bytes \<Rightarrow> NativeScript result) \<Rightarrow> bytes \<Rightarrow> script_object result" where
  "ScriptAll_fromCbor fromCbor cbor =
     ebind (expectKind 2 Kind_RequireAllOf cbor) (\<lambda>r.
     ebind (readScripts fromCbor r) (\<lambda>(scripts, r). Inr (ScriptAll scripts (Some cbor))))"

definition ScriptAny_fromCbor :: "(bytes \<Rightarrow> NativeScript result) \<Rightarrow> bytes \<Rightarrow> script_object result" where
  "ScriptAny_fromCbor fromCbor cbor =
     ebind (expectKind 2 Kind_RequireAnyOf cbor) (\<lambda>r.
     ebind (readScripts fromCbor r) (\<lambda>(scripts, r). Inr (ScriptAny scripts (Some cbor))))"

definition ScriptNOfK_fromCbor :: "(bytes \<Rightarrow> NativeScript result) \<Rightarrow> bytes \<Rightarrow> script_object result" where
  "ScriptNOfK_fromCbor fromCbor cbor =
     ebind (expectKind 3 Kind_RequireNOf cbor) (\<lambda>r.
     ebind (readInt r) (\<lambda>(required, r).
     ebind (readScripts fromCbor r) (\<lambda>(scripts, r).
       Inr (ScriptNOfK scripts (js_Number_int required) (Some cbor)))))"

definition TimelockStart_fromCbor :: "bytes \<Rightarrow> script_object result" where
  "TimelockStart_fromCbor cbor =
     ebind (expectKind 2 Kind_RequireTimeAfter cbor) (\<lambda>r.
     ebind (readInt r) (\<lambda>(slot, r). Inr (TimelockStart (js_Number_int slot) (Some cbor))))"

definition TimelockExpiry_fromCbor :: "bytes \<Rightarrow> script_object result" where
  "TimelockExpiry_fromCbor cbor =
     ebind (expectKind 2 Kind_RequireTimeBefore cbor) (\<lambda>r.
     ebind (readInt r) (\<lambda>(slot, r). Inr (TimelockExpiry (js_Number_int slot) (Some cbor))))"

definition RequireGuard_fromCbor :: "bytes \<Rightarrow> script_object result" where
  "RequireGuard_fromCbor cbor =
     ebind (expectKind 2 Kind_RequireGuard cbor) (\<lambda>r.
     ebind (readEncodedValue r) (\<lambda>(b, r).
     ebind (Credential_fromCbor b) (\<lambda>c. Inr (RequireGuard c (Some cbor)))))"

text \<open>Elements are strictly shorter than the script that holds them.\<close>

lemma progress_remaining: "progress r r' \<Longrightarrow> remaining r' \<le> remaining r"
  by (auto simp: progress_def remaining_def)

lemma readStartArray_remaining:
  "readStartArray r = Inr (l, r') \<Longrightarrow> remaining r' < remaining r"
  unfolding readStartArray_def
  by (auto simp: remaining_def pushDataItem_def advanceBuffer_eq_Inr
      dest!: peekDefiniteLength_bytesRead split: if_splits)

lemma remaining_new_reader [simp]: "remaining (new_reader cbor) = length cbor"
  by (simp add: remaining_def new_reader_def)

lemma expectKind_remaining: "expectKind n k cbor = Inr r \<Longrightarrow> remaining r < length cbor"
  unfolding expectKind_def expectArray_def
  by (force dest: readStartArray_remaining readInt_progress [THEN progress_remaining])

lemma readScripts_cong [fundef_cong]:
  assumes "r = r'" and "\<And>b. length b \<le> remaining r' \<Longrightarrow> f b = g b"
  shows "readScripts f r = readScripts g r'"
  unfolding readScripts_def assms(1)
  by (intro ebind_cong refl)
    (auto intro!: ebind_cong readItems_cong assms(2) dest!: readStartArray_remaining)

lemma script_lists_cong [fundef_cong]:
  assumes "cbor = cbor'" and "\<And>b. length b < length cbor' \<Longrightarrow> f b = g b"
  shows "ScriptAll_fromCbor f cbor = ScriptAll_fromCbor g cbor'"
    and "ScriptAny_fromCbor f cbor = ScriptAny_fromCbor g cbor'"
    and "ScriptNOfK_fromCbor f cbor = ScriptNOfK_fromCbor g cbor'"
proof -
  have rs: "readScripts f r = readScripts g r" if "remaining r < length cbor'" for r
    using that by (intro readScripts_cong refl assms(2)) simp
  have step: "remaining r' < length cbor'" if "expectKind n k cbor' = Inr r" "readInt r = Inr (i, r')"
    for n k r i r'
    using expectKind_remaining [OF that(1)] progress_remaining [OF readInt_progress [OF that(2)]] by simp
  show "ScriptAll_fromCbor f cbor = ScriptAll_fromCbor g cbor'"
    and "ScriptAny_fromCbor f cbor = ScriptAny_fromCbor g cbor'"
    unfolding ScriptAll_fromCbor_def ScriptAny_fromCbor_def assms(1)
    by (rule ebind_cong [OF refl], simp add: rs expectKind_remaining)+
  show "ScriptNOfK_fromCbor f cbor = ScriptNOfK_fromCbor g cbor'"
    unfolding ScriptNOfK_fromCbor_def assms(1)
    by (rule ebind_cong [OF refl], rule ebind_cong [OF refl]) (auto simp: rs step)
qed

function NativeScript_fromCbor :: "bytes \<Rightarrow> NativeScript result" where
  "NativeScript_fromCbor cbor =
     ebind (readStartArray (new_reader cbor)) (\<lambda>(len, r).
     ebind (readInt r) (\<lambda>(k, r).
     ebind (let kind = js_Number_int k in
            if kind = Kind_RequireSignature then ScriptPubkey_fromCbor cbor
            else if kind = Kind_RequireAllOf then ScriptAll_fromCbor NativeScript_fromCbor cbor
            else if kind = Kind_RequireAnyOf then ScriptAny_fromCbor NativeScript_fromCbor cbor
            else if kind = Kind_RequireNOf then ScriptNOfK_fromCbor NativeScript_fromCbor cbor
            else if kind = Kind_RequireTimeAfter then TimelockStart_fromCbor cbor
            else if kind = Kind_RequireTimeBefore then TimelockExpiry_fromCbor cbor
            else if kind = Kind_RequireGuard then RequireGuard_fromCbor cbor
            else Inl InvalidStateError) (\<lambda>s. Inr (NativeScript s (Some cbor)))))"
  by pat_completeness auto
termination
  by (relation "measure length") auto

declare NativeScript_fromCbor.simps [simp del]

subsection \<open>Round trip\<close>

fun core_script_ok :: "Core_NativeScript \<Rightarrow> bool" where
  "core_script_ok (RequireSignatureScript h) \<longleftrightarrow> length h = 28"
| "core_script_ok (RequireAllOfScript ss) \<longleftrightarrow>
     length ss < 9007199254740992 \<and> (\<forall>s \<in> set ss. core_script_ok s)"
| "core_script_ok (RequireAnyOfScript ss) \<longleftrightarrow>
     length ss < 9007199254740992 \<and> (\<forall>s \<in> set ss. core_script_ok s)"
| "core_script_ok (RequireAtLeastScript n ss) \<longleftrightarrow> safe_int n \<and>
     length ss < 9007199254740992 \<and> (\<forall>s \<in> set ss. core_script_ok s)"
| "core_script_ok (RequireTimeAfterScript slot) \<longleftrightarrow> safe_int slot"
| "core_script_ok (RequireTimeBeforeScript slot) \<longleftrightarrow> safe_int slot"
| "core_script_ok (RequireGuardScript c) \<longleftrightarrow> Credential_valid c"

lemma NativeScript_toCore_fromCore [simp]: "NativeScript_toCore (NativeScript_fromCore c) = c"
  by (induction c) (simp_all add: map_idI)

definition script_roundtrip :: "NativeScript \<Rightarrow> bool" where
  "script_roundtrip s \<longleftrightarrow> (\<exists>b. NativeScript_toCbor s = Inr b \<and> cbor_item b \<and>
     (\<exists>y. NativeScript_fromCbor b = Inr y \<and> NativeScript_toCore y = NativeScript_toCore s))"

lemma script_list_roundtrip:
  assumes "\<forall>s \<in> set ss. script_roundtrip s"
  shows "\<exists>bs. emap NativeScript_toCbor ss = Inr bs \<and> (\<forall>b \<in> set bs. cbor_item b) \<and>
    length bs = length ss \<and> (\<exists>ys. list_all2 (\<lambda>b y. NativeScript_fromCbor b = Inr y) bs ys \<and>
    map NativeScript_toCore ys = map NativeScript_toCore ss)"
proof -
  have "cbor_codec NativeScript_toCbor NativeScript_fromCbor script_roundtrip NativeScript_toCore"
    by unfold_locales (simp add: script_roundtrip_def)
  from cbor_codec.encode_list [OF this assms] show ?thesis .
qed

lemmas script_rd = script_writes write_all_def encode_def run_ops_append rd_simps rd_last cbor_items
  expectKind_def readScripts_def NativeScript_fromCbor.simps typedHash_def

text \<open>The reader after the outer head and the kind, for a list script of \<open>n\<close> fields.\<close>

lemma script_roundtrip_list:
  assumes "\<forall>s \<in> set ss. script_roundtrip s" and "length ss < 9007199254740992" and "safe_int n"
  shows "script_roundtrip (NativeScript (ScriptAll ss None) None)"
    and "script_roundtrip (NativeScript (ScriptAny ss None) None)"
    and "script_roundtrip (NativeScript (ScriptNOfK ss n None) None)"
proof -
  obtain bs ys where bs: "emap NativeScript_toCbor ss = Inr bs" "\<forall>b \<in> set bs. cbor_item b"
    "length ss = length bs" "list_all2 (\<lambda>b y. NativeScript_fromCbor b = Inr y) bs ys"
    "map NativeScript_toCore ys = map NativeScript_toCore ss"
    using script_list_roundtrip [OF assms(1)] by auto
  have arr: "cbor_item (enc_head ArrayType (length bs) @ concat bs)"
    using bs assms(2) by (intro cbor_item_array) auto
  show "script_roundtrip (NativeScript (ScriptAll ss None) None)"
    using bs arr assms(2) by (simp add: script_roundtrip_def script_rd ScriptAll_fromCbor_def)
  show "script_roundtrip (NativeScript (ScriptAny ss None) None)"
    using bs arr assms(2) by (simp add: script_roundtrip_def script_rd ScriptAny_fromCbor_def)
  show "script_roundtrip (NativeScript (ScriptNOfK ss n None) None)"
    using bs arr assms(2,3) by (simp add: script_roundtrip_def script_rd ScriptNOfK_fromCbor_def)
qed

lemma script_roundtrip_leaf:
  "length h = 28 \<Longrightarrow> script_roundtrip (NativeScript (ScriptPubkey h None) None)"
  "safe_int slot \<Longrightarrow> script_roundtrip (NativeScript (TimelockStart slot None) None)"
  "safe_int slot \<Longrightarrow> script_roundtrip (NativeScript (TimelockExpiry slot None) None)"
  by (simp_all add: script_roundtrip_def script_rd ScriptPubkey_fromCbor_def
      TimelockStart_fromCbor_def TimelockExpiry_fromCbor_def)

lemma script_roundtrip_guard:
  assumes "Credential_valid c"
  shows "script_roundtrip (NativeScript (RequireGuard c None) None)"
proof -
  obtain b where "Credential_toCbor c = Inr b" "cbor_item b" "Credential_fromCbor b = Inr c"
    using credential_codec.encodes [OF assms] by auto
  then show ?thesis
    by (simp add: script_roundtrip_def script_rd RequireGuard_fromCbor_def)
qed

lemma core_script_roundtrip: "core_script_ok c \<Longrightarrow> script_roundtrip (NativeScript_fromCore c)"
proof (induction c)
  case (RequireAllOfScript ss)
  then show ?case using script_roundtrip_list(1) [of "map NativeScript_fromCore ss" 0] by simp
next
  case (RequireAnyOfScript ss)
  then show ?case using script_roundtrip_list(2) [of "map NativeScript_fromCore ss" 0] by simp
next
  case (RequireAtLeastScript n ss)
  then show ?case using script_roundtrip_list(3) [of "map NativeScript_fromCore ss" n] by simp
qed (simp_all add: script_roundtrip_leaf script_roundtrip_guard)

lemma NativeScript_keeps_bytes:
  assumes "NativeScript_fromCbor b = Inr y"
  shows "NativeScript_toCbor y = Inr b"
proof -
  have "b \<noteq> []" using assms by (auto simp: NativeScript_fromCbor.simps)
  with assms show ?thesis by (auto simp: NativeScript_fromCbor.simps)
qed

interpretation native_script: caching_codec NativeScript_toCbor NativeScript_fromCbor
  "\<lambda>s. \<exists>c. core_script_ok c \<and> s = NativeScript_fromCore c" NativeScript_toCore
  by unfold_locales (auto dest: core_script_roundtrip simp: script_roundtrip_def NativeScript_keeps_bytes)

subsection \<open>Properties\<close>

text \<open>C11. A native script built from a core script, nested to any depth, can be written, and reading
  the bytes gives back a script for the same core script.\<close>

theorem native_script_roundtrip:
  assumes "core_script_ok c"
  shows "\<exists>b s. NativeScript_toCbor (NativeScript_fromCore c) = Inr b \<and> NativeScript_fromCbor b = Inr s \<and>
    NativeScript_toCore s = c"
  using native_script.encodes [of "NativeScript_fromCore c"] assms by auto

theorem native_script_roundtrip_witness:
  "\<exists>b s. NativeScript_toCbor (NativeScript_fromCore (RequireAtLeastScript 1
      [RequireSignatureScript (replicate 28 7), RequireAllOfScript [RequireTimeAfterScript 5]])) = Inr b \<and>
    NativeScript_fromCbor b = Inr s \<and> NativeScript_toCore s = RequireAtLeastScript 1
      [RequireSignatureScript (replicate 28 7), RequireAllOfScript [RequireTimeAfterScript 5]]"
  by (rule native_script_roundtrip) simp

text \<open>Two core scripts in range with the same bytes are the same script: the encoding is
  injective, so a script hash commits to one script.\<close>

theorem native_script_injective:
  assumes "core_script_ok c" and "core_script_ok d"
    and "NativeScript_toCbor (NativeScript_fromCore c) = NativeScript_toCbor (NativeScript_fromCore d)"
  shows "c = d"
  using native_script.content_injective_on_bytes [of "NativeScript_fromCore c" "NativeScript_fromCore d"] assms
  by auto

theorem native_script_injective_witness:
  "NativeScript_toCbor (NativeScript_fromCore (RequireTimeAfterScript 5)) \<noteq>
   NativeScript_toCbor (NativeScript_fromCore (RequireTimeBeforeScript 5))"
  using native_script_injective [of "RequireTimeAfterScript 5" "RequireTimeBeforeScript 5"] by auto

text \<open>A native script that was read is written with the very bytes it was read from.\<close>

theorem native_script_keeps_bytes:
  assumes "NativeScript_fromCbor b = Inr s"
  shows "NativeScript_toCbor s = Inr b"
  by (rule native_script.keeps_bytes [OF assms])

theorem native_script_keeps_bytes_witness:
  "\<exists>b s. NativeScript_fromCbor b = Inr s \<and> NativeScript_toCore s = RequireTimeAfterScript 5 \<and>
    NativeScript_toCbor s = Inr b"
proof -
  obtain b s where "NativeScript_fromCbor b = Inr s" "NativeScript_toCore s = RequireTimeAfterScript 5"
    using core_script_roundtrip [of "RequireTimeAfterScript 5"] by (auto simp: script_roundtrip_def)
  with native_script_keeps_bytes [of b s] show ?thesis by blast
qed

end
