(* ===== verification/Plutus_Data.thy ===== *)
theory Plutus_Data
  imports Native_Script
begin

text \<open>
  Plutus data (\<open>core/src/Serialization/PlutusData\<close>). \<open>PlutusData\<close> wraps a constructor application,
  a map, a list, an integer or a byte string, with the bytes it was read from. A \<open>PlutusList\<close> is the
  list of its elements; a \<open>PlutusMap\<close> keeps its entries in insertion order with the flag
  \<open>#useIndefiniteEncoding\<close> (its keys are fresh objects, so no insertion replaces another).
  Integers outside 64 bits are written as tagged big numbers; byte strings above 64 bytes are
  written in chunks of 64.
\<close>

datatype PlutusData = PlutusData plutus_value "bytes option"
  and plutus_value =
    PConstr int "PlutusData list"
  | PMap "(PlutusData \<times> PlutusData) list" bool
  | PList "PlutusData list"
  | PInteger int
  | PBytes bytes

subsection \<open>Writing\<close>

function chunks64 :: "bytes \<Rightarrow> bytes list" where
  "chunks64 bs = (if bs = [] then [] else take 64 bs # chunks64 (drop 64 bs))"
  by pat_completeness auto
termination
  by (relation "measure length") auto

declare chunks64.simps [simp del]

text \<open>
  A byte string of at most 64 bytes as one definite-length string, a longer one as an
  indefinite-length string of 64-byte chunks.
\<close>

definition writeBounded :: "bytes \<Rightarrow> writer_op list" where
  "writeBounded bs =
     (if length bs \<le> 64 then [writeByteString bs]
      else [writeEncodedValue [95]] @ map writeByteString (chunks64 bs) @ [writeEndArray])"

definition bigintToBuffer :: "int \<Rightarrow> bytes" where
  "bigintToBuffer value = magnitude_bytes (nat (if value < 0 then - value + (- 1) else value))"

definition bufferToBigint :: "bytes \<Rightarrow> int" where
  "bufferToBigint buffer = int (foldl (\<lambda>ret b. ret * 256 + unat b) 0 buffer)"

definition writeInteger :: "int \<Rightarrow> writer_op list" where
  "writeInteger i =
     (if (0 \<le> i \<and> i \<le> 18446744073709551615) \<or> (i < 0 \<and> - 1 - 18446744073709551615 \<le> i)
      then [writeInt i]
      else [writeTag (if i < 0 then int CborTag_NegativeBigNum else int CborTag_UnsignedBigNum)]
           @ writeBounded (bigintToBuffer i))"

definition alternativeToCompactCborTag :: "int \<Rightarrow> int" where
  "alternativeToCompactCborTag alternative =
     (if alternative \<le> 6 then 121 + alternative
      else if 7 \<le> alternative \<and> alternative \<le> 127 then 1280 - 7 + alternative
      else 102)"

definition compactCborTagToAlternative :: "int \<Rightarrow> int" where
  "compactCborTagToAlternative tag =
     (if 121 \<le> tag \<and> tag \<le> 127 then tag - 121
      else if 1280 \<le> tag \<and> tag \<le> 1400 then tag - 1280 + 7
      else 102)"

definition PlutusList_write :: "bytes list \<Rightarrow> bytes result" where
  "PlutusList_write bs =
     (if 0 < length bs then write_all ([writeStartArray None] @ map writeEncodedValue bs @ [writeEndArray])
      else write_all [writeStartArray (Some (length bs))])"

definition PlutusMap_write :: "bool \<Rightarrow> (bytes \<times> bytes) list \<Rightarrow> bytes result" where
  "PlutusMap_write useIndefiniteEncoding kvs =
     write_all ([writeStartMap (if useIndefiniteEncoding then None else Some (length kvs))]
       @ map writeEncodedValue (flat kvs)
       @ (if useIndefiniteEncoding then [writeEndMap] else []))"

definition ConstrPlutusData_write :: "int \<Rightarrow> bytes \<Rightarrow> bytes result" where
  "ConstrPlutusData_write alternative args =
     (let compactTag = alternativeToCompactCborTag alternative in
      if compactTag \<noteq> 102 then write_all [writeTag compactTag, writeEncodedValue args]
      else write_all [writeTag compactTag, writeStartArray (Some 2), writeInt alternative,
                      writeEncodedValue args])"

fun PlutusData_toCbor :: "PlutusData \<Rightarrow> bytes result"
  and plutus_value_toCbor :: "plutus_value \<Rightarrow> bytes result" where
  "PlutusData_toCbor (PlutusData v original) = cached original (plutus_value_toCbor v)"
| "plutus_value_toCbor (PConstr alternative args) =
     ebind (emap PlutusData_toCbor args) (\<lambda>bs.
     ebind (PlutusList_write bs) (\<lambda>b. ConstrPlutusData_write alternative b))"
| "plutus_value_toCbor (PMap entries useIndefiniteEncoding) =
     ebind (emap (\<lambda>(k, v). ebind (PlutusData_toCbor k) (\<lambda>kb.
                           ebind (PlutusData_toCbor v) (\<lambda>vb. Inr (kb, vb)))) entries)
       (\<lambda>kvs. PlutusMap_write useIndefiniteEncoding kvs)"
| "plutus_value_toCbor (PList items) = ebind (emap PlutusData_toCbor items) PlutusList_write"
| "plutus_value_toCbor (PInteger i) = write_all (writeInteger i)"
| "plutus_value_toCbor (PBytes bs) = write_all (writeBounded bs)"

subsection \<open>Reading\<close>

definition PlutusList_fromCbor :: "(bytes \<Rightarrow> PlutusData result) \<Rightarrow> bytes \<Rightarrow> PlutusData list result" where
  "PlutusList_fromCbor fromCbor cbor =
     ebind (readStartArray (new_reader cbor)) (\<lambda>(len, r).
     ebind (readItems EndArray fromCbor r) (\<lambda>(items, r).
     ebind (readEndArray r) (\<lambda>r. Inr items)))"

definition PlutusMap_fromCbor :: "(bytes \<Rightarrow> PlutusData result) \<Rightarrow> bytes \<Rightarrow> plutus_value result" where
  "PlutusMap_fromCbor fromCbor cbor =
     ebind (readStartMap (new_reader cbor)) (\<lambda>(len, r).
     ebind (readEntries EndMap fromCbor fromCbor r) (\<lambda>(entries, r).
     ebind (readEndMap r) (\<lambda>r. Inr (PMap entries (len = None)))))"

definition ConstrPlutusData_fromCbor :: "(bytes \<Rightarrow> PlutusData result) \<Rightarrow> bytes \<Rightarrow> plutus_value result" where
  "ConstrPlutusData_fromCbor fromCbor cbor =
     ebind (readTag (new_reader cbor)) (\<lambda>(tag, r).
       if int tag = 102 then
         ebind (readStartArray r) (\<lambda>(len, r).
         ebind (readInt r) (\<lambda>(alternative, r).
         ebind (readEncodedValue r) (\<lambda>(data, r).
         ebind (PlutusList_fromCbor fromCbor data) (\<lambda>args.
         ebind (readEndArray r) (\<lambda>r. Inr (PConstr alternative args))))))
       else
         ebind (readEncodedValue r) (\<lambda>(data, r).
         ebind (PlutusList_fromCbor fromCbor data) (\<lambda>args.
           Inr (PConstr (compactCborTagToAlternative (int tag)) args))))"

text \<open>Elements are strictly shorter than the list, map or constructor that holds them.\<close>

lemma PlutusList_fromCbor_cong [fundef_cong]:
  assumes "cbor = cbor'" and "\<And>b. length b < length cbor' \<Longrightarrow> f b = g b"
  shows "PlutusList_fromCbor f cbor = PlutusList_fromCbor g cbor'"
proof -
  have "readItems EndArray f r = readItems EndArray g r" if "remaining r < length cbor'" for r
    using that by (intro readItems_cong refl assms(2)) simp
  then show ?thesis
    unfolding PlutusList_fromCbor_def assms(1)
    by (intro ebind_cong [OF refl]) (auto dest!: readStartArray_remaining)
qed

lemma readStartMap_remaining: "readStartMap r = Inr (l, r') \<Longrightarrow> remaining r' < remaining r"
  unfolding readStartMap_def
  by (auto simp: remaining_def pushDataItem_def setCurrentKeyOffset_def advanceBuffer_eq_Inr Let_def
      dest!: peekDefiniteLength_bytesRead intro!: diff_less_mono2 split: if_splits)

lemma readTag_remaining: "readTag r = Inr (t, r') \<Longrightarrow> remaining r' < remaining r"
  unfolding readTag_def peekTagCore_def
  by (auto simp: remaining_def advanceBuffer_eq_Inr dest!: decodeUnsignedInteger_bytesRead)

lemma PlutusMap_fromCbor_cong [fundef_cong]:
  assumes "cbor = cbor'" and "\<And>b. length b < length cbor' \<Longrightarrow> f b = g b"
  shows "PlutusMap_fromCbor f cbor = PlutusMap_fromCbor g cbor'"
proof -
  have "readEntries EndMap f f r = readEntries EndMap g g r" if "remaining r < length cbor'" for r
    using that by (intro readEntries_cong refl assms(2)) simp_all
  then show ?thesis
    unfolding PlutusMap_fromCbor_def assms(1)
    by (intro ebind_cong [OF refl]) (auto dest!: readStartMap_remaining)
qed

lemma ConstrPlutusData_fromCbor_cong [fundef_cong]:
  assumes "cbor = cbor'" and "\<And>b. length b < length cbor' \<Longrightarrow> f b = g b"
  shows "ConstrPlutusData_fromCbor f cbor = ConstrPlutusData_fromCbor g cbor'"
proof -
  have list: "PlutusList_fromCbor f data = PlutusList_fromCbor g data" if "length data < length cbor'" for data
    using that by (intro PlutusList_fromCbor_cong refl assms(2)) simp
  have short: "length data < length cbor'"
    if "readTag (new_reader cbor') = Inr (t, r)" "readEncodedValue r = Inr (data, r')" for t r data r'
    using readTag_remaining [OF that(1)] readEncodedValue_remaining(1) [OF that(2)] by simp
  have shorter: "length data < length cbor'"
    if "readTag (new_reader cbor') = Inr (t, r)" "readStartArray r = Inr (l, r1)"
      "readInt r1 = Inr (i, r2)" "readEncodedValue r2 = Inr (data, r3)" for t r l r1 i r2 data r3
    using readTag_remaining [OF that(1)] readStartArray_remaining [OF that(2)]
      progress_remaining [OF readInt_progress [OF that(3)]] readEncodedValue_remaining(1) [OF that(4)]
    by simp
  show ?thesis
    unfolding ConstrPlutusData_fromCbor_def assms(1)
    by (rule ebind_cong [OF refl]) (auto intro!: ebind_cong simp: list short shorter)
qed

function PlutusData_fromCbor :: "bytes \<Rightarrow> PlutusData result" where
  "PlutusData_fromCbor cbor =
     ebind (peekState (new_reader cbor)) (\<lambda>(state, r).
     ebind
      (if state = TagState then
         ebind (peekTag r) (\<lambda>tag.
           if tag = CborTag_UnsignedBigNum then
             ebind (readTag r) (\<lambda>(_, r).
             ebind (readByteString r) (\<lambda>(bs, r). Inr (PInteger (bufferToBigint bs))))
           else if tag = CborTag_NegativeBigNum then
             ebind (readTag r) (\<lambda>(_, r).
             ebind (readByteString r) (\<lambda>(bs, r). Inr (PInteger (bufferToBigint bs * - 1))))
           else
             ebind (readEncodedValue r) (\<lambda>(b, r).
               ConstrPlutusData_fromCbor PlutusData_fromCbor b))
       else if state = NegativeIntegerState \<or> state = UnsignedIntegerState then
         ebind (readInt r) (\<lambda>(i, r). Inr (PInteger i))
       else if state = StartIndefiniteLengthByteString \<or> state = ByteStringState then
         ebind (readByteString r) (\<lambda>(bs, r). Inr (PBytes bs))
       else if state = StartArray then
         ebind (readEncodedValue r) (\<lambda>(b, r).
         ebind (PlutusList_fromCbor PlutusData_fromCbor b) (\<lambda>items. Inr (PList items)))
       else if state = StartMap then
         ebind (readEncodedValue r) (\<lambda>(b, r). PlutusMap_fromCbor PlutusData_fromCbor b)
       else Inl GenericError)
      (\<lambda>v. Inr (PlutusData v (Some cbor))))"
  by pat_completeness auto
termination
  by (relation "measure length")
    (auto dest!: readEncodedValue_remaining(1) peekState_remaining)

declare PlutusData_fromCbor.simps [simp del]

subsection \<open>Bounded byte strings\<close>

lemma concat_chunks64 [simp]: "concat (chunks64 bs) = bs"
  by (induction bs rule: chunks64.induct) (subst chunks64.simps, simp)

lemma chunks64_bounds: "c \<in> set (chunks64 bs) \<Longrightarrow> c \<noteq> [] \<and> length c \<le> 64"
proof (induction bs rule: chunks64.induct)
  case (1 bs)
  from "1.prems" show ?case
    by (subst (asm) chunks64.simps) (auto split: if_splits dest: "1.IH")
qed

definition enc_bounded :: "bytes \<Rightarrow> bytes" where
  "enc_bounded bs = (if length bs \<le> 64 then enc_bytes bs
     else 0x5f # concat (map enc_bytes (chunks64 bs)) @ [0xff])"

lemma run_ops_byteStrings:
  "\<forall>c \<in> set cs. length c \<le> 64 \<Longrightarrow> run_ops (map writeByteString cs) w = Inr (w @ concat (map enc_bytes cs))"
  by (induction cs arbitrary: w) auto

lemma writeBounded_enc: "run_ops (writeBounded bs) w = Inr (w @ enc_bounded bs)"
  using chunks64_bounds [of _ bs]
  by (auto simp: writeBounded_def enc_bounded_def run_ops_append run_ops_byteStrings)

lemma chunks64_chunks: "list_all2 (is_chunk ByteString) (map enc_bytes (chunks64 bs)) (chunks64 bs)"
  using chunks64_bounds [of _ bs]
  by (force simp: list_all2_map1 list_all2_same intro!: is_chunk_enc_bytes)

lemma cbor_item_enc_bounded [simp]: "cbor_item (enc_bounded bs)"
  using ci_bytes_indef [OF chunks64_chunks] by (auto simp: enc_bounded_def)

lemma byteString_indefinite_byte: "initial_byte ByteString 31 = 0x5f"
  by (simp add: initial_byte_def byte_of_def)

lemma readByteString_bounded [rd_simps]:
  assumes "open_frame fr"
  shows "readByteString (rd c pre (enc_bounded p @ bs) fr stk tag) =
    Inr (p, rd U (pre @ enc_bounded p) bs (bumps 1 fr) stk False)"
proof (cases "length p \<le> 64")
  case True
  with assms show ?thesis by (simp add: enc_bounded_def readByteString_rd)
next
  case False
  with assms show ?thesis
    using readString_indefinite [OF chunks64_chunks, of "0x5f" fr c pre p bs stk tag]
    by (simp add: readByteString_def enc_bounded_def byteString_indefinite_byte)
qed

subsection \<open>Round trip\<close>

text \<open>What a datum denotes: the same tree without the cached bytes.\<close>

fun PlutusData_strip :: "PlutusData \<Rightarrow> PlutusData"
  and plutus_value_strip :: "plutus_value \<Rightarrow> plutus_value" where
  "PlutusData_strip (PlutusData v original) = PlutusData (plutus_value_strip v) None"
| "plutus_value_strip (PConstr alternative args) = PConstr alternative (map PlutusData_strip args)"
| "plutus_value_strip (PMap entries ind) =
     PMap (map (\<lambda>(k, v). (PlutusData_strip k, PlutusData_strip v)) entries) ind"
| "plutus_value_strip (PList items) = PList (map PlutusData_strip items)"
| "plutus_value_strip (PInteger i) = PInteger i"
| "plutus_value_strip (PBytes bs) = PBytes bs"

text \<open>
  Freshly built data (no cached bytes) with alternatives that fit in 64 bits, integers from
  \<open>- 2 ^ 64\<close> upwards and maps of a size JavaScript can hold.
\<close>

fun PlutusData_ok :: "PlutusData \<Rightarrow> bool"
  and plutus_value_ok :: "plutus_value \<Rightarrow> bool" where
  "PlutusData_ok (PlutusData v original) \<longleftrightarrow> original = None \<and> plutus_value_ok v"
| "plutus_value_ok (PConstr alternative args) \<longleftrightarrow> uint64 alternative \<and> (\<forall>d \<in> set args. PlutusData_ok d)"
| "plutus_value_ok (PMap entries ind) \<longleftrightarrow> length entries < 9007199254740992 \<and>
     (\<forall>(k, v) \<in> set entries. PlutusData_ok k \<and> PlutusData_ok v)"
| "plutus_value_ok (PList items) \<longleftrightarrow> (\<forall>d \<in> set items. PlutusData_ok d)"
| "plutus_value_ok (PInteger i) \<longleftrightarrow> - 18446744073709551616 \<le> i"
| "plutus_value_ok (PBytes bs) \<longleftrightarrow> True"

definition plutus_roundtrip :: "PlutusData \<Rightarrow> bool" where
  "plutus_roundtrip d \<longleftrightarrow> (\<exists>b. PlutusData_toCbor d = Inr b \<and> cbor_item b \<and>
     (\<exists>y. PlutusData_fromCbor b = Inr y \<and> PlutusData_strip y = PlutusData_strip d))"

lemma peekStateCore_values [rd_simps]:
  assumes "open_frame fr"
  shows "cbor_int i \<Longrightarrow> peekStateCore (rd c pre (enc_int i @ bs) fr stk tag) =
      Inr (if i < 0 then NegativeIntegerState else UnsignedIntegerState)"
    and "peekStateCore (rd c pre (enc_bounded p @ bs) fr stk tag) =
      Inr (if length p \<le> 64 then ByteStringState else StartIndefiniteLengthByteString)"
    and "peekStateCore (rd c pre (0x9f # bs) fr stk tag) = Inr StartArray"
    and "peekStateCore (rd c pre (0xbf # bs) fr stk tag) = Inr StartMap"
  using assms head_peek(3) [OF is_head_enc_head] head_info(1,2) [OF is_head_enc_head]
  by (simp_all add: state_of_initial_byte_def enc_int_def cbor_int_def enc_bounded_def enc_bytes_def
      peekStateCore_rd nat_less_iff)

lemma bufferToBigint_be_nat: "bufferToBigint bs = int (be_nat bs)"
  by (simp add: bufferToBigint_def be_nat_def)

lemma PlutusData_fromCbor_bounded:
  "PlutusData_fromCbor (enc_bounded bs) = Inr (PlutusData (PBytes bs) (Some (enc_bounded bs)))"
  using peekStateCore_values(2) [of root_frame U "[]" bs "[]" "[]" False]
    readByteString_bounded [of root_frame _ "[]" bs "[]" "[]" False]
  by (subst PlutusData_fromCbor.simps) (simp add: rd_simps)

lemma PlutusData_fromCbor_int:
  assumes "cbor_int i"
  shows "PlutusData_fromCbor (enc_int i) = Inr (PlutusData (PInteger i) (Some (enc_int i)))"
  using peekStateCore_values(1) [OF _ assms, of root_frame U "[]" "[]" "[]" False]
  by (subst PlutusData_fromCbor.simps) (simp add: rd_simps rd_last assms)

lemma PlutusData_fromCbor_bignum:
  "PlutusData_fromCbor (enc_head TagType 2 @ enc_bounded p) =
     Inr (PlutusData (PInteger (int (be_nat p))) (Some (enc_head TagType 2 @ enc_bounded p)))"
  "PlutusData_fromCbor (enc_head TagType 3 @ enc_bounded p) =
     Inr (PlutusData (PInteger (- int (be_nat p))) (Some (enc_head TagType 3 @ enc_bounded p)))"
  using readByteString_bounded [of root_frame _ _ p "[]" "[]"]
  by (subst PlutusData_fromCbor.simps, simp add: rd_simps bufferToBigint_be_nat)+

text \<open>The encoding of a list, read back when each element can be.\<close>

definition enc_list :: "bytes list \<Rightarrow> bytes" where
  "enc_list bs = (if bs = [] then enc_head ArrayType 0 else 0x9f # concat bs @ [0xff])"

lemma PlutusList_write_enc: "PlutusList_write bs = Inr (enc_list bs)"
  by (simp add: PlutusList_write_def enc_list_def write_all_def run_ops_append encode_def)

lemma cbor_item_enc_list: "\<forall>b \<in> set bs. cbor_item b \<Longrightarrow> cbor_item (enc_list bs)"
  using cbor_item_array [of "[]"] ci_array_indef [of bs] by (auto simp: enc_list_def)

lemma PlutusList_fromCbor_enc:
  assumes "list_all2 (\<lambda>b y. f b = Inr y) bs ys" and "\<forall>b \<in> set bs. cbor_item b"
  shows "PlutusList_fromCbor f (enc_list bs) = Inr ys"
  using assms readStartArray_rd [of 0 root_frame U "[]" "[]" "[]" False]
    readItems_definite [of f "[]" "[]" 0 0 _ "[]"]
  by (auto simp: PlutusList_fromCbor_def enc_list_def rd_simps)

lemma peekStateCore_enc_list [rd_simps]:
  "open_frame fr \<Longrightarrow> peekStateCore (rd c pre (enc_list bs @ rest) fr stk tag) = Inr StartArray"
  by (simp add: enc_list_def rd_simps)

lemma plutus_list_roundtrip:
  assumes "\<forall>d \<in> set ds. plutus_roundtrip d"
  obtains bs ys where "emap PlutusData_toCbor ds = Inr bs" and "\<forall>b \<in> set bs. cbor_item b"
    and "list_all2 (\<lambda>b y. PlutusData_fromCbor b = Inr y) bs ys"
    and "map PlutusData_strip ys = map PlutusData_strip ds"
proof -
  have "cbor_codec PlutusData_toCbor PlutusData_fromCbor plutus_roundtrip PlutusData_strip"
    by unfold_locales (simp add: plutus_roundtrip_def)
  from cbor_codec.encode_list [OF this assms] that show ?thesis by blast
qed

lemma plutus_roundtrip_list:
  assumes "\<forall>d \<in> set ds. plutus_roundtrip d"
  shows "plutus_roundtrip (PlutusData (PList ds) None)"
proof -
  obtain bs ys where bs: "emap PlutusData_toCbor ds = Inr bs" "\<forall>b \<in> set bs. cbor_item b"
    "list_all2 (\<lambda>b y. PlutusData_fromCbor b = Inr y) bs ys"
    "map PlutusData_strip ys = map PlutusData_strip ds"
    using plutus_list_roundtrip [OF assms] by blast
  have item: "cbor_item (enc_list bs)" by (rule cbor_item_enc_list [OF bs(2)])
  have "PlutusData_fromCbor (enc_list bs) = Inr (PlutusData (PList ys) (Some (enc_list bs)))"
    using PlutusList_fromCbor_enc [OF bs(3,2)] item peekStateCore_enc_list [of root_frame U "[]" bs "[]" "[]" False]
    by (subst PlutusData_fromCbor.simps) (simp add: rd_simps rd_last)
  with bs item show ?thesis
    by (simp add: plutus_roundtrip_def PlutusList_write_enc)
qed

lemma alternative_tag:
  assumes "uint64 a"
  shows "0 \<le> alternativeToCompactCborTag a" and "alternativeToCompactCborTag a \<le> 1400"
    and "alternativeToCompactCborTag a \<noteq> 2" and "alternativeToCompactCborTag a \<noteq> 3"
    and "alternativeToCompactCborTag a \<noteq> 102 \<Longrightarrow> compactCborTagToAlternative (alternativeToCompactCborTag a) = a"
  using assms by (auto simp: alternativeToCompactCborTag_def compactCborTagToAlternative_def split: if_splits)

definition enc_constr :: "int \<Rightarrow> bytes \<Rightarrow> bytes" where
  "enc_constr a l = (let t = nat (alternativeToCompactCborTag a) in
     if t \<noteq> 102 then enc_head TagType t @ l
     else enc_head TagType t @ enc_head ArrayType 2 @ enc_int a @ l)"

lemma ConstrPlutusData_write_enc:
  "uint64 a \<Longrightarrow> ConstrPlutusData_write a l = Inr (enc_constr a l)"
  using alternative_tag [of a]
  by (auto simp: ConstrPlutusData_write_def enc_constr_def write_all_def encode_def Let_def)

lemma cbor_item_enc_constr: "uint64 a \<Longrightarrow> cbor_item l \<Longrightarrow> cbor_item (enc_constr a l)"
  using alternative_tag [of a] by (auto simp: enc_constr_def Let_def intro!: cbor_items)

lemma ConstrPlutusData_fromCbor_enc:
  assumes "uint64 a" and "cbor_item l" and "PlutusList_fromCbor f l = Inr ys"
  shows "ConstrPlutusData_fromCbor f (enc_constr a l) = Inr (PConstr a ys)"
  using alternative_tag [OF assms(1)] assms
  by (auto simp: ConstrPlutusData_fromCbor_def enc_constr_def Let_def rd_simps rd_last)

lemma plutus_roundtrip_constr:
  assumes "\<forall>d \<in> set ds. plutus_roundtrip d" and "uint64 a"
  shows "plutus_roundtrip (PlutusData (PConstr a ds) None)"
proof -
  obtain bs ys where bs: "emap PlutusData_toCbor ds = Inr bs" "\<forall>b \<in> set bs. cbor_item b"
    "list_all2 (\<lambda>b y. PlutusData_fromCbor b = Inr y) bs ys"
    "map PlutusData_strip ys = map PlutusData_strip ds"
    using plutus_list_roundtrip [OF assms(1)] by blast
  let ?c = "enc_constr a (enc_list bs)"
  have list: "cbor_item (enc_list bs)" by (rule cbor_item_enc_list [OF bs(2)])
  have item: "cbor_item ?c" by (rule cbor_item_enc_constr [OF assms(2) list])
  have tag: "\<exists>t rest. ?c = enc_head TagType t @ rest \<and> t \<le> 1400 \<and> t \<noteq> 2 \<and> t \<noteq> 3"
    using alternative_tag [OF assms(2)]
    by (intro exI [of _ "nat (alternativeToCompactCborTag a)"]) (auto simp: enc_constr_def Let_def)
  then obtain t rest where t: "?c = enc_head TagType t @ rest" "t \<le> 1400" "t \<noteq> 2" "t \<noteq> 3" by blast
  have "PlutusData_fromCbor ?c = Inr (PlutusData (PConstr a ys) (Some ?c))"
    using ConstrPlutusData_fromCbor_enc [OF assms(2) list PlutusList_fromCbor_enc [OF bs(3,2)]]
      readEncodedValue_rd [OF item, of root_frame TagState "[]" "[]" "[]" False] t
    by (subst PlutusData_fromCbor.simps) (simp add: rd_simps)
  with bs item assms(2) show ?thesis
    by (simp add: plutus_roundtrip_def PlutusList_write_enc ConstrPlutusData_write_enc)
qed

text \<open>The encoding of a map.\<close>

definition enc_map :: "bool \<Rightarrow> (bytes \<times> bytes) list \<Rightarrow> bytes" where
  "enc_map ind kvs = (if ind then 0xbf # concat (flat kvs) @ [0xff]
     else enc_head MapType (length kvs) @ concat (flat kvs))"

lemma PlutusMap_write_enc:
  "length kvs < 9007199254740992 \<Longrightarrow> PlutusMap_write ind kvs = Inr (enc_map ind kvs)"
  by (simp add: PlutusMap_write_def enc_map_def write_all_def run_ops_append encode_def)

lemma cbor_item_enc_map:
  assumes "\<forall>b \<in> set (flat kvs). cbor_item b" and "length kvs < 9007199254740992"
  shows "cbor_item (enc_map ind kvs)"
  using assms ci_map [OF is_head_enc_head, of "length kvs" "flat kvs"] ci_map_indef [of "flat kvs"]
  by (auto simp: enc_map_def)

lemma peekStateCore_enc_map [rd_simps]:
  "length kvs < 9007199254740992 \<Longrightarrow> open_frame fr \<Longrightarrow>
   peekStateCore (rd c pre (enc_map ind kvs @ rest) fr stk tag) = Inr StartMap"
  by (simp add: enc_map_def rd_simps)

lemma PlutusMap_fromCbor_enc:
  assumes "list_all2 (\<lambda>(kx, vx) (k, v). f kx = Inr k \<and> f vx = Inr v) kvs ys"
    and "\<forall>b \<in> set (flat kvs). cbor_item b" and "length kvs < 9007199254740992"
  shows "PlutusMap_fromCbor f (enc_map ind kvs) = Inr (PMap ys ind)"
  using assms length_concat_items [OF assms(2)]
  by (auto simp: PlutusMap_fromCbor_def enc_map_def rd_simps rd_last)

lemma plutus_roundtrip_map:
  assumes "\<forall>(k, v) \<in> set es. plutus_roundtrip k \<and> plutus_roundtrip v" and "length es < 9007199254740992"
  shows "plutus_roundtrip (PlutusData (PMap es ind) None)"
proof -
  have codec: "entry_codec PlutusData_toCbor PlutusData_fromCbor plutus_roundtrip PlutusData_strip
      PlutusData_toCbor PlutusData_fromCbor plutus_roundtrip PlutusData_strip"
    by unfold_locales (simp_all add: plutus_roundtrip_def)
  obtain kvs ys where kvs:
    "emap (\<lambda>(k, v). ebind (PlutusData_toCbor k) (\<lambda>kb. ebind (PlutusData_toCbor v) (\<lambda>vb. Inr (kb, vb)))) es = Inr kvs"
    "\<forall>b \<in> set (flat kvs). cbor_item b" "length kvs < 9007199254740992"
    "list_all2 (\<lambda>(kx, vx) (k, v). PlutusData_fromCbor kx = Inr k \<and> PlutusData_fromCbor vx = Inr v) kvs ys"
    "map (map_prod PlutusData_strip PlutusData_strip) ys = map (map_prod PlutusData_strip PlutusData_strip) es"
    using entry_codec.encode_entries [OF codec assms(1)] assms(2) by auto
  let ?m = "enc_map ind kvs"
  have item: "cbor_item ?m" by (rule cbor_item_enc_map [OF kvs(2,3)])
  have "PlutusData_fromCbor ?m = Inr (PlutusData (PMap ys ind) (Some ?m))"
    using PlutusMap_fromCbor_enc [OF kvs(4,2,3), of ind] item
      peekStateCore_enc_map [OF kvs(3), of root_frame U "[]" ind "[]" "[]" False]
    by (subst PlutusData_fromCbor.simps) (simp add: rd_simps rd_last)
  with kvs item show ?thesis
    by (simp add: plutus_roundtrip_def PlutusMap_write_enc map_prod_def)
qed

lemma bigintToBuffer_nonneg: "0 \<le> i \<Longrightarrow> int (be_nat (bigintToBuffer i)) = i"
  by (simp add: bigintToBuffer_def)

lemma bigintToBuffer_neg: "i < 0 \<Longrightarrow> int (be_nat (bigintToBuffer i)) = - i - 1"
  by (simp add: bigintToBuffer_def)

lemma PInteger_toCbor:
  "plutus_value_toCbor (PInteger i) = Inr (if cbor_int i then enc_int i
     else enc_head TagType (if i < 0 then 3 else 2) @ enc_bounded (bigintToBuffer i))"
  by (auto simp: writeInteger_def write_all_def encode_def cbor_int_def writeBounded_enc
      writeInt_enc [unfolded cbor_int_def] run_ops_append)

lemma plutus_roundtrip_integer:
  assumes "- 18446744073709551616 \<le> i"
  shows "plutus_roundtrip (PlutusData (PInteger i) None)"
proof (cases "cbor_int i")
  case True
  then show ?thesis
    by (simp add: plutus_roundtrip_def PInteger_toCbor PlutusData_fromCbor_int del: plutus_value_toCbor.simps)
next
  case False
  with assms have "0 \<le> i" by (auto simp: cbor_int_def)
  with False show ?thesis
    by (auto simp: plutus_roundtrip_def PInteger_toCbor PlutusData_fromCbor_bignum bigintToBuffer_nonneg
        simp del: plutus_value_toCbor.simps intro: cbor_items)
qed

lemma plutus_roundtrip_bytes: "plutus_roundtrip (PlutusData (PBytes bs) None)"
  by (simp add: plutus_roundtrip_def write_all_def encode_def writeBounded_enc PlutusData_fromCbor_bounded)

lemma PlutusData_ok_roundtrip: "PlutusData_ok d \<Longrightarrow> plutus_roundtrip d"
  and plutus_value_ok_roundtrip: "plutus_value_ok v \<Longrightarrow> plutus_roundtrip (PlutusData v None)"
proof (induction d and v rule: PlutusData_ok_plutus_value_ok.induct)
  case (3 entries ind)
  then show ?case by (intro plutus_roundtrip_map) fastforce+
qed (auto intro: plutus_roundtrip_constr plutus_roundtrip_list plutus_roundtrip_integer plutus_roundtrip_bytes)

lemma PlutusData_keeps_bytes:
  assumes "PlutusData_fromCbor b = Inr y"
  shows "PlutusData_toCbor y = Inr b"
proof -
  have "PlutusData_fromCbor [] = Inl GenericError"
    by (simp add: PlutusData_fromCbor.simps peekState_def peekStateCore_def new_reader_def root_frame_def
        at_definite_end_def)
  with assms have "b \<noteq> []" by auto
  with assms show ?thesis by (auto simp: PlutusData_fromCbor.simps)
qed

interpretation plutus_data: caching_codec PlutusData_toCbor PlutusData_fromCbor PlutusData_ok PlutusData_strip
  by unfold_locales
    (use PlutusData_ok_roundtrip in \<open>auto simp: plutus_roundtrip_def PlutusData_keeps_bytes\<close>)

interpretation plutus_entries: entry_codec PlutusData_toCbor PlutusData_fromCbor PlutusData_ok PlutusData_strip
  PlutusData_toCbor PlutusData_fromCbor PlutusData_ok PlutusData_strip
  by unfold_locales

subsection \<open>Properties\<close>

text \<open>C10. Plutus data built in memory, nested to any depth, with byte strings of any length, integers
  of any size from \<open>- 2 ^ 64\<close> up and constructor alternatives below \<open>2 ^ 64\<close>, can be written, and
  reading the bytes gives back the same tree.\<close>

theorem plutus_data_roundtrip:
  assumes "PlutusData_ok d"
  shows "\<exists>b y. PlutusData_toCbor d = Inr b \<and> PlutusData_fromCbor b = Inr y \<and>
    PlutusData_strip y = PlutusData_strip d"
  using plutus_data.encodes [OF assms] by blast

theorem plutus_data_roundtrip_witness:
  "\<exists>b y. PlutusData_toCbor (PlutusData (PConstr 200 [PlutusData (PInteger (2 ^ 70)) None,
      PlutusData (PMap [(PlutusData (PBytes []) None, PlutusData (PList []) None)] True) None]) None) = Inr b \<and>
    PlutusData_fromCbor b = Inr y \<and>
    PlutusData_strip y = PlutusData (PConstr 200 [PlutusData (PInteger (2 ^ 70)) None,
      PlutusData (PMap [(PlutusData (PBytes []) None, PlutusData (PList []) None)] True) None]) None"
  using plutus_data_roundtrip [of "PlutusData (PConstr 200 [PlutusData (PInteger (2 ^ 70)) None,
      PlutusData (PMap [(PlutusData (PBytes []) None, PlutusData (PList []) None)] True) None]) None"]
  by simp

text \<open>Plutus data that was read is written with the very bytes it was read from.\<close>

theorem plutus_data_keeps_bytes:
  assumes "PlutusData_fromCbor b = Inr y"
  shows "PlutusData_toCbor y = Inr b"
  by (rule plutus_data.keeps_bytes [OF assms])

theorem plutus_data_keeps_bytes_witness:
  "\<exists>y. PlutusData_fromCbor (enc_bounded [1, 2]) = Inr y \<and> PlutusData_toCbor y = Inr (enc_bounded [1, 2])"
  using plutus_data_keeps_bytes [OF PlutusData_fromCbor_bounded] PlutusData_fromCbor_bounded by blast

text \<open>C29. No string that Plutus data are written with is longer than 64 bytes. A byte string is a single
  string of at most 64 bytes, or an indefinite-length string of non-empty chunks of at most 64 bytes that
  concatenate to it. An integer that does not fit a CBOR integer is the tag 2, or 3 for a negative one, before its
  magnitude, most significant byte first, written in the same way; the magnitude is \<open>i\<close>, or \<open>- 1 - i\<close> for a negative one.\<close>

theorem plutus_bytes_bounded:
  "(\<exists>cs. plutus_value_toCbor (PBytes bs) =
      Inr (if length bs \<le> 64 then enc_bytes bs else 0x5f # concat (map enc_bytes cs) @ [0xff]) \<and>
    concat cs = bs \<and> list_all (\<lambda>c. c \<noteq> [] \<and> length c \<le> 64) cs) \<and>
   (\<exists>magnitude cs. plutus_value_toCbor (PInteger i) =
      Inr (if - (2 ^ 64) \<le> i \<and> i < 2 ^ 64 then enc_int i
        else enc_head TagType (if i < 0 then 3 else 2) @
          (if length magnitude \<le> 64 then enc_bytes magnitude else 0x5f # concat (map enc_bytes cs) @ [0xff])) \<and>
    int (be_nat magnitude) = (if i < 0 then - 1 - i else i) \<and>
    concat cs = magnitude \<and> list_all (\<lambda>c. c \<noteq> [] \<and> length c \<le> 64) cs)"
proof -
  have chunks: "list_all (\<lambda>c. c \<noteq> [] \<and> length c \<le> 64) (chunks64 b)" for b
    using chunks64_bounds [of _ b] by (auto simp: list_all_iff)
  show ?thesis
    by (intro conjI exI [of _ "chunks64 bs"] exI [of _ "bigintToBuffer i"] exI [of _ "chunks64 (bigintToBuffer i)"])
      (simp_all add: chunks write_all_def encode_def writeBounded_enc PInteger_toCbor cbor_int_def enc_bounded_def
        bigintToBuffer_nonneg bigintToBuffer_neg del: plutus_value_toCbor.simps(4))
qed

text \<open>C40. An integer below \<open>- 2 ^ 64\<close> is not read back: the writer stores \<open>- 1 - i\<close> under the tag for
  negative big numbers, the reader negates what it finds without subtracting one, and the result
  is \<open>i + 1\<close>.\<close>

theorem negative_bignum_off_by_one:
  assumes "i < - 18446744073709551616"
  shows "\<exists>b y. PlutusData_toCbor (PlutusData (PInteger i) None) = Inr b \<and> PlutusData_fromCbor b = Inr y \<and>
    PlutusData_strip y = PlutusData (PInteger (i + 1)) None"
  using assms
  by (simp add: PInteger_toCbor cbor_int_def PlutusData_fromCbor_bignum bigintToBuffer_neg
      del: plutus_value_toCbor.simps)

theorem negative_bignum_off_by_one_witness:
  "\<exists>b y. PlutusData_toCbor (PlutusData (PInteger (- 18446744073709551617)) None) = Inr b \<and>
    PlutusData_fromCbor b = Inr y \<and> PlutusData_strip y = PlutusData (PInteger (- 18446744073709551616)) None"
  using negative_bignum_off_by_one [of "- 18446744073709551617"] by simp

text \<open>The compact constructor tags are those of the format: alternatives 0 to 6 have the tags 121
  to 127, alternatives 7 to 127 the tags 1280 to 1400, and both directions agree; every other
  alternative takes the general form with tag 102.\<close>

theorem constr_tags:
  assumes "0 \<le> a"
  shows "(if a \<le> 127 then compactCborTagToAlternative (alternativeToCompactCborTag a) = a \<and>
      (alternativeToCompactCborTag a \<in> {121..127} \<or> alternativeToCompactCborTag a \<in> {1280..1400})
    else alternativeToCompactCborTag a = 102)"
  using assms by (auto simp: alternativeToCompactCborTag_def compactCborTagToAlternative_def)

theorem constr_tags_witness:
  "compactCborTagToAlternative (alternativeToCompactCborTag 127) = 127 \<and> alternativeToCompactCborTag 128 = 102"
  using constr_tags [of 127] constr_tags [of 128] by simp

end
