(* ===== verification/Plutus_Core.thy ===== *)
theory Plutus_Core
  imports Plutus_Data
begin

text \<open>
  The rest of the Plutus data classes: \<open>equals\<close> of \<open>PlutusData\<close>, \<open>PlutusList\<close>, \<open>PlutusMap\<close> and
  \<open>ConstrPlutusData\<close>, the look-up of a map by key, and the conversions to and from the core type
  \<open>Cardano.PlutusData\<close>.
\<close>

subsection \<open>Equality\<close>

definition PlutusList_equals :: "('a \<Rightarrow> 'b \<Rightarrow> bool) \<Rightarrow> 'a list \<Rightarrow> 'b list \<Rightarrow> bool" where
  "PlutusList_equals eq xs ys \<longleftrightarrow> length xs = length ys \<and> (\<forall>i < length xs. eq (xs ! i) (ys ! i))"

definition PlutusMap_equals ::
    "('a \<Rightarrow> 'b \<Rightarrow> bool) \<Rightarrow> ('a \<times> 'a) list \<Rightarrow> bool \<Rightarrow> ('b \<times> 'b) list \<Rightarrow> bool \<Rightarrow> bool" where
  "PlutusMap_equals eq xs useIndefinite ys otherIndefinite \<longleftrightarrow>
     useIndefinite = otherIndefinite \<and> length xs = length ys \<and>
     (\<forall>i < length xs. eq (fst (xs ! i)) (fst (ys ! i)) \<and> eq (snd (xs ! i)) (snd (ys ! i)))"

lemma PlutusList_equals_cong [fundef_cong]:
  "xs = xs' \<Longrightarrow> ys = ys' \<Longrightarrow> (\<And>x y. x \<in> set xs' \<Longrightarrow> eq x y = eq' x y) \<Longrightarrow>
   PlutusList_equals eq xs ys = PlutusList_equals eq' xs' ys'"
  by (auto simp: PlutusList_equals_def)

lemma PlutusMap_equals_cong [fundef_cong]:
  "xs = xs' \<Longrightarrow> i = i' \<Longrightarrow> ys = ys' \<Longrightarrow> j = j' \<Longrightarrow>
   (\<And>k v y. (k, v) \<in> set xs' \<Longrightarrow> eq k y = eq' k y) \<Longrightarrow> (\<And>k v y. (k, v) \<in> set xs' \<Longrightarrow> eq v y = eq' v y) \<Longrightarrow>
   PlutusMap_equals eq xs i ys j = PlutusMap_equals eq' xs' i' ys' j'"
  unfolding PlutusMap_equals_def by (metis nth_mem prod.collapse)

fun PlutusData_equals :: "PlutusData \<Rightarrow> PlutusData \<Rightarrow> bool"
  and plutus_value_equals :: "plutus_value \<Rightarrow> plutus_value \<Rightarrow> bool" where
  "PlutusData_equals (PlutusData v original) (PlutusData w original') = plutus_value_equals v w"
| "plutus_value_equals (PBytes bs) w =
     (case w of PBytes cs \<Rightarrow> PlutusList_equals (=) bs cs | _ \<Rightarrow> False)"
| "plutus_value_equals (PInteger i) w = (case w of PInteger j \<Rightarrow> i = j | _ \<Rightarrow> False)"
| "plutus_value_equals (PConstr a xs) w =
     (case w of PConstr b ys \<Rightarrow> if a \<noteq> b then False else PlutusList_equals PlutusData_equals xs ys
      | _ \<Rightarrow> False)"
| "plutus_value_equals (PList xs) w =
     (case w of PList ys \<Rightarrow> PlutusList_equals PlutusData_equals xs ys | _ \<Rightarrow> False)"
| "plutus_value_equals (PMap xs i) w =
     (case w of PMap ys j \<Rightarrow> PlutusMap_equals PlutusData_equals xs i ys j | _ \<Rightarrow> False)"

text \<open>Object comparison is equality of the trees, whatever bytes the two were read from.\<close>

lemma PlutusList_equals_strip:
  assumes "\<And>x y. x \<in> set xs \<Longrightarrow> eq x y \<longleftrightarrow> f x = g y"
  shows "PlutusList_equals eq xs ys \<longleftrightarrow> map f xs = map g ys"
  using assms by (auto simp: PlutusList_equals_def list_eq_iff_nth_eq)

lemma PlutusMap_equals_strip:
  assumes "\<And>k v y. (k, v) \<in> set xs \<Longrightarrow> eq k y \<longleftrightarrow> f k = f y"
    and "\<And>k v y. (k, v) \<in> set xs \<Longrightarrow> eq v y \<longleftrightarrow> f v = f y"
  shows "PlutusMap_equals eq xs i ys j \<longleftrightarrow>
    i = j \<and> map (\<lambda>(k, v). (f k, f v)) xs = map (\<lambda>(k, v). (f k, f v)) ys"
proof -
  have "eq (fst (xs ! n)) (fst y) \<and> eq (snd (xs ! n)) (snd y) \<longleftrightarrow>
      (\<lambda>(k, v). (f k, f v)) (xs ! n) = (\<lambda>(k, v). (f k, f v)) y" if "n < length xs" for n y
  proof -
    have "(fst (xs ! n), snd (xs ! n)) \<in> set xs" using that by simp
    then show ?thesis using assms(1) [of _ "snd (xs ! n)"] assms(2) [of "fst (xs ! n)"]
      by (simp add: case_prod_beta)
  qed
  then show ?thesis
    by (auto simp: PlutusMap_equals_def list_eq_iff_nth_eq)
qed

lemma equals_strip:
  "PlutusData_equals d e \<longleftrightarrow> PlutusData_strip d = PlutusData_strip e"
  "plutus_value_equals v w \<longleftrightarrow> plutus_value_strip v = plutus_value_strip w"
proof (induction d e and v w rule: PlutusData_equals_plutus_value_equals.induct)
  case (2 bs w)
  then show ?case by (cases w) (auto simp: PlutusList_equals_strip [where f = id and g = id])
next
  case (4 a xs w)
  then show ?case by (cases w) (auto simp: PlutusList_equals_strip [where f = PlutusData_strip])
next
  case (5 xs w)
  then show ?case by (cases w) (auto simp: PlutusList_equals_strip [where f = PlutusData_strip])
next
  case (6 xs i w)
  then show ?case by (cases w) (auto simp: PlutusMap_equals_strip [where f = PlutusData_strip])
qed (auto split: plutus_value.split)

subsection \<open>Look-up\<close>

definition PlutusMap_get :: "(PlutusData \<times> PlutusData) list \<Rightarrow> PlutusData \<Rightarrow> PlutusData option" where
  "PlutusMap_get entries key = map_option snd (find (\<lambda>e. PlutusData_equals (fst e) key) entries)"

definition PlutusMap_getKeys :: "(PlutusData \<times> PlutusData) list \<Rightarrow> PlutusData list" where
  "PlutusMap_getKeys entries = map fst entries"

lemma PlutusMap_get_member: "PlutusMap_get entries key = Some v \<Longrightarrow> v \<in> snd ` set entries"
  by (auto simp: PlutusMap_get_def find_Some_iff intro!: image_eqI [OF _ nth_mem] dest!: arg_cong [of _ _ snd])

text \<open>The look-up is that of the association list of stripped keys.\<close>

lemma PlutusMap_get_map_of:
  "map_option PlutusData_strip (PlutusMap_get entries key) =
     map_of (map (\<lambda>(k, v). (PlutusData_strip k, PlutusData_strip v)) entries) (PlutusData_strip key)"
  by (induction entries) (auto simp: PlutusMap_get_def equals_strip)

subsection \<open>The core type\<close>

text \<open>
  A core list, map or constructor is an object with an optional \<open>cbor\<close> field; \<open>fields\<close> of a
  constructor is itself a core list. A core map is a JavaScript \<open>Map\<close>: setting a \<open>bigint\<close> key that
  is present replaces its value, any other key is an object and compared by identity.
\<close>

datatype Core_PlutusData =
    CoreBytes bytes
  | CoreInteger int
  | CoreList "bytes option" "Core_PlutusData list"
  | CoreMap "bytes option" "(Core_PlutusData \<times> Core_PlutusData) list"
  | CoreConstr "bytes option" int "bytes option" "Core_PlutusData list"

fun coreMap_set :: "Core_PlutusData \<Rightarrow> Core_PlutusData \<Rightarrow>
    (Core_PlutusData \<times> Core_PlutusData) list \<Rightarrow> (Core_PlutusData \<times> Core_PlutusData) list" where
  "coreMap_set k v [] = [(k, v)]"
| "coreMap_set k v ((k', v') # m) =
     (if k' = k \<and> (case k of CoreInteger _ \<Rightarrow> True | _ \<Rightarrow> False) then (k', v) # m
      else (k', v') # coreMap_set k v m)"

lemma size_entry:
  "(k, v) \<in> set es \<Longrightarrow> size k < size_list (size_prod size size) es \<and> size v < size_list (size_prod size size) es"
  by (induction es) auto

function PlutusData_toCore :: "PlutusData \<Rightarrow> Core_PlutusData result" where
  "PlutusData_toCore (PlutusData (PBytes bs) original) = Inr (CoreBytes bs)"
| "PlutusData_toCore (PlutusData (PInteger i) original) = Inr (CoreInteger i)"
| "PlutusData_toCore (PlutusData (PConstr alternative args) original) =
     ebind (PlutusData_toCbor (PlutusData (PConstr alternative args) original)) (\<lambda>cbor.
     ebind (emap PlutusData_toCore args) (\<lambda>items.
     ebind (ebind (emap PlutusData_toCbor args) PlutusList_write) (\<lambda>listCbor.
       Inr (CoreConstr (Some cbor) alternative (Some listCbor) items))))"
| "PlutusData_toCore (PlutusData (PList args) original) =
     ebind (emap PlutusData_toCore args) (\<lambda>items.
     ebind (ebind (emap PlutusData_toCbor args) PlutusList_write) (\<lambda>listCbor.
       Inr (CoreList (Some listCbor) items)))"
| "PlutusData_toCore (PlutusData (PMap entries ind) original) =
     ebind (emap (\<lambda>key.
              ebind (PlutusData_toCore key) (\<lambda>k.
                case PlutusMap_get entries key of
                  None \<Rightarrow> Inl TypeError
                | Some value \<Rightarrow> ebind (PlutusData_toCore value) (\<lambda>v. Inr (k, v))))
            (PlutusMap_getKeys entries)) (\<lambda>kvs.
     ebind (PlutusData_toCbor (PlutusData (PMap entries ind) original)) (\<lambda>cbor.
       Inr (CoreMap (Some cbor) (foldl (\<lambda>m (k, v). coreMap_set k v m) [] kvs))))"
  by pat_completeness auto

termination
proof (relation "measure size", goal_cases)
  case (4 entries ind original key)
  then show ?case by (auto simp: PlutusMap_getKeys_def dest: size_entry)
next
  case (5 entries ind original key a v)
  then show ?case by (auto simp: PlutusMap_getKeys_def dest!: PlutusMap_get_member size_entry)
qed (auto intro!: le_SucI size_list_estimation' simp: less_Suc_eq_le)

text \<open>\<open>if (data.cbor) return PlutusData.fromCbor(data.cbor);\<close>\<close>

definition fromCbor_or :: "bytes option \<Rightarrow> PlutusData result \<Rightarrow> PlutusData result" where
  "fromCbor_or cbor other = (case cbor of Some (b # bs) \<Rightarrow> PlutusData_fromCbor (b # bs) | _ \<Rightarrow> other)"

lemma fromCbor_or_cong [fundef_cong]: "c = c' \<Longrightarrow> m = m' \<Longrightarrow> fromCbor_or c m = fromCbor_or c' m'"
  by simp

fun PlutusData_fromCore :: "Core_PlutusData \<Rightarrow> PlutusData result" where
  "PlutusData_fromCore (CoreBytes bs) = Inr (PlutusData (PBytes bs) None)"
| "PlutusData_fromCore (CoreInteger i) = Inr (PlutusData (PInteger i) None)"
| "PlutusData_fromCore (CoreList cbor items) = fromCbor_or cbor
     (ebind (emap PlutusData_fromCore items) (\<lambda>ds. Inr (PlutusData (PList ds) None)))"
| "PlutusData_fromCore (CoreMap cbor entries) = fromCbor_or cbor
     (ebind (emap (\<lambda>(k, v). ebind (PlutusData_fromCore k) (\<lambda>k.
                            ebind (PlutusData_fromCore v) (\<lambda>v. Inr (k, v)))) entries)
       (\<lambda>es. Inr (PlutusData (PMap es False) None)))"
| "PlutusData_fromCore (CoreConstr cbor alternative listCbor items) = fromCbor_or cbor
     (ebind (emap PlutusData_fromCore items) (\<lambda>ds. Inr (PlutusData (PConstr alternative ds) None)))"

lemma fromCbor_or_Some [simp]: "b \<noteq> [] \<Longrightarrow> fromCbor_or (Some b) m = PlutusData_fromCbor b"
  by (cases b) (simp_all add: fromCbor_or_def)

text \<open>A map always finds its own keys, so the conversion to the core type does not fail there.\<close>

lemma PlutusMap_get_own:
  assumes "(k, v) \<in> set es"
  obtains w where "PlutusMap_get es k = Some w" and "w \<in> snd ` set es"
proof -
  have "find (\<lambda>e. PlutusData_equals (fst e) k) es \<noteq> None"
    using assms by (auto simp: find_None_iff equals_strip)
  then show ?thesis
    using that PlutusMap_get_member [of es k] by (auto simp: PlutusMap_get_def)
qed

lemma emap_total: "(\<And>x. x \<in> set xs \<Longrightarrow> \<exists>y. f x = Inr y) \<Longrightarrow> \<exists>ys. emap f xs = Inr ys"
  by (induction xs) (auto, metis ebind_Inr)

lemma PlutusData_ok_toCbor: "PlutusData_ok d \<Longrightarrow> \<exists>b. PlutusData_toCbor d = Inr b \<and> b \<noteq> [] \<and>
    (\<exists>y. PlutusData_fromCbor b = Inr y \<and> PlutusData_strip y = PlutusData_strip d)"
  using plutus_data.encodes cbor_item_hd by blast

lemma PlutusList_write_total: "\<forall>d \<in> set ds. PlutusData_ok d \<Longrightarrow>
    \<exists>b. ebind (emap PlutusData_toCbor ds) PlutusList_write = Inr b \<and> b \<noteq> [] \<and>
      (\<exists>y. PlutusData_fromCbor b = Inr y \<and> PlutusData_strip y = PlutusData_strip (PlutusData (PList ds) None))"
  using PlutusData_ok_toCbor [of "PlutusData (PList ds) None"] by simp

lemma PlutusData_toCore_total: "PlutusData_ok d \<Longrightarrow> \<exists>c. PlutusData_toCore d = Inr c"
proof (induction d rule: PlutusData_toCore.induct)
  case (3 a args original)
  then show ?case
    using PlutusData_ok_toCbor [OF "3.prems"] PlutusList_write_total [of args] emap_total [of args PlutusData_toCore]
    by auto
next
  case (4 args original)
  then show ?case
    using PlutusList_write_total [of args] emap_total [of args PlutusData_toCore] by auto
next
  case (5 entries ind original)
  let ?f = "\<lambda>key. ebind (PlutusData_toCore key) (\<lambda>k. case PlutusMap_get entries key of
      None \<Rightarrow> Inl TypeError | Some value \<Rightarrow> ebind (PlutusData_toCore value) (\<lambda>v. Inr (k, v)))"
  have "\<exists>y. ?f key = Inr y" if key: "key \<in> set (PlutusMap_getKeys entries)" for key
  proof -
    from key obtain v where kv: "(key, v) \<in> set entries" by (auto simp: PlutusMap_getKeys_def)
    obtain w where w: "PlutusMap_get entries key = Some w" "w \<in> snd ` set entries"
      by (rule PlutusMap_get_own [OF kv])
    have "PlutusData_ok key" "PlutusData_ok w" using "5.prems" kv w(2) by auto
    with "5.IH"(1) [OF key] "5.IH"(2) [OF key _ w(1)] w(1) show ?thesis by fastforce
  qed
  then obtain kvs where "emap ?f (PlutusMap_getKeys entries) = Inr kvs" using emap_total [of _ ?f] by meson
  moreover obtain b where "PlutusData_toCbor (PlutusData (PMap entries ind) original) = Inr b"
    using PlutusData_ok_toCbor [OF "5.prems"] by blast
  ultimately show ?case by (simp del: PlutusData_toCbor.simps)
qed simp_all

lemma PlutusData_core_roundtrip:
  assumes "PlutusData_ok d"
  shows "\<exists>c y. PlutusData_toCore d = Inr c \<and> PlutusData_fromCore c = Inr y \<and>
    PlutusData_strip y = PlutusData_strip d"
proof -
  obtain c where c: "PlutusData_toCore d = Inr c" using PlutusData_toCore_total [OF assms] by blast
  obtain v where d: "d = PlutusData v None" using assms by (cases d) auto
  obtain b y where b: "PlutusData_toCbor d = Inr b" "b \<noteq> []" "PlutusData_fromCbor b = Inr y"
    "PlutusData_strip y = PlutusData_strip d"
    using PlutusData_ok_toCbor [OF assms] by blast
  have "\<exists>y. PlutusData_fromCore c = Inr y \<and> PlutusData_strip y = PlutusData_strip d"
    using c b d by (cases v) auto
  with c show ?thesis by blast
qed

subsection \<open>Properties\<close>

text \<open>C30. \<open>equals\<close> holds of two data exactly when they are the same tree, whatever bytes they were
  read from; so it is an equivalence relation.\<close>

theorem plutus_equals_is_equality:
  "PlutusData_equals d e \<longleftrightarrow> PlutusData_strip d = PlutusData_strip e"
  by (rule equals_strip(1))

text \<open>Looking a key up in a map finds the value of the first entry whose key is the same tree.\<close>

theorem plutus_map_get_first:
  "map_option PlutusData_strip (PlutusMap_get entries key) =
     map_of (map (\<lambda>(k, v). (PlutusData_strip k, PlutusData_strip v)) entries) (PlutusData_strip key)"
  by (rule PlutusMap_get_map_of)

text \<open>The conversion to the core type and back gives the same tree.\<close>

theorem plutus_core_roundtrip:
  assumes "PlutusData_ok d"
  shows "\<exists>c y. PlutusData_toCore d = Inr c \<and> PlutusData_fromCore c = Inr y \<and> PlutusData_equals y d"
  using PlutusData_core_roundtrip [OF assms] by (simp add: equals_strip)

theorem plutus_core_roundtrip_witness:
  "\<exists>c y. PlutusData_toCore (PlutusData (PMap [(PlutusData (PInteger 1) None, PlutusData (PBytes [2]) None),
      (PlutusData (PInteger 1) None, PlutusData (PBytes [3]) None)] False) None) = Inr c \<and>
    PlutusData_fromCore c = Inr y \<and> PlutusData_equals y (PlutusData (PMap
      [(PlutusData (PInteger 1) None, PlutusData (PBytes [2]) None),
       (PlutusData (PInteger 1) None, PlutusData (PBytes [3]) None)] False) None)"
  by (rule plutus_core_roundtrip) simp

end
