(* ===== verification/Token_Map.thy ===== *)
theory Token_Map
  imports Prelude "HOL-Library.Multiset"
begin

text \<open>
  Values and token maps (\<open>core/src/util/coalesceValueQuantities.ts\<close>,
  \<open>core/src/Asset/util/coalesceTokenMaps.ts\<close>, \<open>util/src/BigIntMath.ts\<close> and the token arithmetic
  of \<open>input-selection/src/util.ts\<close>). A JavaScript \<open>Map\<close> iterates in insertion order and setting a
  present key keeps its place, so a token map is an association list with distinct keys.
\<close>

type_synonym asset_id = string
type_synonym token_map = "(asset_id \<times> int) list"

subsection \<open>JavaScript maps\<close>

definition tm_wf :: "token_map \<Rightarrow> bool" where
  "tm_wf m \<longleftrightarrow> distinct (map fst m)"

definition tm_has :: "token_map \<Rightarrow> asset_id \<Rightarrow> bool" where
  "tm_has m k \<longleftrightarrow> map_of m k \<noteq> None"

text \<open>\<open>m.get(k) || 0n\<close>\<close>

definition qty :: "token_map \<Rightarrow> asset_id \<Rightarrow> int" where
  "qty m k = (case map_of m k of None \<Rightarrow> 0 | Some q \<Rightarrow> q)"

fun tm_set :: "asset_id \<Rightarrow> int \<Rightarrow> token_map \<Rightarrow> token_map" where
  "tm_set k v [] = [(k, v)]"
| "tm_set k v ((k', v') # m) = (if k' = k then (k, v) # m else (k', v') # tm_set k v m)"

text \<open>Setting the given entries one after the other; with no initial entries, \<open>new Map(entries)\<close>.\<close>

definition tm_sets :: "token_map \<Rightarrow> (asset_id \<times> int) list \<Rightarrow> token_map" where
  "tm_sets m es = foldl (\<lambda>m (k, v). tm_set k v m) m es"

text \<open>lodash \<open>uniq\<close>: the first of equal elements stays.\<close>

definition js_uniq :: "'a list \<Rightarrow> 'a list" where
  "js_uniq xs = rev (remdups (rev xs))"

definition bigint_sum :: "int list \<Rightarrow> int" where
  "bigint_sum xs = foldl (+) 0 xs"

definition bigint_abs :: "int \<Rightarrow> int" where
  "bigint_abs x = (if x < 0 then - x else x)"

text \<open>Sorting with a comparator that puts larger keys first; both \<open>Array.sort\<close> and \<open>orderBy\<close> are stable.\<close>

definition sort_desc :: "('a \<Rightarrow> int) \<Rightarrow> 'a list \<Rightarrow> 'a list" where
  "sort_desc key xs = sort_key (\<lambda>x. - key x) xs"

named_theorems tm_simps \<open>quantities of token maps\<close>

lemma set_js_uniq [simp]: "set (js_uniq xs) = set xs"
  by (simp add: js_uniq_def)

lemma distinct_js_uniq [simp]: "distinct (js_uniq xs)"
  by (simp add: js_uniq_def)

lemma bigint_sum_sum_list [tm_simps]: "bigint_sum xs = sum_list xs"
  unfolding bigint_sum_def by (induction xs rule: rev_induct) simp_all

lemma bigint_abs_abs [tm_simps]: "bigint_abs x = \<bar>x\<bar>"
  by (simp add: bigint_abs_def)

lemma mset_sort_desc [simp]: "mset (sort_desc key xs) = mset xs"
  by (simp add: sort_desc_def)

lemma set_sort_desc [simp]: "set (sort_desc key xs) = set xs"
  by (simp add: sort_desc_def)

lemma length_sort_desc [simp]: "length (sort_desc key xs) = length xs"
  by (simp add: sort_desc_def)

lemma map_of_tm_set [tm_simps]: "map_of (tm_set k v m) = (map_of m)(k \<mapsto> v)"
  by (induction m) auto

lemma keys_tm_set [simp]: "fst ` set (tm_set k v m) = insert k (fst ` set m)"
  by (simp add: dom_map_of_conv_image_fst [symmetric] map_of_tm_set)

lemma tm_wf_Nil [simp]: "tm_wf []"
  by (simp add: tm_wf_def)

lemma tm_wf_set [simp]: "tm_wf m \<Longrightarrow> tm_wf (tm_set k v m)"
  unfolding tm_wf_def by (induction m) auto

lemma tm_wf_sets [simp]: "tm_wf m \<Longrightarrow> tm_wf (tm_sets m es)"
  unfolding tm_sets_def by (induction es arbitrary: m) auto

lemma tm_sets_Nil [simp]: "tm_sets m [] = m"
  by (simp add: tm_sets_def)

lemma tm_sets_Cons: "tm_sets m ((k, v) # es) = tm_sets (tm_set k v m) es"
  by (simp add: tm_sets_def)

lemma map_of_tm_sets:
  "distinct (map fst es) \<Longrightarrow> map_of (tm_sets m es) k = (case map_of es k of None \<Rightarrow> map_of m k | Some v \<Rightarrow> Some v)"
proof (induction es arbitrary: m)
  case (Cons e es)
  obtain j v where e: "e = (j, v)" by force
  have "map_of es j = None" using Cons.prems e by (simp add: map_of_eq_None_iff)
  with Cons.IH [of "tm_set j v m"] Cons.prems e show ?case
    by (auto simp: tm_sets_Cons tm_simps split: option.split)
qed simp

lemma qty_tm_set [tm_simps]: "qty (tm_set k v m) j = (if j = k then v else qty m j)"
  by (simp add: qty_def tm_simps)

lemma qty_tm_sets:
  "distinct (map fst es) \<Longrightarrow> qty (tm_sets m es) k = (case map_of es k of None \<Rightarrow> qty m k | Some v \<Rightarrow> v)"
  by (auto simp: qty_def map_of_tm_sets split: option.split)

lemma qty_Nil [simp]: "qty [] k = 0"
  by (simp add: qty_def)

lemma qty_Cons: "qty ((k, v) # m) j = (if j = k then v else qty m j)"
  by (simp add: qty_def)

lemma qty_absent: "\<not> tm_has m k \<Longrightarrow> qty m k = 0"
  by (simp add: qty_def tm_has_def)

lemma tm_has_set: "tm_has m k \<longleftrightarrow> k \<in> fst ` set m"
  by (auto simp: tm_has_def map_of_eq_None_iff)

lemma map_of_filter:
  "tm_wf m \<Longrightarrow> map_of (filter P m) k = (case map_of m k of None \<Rightarrow> None | Some v \<Rightarrow> if P (k, v) then Some v else None)"
  unfolding tm_wf_def
  by (induction m) (auto split: option.splits simp: map_of_eq_None_iff dest: map_of_SomeD)

lemma distinct_filter_keys: "tm_wf m \<Longrightarrow> distinct (map fst (filter P m))"
  unfolding tm_wf_def by (induction m) auto

lemma qty_filter:
  "tm_wf m \<Longrightarrow> qty (filter P m) k = (if tm_has m k \<and> P (k, qty m k) then qty m k else 0)"
  by (auto simp: qty_def tm_has_def map_of_filter split: option.splits)

subsection \<open>Sums and differences of token maps\<close>

text \<open>The entries of one map whose keys the other does not have, and with a quantity.\<close>

definition only_in :: "token_map \<Rightarrow> token_map \<Rightarrow> token_map" where
  "only_in m other = filter (\<lambda>(k, v). \<not> tm_has other k \<and> v \<noteq> 0) m"

definition intersection :: "token_map \<Rightarrow> token_map \<Rightarrow> asset_id list" where
  "intersection lhs rhs = js_uniq (filter (tm_has rhs) (map fst lhs) @ filter (tm_has lhs) (map fst rhs))"

fun subtractTokenMaps :: "token_map option \<Rightarrow> token_map option \<Rightarrow> token_map option" where
  "subtractTokenMaps None None = None"
| "subtractTokenMaps (Some lhs) None = Some (tm_sets [] (filter (\<lambda>(k, v). v \<noteq> 0) lhs))"
| "subtractTokenMaps None (Some rhs) =
     Some (tm_sets [] (map (\<lambda>(k, v). (k, - v)) (filter (\<lambda>(k, v). v \<noteq> 0) rhs)))"
| "subtractTokenMaps (Some lhs) (Some rhs) =
     (let result = tm_sets [] (only_in lhs rhs);
          result = tm_sets result (map (\<lambda>(k, v). (k, - v)) (only_in rhs lhs))
      in Some (tm_sets result (filter (\<lambda>(k, v). v \<noteq> 0)
           (map (\<lambda>k. (k, qty lhs k - qty rhs k)) (intersection lhs rhs)))))"

fun addTokenMaps :: "token_map option \<Rightarrow> token_map option \<Rightarrow> token_map option" where
  "addTokenMaps None rhs = rhs"
| "addTokenMaps (Some lhs) None = Some lhs"
| "addTokenMaps (Some lhs) (Some rhs) =
     (let result = tm_sets [] (only_in lhs rhs);
          result = tm_sets result (only_in rhs lhs)
      in Some (tm_sets result (filter (\<lambda>(k, v). v \<noteq> 0)
           (map (\<lambda>k. (k, qty lhs k + qty rhs k)) (intersection lhs rhs)))))"

definition hasNegativeAssetValue :: "token_map option \<Rightarrow> bool" where
  "hasNegativeAssetValue a = (case a of None \<Rightarrow> False | Some m \<Rightarrow> list_ex (\<lambda>(k, q). q < 0) m)"

text \<open>The quantity of an optional map, \<open>assets?.get(id) || 0n\<close>.\<close>

definition oqty :: "token_map option \<Rightarrow> asset_id \<Rightarrow> int" where
  "oqty a k = (case a of None \<Rightarrow> 0 | Some m \<Rightarrow> qty m k)"

definition otm_wf :: "token_map option \<Rightarrow> bool" where
  "otm_wf a = (case a of None \<Rightarrow> True | Some m \<Rightarrow> tm_wf m)"

lemma oqty_simps [simp]: "oqty None k = 0" "oqty (Some m) k = qty m k"
  by (simp_all add: oqty_def)

lemma otm_wf_simps [simp]: "otm_wf None" "otm_wf (Some m) = tm_wf m"
  by (simp_all add: otm_wf_def)

lemma set_intersection: "set (intersection lhs rhs) = {k. tm_has lhs k \<and> tm_has rhs k}"
  by (auto simp: intersection_def tm_has_set)

lemma distinct_keys_of: "distinct ks \<Longrightarrow> distinct (map fst (filter P (map (\<lambda>k. (k, f k)) ks)))"
  by (induction ks) auto

lemma map_of_keys_of:
  "map_of (filter P (map (\<lambda>k. (k, f k)) ks)) j = (if j \<in> set ks \<and> P (j, f j) then Some (f j) else None)"
  by (induction ks) auto

lemma map_of_neg: "map_of (map (\<lambda>(k, v). (k, - v :: int)) m) j = map_option uminus (map_of m j)"
  by (induction m) auto

lemma map_of_tm_sets_neg:
  assumes "distinct (map fst es)"
  shows "map_of (tm_sets m (map (\<lambda>(k, v). (k, - v)) es)) k =
    (case map_of es k of None \<Rightarrow> map_of m k | Some v \<Rightarrow> Some (- v))"
proof -
  have "map fst (map (\<lambda>(k, v). (k, - v :: int)) es) = map fst es" by (induction es) auto
  with assms have "distinct (map fst (map (\<lambda>(k, v). (k, - v :: int)) es))" by metis
  from map_of_tm_sets [OF this, of m k] show ?thesis by (simp add: map_of_neg split: option.split)
qed

lemma map_of_only_in:
  "tm_wf m \<Longrightarrow> map_of (only_in m other) k =
     (if tm_has m k \<and> \<not> tm_has other k \<and> qty m k \<noteq> 0 then Some (qty m k) else None)"
  by (auto simp: only_in_def map_of_filter qty_def tm_has_def split: option.splits)

lemma distinct_only_in: "tm_wf m \<Longrightarrow> distinct (map fst (only_in m other))"
  unfolding only_in_def by (rule distinct_filter_keys)

lemmas token_map_ops = map_of_tm_sets distinct_keys_of map_of_keys_of map_of_neg map_of_only_in
  distinct_only_in set_intersection map_of_tm_sets_neg map_of_filter distinct_filter_keys

lemma distinct_intersection [simp]: "distinct (intersection lhs rhs)"
  by (simp add: intersection_def)

text \<open>The map a difference denotes: exactly the assets with a non-zero difference.\<close>

lemma map_of_subtractTokenMaps:
  assumes "otm_wf lhs" and "otm_wf rhs" and "subtractTokenMaps lhs rhs = Some m"
  shows "map_of m k = (let d = oqty lhs k - oqty rhs k in if d = 0 then None else Some d)"
proof (cases lhs; cases rhs)
  fix l r assume "lhs = Some l" "rhs = Some r"
  with assms show ?thesis
    by (cases "tm_has l k"; cases "tm_has r k") (auto simp: Let_def token_map_ops qty_absent split: option.splits)
qed (use assms in \<open>auto simp: token_map_ops qty_def Let_def split: option.splits\<close>)

lemma map_of_addTokenMaps:
  assumes "tm_wf l" and "tm_wf r" and "addTokenMaps (Some l) (Some r) = Some m"
  shows "map_of m k = (let s = qty l k + qty r k in if s = 0 then None else Some s)"
  using assms
  by (cases "tm_has l k"; cases "tm_has r k") (auto simp: Let_def token_map_ops qty_absent split: option.splits)

lemma subtractTokenMaps_wf: "subtractTokenMaps lhs rhs = Some m \<Longrightarrow> tm_wf m"
  by (cases lhs; cases rhs) (auto simp: Let_def)

lemma addTokenMaps_wf: "otm_wf lhs \<Longrightarrow> otm_wf rhs \<Longrightarrow> otm_wf (addTokenMaps lhs rhs)"
  by (cases lhs; cases rhs) (auto simp: Let_def)

lemma oqty_subtractTokenMaps:
  assumes "otm_wf lhs" and "otm_wf rhs"
  shows "oqty (subtractTokenMaps lhs rhs) k = oqty lhs k - oqty rhs k"
proof (cases "subtractTokenMaps lhs rhs")
  case None
  then show ?thesis by (cases lhs; cases rhs) (auto simp: Let_def)
next
  case (Some m)
  then show ?thesis using map_of_subtractTokenMaps [OF assms Some, of k] by (simp add: qty_def Let_def)
qed

lemma oqty_addTokenMaps:
  assumes "otm_wf lhs" and "otm_wf rhs"
  shows "oqty (addTokenMaps lhs rhs) k = oqty lhs k + oqty rhs k"
proof (cases lhs; cases rhs)
  fix l r assume lr: "lhs = Some l" "rhs = Some r"
  then obtain m where "addTokenMaps (Some l) (Some r) = Some m" by (simp add: Let_def)
  with assms lr map_of_addTokenMaps [of l r m k] show ?thesis by (simp add: qty_def Let_def)
qed simp_all

lemma hasNegative_iff:
  assumes "otm_wf a"
  shows "hasNegativeAssetValue a \<longleftrightarrow> (\<exists>k. oqty a k < 0)"
proof (cases a)
  case (Some m)
  with assms have "map_of m k = Some q" if "(k, q) \<in> set m" for k q
    using that by (simp add: tm_wf_def)
  with Some show ?thesis
    by (fastforce simp: hasNegativeAssetValue_def list_ex_iff qty_def split: option.splits dest: map_of_SomeD)
qed (simp add: hasNegativeAssetValue_def)

subsection \<open>Values\<close>

record Value =
  v_coins :: int
  v_assets :: "token_map option"

definition getCoinQuantity :: "Value list \<Rightarrow> int" where
  "getCoinQuantity quantities = bigint_sum (map v_coins quantities)"

definition assetQuantitySelector :: "asset_id \<Rightarrow> Value list \<Rightarrow> int" where
  "assetQuantitySelector i quantities = bigint_sum (map (\<lambda>v. oqty (v_assets v) i) quantities)"

definition coalesceTokenMaps :: "token_map option list \<Rightarrow> token_map option" where
  "coalesceTokenMaps totals =
     (let result = foldl (\<lambda>result m. foldl (\<lambda>result (k, q). tm_set k (qty result k + q) result) result m)
                    [] (List.map_filter id totals)
      in if result = [] then None else Some result)"

definition coalesceValueQuantities :: "Value list \<Rightarrow> Value" where
  "coalesceValueQuantities quantities =
     \<lparr>v_coins = bigint_sum (map v_coins quantities), v_assets = coalesceTokenMaps (map v_assets quantities)\<rparr>"

abbreviation value_wf :: "Value \<Rightarrow> bool" where
  "value_wf v \<equiv> otm_wf (v_assets v)"

lemma getCoinQuantity_simps [simp]:
  "getCoinQuantity [] = 0" "getCoinQuantity (v # vs) = v_coins v + getCoinQuantity vs"
  "getCoinQuantity (vs @ ws) = getCoinQuantity vs + getCoinQuantity ws"
  by (simp_all add: getCoinQuantity_def tm_simps)

lemma assetQuantitySelector_simps [simp]:
  "assetQuantitySelector i [] = 0"
  "assetQuantitySelector i (v # vs) = oqty (v_assets v) i + assetQuantitySelector i vs"
  "assetQuantitySelector i (vs @ ws) = assetQuantitySelector i vs + assetQuantitySelector i ws"
  by (simp_all add: assetQuantitySelector_def tm_simps)

lemma quantity_mset_cong:
  assumes "mset vs = mset ws"
  shows "getCoinQuantity vs = getCoinQuantity ws" and "assetQuantitySelector i vs = assetQuantitySelector i ws"
  using assms unfolding getCoinQuantity_def assetQuantitySelector_def tm_simps
  by (metis mset_map sum_mset_sum_list)+

lemma qty_coalesce_one:
  "tm_wf m \<Longrightarrow> qty (foldl (\<lambda>r (k, q). tm_set k (qty r k + q) r) r m) j = qty r j + qty m j"
  unfolding tm_wf_def
proof (induction m arbitrary: r)
  case (Cons e m)
  obtain k v where e: "e = (k, v)" by force
  have "qty m k = 0" using Cons.prems e by (intro qty_absent) (simp add: tm_has_set)
  with Cons.IH [of "tm_set k (qty r k + v) r"] Cons.prems e show ?case
    by (simp add: tm_simps qty_Cons)
qed simp

lemma wf_coalesce_one: "tm_wf r \<Longrightarrow> tm_wf (foldl (\<lambda>r (k, q). tm_set k (qty r k + q) r) r m)"
  by (induction m arbitrary: r) auto

lemma qty_coalesce_many:
  assumes "\<forall>m \<in> set ms. tm_wf m"
  shows "qty (foldl (\<lambda>r m. foldl (\<lambda>r (k, q). tm_set k (qty r k + q) r) r m) r ms) j =
    qty r j + sum_list (map (\<lambda>m. qty m j) ms)"
  using assms by (induction ms arbitrary: r) (simp_all add: qty_coalesce_one)

lemma wf_coalesce_many:
  "tm_wf r \<Longrightarrow> tm_wf (foldl (\<lambda>r m. foldl (\<lambda>r (k, q). tm_set k (qty r k + q) r) r m) r ms)"
  by (induction ms arbitrary: r) (simp_all add: wf_coalesce_one)

lemma sum_map_filter: "sum_list (map (\<lambda>m. qty m j) (List.map_filter id ts)) = sum_list (map (\<lambda>a. oqty a j) ts)"
  by (induction ts) (auto simp: List.map_filter_simps split: option.split)

lemma oqty_coalesceTokenMaps:
  assumes "\<forall>a \<in> set ts. otm_wf a"
  shows "oqty (coalesceTokenMaps ts) j = sum_list (map (\<lambda>a. oqty a j) ts)"
proof -
  have "\<forall>m \<in> set (List.map_filter id ts). tm_wf m"
    using assms by (auto simp: List.map_filter_def)
  from qty_coalesce_many [OF this, of "[]" j] show ?thesis
    by (auto simp: coalesceTokenMaps_def Let_def sum_map_filter)
qed

lemma coalesceTokenMaps_wf: "otm_wf (coalesceTokenMaps ts)"
  by (simp add: coalesceTokenMaps_def Let_def wf_coalesce_many)

lemma coalesceValueQuantities_coins [simp]: "v_coins (coalesceValueQuantities vs) = getCoinQuantity vs"
  by (simp add: coalesceValueQuantities_def getCoinQuantity_def)

lemma coalesceValueQuantities_assets:
  "\<forall>v \<in> set vs. value_wf v \<Longrightarrow> oqty (v_assets (coalesceValueQuantities vs)) j = assetQuantitySelector j vs"
  by (simp add: coalesceValueQuantities_def oqty_coalesceTokenMaps assetQuantitySelector_def tm_simps comp_def)

lemma coalesceValueQuantities_wf [simp]: "value_wf (coalesceValueQuantities vs)"
  by (simp add: coalesceValueQuantities_def coalesceTokenMaps_wf)

subsection \<open>Properties\<close>

text \<open>Token maps are added and subtracted asset by asset: the difference holds exactly the assets
  whose quantities differ, with the difference, and the sum of two maps exactly those with a
  non-zero sum; an absent map counts as zero, and adding back what was subtracted restores every
  quantity.\<close>

theorem token_map_arithmetic:
  assumes "otm_wf lhs" and "otm_wf rhs"
  shows "(\<forall>m k. subtractTokenMaps lhs rhs = Some m \<longrightarrow>
      map_of m k = (if oqty lhs k = oqty rhs k then None else Some (oqty lhs k - oqty rhs k))) \<and>
    (\<forall>l r m k. lhs = Some l \<longrightarrow> rhs = Some r \<longrightarrow> addTokenMaps lhs rhs = Some m \<longrightarrow>
      map_of m k = (if qty l k + qty r k = 0 then None else Some (qty l k + qty r k))) \<and>
    (\<forall>k. oqty (addTokenMaps lhs rhs) k = oqty lhs k + oqty rhs k) \<and>
    (\<forall>k. oqty (addTokenMaps (subtractTokenMaps lhs rhs) rhs) k = oqty lhs k)"
proof (intro conjI allI impI)
  show "map_of m k = (if oqty lhs k = oqty rhs k then None else Some (oqty lhs k - oqty rhs k))"
    if "subtractTokenMaps lhs rhs = Some m" for m k
    using map_of_subtractTokenMaps [OF assms that, of k] by (simp add: Let_def)
  show "map_of m k = (if qty l k + qty r k = 0 then None else Some (qty l k + qty r k))"
    if "lhs = Some l" "rhs = Some r" "addTokenMaps lhs rhs = Some m" for l r m k
    using map_of_addTokenMaps [of l r m k] assms that by (simp add: Let_def)
  show "oqty (addTokenMaps lhs rhs) k = oqty lhs k + oqty rhs k" for k
    by (rule oqty_addTokenMaps [OF assms])
  have "otm_wf (subtractTokenMaps lhs rhs)"
    by (cases "subtractTokenMaps lhs rhs") (simp_all add: subtractTokenMaps_wf)
  then show "oqty (addTokenMaps (subtractTokenMaps lhs rhs) rhs) k = oqty lhs k" for k
    using assms by (simp add: oqty_addTokenMaps oqty_subtractTokenMaps)
qed

theorem token_map_arithmetic_witness:
  "oqty (addTokenMaps (subtractTokenMaps (Some [(''a'', 5), (''b'', 2)]) (Some [(''b'', 2), (''c'', 7)]))
     (Some [(''b'', 2), (''c'', 7)])) ''b'' = 2 \<and>
   subtractTokenMaps (Some [(''a'', 5), (''b'', 2)]) (Some [(''b'', 2), (''c'', 7)]) = Some [(''a'', 5), (''c'', - 7)]"
proof
  let ?l = "Some [(''a'', 5), (''b'', 2)]" and ?r = "Some [(''b'', 2), (''c'', 7)]"
  have "otm_wf ?l" "otm_wf ?r" by (simp_all add: tm_wf_def)
  from token_map_arithmetic [OF this]
  have "\<forall>k. oqty (addTokenMaps (subtractTokenMaps ?l ?r) ?r) k = oqty ?l k" by (elim conjE)
  from this [THEN spec, of "''b''"]
  show "oqty (addTokenMaps (subtractTokenMaps ?l ?r) ?r) ''b'' = 2" by (simp only: oqty_simps qty_def) simp
  show "subtractTokenMaps ?l ?r = Some [(''a'', 5), (''c'', - 7)]"
    by (simp add: only_in_def tm_has_def qty_def intersection_def js_uniq_def tm_sets_def)
qed

text \<open>C32. Coalescing values keeps the totals: the coin is the sum of the coins, the quantity of every
  asset the sum of its quantities, and the result is a proper map without repeated assets.\<close>

theorem coalesce_keeps_totals:
  assumes "\<forall>v \<in> set vs. value_wf v"
  shows "value_wf (coalesceValueQuantities vs) \<and> v_coins (coalesceValueQuantities vs) = getCoinQuantity vs \<and>
    (\<forall>i. oqty (v_assets (coalesceValueQuantities vs)) i = assetQuantitySelector i vs)"
  using coalesceValueQuantities_assets [OF assms] by simp

theorem coalesce_keeps_totals_witness:
  "oqty (v_assets (coalesceValueQuantities
      [\<lparr>v_coins = 1, v_assets = Some [(''a'', 5), (''b'', 2)]\<rparr>, \<lparr>v_coins = 2, v_assets = None\<rparr>,
       \<lparr>v_coins = 3, v_assets = Some [(''b'', 4)]\<rparr>])) ''b'' = 6"
  using coalesce_keeps_totals [of "[\<lparr>v_coins = 1, v_assets = Some [(''a'', 5), (''b'', 2)]\<rparr>,
      \<lparr>v_coins = 2, v_assets = None\<rparr>, \<lparr>v_coins = 3, v_assets = Some [(''b'', 4)]\<rparr>]"]
  by (simp add: tm_wf_def qty_def)

end
