(* ===== verification/Input_Selection.thy ===== *)
theory Input_Selection
  imports Token_Map
begin

text \<open>
  Input selection: the shared arguments and checks of \<open>input-selection/src/util.ts\<close> and the
  round-robin selection of \<open>RoundRobinRandomImprove/roundRobin.ts\<close>. \<open>Math.random\<close> is a parameter:
  \<open>ri k n\<close> stands for \<open>Math.floor(random() * n)\<close> in the \<open>k\<close>-th call; that it is below \<open>n\<close> is the
  hypothesis \<open>random_ok\<close>, which is what \<open>random() < 1\<close> gives.
\<close>

text \<open>
  Sets of entries, \<open>has\<close> and \<open>indexOf\<close> compare objects, not their contents. So an entry says which objects
  it is made of: \<open>txIn_ref\<close> identifies its \<open>TxIn\<close> object and \<open>utxo_ref\<close> the pair \<open>[TxIn, TxOut]\<close> itself. Two
  entries of the model are equal when they are the same object; a copy has other references. Where
  the code compares contents, the model compares the fields it names.
\<close>

record TxIn =
  txId :: string
  txIndex :: nat
  txIn_ref :: nat
  utxo_ref :: nat

record TxOut =
  out_address :: string
  out_value :: Value

type_synonym utxo = "TxIn \<times> TxOut"

text \<open>The output that an entry spends.\<close>

definition spent_output :: "utxo \<Rightarrow> string \<times> nat" where
  "spent_output u = (txId (fst u), txIndex (fst u))"

type_synonym random_index = "nat \<Rightarrow> nat \<Rightarrow> nat"

record ImplicitCoin =
  ic_deposit :: int
  ic_input :: int
  ic_reclaimDeposit :: int
  ic_withdrawals :: int

text \<open>The optional fields of \<open>Cardano.util.ImplicitCoin\<close> and \<open>ImplicitValue\<close>.\<close>

record PartialImplicitCoin =
  pc_deposit :: "int option"
  pc_input :: "int option"
  pc_reclaimDeposit :: "int option"
  pc_withdrawals :: "int option"

record ImplicitValue =
  iv_coin :: "PartialImplicitCoin option"
  iv_mint :: "token_map option"

record RequiredImplicitValue =
  implicitCoin :: ImplicitCoin
  tokens_input :: "asset_id \<Rightarrow> int"
  tokens_spend :: "asset_id \<Rightarrow> int"

record UtxoSelection =
  utxoSelected :: "utxo list"
  utxoRemaining :: "utxo list"

definition random_ok :: "random_index \<Rightarrow> bool" where
  "random_ok ri \<longleftrightarrow> (\<forall>k n. 0 < n \<longrightarrow> ri k n < n)"

subsection \<open>Arguments\<close>

definition mintToImplicitTokens :: "token_map \<Rightarrow> token_map \<times> token_map" where
  "mintToImplicitTokens mint =
     (tm_sets [] (filter (\<lambda>(_, quantity). 0 < quantity) mint),
      tm_sets [] (map (\<lambda>(assetId, quantity). (assetId, - quantity)) (filter (\<lambda>(_, quantity). quantity < 0) mint)))"

definition or_zero :: "int option \<Rightarrow> int" where
  "or_zero x = (case x of None \<Rightarrow> 0 | Some i \<Rightarrow> i)"

definition utxo_values :: "utxo list \<Rightarrow> Value list" where
  "utxo_values us = map (\<lambda>(_, out). out_value out) us"

definition out_values :: "TxOut list \<Rightarrow> Value list" where
  "out_values outs = map out_value outs"

record PreProcessedArgs =
  pa_requiredUtxo :: "utxo list"
  pa_utxo :: "utxo list"
  pa_outputs :: "TxOut list"
  pa_uniqueTxAssetIDs :: "asset_id list"
  pa_implicitValue :: RequiredImplicitValue

definition requiredImplicitValue :: "ImplicitValue \<Rightarrow> RequiredImplicitValue" where
  "requiredImplicitValue iv =
     (let c = iv_coin iv;
          field = (\<lambda>f. case c of None \<Rightarrow> 0 | Some p \<Rightarrow> or_zero (f p));
          (inp, spend) = mintToImplicitTokens (case iv_mint iv of None \<Rightarrow> [] | Some m \<Rightarrow> m)
      in \<lparr>implicitCoin = \<lparr>ic_deposit = field pc_deposit, ic_input = field pc_input,
            ic_reclaimDeposit = field pc_reclaimDeposit, ic_withdrawals = field pc_withdrawals\<rparr>,
          tokens_input = qty inp, tokens_spend = qty spend\<rparr>)"

definition preProcessArgs :: "utxo list \<Rightarrow> utxo list \<Rightarrow> TxOut list \<Rightarrow> ImplicitValue \<Rightarrow> PreProcessedArgs" where
  "preProcessArgs preSelectedUtxo availableUtxo outputs iv =
     (let mintMap = (case iv_mint iv of None \<Rightarrow> [] | Some m \<Rightarrow> m);
          uniqueOutputAssetIDs = js_uniq (concat (map (\<lambda>v. case v_assets v of None \<Rightarrow> [] | Some m \<Rightarrow> map fst m)
            (out_values outputs)));
          uniqueTxAssetIDs = js_uniq (uniqueOutputAssetIDs @ map fst mintMap)
      in \<lparr>pa_requiredUtxo = preSelectedUtxo, pa_utxo = availableUtxo, pa_outputs = outputs,
          pa_uniqueTxAssetIDs = uniqueTxAssetIDs, pa_implicitValue = requiredImplicitValue iv\<rparr>)"

subsection \<open>Is the balance sufficient?\<close>

definition assertIsCoinBalanceSufficient :: "Value list \<Rightarrow> Value list \<Rightarrow> ImplicitCoin \<Rightarrow> unit result" where
  "assertIsCoinBalanceSufficient utxoValues outputValues c =
     throw_if (getCoinQuantity outputValues + ic_deposit c > getCoinQuantity utxoValues + ic_input c)
       (InputSelectionError UtxoBalanceInsufficient)"

definition assertIsBalanceSufficient ::
    "asset_id list \<Rightarrow> utxo list \<Rightarrow> utxo list \<Rightarrow> TxOut list \<Rightarrow> RequiredImplicitValue \<Rightarrow> unit result" where
  "assertIsBalanceSufficient uniqueTxAssetIDs preSelectedUtxo utxo outputs iv =
     (if length preSelectedUtxo + length utxo = 0 then Inl (InputSelectionError UtxoBalanceInsufficient)
      else
        let utxoValues = utxo_values utxo @ utxo_values preSelectedUtxo;
            outputsValues = out_values outputs
        in ebind (emap (\<lambda>assetId.
             throw_if (assetQuantitySelector assetId outputsValues + tokens_spend iv assetId >
                       assetQuantitySelector assetId utxoValues + tokens_input iv assetId)
               (InputSelectionError UtxoBalanceInsufficient)) uniqueTxAssetIDs) (\<lambda>_.
           assertIsCoinBalanceSufficient utxoValues outputsValues (implicitCoin iv)))"

lemma emap_throw_if: "emap (\<lambda>x. throw_if (P x) e) xs = (if \<exists>x \<in> set xs. P x then Inl e else Inr (map (\<lambda>_. ()) xs))"
  by (induction xs) (auto simp: throw_if_def)

text \<open>The check passes exactly when there is an input and every token and the coin are covered.\<close>

lemma assertIsBalanceSufficient_iff:
  "assertIsBalanceSufficient ids pre us outs iv =
     (if (pre \<noteq> [] \<or> us \<noteq> []) \<and>
         (\<forall>i \<in> set ids. assetQuantitySelector i (out_values outs) + tokens_spend iv i
            \<le> assetQuantitySelector i (utxo_values (pre @ us)) + tokens_input iv i) \<and>
         getCoinQuantity (out_values outs) + ic_deposit (implicitCoin iv)
            \<le> getCoinQuantity (utxo_values (pre @ us)) + ic_input (implicitCoin iv)
      then Inr () else Inl (InputSelectionError UtxoBalanceInsufficient))"
  unfolding assertIsBalanceSufficient_def emap_throw_if assertIsCoinBalanceSufficient_def Let_def
  by (auto simp: throw_if_def utxo_values_def ac_simps not_less not_le)

subsection \<open>Round robin\<close>

text \<open>
  A token that still has to be covered: an asset, or lovelace for \<open>None\<close>. The closures of
  \<open>listTokensWithin\<close> are functions of it.
\<close>

record TokenTarget =
  tok_asset :: "asset_id option"
  tok_implicitInput :: int
  minimumTarget :: int

definition filterUtxo :: "TokenTarget \<Rightarrow> utxo list \<Rightarrow> utxo list" where
  "filterUtxo tok us = (case tok_asset tok of
     None \<Rightarrow> us
   | Some i \<Rightarrow> filter (\<lambda>(_, out). oqty (v_assets (out_value out)) i \<noteq> 0) us)"

definition getTotalSelectedQuantity :: "TokenTarget \<Rightarrow> utxo list \<Rightarrow> int" where
  "getTotalSelectedQuantity tok us = (case tok_asset tok of
     None \<Rightarrow> getCoinQuantity (utxo_values us)
   | Some i \<Rightarrow> assetQuantitySelector i (utxo_values us)) + tok_implicitInput tok"

definition listTokensWithin :: "asset_id list \<Rightarrow> TxOut list \<Rightarrow> RequiredImplicitValue \<Rightarrow> TokenTarget list" where
  "listTokensWithin ids outputs iv =
     map (\<lambda>i. \<lparr>tok_asset = Some i, tok_implicitInput = tokens_input iv i,
               minimumTarget = assetQuantitySelector i (out_values outputs) + tokens_spend iv i\<rparr>) ids
     @ [\<lparr>tok_asset = None, tok_implicitInput = ic_input (implicitCoin iv),
         minimumTarget = getCoinQuantity (out_values outputs) + ic_deposit (implicitCoin iv)\<rparr>]"

definition improvesSelection :: "utxo list \<Rightarrow> utxo \<Rightarrow> int \<Rightarrow> (utxo list \<Rightarrow> int) \<Rightarrow> bool" where
  "improvesSelection utxoAlreadySelected input target getQuantity =
     (let oldQuantity = getQuantity utxoAlreadySelected in
      if oldQuantity < target then True
      else let newQuantity = oldQuantity + getQuantity [input];
               idealTarget = 2 * target;
               newDistance = bigint_abs (idealTarget - newQuantity);
               oldDistance = bigint_abs (idealTarget - oldQuantity)
           in newDistance < oldDistance)"

record RoundRobin =
  rr_tokens :: "TokenTarget list"
  rr_selected :: "utxo list"
  rr_remaining :: "utxo list"
  rr_calls :: nat

text \<open>\<open>tokensRemaining.splice(tokenIdx, 1)\<close>\<close>

definition splice1 :: "nat \<Rightarrow> 'a list \<Rightarrow> 'a list" where
  "splice1 i xs = take i xs @ drop (Suc i) xs"

text \<open>
  One iteration of the inner loop. An index outside the candidates would select \<open>undefined\<close>, on
  which the next access fails.
\<close>

definition rr_step :: "random_index \<Rightarrow> nat \<Rightarrow> RoundRobin \<Rightarrow> RoundRobin result" where
  "rr_step ri tokenIdx s =
     (let tok = rr_tokens s ! tokenIdx; candidates = filterUtxo tok (rr_remaining s) in
      if candidates \<noteq> [] then
        let inputIdx = ri (rr_calls s) (length candidates); s = s\<lparr>rr_calls := Suc (rr_calls s)\<rparr> in
        if length candidates \<le> inputIdx then Inl TypeError
        else
          let input = candidates ! inputIdx in
          if improvesSelection (rr_selected s) input (minimumTarget tok) (getTotalSelectedQuantity tok)
          then Inr (s\<lparr>rr_selected := rr_selected s @ [input], rr_remaining := remove1 input (rr_remaining s)\<rparr>)
          else Inr (s\<lparr>rr_tokens := splice1 tokenIdx (rr_tokens s)\<rparr>)
      else Inr (s\<lparr>rr_tokens := splice1 tokenIdx (rr_tokens s)\<rparr>))"

text \<open>
  \<open>for (const [tokenIdx, \<dots>] of tokensRemaining.entries())\<close>: the iterator is live, so after a
  \<open>splice\<close> the element that moved into the free place is skipped in this pass.
\<close>

lemma length_splice1 [simp]: "i < length xs \<Longrightarrow> length (splice1 i xs) = length xs - 1"
  by (simp add: splice1_def)

lemma filterUtxo_subset: "set (filterUtxo tok us) \<subseteq> set us"
  by (auto simp: filterUtxo_def split: option.splits)

definition rr_size :: "RoundRobin \<Rightarrow> nat" where
  "rr_size s = length (rr_tokens s) + length (rr_remaining s)"

lemma rr_step_size:
  assumes "rr_step ri i s = Inr s'" and "i < length (rr_tokens s)"
  shows "rr_size s' < rr_size s" and "length (rr_tokens s') \<le> length (rr_tokens s)"
proof -
  have "length (remove1 (filterUtxo tok us ! j) us) < length us" if "j < length (filterUtxo tok us)" for tok us j
  proof -
    have "filterUtxo tok us ! j \<in> set us" using that filterUtxo_subset nth_mem by blast
    from length_pos_if_in_set [OF this] this show ?thesis by (simp add: length_remove1)
  qed
  with assms show "rr_size s' < rr_size s"
    by (auto simp: rr_step_def rr_size_def Let_def not_le split: if_splits)
  show "length (rr_tokens s') \<le> length (rr_tokens s)"
    using assms by (auto simp: rr_step_def Let_def split: if_splits)
qed

function rr_for :: "random_index \<Rightarrow> nat \<Rightarrow> RoundRobin \<Rightarrow> RoundRobin result" where
  "rr_for ri i s =
     (if i < length (rr_tokens s) then ebind (rr_step ri i s) (rr_for ri (Suc i)) else Inr s)"
  by pat_completeness auto
termination
  by (relation "measure (\<lambda>(ri, i, s). length (rr_tokens s) - i)") (auto dest: rr_step_size(2))

declare rr_for.simps [simp del]

lemma rr_for_size: "rr_for ri i s = Inr s' \<Longrightarrow> rr_size s' \<le> rr_size s"
proof (induction ri i s rule: rr_for.induct)
  case (1 ri i s)
  from "1.prems" show ?case
    apply (subst (asm) rr_for.simps)
    using "1.IH" by (fastforce split: if_splits dest: rr_step_size(1))
qed

lemma rr_for_size_less:
  assumes "rr_for ri 0 s = Inr s'" and "rr_tokens s \<noteq> []"
  shows "rr_size s' < rr_size s"
proof -
  obtain s1 where "rr_step ri 0 s = Inr s1" "rr_for ri (Suc 0) s1 = Inr s'"
    using assms by (subst (asm) rr_for.simps) auto
  with assms(2) show ?thesis using rr_step_size(1) [of ri 0 s s1] rr_for_size by fastforce
qed

function rr_while :: "random_index \<Rightarrow> RoundRobin \<Rightarrow> RoundRobin result" where
  "rr_while ri s = (if rr_tokens s = [] then Inr s else ebind (rr_for ri 0 s) (rr_while ri))"
  by pat_completeness auto
termination
  by (relation "measure (\<lambda>(ri, s). rr_size s)") (auto dest: rr_for_size_less)

declare rr_while.simps [simp del]

text \<open>The number of calls of \<open>random\<close> is returned with the selection.\<close>

definition roundRobinSelection ::
    "random_index \<Rightarrow> utxo list \<Rightarrow> utxo list \<Rightarrow> TxOut list \<Rightarrow> asset_id list \<Rightarrow> RequiredImplicitValue \<Rightarrow>
     (UtxoSelection \<times> nat) result" where
  "roundRobinSelection ri requiredUtxo utxo outputs ids iv =
     ebind (rr_while ri \<lparr>rr_tokens = listTokensWithin ids outputs iv, rr_selected = requiredUtxo,
                         rr_remaining = utxo, rr_calls = 0\<rparr>) (\<lambda>s.
       if rr_selected s = [] then
         (case rr_remaining s of
            [] \<Rightarrow> Inl TypeError
          | u # us \<Rightarrow> Inr (\<lparr>utxoSelected = [u], utxoRemaining = us\<rparr>, rr_calls s))
       else Inr (\<lparr>utxoSelected = rr_selected s, utxoRemaining = rr_remaining s\<rparr>, rr_calls s))"

subsection \<open>The selection covers the outputs\<close>

definition value_nonneg :: "Value \<Rightarrow> bool" where
  "value_nonneg v \<longleftrightarrow> 0 \<le> v_coins v \<and> (\<forall>i. 0 \<le> oqty (v_assets v) i)"

abbreviation utxo_nonneg :: "utxo \<Rightarrow> bool" where
  "utxo_nonneg u \<equiv> value_nonneg (out_value (snd u))"

lemma utxo_values_simps [simp]:
  "utxo_values [] = []" "utxo_values (u # us) = out_value (snd u) # utxo_values us"
  "utxo_values (us @ vs) = utxo_values us @ utxo_values vs"
  by (simp_all add: utxo_values_def case_prod_beta)

lemma mset_utxo_values: "mset us = mset vs \<Longrightarrow> mset (utxo_values us) = mset (utxo_values vs)"
  by (simp add: utxo_values_def)

lemma total_mset:
  "mset us = mset vs \<Longrightarrow> getTotalSelectedQuantity tok us = getTotalSelectedQuantity tok vs"
  using quantity_mset_cong [OF mset_utxo_values, of us vs]
  by (simp add: getTotalSelectedQuantity_def split: option.split)

lemma total_snoc_mono:
  "utxo_nonneg u \<Longrightarrow> getTotalSelectedQuantity tok us \<le> getTotalSelectedQuantity tok (us @ [u])"
  by (auto simp: getTotalSelectedQuantity_def value_nonneg_def split: option.split)

lemma total_no_candidates:
  "filterUtxo tok vs = [] \<Longrightarrow> getTotalSelectedQuantity tok (us @ vs) = getTotalSelectedQuantity tok us"
proof (cases "tok_asset tok")
  case (Some i)
  assume "filterUtxo tok vs = []"
  with Some have "\<forall>u \<in> set vs. oqty (v_assets (out_value (snd u))) i = 0"
    by (auto simp: filterUtxo_def filter_empty_conv case_prod_beta)
  then have "assetQuantitySelector i (utxo_values vs) = 0"
    by (induction vs) simp_all
  with Some show ?thesis by (simp add: getTotalSelectedQuantity_def)
qed (simp add: filterUtxo_def getTotalSelectedQuantity_def)

text \<open>
  The loop invariant: the selected and the remaining entries are the initial ones, and a token that
  is no longer considered is covered. \<open>all\<close> are the initial entries, \<open>toks\<close> the tokens to cover.
\<close>

definition rr_inv :: "utxo list \<Rightarrow> utxo list \<Rightarrow> TokenTarget list \<Rightarrow> RoundRobin \<Rightarrow> bool" where
  "rr_inv req us toks s \<longleftrightarrow>
     mset (rr_selected s) + mset (rr_remaining s) = mset req + mset us \<and>
     mset req \<subseteq># mset (rr_selected s) \<and> set (rr_tokens s) \<subseteq> set toks \<and>
     (\<forall>tok \<in> set toks. tok \<in> set (rr_tokens s) \<or> minimumTarget tok \<le> getTotalSelectedQuantity tok (rr_selected s))"

lemma set_splice1: "i < length xs \<Longrightarrow> set xs \<subseteq> insert (xs ! i) (set (splice1 i xs))"
  using id_take_nth_drop [of i xs] set_append [of "take i xs" "xs ! i # drop (Suc i) xs"]
  by (auto simp: splice1_def)

lemma set_splice1_subset: "set (splice1 i xs) \<subseteq> set xs"
  by (auto simp: splice1_def dest: in_set_takeD in_set_dropD)

lemma improves_covered:
  "\<not> improvesSelection us u (minimumTarget tok) (getTotalSelectedQuantity tok) \<Longrightarrow>
   minimumTarget tok \<le> getTotalSelectedQuantity tok us"
  by (auto simp: improvesSelection_def Let_def split: if_splits)

lemma rr_inv_splice:
  assumes "rr_inv req us toks s" and "i < length (rr_tokens s)"
    and "minimumTarget (rr_tokens s ! i) \<le> getTotalSelectedQuantity (rr_tokens s ! i) (rr_selected s)"
  shows "rr_inv req us toks (s\<lparr>rr_calls := k, rr_tokens := splice1 i (rr_tokens s)\<rparr>)"
  using assms set_splice1 [OF assms(2)] set_splice1_subset [of i "rr_tokens s"]
  by (auto simp: rr_inv_def)

lemma rr_inv_select:
  assumes "rr_inv req us toks s" and "u \<in> set (rr_remaining s)" and "\<forall>u \<in> set (req @ us). utxo_nonneg u"
  shows "rr_inv req us toks (s\<lparr>rr_calls := k, rr_selected := rr_selected s @ [u],
    rr_remaining := remove1 u (rr_remaining s)\<rparr>)"
proof -
  have "u \<in># mset req + mset us"
    using assms(1,2) unfolding rr_inv_def by (metis set_mset_mset union_iff)
  with assms(3) have "utxo_nonneg u" by auto
  then have "getTotalSelectedQuantity tok (rr_selected s) \<le> getTotalSelectedQuantity tok (rr_selected s @ [u])" for tok
    by (rule total_snoc_mono)
  moreover have "mset req \<subseteq># mset (rr_selected s) + {#u#}"
    using assms(1) by (auto simp: rr_inv_def intro: subset_mset.trans)
  moreover have "mset (rr_selected s) + {#u#} + mset (remove1 u (rr_remaining s)) = mset req + mset us"
    using assms(1,2) \<open>u \<in># mset req + mset us\<close> by (simp add: rr_inv_def)
  ultimately show ?thesis
    using assms(1) unfolding rr_inv_def by (simp del: mset_remove1) (meson order_trans)
qed

lemma rr_step_inv:
  assumes "random_ok ri" and "\<forall>u \<in> set (req @ us). utxo_nonneg u" and "rr_inv req us toks s"
    and "i < length (rr_tokens s)"
    and covered: "\<forall>tok \<in> set toks. minimumTarget tok \<le> getTotalSelectedQuantity tok (req @ us)"
  shows "\<exists>s'. rr_step ri i s = Inr s' \<and> rr_inv req us toks s'"
proof -
  let ?tok = "rr_tokens s ! i" and ?c = "filterUtxo (rr_tokens s ! i) (rr_remaining s)"
  have tok: "?tok \<in> set toks" using assms(3,4) by (auto simp: rr_inv_def)
  show ?thesis
  proof (cases "?c = []")
    case True
    have "getTotalSelectedQuantity ?tok (rr_selected s) = getTotalSelectedQuantity ?tok (req @ us)"
      using total_no_candidates [OF True] total_mset [of "rr_selected s @ rr_remaining s" "req @ us"] assms(3)
      by (metis mset_append rr_inv_def)
    with covered tok have "minimumTarget ?tok \<le> getTotalSelectedQuantity ?tok (rr_selected s)" by simp
    from rr_inv_splice [OF assms(3,4) this, of "rr_calls s"] True show ?thesis
      by (simp add: rr_step_def Let_def)
  next
    case False
    let ?u = "?c ! ri (rr_calls s) (length ?c)"
    have idx: "ri (rr_calls s) (length ?c) < length ?c" using assms(1) False by (simp add: random_ok_def)
    then have "?u \<in> set (rr_remaining s)" using filterUtxo_subset nth_mem by blast
    from rr_inv_select [OF assms(3) this assms(2), of "Suc (rr_calls s)"]
      rr_inv_splice [OF assms(3,4) improves_covered, of ?u "Suc (rr_calls s)"] False idx
    show ?thesis by (auto simp: rr_step_def Let_def)
  qed
qed

lemma rr_for_inv:
  assumes "random_ok ri" and "\<forall>u \<in> set (req @ us). utxo_nonneg u"
    and "\<forall>tok \<in> set toks. minimumTarget tok \<le> getTotalSelectedQuantity tok (req @ us)"
  shows "rr_inv req us toks s \<Longrightarrow> \<exists>s'. rr_for ri i s = Inr s' \<and> rr_inv req us toks s'"
  using assms(1)
proof (induction ri i s rule: rr_for.induct)
  case (1 ri i s)
  show ?case
  proof (cases "i < length (rr_tokens s)")
    case True
    with rr_step_inv [OF "1.prems"(2) assms(2) "1.prems"(1) True assms(3)] "1.IH" [OF True] "1.prems"
    show ?thesis by (subst rr_for.simps) auto
  next
    case False
    with "1.prems" show ?thesis by (subst rr_for.simps) auto
  qed
qed

lemma rr_while_inv:
  assumes "random_ok ri" and "\<forall>u \<in> set (req @ us). utxo_nonneg u"
    and "\<forall>tok \<in> set toks. minimumTarget tok \<le> getTotalSelectedQuantity tok (req @ us)"
  shows "rr_inv req us toks s \<Longrightarrow> \<exists>s'. rr_while ri s = Inr s' \<and> rr_inv req us toks s' \<and> rr_tokens s' = []"
  using assms(1)
proof (induction ri s rule: rr_while.induct)
  case (1 ri s)
  show ?case
  proof (cases "rr_tokens s = []")
    case True
    with "1.prems" show ?thesis by (subst rr_while.simps) auto
  next
    case False
    with rr_for_inv [OF "1.prems"(2) assms(2,3) "1.prems"(1), of 0] "1.IH" [OF False] "1.prems"
    show ?thesis by (subst rr_while.simps) auto
  qed
qed

text \<open>What it means for a selection to pay for the outputs.\<close>

definition covers :: "utxo list \<Rightarrow> Value list \<Rightarrow> asset_id list \<Rightarrow> RequiredImplicitValue \<Rightarrow> bool" where
  "covers us outs ids iv \<longleftrightarrow>
     getCoinQuantity outs + ic_deposit (implicitCoin iv) \<le> getCoinQuantity (utxo_values us) + ic_input (implicitCoin iv) \<and>
     (\<forall>i \<in> set ids. assetQuantitySelector i outs + tokens_spend iv i
        \<le> assetQuantitySelector i (utxo_values us) + tokens_input iv i)"

lemma covers_tokens:
  "(\<forall>tok \<in> set (listTokensWithin ids outs iv). minimumTarget tok \<le> getTotalSelectedQuantity tok us) \<longleftrightarrow>
   covers us (out_values outs) ids iv"
  by (auto simp: listTokensWithin_def getTotalSelectedQuantity_def covers_def)

lemma covers_mono:
  assumes "covers us outs ids iv" and "utxo_nonneg u"
  shows "covers (us @ [u]) outs ids iv"
proof -
  have "0 \<le> v_coins (out_value (snd u))" "\<And>i. 0 \<le> oqty (v_assets (out_value (snd u))) i"
    using assms(2) by (simp_all add: value_nonneg_def)
  with assms(1) show ?thesis by (simp add: covers_def add.assoc [symmetric] add_increasing2 add_mono) (smt (verit))
qed

lemma assert_covers:
  "assertIsBalanceSufficient ids pre us outs iv = Inr () \<longleftrightarrow>
     (pre \<noteq> [] \<or> us \<noteq> []) \<and> covers (pre @ us) (out_values outs) ids iv"
  by (auto simp: assertIsBalanceSufficient_iff covers_def split: if_splits)

lemma roundRobinSelection_covers:
  assumes "random_ok ri" and "\<forall>u \<in> set (req @ us). utxo_nonneg u"
    and "assertIsBalanceSufficient ids req us outs iv = Inr ()"
  shows "\<exists>sel k. roundRobinSelection ri req us outs ids iv = Inr (sel, k) \<and>
    covers (utxoSelected sel) (out_values outs) ids iv \<and> utxoSelected sel \<noteq> [] \<and>
    mset req \<subseteq># mset (utxoSelected sel) \<and>
    mset (utxoSelected sel) + mset (utxoRemaining sel) = mset req + mset us"
proof -
  let ?toks = "listTokensWithin ids outs iv"
  let ?s = "\<lparr>rr_tokens = ?toks, rr_selected = req, rr_remaining = us, rr_calls = 0\<rparr>"
  have ne: "req \<noteq> [] \<or> us \<noteq> []" and cov: "covers (req @ us) (out_values outs) ids iv"
    using assms(3) by (auto simp: assert_covers)
  have "rr_inv req us ?toks ?s" by (simp add: rr_inv_def)
  from rr_while_inv [OF assms(1,2) cov [folded covers_tokens] this]
  obtain s where s: "rr_while ri ?s = Inr s" "rr_inv req us ?toks s" "rr_tokens s = []" by blast
  have "covers (rr_selected s) (out_values outs) ids iv"
    using s(2,3) unfolding covers_tokens [symmetric] rr_inv_def by auto
  moreover have "rr_remaining s \<noteq> []" if "rr_selected s = []"
    using s(2) ne that by (auto simp: rr_inv_def)
  moreover have "utxo_nonneg (hd (rr_remaining s))" if "rr_selected s = []" "rr_remaining s \<noteq> []"
  proof -
    have "hd (rr_remaining s) \<in># mset req + mset us"
      using s(2) that by (metis hd_in_set rr_inv_def set_mset_mset union_iff)
    with assms(2) show ?thesis by auto
  qed
  ultimately show ?thesis
    using s covers_mono [of "[]" "out_values outs" ids iv "hd (rr_remaining s)"]
    by (auto simp: roundRobinSelection_def rr_inv_def split: list.split)
qed

subsection \<open>Properties\<close>

text \<open>C2. Round-robin selection returns whenever the balance check passed, whatever the random numbers:
  the loop ends, the selected inputs cover every requested asset and the coin with the deposits
  (mint and withdrawals counted as input), there is at least one input, every required input is
  selected, and the selected and remaining entries together are the given ones, none lost and none
  taken twice.\<close>

theorem round_robin_selection_sufficient:
  assumes "random_ok ri" and "\<forall>u \<in> set (req @ us). utxo_nonneg u"
    and "assertIsBalanceSufficient ids req us outs iv = Inr ()"
  shows "\<exists>sel k. roundRobinSelection ri req us outs ids iv = Inr (sel, k) \<and>
    (\<forall>i \<in> set ids. assetQuantitySelector i (out_values outs) + tokens_spend iv i
       \<le> assetQuantitySelector i (utxo_values (utxoSelected sel)) + tokens_input iv i) \<and>
    getCoinQuantity (out_values outs) + ic_deposit (implicitCoin iv)
       \<le> getCoinQuantity (utxo_values (utxoSelected sel)) + ic_input (implicitCoin iv) \<and>
    utxoSelected sel \<noteq> [] \<and> mset req \<subseteq># mset (utxoSelected sel) \<and>
    mset (utxoSelected sel) + mset (utxoRemaining sel) = mset req + mset us"
  using roundRobinSelection_covers [OF assms] by (simp add: covers_def) blast

theorem round_robin_selection_sufficient_witness:
  "\<exists>sel k. roundRobinSelection (\<lambda>k n. 0) []
     [(\<lparr>txId = ''x'', txIndex = 0, txIn_ref = 0, utxo_ref = 0\<rparr>, \<lparr>out_address = ''addr'', out_value = \<lparr>v_coins = 10, v_assets = Some [(''a'', 3)]\<rparr>\<rparr>),
      (\<lparr>txId = ''x'', txIndex = 1, txIn_ref = 1, utxo_ref = 1\<rparr>, \<lparr>out_address = ''addr'', out_value = \<lparr>v_coins = 7, v_assets = None\<rparr>\<rparr>)]
     [\<lparr>out_address = ''b'', out_value = \<lparr>v_coins = 4, v_assets = Some [(''a'', 2)]\<rparr>\<rparr>] [''a'']
     (requiredImplicitValue \<lparr>iv_coin = None, iv_mint = None\<rparr>) = Inr (sel, k) \<and> utxoSelected sel \<noteq> []"
proof -
  let ?us = "[(\<lparr>txId = ''x'', txIndex = 0, txIn_ref = 0, utxo_ref = 0\<rparr>, \<lparr>out_address = ''addr'', out_value = \<lparr>v_coins = 10, v_assets = Some [(''a'', 3)]\<rparr>\<rparr>),
      (\<lparr>txId = ''x'', txIndex = 1, txIn_ref = 1, utxo_ref = 1\<rparr>, \<lparr>out_address = ''addr'', out_value = \<lparr>v_coins = 7, v_assets = None\<rparr>\<rparr>)]"
  let ?outs = "[\<lparr>out_address = ''b'', out_value = \<lparr>v_coins = 4, v_assets = Some [(''a'', 2)]\<rparr>\<rparr>]"
  let ?iv = "requiredImplicitValue \<lparr>iv_coin = None, iv_mint = None\<rparr>"
  have "random_ok (\<lambda>k n. 0)" by (simp add: random_ok_def)
  moreover have "\<forall>u \<in> set ([] @ ?us). utxo_nonneg u" by (auto simp: value_nonneg_def qty_def)
  moreover have "assertIsBalanceSufficient [''a''] [] ?us ?outs ?iv = Inr ()"
    by (simp add: assertIsBalanceSufficient_iff out_values_def requiredImplicitValue_def mintToImplicitTokens_def
        tm_sets_def qty_def)
  ultimately show ?thesis using round_robin_selection_sufficient [of "\<lambda>k n. 0" "[]" ?us "[''a'']" ?outs ?iv]
    by blast
qed

end
