(* ===== verification/Change.thy ===== *)
theory Change
  imports Input_Selection
begin

text \<open>
  Change and fee (\<open>input-selection/src/change.ts\<close>): the change bundles for a selection, coalesced
  until each has the minimum coin quantity and split when a token bundle is too large, and the loop
  that adds inputs until the fee is covered. The callbacks of the selection constraints and the
  transaction cost estimate are parameters: \<open>minCoin\<close> is \<open>computeMinimumCoinQuantity\<close> on an output
  at the stub address, \<open>exceeds\<close> is \<open>tokenBundleSizeExceedsLimit\<close>, \<open>estimate\<close> is
  \<open>estimateTxCosts\<close>.
\<close>

type_synonym min_coin = "Value \<Rightarrow> int"
type_synonym exceeds_limit = "token_map \<Rightarrow> bool"
type_synonym 'r estimate_costs = "utxo list \<Rightarrow> Value list \<Rightarrow> (int \<times> 'r) result"

subsection \<open>Leftover assets\<close>

text \<open>\<open>leftovers.set(assetKey, [...assetLeftovers, quantity])\<close>\<close>

fun leftovers_add :: "asset_id \<Rightarrow> int \<Rightarrow> (asset_id \<times> int list) list \<Rightarrow> (asset_id \<times> int list) list" where
  "leftovers_add k q [] = [(k, [q])]"
| "leftovers_add k q ((k', qs) # m) = (if k' = k then (k', qs @ [q]) # m else (k', qs) # leftovers_add k q m)"

definition getLeftoverAssets :: "utxo list \<Rightarrow> asset_id list \<Rightarrow> (asset_id \<times> int list) list" where
  "getLeftoverAssets us ids =
     foldl (\<lambda>leftovers (_, out). case v_assets (out_value out) of
         None \<Rightarrow> leftovers
       | Some m \<Rightarrow> foldl (\<lambda>leftovers (k, q). if k \<in> set ids \<or> q = 0 then leftovers else leftovers_add k q leftovers)
                     leftovers m) [] us"

text \<open>\<open>while (quantities.length > resultBundles.length)\<close>: there is at least one bundle.\<close>

function coalesceSmallest :: "nat \<Rightarrow> int list \<Rightarrow> int list" where
  "coalesceSmallest n qs =
     (if 0 < n \<and> n < length qs
      then coalesceSmallest n (butlast (butlast qs) @ [last (butlast qs) + last qs]) else qs)"
  by pat_completeness auto
termination
  by (relation "measure (\<lambda>(n, qs). length qs)") auto

declare coalesceSmallest.simps [simp del]

definition assets_or_empty :: "Value \<Rightarrow> token_map" where
  "assets_or_empty v = (case v_assets v of None \<Rightarrow> [] | Some m \<Rightarrow> m)"

fun distribute :: "asset_id \<Rightarrow> int list \<Rightarrow> Value list \<Rightarrow> Value list" where
  "distribute k (q # qs) (b # bs) =
     \<lparr>v_coins = v_coins b, v_assets = Some (tm_sets [] (assets_or_empty b @ [(k, q)]))\<rparr> # distribute k qs bs"
| "distribute k [] bs = bs"
| "distribute k qs [] = []"

definition redistributeLeftoverAssets :: "utxo list \<Rightarrow> Value list \<Rightarrow> asset_id list \<Rightarrow> Value list" where
  "redistributeLeftoverAssets us bundles ids =
     foldl (\<lambda>bundles (k, qs).
         let quantities = sort_desc (\<lambda>q. q) qs;
             bundles = (if bundles = [] then [\<lparr>v_coins = 0, v_assets = None\<rparr>] else bundles)
         in distribute k (coalesceSmallest (length bundles) quantities) bundles)
       bundles (getLeftoverAssets us ids)"

subsection \<open>Change for the requested assets\<close>

text \<open>Division of \<open>bigint\<close>s truncates towards zero and throws on a zero divisor.\<close>

definition bigint_div :: "int \<Rightarrow> int \<Rightarrow> int result" where
  "bigint_div a b = (if b = 0 then Inl RangeError else Inr (sgn a * sgn b * (\<bar>a\<bar> div \<bar>b\<bar>)))"

record Bundled =
  bd_bundles :: "Value list"
  totalAssetsBundled :: token_map
  totalCoinBundled :: int

text \<open>\<open>assetTotals\<close> maps an asset to what is selected and what is requested of it.\<close>

type_synonym asset_totals = "asset_id \<Rightarrow> (int \<times> int) option"

definition bundleAsset ::
    "asset_totals \<Rightarrow> token_map \<times> token_map \<Rightarrow> asset_id \<times> int \<Rightarrow> (token_map \<times> token_map) result" where
  "bundleAsset assetTotals s e = (case (s, e) of ((bundled, m), (assetId, outputAmount)) \<Rightarrow>
     (case assetTotals assetId of
        None \<Rightarrow> Inl TypeError
      | Some (selected, requested) \<Rightarrow>
          ebind (bigint_div ((selected - requested) * outputAmount) selected) (\<lambda>assetChange.
            Inr (tm_set assetId (qty bundled assetId + assetChange) bundled, tm_set assetId assetChange m))))"

definition bundleOutput :: "int \<Rightarrow> int \<Rightarrow> asset_totals \<Rightarrow> Bundled \<Rightarrow> Value \<Rightarrow> Bundled result" where
  "bundleOutput coinTotalRequested coinChangeTotal assetTotals s v =
     ebind (if 0 < coinTotalRequested then bigint_div (coinChangeTotal * v_coins v) coinTotalRequested
            else Inr 0) (\<lambda>coins.
       (case v_assets v of
          None \<Rightarrow> Inr (s\<lparr>bd_bundles := bd_bundles s @ [\<lparr>v_coins = coins, v_assets = None\<rparr>],
                        totalCoinBundled := totalCoinBundled s + coins\<rparr>)
        | Some m \<Rightarrow>
            ebind (efoldl (bundleAsset assetTotals) (totalAssetsBundled s, []) m) (\<lambda>(bundled, assets).
              Inr (s\<lparr>bd_bundles := bd_bundles s @ [\<lparr>v_coins = coins, v_assets = Some assets\<rparr>],
                     totalCoinBundled := totalCoinBundled s + coins, totalAssetsBundled := bundled\<rparr>))))"

definition createBundlePerOutput :: "Value list \<Rightarrow> int \<Rightarrow> int \<Rightarrow> asset_totals \<Rightarrow> Bundled result" where
  "createBundlePerOutput outputValues coinTotalRequested coinChangeTotal assetTotals =
     efoldl (bundleOutput coinTotalRequested coinChangeTotal assetTotals)
       \<lparr>bd_bundles = [], totalAssetsBundled = [], totalCoinBundled = 0\<rparr> outputValues"

text \<open>lodash \<open>minBy\<close>: the position of the first minimal element.\<close>

fun min_index :: "('a \<Rightarrow> nat) \<Rightarrow> 'a list \<Rightarrow> nat" where
  "min_index f (x # y # ys) = (let i = min_index f (y # ys) in if f ((y # ys) ! i) < f x then Suc i else 0)"
| "min_index f xs = 0"

fun find_index :: "('a \<Rightarrow> bool) \<Rightarrow> 'a list \<Rightarrow> nat option" where
  "find_index P [] = None"
| "find_index P (x # xs) = (if P x then Some 0 else map_option Suc (find_index P xs))"

text \<open>The bundle that gets what integer division lost of an asset, and \<open>smallestBundleTokenMap\<close>.\<close>

definition smallestBundleTokenMap :: "Value list \<Rightarrow> nat \<times> Value list" where
  "smallestBundleTokenMap bundles =
     (if bundles = [] then (0, [\<lparr>v_coins = 0, v_assets = Some []\<rparr>])
      else (min_index (\<lambda>v. length (assets_or_empty v)) bundles, bundles))"

definition addAssetLost :: "asset_id \<Rightarrow> int \<Rightarrow> Value list \<Rightarrow> Value list" where
  "addAssetLost assetId assetLost bundles =
     (let (i, bundles) = (case find_index (\<lambda>v. tm_has (assets_or_empty v) assetId) bundles of
            Some i \<Rightarrow> (i, bundles)
          | None \<Rightarrow> smallestBundleTokenMap bundles);
          m = assets_or_empty (bundles ! i)
      in bundles[i := (bundles ! i)\<lparr>v_assets := Some (tm_set assetId (qty m assetId + assetLost) m)\<rparr>])"

definition computeRequestedAssetChangeBundles ::
    "utxo list \<Rightarrow> Value list \<Rightarrow> asset_id list \<Rightarrow> RequiredImplicitValue \<Rightarrow> int \<Rightarrow> Value list result" where
  "computeRequestedAssetChangeBundles us outputValues ids iv fee =
     (let requested = (\<lambda>i. assetQuantitySelector i outputValues + tokens_spend iv i);
          selected = (\<lambda>i. assetQuantitySelector i (utxo_values us) + tokens_input iv i);
          assetTotals = (\<lambda>i. if i \<in> set ids then Some (selected i, requested i) else None);
          coinTotalSelected = getCoinQuantity (utxo_values us) + ic_input (implicitCoin iv);
          coinTotalRequested = getCoinQuantity outputValues + fee + ic_deposit (implicitCoin iv);
          coinChangeTotal = coinTotalSelected - coinTotalRequested
      in ebind (createBundlePerOutput outputValues coinTotalRequested coinChangeTotal assetTotals) (\<lambda>b.
         let coinLost = coinChangeTotal - totalCoinBundled b;
             bundles = (if 0 < coinLost then
                 (case bd_bundles b of
                    [] \<Rightarrow> [\<lparr>v_coins = coinLost, v_assets = None\<rparr>]
                  | v # vs \<Rightarrow> v\<lparr>v_coins := v_coins v + coinLost\<rparr> # vs)
               else bd_bundles b)
         in Inr (foldl (\<lambda>bundles i.
              let assetLost = selected i - requested i - qty (totalAssetsBundled b) i
              in if 0 < assetLost then addAssetLost i assetLost bundles else bundles) bundles ids)))"

subsection \<open>Minimum coin quantity\<close>

definition mergeWithSmallestBundle :: "Value list \<Rightarrow> nat \<Rightarrow> Value list" where
  "mergeWithSmallestBundle values index =
     (let toBeMerged = values ! index; result = splice1 index values in
      if result = [] then [toBeMerged]
      else sort_desc v_coins (butlast result @ [coalesceValueQuantities [toBeMerged, last result]]))"

text \<open>The highest index of a bundle below the minimum.\<close>

definition lastUnsatisfied :: "min_coin \<Rightarrow> Value list \<Rightarrow> nat option" where
  "lastUnsatisfied minCoin bs =
     map_option (\<lambda>i. length bs - 1 - i) (find_index (\<lambda>v. v_coins v < minCoin v) (rev bs))"

lemma find_index_less: "find_index P xs = Some i \<Longrightarrow> i < length xs \<and> P (xs ! i)"
  by (induction xs arbitrary: i) (auto split: if_splits)

lemma find_index_None: "find_index P xs = None \<longleftrightarrow> (\<forall>x \<in> set xs. \<not> P x)"
  by (induction xs) auto

lemma lastUnsatisfied_less: "lastUnsatisfied mc bs = Some i \<Longrightarrow> i < length bs"
  by (auto simp: lastUnsatisfied_def dest!: find_index_less)

lemma length_mergeWithSmallestBundle:
  "i < length bs \<Longrightarrow> 1 < length bs \<Longrightarrow> length (mergeWithSmallestBundle bs i) = length bs - 1"
  by (auto simp: mergeWithSmallestBundle_def Let_def splice1_def)

function coalesceLoop :: "min_coin \<Rightarrow> Value list \<Rightarrow> Value list" where
  "coalesceLoop minCoin bs =
     (if 1 < length bs then
        (case lastUnsatisfied minCoin bs of
           None \<Rightarrow> bs
         | Some i \<Rightarrow> coalesceLoop minCoin (mergeWithSmallestBundle bs i))
      else bs)"
  by pat_completeness auto
termination
  by (relation "measure (\<lambda>(mc, bs). length bs)")
    (auto simp: length_mergeWithSmallestBundle dest: lastUnsatisfied_less)

declare coalesceLoop.simps [simp del]

definition coalesceChangeBundlesForMinCoinRequirement :: "Value list \<Rightarrow> min_coin \<Rightarrow> Value list option" where
  "coalesceChangeBundlesForMinCoinRequirement changeBundles minCoin =
     (if changeBundles = [] then Some changeBundles
      else
        let positive = map (\<lambda>v. v\<lparr>v_assets := map_option (filter (\<lambda>(_, q). 0 < q)) (v_assets v)\<rparr>) changeBundles;
            sortedBundles = coalesceLoop minCoin (sort_desc v_coins positive)
        in if v_coins (sortedBundles ! 0) < minCoin (sortedBundles ! 0) then None
           else Some (filter (\<lambda>v. 0 < v_coins v \<or> 0 < length (assets_or_empty v)) sortedBundles))"

subsection \<open>Token bundle size\<close>

definition tm_delete :: "asset_id \<Rightarrow> token_map \<Rightarrow> token_map" where
  "tm_delete k m = filter (\<lambda>(k', _). k' \<noteq> k) m"

definition splitAsset ::
    "exceeds_limit \<Rightarrow> token_map list \<times> token_map \<Rightarrow> asset_id \<times> int \<Rightarrow> token_map list \<times> token_map" where
  "splitAsset exceeds s e = (case (s, e) of ((newValues, cur), (assetId, quantity)) \<Rightarrow>
     let cur' = tm_set assetId quantity cur in
     if exceeds cur' \<and> 1 < length cur' then (newValues @ [tm_delete assetId cur'], [(assetId, quantity)])
     else (newValues, cur'))"

definition splitBundle :: "min_coin \<Rightarrow> exceeds_limit \<Rightarrow> Value \<Rightarrow> Value list result" where
  "splitBundle minCoin exceeds bundle =
     (let coins = v_coins bundle; m = assets_or_empty bundle in
      if m = [] \<or> \<not> exceeds m then Inr [bundle]
      else
        let (done, cur) = foldl (splitAsset exceeds) ([], []) m;
            newValues = map (\<lambda>m. let v = \<lparr>v_coins = 0, v_assets = Some m\<rparr> in v\<lparr>v_coins := minCoin v\<rparr>) (done @ [cur]);
            totalMinCoin = bigint_sum (map v_coins newValues)
        in if coins < totalMinCoin then Inl (InputSelectionError UtxoFullyDepleted)
           else Inr (case newValues of
               [] \<Rightarrow> []
             | v # vs \<Rightarrow> v\<lparr>v_coins := v_coins v + (coins - totalMinCoin)\<rparr> # vs))"

definition splitChangeIfTokenBundlesSizeExceedsLimit ::
    "Value list \<Rightarrow> min_coin \<Rightarrow> exceeds_limit \<Rightarrow> Value list result" where
  "splitChangeIfTokenBundlesSizeExceedsLimit changeBundles minCoin exceeds =
     ebind (emap (splitBundle minCoin exceeds) changeBundles) (\<lambda>vss. Inr (concat vss))"

definition validateChangeBundles :: "Value list \<Rightarrow> exceeds_limit \<Rightarrow> Value list result" where
  "validateChangeBundles changeBundles exceeds =
     ebind (emap (\<lambda>v. throw_if (case v_assets v of None \<Rightarrow> False | Some m \<Rightarrow> exceeds m)
       (InputSelectionError UtxoFullyDepleted)) changeBundles) (\<lambda>_. Inr changeBundles)"

subsection \<open>Change for a fee\<close>

text \<open>\<open>None\<close> is the result \<open>false\<close>: the change does not reach the minimum coin quantity.\<close>

definition computeChangeBundles ::
    "UtxoSelection \<Rightarrow> Value list \<Rightarrow> asset_id list \<Rightarrow> RequiredImplicitValue \<Rightarrow> min_coin \<Rightarrow> exceeds_limit \<Rightarrow> int \<Rightarrow>
     Value list option result" where
  "computeChangeBundles sel outputValues ids iv minCoin exceeds fee =
     ebind (computeRequestedAssetChangeBundles (utxoSelected sel) outputValues ids iv fee) (\<lambda>requested.
     (case coalesceChangeBundlesForMinCoinRequirement
             (redistributeLeftoverAssets (utxoSelected sel) requested ids) minCoin of
        None \<Rightarrow> Inr None
      | Some changeBundles \<Rightarrow>
          ebind (splitChangeIfTokenBundlesSizeExceedsLimit changeBundles minCoin exceeds) (\<lambda>vs. Inr (Some vs))))"

record 'r ChangeComputationResult =
  cr_remainingUTxO :: "utxo list"
  cr_inputs :: "utxo list"
  cr_change :: "Value list"
  cr_fee :: int
  cr_redeemers :: 'r

text \<open>
  One round without the recursive call: a result, or \<open>None\<close> when another input has to be picked
  (\<open>recomputeChangeAndAdjustForFeeWithExtraUtxo\<close>).
\<close>

definition changeRound ::
    "UtxoSelection \<Rightarrow> Value list \<Rightarrow> asset_id list \<Rightarrow> RequiredImplicitValue \<Rightarrow> min_coin \<Rightarrow> exceeds_limit \<Rightarrow>
     'r estimate_costs \<Rightarrow> 'r ChangeComputationResult option result" where
  "changeRound sel outputValues ids iv minCoin exceeds estimate =
     ebind (computeChangeBundles sel outputValues ids iv minCoin exceeds 0) (\<lambda>withFee.
     (case withFee of
        None \<Rightarrow> Inr None
      | Some changeWithFee \<Rightarrow>
          ebind (validateChangeBundles changeWithFee exceeds) (\<lambda>valid.
          ebind (estimate (utxoSelected sel) valid) (\<lambda>(fee, redeemers).
            let totalOutputCoin = getCoinQuantity outputValues + fee + ic_deposit (implicitCoin iv);
                totalInputCoin = getCoinQuantity (utxo_values (utxoSelected sel)) + ic_input (implicitCoin iv)
            in if totalInputCoin < totalOutputCoin then
                 (if utxoRemaining sel = [] then Inl (InputSelectionError UtxoBalanceInsufficient) else Inr None)
               else
                 ebind (computeChangeBundles sel outputValues ids iv minCoin exceeds fee) (\<lambda>final.
                   (case final of
                      None \<Rightarrow> Inr None
                    | Some changeBundles \<Rightarrow>
                        ebind (validateChangeBundles changeBundles exceeds) (\<lambda>change.
                          Inr (Some \<lparr>cr_remainingUTxO = utxoRemaining sel, cr_inputs = utxoSelected sel,
                            cr_change = change, cr_fee = fee, cr_redeemers = redeemers\<rparr>))))))))"

text \<open>
  The recursion. It may not end when \<open>pick\<close> does not take an entry out of \<open>utxoRemaining\<close>; then its
  value is \<open>None\<close>. \<open>pick\<close> carries a state, the number of calls of \<open>random\<close> so far, and may fail.
\<close>

type_synonym pick_utxo = "UtxoSelection \<Rightarrow> nat \<Rightarrow> (UtxoSelection \<times> nat) result"

partial_function (option) computeChangeAndAdjustForFee ::
    "pick_utxo \<Rightarrow> Value list \<Rightarrow> asset_id list \<Rightarrow> RequiredImplicitValue \<Rightarrow>
     min_coin \<Rightarrow> exceeds_limit \<Rightarrow> 'r estimate_costs \<Rightarrow> UtxoSelection \<Rightarrow> nat \<Rightarrow>
     ('r ChangeComputationResult result) option" where
  "computeChangeAndAdjustForFee pick outputValues ids iv minCoin exceeds estimate sel k =
     (case changeRound sel outputValues ids iv minCoin exceeds estimate of
        Inl e \<Rightarrow> Some (Inl e)
      | Inr (Some r) \<Rightarrow> Some (Inr r)
      | Inr None \<Rightarrow>
          if utxoRemaining sel = [] then Some (Inl (InputSelectionError UtxoFullyDepleted))
          else (case pick sel k of
                  Inl e \<Rightarrow> Some (Inl e)
                | Inr (sel', k') \<Rightarrow>
                    computeChangeAndAdjustForFee pick outputValues ids iv minCoin exceeds estimate sel' k'))"

declare computeChangeAndAdjustForFee.simps [code]

end
