(* ===== verification/Change_Balance.thy ===== *)
theory Change_Balance
  imports Change
begin

text \<open>
  Every step of the change computation keeps the totals: what the inputs hold beyond the outputs,
  the deposit and the fee is in the change, for the coin and for each asset.
\<close>

abbreviation good_value :: "Value \<Rightarrow> bool" where
  "good_value v \<equiv> value_wf v \<and> value_nonneg v"

abbreviation good_values :: "Value list \<Rightarrow> bool" where
  "good_values vs \<equiv> \<forall>v \<in> set vs. good_value v"

text \<open>Two lists of values with the same coin and the same quantity of every asset.\<close>

definition same_totals :: "Value list \<Rightarrow> Value list \<Rightarrow> bool" where
  "same_totals vs ws \<longleftrightarrow> getCoinQuantity vs = getCoinQuantity ws \<and>
     (\<forall>i. assetQuantitySelector i vs = assetQuantitySelector i ws)"

lemma same_totals_refl [simp]: "same_totals vs vs"
  by (simp add: same_totals_def)

lemma same_totals_trans: "same_totals us vs \<Longrightarrow> same_totals vs ws \<Longrightarrow> same_totals us ws"
  by (simp add: same_totals_def)

lemma same_totals_append: "same_totals us us' \<Longrightarrow> same_totals vs vs' \<Longrightarrow> same_totals (us @ vs) (us' @ vs')"
  by (simp add: same_totals_def)

lemma same_totals_mset: "mset vs = mset ws \<Longrightarrow> same_totals vs ws"
  unfolding same_totals_def using quantity_mset_cong [of vs ws] by blast

lemma oqty_assets_or_empty: "oqty (v_assets v) i = qty (assets_or_empty v) i"
  by (cases "v_assets v") (simp_all add: assets_or_empty_def)

lemma wf_assets_or_empty: "value_wf v \<Longrightarrow> tm_wf (assets_or_empty v)"
  by (auto simp: assets_or_empty_def split: option.splits)

subsection \<open>Coalescing\<close>

lemma good_coalesce:
  assumes "good_values vs"
  shows "good_value (coalesceValueQuantities vs)" and "same_totals [coalesceValueQuantities vs] vs"
proof -
  have wf: "\<forall>v \<in> set vs. value_wf v" using assms by simp
  show "same_totals [coalesceValueQuantities vs] vs"
    by (simp add: same_totals_def coalesceValueQuantities_assets [OF wf])
  have "0 \<le> getCoinQuantity vs" "0 \<le> assetQuantitySelector i vs" for i
    using assms by (induction vs) (auto simp: value_nonneg_def)
  then show "good_value (coalesceValueQuantities vs)"
    by (simp add: value_nonneg_def coalesceValueQuantities_assets [OF wf])
qed

lemma mset_splice1: "i < length xs \<Longrightarrow> mset (splice1 i xs) = mset xs - {#xs ! i#}"
  using id_take_nth_drop [of i xs] by (metis add_mset_remove_trivial mset.simps(2) mset_append splice1_def
      union_mset_add_mset_right)

lemma merge_totals:
  assumes "good_values bs" and "i < length bs"
  shows "good_values (mergeWithSmallestBundle bs i)" and "same_totals (mergeWithSmallestBundle bs i) bs"
proof -
  let ?r = "splice1 i bs"
  have bs: "mset bs = add_mset (bs ! i) (mset ?r)"
    using mset_splice1 [OF assms(2)] assms(2) by simp
  have sub: "set ?r \<subseteq> set bs" by (rule set_splice1_subset)
  have "good_values (mergeWithSmallestBundle bs i) \<and> same_totals (mergeWithSmallestBundle bs i) bs"
  proof (cases "?r = []")
    case True
    with bs have "mset bs = mset [bs ! i]" by simp
    with True assms show ?thesis
      using same_totals_mset [of "[bs ! i]" bs] by (auto simp: mergeWithSmallestBundle_def Let_def)
  next
    case False
    let ?m = "coalesceValueQuantities [bs ! i, last ?r]"
    have g: "good_values [bs ! i, last ?r]"
      using assms subsetD [OF sub last_in_set [OF False]] by simp
    have "mset bs = mset (butlast ?r @ [bs ! i, last ?r])"
      using bs False by (metis append_butlast_last_id append_Cons append_Nil mset_append mset.simps add.commute
          union_mset_add_mset_right)
    then have "same_totals bs (butlast ?r @ [bs ! i, last ?r])" by (rule same_totals_mset)
    moreover have "same_totals (butlast ?r @ [?m]) (butlast ?r @ [bs ! i, last ?r])"
      by (rule same_totals_append [OF same_totals_refl good_coalesce(2) [OF g]])
    moreover have "same_totals (sort_desc v_coins (butlast ?r @ [?m])) (butlast ?r @ [?m])"
      by (rule same_totals_mset) simp
    ultimately have "same_totals (mergeWithSmallestBundle bs i) bs"
      using False by (auto simp: mergeWithSmallestBundle_def Let_def same_totals_def)
    moreover have "good_values (mergeWithSmallestBundle bs i)"
      using False good_coalesce(1) [OF g] assms(1) sub
      by (auto simp: mergeWithSmallestBundle_def Let_def dest: in_set_butlastD)
    ultimately show ?thesis by blast
  qed
  then show "good_values (mergeWithSmallestBundle bs i)" and "same_totals (mergeWithSmallestBundle bs i) bs"
    by blast+
qed

lemma coalesceLoop_totals:
  "good_values bs \<Longrightarrow> good_values (coalesceLoop mc bs) \<and> same_totals (coalesceLoop mc bs) bs"
proof (induction mc bs rule: coalesceLoop.induct)
  case (1 mc bs)
  show ?case
  proof (cases "1 < length bs \<and> lastUnsatisfied mc bs \<noteq> None")
    case True
    then obtain i where i: "lastUnsatisfied mc bs = Some i" by auto
    note m = merge_totals [OF "1.prems" lastUnsatisfied_less [OF i]]
    from "1.IH" [OF _ i m(1)] True m(2) i show ?thesis
      by (subst (1 2) coalesceLoop.simps) (auto intro: same_totals_trans)
  next
    case False
    then have "coalesceLoop mc bs = bs" by (subst coalesceLoop.simps) auto
    with "1.prems" show ?thesis by simp
  qed
qed

lemma lastUnsatisfied_None: "lastUnsatisfied mc bs = None \<longleftrightarrow> (\<forall>v \<in> set bs. mc v \<le> v_coins v)"
  by (auto simp: lastUnsatisfied_def find_index_None not_less)

lemma coalesceLoop_result:
  "bs \<noteq> [] \<Longrightarrow> coalesceLoop mc bs \<noteq> [] \<and>
     (length (coalesceLoop mc bs) = 1 \<or> (\<forall>v \<in> set (coalesceLoop mc bs). mc v \<le> v_coins v))"
proof (induction mc bs rule: coalesceLoop.induct)
  case (1 mc bs)
  show ?case
  proof (cases "1 < length bs \<and> lastUnsatisfied mc bs \<noteq> None")
    case True
    then obtain i where i: "lastUnsatisfied mc bs = Some i" by auto
    have "mergeWithSmallestBundle bs i \<noteq> []"
      using length_mergeWithSmallestBundle [OF lastUnsatisfied_less [OF i]] True by (metis One_nat_def
          length_0_conv diff_is_0_eq not_le)
    from "1.IH" [OF _ i this] True i show ?thesis
      by (subst (1 2 3) coalesceLoop.simps) auto
  next
    case False
    then have "coalesceLoop mc bs = bs" by (subst coalesceLoop.simps) auto
    moreover have "length bs = 1 \<or> (\<forall>v \<in> set bs. mc v \<le> v_coins v)"
      using False "1.prems" by (auto simp: lastUnsatisfied_None length_Suc_conv not_less le_Suc_eq)
    ultimately show ?thesis using "1.prems" by simp
  qed
qed

text \<open>Dropping entries without a quantity, and bundles without a value, changes no total.\<close>

lemma positive_entries:
  assumes "good_value v"
  defines "w \<equiv> v\<lparr>v_assets := map_option (filter (\<lambda>(_, q). 0 < q)) (v_assets v)\<rparr>"
  shows "good_value w" and "oqty (v_assets w) i = oqty (v_assets v) i"
proof -
  have q: "oqty (v_assets w) i = oqty (v_assets v) i" for i
  proof (cases "v_assets v")
    case (Some m)
    with assms have "tm_wf m" "0 \<le> qty m i" by (auto simp: value_nonneg_def)
    with Some show ?thesis
      by (auto simp: w_def qty_filter qty_absent)
  qed (simp add: w_def)
  have "value_wf w"
    using assms by (cases "v_assets v") (auto simp: tm_wf_def intro: distinct_filter_keys [unfolded tm_wf_def])
  with q assms show "good_value w" by (simp add: value_nonneg_def w_def)
  show "oqty (v_assets w) i = oqty (v_assets v) i" by (rule q)
qed

lemma filter_totals:
  "good_values vs \<Longrightarrow>
   same_totals (filter (\<lambda>v. 0 < v_coins v \<or> 0 < length (assets_or_empty v)) vs) vs"
  by (induction vs) (auto simp: same_totals_def value_nonneg_def oqty_assets_or_empty)

lemma coalesceChangeBundles_totals:
  assumes "good_values bs" and "coalesceChangeBundlesForMinCoinRequirement bs mc = Some vs"
  shows "good_values vs" and "same_totals vs bs" and "\<forall>v \<in> set vs. mc v \<le> v_coins v"
proof -
  let ?p = "map (\<lambda>v. v\<lparr>v_assets := map_option (filter (\<lambda>(_, q). 0 < q)) (v_assets v)\<rparr>) bs"
  let ?l = "coalesceLoop mc (sort_desc v_coins ?p)"
  have p: "good_values ?p" "same_totals ?p bs"
    using assms(1) positive_entries by (induction bs) (auto simp: same_totals_def)
  have "good_values (sort_desc v_coins ?p)" using p(1) by simp
  from coalesceLoop_totals [OF this, of mc]
  have l: "good_values ?l" "same_totals ?l ?p"
    by (auto simp: same_totals_def quantity_mset_cong [OF mset_sort_desc])
  have "good_values vs \<and> same_totals vs bs \<and> (\<forall>v \<in> set vs. mc v \<le> v_coins v)"
  proof (cases "bs = []")
    case True
    with assms(2) show ?thesis by (simp add: coalesceChangeBundlesForMinCoinRequirement_def)
  next
    case False
    then have "?l \<noteq> []" "length ?l = 1 \<or> (\<forall>v \<in> set ?l. mc v \<le> v_coins v)"
      using coalesceLoop_result [of "sort_desc v_coins ?p" mc] by (auto simp del: length_greater_0_conv
          simp: length_greater_0_conv [symmetric])
    moreover have vs: "\<not> v_coins (?l ! 0) < mc (?l ! 0)"
      "vs = filter (\<lambda>v. 0 < v_coins v \<or> 0 < length (assets_or_empty v)) ?l"
      using assms(2) False
      by (auto simp: coalesceChangeBundlesForMinCoinRequirement_def Let_def split: if_splits)
    ultimately have "\<forall>v \<in> set ?l. mc v \<le> v_coins v" by (auto simp: length_Suc_conv)
    with vs(2) l p(2) filter_totals [OF l(1)] show ?thesis by (auto simp: same_totals_def)
  qed
  then show "good_values vs" and "same_totals vs bs" and "\<forall>v \<in> set vs. mc v \<le> v_coins v" by blast+
qed

subsection \<open>Splitting\<close>

definition total_of :: "token_map list \<Rightarrow> asset_id \<Rightarrow> int" where
  "total_of ms i = sum_list (map (\<lambda>m. qty m i) ms)"

lemma total_of_simps [simp]:
  "total_of [] i = 0" "total_of (m # ms) i = qty m i + total_of ms i"
  "total_of (ms @ ns) i = total_of ms i + total_of ns i"
  by (simp_all add: total_of_def)

definition tm_keys :: "token_map \<Rightarrow> asset_id set" where
  "tm_keys m = fst ` set m"

lemma tm_keys_simps [simp]:
  "tm_keys [] = {}" "tm_keys ((k, q) # m) = insert k (tm_keys m)" "tm_keys (p @ m) = tm_keys p \<union> tm_keys m"
  "tm_keys (tm_set k q m) = insert k (tm_keys m)"
  by (auto simp: tm_keys_def image_Un)

text \<open>The state of the splitting loop after the entries \<open>p\<close>.\<close>

definition split_inv :: "token_map \<Rightarrow> token_map list \<times> token_map \<Rightarrow> bool" where
  "split_inv p s \<longleftrightarrow> (case s of (ms, cur) \<Rightarrow>
     (\<forall>m \<in> set (cur # ms). tm_wf m \<and> tm_keys m \<subseteq> tm_keys p) \<and>
     (\<forall>i. total_of (ms @ [cur]) i = qty p i) \<and> (\<forall>m \<in> set (cur # ms). \<forall>i. qty m i \<noteq> 0 \<longrightarrow> qty m i = qty p i))"

lemma qty_notin: "k \<notin> tm_keys m \<Longrightarrow> qty m k = 0"
  by (rule qty_absent) (simp add: tm_has_set tm_keys_def)

lemma qty_snoc: "k \<notin> tm_keys p \<Longrightarrow> qty (p @ [(k, q)]) i = (if i = k then q else qty p i)"
  using map_of_eq_None_iff [of p k] by (auto simp: qty_def map_add_def tm_keys_def split: option.splits)

lemma qty_tm_delete: "qty (tm_delete k m) i = (if i = k then 0 else qty m i)"
  unfolding tm_delete_def by (induction m) (auto simp: qty_Cons)

lemma tm_wf_delete: "tm_wf m \<Longrightarrow> tm_wf (tm_delete k m)"
  by (auto simp: tm_delete_def tm_wf_def intro: distinct_filter_keys [unfolded tm_wf_def])

lemma tm_keys_delete: "tm_keys (tm_delete k m) \<subseteq> tm_keys m"
  unfolding tm_keys_def tm_delete_def by (rule image_mono) (rule filter_is_subset)

lemma split_invI:
  assumes "\<And>m. m \<in> set (cur # ms) \<Longrightarrow> tm_wf m" and "\<And>m. m \<in> set (cur # ms) \<Longrightarrow> tm_keys m \<subseteq> tm_keys p"
    and "\<And>i. total_of ms i + qty cur i = qty p i"
    and "\<And>m i. m \<in> set (cur # ms) \<Longrightarrow> qty m i \<noteq> 0 \<Longrightarrow> qty m i = qty p i"
  shows "split_inv p (ms, cur)"
  using assms by (simp add: split_inv_def)

lemma split_invD:
  assumes "split_inv p (ms, cur)" and "m \<in> set (cur # ms)"
  shows "tm_wf m" and "tm_keys m \<subseteq> tm_keys p" and "qty m i \<noteq> 0 \<Longrightarrow> qty m i = qty p i"
    and "total_of ms i + qty cur i = qty p i"
  using assms by (auto simp: split_inv_def)

lemma split_inv_step:
  assumes inv: "split_inv p (ms, cur)" and k: "k \<notin> tm_keys p"
  shows "split_inv (p @ [(k, q)]) (ms, tm_set k q cur)"
    and "split_inv (p @ [(k, q)]) (ms @ [tm_delete k (tm_set k q cur)], [(k, q)])"
proof -
  have zero: "qty m k = 0" if "m \<in> set (cur # ms)" for m
    using split_invD(2) [OF inv that] k qty_notin by blast
  have ms: "total_of ms k = 0" using zero by (induction ms) auto
  note inv' = split_invD [OF inv]
  have tot: "total_of ms i + qty cur i = qty p i" for i using inv'(4) [of cur i] by simp
  show "split_inv (p @ [(k, q)]) (ms, tm_set k q cur)"
  proof (rule split_invI)
    fix m assume "m \<in> set (tm_set k q cur # ms)"
    then consider "m = tm_set k q cur" | "m \<in> set ms" by auto
    then show "tm_wf m" "tm_keys m \<subseteq> tm_keys (p @ [(k, q)])"
      using inv'(1,2) [of cur] inv'(1,2) [of m] by (cases; auto)+
    show "qty m i = qty (p @ [(k, q)]) i" if "qty m i \<noteq> 0" for i
      using \<open>m \<in> set (tm_set k q cur # ms)\<close> that inv'(3) [of cur i] inv'(3) [of m i] zero [of m] k
      by (auto simp: qty_snoc tm_simps split: if_splits)
  qed (use tot k ms in \<open>simp add: qty_snoc tm_simps\<close>)
  show "split_inv (p @ [(k, q)]) (ms @ [tm_delete k (tm_set k q cur)], [(k, q)])"
  proof (rule split_invI)
    fix m assume m: "m \<in> set ([(k, q)] # ms @ [tm_delete k (tm_set k q cur)])"
    then consider "m = [(k, q)]" | "m \<in> set ms" | "m = tm_delete k (tm_set k q cur)" by auto
    then show "tm_wf m" "tm_keys m \<subseteq> tm_keys (p @ [(k, q)])"
      using inv'(1,2) [of cur] inv'(1,2) [of m] tm_keys_delete [of k "tm_set k q cur"]
      by (cases; auto simp: tm_wf_delete tm_wf_def [of "[_]"])+
    show "qty m i = qty (p @ [(k, q)]) i" if "qty m i \<noteq> 0" for i
      using m that inv'(3) [of cur i] inv'(3) [of m i] zero [of m] k
      by (auto simp: qty_snoc tm_simps qty_tm_delete qty_Cons split: if_splits)
  qed (use tot k ms zero [of cur] in \<open>simp add: qty_snoc tm_simps qty_tm_delete qty_Cons\<close>)
qed

lemma split_inv_splitAsset:
  "split_inv p s \<Longrightarrow> k \<notin> tm_keys p \<Longrightarrow> split_inv (p @ [(k, q)]) (splitAsset ex s (k, q))"
  by (cases s) (auto simp: splitAsset_def Let_def dest: split_inv_step)

lemma split_inv_foldl:
  "tm_wf (p @ m) \<Longrightarrow> split_inv p s \<Longrightarrow> split_inv (p @ m) (foldl (splitAsset ex) s m)"
proof (induction m arbitrary: p s)
  case (Cons e m)
  obtain k q where e: "e = (k, q)" by force
  have "k \<notin> tm_keys p" using Cons.prems(1) by (auto simp: tm_wf_def tm_keys_def e)
  from Cons.IH [of "p @ [e]" "splitAsset ex s e"] split_inv_splitAsset [OF Cons.prems(2) this] Cons.prems(1)
  show ?case by (simp add: e)
qed simp

lemma splitBundle_totals:
  assumes "splitBundle mc ex b = Inr vs" and "good_value b"
  shows "\<forall>v \<in> set vs. value_wf v \<and> (\<forall>i. 0 \<le> oqty (v_assets v) i)" and "same_totals vs [b]"
proof -
  let ?m = "assets_or_empty b"
  have "(\<forall>v \<in> set vs. value_wf v \<and> (\<forall>i. 0 \<le> oqty (v_assets v) i)) \<and> same_totals vs [b]"
  proof (cases "?m = [] \<or> \<not> ex ?m")
    case True
    with assms show ?thesis by (auto simp: splitBundle_def Let_def value_nonneg_def)
  next
    case False
    obtain ms cur where fold: "foldl (splitAsset ex) ([], []) ?m = (ms, cur)" by force
    have "split_inv [] ([], [])" by (simp add: split_inv_def)
    from split_inv_foldl [of "[]" ?m, OF _ this, of ex] fold
    have inv: "split_inv ?m (ms, cur)" using wf_assets_or_empty assms(2) by simp
    define f where "f = (\<lambda>m. \<lparr>v_coins = mc \<lparr>v_coins = 0, v_assets = Some m\<rparr>, v_assets = Some m\<rparr>)"
    let ?new = "map f (ms @ [cur])"
    have as: "assetQuantitySelector i (map f ns) = total_of ns i" for ns i
      by (induction ns) (simp_all add: f_def)
    obtain v ws where new: "?new = v # ws" by (cases "?new") auto
    have vs: "vs = v\<lparr>v_coins := v_coins v + (v_coins b - getCoinQuantity ?new)\<rparr> # ws"
      using assms(1) False fold new
      by (auto simp: splitBundle_def Let_def f_def getCoinQuantity_def split: if_splits list.splits)
    have "getCoinQuantity vs = v_coins b" using new by (simp add: vs)
    moreover have "assetQuantitySelector i vs = oqty (v_assets b) i" for i
    proof -
      have "assetQuantitySelector i vs = assetQuantitySelector i ?new" by (simp only: new vs) simp
      also have "\<dots> = oqty (v_assets b) i"
        unfolding as oqty_assets_or_empty using inv by (simp only: split_inv_def prod.case)
      finally show ?thesis .
    qed
    moreover have "value_wf w \<and> (\<forall>i. 0 \<le> oqty (v_assets w) i)" if "w \<in> set ?new" for w
    proof -
      from that obtain m where m: "w = f m" "m \<in> set (cur # ms)" by auto
      have "\<forall>i. 0 \<le> qty ?m i" using assms(2) by (simp add: value_nonneg_def oqty_assets_or_empty)
      moreover have "tm_wf m" "\<forall>i. qty m i \<noteq> 0 \<longrightarrow> qty m i = qty ?m i"
        using inv m(2) by (auto simp: split_inv_def)
      ultimately have "tm_wf m" "\<forall>i. 0 \<le> qty m i" by (metis order_refl)+
      with m(1) show ?thesis by (simp add: f_def)
    qed
    then have "value_wf w \<and> (\<forall>i. 0 \<le> oqty (v_assets w) i)" if "w \<in> set vs" for w
      using that unfolding new by (auto simp: vs)
    ultimately show ?thesis by (simp add: same_totals_def)
  qed
  then show "\<forall>v \<in> set vs. value_wf v \<and> (\<forall>i. 0 \<le> oqty (v_assets v) i)" and "same_totals vs [b]"
    by blast+
qed

lemma split_totals:
  assumes "splitChangeIfTokenBundlesSizeExceedsLimit bs mc ex = Inr vs" and "good_values bs"
  shows "same_totals vs bs"
proof -
  obtain vss where "emap (splitBundle mc ex) bs = Inr vss" and vs: "vs = concat vss"
    using assms(1) by (auto simp: splitChangeIfTokenBundlesSizeExceedsLimit_def)
  then have "list_all2 (\<lambda>b vs. splitBundle mc ex b = Inr vs) bs vss" by (simp add: emap_eq_Inr)
  then have "same_totals (concat vss) bs" using assms(2)
  proof (induction rule: list_all2_induct)
    case (Cons b bs v vss)
    then show ?case
      using splitBundle_totals(2) [of mc ex b v] same_totals_append [of v "[b]" "concat vss" bs] by simp
  qed simp
  with vs show ?thesis by simp
qed

subsection \<open>Leftover assets\<close>

definition lo_sum :: "(asset_id \<times> int list) list \<Rightarrow> asset_id \<Rightarrow> int" where
  "lo_sum lo i = (case map_of lo i of None \<Rightarrow> 0 | Some qs \<Rightarrow> sum_list qs)"

definition lo_ok :: "asset_id list \<Rightarrow> (asset_id \<times> int list) list \<Rightarrow> bool" where
  "lo_ok ids lo \<longleftrightarrow> distinct (map fst lo) \<and> (\<forall>e \<in> set lo. fst e \<notin> set ids \<and> (\<forall>q \<in> set (snd e). 0 \<le> q))"

lemma map_of_leftovers_add:
  "map_of (leftovers_add k q lo) = (map_of lo)(k \<mapsto> (case map_of lo k of None \<Rightarrow> [q] | Some qs \<Rightarrow> qs @ [q]))"
  by (induction lo) auto

lemma leftovers_add_keys: "fst ` set (leftovers_add k q lo) = insert k (fst ` set lo)"
  by (simp add: dom_map_of_conv_image_fst [symmetric] map_of_leftovers_add)

lemma leftovers_add_ok: "lo_ok ids lo \<Longrightarrow> k \<notin> set ids \<Longrightarrow> 0 \<le> q \<Longrightarrow> lo_ok ids (leftovers_add k q lo)"
proof (induction lo)
  case (Cons e lo)
  obtain j qs where "e = (j, qs)" by force
  with Cons show ?case by (cases "j = k") (simp_all add: lo_ok_def leftovers_add_keys ball_Un)
qed (simp add: lo_ok_def)

lemma lo_sum_add: "lo_sum (leftovers_add k q lo) i = lo_sum lo i + (if i = k then q else 0)"
  by (induction lo) (auto simp: lo_sum_def)

lemma leftovers_map:
  assumes "tm_wf m" and "\<forall>i. 0 \<le> qty m i" and "lo_ok ids lo"
  defines "lo' \<equiv> foldl (\<lambda>lo (k, q). if k \<in> set ids \<or> q = 0 then lo else leftovers_add k q lo) lo m"
  shows "lo_ok ids lo' \<and> (\<forall>i. i \<notin> set ids \<longrightarrow> lo_sum lo' i = lo_sum lo i + qty m i)"
  unfolding lo'_def using assms(1-3)
proof (induction m arbitrary: lo)
  case (Cons e m)
  obtain k q where e: "e = (k, q)" by force
  have k0: "qty m k = 0" using Cons.prems(1) by (intro qty_notin) (auto simp: tm_wf_def tm_keys_def e)
  have q: "0 \<le> q" using Cons.prems(2) by (auto simp: e qty_Cons dest: spec [of _ k])
  have m: "tm_wf m" "\<forall>i. 0 \<le> qty m i"
    using Cons.prems(1,2) k0 by (auto simp: tm_wf_def e qty_Cons split: if_splits) (metis order_refl)
  show ?case
    using Cons.IH [OF m, of "if k \<in> set ids \<or> q = 0 then lo else leftovers_add k q lo"]
      Cons.prems(3) leftovers_add_ok [of ids lo k q] q k0
    by (auto simp: e qty_Cons lo_sum_add)
qed simp

lemma getLeftoverAssets_sum:
  assumes "good_values (utxo_values us)"
  shows "lo_ok ids (getLeftoverAssets us ids) \<and>
    (\<forall>i. i \<notin> set ids \<longrightarrow> lo_sum (getLeftoverAssets us ids) i = assetQuantitySelector i (utxo_values us))"
  using assms unfolding getLeftoverAssets_def
proof (induction us rule: rev_induct)
  case Nil
  then show ?case by (simp add: lo_ok_def lo_sum_def)
next
  case (snoc u us)
  show ?case
  proof (cases "v_assets (out_value (snd u))")
    case None
    with snoc show ?thesis by (simp add: case_prod_beta)
  next
    case (Some m)
    with snoc.prems have "tm_wf m" "\<forall>i. 0 \<le> qty m i" by (auto simp: value_nonneg_def)
    from leftovers_map [OF this, of ids] snoc Some show ?thesis by (simp add: case_prod_beta)
  qed
qed

lemma coalesceSmallest_sum:
  "0 < n \<Longrightarrow> sum_list (coalesceSmallest n qs) = sum_list qs \<and> length (coalesceSmallest n qs) \<le> n \<and>
     ((\<forall>q \<in> set qs. 0 \<le> q) \<longrightarrow> (\<forall>q \<in> set (coalesceSmallest n qs). 0 \<le> q))"
proof (induction n qs rule: coalesceSmallest.induct)
  case (1 n qs)
  show ?case
  proof (cases "n < length qs")
    case True
    with \<open>0 < n\<close> have "2 \<le> length qs" by simp
    then obtain ps a b where qs: "qs = ps @ [a, b]"
      by (cases qs rule: rev_cases; cases "butlast qs" rule: rev_cases) auto
    have eq: "butlast (butlast qs) @ [last (butlast qs) + last qs] = ps @ [a + b]"
      by (simp add: qs butlast_append)
    have "coalesceSmallest n qs = coalesceSmallest n (ps @ [a + b])"
      using True \<open>0 < n\<close> by (subst coalesceSmallest.simps) (simp add: eq)
    note r = "1.IH" [OF conjI [OF \<open>0 < n\<close> True] \<open>0 < n\<close>, unfolded eq, folded this]
    have "sum_list (ps @ [a + b]) = sum_list qs" by (simp add: qs)
    moreover have "\<forall>q \<in> set qs. 0 \<le> q \<Longrightarrow> \<forall>q \<in> set (ps @ [a + b]). 0 \<le> q" by (simp add: qs)
    ultimately show ?thesis using r by (metis (no_types, lifting))
  next
    case False
    then have "coalesceSmallest n qs = qs" by (subst coalesceSmallest.simps) simp
    with False show ?thesis by simp
  qed
qed

lemma qty_new_map: "tm_wf m \<Longrightarrow> qty (tm_sets [] (m @ [(k, q)])) i = (if i = k then q else qty m i)"
proof -
  assume wf: "tm_wf m"
  have "tm_sets [] (m @ [(k, q)]) = tm_set k q (tm_sets [] m)" by (simp add: tm_sets_def)
  moreover have "qty (tm_sets [] m) i = qty m i"
    using qty_tm_sets [of m "[]" i] wf by (simp add: tm_wf_def qty_def split: option.splits)
  ultimately show ?thesis by (simp add: tm_simps)
qed

lemma distribute_totals:
  assumes "length qs \<le> length bs" and "good_values bs" and "\<forall>q \<in> set qs. 0 \<le> q"
    and "\<forall>b \<in> set bs. oqty (v_assets b) k = 0"
  shows "good_values (distribute k qs bs) \<and> getCoinQuantity (distribute k qs bs) = getCoinQuantity bs \<and>
    (\<forall>i. assetQuantitySelector i (distribute k qs bs) =
       assetQuantitySelector i bs + (if i = k then sum_list qs else 0)) \<and>
    (\<forall>i. i \<noteq> k \<longrightarrow> (\<forall>b \<in> set bs. oqty (v_assets b) i = 0) \<longrightarrow>
       (\<forall>b \<in> set (distribute k qs bs). oqty (v_assets b) i = 0))"
  using assms
proof (induction k qs bs rule: distribute.induct)
  case (1 k q qs b bs)
  have wf: "tm_wf (assets_or_empty b)" using "1.prems"(2) by (simp add: wf_assets_or_empty)
  have "good_value \<lparr>v_coins = v_coins b, v_assets = Some (tm_sets [] (assets_or_empty b @ [(k, q)]))\<rparr>"
    using "1.prems" by (auto simp: value_nonneg_def qty_new_map [OF wf] oqty_assets_or_empty)
  with 1 show ?case by (auto simp: qty_new_map [OF wf] oqty_assets_or_empty [of b])
qed simp_all

lemma redistribute_step:
  assumes "good_values bs" and "\<forall>q \<in> set qs. 0 \<le> q" and "\<forall>b \<in> set bs. oqty (v_assets b) k = 0"
  defines "bs1 \<equiv> if bs = [] then [\<lparr>v_coins = 0, v_assets = None\<rparr>] else bs"
  defines "bs2 \<equiv> distribute k (coalesceSmallest (length bs1) (sort_desc (\<lambda>q. q) qs)) bs1"
  shows "good_values bs2 \<and> getCoinQuantity bs2 = getCoinQuantity bs \<and>
    (\<forall>i. assetQuantitySelector i bs2 = assetQuantitySelector i bs + (if i = k then sum_list qs else 0)) \<and>
    (\<forall>i. i \<noteq> k \<longrightarrow> (\<forall>b \<in> set bs. oqty (v_assets b) i = 0) \<longrightarrow> (\<forall>b \<in> set bs2. oqty (v_assets b) i = 0))"
proof -
  have bs1: "good_values bs1" "same_totals bs1 bs" "bs1 \<noteq> []"
    "\<And>i. \<forall>b \<in> set bs. oqty (v_assets b) i = 0 \<Longrightarrow> \<forall>b \<in> set bs1. oqty (v_assets b) i = 0"
    using assms(1) by (auto simp: bs1_def same_totals_def value_nonneg_def)
  let ?qs = "coalesceSmallest (length bs1) (sort_desc (\<lambda>q. q) qs)"
  have "sum_list (sort_desc (\<lambda>q. q) qs) = sum_list qs"
    by (metis mset_sort_desc sum_mset_sum_list)
  with coalesceSmallest_sum [of "length bs1" "sort_desc (\<lambda>q. q) qs"] assms(2) bs1(3)
  have qs: "sum_list ?qs = sum_list qs" "length ?qs \<le> length bs1" "\<forall>q \<in> set ?qs. 0 \<le> q" by auto
  from distribute_totals [OF qs(2) bs1(1) qs(3), of k] bs1(2,4) assms(3) qs(1)
  show ?thesis by (auto simp: bs2_def same_totals_def)
qed

lemma redistribute_fold:
  assumes "lo_ok ids lo" and "good_values bs" and "\<forall>e \<in> set lo. \<forall>b \<in> set bs. oqty (v_assets b) (fst e) = 0"
  defines "bs' \<equiv> foldl (\<lambda>bs (k, qs). let quantities = sort_desc (\<lambda>q. q) qs;
        bs = (if bs = [] then [\<lparr>v_coins = 0, v_assets = None\<rparr>] else bs)
      in distribute k (coalesceSmallest (length bs) quantities) bs) bs lo"
  shows "good_values bs' \<and> getCoinQuantity bs' = getCoinQuantity bs \<and>
    (\<forall>i. assetQuantitySelector i bs' = assetQuantitySelector i bs + lo_sum lo i)"
  unfolding bs'_def using assms(1-3)
proof (induction lo arbitrary: bs)
  case (Cons e lo)
  obtain k qs where e: "e = (k, qs)" by force
  have lo: "lo_ok ids lo" and k: "k \<notin> fst ` set lo" and q: "\<forall>q \<in> set qs. 0 \<le> q"
    using Cons.prems(1) by (auto simp: lo_ok_def e)
  have zero: "\<forall>b \<in> set bs. oqty (v_assets b) k = 0" using Cons.prems(3) by (simp add: e)
  note step = redistribute_step [OF Cons.prems(2) q zero]
  let ?bs = "distribute k (coalesceSmallest (length (if bs = [] then [\<lparr>v_coins = 0, v_assets = None\<rparr>] else bs))
    (sort_desc (\<lambda>q. q) qs)) (if bs = [] then [\<lparr>v_coins = 0, v_assets = None\<rparr>] else bs)"
  have "\<forall>e \<in> set lo. \<forall>b \<in> set ?bs. oqty (v_assets b) (fst e) = 0"
    using step k Cons.prems(3) by (metis image_eqI list.set_intros(2))
  from Cons.IH [OF lo _ this] step k show ?case
    by (auto simp: e Let_def lo_sum_def map_of_eq_None_iff [symmetric] split: option.splits)
qed (simp add: lo_sum_def)

lemma redistribute_totals:
  assumes "good_values (utxo_values us)" and "good_values bs"
    and "\<forall>i. i \<notin> set ids \<longrightarrow> (\<forall>b \<in> set bs. oqty (v_assets b) i = 0)"
  shows "good_values (redistributeLeftoverAssets us bs ids) \<and>
    getCoinQuantity (redistributeLeftoverAssets us bs ids) = getCoinQuantity bs \<and>
    (\<forall>i. assetQuantitySelector i (redistributeLeftoverAssets us bs ids) =
      assetQuantitySelector i bs + (if i \<in> set ids then 0 else assetQuantitySelector i (utxo_values us)))"
proof -
  let ?lo = "getLeftoverAssets us ids"
  have lo: "lo_ok ids ?lo" "\<forall>i. i \<notin> set ids \<longrightarrow> lo_sum ?lo i = assetQuantitySelector i (utxo_values us)"
    using getLeftoverAssets_sum [OF assms(1)] by auto
  have "lo_sum ?lo i = 0" if "i \<in> set ids" for i
    using lo(1) that by (auto simp: lo_ok_def lo_sum_def split: option.splits dest!: map_of_SomeD)
  moreover have "\<forall>e \<in> set ?lo. \<forall>b \<in> set bs. oqty (v_assets b) (fst e) = 0"
    using lo(1) assms(3) by (auto simp: lo_ok_def)
  from redistribute_fold [OF lo(1) assms(2) this]
  have "good_values (redistributeLeftoverAssets us bs ids) \<and>
    getCoinQuantity (redistributeLeftoverAssets us bs ids) = getCoinQuantity bs \<and>
    (\<forall>i. assetQuantitySelector i (redistributeLeftoverAssets us bs ids) = assetQuantitySelector i bs + lo_sum ?lo i)"
    unfolding redistributeLeftoverAssets_def .
  ultimately show ?thesis using lo(2) by simp
qed

subsection \<open>Change for the requested assets\<close>

lemma bigint_div_nonneg: "0 \<le> a \<Longrightarrow> 0 < b \<Longrightarrow> bigint_div a b = Inr (a div b)"
  by (cases "a = 0") (simp_all add: bigint_div_def sgn_if)

lemma div_bound: "0 < b \<Longrightarrow> b * (a div b) \<le> (a :: int)"
  using mult_div_mod_eq [of b a] pos_mod_sign [of b a] by linarith

text \<open>The totals a change computation starts from: nothing is requested beyond what is selected.\<close>

definition totals_ok :: "asset_id list \<Rightarrow> (asset_id \<Rightarrow> int) \<Rightarrow> (asset_id \<Rightarrow> int) \<Rightarrow> bool" where
  "totals_ok ids sel req \<longleftrightarrow> (\<forall>i \<in> set ids. 0 \<le> req i \<and> req i \<le> sel i)"

abbreviation asset_totals_of :: "asset_id list \<Rightarrow> (asset_id \<Rightarrow> int) \<Rightarrow> (asset_id \<Rightarrow> int) \<Rightarrow> asset_totals" where
  "asset_totals_of ids sel req \<equiv> (\<lambda>i. if i \<in> set ids then Some (sel i, req i) else None)"

text \<open>
  What holds of the share \<open>s\<close> of an asset in the change that belongs to the amount \<open>a\<close> of it in the
  outputs: it is not negative, at most proportional, and zero for an asset of which nothing is selected.
\<close>

definition share_ok :: "asset_id list \<Rightarrow> (asset_id \<Rightarrow> int) \<Rightarrow> (asset_id \<Rightarrow> int) \<Rightarrow> asset_id \<Rightarrow> int \<Rightarrow> int \<Rightarrow> bool" where
  "share_ok ids sel req i s a \<longleftrightarrow> 0 \<le> s \<and> sel i * s \<le> (sel i - req i) * a \<and>
     (sel i = 0 \<or> i \<notin> set ids \<longrightarrow> s = 0)"

lemma share_ok_0 [simp]: "totals_ok ids sel req \<Longrightarrow> i \<in> set ids \<Longrightarrow> 0 \<le> a \<Longrightarrow> share_ok ids sel req i 0 a"
  by (simp add: share_ok_def totals_ok_def)

lemma share_ok_add:
  "share_ok ids sel req i s a \<Longrightarrow> share_ok ids sel req i t b \<Longrightarrow> share_ok ids sel req i (s + t) (a + b)"
  by (auto simp: share_ok_def algebra_simps)

lemma bundleAsset_ok:
  assumes "bundleAsset (asset_totals_of ids sel req) (tb, m) (k, a) = Inr (tb', m')"
    and "totals_ok ids sel req" and "0 \<le> a"
  shows "\<exists>c. m' = tm_set k c m \<and> tb' = tm_set k (qty tb k + c) tb \<and> share_ok ids sel req k c a"
proof -
  from assms(1) obtain c where k: "k \<in> set ids" and div: "bigint_div ((sel k - req k) * a) (sel k) = Inr c"
    and c: "m' = tm_set k c m" "tb' = tm_set k (qty tb k + c) tb"
    by (auto simp: bundleAsset_def split: if_splits)
  from k assms(2) have sel: "0 \<le> req k" "req k \<le> sel k" by (simp_all add: totals_ok_def)
  with div have pos: "0 < sel k" by (cases "sel k = 0") (auto simp: bigint_div_def)
  have nn: "0 \<le> (sel k - req k) * a" using sel assms(3) by simp
  with div pos have "c = (sel k - req k) * a div sel k" by (simp add: bigint_div_nonneg)
  with pos k nn have "share_ok ids sel req k c a"
    by (auto simp: share_ok_def div_bound pos_imp_zdiv_nonneg_iff)
  with c show ?thesis by blast
qed

lemma bundleAssets_ok:
  assumes "efoldl (bundleAsset (asset_totals_of ids sel req)) (tb, []) m = Inr (tb', m')"
    and "totals_ok ids sel req" and "tm_wf m" and "\<forall>i. 0 \<le> qty m i"
  shows "tm_wf m' \<and> (\<forall>i. qty tb' i = qty tb i + qty m' i) \<and> (\<forall>i. i \<in> set ids \<longrightarrow> share_ok ids sel req i (qty m' i) (qty m i)) \<and>
    (\<forall>i. i \<notin> set ids \<longrightarrow> qty m' i = 0)"
proof -
  define P where "P = (\<lambda>p s. tm_wf (snd s) \<and> tm_keys (snd s) \<subseteq> tm_keys p \<and> (\<forall>i. qty (fst s) i = qty tb i + qty (snd s) i) \<and>
    (\<forall>i. i \<in> set ids \<longrightarrow> share_ok ids sel req i (qty (snd s) i) (qty p i)) \<and> (\<forall>i. i \<notin> set ids \<longrightarrow> qty (snd s) i = 0))"
  have "P ([] @ m) (tb', m')"
  proof (rule efoldl_invariant [OF assms(1) _ _ refl])
    show "P [] (tb, [])" using assms(2) by (simp add: P_def)
    fix p e ys s s' assume split: "[] @ m = p @ e # ys" and Ps: "P p s"
      and run: "bundleAsset (asset_totals_of ids sel req) s e = Inr s'"
    obtain k a t n t' n' where e: "e = (k, a)" "s = (t, n)" "s' = (t', n')" by (metis surj_pair)
    have k: "k \<notin> tm_keys p" using assms(3) split by (auto simp: tm_wf_def tm_keys_def e)
    have "qty m k = a"
      using split k map_of_eq_None_iff [of p k] by (simp add: e qty_def map_add_def tm_keys_def)
    then have "0 \<le> a" using assms(4) by auto
    from bundleAsset_ok [OF run [unfolded e] assms(2) this] obtain c
      where c: "n' = tm_set k c n" "t' = tm_set k (qty t k + c) t" "share_ok ids sel req k c a" by blast
    have "qty n k = 0" using Ps k by (intro qty_notin) (auto simp: P_def e)
    moreover have "k \<notin> set ids \<Longrightarrow> c = 0" using c(3) by (simp add: share_ok_def)
    ultimately show "P (p @ [e]) s'"
      using Ps c k by (auto simp: P_def e tm_simps qty_snoc)
  qed
  then show ?thesis by (simp add: P_def)
qed

text \<open>The state of \<open>createBundlePerOutput\<close> after the outputs \<open>vs\<close>.\<close>

definition bundled_ok :: "asset_id list \<Rightarrow> (asset_id \<Rightarrow> int) \<Rightarrow> (asset_id \<Rightarrow> int) \<Rightarrow> int \<Rightarrow> int \<Rightarrow>
    Value list \<Rightarrow> Bundled \<Rightarrow> bool" where
  "bundled_ok ids sel req creq cchange vs b \<longleftrightarrow>
     good_values (bd_bundles b) \<and> totalCoinBundled b = getCoinQuantity (bd_bundles b) \<and>
     (\<forall>i. qty (totalAssetsBundled b) i = assetQuantitySelector i (bd_bundles b)) \<and>
     creq * getCoinQuantity (bd_bundles b) \<le> cchange * getCoinQuantity vs \<and>
     (creq \<le> 0 \<longrightarrow> getCoinQuantity (bd_bundles b) = 0) \<and>
     (\<forall>i. i \<in> set ids \<longrightarrow> share_ok ids sel req i (assetQuantitySelector i (bd_bundles b)) (assetQuantitySelector i vs)) \<and>
     (\<forall>i. i \<notin> set ids \<longrightarrow> (\<forall>v \<in> set (bd_bundles b). oqty (v_assets v) i = 0))"

lemma coin_share:
  assumes "(if 0 < creq then bigint_div (cchange * c) creq else Inr 0) = Inr s" and "0 \<le> cchange" and "0 \<le> c"
  shows "0 \<le> s \<and> creq * s \<le> cchange * c \<and> (creq \<le> 0 \<longrightarrow> s = 0)"
proof (cases "0 < creq")
  case True
  have nn: "0 \<le> cchange * c" using assms(2,3) by simp
  with True assms(1) have "s = cchange * c div creq" by (simp add: bigint_div_nonneg)
  with True nn show ?thesis by (simp add: div_bound pos_imp_zdiv_nonneg_iff)
next
  case False
  with assms show ?thesis by simp
qed

lemma bundleOutput_ok:
  assumes "bundled_ok ids sel req creq cchange vs b" and "totals_ok ids sel req" and "good_value v" and "0 \<le> cchange"
    and "bundleOutput creq cchange (asset_totals_of ids sel req) b v = Inr b'"
  shows "bundled_ok ids sel req creq cchange (vs @ [v]) b'"
proof -
  obtain c where c: "(if 0 < creq then bigint_div (cchange * v_coins v) creq else Inr 0) = Inr c"
    using assms(5) by (auto simp: bundleOutput_def)
  have v: "0 \<le> v_coins v" "\<forall>i. 0 \<le> oqty (v_assets v) i" "value_wf v" using assms(3) by (simp_all add: value_nonneg_def)
  note coin = coin_share [OF c assms(4) v(1)]
  show ?thesis
  proof (cases "v_assets v")
    case None
    then have b': "b' = b\<lparr>bd_bundles := bd_bundles b @ [\<lparr>v_coins = c, v_assets = None\<rparr>],
        totalCoinBundled := totalCoinBundled b + c\<rparr>"
      using assms(5) c by (simp add: bundleOutput_def)
    show ?thesis
      using assms(1) coin None unfolding b' bundled_ok_def by (auto simp: value_nonneg_def distrib_left)
  next
    case (Some m)
    then obtain tb n where run: "efoldl (bundleAsset (asset_totals_of ids sel req)) (totalAssetsBundled b, []) m = Inr (tb, n)"
      and b': "b' = b\<lparr>bd_bundles := bd_bundles b @ [\<lparr>v_coins = c, v_assets = Some n\<rparr>],
        totalCoinBundled := totalCoinBundled b + c, totalAssetsBundled := tb\<rparr>"
      using assms(5) c by (auto simp: bundleOutput_def)
    have m: "tm_wf m" "\<forall>i. 0 \<le> qty m i" using v Some by simp_all
    note ok = bundleAssets_ok [OF run assms(2) m]
    have "0 \<le> qty n i" for i using ok by (cases "i \<in> set ids") (auto simp: share_ok_def)
    with assms(1) coin ok Some show ?thesis unfolding b' bundled_ok_def
      by (auto simp: value_nonneg_def distrib_left intro: share_ok_add)
  qed
qed

lemma createBundlePerOutput_ok:
  assumes "createBundlePerOutput vs creq cchange (asset_totals_of ids sel req) = Inr b"
    and "totals_ok ids sel req" and "good_values vs" and "0 \<le> cchange"
  shows "bundled_ok ids sel req creq cchange vs b"
proof -
  have "bundled_ok ids sel req creq cchange ([] @ vs) b"
  proof (rule efoldl_invariant [OF assms(1) [unfolded createBundlePerOutput_def] _ _ refl])
    show "bundled_ok ids sel req creq cchange [] \<lparr>bd_bundles = [], totalAssetsBundled = [], totalCoinBundled = 0\<rparr>"
      using assms(2) by (simp add: bundled_ok_def)
    fix p v ys s s' assume "[] @ vs = p @ v # ys" "bundled_ok ids sel req creq cchange p s"
      "bundleOutput creq cchange (asset_totals_of ids sel req) s v = Inr s'"
    then show "bundled_ok ids sel req creq cchange (p @ [v]) s'"
      using assms by (intro bundleOutput_ok) auto
  qed
  then show ?thesis by simp
qed

end
