(* ===== verification/Change_Totals.thy ===== *)
theory Change_Totals
  imports Change_Balance
begin

text \<open>Nothing is lost: the rest of each integer division goes to a bundle.\<close>

lemma min_index_less: "xs \<noteq> [] \<Longrightarrow> min_index f xs < length xs"
  by (induction f xs rule: min_index.induct) (auto simp: Let_def)

lemma update_totals:
  assumes "j < length bs"
  shows "getCoinQuantity (bs[j := b]) = getCoinQuantity bs - v_coins (bs ! j) + v_coins b"
    and "assetQuantitySelector i (bs[j := b]) =
      assetQuantitySelector i bs - oqty (v_assets (bs ! j)) i + oqty (v_assets b) i"
  using assms by (induction bs arbitrary: j) (auto split: nat.split)

text \<open>
  The bundles \<open>bs'\<close> hold what \<open>bs\<close> hold and, of each asset, the quantity \<open>g\<close> more; an asset without
  a gain that was nowhere is still nowhere.
\<close>

definition gains :: "(asset_id \<Rightarrow> int) \<Rightarrow> Value list \<Rightarrow> Value list \<Rightarrow> bool" where
  "gains g bs bs' \<longleftrightarrow> (\<forall>i. 0 \<le> g i) \<and> good_values bs' \<and> getCoinQuantity bs' = getCoinQuantity bs \<and>
     (\<forall>i. assetQuantitySelector i bs' = assetQuantitySelector i bs + g i) \<and>
     (\<forall>i. g i = 0 \<longrightarrow> (\<forall>b \<in> set bs. oqty (v_assets b) i = 0) \<longrightarrow> (\<forall>b \<in> set bs'. oqty (v_assets b) i = 0))"

lemma gains_refl: "good_values bs \<Longrightarrow> gains (\<lambda>_. 0) bs bs"
  by (simp add: gains_def)

lemma gains_trans:
  assumes "gains g bs bs'" and "gains h bs' bs''"
  shows "gains (\<lambda>i. g i + h i) bs bs''"
proof -
  have nn: "0 \<le> g i" "0 \<le> h i" for i using assms by (simp_all add: gains_def)
  have "\<forall>b \<in> set bs''. oqty (v_assets b) i = 0" if i: "g i + h i = 0" "\<forall>b \<in> set bs. oqty (v_assets b) i = 0" for i
  proof -
    have "g i = 0" "h i = 0" using i(1) nn [of i] by linarith+
    with i(2) assms show ?thesis unfolding gains_def by blast
  qed
  with assms nn show ?thesis unfolding gains_def by simp
qed

lemma gains_goodD: "gains g bs bs' \<Longrightarrow> good_values bs'"
  by (simp add: gains_def)

lemma gains_set_asset:
  fixes k :: asset_id
  assumes "good_values bs" and "j < length bs" and "0 \<le> q"
  defines "m \<equiv> assets_or_empty (bs ! j)"
  shows "gains (\<lambda>i. if i = k then q else 0) bs (bs[j := (bs ! j)\<lparr>v_assets := Some (tm_set k (qty m k + q) m)\<rparr>])"
proof -
  let ?b = "(bs ! j)\<lparr>v_assets := Some (tm_set k (qty m k + q) m)\<rparr>"
  have b: "good_value (bs ! j)" using assms(1,2) by simp
  have m: "oqty (v_assets (bs ! j)) i = qty m i" for i by (simp add: m_def oqty_assets_or_empty)
  have q: "oqty (v_assets ?b) i = qty m i + (if i = k then q else 0)" for i by (simp add: tm_simps)
  have "good_value ?b"
    using b assms(3) wf_assets_or_empty [of "bs ! j"] by (auto simp: value_nonneg_def m tm_simps m_def [symmetric])
  then have "good_values (bs[j := ?b])" using assms(1) set_update_subset_insert [of bs j ?b] by auto
  moreover have "getCoinQuantity (bs[j := ?b]) = getCoinQuantity bs"
    using update_totals(1) [OF assms(2), of ?b] by simp
  moreover have "assetQuantitySelector i (bs[j := ?b]) = assetQuantitySelector i bs + (if i = k then q else 0)" for i
    using update_totals(2) [OF assms(2), of i ?b] q [of i] by (simp add: m)
  moreover have "\<forall>b \<in> set (bs[j := ?b]). oqty (v_assets b) i = 0"
    if "(if i = k then q else 0) = 0" "\<forall>b \<in> set bs. oqty (v_assets b) i = 0" for i
    using that set_update_subset_insert [of bs j ?b] q [of i] m [of i] nth_mem [OF assms(2)] by auto
  ultimately show ?thesis using assms(3) unfolding gains_def by simp
qed

lemma gains_addAssetLost:
  assumes "good_values bs" and "0 \<le> q"
  shows "gains (\<lambda>i. if i = k then q else 0) bs (addAssetLost k q bs)"
proof (cases "bs = []")
  case True
  have e: "good_values [\<lparr>v_coins = 0, v_assets = Some []\<rparr>]" by (simp add: value_nonneg_def)
  have "gains (\<lambda>_. 0) [] [\<lparr>v_coins = 0, v_assets = Some []\<rparr>]" using e by (simp add: gains_def)
  from gains_trans [OF this gains_set_asset [OF e _ assms(2), of 0 k]] True show ?thesis
    by (simp add: addAssetLost_def smallestBundleTokenMap_def Let_def)
next
  case False
  obtain j where j: "j < length bs" "addAssetLost k q bs = bs[j := (bs ! j)\<lparr>v_assets :=
      Some (tm_set k (qty (assets_or_empty (bs ! j)) k + q) (assets_or_empty (bs ! j)))\<rparr>]"
    using min_index_less [OF False, of "\<lambda>v. length (assets_or_empty v)"] False
    by (cases "find_index (\<lambda>v. tm_has (assets_or_empty v) k) bs")
      (auto simp: addAssetLost_def smallestBundleTokenMap_def Let_def dest: find_index_less)
  from gains_set_asset [OF assms(1) j(1) assms(2), of k] show ?thesis unfolding j(2) .
qed

lemma gains_assets_lost:
  assumes "good_values bs" and "distinct ids"
  shows "gains (\<lambda>i. if i \<in> set ids then max 0 (lost i) else 0) bs
    (foldl (\<lambda>bs i. if 0 < lost i then addAssetLost i (lost i) bs else bs) bs ids)"
  using assms
proof (induction ids arbitrary: bs)
  case (Cons k ids)
  let ?bs = "if 0 < lost k then addAssetLost k (lost k) bs else bs"
  have step: "gains (\<lambda>i. if i = k then max 0 (lost k) else 0) bs ?bs"
    using gains_addAssetLost [OF Cons.prems(1), of "lost k" k] gains_refl [OF Cons.prems(1)]
    by (auto simp: max_def cong: if_cong)
  have fin: "(\<lambda>i. (if i = k then max 0 (lost k) else 0) + (if i \<in> set ids then max 0 (lost i) else 0)) =
      (\<lambda>i. if i \<in> set (k # ids) then max 0 (lost i) else 0)"
    using Cons.prems(2) by (auto simp: fun_eq_iff)
  have "distinct ids" using Cons.prems(2) by simp
  from gains_trans [OF step Cons.IH [OF gains_goodD [OF step] this]] show ?case unfolding fin by simp
qed (simp add: gains_refl)

lemma requested_bundles_totals:
  assumes "computeRequestedAssetChangeBundles us outs ids iv fee = Inr bs"
    and "covers us outs ids iv" and "good_values outs" and "distinct ids"
    and "\<forall>i. 0 \<le> tokens_spend iv i" and "0 \<le> ic_deposit (implicitCoin iv)" and "0 \<le> fee"
    and fee: "getCoinQuantity outs + fee + ic_deposit (implicitCoin iv)
        \<le> getCoinQuantity (utxo_values us) + ic_input (implicitCoin iv)"
  shows "good_values bs \<and>
    getCoinQuantity (utxo_values us) + ic_input (implicitCoin iv) =
      getCoinQuantity outs + ic_deposit (implicitCoin iv) + fee + getCoinQuantity bs \<and>
    (\<forall>i. i \<in> set ids \<longrightarrow> assetQuantitySelector i (utxo_values us) + tokens_input iv i =
      assetQuantitySelector i outs + tokens_spend iv i + assetQuantitySelector i bs) \<and>
    (\<forall>i. i \<notin> set ids \<longrightarrow> (\<forall>b \<in> set bs. oqty (v_assets b) i = 0))"
proof -
  define req where "req = (\<lambda>i. assetQuantitySelector i outs + tokens_spend iv i)"
  define sel where "sel = (\<lambda>i. assetQuantitySelector i (utxo_values us) + tokens_input iv i)"
  define creq where "creq = getCoinQuantity outs + fee + ic_deposit (implicitCoin iv)"
  define cchange where "cchange = getCoinQuantity (utxo_values us) + ic_input (implicitCoin iv) - creq"
  have outs0: "0 \<le> getCoinQuantity outs" "0 \<le> assetQuantitySelector i outs" for i
    using assms(3) by (induction outs) (auto simp: value_nonneg_def)
  have tok: "totals_ok ids sel req"
    using assms(2,5) outs0(2) by (simp add: totals_ok_def covers_def req_def sel_def)
  have cc: "0 \<le> cchange" using fee by (simp add: cchange_def creq_def)
  obtain b where b: "createBundlePerOutput outs creq cchange (asset_totals_of ids sel req) = Inr b"
    using assms(1) unfolding computeRequestedAssetChangeBundles_def Let_def req_def sel_def creq_def cchange_def
    by blast
  define bs1 where "bs1 = (if 0 < cchange - totalCoinBundled b then
      (case bd_bundles b of [] \<Rightarrow> [\<lparr>v_coins = cchange - totalCoinBundled b, v_assets = None\<rparr>]
       | v # vs \<Rightarrow> v\<lparr>v_coins := v_coins v + (cchange - totalCoinBundled b)\<rparr> # vs) else bd_bundles b)"
  have bs: "bs = foldl (\<lambda>bs i. if 0 < sel i - req i - qty (totalAssetsBundled b) i
      then addAssetLost i (sel i - req i - qty (totalAssetsBundled b) i) bs else bs) bs1 ids"
    using assms(1) b unfolding computeRequestedAssetChangeBundles_def Let_def req_def [symmetric] sel_def [symmetric]
      creq_def [symmetric] cchange_def [symmetric] by (simp add: bs1_def)
  note ok = createBundlePerOutput_ok [OF b tok assms(3) cc, unfolded bundled_ok_def]
  have coin: "totalCoinBundled b \<le> cchange"
  proof (cases "0 < creq")
    case True
    have "getCoinQuantity outs \<le> creq" using assms(6,7) by (simp add: creq_def)
    then have "cchange * getCoinQuantity outs \<le> cchange * creq" using cc by (rule mult_left_mono)
    with ok have "creq * totalCoinBundled b \<le> creq * cchange" by (simp add: mult.commute)
    with True show ?thesis by simp
  next
    case False
    with ok cc show ?thesis by simp
  qed
  have bs1: "good_values bs1" "getCoinQuantity bs1 = cchange"
    "\<And>i. assetQuantitySelector i bs1 = assetQuantitySelector i (bd_bundles b)"
    "\<And>i. i \<notin> set ids \<Longrightarrow> \<forall>v \<in> set bs1. oqty (v_assets v) i = 0"
    using ok coin by (auto simp: bs1_def value_nonneg_def split: list.splits)
  have lost: "0 \<le> sel i - req i - qty (totalAssetsBundled b) i" if i: "i \<in> set ids" for i
  proof -
    let ?s = "assetQuantitySelector i (bd_bundles b)"
    have sh: "share_ok ids sel req i ?s (assetQuantitySelector i outs)" using ok i by blast
    have r: "0 \<le> req i" "req i \<le> sel i" "assetQuantitySelector i outs \<le> sel i"
      using tok i assms(5) by (simp_all add: totals_ok_def req_def) (smt (verit))
    have "?s \<le> sel i - req i"
    proof (cases "sel i = 0")
      case False
      have "(sel i - req i) * assetQuantitySelector i outs \<le> (sel i - req i) * sel i"
        using r by (intro mult_left_mono) simp_all
      with sh have "sel i * ?s \<le> sel i * (sel i - req i)" by (simp add: share_ok_def mult.commute)
      with False r show ?thesis by simp
    qed (use sh r in \<open>simp add: share_ok_def\<close>)
    with ok show ?thesis by simp
  qed
  note g = gains_assets_lost [OF bs1(1) assms(4), of "\<lambda>i. sel i - req i - qty (totalAssetsBundled b) i", folded bs]
  have tb: "qty (totalAssetsBundled b) i = assetQuantitySelector i (bd_bundles b)" for i using ok by blast
  have "getCoinQuantity bs = cchange" using g bs1(2) by (simp add: gains_def)
  moreover have "assetQuantitySelector i bs = sel i - req i" if i: "i \<in> set ids" for i
  proof -
    have "assetQuantitySelector i bs = assetQuantitySelector i bs1 + max 0 (sel i - req i - qty (totalAssetsBundled b) i)"
      using g i by (simp add: gains_def)
    with lost [OF i] tb [of i] bs1(3) [of i] show ?thesis by simp
  qed
  moreover have "\<forall>v \<in> set bs. oqty (v_assets v) i = 0" if i: "i \<notin> set ids" for i
    using g i bs1(4) [OF i] unfolding gains_def by simp
  ultimately have "good_values bs \<and> getCoinQuantity bs = cchange \<and>
      (\<forall>i. i \<in> set ids \<longrightarrow> assetQuantitySelector i bs = sel i - req i) \<and>
      (\<forall>i. i \<notin> set ids \<longrightarrow> (\<forall>v \<in> set bs. oqty (v_assets v) i = 0))"
    using gains_goodD [OF g] by blast
  then show ?thesis by (simp add: req_def sel_def creq_def cchange_def)
qed

end
