(* ===== verification/Change_Loop.thy ===== *)
theory Change_Loop
  imports Change_Totals
begin

text \<open>
  What the change computation promises as a whole: the change balances the selection for the fee, has
  the minimum coin quantity, and the loop that picks more inputs ends. The loop is verified against
  the interface of \<open>pickAdditionalUtxo\<close> (locale \<open>utxo_picker\<close>), which the selectors implement.
\<close>

subsection \<open>A balanced selection\<close>

text \<open>Inputs and implicit input are outputs, deposits, burned tokens, fee and change; for every asset.\<close>

definition balanced :: "utxo list \<Rightarrow> Value list \<Rightarrow> RequiredImplicitValue \<Rightarrow> int \<Rightarrow> Value list \<Rightarrow> bool" where
  "balanced us outs iv fee change \<longleftrightarrow>
     getCoinQuantity (utxo_values us) + ic_input (implicitCoin iv) =
       getCoinQuantity outs + ic_deposit (implicitCoin iv) + fee + getCoinQuantity change \<and>
     (\<forall>i. assetQuantitySelector i (utxo_values us) + tokens_input iv i =
       assetQuantitySelector i outs + tokens_spend iv i + assetQuantitySelector i change)"

text \<open>The arguments of a change computation: \<open>ids\<close> are all assets of the outputs and of the mint.\<close>

definition args_ok :: "Value list \<Rightarrow> asset_id list \<Rightarrow> RequiredImplicitValue \<Rightarrow> bool" where
  "args_ok outs ids iv \<longleftrightarrow> good_values outs \<and> distinct ids \<and> 0 \<le> ic_deposit (implicitCoin iv) \<and>
     (\<forall>i. 0 \<le> tokens_spend iv i) \<and>
     (\<forall>i. i \<notin> set ids \<longrightarrow> assetQuantitySelector i outs = 0 \<and> tokens_input iv i = 0 \<and> tokens_spend iv i = 0)"

definition fee_covered :: "utxo list \<Rightarrow> Value list \<Rightarrow> RequiredImplicitValue \<Rightarrow> int \<Rightarrow> bool" where
  "fee_covered us outs iv fee \<longleftrightarrow> 0 \<le> fee \<and>
     getCoinQuantity outs + fee + ic_deposit (implicitCoin iv)
       \<le> getCoinQuantity (utxo_values us) + ic_input (implicitCoin iv)"

text \<open>
  The minimum coin quantity of a change bundle. It is computed for the bundle itself, except that a
  bundle that was split off gets the quantity computed while its coin was still zero.
\<close>

definition meets_minimum :: "min_coin \<Rightarrow> Value \<Rightarrow> bool" where
  "meets_minimum mc v \<longleftrightarrow> mc v \<le> v_coins v \<or> v_assets v \<noteq> None \<and> mc (v\<lparr>v_coins := 0\<rparr>) \<le> v_coins v"

text \<open>The two agree when the minimum does not depend on the amount of coin in the output.\<close>

definition amount_free :: "min_coin \<Rightarrow> bool" where
  "amount_free mc \<longleftrightarrow> (\<forall>v c. mc (v\<lparr>v_coins := c\<rparr>) = mc v)"

lemma meets_minimum_free: "amount_free mc \<Longrightarrow> meets_minimum mc v \<Longrightarrow> mc v \<le> v_coins v"
  by (auto simp: amount_free_def meets_minimum_def)

lemma requested_redistributed:
  assumes "computeRequestedAssetChangeBundles us outs ids iv fee = Inr bs"
    and "covers us outs ids iv" and "args_ok outs ids iv" and "good_values (utxo_values us)"
    and "fee_covered us outs iv fee"
  defines "bs' \<equiv> redistributeLeftoverAssets us bs ids"
  shows "good_values bs' \<and> balanced us outs iv fee bs'"
proof -
  have ok: "good_values outs" "distinct ids" "\<forall>i. 0 \<le> tokens_spend iv i" "0 \<le> ic_deposit (implicitCoin iv)"
    "0 \<le> fee" using assms(3,5) by (simp_all add: args_ok_def fee_covered_def)
  note req = requested_bundles_totals [OF assms(1,2) ok assms(5) [unfolded fee_covered_def, THEN conjunct2]]
  have red: "good_values bs' \<and> getCoinQuantity bs' = getCoinQuantity bs \<and>
    (\<forall>i. assetQuantitySelector i bs' =
      assetQuantitySelector i bs + (if i \<in> set ids then 0 else assetQuantitySelector i (utxo_values us)))"
    unfolding bs'_def using req by (intro redistribute_totals [OF assms(4)]) blast+
  have "assetQuantitySelector i (utxo_values us) + tokens_input iv i =
      assetQuantitySelector i outs + tokens_spend iv i + assetQuantitySelector i bs'" for i
  proof (cases "i \<in> set ids")
    case True
    with req red show ?thesis by simp
  next
    case False
    then have "\<forall>b \<in> set bs. oqty (v_assets b) i = 0" using req by blast
    then have "assetQuantitySelector i bs = 0" by (induction bs) simp_all
    moreover have "assetQuantitySelector i outs = 0" "tokens_input iv i = 0" "tokens_spend iv i = 0"
      using assms(3) False by (simp_all add: args_ok_def)
    ultimately show ?thesis using red False by simp
  qed
  with req red show ?thesis by (simp add: balanced_def)
qed

lemma balanced_cong: "balanced us outs iv fee bs \<Longrightarrow> same_totals vs bs \<Longrightarrow> balanced us outs iv fee vs"
  by (simp add: balanced_def same_totals_def)

lemma splitBundle_minimum:
  assumes "splitBundle mc ex b = Inr vs" and "mc b \<le> v_coins b" and "v \<in> set vs"
  shows "meets_minimum mc v"
proof (cases "assets_or_empty b = [] \<or> \<not> ex (assets_or_empty b)")
  case True
  with assms show ?thesis by (auto simp: splitBundle_def Let_def meets_minimum_def)
next
  case False
  define f where "f = (\<lambda>m. \<lparr>v_coins = mc \<lparr>v_coins = 0, v_assets = Some m\<rparr>, v_assets = Some m\<rparr>)"
  obtain dn cur where fold: "foldl (splitAsset ex) ([], []) (assets_or_empty b) = (dn, cur)" by force
  define ms where "ms = dn @ [cur]"
  have "getCoinQuantity (map f ms) \<le> v_coins b \<and>
    vs = (case map f ms of [] \<Rightarrow> [] | w # ws \<Rightarrow> w\<lparr>v_coins := v_coins w + (v_coins b - getCoinQuantity (map f ms))\<rparr> # ws)"
    using assms(1) False fold unfolding splitBundle_def ms_def getCoinQuantity_def f_def
    by (simp add: Let_def not_less split: if_splits) (auto split: list.splits)
  then have vs: "getCoinQuantity (map f ms) \<le> v_coins b"
    "vs = (case map f ms of [] \<Rightarrow> [] | w # ws \<Rightarrow> w\<lparr>v_coins := v_coins w + (v_coins b - getCoinQuantity (map f ms))\<rparr> # ws)"
    by blast+
  then obtain m d where "v = (f m)\<lparr>v_coins := v_coins (f m) + d\<rparr>" "0 \<le> d"
  proof (cases ms)
    case (Cons m ns)
    show ?thesis
    proof (cases "v \<in> set (map f ns)")
      case True
      then obtain n where "v = (f n)\<lparr>v_coins := v_coins (f n) + 0\<rparr>" by auto
      then show ?thesis using that [of n 0] by simp
    next
      case False
      with vs Cons assms(3) show ?thesis using that [of m "v_coins b - getCoinQuantity (map f ms)"] by auto
    qed
  qed (use assms(3) in simp)
  then show ?thesis by (simp add: meets_minimum_def f_def)
qed

lemma split_minimum:
  assumes "splitChangeIfTokenBundlesSizeExceedsLimit bs mc ex = Inr vs" and "\<forall>b \<in> set bs. mc b \<le> v_coins b"
  shows "\<forall>v \<in> set vs. meets_minimum mc v"
proof -
  obtain vss where "list_all2 (\<lambda>b vs. splitBundle mc ex b = Inr vs) bs vss" and vs: "vs = concat vss"
    using assms(1) by (auto simp: splitChangeIfTokenBundlesSizeExceedsLimit_def emap_eq_Inr)
  from this(1) have "\<forall>v \<in> set (concat vss). meets_minimum mc v" using assms(2)
    by (induction rule: list_all2_induct) (auto intro: splitBundle_minimum)
  with vs show ?thesis by simp
qed

theorem computeChangeBundles_balanced:
  assumes "computeChangeBundles sel outs ids iv mc ex fee = Inr (Some vs)"
    and "covers (utxoSelected sel) outs ids iv" and "args_ok outs ids iv"
    and "good_values (utxo_values (utxoSelected sel))" and "fee_covered (utxoSelected sel) outs iv fee"
  shows "balanced (utxoSelected sel) outs iv fee vs \<and> (\<forall>v \<in> set vs. meets_minimum mc v)"
proof -
  obtain bs cs where bs: "computeRequestedAssetChangeBundles (utxoSelected sel) outs ids iv fee = Inr bs"
    and cs: "coalesceChangeBundlesForMinCoinRequirement
      (redistributeLeftoverAssets (utxoSelected sel) bs ids) mc = Some cs"
    and vs: "splitChangeIfTokenBundlesSizeExceedsLimit cs mc ex = Inr vs"
    using assms(1) by (auto simp: computeChangeBundles_def split: option.splits)
  note red = requested_redistributed [OF bs assms(2-5)]
  note co = coalesceChangeBundles_totals [OF conjunct1 [OF red] cs]
  have "balanced (utxoSelected sel) outs iv fee vs"
    using balanced_cong [OF balanced_cong [OF conjunct2 [OF red] co(2)] split_totals [OF vs co(1)]] .
  with split_minimum [OF vs co(3)] show ?thesis by simp
qed

subsection \<open>One round\<close>

definition within_limit :: "exceeds_limit \<Rightarrow> Value \<Rightarrow> bool" where
  "within_limit ex v \<longleftrightarrow> (case v_assets v of None \<Rightarrow> True | Some m \<Rightarrow> \<not> ex m)"

definition fees_nonneg :: "'r estimate_costs \<Rightarrow> bool" where
  "fees_nonneg est \<longleftrightarrow> (\<forall>us vs fee r. est us vs = Inr (fee, r) \<longrightarrow> 0 \<le> fee)"

text \<open>What a result of the change computation promises for the selected entries \<open>us\<close>.\<close>

definition change_ok :: "min_coin \<Rightarrow> exceeds_limit \<Rightarrow> 'r estimate_costs \<Rightarrow> Value list \<Rightarrow> RequiredImplicitValue \<Rightarrow>
    'r ChangeComputationResult \<Rightarrow> bool" where
  "change_ok mc ex est outs iv r \<longleftrightarrow>
     balanced (cr_inputs r) outs iv (cr_fee r) (cr_change r) \<and>
     (\<forall>v \<in> set (cr_change r). meets_minimum mc v \<and> within_limit ex v) \<and>
     0 \<le> cr_fee r \<and> (\<exists>vs. est (cr_inputs r) vs = Inr (cr_fee r, cr_redeemers r))"

lemma validateChangeBundles_Inr:
  "validateChangeBundles vs ex = Inr ws \<longleftrightarrow> ws = vs \<and> (\<forall>v \<in> set vs. within_limit ex v)"
  unfolding validateChangeBundles_def emap_throw_if
  by (auto simp: within_limit_def split: option.splits if_splits)

lemma changeRound_ok:
  assumes "changeRound sel outs ids iv mc ex est = Inr (Some r)"
    and "covers (utxoSelected sel) outs ids iv" and "args_ok outs ids iv"
    and "good_values (utxo_values (utxoSelected sel))" and "fees_nonneg est"
  shows "cr_inputs r = utxoSelected sel \<and> cr_remainingUTxO r = utxoRemaining sel \<and> change_ok mc ex est outs iv r"
proof -
  obtain vs fee red cs where est: "est (utxoSelected sel) vs = Inr (fee, red)"
    and fee: "\<not> getCoinQuantity (utxo_values (utxoSelected sel)) + ic_input (implicitCoin iv)
        < getCoinQuantity outs + fee + ic_deposit (implicitCoin iv)"
    and cs: "computeChangeBundles sel outs ids iv mc ex fee = Inr (Some cs)" "\<forall>v \<in> set cs. within_limit ex v"
    and r: "r = \<lparr>cr_remainingUTxO = utxoRemaining sel, cr_inputs = utxoSelected sel,
      cr_change = cs, cr_fee = fee, cr_redeemers = red\<rparr>"
    using assms(1) unfolding changeRound_def Let_def
    by (auto simp: validateChangeBundles_Inr split: option.splits if_splits prod.splits)
  have "0 \<le> fee" using assms(5) est unfolding fees_nonneg_def by blast
  moreover from this fee have "fee_covered (utxoSelected sel) outs iv fee" by (simp add: fee_covered_def)
  from computeChangeBundles_balanced [OF cs(1) assms(2-4) this] have
    "balanced (utxoSelected sel) outs iv fee cs \<and> (\<forall>v \<in> set cs. meets_minimum mc v)" .
  ultimately show ?thesis using est cs(2) by (auto simp: change_ok_def r)
qed

subsection \<open>The loop\<close>

text \<open>
  A result of the loop started with \<open>sel\<close>: it is made of the given entries, and what was selected
  before is still selected.
\<close>

definition loop_ok :: "min_coin \<Rightarrow> exceeds_limit \<Rightarrow> 'r estimate_costs \<Rightarrow> Value list \<Rightarrow> RequiredImplicitValue \<Rightarrow>
    UtxoSelection \<Rightarrow> 'r ChangeComputationResult result \<Rightarrow> bool" where
  "loop_ok mc ex est outs iv sel res \<longleftrightarrow> (\<forall>r. res = Inr r \<longrightarrow> change_ok mc ex est outs iv r \<and>
     mset (utxoSelected sel) \<subseteq># mset (cr_inputs r) \<and>
     mset (cr_inputs r) + mset (cr_remainingUTxO r) = mset (utxoSelected sel) + mset (utxoRemaining sel))"

lemma loop_ok_Inl [simp]: "loop_ok mc ex est outs iv sel (Inl e)"
  by (simp add: loop_ok_def)

lemma loop_ok_pick:
  assumes "loop_ok mc ex est outs iv \<lparr>utxoSelected = utxoSelected sel @ [u], utxoRemaining = rest\<rparr> res"
    and "mset (utxoRemaining sel) = add_mset u (mset rest)"
  shows "loop_ok mc ex est outs iv sel res"
  unfolding loop_ok_def
proof (intro allI impI)
  fix r assume "res = Inr r"
  with assms(1) have r: "change_ok mc ex est outs iv r"
    "mset (utxoSelected sel @ [u]) \<subseteq># mset (cr_inputs r)"
    "mset (cr_inputs r) + mset (cr_remainingUTxO r) = mset (utxoSelected sel @ [u]) + mset rest"
    by (simp_all add: loop_ok_def)
  have "mset (utxoSelected sel) \<subseteq># mset (utxoSelected sel @ [u])" by simp
  then have "mset (utxoSelected sel) \<subseteq># mset (cr_inputs r)" using r(2) by (rule subset_mset.order_trans)
  with r(1,3) assms(2) show "change_ok mc ex est outs iv r \<and> mset (utxoSelected sel) \<subseteq># mset (cr_inputs r) \<and>
      mset (cr_inputs r) + mset (cr_remainingUTxO r) = mset (utxoSelected sel) + mset (utxoRemaining sel)"
    by simp
qed

text \<open>The loop starts, and starts again after a pick, in such a state.\<close>

definition loop_pre :: "Value list \<Rightarrow> asset_id list \<Rightarrow> RequiredImplicitValue \<Rightarrow> UtxoSelection \<Rightarrow> bool" where
  "loop_pre outs ids iv sel \<longleftrightarrow> covers (utxoSelected sel) outs ids iv \<and>
     good_values (utxo_values (utxoSelected sel @ utxoRemaining sel))"

lemma set_utxo_values: "set (utxo_values us) = (\<lambda>u. out_value (snd u)) ` set us"
  by (simp add: utxo_values_def case_prod_beta)

lemma loop_pre_pick:
  assumes "loop_pre outs ids iv sel" and "mset (utxoRemaining sel) = add_mset u (mset rest)"
  shows "loop_pre outs ids iv \<lparr>utxoSelected = utxoSelected sel @ [u], utxoRemaining = rest\<rparr>"
proof -
  have "set (utxoRemaining sel) = insert u (set rest)"
    using assms(2) by (metis set_mset_add_mset_insert set_mset_mset)
  then have good: "\<forall>w \<in> insert u (set (utxoSelected sel) \<union> set rest). good_value (out_value (snd w))"
    using assms(1) unfolding loop_pre_def set_utxo_values by simp
  then have "covers (utxoSelected sel @ [u]) outs ids iv"
    using assms(1) by (intro covers_mono) (simp_all add: loop_pre_def)
  with good show ?thesis unfolding loop_pre_def set_utxo_values by simp
qed

text \<open>
  The contract of \<open>PickAdditionalUtxo\<close>: \<open>Picks one UTxO from remaining set and puts it to the selected
  set. Precondition: utxoRemaining.length > 0\<close>. A picker may depend on an environment, the random
  numbers, with its own assumption \<open>env_ok\<close>.
\<close>

locale utxo_picker =
  fixes pick :: "'e \<Rightarrow> pick_utxo" and env_ok :: "'e \<Rightarrow> bool"
  assumes picks_one: "env_ok e \<Longrightarrow> utxoRemaining s \<noteq> [] \<Longrightarrow>
    \<exists>u rest k'. pick e s k = Inr (\<lparr>utxoSelected = utxoSelected s @ [u], utxoRemaining = rest\<rparr>, k') \<and>
      mset (utxoRemaining s) = add_mset u (mset rest)"
begin

text \<open>The loop returns: there is a result or an error, for every constraint and every estimate.\<close>

lemma change_loop:
  assumes "env_ok e" and "loop_pre outs ids iv sel" and "args_ok outs ids iv" and "fees_nonneg est"
  shows "\<exists>res. computeChangeAndAdjustForFee (pick e) outs ids iv mc ex est sel k = Some res \<and>
    loop_ok mc ex est outs iv sel res"
  using assms(2)
proof (induction "length (utxoRemaining sel)" arbitrary: sel k rule: less_induct)
  case less
  note unfold = computeChangeAndAdjustForFee.simps [of "pick e" outs ids iv mc ex est sel k]
  consider (error) err where "changeRound sel outs ids iv mc ex est = Inl err"
    | (result) r where "changeRound sel outs ids iv mc ex est = Inr (Some r)"
    | (depleted) "changeRound sel outs ids iv mc ex est = Inr None" "utxoRemaining sel = []"
    | (again) "changeRound sel outs ids iv mc ex est = Inr None" "utxoRemaining sel \<noteq> []"
    by (metis obj_sumE option.exhaust)
  then show ?case
  proof cases
    case result
    have "covers (utxoSelected sel) outs ids iv" "good_values (utxo_values (utxoSelected sel))"
      using less.prems by (simp_all add: loop_pre_def)
    from changeRound_ok [OF result this(1) assms(3) this(2) assms(4)] result show ?thesis
      by (simp add: unfold loop_ok_def)
  next
    case again
    obtain u rest k' where p: "pick e sel k = Inr (\<lparr>utxoSelected = utxoSelected sel @ [u], utxoRemaining = rest\<rparr>, k')"
      and m: "mset (utxoRemaining sel) = add_mset u (mset rest)"
      using picks_one [OF assms(1) again(2)] by blast
    let ?sel = "\<lparr>utxoSelected = utxoSelected sel @ [u], utxoRemaining = rest\<rparr>"
    have "length rest < length (utxoRemaining sel)" using m by (metis size_add_mset size_mset lessI)
    with less.hyps [of ?sel k'] loop_pre_pick [OF less.prems m]
    obtain res where "computeChangeAndAdjustForFee (pick e) outs ids iv mc ex est ?sel k' = Some res"
      and "loop_ok mc ex est outs iv ?sel res" by auto
    with loop_ok_pick [OF _ m] again p show ?thesis by (auto simp: unfold)
  qed (simp_all add: unfold)
qed

end

end
