(* ===== verification/Js_Collections.thy ===== *)
theory Js_Collections
  imports Prelude "HOL-Library.Multiset"
begin

text \<open>
  Collections of the language's standard library that the serialization classes and the selectors
  share: sorting with a comparator, and \<open>Map\<close>, which iterates in insertion order and keeps the place
  of a key that is set again, as an association list.
\<close>

subsection \<open>Sorting\<close>

text \<open>
  \<open>Array.sort\<close> with a comparator is stable.
\<close>

fun insort_cmp :: "('a \<Rightarrow> 'a \<Rightarrow> int) \<Rightarrow> 'a \<Rightarrow> 'a list \<Rightarrow> 'a list" where
  "insort_cmp cmp x [] = [x]"
| "insort_cmp cmp x (y # ys) = (if cmp x y \<le> 0 then x # y # ys else y # insort_cmp cmp x ys)"

definition js_sort :: "('a \<Rightarrow> 'a \<Rightarrow> int) \<Rightarrow> 'a list \<Rightarrow> 'a list" where
  "js_sort cmp xs = foldr (insort_cmp cmp) xs []"

lemma mset_insort_cmp [simp]: "mset (insort_cmp cmp x xs) = add_mset x (mset xs)"
  by (induction xs) auto

lemma mset_js_sort [simp]: "mset (js_sort cmp xs) = mset xs"
  unfolding js_sort_def by (induction xs) auto

lemma set_js_sort [simp]: "set (js_sort cmp xs) = set xs"
  by (metis mset_js_sort set_mset_mset)

text \<open>
  A consistent comparator, which \<open>Array.sort\<close> requires for its result to be sorted. It may depend on
  an environment, here the collation of the host.
\<close>

locale comparator =
  fixes cmp :: "'e \<Rightarrow> 'a \<Rightarrow> 'a \<Rightarrow> int" and env_ok :: "'e \<Rightarrow> bool"
  assumes cmp_total: "env_ok e \<Longrightarrow> cmp e x y \<le> 0 \<or> cmp e y x \<le> 0"
    and cmp_trans: "env_ok e \<Longrightarrow> cmp e x y \<le> 0 \<Longrightarrow> cmp e y z \<le> 0 \<Longrightarrow> cmp e x z \<le> 0"
begin

lemma sorted_insort:
  assumes "env_ok e" and "sorted_wrt (\<lambda>x y. cmp e x y \<le> 0) xs"
  shows "sorted_wrt (\<lambda>x y. cmp e x y \<le> 0) (insort_cmp (cmp e) x xs)"
  using assms(2)
proof (induction xs)
  case (Cons y ys)
  have "set (insort_cmp (cmp e) x ys) = insert x (set ys)"
    by (metis mset_insort_cmp set_mset_mset set_mset_add_mset_insert)
  with Cons cmp_total [OF assms(1), of x y] cmp_trans [OF assms(1), of x y] show ?case by auto
qed simp

lemma sorted_js_sort: "env_ok e \<Longrightarrow> sorted_wrt (\<lambda>x y. cmp e x y \<le> 0) (js_sort (cmp e) xs)"
  unfolding js_sort_def by (induction xs) (simp_all add: sorted_insort)

end


text \<open>
  Sorting is determined by the elements alone when the comparator tells different elements apart.
\<close>

lemma sorted_wrt_unique:
  assumes "sorted_wrt R xs" and "sorted_wrt R ys" and "mset xs = mset ys"
    and "\<And>x y. x \<in> set xs \<Longrightarrow> y \<in> set xs \<Longrightarrow> R x y \<Longrightarrow> R y x \<Longrightarrow> x = y"
  shows "xs = ys"
  using assms
proof (induction xs arbitrary: ys)
  case (Cons x xs)
  then obtain y zs where ys: "ys = y # zs" by (cases ys) auto
  have sets: "set (x # xs) = set (y # zs)" using Cons.prems(3) ys by (metis set_mset_mset)
  have "x = y"
  proof (rule ccontr)
    assume "x \<noteq> y"
    with sets have "y \<in> set xs" "x \<in> set zs" by auto
    with Cons.prems ys have "R x y" "R y x" by auto
    with Cons.prems(4) \<open>y \<in> set xs\<close> \<open>x \<noteq> y\<close> show False by simp
  qed
  moreover have "xs = zs"
    by (rule Cons.IH) (use Cons.prems ys \<open>x = y\<close> in auto)
  ultimately show ?case using ys by simp
qed simp

subsection \<open>Maps\<close>

fun map_set :: "'k \<Rightarrow> 'v \<Rightarrow> ('k \<times> 'v) list \<Rightarrow> ('k \<times> 'v) list" where
  "map_set k v [] = [(k, v)]"
| "map_set k v ((k', v') # m) = (if k' = k then (k, v) # m else (k', v') # map_set k v m)"

text \<open>\<open>new Map(entries)\<close>\<close>

definition new_Map :: "('k \<times> 'v) list \<Rightarrow> ('k \<times> 'v) list" where
  "new_Map es = foldl (\<lambda>m (k, v). map_set k v m) [] es"

lemma map_of_map_set [simp]: "map_of (map_set k v m) = (map_of m)(k \<mapsto> v)"
  by (induction m) auto

lemma keys_map_set: "fst ` set (map_set k v m) = insert k (fst ` set m)"
  by (simp add: dom_map_of_conv_image_fst [symmetric])

lemma distinct_map_set [simp]: "distinct (map fst m) \<Longrightarrow> distinct (map fst (map_set k v m))"
proof (induction m)
  case (Cons e m)
  then show ?case using keys_map_set [of k v m] by (cases e) auto
qed simp

lemma map_set_fresh [simp]: "k \<notin> fst ` set m \<Longrightarrow> map_set k v m = m @ [(k, v)]"
  by (induction m) auto

lemma foldl_map_set_fresh:
  "distinct (map fst (m @ es)) \<Longrightarrow> foldl (\<lambda>m (k, v). map_set k v m) m es = m @ es"
proof (induction es arbitrary: m)
  case (Cons e es)
  then show ?case using Cons.IH [of "m @ [e]"] by (cases e) auto
qed simp

lemma new_Map_distinct [simp]: "distinct (map fst es) \<Longrightarrow> new_Map es = es"
  using foldl_map_set_fresh [of "[]" es] by (simp add: new_Map_def)

end
