(* ===== verification/Selection.thy ===== *)
theory Selection
  imports Change_Loop Js_Collections
begin

text \<open>
  What the input selectors share: the selection and its constraints (\<open>input-selection/src/types.ts\<close>),
  the order of inputs (\<open>core/src/util/utxo.ts\<close>), the change address resolvers
  (\<open>input-selection/src/ChangeAddress\<close>), and what a selection promises. The callbacks of
  \<open>SelectionConstraints\<close> are fields of the record of constraints; a promise that is rejected is an
  error of the result type. A JavaScript \<open>Set\<close> of entries is the list of them in insertion order.
\<close>

record SelectionSkeleton =
  sk_inputs :: "utxo list"
  sk_outputs :: "TxOut list"
  sk_change :: "TxOut list"
  sk_fee :: int

record 'r SelectionResult =
  sr_selection :: SelectionSkeleton
  sr_remainingUTxO :: "utxo list"
  sr_redeemers :: "'r option"

record 'r SelectionConstraints =
  computeMinimumCost :: "SelectionSkeleton \<Rightarrow> (int \<times> 'r option) result"
  tokenBundleSizeExceedsLimit :: "token_map \<Rightarrow> bool"
  computeMinimumCoinQuantity :: "TxOut \<Rightarrow> int"
  computeSelectionLimit :: "SelectionSkeleton \<Rightarrow> int result"

definition MAX_U64 :: int where
  "MAX_U64 = 18446744073709551615"

definition stubMaxSizeAddress :: string where
  "stubMaxSizeAddress = ''addr_test1qqydn46r6mhge0kfpqmt36m6q43knzsd9ga32n96m89px3nuzcjqw982pcftgx53fu5527z2cj2tkx2h8ux2vxsg475qypp3m9''"

text \<open>Outputs at the stub address, and the callbacks of the change computation.\<close>

definition stub_outputs :: "Value list \<Rightarrow> TxOut list" where
  "stub_outputs vs = map (\<lambda>v. \<lparr>out_address = stubMaxSizeAddress, out_value = v\<rparr>) vs"

definition minCoin_of :: "'r SelectionConstraints \<Rightarrow> min_coin" where
  "minCoin_of con v = computeMinimumCoinQuantity con \<lparr>out_address = stubMaxSizeAddress, out_value = v\<rparr>"

definition estimateTxCosts :: "'r SelectionConstraints \<Rightarrow> TxOut list \<Rightarrow> ('r option) estimate_costs" where
  "estimateTxCosts con outputSet utxos changeValues =
     computeMinimumCost con \<lparr>sk_inputs = js_uniq utxos, sk_outputs = outputSet,
       sk_change = stub_outputs changeValues, sk_fee = MAX_U64\<rparr>"

subsection \<open>The order of inputs\<close>

text \<open>\<open>localeCompare\<close> is left to the implementation by ECMAScript, so it is a parameter.\<close>

definition sortTxIn :: "(string \<Rightarrow> string \<Rightarrow> int) \<Rightarrow> TxIn \<Rightarrow> TxIn \<Rightarrow> int" where
  "sortTxIn localeCompare lhs rhs =
     (let txIdComparison = localeCompare (txId lhs) (txId rhs) in
      if txIdComparison \<noteq> 0 then txIdComparison else int (txIndex lhs) - int (txIndex rhs))"

definition sortUtxoByTxIn :: "(string \<Rightarrow> string \<Rightarrow> int) \<Rightarrow> utxo \<Rightarrow> utxo \<Rightarrow> int" where
  "sortUtxoByTxIn localeCompare lhs rhs = sortTxIn localeCompare (fst lhs) (fst rhs)"

text \<open>What ECMA-402 says of \<open>localeCompare\<close>: it is a consistent comparator.\<close>

definition compare_ok :: "(string \<Rightarrow> string \<Rightarrow> int) \<Rightarrow> bool" where
  "compare_ok lc \<longleftrightarrow> (\<forall>x y. sgn (lc y x) = - sgn (lc x y)) \<and>
     (\<forall>x y z. lc x y \<le> 0 \<longrightarrow> lc y z \<le> 0 \<longrightarrow> lc x z \<le> 0)"

lemma compare_okD:
  assumes "compare_ok lc"
  shows "0 \<le> lc x y \<longleftrightarrow> lc y x \<le> 0" and "lc x y = 0 \<longleftrightarrow> lc y x = 0"
  using assms [unfolded compare_ok_def, THEN conjunct1, rule_format, of x y]
  by (simp_all add: sgn_if split: if_splits)

interpretation tx_in_order: comparator sortTxIn compare_ok
proof unfold_locales
  fix lc :: "string \<Rightarrow> string \<Rightarrow> int" and x y z :: TxIn
  assume lc: "compare_ok lc"
  note flip = compare_okD [OF lc]
  show "sortTxIn lc x y \<le> 0 \<or> sortTxIn lc y x \<le> 0"
    using flip [of "txId x" "txId y"] by (auto simp: sortTxIn_def Let_def)
  have tr: "lc a b \<le> 0 \<Longrightarrow> lc b c \<le> 0 \<Longrightarrow> lc a c \<le> 0" for a b c using lc unfolding compare_ok_def by blast
  show "sortTxIn lc x z \<le> 0" if "sortTxIn lc x y \<le> 0" "sortTxIn lc y z \<le> 0"
    using that tr [of "txId x" "txId y" "txId z"] tr [of "txId y" "txId z" "txId x"] tr [of "txId z" "txId x" "txId y"]
      flip [of "txId x" "txId y"] flip [of "txId y" "txId z"] flip [of "txId x" "txId z"]
    by (auto simp: sortTxIn_def Let_def split: if_splits)
qed

interpretation utxo_order: comparator sortUtxoByTxIn compare_ok
  by unfold_locales
    (auto simp: sortUtxoByTxIn_def dest: tx_in_order.cmp_total intro: tx_in_order.cmp_trans)

subsection \<open>Change addresses\<close>

text \<open>The known addresses are an argument; the resolver gives all change to the first of them.\<close>

definition StaticChangeAddressResolver_resolve :: "string list \<Rightarrow> SelectionSkeleton \<Rightarrow> TxOut list result" where
  "StaticChangeAddressResolver_resolve groupedAddresses selection =
     (case groupedAddresses of
        [] \<Rightarrow> Inl InvalidStateError
      | a # _ \<Rightarrow> Inr (map (\<lambda>txOut. txOut\<lparr>out_address := a\<rparr>) (sk_change selection)))"

text \<open>The contract of a \<open>ChangeAddressResolver\<close>: it changes addresses, not values.\<close>

locale change_address_resolver =
  fixes resolve :: "'e \<Rightarrow> SelectionSkeleton \<Rightarrow> TxOut list result"
  assumes resolve_values: "resolve e s = Inr outs \<Longrightarrow> mset (out_values outs) = mset (out_values (sk_change s))"
begin

lemma resolve_stub:
  "resolve e s = Inr outs \<Longrightarrow> sk_change s = stub_outputs vs \<Longrightarrow> mset (out_values outs) = mset vs"
  by (drule resolve_values) (simp add: stub_outputs_def out_values_def multiset.map_comp comp_def)

end

interpretation static_resolver: change_address_resolver StaticChangeAddressResolver_resolve
  by unfold_locales
    (auto simp: StaticChangeAddressResolver_resolve_def out_values_def multiset.map_comp comp_def split: list.splits)

subsection \<open>The arguments\<close>

lemma requiredImplicitValue_tokens:
  assumes "otm_wf (iv_mint iv)"
  shows "tokens_input (requiredImplicitValue iv) i = max 0 (oqty (iv_mint iv) i)"
    and "tokens_spend (requiredImplicitValue iv) i = max 0 (- oqty (iv_mint iv) i)"
proof -
  define m where "m = (case iv_mint iv of None \<Rightarrow> [] | Some m \<Rightarrow> m)"
  have wf: "tm_wf m" and q: "oqty (iv_mint iv) i = qty m i"
    using assms by (cases "iv_mint iv"; simp add: m_def)+
  have inp: "tokens_input (requiredImplicitValue iv) = qty (tm_sets [] (filter (\<lambda>(_, q). 0 < q) m))"
    and spend: "tokens_spend (requiredImplicitValue iv) =
      qty (tm_sets [] (map (\<lambda>(k, q). (k, - q)) (filter (\<lambda>(_, q). q < 0) m)))"
    by (simp_all add: requiredImplicitValue_def mintToImplicitTokens_def m_def Let_def)
  show "tokens_input (requiredImplicitValue iv) i = max 0 (oqty (iv_mint iv) i)"
    unfolding inp q using wf
    by (auto simp: qty_def map_of_tm_sets distinct_filter_keys map_of_filter split: option.splits)
  show "tokens_spend (requiredImplicitValue iv) i = max 0 (- oqty (iv_mint iv) i)"
    unfolding spend q using wf
    by (auto simp: qty_def map_of_tm_sets_neg distinct_filter_keys map_of_filter split: option.splits)
qed

lemma preProcessArgs_ok:
  assumes "good_values (out_values outs)" and "otm_wf (iv_mint iv)"
    and "0 \<le> ic_deposit (implicitCoin (requiredImplicitValue iv))"
  shows "args_ok (out_values outs) (pa_uniqueTxAssetIDs (preProcessArgs pre us outs iv)) (requiredImplicitValue iv)"
proof -
  let ?ids = "pa_uniqueTxAssetIDs (preProcessArgs pre us outs iv)"
  have zero: "assetQuantitySelector i (out_values outs) = 0 \<and> oqty (iv_mint iv) i = 0" if "i \<notin> set ?ids" for i
  proof -
    have "\<forall>v \<in> set (out_values outs). oqty (v_assets v) i = 0" and "oqty (iv_mint iv) i = 0"
      using that by (auto simp: preProcessArgs_def Let_def oqty_def qty_absent tm_has_set split: option.splits)
    moreover have "assetQuantitySelector i vs = 0" if "\<forall>v \<in> set vs. oqty (v_assets v) i = 0" for vs
      using that by (induction vs) simp_all
    ultimately show ?thesis by blast
  qed
  have "distinct ?ids" by (simp add: preProcessArgs_def Let_def)
  with zero assms show ?thesis by (simp add: args_ok_def requiredImplicitValue_tokens)
qed

lemma preProcessArgs_fields:
  "pa_requiredUtxo (preProcessArgs pre us outs iv) = pre" "pa_utxo (preProcessArgs pre us outs iv) = us"
  "pa_outputs (preProcessArgs pre us outs iv) = outs"
  "pa_implicitValue (preProcessArgs pre us outs iv) = requiredImplicitValue iv"
  by (simp_all add: preProcessArgs_def Let_def)

subsection \<open>What a selection promises\<close>

definition costs_nonneg :: "'r SelectionConstraints \<Rightarrow> bool" where
  "costs_nonneg con \<longleftrightarrow> (\<forall>s fee r. computeMinimumCost con s = Inr (fee, r) \<longrightarrow> 0 \<le> fee)"

text \<open>
  The transaction balances, the inputs are taken from the given entries and include the required
  ones, nothing is lost, and the inputs are in order and within the limit.
\<close>

definition selection_ok :: "(string \<Rightarrow> string \<Rightarrow> int) \<Rightarrow> 'r SelectionConstraints \<Rightarrow> utxo list \<Rightarrow> utxo list \<Rightarrow>
    TxOut list \<Rightarrow> ImplicitValue \<Rightarrow> 'r SelectionResult \<Rightarrow> bool" where
  "selection_ok lc con pre us outs iv r \<longleftrightarrow>
     (let s = sr_selection r in
      balanced (sk_inputs s) (out_values outs) (requiredImplicitValue iv) (sk_fee s) (out_values (sk_change s)) \<and>
      0 \<le> sk_fee s \<and> sk_outputs s = outs \<and> distinct (sk_inputs s) \<and> set pre \<subseteq> set (sk_inputs s) \<and>
      mset (sk_inputs s) + mset (sr_remainingUTxO r) = mset pre + mset us \<and>
      sorted_wrt (\<lambda>x y. sortUtxoByTxIn lc x y \<le> 0) (sk_inputs s) \<and>
      (\<exists>inputs limit. set inputs = set (sk_inputs s) \<and>
         computeSelectionLimit con (s\<lparr>sk_inputs := inputs\<rparr>) = Inr limit \<and> int (length (sk_inputs s)) \<le> limit) \<and>
      (\<forall>c \<in> set (sk_change s). meets_minimum (minCoin_of con) (out_value c) \<and>
         within_limit (tokenBundleSizeExceedsLimit con) (out_value c)))"

lemma change_minimum:
  assumes "selection_ok lc con pre us outs iv r"
  shows "\<forall>v \<in> set (out_values (sk_change (sr_selection r))). within_limit (tokenBundleSizeExceedsLimit con) v \<and>
    (minCoin_of con v \<le> v_coins v \<or> v_assets v \<noteq> None \<and> minCoin_of con (v\<lparr>v_coins := 0\<rparr>) \<le> v_coins v) \<and>
    (amount_free (minCoin_of con) \<longrightarrow> minCoin_of con v \<le> v_coins v)"
  using assms meets_minimum_free by (fastforce simp: selection_ok_def Let_def out_values_def meets_minimum_def)

lemma js_uniq_distinct: "distinct xs \<Longrightarrow> js_uniq xs = xs"
  by (simp add: js_uniq_def distinct_remdups_id)

lemma distinct_parts:
  assumes "mset xs + mset ys = mset zs" and "distinct zs"
  shows "distinct xs" and "distinct ys"
  using assms mset_eq_imp_distinct_iff [of "xs @ ys" zs] by simp_all

lemma balanced_mset:
  assumes "balanced us outs iv fee cs" and "mset us = mset us'" and "mset cs = mset cs'"
  shows "balanced us' outs iv fee cs'"
  using assms(1) quantity_mset_cong [OF mset_utxo_values [OF assms(2)]] quantity_mset_cong [OF assms(3)]
  by (simp add: balanced_def)

text \<open>
  The last steps of a selector: from a result of the change computation to the selection, with the
  change that the resolver returns.
\<close>

lemma selection_okI:
  assumes r: "change_ok (minCoin_of con) (tokenBundleSizeExceedsLimit con) (estimateTxCosts con outs)
      (out_values outs) (requiredImplicitValue iv) r"
    and part: "mset (cr_inputs r) + mset (cr_remainingUTxO r) = mset pre + mset us" and "distinct (pre @ us)"
    and pre: "set pre \<subseteq> set (cr_inputs r)" and change: "mset (out_values change) = mset (cr_change r)"
    and limit: "computeSelectionLimit con \<lparr>sk_inputs = js_uniq (cr_inputs r), sk_outputs = outs,
      sk_change = change, sk_fee = cr_fee r\<rparr> = Inr limit" "int (length (cr_inputs r)) \<le> limit"
    and "compare_ok lc"
  shows "selection_ok lc con pre us outs iv
    \<lparr>sr_selection = \<lparr>sk_inputs = js_sort (sortUtxoByTxIn lc) (js_uniq (cr_inputs r)), sk_outputs = outs,
       sk_change = change, sk_fee = cr_fee r\<rparr>,
     sr_remainingUTxO = js_uniq (cr_remainingUTxO r), sr_redeemers = red\<rparr>"
proof -
  let ?in = "js_sort (sortUtxoByTxIn lc) (js_uniq (cr_inputs r))"
  have d: "distinct (cr_inputs r)" "distinct (cr_remainingUTxO r)"
    using distinct_parts [of "cr_inputs r" "cr_remainingUTxO r" "pre @ us"] part assms(3) by simp_all
  have m: "mset ?in = mset (cr_inputs r)" using d by (simp add: js_uniq_distinct)
  have "balanced ?in (out_values outs) (requiredImplicitValue iv) (cr_fee r) (out_values change)"
    using r m change by (auto simp: change_ok_def intro: balanced_mset)
  moreover have "meets_minimum (minCoin_of con) (out_value c) \<and>
      within_limit (tokenBundleSizeExceedsLimit con) (out_value c)" if "c \<in> set change" for c
  proof -
    have "out_value c \<in># mset (out_values change)" using that by (simp add: out_values_def)
    then have "out_value c \<in> set (cr_change r)" unfolding change by simp
    with r show ?thesis by (simp add: change_ok_def)
  qed
  moreover have "set ?in = set (cr_inputs r)" "distinct ?in" "length ?in = length (cr_inputs r)"
    using m d(1) by (simp, metis mset_eq_imp_distinct_iff, metis size_mset)
  ultimately show ?thesis
    using r part pre limit m d utxo_order.sorted_js_sort [OF assms(8)]
    by (auto simp: selection_ok_def Let_def change_ok_def js_uniq_distinct)
qed

lemma estimate_nonneg: "costs_nonneg con \<Longrightarrow> fees_nonneg (estimateTxCosts con outs)"
  by (auto simp: costs_nonneg_def fees_nonneg_def estimateTxCosts_def)

end
