(* ===== verification/Round_Robin.thy ===== *)
theory Round_Robin
  imports Selection
begin

text \<open>
  The round-robin random-improve selector (\<open>input-selection/src/RoundRobinRandomImprove/index.ts\<close>):
  check, select, compute the change, resolve its addresses, check the limit and sort the inputs.
\<close>

text \<open>
  An index outside the candidates would add \<open>undefined\<close> to the selection, on which the next round
  fails.
\<close>

definition createPickAdditionalRandomUtxo :: "random_index \<Rightarrow> pick_utxo" where
  "createPickAdditionalRandomUtxo ri s k =
     (let remainingUtxoOfOnlyCoin = filter (\<lambda>(_, out). v_assets (out_value out) = None) (utxoRemaining s);
          pickFrom = (if 0 < length remainingUtxoOfOnlyCoin then remainingUtxoOfOnlyCoin else utxoRemaining s);
          pickIdx = ri k (length pickFrom)
      in if length pickFrom \<le> pickIdx then Inl TypeError
         else Inr (\<lparr>utxoSelected = utxoSelected s @ [pickFrom ! pickIdx],
                    utxoRemaining = remove1 (pickFrom ! pickIdx) (utxoRemaining s)\<rparr>, Suc k))"

definition roundRobinRandomImprove ::
    "(string \<Rightarrow> string \<Rightarrow> int) \<Rightarrow> random_index \<Rightarrow> (SelectionSkeleton \<Rightarrow> TxOut list result) \<Rightarrow>
     'r SelectionConstraints \<Rightarrow> utxo list \<Rightarrow> utxo list \<Rightarrow> TxOut list \<Rightarrow> ImplicitValue \<Rightarrow>
     'r SelectionResult result option" where
  "roundRobinRandomImprove localeCompare ri resolve con preSelectedUtxoSet utxoSet outputSet partialImplicitValue =
     (let args = preProcessArgs preSelectedUtxoSet utxoSet outputSet partialImplicitValue;
          requiredUtxo = pa_requiredUtxo args; utxo = pa_utxo args; outputs = pa_outputs args;
          ids = pa_uniqueTxAssetIDs args; iv = pa_implicitValue args
      in (case ebind (assertIsBalanceSufficient ids requiredUtxo utxo outputs iv)
                 (\<lambda>_. roundRobinSelection ri requiredUtxo utxo outputs ids iv) of
            Inl e \<Rightarrow> Some (Inl e)
          | Inr (sel, k) \<Rightarrow>
              (case computeChangeAndAdjustForFee (createPickAdditionalRandomUtxo ri) (out_values outputs) ids iv
                      (minCoin_of con) (tokenBundleSizeExceedsLimit con) (estimateTxCosts con outputSet) sel k of
                 None \<Rightarrow> None
               | Some res \<Rightarrow> Some (ebind res (\<lambda>result.
                   let inputs = js_uniq (cr_inputs result);
                       selection = \<lparr>sk_inputs = inputs, sk_outputs = outputSet,
                         sk_change = stub_outputs (cr_change result), sk_fee = cr_fee result\<rparr>
                   in ebind (resolve selection) (\<lambda>change.
                      ebind (computeSelectionLimit con \<lparr>sk_inputs = inputs, sk_outputs = outputSet,
                        sk_change = change, sk_fee = cr_fee result\<rparr>) (\<lambda>limit.
                        if limit < int (length (cr_inputs result))
                        then Inl (InputSelectionError MaximumInputCountExceeded)
                        else Inr \<lparr>sr_selection = \<lparr>sk_inputs = js_sort (sortUtxoByTxIn localeCompare) inputs,
                                  sk_outputs = outputSet, sk_change = change, sk_fee = cr_fee result\<rparr>,
                                sr_remainingUTxO = js_uniq (cr_remainingUTxO result),
                                sr_redeemers = cr_redeemers result\<rparr>)))))))"

subsection \<open>The picker\<close>

lemma pick_nth:
  assumes "random_ok ri" and "pickFrom \<noteq> []" and "set pickFrom \<subseteq> set us"
  shows "ri k (length pickFrom) < length pickFrom" and "pickFrom ! ri k (length pickFrom) \<in> set us"
  using assms by (auto simp: random_ok_def intro: subsetD [OF _ nth_mem])

interpretation random_picker: utxo_picker createPickAdditionalRandomUtxo random_ok
proof unfold_locales
  fix ri :: random_index and s :: UtxoSelection and k
  assume ok: "random_ok ri" and ne: "utxoRemaining s \<noteq> []"
  let ?coin = "filter (\<lambda>(_, out). v_assets (out_value out) = None) (utxoRemaining s)"
  define cands where "cands = (if 0 < length ?coin then ?coin else utxoRemaining s)"
  have "cands \<noteq> []" "set cands \<subseteq> set (utxoRemaining s)" using ne by (auto simp: cands_def)
  note p = pick_nth [OF ok this, of k]
  let ?u = "cands ! ri k (length cands)"
  have "createPickAdditionalRandomUtxo ri s k =
      Inr (\<lparr>utxoSelected = utxoSelected s @ [?u], utxoRemaining = remove1 ?u (utxoRemaining s)\<rparr>, Suc k)"
    using p(1) unfolding createPickAdditionalRandomUtxo_def cands_def [symmetric] Let_def by simp
  moreover have "mset (utxoRemaining s) = add_mset ?u (mset (remove1 ?u (utxoRemaining s)))"
    using p(2) by simp
  ultimately show "\<exists>u rest k'. createPickAdditionalRandomUtxo ri s k =
      Inr (\<lparr>utxoSelected = utxoSelected s @ [u], utxoRemaining = rest\<rparr>, k') \<and>
      mset (utxoRemaining s) = add_mset u (mset rest)" by blast
qed

subsection \<open>The selector\<close>

context change_address_resolver
begin

lemma round_robin_select:
  assumes "random_ok ri" and "compare_ok lc" and "costs_nonneg con"
    and good: "good_values (utxo_values (pre @ us))" "good_values (out_values outs)" and "distinct (pre @ us)"
    and "otm_wf (iv_mint iv)" and "0 \<le> ic_deposit (implicitCoin (requiredImplicitValue iv))"
  shows "\<exists>res. roundRobinRandomImprove lc ri (resolve e) con pre us outs iv = Some res \<and>
    (\<forall>r. res = Inr r \<longrightarrow> selection_ok lc con pre us outs iv r)"
proof -
  let ?ids = "pa_uniqueTxAssetIDs (preProcessArgs pre us outs iv)" and ?iv = "requiredImplicitValue iv"
  note unf = roundRobinRandomImprove_def [of lc ri "resolve e" con pre us outs iv, unfolded preProcessArgs_fields Let_def]
  show ?thesis
  proof (cases "assertIsBalanceSufficient ?ids pre us outs ?iv")
    case (Inl err)
    then show ?thesis by (simp add: unf)
  next
    case (Inr u)
    have nonneg: "\<forall>u \<in> set (pre @ us). utxo_nonneg u" using good(1) unfolding set_utxo_values by blast
    obtain sel k where sel: "roundRobinSelection ri pre us outs ?ids ?iv = Inr (sel, k)"
      "covers (utxoSelected sel) (out_values outs) ?ids ?iv" "mset pre \<subseteq># mset (utxoSelected sel)"
      "mset (utxoSelected sel) + mset (utxoRemaining sel) = mset pre + mset us"
      using roundRobinSelection_covers [OF assms(1) nonneg, of ?ids outs ?iv] Inr by auto
    have "set (utxoSelected sel @ utxoRemaining sel) = set (pre @ us)"
      using arg_cong [OF sel(4), of set_mset] by simp
    then have "loop_pre (out_values outs) ?ids ?iv sel"
      using sel(2) good(1) unfolding loop_pre_def set_utxo_values by simp
    from random_picker.change_loop [OF assms(1) this preProcessArgs_ok [OF good(2) assms(7,8)]
        estimate_nonneg [OF assms(3)]]
    obtain res where res: "computeChangeAndAdjustForFee (createPickAdditionalRandomUtxo ri) (out_values outs) ?ids ?iv
        (minCoin_of con) (tokenBundleSizeExceedsLimit con) (estimateTxCosts con outs) sel k = Some res"
      and ok: "loop_ok (minCoin_of con) (tokenBundleSizeExceedsLimit con) (estimateTxCosts con outs)
        (out_values outs) ?iv sel res" by blast
    have "selection_ok lc con pre us outs iv r"
      if r: "roundRobinRandomImprove lc ri (resolve e) con pre us outs iv = Some (Inr r)" for r
    proof -
      obtain cr where cr: "res = Inr cr" using r by (cases res) (simp_all add: unf Inr sel(1) res)
      let ?sk = "\<lparr>sk_inputs = js_uniq (cr_inputs cr), sk_outputs = outs, sk_change = stub_outputs (cr_change cr), sk_fee = cr_fee cr\<rparr>"
      obtain change limit where ch: "resolve e ?sk = Inr change"
        and lim: "computeSelectionLimit con (?sk\<lparr>sk_change := change\<rparr>) = Inr limit" "int (length (cr_inputs cr)) \<le> limit"
        and r': "r = \<lparr>sr_selection = \<lparr>sk_inputs = js_sort (sortUtxoByTxIn lc) (js_uniq (cr_inputs cr)),
           sk_outputs = outs, sk_change = change, sk_fee = cr_fee cr\<rparr>,
           sr_remainingUTxO = js_uniq (cr_remainingUTxO cr), sr_redeemers = cr_redeemers cr\<rparr>"
        using r by (auto simp: unf Inr sel(1) res cr not_less split: if_splits)
      have "mset (out_values change) = mset (cr_change cr)" using resolve_stub [OF ch] by simp
      moreover have "set pre \<subseteq> set (cr_inputs cr)"
        using ok sel(3) unfolding loop_ok_def cr by (metis set_mset_mset set_mset_mono subset_mset.order_trans)
      moreover have "mset (cr_inputs cr) + mset (cr_remainingUTxO cr) = mset pre + mset us"
        using ok sel(4) by (simp add: loop_ok_def cr)
      ultimately show ?thesis
        using ok lim assms(2,6) unfolding r' by (intro selection_okI) (simp_all add: loop_ok_def cr)
    qed
    then show ?thesis by (simp add: unf Inr sel(1) res)
  qed
qed

end

subsection \<open>Properties\<close>


definition example_constraints :: "unit SelectionConstraints" where
  "example_constraints = \<lparr>computeMinimumCost = (\<lambda>_. Inr (1, None)), tokenBundleSizeExceedsLimit = (\<lambda>m. 1 < length m),
     computeMinimumCoinQuantity = (\<lambda>_. 1), computeSelectionLimit = (\<lambda>_. Inr 10)\<rparr>"

definition example_utxo :: "utxo list" where
  "example_utxo =
     [(\<lparr>txId = ''x'', txIndex = 1, txIn_ref = 1, utxo_ref = 1\<rparr>, \<lparr>out_address = ''a'', out_value = \<lparr>v_coins = 10, v_assets = Some [(''t'', 3)]\<rparr>\<rparr>),
      (\<lparr>txId = ''x'', txIndex = 0, txIn_ref = 2, utxo_ref = 2\<rparr>, \<lparr>out_address = ''a'', out_value = \<lparr>v_coins = 7, v_assets = None\<rparr>\<rparr>)]"

definition example_outputs :: "TxOut list" where
  "example_outputs = [\<lparr>out_address = ''b'', out_value = \<lparr>v_coins = 4, v_assets = Some [(''t'', 2)]\<rparr>\<rparr>]"

abbreviation compare_lengths :: "string \<Rightarrow> string \<Rightarrow> int" where
  "compare_lengths x y \<equiv> int (length x) - int (length y)"

abbreviation no_implicit :: ImplicitValue where
  "no_implicit \<equiv> \<lparr>iv_coin = None, iv_mint = None\<rparr>"

lemma example_ok:
  "random_ok (\<lambda>k n. 0)" "compare_ok compare_lengths" "costs_nonneg example_constraints"
  "good_values (utxo_values ([] @ example_utxo))" "good_values (out_values example_outputs)"
  "distinct ([] @ example_utxo)" "otm_wf (iv_mint no_implicit)"
  "0 \<le> ic_deposit (implicitCoin (requiredImplicitValue no_implicit))"
  by (auto simp: random_ok_def compare_ok_def costs_nonneg_def example_constraints_def example_utxo_def
      example_outputs_def out_values_def value_nonneg_def qty_def tm_wf_def requiredImplicitValue_def
      mintToImplicitTokens_def sgn_if)

lemma example_minimum: "amount_free (minCoin_of example_constraints)" "minCoin_of example_constraints v = 1"
  by (simp_all add: amount_free_def minCoin_of_def example_constraints_def)




end
