(* ===== verification/Large_First.thy ===== *)
theory Large_First
  imports Round_Robin
begin

text \<open>
  The large-first selector (\<open>input-selection/src/LargeFirstSelection/LargeFirstInputSelector.ts\<close>): the
  largest entries of each required asset, then the largest entries by coin, then one more at a time
  until the fee is covered. Entries are sets of objects; the transaction inputs already used are compared
  as objects too (\<open>txIn_ref\<close>), the preselected ones by transaction id and index.
\<close>

definition sortByCoins :: "TxOut \<Rightarrow> TxOut \<Rightarrow> int" where
  "sortByCoins lhs rhs =
     (if v_coins (out_value lhs) > v_coins (out_value rhs) then - 1
      else if v_coins (out_value lhs) < v_coins (out_value rhs) then 1 else 0)"

definition sortByAssetQuantity :: "asset_id \<Rightarrow> TxOut \<Rightarrow> TxOut \<Rightarrow> int" where
  "sortByAssetQuantity assetId lhs rhs =
     (let lhsQty = oqty (v_assets (out_value lhs)) assetId; rhsQty = oqty (v_assets (out_value rhs)) assetId
      in if lhsQty > rhsQty then - 1 else if lhsQty < rhsQty then 1 else 0)"

definition by_output :: "(TxOut \<Rightarrow> TxOut \<Rightarrow> int) \<Rightarrow> utxo \<Rightarrow> utxo \<Rightarrow> int" where
  "by_output cmp a b = cmp (snd a) (snd b)"

text \<open>\<open>Set.add\<close>\<close>

definition set_add :: "'a \<Rightarrow> 'a list \<Rightarrow> 'a list" where
  "set_add x xs = (if x \<in> set xs then xs else xs @ [x])"

definition pickAdditionalLargestUtxo :: "unit \<Rightarrow> pick_utxo" where
  "pickAdditionalLargestUtxo _ s k =
     (case js_sort (by_output sortByCoins) (utxoRemaining s) of
        [] \<Rightarrow> Inr (s, k)
      | picked # newRemaining \<Rightarrow>
          Inr (\<lparr>utxoSelected = utxoSelected s @ [picked], utxoRemaining = newRemaining\<rparr>, k))"

subsection \<open>Totals\<close>

definition coin_field :: "(PartialImplicitCoin \<Rightarrow> int option) \<Rightarrow> ImplicitValue \<Rightarrow> int" where
  "coin_field f iv = (case iv_coin iv of None \<Rightarrow> 0 | Some c \<Rightarrow> or_zero (f c))"

definition aggregateLovelace :: "Value list \<Rightarrow> Value list \<Rightarrow> ImplicitValue \<Rightarrow> int \<times> int" where
  "aggregateLovelace inputs outputs implicit =
     (getCoinQuantity inputs + coin_field pc_input implicit, getCoinQuantity outputs + coin_field pc_deposit implicit)"

definition map_or_empty :: "token_map option \<Rightarrow> token_map" where
  "map_or_empty a = (case a of None \<Rightarrow> [] | Some m \<Rightarrow> m)"

definition aggregateAssets :: "Value list \<Rightarrow> Value list \<Rightarrow> ImplicitValue \<Rightarrow> token_map \<times> token_map" where
  "aggregateAssets inputs outputs implicit =
     (let outputsMap = map_or_empty (v_assets (coalesceValueQuantities outputs));
          utxoMap = v_assets (coalesceValueQuantities inputs);
          mint = map_or_empty (iv_mint implicit);
          posMint = tm_sets [] (filter (\<lambda>(_, q). 0 < q) mint);
          negMint = tm_sets [] (map (\<lambda>(i, q). (i, - q)) (filter (\<lambda>(_, q). \<not> 0 < q) mint));
          required = map_or_empty (subtractTokenMaps (addTokenMaps (Some outputsMap) (Some negMint)) (Some posMint));
          available = map_or_empty (addTokenMaps utxoMap (Some posMint))
      in (required, available))"

text \<open>The lovelace that the outputs need, and the assets.\<close>

definition computeNetImplicitSelectionValues ::
    "utxo list \<Rightarrow> TxOut list \<Rightarrow> ImplicitValue \<Rightarrow> (int \<times> token_map) result" where
  "computeNetImplicitSelectionValues inputs outputs implicitValue =
     (let (totalIn, totalOut) = aggregateLovelace (utxo_values inputs) (out_values outputs) implicitValue;
          (required, available) = aggregateAssets (utxo_values inputs) (out_values outputs) implicitValue;
          changeAssets = subtractTokenMaps (Some available) (Some required)
      in if inputs = [] \<or> totalIn - totalOut < 0 \<or> hasNegativeAssetValue changeAssets
         then Inl (InputSelectionError UtxoBalanceInsufficient) else Inr (totalOut, required))"

subsection \<open>Selection\<close>

fun pickUntil :: "asset_id \<Rightarrow> int \<Rightarrow> utxo list \<Rightarrow> utxo list \<Rightarrow> int \<Rightarrow> utxo list \<times> int" where
  "pickUntil assetId requiredQuantity [] selected accumulated = (selected, accumulated)"
| "pickUntil assetId requiredQuantity (candidate # candidates) selected accumulated =
     (let selected = set_add candidate selected;
          accumulated = accumulated + oqty (v_assets (out_value (snd candidate))) assetId
      in if requiredQuantity \<le> accumulated then (selected, accumulated)
         else pickUntil assetId requiredQuantity candidates selected accumulated)"

definition selectAsset :: "utxo list \<Rightarrow> utxo list \<Rightarrow> asset_id \<times> int \<Rightarrow> utxo list result" where
  "selectAsset allAvailable selected e = (case e of (assetId, requiredQuantity) \<Rightarrow>
     let candidates = js_sort (by_output (sortByAssetQuantity assetId))
           (filter (\<lambda>(_, out). 0 < oqty (v_assets (out_value out)) assetId) allAvailable);
         (selected, accumulated) = pickUntil assetId requiredQuantity candidates selected 0
     in if accumulated < requiredQuantity then Inl (InputSelectionError UtxoBalanceInsufficient) else Inr selected)"

definition selectAssets :: "token_map \<Rightarrow> utxo list \<Rightarrow> utxo list \<Rightarrow> utxo list result" where
  "selectAssets requiredAssets allAvailable preSelected = efoldl (selectAsset allAvailable) preSelected requiredAssets"

fun pickAda :: "int \<Rightarrow> utxo list \<Rightarrow> utxo list \<Rightarrow> int \<Rightarrow> utxo list \<times> int" where
  "pickAda target [] result adaAccumulated = (result, adaAccumulated)"
| "pickAda target (candidate # candidates) result adaAccumulated =
     (if target \<le> adaAccumulated then (result, adaAccumulated)
      else pickAda target candidates (set_add candidate result)
             (adaAccumulated + v_coins (out_value (snd candidate))))"

definition selectLovelace :: "int \<Rightarrow> utxo list \<Rightarrow> utxo list \<Rightarrow> int \<Rightarrow> utxo list result" where
  "selectLovelace target allAvailable selected implicitCoinInput =
     (let adaCandidates = js_sort (by_output sortByCoins)
            (filter (\<lambda>(txIn, _). txIn_ref txIn \<notin> set (map (\<lambda>(txIn, _). txIn_ref txIn) selected)) allAvailable);
          (result, adaAccumulated) = pickAda target adaCandidates selected
            (getCoinQuantity (utxo_values selected) + implicitCoinInput)
      in ebind (if result = [] then
                  (case adaCandidates of
                     [] \<Rightarrow> Inl (InputSelectionError UtxoBalanceInsufficient)
                   | c # _ \<Rightarrow> Inr [c])
                else Inr result) (\<lambda>result.
         if adaAccumulated < target then Inl (InputSelectionError UtxoBalanceInsufficient) else Inr result))"

definition computeRemainingUtxo :: "utxo list \<Rightarrow> utxo list \<Rightarrow> utxo list" where
  "computeRemainingUtxo original used =
     filter (\<lambda>(txIn, _). txIn_ref txIn \<notin> set (map (\<lambda>(txIn, _). txIn_ref txIn) used)) original"

subsection \<open>Fee and change\<close>

definition expandUtxosUntilFeeCovered ::
    "utxo list \<Rightarrow> TxOut list \<Rightarrow> utxo list \<Rightarrow> token_map \<Rightarrow> 'r SelectionConstraints \<Rightarrow>
     (SelectionSkeleton \<Rightarrow> TxOut list result) \<Rightarrow> ImplicitValue \<Rightarrow> (utxo list \<times> int \<times> TxOut list) result option" where
  "expandUtxosUntilFeeCovered initialInputs outputs allAvailable requiredAssets con resolve implicitValue =
     (let utxoRemainingArr = js_sort (by_output sortByCoins) (filter (\<lambda>u. u \<notin> set initialInputs) allAvailable);
          ids = js_uniq (map fst requiredAssets @ map fst (map_or_empty (iv_mint implicitValue)))
      in (case computeChangeAndAdjustForFee (pickAdditionalLargestUtxo ()) (out_values outputs) ids
                (requiredImplicitValue implicitValue) (minCoin_of con) (tokenBundleSizeExceedsLimit con)
                (estimateTxCosts con outputs)
                \<lparr>utxoSelected = initialInputs, utxoRemaining = utxoRemainingArr\<rparr> 0 of
            None \<Rightarrow> None
          | Some res \<Rightarrow> Some (ebind res (\<lambda>r.
              if cr_change r = [] then Inr (js_uniq (cr_inputs r), cr_fee r, [])
              else ebind (resolve \<lparr>sk_inputs = js_uniq (cr_inputs r), sk_outputs = outputs,
                     sk_change = stub_outputs (cr_change r), sk_fee = cr_fee r\<rparr>) (\<lambda>resolvedChange.
                   Inr (js_uniq (cr_inputs r), cr_fee r, resolvedChange))))))"

definition LargeFirstSelector_select ::
    "(string \<Rightarrow> string \<Rightarrow> int) \<Rightarrow> (SelectionSkeleton \<Rightarrow> TxOut list result) \<Rightarrow> 'r SelectionConstraints \<Rightarrow>
     utxo list \<Rightarrow> utxo list \<Rightarrow> TxOut list \<Rightarrow> ImplicitValue \<Rightarrow> 'r SelectionResult result option" where
  "LargeFirstSelector_select localeCompare resolve con preSelectedUtxo utxo outputs implicitValue =
     (let available = filter (\<lambda>(txIn, _). \<not> list_ex (\<lambda>(preTxIn, _). txId preTxIn = txId txIn \<and> txIndex preTxIn = txIndex txIn)
            preSelectedUtxo) utxo;
          allAvailable = preSelectedUtxo @ available
      in (case ebind (computeNetImplicitSelectionValues allAvailable outputs implicitValue) (\<lambda>(totalOut, outputAssets).
               ebind (selectAssets outputAssets allAvailable preSelectedUtxo) (\<lambda>workingUtxo.
               ebind (selectLovelace totalOut allAvailable workingUtxo (coin_field pc_input implicitValue)) (\<lambda>workingUtxo.
               Inr (outputAssets, workingUtxo)))) of
            Inl e \<Rightarrow> Some (Inl e)
          | Inr (outputAssets, workingUtxo) \<Rightarrow>
              (case expandUtxosUntilFeeCovered workingUtxo outputs allAvailable outputAssets con resolve implicitValue of
                 None \<Rightarrow> None
               | Some res \<Rightarrow> Some (ebind res (\<lambda>(finalSelection, fee, change).
                   ebind (computeSelectionLimit con \<lparr>sk_inputs = finalSelection, sk_outputs = outputs,
                     sk_change = change, sk_fee = fee\<rparr>) (\<lambda>limit.
                     if limit < int (length finalSelection) then Inl (InputSelectionError MaximumInputCountExceeded)
                     else Inr \<lparr>sr_selection = \<lparr>sk_inputs = js_sort (sortUtxoByTxIn localeCompare) finalSelection,
                               sk_outputs = outputs, sk_change = change, sk_fee = fee\<rparr>,
                             sr_remainingUTxO = computeRemainingUtxo utxo finalSelection,
                             sr_redeemers = None\<rparr>))))))"

subsection \<open>The picker\<close>

interpretation coins_order: comparator "\<lambda>_ :: unit. by_output sortByCoins" "\<lambda>_. True"
  by unfold_locales (auto simp: by_output_def sortByCoins_def split: if_splits)

interpretation asset_order: comparator "\<lambda>i. by_output (sortByAssetQuantity i)" "\<lambda>_. True"
  by unfold_locales (auto simp: by_output_def sortByAssetQuantity_def Let_def split: if_splits)

interpretation largest_picker: utxo_picker pickAdditionalLargestUtxo "\<lambda>_. True"
proof unfold_locales
  fix e :: unit and s :: UtxoSelection and k assume ne: "utxoRemaining s \<noteq> []"
  have m: "mset (js_sort (by_output sortByCoins) (utxoRemaining s)) = mset (utxoRemaining s)" by simp
  from ne m obtain u rest where "js_sort (by_output sortByCoins) (utxoRemaining s) = u # rest"
    by (cases "js_sort (by_output sortByCoins) (utxoRemaining s)") auto
  with m show "\<exists>u rest k'. pickAdditionalLargestUtxo e s k =
      Inr (\<lparr>utxoSelected = utxoSelected s @ [u], utxoRemaining = rest\<rparr>, k') \<and>
      mset (utxoRemaining s) = add_mset u (mset rest)"
    by (auto simp: pickAdditionalLargestUtxo_def)
qed

subsection \<open>Selecting from a set\<close>

lemma set_set_add [simp]: "set (set_add x xs) = insert x (set xs)"
  by (auto simp: set_add_def)

lemma distinct_set_add [simp]: "distinct xs \<Longrightarrow> distinct (set_add x xs)"
  by (simp add: set_add_def)

text \<open>A larger set of entries has at least as much of every asset, and of coin.\<close>

lemma totals_as_sums:
  assumes "distinct us"
  shows "assetQuantitySelector i (utxo_values us) = (\<Sum>u \<in> set us. oqty (v_assets (out_value (snd u))) i)"
    and "getCoinQuantity (utxo_values us) = (\<Sum>u \<in> set us. v_coins (out_value (snd u)))"
  using assms by (induction us) simp_all

lemma totals_mono:
  assumes "distinct us" and "distinct vs" and "set us \<subseteq> set vs" and "\<forall>u \<in> set vs. utxo_nonneg u"
  shows "assetQuantitySelector i (utxo_values us) \<le> assetQuantitySelector i (utxo_values vs)"
    and "getCoinQuantity (utxo_values us) \<le> getCoinQuantity (utxo_values vs)"
  using assms by (auto simp: totals_as_sums value_nonneg_def intro!: sum_mono2)

lemma pickUntil_ok:
  assumes "pickUntil i q cs sel acc = (sel', acc')" and "distinct sel" and "distinct (ps @ cs)"
    and "set ps \<subseteq> set sel" and "acc = assetQuantitySelector i (utxo_values ps)"
  shows "distinct sel' \<and> set sel \<subseteq> set sel' \<and> set sel' \<subseteq> set sel \<union> set cs \<and>
    (\<exists>ps'. distinct ps' \<and> set ps' \<subseteq> set sel' \<and> acc' = assetQuantitySelector i (utxo_values ps'))"
  using assms
proof (induction i q cs sel acc arbitrary: ps rule: pickUntil.induct)
  case (1 i q sel acc)
  then show ?case by auto
next
  case (2 i q c cs sel acc)
  let ?sel = "set_add c sel" and ?acc = "acc + oqty (v_assets (out_value (snd c))) i"
  have inv: "distinct ?sel" "distinct ((ps @ [c]) @ cs)" "set (ps @ [c]) \<subseteq> set ?sel"
    "?acc = assetQuantitySelector i (utxo_values (ps @ [c]))" using "2.prems" by auto
  show ?case
  proof (cases "q \<le> ?acc")
    case True
    with "2.prems"(1) have "sel' = ?sel" "acc' = ?acc" by simp_all
    with inv show ?thesis by (auto intro!: exI [of _ "ps @ [c]"])
  next
    case False
    with "2.prems"(1) have "pickUntil i q cs ?sel ?acc = (sel', acc')" by (simp add: Let_def)
    from "2.IH" [OF refl refl False this inv] show ?thesis by auto
  qed
qed

lemma selectAsset_ok:
  assumes "selectAsset all sel (i, q) = Inr sel'" and "distinct all" and "distinct sel" and "set sel \<subseteq> set all"
    and "\<forall>u \<in> set all. utxo_nonneg u"
  shows "distinct sel' \<and> set sel \<subseteq> set sel' \<and> set sel' \<subseteq> set all \<and> q \<le> assetQuantitySelector i (utxo_values sel')"
proof -
  let ?cs = "js_sort (by_output (sortByAssetQuantity i)) (filter (\<lambda>(_, out). 0 < oqty (v_assets (out_value out)) i) all)"
  obtain acc where p: "pickUntil i q ?cs sel 0 = (sel', acc)" and acc: "q \<le> acc"
    using assms(1) by (auto simp: selectAsset_def Let_def not_less split: prod.splits if_splits)
  have "distinct ?cs" using assms(2) by (metis mset_js_sort mset_eq_imp_distinct_iff distinct_filter)
  with pickUntil_ok [OF p assms(3), of "[]"] have ok: "distinct sel'" "set sel \<subseteq> set sel'" "set sel' \<subseteq> set sel \<union> set ?cs"
    and ps: "\<exists>ps. distinct ps \<and> set ps \<subseteq> set sel' \<and> acc = assetQuantitySelector i (utxo_values ps)" by simp_all
  have sub: "set sel' \<subseteq> set all" using ok(3) assms(4) by auto
  from ps obtain ps where "distinct ps" "set ps \<subseteq> set sel'" "acc = assetQuantitySelector i (utxo_values ps)" by blast
  then have "acc \<le> assetQuantitySelector i (utxo_values sel')"
    using totals_mono(1) [of ps sel' i] ok(1) sub assms(5) by auto
  with ok sub acc show ?thesis by simp
qed

lemma selectAssets_ok:
  assumes "selectAssets req all sel = Inr sel'" and "distinct all" and "distinct sel" and "set sel \<subseteq> set all"
    and "\<forall>u \<in> set all. utxo_nonneg u"
  shows "distinct sel' \<and> set sel \<subseteq> set sel' \<and> set sel' \<subseteq> set all \<and>
    (\<forall>(i, q) \<in> set req. q \<le> assetQuantitySelector i (utxo_values sel'))"
  using assms(1,3,4) unfolding selectAssets_def
proof (induction req arbitrary: sel)
  case (Cons e req)
  obtain i q where e: "e = (i, q)" by force
  obtain s where s: "selectAsset all sel (i, q) = Inr s" "efoldl (selectAsset all) s req = Inr sel'"
    using Cons.prems(1) e by auto
  note ok = selectAsset_ok [OF s(1) assms(2) Cons.prems(2,3) assms(5)]
  note IH = Cons.IH [OF s(2)]
  have "q \<le> assetQuantitySelector i (utxo_values sel')"
    using totals_mono(1) [of s sel' i] ok IH assms(5) by force
  with ok IH e show ?case by auto
qed auto

lemma pickAda_ok:
  assumes "pickAda target cs sel acc = (sel', acc')" and "distinct (sel @ cs)"
    and "acc = getCoinQuantity (utxo_values sel) + d"
  shows "distinct sel' \<and> set sel \<subseteq> set sel' \<and> set sel' \<subseteq> set sel \<union> set cs \<and>
    acc' = getCoinQuantity (utxo_values sel') + d"
  using assms
proof (induction target cs sel acc rule: pickAda.induct)
  case (2 target c cs sel acc)
  show ?case
  proof (cases "target \<le> acc")
    case False
    have "set_add c sel = sel @ [c]" using "2.prems"(2) by (simp add: set_add_def)
    with False "2.IH" "2.prems" show ?thesis by auto
  qed (use "2.prems" in auto)
qed auto

lemma selectLovelace_ok:
  assumes "selectLovelace target all sel d = Inr sel'" and "distinct all" and "distinct sel" and "set sel \<subseteq> set all"
    and "\<forall>u \<in> set all. utxo_nonneg u"
  shows "distinct sel' \<and> set sel \<subseteq> set sel' \<and> set sel' \<subseteq> set all \<and> sel' \<noteq> [] \<and>
    target \<le> getCoinQuantity (utxo_values sel') + d"
proof -
  let ?cs = "js_sort (by_output sortByCoins)
    (filter (\<lambda>(txIn, _). txIn_ref txIn \<notin> set (map (\<lambda>(txIn, _). txIn_ref txIn) sel)) all)"
  obtain s acc where p: "pickAda target ?cs sel (getCoinQuantity (utxo_values sel) + d) = (s, acc)" by force
  have "distinct ?cs" using assms(2) by (metis mset_js_sort mset_eq_imp_distinct_iff distinct_filter)
  moreover have "set sel \<inter> set ?cs = {}" by force
  ultimately have ok: "distinct s" "set sel \<subseteq> set s" "set s \<subseteq> set sel \<union> set ?cs" "acc = getCoinQuantity (utxo_values s) + d"
    using pickAda_ok [OF p _ refl] assms(3) by simp_all
  have cs: "set ?cs \<subseteq> set all" by auto
  have acc: "target \<le> acc" using assms(1) p by (auto simp: selectLovelace_def split: if_splits)
  show ?thesis
  proof (cases "s = []")
    case True
    then obtain c rest where c: "?cs = c # rest" "sel' = [c]"
      using assms(1) p by (auto simp: selectLovelace_def split: if_splits list.splits)
    have "c \<in> set all" using c(1) cs by (metis list.set_intros(1) subsetD)
    with c(2) True ok acc assms(5) show ?thesis by (auto simp: value_nonneg_def)
  next
    case False
    with assms(1) p have "sel' = s" by (auto simp: selectLovelace_def split: if_splits)
    with False ok acc cs assms(4) show ?thesis by auto
  qed
qed

subsection \<open>The required assets\<close>

lemma qty_map_or_empty [simp]: "qty (map_or_empty a) i = oqty a i"
  by (simp add: map_or_empty_def split: option.split)

lemma map_or_empty_Some [simp]: "map_or_empty (Some m) = m"
  by (simp add: map_or_empty_def)

lemma wf_map_or_empty: "otm_wf a \<Longrightarrow> tm_wf (map_or_empty a)"
  by (cases a) (simp_all add: map_or_empty_def)

lemma required_assets:
  assumes "\<forall>v \<in> set outs. value_wf v" and "otm_wf (iv_mint iv)"
  shows "map_of (fst (aggregateAssets ins outs iv)) i =
    (let d = assetQuantitySelector i outs - oqty (iv_mint iv) i in if d = 0 then None else Some d)"
proof -
  define mint where "mint = map_or_empty (iv_mint iv)"
  define om where "om = map_or_empty (v_assets (coalesceValueQuantities outs))"
  define neg where "neg = tm_sets [] (map (\<lambda>(i, q). (i, - q)) (filter (\<lambda>(_, q). \<not> 0 < q) mint))"
  define pos where "pos = tm_sets [] (filter (\<lambda>(_, q). 0 < q) mint)"
  have wf: "tm_wf mint" "tm_wf om" "tm_wf neg" "tm_wf pos"
    using assms(2) by (simp_all add: mint_def om_def neg_def pos_def wf_map_or_empty)
  obtain m where add: "addTokenMaps (Some om) (Some neg) = Some m" by (simp add: Let_def)
  then have m: "tm_wf m" "qty m i = qty om i + qty neg i"
    using addTokenMaps_wf [of "Some om" "Some neg"] oqty_addTokenMaps [of "Some om" "Some neg" i] wf by simp_all
  obtain req where sub: "subtractTokenMaps (Some m) (Some pos) = Some req" by (simp add: Let_def)
  have "qty neg i = max 0 (- qty mint i)" using wf(1) unfolding neg_def
    by (auto simp: qty_def map_of_tm_sets_neg distinct_filter_keys map_of_filter split: option.splits)
  moreover have "qty pos i = max 0 (qty mint i)" using wf(1) unfolding pos_def
    by (auto simp: qty_def map_of_tm_sets distinct_filter_keys map_of_filter split: option.splits)
  ultimately have "qty m i - qty pos i = assetQuantitySelector i outs - oqty (iv_mint iv) i"
    using m(2) coalesceValueQuantities_assets [OF assms(1), of i] by (simp add: om_def mint_def)
  moreover have "fst (aggregateAssets ins outs iv) = req"
    unfolding aggregateAssets_def Let_def mint_def [symmetric] om_def [symmetric] neg_def [symmetric]
      pos_def [symmetric] add sub fst_conv map_or_empty_Some ..
  ultimately show ?thesis using map_of_subtractTokenMaps [OF _ _ sub, of i] m(1) wf by simp
qed

lemma implicit_fields:
  "ic_input (implicitCoin (requiredImplicitValue iv)) = coin_field pc_input iv"
  "ic_deposit (implicitCoin (requiredImplicitValue iv)) = coin_field pc_deposit iv"
  by (simp_all add: requiredImplicitValue_def coin_field_def Let_def case_prod_beta)

abbreviation required_ids :: "token_map \<Rightarrow> ImplicitValue \<Rightarrow> asset_id list" where
  "required_ids req iv \<equiv> js_uniq (map fst req @ map fst (map_or_empty (iv_mint iv)))"

lemma required_args_ok:
  assumes "good_values (out_values outs)" and "otm_wf (iv_mint iv)" and "0 \<le> coin_field pc_deposit iv"
  shows "args_ok (out_values outs) (required_ids (fst (aggregateAssets ins (out_values outs) iv)) iv)
    (requiredImplicitValue iv)"
proof -
  have "assetQuantitySelector i (out_values outs) = 0 \<and> oqty (iv_mint iv) i = 0"
    if "i \<notin> set (required_ids (fst (aggregateAssets ins (out_values outs) iv)) iv)" for i
  proof -
    from that have "map_of (fst (aggregateAssets ins (out_values outs) iv)) i = None"
      and mint: "\<not> tm_has (map_or_empty (iv_mint iv)) i" by (simp_all add: map_of_eq_None_iff tm_has_set)
    moreover have "oqty (iv_mint iv) i = 0" using qty_absent [OF mint] by simp
    ultimately show ?thesis using required_assets [of "out_values outs" iv ins i] assms by (simp add: Let_def split: if_splits)
  qed
  with assms show ?thesis
    by (simp add: args_ok_def requiredImplicitValue_tokens implicit_fields)
qed

lemma required_covers:
  assumes "good_values (out_values outs)" and "otm_wf (iv_mint iv)" and "\<forall>u \<in> set us. utxo_nonneg u"
    and "\<forall>(i, q) \<in> set (fst (aggregateAssets ins (out_values outs) iv)). q \<le> assetQuantitySelector i (utxo_values us)"
    and "getCoinQuantity (out_values outs) + coin_field pc_deposit iv
      \<le> getCoinQuantity (utxo_values us) + coin_field pc_input iv"
  shows "covers us (out_values outs) ids (requiredImplicitValue iv)"
proof -
  have nn: "0 \<le> assetQuantitySelector i (utxo_values us)" for i
    using assms(3) by (induction us) (auto simp: value_nonneg_def)
  have "assetQuantitySelector i (out_values outs) - oqty (iv_mint iv) i \<le> assetQuantitySelector i (utxo_values us)" for i
  proof (cases "assetQuantitySelector i (out_values outs) - oqty (iv_mint iv) i = 0")
    case False
    have "map_of (fst (aggregateAssets ins (out_values outs) iv)) i =
        Some (assetQuantitySelector i (out_values outs) - oqty (iv_mint iv) i)"
      using required_assets [of "out_values outs" iv ins i] assms(1,2) False by (simp add: Let_def)
    from map_of_SomeD [OF this] assms(4) show ?thesis by auto
  qed (use nn in simp)
  then have "assetQuantitySelector i (out_values outs) + max 0 (- oqty (iv_mint iv) i)
      \<le> assetQuantitySelector i (utxo_values us) + max 0 (oqty (iv_mint iv) i)" for i
    by (smt (verit))
  then show ?thesis using assms(2,5) by (simp add: covers_def requiredImplicitValue_tokens implicit_fields)
qed

subsection \<open>The selector\<close>

definition not_preselected :: "utxo list \<Rightarrow> utxo list \<Rightarrow> utxo list" where
  "not_preselected pre us = filter (\<lambda>u. spent_output u \<notin> spent_output ` set pre) us"

lemma available_not_preselected:
  "filter (\<lambda>(txIn, _). \<not> list_ex (\<lambda>(preTxIn, _). txId preTxIn = txId txIn \<and> txIndex preTxIn = txIndex txIn) pre) us =
   not_preselected pre us"
  unfolding not_preselected_def by (rule filter_cong) (force simp: list_ex_iff image_iff spent_output_def)+

lemma distinct_all_available:
  "distinct pre \<Longrightarrow> distinct us \<Longrightarrow> distinct (pre @ not_preselected pre us)"
  by (auto simp: not_preselected_def)

text \<open>The \<open>TxIn\<close> object of an entry; one object has one content.\<close>

definition txIn_object :: "utxo \<Rightarrow> nat" where
  "txIn_object u = txIn_ref (fst u)"

definition one_content :: "utxo list \<Rightarrow> bool" where
  "one_content us \<longleftrightarrow> (\<forall>u \<in> set us. \<forall>v \<in> set us. txIn_object u = txIn_object v \<longrightarrow> spent_output u = spent_output v)"

lemma computeRemainingUtxo_objects:
  "computeRemainingUtxo us ins = filter (\<lambda>u. txIn_object u \<notin> txIn_object ` set ins) us"
  by (simp add: computeRemainingUtxo_def txIn_object_def case_prod_beta' image_image)

text \<open>
  Of the available entries, those whose \<open>TxIn\<close> object is not that of a preselected entry are either inputs
  or remaining.
\<close>

lemma computeRemainingUtxo_mset:
  assumes "one_content (pre @ us)" and "distinct pre" and "distinct (map spent_output us)" and "distinct ins"
    and "set ins \<subseteq> set (pre @ not_preselected pre us)" and "set pre \<subseteq> set ins"
  shows "mset ins + mset (computeRemainingUtxo us ins) = mset pre + mset (filter (\<lambda>u. txIn_object u \<notin> txIn_object ` set pre) us)"
proof -
  let ?others = "filter (\<lambda>u. txIn_object u \<notin> txIn_object ` set pre) us"
  have eq: "spent_output u = spent_output v" if "u \<in> set (pre @ us)" "v \<in> set (pre @ us)" "txIn_object u = txIn_object v" for u v
    using assms(1) that unfolding one_content_def by blast
  have us: "distinct us" "inj_on spent_output (set us)" using assms(3) by (auto simp: distinct_map)
  have same: "u = v" if "u \<in> set us" "v \<in> set us" "txIn_object u = txIn_object v" for u v
    using eq that us(2) by (auto simp: inj_on_def)
  have new: "u \<in> set us \<and> txIn_object u \<notin> txIn_object ` set pre" if "u \<in> set ins" "u \<notin> set pre" for u
    using that assms(5) eq [of u] by (fastforce simp: not_preselected_def)
  have "set (ins @ computeRemainingUtxo us ins) = set (pre @ ?others)"
  proof (intro set_eqI iffI)
    fix u assume "u \<in> set (ins @ computeRemainingUtxo us ins)"
    then show "u \<in> set (pre @ ?others)" using new [of u] assms(6) by (auto simp: computeRemainingUtxo_objects)
  next
    fix u assume u: "u \<in> set (pre @ ?others)"
    show "u \<in> set (ins @ computeRemainingUtxo us ins)"
    proof (cases "txIn_object u \<in> txIn_object ` set ins")
      case True
      then obtain v where v: "v \<in> set ins" "txIn_object u = txIn_object v" by blast
      have "u \<in> set ins" using u v new [OF v(1)] same [of u v] assms(6) by (cases "v \<in> set pre") auto
      then show ?thesis by simp
    qed (use u assms(6) in \<open>auto simp: computeRemainingUtxo_objects\<close>)
  qed
  moreover have "distinct (ins @ computeRemainingUtxo us ins)" using assms(4) us(1) by (auto simp: computeRemainingUtxo_objects)
  moreover have "distinct (pre @ ?others)" using assms(2) us(1) by auto
  ultimately show ?thesis by (metis mset_append set_eq_iff_mset_eq_distinct)
qed

text \<open>
  No entry remains whose output is spent, unless an available entry has the transaction id and index of a
  preselected one in another \<open>TxIn\<close> object.
\<close>

lemma spent_output_remains:
  assumes "one_content (pre @ us)" and "distinct (map spent_output pre)" and "distinct (map spent_output us)"
    and "set ins \<subseteq> set (pre @ not_preselected pre us)" and "set pre \<subseteq> set ins"
  shows "(\<exists>u \<in> set (computeRemainingUtxo us ins). spent_output u \<in> spent_output ` set ins) \<longleftrightarrow>
    (\<exists>u \<in> set us. \<exists>p \<in> set pre. spent_output u = spent_output p \<and> txIn_object u \<noteq> txIn_object p)"
proof
  assume "\<exists>u \<in> set (computeRemainingUtxo us ins). spent_output u \<in> spent_output ` set ins"
  then obtain u v where u: "u \<in> set us" "txIn_object u \<notin> txIn_object ` set ins" and v: "v \<in> set ins" "spent_output u = spent_output v"
    by (auto simp: computeRemainingUtxo_objects)
  have "v \<in> set pre"
  proof (rule ccontr)
    assume "v \<notin> set pre"
    with v(1) assms(4) have "v \<in> set us" by (auto simp: not_preselected_def)
    with u(1) v(2) assms(3) have "u = v" by (meson distinct_map inj_onD)
    with u(2) v(1) show False by blast
  qed
  with u v show "\<exists>u \<in> set us. \<exists>p \<in> set pre. spent_output u = spent_output p \<and> txIn_object u \<noteq> txIn_object p"
    by (intro bexI [of _ u] bexI [of _ v]) auto
next
  assume "\<exists>u \<in> set us. \<exists>p \<in> set pre. spent_output u = spent_output p \<and> txIn_object u \<noteq> txIn_object p"
  then obtain u p where u: "u \<in> set us" "p \<in> set pre" "spent_output u = spent_output p" "txIn_object u \<noteq> txIn_object p" by blast
  have "txIn_object u \<noteq> txIn_object v" if v: "v \<in> set ins" for v
  proof
    assume obj: "txIn_object u = txIn_object v"
    have "v \<in> set (pre @ us)" using v assms(4) by (auto simp: not_preselected_def)
    then have vp: "spent_output v = spent_output p"
      using assms(1) u(1,3) obj unfolding one_content_def set_append by (metis UnI2)
    then have "spent_output v \<in> spent_output ` set pre" using u(2) by (metis imageI)
    then have "v \<in> set pre" using v assms(4) unfolding not_preselected_def set_append set_filter by blast
    with vp u(2) assms(2) have "v = p" by (meson distinct_map inj_onD)
    with obj u(4) show False by simp
  qed
  then have "u \<in> set (computeRemainingUtxo us ins)" using u(1) by (auto simp: computeRemainingUtxo_objects)
  with u(2,3) assms(5) show "\<exists>u \<in> set (computeRemainingUtxo us ins). spent_output u \<in> spent_output ` set ins" by (metis imageI subsetD)
qed

text \<open>What the change computation is started with.\<close>

lemma large_first_start:
  assumes "selectAssets req all pre = Inr w" and "selectLovelace target all w d = Inr sel"
    and "computeNetImplicitSelectionValues all outs iv = Inr (target, req)" and d: "d = coin_field pc_input iv"
    and "distinct all" and "distinct pre" and "set pre \<subseteq> set all"
    and good: "good_values (utxo_values all)" "good_values (out_values outs)" and "otm_wf (iv_mint iv)"
  shows "distinct sel \<and> set pre \<subseteq> set sel \<and> set sel \<subseteq> set all \<and>
    covers sel (out_values outs) (required_ids req iv) (requiredImplicitValue iv)"
proof -
  have nn: "\<forall>u \<in> set all. utxo_nonneg u" using good(1) unfolding set_utxo_values by blast
  have req: "target = getCoinQuantity (out_values outs) + coin_field pc_deposit iv"
    "req = fst (aggregateAssets (utxo_values all) (out_values outs) iv)"
    using assms(3) by (auto simp: computeNetImplicitSelectionValues_def aggregateLovelace_def Let_def
        split: if_splits prod.splits)
  note w = selectAssets_ok [OF assms(1,5,6,7) nn]
  then have s: "distinct sel \<and> set w \<subseteq> set sel \<and> set sel \<subseteq> set all \<and> sel \<noteq> [] \<and>
      target \<le> getCoinQuantity (utxo_values sel) + d"
    by (intro selectLovelace_ok [OF assms(2,5) _ _ nn]) blast+
  have "q \<le> assetQuantitySelector i (utxo_values sel)" if "(i, q) \<in> set req" for i q
    using that w s totals_mono(1) [of w sel i] nn by force
  moreover have "\<forall>u \<in> set sel. utxo_nonneg u" using nn s by blast
  ultimately have "covers sel (out_values outs) (required_ids req iv) (requiredImplicitValue iv)"
    using required_covers [OF good(2) assms(10), of sel "utxo_values all" "required_ids req iv"] s req d by auto
  with w s show ?thesis by blast
qed

text \<open>The last steps, from a result of the change computation to the selection.\<close>

lemma large_first_finish:
  assumes "compare_ok lc" and d: "distinct (pre @ not_preselected pre us)"
    and cr: "change_ok (minCoin_of con) (tokenBundleSizeExceedsLimit con) (estimateTxCosts con outs)
        (out_values outs) (requiredImplicitValue iv) cr"
    and part: "mset (cr_inputs cr) + mset (cr_remainingUTxO cr) = mset (pre @ not_preselected pre us)"
    and pre: "set pre \<subseteq> set (cr_inputs cr)" and change: "mset (out_values change) = mset (cr_change cr)"
    and lim: "computeSelectionLimit con \<lparr>sk_inputs = js_uniq (cr_inputs cr), sk_outputs = outs, sk_change = change,
        sk_fee = cr_fee cr\<rparr> = Inr limit" "int (length (cr_inputs cr)) \<le> limit"
  shows "selection_ok lc con pre (not_preselected pre us) outs iv
    \<lparr>sr_selection = \<lparr>sk_inputs = js_sort (sortUtxoByTxIn lc) (js_uniq (cr_inputs cr)), sk_outputs = outs,
       sk_change = change, sk_fee = cr_fee cr\<rparr>,
     sr_remainingUTxO = js_uniq (cr_remainingUTxO cr), sr_redeemers = None\<rparr>"
  using cr part pre change lim assms(1) d by (intro selection_okI) simp_all

context change_address_resolver
begin

lemma expand_ok:
  assumes "costs_nonneg con" and "covers sel (out_values outs) (required_ids req iv) (requiredImplicitValue iv)"
    and "args_ok (out_values outs) (required_ids req iv) (requiredImplicitValue iv)"
    and "distinct sel" and "set sel \<subseteq> set all" and "distinct all" and "good_values (utxo_values all)"
  shows "\<exists>res. expandUtxosUntilFeeCovered sel outs all req con (resolve e) iv = Some res \<and>
    (\<forall>ins fee change. res = Inr (ins, fee, change) \<longrightarrow> (\<exists>r. change_ok (minCoin_of con) (tokenBundleSizeExceedsLimit con)
      (estimateTxCosts con outs) (out_values outs) (requiredImplicitValue iv) r \<and> ins = js_uniq (cr_inputs r) \<and>
      fee = cr_fee r \<and> mset (out_values change) = mset (cr_change r) \<and> set sel \<subseteq> set (cr_inputs r) \<and>
      mset (cr_inputs r) + mset (cr_remainingUTxO r) = mset all))"
proof -
  define rest where "rest = js_sort (by_output sortByCoins) (filter (\<lambda>u. u \<notin> set sel) all)"
  let ?sel = "\<lparr>utxoSelected = sel, utxoRemaining = rest\<rparr>"
  have part: "mset sel + mset rest = mset all"
  proof -
    have "set (sel @ filter (\<lambda>u. u \<notin> set sel) all) = set all" using assms(5) by auto
    moreover have "distinct (sel @ filter (\<lambda>u. u \<notin> set sel) all)" using assms(4,6) by auto
    ultimately show ?thesis unfolding rest_def mset_js_sort
      using assms(6) by (metis mset_append set_eq_iff_mset_eq_distinct)
  qed
  have "set (sel @ rest) = set all" using assms(5) by (auto simp: rest_def)
  then have "loop_pre (out_values outs) (required_ids req iv) (requiredImplicitValue iv) ?sel"
    using assms(2,7) unfolding loop_pre_def set_utxo_values by simp
  from largest_picker.change_loop [OF TrueI this assms(3) estimate_nonneg [OF assms(1)], of "()"
      "minCoin_of con" "tokenBundleSizeExceedsLimit con" outs 0]
  obtain res where res: "computeChangeAndAdjustForFee (pickAdditionalLargestUtxo ()) (out_values outs) (required_ids req iv)
      (requiredImplicitValue iv) (minCoin_of con) (tokenBundleSizeExceedsLimit con) (estimateTxCosts con outs) ?sel 0 = Some res"
    and ok: "loop_ok (minCoin_of con) (tokenBundleSizeExceedsLimit con) (estimateTxCosts con outs)
      (out_values outs) (requiredImplicitValue iv) ?sel res" by blast
  note unf = expandUtxosUntilFeeCovered_def [of sel outs all req con "resolve e" iv, folded rest_def, unfolded Let_def res]
  have "\<exists>r. change_ok (minCoin_of con) (tokenBundleSizeExceedsLimit con)
      (estimateTxCosts con outs) (out_values outs) (requiredImplicitValue iv) r \<and> ins = js_uniq (cr_inputs r) \<and>
      fee = cr_fee r \<and> mset (out_values change) = mset (cr_change r) \<and> set sel \<subseteq> set (cr_inputs r) \<and>
      mset (cr_inputs r) + mset (cr_remainingUTxO r) = mset all"
    if run: "expandUtxosUntilFeeCovered sel outs all req con (resolve e) iv = Some (Inr (ins, fee, change))" for ins fee change
  proof -
    obtain r where r: "res = Inr r" using run by (cases res) (simp_all add: unf)
    have "ins = js_uniq (cr_inputs r) \<and> fee = cr_fee r \<and> mset (out_values change) = mset (cr_change r)"
      using run unfolding unf r by (auto simp: out_values_def [of "[]"] dest!: resolve_stub split: if_splits)
    with ok part show ?thesis unfolding r loop_ok_def
      by (intro exI [of _ r]) (auto dest: mset_subset_eqD)
  qed
  moreover have "\<exists>res. expandUtxosUntilFeeCovered sel outs all req con (resolve e) iv = Some res" by (simp add: unf)
  ultimately show ?thesis by blast
qed

lemma large_first_select:
  assumes "compare_ok lc" and "costs_nonneg con"
    and good: "good_values (utxo_values (pre @ us))" "good_values (out_values outs)"
    and sets: "distinct pre" "distinct us"
    and "otm_wf (iv_mint iv)" and "0 \<le> coin_field pc_deposit iv"
  shows "\<exists>res. LargeFirstSelector_select lc (resolve e) con pre us outs iv = Some res \<and>
    (\<forall>r. res = Inr r \<longrightarrow> (\<exists>rest. selection_ok lc con pre (not_preselected pre us) outs iv (r\<lparr>sr_remainingUTxO := rest\<rparr>)) \<and>
      sr_remainingUTxO r = computeRemainingUtxo us (sk_inputs (sr_selection r)) \<and> sr_redeemers r = None)"
proof -
  define all where "all = pre @ not_preselected pre us"
  have d: "distinct all" "distinct pre" unfolding all_def by (rule distinct_all_available [OF sets], rule sets(1))
  have sub: "set all \<subseteq> set (pre @ us)" by (auto simp: all_def not_preselected_def)
  then have ga: "good_values (utxo_values all)" using good(1) unfolding set_utxo_values by blast
  note unf = LargeFirstSelector_select_def [of lc "resolve e" con pre us outs iv, unfolded available_not_preselected
      Let_def, folded all_def]
  show ?thesis
  proof (cases "ebind (computeNetImplicitSelectionValues all outs iv) (\<lambda>(totalOut, outputAssets).
       ebind (selectAssets outputAssets all pre) (\<lambda>workingUtxo.
       ebind (selectLovelace totalOut all workingUtxo (coin_field pc_input iv)) (\<lambda>workingUtxo.
       Inr (outputAssets, workingUtxo))))")
    case (Inl err)
    then show ?thesis by (simp add: unf)
  next
    case (Inr p)
    then obtain req w sel t where p: "p = (req, sel)" and w: "selectAssets req all pre = Inr w"
      "selectLovelace t all w (coin_field pc_input iv) = Inr sel" "computeNetImplicitSelectionValues all outs iv = Inr (t, req)"
      by auto
    note start = large_first_start [OF w refl d(1,2) _ ga good(2) assms(7), unfolded all_def set_append, OF Un_upper1, folded set_append all_def]
    have req: "req = fst (aggregateAssets (utxo_values all) (out_values outs) iv)"
      using w(3) by (auto simp: computeNetImplicitSelectionValues_def Let_def split: if_splits prod.splits)
    have args: "args_ok (out_values outs) (required_ids req iv) (requiredImplicitValue iv)"
      unfolding req by (rule required_args_ok [OF good(2) assms(7,8)])
    obtain res where res: "expandUtxosUntilFeeCovered sel outs all req con (resolve e) iv = Some res"
      and ok: "\<forall>ins fee change. res = Inr (ins, fee, change) \<longrightarrow> (\<exists>r. change_ok (minCoin_of con) (tokenBundleSizeExceedsLimit con)
        (estimateTxCosts con outs) (out_values outs) (requiredImplicitValue iv) r \<and> ins = js_uniq (cr_inputs r) \<and>
        fee = cr_fee r \<and> mset (out_values change) = mset (cr_change r) \<and> set sel \<subseteq> set (cr_inputs r) \<and>
        mset (cr_inputs r) + mset (cr_remainingUTxO r) = mset all)"
      using expand_ok [OF assms(2) _ args _ _ d(1) ga, of sel e] start by blast
    have "(\<exists>rest. selection_ok lc con pre (not_preselected pre us) outs iv (r\<lparr>sr_remainingUTxO := rest\<rparr>)) \<and>
        sr_remainingUTxO r = computeRemainingUtxo us (sk_inputs (sr_selection r)) \<and> sr_redeemers r = None"
      if run: "LargeFirstSelector_select lc (resolve e) con pre us outs iv = Some (Inr r)" for r
    proof -
      obtain ins fee change where o: "res = Inr (ins, fee, change)" using run by (cases res) (auto simp: unf Inr p res)
      with ok obtain cr where cr: "change_ok (minCoin_of con) (tokenBundleSizeExceedsLimit con) (estimateTxCosts con outs)
          (out_values outs) (requiredImplicitValue iv) cr" "ins = js_uniq (cr_inputs cr)" "fee = cr_fee cr"
        "mset (out_values change) = mset (cr_change cr)" "set sel \<subseteq> set (cr_inputs cr)"
        "mset (cr_inputs cr) + mset (cr_remainingUTxO cr) = mset all" by blast
      have "distinct (cr_inputs cr)" using distinct_parts(1) [OF cr(6) d(1)] .
      then have ins: "ins = cr_inputs cr" "js_uniq ins = ins" using cr(2) by (simp_all add: js_uniq_distinct)
      obtain limit where lim: "computeSelectionLimit con \<lparr>sk_inputs = ins, sk_outputs = outs, sk_change = change, sk_fee = fee\<rparr> = Inr limit"
          "int (length ins) \<le> limit"
        and r: "r = \<lparr>sr_selection = \<lparr>sk_inputs = js_sort (sortUtxoByTxIn lc) ins, sk_outputs = outs, sk_change = change, sk_fee = fee\<rparr>,
             sr_remainingUTxO = computeRemainingUtxo us ins, sr_redeemers = None\<rparr>"
        using run unfolding unf Inr p by (auto simp: res o not_less split: if_splits)
      have "set pre \<subseteq> set (cr_inputs cr)" using start cr(5) by blast
      from large_first_finish [OF assms(1) d(1) [unfolded all_def] cr(1) cr(6) [unfolded all_def] this cr(4)] lim ins cr(3) r
      show ?thesis by (auto simp: computeRemainingUtxo_objects)
    qed
    moreover have "\<exists>res. LargeFirstSelector_select lc (resolve e) con pre us outs iv = Some res" by (simp add: unf Inr p res)
    ultimately show ?thesis by blast
  qed
qed

end

subsection \<open>Properties\<close>

text \<open>C4. The large-first selector returns, with a selection or an error, and a selection balances:
  inputs, withdrawals, reclaimed deposits and minted tokens are exactly outputs, deposits, burned
  tokens, the fee and the change.\<close>

theorem large_first_balances:
  assumes "compare_ok lc" and "costs_nonneg con"
    and "good_values (utxo_values (pre @ us))" and "good_values (out_values outs)"
    and "distinct pre" and "distinct us"
    and "otm_wf (iv_mint iv)" and "0 \<le> coin_field pc_deposit iv"
  shows "\<exists>res. LargeFirstSelector_select lc (StaticChangeAddressResolver_resolve addrs) con pre us outs iv = Some res \<and>
    (\<forall>r. res = Inr r \<longrightarrow>
      getCoinQuantity (utxo_values (sk_inputs (sr_selection r))) + coin_field pc_input iv =
        getCoinQuantity (out_values outs) + coin_field pc_deposit iv
        + sk_fee (sr_selection r) + getCoinQuantity (out_values (sk_change (sr_selection r))) \<and>
      (\<forall>i. assetQuantitySelector i (utxo_values (sk_inputs (sr_selection r))) + oqty (iv_mint iv) i =
        assetQuantitySelector i (out_values outs) + assetQuantitySelector i (out_values (sk_change (sr_selection r)))))"
proof -
  obtain res where res: "LargeFirstSelector_select lc (StaticChangeAddressResolver_resolve addrs) con pre us outs iv = Some res"
    and ok: "\<forall>r. res = Inr r \<longrightarrow> (\<exists>rest. selection_ok lc con pre (not_preselected pre us) outs iv (r\<lparr>sr_remainingUTxO := rest\<rparr>))"
    using static_resolver.large_first_select [OF assms] by blast
  have mint: "tokens_input (requiredImplicitValue iv) i - tokens_spend (requiredImplicitValue iv) i = oqty (iv_mint iv) i" for i
    using requiredImplicitValue_tokens [OF assms(7), of i] by simp
  have "getCoinQuantity (utxo_values (sk_inputs (sr_selection r))) + coin_field pc_input iv =
      getCoinQuantity (out_values outs) + coin_field pc_deposit iv
      + sk_fee (sr_selection r) + getCoinQuantity (out_values (sk_change (sr_selection r))) \<and>
    (\<forall>i. assetQuantitySelector i (utxo_values (sk_inputs (sr_selection r))) + oqty (iv_mint iv) i =
      assetQuantitySelector i (out_values outs) + assetQuantitySelector i (out_values (sk_change (sr_selection r))))"
    if "res = Inr r" for r
    using ok that unfolding selection_ok_def balanced_def Let_def mint [symmetric] implicit_fields [symmetric]
    by (auto simp: algebra_simps)
  with res show ?thesis by blast
qed

lemma large_first_example_ok:
  "good_values (utxo_values (take 1 example_utxo @ example_utxo))" "good_values (out_values example_outputs)"
  "distinct (take 1 example_utxo)" "distinct example_utxo" "otm_wf (iv_mint no_implicit)"
  "0 \<le> coin_field pc_deposit no_implicit"
  by (auto simp: example_utxo_def example_outputs_def out_values_def value_nonneg_def qty_def tm_wf_def coin_field_def)

theorem large_first_balances_witness:
  "\<exists>r. LargeFirstSelector_select compare_lengths (StaticChangeAddressResolver_resolve [''c'']) example_constraints
      (take 1 example_utxo) example_utxo example_outputs no_implicit = Some (Inr r) \<and>
    getCoinQuantity (utxo_values (sk_inputs (sr_selection r))) = 4 + 1 + getCoinQuantity (out_values (sk_change (sr_selection r)))"
proof -
  let ?run = "LargeFirstSelector_select compare_lengths (StaticChangeAddressResolver_resolve [''c''])
      example_constraints (take 1 example_utxo) example_utxo example_outputs no_implicit"
  have "case ?run of Some (Inr r) \<Rightarrow> sk_fee (sr_selection r) = 1 | _ \<Rightarrow> False" by code_simp
  then obtain r where r: "?run = Some (Inr r)" "sk_fee (sr_selection r) = 1" by (auto split: option.splits sum.splits)
  have iv: "coin_field pc_input no_implicit = 0" "coin_field pc_deposit no_implicit = 0"
    "getCoinQuantity (out_values example_outputs) = 4"
    by (simp_all add: coin_field_def example_outputs_def out_values_def)
  from large_first_balances [OF example_ok(2,3) large_first_example_ok, of "[''c'']"] r iv show ?thesis by auto
qed

text \<open>C9. A large-first selection takes its inputs from the preselected and the available entries, none
  twice, with every preselected one; an available entry with the transaction id and index of a preselected
  one is not used. The available entries whose \<open>TxIn\<close> object is not that of a preselected entry are
  either inputs or remaining; so an entry whose output is spent remains exactly when an available entry is a copy of a
  preselected one with another \<open>TxIn\<close> object, because the code looks for the object. The inputs are
  sorted and within the limit. The token bundle of every change output is within the size limit; its coin is at least its
  minimum at the stub address, or, for an output split off a bundle too large, the minimum of the same tokens
  with no coin; when the minimum does not depend on the amount of coin, every change output has its minimum.
  The redeemers of the cost estimate are not in the result.\<close>

theorem large_first_well_formed:
  assumes "compare_ok lc" and "costs_nonneg con"
    and "good_values (utxo_values (pre @ us))" and "good_values (out_values outs)"
    and "distinct (map spent_output pre)" and "distinct (map spent_output us)" and "one_content (pre @ us)"
    and "otm_wf (iv_mint iv)" and "0 \<le> coin_field pc_deposit iv"
    and "LargeFirstSelector_select lc (StaticChangeAddressResolver_resolve addrs) con pre us outs iv = Some (Inr r)"
  shows "distinct (sk_inputs (sr_selection r)) \<and> set pre \<subseteq> set (sk_inputs (sr_selection r)) \<and>
    set (sk_inputs (sr_selection r)) \<subseteq> set pre \<union> {u \<in> set us. spent_output u \<notin> spent_output ` set pre} \<and>
    mset (sk_inputs (sr_selection r)) + mset (sr_remainingUTxO r) =
      mset pre + mset (filter (\<lambda>u. txIn_object u \<notin> txIn_object ` set pre) us) \<and>
    ((\<exists>u \<in> set (sr_remainingUTxO r). spent_output u \<in> spent_output ` set (sk_inputs (sr_selection r))) \<longleftrightarrow>
      (\<exists>u \<in> set us. \<exists>p \<in> set pre. spent_output u = spent_output p \<and> txIn_object u \<noteq> txIn_object p)) \<and>
    sorted_wrt (\<lambda>x y. sortUtxoByTxIn lc x y \<le> 0) (sk_inputs (sr_selection r)) \<and>
    (\<exists>inputs limit. set inputs = set (sk_inputs (sr_selection r)) \<and>
      computeSelectionLimit con (sr_selection r\<lparr>sk_inputs := inputs\<rparr>) = Inr limit \<and>
      int (length (sk_inputs (sr_selection r))) \<le> limit) \<and>
    (\<forall>v \<in> set (out_values (sk_change (sr_selection r))). within_limit (tokenBundleSizeExceedsLimit con) v \<and>
      (minCoin_of con v \<le> v_coins v \<or> v_assets v \<noteq> None \<and> minCoin_of con (v\<lparr>v_coins := 0\<rparr>) \<le> v_coins v) \<and>
      (amount_free (minCoin_of con) \<longrightarrow> minCoin_of con v \<le> v_coins v)) \<and>
    sr_redeemers r = None"
proof -
  let ?ins = "sk_inputs (sr_selection r)"
  have d: "distinct pre" "distinct us" using assms(5,6) by (simp_all add: distinct_map)
  obtain rest where ok: "selection_ok lc con pre (not_preselected pre us) outs iv (r\<lparr>sr_remainingUTxO := rest\<rparr>)"
    and rem: "sr_remainingUTxO r = computeRemainingUtxo us ?ins" "sr_redeemers r = None"
    using static_resolver.large_first_select [OF assms(1-4) d assms(8,9), of addrs] assms(10) by auto
  have ins: "distinct ?ins" "set pre \<subseteq> set ?ins" and part: "mset ?ins + mset rest = mset (pre @ not_preselected pre us)"
    using ok by (simp_all add: selection_ok_def Let_def)
  have sub: "set ?ins \<subseteq> set (pre @ not_preselected pre us)" using arg_cong [OF part, of set_mset] by auto
  note remaining = computeRemainingUtxo_mset [OF assms(7) d(1) assms(6) ins(1) sub ins(2)]
    spent_output_remains [OF assms(7,5,6) sub ins(2)]
  have "set ?ins \<subseteq> set pre \<union> {u \<in> set us. spent_output u \<notin> spent_output ` set pre}"
    using sub by (simp add: not_preselected_def)
  with remaining ins change_minimum [OF ok] ok rem show ?thesis by (simp add: selection_ok_def Let_def)
qed

theorem large_first_well_formed_witness:
  "\<exists>r. LargeFirstSelector_select compare_lengths (StaticChangeAddressResolver_resolve [''c'']) example_constraints
      (take 1 example_utxo) example_utxo example_outputs no_implicit = Some (Inr r) \<and> distinct (sk_inputs (sr_selection r)) \<and>
    (\<forall>u \<in> set (sr_remainingUTxO r). spent_output u \<notin> spent_output ` set (sk_inputs (sr_selection r))) \<and>
    (\<forall>v \<in> set (out_values (sk_change (sr_selection r))). 1 \<le> v_coins v)"
proof -
  let ?run = "LargeFirstSelector_select compare_lengths (StaticChangeAddressResolver_resolve [''c''])
      example_constraints (take 1 example_utxo) example_utxo example_outputs no_implicit"
  have "case ?run of Some (Inr r) \<Rightarrow> True | _ \<Rightarrow> False" by code_simp
  then obtain r where r: "?run = Some (Inr r)" by (auto split: option.splits sum.splits)
  have objects: "distinct (map spent_output (take 1 example_utxo))" "distinct (map spent_output example_utxo)"
    "one_content (take 1 example_utxo @ example_utxo)"
    "\<not> (\<exists>u \<in> set example_utxo. \<exists>p \<in> set (take 1 example_utxo). spent_output u = spent_output p \<and> txIn_object u \<noteq> txIn_object p)"
    by (auto simp: example_utxo_def spent_output_def one_content_def txIn_object_def)
  note ok = large_first_well_formed [OF example_ok(2,3) large_first_example_ok(1,2) objects(1-3) large_first_example_ok(5,6) r]
  from ok objects(4) have "\<not> (\<exists>u \<in> set (sr_remainingUTxO r). spent_output u \<in> spent_output ` set (sk_inputs (sr_selection r)))" by blast
  with ok r example_minimum show ?thesis by auto
qed

end
