(* ===== verification/Greedy.thy ===== *)
theory Greedy
  imports Large_First
begin

text \<open>
  The greedy selector (\<open>input-selection/src/GreedySelection\<close>): it takes every entry and splits the change
  among weighted addresses. The weights are JavaScript numbers and the amounts are computed with the
  package \<open>bignumber.js\<close>; both are the parameter \<open>big_lib\<close>, with a type of numbers of its own.
  A loop that might not end returns an option, and the properties state that it ends.
\<close>

record 'd big_lib =
  d_zero :: 'd
  d_add :: "'d \<Rightarrow> 'd \<Rightarrow> 'd"
  d_div :: "'d \<Rightarrow> 'd \<Rightarrow> 'd"
  d_off :: "'d \<Rightarrow> bool"
  bn_share :: "int \<Rightarrow> 'd \<Rightarrow> int option"
  bn_granularity :: "int \<Rightarrow> int"
  bn_half :: "int \<Rightarrow> int"

text \<open>
  \<open>d_off x\<close> is \<open>Math.abs(1 - x) > PERCENTAGE_TOLERANCE\<close>; the last three are a product with a number, with
  0.03 and a quotient by 2, each rounded up to an integer (\<open>toFixed(0, 0)\<close>). The product is \<open>None\<close> when the number
  is not finite: then the text is \<open>NaN\<close> or \<open>Infinity\<close> and \<open>BigInt\<close> throws a \<open>SyntaxError\<close>.

  What is documented of them: \<open>nonneg\<close> holds of a number whose sign is not negative, and of \<open>NaN\<close>. Floating-point
  zero is one, and so are the sum and the quotient of two of them; a product of two amounts without a negative
  sign is not negative. Nothing is said of a negative weight.
\<close>

definition big_ok :: "('d \<Rightarrow> bool) \<Rightarrow> 'd big_lib \<Rightarrow> bool" where
  "big_ok nonneg lib \<longleftrightarrow> nonneg (d_zero lib) \<and>
     (\<forall>x y. nonneg x \<longrightarrow> nonneg y \<longrightarrow> nonneg (d_add lib x y) \<and> nonneg (d_div lib x y)) \<and>
     (\<forall>n d share. 0 \<le> n \<longrightarrow> nonneg d \<longrightarrow> bn_share lib n d = Some share \<longrightarrow> 0 \<le> share) \<and>
     (\<forall>n. 0 \<le> n \<longrightarrow> bn_granularity lib n = (3 * n + 99) div 100) \<and>
     (\<forall>n. 0 \<le> n \<longrightarrow> bn_half lib n = (n + 1) div 2)"

subsection \<open>Splitting one output\<close>

text \<open>The length of \<open>amount.toString()\<close>.\<close>

fun digits :: "nat \<Rightarrow> nat" where
  "digits n = (if n < 10 then 1 else Suc (digits (n div 10)))"

declare digits.simps [simp del]

definition text_length :: "int \<Rightarrow> nat" where
  "text_length amount = (if amount < 0 then Suc (digits (nat (- amount))) else digits (nat amount))"

definition getMinUtxoAmount :: "'d big_lib \<Rightarrow> int \<Rightarrow> int" where
  "getMinUtxoAmount lib amount = bn_granularity lib (10 ^ (text_length amount - 1))"

partial_function (option) splitLoop ::
    "(int \<Rightarrow> int) \<Rightarrow> (int \<Rightarrow> int) \<Rightarrow> int \<Rightarrow> int \<Rightarrow> int \<Rightarrow> int \<Rightarrow> int \<Rightarrow> int list \<Rightarrow> int list option" where
  "splitLoop half minimum fee amount minUtxo remaining running amounts =
     (if remaining < minUtxo then Some amounts
      else let val = half remaining; updatedRemaining = remaining - val in
        if updatedRemaining \<le> minUtxo \<or> updatedRemaining \<le> minimum (amount - running) + fee
        then Some (amounts @ [amount - running])
        else splitLoop half minimum fee amount minUtxo (remaining - val) (running + val) (amounts @ [val]))"

declare splitLoop.simps [code]

definition splitChangeOutput :: "'d big_lib \<Rightarrow> 'r SelectionConstraints \<Rightarrow> int \<Rightarrow> TxOut \<Rightarrow> TxOut list option" where
  "splitChangeOutput lib con fee output =
     (let amount = v_coins (out_value output);
          at = (\<lambda>coins. output\<lparr>out_value := (out_value output)\<lparr>v_coins := coins\<rparr>\<rparr>) in
      map_option (map at)
        (splitLoop (bn_half lib) (\<lambda>coins. computeMinimumCoinQuantity con (at coins)) fee amount (getMinUtxoAmount lib amount) amount 0 []))"

subsection \<open>Distributing assets\<close>

definition isValidValue :: "'r SelectionConstraints \<Rightarrow> int \<Rightarrow> Value \<Rightarrow> bool" where
  "isValidValue con feeToDiscount value \<longleftrightarrow>
     computeMinimumCoinQuantity con \<lparr>out_address = stubMaxSizeAddress, out_value = value\<rparr> \<le> v_coins value - feeToDiscount \<and>
     (case v_assets value of None \<Rightarrow> True | Some assets \<Rightarrow> \<not> tokenBundleSizeExceedsLimit con assets)"

text \<open>
  The variables of the loop: the index, the assets not yet placed, the outputs that take assets and the
  full ones. Indexing no output at all would be a \<open>TypeError\<close>.
\<close>

function distributeLoop :: "'r SelectionConstraints \<Rightarrow> int \<Rightarrow> nat \<Rightarrow> token_map \<Rightarrow> TxOut list \<Rightarrow> TxOut list \<Rightarrow> TxOut list result" where
  "distributeLoop con fee i totalAssets available alreadyFull =
     (case totalAssets of
        [] \<Rightarrow> Inr (available @ alreadyFull)
      | (asset, quantity) # _ \<Rightarrow>
        if available = [] then Inl TypeError
        else
          let k = i mod length available; output = available ! k;
              currentValue = (out_value output)\<lparr>v_assets := addTokenMaps (v_assets (out_value output)) (Some [(asset, quantity)])\<rparr> in
          if \<not> isValidValue con fee currentValue then
            (let rest = take k available @ drop (Suc k) available in
             if rest = [] then Inl (InputSelectionError UtxoFullyDepleted)
             else distributeLoop con fee (Suc i) totalAssets rest (alreadyFull @ [output]))
          else distributeLoop con fee (Suc i) (tm_delete asset totalAssets) (available[k := output\<lparr>out_value := currentValue\<rparr>]) alreadyFull)"
  by pat_completeness auto
termination
proof (relation "measure (\<lambda>(con, fee, i, totalAssets, available, alreadyFull). length totalAssets + length available)", goal_cases)
  case (2 con fee i totalAssets available alreadyFull e rest asset quantity k out currentValue rest2)
  have "0 < length available" using 2 by simp
  from mod_less_divisor [OF this, of i]
  have "i mod length available + (length available - Suc (i mod length available)) < length available" by linarith
  with 2 show ?case by simp
next
  case (3 con fee i totalAssets available alreadyFull e rest asset quantity k out currentValue)
  have "length (filter P xs) \<le> length xs" for P and xs :: token_map by simp
  with 3 show ?case by (auto simp: tm_delete_def less_Suc_eq_le)
qed simp

declare distributeLoop.simps [simp del]

definition distributeAssets :: "'r SelectionConstraints \<Rightarrow> int \<Rightarrow> TxOut list \<Rightarrow> TxOut list result" where
  "distributeAssets con fee outputs =
     (if outputs = [] then Inr outputs
      else case v_assets (coalesceValueQuantities (out_values outputs)) of
             None \<Rightarrow> Inr outputs
           | Some totalAssets \<Rightarrow>
               if totalAssets = [] then Inr outputs
               else distributeLoop con fee 0 totalAssets
                 (map (\<lambda>out. out\<lparr>out_value := (out_value out)\<lparr>v_assets := None\<rparr>\<rparr>) outputs) [])"

subsection \<open>Splitting the change\<close>

text \<open>The allocation of coins to the addresses, with the running total.\<close>

fun allocate :: "int \<Rightarrow> int \<Rightarrow> (string \<times> int) list \<Rightarrow> int \<times> TxOut list" where
  "allocate totalChange runningTotal [] = (runningTotal, [])"
| "allocate totalChange runningTotal ((address, coinAllocation) # rest) =
     (let runningTotal = runningTotal + coinAllocation;
          coins = (if runningTotal > totalChange then coinAllocation - (runningTotal - totalChange) else coinAllocation);
          (runningTotal, outs) = allocate totalChange runningTotal rest in
      (runningTotal, \<lparr>out_address = address, out_value = \<lparr>v_coins = coins, v_assets = None\<rparr>\<rparr> # outs))"

definition add_coins :: "int \<Rightarrow> TxOut \<Rightarrow> TxOut" where
  "add_coins n out = out\<lparr>out_value := (out_value out)\<lparr>v_coins := v_coins (out_value out) + n\<rparr>\<rparr>"

definition allocateChange :: "'d big_lib \<Rightarrow> (string \<times> 'd) list \<Rightarrow> int \<Rightarrow> TxOut list result" where
  "allocateChange lib changeAddresses totalChangeLovelace =
     (let totalWeight = foldl (d_add lib) (d_zero lib) (map snd changeAddresses);
          changeAsPercent = map (\<lambda>(address, weight). (address, d_div lib weight totalWeight)) changeAddresses;
          totalPercentage = foldl (d_add lib) (d_zero lib) (map snd changeAsPercent) in
      if d_off lib totalPercentage then Inl (InputSelectionError UtxoBalanceInsufficient)
      else
        ebind (emap (\<lambda>(address, factor). case bn_share lib totalChangeLovelace factor of
            None \<Rightarrow> Inl SyntaxError | Some coinAllocation \<Rightarrow> Inr (address, coinAllocation)) changeAsPercent) (\<lambda>shares.
        let (runningTotal, changeOutputs) = allocate totalChangeLovelace 0 shares in
        if runningTotal < totalChangeLovelace then
          (if changeOutputs = [] then Inl TypeError
           else Inr (butlast changeOutputs @ [add_coins (totalChangeLovelace - runningTotal) (last changeOutputs)]))
        else Inr changeOutputs))"

fun flat_outputs :: "(TxOut \<Rightarrow> TxOut list option) \<Rightarrow> TxOut list \<Rightarrow> TxOut list option" where
  "flat_outputs f [] = Some []"
| "flat_outputs f (x # xs) = (case f x of None \<Rightarrow> None | Some ys \<Rightarrow> map_option ((@) ys) (flat_outputs f xs))"

definition with_first_assets :: "token_map option \<Rightarrow> TxOut list \<Rightarrow> TxOut list" where
  "with_first_assets assets outs = (case outs of [] \<Rightarrow> [] | out # rest \<Rightarrow> out\<lparr>out_value := (out_value out)\<lparr>v_assets := assets\<rparr>\<rparr> # rest)"

definition splitChange :: "'d big_lib \<Rightarrow> (string \<times> 'd) list result \<Rightarrow> int \<Rightarrow> token_map option \<Rightarrow> 'r SelectionConstraints \<Rightarrow>
    int \<Rightarrow> TxOut list result option" where
  "splitChange lib getChangeAddresses totalChangeLovelace totalChangeAssets con fee =
     (case ebind getChangeAddresses (\<lambda>addresses. allocateChange lib addresses totalChangeLovelace) of
        Inl e \<Rightarrow> Some (Inl e)
      | Inr changeOutputs \<Rightarrow>
          map_option (\<lambda>splitOutputs.
            let sortedOutputs = with_first_assets totalChangeAssets
                  (filter (\<lambda>out. 0 < v_coins (out_value out)) (js_sort sortByCoins splitOutputs)) in
            if totalChangeAssets = None \<or> totalChangeAssets = Some [] then Inr sortedOutputs
            else distributeAssets con fee sortedOutputs)
          (flat_outputs (splitChangeOutput lib con fee) changeOutputs))"

subsection \<open>The fee\<close>

record 'r Adjusted =
  aj_change :: "TxOut list"
  aj_fee :: int
  aj_feeAccountedFor :: bool
  aj_redeemers :: "'r option"

text \<open>The first output that can pay the fee pays it.\<close>

fun takeFee :: "'r SelectionConstraints \<Rightarrow> int \<Rightarrow> TxOut list \<Rightarrow> TxOut list \<times> bool" where
  "takeFee con fee [] = ([], False)"
| "takeFee con fee (output # rest) =
     (if computeMinimumCoinQuantity con output \<le> v_coins (out_value output) - fee then (add_coins (- fee) output # rest, True)
      else let (outs, paid) = takeFee con fee rest in (output # outs, paid))"

definition adjustOutputsForFee :: "int \<Rightarrow> 'r SelectionConstraints \<Rightarrow> utxo list \<Rightarrow> TxOut list \<Rightarrow> TxOut list \<Rightarrow> int \<Rightarrow> 'r Adjusted result" where
  "adjustOutputsForFee changeLovelace con inputs outputs changeOutputs currentFee =
     ebind (computeMinimumCost con \<lparr>sk_inputs = inputs, sk_outputs = outputs @ changeOutputs, sk_change = [], sk_fee = currentFee\<rparr>) (\<lambda>(fee, redeemers).
       if fee = changeLovelace then Inr \<lparr>aj_change = [], aj_fee = fee, aj_feeAccountedFor = True, aj_redeemers = redeemers\<rparr>
       else if changeLovelace < fee then Inl (InputSelectionError UtxoBalanceInsufficient)
       else let (change, paid) = takeFee con fee (js_sort sortByCoins changeOutputs) in
         Inr \<lparr>aj_change = change, aj_fee = fee, aj_feeAccountedFor = paid, aj_redeemers = redeemers\<rparr>)"

definition checkAdjusted :: "'r SelectionConstraints \<Rightarrow> 'r Adjusted \<Rightarrow> 'r Adjusted result" where
  "checkAdjusted con adjusted =
     ebind (throw_if (list_ex (\<lambda>out. v_coins (out_value out) < computeMinimumCoinQuantity con out) (aj_change adjusted))
       (InputSelectionError UtxoFullyDepleted)) (\<lambda>_.
     ebind (throw_if (\<not> aj_feeAccountedFor adjusted) (InputSelectionError UtxoFullyDepleted)) (\<lambda>_. Inr adjusted))"

definition allToFee :: "'r SelectionConstraints \<Rightarrow> token_map option \<Rightarrow> int \<Rightarrow> 'r Adjusted result" where
  "allToFee con changeAssets fee =
     (let out = \<lparr>out_address = stubMaxSizeAddress, out_value = \<lparr>v_coins = 0, v_assets = changeAssets\<rparr>\<rparr> in
      if 0 < computeMinimumCoinQuantity con out then Inl (InputSelectionError UtxoFullyDepleted)
      else Inr \<lparr>aj_change = [out], aj_fee = fee, aj_feeAccountedFor = True, aj_redeemers = None\<rparr>)"

function splitChangeAndComputeFee :: "'d big_lib \<Rightarrow> utxo list \<Rightarrow> TxOut list \<Rightarrow> int \<Rightarrow> token_map option \<Rightarrow> 'r SelectionConstraints \<Rightarrow>
    (string \<times> 'd) list result \<Rightarrow> int \<Rightarrow> 'r Adjusted result option" where
  "splitChangeAndComputeFee lib inputs outputs changeLovelace changeAssets con getChangeAddresses fee =
     (case splitChange lib getChangeAddresses changeLovelace changeAssets con fee of
        None \<Rightarrow> None
      | Some (Inl e) \<Rightarrow> Some (Inl e)
      | Some (Inr changeOutputs) \<Rightarrow>
        (case adjustOutputsForFee changeLovelace con inputs outputs changeOutputs fee of
           Inl e \<Rightarrow> Some (Inl e)
         | Inr adjusted \<Rightarrow>
           if changeLovelace \<le> aj_fee adjusted then Some (allToFee con changeAssets (aj_fee adjusted))
           else if fee < aj_fee adjusted then
             map_option (\<lambda>res. ebind res (\<lambda>adjusted.
                 ebind (throw_if (aj_change adjusted = []) (InputSelectionError UtxoFullyDepleted)) (\<lambda>_. checkAdjusted con adjusted)))
               (splitChangeAndComputeFee lib inputs outputs changeLovelace changeAssets con getChangeAddresses (aj_fee adjusted))
           else Some (checkAdjusted con adjusted)))"
  by pat_completeness auto
termination
  by (relation "measure (\<lambda>(lib, inputs, outputs, changeLovelace, changeAssets, con, getChangeAddresses, fee). nat (changeLovelace - fee))") auto

declare splitChangeAndComputeFee.simps [simp del]

subsection \<open>The selector\<close>

definition GreedyInputSelector_select :: "'d big_lib \<Rightarrow> (string \<Rightarrow> string \<Rightarrow> int) \<Rightarrow> (string \<times> 'd) list result \<Rightarrow> 'r SelectionConstraints \<Rightarrow>
    utxo list \<Rightarrow> utxo list \<Rightarrow> TxOut list \<Rightarrow> ImplicitValue \<Rightarrow> 'r SelectionResult result option" where
  "GreedyInputSelector_select lib localeCompare getChangeAddresses con preSelectedUtxo utxo outputs implicitValue =
     (let allInputs = js_uniq (utxo @ preSelectedUtxo);
          totalLovelaceInput = getCoinQuantity (utxo_values allInputs) + coin_field pc_input implicitValue;
          totalLovelaceOutput = getCoinQuantity (out_values outputs) + coin_field pc_deposit implicitValue;
          totalAssetsInput = addTokenMaps (v_assets (coalesceValueQuantities (utxo_values allInputs))) (Some (map_or_empty (iv_mint implicitValue)));
          changeLovelace = totalLovelaceInput - totalLovelaceOutput;
          changeAssets = subtractTokenMaps totalAssetsInput (v_assets (coalesceValueQuantities (out_values outputs))) in
      if allInputs = [] \<or> totalLovelaceOutput > totalLovelaceInput \<or> hasNegativeAssetValue changeAssets
      then Some (Inl (InputSelectionError UtxoBalanceInsufficient))
      else map_option (\<lambda>res. ebind res (\<lambda>adjusted.
          let change = filter (\<lambda>out. 0 < v_coins (out_value out) \<or> v_assets (out_value out) \<noteq> None \<and> v_assets (out_value out) \<noteq> Some []) (aj_change adjusted) in
          ebind (throw_if (changeLovelace - aj_fee adjusted < 0) (InputSelectionError UtxoBalanceInsufficient)) (\<lambda>_.
          ebind (computeSelectionLimit con \<lparr>sk_inputs = allInputs, sk_outputs = outputs, sk_change = change, sk_fee = aj_fee adjusted\<rparr>) (\<lambda>limit.
            if limit < int (length allInputs) then Inl (InputSelectionError MaximumInputCountExceeded)
            else Inr \<lparr>sr_selection = \<lparr>sk_inputs = js_sort (sortUtxoByTxIn localeCompare) allInputs, sk_outputs = outputs,
                 sk_change = change, sk_fee = aj_fee adjusted\<rparr>,
               sr_remainingUTxO = [], sr_redeemers = None\<rparr>))))
        (splitChangeAndComputeFee lib allInputs outputs changeLovelace changeAssets con getChangeAddresses 0))"

subsection \<open>Splitting keeps the amount\<close>

lemma digits_power: "10 ^ (digits n - 1) \<le> max 1 n"
proof (induction n rule: digits.induct)
  case (1 n)
  show ?case
  proof (cases "n < 10")
    case False
    then have "digits n - 1 = Suc (digits (n div 10) - 1)" by (subst digits.simps) (simp add: digits.simps [of "n div 10"])
    moreover have "max 1 (n div 10) = n div 10" using False by auto
    ultimately show ?thesis using 1 False by simp
  qed (subst digits.simps, simp)
qed

lemma granularity_bounds:
  assumes "big_ok nonneg lib"
  shows "1 \<le> getMinUtxoAmount lib amount" and "0 < amount \<Longrightarrow> getMinUtxoAmount lib amount \<le> amount"
proof -
  let ?k = "(10 :: int) ^ (text_length amount - 1)"
  have eq: "getMinUtxoAmount lib amount = (3 * ?k + 99) div 100"
    using assms by (simp add: getMinUtxoAmount_def big_ok_def)
  have k: "1 \<le> ?k" by simp
  with eq show "1 \<le> getMinUtxoAmount lib amount" by linarith
  assume "0 < amount"
  moreover have "int (10 ^ (digits (nat amount) - 1)) \<le> int (max 1 (nat amount))" using digits_power [of "nat amount"] by (simp only: zle_int)
  ultimately have "?k \<le> amount" by (simp add: text_length_def)
  with eq k show "getMinUtxoAmount lib amount \<le> amount" by linarith
qed

lemma splitLoop_sum:
  assumes "big_ok nonneg lib" and "1 \<le> m" and "m \<le> remaining" and "remaining = amount - running" and "sum_list xs = running" and "\<forall>x \<in> set xs. 0 < x"
  shows "\<exists>ys. splitLoop (bn_half lib) minimum fee amount m remaining running xs = Some ys \<and> sum_list ys = amount \<and> (\<forall>y \<in> set ys. 0 < y)"
  using assms(3-)
proof (induction "nat remaining" arbitrary: remaining running xs rule: less_induct)
  case less
  define val where "val = bn_half lib remaining"
  have half: "val = (remaining + 1) div 2" using assms(1,2) less.prems(1) by (simp add: val_def big_ok_def)
  then have val: "0 < val" "val \<le> remaining" using assms(2) less.prems(1) by linarith+
  show ?case
  proof (cases "remaining - val \<le> m \<or> remaining - val \<le> minimum (amount - running) + fee")
    case True
    then have "splitLoop (bn_half lib) minimum fee amount m remaining running xs = Some (xs @ [amount - running])"
      using less.prems(1) by (subst splitLoop.simps) (simp add: Let_def val_def)
    with less.prems assms(2) show ?thesis by simp
  next
    case False
    then have step: "splitLoop (bn_half lib) minimum fee amount m remaining running xs =
        splitLoop (bn_half lib) minimum fee amount m (remaining - val) (running + val) (xs @ [val])"
      using less.prems(1) by (subst splitLoop.simps) (simp add: Let_def val_def)
    show ?thesis unfolding step
      by (rule less.hyps) (use False less.prems val assms(2) in auto)
  qed
qed

lemma splitChangeOutput_spec:
  assumes "big_ok nonneg lib"
  shows "\<exists>outs. splitChangeOutput lib con fee out = Some outs \<and>
    getCoinQuantity (out_values outs) = max 0 (v_coins (out_value out)) \<and>
    (\<forall>x \<in> set outs. 0 < v_coins (out_value x) \<and> v_assets (out_value x) = v_assets (out_value out))"
proof -
  let ?n = "v_coins (out_value out)" and ?at = "\<lambda>coins. out\<lparr>out_value := (out_value out)\<lparr>v_coins := coins\<rparr>\<rparr>"
  have total: "getCoinQuantity (out_values (map ?at ys)) = sum_list ys" for ys
    by (induction ys) (simp_all add: out_values_def)
  show ?thesis
  proof (cases "0 < ?n")
    case True
    obtain ys where "splitLoop (bn_half lib) (\<lambda>coins. computeMinimumCoinQuantity con (?at coins)) fee ?n (getMinUtxoAmount lib ?n) ?n 0 [] = Some ys"
      "sum_list ys = ?n" "\<forall>y \<in> set ys. 0 < y"
      using splitLoop_sum [OF assms granularity_bounds(1) [OF assms] granularity_bounds(2) [OF assms True], where running = 0 and xs = "[]"
        and minimum = "\<lambda>coins. computeMinimumCoinQuantity con (?at coins)" and fee = fee] by auto
    with True total [of ys] show ?thesis by (auto simp: splitChangeOutput_def Let_def)
  next
    case False
    with granularity_bounds(1) [OF assms, of ?n] show ?thesis
      by (auto simp: splitChangeOutput_def Let_def splitLoop.simps out_values_def)
  qed
qed

subsection \<open>The allocation adds up\<close>

text \<open>Outputs with a negative amount are dropped later.\<close>

definition pos_total :: "TxOut list \<Rightarrow> int" where
  "pos_total outs = sum_list (map (\<lambda>out. max 0 (v_coins (out_value out))) outs)"

lemma pos_total_simps [simp]:
  "pos_total [] = 0" "pos_total (x # xs) = max 0 (v_coins (out_value x)) + pos_total xs" "pos_total (xs @ ys) = pos_total xs + pos_total ys"
  by (simp_all add: pos_total_def)

lemma allocate_total:
  assumes "allocate T r0 shares = (r, outs)" and "\<forall>s \<in> set shares. 0 \<le> snd s"
  shows "r0 \<le> r" and "pos_total outs = max 0 (min r T - r0)" and "\<forall>out \<in> set outs. v_assets (out_value out) = None"
    and "r \<le> T \<Longrightarrow> \<forall>out \<in> set outs. 0 \<le> v_coins (out_value out)"
proof -
  have "r0 \<le> r \<and> pos_total outs = max 0 (min r T - r0) \<and> (\<forall>out \<in> set outs. v_assets (out_value out) = None) \<and>
    (r \<le> T \<longrightarrow> (\<forall>out \<in> set outs. 0 \<le> v_coins (out_value out)))"
    using assms
  proof (induction T r0 shares arbitrary: r outs rule: allocate.induct)
    case (2 T r0 address share rest)
    obtain r' outs' where rest: "allocate T (r0 + share) rest = (r', outs')" by fastforce
    with "2.prems"(1) have eq: "r = r'" "outs = \<lparr>out_address = address, out_value =
        \<lparr>v_coins = (if r0 + share > T then share - (r0 + share - T) else share), v_assets = None\<rparr>\<rparr> # outs'"
      by (simp_all add: Let_def split: if_splits)
    have "0 \<le> share" using "2.prems"(2) by simp
    moreover have "r0 + share \<le> r' \<and> pos_total outs' = max 0 (min r' T - (r0 + share)) \<and> (\<forall>out \<in> set outs'. v_assets (out_value out) = None) \<and>
        (r' \<le> T \<longrightarrow> (\<forall>out \<in> set outs'. 0 \<le> v_coins (out_value out)))"
      using "2.IH" [OF refl refl rest] "2.prems"(2) by simp
    ultimately show ?case unfolding eq by auto
  qed simp
  then show "r0 \<le> r" "pos_total outs = max 0 (min r T - r0)" "\<forall>out \<in> set outs. v_assets (out_value out) = None"
    "r \<le> T \<Longrightarrow> \<forall>out \<in> set outs. 0 \<le> v_coins (out_value out)" by blast+
qed

abbreviation weights_nonneg :: "('d \<Rightarrow> bool) \<Rightarrow> (string \<times> 'd) list \<Rightarrow> bool" where
  "weights_nonneg nonneg addresses \<equiv> \<forall>w \<in> snd ` set addresses. nonneg w"

lemma sum_nonneg_weights:
  "big_ok nonneg lib \<Longrightarrow> nonneg x \<Longrightarrow> \<forall>w \<in> set ws. nonneg w \<Longrightarrow> nonneg (foldl (d_add lib) x ws)"
  by (induction ws arbitrary: x) (simp_all add: big_ok_def)

lemma shares_nonneg:
  assumes "big_ok nonneg lib" and "0 \<le> T" and "\<forall>f \<in> snd ` set factors. nonneg f"
    and "emap (\<lambda>(address, factor). case bn_share lib T factor of None \<Rightarrow> Inl SyntaxError | Some n \<Rightarrow> Inr (address, n)) factors = Inr shares"
  shows "\<forall>s \<in> set shares. 0 \<le> snd s"
proof
  fix s assume "s \<in> set shares"
  then obtain i where i: "i < length shares" "s = shares ! i" by (auto simp: in_set_conv_nth)
  let ?share = "\<lambda>(address, factor). case bn_share lib T factor of None \<Rightarrow> Inl SyntaxError | Some n \<Rightarrow> Inr (address, n)"
  have "list_all2 (\<lambda>f s. ?share f = Inr s) factors shares" using assms(4) by (simp add: emap_eq_Inr)
  with i have "?share (factors ! i) = Inr s" "factors ! i \<in> set factors" by (auto simp: list_all2_conv_all_nth)
  with assms(1-3) show "0 \<le> snd s" by (auto simp: big_ok_def split: option.splits prod.splits)
qed

lemma allocateChange_total:
  assumes "big_ok nonneg lib" and "0 \<le> T" and "weights_nonneg nonneg addresses" and "allocateChange lib addresses T = Inr outs"
  shows "pos_total outs = T" and "\<forall>out \<in> set outs. v_assets (out_value out) = None"
proof -
  define w where "w = foldl (d_add lib) (d_zero lib) (map snd addresses)"
  define factors where "factors = map (\<lambda>(address, weight). (address, d_div lib weight w)) addresses"
  have "nonneg w" unfolding w_def using assms(1,3) by (intro sum_nonneg_weights [OF assms(1)]) (auto simp: big_ok_def)
  then have factors: "\<forall>f \<in> snd ` set factors. nonneg f"
    using assms(1,3) by (auto simp: factors_def big_ok_def)
  obtain shares r outs' where e: "emap (\<lambda>(address, factor). case bn_share lib T factor of None \<Rightarrow> Inl SyntaxError | Some n \<Rightarrow> Inr (address, n)) factors = Inr shares"
    and a: "allocate T 0 shares = (r, outs')"
    and outs: "outs = (if r < T then butlast outs' @ [add_coins (T - r) (last outs')] else outs')" "r < T \<Longrightarrow> outs' \<noteq> []"
    using assms(4) unfolding allocateChange_def Let_def w_def [symmetric] factors_def [symmetric]
    by (auto elim!: ebind_InrE split: if_splits prod.splits)
  note alloc = allocate_total [OF a shares_nonneg [OF assms(1,2) factors e]]
  have "pos_total outs = T \<and> (\<forall>out \<in> set outs. v_assets (out_value out) = None)"
  proof (cases "r < T")
    case True
    then obtain xs x where xs: "outs' = xs @ [x]" using outs(2) by (metis rev_exhaust)
    have "0 \<le> v_coins (out_value x)" using alloc(4) True xs by simp
    with True alloc(1-3) xs outs(1) show ?thesis by (auto simp: add_coins_def)
  next
    case False
    with alloc outs(1) assms(2) show ?thesis by auto
  qed
  then show "pos_total outs = T" "\<forall>out \<in> set outs. v_assets (out_value out) = None" by blast+
qed

lemma flat_outputs_spec:
  assumes "big_ok nonneg lib" and "\<forall>out \<in> set outs. v_assets (out_value out) = None"
  shows "\<exists>ys. flat_outputs (splitChangeOutput lib con fee) outs = Some ys \<and> getCoinQuantity (out_values ys) = pos_total outs \<and>
    (\<forall>y \<in> set ys. 0 < v_coins (out_value y) \<and> v_assets (out_value y) = None)"
  using assms(2)
proof (induction outs)
  case (Cons x xs)
  obtain ys where ys: "splitChangeOutput lib con fee x = Some ys" "getCoinQuantity (out_values ys) = max 0 (v_coins (out_value x))"
    "\<forall>y \<in> set ys. 0 < v_coins (out_value y) \<and> v_assets (out_value y) = None"
    using splitChangeOutput_spec [OF assms(1), of con fee x] Cons.prems by auto
  obtain zs where "flat_outputs (splitChangeOutput lib con fee) xs = Some zs" "getCoinQuantity (out_values zs) = pos_total xs"
    "\<forall>y \<in> set zs. 0 < v_coins (out_value y) \<and> v_assets (out_value y) = None" using Cons by auto
  with ys show ?case by (auto simp: out_values_def)
qed (simp add: out_values_def)

subsection \<open>Assets are distributed, none is lost\<close>

abbreviation outs_wf :: "TxOut list \<Rightarrow> bool" where
  "outs_wf outs \<equiv> \<forall>out \<in> set outs. value_wf (out_value out)"

lemma totals_update:
  assumes "k < length xs" and "v_coins v = v_coins (out_value (xs ! k))"
  shows "getCoinQuantity (out_values (xs[k := (xs ! k)\<lparr>out_value := v\<rparr>])) = getCoinQuantity (out_values xs)"
    and "assetQuantitySelector i (out_values (xs[k := (xs ! k)\<lparr>out_value := v\<rparr>])) =
      assetQuantitySelector i (out_values xs) - oqty (v_assets (out_value (xs ! k))) i + oqty (v_assets v) i"
proof -
  obtain as bs x where xs: "xs = as @ x # bs" "length as = k" using id_take_nth_drop [OF assms(1)] assms(1) by (metis length_take min.absorb4)
  show "getCoinQuantity (out_values (xs[k := (xs ! k)\<lparr>out_value := v\<rparr>])) = getCoinQuantity (out_values xs)"
    "assetQuantitySelector i (out_values (xs[k := (xs ! k)\<lparr>out_value := v\<rparr>])) =
      assetQuantitySelector i (out_values xs) - oqty (v_assets (out_value (xs ! k))) i + oqty (v_assets v) i"
    using assms(2) xs(2) unfolding xs(1) by (auto simp: out_values_def nth_append list_update_append)
qed

lemma without_totals:
  assumes "k < length xs"
  shows "getCoinQuantity (out_values (take k xs @ drop (Suc k) xs)) + v_coins (out_value (xs ! k)) = getCoinQuantity (out_values xs)"
    and "assetQuantitySelector i (out_values (take k xs @ drop (Suc k) xs)) + oqty (v_assets (out_value (xs ! k))) i =
      assetQuantitySelector i (out_values xs)"
    and "mset (take k xs @ drop (Suc k) xs) + {#xs ! k#} = mset xs"
proof -
  obtain as bs x where xs: "xs = as @ x # bs" "length as = k" using id_take_nth_drop [OF assms] assms by (metis length_take min.absorb4)
  show "getCoinQuantity (out_values (take k xs @ drop (Suc k) xs)) + v_coins (out_value (xs ! k)) = getCoinQuantity (out_values xs)"
    "assetQuantitySelector i (out_values (take k xs @ drop (Suc k) xs)) + oqty (v_assets (out_value (xs ! k))) i =
      assetQuantitySelector i (out_values xs)" "mset (take k xs @ drop (Suc k) xs) + {#xs ! k#} = mset xs"
    using xs(2) unfolding xs(1) by (auto simp: out_values_def nth_append)
qed

definition given :: "token_map option \<Rightarrow> TxOut \<Rightarrow> TxOut" where
  "given assets x = x\<lparr>out_value := (out_value x)\<lparr>v_assets := addTokenMaps (v_assets (out_value x)) assets\<rparr>\<rparr>"

lemma distributeLoop_step:
  assumes "available \<noteq> []" and "k = i mod length available"
  shows "isValidValue con fee (out_value (given (Some [(a, q)]) (available ! k))) \<Longrightarrow>
      distributeLoop con fee i ((a, q) # m) available full =
      distributeLoop con fee (Suc i) (tm_delete a ((a, q) # m)) (available[k := given (Some [(a, q)]) (available ! k)]) full"
    and "\<not> isValidValue con fee (out_value (given (Some [(a, q)]) (available ! k))) \<Longrightarrow>
      distributeLoop con fee i ((a, q) # m) available full =
      (if take k available @ drop (Suc k) available = [] then Inl (InputSelectionError UtxoFullyDepleted)
       else distributeLoop con fee (Suc i) ((a, q) # m) (take k available @ drop (Suc k) available) (full @ [available ! k]))"
  unfolding assms(2) using assms(1) by (subst distributeLoop.simps, simp add: Let_def given_def)+

text \<open>Giving one output some assets.\<close>

lemma given_totals:
  assumes "k < length xs" and "outs_wf xs" and "tm_wf m"
  shows "getCoinQuantity (out_values (xs[k := given (Some m) (xs ! k)])) = getCoinQuantity (out_values xs)"
    and "assetQuantitySelector i (out_values (xs[k := given (Some m) (xs ! k)])) = assetQuantitySelector i (out_values xs) + qty m i"
    and "outs_wf (xs[k := given (Some m) (xs ! k)])"
proof -
  have wf: "value_wf (out_value (xs ! k))" using assms(2) nth_mem [OF assms(1)] by blast
  show "getCoinQuantity (out_values (xs[k := given (Some m) (xs ! k)])) = getCoinQuantity (out_values xs)"
    unfolding given_def by (rule totals_update(1) [OF assms(1)]) simp
  show "assetQuantitySelector i (out_values (xs[k := given (Some m) (xs ! k)])) = assetQuantitySelector i (out_values xs) + qty m i"
    unfolding given_def using totals_update(2) [OF assms(1)] oqty_addTokenMaps [OF wf, of "Some m" i] assms(3) by simp
  show "outs_wf (xs[k := given (Some m) (xs ! k)])"
    using assms(2) addTokenMaps_wf [OF wf, of "Some m"] assms(3) by (auto simp: given_def dest!: set_update_subset_insert [THEN subsetD])
qed

lemma out_values_append: "out_values (xs @ ys) = out_values xs @ out_values ys"
  by (simp add: out_values_def)

lemma distributeLoop_totals:
  assumes "distributeLoop con fee i m available full = Inr outs" and "tm_wf m" and "outs_wf available" and "outs_wf full"
  shows "getCoinQuantity (out_values outs) = getCoinQuantity (out_values (available @ full)) \<and> outs_wf outs \<and>
    (\<forall>j. assetQuantitySelector j (out_values outs) = qty m j + assetQuantitySelector j (out_values (available @ full)))"
  using assms
proof (induction "length m + length available" arbitrary: i m available full rule: less_induct)
  case less
  show ?case
  proof (cases m)
    case Nil
    with less.prems show ?thesis by (subst (asm) distributeLoop.simps) (auto simp: qty_def)
  next
    case (Cons e m')
    obtain a q where e: "e = (a, q)" by force
    have ne: "available \<noteq> []" using less.prems(1) Cons e by (subst (asm) distributeLoop.simps) auto
    define k where "k = i mod length available"
    have k: "k < length available" using ne by (simp add: k_def)
    have run: "distributeLoop con fee i ((a, q) # m') available full = Inr outs" using less.prems(1) Cons e by simp
    note step = distributeLoop_step [OF ne k_def, of con fee a q m' full]
    show ?thesis
    proof (cases "isValidValue con fee (out_value (given (Some [(a, q)]) (available ! k)))")
      case True
      let ?upd = "available[k := given (Some [(a, q)]) (available ! k)]"
      have wf1: "tm_wf [(a, q)]" by (simp add: tm_wf_def)
      have "length (tm_delete a m) + length ?upd < length m + length available"
        using Cons e length_filter_le [of _ m'] by (auto simp: tm_delete_def less_Suc_eq_le)
      then have IH: "getCoinQuantity (out_values outs) = getCoinQuantity (out_values (?upd @ full)) \<and> outs_wf outs \<and>
          (\<forall>j. assetQuantitySelector j (out_values outs) = qty (tm_delete a m) j + assetQuantitySelector j (out_values (?upd @ full)))"
        using run step(1) [OF True] Cons e tm_wf_delete [OF less.prems(2)] given_totals(3) [OF k less.prems(3) wf1] less.prems(4)
        by (intro less.hyps) simp_all
      have "qty m j = qty (tm_delete a m) j + qty [(a, q)] j" for j
        unfolding qty_tm_delete using Cons e by (simp add: qty_Cons)
      then show ?thesis using IH given_totals(1,2) [OF k less.prems(3) wf1] by (simp add: out_values_append)
    next
      case False
      let ?rest = "take k available @ drop (Suc k) available"
      have rest: "?rest \<noteq> []" "distributeLoop con fee (Suc i) m ?rest (full @ [available ! k]) = Inr outs"
        using run step(2) [OF False] Cons e by (auto split: if_splits)
      have wfx: "value_wf (out_value (available ! k))" using less.prems(3) nth_mem [OF k] by blast
      have "length m + length ?rest < length m + length available" using k by simp
      then have IH: "getCoinQuantity (out_values outs) = getCoinQuantity (out_values (?rest @ full @ [available ! k])) \<and> outs_wf outs \<and>
          (\<forall>j. assetQuantitySelector j (out_values outs) = qty m j + assetQuantitySelector j (out_values (?rest @ full @ [available ! k])))"
        using rest(2) less.prems(2-4) wfx by (intro less.hyps) (auto dest: in_set_takeD in_set_dropD)
      then show ?thesis using without_totals(1,2) [OF k] by (simp add: out_values_append out_values_def [of "[_]"] add.assoc)
    qed
  qed
qed

lemma distributeAssets_totals:
  assumes "distributeAssets con fee outputs = Inr outs" and "outs_wf outputs"
  shows "getCoinQuantity (out_values outs) = getCoinQuantity (out_values outputs)" and "outs_wf outs"
    and "assetQuantitySelector j (out_values outs) = assetQuantitySelector j (out_values outputs)"
proof -
  let ?total = "v_assets (coalesceValueQuantities (out_values outputs))"
  let ?bare = "map (\<lambda>out. out\<lparr>out_value := (out_value out)\<lparr>v_assets := None\<rparr>\<rparr>) outputs"
  have bare: "getCoinQuantity (out_values ?bare) = getCoinQuantity (out_values outputs)" "assetQuantitySelector j (out_values ?bare) = 0" "outs_wf ?bare" for j
    by (induction outputs) (simp_all add: out_values_def)
  have assets: "oqty ?total j = assetQuantitySelector j (out_values outputs)" for j
    using assms(2) by (intro coalesceValueQuantities_assets) (auto simp: out_values_def)
  have "getCoinQuantity (out_values outs) = getCoinQuantity (out_values outputs) \<and> outs_wf outs \<and>
    (\<forall>j. assetQuantitySelector j (out_values outs) = assetQuantitySelector j (out_values outputs))"
  proof (cases "outputs = [] \<or> ?total = None \<or> ?total = Some []")
    case True
    with assms show ?thesis by (auto simp: distributeAssets_def split: if_splits)
  next
    case False
    then obtain m where m: "?total = Some m" "m \<noteq> []" "outputs \<noteq> []" by (cases ?total) auto
    then have run: "distributeLoop con fee 0 m ?bare [] = Inr outs" using assms(1) by (simp add: distributeAssets_def)
    have "tm_wf m" using coalesceValueQuantities_wf [of "out_values outputs"] m(1) by simp
    from distributeLoop_totals [OF run this bare(3)] bare assets show ?thesis by (simp add: m(1))
  qed
  then show "getCoinQuantity (out_values outs) = getCoinQuantity (out_values outputs)" "outs_wf outs"
    "assetQuantitySelector j (out_values outs) = assetQuantitySelector j (out_values outputs)" by blast+
qed

lemma splitChange_spec:
  assumes "big_ok nonneg lib" and "0 \<le> T" and "otm_wf assets" and "\<forall>ws. addresses = Inr ws \<longrightarrow> weights_nonneg nonneg ws"
  shows "\<exists>res. splitChange lib addresses T assets con fee = Some res \<and>
    (\<forall>outs. res = Inr outs \<longrightarrow> getCoinQuantity (out_values outs) = T \<and> outs_wf outs \<and>
      (0 < T \<longrightarrow> (\<forall>j. assetQuantitySelector j (out_values outs) = oqty assets j)))"
proof (cases "ebind addresses (\<lambda>addresses. allocateChange lib addresses T)")
  case (Inl e)
  then show ?thesis by (simp add: splitChange_def)
next
  case (Inr changeOutputs)
  then obtain as where as: "addresses = Inr as" "allocateChange lib as T = Inr changeOutputs" by (auto elim!: ebind_InrE)
  have "weights_nonneg nonneg as" using assms(4) as(1) by blast
  note alloc = allocateChange_total [OF assms(1,2) this as(2)]
  obtain ys where ys: "flat_outputs (splitChangeOutput lib con fee) changeOutputs = Some ys" "getCoinQuantity (out_values ys) = T"
    "\<forall>y \<in> set ys. 0 < v_coins (out_value y) \<and> v_assets (out_value y) = None"
    using flat_outputs_spec [OF assms(1) alloc(2), of con fee] alloc(1) by auto
  define zs where "zs = filter (\<lambda>out. 0 < v_coins (out_value out)) (js_sort sortByCoins ys)"
  have "mset zs = mset ys" using ys(3) by (simp add: zs_def filter_mset_eq_conv flip: mset_filter)
  then have zs: "getCoinQuantity (out_values zs) = T" "\<forall>z \<in> set zs. v_assets (out_value z) = None"
    using ys(2,3) quantity_mset_cong(1) [of "out_values zs" "out_values ys"] mset_eq_setD by (fastforce simp: out_values_def)+
  have none: "assetQuantitySelector j (out_values xs) = 0" if "\<forall>x \<in> set xs. v_assets (out_value x) = None" for j xs
    using that by (induction xs) (simp_all add: out_values_def)
  have first: "getCoinQuantity (out_values (with_first_assets assets zs)) = T" "outs_wf (with_first_assets assets zs)"
    "0 < T \<Longrightarrow> assetQuantitySelector j (out_values (with_first_assets assets zs)) = oqty assets j" for j
    using zs assms(3) none [of "tl zs" j] by (cases zs; auto simp: with_first_assets_def out_values_def)+
  then show ?thesis using Inr ys(1) distributeAssets_totals [of con fee "with_first_assets assets zs"]
    by (auto simp: splitChange_def Let_def zs_def [symmetric])
qed

subsection \<open>The fee is paid once\<close>

lemma takeFee_totals:
  assumes "takeFee con fee outs = (outs', True)" and "outs_wf outs"
  shows "getCoinQuantity (out_values outs') + fee = getCoinQuantity (out_values outs)" and "outs_wf outs'"
    and "assetQuantitySelector j (out_values outs') = assetQuantitySelector j (out_values outs)"
proof -
  have "getCoinQuantity (out_values outs') + fee = getCoinQuantity (out_values outs) \<and> outs_wf outs' \<and>
    (\<forall>j. assetQuantitySelector j (out_values outs') = assetQuantitySelector j (out_values outs))"
    using assms
  proof (induction outs arbitrary: outs')
    case (Cons x xs)
    then show ?case
      by (cases "takeFee con fee xs") (auto simp: add_coins_def out_values_def split: if_splits)
  qed simp
  then show "getCoinQuantity (out_values outs') + fee = getCoinQuantity (out_values outs)" "outs_wf outs'"
    "assetQuantitySelector j (out_values outs') = assetQuantitySelector j (out_values outs)" by blast+
qed

text \<open>The change holds what is left after the fee, and every output has its minimum.\<close>

definition change_ok :: "'r SelectionConstraints \<Rightarrow> int \<Rightarrow> token_map option \<Rightarrow> 'r Adjusted \<Rightarrow> bool" where
  "change_ok con T assets a \<longleftrightarrow> getCoinQuantity (out_values (aj_change a)) + aj_fee a = T \<and> 0 \<le> aj_fee a \<and> outs_wf (aj_change a) \<and>
     (\<forall>j. assetQuantitySelector j (out_values (aj_change a)) = oqty assets j) \<and>
     (\<forall>out \<in> set (aj_change a). computeMinimumCoinQuantity con out \<le> v_coins (out_value out))"

lemma checkAdjusted_Inr: "checkAdjusted con a = Inr a' \<longleftrightarrow> a' = a \<and> aj_feeAccountedFor a \<and>
    (\<forall>out \<in> set (aj_change a). computeMinimumCoinQuantity con out \<le> v_coins (out_value out))"
  by (auto simp: checkAdjusted_def throw_if_def list_ex_iff not_le)

lemma adjust_spec:
  assumes "adjustOutputsForFee T con inputs outputs outs fee = Inr a" and "costs_nonneg con" and "outs_wf outs"
    and "getCoinQuantity (out_values outs) = T" and "0 < T \<Longrightarrow> \<forall>j. assetQuantitySelector j (out_values outs) = oqty assets j"
  shows "0 \<le> aj_fee a" and "aj_fee a \<le> T"
    and "aj_fee a < T \<Longrightarrow> checkAdjusted con a = Inr a' \<Longrightarrow> change_ok con T assets a'"
proof -
  obtain redeemers where cost: "computeMinimumCost con \<lparr>sk_inputs = inputs, sk_outputs = outputs @ outs, sk_change = [], sk_fee = fee\<rparr> = Inr (aj_fee a, redeemers)"
    and le: "aj_fee a \<le> T" and change: "aj_fee a < T \<Longrightarrow> takeFee con (aj_fee a) (js_sort sortByCoins outs) = (aj_change a, aj_feeAccountedFor a)"
    using assms(1) by (auto simp: adjustOutputsForFee_def elim!: ebind_InrE split: if_splits prod.splits)
  show nonneg: "0 \<le> aj_fee a" using assms(2) cost by (auto simp: costs_nonneg_def)
  show "aj_fee a \<le> T" by (rule le)
  assume lt: "aj_fee a < T" and "checkAdjusted con a = Inr a'"
  then have a': "a' = a" "aj_feeAccountedFor a" "\<forall>out \<in> set (aj_change a). computeMinimumCoinQuantity con out \<le> v_coins (out_value out)"
    by (simp_all add: checkAdjusted_Inr)
  have sorted: "mset (out_values (js_sort sortByCoins outs)) = mset (out_values outs)" by (simp add: out_values_def)
  have "takeFee con (aj_fee a) (js_sort sortByCoins outs) = (aj_change a, True)" using change [OF lt] a'(2) by simp
  note paid = takeFee_totals [OF this]
  show "change_ok con T assets a'"
    using paid assms(3-5) lt nonneg a'(1,3) quantity_mset_cong [OF sorted] by (simp add: change_ok_def)
qed

lemma splitChangeAndComputeFee_spec:
  assumes "big_ok nonneg lib" and "0 \<le> T" and "otm_wf assets" and "costs_nonneg con"
    and "\<forall>ws. addresses = Inr ws \<longrightarrow> weights_nonneg nonneg ws"
  shows "\<exists>res. splitChangeAndComputeFee lib inputs outputs T assets con addresses fee = Some res \<and>
    (\<forall>a. res = Inr a \<longrightarrow> change_ok con T assets a)"
proof (induction "nat (T - fee)" arbitrary: fee rule: less_induct)
  case less
  obtain res where res: "splitChange lib addresses T assets con fee = Some res"
    and outs: "\<And>outs. res = Inr outs \<Longrightarrow> getCoinQuantity (out_values outs) = T \<and> outs_wf outs \<and>
      (0 < T \<longrightarrow> (\<forall>j. assetQuantitySelector j (out_values outs) = oqty assets j))"
    using splitChange_spec [OF assms(1-3,5), of con fee] by blast
  show ?case
  proof (cases res)
    case (Inl e)
    with res show ?thesis by (subst splitChangeAndComputeFee.simps) simp
  next
    case (Inr os)
    note o = outs [OF Inr]
    show ?thesis
    proof (cases "adjustOutputsForFee T con inputs outputs os fee")
      case (Inl e)
      with res Inr show ?thesis by (subst splitChangeAndComputeFee.simps) simp
    next
      case adj: (Inr a)
      note a = adjust_spec [OF adj assms(4), where assets = assets]
      show ?thesis
      proof (cases "T \<le> aj_fee a")
        case True
        with a(2) o have fee: "aj_fee a = T" by (simp add: order.antisym)
        then have "splitChangeAndComputeFee lib inputs outputs T assets con addresses fee = Some (allToFee con assets T)"
          using res Inr adj by (subst splitChangeAndComputeFee.simps) simp
        then show ?thesis using assms(2,3) by (auto simp: allToFee_def Let_def change_ok_def out_values_def split: if_splits)
      next
        case lt: False
        show ?thesis
        proof (cases "fee < aj_fee a")
          case True
          then have "nat (T - aj_fee a) < nat (T - fee)" using lt by simp
          from less.hyps [OF this] obtain r where "splitChangeAndComputeFee lib inputs outputs T assets con addresses (aj_fee a) = Some r"
            "\<forall>a. r = Inr a \<longrightarrow> change_ok con T assets a" by blast
          then show ?thesis using res Inr adj lt True
            by (subst splitChangeAndComputeFee.simps) (auto simp: checkAdjusted_Inr elim!: ebind_InrE)
        next
          case False
          with res Inr adj lt a(3) o show ?thesis by (subst splitChangeAndComputeFee.simps) auto
        qed
      qed
    qed
  qed
qed

subsection \<open>Properties\<close>

lemma dropped_change_totals:
  assumes "\<forall>out \<in> set outs. 0 \<le> v_coins (out_value out)"
  shows "getCoinQuantity (out_values (filter (\<lambda>out. 0 < v_coins (out_value out) \<or> v_assets (out_value out) \<noteq> None \<and> v_assets (out_value out) \<noteq> Some []) outs)) =
      getCoinQuantity (out_values outs)"
    and "assetQuantitySelector j (out_values (filter (\<lambda>out. 0 < v_coins (out_value out) \<or> v_assets (out_value out) \<noteq> None \<and> v_assets (out_value out) \<noteq> Some []) outs)) =
      assetQuantitySelector j (out_values outs)"
  using assms by (induction outs) (auto simp: out_values_def qty_def)

text \<open>C5. The greedy selector returns, with a selection or an error, for any weights that are not negative. A
  selection takes every entry, available or preselected, sorted, and leaves none; no object is taken twice, but an
  entry that is a copy of another is another input. It balances: inputs, withdrawals, reclaimed
  deposits and minted tokens are exactly outputs, deposits, burned tokens, the fee and the change; every
  change output has its minimum coin quantity.\<close>

theorem greedy_balances:
  assumes "big_ok nonneg lib" and "compare_ok lc" and "costs_nonneg con" and "\<forall>out. 0 \<le> computeMinimumCoinQuantity con out"
    and "\<forall>v \<in> set (utxo_values (us @ pre)). value_wf v" and "\<forall>v \<in> set (out_values outs). value_wf v" and "otm_wf (iv_mint iv)"
    and "\<forall>ws. addresses = Inr ws \<longrightarrow> weights_nonneg nonneg ws"
  shows "\<exists>res. GreedyInputSelector_select lib lc addresses con pre us outs iv = Some res \<and>
    (\<forall>r. res = Inr r \<longrightarrow>
      getCoinQuantity (utxo_values (sk_inputs (sr_selection r))) + coin_field pc_input iv =
        getCoinQuantity (out_values outs) + coin_field pc_deposit iv
        + sk_fee (sr_selection r) + getCoinQuantity (out_values (sk_change (sr_selection r))) \<and>
      (\<forall>i. assetQuantitySelector i (utxo_values (sk_inputs (sr_selection r))) + oqty (iv_mint iv) i =
        assetQuantitySelector i (out_values outs) + assetQuantitySelector i (out_values (sk_change (sr_selection r)))) \<and>
      set (sk_inputs (sr_selection r)) = set us \<union> set pre \<and> distinct (sk_inputs (sr_selection r)) \<and> sr_remainingUTxO r = [] \<and>
      sorted_wrt (\<lambda>x y. sortUtxoByTxIn lc x y \<le> 0) (sk_inputs (sr_selection r)) \<and>
      (\<forall>out \<in> set (sk_change (sr_selection r)). computeMinimumCoinQuantity con out \<le> v_coins (out_value out)))"
proof -
  define all where "all = js_uniq (us @ pre)"
  define T where "T = getCoinQuantity (utxo_values all) + coin_field pc_input iv - (getCoinQuantity (out_values outs) + coin_field pc_deposit iv)"
  define assetsIn where "assetsIn = addTokenMaps (v_assets (coalesceValueQuantities (utxo_values all))) (Some (map_or_empty (iv_mint iv)))"
  define assets where "assets = subtractTokenMaps assetsIn (v_assets (coalesceValueQuantities (out_values outs)))"
  have mint: "otm_wf (Some (map_or_empty (iv_mint iv)))" "oqty (Some (map_or_empty (iv_mint iv))) i = oqty (iv_mint iv) i" for i
    using assms(7) by (cases "iv_mint iv"; simp add: map_or_empty_def qty_def tm_wf_def)+
  have wf: "otm_wf assetsIn" unfolding assetsIn_def by (rule addTokenMaps_wf [OF _ mint(1)]) simp
  have "otm_wf assets" unfolding assets_def
    by (cases "subtractTokenMaps assetsIn (v_assets (coalesceValueQuantities (out_values outs)))") (simp_all add: subtractTokenMaps_wf)
  have "\<forall>v \<in> set (utxo_values all). value_wf v" using assms(5) by (auto simp: all_def utxo_values_def)
  then have qty: "oqty assets i = assetQuantitySelector i (utxo_values all) + oqty (iv_mint iv) i - assetQuantitySelector i (out_values outs)" for i
    unfolding assets_def oqty_subtractTokenMaps [OF wf coalesceValueQuantities_wf] using mint oqty_addTokenMaps assms(6)
    by (simp add: assetsIn_def coalesceValueQuantities_assets)
  show ?thesis
  proof (cases "all = [] \<or> T < 0 \<or> hasNegativeAssetValue assets")
    case True
    then have "GreedyInputSelector_select lib lc addresses con pre us outs iv = Some (Inl (InputSelectionError UtxoBalanceInsufficient))"
      unfolding GreedyInputSelector_select_def Let_def all_def [symmetric] assetsIn_def [symmetric] assets_def [symmetric] by (auto simp: T_def)
    then show ?thesis by simp
  next
    case False
    obtain res where res: "splitChangeAndComputeFee lib all outs T assets con addresses 0 = Some res" "\<And>a. res = Inr a \<Longrightarrow> change_ok con T assets a"
      using splitChangeAndComputeFee_spec [OF assms(1) _ \<open>otm_wf assets\<close> assms(3,8), of T all outs 0] False by (auto simp: not_less)
    have inputs: "mset (js_sort (sortUtxoByTxIn lc) all) = mset all" by simp
    have ok: "getCoinQuantity (utxo_values (js_sort (sortUtxoByTxIn lc) all)) = getCoinQuantity (utxo_values all)"
      "assetQuantitySelector i (utxo_values (js_sort (sortUtxoByTxIn lc) all)) = assetQuantitySelector i (utxo_values all)"
      "distinct (js_sort (sortUtxoByTxIn lc) all)" for i
      using quantity_mset_cong [OF mset_utxo_values [OF inputs]] mset_eq_imp_distinct_iff [OF inputs] by (simp_all add: all_def)
    have sorted: "sorted_wrt (\<lambda>x y. sortUtxoByTxIn lc x y \<le> 0) (js_sort (sortUtxoByTxIn lc) all)"
      by (rule utxo_order.sorted_js_sort [OF assms(2)])
    show ?thesis
    proof (cases res)
      case (Inl e)
      with res(1) False show ?thesis
        unfolding GreedyInputSelector_select_def Let_def all_def [symmetric] assetsIn_def [symmetric] assets_def [symmetric] T_def [symmetric]
        by (simp add: T_def [symmetric])
    next
      case (Inr a)
      note a = res(2) [OF Inr, unfolded change_ok_def]
      have coins: "\<forall>out \<in> set (aj_change a). 0 \<le> v_coins (out_value out)" using a assms(4) order_trans by blast
      note change = dropped_change_totals [OF coins]
      show ?thesis
        using res(1) False Inr a change ok sorted qty
        unfolding GreedyInputSelector_select_def Let_def all_def [symmetric] assetsIn_def [symmetric] assets_def [symmetric] T_def [symmetric]
        by (auto simp: all_def T_def elim!: ebind_InrE split: if_splits)
    qed
  qed
qed

text \<open>Fractions as numbers.\<close>

definition fraction_lib :: "(int \<times> int) big_lib" where
  "fraction_lib = \<lparr>d_zero = (0, 1), d_add = \<lambda>(a, b) (c, d). (a * d + c * b, b * d), d_div = \<lambda>(a, b) (c, d). (a * d, b * c),
     d_off = \<lambda>(a, b). 5 * b < 100 * \<bar>b - a\<bar>,
     bn_share = \<lambda>n (a, b). if b = 0 then None else Some ((n * a + b - 1) div b),
     bn_granularity = \<lambda>n. (3 * n + 99) div 100, bn_half = \<lambda>n. (n + 1) div 2\<rparr>"

lemma fraction_lib_ok: "big_ok (\<lambda>(a, b). 0 \<le> a \<and> 0 \<le> b) fraction_lib"
  by (auto simp: big_ok_def fraction_lib_def div_int_pos_iff add_nonneg_pos split: if_splits)

theorem greedy_balances_witness:
  "\<exists>r. GreedyInputSelector_select fraction_lib compare_lengths (Inr [(''c'', (1, 1)), (''d'', (2, 1))]) example_constraints
      [] example_utxo example_outputs no_implicit = Some (Inr r) \<and>
    getCoinQuantity (utxo_values (sk_inputs (sr_selection r))) = 4 + 1 + getCoinQuantity (out_values (sk_change (sr_selection r)))"
proof -
  let ?run = "GreedyInputSelector_select fraction_lib compare_lengths (Inr [(''c'', (1, 1)), (''d'', (2, 1))]) example_constraints
      [] example_utxo example_outputs no_implicit"
  have "case ?run of Some (Inr r) \<Rightarrow> sk_fee (sr_selection r) = 1 | _ \<Rightarrow> False" by code_simp
  then obtain r where r: "?run = Some (Inr r)" "sk_fee (sr_selection r) = 1" by (auto split: option.splits sum.splits)
  have iv: "coin_field pc_input no_implicit = 0" "coin_field pc_deposit no_implicit = 0" "getCoinQuantity (out_values example_outputs) = 4"
    by (simp_all add: coin_field_def example_outputs_def out_values_def)
  have ok: "\<forall>out. 0 \<le> computeMinimumCoinQuantity example_constraints out" "\<forall>v \<in> set (utxo_values (example_utxo @ [])). value_wf v"
    "\<forall>v \<in> set (out_values example_outputs). value_wf v"
    by (auto simp: example_constraints_def example_utxo_def example_outputs_def utxo_values_def out_values_def tm_wf_def)
  have weights: "\<forall>ws. Inr [(''c'', (1, 1)), (''d'', (2, 1))] = Inr ws \<longrightarrow> weights_nonneg (\<lambda>(a, b). (0 :: int) \<le> a \<and> (0 :: int) \<le> b) ws" by simp
  from greedy_balances [OF fraction_lib_ok example_ok(2,3) ok example_ok(7) weights] r iv show ?thesis by auto
qed

end
