(* ===== verification/Slot_Calc.thy ===== *)
theory Slot_Calc
  imports Prelude "HOL-Library.Multiset"
begin

text \<open>
  Slot and epoch arithmetic (\<open>core/src/util/slotCalc.ts\<close>): the epoch of a slot, the time of a slot,
  the first and the last slot of an epoch, from the era summaries of a network. The two directions
  are separate algorithms in the code (a sum over the eras that have started, and a walk epoch by
  epoch); the theorems say that they agree on every history of eras that change at epoch
  boundaries. \<open>memoize\<close> of the library lodash keeps one result per first argument.
\<close>

subsection \<open>Era summaries\<close>

record EraSummary =
  start_slot :: int
  start_time :: int
  epochLength :: int
  slotLength :: int

text \<open>\<open>Object.values(groupBy(eraSummaries, 'start.slot')).map(last)\<close>\<close>

definition withoutSkippedEras :: "EraSummary list \<Rightarrow> EraSummary list" where
  "withoutSkippedEras eras =
     map (\<lambda>s. last (filter (\<lambda>e. start_slot e = s) eras)) (sort (remdups (map start_slot eras)))"

definition eraSummariesAsc :: "EraSummary list \<Rightarrow> EraSummary list" where
  "eraSummariesAsc eras = sort_key start_slot (withoutSkippedEras eras)"

text \<open>The loop over the relevant eras; a start slot of 0 is falsy in \<open>nextEraSummary?.start.slot || slotNo\<close>.\<close>

fun sumEpochs :: "int \<Rightarrow> EraSummary list \<Rightarrow> int \<Rightarrow> int" where
  "sumEpochs slotNo [] epochNo = epochNo"
| "sumEpochs slotNo [e] epochNo = epochNo + (slotNo - start_slot e) div epochLength e"
| "sumEpochs slotNo (e # f # es) epochNo =
     sumEpochs slotNo (f # es)
       (epochNo + ((if start_slot f = 0 then slotNo else start_slot f) - start_slot e) div epochLength e)"

definition createSlotEpochCalcImpl :: "EraSummary list \<Rightarrow> int \<Rightarrow> (EraSummary \<times> int) result" where
  "createSlotEpochCalcImpl eras slotNo =
     (let relevant = sort_key start_slot (filter (\<lambda>e. start_slot e \<le> slotNo) (eraSummariesAsc eras))
      in if relevant = [] then Inl EraSummaryError
         else Inr (last relevant, sumEpochs slotNo relevant 0))"

definition createSlotEpochCalc :: "EraSummary list \<Rightarrow> int \<Rightarrow> int result" where
  "createSlotEpochCalc eras slotNo = ebind (createSlotEpochCalcImpl eras slotNo) (\<lambda>(_, epochNo). Inr epochNo)"

text \<open>\<open>eraSummariesDesc.find(({ start }) => start.slot <= slotNo)\<close>; a date is its milliseconds.\<close>

definition createSlotTimeCalc :: "EraSummary list \<Rightarrow> int \<Rightarrow> int result" where
  "createSlotTimeCalc eras slotNo =
     (case find (\<lambda>e. start_slot e \<le> slotNo) (sort_key (\<lambda>e. - start_slot e) (withoutSkippedEras eras)) of
        None \<Rightarrow> Inl EraSummaryError
      | Some e \<Rightarrow> Inr (start_time e + (slotNo - start_slot e) * slotLength e))"

record SlotDate =
  sd_slot :: int
  sd_date :: int

record EpochInfo =
  ei_epochNo :: int
  ei_firstSlot :: SlotDate
  ei_lastSlot :: SlotDate

definition createSlotEpochInfoCalc :: "EraSummary list \<Rightarrow> int \<Rightarrow> EpochInfo result" where
  "createSlotEpochInfoCalc eras slot =
     ebind (createSlotEpochCalcImpl eras slot) (\<lambda>(era, epochNo).
     let firstSlot = start_slot era + (slot - start_slot era) div epochLength era * epochLength era;
         lastSlot = firstSlot + epochLength era - 1
     in ebind (createSlotTimeCalc eras firstSlot) (\<lambda>firstDate.
        ebind (createSlotTimeCalc eras lastSlot) (\<lambda>lastDate.
          Inr \<lparr>ei_epochNo = epochNo,
               ei_firstSlot = \<lparr>sd_slot = firstSlot, sd_date = firstDate\<rparr>,
               ei_lastSlot = \<lparr>sd_slot = lastSlot, sd_date = lastDate\<rparr>\<rparr>)))"

subsection \<open>The slots of an epoch\<close>

text \<open>\<open>while (checkNextEraSummary()) eraSummaryIdx++;\<close>\<close>

function findNextEraSummary :: "EraSummary list \<Rightarrow> int \<Rightarrow> nat \<Rightarrow> nat" where
  "findNextEraSummary eras atSlot idx =
     (if idx < length eras - 1 \<and> start_slot (eras ! Suc idx) \<le> atSlot
      then findNextEraSummary eras atSlot (Suc idx) else idx)"
  by pat_completeness auto
termination
  by (relation "measure (\<lambda>(eras, atSlot, idx). length eras - idx)") auto

declare findNextEraSummary.simps [simp del]

text \<open>
  \<open>while (atEpoch !== epochNo)\<close>, started at epoch 0: one round per epoch. An epoch number is a
  natural number.
\<close>

primrec epochLoop :: "EraSummary list \<Rightarrow> nat \<Rightarrow> int \<times> nat \<Rightarrow> int \<times> nat" where
  "epochLoop eras 0 st = st"
| "epochLoop eras (Suc rounds) st =
     (let atSlot = fst st + epochLength (eras ! snd st)
      in epochLoop eras rounds (atSlot, findNextEraSummary eras atSlot (snd st)))"

definition epochSlotsCalcImplementation ::
    "nat \<Rightarrow> EraSummary list \<Rightarrow> (EraSummary \<times> int \<times> int) result" where
  "epochSlotsCalcImplementation epochNo eras =
     (if eras = [] then Inl TypeError
      else let atSlot = start_slot (eras ! 0);
               (atSlot, idx) = epochLoop eras epochNo (atSlot, findNextEraSummary eras atSlot 0);
               era = eras ! idx
           in Inr (era, atSlot, atSlot + epochLength era - 1))"

text \<open>\<open>memoize\<close>: a cache with the first argument as its key; an exception leaves no entry.\<close>

type_synonym epoch_cache = "nat \<rightharpoonup> EraSummary \<times> int \<times> int"

definition epochSlotsCalc ::
    "nat \<Rightarrow> EraSummary list \<Rightarrow> epoch_cache \<Rightarrow> (EraSummary \<times> int \<times> int) result \<times> epoch_cache" where
  "epochSlotsCalc epochNo eras cache = (case cache epochNo of
       Some v \<Rightarrow> (Inr v, cache)
     | None \<Rightarrow> (case epochSlotsCalcImplementation epochNo eras of
           Inl e \<Rightarrow> (Inl e, cache)
         | Inr v \<Rightarrow> (Inr v, cache(epochNo \<mapsto> v))))"

subsection \<open>Histories of eras\<close>

text \<open>
  Eras are listed in the order in which they started, and an era ends at the end of one of its
  epochs; an era that is skipped starts in the same slot as the next one. Slots are not negative.
\<close>

fun well_formed_eras :: "EraSummary list \<Rightarrow> bool" where
  "well_formed_eras [] \<longleftrightarrow> True"
| "well_formed_eras [e] \<longleftrightarrow> 0 \<le> start_slot e \<and> 0 < epochLength e"
| "well_formed_eras (e # f # es) \<longleftrightarrow> 0 \<le> start_slot e \<and> 0 < epochLength e \<and> start_slot e \<le> start_slot f \<and>
     epochLength e dvd start_slot f - start_slot e \<and> well_formed_eras (f # es)"

text \<open>The era of a slot: the last one that has started.\<close>

definition eraAt :: "EraSummary list \<Rightarrow> int \<Rightarrow> EraSummary" where
  "eraAt eras slot = last (filter (\<lambda>e. start_slot e \<le> slot) eras)"

lemma well_formed_Cons: "well_formed_eras (e # es) \<Longrightarrow> well_formed_eras es"
  by (cases es) auto

lemma well_formed_hd: "well_formed_eras (e # es) \<Longrightarrow> 0 \<le> start_slot e \<and> 0 < epochLength e"
  by (cases es) auto

lemma well_formed_sorted: "well_formed_eras (e # es) \<Longrightarrow> f \<in> set es \<Longrightarrow> start_slot e \<le> start_slot f"
  by (induction es arbitrary: e) (auto, fastforce)

lemma well_formed_epochLength: "well_formed_eras eras \<Longrightarrow> e \<in> set eras \<Longrightarrow> 0 < epochLength e"
  by (induction eras rule: well_formed_eras.induct) auto

subsection \<open>The epoch of a slot, era by era\<close>

text \<open>The epochs of the eras before the era with index \<open>i\<close>, and those of era \<open>i\<close> before a slot.\<close>

definition epochsBefore :: "EraSummary list \<Rightarrow> nat \<Rightarrow> int" where
  "epochsBefore eras i =
     (\<Sum>k<i. (start_slot (eras ! Suc k) - start_slot (eras ! k)) div epochLength (eras ! k))"

definition epochIn :: "EraSummary list \<Rightarrow> nat \<Rightarrow> int \<Rightarrow> int" where
  "epochIn eras i slot =
     epochsBefore eras i + (slot - start_slot (eras ! i)) div epochLength (eras ! i)"

text \<open>\<open>i\<close> is the index of the last era that has started at \<open>slot\<close>.\<close>

definition current :: "EraSummary list \<Rightarrow> int \<Rightarrow> nat \<Rightarrow> bool" where
  "current eras slot i \<longleftrightarrow> i < length eras \<and> start_slot (eras ! i) \<le> slot \<and>
     (Suc i < length eras \<longrightarrow> slot < start_slot (eras ! Suc i))"

lemma epochsBefore_Cons:
  "epochsBefore (e # es) (Suc i) = (start_slot (es ! 0) - start_slot e) div epochLength e + epochsBefore es i"
  unfolding epochsBefore_def by (subst sum.lessThan_Suc_shift) simp

lemma well_formed_nth:
  assumes "well_formed_eras eras" and "Suc i < length eras"
  shows "0 < epochLength (eras ! i)" and "start_slot (eras ! i) \<le> start_slot (eras ! Suc i)"
    and "epochLength (eras ! i) dvd start_slot (eras ! Suc i) - start_slot (eras ! i)"
proof -
  have "0 < epochLength (eras ! i) \<and> start_slot (eras ! i) \<le> start_slot (eras ! Suc i) \<and>
      epochLength (eras ! i) dvd start_slot (eras ! Suc i) - start_slot (eras ! i)"
    using assms
  proof (induction eras arbitrary: i rule: well_formed_eras.induct)
    case (3 e f es)
    then show ?case by (cases i) auto
  qed auto
  then show "0 < epochLength (eras ! i)" and "start_slot (eras ! i) \<le> start_slot (eras ! Suc i)"
    and "epochLength (eras ! i) dvd start_slot (eras ! Suc i) - start_slot (eras ! i)" by auto
qed

text \<open>The eras without the skipped ones, as a recursion over the list.\<close>

fun lastOfSlot :: "EraSummary list \<Rightarrow> EraSummary list" where
  "lastOfSlot [] = []"
| "lastOfSlot (e # es) =
     (if start_slot e \<in> start_slot ` set es then lastOfSlot es else e # lastOfSlot es)"

lemma set_lastOfSlot: "set (lastOfSlot es) \<subseteq> set es" "start_slot ` set (lastOfSlot es) = start_slot ` set es"
  by (induction es) auto

lemma lastOfSlot_eq:
  "map (\<lambda>s. last (filter (\<lambda>e. start_slot e = s) es)) (remdups (map start_slot es)) = lastOfSlot es"
proof (induction es)
  case (Cons e es)
  have "filter (\<lambda>f. start_slot f = s) es \<noteq> []" if "s \<in> start_slot ` set es" for s
    using that by (auto simp: filter_empty_conv)
  then have "map (\<lambda>s. last (filter (\<lambda>f. start_slot f = s) (e # es))) (remdups (map start_slot es)) = lastOfSlot es"
    unfolding Cons.IH [symmetric] by (intro map_cong) auto
  moreover have "filter (\<lambda>f. start_slot f = start_slot e) es = []" if "start_slot e \<notin> start_slot ` set es"
    using that by (metis (mono_tags, lifting) filter_empty_conv imageI)
  ultimately show ?case by (auto simp: image_iff)
qed simp

lemma lastOfSlot_strictly_sorted:
  assumes "well_formed_eras es"
  shows "sorted_wrt (\<lambda>e f. start_slot e < start_slot f) (lastOfSlot es)"
  using assms
proof (induction es)
  case (Cons e es)
  have "start_slot e < start_slot f" if "f \<in> set (lastOfSlot es)" "start_slot e \<notin> start_slot ` set es" for f
    using that well_formed_sorted [OF Cons.prems, of f] set_lastOfSlot(1) [of es] by force
  with Cons well_formed_Cons show ?case by auto
qed simp

lemma sorted_map_start: "well_formed_eras es \<Longrightarrow> sorted (map start_slot es)"
  by (induction es rule: well_formed_eras.induct) auto

lemma withoutSkippedEras_eq:
  assumes "well_formed_eras es"
  shows "withoutSkippedEras es = lastOfSlot es" and "eraSummariesAsc es = lastOfSlot es"
proof -
  show 1: "withoutSkippedEras es = lastOfSlot es"
    using sorted_map_start [OF assms] lastOfSlot_eq
    by (simp add: withoutSkippedEras_def sorted_sort_id sorted_remdups)
  show "eraSummariesAsc es = lastOfSlot es"
    unfolding eraSummariesAsc_def 1 using lastOfSlot_strictly_sorted [OF assms]
    by (intro sort_key_id_if_sorted) (auto simp: sorted_map intro: sorted_wrt_mono_rel [rotated])
qed

lemma filter_lastOfSlot:
  "filter (\<lambda>e. start_slot e \<le> slot) (lastOfSlot es) = lastOfSlot (filter (\<lambda>e. start_slot e \<le> slot) es)"
  by (induction es) (auto simp: image_iff)

lemma filter_none_started:
  assumes "well_formed_eras (e # es)" and "slot < start_slot e"
  shows "filter (\<lambda>e. start_slot e \<le> slot) (e # es) = []"
  using well_formed_sorted [OF assms(1)] assms(2) by (force simp: filter_empty_conv)

lemma current_last:
  assumes "well_formed_eras eras" and "current eras slot i"
  shows "eraAt eras slot = eras ! i \<and> filter (\<lambda>e. start_slot e \<le> slot) eras \<noteq> []"
  using assms
proof (induction eras arbitrary: i)
  case (Cons e es)
  show ?case
  proof (cases i)
    case 0
    then have "filter (\<lambda>e. start_slot e \<le> slot) es = []"
      using Cons.prems filter_none_started well_formed_Cons
      by (cases es) (auto simp: current_def)
    with Cons.prems 0 show ?thesis by (simp add: eraAt_def current_def)
  next
    case (Suc j)
    with Cons.prems have "current es slot j" by (auto simp: current_def)
    with Cons well_formed_Cons have "eraAt es slot = es ! j \<and> filter (\<lambda>e. start_slot e \<le> slot) es \<noteq> []"
      by blast
    with Suc show ?thesis by (simp add: eraAt_def)
  qed
qed (simp add: current_def)

lemma last_lastOfSlot: "es \<noteq> [] \<Longrightarrow> lastOfSlot es \<noteq> [] \<and> last (lastOfSlot es) = last es"
proof (induction es)
  case (Cons e es)
  then show ?case by (cases "es = []") auto
qed simp

lemma hd_lastOfSlot:
  assumes "well_formed_eras (e # es)"
  shows "\<exists>g gs. lastOfSlot (e # es) = g # gs \<and> start_slot g = start_slot e"
  using assms
proof (induction es arbitrary: e)
  case (Cons f es)
  show ?case
  proof (cases "start_slot e = start_slot f")
    case True
    with Cons.IH [of f] Cons.prems show ?thesis by auto
  next
    case False
    with Cons.prems well_formed_sorted [of f es] have "start_slot e \<notin> start_slot ` set (f # es)" by fastforce
    then show ?thesis by simp
  qed
qed simp

lemma well_formed_filter:
  assumes "well_formed_eras (e # es)" and "start_slot e \<le> slot"
  shows "well_formed_eras (filter (\<lambda>e. start_slot e \<le> slot) (e # es))"
  using assms
proof (induction es arbitrary: e)
  case (Cons f es)
  then show ?case
  proof (cases "start_slot f \<le> slot")
    case True
    with Cons.IH [of f] Cons.prems show ?thesis by simp
  next
    case False
    with filter_none_started [of f es slot] Cons.prems show ?thesis by auto
  qed
qed simp

text \<open>The sum over the eras that have started is the epoch in the current era.\<close>

lemma sumEpochs_current:
  assumes "well_formed_eras (e # es)" and "current (e # es) slot i"
  shows "sumEpochs slot (lastOfSlot (filter (\<lambda>e. start_slot e \<le> slot) (e # es))) acc = acc + epochIn (e # es) i slot"
  using assms
proof (induction es arbitrary: e i acc)
  case Nil
  then show ?case by (auto simp: current_def epochIn_def epochsBefore_def)
next
  case (Cons f es)
  show ?case
  proof (cases i)
    case 0
    with Cons.prems filter_none_started [of f es slot] show ?thesis
      by (auto simp: current_def epochIn_def epochsBefore_def)
  next
    case (Suc j)
    have wf: "well_formed_eras (f # es)" and cur: "current (f # es) slot j"
      using Cons.prems Suc by (auto simp: current_def)
    have "\<not> slot < start_slot f"
      using current_last [OF wf cur] filter_none_started [OF wf, of slot] by blast
    with Cons.prems(1) have le: "start_slot e \<le> slot" "start_slot f \<le> slot" by auto
    let ?F = "filter (\<lambda>e. start_slot e \<le> slot) (f # es)"
    have split: "epochIn (e # f # es) i slot =
        (start_slot f - start_slot e) div epochLength e + epochIn (f # es) j slot"
      using Suc by (simp add: epochIn_def epochsBefore_Cons)
    show ?thesis
    proof (cases "start_slot e = start_slot f")
      case True
      with le have "lastOfSlot (filter (\<lambda>e. start_slot e \<le> slot) (e # f # es)) = lastOfSlot ?F" by auto
      with Cons.IH [OF wf cur] split True show ?thesis by simp
    next
      case False
      from hd_lastOfSlot [of f "filter (\<lambda>e. start_slot e \<le> slot) es"] well_formed_filter [OF wf le(2)] le(2)
      obtain g gs where g: "lastOfSlot ?F = g # gs" "start_slot g = start_slot f" by auto
      have "start_slot e < start_slot g" if "g \<in> set (f # es)" for g
        using that False Cons.prems(1) well_formed_sorted [OF wf, of g] by auto
      then have "start_slot e \<notin> start_slot ` set ?F" by (metis filter_is_subset image_iff less_irrefl subsetD)
      with le have "lastOfSlot (filter (\<lambda>e. start_slot e \<le> slot) (e # f # es)) = e # lastOfSlot ?F" by auto
      moreover have "start_slot g \<noteq> 0" using g(2) False Cons.prems(1) by auto
      ultimately show ?thesis using Cons.IH [OF wf cur] g split by simp
    qed
  qed
qed

lemma slot_epoch_current:
  assumes "well_formed_eras eras" and "current eras slot i"
  shows "createSlotEpochCalcImpl eras slot = Inr (eras ! i, epochIn eras i slot)"
proof -
  let ?F = "filter (\<lambda>e. start_slot e \<le> slot) eras"
  obtain e es where eras: "eras = e # es" using assms(2) by (cases eras) (auto simp: current_def)
  have cur: "last ?F = eras ! i" "?F \<noteq> []"
    using current_last [OF assms] by (auto simp: eraAt_def)
  have "start_slot e \<le> slot" using cur(2) filter_none_started assms(1) eras not_le by metis
  then have "well_formed_eras ?F" using well_formed_filter assms(1) eras by blast
  then have "sort_key start_slot (lastOfSlot ?F) = lastOfSlot ?F"
    using withoutSkippedEras_eq [of ?F] by (simp add: eraSummariesAsc_def)
  moreover have "sumEpochs slot (lastOfSlot ?F) 0 = epochIn eras i slot"
    using sumEpochs_current [of e es slot i 0] assms unfolding eras by simp
  ultimately show ?thesis
    unfolding createSlotEpochCalcImpl_def withoutSkippedEras_eq(2) [OF assms(1)] filter_lastOfSlot
    using cur last_lastOfSlot [OF cur(2)] by simp
qed

subsection \<open>The walk over the epochs\<close>

text \<open>
  At an epoch boundary of era \<open>i\<close>, where the next era has not started before this slot.
\<close>

definition at_boundary :: "EraSummary list \<Rightarrow> int \<Rightarrow> nat \<Rightarrow> bool" where
  "at_boundary eras atSlot i \<longleftrightarrow> i < length eras \<and> start_slot (eras ! i) \<le> atSlot \<and>
     epochLength (eras ! i) dvd atSlot - start_slot (eras ! i) \<and>
     (Suc i < length eras \<longrightarrow> atSlot \<le> start_slot (eras ! Suc i))"

lemma findNextEraSummary_boundary:
  assumes "well_formed_eras eras" and "at_boundary eras atSlot i"
  shows "at_boundary eras atSlot (findNextEraSummary eras atSlot i) \<and>
    current eras atSlot (findNextEraSummary eras atSlot i) \<and>
    epochIn eras (findNextEraSummary eras atSlot i) atSlot = epochIn eras i atSlot"
  using assms
proof (induction eras atSlot i rule: findNextEraSummary.induct)
  case (1 eras atSlot i)
  show ?case
  proof (cases "i < length eras - 1 \<and> start_slot (eras ! Suc i) \<le> atSlot")
    case False
    with "1.prems" show ?thesis
      by (subst (1 2 3) findNextEraSummary.simps) (auto simp: at_boundary_def current_def)
  next
    case True
    with "1.prems" have eq: "atSlot = start_slot (eras ! Suc i)" by (auto simp: at_boundary_def)
    with True have "at_boundary eras atSlot (Suc i)"
      using well_formed_nth(2) [OF "1.prems"(1), of "Suc i"] by (auto simp: at_boundary_def)
    moreover have "epochIn eras (Suc i) atSlot = epochIn eras i atSlot"
      using eq by (simp add: epochIn_def epochsBefore_def)
    ultimately show ?thesis using "1.IH" [OF True] "1.prems"(1) True by (subst (1 2 3) findNextEraSummary.simps) simp
  qed
qed

lemma epochIn_shift:
  assumes "epochLength (eras ! i) dvd atSlot - start_slot (eras ! i)" and "0 \<le> d" and "d < epochLength (eras ! i)"
  shows "epochIn eras i (atSlot + d) = epochIn eras i atSlot"
    and "epochIn eras i (atSlot + epochLength (eras ! i)) = epochIn eras i atSlot + 1"
proof -
  obtain q where q: "atSlot - start_slot (eras ! i) = epochLength (eras ! i) * q" using assms(1) by blast
  then have eqs: "atSlot + d - start_slot (eras ! i) = d + epochLength (eras ! i) * q"
    "atSlot + epochLength (eras ! i) - start_slot (eras ! i) = epochLength (eras ! i) * (q + 1)"
    by (simp_all add: algebra_simps)
  show "epochIn eras i (atSlot + d) = epochIn eras i atSlot"
    using assms(2,3) by (simp add: epochIn_def eqs(1) q)
  show "epochIn eras i (atSlot + epochLength (eras ! i)) = epochIn eras i atSlot + 1"
    using assms(2,3) unfolding epochIn_def eqs(2) q by simp
qed

text \<open>Until the end of an epoch no other era starts.\<close>

lemma boundary_epoch:
  assumes "well_formed_eras eras" and "at_boundary eras atSlot i" and "current eras atSlot i"
  shows "Suc i < length eras \<Longrightarrow> atSlot + epochLength (eras ! i) \<le> start_slot (eras ! Suc i)"
    and "at_boundary eras (atSlot + epochLength (eras ! i)) i" and "0 < epochLength (eras ! i)"
proof -
  show pos: "0 < epochLength (eras ! i)"
    using assms(1,3) well_formed_epochLength by (auto simp: current_def)
  show next_era: "atSlot + epochLength (eras ! i) \<le> start_slot (eras ! Suc i)" if "Suc i < length eras"
  proof -
    have "epochLength (eras ! i) dvd
        (start_slot (eras ! Suc i) - start_slot (eras ! i)) - (atSlot - start_slot (eras ! i))"
      by (rule dvd_diff [OF well_formed_nth(3) [OF assms(1) that]]) (use assms(2) in \<open>simp add: at_boundary_def\<close>)
    moreover have "atSlot < start_slot (eras ! Suc i)" using assms(3) that by (simp add: current_def)
    ultimately show ?thesis using zdvd_imp_le [of "epochLength (eras ! i)" "start_slot (eras ! Suc i) - atSlot"] by simp
  qed
  have "epochLength (eras ! i) dvd (atSlot - start_slot (eras ! i)) + epochLength (eras ! i)"
    using assms(2) by (simp add: at_boundary_def)
  then have "epochLength (eras ! i) dvd atSlot + epochLength (eras ! i) - start_slot (eras ! i)"
    by (simp add: algebra_simps)
  then show "at_boundary eras (atSlot + epochLength (eras ! i)) i"
    using assms(2) pos next_era unfolding at_boundary_def by simp
qed

definition walk_ok :: "EraSummary list \<Rightarrow> nat \<Rightarrow> int \<times> nat \<Rightarrow> bool" where
  "walk_ok eras n st \<longleftrightarrow> at_boundary eras (fst st) (snd st) \<and> current eras (fst st) (snd st) \<and>
     epochIn eras (snd st) (fst st) = int n"

lemma epochLoop_ok:
  assumes "well_formed_eras eras" and "walk_ok eras k st"
  shows "walk_ok eras (k + n) (epochLoop eras n st)"
  using assms(2)
proof (induction n arbitrary: k st)
  case (Suc n)
  obtain atSlot i where st: "st = (atSlot, i)" by force
  let ?s = "atSlot + epochLength (eras ! i)"
  have b: "at_boundary eras atSlot i" "current eras atSlot i" "epochIn eras i atSlot = int k"
    using Suc.prems by (simp_all add: st walk_ok_def)
  note e = boundary_epoch [OF assms(1) b(1,2)]
  have "epochIn eras i ?s = int (Suc k)"
    using epochIn_shift(2) [of eras i atSlot 0] b e(3) by (simp add: at_boundary_def)
  with findNextEraSummary_boundary [OF assms(1) e(2)] have "walk_ok eras (Suc k) (?s, findNextEraSummary eras ?s i)"
    by (simp add: walk_ok_def)
  from Suc.IH [OF this] show ?case by (simp add: st Let_def)
qed simp

lemma epochLoop_add: "epochLoop eras (m + n) st = epochLoop eras n (epochLoop eras m st)"
  by (induction m arbitrary: st) (simp_all add: Let_def)

definition startWalk :: "EraSummary list \<Rightarrow> int \<times> nat" where
  "startWalk eras = (start_slot (eras ! 0), findNextEraSummary eras (start_slot (eras ! 0)) 0)"

lemma startWalk_ok:
  assumes "well_formed_eras eras" and "eras \<noteq> []"
  shows "walk_ok eras 0 (startWalk eras)"
proof -
  have "at_boundary eras (start_slot (eras ! 0)) 0"
    using assms well_formed_nth(2) [of eras 0] by (cases eras) (auto simp: at_boundary_def)
  from findNextEraSummary_boundary [OF assms(1) this] show ?thesis
    by (simp add: walk_ok_def startWalk_def epochIn_def epochsBefore_def)
qed

lemma epochSlotsCalc_walk:
  assumes "eras \<noteq> []"
  shows "epochSlotsCalcImplementation n eras = (let (s, i) = epochLoop eras n (startWalk eras)
    in Inr (eras ! i, s, s + epochLength (eras ! i) - 1))"
  using assms by (simp add: epochSlotsCalcImplementation_def startWalk_def Let_def)

lemma current_within_epoch:
  assumes "well_formed_eras eras" and "walk_ok eras n (s, i)" and "s \<le> slot" and "slot < s + epochLength (eras ! i)"
  shows "current eras slot i" and "epochIn eras i slot = int n"
    and "start_slot (eras ! i) + (slot - start_slot (eras ! i)) div epochLength (eras ! i) * epochLength (eras ! i) = s"
proof -
  have b: "at_boundary eras s i" "current eras s i" "epochIn eras i s = int n"
    using assms(2) by (simp_all add: walk_ok_def)
  note e = boundary_epoch [OF assms(1) b(1,2)]
  show "current eras slot i" using b(2) assms(3,4) e(1) by (auto simp: current_def)
  have dvd: "epochLength (eras ! i) dvd s - start_slot (eras ! i)" using b(1) by (simp add: at_boundary_def)
  show "epochIn eras i slot = int n"
    using epochIn_shift(1) [of eras i s "slot - s"] dvd b(3) assms(3,4) by simp
  obtain q where q: "s - start_slot (eras ! i) = epochLength (eras ! i) * q" using dvd by blast
  then have *: "slot - start_slot (eras ! i) = (slot - s) + epochLength (eras ! i) * q" by simp
  have "(slot - start_slot (eras ! i)) div epochLength (eras ! i) = q"
    unfolding * using assms(3,4) e(3) by simp
  with q show "start_slot (eras ! i) + (slot - start_slot (eras ! i)) div epochLength (eras ! i) * epochLength (eras ! i) = s"
    by (simp add: mult.commute)
qed

text \<open>The epochs follow each other without a gap, so every slot since the first era is in one.\<close>

lemma some_epoch:
  assumes "well_formed_eras eras" and "eras \<noteq> []" and "start_slot (eras ! 0) \<le> slot"
  shows "\<exists>n s i. epochLoop eras n (startWalk eras) = (s, i) \<and> s \<le> slot \<and> slot < s + epochLength (eras ! i)"
  using assms(3)
proof (induction "nat (slot - start_slot (eras ! 0))" arbitrary: slot)
  case 0
  then have "slot = start_slot (eras ! 0)" by simp
  moreover have "0 < epochLength (eras ! snd (startWalk eras))"
    using startWalk_ok [OF assms(1,2)] boundary_epoch(3) [OF assms(1)] unfolding walk_ok_def by blast
  ultimately show ?case
    by (intro exI [of _ 0] exI [of _ "fst (startWalk eras)"] exI [of _ "snd (startWalk eras)"]) (simp add: startWalk_def)
next
  case (Suc d)
  then have "d = nat (slot - 1 - start_slot (eras ! 0))" and "start_slot (eras ! 0) \<le> slot - 1" by linarith+
  with Suc.hyps(1) obtain n s i where n: "epochLoop eras n (startWalk eras) = (s, i)" "s \<le> slot - 1"
    "slot - 1 < s + epochLength (eras ! i)" by blast
  show ?case
  proof (cases "slot < s + epochLength (eras ! i)")
    case True
    with n show ?thesis by (intro exI [of _ n] exI [of _ s] exI [of _ i]) simp
  next
    case False
    let ?i = "findNextEraSummary eras slot i"
    have eq: "s + epochLength (eras ! i) = slot" using n False by simp
    have "epochLoop eras (n + 1) (startWalk eras) = (slot, ?i)"
      unfolding epochLoop_add n by (simp add: eq)
    moreover from this have "0 < epochLength (eras ! ?i)"
      using epochLoop_ok [OF assms(1) startWalk_ok [OF assms(1,2)], of "n + 1"] boundary_epoch(3) [OF assms(1)]
      by (auto simp: walk_ok_def)
    ultimately show ?thesis by (intro exI [of _ "n + 1"] exI [of _ slot] exI [of _ ?i]) simp
  qed
qed

subsection \<open>The time of a slot\<close>

lemma find_rev: "find P (rev xs) = (if filter P xs = [] then None else Some (last (filter P xs)))"
proof (induction xs rule: rev_induct)
  case (snoc x xs)
  then show ?case by (cases "P x") auto
qed simp

lemma sort_desc:
  assumes "sorted_wrt (\<lambda>e f. start_slot e < start_slot f) es"
  shows "sort_key (\<lambda>e. - start_slot e) es = rev es"
proof (rule sort_key_inj_key_eq)
  show "mset es = mset (rev es)" by simp
  show "inj_on (\<lambda>e. - start_slot e) (set es)"
    using assms by (induction es) (fastforce simp: inj_on_def)+
  show "sorted (map (\<lambda>e. - start_slot e) (rev es))"
    unfolding sorted_map sorted_wrt_rev by (rule sorted_wrt_mono_rel [OF _ assms]) simp
qed

lemma slot_time_current:
  assumes "well_formed_eras eras" and "current eras slot i"
  shows "createSlotTimeCalc eras slot =
    Inr (start_time (eras ! i) + (slot - start_slot (eras ! i)) * slotLength (eras ! i))"
proof -
  let ?F = "filter (\<lambda>e. start_slot e \<le> slot) eras"
  have "?F \<noteq> []" "last ?F = eras ! i" using current_last [OF assms] by (auto simp: eraAt_def)
  with last_lastOfSlot [of ?F] have "filter (\<lambda>e. start_slot e \<le> slot) (lastOfSlot eras) \<noteq> []"
    "last (filter (\<lambda>e. start_slot e \<le> slot) (lastOfSlot eras)) = eras ! i"
    by (simp_all add: filter_lastOfSlot)
  then show ?thesis
    by (simp add: createSlotTimeCalc_def withoutSkippedEras_eq [OF assms(1)]
        sort_desc [OF lastOfSlot_strictly_sorted [OF assms(1)]] find_rev)
qed

subsection \<open>Properties\<close>

text \<open>C17. The two directions of the epoch arithmetic agree. On a history of eras that change at
  epoch boundaries (skipped eras included), every epoch number has a range of slots, and for each
  slot of it \<open>createSlotEpochCalc\<close> returns that epoch and \<open>createSlotEpochInfoCalc\<close> the same
  first and last slot.\<close>

theorem slots_of_epoch_have_epoch:
  assumes "well_formed_eras eras" and "eras \<noteq> []"
  shows "\<exists>era first last. epochSlotsCalcImplementation n eras = Inr (era, first, last) \<and> first \<le> last \<and>
    (\<forall>slot \<in> {first .. last}. createSlotEpochCalc eras slot = Inr (int n) \<and>
      (\<exists>info. createSlotEpochInfoCalc eras slot = Inr info \<and> ei_epochNo info = int n \<and>
        sd_slot (ei_firstSlot info) = first \<and> sd_slot (ei_lastSlot info) = last))"
proof -
  obtain s i where walk: "epochLoop eras n (startWalk eras) = (s, i)" by force
  let ?last = "s + epochLength (eras ! i) - 1"
  have ok: "walk_ok eras n (s, i)"
    using epochLoop_ok [OF assms(1) startWalk_ok [OF assms], of n] walk by simp
  then have pos: "0 < epochLength (eras ! i)" using boundary_epoch(3) [OF assms(1), of s i] by (simp add: walk_ok_def)
  have slot: "createSlotEpochCalc eras slot = Inr (int n) \<and>
      (\<exists>info. createSlotEpochInfoCalc eras slot = Inr info \<and> ei_epochNo info = int n \<and>
        sd_slot (ei_firstSlot info) = s \<and> sd_slot (ei_lastSlot info) = ?last)"
    if "s \<le> slot" "slot \<le> ?last" for slot
  proof -
    have c: "current eras slot i" "epochIn eras i slot = int n"
      "start_slot (eras ! i) + (slot - start_slot (eras ! i)) div epochLength (eras ! i) * epochLength (eras ! i) = s"
      using current_within_epoch [OF assms(1) ok] that by auto
    have "current eras s i" "current eras ?last i"
      using current_within_epoch(1) [OF assms(1) ok] pos by auto
    with c show ?thesis
      using slot_epoch_current [OF assms(1) c(1)] slot_time_current [OF assms(1)]
      by (simp add: createSlotEpochCalc_def createSlotEpochInfoCalc_def Let_def)
  qed
  then show ?thesis using pos by (auto simp: epochSlotsCalc_walk [OF assms(2)] walk)
qed

text \<open>A network whose second era is skipped; epochs of 10 slots, then of 5.\<close>

definition example_eras :: "EraSummary list" where
  "example_eras =
     [\<lparr>start_slot = 0, start_time = 1000, epochLength = 10, slotLength = 20\<rparr>,
      \<lparr>start_slot = 20, start_time = 1400, epochLength = 10, slotLength = 20\<rparr>,
      \<lparr>start_slot = 20, start_time = 1400, epochLength = 5, slotLength = 1\<rparr>]"

theorem slots_of_epoch_have_epoch_witness:
  "well_formed_eras example_eras \<and>
   epochSlotsCalcImplementation 3 example_eras = Inr (example_eras ! 2, 25, 29) \<and>
   createSlotEpochCalc example_eras 27 = Inr 3"
proof -
  have 1: "well_formed_eras example_eras" "example_eras \<noteq> []" by (simp_all add: example_eras_def)
  have 2: "epochSlotsCalcImplementation 3 example_eras = Inr (example_eras ! 2, 25, 29)"
    by (simp add: example_eras_def epochSlotsCalcImplementation_def findNextEraSummary.simps eval_nat_numeral)
  have "createSlotEpochCalc example_eras 27 = Inr (int 3)"
    using slots_of_epoch_have_epoch [OF 1, of 3] 2 by auto
  with 1 2 show ?thesis by simp
qed

text \<open>C18. Every slot since the start of the first era has an epoch, and lies between the first and
  the last slot that \<open>epochSlotsCalc\<close> gives for that epoch; slots before the first era raise
  \<open>EraSummaryError\<close>.\<close>

theorem slot_epoch_total:
  assumes "well_formed_eras eras" and "eras \<noteq> []"
  shows "if slot < start_slot (eras ! 0) then createSlotEpochCalc eras slot = Inl EraSummaryError
    else \<exists>n era first last. createSlotEpochCalc eras slot = Inr (int n) \<and>
      epochSlotsCalcImplementation n eras = Inr (era, first, last) \<and> first \<le> slot \<and> slot \<le> last"
proof (cases "slot < start_slot (eras ! 0)")
  case True
  obtain e es where eras: "eras = e # es" using assms(2) by (cases eras) auto
  have "filter (\<lambda>e. start_slot e \<le> slot) eras = []"
    using filter_none_started [of e es slot] assms(1) True unfolding eras by simp
  with True show ?thesis
    by (simp add: createSlotEpochCalc_def createSlotEpochCalcImpl_def withoutSkippedEras_eq [OF assms(1)] filter_lastOfSlot)
next
  case False
  with some_epoch [OF assms, of slot] obtain n s i where
    n: "epochLoop eras n (startWalk eras) = (s, i)" "s \<le> slot" "slot < s + epochLength (eras ! i)" by auto
  have ok: "walk_ok eras n (s, i)"
    using epochLoop_ok [OF assms(1) startWalk_ok [OF assms], of n] n by simp
  with current_within_epoch [OF assms(1) ok n(2,3)] slot_epoch_current [OF assms(1)]
  have "createSlotEpochCalc eras slot = Inr (int n)" by (simp add: createSlotEpochCalc_def)
  then show ?thesis using n False by (auto simp: epochSlotsCalc_walk [OF assms(2)])
qed

theorem slot_epoch_total_witness:
  "well_formed_eras example_eras \<and> (\<exists>n era first last. createSlotEpochCalc example_eras 27 = Inr (int n) \<and>
     epochSlotsCalcImplementation n example_eras = Inr (era, first, last) \<and> first \<le> 27 \<and> 27 \<le> last)"
  using slot_epoch_total [of example_eras 27] by (simp add: example_eras_def)

text \<open>\<open>epochSlotsCalc\<close> is memoized on its first argument only: after a call for an epoch, a
  call for the same epoch with any other era summaries returns the slots of the first call.\<close>

lemma epochSlotsCalc_ignores_later_eras:
  assumes "epochSlotsCalc n eras cache = (Inr v, cache')"
  shows "epochSlotsCalc n eras' cache' = (Inr v, cache')"
  using assms by (cases v) (auto simp: epochSlotsCalc_def split: option.splits sum.splits)

end
