(* ===== verification/Address.thy ===== *)
theory Address
  imports Common
begin

text \<open>
  Addresses (\<open>core/src/Cardano/Address\<close>): the five address classes with their binary formats, the
  dispatch of \<open>Address.fromBytes\<close> and \<open>toBytes\<close>, the variable-length numbers of pointers, and the
  conversions from and to the credentials.

  \<^item> An \<open>AddressType\<close> is a number, as in the code, which computes on it with bitwise operators.
  \<^item> An optional field of \<open>AddressProps\<close> is an \<open>option\<close>; reading a field of a missing object is a
    \<open>TypeError\<close>.
  \<^item> The checksum \<open>crc32\<close> of Byron addresses (package \<open>@foxglove/crc\<close>) is a parameter.
\<close>

unbundle bit_operations_syntax

subsection \<open>Types\<close>

type_synonym AddressType = nat

abbreviation (input) BasePaymentKeyStakeKey :: AddressType where "BasePaymentKeyStakeKey \<equiv> 0"
abbreviation (input) BasePaymentScriptStakeKey :: AddressType where "BasePaymentScriptStakeKey \<equiv> 1"
abbreviation (input) BasePaymentKeyStakeScript :: AddressType where "BasePaymentKeyStakeScript \<equiv> 2"
abbreviation (input) BasePaymentScriptStakeScript :: AddressType where "BasePaymentScriptStakeScript \<equiv> 3"
abbreviation (input) PointerKey :: AddressType where "PointerKey \<equiv> 4"
abbreviation (input) PointerScript :: AddressType where "PointerScript \<equiv> 5"
abbreviation (input) EnterpriseKey :: AddressType where "EnterpriseKey \<equiv> 6"
abbreviation (input) EnterpriseScript :: AddressType where "EnterpriseScript \<equiv> 7"
abbreviation (input) Byron :: AddressType where "Byron \<equiv> 8"
abbreviation (input) RewardKey :: AddressType where "RewardKey \<equiv> 14"
abbreviation (input) RewardScript :: AddressType where "RewardScript \<equiv> 15"

abbreviation base_types :: "AddressType set" where
  "base_types \<equiv> {BasePaymentKeyStakeKey, BasePaymentScriptStakeKey,
     BasePaymentKeyStakeScript, BasePaymentScriptStakeScript}"

record Pointer =
  ptr_slot :: int
  ptr_txIndex :: int
  ptr_certIndex :: int

record ByronAttributes =
  ba_derivationPath :: "bytes option"
  ba_magic :: "int option"

record ByronAddressContent =
  bc_root :: bytes
  bc_attrs :: ByronAttributes
  bc_type :: int

record AddressProps =
  ap_type :: AddressType
  ap_networkId :: "nat option"
  ap_pointer :: "Pointer option"
  ap_paymentPart :: "Credential option"
  ap_delegationPart :: "Credential option"
  ap_byron :: "ByronAddressContent option"

abbreviation no_props :: "AddressType \<Rightarrow> AddressProps" where
  "no_props type \<equiv> \<lparr>ap_type = type, ap_networkId = None, ap_pointer = None, ap_paymentPart = None,
     ap_delegationPart = None, ap_byron = None\<rparr>"

definition the_field :: "'a option \<Rightarrow> 'a result" where
  "the_field x = (case x of None \<Rightarrow> Inl TypeError | Some y \<Rightarrow> Inr y)"

lemma the_field_simps [simp]: "the_field (Some y) = Inr y" "the_field None = Inl TypeError"
  "the_field x = Inr y \<longleftrightarrow> x = Some y"
  by (simp_all add: the_field_def split: option.splits)

text \<open>\<open>(props.type << 4) | props.networkId\<close>, stored as one byte; a missing network id counts as 0.\<close>

definition header_byte :: "AddressProps \<Rightarrow> byte" where
  "header_byte props = byte_of (push_bit 4 (ap_type props) OR
     (case ap_networkId props of None \<Rightarrow> 0 | Some n \<Rightarrow> n))"

definition network_of :: "bytes \<Rightarrow> nat" where
  "network_of data = (case data of [] \<Rightarrow> 0 | b # _ \<Rightarrow> unat b AND 15)"

definition type_of_data :: "bytes \<Rightarrow> AddressType" where
  "type_of_data data = (case data of [] \<Rightarrow> 0 | b # _ \<Rightarrow> drop_bit 4 (unat b))"

subsection \<open>Variable-length numbers\<close>

text \<open>\<open>val.toString(2).length\<close>.\<close>

fun binary_digits :: "nat \<Rightarrow> nat" where
  "binary_digits n = (if n < 2 then 1 else Suc (binary_digits (n div 2)))"

declare binary_digits.simps [simp del]

fun vle_loop :: "nat \<Rightarrow> nat \<Rightarrow> bytes \<Rightarrow> bytes" where
  "vle_loop val bitLength encoded =
     (if 7 < bitLength
      then let val = drop_bit 7 val
           in vle_loop val (bitLength - 7) (byte_of ((val AND 127) + 128) # encoded)
      else encoded)"

declare vle_loop.simps [simp del]

definition variableLengthEncode :: "int \<Rightarrow> bytes result" where
  "variableLengthEncode val =
     (if val < 0 then Inl InvalidArgumentError
      else Inr (vle_loop (nat val) (binary_digits (nat val)) [byte_of (nat val AND 127)]))"

fun vld_loop :: "bytes \<Rightarrow> nat \<Rightarrow> nat \<Rightarrow> nat \<times> nat" where
  "vld_loop [] value bytesRead = (value, bytesRead)"
| "vld_loop (b # bs) value bytesRead =
     (let value = push_bit 7 value OR (unat b AND 127)
      in if unat b AND 128 \<noteq> 0 then vld_loop bs value (bytesRead + 1) else (value, bytesRead + 1))"

definition variableLengthDecode :: "bytes \<Rightarrow> nat \<times> nat" where
  "variableLengthDecode array = vld_loop array 0 0"

subsection \<open>Base, pointer, enterprise and reward addresses\<close>

definition BaseAddress_packParts :: "AddressProps \<Rightarrow> bytes result" where
  "BaseAddress_packParts props =
     ebind (the_field (ap_paymentPart props)) (\<lambda>payment.
     ebind (the_field (ap_delegationPart props)) (\<lambda>delegation.
       Inr (header_byte props # cred_hash payment @ cred_hash delegation)))"

definition BaseAddress_unpackParts :: "AddressType \<Rightarrow> bytes \<Rightarrow> AddressProps result" where
  "BaseAddress_unpackParts type data =
     (if length data \<noteq> 57 then Inl InvalidArgumentError
      else let network = network_of data in
        ebind (typedHash 28 (take 28 (drop 1 data))) (\<lambda>paymentCredential.
        ebind (typedHash 28 (take 28 (drop 29 data))) (\<lambda>stakeCredential.
        let delegationCredType = (if type = BasePaymentKeyStakeScript \<or> type = BasePaymentScriptStakeScript
              then ScriptHash else KeyHash);
            paymentCredType = (if type = BasePaymentScriptStakeKey \<or> type = BasePaymentScriptStakeScript
              then ScriptHash else KeyHash)
        in Inr ((no_props type)\<lparr>ap_networkId := Some network,
             ap_paymentPart := Some \<lparr>cred_type = paymentCredType, cred_hash = paymentCredential\<rparr>,
             ap_delegationPart := Some \<lparr>cred_type = delegationCredType, cred_hash = stakeCredential\<rparr>\<rparr>))))"

definition PointerAddress_packParts :: "AddressProps \<Rightarrow> bytes result" where
  "PointerAddress_packParts props =
     ebind (the_field (ap_pointer props)) (\<lambda>p.
     ebind (the_field (ap_paymentPart props)) (\<lambda>payment.
     ebind (variableLengthEncode (ptr_slot p)) (\<lambda>slot.
     ebind (variableLengthEncode (ptr_txIndex p)) (\<lambda>txIndex.
     ebind (variableLengthEncode (ptr_certIndex p)) (\<lambda>certIndex.
       Inr (header_byte props # cred_hash payment @ slot @ txIndex @ certIndex))))))"

definition PointerAddress_unpackParts :: "AddressType \<Rightarrow> bytes \<Rightarrow> AddressProps result" where
  "PointerAddress_unpackParts type data =
     (if length data \<le> 29 then Inl InvalidArgumentError
      else ebind (typedHash 28 (take 28 (drop 1 data))) (\<lambda>paymentCredential.
        let (slot, slotBytes) = variableLengthDecode (drop 29 data);
            (txIndex, txIndexBytes) = variableLengthDecode (drop (29 + slotBytes) data);
            (certIndex, _) = variableLengthDecode (drop (29 + slotBytes + txIndexBytes) data)
        in Inr ((no_props type)\<lparr>ap_networkId := Some (network_of data),
             ap_paymentPart := Some \<lparr>cred_type = (if type = PointerScript then ScriptHash else KeyHash),
                                     cred_hash = paymentCredential\<rparr>,
             ap_pointer := Some \<lparr>ptr_slot = int slot, ptr_txIndex = int (js_Number txIndex),
                                 ptr_certIndex = int (js_Number certIndex)\<rparr>\<rparr>)))"

definition EnterpriseAddress_packParts :: "AddressProps \<Rightarrow> bytes result" where
  "EnterpriseAddress_packParts props =
     ebind (the_field (ap_paymentPart props)) (\<lambda>payment. Inr (header_byte props # cred_hash payment))"

definition EnterpriseAddress_unpackParts :: "AddressType \<Rightarrow> bytes \<Rightarrow> AddressProps result" where
  "EnterpriseAddress_unpackParts type data =
     (if length data \<noteq> 29 then Inl InvalidArgumentError
      else ebind (typedHash 28 (take 28 (drop 1 data))) (\<lambda>paymentCredential.
        Inr ((no_props type)\<lparr>ap_networkId := Some (network_of data),
          ap_paymentPart := Some \<lparr>cred_type = (if type = EnterpriseScript then ScriptHash else KeyHash),
                                  cred_hash = paymentCredential\<rparr>\<rparr>)))"

definition RewardAddress_packParts :: "AddressProps \<Rightarrow> bytes result" where
  "RewardAddress_packParts props =
     ebind (the_field (ap_paymentPart props)) (\<lambda>payment. Inr (header_byte props # cred_hash payment))"

definition RewardAddress_unpackParts :: "AddressType \<Rightarrow> bytes \<Rightarrow> AddressProps result" where
  "RewardAddress_unpackParts type data =
     (if length data \<noteq> 29 then Inl InvalidArgumentError
      else ebind (typedHash 28 (take 28 (drop 1 data))) (\<lambda>stakeCredential.
        Inr ((no_props type)\<lparr>ap_networkId := Some (network_of data),
          ap_paymentPart := Some \<lparr>cred_type = (if type = RewardScript then ScriptHash else KeyHash),
                                  cred_hash = stakeCredential\<rparr>\<rparr>)))"

subsection \<open>Byron addresses\<close>

text \<open>An empty derivation path and the magic 0 are falsy and not written.\<close>

definition truthy_path :: "ByronAttributes \<Rightarrow> bytes option" where
  "truthy_path attrs = (case ba_derivationPath attrs of Some (b # bs) \<Rightarrow> Some (b # bs) | _ \<Rightarrow> None)"

definition truthy_magic :: "ByronAttributes \<Rightarrow> int option" where
  "truthy_magic attrs = (case ba_magic attrs of Some m \<Rightarrow> if m = 0 then None else Some m | None \<Rightarrow> None)"

definition ByronAddress_content :: "ByronAddressContent \<Rightarrow> bytes result" where
  "ByronAddress_content c =
     (let path = truthy_path (bc_attrs c); magic = truthy_magic (bc_attrs c);
          mapSize = (if path = None then 0 else 1) + (if magic = None then 0 else 1)
      in ebind (case path of None \<Rightarrow> Inr []
                 | Some p \<Rightarrow> ebind (write_all [writeByteString p]) (\<lambda>b. Inr [writeInt 1, writeByteString b])) (\<lambda>path_ops.
         ebind (case magic of None \<Rightarrow> Inr []
                 | Some m \<Rightarrow> ebind (write_all [writeInt m]) (\<lambda>b. Inr [writeInt 2, writeByteString b])) (\<lambda>magic_ops.
           write_all ([writeStartArray (Some 3), writeByteString (bc_root c), writeStartMap (Some mapSize)] @
             path_ops @ magic_ops @ [writeInt (bc_type c)]))))"

definition ByronAddress_packParts :: "(bytes \<Rightarrow> nat) \<Rightarrow> AddressProps \<Rightarrow> bytes result" where
  "ByronAddress_packParts crc32 props =
     ebind (the_field (ap_byron props)) (\<lambda>c.
     ebind (ByronAddress_content c) (\<lambda>addressDataEncoded.
       write_all [writeStartArray (Some 2), writeTag (int CborTag_EncodedCborDataItem),
         writeByteString addressDataEncoded, writeInt (int (crc32 addressDataEncoded))]))"

text \<open>The loop over the attribute map. A key other than 1 and 2 is skipped without its value.\<close>

function byron_attrs :: "ByronAttributes \<Rightarrow> CborReader \<Rightarrow> (ByronAttributes \<times> CborReader) result" where
  "byron_attrs attrs r =
     ebind (peekState r) (\<lambda>(state, r1).
       if state = EndMap then Inr (attrs, r1)
       else ebind (readInt r1) (\<lambda>(key, r2).
         if key = 1 then
           ebind (readByteString r2) (\<lambda>(cborBytes, r3).
           ebind (readByteString (new_reader cborBytes)) (\<lambda>(path, _).
             byron_attrs (attrs\<lparr>ba_derivationPath := Some path\<rparr>) r3))
         else if key = 2 then
           ebind (readByteString r2) (\<lambda>(cborBytes, r3).
           ebind (readInt (new_reader cborBytes)) (\<lambda>(magic, _).
             byron_attrs (attrs\<lparr>ba_magic := Some (js_Number_int magic)\<rparr>) r3))
         else byron_attrs attrs r2))"
  by pat_completeness auto
termination
  by (relation "measure (\<lambda>(attrs, r). reader_size r)")
    (auto dest!: readInt_progress readByteString_progress peekState_reader_size simp: progress_def)

declare byron_attrs.simps [simp del]

definition ByronAddress_unpackParts :: "(bytes \<Rightarrow> nat) \<Rightarrow> AddressType \<Rightarrow> bytes \<Rightarrow> AddressProps result" where
  "ByronAddress_unpackParts crc32 type data =
     ebind (readStartArray (new_reader data)) (\<lambda>(_, r).
     ebind (readTag r) (\<lambda>(_, r).
     ebind (readByteString r) (\<lambda>(addressDataEncoded, r).
     ebind (readInt r) (\<lambda>(checksum, r).
     ebind (throw_if (js_Number_int checksum \<noteq> int (crc32 addressDataEncoded)) InvalidArgumentError) (\<lambda>_.
     ebind (readStartArray (new_reader addressDataEncoded)) (\<lambda>(_, r).
     ebind (readByteString r) (\<lambda>(h, r).
     ebind (typedHash 28 h) (\<lambda>root.
     ebind (readStartMap r) (\<lambda>(_, r).
     ebind (byron_attrs \<lparr>ba_derivationPath = None, ba_magic = None\<rparr> r) (\<lambda>(attrs, r).
     ebind (readEndMap r) (\<lambda>r.
     ebind (readInt r) (\<lambda>(t, r).
       Inr ((no_props type)\<lparr>ap_byron :=
              Some \<lparr>bc_root = root, bc_attrs = attrs, bc_type = js_Number_int t\<rparr>\<rparr>)))))))))))))"

subsection \<open>Dispatch\<close>

definition Address_fromBytes :: "(bytes \<Rightarrow> nat) \<Rightarrow> bytes \<Rightarrow> AddressProps result" where
  "Address_fromBytes crc32 data =
     (let type = type_of_data data in
      if type \<in> base_types then BaseAddress_unpackParts type data
      else if type = PointerKey \<or> type = PointerScript then PointerAddress_unpackParts type data
      else if type = EnterpriseKey \<or> type = EnterpriseScript then EnterpriseAddress_unpackParts type data
      else if type = RewardKey \<or> type = RewardScript then RewardAddress_unpackParts type data
      else if type = Byron then ByronAddress_unpackParts crc32 type data
      else Inl InvalidArgumentError)"

definition Address_toBytes :: "(bytes \<Rightarrow> nat) \<Rightarrow> AddressProps \<Rightarrow> bytes result" where
  "Address_toBytes crc32 props =
     (let type = ap_type props in
      if type \<in> base_types then BaseAddress_packParts props
      else if type = PointerKey \<or> type = PointerScript then PointerAddress_packParts props
      else if type = EnterpriseKey \<or> type = EnterpriseScript then EnterpriseAddress_packParts props
      else if type = RewardKey \<or> type = RewardScript then RewardAddress_packParts props
      else if type = Byron then ByronAddress_packParts crc32 props
      else Inl GenericError)"

definition Address_getNetworkId :: "AddressProps \<Rightarrow> nat option" where
  "Address_getNetworkId props =
     (if ap_type props = Byron then
        (case Option.bind (ap_byron props) (\<lambda>c. ba_magic (bc_attrs c)) of None \<Rightarrow> Some 1 | Some _ \<Rightarrow> Some 0)
      else ap_networkId props)"

subsection \<open>The address classes\<close>

text \<open>An instance of a class is the record of its private fields; the other fields are absent.\<close>

definition BaseAddress_new :: "AddressProps \<Rightarrow> AddressProps" where
  "BaseAddress_new props = (no_props (ap_type props))\<lparr>ap_networkId := ap_networkId props,
     ap_paymentPart := ap_paymentPart props, ap_delegationPart := ap_delegationPart props\<rparr>"

definition PointerAddress_new :: "AddressProps \<Rightarrow> AddressProps" where
  "PointerAddress_new props = (no_props (ap_type props))\<lparr>ap_networkId := ap_networkId props,
     ap_paymentPart := ap_paymentPart props, ap_pointer := ap_pointer props\<rparr>"

definition EnterpriseAddress_new :: "AddressProps \<Rightarrow> AddressProps" where
  "EnterpriseAddress_new props = (no_props (ap_type props))\<lparr>ap_networkId := ap_networkId props,
     ap_paymentPart := ap_paymentPart props\<rparr>"

definition RewardAddress_new :: "AddressProps \<Rightarrow> AddressProps" where
  "RewardAddress_new props = (no_props (ap_type props))\<lparr>ap_networkId := ap_networkId props,
     ap_paymentPart := ap_paymentPart props\<rparr>"

definition ByronAddress_new :: "AddressProps \<Rightarrow> AddressProps" where
  "ByronAddress_new props = (no_props (ap_type props))\<lparr>ap_byron := ap_byron props\<rparr>"

definition BaseAddress_fromCredentials :: "nat \<Rightarrow> Credential \<Rightarrow> Credential \<Rightarrow> AddressProps" where
  "BaseAddress_fromCredentials networkId payment stake =
     (let type = BasePaymentKeyStakeKey;
          type = (if cred_type payment = ScriptHash then type OR 1 else type);
          type = (if cred_type stake = ScriptHash then type OR 2 else type)
      in BaseAddress_new ((no_props type)\<lparr>ap_networkId := Some networkId,
           ap_paymentPart := Some payment, ap_delegationPart := Some stake\<rparr>))"

text \<open>The code clears bits of the type (\<open>type &= 0b0001\<close>) where it means to set one.\<close>

definition PointerAddress_fromCredentials :: "nat \<Rightarrow> Credential \<Rightarrow> Pointer \<Rightarrow> AddressProps" where
  "PointerAddress_fromCredentials networkId payment pointer =
     (let type = PointerKey;
          type = (if cred_type payment = ScriptHash then type AND 1 else type)
      in PointerAddress_new ((no_props type)\<lparr>ap_networkId := Some networkId,
           ap_paymentPart := Some payment, ap_pointer := Some pointer\<rparr>))"

definition EnterpriseAddress_fromCredentials :: "nat \<Rightarrow> Credential \<Rightarrow> AddressProps" where
  "EnterpriseAddress_fromCredentials networkId payment =
     EnterpriseAddress_new ((no_props (if cred_type payment = ScriptHash then EnterpriseScript else EnterpriseKey))
       \<lparr>ap_networkId := Some networkId, ap_paymentPart := Some payment\<rparr>)"

definition RewardAddress_fromCredentials :: "nat \<Rightarrow> Credential \<Rightarrow> AddressProps" where
  "RewardAddress_fromCredentials networkId payment =
     (let type = RewardKey; type = (if cred_type payment = ScriptHash then type OR 1 else type)
      in RewardAddress_new ((no_props type)\<lparr>ap_networkId := Some networkId, ap_paymentPart := Some payment\<rparr>))"

definition ByronAddress_fromCredentials :: "bytes \<Rightarrow> ByronAttributes \<Rightarrow> int \<Rightarrow> AddressProps" where
  "ByronAddress_fromCredentials root attrs type =
     ByronAddress_new ((no_props Byron)\<lparr>ap_byron := Some \<lparr>bc_root = root, bc_attrs = attrs, bc_type = type\<rparr>\<rparr>)"

definition BaseAddress_fromAddress :: "AddressProps \<Rightarrow> AddressProps option" where
  "BaseAddress_fromAddress addr =
     (if ap_type addr \<in> base_types then Some (BaseAddress_new addr) else None)"

definition PointerAddress_fromAddress :: "AddressProps \<Rightarrow> AddressProps option" where
  "PointerAddress_fromAddress addr =
     (if ap_type addr \<in> {PointerKey, PointerScript} then Some (PointerAddress_new addr) else None)"

definition EnterpriseAddress_fromAddress :: "AddressProps \<Rightarrow> AddressProps option" where
  "EnterpriseAddress_fromAddress addr =
     (if ap_type addr \<in> {EnterpriseKey, EnterpriseScript} then Some (EnterpriseAddress_new addr) else None)"

definition RewardAddress_fromAddress :: "AddressProps \<Rightarrow> AddressProps option" where
  "RewardAddress_fromAddress addr =
     (if ap_type addr \<in> {RewardKey, RewardScript} then Some (RewardAddress_new addr) else None)"

definition ByronAddress_fromAddress :: "AddressProps \<Rightarrow> AddressProps option" where
  "ByronAddress_fromAddress addr = (if ap_type addr = Byron then Some (ByronAddress_new addr) else None)"

subsection \<open>Header byte\<close>

lemma nat_and_127: "(n::nat) AND 127 = n mod 128"
  using take_bit_eq_mask [of 7 n] by (simp add: take_bit_eq_mod mask_eq_exp_minus_1)

lemma nat_and_15: "(n::nat) AND 15 = n mod 16"
  using take_bit_eq_mask [of 4 n] by (simp add: take_bit_eq_mod mask_eq_exp_minus_1)

lemma nat_and_128: "n < 256 \<Longrightarrow> (n::nat) AND 128 \<noteq> 0 \<longleftrightarrow> 128 \<le> n"
proof -
  assume "n < 256"
  have "n AND 2 ^ 7 = 0 \<longleftrightarrow> \<not> bit n 7" by (rule and_exp_eq_0_iff_not_bit)
  moreover have "bit n 7 \<longleftrightarrow> 128 \<le> n"
  proof -
    have "n div 128 \<in> {0, 1}" using \<open>n < 256\<close> by auto
    then show ?thesis by (auto simp: bit_iff_odd)
  qed
  ultimately show ?thesis by simp
qed

lemma push_or: "(n::nat) < 2 ^ k \<Longrightarrow> push_bit k m OR n = m * 2 ^ k + n"
proof -
  assume "n < 2 ^ k"
  then have n: "take_bit k n = n" by (simp add: take_bit_eq_mod)
  have "push_bit k m AND take_bit k n = 0"
    by (rule bit_eqI) (auto simp: bit_simps)
  then have "push_bit k m + take_bit k n = push_bit k m OR take_bit k n"
    by (rule disjunctive_add_eq_or)
  then show ?thesis by (simp add: n push_bit_eq_mult)
qed

lemmas nat_bits = nat_and_127 nat_and_15 drop_bit_eq_div

lemma header_byte_value:
  assumes "ap_type p < 16" and "ap_networkId p = Some n" and "n < 16"
  shows "unat (header_byte p) = 16 * ap_type p + n"
  using assms push_or [of n 4 "ap_type p"] by (simp add: header_byte_def)

lemma header_of_data:
  assumes "ap_type p < 16" and "ap_networkId p = Some n" and "n < 16"
  shows "type_of_data (header_byte p # bs) = ap_type p" and "network_of (header_byte p # bs) = n"
  using assms by (simp_all add: type_of_data_def network_of_def nat_bits header_byte_value)

lemma header_of_parsed:
  assumes "data = b # bs" and "ap_type p = type_of_data data" and "ap_networkId p = Some (network_of data)"
  shows "header_byte p = b"
proof -
  have "unat b mod 16 < 2 ^ 4" by simp
  then have "push_bit 4 (unat b div 16) OR unat b mod 16 = unat b div 16 * 2 ^ 4 + unat b mod 16"
    by (rule push_or)
  also have "\<dots> = unat b" by simp
  finally show ?thesis
    using assms by (simp add: header_byte_def type_of_data_def network_of_def nat_bits)
qed

subsection \<open>Variable-length numbers are read back\<close>

text \<open>The bytes before the last one, most significant first.\<close>

fun vl_high :: "nat \<Rightarrow> bytes" where
  "vl_high m = (if m = 0 then [] else vl_high (m div 128) @ [byte_of (m mod 128 + 128)])"

declare vl_high.simps [simp del]

lemma binary_digits_div: "2 ^ k \<le> n \<Longrightarrow> binary_digits n = binary_digits (n div 2 ^ k) + k"
proof (induction k arbitrary: n)
  case (Suc k)
  have "(1::nat) \<le> 2 ^ k" by simp
  then have "2 \<le> n" using Suc.prems unfolding power_Suc by linarith
  moreover have "2 ^ k \<le> n div 2" using Suc.prems by simp
  ultimately show ?case
    using Suc.IH [of "n div 2"] by (simp add: binary_digits.simps [of n] div_mult2_eq)
qed simp

lemma binary_digits_div128: "128 \<le> n \<Longrightarrow> binary_digits n = binary_digits (n div 128) + 7"
  using binary_digits_div [of 7 n] by simp

lemma binary_digits_small: "n < 2 ^ k \<Longrightarrow> 0 < k \<Longrightarrow> binary_digits n \<le> k"
proof (induction n arbitrary: k rule: binary_digits.induct)
  case (1 n)
  show ?case
  proof (cases "n < 2")
    case False
    with "1.prems" obtain j where k: "k = Suc j" "0 < j" by (cases k; cases "k - 1") auto
    with False "1.IH" [of j] "1.prems" show ?thesis by (simp add: binary_digits.simps [of n])
  qed (use "1.prems" in \<open>simp add: binary_digits.simps [of n]\<close>)
qed

lemma binary_digits_pos: "0 < binary_digits n"
  by (simp add: binary_digits.simps [of n])

lemma vle_loop_eq: "vle_loop n (binary_digits n) acc = vl_high (n div 128) @ acc"
proof (induction n arbitrary: acc rule: less_induct)
  case (less n)
  show ?case
  proof (cases "n < 128")
    case True
    then have "binary_digits n \<le> 7" using binary_digits_small [of n 7] by simp
    with True show ?thesis by (simp add: vle_loop.simps vl_high.simps)
  next
    case False
    with less.IH [of "n div 128"] binary_digits_div128 [of n] binary_digits_pos [of "n div 128"]
    show ?thesis
      by (simp add: vle_loop.simps [of n] vl_high.simps [of "n div 128"] nat_bits Let_def div_greater_zero_iff)
  qed
qed

lemma variableLengthEncode_eq:
  "0 \<le> v \<Longrightarrow> variableLengthEncode v = Inr (vl_high (nat v div 128) @ [byte_of (nat v mod 128)])"
  by (simp add: variableLengthEncode_def vle_loop_eq nat_bits)

lemma vld_high:
  "vld_loop (vl_high m @ bs) 0 0 = vld_loop bs m (length (vl_high m))"
proof (induction m arbitrary: bs rule: vl_high.induct)
  case (1 m)
  show ?case
  proof (cases "m = 0")
    case False
    have "m div 128 * 2 ^ 7 + m mod 128 = m" by simp
    with False 1 push_or [of "m mod 128" 7 "m div 128"] nat_and_128 [of "m mod 128 + 128"]
    show ?thesis
      by (simp add: vl_high.simps [of m] Let_def nat_bits byte_simps)
  qed (simp add: vl_high.simps)
qed

lemma variableLengthDecode_encode:
  assumes "variableLengthEncode v = Inr b"
  shows "variableLengthDecode (b @ rest) = (nat v, length b)" and "b \<noteq> []"
proof -
  have v: "0 \<le> v" using assms by (simp add: variableLengthEncode_def split: if_splits)
  have "nat v div 128 * 2 ^ 7 + nat v mod 128 = nat v" by simp
  with assms v push_or [of "nat v mod 128" 7 "nat v div 128"] nat_and_128 [of "nat v mod 128"]
  show "variableLengthDecode (b @ rest) = (nat v, length b)"
    by (auto simp: variableLengthDecode_def variableLengthEncode_eq vld_high nat_bits byte_simps Let_def)
  show "b \<noteq> []" using assms v by (auto simp: variableLengthEncode_eq)
qed

subsection \<open>Shelley addresses\<close>

fun script_bit :: "CredentialType \<Rightarrow> nat" where
  "script_bit KeyHash = 0"
| "script_bit ScriptHash = 1"

text \<open>
  The properties of a Shelley address whose type agrees with its parts. The network id has four
  bits; the indices of a pointer are exact JavaScript numbers.
\<close>

definition shelley_valid :: "AddressProps \<Rightarrow> bool" where
  "shelley_valid a \<longleftrightarrow> ap_byron a = None \<and>
     (case (ap_networkId a, ap_paymentPart a) of
        (Some n, Some p) \<Rightarrow> n < 16 \<and> length (cred_hash p) = 28 \<and>
          (case (ap_delegationPart a, ap_pointer a) of
             (Some d, None) \<Rightarrow> length (cred_hash d) = 28 \<and>
               ap_type a = script_bit (cred_type p) + 2 * script_bit (cred_type d)
           | (None, Some ptr) \<Rightarrow> 0 \<le> ptr_slot ptr \<and> 0 \<le> ptr_txIndex ptr \<and> ptr_txIndex ptr < 9007199254740992 \<and>
               0 \<le> ptr_certIndex ptr \<and> ptr_certIndex ptr < 9007199254740992 \<and>
               ap_type a = PointerKey + script_bit (cred_type p)
           | (None, None) \<Rightarrow> ap_type a \<in> {EnterpriseKey + script_bit (cred_type p), RewardKey + script_bit (cred_type p)}
           | _ \<Rightarrow> False)
      | _ \<Rightarrow> False)"

lemma shelley_validE:
  assumes "shelley_valid a"
  obtains (base) n p d where "n < 16" "length (cred_hash p) = 28" "length (cred_hash d) = 28"
    "a = \<lparr>ap_type = script_bit (cred_type p) + 2 * script_bit (cred_type d), ap_networkId = Some n,
      ap_pointer = None, ap_paymentPart = Some p, ap_delegationPart = Some d, ap_byron = None\<rparr>"
  | (pointer) n p ptr where "n < 16" "length (cred_hash p) = 28" "0 \<le> ptr_slot ptr" "0 \<le> ptr_txIndex ptr"
    "ptr_txIndex ptr < 9007199254740992" "0 \<le> ptr_certIndex ptr" "ptr_certIndex ptr < 9007199254740992"
    "a = \<lparr>ap_type = PointerKey + script_bit (cred_type p), ap_networkId = Some n,
      ap_pointer = Some ptr, ap_paymentPart = Some p, ap_delegationPart = None, ap_byron = None\<rparr>"
  | (single) n p ty where "n < 16" "length (cred_hash p) = 28"
    "ty \<in> {EnterpriseKey + script_bit (cred_type p), RewardKey + script_bit (cred_type p)}"
    "a = \<lparr>ap_type = ty, ap_networkId = Some n,
      ap_pointer = None, ap_paymentPart = Some p, ap_delegationPart = None, ap_byron = None\<rparr>"
  using assms by (cases a) (auto simp: shelley_valid_def split: option.splits)

lemma credential_eta: "\<lparr>cred_type = cred_type p, cred_hash = cred_hash p\<rparr> = (p :: Credential)"
  by simp

lemma typedHash_id [simp]: "length b = n \<Longrightarrow> typedHash n b = Inr b"
  by (simp add: typedHash_def)

lemma base_roundtrip:
  assumes "n < 16" "length (cred_hash p) = 28" "length (cred_hash d) = 28"
    and a: "a = \<lparr>ap_type = script_bit (cred_type p) + 2 * script_bit (cred_type d), ap_networkId = Some n,
      ap_pointer = None, ap_paymentPart = Some p, ap_delegationPart = Some d, ap_byron = None\<rparr>"
  shows "\<exists>b. Address_toBytes crc32 a = Inr b \<and> length b = 57 \<and> Address_fromBytes crc32 b = Inr a"
proof -
  have ty: "ap_type a \<in> base_types" by (cases "cred_type p"; cases "cred_type d") (simp_all add: a)
  then have "ap_type a < 16" by auto
  note hd = header_of_data [OF this _ assms(1), of "cred_hash p @ cred_hash d"]
  have "Address_toBytes crc32 a = Inr (header_byte a # cred_hash p @ cred_hash d)"
    using ty by (simp add: Address_toBytes_def BaseAddress_packParts_def) (simp add: a)
  moreover have "Address_fromBytes crc32 (header_byte a # cred_hash p @ cred_hash d) = Inr a"
    using hd ty assms by (cases p; cases d; cases "cred_type p"; cases "cred_type d")
      (simp_all add: Address_fromBytes_def BaseAddress_unpackParts_def)
  ultimately show ?thesis using assms by simp
qed

lemma single_roundtrip:
  assumes "n < 16" "length (cred_hash p) = 28"
    and ty: "ty \<in> {EnterpriseKey + script_bit (cred_type p), RewardKey + script_bit (cred_type p)}"
    and a: "a = \<lparr>ap_type = ty, ap_networkId = Some n,
      ap_pointer = None, ap_paymentPart = Some p, ap_delegationPart = None, ap_byron = None\<rparr>"
  shows "\<exists>b. Address_toBytes crc32 a = Inr b \<and> length b = 29 \<and> Address_fromBytes crc32 b = Inr a"
proof -
  have "ap_type a < 16" using ty by (cases "cred_type p") (auto simp: a)
  note hd = header_of_data [OF this _ assms(1), of "cred_hash p"]
  have "Address_toBytes crc32 a = Inr (header_byte a # cred_hash p)"
    using ty by (cases "cred_type p") (auto simp: Address_toBytes_def EnterpriseAddress_packParts_def
      RewardAddress_packParts_def a)
  moreover have "Address_fromBytes crc32 (header_byte a # cred_hash p) = Inr a"
    using hd ty assms by (cases p; cases "cred_type p")
      (auto simp: Address_fromBytes_def EnterpriseAddress_unpackParts_def RewardAddress_unpackParts_def)
  ultimately show ?thesis using assms by simp
qed

lemma pointer_roundtrip:
  assumes "n < 16" "length (cred_hash p) = 28" "0 \<le> ptr_slot ptr" "0 \<le> ptr_txIndex ptr"
    "ptr_txIndex ptr < 9007199254740992" "0 \<le> ptr_certIndex ptr" "ptr_certIndex ptr < 9007199254740992"
    and a: "a = \<lparr>ap_type = PointerKey + script_bit (cred_type p), ap_networkId = Some n,
      ap_pointer = Some ptr, ap_paymentPart = Some p, ap_delegationPart = None, ap_byron = None\<rparr>"
  shows "\<exists>b. Address_toBytes crc32 a = Inr b \<and> 29 < length b \<and> Address_fromBytes crc32 b = Inr a"
proof -
  obtain s t c where enc: "variableLengthEncode (ptr_slot ptr) = Inr s"
    "variableLengthEncode (ptr_txIndex ptr) = Inr t" "variableLengthEncode (ptr_certIndex ptr) = Inr c"
    using assms by (simp add: variableLengthEncode_eq)
  note dec = variableLengthDecode_encode [OF enc(1)] variableLengthDecode_encode [OF enc(2)]
    variableLengthDecode_encode(1) [OF enc(3), of "[]"]
  have "ap_type a < 16" by (cases "cred_type p") (auto simp: a)
  note hd = header_of_data [OF this _ assms(1), of "cred_hash p @ s @ t @ c"]
  have "Address_toBytes crc32 a = Inr (header_byte a # cred_hash p @ s @ t @ c)"
    using enc by (cases "cred_type p") (auto simp: Address_toBytes_def PointerAddress_packParts_def a)
  moreover
  let ?data = "header_byte a # cred_hash p @ s @ t @ c"
  have drops: "take 28 (drop 1 ?data) = cred_hash p" "drop 29 ?data = s @ t @ c"
    using assms(2) by simp_all
  have "drop (29 + length s) ?data = drop (length s) (drop 29 ?data)"
    "drop (29 + length s + length t) ?data = drop (length s + length t) (drop 29 ?data)"
    by (simp_all only: drop_drop ac_simps)
  then have "drop (29 + length s) ?data = t @ c" "drop (29 + length s + length t) ?data = c"
    unfolding drops(2) by simp_all
  with drops have "Address_fromBytes crc32 ?data = Inr a"
    using hd assms dec by (cases p; cases ptr; cases "cred_type p")
      (simp_all add: Address_fromBytes_def PointerAddress_unpackParts_def nat_less_iff)
  moreover have "s \<noteq> []" by (rule dec)
  ultimately show ?thesis using assms by (cases s) auto
qed

lemma shelley_roundtrip:
  assumes "shelley_valid a"
  shows "\<exists>b. Address_toBytes crc32 a = Inr b \<and> Address_fromBytes crc32 b = Inr a \<and>
    length b = (if ap_type a \<in> base_types then 57 else if ap_type a \<in> {PointerKey, PointerScript} then length b else 29)"
  using assms
proof (cases rule: shelley_validE)
  case (base n p d)
  then show ?thesis
    using base_roundtrip [OF base, of crc32] by (cases "cred_type p"; cases "cred_type d") auto
next
  case (pointer n p ptr)
  then show ?thesis
    using pointer_roundtrip [OF pointer, of crc32] by (cases "cred_type p") auto
next
  case (single n p ty)
  then show ?thesis
    using single_roundtrip [OF single, of crc32] by (cases "cred_type p") auto
qed

text \<open>The bytes of a base, enterprise or reward address are determined by the parsed properties.\<close>

lemma base_reprint:
  assumes "BaseAddress_unpackParts (type_of_data data) data = Inr a"
  shows "BaseAddress_packParts a = Inr data \<and> ap_type a = type_of_data data"
proof -
  obtain b bs where data: "data = b # bs" and len: "length bs = 56"
    using assms by (cases data) (auto simp: BaseAddress_unpackParts_def split: if_splits)
  have "take 28 bs @ take 28 (drop 28 bs) = bs"
    using len append_take_drop_id [of 28 bs] by simp
  with assms len header_of_parsed [OF data, of a] show ?thesis
    by (simp add: data BaseAddress_unpackParts_def BaseAddress_packParts_def) auto
qed

lemma single_reprint:
  assumes "EnterpriseAddress_unpackParts (type_of_data data) data = Inr a \<or>
    RewardAddress_unpackParts (type_of_data data) data = Inr a"
  shows "EnterpriseAddress_packParts a = Inr data \<and> RewardAddress_packParts a = Inr data \<and>
    ap_type a = type_of_data data"
proof -
  obtain b bs where data: "data = b # bs" and len: "length bs = 28"
    using assms by (cases data)
      (auto simp: EnterpriseAddress_unpackParts_def RewardAddress_unpackParts_def split: if_splits)
  with assms header_of_parsed [OF data, of a] show ?thesis
    by (simp add: data EnterpriseAddress_unpackParts_def EnterpriseAddress_packParts_def
        RewardAddress_unpackParts_def RewardAddress_packParts_def) auto
qed

lemma fixed_size_reprint:
  assumes "Address_fromBytes crc32 data = Inr a" and "type_of_data data \<notin> {PointerKey, PointerScript, Byron}"
  shows "Address_toBytes crc32 a = Inr data"
proof -
  consider "BaseAddress_unpackParts (type_of_data data) data = Inr a" "type_of_data data \<in> base_types"
    | "EnterpriseAddress_unpackParts (type_of_data data) data = Inr a" "type_of_data data \<in> {EnterpriseKey, EnterpriseScript}"
    | "RewardAddress_unpackParts (type_of_data data) data = Inr a" "type_of_data data \<in> {RewardKey, RewardScript}"
    using assms unfolding Address_fromBytes_def Let_def by (metis insertCI sum.distinct(1))
  then show ?thesis
    using base_reprint [of data a] single_reprint [of data a]
    by cases (auto simp: Address_toBytes_def)
qed

subsection \<open>Byron addresses are read back\<close>

definition byron_valid :: "ByronAddressContent \<Rightarrow> bool" where
  "byron_valid c \<longleftrightarrow> length (bc_root c) = 28 \<and>
     (case ba_derivationPath (bc_attrs c) of None \<Rightarrow> True | Some p \<Rightarrow> p \<noteq> [] \<and> length p < 4503599627370496) \<and>
     (case ba_magic (bc_attrs c) of None \<Rightarrow> True | Some m \<Rightarrow> m \<noteq> 0 \<and> safe_int m) \<and> safe_int (bc_type c)"

text \<open>The encoding of one attribute, as the content holds it.\<close>

definition byron_attr :: "int \<Rightarrow> bytes \<Rightarrow> bytes" where
  "byron_attr key b = enc_int key @ enc_bytes b"

definition byron_entries :: "ByronAttributes \<Rightarrow> bytes list" where
  "byron_entries a = (case truthy_path a of None \<Rightarrow> [] | Some p \<Rightarrow> [byron_attr 1 (enc_bytes p)]) @
     (case truthy_magic a of None \<Rightarrow> [] | Some m \<Rightarrow> [byron_attr 2 (enc_int m)])"

definition byron_bytes :: "ByronAddressContent \<Rightarrow> bytes" where
  "byron_bytes c = enc_head ArrayType 3 @ enc_bytes (bc_root c) @
     enc_head MapType (length (byron_entries (bc_attrs c))) @ concat (byron_entries (bc_attrs c)) @ enc_int (bc_type c)"

lemma length_enc_head: "length (enc_head m n) \<le> 9"
  by (simp add: enc_head_def)

lemma length_enc_int: "length (enc_int i) \<le> 9"
  by (simp add: enc_int_def length_enc_head)

lemma length_enc_bytes: "length (enc_bytes b) \<le> 9 + length b"
  using length_enc_head [of ByteString "length b"] by (simp add: enc_bytes_def)

lemma ByronAddress_content_eq:
  assumes "byron_valid c"
  shows "ByronAddress_content c = Inr (byron_bytes c)"
proof -
  have p: "length (enc_bytes p) < 18446744073709551616" if "length p < 4503599627370496" for p
    using length_enc_bytes [of p] that by simp
  have i: "length (enc_int i) < 18446744073709551616" for i
    using length_enc_int [of i] by simp
  show ?thesis
    using assms i p [of "the (ba_derivationPath (bc_attrs c))"]
    by (auto simp: ByronAddress_content_def byron_valid_def byron_bytes_def byron_entries_def byron_attr_def
        truthy_path_def truthy_magic_def write_all_def run_ops_append encode_def neq_Nil_conv split: option.splits)
qed

lemma length_byron_bytes: "byron_valid c \<Longrightarrow> length (byron_bytes c) < 9007199254740992"
  using length_enc_head [of ArrayType 3] length_enc_bytes [of "bc_root c"] length_enc_int [of "bc_type c"]
    length_enc_head [of MapType "length (byron_entries (bc_attrs c))"] length_enc_int [of 1] length_enc_int [of 2]
    length_enc_bytes [of "enc_bytes (the (ba_derivationPath (bc_attrs c)))"]
    length_enc_bytes [of "the (ba_derivationPath (bc_attrs c))"]
    length_enc_bytes [of "enc_int (the (ba_magic (bc_attrs c)))"] length_enc_int [of "the (ba_magic (bc_attrs c))"]
  by (auto simp: byron_valid_def byron_bytes_def byron_entries_def byron_attr_def truthy_path_def truthy_magic_def
      neq_Nil_conv split: option.splits)

lemma byron_attrs_end:
  "k = n \<Longrightarrow> byron_attrs a (rd U pre bs (map_frame off (Some n) k) stk False) =
     Inr (a, rd EndMap pre bs (map_frame off (Some n) n) stk False)"
  by (subst byron_attrs.simps) (simp add: peekState_rd peekStateCore_ends)

lemma byron_attrs_path:
  assumes "length p < 4503599627370496" and "open_frame fr" and "open_frame (bumps 1 fr)"
  shows "byron_attrs a (rd U pre (byron_attr 1 (enc_bytes p) @ bs) fr stk False) =
    byron_attrs (a\<lparr>ba_derivationPath := Some p\<rparr>)
      (rd U (pre @ byron_attr 1 (enc_bytes p)) bs (bumps 2 fr) stk False)"
  using assms length_enc_bytes [of p]
  by (subst byron_attrs.simps)
    (simp add: byron_attr_def peekState_rd peekStateCore_item rd_simps rd_last numeral_2_eq_2)

lemma byron_attrs_magic:
  assumes "safe_int m" and "open_frame fr" and "open_frame (bumps 1 fr)"
  shows "byron_attrs a (rd U pre (byron_attr 2 (enc_int m) @ bs) fr stk False) =
    byron_attrs (a\<lparr>ba_magic := Some m\<rparr>)
      (rd U (pre @ byron_attr 2 (enc_int m)) bs (bumps 2 fr) stk False)"
  using assms length_enc_int [of m]
  by (subst byron_attrs.simps)
    (simp add: byron_attr_def peekState_rd peekStateCore_item rd_simps rd_last numeral_2_eq_2)

lemma byron_attrs_entries:
  assumes "byron_valid c" and "n = length (byron_entries (bc_attrs c))"
  shows "byron_attrs \<lparr>ba_derivationPath = None, ba_magic = None\<rparr>
      (rd U pre (concat (byron_entries (bc_attrs c)) @ bs) (map_frame off (Some (2 * n)) 0) stk False) =
    Inr (bc_attrs c, rd EndMap (pre @ concat (byron_entries (bc_attrs c))) bs
      (map_frame off (Some (2 * n)) (2 * n)) stk False)"
  using assms
  by (cases "bc_attrs c")
    (auto simp: byron_valid_def byron_entries_def truthy_path_def truthy_magic_def neq_Nil_conv
      byron_attrs_path byron_attrs_magic byron_attrs_end split: option.splits)

lemma length_byron_entries:
  "2 * length (byron_entries a) \<le> length (concat (byron_entries a))"
proof -
  have "enc_int i \<noteq> []" "enc_bytes b \<noteq> []" for i b
    by (auto simp: enc_int_def enc_bytes_def enc_head_def)
  then have "2 \<le> length (byron_attr k b)" for k b
    by (cases "enc_int k"; cases "enc_bytes b") (auto simp: byron_attr_def)
  from this [of 1 "enc_bytes (the (truthy_path a))"] this [of 2 "enc_int (the (truthy_magic a))"]
  show ?thesis by (auto simp: byron_entries_def split: option.splits)
qed

lemma byron_roundtrip:
  assumes "byron_valid c" and crc: "crc32 (byron_bytes c) < 4294967296"
  shows "\<exists>b. Address_toBytes crc32 ((no_props Byron)\<lparr>ap_byron := Some c\<rparr>) = Inr b \<and>
    Address_fromBytes crc32 b = Inr ((no_props Byron)\<lparr>ap_byron := Some c\<rparr>)"
proof -
  let ?b = "enc_head ArrayType 2 @ enc_head TagType 24 @ enc_bytes (byron_bytes c) @ enc_int (int (crc32 (byron_bytes c)))"
  note len = length_byron_bytes [OF assms(1)]
  have head: "enc_head ArrayType 2 = [0x82]"
    by (simp add: enc_head_def initial_byte_def byte_of_def)
  have "Address_toBytes crc32 ((no_props Byron)\<lparr>ap_byron := Some c\<rparr>) = Inr ?b"
    using assms len by (simp add: Address_toBytes_def ByronAddress_packParts_def ByronAddress_content_eq
        write_all_def encode_def)
  moreover have "type_of_data ?b = Byron"
    by (simp add: head type_of_data_def drop_bit_eq_div)
  moreover have "ByronAddress_unpackParts crc32 Byron ?b = Inr ((no_props Byron)\<lparr>ap_byron := Some c\<rparr>)"
    using assms len length_byron_entries [of "bc_attrs c"] byron_attrs_entries [OF assms(1) refl]
    by (simp add: ByronAddress_unpackParts_def rd_simps rd_last byron_valid_def) (simp add: byron_bytes_def rd_simps rd_last)
  ultimately show ?thesis by (simp add: Address_fromBytes_def)
qed

subsection \<open>Properties\<close>

definition address_valid :: "AddressProps \<Rightarrow> bool" where
  "address_valid a \<longleftrightarrow> (case ap_byron a of None \<Rightarrow> shelley_valid a
     | Some c \<Rightarrow> a = (no_props Byron)\<lparr>ap_byron := Some c\<rparr> \<and> byron_valid c)"

lemma fromCredentials_valid:
  assumes "n < 16" and "length (cred_hash p) = 28"
  shows "length (cred_hash d) = 28 \<Longrightarrow> shelley_valid (BaseAddress_fromCredentials n p d)"
    and "shelley_valid (EnterpriseAddress_fromCredentials n p)"
    and "shelley_valid (RewardAddress_fromCredentials n p)"
proof -
  show "length (cred_hash d) = 28 \<Longrightarrow> shelley_valid (BaseAddress_fromCredentials n p d)"
    using assms by (cases "cred_type p"; cases "cred_type d")
      (simp_all add: shelley_valid_def BaseAddress_fromCredentials_def BaseAddress_new_def)
  show "shelley_valid (EnterpriseAddress_fromCredentials n p)"
    using assms by (cases "cred_type p")
      (simp_all add: shelley_valid_def EnterpriseAddress_fromCredentials_def EnterpriseAddress_new_def)
  have "(14::nat) OR 1 = 15" by code_simp
  then show "shelley_valid (RewardAddress_fromCredentials n p)"
    using assms by (cases "cred_type p")
      (simp_all add: shelley_valid_def RewardAddress_fromCredentials_def RewardAddress_new_def)
qed

text \<open>C36. An address of any of the five kinds whose type agrees with its parts is written to bytes
  and read back as the same address: base, pointer (with the variable-length slot and indices),
  enterprise and reward addresses, and Byron addresses with their attributes and checksum. The
  checksum function returns an unsigned 32-bit number. The attributes of a Byron address, when present,
  are a network magic other than 0 and a derivation path that is not empty; the code drops the others.\<close>

theorem address_bytes_roundtrip:
  assumes "address_valid a" and "\<forall>b. crc32 b < 4294967296"
  shows "\<exists>b. Address_toBytes crc32 a = Inr b \<and> Address_fromBytes crc32 b = Inr a"
proof (cases "ap_byron a")
  case None
  with assms(1) show ?thesis using shelley_roundtrip [of a crc32] by (auto simp: address_valid_def)
next
  case (Some c)
  then have "a = (no_props Byron)\<lparr>ap_byron := Some c\<rparr>" "byron_valid c"
    using assms(1) by (simp_all add: address_valid_def)
  then show ?thesis using byron_roundtrip [of c crc32] assms(2) by blast
qed

definition example_pointer_address :: AddressProps where
  "example_pointer_address = (no_props PointerKey)\<lparr>ap_networkId := Some 1,
     ap_paymentPart := Some \<lparr>cred_type = KeyHash, cred_hash = replicate 28 7\<rparr>,
     ap_pointer := Some \<lparr>ptr_slot = 2498243, ptr_txIndex = 27, ptr_certIndex = 3\<rparr>\<rparr>"

definition example_byron_address :: AddressProps where
  "example_byron_address = (no_props Byron)\<lparr>ap_byron := Some \<lparr>bc_root = replicate 28 7,
     bc_attrs = \<lparr>ba_derivationPath = Some [1, 2, 3], ba_magic = Some 1097911063\<rparr>, bc_type = 0\<rparr>\<rparr>"

definition example_crc32 :: "bytes \<Rightarrow> nat" where
  "example_crc32 b = length b mod 4294967296"

theorem address_bytes_roundtrip_witness:
  "(\<exists>b. Address_toBytes example_crc32 example_pointer_address = Inr b \<and>
     Address_fromBytes example_crc32 b = Inr example_pointer_address) \<and>
   (\<exists>b. Address_toBytes example_crc32 example_byron_address = Inr b \<and>
     Address_fromBytes example_crc32 b = Inr example_byron_address)"
proof -
  have "\<forall>b. example_crc32 b < 4294967296" by (simp add: example_crc32_def)
  moreover have "address_valid example_pointer_address"
    by (simp add: address_valid_def shelley_valid_def example_pointer_address_def)
  moreover have "address_valid example_byron_address"
    by (simp add: address_valid_def byron_valid_def example_byron_address_def)
  ultimately show ?thesis
    using address_bytes_roundtrip [of example_pointer_address example_crc32]
      address_bytes_roundtrip [of example_byron_address example_crc32] by blast
qed

text \<open>Reading a base, enterprise or reward address loses nothing: writing the address that was
  read gives exactly the bytes it was read from, so two byte strings never denote the same address
  of these kinds.\<close>

theorem shelley_address_reprint:
  assumes "Address_fromBytes crc32 data = Inr a" and "ap_type a \<notin> {PointerKey, PointerScript, Byron}"
  shows "Address_toBytes crc32 a = Inr data"
proof -
  have "ap_type a = type_of_data data"
    using assms(1) unfolding Address_fromBytes_def Let_def
    by (auto simp: BaseAddress_unpackParts_def PointerAddress_unpackParts_def EnterpriseAddress_unpackParts_def
        RewardAddress_unpackParts_def ByronAddress_unpackParts_def split: if_splits prod.splits)
  with assms fixed_size_reprint [of crc32 data a] show ?thesis by simp
qed

theorem shelley_address_reprint_witness:
  "\<exists>a. Address_fromBytes example_crc32 (0xe1 # replicate 28 5) = Inr a \<and>
     Address_toBytes example_crc32 a = Inr (0xe1 # replicate 28 5)"
proof -
  have "\<exists>a. Address_fromBytes example_crc32 (0xe1 # replicate 28 5) = Inr a \<and> ap_type a = RewardKey"
    by (simp add: Address_fromBytes_def type_of_data_def drop_bit_eq_div RewardAddress_unpackParts_def)
  then show ?thesis using shelley_address_reprint [of example_crc32 "0xe1 # replicate 28 5"] by auto
qed

lemma fromCredentials_views:
  "ap_type (BaseAddress_fromCredentials n p d) \<in> base_types \<and>
   Address_getNetworkId (BaseAddress_fromCredentials n p d) = Some n \<and>
   map_option (\<lambda>x. (ap_paymentPart x, ap_delegationPart x)) (BaseAddress_fromAddress (BaseAddress_fromCredentials n p d)) =
     Some (Some p, Some d)"
  "ap_type (EnterpriseAddress_fromCredentials n p) \<in> {EnterpriseKey, EnterpriseScript} \<and>
   Address_getNetworkId (EnterpriseAddress_fromCredentials n p) = Some n \<and>
   map_option ap_paymentPart (EnterpriseAddress_fromAddress (EnterpriseAddress_fromCredentials n p)) = Some (Some p)"
  "ap_type (RewardAddress_fromCredentials n p) \<in> {RewardKey, RewardScript} \<and>
   Address_getNetworkId (RewardAddress_fromCredentials n p) = Some n \<and>
   map_option ap_paymentPart (RewardAddress_fromAddress (RewardAddress_fromCredentials n p)) = Some (Some p)"
proof -
  have "(14::nat) OR 1 = 15" by code_simp
  then show "ap_type (RewardAddress_fromCredentials n p) \<in> {RewardKey, RewardScript} \<and>
   Address_getNetworkId (RewardAddress_fromCredentials n p) = Some n \<and>
   map_option ap_paymentPart (RewardAddress_fromAddress (RewardAddress_fromCredentials n p)) = Some (Some p)"
    by (cases "cred_type p") (simp_all add: RewardAddress_fromCredentials_def RewardAddress_new_def
        RewardAddress_fromAddress_def Address_getNetworkId_def)
qed (cases "cred_type p"; cases "cred_type d"; simp add: BaseAddress_fromCredentials_def BaseAddress_new_def
    BaseAddress_fromAddress_def EnterpriseAddress_fromCredentials_def EnterpriseAddress_new_def
    EnterpriseAddress_fromAddress_def Address_getNetworkId_def)+

text \<open>The credentials an address is built from can be read from its bytes, as the base,
  enterprise or reward address they make up.\<close>

theorem address_credentials_roundtrip:
  assumes "n < 16" and "length (cred_hash p) = 28" and "length (cred_hash d) = 28"
  shows "(\<exists>b a. Address_toBytes crc32 (BaseAddress_fromCredentials n p d) = Inr b \<and> length b = 57 \<and>
      Address_fromBytes crc32 b = Inr a \<and> Address_getNetworkId a = Some n \<and>
      map_option (\<lambda>x. (ap_paymentPart x, ap_delegationPart x)) (BaseAddress_fromAddress a) = Some (Some p, Some d)) \<and>
    (\<exists>b a. Address_toBytes crc32 (EnterpriseAddress_fromCredentials n p) = Inr b \<and> length b = 29 \<and>
      Address_fromBytes crc32 b = Inr a \<and> Address_getNetworkId a = Some n \<and>
      map_option ap_paymentPart (EnterpriseAddress_fromAddress a) = Some (Some p)) \<and>
    (\<exists>b a. Address_toBytes crc32 (RewardAddress_fromCredentials n p) = Inr b \<and> length b = 29 \<and>
      Address_fromBytes crc32 b = Inr a \<and> Address_getNetworkId a = Some n \<and>
      map_option ap_paymentPart (RewardAddress_fromAddress a) = Some (Some p))"
proof (intro conjI)
  note valid = fromCredentials_valid [OF assms(1,2)]
  show "\<exists>b a. Address_toBytes crc32 (BaseAddress_fromCredentials n p d) = Inr b \<and> length b = 57 \<and>
      Address_fromBytes crc32 b = Inr a \<and> Address_getNetworkId a = Some n \<and>
      map_option (\<lambda>x. (ap_paymentPart x, ap_delegationPart x)) (BaseAddress_fromAddress a) = Some (Some p, Some d)"
    using shelley_roundtrip [OF valid(1) [OF assms(3)], of crc32] fromCredentials_views(1) [of n p d] by auto
  show "\<exists>b a. Address_toBytes crc32 (EnterpriseAddress_fromCredentials n p) = Inr b \<and> length b = 29 \<and>
      Address_fromBytes crc32 b = Inr a \<and> Address_getNetworkId a = Some n \<and>
      map_option ap_paymentPart (EnterpriseAddress_fromAddress a) = Some (Some p)"
    using shelley_roundtrip [OF valid(2), of crc32] fromCredentials_views(2) [of n p] by auto
  show "\<exists>b a. Address_toBytes crc32 (RewardAddress_fromCredentials n p) = Inr b \<and> length b = 29 \<and>
      Address_fromBytes crc32 b = Inr a \<and> Address_getNetworkId a = Some n \<and>
      map_option ap_paymentPart (RewardAddress_fromAddress a) = Some (Some p)"
    using shelley_roundtrip [OF valid(3), of crc32] fromCredentials_views(3) [of n p] by auto
qed

theorem address_credentials_roundtrip_witness:
  "\<exists>b a. Address_toBytes example_crc32 (RewardAddress_fromCredentials 1 \<lparr>cred_type = ScriptHash, cred_hash = replicate 28 3\<rparr>) = Inr b \<and>
     length b = 29 \<and> Address_fromBytes example_crc32 b = Inr a \<and> Address_getNetworkId a = Some 1 \<and>
     map_option ap_paymentPart (RewardAddress_fromAddress a) = Some (Some \<lparr>cred_type = ScriptHash, cred_hash = replicate 28 3\<rparr>)"
  using address_credentials_roundtrip [of 1 "\<lparr>cred_type = ScriptHash, cred_hash = replicate 28 3\<rparr>"
      "\<lparr>cred_type = KeyHash, cred_hash = replicate 28 3\<rparr>" example_crc32] by simp

text \<open>A pointer address built from a script credential gets the type of a base address (the code
  writes \<open>type &= 0b0001\<close>), so it has no bytes: packing it throws a \<open>TypeError\<close>.\<close>

theorem pointer_script_address_has_no_bytes:
  "Address_toBytes crc32 (PointerAddress_fromCredentials n \<lparr>cred_type = ScriptHash, cred_hash = h\<rparr> ptr) = Inl TypeError"
proof -
  have "(4::nat) AND 1 = 0" by code_simp
  then show ?thesis
    by (simp add: PointerAddress_fromCredentials_def PointerAddress_new_def Address_toBytes_def BaseAddress_packParts_def)
qed

end
