(* ===== verification/Cert_Fields.thy ===== *)
theory Cert_Fields
  imports Address
begin

text \<open>
  What the certificate classes share: reading the certificate kind, a credential, a hash, an
  embedded object and an object or \<open>null\<close>, with the matching writes; and the class \<open>DRep\<close>
  (\<open>core/src/Serialization/Certificates/DRep\<close>). The predicate \<open>field_ok\<close> says that a write
  appends one data item that a read gives back; the proofs on certificates compose such fields.
\<close>

subsection \<open>Reads and writes of a field\<close>

definition writeObject :: "bytes result \<Rightarrow> writer_op" where
  "writeObject m w = ebind m (\<lambda>b. writeEncodedValue b w)"

definition writeNullable :: "('a \<Rightarrow> bytes result) \<Rightarrow> 'a option \<Rightarrow> writer_op" where
  "writeNullable f x = (case x of None \<Rightarrow> writeNull | Some a \<Rightarrow> writeObject (f a))"

definition writeCredential :: "Credential \<Rightarrow> writer_op" where
  "writeCredential c = run_ops [writeStartArray (Some 2), writeInt (credentialType_num (cred_type c)),
     writeByteString (cred_hash c)]"

text \<open>\<open>const kind = Number(reader.readInt()); if (kind !== expected) throw new InvalidArgumentError(...)\<close>\<close>

definition expectKind :: "int \<Rightarrow> CborReader \<Rightarrow> CborReader result" where
  "expectKind kind r =
     ebind (readInt r) (\<lambda>(i, r).
     ebind (throw_if (js_Number_int i \<noteq> kind) InvalidArgumentError) (\<lambda>_. Inr r))"

definition readHash :: "nat \<Rightarrow> CborReader \<Rightarrow> (bytes \<times> CborReader) result" where
  "readHash n r = ebind (readByteString r) (\<lambda>(b, r). ebind (typedHash n b) (\<lambda>h. Inr (h, r)))"

definition readCredential :: "CborReader \<Rightarrow> (Credential \<times> CborReader) result" where
  "readCredential r =
     ebind (expectArray 2 r) (\<lambda>r.
     ebind (readCredentialType r) (\<lambda>(type, r).
     ebind (readHash 28 r) (\<lambda>(hash, r).
     ebind (readEndArray r) (\<lambda>r. Inr (\<lparr>cred_type = type, cred_hash = hash\<rparr>, r)))))"

definition readObject :: "(bytes \<Rightarrow> 'a result) \<Rightarrow> CborReader \<Rightarrow> ('a \<times> CborReader) result" where
  "readObject f r = ebind (readEncodedValue r) (\<lambda>(b, r). ebind (f b) (\<lambda>x. Inr (x, r)))"

definition readNullable :: "(bytes \<Rightarrow> 'a result) \<Rightarrow> CborReader \<Rightarrow> ('a option \<times> CborReader) result" where
  "readNullable f r =
     ebind (peekState r) (\<lambda>(state, r).
       if state = NullState then ebind (readNull r) (\<lambda>r. Inr (None, r))
       else ebind (readObject f r) (\<lambda>(x, r). Inr (Some x, r)))"

subsection \<open>Fields that are read back\<close>

definition field_ok :: "writer_op \<Rightarrow> bytes \<Rightarrow> (CborReader \<Rightarrow> ('a \<times> CborReader) result) \<Rightarrow> 'a \<Rightarrow> bool" where
  "field_ok write b read y \<longleftrightarrow> (\<forall>w. write w = Inr (w @ b)) \<and> cbor_item b \<and>
     (\<forall>pre bs fr stk. open_frame fr \<longrightarrow>
        read (rd U pre (b @ bs) fr stk False) = Inr (y, rd U (pre @ b) bs (bumps 1 fr) stk False))"

lemma field_okD:
  assumes "field_ok write b read y"
  shows "write w = Inr (w @ b)" and "cbor_item b"
    and "open_frame fr \<Longrightarrow> read (rd U pre (b @ bs) fr stk False) = Inr (y, rd U (pre @ b) bs (bumps 1 fr) stk False)"
    and "open_frame fr \<Longrightarrow> read (rd U pre b fr stk False) = Inr (y, rd U (pre @ b) [] (bumps 1 fr) stk False)"
proof -
  show "write w = Inr (w @ b)" "cbor_item b" "open_frame fr \<Longrightarrow>
      read (rd U pre (b @ bs) fr stk False) = Inr (y, rd U (pre @ b) bs (bumps 1 fr) stk False)" for w bs
    using assms by (simp_all add: field_ok_def)
  from this(3) [of "[]"] show "open_frame fr \<Longrightarrow>
      read (rd U pre b fr stk False) = Inr (y, rd U (pre @ b) [] (bumps 1 fr) stk False)" by simp
qed

lemma field_int: "cbor_int i \<Longrightarrow> field_ok (writeInt i) (enc_int i) readInt i"
  by (simp add: field_ok_def rd_simps)

lemma field_hash: "length h = n \<Longrightarrow> n < 9007199254740992 \<Longrightarrow> field_ok (writeByteString h) (enc_bytes h) (readHash n) h"
  by (auto simp: field_ok_def readHash_def typedHash_def rd_simps)

lemma field_credential:
  assumes "length (cred_hash c) = 28"
  shows "\<exists>b. field_ok (writeCredential c) b readCredential c"
proof -
  let ?b = "enc_head ArrayType 2 @ enc_int (credentialType_num (cred_type c)) @ enc_bytes (cred_hash c)"
  have "field_ok (writeCredential c) ?b readCredential c"
    using assms by (cases c; cases "cred_type c")
      (simp_all add: field_ok_def writeCredential_def readCredential_def readHash_def readCredentialType_def
        typedHash_def rd_simps cbor_items)
  then show ?thesis ..
qed

lemma field_object:
  assumes "m = Inr b" and "cbor_item b" and "f b = Inr y"
  shows "field_ok (writeObject m) b (readObject f) y"
  using assms by (simp add: field_ok_def writeObject_def writeEncodedValue_def readObject_def rd_simps)

lemma null_byte: "cbor_item [0xf6]" "state_of_initial_byte 0xf6 = NullState"
  "getMajorType 0xf6 = Simple" "getAdditionalInfo 0xf6 = 22"
proof -
  have b: "(0xf6 :: byte) = initial_byte Simple 22" by (simp add: initial_byte_def byte_of_def)
  show "cbor_item [0xf6]" unfolding b by (rule ci_simple) simp
  show "state_of_initial_byte 0xf6 = NullState" unfolding b by (simp add: mapSimpleValueDataToReaderState_def)
  show "getMajorType 0xf6 = Simple" "getAdditionalInfo 0xf6 = 22" unfolding b by simp_all
qed

lemma readNull_rd:
  "open_frame fr \<Longrightarrow> readNull (rd c pre (0xf6 # bs) fr stk tag) = Inr (rd U (pre @ [0xf6]) bs (bumps 1 fr) stk False)"
  by (simp add: readNull_def peekInitialByte_rd null_byte)

text \<open>An object's bytes start with the head of an array, so they are not taken for \<open>null\<close>.\<close>

definition array_headed :: "bytes \<Rightarrow> bool" where
  "array_headed b \<longleftrightarrow> b \<noteq> [] \<and> state_of_initial_byte (hd b) \<noteq> NullState"

lemma array_headed_enc [simp]:
  assumes "n < 18446744073709551616"
  shows "array_headed (enc_head ArrayType n @ bs)" and "array_headed (enc_head ArrayType n)"
  using head_info [OF is_head_enc_head [OF assms, of ArrayType]]
  by (auto simp: array_headed_def state_of_initial_byte_def)

lemma field_nullable:
  assumes "\<And>a. x = Some a \<Longrightarrow> \<exists>b y. f a = Inr b \<and> cbor_item b \<and> array_headed b \<and> g b = Inr y \<and> content y = content a"
  shows "\<exists>b y. field_ok (writeNullable f x) b (readNullable g) y \<and> map_option content y = map_option content x"
proof (cases x)
  case None
  have "field_ok (writeNullable f x) [0xf6] (readNullable g) None"
    using None by (simp add: field_ok_def writeNullable_def readNullable_def null_byte peekState_rd
        peekStateCore_rd readNull_rd)
  then show ?thesis using None by fastforce
next
  case (Some a)
  then obtain b y where b: "f a = Inr b" "cbor_item b" "array_headed b" "g b = Inr y" "content y = content a"
    using assms by blast
  have "field_ok (writeNullable f x) b (readNullable g) (Some y)"
    using b Some by (auto simp: field_ok_def writeNullable_def readNullable_def writeObject_def writeEncodedValue_def
        readObject_def peekState_rd peekStateCore_item array_headed_def readEncodedValue_rd)
  then show ?thesis using b(5) Some by fastforce
qed

subsection \<open>DRep\<close>

datatype DRepKind = DRepKeyHash | DRepScriptHash | DRepAbstain | DRepNoConfidence

fun drepKind_num :: "DRepKind \<Rightarrow> int" where
  "drepKind_num DRepKeyHash = 0"
| "drepKind_num DRepScriptHash = 1"
| "drepKind_num DRepAbstain = 2"
| "drepKind_num DRepNoConfidence = 3"

record DRep =
  dr_credential :: "Credential option"
  dr_kind :: DRepKind
  dr_originalBytes :: "bytes option"

definition DRep_new :: "DRepKind \<Rightarrow> Credential option \<Rightarrow> DRep" where
  "DRep_new kind credential = \<lparr>dr_credential = credential, dr_kind = kind, dr_originalBytes = None\<rparr>"

definition DRep_newKeyHash :: "bytes \<Rightarrow> DRep" where
  "DRep_newKeyHash keyHash = DRep_new DRepKeyHash (Some \<lparr>cred_type = KeyHash, cred_hash = keyHash\<rparr>)"

definition DRep_newScriptHash :: "bytes \<Rightarrow> DRep" where
  "DRep_newScriptHash scriptHash = DRep_new DRepScriptHash (Some \<lparr>cred_type = ScriptHash, cred_hash = scriptHash\<rparr>)"

definition DRep_newAlwaysAbstain :: DRep where
  "DRep_newAlwaysAbstain = DRep_new DRepAbstain None"

definition DRep_newAlwaysNoConfidence :: DRep where
  "DRep_newAlwaysNoConfidence = DRep_new DRepNoConfidence None"

definition DRep_toCbor :: "DRep \<Rightarrow> bytes result" where
  "DRep_toCbor d = cached (dr_originalBytes d)
     (if dr_kind d \<in> {DRepKeyHash, DRepScriptHash}
      then ebind (the_field (dr_credential d)) (\<lambda>c.
             write_all [writeStartArray (Some 2), writeInt (credentialType_num (cred_type c)),
                        writeByteString (cred_hash c)])
      else write_all [writeStartArray (Some 1), writeInt (drepKind_num (dr_kind d))])"

text \<open>The end of the array is only checked for the two kinds without a hash.\<close>

definition DRep_fromCbor :: "bytes \<Rightarrow> DRep result" where
  "DRep_fromCbor cbor =
     ebind (readStartArray (new_reader cbor)) (\<lambda>(_, r).
     ebind (readInt r) (\<lambda>(i, r).
     let kind = js_Number_int i in
     if kind = 0 \<or> kind = 1 then
       ebind (readHash 28 r) (\<lambda>(hash, r).
         Inr (if kind = 0 then DRep_newKeyHash hash else DRep_newScriptHash hash))
     else ebind (readEndArray r) (\<lambda>r.
       if kind = 2 then Inr DRep_newAlwaysAbstain
       else if kind = 3 then Inr DRep_newAlwaysNoConfidence
       else Inl InvalidStateError)))"

datatype Core_DelegateRepresentative = Core_DRepCredential Credential | AlwaysAbstain | AlwaysNoConfidence

definition DRep_toCore :: "DRep \<Rightarrow> Core_DelegateRepresentative option" where
  "DRep_toCore d =
     (if dr_kind d \<in> {DRepKeyHash, DRepScriptHash} then map_option Core_DRepCredential (dr_credential d)
      else if dr_kind d = DRepAbstain then Some AlwaysAbstain else Some AlwaysNoConfidence)"

definition DRep_fromCore :: "Core_DelegateRepresentative \<Rightarrow> DRep" where
  "DRep_fromCore deleg = (case deleg of
       AlwaysAbstain \<Rightarrow> DRep_newAlwaysAbstain
     | AlwaysNoConfidence \<Rightarrow> DRep_newAlwaysNoConfidence
     | Core_DRepCredential c \<Rightarrow>
         (if cred_type c = KeyHash then DRep_newKeyHash (cred_hash c) else DRep_newScriptHash (cred_hash c)))"

definition DRep_toKeyHash :: "DRep \<Rightarrow> bytes option" where
  "DRep_toKeyHash d = (if dr_kind d \<noteq> DRepKeyHash then None else map_option cred_hash (dr_credential d))"

definition DRep_toScriptHash :: "DRep \<Rightarrow> bytes option" where
  "DRep_toScriptHash d = (if dr_kind d \<noteq> DRepScriptHash then None else map_option cred_hash (dr_credential d))"

definition DRep_valid :: "DRep \<Rightarrow> bool" where
  "DRep_valid d \<longleftrightarrow> dr_originalBytes d = None \<and>
     (case dr_credential d of None \<Rightarrow> dr_kind d \<in> {DRepAbstain, DRepNoConfidence}
      | Some c \<Rightarrow> length (cred_hash c) = 28 \<and>
          dr_kind d = (case cred_type c of KeyHash \<Rightarrow> DRepKeyHash | ScriptHash \<Rightarrow> DRepScriptHash))"

lemmas DRep_defs = DRep_new_def DRep_newKeyHash_def DRep_newScriptHash_def DRep_newAlwaysAbstain_def
  DRep_newAlwaysNoConfidence_def

lemma cbor_item_array1: "cbor_item x \<Longrightarrow> cbor_item (enc_head ArrayType (Suc 0) @ x)"
  using cbor_item_array [of "[x]"] by simp

lemma DRep_encodes:
  assumes "DRep_valid d"
  shows "\<exists>b. DRep_toCbor d = Inr b \<and> cbor_item b \<and> DRep_fromCbor b = Inr d"
  using assms
  by (cases d; cases "dr_kind d"; cases "cred_type (the (dr_credential d))")
    (auto simp: DRep_valid_def DRep_toCbor_def DRep_fromCbor_def DRep_defs readHash_def typedHash_def write_all_def
      encode_def rd_simps rd_last cbor_items cbor_item_array1 split: option.splits)

interpretation drep_codec: cbor_codec DRep_toCbor DRep_fromCbor DRep_valid "\<lambda>d. d"
  using DRep_encodes by unfold_locales auto

lemma DRep_core_roundtrip: "DRep_valid d \<Longrightarrow> map_option DRep_fromCore (DRep_toCore d) = Some d"
  by (cases d) (auto simp: DRep_valid_def DRep_toCore_def DRep_fromCore_def DRep_defs split: option.splits CredentialType.splits)

lemma field_drep: "DRep_valid d \<Longrightarrow> \<exists>b. field_ok (writeObject (DRep_toCbor d)) b (readObject DRep_fromCbor) d"
  using DRep_encodes field_object by metis

lemma Anchor_object:
  assumes "Anchor_valid a"
  shows "\<exists>b y. Anchor_toCbor a = Inr b \<and> cbor_item b \<and> array_headed b \<and> Anchor_fromCbor b = Inr y \<and>
    (an_url y, an_dataHash y) = (an_url a, an_dataHash a)"
proof -
  obtain b y where "Anchor_toCbor a = Inr b" "cbor_item b" "Anchor_fromCbor b = Inr y"
    "(an_url y, an_dataHash y) = (an_url a, an_dataHash a)"
    using anchor.encodes [OF assms] by blast
  moreover have "array_headed b"
    using calculation(1) assms Anchor_url_small [OF assms]
    by (auto simp: Anchor_toCbor_def Anchor_valid_def write_all_def encode_def)
  ultimately show ?thesis by blast
qed

abbreviation anchor_content :: "Anchor \<Rightarrow> js_string \<times> bytes" where
  "anchor_content a \<equiv> (an_url a, an_dataHash a)"

lemma field_anchor:
  assumes "\<forall>a. x = Some a \<longrightarrow> Anchor_valid a"
  shows "\<exists>b y. field_ok (writeNullable Anchor_toCbor x) b (readNullable Anchor_fromCbor) y \<and>
    map_option anchor_content y = map_option anchor_content x"
  using assms Anchor_object by (intro field_nullable [where content = anchor_content]) blast

subsection \<open>Classes that start with their kind\<close>

text \<open>
  Certificates, relays and other variants are arrays whose first item is a number that tells the
  variant. The contract of such a class: its bytes start with its kind, and are read back.
\<close>

definition kinded_bytes :: "nat \<Rightarrow> int \<Rightarrow> bytes \<Rightarrow> bytes" where
  "kinded_bytes items kind rest = enc_head ArrayType items @ enc_int kind @ rest"

text \<open>\<open>reader.readStartArray(); const kind = Number(reader.readInt());\<close>\<close>

definition kindOf :: "bytes \<Rightarrow> int result" where
  "kindOf cbor =
     ebind (readStartArray (new_reader cbor)) (\<lambda>(_, r).
     ebind (readInt r) (\<lambda>(i, r). Inr (js_Number_int i)))"

lemma kindOf_bytes:
  assumes "safe_int kind" and "0 < items" and "items < 9007199254740992"
  shows "kindOf (kinded_bytes items kind rest) = Inr kind"
  using assms by (simp add: kindOf_def kinded_bytes_def rd_simps)

locale kinded_codec =
  fixes toCbor :: "'a \<Rightarrow> bytes result"
    and fromCbor :: "bytes \<Rightarrow> 'a result"
    and valid :: "'a \<Rightarrow> bool"
    and content :: "'a \<Rightarrow> 'c"
    and items :: nat
    and kind :: int
  assumes shape: "valid x \<Longrightarrow> \<exists>rest y. toCbor x = Inr (kinded_bytes items kind rest) \<and>
      cbor_item (kinded_bytes items kind rest) \<and> fromCbor (kinded_bytes items kind rest) = Inr y \<and> content y = content x"
    and keeps: "fromCbor b = Inr y \<Longrightarrow> toCbor y = Inr b"
    and sizes: "0 < items" "items < 9007199254740992" "0 \<le> kind" "kind < 24"
begin

lemma kind_read:
  assumes "valid x"
  shows "\<exists>b y. toCbor x = Inr b \<and> cbor_item b \<and> kindOf b = Inr kind \<and> fromCbor b = Inr y \<and> content y = content x"
proof -
  have "safe_int kind" using sizes by simp
  then show ?thesis using shape [OF assms] kindOf_bytes sizes by blast
qed

end

sublocale kinded_codec \<subseteq> codec: caching_codec toCbor fromCbor valid content
proof
  show "valid x \<Longrightarrow> \<exists>b. toCbor x = Inr b \<and> cbor_item b \<and> (\<exists>y. fromCbor b = Inr y \<and> content y = content x)" for x
    using shape by blast
  show "fromCbor b = Inr y \<Longrightarrow> toCbor y = Inr b" for b y
    by (rule keeps)
qed

definition readNumber :: "CborReader \<Rightarrow> (int \<times> CborReader) result" where
  "readNumber r = ebind (readInt r) (\<lambda>(i, r). Inr (js_Number_int i, r))"

lemma field_number: "safe_int i \<Longrightarrow> field_ok (writeInt i) (enc_int i) readNumber i"
  by (simp add: field_ok_def readNumber_def rd_simps)

lemma cbor_item_arrayN:
  "length xs = n \<Longrightarrow> n < 9007199254740992 \<Longrightarrow> list_all cbor_item xs \<Longrightarrow> cbor_item (enc_head ArrayType n @ concat xs)"
  using cbor_item_array [of xs] by (auto simp: list_all_iff)

lemma cbor_item_array4:
  "cbor_item x \<Longrightarrow> cbor_item y \<Longrightarrow> cbor_item z \<Longrightarrow> cbor_item u \<Longrightarrow> cbor_item (enc_head ArrayType 4 @ x @ y @ z @ u)"
  using cbor_item_arrayN [of "[x, y, z, u]" 4] by simp

lemma cbor_item_array5:
  "cbor_item x \<Longrightarrow> cbor_item y \<Longrightarrow> cbor_item z \<Longrightarrow> cbor_item u \<Longrightarrow> cbor_item v \<Longrightarrow>
   cbor_item (enc_head ArrayType 5 @ x @ y @ z @ u @ v)"
  using cbor_item_arrayN [of "[x, y, z, u, v]" 5] by simp

lemmas cert_items = cbor_items cbor_item_array4 cbor_item_array5

lemma expectArray_nonempty: "expectArray n (new_reader b) = Inr r \<Longrightarrow> b \<noteq> []"
  by auto

end
