(* ===== verification/Cbor_Loops.thy ===== *)
theory Cbor_Loops
  imports Cert_Fields
begin

text \<open>
  Loops that read the items of an array or the entries of a map from the reader itself and fold them
  into a state: \<open>while (reader.peekState() !== stop) { \<dots> }\<close>, the form in which values, transaction
  outputs, transaction bodies and most other classes with optional fields are read. \<open>item_ok\<close> and
  \<open>entry_ok\<close> say what one round does on the bytes of one item or entry; the loop then folds the
  rounds.
\<close>

text \<open>
  The loop ends because every round reads something. The recursion stops with an exception when a
  round has not moved the reader; for rounds that make progress this is never the case
  (\<open>readLoop_unfold\<close>).
\<close>

function readLoop ::
    "CborReaderState \<Rightarrow> ('s \<Rightarrow> CborReader \<Rightarrow> ('s \<times> CborReader) result) \<Rightarrow> 's \<Rightarrow> CborReader \<Rightarrow> ('s \<times> CborReader) result" where
  "readLoop stop step s r =
     ebind (peekState r) (\<lambda>(state, r1).
       if state = stop then Inr (s, r1)
       else ebind (step s r1) (\<lambda>(s', r2).
         if reader_size r2 < reader_size r then readLoop stop step s' r2 else Inl InvalidStateError))"
  by pat_completeness auto
termination
  by (relation "measure (\<lambda>(stop, step, s, r). reader_size r)") auto

declare readLoop.simps [simp del]

lemma readLoop_unfold:
  assumes "\<And>s r s' r'. step s r = Inr (s', r') \<Longrightarrow> progress r r'"
  shows "readLoop stop step s r =
     ebind (peekState r) (\<lambda>(state, r1).
       if state = stop then Inr (s, r1) else ebind (step s r1) (\<lambda>(s', r2). readLoop stop step s' r2))"
  by (subst readLoop.simps, rule ebind_cong [OF refl])
    (auto intro!: ebind_cong dest!: assms peekState_reader_size simp: progress_def)

text \<open>Like \<open>progress\<close>, but nothing need have been read.\<close>

definition no_regress :: "CborReader \<Rightarrow> CborReader \<Rightarrow> bool" where
  "no_regress r r' \<longleftrightarrow> rd_data r' = rd_data r \<and> rd_offset r \<le> rd_offset r' \<and>
     (rd_offset r' = rd_offset r \<or> rd_offset r' \<le> length (rd_data r)) \<and>
     reader_size r' \<le> reader_size r"

lemma no_regress_trans:
  "no_regress r r' \<Longrightarrow> no_regress r' r'' \<Longrightarrow> no_regress r r''"
  "progress r r' \<Longrightarrow> no_regress r' r'' \<Longrightarrow> progress r r''"
  "no_regress r r' \<Longrightarrow> progress r' r'' \<Longrightarrow> progress r r''"
  by (auto simp: no_regress_def progress_def)

lemma progress_no_regress: "progress r r' \<Longrightarrow> no_regress r r'"
  by (auto simp: no_regress_def progress_def)

lemma peekState_no_regress: "peekState r = Inr (s, r') \<Longrightarrow> no_regress r r'"
  using peekState_size [of r s r'] by (auto simp: no_regress_def reader_size_def)

lemma readLoop_no_regress:
  assumes "\<And>s r s' r'. step s r = Inr (s', r') \<Longrightarrow> progress r r'" and "readLoop stop step s r = Inr (s', r')"
  shows "no_regress r r'"
  using assms
proof (induction stop step s r rule: readLoop.induct)
  case (1 stop step s r)
  from "1.prems"(2) obtain state r1 where peek: "peekState r = Inr (state, r1)"
    and rest: "(if state = stop then Inr (s, r1)
      else ebind (step s r1) (\<lambda>(s', r2). readLoop stop step s' r2)) = Inr (s', r')"
    by (subst (asm) readLoop_unfold [OF "1.prems"(1)]) auto
  show ?case
  proof (cases "state = stop")
    case True
    with rest peekState_no_regress [OF peek] show ?thesis by simp
  next
    case False
    with rest obtain s2 r2 where step: "step s r1 = Inr (s2, r2)" "readLoop stop step s2 r2 = Inr (s', r')" by auto
    have "progress r r2"
      using peekState_no_regress [OF peek] "1.prems"(1) [OF step(1)] by (rule no_regress_trans(3))
    moreover have "no_regress r2 r'"
      using "1.IH" [OF peek refl False step(1) refl _ "1.prems"(1) step(2)] calculation by (simp add: progress_def)
    ultimately show ?thesis using progress_no_regress no_regress_trans(1) by blast
  qed
qed

subsection \<open>One round\<close>

definition item_ok :: "('s \<Rightarrow> CborReader \<Rightarrow> ('s \<times> CborReader) result) \<Rightarrow> bytes \<Rightarrow> ('s \<Rightarrow> 's) \<Rightarrow> bool" where
  "item_ok step b upd \<longleftrightarrow> cbor_item b \<and>
     (\<forall>s c pre bs fr stk. open_frame fr \<longrightarrow>
        step s (rd c pre (b @ bs) fr stk False) = Inr (upd s, rd U (pre @ b) bs (bumps 1 fr) stk False))"

definition entry_ok ::
    "('s \<Rightarrow> CborReader \<Rightarrow> ('s \<times> CborReader) result) \<Rightarrow> bytes \<times> bytes \<Rightarrow> ('s \<Rightarrow> 's) \<Rightarrow> bool" where
  "entry_ok step kv upd \<longleftrightarrow> cbor_item (fst kv) \<and> cbor_item (snd kv) \<and>
     (\<forall>s c pre bs fr stk. open_frame fr \<longrightarrow> open_frame (bumps 1 fr) \<longrightarrow>
        step s (rd c pre (fst kv @ snd kv @ bs) fr stk False) =
          Inr (upd s, rd U (pre @ fst kv @ snd kv) bs (bumps 2 fr) stk False))"

lemma reader_size_shrinks:
  assumes "cbor_item b" and "fr' = bumps k fr"
  shows "reader_size (rd c pre (b @ bs) fr stk t) > reader_size (rd c' (pre @ b) bs fr' stk t')"
  using cbor_item_hd(1) [OF assms(1)] by (simp add: reader_size_def rd_def)

lemma readLoop_item:
  assumes "item_ok step b upd" and "open_frame fr" and "stop \<in> {EndArray, EndMap}"
  shows "readLoop stop step s (rd U pre (b @ bs) fr stk False) =
    readLoop stop step (upd s) (rd U (pre @ b) bs (bumps 1 fr) stk False)"
  using assms reader_size_shrinks [of b _ 1 fr U pre bs stk False U False]
  by (subst readLoop.simps) (auto simp: item_ok_def peekState_rd peekStateCore_item)

lemma readLoop_entry:
  assumes "entry_ok step kv upd" and "open_frame fr" and "open_frame (bumps 1 fr)" and "stop \<in> {EndArray, EndMap}"
  shows "readLoop stop step s (rd U pre (fst kv @ snd kv @ bs) fr stk False) =
    readLoop stop step (upd s) (rd U (pre @ fst kv @ snd kv) bs (bumps 2 fr) stk False)"
proof -
  have "reader_size (rd U pre (fst kv @ snd kv @ bs) fr stk False) >
      reader_size (rd U (pre @ fst kv @ snd kv) bs (bumps 2 fr) stk False)"
    using assms(1) cbor_item_hd(1) [of "fst kv"] by (simp add: entry_ok_def reader_size_def rd_def)
  with assms show ?thesis
    by (subst readLoop.simps) (auto simp: entry_ok_def peekState_rd peekStateCore_item)
qed

subsection \<open>All rounds\<close>

lemma readLoop_items [rd_simps]:
  assumes "list_all2 (item_ok step) xs upds" and "n = k + length xs"
  shows "readLoop EndArray step s (rd U pre (concat xs @ bs) (arr_frame off (Some n) k) stk False) =
    Inr (foldl (\<lambda>s upd. upd s) s upds, rd EndArray (pre @ concat xs) bs (arr_frame off (Some n) n) stk False)"
  using assms
proof (induction xs upds arbitrary: pre k s rule: list_all2_induct)
  case Nil
  then show ?case by (subst readLoop.simps) (simp add: peekState_rd peekStateCore_ends)
next
  case (Cons x xs upd upds)
  then show ?case by (simp add: readLoop_item)
qed

lemma readLoop_items_indefinite [rd_simps]:
  assumes "list_all2 (item_ok step) xs upds"
  shows "readLoop EndArray step s (rd U pre (concat xs @ 0xff # bs) (arr_frame off None k) stk False) =
    Inr (foldl (\<lambda>s upd. upd s) s upds,
      rd EndArray (pre @ concat xs) (0xff # bs) (arr_frame off None (k + length xs)) stk False)"
  using assms
proof (induction xs upds arbitrary: pre k s rule: list_all2_induct)
  case Nil
  then show ?case by (subst readLoop.simps) (simp add: peekState_rd peekStateCore_ends)
next
  case (Cons x xs upd upds)
  then show ?case by (simp add: readLoop_item)
qed

lemma readLoop_entries [rd_simps]:
  assumes "list_all2 (entry_ok step) xs upds" and "n = k + 2 * length xs"
  shows "readLoop EndMap step s (rd U pre (concat (flat xs) @ bs) (map_frame off (Some n) k) stk False) =
    Inr (foldl (\<lambda>s upd. upd s) s upds, rd EndMap (pre @ concat (flat xs)) bs (map_frame off (Some n) n) stk False)"
  using assms
proof (induction xs upds arbitrary: pre k s rule: list_all2_induct)
  case Nil
  then show ?case by (subst readLoop.simps) (simp add: peekState_rd peekStateCore_ends)
next
  case (Cons x xs upd upds)
  have "flat (x # xs) = fst x # snd x # flat xs" by (cases x) simp
  with Cons show ?case by (simp add: readLoop_entry)
qed

lemma entries_items: "list_all2 (entry_ok step) xs upds \<Longrightarrow> \<forall>x \<in> set (flat xs). cbor_item x"
  by (induction rule: list_all2_induct) (auto simp: entry_ok_def)

lemma items_items: "list_all2 (item_ok step) xs upds \<Longrightarrow> \<forall>x \<in> set xs. cbor_item x"
  by (induction rule: list_all2_induct) (auto simp: item_ok_def)

text \<open>Looking ahead in an empty buffer; then no container starts.\<close>

lemma peekState_empty [simp]:
  "peekState (new_reader []) = Inr (Finished, (new_reader [])\<lparr>cachedState := Finished\<rparr>)"
  by (simp add: peekState_def peekStateCore_def new_reader_def root_frame_def at_definite_end_def)

lemma empty_reads_cached [simp]:
  "readStartArray ((new_reader [])\<lparr>cachedState := s\<rparr>) = Inl (CborContentException UnexpectedEndOfBuffer)"
  "readStartMap ((new_reader [])\<lparr>cachedState := s\<rparr>) = Inl (CborContentException UnexpectedEndOfBuffer)"
  by (simp_all add: readStartArray_def readStartMap_def peekInitialByte_def new_reader_def root_frame_def at_definite_end_def)

text \<open>A whole map that is read this way.\<close>

definition readMapWith ::
    "('s \<Rightarrow> CborReader \<Rightarrow> ('s \<times> CborReader) result) \<Rightarrow> 's \<Rightarrow> CborReader \<Rightarrow> ('s \<times> CborReader) result" where
  "readMapWith step s r =
     ebind (readStartMap r) (\<lambda>(_, r).
     ebind (readLoop EndMap step s r) (\<lambda>(s, r).
     ebind (readEndMap r) (\<lambda>r. Inr (s, r))))"

definition readArrayWith ::
    "('s \<Rightarrow> CborReader \<Rightarrow> ('s \<times> CborReader) result) \<Rightarrow> 's \<Rightarrow> CborReader \<Rightarrow> ('s \<times> CborReader) result" where
  "readArrayWith step s r =
     ebind (readStartArray r) (\<lambda>(_, r).
     ebind (readLoop EndArray step s r) (\<lambda>(s, r).
     ebind (readEndArray r) (\<lambda>r. Inr (s, r))))"

lemma readMapWith_rd [rd_simps]:
  assumes "list_all2 (entry_ok step) xs upds" and "length xs < 4503599627370496" and "open_frame fr"
  shows "readMapWith step s (rd c pre (enc_head MapType (length xs) @ concat (flat xs) @ bs) fr stk tag) =
    Inr (foldl (\<lambda>s upd. upd s) s upds,
      rd U (pre @ enc_head MapType (length xs) @ concat (flat xs)) bs (bumps 1 fr) stk False)"
proof -
  have "2 * length xs \<le> length (concat (flat xs))"
    using length_concat_items [OF entries_items [OF assms(1)]] by simp
  with assms show ?thesis by (simp add: readMapWith_def rd_simps)
qed

lemma map_item:
  assumes "list_all2 (entry_ok step) xs upds" and "length xs < 4503599627370496"
  shows "cbor_item (enc_head MapType (length xs) @ concat (flat xs))"
  using ci_map [of "length xs" _ "flat xs"] entries_items [OF assms(1)] assms(2) by simp

lemma readArrayWith_rd [rd_simps]:
  assumes "list_all2 (item_ok step) xs upds" and "length xs < 9007199254740992" and "open_frame fr"
  shows "readArrayWith step s (rd c pre (enc_head ArrayType (length xs) @ concat xs @ bs) fr stk tag) =
    Inr (foldl (\<lambda>s upd. upd s) s upds,
      rd U (pre @ enc_head ArrayType (length xs) @ concat xs) bs (bumps 1 fr) stk False)"
  using assms by (simp add: readArrayWith_def rd_simps)

lemma readMapWith_empty [simp]: "readMapWith step s (new_reader []) = Inl (CborContentException UnexpectedEndOfBuffer)"
  by (simp add: readMapWith_def)

lemma readMapWith_progress:
  assumes "\<And>s r s' r'. step s r = Inr (s', r') \<Longrightarrow> progress r r'" and "readMapWith step s r = Inr (s', r')"
  shows "progress r r'"
proof -
  from assms(2) obtain l r1 r2 where r: "readStartMap r = Inr (l, r1)" "readLoop EndMap step s r1 = Inr (s', r2)"
    "readEndMap r2 = Inr r'" by (auto simp: readMapWith_def)
  have "progress r r2"
    using readStart_progress(2) [OF r(1)] readLoop_no_regress [OF assms(1) r(2)] by (rule no_regress_trans(2))
  then show ?thesis using readEnd_progress(2) [OF r(3)] by (rule progress_trans)
qed

subsection \<open>Maps of optional fields\<close>

text \<open>
  A class with optional fields is written as a map with a number per field that is present, and read
  by a loop that sets the field of the number. \<open>fields_ok step ops b upd n\<close>: the operations \<open>ops\<close>
  append the bytes \<open>b\<close> of \<open>n\<close> entries, and the rounds that read them make \<open>upd\<close> of the state.
\<close>

definition writes :: "('a \<Rightarrow> writer_op) \<Rightarrow> 'a option \<Rightarrow> writer_op list" where
  "writes f x = (case x of None \<Rightarrow> [] | Some a \<Rightarrow> [f a])"

definition set_opt :: "('a \<Rightarrow> 's \<Rightarrow> 's) \<Rightarrow> 'a option \<Rightarrow> 's \<Rightarrow> 's" where
  "set_opt upd x s = (case x of None \<Rightarrow> s | Some a \<Rightarrow> upd a s)"

definition fields_ok ::
    "('s \<Rightarrow> CborReader \<Rightarrow> ('s \<times> CborReader) result) \<Rightarrow> writer_op list \<Rightarrow> bytes \<Rightarrow> ('s \<Rightarrow> 's) \<Rightarrow> nat \<Rightarrow> bool" where
  "fields_ok step ops b upd n \<longleftrightarrow> (\<forall>w. run_ops ops w = Inr (w @ b)) \<and>
     (\<exists>xs upds. list_all2 (entry_ok step) xs upds \<and> length xs = n \<and> b = concat (flat xs) \<and>
        upd = (\<lambda>s. foldl (\<lambda>s upd. upd s) s upds))"

lemma fields_ok_Nil: "fields_ok step [] [] (\<lambda>s. s) 0"
  unfolding fields_ok_def by (intro conjI exI [of _ "[]"]) simp_all

lemma flat_append: "flat (xs @ ys) = flat xs @ flat ys"
  by (simp add: flat_def)

lemma fields_ok_append:
  assumes "fields_ok step ops b upd n" and "fields_ok step ops' b' upd' n'"
  shows "fields_ok step (ops @ ops') (b @ b') (\<lambda>s. upd' (upd s)) (n + n')"
proof -
  obtain xs upds where 1: "list_all2 (entry_ok step) xs upds" "length xs = n" "b = concat (flat xs)"
    "upd = (\<lambda>s. foldl (\<lambda>s upd. upd s) s upds)" using assms(1) by (auto simp: fields_ok_def)
  obtain xs' upds' where 2: "list_all2 (entry_ok step) xs' upds'" "length xs' = n'" "b' = concat (flat xs')"
    "upd' = (\<lambda>s. foldl (\<lambda>s upd. upd s) s upds')" using assms(2) by (auto simp: fields_ok_def)
  have "\<forall>w. run_ops (ops @ ops') w = Inr (w @ b @ b')"
    using assms by (simp add: fields_ok_def run_ops_append)
  moreover have "list_all2 (entry_ok step) (xs @ xs') (upds @ upds')" using 1(1) 2(1) by (rule list_all2_appendI)
  ultimately show ?thesis
    unfolding fields_ok_def using 1 2
    by (intro conjI exI [of _ "xs @ xs'"] exI [of _ "upds @ upds'"]) (simp_all add: flat_append)
qed

text \<open>A field that is always there, and one that may be missing.\<close>

lemma fields_ok_single:
  assumes "\<And>w. f w = Inr (w @ k @ b)" and "entry_ok step (k, b) upd"
  shows "fields_ok step [f] (k @ b) upd 1"
  unfolding fields_ok_def using assms
  by (intro conjI exI [of _ "[(k, b)]"] exI [of _ "[upd]"]) simp_all

lemma fields_ok_optional:
  assumes "\<And>a. x = Some a \<Longrightarrow> \<exists>b y. (\<forall>w. f a w = Inr (w @ k @ b)) \<and> entry_ok step (k, b) (upd y) \<and> content y = content a"
  shows "\<exists>b y. fields_ok step (writes f x) b (set_opt upd y) (if x = None then 0 else 1) \<and>
    map_option content y = map_option content x"
proof (cases x)
  case None
  then show ?thesis
    using fields_ok_Nil by (intro exI [of _ "[]"] exI [of _ None]) (simp add: writes_def set_opt_def [abs_def])
next
  case (Some a)
  with assms obtain b y where b: "\<And>w. f a w = Inr (w @ k @ b)" "entry_ok step (k, b) (upd y)" "content y = content a" by blast
  have "set_opt upd (Some y) = upd y" by (simp add: set_opt_def [abs_def])
  with fields_ok_single [of "f a", OF b(1,2)] b(3) Some show ?thesis
    by (intro exI [of _ "k @ b"] exI [of _ "Some y"]) (simp add: writes_def)
qed

lemma fields_run: "fields_ok step ops b upd n \<Longrightarrow> run_ops ops w = Inr (w @ b)"
  by (simp add: fields_ok_def)

lemma fields_item: "fields_ok step ops b upd n \<Longrightarrow> n < 4503599627370496 \<Longrightarrow> cbor_item (enc_head MapType n @ b)"
  using map_item by (auto simp: fields_ok_def)

lemma fields_read:
  assumes "fields_ok step ops b upd n" and "n < 4503599627370496" and "open_frame fr"
  shows "readMapWith step s (rd c pre (enc_head MapType n @ b @ bs) fr stk tag) =
    Inr (upd s, rd U (pre @ enc_head MapType n @ b) bs (bumps 1 fr) stk False)"
  using assms readMapWith_rd [where step = step] by (auto simp: fields_ok_def)

end
