(* ===== verification/Multi_Asset.thy ===== *)
theory Multi_Asset
  imports Cbor_Loops Js_Collections
begin

text \<open>
  Token maps of the serialization layer: asset ids (\<open>core/src/Cardano/types/Asset.ts\<close>), the canonical
  order of map keys and the grouping of a token map by policy
  (\<open>core/src/Serialization/TransactionBody/Utils.ts\<close>). A hex string is the bytes it denotes. The
  lemmas say that grouping and flattening keep the entries, and that the canonical order depends on
  the entries only.
\<close>

type_synonym asset = bytes
type_synonym tokens = "(asset \<times> int) list"
type_synonym multiassets = "(bytes \<times> (bytes \<times> int) list) list"

subsection \<open>Asset ids\<close>

definition AssetName :: "bytes \<Rightarrow> bytes result" where
  "AssetName v = (if 32 < length v then Inl InvalidStringError else Inr v)"

definition AssetId :: "bytes \<Rightarrow> asset result" where
  "AssetId v = (if 60 < length v then Inl InvalidStringError
     else if length v < 28 then Inl InvalidStringError else Inr v)"

definition AssetId_getPolicyId :: "asset \<Rightarrow> bytes result" where
  "AssetId_getPolicyId i = typedHash 28 (take 28 i)"

definition AssetId_getAssetName :: "asset \<Rightarrow> bytes result" where
  "AssetId_getAssetName i = AssetName (drop 28 i)"

definition AssetId_fromParts :: "bytes \<Rightarrow> bytes \<Rightarrow> asset result" where
  "AssetId_fromParts policyId assetName = AssetId (policyId @ assetName)"

subsection \<open>The canonical order\<close>

definition sortCanonically :: "bytes \<times> 'a \<Rightarrow> bytes \<times> 'b \<Rightarrow> int" where
  "sortCanonically lhs rhs =
     (if length (fst lhs) = length (fst rhs) then (if ord_class.lexordp (fst rhs) (fst lhs) then 1 else - 1)
      else if length (fst rhs) < length (fst lhs) then 1 else - 1)"

subsection \<open>Grouping by policy\<close>

definition ma_get :: "multiassets \<Rightarrow> bytes \<Rightarrow> (bytes \<times> int) list" where
  "ma_get m policy = (case map_of m policy of None \<Rightarrow> [] | Some as \<Rightarrow> as)"

text \<open>\<open>if (!multiassets.has(policy)) multiassets.set(policy, new Map()); multiassets.get(policy)!.set(name, quantity)\<close>\<close>

definition ma_add :: "bytes \<Rightarrow> bytes \<Rightarrow> int \<Rightarrow> multiassets \<Rightarrow> multiassets" where
  "ma_add policy name quantity m = map_set policy (map_set name quantity (ma_get m policy)) m"

definition addToken :: "multiassets \<Rightarrow> asset \<times> int \<Rightarrow> multiassets result" where
  "addToken m t =
     ebind (AssetId_getPolicyId (fst t)) (\<lambda>policyId.
     ebind (AssetId_getAssetName (fst t)) (\<lambda>assetName.
       Inr (ma_add policyId assetName (snd t) m)))"

definition tokenMapToMultiAsset :: "tokens \<Rightarrow> multiassets result" where
  "tokenMapToMultiAsset tokenMap = efoldl addToken [] (new_Map (js_sort sortCanonically tokenMap))"

definition addAsset :: "bytes \<Rightarrow> tokens \<Rightarrow> bytes \<times> int \<Rightarrow> tokens result" where
  "addAsset scriptHash tokenMap asset =
     ebind (AssetId_fromParts scriptHash (fst asset)) (\<lambda>assetId. Inr (map_set assetId (snd asset) tokenMap))"

definition multiAssetsToTokenMap :: "multiassets \<Rightarrow> tokens result" where
  "multiAssetsToTokenMap multiassets =
     efoldl (\<lambda>tokenMap (scriptHash, assets). efoldl (addAsset scriptHash) tokenMap assets) [] multiassets"

subsection \<open>The canonical order is a total order of the keys\<close>

lemma sortCanonically_le:
  "sortCanonically x y \<le> 0 \<longleftrightarrow> length (fst x) < length (fst y) \<or>
     length (fst x) = length (fst y) \<and> \<not> ord_class.lexordp (fst y) (fst x)"
  by (auto simp: sortCanonically_def)

interpretation canonical: comparator "\<lambda>_ :: unit. sortCanonically" "\<lambda>_. True"
proof
  fix x y z :: "bytes \<times> 'a"
  show "sortCanonically x y \<le> 0 \<or> sortCanonically y x \<le> 0"
    using lexordp_antisym by (auto simp: sortCanonically_le)
  show "sortCanonically x z \<le> 0" if "sortCanonically x y \<le> 0" "sortCanonically y z \<le> 0"
  proof (cases "length (fst x) = length (fst y) \<and> length (fst y) = length (fst z)")
    case True
    with that have "\<not> ord_class.lexordp (fst y) (fst x)" "\<not> ord_class.lexordp (fst z) (fst y)" by (simp_all add: sortCanonically_le)
    then have "\<not> ord_class.lexordp (fst z) (fst x)"
      using lexordp_linear [of "fst x" "fst y"] lexordp_trans [of "fst z" "fst x" "fst y"] by auto
    with True show ?thesis by (simp add: sortCanonically_le)
  qed (use that in \<open>auto simp: sortCanonically_le\<close>)
qed

lemma sortCanonically_antisym:
  "sortCanonically x y \<le> 0 \<Longrightarrow> sortCanonically y x \<le> 0 \<Longrightarrow> fst x = fst y"
  using lexordp_linear [of "fst x" "fst y"] by (auto simp: sortCanonically_le)

text \<open>So the order of a sorted map does not depend on the order in which it was filled.\<close>

lemma js_sort_canonical_unique:
  assumes "distinct (map fst xs)" and "mset xs = mset ys"
  shows "js_sort sortCanonically xs = js_sort sortCanonically ys"
proof (rule sorted_wrt_unique)
  show "sorted_wrt (\<lambda>x y. sortCanonically x y \<le> 0) (js_sort sortCanonically xs)"
    and "sorted_wrt (\<lambda>x y. sortCanonically x y \<le> 0) (js_sort sortCanonically ys)"
    using canonical.sorted_js_sort by auto
  show "mset (js_sort sortCanonically xs) = mset (js_sort sortCanonically ys)" using assms(2) by simp
  show "x = y" if "x \<in> set (js_sort sortCanonically xs)" "y \<in> set (js_sort sortCanonically xs)"
    "sortCanonically x y \<le> 0" "sortCanonically y x \<le> 0" for x y
    using sortCanonically_antisym [OF that(3,4)] that(1,2) assms(1) by (auto simp: distinct_map inj_on_def)
qed

lemma distinct_keys_mset: "mset xs = mset ys \<Longrightarrow> distinct (map fst xs) = distinct (map fst ys)"
  by (metis mset_eq_imp_distinct_iff mset_map)

lemma distinct_js_sort [simp]: "distinct (map fst (js_sort cmp xs)) = distinct (map fst xs)"
  by (rule distinct_keys_mset) simp

lemma length_js_sort [simp]: "length (js_sort cmp xs) = length xs"
  by (metis mset_js_sort size_mset)

lemma js_sort_Nil_iff [simp]: "js_sort cmp xs = [] \<longleftrightarrow> xs = []"
  by (metis length_0_conv length_js_sort)

subsection \<open>Grouping and flattening keep the entries\<close>

definition tokens_ok :: "tokens \<Rightarrow> bool" where
  "tokens_ok tm \<longleftrightarrow> distinct (map fst tm) \<and> list_all (\<lambda>(i, q). 28 \<le> length i \<and> length i \<le> 60) tm"

definition ma_ok :: "multiassets \<Rightarrow> bool" where
  "ma_ok m \<longleftrightarrow> distinct (map fst m) \<and>
     list_all (\<lambda>(p, as). length p = 28 \<and> as \<noteq> [] \<and> distinct (map fst as) \<and> list_all (\<lambda>(n, q). length n \<le> 32) as) m"

definition policy_tokens :: "bytes \<times> (bytes \<times> int) list \<Rightarrow> tokens" where
  "policy_tokens e = map (\<lambda>(n, q). (fst e @ n, q)) (snd e)"

definition flatten :: "multiassets \<Rightarrow> tokens" where
  "flatten m = concat (map policy_tokens m)"

lemma flatten_simps [simp]:
  "flatten [] = []" "flatten (e # m) = policy_tokens e @ flatten m" "flatten (m @ m') = flatten m @ flatten m'"
  by (simp_all add: flatten_def)

lemma map_set_split:
  "k \<notin> fst ` set m1 \<Longrightarrow> map_set k v (m1 @ (k, v') # m2) = m1 @ (k, v) # m2"
  by (induction m1) auto

lemma map_of_split: "map_of m k = Some v \<Longrightarrow> \<exists>m1 m2. m = m1 @ (k, v) # m2 \<and> k \<notin> fst ` set m1"
proof (induction m)
  case (Cons e m)
  show ?case
  proof (cases "fst e = k")
    case True
    with Cons.prems show ?thesis by (intro exI [of _ "[]"] exI [of _ m]) (cases e, auto)
  next
    case False
    with Cons obtain m1 m2 where "m = m1 @ (k, v) # m2" "k \<notin> fst ` set m1" by (cases e) auto
    with False show ?thesis by (intro exI [of _ "e # m1"] exI [of _ m2]) auto
  qed
qed simp

lemma ma_add_ok:
  assumes "ma_ok m" and "length p = 28" and "length n \<le> 32" and "(p @ n) \<notin> fst ` set (flatten m)"
  shows "ma_ok (ma_add p n q m)" and "mset (flatten (ma_add p n q m)) = add_mset (p @ n, q) (mset (flatten m))"
proof -
  have "ma_ok (ma_add p n q m) \<and> mset (flatten (ma_add p n q m)) = add_mset (p @ n, q) (mset (flatten m))"
  proof (cases "map_of m p")
    case None
    then have "p \<notin> fst ` set m" by (simp add: map_of_eq_None_iff)
    then have "ma_add p n q m = m @ [(p, [(n, q)])]" using None by (simp add: ma_add_def ma_get_def)
    moreover have "ma_ok (m @ [(p, [(n, q)])])"
      using assms(1,2,3) \<open>p \<notin> fst ` set m\<close> by (simp add: ma_ok_def)
    ultimately show ?thesis by (simp add: policy_tokens_def)
  next
    case (Some as)
    from map_of_split [OF Some] obtain m1 m2 where m: "m = m1 @ (p, as) # m2" "p \<notin> fst ` set m1" by auto
    have n: "n \<notin> fst ` set as"
    proof
      assume "n \<in> fst ` set as"
      then obtain r where "(n, r) \<in> set as" by auto
      then have "(p @ n, r) \<in> set (policy_tokens (p, as))"
        unfolding policy_tokens_def set_map snd_conv by (rule rev_image_eqI) simp
      then have "(p @ n, r) \<in> set (flatten m)" unfolding m by simp
      then have "p @ n \<in> fst ` set (flatten m)" by (rule rev_image_eqI) simp
      with assms(4) show False by contradiction
    qed
    then have "ma_add p n q m = m1 @ (p, as @ [(n, q)]) # m2"
      using Some m(2) unfolding ma_add_def ma_get_def m(1) by (simp add: map_set_split)
    moreover have "ma_ok (m1 @ (p, as @ [(n, q)]) # m2)"
      using assms(1,3) n unfolding m ma_ok_def by simp
    ultimately show ?thesis by (simp add: m policy_tokens_def)
  qed
  then show "ma_ok (ma_add p n q m)" and "mset (flatten (ma_add p n q m)) = add_mset (p @ n, q) (mset (flatten m))"
    by simp_all
qed

lemma group_tokens:
  assumes "tokens_ok tm" and "ma_ok m" and "fst ` set tm \<inter> fst ` set (flatten m) = {}"
  shows "\<exists>m'. efoldl addToken m tm = Inr m' \<and>
     ma_ok m' \<and> mset (flatten m') = mset tm + mset (flatten m)"
  using assms
proof (induction tm arbitrary: m)
  case (Cons t tm)
  obtain i q where t: "t = (i, q)" by force
  let ?p = "take 28 i" and ?n = "drop 28 i"
  have len: "length ?p = 28" "length ?n \<le> 32" "28 \<le> length i" "length i \<le> 60"
    using Cons.prems(1) t by (auto simp: tokens_ok_def)
  note add = ma_add_ok [OF Cons.prems(2) len(1,2), of q]
  have fresh: "?p @ ?n \<notin> fst ` set (flatten m)" using Cons.prems(3) t by simp
  have set': "set (flatten (ma_add ?p ?n q m)) = insert (i, q) (set (flatten m))"
    using add(2) [OF fresh] by (metis append_take_drop_id set_mset_add_mset_insert set_mset_mset)
  have "tokens_ok tm" "fst ` set tm \<inter> fst ` set (flatten (ma_add ?p ?n q m)) = {}"
    using Cons.prems(1,3) t unfolding set' by (auto simp: tokens_ok_def)
  from Cons.IH [OF this(1) add(1) [OF fresh] this(2)] add(2) [OF fresh] len show ?case
    by (simp add: t addToken_def AssetId_getPolicyId_def AssetId_getAssetName_def typedHash_def AssetName_def)
qed simp

lemma tokenMapToMultiAsset_ok:
  assumes "tokens_ok tm"
  shows "\<exists>m. tokenMapToMultiAsset tm = Inr m \<and> ma_ok m \<and> mset (flatten m) = mset tm"
proof -
  let ?S = "js_sort sortCanonically tm"
  have "tokens_ok ?S" using assms by (simp add: tokens_ok_def list_all_iff)
  then have "tokens_ok ?S" "new_Map ?S = ?S" by (simp_all add: tokens_ok_def)
  with group_tokens [of ?S "[]"] show ?thesis by (simp add: tokenMapToMultiAsset_def ma_ok_def)
qed

lemma addAssets_ok:
  assumes "length p = 28" and "list_all (\<lambda>(n, q). length n \<le> 32) as" and "distinct (map fst (tm @ policy_tokens (p, as)))"
  shows "efoldl (addAsset p) tm as = Inr (tm @ policy_tokens (p, as))"
  using assms(2,3)
proof (induction as arbitrary: tm)
  case (Cons a as)
  obtain n q where a: "a = (n, q)" by force
  have "addAsset p tm a = Inr (tm @ [(p @ n, q)])"
    using Cons.prems assms(1) by (simp add: a addAsset_def AssetId_fromParts_def AssetId_def policy_tokens_def)
  with Cons.IH [of "tm @ [(p @ n, q)]"] Cons.prems show ?case by (simp add: a policy_tokens_def)
qed (simp add: policy_tokens_def)

lemma policy_keys: "x \<in> fst ` set (policy_tokens (p, as)) \<Longrightarrow> \<exists>n. x = p @ n"
  by (auto simp: policy_tokens_def)

lemma distinct_policy_tokens: "distinct (map fst (policy_tokens (p, as))) = distinct (map fst as)"
proof -
  have "map fst (policy_tokens (p, as)) = map ((@) p) (map fst as)" by (simp add: policy_tokens_def case_prod_beta)
  then show ?thesis by (simp only: distinct_map [of "(@) p"]) (simp add: inj_on_def)
qed

lemma flatten_keys: "x \<in> fst ` set (flatten m) \<Longrightarrow> \<exists>p n. p \<in> fst ` set m \<and> x = p @ n"
proof (induction m)
  case (Cons e m)
  then show ?case using policy_keys [of x "fst e" "snd e"] by auto
qed simp

lemma distinct_flatten: "ma_ok m \<Longrightarrow> distinct (map fst (flatten m))"
proof (induction m)
  case (Cons e m)
  obtain p as where e: "e = (p, as)" by force
  have ok: "ma_ok m" "length p = 28" "distinct (map fst as)" "p \<notin> fst ` set m" "\<forall>p' \<in> fst ` set m. length p' = 28"
    using Cons.prems e by (auto simp: ma_ok_def list_all_iff)
  have "fst ` set (policy_tokens (p, as)) \<inter> fst ` set (flatten m) = {}"
  proof (intro equals0I)
    fix x assume "x \<in> fst ` set (policy_tokens (p, as)) \<inter> fst ` set (flatten m)"
    then obtain n p' n' where "x = p @ n" "p' \<in> fst ` set m" "x = p' @ n'"
      using policy_keys [of x p as] flatten_keys [of x m] by blast
    with ok have "p = p'" by (metis append_eq_append_conv)
    with ok(4) \<open>p' \<in> fst ` set m\<close> show False by simp
  qed
  with Cons.IH [OF ok(1)] ok(3) show ?case by (simp add: e distinct_policy_tokens)
qed simp

lemma multiAssetsToTokenMap_ok:
  assumes "ma_ok m"
  shows "multiAssetsToTokenMap m = Inr (flatten m)"
proof -
  have "efoldl (\<lambda>tm (p, as). efoldl (addAsset p) tm as) tm m = Inr (tm @ flatten m)"
    if "ma_ok m" "distinct (map fst (tm @ flatten m))" for tm
    using that
  proof (induction m arbitrary: tm)
    case (Cons e m)
    obtain p as where e: "e = (p, as)" by force
    have "efoldl (addAsset p) tm as = Inr (tm @ policy_tokens (p, as))"
      using Cons.prems by (intro addAssets_ok) (auto simp: e ma_ok_def)
    with Cons.IH [of "tm @ policy_tokens (p, as)"] Cons.prems show ?case by (simp add: e ma_ok_def)
  qed simp
  from this [OF assms, of "[]"] distinct_flatten [OF assms] show ?thesis by (simp add: multiAssetsToTokenMap_def)
qed

lemma flatten_ok: "ma_ok m \<Longrightarrow> tokens_ok (flatten m)"
  using distinct_flatten [of m]
  by (auto simp: tokens_ok_def ma_ok_def flatten_def policy_tokens_def list_all_iff) fastforce+

lemma tokens_ok_mset: "mset tm = mset tm' \<Longrightarrow> tokens_ok tm = tokens_ok tm'"
  using distinct_keys_mset [of tm tm'] mset_eq_setD [of tm tm'] by (simp add: tokens_ok_def list_all_iff)

lemma ma_ok_sort [simp]: "ma_ok (js_sort cmp m) = ma_ok m"
  by (simp add: ma_ok_def list_all_iff)

lemma mset_flatten: "mset m = mset m' \<Longrightarrow> mset (flatten m) = mset (flatten m')"
  unfolding flatten_def mset_concat map_map sum_mset_sum_list [symmetric] mset_map by simp

subsection \<open>The normal form of a token map\<close>

definition normalizeTokens :: "tokens \<Rightarrow> tokens result" where
  "normalizeTokens tm = ebind (tokenMapToMultiAsset tm) (\<lambda>m. multiAssetsToTokenMap (new_Map (js_sort sortCanonically m)))"

lemma normalizeTokens_ok:
  assumes "tokens_ok tm"
  shows "\<exists>tm'. normalizeTokens tm = Inr tm' \<and> mset tm' = mset tm \<and> tokens_ok tm'"
proof -
  obtain m where m: "tokenMapToMultiAsset tm = Inr m" "ma_ok m" "mset (flatten m) = mset tm"
    using tokenMapToMultiAsset_ok [OF assms] by blast
  let ?s = "js_sort sortCanonically m"
  have "new_Map ?s = ?s" using m(2) by (simp add: ma_ok_def)
  then have "normalizeTokens tm = Inr (flatten ?s)"
    using m(1,2) by (simp add: normalizeTokens_def multiAssetsToTokenMap_ok)
  moreover have "mset (flatten ?s) = mset tm" using mset_flatten [of ?s m] m(3) by simp
  ultimately show ?thesis using assms tokens_ok_mset by blast
qed

text \<open>It depends on the entries only.\<close>

lemma normalizeTokens_mset:
  assumes "distinct (map fst tm)" and "mset tm = mset tm'"
  shows "normalizeTokens tm = normalizeTokens tm'"
  using js_sort_canonical_unique [OF assms] by (simp add: normalizeTokens_def tokenMapToMultiAsset_def)

lemma normalizeTokens_idempotent:
  assumes "tokens_ok tm" and "normalizeTokens tm = Inr tm'"
  shows "normalizeTokens tm' = Inr tm'"
proof -
  obtain tm2 where "normalizeTokens tm = Inr tm2" "mset tm2 = mset tm" using normalizeTokens_ok [OF assms(1)] by blast
  with assms have "mset tm = mset tm'" "distinct (map fst tm)" by (simp_all add: tokens_ok_def)
  from normalizeTokens_mset [OF this(2,1)] assms(2) show ?thesis by simp
qed

end
