(* ===== verification/Asset_Maps.thy ===== *)
theory Asset_Maps
  imports Multi_Asset
begin

text \<open>
  Token maps as they are written: a map from policies to maps from asset names to quantities, both in
  canonical order. \<open>Value\<close> reads the quantities as unsigned integers and a transaction body reads
  those of its mint as integers; what the loops need of the two is the interface \<open>token_amounts\<close>.
\<close>

definition writeAsset :: "bytes \<times> int \<Rightarrow> writer_op" where
  "writeAsset a = run_ops [writeByteString (fst a), writeInt (snd a)]"

definition writePolicy :: "bytes \<times> (bytes \<times> int) list \<Rightarrow> writer_op" where
  "writePolicy p =
     (let sortedAssets = new_Map (js_sort sortCanonically (snd p))
      in run_ops ([writeByteString (fst p), writeStartMap (Some (length sortedAssets))] @ map writeAsset sortedAssets))"

definition writeMultiassets :: "multiassets \<Rightarrow> writer_op" where
  "writeMultiassets multiassets =
     (let sortedMultiAssets = new_Map (js_sort sortCanonically multiassets)
      in run_ops (writeStartMap (Some (length sortedMultiAssets)) # map writePolicy sortedMultiAssets))"

text \<open>One asset, one policy, the whole map; a policy that occurs again is continued.\<close>

definition readAsset ::
    "(CborReader \<Rightarrow> (int \<times> CborReader) result) \<Rightarrow> bytes \<Rightarrow> multiassets \<Rightarrow> CborReader \<Rightarrow> (multiassets \<times> CborReader) result" where
  "readAsset readAmount scriptHash multiassets r =
     ebind (readByteString r) (\<lambda>(assetName, r).
     ebind (readAmount r) (\<lambda>(quantity, r).
       Inr (ma_add scriptHash assetName quantity multiassets, r)))"

definition readPolicy ::
    "(CborReader \<Rightarrow> (int \<times> CborReader) result) \<Rightarrow> multiassets \<Rightarrow> CborReader \<Rightarrow> (multiassets \<times> CborReader) result" where
  "readPolicy readAmount multiassets r =
     ebind (readByteString r) (\<lambda>(scriptHash, r).
       readMapWith (readAsset readAmount scriptHash)
         (if map_of multiassets scriptHash = None then map_set scriptHash [] multiassets else multiassets) r)"

subsection \<open>The bytes of a token map\<close>

definition asset_bytes :: "bytes \<times> int \<Rightarrow> bytes \<times> bytes" where
  "asset_bytes a = (enc_bytes (fst a), enc_int (snd a))"

definition policy_bytes :: "bytes \<times> (bytes \<times> int) list \<Rightarrow> bytes \<times> bytes" where
  "policy_bytes p = (enc_bytes (fst p), enc_head MapType (length (snd p)) @ concat (flat (map asset_bytes (snd p))))"

definition assets_ok :: "(int \<Rightarrow> bool) \<Rightarrow> (bytes \<times> int) list \<Rightarrow> bool" where
  "assets_ok amount as \<longleftrightarrow> distinct (map fst as) \<and> length as < 4503599627370496 \<and>
     list_all (\<lambda>(n, q). length n \<le> 32 \<and> amount q) as"

definition addPolicy :: "bytes \<times> (bytes \<times> int) list \<Rightarrow> multiassets \<Rightarrow> multiassets" where
  "addPolicy p m = foldl (\<lambda>s upd. upd s) (if map_of m (fst p) = None then map_set (fst p) [] m else m)
     (map (\<lambda>(n, q). ma_add (fst p) n q) (snd p))"

text \<open>The sorted policies with their sorted assets, as they are written.\<close>

definition written :: "multiassets \<Rightarrow> multiassets" where
  "written m = map (\<lambda>x. (fst x, js_sort sortCanonically (snd x))) (js_sort sortCanonically m)"

definition ma_valid :: "(int \<Rightarrow> bool) \<Rightarrow> multiassets \<Rightarrow> bool" where
  "ma_valid amount m \<longleftrightarrow> ma_ok m \<and> length m < 4503599627370496 \<and> list_all (\<lambda>(p, as). assets_ok amount as) m"

definition ma_bytes :: "multiassets \<Rightarrow> bytes" where
  "ma_bytes m = enc_head MapType (length m) @ concat (flat (map policy_bytes (written m)))"


lemma fold_ma_add:
  assumes "distinct (map fst (pre @ as))" and "p \<notin> fst ` set m"
  shows "foldl (\<lambda>s upd. upd s) (m @ [(p, pre)]) (map (\<lambda>(n, q). ma_add p n q) as) = m @ [(p, pre @ as)]"
  using assms
proof (induction as arbitrary: pre)
  case (Cons a as)
  obtain n q where a: "a = (n, q)" by force
  have "map_of m p = None" using Cons.prems(2) by (simp add: map_of_eq_None_iff)
  then have "map_of (m @ [(p, pre)]) p = Some pre" by (simp add: map_add_def)
  then have "ma_add p n q (m @ [(p, pre)]) = m @ [(p, pre @ [(n, q)])]"
    using Cons.prems by (simp add: ma_add_def ma_get_def map_set_split a)
  with Cons.IH [of "pre @ [(n, q)]"] Cons.prems show ?case by (simp add: a)
qed simp

lemma fold_addPolicy:
  assumes "distinct (map fst (m @ ps))" and "list_all (\<lambda>(p, as). distinct (map fst as)) ps"
  shows "foldl (\<lambda>s upd. upd s) m (map addPolicy ps) = m @ ps"
  using assms
proof (induction ps arbitrary: m)
  case (Cons p ps)
  obtain h as where p: "p = (h, as)" by force
  have "addPolicy p m = m @ [(h, as)]"
    using Cons.prems fold_ma_add [of "[]" as h m] by (auto simp: p addPolicy_def map_of_eq_None_iff)
  with Cons.IH [of "m @ [p]"] Cons.prems show ?case by (simp add: p)
qed simp

lemma length_written [simp]: "length (written m) = length m"
  by (simp add: written_def)

lemma written_ok:
  assumes "ma_ok m"
  shows "ma_ok (written m)" and "mset (flatten (written m)) = mset (flatten m)"
proof -
  have keys: "map fst (written m) = map fst (js_sort sortCanonically m)"
    by (simp add: written_def case_prod_beta comp_def)
  show "ma_ok (written m)"
    unfolding ma_ok_def keys using assms by (simp add: ma_ok_def written_def list_all_iff case_prod_beta)
  have "mset (policy_tokens (p, js_sort sortCanonically as)) = mset (policy_tokens (p, as))" for p as
    by (simp add: policy_tokens_def)
  then have "mset (flatten (written m)) = mset (flatten (js_sort sortCanonically m))"
    by (simp add: flatten_def written_def mset_concat comp_def)
  also have "\<dots> = mset (flatten m)" by (rule mset_flatten) simp
  finally show "mset (flatten (written m)) = mset (flatten m)" .
qed

lemma length_policy: "(p, as) \<in> set m \<Longrightarrow> length as \<le> length (flatten m)"
  by (induction m) (auto simp: policy_tokens_def)

subsection \<open>Quantities\<close>

locale token_amounts =
  fixes readAmount :: "CborReader \<Rightarrow> (int \<times> CborReader) result"
    and amount :: "int \<Rightarrow> bool"
  assumes amount_int: "amount q \<Longrightarrow> cbor_int q"
    and amount_read: "amount q \<Longrightarrow> open_frame fr \<Longrightarrow>
      readAmount (rd c pre (enc_int q @ bs) fr stk tag) = Inr (q, rd U (pre @ enc_int q) bs (bumps 1 fr) stk False)"
    and amount_progress: "readAmount r = Inr (q, r') \<Longrightarrow> progress r r'"
begin

lemma readAsset_progress: "readAsset readAmount p m r = Inr (m', r') \<Longrightarrow> progress r r'"
  by (auto simp: readAsset_def dest!: progress_intros amount_progress intro: progress_trans)

lemma readPolicy_progress: "readPolicy readAmount m r = Inr (m', r') \<Longrightarrow> progress r r'"
  using readByteString_progress readMapWith_progress [OF readAsset_progress]
  by (fastforce simp: readPolicy_def intro: progress_trans)

text \<open>Since every round makes progress, the loops are those of the source.\<close>

lemmas token_loops = readLoop_unfold [OF readAsset_progress] readLoop_unfold [OF readPolicy_progress]

lemma writeAssets_bytes:
  "list_all (\<lambda>(n, q). length n \<le> 32 \<and> amount q) as \<Longrightarrow>
   run_ops (map writeAsset as) w = Inr (w @ concat (flat (map asset_bytes as)))"
proof (induction as arbitrary: w)
  case (Cons a as)
  then show ?case using amount_int by (cases a) (simp add: writeAsset_def asset_bytes_def)
qed simp

lemma readAsset_entry:
  assumes "length n \<le> 32" and "amount q"
  shows "entry_ok (readAsset readAmount p) (asset_bytes (n, q)) (ma_add p n q)"
  using assms amount_int by (simp add: entry_ok_def asset_bytes_def readAsset_def amount_read rd_simps numeral_2_eq_2)

lemma readAssets_entries:
  "list_all (\<lambda>(n, q). length n \<le> 32 \<and> amount q) as \<Longrightarrow>
   list_all2 (entry_ok (readAsset readAmount p)) (map asset_bytes as) (map (\<lambda>(n, q). ma_add p n q) as)"
  by (induction as) (auto intro: readAsset_entry)

lemma policy_entry:
  assumes "length p = 28" and "assets_ok amount as"
  shows "entry_ok (readPolicy readAmount) (policy_bytes (p, as)) (addPolicy (p, as))"
proof -
  have 1: "list_all2 (entry_ok (readAsset readAmount p)) (map asset_bytes as) (map (\<lambda>(n, q). ma_add p n q) as)"
    "length (map asset_bytes as) < 4503599627370496"
    using assms(2) by (auto simp: assets_ok_def intro: readAssets_entries)
  have "cbor_item (enc_head MapType (length as) @ concat (flat (map asset_bytes as)))"
    using map_item [OF 1] by simp
  moreover have "readMapWith (readAsset readAmount p) s (rd c pre (enc_head MapType (length as) @ concat (flat (map asset_bytes as)) @ bs) fr stk False) =
    Inr (foldl (\<lambda>s upd. upd s) s (map (\<lambda>(n, q). ma_add p n q) as),
      rd U (pre @ enc_head MapType (length as) @ concat (flat (map asset_bytes as))) bs (bumps 1 fr) stk False)"
    if "open_frame fr" for s c pre bs fr stk
    using readMapWith_rd [OF 1 that, of s c pre bs stk False] by simp
  ultimately show ?thesis
    using assms(1) by (simp add: entry_ok_def policy_bytes_def readPolicy_def addPolicy_def rd_simps numeral_2_eq_2)
qed

lemma writePolicies_bytes:
  assumes "list_all (\<lambda>(p, as). length p = 28 \<and> assets_ok amount as) ps"
  shows "run_ops (map writePolicy ps) w =
    Inr (w @ concat (flat (map (\<lambda>x. policy_bytes (fst x, js_sort sortCanonically (snd x))) ps)))"
  using assms
proof (induction ps arbitrary: w)
  case (Cons p ps)
  obtain h as where p: "p = (h, as)" by force
  have as: "assets_ok amount as" "length h = 28" using Cons.prems by (simp_all add: p)
  then have "list_all (\<lambda>(n, q). length n \<le> 32 \<and> amount q) (js_sort sortCanonically as)"
    "distinct (map fst (js_sort sortCanonically as))" "length as < 4503599627370496"
    by (simp_all add: assets_ok_def list_all_iff)
  with Cons as(2) show ?case by (simp add: p writePolicy_def policy_bytes_def writeAssets_bytes)
qed simp

lemma writeMultiassets_bytes:
  assumes "ma_valid amount m"
  shows "writeMultiassets m w = Inr (w @ ma_bytes m)"
proof -
  have "list_all (\<lambda>(p, as). length p = 28 \<and> assets_ok amount as) (js_sort sortCanonically m)"
    and "distinct (map fst (js_sort sortCanonically m))" and "length m < 4503599627370496"
    using assms by (auto simp: ma_valid_def ma_ok_def list_all_iff)
  then show ?thesis
    by (simp add: writeMultiassets_def ma_bytes_def writePolicies_bytes written_def case_prod_beta comp_def)
qed

lemma read_ma_entries:
  assumes "ma_valid amount m"
  shows "list_all2 (entry_ok (readPolicy readAmount)) (map policy_bytes (written m)) (map addPolicy (written m))"
proof -
  have "length p = 28 \<and> assets_ok amount as" if "(p, as) \<in> set (written m)" for p as
    using that assms by (force simp: written_def ma_valid_def ma_ok_def assets_ok_def list_all_iff case_prod_beta)
  then show ?thesis
    by (auto simp: list_all2_map1 list_all2_map2 list_all2_same intro: policy_entry)
qed

lemma ma_bytes_item:
  assumes "ma_valid amount m"
  shows "cbor_item (ma_bytes m)"
    and "open_frame fr \<Longrightarrow> readMapWith (readPolicy readAmount) [] (rd c pre (ma_bytes m @ bs) fr stk tag) =
      Inr (written m, rd U (pre @ ma_bytes m) bs (bumps 1 fr) stk False)"
proof -
  have len: "length (map policy_bytes (written m)) < 4503599627370496" using assms by (simp add: ma_valid_def)
  note e = read_ma_entries [OF assms]
  show "cbor_item (ma_bytes m)" using map_item [OF e len] by (simp add: ma_bytes_def)
  have ok: "ma_ok (written m)" using assms written_ok by (simp add: ma_valid_def)
  then have "list_all (\<lambda>(p, as). distinct (map fst as)) (written m)" "distinct (map fst (written m))"
    by (auto simp: ma_ok_def list_all_iff)
  with fold_addPolicy [of "[]" "written m"] readMapWith_rd [OF e len, of fr "[]" c pre bs stk tag]
  show "open_frame fr \<Longrightarrow> readMapWith (readPolicy readAmount) [] (rd c pre (ma_bytes m @ bs) fr stk tag) =
      Inr (written m, rd U (pre @ ma_bytes m) bs (bumps 1 fr) stk False)"
    by (simp add: ma_bytes_def)
qed

lemma grouped_valid:
  assumes "list_all (\<lambda>(i, q). amount q) tm" and "length tm < 4503599627370496" and "ma_ok m" and "mset (flatten m) = mset tm"
  shows "ma_valid amount m"
proof -
  have q: "amount q" if "(i, q) \<in> set (flatten m)" for i q
    using that assms(1) mset_eq_setD [OF assms(4)] by (auto simp: list_all_iff)
  have len: "length (flatten m) < 4503599627370496"
    using assms(2) mset_eq_length [OF assms(4)] by simp
  have "assets_ok amount as" if mem: "(p, as) \<in> set m" for p as
  proof -
    have "amount r \<and> length n \<le> 32" if "(n, r) \<in> set as" for n r
    proof -
      have "(p @ n, r) \<in> set (flatten m)" using mem that by (force simp: flatten_def policy_tokens_def)
      with q that mem assms(3) show ?thesis by (force simp: ma_ok_def list_all_iff)
    qed
    moreover note length_policy [OF mem]
    ultimately show ?thesis using len mem assms(3) by (auto simp: assets_ok_def ma_ok_def list_all_iff)
  qed
  moreover have "length m \<le> length (flatten m)"
    using assms(3)
  proof (induction m)
    case (Cons e m)
    then have "1 \<le> length (snd e)" by (cases e) (auto simp: ma_ok_def Suc_le_eq)
    with Cons show ?case by (auto simp: ma_ok_def policy_tokens_def)
  qed simp
  ultimately show ?thesis using len assms(3) by (auto simp: ma_valid_def list_all_iff)
qed

end

end
