(* ===== verification/Tx_Value.thy ===== *)
theory Tx_Value
  imports Asset_Maps
begin

text \<open>
  The class \<open>Value\<close> of the serialization layer (\<open>core/src/Serialization/TransactionBody/Value.ts\<close>):
  an amount of lovelace with an optional token map. The constructor brings the token map into its
  normal form, policies and names in canonical order; the written maps are in that order too.
\<close>

record ValueObject =
  val_coin :: int
  val_multiasset :: "tokens option"
  val_originalBytes :: "bytes option"

definition normalMultiasset :: "tokens option \<Rightarrow> tokens option result" where
  "normalMultiasset multiasset = (case multiasset of
       Some (t # ts) \<Rightarrow> ebind (normalizeTokens (t # ts)) (\<lambda>m. Inr (Some m))
     | _ \<Rightarrow> Inr None)"

definition Value_new :: "int \<Rightarrow> tokens option \<Rightarrow> ValueObject result" where
  "Value_new coin multiasset =
     ebind (normalMultiasset multiasset) (\<lambda>m.
       Inr \<lparr>val_coin = coin, val_multiasset = m, val_originalBytes = None\<rparr>)"

definition Value_setCoin :: "int \<Rightarrow> ValueObject \<Rightarrow> ValueObject" where
  "Value_setCoin coin v = v\<lparr>val_coin := coin, val_originalBytes := None\<rparr>"

definition Value_setMultiasset :: "tokens \<Rightarrow> ValueObject \<Rightarrow> ValueObject result" where
  "Value_setMultiasset multiasset v =
     ebind (normalMultiasset (Some multiasset)) (\<lambda>m. Inr (v\<lparr>val_multiasset := m, val_originalBytes := None\<rparr>))"

definition Value_toCbor :: "ValueObject \<Rightarrow> bytes result" where
  "Value_toCbor v = cached (val_originalBytes v)
     (case val_multiasset v of
        Some (t # ts) \<Rightarrow>
          ebind (tokenMapToMultiAsset (t # ts)) (\<lambda>multiassets.
            write_all [writeStartArray (Some 2), writeInt (val_coin v), writeMultiassets multiassets])
      | _ \<Rightarrow> write_all [writeInt (val_coin v)])"

text \<open>\<open>reader.readUInt()\<close>, as an integer.\<close>

definition readQuantity :: "CborReader \<Rightarrow> (int \<times> CborReader) result" where
  "readQuantity r = ebind (readUInt r) (\<lambda>(quantity, r). Inr (int quantity, r))"

definition Value_fromCbor :: "bytes \<Rightarrow> ValueObject result" where
  "Value_fromCbor cbor =
     ebind (peekState (new_reader cbor)) (\<lambda>(state, r).
     if state = UnsignedIntegerState then ebind (readUInt r) (\<lambda>(coins, r). Value_new (int coins) None)
     else
       ebind (expectArray 2 r) (\<lambda>r.
       ebind (readUInt r) (\<lambda>(coins, r).
       ebind (readMapWith (readPolicy readQuantity) [] r) (\<lambda>(multiassets, r).
       ebind (multiAssetsToTokenMap multiassets) (\<lambda>tokens.
       let sortedAssets = new_Map (js_sort sortCanonically tokens)
       in ebind (Value_new (int coins) (Some sortedAssets)) (\<lambda>value.
            Inr (value\<lparr>val_originalBytes := Some cbor\<rparr>)))))))"

record Core_Value =
  core_coins :: int
  core_assets :: "tokens option"

definition Value_toCore :: "ValueObject \<Rightarrow> Core_Value" where
  "Value_toCore v = \<lparr>core_coins = val_coin v, core_assets = val_multiasset v\<rparr>"

definition Value_fromCore :: "Core_Value \<Rightarrow> ValueObject result" where
  "Value_fromCore v = Value_new (core_coins v) (core_assets v)"

interpretation coin_amounts: token_amounts readQuantity "\<lambda>q. uint64 q"
  by unfold_locales (auto simp: readQuantity_def rd_simps dest!: progress_intros)

subsection \<open>Values are read back\<close>

definition tokens_valid :: "tokens \<Rightarrow> bool" where
  "tokens_valid tm \<longleftrightarrow> tm \<noteq> [] \<and> tokens_ok tm \<and> length tm < 4503599627370496 \<and> list_all (\<lambda>(i, q). uint64 q) tm"

definition Value_valid :: "ValueObject \<Rightarrow> bool" where
  "Value_valid v \<longleftrightarrow> val_originalBytes v = None \<and> uint64 (val_coin v) \<and>
     (case val_multiasset v of None \<Rightarrow> True | Some tm \<Rightarrow> tokens_valid tm \<and> normalizeTokens tm = Inr tm)"

lemma tokens_valid_mset: "mset tm = mset tm' \<Longrightarrow> tokens_valid tm = tokens_valid tm'"
  using tokens_ok_mset [of tm tm'] mset_eq_setD [of tm tm'] mset_eq_length [of tm tm']
  by (auto simp: tokens_valid_def list_all_iff)

text \<open>What the constructor makes of a token map is valid.\<close>

lemma Value_new_valid:
  assumes "uint64 coin" and "\<forall>tm. multiasset = Some tm \<longrightarrow> tokens_valid tm"
  shows "\<exists>v. Value_new coin multiasset = Inr v \<and> Value_valid v \<and> val_coin v = coin \<and>
    (case multiasset of None \<Rightarrow> val_multiasset v = None
     | Some tm \<Rightarrow> \<exists>tm'. val_multiasset v = Some tm' \<and> mset tm' = mset tm)"
proof (cases multiasset)
  case None
  then show ?thesis using assms(1) by (simp add: Value_new_def normalMultiasset_def Value_valid_def)
next
  case (Some tm)
  with assms(2) have tm: "tokens_valid tm" by simp
  then obtain tm' where n: "normalizeTokens tm = Inr tm'" "mset tm' = mset tm"
    using normalizeTokens_ok by (auto simp: tokens_valid_def)
  have "normalizeTokens tm' = Inr tm'"
    using normalizeTokens_idempotent [OF _ n(1)] tm by (simp add: tokens_valid_def)
  moreover have "tokens_valid tm'" using tokens_valid_mset [OF n(2)] tm by simp
  ultimately show ?thesis
    using n tm Some assms(1) by (cases tm) (simp_all add: tokens_valid_def Value_new_def normalMultiasset_def Value_valid_def)
qed

lemma peekState_item:
  assumes "cbor_item x"
  shows "peekState (new_reader (x @ bs)) =
    Inr (state_of_initial_byte (hd x), rd (state_of_initial_byte (hd x)) [] (x @ bs) root_frame [] False)"
  using peekStateCore_item [OF assms, of root_frame] by (simp add: new_reader_rd peekState_rd)

lemma uint_state: "uint64 i \<Longrightarrow> state_of_initial_byte (hd (enc_int i)) = UnsignedIntegerState"
  using head_info [OF is_head_enc_head [of "nat i" UnsignedInteger]]
  by (simp add: enc_int_def state_of_initial_byte_def nat_less_iff)

lemma array_state: "n < 18446744073709551616 \<Longrightarrow> state_of_initial_byte (hd (enc_head ArrayType n @ bs)) = StartArray"
  using head_info [OF is_head_enc_head [of n ArrayType]]
  by (cases "enc_head ArrayType n") (simp_all add: state_of_initial_byte_def)

lemma value_coin_encodes:
  assumes "uint64 c" and "val_originalBytes v = None" and "val_multiasset v = None" and "val_coin v = c"
  shows "Value_toCbor v = Inr (enc_int c)" and "Value_fromCbor (enc_int c) = Value_new c None"
  using assms peekState_item [of "enc_int c" "[]"]
  by (simp_all add: Value_toCbor_def Value_fromCbor_def write_all_def encode_def uint_state rd_simps rd_last)

lemma value_tokens_encodes:
  assumes "uint64 c" and "ma_valid (\<lambda>q. uint64 q) m" and "mset (flatten m) = mset tm" and "tokens_valid tm"
    and "normalizeTokens tm = Inr tm"
  shows "Value_fromCbor (enc_head ArrayType 2 @ enc_int c @ ma_bytes m) =
    Inr \<lparr>val_coin = c, val_multiasset = Some tm, val_originalBytes = Some (enc_head ArrayType 2 @ enc_int c @ ma_bytes m)\<rparr>"
proof -
  let ?b = "enc_head ArrayType 2 @ enc_int c @ ma_bytes m"
  let ?f = "flatten (written m)"
  let ?s = "js_sort sortCanonically ?f"
  have ok: "ma_ok (written m)" "mset ?f = mset tm"
    using written_ok assms(2,3) by (simp_all add: ma_valid_def)
  have d: "distinct (map fst ?f)" using ok(1) by (rule distinct_flatten)
  have "normalizeTokens ?s = normalizeTokens tm"
    using d ok(2) by (intro normalizeTokens_mset) simp_all
  moreover have "?s \<noteq> []" using ok(2) assms(4) by (auto simp: tokens_valid_def)
  then obtain t ts where ts: "?s = t # ts" by (cases ?s) auto
  ultimately have new: "Value_new c (Some ?s) = Inr \<lparr>val_coin = c, val_multiasset = Some tm, val_originalBytes = None\<rparr>"
    using assms(5) by (simp add: Value_new_def normalMultiasset_def)
  have item: "cbor_item ?b" using coin_amounts.ma_bytes_item(1) [OF assms(2)] assms(1) by (simp add: cbor_items)
  have "new_Map ?s = ?s" using d by simp
  with new coin_amounts.ma_bytes_item(2) [OF assms(2), where bs = "[]"] assms(1) peekState_item [OF item, of "[]"] array_state
    multiAssetsToTokenMap_ok [OF ok(1)]
  show ?thesis by (simp add: Value_fromCbor_def rd_simps Let_def)
qed

interpretation value_codec: cbor_codec Value_toCbor Value_fromCbor Value_valid "\<lambda>v. (val_coin v, val_multiasset v)"
proof
  fix v assume v: "Value_valid v"
  show "\<exists>b. Value_toCbor v = Inr b \<and> cbor_item b \<and> (\<exists>y. Value_fromCbor b = Inr y \<and>
      (val_coin y, val_multiasset y) = (val_coin v, val_multiasset v))"
  proof (cases "val_multiasset v")
    case None
    with v value_coin_encodes [of "val_coin v" v] show ?thesis
      by (simp add: Value_valid_def Value_new_def normalMultiasset_def)
  next
    case (Some tm)
    with v have tm: "tokens_valid tm" "normalizeTokens tm = Inr tm" "uint64 (val_coin v)" "val_originalBytes v = None"
      by (simp_all add: Value_valid_def)
    then obtain m where m: "tokenMapToMultiAsset tm = Inr m" "ma_ok m" "mset (flatten m) = mset tm"
      using tokenMapToMultiAsset_ok by (auto simp: tokens_valid_def)
    have valid: "ma_valid (\<lambda>q. uint64 q) m" using coin_amounts.grouped_valid [OF _ _ m(2,3)] tm(1) by (simp add: tokens_valid_def)
    let ?b = "enc_head ArrayType 2 @ enc_int (val_coin v) @ ma_bytes m"
    have "Value_toCbor v = Inr ?b"
      using tm Some m(1) coin_amounts.writeMultiassets_bytes [OF valid]
      by (cases tm) (simp_all add: tokens_valid_def Value_toCbor_def write_all_def encode_def)
    moreover have "cbor_item ?b" using coin_amounts.ma_bytes_item(1) [OF valid] tm(3) by (simp add: cbor_items)
    ultimately show ?thesis
      using value_tokens_encodes [OF tm(3) valid m(3) tm(1,2)] Some by simp
  qed
qed

end
