(* ===== verification/Scripts.thy ===== *)
theory Scripts
  imports Native_Script Cert_Fields
begin

text \<open>
  Scripts of the five languages (\<open>core/src/Serialization/Scripts/Script.ts\<close> and
  \<open>Scripts/PlutusScript\<close>). The hash function blake2b is a parameter (package \<open>crypto\<close>, a binding of
  third-party code): it takes the bytes and the length of the digest.
\<close>

type_synonym blake2b = "bytes \<Rightarrow> nat \<Rightarrow> bytes"

subsection \<open>Plutus scripts\<close>

datatype PlutusLanguageVersion = V1 | V2 | V3 | V4

record Core_PlutusScript =
  cps_bytes :: bytes
  cps_version :: PlutusLanguageVersion

record PlutusV1Script =
  pv1_compiledByteCode :: bytes
  pv1_originalBytes :: "bytes option"

definition PlutusV1Script_new :: "bytes \<Rightarrow> PlutusV1Script" where
  "PlutusV1Script_new compiledByteCode = \<lparr>pv1_compiledByteCode = compiledByteCode, pv1_originalBytes = None\<rparr>"

definition PlutusV1Script_toCbor :: "PlutusV1Script \<Rightarrow> bytes result" where
  "PlutusV1Script_toCbor s = cached (pv1_originalBytes s) (write_all [writeByteString (pv1_compiledByteCode s)])"

definition PlutusV1Script_fromCbor :: "bytes \<Rightarrow> PlutusV1Script result" where
  "PlutusV1Script_fromCbor cbor = ebind (readByteString (new_reader cbor)) (\<lambda>(b, r).
     Inr ((PlutusV1Script_new b)\<lparr>pv1_originalBytes := Some cbor\<rparr>))"

definition PlutusV1Script_toCore :: "PlutusV1Script \<Rightarrow> Core_PlutusScript" where
  "PlutusV1Script_toCore s = \<lparr>cps_bytes = pv1_compiledByteCode s, cps_version = V1\<rparr>"

definition PlutusV1Script_fromCore :: "Core_PlutusScript \<Rightarrow> PlutusV1Script result" where
  "PlutusV1Script_fromCore s =
     (if cps_version s \<noteq> V1 then Inl InvalidArgumentError else Inr (PlutusV1Script_new (cps_bytes s)))"

definition PlutusV1Script_hash :: "blake2b \<Rightarrow> PlutusV1Script \<Rightarrow> bytes" where
  "PlutusV1Script_hash blake2b s = blake2b (0x01 # pv1_compiledByteCode s) 28"

definition PlutusV1Script_setRawBytes :: "bytes \<Rightarrow> PlutusV1Script \<Rightarrow> PlutusV1Script" where
  "PlutusV1Script_setRawBytes b s = s\<lparr>pv1_compiledByteCode := b, pv1_originalBytes := None\<rparr>"

record PlutusV2Script =
  pv2_compiledByteCode :: bytes
  pv2_originalBytes :: "bytes option"

definition PlutusV2Script_new :: "bytes \<Rightarrow> PlutusV2Script" where
  "PlutusV2Script_new compiledByteCode = \<lparr>pv2_compiledByteCode = compiledByteCode, pv2_originalBytes = None\<rparr>"

definition PlutusV2Script_toCbor :: "PlutusV2Script \<Rightarrow> bytes result" where
  "PlutusV2Script_toCbor s = cached (pv2_originalBytes s) (write_all [writeByteString (pv2_compiledByteCode s)])"

definition PlutusV2Script_fromCbor :: "bytes \<Rightarrow> PlutusV2Script result" where
  "PlutusV2Script_fromCbor cbor = ebind (readByteString (new_reader cbor)) (\<lambda>(b, r).
     Inr ((PlutusV2Script_new b)\<lparr>pv2_originalBytes := Some cbor\<rparr>))"

definition PlutusV2Script_toCore :: "PlutusV2Script \<Rightarrow> Core_PlutusScript" where
  "PlutusV2Script_toCore s = \<lparr>cps_bytes = pv2_compiledByteCode s, cps_version = V2\<rparr>"

definition PlutusV2Script_fromCore :: "Core_PlutusScript \<Rightarrow> PlutusV2Script result" where
  "PlutusV2Script_fromCore s =
     (if cps_version s \<noteq> V2 then Inl InvalidArgumentError else Inr (PlutusV2Script_new (cps_bytes s)))"

definition PlutusV2Script_hash :: "blake2b \<Rightarrow> PlutusV2Script \<Rightarrow> bytes" where
  "PlutusV2Script_hash blake2b s = blake2b (0x02 # pv2_compiledByteCode s) 28"

definition PlutusV2Script_setRawBytes :: "bytes \<Rightarrow> PlutusV2Script \<Rightarrow> PlutusV2Script" where
  "PlutusV2Script_setRawBytes b s = s\<lparr>pv2_compiledByteCode := b, pv2_originalBytes := None\<rparr>"

record PlutusV3Script =
  pv3_compiledByteCode :: bytes
  pv3_originalBytes :: "bytes option"

definition PlutusV3Script_new :: "bytes \<Rightarrow> PlutusV3Script" where
  "PlutusV3Script_new compiledByteCode = \<lparr>pv3_compiledByteCode = compiledByteCode, pv3_originalBytes = None\<rparr>"

definition PlutusV3Script_toCbor :: "PlutusV3Script \<Rightarrow> bytes result" where
  "PlutusV3Script_toCbor s = cached (pv3_originalBytes s) (write_all [writeByteString (pv3_compiledByteCode s)])"

definition PlutusV3Script_fromCbor :: "bytes \<Rightarrow> PlutusV3Script result" where
  "PlutusV3Script_fromCbor cbor = ebind (readByteString (new_reader cbor)) (\<lambda>(b, r).
     Inr ((PlutusV3Script_new b)\<lparr>pv3_originalBytes := Some cbor\<rparr>))"

definition PlutusV3Script_toCore :: "PlutusV3Script \<Rightarrow> Core_PlutusScript" where
  "PlutusV3Script_toCore s = \<lparr>cps_bytes = pv3_compiledByteCode s, cps_version = V3\<rparr>"

definition PlutusV3Script_fromCore :: "Core_PlutusScript \<Rightarrow> PlutusV3Script result" where
  "PlutusV3Script_fromCore s =
     (if cps_version s \<noteq> V3 then Inl InvalidArgumentError else Inr (PlutusV3Script_new (cps_bytes s)))"

definition PlutusV3Script_hash :: "blake2b \<Rightarrow> PlutusV3Script \<Rightarrow> bytes" where
  "PlutusV3Script_hash blake2b s = blake2b (0x03 # pv3_compiledByteCode s) 28"

definition PlutusV3Script_setRawBytes :: "bytes \<Rightarrow> PlutusV3Script \<Rightarrow> PlutusV3Script" where
  "PlutusV3Script_setRawBytes b s = s\<lparr>pv3_compiledByteCode := b, pv3_originalBytes := None\<rparr>"

record PlutusV4Script =
  pv4_compiledByteCode :: bytes
  pv4_originalBytes :: "bytes option"

definition PlutusV4Script_new :: "bytes \<Rightarrow> PlutusV4Script" where
  "PlutusV4Script_new compiledByteCode = \<lparr>pv4_compiledByteCode = compiledByteCode, pv4_originalBytes = None\<rparr>"

definition PlutusV4Script_toCbor :: "PlutusV4Script \<Rightarrow> bytes result" where
  "PlutusV4Script_toCbor s = cached (pv4_originalBytes s) (write_all [writeByteString (pv4_compiledByteCode s)])"

definition PlutusV4Script_fromCbor :: "bytes \<Rightarrow> PlutusV4Script result" where
  "PlutusV4Script_fromCbor cbor = ebind (readByteString (new_reader cbor)) (\<lambda>(b, r).
     Inr ((PlutusV4Script_new b)\<lparr>pv4_originalBytes := Some cbor\<rparr>))"

definition PlutusV4Script_toCore :: "PlutusV4Script \<Rightarrow> Core_PlutusScript" where
  "PlutusV4Script_toCore s = \<lparr>cps_bytes = pv4_compiledByteCode s, cps_version = V4\<rparr>"

definition PlutusV4Script_fromCore :: "Core_PlutusScript \<Rightarrow> PlutusV4Script result" where
  "PlutusV4Script_fromCore s =
     (if cps_version s \<noteq> V4 then Inl InvalidArgumentError else Inr (PlutusV4Script_new (cps_bytes s)))"

definition PlutusV4Script_hash :: "blake2b \<Rightarrow> PlutusV4Script \<Rightarrow> bytes" where
  "PlutusV4Script_hash blake2b s = blake2b (0x04 # pv4_compiledByteCode s) 28"

definition PlutusV4Script_setRawBytes :: "bytes \<Rightarrow> PlutusV4Script \<Rightarrow> PlutusV4Script" where
  "PlutusV4Script_setRawBytes b s = s\<lparr>pv4_compiledByteCode := b, pv4_originalBytes := None\<rparr>"

text \<open>The four classes are the same codec of a byte string.\<close>

lemmas plutus_script_defs =
  PlutusV1Script_new_def PlutusV1Script_toCbor_def PlutusV1Script_fromCbor_def
  PlutusV2Script_new_def PlutusV2Script_toCbor_def PlutusV2Script_fromCbor_def
  PlutusV3Script_new_def PlutusV3Script_toCbor_def PlutusV3Script_fromCbor_def
  PlutusV4Script_new_def PlutusV4Script_toCbor_def PlutusV4Script_fromCbor_def

lemma readByteString_nonempty: "readByteString (new_reader b) = Inr x \<Longrightarrow> b \<noteq> []"
  by auto

abbreviation PlutusV1Script_valid :: "PlutusV1Script \<Rightarrow> bool" where
  "PlutusV1Script_valid s \<equiv> small_bytes (pv1_compiledByteCode s) \<and> pv1_originalBytes s = None"

interpretation plutus_v1: caching_codec PlutusV1Script_toCbor PlutusV1Script_fromCbor PlutusV1Script_valid PlutusV1Script_toCore
proof (unfold_locales, goal_cases)
  case (1 s)
  then show ?case by (simp add: plutus_script_defs PlutusV1Script_toCore_def write_all_def encode_def rd_simps rd_last)
next
  case (2 b y)
  then show ?case by (auto simp: plutus_script_defs dest!: readByteString_nonempty)
qed

abbreviation PlutusV2Script_valid :: "PlutusV2Script \<Rightarrow> bool" where
  "PlutusV2Script_valid s \<equiv> small_bytes (pv2_compiledByteCode s) \<and> pv2_originalBytes s = None"

interpretation plutus_v2: caching_codec PlutusV2Script_toCbor PlutusV2Script_fromCbor PlutusV2Script_valid PlutusV2Script_toCore
proof (unfold_locales, goal_cases)
  case (1 s)
  then show ?case by (simp add: plutus_script_defs PlutusV2Script_toCore_def write_all_def encode_def rd_simps rd_last)
next
  case (2 b y)
  then show ?case by (auto simp: plutus_script_defs dest!: readByteString_nonempty)
qed

abbreviation PlutusV3Script_valid :: "PlutusV3Script \<Rightarrow> bool" where
  "PlutusV3Script_valid s \<equiv> small_bytes (pv3_compiledByteCode s) \<and> pv3_originalBytes s = None"

interpretation plutus_v3: caching_codec PlutusV3Script_toCbor PlutusV3Script_fromCbor PlutusV3Script_valid PlutusV3Script_toCore
proof (unfold_locales, goal_cases)
  case (1 s)
  then show ?case by (simp add: plutus_script_defs PlutusV3Script_toCore_def write_all_def encode_def rd_simps rd_last)
next
  case (2 b y)
  then show ?case by (auto simp: plutus_script_defs dest!: readByteString_nonempty)
qed

abbreviation PlutusV4Script_valid :: "PlutusV4Script \<Rightarrow> bool" where
  "PlutusV4Script_valid s \<equiv> small_bytes (pv4_compiledByteCode s) \<and> pv4_originalBytes s = None"

interpretation plutus_v4: caching_codec PlutusV4Script_toCbor PlutusV4Script_fromCbor PlutusV4Script_valid PlutusV4Script_toCore
proof (unfold_locales, goal_cases)
  case (1 s)
  then show ?case by (simp add: plutus_script_defs PlutusV4Script_toCore_def write_all_def encode_def rd_simps rd_last)
next
  case (2 b y)
  then show ?case by (auto simp: plutus_script_defs dest!: readByteString_nonempty)
qed

subsection \<open>Scripts\<close>

datatype ScriptBody =
    NativeScriptBody NativeScript
  | PlutusV1Body PlutusV1Script
  | PlutusV2Body PlutusV2Script
  | PlutusV3Body PlutusV3Script
  | PlutusV4Body PlutusV4Script

text \<open>The optional fields of the class, of which exactly the one of the language is set, are a variant.\<close>

record Script =
  scr_body :: ScriptBody
  scr_originalBytes :: "bytes option"

definition Script_new :: "ScriptBody \<Rightarrow> Script" where
  "Script_new body = \<lparr>scr_body = body, scr_originalBytes = None\<rparr>"

fun ScriptLanguage_num :: "ScriptBody \<Rightarrow> int" where
  "ScriptLanguage_num (NativeScriptBody _) = 0"
| "ScriptLanguage_num (PlutusV1Body _) = 1"
| "ScriptLanguage_num (PlutusV2Body _) = 2"
| "ScriptLanguage_num (PlutusV3Body _) = 3"
| "ScriptLanguage_num (PlutusV4Body _) = 4"

fun ScriptBody_toCbor :: "ScriptBody \<Rightarrow> bytes result" where
  "ScriptBody_toCbor (NativeScriptBody s) = NativeScript_toCbor s"
| "ScriptBody_toCbor (PlutusV1Body s) = PlutusV1Script_toCbor s"
| "ScriptBody_toCbor (PlutusV2Body s) = PlutusV2Script_toCbor s"
| "ScriptBody_toCbor (PlutusV3Body s) = PlutusV3Script_toCbor s"
| "ScriptBody_toCbor (PlutusV4Body s) = PlutusV4Script_toCbor s"

definition Script_toCbor :: "Script \<Rightarrow> bytes result" where
  "Script_toCbor s = cached (scr_originalBytes s)
     (ebind (ScriptBody_toCbor (scr_body s)) (\<lambda>cbor.
        write_all [writeStartArray (Some 2), writeInt (ScriptLanguage_num (scr_body s)), writeEncodedValue cbor]))"

definition ScriptBody_fromCbor :: "int \<Rightarrow> bytes \<Rightarrow> ScriptBody result" where
  "ScriptBody_fromCbor language innerScript =
     (if language = 0 then ebind (NativeScript_fromCbor innerScript) (\<lambda>s. Inr (NativeScriptBody s))
      else if language = 1 then ebind (PlutusV1Script_fromCbor innerScript) (\<lambda>s. Inr (PlutusV1Body s))
      else if language = 2 then ebind (PlutusV2Script_fromCbor innerScript) (\<lambda>s. Inr (PlutusV2Body s))
      else if language = 3 then ebind (PlutusV3Script_fromCbor innerScript) (\<lambda>s. Inr (PlutusV3Body s))
      else if language = 4 then ebind (PlutusV4Script_fromCbor innerScript) (\<lambda>s. Inr (PlutusV4Body s))
      else Inl InvalidStateError)"

definition Script_fromCbor :: "bytes \<Rightarrow> Script result" where
  "Script_fromCbor cbor =
     ebind (readStartArray (new_reader cbor)) (\<lambda>(_, r).
     ebind (readInt r) (\<lambda>(language, r).
     ebind (readEncodedValue r) (\<lambda>(innerScript, r).
     ebind (ScriptBody_fromCbor (js_Number_int language) innerScript) (\<lambda>body.
       Inr ((Script_new body)\<lparr>scr_originalBytes := Some cbor\<rparr>)))))"

datatype Core_Script = Core_Native Core_NativeScript | Core_Plutus Core_PlutusScript

fun ScriptBody_toCore :: "ScriptBody \<Rightarrow> Core_Script" where
  "ScriptBody_toCore (NativeScriptBody s) = Core_Native (NativeScript_toCore s)"
| "ScriptBody_toCore (PlutusV1Body s) = Core_Plutus (PlutusV1Script_toCore s)"
| "ScriptBody_toCore (PlutusV2Body s) = Core_Plutus (PlutusV2Script_toCore s)"
| "ScriptBody_toCore (PlutusV3Body s) = Core_Plutus (PlutusV3Script_toCore s)"
| "ScriptBody_toCore (PlutusV4Body s) = Core_Plutus (PlutusV4Script_toCore s)"

definition Script_toCore :: "Script \<Rightarrow> Core_Script" where
  "Script_toCore s = ScriptBody_toCore (scr_body s)"

definition Script_fromCore :: "Core_Script \<Rightarrow> Script result" where
  "Script_fromCore coreScript = (case coreScript of
       Core_Native s \<Rightarrow> Inr (Script_new (NativeScriptBody (NativeScript_fromCore s)))
     | Core_Plutus s \<Rightarrow> (case cps_version s of
  V1 \<Rightarrow> ebind (PlutusV1Script_fromCore s) (\<lambda>p. Inr (Script_new (PlutusV1Body p)))
       |   V2 \<Rightarrow> ebind (PlutusV2Script_fromCore s) (\<lambda>p. Inr (Script_new (PlutusV2Body p)))
       |   V3 \<Rightarrow> ebind (PlutusV3Script_fromCore s) (\<lambda>p. Inr (Script_new (PlutusV3Body p)))
       |   V4 \<Rightarrow> ebind (PlutusV4Script_fromCore s) (\<lambda>p. Inr (Script_new (PlutusV4Body p)))))"

text \<open>A native script is hashed behind the byte 0.\<close>

definition NativeScript_hash :: "blake2b \<Rightarrow> NativeScript \<Rightarrow> bytes result" where
  "NativeScript_hash blake2b s = ebind (NativeScript_toCbor s) (\<lambda>cbor. Inr (blake2b (0x00 # cbor) 28))"

fun ScriptBody_hash :: "blake2b \<Rightarrow> ScriptBody \<Rightarrow> bytes result" where
  "ScriptBody_hash blake2b (NativeScriptBody s) = NativeScript_hash blake2b s"
| "ScriptBody_hash blake2b (PlutusV1Body s) = Inr (PlutusV1Script_hash blake2b s)"
| "ScriptBody_hash blake2b (PlutusV2Body s) = Inr (PlutusV2Script_hash blake2b s)"
| "ScriptBody_hash blake2b (PlutusV3Body s) = Inr (PlutusV3Script_hash blake2b s)"
| "ScriptBody_hash blake2b (PlutusV4Body s) = Inr (PlutusV4Script_hash blake2b s)"

definition Script_hash :: "blake2b \<Rightarrow> Script \<Rightarrow> bytes result" where
  "Script_hash blake2b s = ScriptBody_hash blake2b (scr_body s)"

subsection \<open>Scripts are read back\<close>

fun core_script_valid :: "Core_Script \<Rightarrow> bool" where
  "core_script_valid (Core_Native c) \<longleftrightarrow> core_script_ok c"
| "core_script_valid (Core_Plutus p) \<longleftrightarrow> small_bytes (cps_bytes p)"

definition Script_valid :: "Script \<Rightarrow> bool" where
  "Script_valid s \<longleftrightarrow> (\<exists>c. core_script_valid c \<and> Script_fromCore c = Inr s)"

lemma Script_fromCore_total: "core_script_valid c \<Longrightarrow> \<exists>s. Script_fromCore c = Inr s"
  by (cases c) (auto simp: Script_fromCore_def split: PlutusLanguageVersion.splits
      simp: PlutusV1Script_fromCore_def PlutusV2Script_fromCore_def PlutusV3Script_fromCore_def PlutusV4Script_fromCore_def)

lemma script_body_cases:
  assumes "Script_valid s"
  shows "scr_originalBytes s = None \<and> (\<exists>b y. ScriptBody_toCbor (scr_body s) = Inr b \<and> cbor_item b \<and>
    ScriptBody_fromCbor (ScriptLanguage_num (scr_body s)) b = Inr y \<and> ScriptBody_toCore y = ScriptBody_toCore (scr_body s))"
proof -
  obtain c where c: "core_script_valid c" "Script_fromCore c = Inr s"
    using assms by (auto simp: Script_valid_def)
  show ?thesis
  proof (cases c)
    case (Core_Native n)
    with c obtain b y where "NativeScript_toCbor (NativeScript_fromCore n) = Inr b" "cbor_item b"
      "NativeScript_fromCbor b = Inr y" "NativeScript_toCore y = NativeScript_toCore (NativeScript_fromCore n)"
      using native_script.encodes [of "NativeScript_fromCore n"] by auto
    with c Core_Native show ?thesis by (auto simp: Script_fromCore_def Script_new_def ScriptBody_fromCbor_def)
  next
    case (Core_Plutus p)
    with c(1) have "small_bytes (cps_bytes p)" by simp
    with c(2) Core_Plutus show ?thesis
      using plutus_v1.encodes [of "PlutusV1Script_new (cps_bytes p)"]
        plutus_v2.encodes [of "PlutusV2Script_new (cps_bytes p)"]
        plutus_v3.encodes [of "PlutusV3Script_new (cps_bytes p)"]
        plutus_v4.encodes [of "PlutusV4Script_new (cps_bytes p)"]
      by (cases "cps_version p")
        (auto simp: Script_fromCore_def Script_new_def ScriptBody_fromCbor_def PlutusV1Script_new_def PlutusV1Script_fromCore_def PlutusV2Script_new_def PlutusV2Script_fromCore_def PlutusV3Script_new_def PlutusV3Script_fromCore_def PlutusV4Script_new_def PlutusV4Script_fromCore_def)
  qed
qed

lemma ScriptLanguage_num_range [simp]: "safe_int (ScriptLanguage_num b)"
  by (cases b) simp_all

interpretation script: caching_codec Script_toCbor Script_fromCbor Script_valid Script_toCore
proof
  fix s assume "Script_valid s"
  from script_body_cases [OF this] obtain b y where b: "scr_originalBytes s = None" "ScriptBody_toCbor (scr_body s) = Inr b"
    "cbor_item b" "ScriptBody_fromCbor (ScriptLanguage_num (scr_body s)) b = Inr y"
    "ScriptBody_toCore y = ScriptBody_toCore (scr_body s)" by blast
  then show "\<exists>b. Script_toCbor s = Inr b \<and> cbor_item b \<and> (\<exists>y. Script_fromCbor b = Inr y \<and> Script_toCore y = Script_toCore s)"
    by (simp add: Script_toCbor_def Script_fromCbor_def Script_toCore_def Script_new_def writeEncodedValue_def
        write_all_def encode_def rd_simps rd_last cbor_items)
next
  fix b y assume *: "Script_fromCbor b = Inr y"
  then have "b \<noteq> []" by (auto simp: Script_fromCbor_def)
  with * show "Script_toCbor y = Inr b" by (auto simp: Script_fromCbor_def Script_toCbor_def Script_new_def)
qed

end
