(* ===== verification/Address_Text.thy ===== *)
theory Address_Text
  imports Address
begin

text \<open>
  The textual forms of addresses and of the identifiers derived from credentials
  (\<open>core/src/Cardano/Address\<close>: \<open>Address\<close>, \<open>PaymentAddress\<close>, \<open>RewardAccount\<close>, \<open>DRepID\<close>,
  \<open>PaymentCredential\<close>; \<open>core/src/Cardano/util\<close>: \<open>addressesShareAnyKey\<close>, \<open>isScriptAddress\<close>;
  \<open>util/src/primitives.ts\<close>).

  The encoders of the packages \<open>@scure/base\<close> and \<open>bech32\<close> are the parameter \<open>string_codecs\<close>;
  what the properties need of them is stated in \<open>codecs_ok\<close>.
\<close>

record string_codecs =
  base58_encode :: "bytes \<Rightarrow> string"
  base58_decode :: "string \<Rightarrow> bytes result"
  bech32_toWords :: "bytes \<Rightarrow> nat list"
  bech32_fromWords :: "nat list \<Rightarrow> bytes result"
  bech32_encode :: "string \<Rightarrow> nat list \<Rightarrow> nat \<Rightarrow> string result"
  bech32_decode :: "string \<Rightarrow> nat \<Rightarrow> (string \<times> nat list) result"
  bech32_package_decode :: "string \<Rightarrow> nat \<Rightarrow> (string \<times> nat list) result"
  crc32 :: "bytes \<Rightarrow> nat"

abbreviation (input) MAX_BECH32_LENGTH_LIMIT :: nat where "MAX_BECH32_LENGTH_LIMIT \<equiv> 1023"

definition succeeds :: "'a result \<Rightarrow> bool" where
  "succeeds m = (case m of Inl _ \<Rightarrow> False | Inr _ \<Rightarrow> True)"

lemma succeeds_simps [simp]: "succeeds (Inr x)" "\<not> succeeds (Inl e)"
  by (simp_all add: succeeds_def)

subsection \<open>Hexadecimal and bech32 strings\<close>

definition hex_digit :: "char \<Rightarrow> nat option" where
  "hex_digit c = (let n = of_char c :: nat in
     if 48 \<le> n \<and> n \<le> 57 then Some (n - 48)
     else if 97 \<le> n \<and> n \<le> 102 then Some (n - 87)
     else if 65 \<le> n \<and> n \<le> 70 then Some (n - 55) else None)"

text \<open>\<open>Buffer.from(s, 'hex')\<close> stops at the first pair that is not hexadecimal.\<close>

fun hex_decode :: "string \<Rightarrow> bytes" where
  "hex_decode (c # d # cs) = (case (hex_digit c, hex_digit d) of
     (Some x, Some y) \<Rightarrow> byte_of (16 * x + y) # hex_decode cs | _ \<Rightarrow> [])"
| "hex_decode _ = []"

definition assertIsHexString :: "string \<Rightarrow> unit result" where
  "assertIsHexString target =
     throw_if (0 < length target \<and> \<not> list_all (\<lambda>c. hex_digit c \<noteq> None) target) InvalidStringError"

definition assertIsBech32WithPrefix :: "string_codecs \<Rightarrow> string \<Rightarrow> string list \<Rightarrow> nat option \<Rightarrow> unit result" where
  "assertIsBech32WithPrefix lib target prefix expectedDecodedLength =
     (case bech32_package_decode lib target MAX_BECH32_LENGTH_LIMIT of
        Inl _ \<Rightarrow> Inl InvalidStringError
      | Inr (p, words) \<Rightarrow>
          ebind (throw_if (p \<notin> set prefix) InvalidStringError) (\<lambda>_.
          (case expectedDecodedLength of None \<Rightarrow> Inr ()
           | Some n \<Rightarrow> throw_if (n \<noteq> 0 \<and> length words \<noteq> n) InvalidStringError)))"

definition typedBech32 :: "string_codecs \<Rightarrow> string \<Rightarrow> string list \<Rightarrow> nat option \<Rightarrow> string result" where
  "typedBech32 lib target prefix expectedDecodedLength =
     ebind (assertIsBech32WithPrefix lib target prefix expectedDecodedLength) (\<lambda>_. Inr target)"

subsection \<open>Address strings\<close>

definition getBech32Prefix :: "AddressType \<Rightarrow> nat option \<Rightarrow> string result" where
  "getBech32Prefix type networkId =
     ebind (if type \<in> base_types \<union> {PointerKey, PointerScript, EnterpriseKey, EnterpriseScript} then Inr ''addr''
            else if type \<in> {RewardKey, RewardScript} then Inr ''stake''
            else Inl GenericError) (\<lambda>prefix.
       Inr (prefix @ (if networkId = Some 0 then ''_test'' else [])))"

definition Address_fromBase58 :: "string_codecs \<Rightarrow> string \<Rightarrow> AddressProps result" where
  "Address_fromBase58 lib base58Address = ebind (base58_decode lib base58Address) (Address_fromBytes (crc32 lib))"

definition Address_toBase58 :: "string_codecs \<Rightarrow> AddressProps \<Rightarrow> string result" where
  "Address_toBase58 lib a =
     (if ap_type a \<noteq> Byron then Inl GenericError
      else ebind (Address_toBytes (crc32 lib) a) (\<lambda>b. Inr (base58_encode lib b)))"

definition Address_toBech32 :: "string_codecs \<Rightarrow> AddressProps \<Rightarrow> string result" where
  "Address_toBech32 lib a =
     ebind (Address_toBytes (crc32 lib) a) (\<lambda>b.
     ebind (throw_if (ap_type a = Byron) GenericError) (\<lambda>_.
     ebind (getBech32Prefix (ap_type a) (ap_networkId a)) (\<lambda>prefix.
       bech32_encode lib prefix (bech32_toWords lib b) MAX_BECH32_LENGTH_LIMIT)))"

definition Address_fromBech32 :: "string_codecs \<Rightarrow> string \<Rightarrow> AddressProps result" where
  "Address_fromBech32 lib bech32 =
     ebind (bech32_decode lib bech32 MAX_BECH32_LENGTH_LIMIT) (\<lambda>(_, words).
     ebind (bech32_fromWords lib words) (Address_fromBytes (crc32 lib)))"

definition Address_isValidBech32 :: "string_codecs \<Rightarrow> string \<Rightarrow> bool" where
  "Address_isValidBech32 lib s = succeeds (Address_fromBech32 lib s)"

definition Address_isValidByron :: "string_codecs \<Rightarrow> string \<Rightarrow> bool" where
  "Address_isValidByron lib s =
     (case Address_fromBase58 lib s of Inl _ \<Rightarrow> False | Inr addr \<Rightarrow> ap_type addr = Byron)"

definition Address_isValid :: "string_codecs \<Rightarrow> string \<Rightarrow> bool" where
  "Address_isValid lib s \<longleftrightarrow> Address_isValidBech32 lib s \<or> Address_isValidByron lib s"

text \<open>Every exception is caught, and \<open>null\<close> returned.\<close>

definition Address_fromString :: "string_codecs \<Rightarrow> string \<Rightarrow> AddressProps option" where
  "Address_fromString lib address =
     (case (if Address_isValidBech32 lib address then Address_fromBech32 lib address
            else if Address_isValidByron lib address then Address_fromBase58 lib address
            else ebind (assertIsHexString address) (\<lambda>_. Address_fromBytes (crc32 lib) (hex_decode address))) of
        Inl _ \<Rightarrow> None | Inr a \<Rightarrow> Some a)"

definition addressNetworkId :: "string_codecs \<Rightarrow> string \<Rightarrow> nat option result" where
  "addressNetworkId lib address =
     ebind (the_field (Address_fromString lib address)) (\<lambda>a. Inr (Address_getNetworkId a))"

definition isRewardAccount :: "string_codecs \<Rightarrow> string \<Rightarrow> bool" where
  "isRewardAccount lib address = succeeds (assertIsBech32WithPrefix lib address [''stake'', ''stake_test''] None)"

subsection \<open>Reward accounts, DRep ids and payment credentials\<close>

definition RewardAccount :: "string_codecs \<Rightarrow> string \<Rightarrow> string result" where
  "RewardAccount lib value = typedBech32 lib value [''stake'', ''stake_test''] (Some 47)"

definition RewardAccount_toHash :: "string_codecs \<Rightarrow> string \<Rightarrow> bytes result" where
  "RewardAccount_toHash lib rewardAccount =
     ebind (Address_fromBech32 lib rewardAccount) (\<lambda>a.
     ebind (the_field (RewardAddress_fromAddress a)) (\<lambda>r.
     ebind (the_field (ap_paymentPart r)) (\<lambda>c. Inr (cred_hash c))))"

definition RewardAccount_fromCredential :: "string_codecs \<Rightarrow> Credential \<Rightarrow> nat \<Rightarrow> string result" where
  "RewardAccount_fromCredential lib credential networkId =
     ebind (Address_toBech32 lib (RewardAddress_fromCredentials networkId credential)) (RewardAccount lib)"

definition RewardAccount_toNetworkId :: "string_codecs \<Rightarrow> string \<Rightarrow> nat option result" where
  "RewardAccount_toNetworkId lib rewardAccount =
     ebind (Address_fromBech32 lib rewardAccount) (\<lambda>a.
     ebind (the_field (RewardAddress_fromAddress a)) (\<lambda>r. Inr (Address_getNetworkId r)))"

definition createRewardAccount :: "string_codecs \<Rightarrow> bytes \<Rightarrow> nat \<Rightarrow> string result" where
  "createRewardAccount lib stakeKeyHash networkId =
     ebind (typedHash 28 stakeKeyHash) (\<lambda>h.
     ebind (Address_toBech32 lib (RewardAddress_fromCredentials networkId \<lparr>cred_type = KeyHash, cred_hash = h\<rparr>))
       (RewardAccount lib))"

definition DRepID :: "string_codecs \<Rightarrow> string \<Rightarrow> string result" where
  "DRepID lib value =
     (case typedBech32 lib value [''drep''] (Some 47) of
        Inr v \<Rightarrow> Inr v
      | Inl _ \<Rightarrow> typedBech32 lib value [''drep'', ''drep_script''] (Some 45))"

definition DRepID_isValid :: "string_codecs \<Rightarrow> string \<Rightarrow> bool" where
  "DRepID_isValid lib value = succeeds (DRepID lib value)"

definition DRepID_cip105FromCredential :: "string_codecs \<Rightarrow> Credential \<Rightarrow> string result" where
  "DRepID_cip105FromCredential lib credential =
     bech32_encode lib (if cred_type credential = ScriptHash then ''drep_script'' else ''drep'')
       (bech32_toWords lib (cred_hash credential)) MAX_BECH32_LENGTH_LIMIT"

definition DRepID_cip129FromCredential :: "string_codecs \<Rightarrow> Credential \<Rightarrow> string result" where
  "DRepID_cip129FromCredential lib credential =
     (let header = (if cred_type credential = ScriptHash then 0x23 else 0x22)
      in bech32_encode lib ''drep'' (bech32_toWords lib (header # cred_hash credential)) MAX_BECH32_LENGTH_LIMIT)"

text \<open>\<open>String.prototype.includes\<close>.\<close>

fun string_includes :: "string \<Rightarrow> string \<Rightarrow> bool" where
  "string_includes needle [] \<longleftrightarrow> needle = []"
| "string_includes needle (c # cs) \<longleftrightarrow> take (length needle) (c # cs) = needle \<or> string_includes needle cs"

definition DRepID_toCredential :: "string_codecs \<Rightarrow> string \<Rightarrow> Credential result" where
  "DRepID_toCredential lib drepId =
     ebind (bech32_decode lib drepId MAX_BECH32_LENGTH_LIMIT) (\<lambda>(_, words).
     ebind (bech32_fromWords lib words) (\<lambda>payload.
       if length payload \<noteq> 28 \<and> length payload \<noteq> 29 then Inl GenericError
       else if length payload = 28 then
         ebind (typedHash 28 payload) (\<lambda>hash.
           Inr \<lparr>cred_type = (if string_includes ''drep_script'' drepId then ScriptHash else KeyHash), cred_hash = hash\<rparr>)
       else let header = unat (hd payload);
                isDrepGovCred = (header AND 32 = 32);
                isScriptHash = (header AND 3 = 3)
            in if \<not> isDrepGovCred then Inl GenericError
               else ebind (typedHash 28 (tl payload)) (\<lambda>hash.
                 Inr \<lparr>cred_type = (if isScriptHash then ScriptHash else KeyHash), cred_hash = hash\<rparr>)))"

definition DRepID_toCip105DRepID :: "string_codecs \<Rightarrow> string \<Rightarrow> string result" where
  "DRepID_toCip105DRepID lib drepId = ebind (DRepID_toCredential lib drepId) (DRepID_cip105FromCredential lib)"

definition DRepID_toCip129DRepID :: "string_codecs \<Rightarrow> string \<Rightarrow> string result" where
  "DRepID_toCip129DRepID lib drepId = ebind (DRepID_toCredential lib drepId) (DRepID_cip129FromCredential lib)"

definition DRepID_toAddress :: "string_codecs \<Rightarrow> string \<Rightarrow> AddressProps option result" where
  "DRepID_toAddress lib drepId =
     ebind (DRepID_toCredential lib drepId) (\<lambda>credential.
       Inr (EnterpriseAddress_fromAddress
         ((no_props (if cred_type credential = KeyHash then EnterpriseKey else EnterpriseScript))
           \<lparr>ap_paymentPart := Some credential\<rparr>)))"

definition PaymentCredential :: "string_codecs \<Rightarrow> string \<Rightarrow> string result" where
  "PaymentCredential lib value =
     (case typedBech32 lib value [''addr_vkh''] (Some 45) of
        Inr v \<Rightarrow> Inr v | Inl _ \<Rightarrow> typedBech32 lib value [''script''] (Some 45))"

definition PaymentCredential_fromCredential :: "string_codecs \<Rightarrow> Credential \<Rightarrow> string result" where
  "PaymentCredential_fromCredential lib credential =
     bech32_encode lib (if cred_type credential = KeyHash then ''addr_vkh'' else ''script'')
       (bech32_toWords lib (cred_hash credential)) 1023"

definition PaymentAddress :: "string_codecs \<Rightarrow> string \<Rightarrow> string result" where
  "PaymentAddress lib value =
     (if Address_isValid lib value then
        (if isRewardAccount lib value \<or> DRepID_isValid lib value then Inl InvalidStringError else Inr value)
      else ebind (assertIsHexString value) (\<lambda>_.
           ebind (Address_fromBytes (crc32 lib) (hex_decode value)) (\<lambda>address.
             if ap_type address = Byron then Address_toBase58 lib address else Address_toBech32 lib address)))"

definition isScriptAddress :: "string_codecs \<Rightarrow> string \<Rightarrow> bool result" where
  "isScriptAddress lib address =
     (if \<not> Address_isValidBech32 lib address then Inr False
      else ebind (Address_fromBech32 lib address) (\<lambda>a.
        let script = (\<lambda>field. map_option cred_type (Option.bind (BaseAddress_fromAddress a) field) = Some ScriptHash)
        in Inr (script ap_paymentPart \<and> script ap_delegationPart)))"

subsection \<open>Shared keys\<close>

datatype PaymentId = PaymentCredentialId "Credential option" | ByronRootId bytes
datatype StakeId = StakeCredentialId "Credential option" | PointerId "Pointer option"

record AddressKeyIDs =
  paymentId :: "PaymentId option"
  stakeId :: "StakeId option"

definition getAddressKeyIDs :: "string_codecs \<Rightarrow> string \<Rightarrow> AddressKeyIDs result" where
  "getAddressKeyIDs lib input =
     (case Address_fromString lib input of
        None \<Rightarrow> Inl InvalidStringError
      | Some a \<Rightarrow>
          if ap_type a \<in> base_types then Inr \<lparr>paymentId = Some (PaymentCredentialId (ap_paymentPart a)),
            stakeId = Some (StakeCredentialId (ap_delegationPart a))\<rparr>
          else if ap_type a = Byron then ebind (the_field (ap_byron a)) (\<lambda>c.
            Inr \<lparr>paymentId = Some (ByronRootId (bc_root c)), stakeId = None\<rparr>)
          else if ap_type a \<in> {EnterpriseKey, EnterpriseScript} then
            Inr \<lparr>paymentId = Some (PaymentCredentialId (ap_paymentPart a)), stakeId = None\<rparr>
          else if ap_type a \<in> {PointerKey, PointerScript} then
            Inr \<lparr>paymentId = Some (PaymentCredentialId (ap_paymentPart a)), stakeId = Some (PointerId (ap_pointer a))\<rparr>
          else if ap_type a \<in> {RewardKey, RewardScript} then
            Inr \<lparr>paymentId = None, stakeId = Some (StakeCredentialId (ap_paymentPart a))\<rparr>
          else Inl TypeError)"

definition same_hash :: "Credential option \<Rightarrow> Credential option \<Rightarrow> bool result" where
  "same_hash c d = ebind (the_field c) (\<lambda>c. ebind (the_field d) (\<lambda>d. Inr (cred_hash c = cred_hash d)))"

definition isPaymentIdPresentAndEquals :: "PaymentId option \<Rightarrow> PaymentId option \<Rightarrow> bool result" where
  "isPaymentIdPresentAndEquals id1 id2 =
     (case (id1, id2) of
        (Some (PaymentCredentialId c), Some (PaymentCredentialId d)) \<Rightarrow> same_hash c d
      | (Some (ByronRootId r), Some (ByronRootId s)) \<Rightarrow> Inr (r = s)
      | _ \<Rightarrow> Inr False)"

definition isStakeIdPresentAndEquals :: "StakeId option \<Rightarrow> StakeId option \<Rightarrow> bool result" where
  "isStakeIdPresentAndEquals id1 id2 =
     (case (id1, id2) of
        (Some (StakeCredentialId c), Some (StakeCredentialId d)) \<Rightarrow> same_hash c d
      | (Some (PointerId p), Some (PointerId q)) \<Rightarrow>
          ebind (the_field p) (\<lambda>p. ebind (the_field q) (\<lambda>q.
            Inr (ptr_slot p = ptr_slot q \<and> ptr_txIndex p = ptr_txIndex q \<and> ptr_certIndex p = ptr_certIndex q)))
      | _ \<Rightarrow> Inr False)"

definition addressesShareAnyKey :: "string_codecs \<Rightarrow> string \<Rightarrow> string \<Rightarrow> bool result" where
  "addressesShareAnyKey lib address1 address2 =
     (if address1 = address2 then Inr True
      else ebind (getAddressKeyIDs lib address1) (\<lambda>ids1.
           ebind (getAddressKeyIDs lib address2) (\<lambda>ids2.
           ebind (isPaymentIdPresentAndEquals (paymentId ids1) (paymentId ids2)) (\<lambda>same.
             if same then Inr True else isStakeIdPresentAndEquals (stakeId ids1) (stakeId ids2)))))"

subsection \<open>What is assumed of the encoders\<close>

definition known_prefixes :: "string set" where
  "known_prefixes = {''addr'', ''addr_test'', ''stake'', ''stake_test'', ''drep'', ''drep_script'', ''addr_vkh'', ''script''}"

text \<open>
  The conversion to five-bit words keeps the bytes and has \<open>\<lceil>8 n / 5\<rceil>\<close> words. A string with a
  lower-case prefix is the prefix, the separator and characters that are no underscore; it exists
  when its length (the checksum has six characters) is within the limit, and both decoders give
  back prefix and words. Base58 decoding inverts encoding, and the checksum has 32 bits.
\<close>

definition codecs_ok :: "string_codecs \<Rightarrow> bool" where
  "codecs_ok lib \<longleftrightarrow>
     (\<forall>b. bech32_fromWords lib (bech32_toWords lib b) = Inr b) \<and>
     (\<forall>b. length (bech32_toWords lib b) = (8 * length b + 4) div 5) \<and>
     (\<forall>p \<in> known_prefixes. \<forall>b n. length p + 7 + length (bech32_toWords lib b) \<le> n \<longrightarrow>
        (\<exists>s payload. bech32_encode lib p (bech32_toWords lib b) n = Inr s \<and>
           s = p @ ''1'' @ payload \<and> CHR ''_'' \<notin> set payload \<and>
           bech32_decode lib s n = Inr (p, bech32_toWords lib b) \<and>
           bech32_package_decode lib s n = Inr (p, bech32_toWords lib b))) \<and>
     (\<forall>b. base58_decode lib (base58_encode lib b) = Inr b) \<and>
     (\<forall>b. crc32 lib b < 4294967296)"

lemma codecs_okD:
  assumes "codecs_ok lib"
  shows "bech32_fromWords lib (bech32_toWords lib b) = Inr b"
    and "length (bech32_toWords lib b) = (8 * length b + 4) div 5"
    and "base58_decode lib (base58_encode lib b) = Inr b"
    and "\<forall>b. crc32 lib b < 4294967296"
  using assms by (simp_all add: codecs_ok_def)

lemma bech32_string:
  assumes "codecs_ok lib" and "p \<in> known_prefixes" and "length b \<le> 600"
  obtains s payload where "bech32_encode lib p (bech32_toWords lib b) 1023 = Inr s"
    "s = p @ ''1'' @ payload" "CHR ''_'' \<notin> set payload"
    "bech32_decode lib s 1023 = Inr (p, bech32_toWords lib b)"
    "bech32_package_decode lib s 1023 = Inr (p, bech32_toWords lib b)"
proof -
  have "length p \<le> 11" using assms(2) by (auto simp: known_prefixes_def)
  then have "length p + 7 + length (bech32_toWords lib b) \<le> 1023"
    using assms(3) by (simp add: codecs_okD(2) [OF assms(1)])
  with assms(1,2) that show ?thesis unfolding codecs_ok_def by blast
qed

lemma includes_prefix: "string_includes p (p @ s)"
proof (cases "p @ s")
  case (Cons a list)
  then have "take (length p) (a # list) = p" by (metis append_eq_conv_conj)
  then show ?thesis unfolding Cons by simp
qed simp

lemma includes_underscore:
  assumes "string_includes needle s" and "c \<in> set needle"
  shows "c \<in> set s"
  using assms(1)
proof (induction s)
  case (Cons d ds)
  show ?case
  proof (cases "string_includes needle ds")
    case False
    with Cons.prems have "take (length needle) (d # ds) = needle" by simp
    with assms(2) show ?thesis by (metis set_take_subset subsetD)
  qed (use Cons.IH in simp)
qed (use assms(2) in simp)

lemma vl_high_length: "n < 128 ^ k \<Longrightarrow> length (vl_high n) \<le> k"
proof (induction k arbitrary: n)
  case (Suc k)
  then have "n div 128 < 128 ^ k" by (simp add: less_mult_imp_div_less mult.commute)
  from Suc.IH [OF this] show ?case by (simp add: vl_high.simps [of n])
qed (simp add: vl_high.simps)

lemma variableLengthEncode_length:
  assumes "variableLengthEncode v = Inr e" and "v < 18446744073709551616"
  shows "length e \<le> 10"
proof -
  have v: "0 \<le> v" using assms(1) by (simp add: variableLengthEncode_def split: if_splits)
  then have "nat v div 128 < 128 ^ 9" using assms(2) by (simp add: div_less_iff_less_mult nat_less_iff)
  from vl_high_length [OF this] assms(1) v show ?thesis by (auto simp: variableLengthEncode_eq)
qed

lemma pointer_bytes_length:
  assumes "PointerAddress_packParts a = Inr b" and "ap_paymentPart a = Some p" and "length (cred_hash p) = 28"
    and "ap_pointer a = Some ptr" and "ptr_slot ptr < 18446744073709551616"
    and "ptr_txIndex ptr < 18446744073709551616" and "ptr_certIndex ptr < 18446744073709551616"
  shows "length b \<le> 59"
proof -
  obtain s t c where "variableLengthEncode (ptr_slot ptr) = Inr s" "variableLengthEncode (ptr_txIndex ptr) = Inr t"
    "variableLengthEncode (ptr_certIndex ptr) = Inr c" "b = header_byte a # cred_hash p @ s @ t @ c"
    using assms(1,2,4) by (auto simp: PointerAddress_packParts_def)
  with assms variableLengthEncode_length [of "ptr_slot ptr" s] variableLengthEncode_length [of "ptr_txIndex ptr" t]
    variableLengthEncode_length [of "ptr_certIndex ptr" c]
  show ?thesis by simp
qed

lemma shelley_bytes_length:
  assumes "shelley_valid a" and "\<forall>p. ap_pointer a = Some p \<longrightarrow> ptr_slot p < 18446744073709551616"
    and "Address_toBytes c a = Inr b"
  shows "length b \<le> 59"
  using assms(1)
proof (cases rule: shelley_validE)
  case (base n p d)
  from base_roundtrip [OF base, of c] assms(3) show ?thesis by auto
next
  case (single n p ty)
  from single_roundtrip [OF single, of c] assms(3) show ?thesis by auto
next
  case (pointer n p ptr)
  then have "ap_type a \<in> {PointerKey, PointerScript}" by (cases "cred_type p") auto
  then have "PointerAddress_packParts a = Inr b" using assms(3) by (auto simp: Address_toBytes_def)
  with pointer assms(2) show ?thesis using pointer_bytes_length [of a b p ptr] by simp
qed

text \<open>The prefix that CIP-5 gives an address.\<close>

definition address_prefix :: "AddressProps \<Rightarrow> string" where
  "address_prefix a = (if ap_type a \<in> {RewardKey, RewardScript} then ''stake'' else ''addr'') @
     (if ap_networkId a = Some 0 then ''_test'' else [])"

lemma address_prefix_known: "address_prefix a \<in> known_prefixes"
  by (simp add: known_prefixes_def address_prefix_def)

lemma shelley_prefix:
  assumes "shelley_valid a"
  shows "getBech32Prefix (ap_type a) (ap_networkId a) = Inr (address_prefix a) \<and> ap_type a \<noteq> Byron"
  using assms
proof (cases rule: shelley_validE)
  case (base n p d)
  then show ?thesis
    by (cases "cred_type p"; cases "cred_type d") (simp_all add: getBech32Prefix_def address_prefix_def)
next
  case (pointer n p ptr)
  then show ?thesis by (cases "cred_type p") (simp_all add: getBech32Prefix_def address_prefix_def)
next
  case (single n p ty)
  then show ?thesis by (cases "cred_type p") (auto simp: getBech32Prefix_def address_prefix_def)
qed

lemma bech32_address:
  assumes "codecs_ok lib" and "shelley_valid a"
    and "\<forall>p. ap_pointer a = Some p \<longrightarrow> ptr_slot p < 18446744073709551616"
  obtains b s payload where "Address_toBytes (crc32 lib) a = Inr b"
    "Address_toBech32 lib a = Inr s" "Address_fromBech32 lib s = Inr a" "s = address_prefix a @ ''1'' @ payload"
    "bech32_package_decode lib s 1023 = Inr (address_prefix a, bech32_toWords lib b)"
proof -
  obtain b where b: "Address_toBytes (crc32 lib) a = Inr b" "Address_fromBytes (crc32 lib) b = Inr a"
    using shelley_roundtrip [OF assms(2)] by blast
  have len: "length b \<le> 600" using shelley_bytes_length [OF assms(2,3) b(1)] by simp
  obtain s payload where s: "bech32_encode lib (address_prefix a) (bech32_toWords lib b) 1023 = Inr s"
    "s = address_prefix a @ ''1'' @ payload" "CHR ''_'' \<notin> set payload"
    "bech32_decode lib s 1023 = Inr (address_prefix a, bech32_toWords lib b)"
    "bech32_package_decode lib s 1023 = Inr (address_prefix a, bech32_toWords lib b)"
    by (rule bech32_string [OF assms(1) address_prefix_known len])
  show ?thesis
  proof (rule that [OF b(1) _ _ s(2,5)])
    show "Address_toBech32 lib a = Inr s"
      using b(1) s(1) shelley_prefix [OF assms(2)] by (simp add: Address_toBech32_def)
    show "Address_fromBech32 lib s = Inr a"
      using b(2) s(4) by (simp add: Address_fromBech32_def codecs_okD(1) [OF assms(1)])
  qed
qed

lemma fromString_bech32: "Address_fromBech32 lib s = Inr a \<Longrightarrow> Address_fromString lib s = Some a"
  by (simp add: Address_fromString_def Address_isValidBech32_def)

subsection \<open>Properties\<close>

text \<open>C37. A Shelley address is printed as a bech32 string with the prefix \<open>addr\<close> or \<open>stake\<close> (and
  \<open>_test\<close> on a test network), and reading the string, also through \<open>fromString\<close>, gives the address
  back; a Byron address is printed in base58 and read back.\<close>

theorem address_strings_roundtrip:
  assumes "codecs_ok lib" and "address_valid a"
    and "\<forall>p. ap_pointer a = Some p \<longrightarrow> ptr_slot p < 18446744073709551616"
  shows "if ap_type a = Byron
    then \<exists>s. Address_toBase58 lib a = Inr s \<and> Address_fromBase58 lib s = Inr a \<and> Address_isValidByron lib s
    else \<exists>s payload. Address_toBech32 lib a = Inr s \<and> s = address_prefix a @ ''1'' @ payload \<and>
      Address_fromString lib s = Some a \<and> addressNetworkId lib s = Inr (ap_networkId a)"
proof (cases "ap_byron a")
  case None
  then have valid: "shelley_valid a" using assms(2) by (simp add: address_valid_def)
  obtain b s payload where "Address_toBech32 lib a = Inr s" "Address_fromBech32 lib s = Inr a"
    "s = address_prefix a @ ''1'' @ payload"
    by (rule bech32_address [OF assms(1) valid assms(3)])
  moreover note shelley_prefix [OF valid] fromString_bech32 [of lib s a]
  ultimately show ?thesis by (auto simp: addressNetworkId_def Address_getNetworkId_def)
next
  case (Some c)
  then have a: "a = (no_props Byron)\<lparr>ap_byron := Some c\<rparr>" and valid: "byron_valid c"
    using assms(2) by (simp_all add: address_valid_def)
  have "crc32 lib (byron_bytes c) < 4294967296" using codecs_okD(4) [OF assms(1)] by blast
  from byron_roundtrip [of c "crc32 lib", OF valid this] obtain b where b: "Address_toBytes (crc32 lib) a = Inr b"
    "Address_fromBytes (crc32 lib) b = Inr a" using a by blast
  moreover have "ap_type a = Byron" by (simp add: a)
  ultimately show ?thesis
    by (simp add: Address_toBase58_def Address_fromBase58_def Address_isValidByron_def codecs_okD(3) [OF assms(1)])
qed

text \<open>A concrete instance of the encoders for the witnesses: padded words, and a payload that
  writes each word in unary.\<close>

fun unary_decode :: "nat \<Rightarrow> string \<Rightarrow> nat list" where
  "unary_decode k [] = []"
| "unary_decode k (c # cs) = (if c = CHR ''q'' then unary_decode (Suc k) cs else k # unary_decode 0 cs)"

definition unary_encode :: "nat list \<Rightarrow> string" where
  "unary_encode w = concat (map (\<lambda>k. replicate k (CHR ''q'') @ ''p'') w)"

definition example_decode :: "string \<Rightarrow> nat \<Rightarrow> (string \<times> nat list) result" where
  "example_decode s n = Inr (takeWhile (\<lambda>c. c \<noteq> CHR ''1'') s, unary_decode 0 (tl (dropWhile (\<lambda>c. c \<noteq> CHR ''1'') s)))"

definition example_codecs :: string_codecs where
  "example_codecs = \<lparr>base58_encode = \<lambda>b. map (\<lambda>x. char_of (unat x)) b,
     base58_decode = \<lambda>s. Inr (map (\<lambda>c. byte_of (of_char c)) s),
     bech32_toWords = \<lambda>b. map unat b @ replicate ((8 * length b + 4) div 5 - length b) 0,
     bech32_fromWords = \<lambda>w. Inr (map byte_of (take (5 * length w div 8) w)),
     bech32_encode = \<lambda>p w n. Inr (p @ ''1'' @ unary_encode w),
     bech32_decode = example_decode, bech32_package_decode = example_decode,
     crc32 = example_crc32\<rparr>"

lemma unary_decode_encode: "unary_decode k (replicate m (CHR ''q'') @ CHR ''p'' # cs) = (k + m) # unary_decode 0 cs"
  by (induction m arbitrary: k) simp_all

lemma unary_roundtrip: "unary_decode 0 (unary_encode w) = w"
  by (induction w) (simp_all add: unary_encode_def unary_decode_encode)

lemma example_decode_encode:
  "CHR ''1'' \<notin> set p \<Longrightarrow> example_decode (p @ CHR ''1'' # unary_encode w) n = Inr (p, w)"
  by (induction p) (auto simp: example_decode_def unary_roundtrip)

lemma example_words:
  "bech32_fromWords example_codecs (bech32_toWords example_codecs b) = Inr b"
  "length (bech32_toWords example_codecs b) = (8 * length b + 4) div 5"
proof -
  let ?n = "length b" let ?w = "(8 * ?n + 4) div 5"
  have n: "?n \<le> ?w" by (cases ?n) auto
  then have len: "length (bech32_toWords example_codecs b) = ?w" by (simp add: example_codecs_def)
  have "5 * ?w div 8 = ?n" by presburger
  with n len show "bech32_fromWords example_codecs (bech32_toWords example_codecs b) = Inr b"
    by (simp add: example_codecs_def comp_def)
  from len show "length (bech32_toWords example_codecs b) = ?w" .
qed

lemma example_codecs_ok: "codecs_ok example_codecs"
proof -
  have p: "CHR ''1'' \<notin> set p" if "p \<in> known_prefixes" for p
    using that by (auto simp: known_prefixes_def)
  have "CHR ''_'' \<notin> set (unary_encode w)" for w
    by (induction w) (auto simp: unary_encode_def)
  moreover have "map (\<lambda>c. byte_of (of_char c)) (map (\<lambda>x. char_of (unat x)) b) = b" for b :: bytes
    by (induction b) (simp_all add: of_char_of)
  ultimately show ?thesis
    using example_words example_decode_encode p unfolding codecs_ok_def
    by (auto simp: example_codecs_def example_crc32_def)
qed

theorem address_strings_roundtrip_witness:
  "\<exists>s payload. Address_toBech32 example_codecs example_pointer_address = Inr s \<and> s = ''addr1'' @ payload \<and>
     Address_fromString example_codecs s = Some example_pointer_address \<and>
     addressNetworkId example_codecs s = Inr (Some 1)"
  using address_strings_roundtrip [OF example_codecs_ok, of example_pointer_address]
  by (auto simp: example_pointer_address_def address_valid_def shelley_valid_def address_prefix_def)

lemma typedBech32_ok:
  "bech32_package_decode lib s 1023 = Inr (p, w) \<Longrightarrow> p \<in> set ps \<Longrightarrow> length w = n \<Longrightarrow>
   typedBech32 lib s ps (Some n) = Inr s"
  by (simp add: typedBech32_def assertIsBech32WithPrefix_def)

lemma reward_account_ids:
  assumes "codecs_ok lib" and "length (cred_hash c) = 28" and "n < 16"
  shows "\<exists>s. RewardAccount_fromCredential lib c n = Inr s \<and>
    RewardAccount_toHash lib s = Inr (cred_hash c) \<and> RewardAccount_toNetworkId lib s = Inr (Some n)"
proof -
  let ?a = "RewardAddress_fromCredentials n c"
  have valid: "shelley_valid ?a" by (rule fromCredentials_valid(3) [OF assms(3,2)])
  have ptr: "\<forall>p. ap_pointer ?a = Some p \<longrightarrow> ptr_slot p < 18446744073709551616"
    by (simp add: RewardAddress_fromCredentials_def RewardAddress_new_def)
  note view = fromCredentials_views(3) [of n c]
  have fields: "RewardAddress_fromAddress ?a = Some ?a" "ap_paymentPart ?a = Some c"
    using view by (auto simp: RewardAddress_fromAddress_def RewardAddress_new_def RewardAddress_fromCredentials_def
        split: if_splits)
  have ty: "ap_type ?a \<in> {RewardKey, RewardScript}" using view by blast
  then have pfx: "address_prefix ?a \<in> set [''stake'', ''stake_test'']" by (auto simp: address_prefix_def)
  obtain b s payload where s: "Address_toBytes (crc32 lib) ?a = Inr b" "Address_toBech32 lib ?a = Inr s"
    "Address_fromBech32 lib s = Inr ?a" "s = address_prefix ?a @ ''1'' @ payload"
    "bech32_package_decode lib s 1023 = Inr (address_prefix ?a, bech32_toWords lib b)"
    by (rule bech32_address [OF assms(1) valid ptr])
  have "ap_type ?a \<notin> base_types \<union> {PointerKey, PointerScript}" using ty by auto
  then have "length b = 29"
    using shelley_roundtrip [OF valid, of "crc32 lib"] s(1) by auto
  then have "length (bech32_toWords lib b) = 47" by (simp add: codecs_okD(2) [OF assms(1)])
  from typedBech32_ok [OF s(5) pfx this] have "RewardAccount lib s = Inr s" by (simp only: RewardAccount_def)
  with s(2,3) fields view show ?thesis
    by (simp add: RewardAccount_fromCredential_def RewardAccount_toHash_def RewardAccount_toNetworkId_def)
qed

lemma no_script_in_key_id:
  assumes "CHR ''_'' \<notin> set payload"
  shows "\<not> string_includes ''drep_script'' (''drep'' @ ''1'' @ payload)"
  using includes_underscore [of "''drep_script''" "''drep'' @ ''1'' @ payload" "CHR ''_''"] assms by auto

lemma drep_ids:
  assumes "codecs_ok lib" and "length (cred_hash c) = 28"
  shows "\<exists>s. DRepID_cip129FromCredential lib c = Inr s \<and> DRepID_isValid lib s \<and> DRepID_toCredential lib s = Inr c"
    and "\<exists>s. DRepID_cip105FromCredential lib c = Inr s \<and> DRepID_isValid lib s \<and> DRepID_toCredential lib s = Inr c"
proof -
  let ?h = "if cred_type c = ScriptHash then 0x23 else 0x22 :: byte"
  have bits: "(0x23 :: nat) AND 32 = 32" "(0x22 :: nat) AND 32 = 32" "(0x23 :: nat) AND 3 = 3" "(0x22 :: nat) AND 3 = 2"
    by code_simp+
  note words = codecs_okD(1,2) [OF assms(1)]
  have c: "\<lparr>cred_type = cred_type c, cred_hash = cred_hash c\<rparr> = c" by simp
  obtain s payload where s: "bech32_encode lib ''drep'' (bech32_toWords lib (?h # cred_hash c)) 1023 = Inr s"
    "s = ''drep'' @ ''1'' @ payload" "CHR ''_'' \<notin> set payload"
    "bech32_decode lib s 1023 = Inr (''drep'', bech32_toWords lib (?h # cred_hash c))"
    "bech32_package_decode lib s 1023 = Inr (''drep'', bech32_toWords lib (?h # cred_hash c))"
    by (rule bech32_string [OF assms(1), of "''drep''" "?h # cred_hash c"]) (auto simp: known_prefixes_def assms(2))
  have "DRepID lib s = Inr s"
    using typedBech32_ok [OF s(5), of "[''drep'']" 47] assms(2) by (simp add: DRepID_def words)
  then show "\<exists>s. DRepID_cip129FromCredential lib c = Inr s \<and> DRepID_isValid lib s \<and> DRepID_toCredential lib s = Inr c"
    using s(1,4) assms(2) by (cases "cred_type c"; cases c)
      (simp_all add: DRepID_cip129FromCredential_def DRepID_toCredential_def DRepID_isValid_def words bits)
  let ?p = "if cred_type c = ScriptHash then ''drep_script'' else ''drep''"
  obtain s payload where s: "bech32_encode lib ?p (bech32_toWords lib (cred_hash c)) 1023 = Inr s"
    "s = ?p @ ''1'' @ payload" "CHR ''_'' \<notin> set payload"
    "bech32_decode lib s 1023 = Inr (?p, bech32_toWords lib (cred_hash c))"
    "bech32_package_decode lib s 1023 = Inr (?p, bech32_toWords lib (cred_hash c))"
    by (rule bech32_string [OF assms(1), of ?p "cred_hash c"]) (auto simp: known_prefixes_def assms(2))
  have "typedBech32 lib s [''drep'', ''drep_script''] (Some 45) = Inr s"
    using typedBech32_ok [OF s(5), of "[''drep'', ''drep_script'']" 45] assms(2) by (simp add: words)
  then have "DRepID_isValid lib s" by (simp add: DRepID_isValid_def DRepID_def split: sum.split)
  moreover have "string_includes ''drep_script'' s \<longleftrightarrow> cred_type c = ScriptHash"
    using no_script_in_key_id [OF s(3)] includes_prefix [of "''drep_script''" "''1'' @ payload"]
    unfolding s(2) by (cases "cred_type c") simp_all
  ultimately show "\<exists>s. DRepID_cip105FromCredential lib c = Inr s \<and> DRepID_isValid lib s \<and> DRepID_toCredential lib s = Inr c"
    using s(1,4) assms(2) by (cases "cred_type c"; cases c)
      (simp_all add: DRepID_cip105FromCredential_def DRepID_toCredential_def words)
qed

text \<open>A credential can be recovered from the identifiers made of it: the reward account gives
  back hash and network, and the DRep id in the CIP-105 format as well as in the CIP-129 format is
  valid and gives back the credential, script or key.\<close>

theorem credential_ids_roundtrip:
  assumes "codecs_ok lib" and "length (cred_hash c) = 28" and "n < 16"
  shows "(\<exists>s. RewardAccount_fromCredential lib c n = Inr s \<and>
      RewardAccount_toHash lib s = Inr (cred_hash c) \<and> RewardAccount_toNetworkId lib s = Inr (Some n)) \<and>
    (\<exists>s. DRepID_cip129FromCredential lib c = Inr s \<and> DRepID_isValid lib s \<and> DRepID_toCredential lib s = Inr c) \<and>
    (\<exists>s. DRepID_cip105FromCredential lib c = Inr s \<and> DRepID_isValid lib s \<and> DRepID_toCredential lib s = Inr c)"
  using reward_account_ids [OF assms] drep_ids [OF assms(1,2)] by (intro conjI)

theorem credential_ids_roundtrip_witness:
  "\<exists>s. DRepID_cip105FromCredential example_codecs \<lparr>cred_type = ScriptHash, cred_hash = replicate 28 9\<rparr> = Inr s \<and>
     DRepID_isValid example_codecs s \<and>
     DRepID_toCredential example_codecs s = Inr \<lparr>cred_type = ScriptHash, cred_hash = replicate 28 9\<rparr>"
  using credential_ids_roundtrip [OF example_codecs_ok, of "\<lparr>cred_type = ScriptHash, cred_hash = replicate 28 9\<rparr>" 0]
  by simp

text \<open>What an address is spent with, and what it is staked with.\<close>

definition payment_key :: "AddressProps \<Rightarrow> (bytes + bytes) option" where
  "payment_key a = (if ap_type a = Byron then Some (Inl (bc_root (the (ap_byron a))))
     else if ap_type a \<in> {RewardKey, RewardScript} then None else Some (Inr (cred_hash (the (ap_paymentPart a)))))"

definition stake_key :: "AddressProps \<Rightarrow> (bytes + Pointer) option" where
  "stake_key a = (if ap_type a \<in> base_types then Some (Inl (cred_hash (the (ap_delegationPart a))))
     else if ap_type a \<in> {RewardKey, RewardScript} then Some (Inl (cred_hash (the (ap_paymentPart a))))
     else if ap_type a \<in> {PointerKey, PointerScript} then Some (Inr (the (ap_pointer a))) else None)"

text \<open>A parsed address has the parts its type calls for.\<close>

definition has_parts :: "AddressProps \<Rightarrow> bool" where
  "has_parts a \<longleftrightarrow> ap_type a \<in> base_types \<and> ap_paymentPart a \<noteq> None \<and> ap_delegationPart a \<noteq> None \<or>
     ap_type a \<in> {PointerKey, PointerScript} \<and> ap_paymentPart a \<noteq> None \<and> ap_pointer a \<noteq> None \<or>
     ap_type a \<in> {EnterpriseKey, EnterpriseScript, RewardKey, RewardScript} \<and> ap_paymentPart a \<noteq> None \<or>
     ap_type a = Byron \<and> ap_byron a \<noteq> None"

lemma unpack_has_parts:
  "BaseAddress_unpackParts t d = Inr a \<Longrightarrow> ap_type a = t \<and> ap_paymentPart a \<noteq> None \<and> ap_delegationPart a \<noteq> None"
  "PointerAddress_unpackParts t d = Inr a \<Longrightarrow> ap_type a = t \<and> ap_paymentPart a \<noteq> None \<and> ap_pointer a \<noteq> None"
  "EnterpriseAddress_unpackParts t d = Inr a \<Longrightarrow> ap_type a = t \<and> ap_paymentPart a \<noteq> None"
  "RewardAddress_unpackParts t d = Inr a \<Longrightarrow> ap_type a = t \<and> ap_paymentPart a \<noteq> None"
  "ByronAddress_unpackParts c t d = Inr a \<Longrightarrow> ap_type a = t \<and> ap_byron a \<noteq> None"
  by (auto simp: BaseAddress_unpackParts_def PointerAddress_unpackParts_def EnterpriseAddress_unpackParts_def
      RewardAddress_unpackParts_def ByronAddress_unpackParts_def split: if_splits prod.splits)

lemma fromBytes_has_parts: "Address_fromBytes c d = Inr a \<Longrightarrow> has_parts a"
  unfolding Address_fromBytes_def Let_def
  by (auto simp: has_parts_def split: if_splits dest!: unpack_has_parts)

lemma fromString_has_parts: "Address_fromString lib s = Some a \<Longrightarrow> has_parts a"
  by (auto simp: Address_fromString_def Address_fromBech32_def Address_fromBase58_def
      split: sum.splits if_splits intro: fromBytes_has_parts)

lemma getAddressKeyIDs_cases:
  assumes "Address_fromString lib s = Some a"
  shows "\<exists>ids. getAddressKeyIDs lib s = Inr ids \<and>
    paymentId ids = map_option (case_sum ByronRootId (\<lambda>_. PaymentCredentialId (ap_paymentPart a))) (payment_key a) \<and>
    stakeId ids = map_option (case_sum (\<lambda>_. StakeCredentialId (if ap_type a \<in> base_types then ap_delegationPart a
      else ap_paymentPart a)) (\<lambda>p. PointerId (Some p))) (stake_key a)"
  using fromString_has_parts [OF assms]
  by (auto simp: has_parts_def getAddressKeyIDs_def assms payment_key_def stake_key_def)

lemma pointer_eq_iff: "p = q \<longleftrightarrow> ptr_slot p = ptr_slot q \<and> ptr_txIndex p = ptr_txIndex q \<and> ptr_certIndex p = ptr_certIndex q"
  for p q :: Pointer
  by (cases p; cases q) simp

lemma payment_ids_equal:
  assumes "has_parts a" and "has_parts b"
  shows "isPaymentIdPresentAndEquals
      (map_option (case_sum ByronRootId (\<lambda>_. PaymentCredentialId (ap_paymentPart a))) (payment_key a))
      (map_option (case_sum ByronRootId (\<lambda>_. PaymentCredentialId (ap_paymentPart b))) (payment_key b)) =
    Inr (payment_key a \<noteq> None \<and> payment_key a = payment_key b)"
  using assms by (auto simp: has_parts_def payment_key_def isPaymentIdPresentAndEquals_def same_hash_def)

lemma stake_key_cases:
  assumes "has_parts a"
  obtains (none) "stake_key a = None"
  | (credential) c where "stake_key a = Some (Inl (cred_hash c))"
      "(if ap_type a \<in> base_types then ap_delegationPart a else ap_paymentPart a) = Some c"
  | (pointer) p where "stake_key a = Some (Inr p)"
  using assms by (force simp: has_parts_def stake_key_def)

lemma stake_ids_equal:
  assumes "has_parts a" and "has_parts b"
  shows "isStakeIdPresentAndEquals
      (map_option (case_sum (\<lambda>_. StakeCredentialId (if ap_type a \<in> base_types then ap_delegationPart a
        else ap_paymentPart a)) (\<lambda>p. PointerId (Some p))) (stake_key a))
      (map_option (case_sum (\<lambda>_. StakeCredentialId (if ap_type b \<in> base_types then ap_delegationPart b
        else ap_paymentPart b)) (\<lambda>p. PointerId (Some p))) (stake_key b)) =
    Inr (stake_key a \<noteq> None \<and> stake_key a = stake_key b)"
  by (rule stake_key_cases [OF assms(1)]; rule stake_key_cases [OF assms(2)])
    (simp_all only: isStakeIdPresentAndEquals_def same_hash_def pointer_eq_iff option.map sum.case option.case
      StakeId.case prod.case the_field_simps ebind_Inr option.inject sum.inject option.distinct sum.distinct simp_thms)

text \<open>C38. For two strings that are addresses, \<open>addressesShareAnyKey\<close> decides whether the strings are
  equal or the addresses are spent with the same key or script or Byron root, or are staked with the
  same credential or pointer; it never throws. In particular it is symmetric.\<close>

theorem addresses_share_any_key_decides:
  assumes "Address_fromString lib s = Some a" and "Address_fromString lib t = Some b"
  shows "addressesShareAnyKey lib s t = Inr (s = t \<or> (payment_key a \<noteq> None \<and> payment_key a = payment_key b) \<or>
    (stake_key a \<noteq> None \<and> stake_key a = stake_key b))"
proof -
  note parts = fromString_has_parts [OF assms(1)] fromString_has_parts [OF assms(2)]
  obtain i j where "getAddressKeyIDs lib s = Inr i" "getAddressKeyIDs lib t = Inr j"
    "isPaymentIdPresentAndEquals (paymentId i) (paymentId j) = Inr (payment_key a \<noteq> None \<and> payment_key a = payment_key b)"
    "isStakeIdPresentAndEquals (stakeId i) (stakeId j) = Inr (stake_key a \<noteq> None \<and> stake_key a = stake_key b)"
    using getAddressKeyIDs_cases [OF assms(1)] getAddressKeyIDs_cases [OF assms(2)]
      payment_ids_equal [OF parts] stake_ids_equal [OF parts] by metis
  then show ?thesis by (auto simp: addressesShareAnyKey_def)
qed

theorem addresses_share_any_key_decides_witness:
  "\<exists>s t. s \<noteq> t \<and> Address_toBech32 example_codecs (EnterpriseAddress_fromCredentials 1 \<lparr>cred_type = KeyHash, cred_hash = replicate 28 7\<rparr>) = Inr s \<and>
     Address_toBech32 example_codecs example_pointer_address = Inr t \<and> addressesShareAnyKey example_codecs s t = Inr True"
proof -
  let ?a = "EnterpriseAddress_fromCredentials 1 \<lparr>cred_type = KeyHash, cred_hash = replicate 28 7\<rparr>"
  let ?b = "example_pointer_address"
  have "shelley_valid ?a" by (rule fromCredentials_valid) simp_all
  moreover have "shelley_valid ?b" by (simp add: example_pointer_address_def shelley_valid_def)
  moreover have "\<forall>p. ap_pointer ?a = Some p \<longrightarrow> ptr_slot p < 18446744073709551616"
    "\<forall>p. ap_pointer ?b = Some p \<longrightarrow> ptr_slot p < 18446744073709551616"
    by (simp_all add: EnterpriseAddress_fromCredentials_def EnterpriseAddress_new_def example_pointer_address_def)
  ultimately obtain s t where s: "Address_toBech32 example_codecs ?a = Inr s" "Address_fromString example_codecs s = Some ?a"
    and t: "Address_toBech32 example_codecs ?b = Inr t" "Address_fromString example_codecs t = Some ?b"
    using bech32_address [OF example_codecs_ok, of ?a] bech32_address [OF example_codecs_ok, of ?b] fromString_bech32
    by metis
  have "payment_key ?a = payment_key ?b" "payment_key ?a \<noteq> None" "?a \<noteq> ?b"
    by (simp_all add: payment_key_def EnterpriseAddress_fromCredentials_def EnterpriseAddress_new_def example_pointer_address_def)
  with s t addresses_share_any_key_decides [OF s(2) t(2)] show ?thesis by auto
qed

end
