(* ===== verification/Tx_Output.thy ===== *)
theory Tx_Output
  imports Tx_Value Scripts Plutus_Core Address_Text
begin

text \<open>
  Datums, transaction inputs and transaction outputs
  (\<open>core/src/Serialization/Common/Datum.ts\<close>, \<open>TransactionBody/TransactionInput.ts\<close>,
  \<open>TransactionBody/TransactionOutput.ts\<close>). An output is written as an array when it has no
  reference script and no inline datum, and as a map otherwise; both forms are read.
\<close>

subsection \<open>Datum\<close>

datatype DatumKind = DataHash | InlineData

definition DatumKind_num :: "DatumKind \<Rightarrow> int" where
  "DatumKind_num k = (if k = DataHash then 0 else 1)"

record Datum =
  dat_kind :: DatumKind
  dat_dataHash :: "bytes option"
  dat_inlineData :: "PlutusData option"
  dat_originalBytes :: "bytes option"

text \<open>An empty hash is falsy.\<close>

definition truthy_bytes :: "bytes option \<Rightarrow> bool" where
  "truthy_bytes b \<longleftrightarrow> (case b of Some (x # xs) \<Rightarrow> True | _ \<Rightarrow> False)"

definition Datum_new :: "bytes option \<Rightarrow> PlutusData option \<Rightarrow> Datum result" where
  "Datum_new dataHash inlineData =
     (if truthy_bytes dataHash \<and> inlineData \<noteq> None then Inl InvalidStateError
      else if \<not> truthy_bytes dataHash \<and> inlineData = None then Inl InvalidStateError
      else Inr \<lparr>dat_kind = (if inlineData \<noteq> None then InlineData else DataHash), dat_dataHash = dataHash,
                dat_inlineData = inlineData, dat_originalBytes = None\<rparr>)"

definition Datum_newDataHash :: "bytes \<Rightarrow> Datum result" where
  "Datum_newDataHash dataHash = Datum_new (Some dataHash) None"

definition Datum_newInlineData :: "PlutusData \<Rightarrow> Datum result" where
  "Datum_newInlineData inlineData = Datum_new None (Some inlineData)"

definition Datum_toCbor :: "Datum \<Rightarrow> bytes result" where
  "Datum_toCbor d = cached (dat_originalBytes d)
     (case dat_kind d of
        DataHash \<Rightarrow> ebind (the_field (dat_dataHash d)) (\<lambda>h.
          write_all [writeStartArray (Some 2), writeInt (DatumKind_num (dat_kind d)), writeByteString h])
      | InlineData \<Rightarrow> ebind (the_field (dat_inlineData d)) (\<lambda>p.
          write_all [writeStartArray (Some 2), writeInt (DatumKind_num (dat_kind d)), writeObject (PlutusData_toCbor p)]))"

definition Datum_fromCbor :: "bytes \<Rightarrow> Datum result" where
  "Datum_fromCbor cbor =
     ebind (expectArray 2 (new_reader cbor)) (\<lambda>r.
     ebind (readUInt r) (\<lambda>(k, r).
     let kind = js_Number k in
     ebind (if kind = 0 then ebind (readByteString r) (\<lambda>(h, r). Inr ((Some h, None), r))
            else if kind = 1 then ebind (readObject PlutusData_fromCbor r) (\<lambda>(p, r). Inr ((None, Some p), r))
            else Inl InvalidArgumentError) (\<lambda>((datumHash, inlineDatum), r).
     ebind (readEndArray r) (\<lambda>r.
     ebind (Datum_new datumHash inlineDatum) (\<lambda>d.
       Inr (d\<lparr>dat_originalBytes := Some cbor\<rparr>))))))"

text \<open>A core datum is a hash (a string) or Plutus data.\<close>

datatype Core_Datum = Core_DatumHash bytes | Core_InlineDatum Core_PlutusData

definition Datum_toCore :: "Datum \<Rightarrow> Core_Datum result" where
  "Datum_toCore d = (case dat_kind d of
       DataHash \<Rightarrow> ebind (the_field (dat_dataHash d)) (\<lambda>h. Inr (Core_DatumHash h))
     | InlineData \<Rightarrow> ebind (the_field (dat_inlineData d)) (\<lambda>p.
         ebind (PlutusData_toCore p) (\<lambda>c. Inr (Core_InlineDatum c))))"

definition Datum_fromCore :: "Core_Datum \<Rightarrow> Datum result" where
  "Datum_fromCore datum = (case datum of
       Core_DatumHash h \<Rightarrow> Datum_new (Some h) None
     | Core_InlineDatum p \<Rightarrow> ebind (PlutusData_fromCore p) (\<lambda>d. Datum_new None (Some d)))"

subsection \<open>Transaction inputs\<close>

record TransactionInput =
  ti_id :: bytes
  ti_index :: int
  ti_originalBytes :: "bytes option"

definition TransactionInput_new :: "bytes \<Rightarrow> int \<Rightarrow> TransactionInput" where
  "TransactionInput_new i index = \<lparr>ti_id = i, ti_index = index, ti_originalBytes = None\<rparr>"

definition TransactionInput_toCbor :: "TransactionInput \<Rightarrow> bytes result" where
  "TransactionInput_toCbor i = cached (ti_originalBytes i)
     (write_all [writeStartArray (Some 2), writeByteString (ti_id i), writeInt (ti_index i)])"

definition TransactionInput_fromCbor :: "bytes \<Rightarrow> TransactionInput result" where
  "TransactionInput_fromCbor cbor =
     ebind (expectArray 2 (new_reader cbor)) (\<lambda>r.
     ebind (readByteString r) (\<lambda>(tx, r).
     ebind (readInt r) (\<lambda>(index, r).
       Inr ((TransactionInput_new tx index)\<lparr>ti_originalBytes := Some cbor\<rparr>))))"

record Core_TxIn =
  ctx_txId :: bytes
  ctx_index :: int

definition TransactionInput_toCore :: "TransactionInput \<Rightarrow> Core_TxIn" where
  "TransactionInput_toCore i = \<lparr>ctx_txId = ti_id i, ctx_index = js_Number_int (ti_index i)\<rparr>"

definition TransactionInput_fromCore :: "Core_TxIn \<Rightarrow> TransactionInput" where
  "TransactionInput_fromCore c = TransactionInput_new (ctx_txId c) (ctx_index c)"

definition TransactionInput_setTransactionId :: "bytes \<Rightarrow> TransactionInput \<Rightarrow> TransactionInput" where
  "TransactionInput_setTransactionId v i = i\<lparr>ti_id := v, ti_originalBytes := None\<rparr>"

definition TransactionInput_setIndex :: "int \<Rightarrow> TransactionInput \<Rightarrow> TransactionInput" where
  "TransactionInput_setIndex v i = i\<lparr>ti_index := v, ti_originalBytes := None\<rparr>"

definition TransactionInput_valid :: "TransactionInput \<Rightarrow> bool" where
  "TransactionInput_valid i \<longleftrightarrow> small_bytes (ti_id i) \<and> cbor_int (ti_index i) \<and> ti_originalBytes i = None"

interpretation tx_input: caching_codec TransactionInput_toCbor TransactionInput_fromCbor TransactionInput_valid
  "\<lambda>i. (ti_id i, ti_index i)"
proof (unfold_locales, goal_cases)
  case (1 i)
  then show ?case
    by (simp add: TransactionInput_valid_def TransactionInput_toCbor_def TransactionInput_fromCbor_def
        TransactionInput_new_def write_all_def encode_def rd_simps rd_last cbor_items)
next
  case (2 b y)
  then show ?case
    by (auto simp: TransactionInput_toCbor_def TransactionInput_fromCbor_def dest!: expectArray_nonempty)
qed

subsection \<open>Transaction outputs\<close>

record TransactionOutput =
  to_address :: AddressProps
  to_amount :: ValueObject
  to_datum :: "Datum option"
  to_scriptRef :: "Script option"
  to_originalBytes :: "bytes option"

definition TransactionOutput_new :: "AddressProps \<Rightarrow> ValueObject \<Rightarrow> TransactionOutput" where
  "TransactionOutput_new address amount = \<lparr>to_address = address, to_amount = amount, to_datum = None,
     to_scriptRef = None, to_originalBytes = None\<rparr>"

text \<open>The setters leave the cached bytes alone.\<close>

definition TransactionOutput_setDatum :: "Datum \<Rightarrow> TransactionOutput \<Rightarrow> TransactionOutput" where
  "TransactionOutput_setDatum data out = out\<lparr>to_datum := Some data\<rparr>"

definition TransactionOutput_setScriptRef :: "Script \<Rightarrow> TransactionOutput \<Rightarrow> TransactionOutput" where
  "TransactionOutput_setScriptRef script out = out\<lparr>to_scriptRef := Some script\<rparr>"

definition TransactionOutput_getMapSize :: "TransactionOutput \<Rightarrow> nat" where
  "TransactionOutput_getMapSize out =
     2 + (if to_datum out = None then 0 else 1) + (if to_scriptRef out = None then 0 else 1)"

text \<open>\<open>Buffer.from(x, 'hex')\<close> of a result, written as a byte string.\<close>

definition writeBytesOf :: "bytes result \<Rightarrow> writer_op" where
  "writeBytesOf m w = ebind m (\<lambda>b. writeByteString b w)"

definition writeDatumOption :: "Datum \<Rightarrow> writer_op" where
  "writeDatumOption d = run_ops ([writeInt 2, writeStartArray (Some 2), writeInt (DatumKind_num (dat_kind d))] @
     (case dat_kind d of
        DataHash \<Rightarrow> [writeBytesOf (the_field (dat_dataHash d))]
      | InlineData \<Rightarrow> [writeTag 24, writeBytesOf (ebind (the_field (dat_inlineData d)) PlutusData_toCbor)]))"

definition writeScriptRef :: "Script \<Rightarrow> writer_op" where
  "writeScriptRef s = run_ops [writeInt 3, writeTag 24, writeBytesOf (Script_toCbor s)]"

definition TransactionOutput_toCbor :: "(bytes \<Rightarrow> nat) \<Rightarrow> TransactionOutput \<Rightarrow> bytes result" where
  "TransactionOutput_toCbor crc out = cached (to_originalBytes out)
     (let elementsSize = TransactionOutput_getMapSize out in
      if elementsSize = 2 \<or>
         (elementsSize = 3 \<and> (case to_datum out of None \<Rightarrow> False | Some d \<Rightarrow> dat_kind d = DataHash))
      then write_all ([writeStartArray (Some elementsSize), writeBytesOf (Address_toBytes crc (to_address out)),
             writeObject (Value_toCbor (to_amount out))] @
             writes (\<lambda>d. writeBytesOf (the_field (dat_dataHash d))) (to_datum out))
      else write_all ([writeStartMap (Some elementsSize), writeInt 0,
             writeBytesOf (Address_toBytes crc (to_address out)), writeInt 1,
             writeObject (Value_toCbor (to_amount out))] @
             writes writeDatumOption (to_datum out) @ writes writeScriptRef (to_scriptRef out)))"

record OutputFields =
  of_address :: "AddressProps option"
  of_value :: "ValueObject option"
  of_datum :: "Datum option"
  of_scriptRef :: "Script option"

definition readDatumOption :: "bytes \<Rightarrow> Datum result" where
  "readDatumOption cbor =
     ebind (readStartArray (new_reader cbor)) (\<lambda>(_, r).
     ebind (readInt r) (\<lambda>(k, r).
     let datumKind = js_Number_int k in
     ebind (throw_if (datumKind \<noteq> 0 \<and> datumKind \<noteq> 1) InvalidArgumentError) (\<lambda>_.
     ebind (if datumKind = 1
            then ebind (readTag r) (\<lambda>(tag, r). ebind (throw_if (tag \<noteq> 24) InvalidArgumentError) (\<lambda>_. Inr r))
            else Inr r) (\<lambda>r.
     ebind (readByteString r) (\<lambda>(encodedDatum, r).
       if datumKind = 0 then Datum_new (Some encodedDatum) None
       else ebind (PlutusData_fromCbor encodedDatum) (\<lambda>p. Datum_new None (Some p)))))))"

definition readScriptRef :: "bytes \<Rightarrow> Script result" where
  "readScriptRef cbor =
     ebind (readTag (new_reader cbor)) (\<lambda>(tag, r).
     ebind (throw_if (tag \<noteq> 24) InvalidArgumentError) (\<lambda>_.
     ebind (readByteString r) (\<lambda>(encodedScript, r). Script_fromCbor encodedScript)))"

text \<open>One round of the loop over the map; \<open>strict\<close> is the deserialization option.\<close>

definition readOutputField ::
    "(bytes \<Rightarrow> nat) \<Rightarrow> bool \<Rightarrow> OutputFields \<Rightarrow> CborReader \<Rightarrow> (OutputFields \<times> CborReader) result" where
  "readOutputField crc strict fs r =
     ebind (readInt r) (\<lambda>(key, r).
       if key = 0 then ebind (readByteString r) (\<lambda>(b, r).
         ebind (Address_fromBytes crc b) (\<lambda>a. Inr (fs\<lparr>of_address := Some a\<rparr>, r)))
       else if key = 1 then ebind (readObject Value_fromCbor r) (\<lambda>(v, r). Inr (fs\<lparr>of_value := Some v\<rparr>, r))
       else if key = 2 then ebind (readObject readDatumOption r) (\<lambda>(d, r). Inr (fs\<lparr>of_datum := Some d\<rparr>, r))
       else if key = 3 then ebind (readObject readScriptRef r) (\<lambda>(s, r). Inr (fs\<lparr>of_scriptRef := Some s\<rparr>, r))
       else if strict then Inl SerializationError
       else ebind (skipValue r) (\<lambda>r. Inr (fs, r)))"

definition no_output_fields :: OutputFields where
  "no_output_fields = \<lparr>of_address = None, of_value = None, of_datum = None, of_scriptRef = None\<rparr>"

definition readLegacyOutput :: "(bytes \<Rightarrow> nat) \<Rightarrow> CborReader \<Rightarrow> OutputFields result" where
  "readLegacyOutput crc r =
     ebind (readStartArray r) (\<lambda>(length, r).
     ebind (readByteString r) (\<lambda>(b, r).
     ebind (Address_fromBytes crc b) (\<lambda>a.
     ebind (readObject Value_fromCbor r) (\<lambda>(v, r).
     let fs = no_output_fields\<lparr>of_address := Some a, of_value := Some v\<rparr> in
     if length = Some 3
     then ebind (readByteString r) (\<lambda>(h, r). ebind (Datum_newDataHash h) (\<lambda>d. Inr (fs\<lparr>of_datum := Some d\<rparr>)))
     else Inr fs))))"

definition TransactionOutput_fromCbor :: "(bytes \<Rightarrow> nat) \<Rightarrow> bool \<Rightarrow> bytes \<Rightarrow> TransactionOutput result" where
  "TransactionOutput_fromCbor crc strict cbor =
     ebind (peekState (new_reader cbor)) (\<lambda>(state, r).
     ebind (if state = StartMap
            then ebind (readMapWith (readOutputField crc strict) no_output_fields r) (\<lambda>(fs, r). Inr fs)
            else readLegacyOutput crc r) (\<lambda>fs.
     case (of_address fs, of_value fs) of
       (Some a, Some v) \<Rightarrow> Inr ((TransactionOutput_new a v)\<lparr>to_datum := of_datum fs, to_scriptRef := of_scriptRef fs,
                              to_originalBytes := Some cbor\<rparr>)
     | _ \<Rightarrow> Inl InvalidArgumentError))"

definition TransactionOutput_isBabbageOutput :: "(bytes \<Rightarrow> nat) \<Rightarrow> TransactionOutput \<Rightarrow> bool result" where
  "TransactionOutput_isBabbageOutput crc out =
     ebind (TransactionOutput_toCbor crc out) (\<lambda>cbor.
     ebind (peekState (new_reader cbor)) (\<lambda>(state, r). Inr (state = StartMap)))"

record Core_TxOut =
  cto_address :: string
  cto_value :: Core_Value
  cto_datum :: "Core_PlutusData option"
  cto_datumHash :: "bytes option"
  cto_scriptReference :: "Core_Script option"

definition optional :: "('a \<Rightarrow> 'b result) \<Rightarrow> 'a option \<Rightarrow> 'b option result" where
  "optional f x = (case x of None \<Rightarrow> Inr None | Some a \<Rightarrow> ebind (f a) (\<lambda>b. Inr (Some b)))"

definition TransactionOutput_toCore :: "string_codecs \<Rightarrow> TransactionOutput \<Rightarrow> Core_TxOut result" where
  "TransactionOutput_toCore lib out =
     ebind (if ap_type (to_address out) = Byron then Address_toBase58 lib (to_address out)
            else Address_toBech32 lib (to_address out)) (\<lambda>address.
     ebind (case to_datum out of
              Some d \<Rightarrow> (if dat_kind d = InlineData then optional PlutusData_toCore (dat_inlineData d) else Inr None)
            | None \<Rightarrow> Inr None) (\<lambda>datum.
       Inr \<lparr>cto_address = address, cto_value = Value_toCore (to_amount out), cto_datum = datum,
            cto_datumHash = (case to_datum out of
              Some d \<Rightarrow> if dat_kind d = DataHash then dat_dataHash d else None | None \<Rightarrow> None),
            cto_scriptReference = map_option Script_toCore (to_scriptRef out)\<rparr>))"

definition TransactionOutput_fromCore :: "string_codecs \<Rightarrow> Core_TxOut \<Rightarrow> TransactionOutput result" where
  "TransactionOutput_fromCore lib c =
     (case Address_fromString lib (cto_address c) of
        None \<Rightarrow> Inl InvalidArgumentError
      | Some address \<Rightarrow>
          ebind (Value_fromCore (cto_value c)) (\<lambda>v.
          ebind (optional (\<lambda>p. Datum_fromCore (Core_InlineDatum p)) (cto_datum c)) (\<lambda>inline.
          ebind (if truthy_bytes (cto_datumHash c)
                 then optional (\<lambda>h. Datum_fromCore (Core_DatumHash h)) (cto_datumHash c) else Inr None) (\<lambda>hash.
          ebind (optional Script_fromCore (cto_scriptReference c)) (\<lambda>script.
            Inr ((TransactionOutput_new address v)\<lparr>to_datum := (if hash \<noteq> None then hash else inline),
                   to_scriptRef := script\<rparr>))))))"

subsection \<open>Datums are read back\<close>

definition plutus_small :: "PlutusData \<Rightarrow> bool" where
  "plutus_small p \<longleftrightarrow> PlutusData_ok p \<and> (case PlutusData_toCbor p of Inr b \<Rightarrow> small_bytes b | Inl _ \<Rightarrow> False)"

definition datum_content :: "Datum \<Rightarrow> bytes option \<times> PlutusData option" where
  "datum_content d = (dat_dataHash d, map_option PlutusData_strip (dat_inlineData d))"

definition Datum_valid :: "Datum \<Rightarrow> bool" where
  "Datum_valid d \<longleftrightarrow> dat_originalBytes d = None \<and>
     (case (dat_kind d, dat_dataHash d, dat_inlineData d) of
        (DataHash, Some h, None) \<Rightarrow> h \<noteq> [] \<and> small_bytes h
      | (InlineData, None, Some p) \<Rightarrow> plutus_small p
      | _ \<Rightarrow> False)"

lemma Datum_validE:
  assumes "Datum_valid d"
  obtains (hash) h where "d = \<lparr>dat_kind = DataHash, dat_dataHash = Some h, dat_inlineData = None, dat_originalBytes = None\<rparr>"
      "h \<noteq> []" "small_bytes h"
    | (inline) p b y where "d = \<lparr>dat_kind = InlineData, dat_dataHash = None, dat_inlineData = Some p, dat_originalBytes = None\<rparr>"
      "PlutusData_toCbor p = Inr b" "small_bytes b" "cbor_item b" "PlutusData_fromCbor b = Inr y"
      "PlutusData_strip y = PlutusData_strip p"
proof (cases "dat_kind d")
  case DataHash
  with assms hash show ?thesis by (cases d) (auto simp: Datum_valid_def split: option.splits)
next
  case InlineData
  with assms obtain p where p: "plutus_small p"
    "d = \<lparr>dat_kind = InlineData, dat_dataHash = None, dat_inlineData = Some p, dat_originalBytes = None\<rparr>"
    by (cases d) (auto simp: Datum_valid_def split: option.splits)
  then obtain b y where "PlutusData_toCbor p = Inr b" "cbor_item b" "PlutusData_fromCbor b = Inr y"
    "PlutusData_strip y = PlutusData_strip p"
    using plutus_data.encodes [of p] by (auto simp: plutus_small_def)
  with p inline show ?thesis by (auto simp: plutus_small_def)
qed

lemmas Datum_new_simps = Datum_new_def Datum_newDataHash_def truthy_bytes_def DatumKind_num_def datum_content_def

interpretation datum: caching_codec Datum_toCbor Datum_fromCbor Datum_valid datum_content
proof (unfold_locales, goal_cases)
  case (1 d)
  then show ?case
  proof (cases rule: Datum_validE)
    case (hash h)
    then show ?thesis
      by (cases h) (simp_all add: Datum_toCbor_def Datum_fromCbor_def Datum_new_simps write_all_def encode_def
          rd_simps rd_last cbor_items)
  next
    case (inline p b y)
    then show ?thesis
      by (simp add: Datum_toCbor_def Datum_fromCbor_def Datum_new_simps writeObject_def writeEncodedValue_def
          readObject_def write_all_def encode_def rd_simps rd_last cbor_items)
  qed
next
  case (2 b y)
  then show ?case
    by (auto simp: Datum_toCbor_def Datum_fromCbor_def Let_def dest!: expectArray_nonempty)
qed

lemma datum_option:
  assumes "Datum_valid d"
  shows "\<exists>b y. (\<forall>w. writeDatumOption d w = Inr (w @ enc_int 2 @ b)) \<and> cbor_item b \<and> readDatumOption b = Inr y \<and>
    datum_content y = datum_content d"
  using assms
proof (cases rule: Datum_validE)
  case (hash h)
  then show ?thesis
    by (intro exI [of _ "enc_head ArrayType 2 @ enc_int 0 @ enc_bytes h"]) (cases h; simp add: writeDatumOption_def
        writeBytesOf_def readDatumOption_def Datum_new_simps rd_simps rd_last cbor_items)
next
  case (inline p b y)
  then show ?thesis
    by (intro exI [of _ "enc_head ArrayType 2 @ enc_int 1 @ enc_head TagType 24 @ enc_bytes b"])
      (simp add: writeDatumOption_def writeBytesOf_def readDatumOption_def Datum_new_simps rd_simps rd_last cbor_items)
qed

subsection \<open>Outputs are read back\<close>

definition Script_small :: "Script \<Rightarrow> bool" where
  "Script_small s \<longleftrightarrow> Script_valid s \<and> (case Script_toCbor s of Inr b \<Rightarrow> small_bytes b | Inl _ \<Rightarrow> False)"

lemma script_ref:
  assumes "Script_small s"
  shows "\<exists>b y. (\<forall>w. writeScriptRef s w = Inr (w @ enc_int 3 @ b)) \<and> cbor_item b \<and> readScriptRef b = Inr y \<and>
    Script_toCore y = Script_toCore s"
proof -
  obtain b y where b: "Script_toCbor s = Inr b" "small_bytes b" "Script_fromCbor b = Inr y" "Script_toCore y = Script_toCore s"
    using assms script.encodes [of s] by (auto simp: Script_small_def)
  then show ?thesis
    by (intro exI [of _ "enc_head TagType 24 @ enc_bytes b"])
      (simp add: writeScriptRef_def writeBytesOf_def readScriptRef_def rd_simps rd_last cbor_items)
qed

definition address_ok :: "(bytes \<Rightarrow> nat) \<Rightarrow> AddressProps \<Rightarrow> bool" where
  "address_ok crc a \<longleftrightarrow> address_valid a \<and>
     (case ap_byron a of None \<Rightarrow> True | Some c \<Rightarrow> crc (byron_bytes c) < 4294967296) \<and>
     (case Address_toBytes crc a of Inr b \<Rightarrow> small_bytes b | Inl _ \<Rightarrow> False)"

lemma address_okE:
  assumes "address_ok crc a"
  obtains b where "Address_toBytes crc a = Inr b" "small_bytes b" "Address_fromBytes crc b = Inr a"
proof (cases "ap_byron a")
  case None
  with assms that show ?thesis
    using shelley_roundtrip [of a crc] by (auto simp: address_ok_def address_valid_def)
next
  case (Some c)
  then have "a = (no_props Byron)\<lparr>ap_byron := Some c\<rparr>" "byron_valid c" "crc (byron_bytes c) < 4294967296"
    using assms by (simp_all add: address_ok_def address_valid_def)
  with assms that show ?thesis using byron_roundtrip [of c crc] by (auto simp: address_ok_def)
qed

lemma shelley_address_ok:
  assumes "shelley_valid a" and "ap_type a \<notin> {PointerKey, PointerScript}" and "ap_byron a = None"
  shows "address_ok crc a"
  using shelley_roundtrip [OF assms(1), of crc] assms by (auto simp: address_ok_def address_valid_def split: if_splits)

definition output_content ::
    "TransactionOutput \<Rightarrow> AddressProps \<times> (int \<times> tokens option) \<times> (bytes option \<times> PlutusData option) option \<times> Core_Script option" where
  "output_content out = (to_address out, (val_coin (to_amount out), val_multiasset (to_amount out)),
     map_option datum_content (to_datum out), map_option Script_toCore (to_scriptRef out))"

definition TransactionOutput_valid :: "(bytes \<Rightarrow> nat) \<Rightarrow> TransactionOutput \<Rightarrow> bool" where
  "TransactionOutput_valid crc out \<longleftrightarrow> to_originalBytes out = None \<and> address_ok crc (to_address out) \<and>
     Value_valid (to_amount out) \<and> pred_option Datum_valid (to_datum out) \<and> pred_option Script_small (to_scriptRef out)"

lemma output_entries:
  "small_bytes b \<Longrightarrow> Address_fromBytes crc b = Inr a \<Longrightarrow>
     entry_ok (readOutputField crc strict) (enc_int 0, enc_bytes b) (\<lambda>fs. fs\<lparr>of_address := Some a\<rparr>)"
  "cbor_item x \<Longrightarrow> Value_fromCbor x = Inr v \<Longrightarrow>
     entry_ok (readOutputField crc strict) (enc_int 1, x) (\<lambda>fs. fs\<lparr>of_value := Some v\<rparr>)"
  "cbor_item x \<Longrightarrow> readDatumOption x = Inr d \<Longrightarrow>
     entry_ok (readOutputField crc strict) (enc_int 2, x) (\<lambda>fs. fs\<lparr>of_datum := Some d\<rparr>)"
  "cbor_item x \<Longrightarrow> readScriptRef x = Inr s \<Longrightarrow>
     entry_ok (readOutputField crc strict) (enc_int 3, x) (\<lambda>fs. fs\<lparr>of_scriptRef := Some s\<rparr>)"
  by (simp_all add: entry_ok_def readOutputField_def readObject_def rd_simps numeral_2_eq_2)

lemma map_state: "n < 18446744073709551616 \<Longrightarrow> state_of_initial_byte (hd (enc_head MapType n @ bs)) = StartMap"
  using head_info [OF is_head_enc_head [of n MapType]]
  by (cases "enc_head MapType n") (simp_all add: state_of_initial_byte_def)

text \<open>A map is read from the entries of its fields.\<close>

lemma output_from_map:
  assumes "fields_ok (readOutputField crc strict) ops b upd n" and "n < 24"
    and "upd no_output_fields = \<lparr>of_address = Some a, of_value = Some v, of_datum = d, of_scriptRef = s\<rparr>"
  shows "TransactionOutput_fromCbor crc strict (enc_head MapType n @ b) =
    Inr \<lparr>to_address = a, to_amount = v, to_datum = d, to_scriptRef = s, to_originalBytes = Some (enc_head MapType n @ b)\<rparr>"
proof -
  have len: "n < 4503599627370496" using assms(2) by simp
  have "peekState (new_reader (enc_head MapType n @ b)) =
      Inr (StartMap, rd StartMap [] (enc_head MapType n @ b) root_frame [] False)"
    using peekState_item [OF fields_item [OF assms(1) len], of "[]"] map_state [of n b] assms(2) by simp
  with fields_read [OF assms(1) len, of root_frame no_output_fields StartMap "[]" "[]" "[]" False] assms(3)
  show ?thesis by (simp add: TransactionOutput_fromCbor_def TransactionOutput_new_def)
qed

lemma output_from_array:
  assumes "small_bytes ab" and "Address_fromBytes crc ab = Inr a" and "cbor_item vb" and "Value_fromCbor vb = Inr v"
  shows "TransactionOutput_fromCbor crc strict (enc_head ArrayType 2 @ enc_bytes ab @ vb) =
      Inr \<lparr>to_address = a, to_amount = v, to_datum = None, to_scriptRef = None,
        to_originalBytes = Some (enc_head ArrayType 2 @ enc_bytes ab @ vb)\<rparr>"
    and "h \<noteq> [] \<Longrightarrow> small_bytes h \<Longrightarrow>
      TransactionOutput_fromCbor crc strict (enc_head ArrayType 3 @ enc_bytes ab @ vb @ enc_bytes h) =
      Inr \<lparr>to_address = a, to_amount = v,
        to_datum = Some \<lparr>dat_kind = DataHash, dat_dataHash = Some h, dat_inlineData = None, dat_originalBytes = None\<rparr>,
        to_scriptRef = None,
        to_originalBytes = Some (enc_head ArrayType 3 @ enc_bytes ab @ vb @ enc_bytes h)\<rparr>"
proof -
  have 1: "peekState (new_reader b) = Inr (StartArray, rd StartArray [] b root_frame [] False)"
    if "cbor_item b" "b = enc_head ArrayType n @ rest" "n < 24" for b n rest
    using peekState_item [OF that(1), of "[]"] array_state [of n rest] that(2,3) by simp
  have "cbor_item (enc_head ArrayType 2 @ enc_bytes ab @ vb)" using assms by (simp add: cbor_items)
  from 1 [OF this refl] assms
  show "TransactionOutput_fromCbor crc strict (enc_head ArrayType 2 @ enc_bytes ab @ vb) =
      Inr \<lparr>to_address = a, to_amount = v, to_datum = None, to_scriptRef = None,
        to_originalBytes = Some (enc_head ArrayType 2 @ enc_bytes ab @ vb)\<rparr>"
    by (simp add: TransactionOutput_fromCbor_def readLegacyOutput_def readObject_def no_output_fields_def
        TransactionOutput_new_def rd_simps rd_last)
  assume h: "h \<noteq> []" "small_bytes h"
  then have "cbor_item (enc_head ArrayType 3 @ enc_bytes ab @ vb @ enc_bytes h)" using assms by (simp add: cbor_items)
  from 1 [OF this refl] assms h
  show "TransactionOutput_fromCbor crc strict (enc_head ArrayType 3 @ enc_bytes ab @ vb @ enc_bytes h) =
      Inr \<lparr>to_address = a, to_amount = v,
        to_datum = Some \<lparr>dat_kind = DataHash, dat_dataHash = Some h, dat_inlineData = None, dat_originalBytes = None\<rparr>,
        to_scriptRef = None,
        to_originalBytes = Some (enc_head ArrayType 3 @ enc_bytes ab @ vb @ enc_bytes h)\<rparr>"
    by (cases h) (simp_all add: TransactionOutput_fromCbor_def readLegacyOutput_def readObject_def no_output_fields_def
        TransactionOutput_new_def Datum_new_simps rd_simps rd_last)
qed

lemma output_set_opt:
  "of_datum fs = None \<Longrightarrow> set_opt (\<lambda>d fs. fs\<lparr>of_datum := Some d\<rparr>) x fs = fs\<lparr>of_datum := x\<rparr>"
  "of_scriptRef fs = None \<Longrightarrow> set_opt (\<lambda>d fs. fs\<lparr>of_scriptRef := Some d\<rparr>) y fs = fs\<lparr>of_scriptRef := y\<rparr>"
  by (cases x; cases y; simp add: set_opt_def)+

lemma output_as_map:
  assumes "TransactionOutput_valid crc out" and "Address_toBytes crc (to_address out) = Inr ab" and "small_bytes ab"
    and "Address_fromBytes crc ab = Inr (to_address out)"
  shows "\<exists>b y. write_all ([writeStartMap (Some (TransactionOutput_getMapSize out)), writeInt 0,
             writeBytesOf (Address_toBytes crc (to_address out)), writeInt 1, writeObject (Value_toCbor (to_amount out))] @
             writes writeDatumOption (to_datum out) @ writes writeScriptRef (to_scriptRef out)) = Inr b \<and>
      cbor_item b \<and> TransactionOutput_fromCbor crc strict b = Inr y \<and> output_content y = output_content out"
proof -
  let ?step = "readOutputField crc strict" and ?n = "TransactionOutput_getMapSize out"
  obtain vb v where v: "Value_toCbor (to_amount out) = Inr vb" "cbor_item vb" "Value_fromCbor vb = Inr v"
    "(val_coin v, val_multiasset v) = (val_coin (to_amount out), val_multiasset (to_amount out))"
    using value_codec.encodes [of "to_amount out"] assms(1) by (auto simp: TransactionOutput_valid_def)
  obtain db d where d: "fields_ok ?step (writes writeDatumOption (to_datum out)) db (set_opt (\<lambda>d fs. fs\<lparr>of_datum := Some d\<rparr>) d)
      (if to_datum out = None then 0 else 1)" "map_option datum_content d = map_option datum_content (to_datum out)"
    using fields_ok_optional [of "to_datum out" writeDatumOption "enc_int 2" ?step "\<lambda>d fs. fs\<lparr>of_datum := Some d\<rparr>" datum_content]
      datum_option output_entries(3) assms(1) unfolding TransactionOutput_valid_def by (fastforce simp: pred_option_def)
  obtain sb s where s: "fields_ok ?step (writes writeScriptRef (to_scriptRef out)) sb (set_opt (\<lambda>d fs. fs\<lparr>of_scriptRef := Some d\<rparr>) s)
      (if to_scriptRef out = None then 0 else 1)" "map_option Script_toCore s = map_option Script_toCore (to_scriptRef out)"
    using fields_ok_optional [of "to_scriptRef out" writeScriptRef "enc_int 3" ?step "\<lambda>d fs. fs\<lparr>of_scriptRef := Some d\<rparr>" Script_toCore]
      script_ref output_entries(4) assms(1) unfolding TransactionOutput_valid_def by (fastforce simp: pred_option_def)
  let ?a = "\<lambda>w. run_ops [writeInt 0, writeBytesOf (Address_toBytes crc (to_address out))] w"
  let ?v = "\<lambda>w. run_ops [writeInt 1, writeObject (Value_toCbor (to_amount out))] w"
  have a: "fields_ok ?step [?a] (enc_int 0 @ enc_bytes ab) (\<lambda>fs. fs\<lparr>of_address := Some (to_address out)\<rparr>) 1"
    using assms(2-4) by (intro fields_ok_single output_entries) (simp_all add: writeBytesOf_def)
  have v': "fields_ok ?step [?v] (enc_int 1 @ vb) (\<lambda>fs. fs\<lparr>of_value := Some v\<rparr>) 1"
    using v by (intro fields_ok_single output_entries) (simp_all add: writeObject_def writeEncodedValue_def)
  note all = fields_ok_append [OF a fields_ok_append [OF v' fields_ok_append [OF d(1) s(1)]]]
  let ?b = "(enc_int 0 @ enc_bytes ab) @ (enc_int 1 @ vb) @ db @ sb"
  have n: "1 + (1 + ((if to_datum out = None then 0 else 1) + (if to_scriptRef out = None then 0 else 1))) = ?n"
    by (simp add: TransactionOutput_getMapSize_def)
  have n24: "?n < 24" by (simp add: TransactionOutput_getMapSize_def)
  have "write_all ([writeStartMap (Some ?n), writeInt 0,
             writeBytesOf (Address_toBytes crc (to_address out)), writeInt 1, writeObject (Value_toCbor (to_amount out))] @
             writes writeDatumOption (to_datum out) @ writes writeScriptRef (to_scriptRef out)) = Inr (enc_head MapType ?n @ ?b)"
    using fields_run [OF d(1)] fields_run [OF s(1)] assms(2,3) v(1) n24
    by (simp add: write_all_def encode_def writeBytesOf_def writeObject_def writeEncodedValue_def run_ops_append)
  moreover have "cbor_item (enc_head MapType ?n @ ?b)"
    using fields_item [OF all] unfolding n using n24 by simp
  moreover have "TransactionOutput_fromCbor crc strict (enc_head MapType ?n @ ?b) =
      Inr \<lparr>to_address = to_address out, to_amount = v, to_datum = d, to_scriptRef = s,
        to_originalBytes = Some (enc_head MapType ?n @ ?b)\<rparr>"
    using all unfolding n using n24 by (rule output_from_map) (simp add: output_set_opt no_output_fields_def)
  ultimately show ?thesis
    using v(4) d(2) s(2) by (intro exI conjI) (assumption | simp add: output_content_def)+
qed

lemma output_as_array:
  assumes "TransactionOutput_valid crc out" and "Address_toBytes crc (to_address out) = Inr ab" and "small_bytes ab"
    and "Address_fromBytes crc ab = Inr (to_address out)" and "to_scriptRef out = None"
    and "case to_datum out of None \<Rightarrow> True | Some d \<Rightarrow> dat_kind d = DataHash"
  shows "\<exists>b y. write_all ([writeStartArray (Some (TransactionOutput_getMapSize out)),
             writeBytesOf (Address_toBytes crc (to_address out)), writeObject (Value_toCbor (to_amount out))] @
             writes (\<lambda>d. writeBytesOf (the_field (dat_dataHash d))) (to_datum out)) = Inr b \<and>
      cbor_item b \<and> TransactionOutput_fromCbor crc strict b = Inr y \<and> output_content y = output_content out"
proof -
  obtain vb v where v: "Value_toCbor (to_amount out) = Inr vb" "cbor_item vb" "Value_fromCbor vb = Inr v"
    "(val_coin v, val_multiasset v) = (val_coin (to_amount out), val_multiasset (to_amount out))"
    using value_codec.encodes [of "to_amount out"] assms(1) by (auto simp: TransactionOutput_valid_def)
  note ops = write_all_def encode_def writeBytesOf_def writeObject_def writeEncodedValue_def writes_def
    TransactionOutput_getMapSize_def cbor_items output_content_def
  show ?thesis
  proof (cases "to_datum out")
    case None
    with v assms output_from_array(1) [OF assms(3,4) v(2,3)] show ?thesis by (simp add: ops)
  next
    case (Some d)
    then have "Datum_valid d" using assms(1) by (simp add: TransactionOutput_valid_def)
    then show ?thesis
    proof (cases rule: Datum_validE)
      case (hash h)
      with Some v assms output_from_array(2) [OF assms(3,4) v(2,3) hash(2,3)] show ?thesis
        by (simp add: ops datum_content_def flip: numeral_3_eq_3)
    next
      case (inline p b y)
      with assms(6) Some show ?thesis by simp
    qed
  qed
qed

lemma output_caches:
  assumes "TransactionOutput_fromCbor crc strict b = Inr out"
  shows "b \<noteq> []" and "to_originalBytes out = Some b"
proof -
  show "b \<noteq> []" using assms by (auto simp: TransactionOutput_fromCbor_def readLegacyOutput_def)
  show "to_originalBytes out = Some b"
    using assms by (auto simp: TransactionOutput_fromCbor_def split: option.splits prod.splits)
qed

interpretation tx_output: caching_codec "TransactionOutput_toCbor crc" "TransactionOutput_fromCbor crc strict"
  "TransactionOutput_valid crc" output_content for crc strict
proof (unfold_locales, goal_cases)
  case (1 out)
  then obtain ab where ab: "Address_toBytes crc (to_address out) = Inr ab" "small_bytes ab"
    "Address_fromBytes crc ab = Inr (to_address out)"
    unfolding TransactionOutput_valid_def by (elim conjE address_okE)
  have none: "to_originalBytes out = None" using 1 by (simp add: TransactionOutput_valid_def)
  let ?n = "TransactionOutput_getMapSize out"
  show ?case
  proof (cases "?n = 2 \<or> (?n = 3 \<and> (case to_datum out of None \<Rightarrow> False | Some d \<Rightarrow> dat_kind d = DataHash))")
    case True
    then have "to_scriptRef out = None" "case to_datum out of None \<Rightarrow> True | Some d \<Rightarrow> dat_kind d = DataHash"
      by (auto simp: TransactionOutput_getMapSize_def split: if_splits option.splits)
    from output_as_array [OF 1 ab this] True none show ?thesis by (simp add: TransactionOutput_toCbor_def Let_def)
  next
    case False
    from output_as_map [OF 1 ab] False none show ?thesis by (auto simp: TransactionOutput_toCbor_def Let_def)
  qed
next
  case (2 b y)
  then show ?case using output_caches [OF 2] by (simp add: TransactionOutput_toCbor_def)
qed

subsection \<open>Properties\<close>

text \<open>C15. A transaction output built in memory, with any token map in normal form, any datum and any
  reference script, is written to CBOR (as an array or as a map), read back with the same address,
  coin, token map, datum and script in either mode of the reader, and what was read is written with
  the same bytes.\<close>

theorem transaction_output_roundtrip:
  assumes "TransactionOutput_valid crc out"
  shows "\<exists>b y. TransactionOutput_toCbor crc out = Inr b \<and> TransactionOutput_fromCbor crc strict b = Inr y \<and>
    output_content y = output_content out \<and> TransactionOutput_toCbor crc y = Inr b"
  using tx_output.reencode [OF assms] by blast

definition example_tokens :: tokens where
  "example_tokens = [(replicate 28 1 @ [2], 5), (replicate 28 1 @ [1, 1], 18446744073709551615), (replicate 28 2, 3)]"

definition example_address :: AddressProps where
  "example_address = (no_props EnterpriseKey)\<lparr>ap_networkId := Some 1,
     ap_paymentPart := Some \<lparr>cred_type = KeyHash, cred_hash = replicate 28 7\<rparr>\<rparr>"

definition example_output :: TransactionOutput where
  "example_output = \<lparr>to_address = example_address,
     to_amount = \<lparr>val_coin = 1500000, val_multiasset = Some example_tokens, val_originalBytes = None\<rparr>,
     to_datum = Some \<lparr>dat_kind = InlineData, dat_dataHash = None,
       dat_inlineData = Some (PlutusData (PInteger 42) None), dat_originalBytes = None\<rparr>,
     to_scriptRef = Some (Script_new (PlutusV2Body (PlutusV2Script_new [1, 2, 3]))), to_originalBytes = None\<rparr>"

lemma example_tokens_normal: "normalizeTokens example_tokens = Inr example_tokens"
  by code_simp

lemma example_tokens_valid: "tokens_valid example_tokens"
proof -
  have "tokens_ok example_tokens" by code_simp
  then show ?thesis by (simp add: tokens_valid_def example_tokens_def)
qed

lemma example_output_valid: "TransactionOutput_valid crc example_output"
proof -
  let ?s = "Script_new (PlutusV2Body (PlutusV2Script_new [1, 2, 3]))"
  have "Script_valid ?s"
    unfolding Script_valid_def
    by (intro exI [of _ "Core_Plutus \<lparr>cps_bytes = [1, 2, 3], cps_version = V2\<rparr>"])
      (simp add: Script_fromCore_def PlutusV2Script_fromCore_def)
  moreover have "Script_toCbor ?s = Inr (enc_head ArrayType 2 @ enc_int 2 @ enc_bytes [1, 2, 3])"
    by (simp add: Script_toCbor_def Script_new_def plutus_script_defs write_all_def encode_def writeEncodedValue_def)
  ultimately have "Script_small ?s"
    using length_enc_head [of ArrayType 2] length_enc_int [of 2] length_enc_bytes [of "[1, 2, 3]"] by (simp add: Script_small_def)
  moreover have "PlutusData_toCbor (PlutusData (PInteger 42) None) = Inr (enc_int 42)"
    by (simp add: writeInteger_def write_all_def encode_def)
  then have "plutus_small (PlutusData (PInteger 42) None)"
    using length_enc_int [of 42] by (simp add: plutus_small_def)
  moreover have "address_ok crc example_address"
    by (rule shelley_address_ok) (simp_all add: shelley_valid_def example_address_def)
  ultimately show ?thesis
    using example_tokens_normal example_tokens_valid
    by (simp add: TransactionOutput_valid_def example_output_def Value_valid_def Datum_valid_def)
qed

theorem transaction_output_roundtrip_witness:
  "TransactionOutput_valid example_crc32 example_output \<and>
   (\<exists>b y. TransactionOutput_toCbor example_crc32 example_output = Inr b \<and>
     TransactionOutput_fromCbor example_crc32 True b = Inr y \<and> output_content y = output_content example_output)"
  using transaction_output_roundtrip [OF example_output_valid, of example_crc32 True] example_output_valid by blast

text \<open>The setters do not drop the cached bytes: what is set on an output that was read is not written.\<close>

lemma output_setters_keep_stale_bytes:
  assumes "TransactionOutput_fromCbor crc strict b = Inr out"
  shows "TransactionOutput_toCbor crc (TransactionOutput_setDatum d out) = Inr b"
    and "TransactionOutput_toCbor crc (TransactionOutput_setScriptRef s out) = Inr b"
  using output_caches [OF assms]
  by (simp_all add: TransactionOutput_toCbor_def TransactionOutput_setDatum_def TransactionOutput_setScriptRef_def)

text \<open>A legacy output in an indefinite-length array is read without its datum hash.\<close>

lemma indefinite_legacy_output_loses_datum:
  assumes "small_bytes ab" and "Address_fromBytes crc ab = Inr a" and "cbor_item vb" and "Value_fromCbor vb = Inr v"
  shows "\<exists>out. TransactionOutput_fromCbor crc strict ((0x9f # enc_bytes ab @ vb @ enc_bytes h) @ [0xff]) = Inr out \<and> to_datum out = None"
proof -
  have "state_of_initial_byte 0x9f = StartArray" by (simp add: state_of_initial_byte_def)
  then show ?thesis using assms
    by (simp add: TransactionOutput_fromCbor_def readLegacyOutput_def readObject_def no_output_fields_def
        TransactionOutput_new_def new_reader_rd peekState_rd peekStateCore_rd rd_simps)
qed

end
