(* ===== verification/Min_Ada.thy ===== *)
theory Min_Ada
  imports Tx_Output
begin

text \<open>
  The minimum amount of lovelace of an output (\<open>tx-construction/src/fees/fees.ts\<close>). The amount
  depends on the size of the output, and the size on the amount: the code iterates until the size of
  the encoded amount is stable. The theorems say that the iteration ends, that an output
  that holds the amount returned has exactly the minimum that its own size demands, and that at the prices in use
  the minimum does not depend on the amount the output holds.
\<close>

definition MIN_ADA_CONSTANT_OVERHEAD :: int where
  "MIN_ADA_CONSTANT_OVERHEAD = 160"

text \<open>The length of \<open>serializeBigInt\<close> and of the serialized output.\<close>

definition serializeBigIntSize :: "int \<Rightarrow> int result" where
  "serializeBigIntSize i = ebind (write_all [writeInt i]) (\<lambda>b. Inr (int (length b)))"

definition serializeTxOutputSize :: "string_codecs \<Rightarrow> Core_TxOut \<Rightarrow> int result" where
  "serializeTxOutputSize lib output =
     ebind (TransactionOutput_fromCore lib output) (\<lambda>out.
     ebind (TransactionOutput_toCbor (crc32 lib) out) (\<lambda>b. Inr (int (length b))))"

text \<open>
  \<open>while (!isDone)\<close>: \<open>None\<close> would be a loop that does not end. The size of the output does not change
  in the loop and is an argument.
\<close>

partial_function (option) minAdaLoop :: "int \<Rightarrow> int \<Rightarrow> int \<Rightarrow> int \<Rightarrow> int result option" where
  "minAdaLoop outputSize coinsPerUtxoByte oldCoinSize latestSize =
     (let sizeDiff = latestSize - oldCoinSize;
          tentativeMinAda = (outputSize + MIN_ADA_CONSTANT_OVERHEAD + sizeDiff) * coinsPerUtxoByte
      in case serializeBigIntSize tentativeMinAda of
           Inl e \<Rightarrow> Some (Inl e)
         | Inr newCoinSize \<Rightarrow>
             if latestSize = newCoinSize then Some (Inr newCoinSize)
             else minAdaLoop outputSize coinsPerUtxoByte oldCoinSize newCoinSize)"

definition minAdaRequired :: "string_codecs \<Rightarrow> Core_TxOut \<Rightarrow> int \<Rightarrow> int result option" where
  "minAdaRequired lib output coinsPerUtxoByte =
     (case serializeBigIntSize (core_coins (cto_value output)) of
        Inl e \<Rightarrow> Some (Inl e)
      | Inr oldCoinSize \<Rightarrow>
          (case serializeTxOutputSize lib output of
             Inl e \<Rightarrow> Some (Inl e)
           | Inr outputSize \<Rightarrow>
               map_option (\<lambda>res. ebind res (\<lambda>latestSize.
                   Inr ((outputSize + MIN_ADA_CONSTANT_OVERHEAD + (latestSize - oldCoinSize)) * coinsPerUtxoByte)))
                 (minAdaLoop outputSize coinsPerUtxoByte oldCoinSize oldCoinSize)))"

subsection \<open>The size of an amount\<close>

definition coin_size :: "int \<Rightarrow> int" where
  "coin_size i = int (length (enc_int i))"

lemma serializeBigIntSize_eq:
  "0 \<le> i \<Longrightarrow> serializeBigIntSize i = (if i < 18446744073709551616 then Inr (coin_size i) else Inl RangeError)"
  by (simp add: serializeBigIntSize_def write_all_def encode_def coin_size_def writeInt_out_of_range cbor_int_def)

lemma coin_size_cases:
  "0 \<le> i \<Longrightarrow> coin_size i = (if i < 24 then 1 else if i < 256 then 2 else if i < 65536 then 3 else if i < 4294967296 then 5 else 9)"
  by (simp add: coin_size_def enc_int_def enc_head_def nat_less_iff)

lemma coin_size_mono: "0 \<le> i \<Longrightarrow> i \<le> j \<Longrightarrow> coin_size i \<le> coin_size j"
  by (simp add: coin_size_cases)

lemma coin_size_bounds: "0 \<le> i \<Longrightarrow> 1 \<le> coin_size i \<and> coin_size i \<le> 9"
  by (simp add: coin_size_cases)

subsection \<open>The iteration ends\<close>

definition tentative :: "int \<Rightarrow> int \<Rightarrow> int \<Rightarrow> int \<Rightarrow> int" where
  "tentative outputSize c old latest = (outputSize + MIN_ADA_CONSTANT_OVERHEAD + (latest - old)) * c"

lemma minAdaLoop_eq:
  assumes "0 \<le> tentative s c old latest"
  shows "minAdaLoop s c old latest =
    (if 18446744073709551616 \<le> tentative s c old latest then Some (Inl RangeError)
     else if latest = coin_size (tentative s c old latest) then Some (Inr latest)
     else minAdaLoop s c old (coin_size (tentative s c old latest)))"
  using assms by (subst minAdaLoop.simps) (simp add: serializeBigIntSize_eq tentative_def Let_def)

lemma tentative_mono:
  assumes "0 \<le> c" and "l \<le> l'"
  shows "tentative s c old l \<le> tentative s c old l'"
  using assms by (simp add: tentative_def mult_right_mono)

lemma tentative_nonneg:
  assumes "0 \<le> c" and "old \<le> s" and "0 \<le> l"
  shows "0 \<le> tentative s c old l"
  using assms by (simp add: tentative_def MIN_ADA_CONSTANT_OVERHEAD_def)

text \<open>The loop returns a size at which it is stable, or a \<open>RangeError\<close> for an amount above 64 bits.\<close>

definition loop_result :: "int \<Rightarrow> int \<Rightarrow> int \<Rightarrow> int result option \<Rightarrow> bool" where
  "loop_result s c old res \<longleftrightarrow>
     (\<exists>l. res = Some (Inr l) \<and> 1 \<le> l \<and> l \<le> 9 \<and> tentative s c old l < 18446744073709551616 \<and>
        l = coin_size (tentative s c old l)) \<or>
     (\<exists>l. res = Some (Inl RangeError) \<and> 1 \<le> l \<and> l \<le> 9 \<and> 18446744073709551616 \<le> tentative s c old l)"

lemma loop_up:
  assumes "0 \<le> c" and "old \<le> s" and "1 \<le> l" and "l \<le> 9" and "l \<le> coin_size (tentative s c old l)"
  shows "loop_result s c old (minAdaLoop s c old l)"
  using assms(3-5)
proof (induction "nat (9 - l)" arbitrary: l rule: less_induct)
  case less
  let ?t = "tentative s c old l"
  have nn: "0 \<le> ?t" using tentative_nonneg assms(1,2) less.prems by simp
  have b: "coin_size ?t \<le> 9" using coin_size_bounds [OF nn] by simp
  show ?case
  proof (cases "?t < 18446744073709551616 \<and> l \<noteq> coin_size ?t")
    case True
    with less.prems have lt: "l < coin_size ?t" by simp
    then have "?t \<le> tentative s c old (coin_size ?t)" using tentative_mono assms(1) by simp
    then have "coin_size ?t \<le> coin_size (tentative s c old (coin_size ?t))" using coin_size_mono nn by simp
    with less.hyps [of "coin_size ?t"] less.prems lt b have "loop_result s c old (minAdaLoop s c old (coin_size ?t))" by simp
    with True show ?thesis using minAdaLoop_eq [OF nn] by simp
  next
    case False
    then show ?thesis
      unfolding minAdaLoop_eq [OF nn] using less.prems by (auto simp: loop_result_def)
  qed
qed

lemma loop_down:
  assumes "0 \<le> c" and "old \<le> s" and "1 \<le> l" and "l \<le> 9" and "coin_size (tentative s c old l) \<le> l"
  shows "loop_result s c old (minAdaLoop s c old l)"
  using assms(3-5)
proof (induction "nat l" arbitrary: l rule: less_induct)
  case less
  let ?t = "tentative s c old l"
  have nn: "0 \<le> ?t" using tentative_nonneg assms(1,2) less.prems by simp
  have b: "1 \<le> coin_size ?t" using coin_size_bounds [OF nn] by simp
  show ?case
  proof (cases "?t < 18446744073709551616 \<and> l \<noteq> coin_size ?t")
    case True
    with less.prems have lt: "coin_size ?t < l" by simp
    have "0 \<le> tentative s c old (coin_size ?t)" using tentative_nonneg assms(1,2) b by simp
    moreover have "tentative s c old (coin_size ?t) \<le> ?t" using tentative_mono assms(1) lt by simp
    ultimately have "coin_size (tentative s c old (coin_size ?t)) \<le> coin_size ?t" using coin_size_mono by simp
    with less.hyps [of "coin_size ?t"] less.prems lt b have "loop_result s c old (minAdaLoop s c old (coin_size ?t))" by simp
    with True show ?thesis using minAdaLoop_eq [OF nn] by simp
  next
    case False
    then show ?thesis
      unfolding minAdaLoop_eq [OF nn] using less.prems by (auto simp: loop_result_def)
  qed
qed

lemma minAdaLoop_ends:
  assumes "0 \<le> c" and "old \<le> s" and "1 \<le> l" and "l \<le> 9"
  shows "loop_result s c old (minAdaLoop s c old l)"
  using loop_up [OF assms] loop_down [OF assms] by linarith

subsection \<open>The size of an output depends on its amount only through the encoded amount\<close>

definition with_coin :: "int \<Rightarrow> TransactionOutput \<Rightarrow> TransactionOutput" where
  "with_coin c out = out\<lparr>to_amount := (to_amount out)\<lparr>val_coin := c\<rparr>\<rparr>"

lemma value_bytes:
  assumes "Value_valid v"
  shows "\<exists>p q. \<forall>c. uint64 c \<longrightarrow> Value_toCbor (v\<lparr>val_coin := c\<rparr>) = Inr (p @ enc_int c @ q)"
proof (cases "val_multiasset v")
  case None
  with assms show ?thesis
    by (intro exI [of _ "[]"]) (simp add: Value_valid_def Value_toCbor_def write_all_def encode_def)
next
  case (Some tm)
  with assms have tm: "tokens_valid tm" "val_originalBytes v = None" by (simp_all add: Value_valid_def)
  then obtain m where m: "tokenMapToMultiAsset tm = Inr m" "ma_ok m" "mset (flatten m) = mset tm"
    using tokenMapToMultiAsset_ok by (auto simp: tokens_valid_def)
  have "ma_valid (\<lambda>q. uint64 q) m"
    using coin_amounts.grouped_valid [OF _ _ m(2,3)] tm(1) by (simp add: tokens_valid_def)
  with tm m(1) Some show ?thesis
    by (intro exI [of _ "enc_head ArrayType 2"] exI [of _ "ma_bytes m"], cases tm)
      (simp_all add: tokens_valid_def Value_toCbor_def write_all_def encode_def coin_amounts.writeMultiassets_bytes)
qed

lemma optional_writes:
  assumes "\<And>a. x = Some a \<Longrightarrow> \<exists>b. \<forall>w. f a w = Inr (w @ b)"
  shows "\<exists>b. \<forall>w. run_ops (writes f x) w = Inr (w @ b)"
  using assms by (cases x) (auto simp: writes_def)

lemma output_bytes:
  assumes "TransactionOutput_valid crc out"
  shows "\<exists>p q. \<forall>c. uint64 c \<longrightarrow> TransactionOutput_toCbor crc (with_coin c out) = Inr (p @ enc_int c @ q)"
proof -
  obtain ab where ab: "Address_toBytes crc (to_address out) = Inr ab" "small_bytes ab"
    using assms unfolding TransactionOutput_valid_def by (elim conjE address_okE)
  obtain p q where v: "\<And>c. uint64 c \<Longrightarrow> Value_toCbor ((to_amount out)\<lparr>val_coin := c\<rparr>) = Inr (p @ enc_int c @ q)"
    using value_bytes [of "to_amount out"] assms by (auto simp: TransactionOutput_valid_def)
  obtain db where db: "\<And>w. run_ops (writes writeDatumOption (to_datum out)) w = Inr (w @ db)"
    using optional_writes [of "to_datum out" writeDatumOption] datum_option assms
    unfolding TransactionOutput_valid_def by (metis option.pred_inject(2))
  obtain sb where sb: "\<And>w. run_ops (writes writeScriptRef (to_scriptRef out)) w = Inr (w @ sb)"
    using optional_writes [of "to_scriptRef out" writeScriptRef] script_ref assms
    unfolding TransactionOutput_valid_def by (metis option.pred_inject(2))
  have h: "\<exists>b. \<forall>w. writeBytesOf (the_field (dat_dataHash d)) w = Inr (w @ b)"
    if "to_datum out = Some d" "dat_kind d = DataHash" for d
  proof -
    have "Datum_valid d" using that(1) assms by (simp add: TransactionOutput_valid_def)
    then show ?thesis by (cases rule: Datum_validE) (use that(2) in \<open>auto simp: writeBytesOf_def\<close>)
  qed
  let ?n = "TransactionOutput_getMapSize out"
  have n: "?n < 24" "TransactionOutput_getMapSize (with_coin c out) = ?n" for c
    by (simp_all add: TransactionOutput_getMapSize_def with_coin_def)
  note ops = write_all_def encode_def writeBytesOf_def writeObject_def writeEncodedValue_def run_ops_append
  have none: "to_originalBytes out = None" using assms by (simp add: TransactionOutput_valid_def)
  show ?thesis
  proof (cases "?n = 2 \<or> (?n = 3 \<and> (case to_datum out of None \<Rightarrow> False | Some d \<Rightarrow> dat_kind d = DataHash))")
    case True
    then have "\<And>d. to_datum out = Some d \<Longrightarrow> dat_kind d = DataHash"
      by (auto simp: TransactionOutput_getMapSize_def split: if_splits)
    then obtain hb where hb: "\<And>w. run_ops (writes (\<lambda>d. writeBytesOf (the_field (dat_dataHash d))) (to_datum out)) w = Inr (w @ hb)"
      using optional_writes [of "to_datum out" "\<lambda>d. writeBytesOf (the_field (dat_dataHash d))"] h by blast
    have "TransactionOutput_toCbor crc (with_coin c out) =
        Inr ((enc_head ArrayType ?n @ enc_bytes ab @ p) @ enc_int c @ q @ hb)" if "uint64 c" for c
      using True n that none ab v [OF that] hb unfolding TransactionOutput_toCbor_def n(2)
      by (simp add: ops with_coin_def Let_def)
    then show ?thesis by blast
  next
    case False
    have "TransactionOutput_toCbor crc (with_coin c out) =
        Inr ((enc_head MapType ?n @ enc_int 0 @ enc_bytes ab @ enc_int 1 @ p) @ enc_int c @ q @ db @ sb)" if "uint64 c" for c
      using False n that none ab v [OF that] db sb unfolding TransactionOutput_toCbor_def n(2)
      by (auto simp: ops with_coin_def Let_def)
    then show ?thesis by blast
  qed
qed

lemma fromCore_with_coin:
  assumes "TransactionOutput_fromCore lib output = Inr out"
  shows "TransactionOutput_fromCore lib (output\<lparr>cto_value := (cto_value output)\<lparr>core_coins := c\<rparr>\<rparr>) = Inr (with_coin c out)"
    and "val_coin (to_amount out) = core_coins (cto_value output)"
  using assms
  by (auto simp: TransactionOutput_fromCore_def with_coin_def TransactionOutput_new_def Value_fromCore_def Value_new_def
      split: option.splits)

lemma fromCore_size:
  assumes "TransactionOutput_fromCore lib output = Inr out" and "TransactionOutput_valid (crc32 lib) out"
  shows "\<exists>k \<ge> 0. \<forall>c. uint64 c \<longrightarrow>
    serializeTxOutputSize lib (output\<lparr>cto_value := (cto_value output)\<lparr>core_coins := c\<rparr>\<rparr>) = Inr (k + coin_size c)"
proof -
  obtain p q where "\<And>c. uint64 c \<Longrightarrow> TransactionOutput_toCbor (crc32 lib) (with_coin c out) = Inr (p @ enc_int c @ q)"
    using output_bytes [OF assms(2)] by blast
  then show ?thesis
    by (intro exI [of _ "int (length p + length q)"])
      (simp add: serializeTxOutputSize_def fromCore_with_coin(1) [OF assms(1)] coin_size_def)
qed

subsection \<open>Where the amount does not matter\<close>

text \<open>
  At the prices and sizes that occur, every amount the loop looks at takes five bytes.
\<close>

lemma loop_result_five:
  assumes "loop_result s c old res" and "410 \<le> c" and "old \<le> s" and "(169 + (s - old)) * c < 4294967296"
  shows "res = Some (Inr 5)"
proof -
  have t: "65536 \<le> tentative s c old l \<and> tentative s c old l < 4294967296" if "1 \<le> l" "l \<le> 9" for l
  proof -
    have "160 * 410 \<le> (s + 160 + (l - old)) * c" using assms(2,3) that by (intro mult_mono) auto
    moreover have "(s + 160 + (l - old)) * c \<le> (169 + (s - old)) * c" using assms(2) that by (intro mult_right_mono) auto
    ultimately show ?thesis using assms(4) by (simp add: tentative_def MIN_ADA_CONSTANT_OVERHEAD_def)
  qed
  then have "coin_size (tentative s c old l) = 5" if "1 \<le> l" "l \<le> 9" for l
    using that coin_size_cases [of "tentative s c old l"] by force
  with t assms(1) show ?thesis unfolding loop_result_def by (smt (verit))
qed

subsection \<open>Properties\<close>

text \<open>C16. The iteration that computes the minimum amount of an output always ends. Its result, when
  it is not the \<open>RangeError\<close> of an amount above 64 bits, is the amount that the ledger demands of
  the output once it holds that amount: the price per byte times the overhead plus the size of the
  output with this very amount in it.\<close>

theorem min_ada_is_consistent:
  assumes "TransactionOutput_fromCore lib output = Inr out" and "TransactionOutput_valid (crc32 lib) out"
    and "0 \<le> coinsPerUtxoByte"
  shows "minAdaRequired lib output coinsPerUtxoByte = Some (Inl RangeError) \<or>
    (\<exists>m size. minAdaRequired lib output coinsPerUtxoByte = Some (Inr m) \<and> uint64 m \<and>
      serializeTxOutputSize lib (output\<lparr>cto_value := (cto_value output)\<lparr>core_coins := m\<rparr>\<rparr>) = Inr size \<and>
      m = (160 + size) * coinsPerUtxoByte)"
proof -
  let ?old = "core_coins (cto_value output)"
  have u: "uint64 ?old" using assms(2) fromCore_with_coin(2) [OF assms(1)]
    by (simp add: TransactionOutput_valid_def Value_valid_def)
  obtain k where k: "0 \<le> k" "\<And>c. uint64 c \<Longrightarrow>
      serializeTxOutputSize lib (output\<lparr>cto_value := (cto_value output)\<lparr>core_coins := c\<rparr>\<rparr>) = Inr (k + coin_size c)"
    using fromCore_size [OF assms(1,2)] by blast
  let ?s = "k + coin_size ?old"
  have size: "serializeTxOutputSize lib output = Inr ?s" using k(2) [OF u] by simp
  have res: "loop_result ?s coinsPerUtxoByte (coin_size ?old)
      (minAdaLoop ?s coinsPerUtxoByte (coin_size ?old) (coin_size ?old))"
    using assms(3) k(1) coin_size_bounds u by (intro minAdaLoop_ends) auto
  have eq: "minAdaRequired lib output coinsPerUtxoByte =
      map_option (\<lambda>res. ebind res (\<lambda>l. Inr (tentative ?s coinsPerUtxoByte (coin_size ?old) l)))
        (minAdaLoop ?s coinsPerUtxoByte (coin_size ?old) (coin_size ?old))"
    using u size by (simp add: minAdaRequired_def serializeBigIntSize_eq tentative_def)
  from res [unfolded loop_result_def] show ?thesis
  proof (elim disjE exE conjE)
    fix l
    assume l: "minAdaLoop ?s coinsPerUtxoByte (coin_size ?old) (coin_size ?old) = Some (Inr l)" "1 \<le> l"
      "tentative ?s coinsPerUtxoByte (coin_size ?old) l < 18446744073709551616"
      "l = coin_size (tentative ?s coinsPerUtxoByte (coin_size ?old) l)"
    let ?m = "tentative ?s coinsPerUtxoByte (coin_size ?old) l"
    have m: "uint64 ?m" using tentative_nonneg assms(3) k(1) l(2,3) by simp
    have "?m = (160 + (k + coin_size ?m)) * coinsPerUtxoByte"
      unfolding l(4) [symmetric] by (simp add: tentative_def MIN_ADA_CONSTANT_OVERHEAD_def algebra_simps)
    with eq l(1) m k(2) [OF m] show ?thesis by auto
  qed (simp add: eq)
qed

definition example_txout :: "string \<Rightarrow> Core_TxOut" where
  "example_txout s = \<lparr>cto_address = s, cto_value = \<lparr>core_coins = 1000000, core_assets = Some example_tokens\<rparr>,
     cto_datum = None, cto_datumHash = Some (replicate 32 9), cto_scriptReference = None\<rparr>"

lemma example_txout_valid:
  "\<exists>s out. TransactionOutput_fromCore example_codecs (example_txout s) = Inr out \<and>
     TransactionOutput_valid (crc32 example_codecs) out"
proof -
  have valid: "shelley_valid example_address" by (simp add: shelley_valid_def example_address_def)
  obtain s where s: "Address_fromBech32 example_codecs s = Inr example_address"
    by (rule bech32_address [OF example_codecs_ok valid]) (simp add: example_address_def)
  obtain t ts where ts: "example_tokens = t # ts" by (simp add: example_tokens_def)
  have "Value_fromCore \<lparr>core_coins = 1000000, core_assets = Some example_tokens\<rparr> =
      Inr \<lparr>val_coin = 1000000, val_multiasset = Some example_tokens, val_originalBytes = None\<rparr>"
    using example_tokens_normal unfolding ts by (simp add: Value_fromCore_def Value_new_def normalMultiasset_def)
  moreover have "address_ok crc example_address" for crc
    by (rule shelley_address_ok) (simp_all add: shelley_valid_def example_address_def)
  moreover have "truthy_bytes (Some (replicate 32 9))" by (simp add: truthy_bytes_def eval_nat_numeral)
  ultimately show ?thesis
    using fromString_bech32 [OF s] example_tokens_normal example_tokens_valid
    by (intro exI [of _ s]) (simp add: TransactionOutput_fromCore_def example_txout_def optional_def Datum_fromCore_def
        Datum_new_def TransactionOutput_new_def TransactionOutput_valid_def Value_valid_def Datum_valid_def)
qed

theorem min_ada_is_consistent_witness:
  "\<exists>s out. TransactionOutput_fromCore example_codecs (example_txout s) = Inr out \<and>
     TransactionOutput_valid (crc32 example_codecs) out \<and>
     (minAdaRequired example_codecs (example_txout s) 4310 = Some (Inl RangeError) \<or>
      (\<exists>m size. minAdaRequired example_codecs (example_txout s) 4310 = Some (Inr m) \<and> uint64 m \<and>
        serializeTxOutputSize example_codecs
          ((example_txout s)\<lparr>cto_value := (cto_value (example_txout s))\<lparr>core_coins := m\<rparr>\<rparr>) = Inr size \<and>
        m = (160 + size) * 4310))"
proof -
  obtain s out where o: "TransactionOutput_fromCore example_codecs (example_txout s) = Inr out"
    "TransactionOutput_valid (crc32 example_codecs) out"
    using example_txout_valid by blast
  with min_ada_is_consistent [OF o, of 4310] show ?thesis by auto
qed

text \<open>C33. The minimum amount of an output does not depend on the amount it holds, and there is one: at a price
  of 410 lovelace a byte or more, and as long as the price times the size of the output and its overhead stays below
  \<open>2 ^ 32\<close> lovelace, the code returns the same minimum for the output with any amount in it. So the change
  computation may ask for the minimum of a bundle before its coin is known.\<close>

theorem min_ada_ignores_amount:
  assumes "TransactionOutput_fromCore lib output = Inr out" and "TransactionOutput_valid (crc32 lib) out"
    and "410 \<le> coinsPerUtxoByte" and "serializeTxOutputSize lib output = Inr n"
    and "(169 + n) * coinsPerUtxoByte < 2 ^ 32"
  shows "\<exists>m. minAdaRequired lib output coinsPerUtxoByte = Some (Inr m) \<and>
    (\<forall>c. uint64 c \<longrightarrow> minAdaRequired lib (output\<lparr>cto_value := (cto_value output)\<lparr>core_coins := c\<rparr>\<rparr>) coinsPerUtxoByte = Some (Inr m))"
proof -
  let ?old = "core_coins (cto_value output)" and ?with = "\<lambda>c. output\<lparr>cto_value := (cto_value output)\<lparr>core_coins := c\<rparr>\<rparr>"
  have u: "uint64 ?old" using assms(2) fromCore_with_coin(2) [OF assms(1)]
    by (simp add: TransactionOutput_valid_def Value_valid_def)
  obtain k where k: "0 \<le> k" "\<And>c. uint64 c \<Longrightarrow> serializeTxOutputSize lib (?with c) = Inr (k + coin_size c)"
    using fromCore_size [OF assms(1,2)] by blast
  have "n = k + coin_size ?old" using k(2) [OF u] assms(4) by simp
  then have "(169 + k) * coinsPerUtxoByte \<le> (169 + n) * coinsPerUtxoByte"
    using coin_size_bounds [of ?old] u assms(3) by (intro mult_right_mono) auto
  then have small: "(169 + k) * coinsPerUtxoByte < 4294967296" using assms(5) by simp
  have "minAdaRequired lib (?with c) coinsPerUtxoByte = Some (Inr ((165 + k) * coinsPerUtxoByte))" if c: "uint64 c" for c
  proof -
    let ?s = "k + coin_size c"
    have cs: "1 \<le> coin_size c" "coin_size c \<le> 9" using coin_size_bounds c by simp_all
    have "loop_result ?s coinsPerUtxoByte (coin_size c) (minAdaLoop ?s coinsPerUtxoByte (coin_size c) (coin_size c))"
      using assms(3) k(1) cs by (intro minAdaLoop_ends) auto
    then have "minAdaLoop ?s coinsPerUtxoByte (coin_size c) (coin_size c) = Some (Inr 5)"
      by (rule loop_result_five) (use assms(3) k(1) small in simp_all)
    then show ?thesis using c k(2) [OF c]
      by (simp add: minAdaRequired_def serializeBigIntSize_eq MIN_ADA_CONSTANT_OVERHEAD_def algebra_simps)
  qed
  moreover from this [OF u] have "minAdaRequired lib output coinsPerUtxoByte = Some (Inr ((165 + k) * coinsPerUtxoByte))" by simp
  ultimately show ?thesis by blast
qed

definition plain_txout :: "string \<Rightarrow> Core_TxOut" where
  "plain_txout s = \<lparr>cto_address = s, cto_value = \<lparr>core_coins = 1000000, core_assets = None\<rparr>,
     cto_datum = None, cto_datumHash = None, cto_scriptReference = None\<rparr>"

lemma plain_txout_valid:
  "\<exists>s out. TransactionOutput_fromCore example_codecs (plain_txout s) = Inr out \<and>
     TransactionOutput_valid (crc32 example_codecs) out \<and> serializeTxOutputSize example_codecs (plain_txout s) = Inr 37"
proof -
  let ?out = "TransactionOutput_new example_address \<lparr>val_coin = 1000000, val_multiasset = None, val_originalBytes = None\<rparr>"
  have valid: "shelley_valid example_address" by (simp add: shelley_valid_def example_address_def)
  obtain s where s: "Address_fromBech32 example_codecs s = Inr example_address"
    by (rule bech32_address [OF example_codecs_ok valid]) (simp add: example_address_def)
  have out: "TransactionOutput_fromCore example_codecs (plain_txout s) = Inr ?out"
    using fromString_bech32 [OF s] by (simp add: TransactionOutput_fromCore_def plain_txout_def optional_def Value_fromCore_def
        Value_new_def normalMultiasset_def TransactionOutput_new_def)
  have "address_ok crc example_address" for crc
    by (rule shelley_address_ok) (simp_all add: shelley_valid_def example_address_def)
  then have "TransactionOutput_valid (crc32 example_codecs) ?out"
    by (simp add: TransactionOutput_valid_def TransactionOutput_new_def Value_valid_def)
  moreover have bytes: "Address_toBytes crc example_address = Inr (0x61 # replicate 28 7)" for crc by code_simp
  have "map_sum id length (TransactionOutput_toCbor (crc32 example_codecs) ?out) = Inr 37"
    by (simp add: TransactionOutput_toCbor_def TransactionOutput_getMapSize_def TransactionOutput_new_def bytes Value_toCbor_def
        write_all_def encode_def writeBytesOf_def writeObject_def writeEncodedValue_def writes_def enc_head_def enc_bytes_def enc_int_def cbor_int_def)
  then have "serializeTxOutputSize example_codecs (plain_txout s) = Inr 37"
    by (cases "TransactionOutput_toCbor (crc32 example_codecs) ?out") (auto simp: serializeTxOutputSize_def out)
  ultimately show ?thesis using out by blast
qed

theorem min_ada_ignores_amount_witness:
  "\<exists>s m. minAdaRequired example_codecs (plain_txout s) 4310 = Some (Inr m) \<and>
     minAdaRequired example_codecs ((plain_txout s)\<lparr>cto_value := (cto_value (plain_txout s))\<lparr>core_coins := 0\<rparr>\<rparr>) 4310 = Some (Inr m)"
proof -
  obtain s out where o: "TransactionOutput_fromCore example_codecs (plain_txout s) = Inr out"
    "TransactionOutput_valid (crc32 example_codecs) out" "serializeTxOutputSize example_codecs (plain_txout s) = Inr 37"
    using plain_txout_valid by blast
  obtain m where m: "minAdaRequired example_codecs (plain_txout s) 4310 = Some (Inr m)"
    "\<forall>c. uint64 c \<longrightarrow> minAdaRequired example_codecs ((plain_txout s)\<lparr>cto_value := (cto_value (plain_txout s))\<lparr>core_coins := c\<rparr>\<rparr>) 4310 = Some (Inr m)"
    using min_ada_ignores_amount [OF o(1,2) _ o(3), of 4310] by auto
  show ?thesis using m(1) m(2) [rule_format, of 0] by (intro exI [of _ s] exI [of _ m]) simp
qed

end
