(* ===== verification/Pool_Params.thy ===== *)
theory Pool_Params
  imports Cert_Fields
begin

text \<open>
  Stake pool parameters (\<open>core/src/Serialization/Certificates/PoolParams\<close>): the three relay classes
  and the dispatching \<open>Relay\<close>, pool metadata, and \<open>PoolParams\<close> with its flattened form inside a
  pool registration certificate.

  Validity of IP addresses and the conversion of IPv6 addresses (package \<open>ip-address\<close>) are the
  parameter \<open>ip_lib\<close>; the conversion of IPv4 addresses is the code's own and is modelled.
\<close>

subsection \<open>IP addresses\<close>

record ip_lib =
  ipv4_isValid :: "string \<Rightarrow> bool"
  ipv6_isValid :: "string \<Rightarrow> bool"
  ipv6_toUnsignedByteArray :: "string \<Rightarrow> bytes"
  ipv6_canonicalForm :: "bytes \<Rightarrow> string result"

text \<open>\<open>address.split('.')\<close>, and \<open>Number.parseInt\<close> on a segment of decimal digits (no digit: \<open>NaN\<close>,
  which is stored as 0).\<close>

fun split_dots :: "string \<Rightarrow> string list" where
  "split_dots [] = [[]]"
| "split_dots (c # cs) = (if c = CHR ''.'' then [] # split_dots cs
     else (case split_dots cs of s # ss \<Rightarrow> (c # s) # ss | [] \<Rightarrow> [[c]]))"

definition is_digit :: "char \<Rightarrow> bool" where
  "is_digit c \<longleftrightarrow> 48 \<le> (of_char c :: nat) \<and> (of_char c :: nat) \<le> 57"

definition parseInt :: "string \<Rightarrow> nat" where
  "parseInt s = foldl (\<lambda>n c. 10 * n + (of_char c - 48)) 0 (takeWhile is_digit s)"

definition ipV4StringToByteArray :: "ip_lib \<Rightarrow> string \<Rightarrow> bytes result" where
  "ipV4StringToByteArray lib address =
     (if \<not> ipv4_isValid lib address then Inl InvalidArgumentError
      else Inr (map (\<lambda>segment. byte_of (parseInt segment)) (split_dots address)))"

text \<open>\<open>octet.toString()\<close>.\<close>

fun decimal :: "nat \<Rightarrow> string" where
  "decimal n = (if n < 10 then [char_of (48 + n)] else decimal (n div 10) @ [char_of (48 + n mod 10)])"

declare decimal.simps [simp del]

fun join_dots :: "string list \<Rightarrow> string" where
  "join_dots [] = []"
| "join_dots [s] = s"
| "join_dots (s # ss) = s @ CHR ''.'' # join_dots ss"

definition byteArrayToIpV4String :: "bytes \<Rightarrow> string result" where
  "byteArrayToIpV4String byteArray =
     (if length byteArray \<noteq> 4 then Inl InvalidArgumentError
      else Inr (join_dots (map (\<lambda>octet. decimal (unat octet)) byteArray)))"

definition ipV6StringToByteArray :: "ip_lib \<Rightarrow> string \<Rightarrow> bytes result" where
  "ipV6StringToByteArray lib address =
     (if \<not> ipv6_isValid lib address then Inl InvalidArgumentError
      else let addressV6 = ipv6_toUnsignedByteArray lib address
           in Inr (replicate (16 - length addressV6) 0 @ addressV6))"

definition byteArrayToIPv6String :: "ip_lib \<Rightarrow> bytes \<Rightarrow> string result" where
  "byteArrayToIPv6String lib byteArray = ipv6_canonicalForm lib byteArray"

lemma decimal_digits: "list_all is_digit (decimal n)"
proof (induction n rule: decimal.induct)
  case (1 n)
  have "is_digit (char_of (48 + k))" if "k < 10" for k :: nat
    using that by (simp add: is_digit_def of_char_of)
  from this [of n] this [of "n mod 10"] 1 show ?case by (subst decimal.simps) auto
qed

lemma parseInt_digits: "list_all is_digit s \<Longrightarrow> parseInt s = foldl (\<lambda>n c. 10 * n + (of_char c - 48)) 0 s"
proof -
  assume "list_all is_digit s"
  then have *: "takeWhile is_digit s = s" by (simp add: list_all_iff)
  show ?thesis unfolding parseInt_def * ..
qed

lemma parseInt_decimal: "parseInt (decimal n) = n"
proof -
  have "foldl (\<lambda>n c. 10 * n + (of_char c - 48)) 0 (decimal n) = n"
  proof (induction n rule: decimal.induct)
    case (1 n)
    show ?case
    proof (cases "n < 10")
      case True
      then show ?thesis by (subst decimal.simps) (simp add: of_char_of)
    next
      case False
      with 1 show ?thesis by (subst decimal.simps) (simp add: of_char_of)
    qed
  qed
  then show ?thesis by (simp add: parseInt_digits decimal_digits)
qed

lemma no_dot: "list_all is_digit s \<Longrightarrow> CHR ''.'' \<notin> set s"
  by (auto simp: list_all_iff is_digit_def)

lemma split_dots_plain: "CHR ''.'' \<notin> set s \<Longrightarrow> split_dots s = [s]"
  by (induction s) auto

lemma split_dots_append: "CHR ''.'' \<notin> set s \<Longrightarrow> split_dots (s @ CHR ''.'' # t) = s # split_dots t"
  by (induction s) auto

lemma split_join: "ss \<noteq> [] \<Longrightarrow> list_all (\<lambda>s. CHR ''.'' \<notin> set s) ss \<Longrightarrow> split_dots (join_dots ss) = ss"
  by (induction ss rule: join_dots.induct) (auto simp: split_dots_plain split_dots_append)

lemma ipv4_roundtrip:
  assumes "byteArrayToIpV4String b = Inr s" and "ipv4_isValid lib s"
  shows "ipV4StringToByteArray lib s = Inr b"
proof -
  have s: "s = join_dots (map (\<lambda>octet. decimal (unat octet)) b)" and "b \<noteq> []"
    using assms(1) by (auto simp: byteArrayToIpV4String_def split: if_splits)
  then have "split_dots s = map (\<lambda>octet. decimal (unat octet)) b"
    using split_join [of "map (\<lambda>octet. decimal (unat octet)) b"] no_dot decimal_digits by (simp add: list_all_iff)
  with assms(2) show ?thesis by (simp add: ipV4StringToByteArray_def comp_def parseInt_decimal)
qed

subsection \<open>Relays\<close>

text \<open>\<open>port ? Number(port) : undefined\<close>: port 0 is falsy, when written and when read.\<close>

definition truthy_port :: "int option \<Rightarrow> int option" where
  "truthy_port p = (case p of Some n \<Rightarrow> if n = 0 then None else Some n | None \<Rightarrow> None)"

definition readPort :: "CborReader \<Rightarrow> (int option \<times> CborReader) result" where
  "readPort r =
     ebind (peekState r) (\<lambda>(state, r).
       if state = NullState then ebind (readNull r) (\<lambda>r. Inr (None, r))
       else ebind (readInt r) (\<lambda>(port, r).
         Inr (if port = 0 then None else Some (js_Number_int port), r)))"

definition writePort :: "int option \<Rightarrow> writer_op" where
  "writePort p = (case truthy_port p of Some n \<Rightarrow> writeInt n | None \<Rightarrow> writeNull)"

text \<open>An IP address or \<open>null\<close>; an empty string is falsy.\<close>

definition writeIp :: "(string \<Rightarrow> bytes result) \<Rightarrow> string option \<Rightarrow> writer_op" where
  "writeIp f ip = (case ip of Some (c # cs) \<Rightarrow> (\<lambda>w. ebind (f (c # cs)) (\<lambda>b. writeByteString b w)) | _ \<Rightarrow> writeNull)"

definition readIp :: "(bytes \<Rightarrow> string result) \<Rightarrow> CborReader \<Rightarrow> (string option \<times> CborReader) result" where
  "readIp f r =
     ebind (peekState r) (\<lambda>(state, r).
       if state = NullState then ebind (readNull r) (\<lambda>r. Inr (None, r))
       else ebind (readByteString r) (\<lambda>(b, r). ebind (f b) (\<lambda>s. Inr (Some s, r))))"

record SingleHostAddr =
  sha_port :: "int option"
  sha_ipV4 :: "string option"
  sha_ipV6 :: "string option"
  sha_originalBytes :: "bytes option"

definition SingleHostAddr_new :: "int option \<Rightarrow> string option \<Rightarrow> string option \<Rightarrow> SingleHostAddr" where
  "SingleHostAddr_new port ipv4 ipv6 =
     \<lparr>sha_port = port, sha_ipV4 = ipv4, sha_ipV6 = ipv6, sha_originalBytes = None\<rparr>"

definition SingleHostAddr_toCbor :: "ip_lib \<Rightarrow> SingleHostAddr \<Rightarrow> bytes result" where
  "SingleHostAddr_toCbor lib x = cached (sha_originalBytes x)
     (write_all [writeStartArray (Some 4), writeInt 0, writePort (sha_port x),
       writeIp (ipV4StringToByteArray lib) (sha_ipV4 x), writeIp (ipV6StringToByteArray lib) (sha_ipV6 x)])"

definition SingleHostAddr_fromCbor :: "ip_lib \<Rightarrow> bytes \<Rightarrow> SingleHostAddr result" where
  "SingleHostAddr_fromCbor lib cbor =
     ebind (expectArray 4 (new_reader cbor)) (\<lambda>r.
     ebind (expectKind 0 r) (\<lambda>r.
     ebind (readPort r) (\<lambda>(port, r).
     ebind (readIp byteArrayToIpV4String r) (\<lambda>(ipV4, r).
     ebind (readIp (byteArrayToIPv6String lib) r) (\<lambda>(ipV6, r).
       Inr ((SingleHostAddr_new port ipV4 ipV6)\<lparr>sha_originalBytes := Some cbor\<rparr>))))))"

definition SingleHostAddr_setPort :: "int option \<Rightarrow> SingleHostAddr \<Rightarrow> SingleHostAddr" where
  "SingleHostAddr_setPort v x = x\<lparr>sha_port := v, sha_originalBytes := None\<rparr>"

definition SingleHostAddr_setIpv4 :: "string option \<Rightarrow> SingleHostAddr \<Rightarrow> SingleHostAddr" where
  "SingleHostAddr_setIpv4 v x = x\<lparr>sha_ipV4 := v, sha_originalBytes := None\<rparr>"

definition SingleHostAddr_setIpv6 :: "string option \<Rightarrow> SingleHostAddr \<Rightarrow> SingleHostAddr" where
  "SingleHostAddr_setIpv6 v x = x\<lparr>sha_ipV6 := v, sha_originalBytes := None\<rparr>"

record SingleHostName =
  shn_port :: "int option"
  shn_dnsName :: js_string
  shn_originalBytes :: "bytes option"

definition SingleHostName_new :: "js_string \<Rightarrow> int option \<Rightarrow> SingleHostName result" where
  "SingleHostName_new dnsName port =
     (if 64 < length dnsName then Inl InvalidArgumentError
      else Inr \<lparr>shn_port = port, shn_dnsName = dnsName, shn_originalBytes = None\<rparr>)"

definition SingleHostName_toCbor :: "SingleHostName \<Rightarrow> bytes result" where
  "SingleHostName_toCbor x = cached (shn_originalBytes x)
     (write_all [writeStartArray (Some 3), writeInt 1, writePort (shn_port x), writeTextString (shn_dnsName x)])"

definition SingleHostName_fromCbor :: "bytes \<Rightarrow> SingleHostName result" where
  "SingleHostName_fromCbor cbor =
     ebind (expectArray 3 (new_reader cbor)) (\<lambda>r.
     ebind (expectKind 1 r) (\<lambda>r.
     ebind (readPort r) (\<lambda>(port, r).
     ebind (readTextString r) (\<lambda>(dnsName, r).
     ebind (SingleHostName_new dnsName port) (\<lambda>relay.
       Inr (relay\<lparr>shn_originalBytes := Some cbor\<rparr>))))))"

definition SingleHostName_setPort :: "int option \<Rightarrow> SingleHostName \<Rightarrow> SingleHostName" where
  "SingleHostName_setPort v x = x\<lparr>shn_port := v, shn_originalBytes := None\<rparr>"

definition SingleHostName_setDnsName :: "js_string \<Rightarrow> SingleHostName \<Rightarrow> SingleHostName result" where
  "SingleHostName_setDnsName v x =
     (if 64 < length v then Inl InvalidArgumentError else Inr (x\<lparr>shn_dnsName := v, shn_originalBytes := None\<rparr>))"

record MultiHostName =
  mhn_dnsName :: js_string
  mhn_originalBytes :: "bytes option"

definition MultiHostName_new :: "js_string \<Rightarrow> MultiHostName result" where
  "MultiHostName_new dnsName =
     (if 64 < length dnsName then Inl InvalidArgumentError
      else Inr \<lparr>mhn_dnsName = dnsName, mhn_originalBytes = None\<rparr>)"

definition MultiHostName_toCbor :: "MultiHostName \<Rightarrow> bytes result" where
  "MultiHostName_toCbor x = cached (mhn_originalBytes x)
     (write_all [writeStartArray (Some 2), writeInt 2, writeTextString (mhn_dnsName x)])"

definition MultiHostName_fromCbor :: "bytes \<Rightarrow> MultiHostName result" where
  "MultiHostName_fromCbor cbor =
     ebind (expectArray 2 (new_reader cbor)) (\<lambda>r.
     ebind (expectKind 2 r) (\<lambda>r.
     ebind (readTextString r) (\<lambda>(dnsName, r).
     ebind (MultiHostName_new dnsName) (\<lambda>relay.
       Inr (relay\<lparr>mhn_originalBytes := Some cbor\<rparr>)))))"

definition MultiHostName_setDnsName :: "js_string \<Rightarrow> MultiHostName \<Rightarrow> MultiHostName result" where
  "MultiHostName_setDnsName v x =
     (if 64 < length v then Inl InvalidArgumentError else Inr (x\<lparr>mhn_dnsName := v, mhn_originalBytes := None\<rparr>))"

datatype RelayBody =
    RelaySingleHostAddr SingleHostAddr
  | RelaySingleHostName SingleHostName
  | RelayMultiHostName MultiHostName

record Relay =
  rel_body :: RelayBody
  rel_originalBytes :: "bytes option"

definition Relay_toCbor :: "ip_lib \<Rightarrow> Relay \<Rightarrow> bytes result" where
  "Relay_toCbor lib x = cached (rel_originalBytes x)
     (case rel_body x of
        RelaySingleHostAddr a \<Rightarrow> SingleHostAddr_toCbor lib a
      | RelaySingleHostName n \<Rightarrow> SingleHostName_toCbor n
      | RelayMultiHostName n \<Rightarrow> MultiHostName_toCbor n)"

definition Relay_fromCbor :: "ip_lib \<Rightarrow> bytes \<Rightarrow> Relay result" where
  "Relay_fromCbor lib cbor =
     ebind (kindOf cbor) (\<lambda>kind.
     ebind (if kind = 0 then ebind (SingleHostAddr_fromCbor lib cbor) (\<lambda>a. Inr (RelaySingleHostAddr a))
            else if kind = 1 then ebind (SingleHostName_fromCbor cbor) (\<lambda>n. Inr (RelaySingleHostName n))
            else if kind = 2 then ebind (MultiHostName_fromCbor cbor) (\<lambda>n. Inr (RelayMultiHostName n))
            else Inl InvalidStateError) (\<lambda>body.
       Inr \<lparr>rel_body = body, rel_originalBytes = Some cbor\<rparr>))"

text \<open>An optional field: \<open>null\<close>, or an item that is not \<open>null\<close>.\<close>

lemma field_optional:
  assumes "\<And>w. write w = Inr (w @ b)" and "cbor_item b" and "array_headed b"
    and "\<And>c pre bs fr stk. open_frame fr \<Longrightarrow>
      read (rd c pre (b @ bs) fr stk False) = Inr (y, rd U (pre @ b) bs (bumps 1 fr) stk False)"
  shows "field_ok write b (\<lambda>r. ebind (peekState r) (\<lambda>(state, r).
      if state = NullState then ebind (readNull r) (\<lambda>r. Inr (z, r)) else read r)) y"
  using assms by (simp add: field_ok_def peekState_rd peekStateCore_item array_headed_def)

lemma field_null:
  "field_ok writeNull [0xf6] (\<lambda>r. ebind (peekState r) (\<lambda>(state, r).
      if state = NullState then ebind (readNull r) (\<lambda>r. Inr (z, r)) else read r)) z"
  by (simp add: field_ok_def null_byte peekState_rd peekStateCore_rd readNull_rd)

lemma array_headed_head:
  "n < 18446744073709551616 \<Longrightarrow> m \<noteq> Simple \<Longrightarrow> array_headed (enc_head m n @ b)"
  using head_info [OF is_head_enc_head [of n m]]
  by (auto simp: array_headed_def state_of_initial_byte_def split: CborMajorType.splits)

lemma array_headed_int [simp]: "cbor_int i \<Longrightarrow> array_headed (enc_int i)"
  using array_headed_head [of "nat i" UnsignedInteger "[]"] array_headed_head [of "nat (- (i + 1))" NegativeInteger "[]"]
  by (simp add: enc_int_def cbor_int_def nat_less_iff)

lemma array_headed_bytes [simp]: "length b < 18446744073709551616 \<Longrightarrow> array_headed (enc_bytes b)"
  by (simp add: enc_bytes_def array_headed_head)

definition port_valid :: "int option \<Rightarrow> bool" where
  "port_valid p \<longleftrightarrow> (case p of None \<Rightarrow> True | Some n \<Rightarrow> n \<noteq> 0 \<and> safe_int n)"

lemma field_port:
  assumes "port_valid p"
  shows "\<exists>b. field_ok (writePort p) b readPort p"
proof (cases p)
  case None
  then have "field_ok (writePort p) [0xf6] readPort p"
    by (simp add: writePort_def truthy_port_def readPort_def [abs_def] field_null)
  then show ?thesis ..
next
  case (Some n)
  with assms have n: "n \<noteq> 0" "safe_int n" by (simp_all add: port_valid_def)
  then have "field_ok (writePort p) (enc_int n) readPort p"
    unfolding readPort_def [abs_def]
    by (intro field_optional) (simp_all add: Some writePort_def truthy_port_def rd_simps)
  then show ?thesis ..
qed

definition ip_valid :: "(string \<Rightarrow> bytes result) \<Rightarrow> (bytes \<Rightarrow> string result) \<Rightarrow> string option \<Rightarrow> bool" where
  "ip_valid f g ip \<longleftrightarrow> (case ip of None \<Rightarrow> True
     | Some s \<Rightarrow> s \<noteq> [] \<and> (case f s of Inl _ \<Rightarrow> False | Inr b \<Rightarrow> small_bytes b \<and> g b = Inr s))"

lemma field_ip:
  assumes "ip_valid f g ip"
  shows "\<exists>b. field_ok (writeIp f ip) b (readIp g) ip"
proof (cases ip)
  case None
  then have "field_ok (writeIp f ip) [0xf6] (readIp g) ip"
    by (simp add: writeIp_def readIp_def [abs_def] field_null)
  then show ?thesis ..
next
  case (Some s)
  then obtain b where b: "s \<noteq> []" "f s = Inr b" "small_bytes b" "g b = Inr s"
    using assms by (auto simp: ip_valid_def split: sum.splits)
  then have "field_ok (writeIp f ip) (enc_bytes b) (readIp g) ip"
    unfolding readIp_def [abs_def]
    by (intro field_optional) (auto simp: Some writeIp_def rd_simps neq_Nil_conv)
  then show ?thesis ..
qed

definition dns_valid :: "js_string \<Rightarrow> bool" where
  "dns_valid s \<longleftrightarrow> length s \<le> 64 \<and> well_formed_utf16 s"

lemma dns_small: "dns_valid s \<Longrightarrow> length (utf8_encode s) < 9007199254740992"
  using length_utf8_encode [of s] by (simp add: dns_valid_def)

lemma field_dns:
  assumes "dns_valid s"
  shows "field_ok (writeTextString s) (enc_text s) readTextString s"
  using assms dns_small [OF assms] by (simp add: field_ok_def dns_valid_def rd_simps)

definition SingleHostAddr_valid :: "ip_lib \<Rightarrow> SingleHostAddr \<Rightarrow> bool" where
  "SingleHostAddr_valid lib x \<longleftrightarrow> port_valid (sha_port x) \<and>
     ip_valid (ipV4StringToByteArray lib) byteArrayToIpV4String (sha_ipV4 x) \<and>
     ip_valid (ipV6StringToByteArray lib) (byteArrayToIPv6String lib) (sha_ipV6 x) \<and> sha_originalBytes x = None"

definition SingleHostName_valid :: "SingleHostName \<Rightarrow> bool" where
  "SingleHostName_valid x \<longleftrightarrow> port_valid (shn_port x) \<and> dns_valid (shn_dnsName x) \<and> shn_originalBytes x = None"

definition MultiHostName_valid :: "MultiHostName \<Rightarrow> bool" where
  "MultiHostName_valid x \<longleftrightarrow> dns_valid (mhn_dnsName x) \<and> mhn_originalBytes x = None"

lemmas kinded_simps = kinded_bytes_def cert_items write_all_def encode_def expectKind_def rd_simps

interpretation single_host_addr: kinded_codec "SingleHostAddr_toCbor lib" "SingleHostAddr_fromCbor lib"
  "SingleHostAddr_valid lib" "\<lambda>x. (sha_port x, sha_ipV4 x, sha_ipV6 x)" 4 0 for lib
proof
  fix x assume v: "SingleHostAddr_valid lib x"
  obtain p i j where f: "field_ok (writePort (sha_port x)) p readPort (sha_port x)"
    "field_ok (writeIp (ipV4StringToByteArray lib) (sha_ipV4 x)) i (readIp byteArrayToIpV4String) (sha_ipV4 x)"
    "field_ok (writeIp (ipV6StringToByteArray lib) (sha_ipV6 x)) j (readIp (byteArrayToIPv6String lib)) (sha_ipV6 x)"
    using v field_port field_ip unfolding SingleHostAddr_valid_def by blast
  show "\<exists>rest y. SingleHostAddr_toCbor lib x = Inr (kinded_bytes 4 0 rest) \<and> cbor_item (kinded_bytes 4 0 rest) \<and>
      SingleHostAddr_fromCbor lib (kinded_bytes 4 0 rest) = Inr y \<and>
      (\<lambda>x. (sha_port x, sha_ipV4 x, sha_ipV6 x)) y = (\<lambda>x. (sha_port x, sha_ipV4 x, sha_ipV6 x)) x"
    using v field_okD [OF f(1)] field_okD [OF f(2)] field_okD [OF f(3)]
    by (intro exI [of _ "p @ i @ j"]) (simp add: kinded_simps SingleHostAddr_toCbor_def SingleHostAddr_valid_def
        SingleHostAddr_fromCbor_def SingleHostAddr_new_def)
qed (auto simp: SingleHostAddr_fromCbor_def SingleHostAddr_toCbor_def dest!: expectArray_nonempty)

interpretation single_host_name: kinded_codec SingleHostName_toCbor SingleHostName_fromCbor SingleHostName_valid
  "\<lambda>x. (shn_port x, shn_dnsName x)" 3 1
proof
  fix x assume v: "SingleHostName_valid x"
  obtain p where p: "field_ok (writePort (shn_port x)) p readPort (shn_port x)"
    using v field_port unfolding SingleHostName_valid_def by blast
  have d: "field_ok (writeTextString (shn_dnsName x)) (enc_text (shn_dnsName x)) readTextString (shn_dnsName x)"
    using v by (simp add: SingleHostName_valid_def field_dns)
  show "\<exists>rest y. SingleHostName_toCbor x = Inr (kinded_bytes 3 1 rest) \<and> cbor_item (kinded_bytes 3 1 rest) \<and>
      SingleHostName_fromCbor (kinded_bytes 3 1 rest) = Inr y \<and>
      (\<lambda>x. (shn_port x, shn_dnsName x)) y = (\<lambda>x. (shn_port x, shn_dnsName x)) x"
    using v field_okD [OF p] field_okD [OF d]
    by (intro exI [of _ "p @ enc_text (shn_dnsName x)"]) (simp add: kinded_simps SingleHostName_toCbor_def
        SingleHostName_valid_def SingleHostName_fromCbor_def SingleHostName_new_def dns_valid_def)
qed (auto simp: SingleHostName_fromCbor_def SingleHostName_toCbor_def dest!: expectArray_nonempty)

interpretation multi_host_name: kinded_codec MultiHostName_toCbor MultiHostName_fromCbor MultiHostName_valid
  mhn_dnsName 2 2
proof
  fix x assume v: "MultiHostName_valid x"
  have d: "field_ok (writeTextString (mhn_dnsName x)) (enc_text (mhn_dnsName x)) readTextString (mhn_dnsName x)"
    using v by (simp add: MultiHostName_valid_def field_dns)
  show "\<exists>rest y. MultiHostName_toCbor x = Inr (kinded_bytes 2 2 rest) \<and> cbor_item (kinded_bytes 2 2 rest) \<and>
      MultiHostName_fromCbor (kinded_bytes 2 2 rest) = Inr y \<and> mhn_dnsName y = mhn_dnsName x"
    using v field_okD [OF d]
    by (intro exI [of _ "enc_text (mhn_dnsName x)"]) (simp add: kinded_simps MultiHostName_toCbor_def
        MultiHostName_valid_def MultiHostName_fromCbor_def MultiHostName_new_def dns_valid_def)
qed (auto simp: MultiHostName_fromCbor_def MultiHostName_toCbor_def dest!: expectArray_nonempty)

text \<open>A relay without the bytes it was read from.\<close>

fun relay_content :: "RelayBody \<Rightarrow> RelayBody" where
  "relay_content (RelaySingleHostAddr a) = RelaySingleHostAddr (a\<lparr>sha_originalBytes := None\<rparr>)"
| "relay_content (RelaySingleHostName n) = RelaySingleHostName (n\<lparr>shn_originalBytes := None\<rparr>)"
| "relay_content (RelayMultiHostName n) = RelayMultiHostName (n\<lparr>mhn_originalBytes := None\<rparr>)"

definition Relay_valid :: "ip_lib \<Rightarrow> Relay \<Rightarrow> bool" where
  "Relay_valid lib x \<longleftrightarrow> rel_originalBytes x = None \<and>
     (case rel_body x of
        RelaySingleHostAddr a \<Rightarrow> SingleHostAddr_valid lib a
      | RelaySingleHostName n \<Rightarrow> SingleHostName_valid n
      | RelayMultiHostName n \<Rightarrow> MultiHostName_valid n)"

lemma relay_body_content:
  "(sha_port a, sha_ipV4 a, sha_ipV6 a) = (sha_port b, sha_ipV4 b, sha_ipV6 b) \<Longrightarrow>
     relay_content (RelaySingleHostAddr a) = relay_content (RelaySingleHostAddr b)"
  "(shn_port m, shn_dnsName m) = (shn_port n, shn_dnsName n) \<Longrightarrow>
     relay_content (RelaySingleHostName m) = relay_content (RelaySingleHostName n)"
  "mhn_dnsName u = mhn_dnsName v \<Longrightarrow> relay_content (RelayMultiHostName u) = relay_content (RelayMultiHostName v)"
  by (cases a; cases b; cases m; cases n; cases u; cases v; simp)+

lemma kindOf_nonempty: "kindOf b = Inr k \<Longrightarrow> b \<noteq> []"
  by (auto simp: kindOf_def)

interpretation relay: caching_codec "Relay_toCbor lib" "Relay_fromCbor lib" "Relay_valid lib"
  "\<lambda>x. relay_content (rel_body x)" for lib
proof
  fix x assume v: "Relay_valid lib x"
  show "\<exists>b. Relay_toCbor lib x = Inr b \<and> cbor_item b \<and>
      (\<exists>y. Relay_fromCbor lib b = Inr y \<and> relay_content (rel_body y) = relay_content (rel_body x))"
  proof (cases "rel_body x")
    case (RelaySingleHostAddr a)
    with v single_host_addr.kind_read [of lib a] relay_body_content(1) show ?thesis
      by (fastforce simp: Relay_valid_def Relay_toCbor_def Relay_fromCbor_def)
  next
    case (RelaySingleHostName n)
    with v single_host_name.kind_read [of n] relay_body_content(2) show ?thesis
      by (fastforce simp: Relay_valid_def Relay_toCbor_def Relay_fromCbor_def)
  next
    case (RelayMultiHostName n)
    with v multi_host_name.kind_read [of n] relay_body_content(3) show ?thesis
      by (fastforce simp: Relay_valid_def Relay_toCbor_def Relay_fromCbor_def)
  qed
qed (auto simp: Relay_fromCbor_def Relay_toCbor_def dest!: kindOf_nonempty)

subsection \<open>Pool metadata\<close>

record PoolMetadata =
  pm_url :: js_string
  pm_hash :: bytes
  pm_originalBytes :: "bytes option"

definition PoolMetadata_new :: "js_string \<Rightarrow> bytes \<Rightarrow> PoolMetadata result" where
  "PoolMetadata_new url poolMetadataHash =
     (if 64 < length url then Inl InvalidArgumentError
      else Inr \<lparr>pm_url = url, pm_hash = poolMetadataHash, pm_originalBytes = None\<rparr>)"

definition PoolMetadata_toCbor :: "PoolMetadata \<Rightarrow> bytes result" where
  "PoolMetadata_toCbor x = cached (pm_originalBytes x)
     (write_all [writeStartArray (Some 2), writeTextString (pm_url x), writeByteString (pm_hash x)])"

definition PoolMetadata_fromCbor :: "bytes \<Rightarrow> PoolMetadata result" where
  "PoolMetadata_fromCbor cbor =
     ebind (expectArray 2 (new_reader cbor)) (\<lambda>r.
     ebind (readTextString r) (\<lambda>(url, r).
     ebind (readByteString r) (\<lambda>(hash, r).
     ebind (readEndArray r) (\<lambda>r.
     ebind (PoolMetadata_new url hash) (\<lambda>metadata.
       Inr (metadata\<lparr>pm_originalBytes := Some cbor\<rparr>))))))"

definition PoolMetadata_setUrl :: "js_string \<Rightarrow> PoolMetadata \<Rightarrow> PoolMetadata" where
  "PoolMetadata_setUrl v x = x\<lparr>pm_url := v, pm_originalBytes := None\<rparr>"

definition PoolMetadata_setPoolMetadataHash :: "bytes \<Rightarrow> PoolMetadata \<Rightarrow> PoolMetadata" where
  "PoolMetadata_setPoolMetadataHash v x = x\<lparr>pm_hash := v, pm_originalBytes := None\<rparr>"

definition PoolMetadata_valid :: "PoolMetadata \<Rightarrow> bool" where
  "PoolMetadata_valid x \<longleftrightarrow> dns_valid (pm_url x) \<and> small_bytes (pm_hash x) \<and> pm_originalBytes x = None"

lemma PoolMetadata_object:
  assumes "PoolMetadata_valid x"
  shows "\<exists>b y. PoolMetadata_toCbor x = Inr b \<and> cbor_item b \<and> array_headed b \<and> PoolMetadata_fromCbor b = Inr y \<and>
    (pm_url y, pm_hash y) = (pm_url x, pm_hash x)"
  using assms dns_small [of "pm_url x"]
  by (simp add: PoolMetadata_valid_def dns_valid_def PoolMetadata_toCbor_def PoolMetadata_fromCbor_def
      PoolMetadata_new_def write_all_def encode_def rd_simps rd_last cbor_items)

interpretation pool_metadata: caching_codec PoolMetadata_toCbor PoolMetadata_fromCbor PoolMetadata_valid
  "\<lambda>x. (pm_url x, pm_hash x)"
proof
  fix x assume "PoolMetadata_valid x"
  then show "\<exists>b. PoolMetadata_toCbor x = Inr b \<and> cbor_item b \<and>
      (\<exists>y. PoolMetadata_fromCbor b = Inr y \<and> (pm_url y, pm_hash y) = (pm_url x, pm_hash x))"
    using PoolMetadata_object by blast
qed (auto simp: PoolMetadata_fromCbor_def PoolMetadata_toCbor_def dest!: expectArray_nonempty)

subsection \<open>Pool parameters\<close>

record PoolParams =
  pp_operator :: bytes
  pp_vrfKeyHash :: bytes
  pp_pledge :: int
  pp_cost :: int
  pp_margin :: UnitInterval
  pp_rewardAccount :: "AddressProps option"
  pp_poolOwners :: "bytes CborSet"
  pp_relays :: "Relay list"
  pp_poolMetadata :: "PoolMetadata option"
  pp_originalBytes :: "bytes option"

text \<open>The parameters of the model that the classes below need: the Conway flag, the checksum of
  Byron addresses and the IP library.\<close>

record pool_env =
  env_conway :: bool
  env_crc32 :: "bytes \<Rightarrow> nat"
  env_ip :: ip_lib

definition writeRewardAccount :: "pool_env \<Rightarrow> AddressProps option \<Rightarrow> writer_op" where
  "writeRewardAccount env a w =
     ebind (the_field a) (\<lambda>a. ebind (Address_toBytes (env_crc32 env) a) (\<lambda>b. writeByteString b w))"

definition readRewardAccount :: "pool_env \<Rightarrow> CborReader \<Rightarrow> (AddressProps option \<times> CborReader) result" where
  "readRewardAccount env r =
     ebind (readByteString r) (\<lambda>(b, r).
     ebind (Address_fromBytes (env_crc32 env) b) (\<lambda>a. Inr (RewardAddress_fromAddress a, r)))"

definition writeList :: "('a \<Rightarrow> bytes result) \<Rightarrow> 'a list \<Rightarrow> writer_op" where
  "writeList f xs = run_ops (writeStartArray (Some (length xs)) # map (\<lambda>x. writeObject (f x)) xs)"

definition readList :: "(bytes \<Rightarrow> 'a result) \<Rightarrow> CborReader \<Rightarrow> ('a list \<times> CborReader) result" where
  "readList f r =
     ebind (readStartArray r) (\<lambda>(_, r).
     ebind (readItems EndArray f r) (\<lambda>(xs, r).
     ebind (readEndArray r) (\<lambda>r. Inr (xs, r))))"

text \<open>The nine fields, as \<open>toFlattenedCbor\<close> writes them and \<open>fromFlattenedCbor\<close> reads them.\<close>

definition PoolParams_toFlattenedCbor :: "pool_env \<Rightarrow> PoolParams \<Rightarrow> writer_op" where
  "PoolParams_toFlattenedCbor env p = run_ops
     [writeByteString (pp_operator p), writeByteString (pp_vrfKeyHash p), writeInt (pp_pledge p), writeInt (pp_cost p),
      writeObject (UnitInterval_toCbor (pp_margin p)), writeRewardAccount env (pp_rewardAccount p),
      writeObject (CborSet_toCbor (env_conway env) Hash_toCbor (pp_poolOwners p)),
      writeList (Relay_toCbor (env_ip env)) (pp_relays p),
      writeNullable PoolMetadata_toCbor (pp_poolMetadata p)]"

definition PoolParams_fromFlattenedCbor :: "pool_env \<Rightarrow> CborReader \<Rightarrow> (PoolParams \<times> CborReader) result" where
  "PoolParams_fromFlattenedCbor env r =
     ebind (readHash 28 r) (\<lambda>(operator, r).
     ebind (readHash 32 r) (\<lambda>(vrfKeyHash, r).
     ebind (readInt r) (\<lambda>(pledge, r).
     ebind (readInt r) (\<lambda>(cost, r).
     ebind (readObject UnitInterval_fromCbor r) (\<lambda>(margin, r).
     ebind (readRewardAccount env r) (\<lambda>(rewardAccount, r).
     ebind (readObject (CborSet_fromCbor Hash_fromCbor) r) (\<lambda>(poolOwner, r).
     ebind (readList (Relay_fromCbor (env_ip env)) r) (\<lambda>(relays, r).
     ebind (readNullable PoolMetadata_fromCbor r) (\<lambda>(poolMetadata, r).
       Inr (\<lparr>pp_operator = operator, pp_vrfKeyHash = vrfKeyHash, pp_pledge = pledge, pp_cost = cost,
             pp_margin = margin, pp_rewardAccount = rewardAccount, pp_poolOwners = poolOwner,
             pp_relays = relays, pp_poolMetadata = poolMetadata, pp_originalBytes = None\<rparr>, r))))))))))"

definition PoolParams_toCbor :: "pool_env \<Rightarrow> PoolParams \<Rightarrow> bytes result" where
  "PoolParams_toCbor env p = cached (pp_originalBytes p)
     (write_all [writeStartArray (Some 9), PoolParams_toFlattenedCbor env p])"

definition PoolParams_fromCbor :: "pool_env \<Rightarrow> bytes \<Rightarrow> PoolParams result" where
  "PoolParams_fromCbor env cbor =
     ebind (expectArray 9 (new_reader cbor)) (\<lambda>r.
     ebind (PoolParams_fromFlattenedCbor env r) (\<lambda>(params, r). Inr (params\<lparr>pp_originalBytes := Some cbor\<rparr>)))"

definition PoolParams_setOperator :: "bytes \<Rightarrow> PoolParams \<Rightarrow> PoolParams" where
  "PoolParams_setOperator v p = p\<lparr>pp_operator := v, pp_originalBytes := None\<rparr>"

definition PoolParams_setVrfKeyHash :: "bytes \<Rightarrow> PoolParams \<Rightarrow> PoolParams" where
  "PoolParams_setVrfKeyHash v p = p\<lparr>pp_vrfKeyHash := v, pp_originalBytes := None\<rparr>"

definition PoolParams_setPledge :: "int \<Rightarrow> PoolParams \<Rightarrow> PoolParams" where
  "PoolParams_setPledge v p = p\<lparr>pp_pledge := v, pp_originalBytes := None\<rparr>"

definition PoolParams_setCost :: "int \<Rightarrow> PoolParams \<Rightarrow> PoolParams" where
  "PoolParams_setCost v p = p\<lparr>pp_cost := v, pp_originalBytes := None\<rparr>"

definition PoolParams_setMargin :: "UnitInterval \<Rightarrow> PoolParams \<Rightarrow> PoolParams" where
  "PoolParams_setMargin v p = p\<lparr>pp_margin := v, pp_originalBytes := None\<rparr>"

definition PoolParams_setRewardAccount :: "AddressProps \<Rightarrow> PoolParams \<Rightarrow> PoolParams" where
  "PoolParams_setRewardAccount v p = p\<lparr>pp_rewardAccount := Some v, pp_originalBytes := None\<rparr>"

definition PoolParams_setPoolOwners :: "bytes CborSet \<Rightarrow> PoolParams \<Rightarrow> PoolParams" where
  "PoolParams_setPoolOwners v p = p\<lparr>pp_poolOwners := v, pp_originalBytes := None\<rparr>"

definition PoolParams_setRelays :: "Relay list \<Rightarrow> PoolParams \<Rightarrow> PoolParams" where
  "PoolParams_setRelays v p = p\<lparr>pp_relays := v, pp_originalBytes := None\<rparr>"

definition PoolParams_setPoolMetadata :: "PoolMetadata \<Rightarrow> PoolParams \<Rightarrow> PoolParams" where
  "PoolParams_setPoolMetadata v p = p\<lparr>pp_poolMetadata := Some v, pp_originalBytes := None\<rparr>"

record PoolRegistration =
  prg_params :: PoolParams
  prg_originalBytes :: "bytes option"

definition PoolRegistration_new :: "PoolParams \<Rightarrow> PoolRegistration" where
  "PoolRegistration_new params = \<lparr>prg_params = params, prg_originalBytes = None\<rparr>"

definition PoolRegistration_toCbor :: "pool_env \<Rightarrow> PoolRegistration \<Rightarrow> bytes result" where
  "PoolRegistration_toCbor env x = cached (prg_originalBytes x)
     (write_all [writeStartArray (Some 10), writeInt 3, PoolParams_toFlattenedCbor env (prg_params x)])"

definition PoolRegistration_fromCbor :: "pool_env \<Rightarrow> bytes \<Rightarrow> PoolRegistration result" where
  "PoolRegistration_fromCbor env cbor =
     ebind (expectArray 10 (new_reader cbor)) (\<lambda>r.
     ebind (expectKind 3 r) (\<lambda>r.
     ebind (PoolParams_fromFlattenedCbor env r) (\<lambda>(params, r).
     ebind (readEndArray r) (\<lambda>r.
       Inr ((PoolRegistration_new params)\<lparr>prg_originalBytes := Some cbor\<rparr>)))))"

definition PoolRegistration_setPoolParameters :: "PoolParams \<Rightarrow> PoolRegistration \<Rightarrow> PoolRegistration" where
  "PoolRegistration_setPoolParameters v x = x\<lparr>prg_params := v, prg_originalBytes := None\<rparr>"

subsection \<open>Pool parameters are read back\<close>

definition reward_valid :: "AddressProps option \<Rightarrow> bool" where
  "reward_valid a \<longleftrightarrow> (case a of None \<Rightarrow> False | Some a \<Rightarrow> shelley_valid a \<and> ap_type a \<in> {RewardKey, RewardScript})"

definition owners_valid :: "bytes CborSet \<Rightarrow> bool" where
  "owners_valid s \<longleftrightarrow> list_all small_bytes (cs_values s) \<and> length (cs_values s) < 9007199254740992 \<and> cs_originalBytes s = None"

definition PoolParams_valid :: "pool_env \<Rightarrow> PoolParams \<Rightarrow> bool" where
  "PoolParams_valid env p \<longleftrightarrow> length (pp_operator p) = 28 \<and> length (pp_vrfKeyHash p) = 32 \<and> cbor_int (pp_pledge p) \<and>
     cbor_int (pp_cost p) \<and> UnitInterval_valid (pp_margin p) \<and> reward_valid (pp_rewardAccount p) \<and>
     owners_valid (pp_poolOwners p) \<and> list_all (Relay_valid (env_ip env)) (pp_relays p) \<and>
     length (pp_relays p) < 9007199254740992 \<and>
     (case pp_poolMetadata p of None \<Rightarrow> True | Some m \<Rightarrow> PoolMetadata_valid m) \<and> pp_originalBytes p = None"

text \<open>The parameters without cached bytes.\<close>

definition pool_content :: "PoolParams \<Rightarrow> PoolParams" where
  "pool_content p = p\<lparr>pp_margin := (pp_margin p)\<lparr>ui_originalBytes := None\<rparr>,
     pp_poolOwners := (pp_poolOwners p)\<lparr>cs_originalBytes := None\<rparr>,
     pp_relays := map (\<lambda>r. \<lparr>rel_body = relay_content (rel_body r), rel_originalBytes = None\<rparr>) (pp_relays p),
     pp_poolMetadata := map_option (\<lambda>m. m\<lparr>pm_originalBytes := None\<rparr>) (pp_poolMetadata p), pp_originalBytes := None\<rparr>"

lemma run_writeObjects:
  "list_all2 (\<lambda>x b. f x = Inr b) xs bs \<Longrightarrow> run_ops (map (\<lambda>x. writeObject (f x)) xs) w = Inr (w @ concat bs)"
  by (induction xs bs arbitrary: w rule: list_all2_induct) (simp_all add: writeObject_def writeEncodedValue_def)

context cbor_codec
begin

lemma field_list:
  assumes "list_all valid xs" and "length xs < 9007199254740992"
  shows "\<exists>b ys. field_ok (writeList toCbor xs) b (readList fromCbor) ys \<and> map content ys = map content xs"
proof -
  obtain bs ys where bs: "emap toCbor xs = Inr bs" "\<forall>b \<in> set bs. cbor_item b" "length bs = length xs"
    "list_all2 (\<lambda>b y. fromCbor b = Inr y) bs ys" "map content ys = map content xs"
    using encode_list [of xs] assms(1) by (auto simp: list_all_iff)
  have w: "run_ops (map (\<lambda>x. writeObject (toCbor x)) xs) w = Inr (w @ concat bs)" for w
    using bs(1) by (simp add: emap_eq_Inr run_writeObjects)
  have "field_ok (writeList toCbor xs) (enc_head ArrayType (length bs) @ concat bs) (readList fromCbor) ys"
    using bs assms(2) w cbor_item_array [of bs]
    by (simp add: field_ok_def writeList_def readList_def rd_simps)
  with bs(5) show ?thesis by blast
qed

end

lemma reward_address_new:
  assumes "shelley_valid x" and "ap_type x \<in> {RewardKey, RewardScript}"
  shows "RewardAddress_new x = x"
  using assms(1)
proof (cases rule: shelley_validE)
  case (base n p d)
  with assms(2) show ?thesis by (cases "cred_type p"; cases "cred_type d") simp_all
next
  case (pointer n p ptr)
  with assms(2) show ?thesis by (cases "cred_type p") simp_all
next
  case (single n p ty)
  then show ?thesis by (simp add: RewardAddress_new_def)
qed

lemma field_reward:
  assumes "reward_valid a"
  shows "\<exists>b. field_ok (writeRewardAccount env a) b (readRewardAccount env) a"
proof -
  obtain x where x: "a = Some x" "shelley_valid x" "ap_type x \<in> {RewardKey, RewardScript}"
    using assms by (auto simp: reward_valid_def split: option.splits)
  then obtain b where b: "Address_toBytes (env_crc32 env) x = Inr b" "Address_fromBytes (env_crc32 env) b = Inr x" "length b = 29"
    using shelley_roundtrip [of x "env_crc32 env"] by auto
  have "RewardAddress_new x = x"
    using x(2,3) by (rule reward_address_new)
  then have "RewardAddress_fromAddress x = Some x" using x(3) by (simp add: RewardAddress_fromAddress_def)
  with x b have "field_ok (writeRewardAccount env a) (enc_bytes b) (readRewardAccount env) a"
    by (simp add: field_ok_def writeRewardAccount_def readRewardAccount_def rd_simps)
  then show ?thesis ..
qed

lemma field_margin:
  assumes "UnitInterval_valid m"
  shows "\<exists>b y. field_ok (writeObject (UnitInterval_toCbor m)) b (readObject UnitInterval_fromCbor) y \<and>
    y\<lparr>ui_originalBytes := None\<rparr> = m"
proof -
  obtain b y where "UnitInterval_toCbor m = Inr b" "cbor_item b" "UnitInterval_fromCbor b = Inr y"
    "(ui_numerator y, ui_denominator y) = (ui_numerator m, ui_denominator m)"
    using unit_interval.encodes [OF assms] by blast
  with assms show ?thesis
    by (intro exI [of _ b] exI [of _ y] conjI field_object) (cases m; cases y; simp add: UnitInterval_valid_def)+
qed

lemma field_owners:
  assumes "owners_valid s"
  shows "\<exists>b y. field_ok (writeObject (CborSet_toCbor conway Hash_toCbor s)) b (readObject (CborSet_fromCbor Hash_fromCbor)) y \<and>
    y\<lparr>cs_originalBytes := None\<rparr> = s"
proof -
  have "\<forall>h \<in> set (cs_values s). small_bytes h" "length (cs_values s) < 9007199254740992" "cs_originalBytes s = None"
    using assms by (simp_all add: owners_valid_def list_all_iff)
  from hash_codec.set_encodes [OF this, of conway] obtain b y where "CborSet_toCbor conway Hash_toCbor s = Inr b"
    "cbor_item b" "CborSet_fromCbor Hash_fromCbor b = Inr y" "cs_values y = cs_values s" by auto
  with assms show ?thesis
    by (intro exI [of _ b] exI [of _ y] conjI field_object) (cases s; cases y; simp add: owners_valid_def)+
qed

lemma field_metadata:
  assumes "case x of None \<Rightarrow> True | Some m \<Rightarrow> PoolMetadata_valid m"
  shows "\<exists>b y. field_ok (writeNullable PoolMetadata_toCbor x) b (readNullable PoolMetadata_fromCbor) y \<and>
    map_option (\<lambda>m. m\<lparr>pm_originalBytes := None\<rparr>) y = map_option (\<lambda>m. m\<lparr>pm_originalBytes := None\<rparr>) x"
proof (rule field_nullable)
  fix a assume "x = Some a"
  then have "PoolMetadata_valid a" using assms by simp
  from PoolMetadata_object [OF this] obtain b y where "PoolMetadata_toCbor a = Inr b" "cbor_item b" "array_headed b"
    "PoolMetadata_fromCbor b = Inr y" "(pm_url y, pm_hash y) = (pm_url a, pm_hash a)" by blast
  then show "\<exists>b y. PoolMetadata_toCbor a = Inr b \<and> cbor_item b \<and> array_headed b \<and> PoolMetadata_fromCbor b = Inr y \<and>
      y\<lparr>pm_originalBytes := None\<rparr> = a\<lparr>pm_originalBytes := None\<rparr>"
    by (intro exI [of _ b] exI [of _ y]) (cases a; cases y; simp)
qed

lemma field_relays:
  assumes "list_all (Relay_valid lib) xs" and "length xs < 9007199254740992"
  shows "\<exists>b ys. field_ok (writeList (Relay_toCbor lib) xs) b (readList (Relay_fromCbor lib)) ys \<and>
    map (\<lambda>r. \<lparr>rel_body = relay_content (rel_body r), rel_originalBytes = None\<rparr>) ys =
    map (\<lambda>r. \<lparr>rel_body = relay_content (rel_body r), rel_originalBytes = None\<rparr>) xs"
proof -
  obtain b ys where "field_ok (writeList (Relay_toCbor lib) xs) b (readList (Relay_fromCbor lib)) ys"
    and m: "map (\<lambda>x. relay_content (rel_body x)) ys = map (\<lambda>x. relay_content (rel_body x)) xs"
    using relay.field_list [OF assms] by blast
  moreover from arg_cong [OF m, of "map (\<lambda>b. \<lparr>rel_body = b, rel_originalBytes = None\<rparr>)"]
  have "map (\<lambda>r. \<lparr>rel_body = relay_content (rel_body r), rel_originalBytes = None\<rparr>) ys =
    map (\<lambda>r. \<lparr>rel_body = relay_content (rel_body r), rel_originalBytes = None\<rparr> :: Relay) xs"
    by (simp add: comp_def)
  ultimately show ?thesis by blast
qed

lemma pool_fields:
  assumes "PoolParams_valid env p"
  shows "\<exists>bs q. length bs = 9 \<and> list_all cbor_item bs \<and> (\<forall>w. PoolParams_toFlattenedCbor env p w = Inr (w @ concat bs)) \<and>
    (\<forall>pre rest off n k stk. k + 9 \<le> n \<longrightarrow>
       PoolParams_fromFlattenedCbor env (rd U pre (concat bs @ rest) (arr_frame off (Some n) k) stk False) =
       Inr (q, rd U (pre @ concat bs) rest (arr_frame off (Some n) (k + 9)) stk False)) \<and>
    pool_content q = pool_content p"
proof -
  have f1: "field_ok (writeByteString (pp_operator p)) (enc_bytes (pp_operator p)) (readHash 28) (pp_operator p)"
    and f2: "field_ok (writeByteString (pp_vrfKeyHash p)) (enc_bytes (pp_vrfKeyHash p)) (readHash 32) (pp_vrfKeyHash p)"
    and f3: "field_ok (writeInt (pp_pledge p)) (enc_int (pp_pledge p)) readInt (pp_pledge p)"
    and f4: "field_ok (writeInt (pp_cost p)) (enc_int (pp_cost p)) readInt (pp_cost p)"
    using assms by (simp_all add: PoolParams_valid_def field_hash field_int)
  obtain b5 y5 where f5: "field_ok (writeObject (UnitInterval_toCbor (pp_margin p))) b5 (readObject UnitInterval_fromCbor) y5"
    and c5: "y5\<lparr>ui_originalBytes := None\<rparr> = pp_margin p"
    using assms field_margin [of "pp_margin p"] by (auto simp: PoolParams_valid_def)
  obtain b6 where f6: "field_ok (writeRewardAccount env (pp_rewardAccount p)) b6 (readRewardAccount env) (pp_rewardAccount p)"
    using assms field_reward by (auto simp: PoolParams_valid_def)
  obtain b7 y7 where f7: "field_ok (writeObject (CborSet_toCbor (env_conway env) Hash_toCbor (pp_poolOwners p))) b7
      (readObject (CborSet_fromCbor Hash_fromCbor)) y7"
    and c7: "y7\<lparr>cs_originalBytes := None\<rparr> = pp_poolOwners p"
    using assms field_owners [of "pp_poolOwners p" "env_conway env"] by (auto simp: PoolParams_valid_def)
  obtain b8 y8 where f8: "field_ok (writeList (Relay_toCbor (env_ip env)) (pp_relays p)) b8 (readList (Relay_fromCbor (env_ip env))) y8"
    and c8: "map (\<lambda>r. \<lparr>rel_body = relay_content (rel_body r), rel_originalBytes = None\<rparr> :: Relay) y8 =
      map (\<lambda>r. \<lparr>rel_body = relay_content (rel_body r), rel_originalBytes = None\<rparr>) (pp_relays p)"
    using assms field_relays [of "env_ip env" "pp_relays p"] by (auto simp: PoolParams_valid_def)
  obtain b9 y9 where f9: "field_ok (writeNullable PoolMetadata_toCbor (pp_poolMetadata p)) b9 (readNullable PoolMetadata_fromCbor) y9"
    and c9: "map_option (\<lambda>m. m\<lparr>pm_originalBytes := None\<rparr>) y9 = map_option (\<lambda>m. m\<lparr>pm_originalBytes := None\<rparr>) (pp_poolMetadata p)"
    using assms field_metadata [of "pp_poolMetadata p"] by (auto simp: PoolParams_valid_def)
  note fs = field_okD [OF f1] field_okD [OF f2] field_okD [OF f3] field_okD [OF f4] field_okD [OF f5]
    field_okD [OF f6] field_okD [OF f7] field_okD [OF f8] field_okD [OF f9]
  let ?bs = "[enc_bytes (pp_operator p), enc_bytes (pp_vrfKeyHash p), enc_int (pp_pledge p), enc_int (pp_cost p), b5, b6, b7, b8, b9]"
  let ?q = "\<lparr>pp_operator = pp_operator p, pp_vrfKeyHash = pp_vrfKeyHash p, pp_pledge = pp_pledge p, pp_cost = pp_cost p,
    pp_margin = y5, pp_rewardAccount = pp_rewardAccount p, pp_poolOwners = y7, pp_relays = y8, pp_poolMetadata = y9,
    pp_originalBytes = None\<rparr>"
  have "pool_content ?q = pool_content p"
    using c5 c7 c8 c9 assms by (cases p; cases y5; cases y7)
      (simp add: pool_content_def PoolParams_valid_def UnitInterval_valid_def owners_valid_def)
  moreover have "\<forall>w. PoolParams_toFlattenedCbor env p w = Inr (w @ concat ?bs)"
    by (simp add: PoolParams_toFlattenedCbor_def fs)
  moreover have "PoolParams_fromFlattenedCbor env (rd U pre (concat ?bs @ rest) (arr_frame off (Some n) k) stk False) =
      Inr (?q, rd U (pre @ concat ?bs) rest (arr_frame off (Some n) (k + 9)) stk False)"
    if "k + 9 \<le> n" for pre rest off n k stk
    using that by (simp add: PoolParams_fromFlattenedCbor_def fs) (simp add: eval_nat_numeral)
  ultimately show ?thesis using fs by (intro exI [of _ ?bs] exI [of _ ?q]) simp
qed

interpretation pool_params: caching_codec "PoolParams_toCbor env" "PoolParams_fromCbor env" "PoolParams_valid env"
  pool_content for env
proof
  fix x assume v: "PoolParams_valid env x"
  then obtain bs q where f: "length bs = 9" "list_all cbor_item bs" "PoolParams_toFlattenedCbor env x w = Inr (w @ concat bs)"
    "k + 9 \<le> n \<Longrightarrow> PoolParams_fromFlattenedCbor env (rd U pre (concat bs @ rest) (arr_frame off (Some n) k) stk False) =
       Inr (q, rd U (pre @ concat bs) rest (arr_frame off (Some n) (k + 9)) stk False)" "pool_content q = pool_content x"
    for w pre rest off n k stk
    using pool_fields [OF v] by blast
  have "pool_content (q\<lparr>pp_originalBytes := c\<rparr>) = pool_content q" for c by (simp add: pool_content_def)
  with v f f(4) [of 0 9 _ "[]"] show "\<exists>b. PoolParams_toCbor env x = Inr b \<and> cbor_item b \<and>
      (\<exists>y. PoolParams_fromCbor env b = Inr y \<and> pool_content y = pool_content x)"
    by (simp add: PoolParams_toCbor_def PoolParams_fromCbor_def PoolParams_valid_def write_all_def encode_def rd_simps
        cbor_item_arrayN)
qed (auto simp: PoolParams_fromCbor_def PoolParams_toCbor_def dest!: expectArray_nonempty)

interpretation pool_registration: kinded_codec "PoolRegistration_toCbor env" "PoolRegistration_fromCbor env"
  "\<lambda>x. PoolParams_valid env (prg_params x) \<and> prg_originalBytes x = None" "\<lambda>x. pool_content (prg_params x)" 10 3 for env
proof
  fix x :: PoolRegistration
  assume v: "PoolParams_valid env (prg_params x) \<and> prg_originalBytes x = None"
  then obtain bs q where f: "length bs = 9" "list_all cbor_item bs"
    "PoolParams_toFlattenedCbor env (prg_params x) w = Inr (w @ concat bs)"
    "k + 9 \<le> n \<Longrightarrow> PoolParams_fromFlattenedCbor env (rd U pre (concat bs @ rest) (arr_frame off (Some n) k) stk False) =
       Inr (q, rd U (pre @ concat bs) rest (arr_frame off (Some n) (k + 9)) stk False)"
    "pool_content q = pool_content (prg_params x)" for w pre rest off n k stk
    using pool_fields [of env "prg_params x"] by blast
  have "cbor_item (kinded_bytes 10 3 (concat bs))"
    using cbor_item_arrayN [of "enc_int 3 # bs" 10] f(1,2) by (simp add: kinded_bytes_def)
  with v f f(4) [of 1 10 _ "[]"] show "\<exists>rest y. PoolRegistration_toCbor env x = Inr (kinded_bytes 10 3 rest) \<and>
      cbor_item (kinded_bytes 10 3 rest) \<and> PoolRegistration_fromCbor env (kinded_bytes 10 3 rest) = Inr y \<and>
      pool_content (prg_params y) = pool_content (prg_params x)"
    by (intro exI [of _ "concat bs"]) (simp add: PoolRegistration_toCbor_def PoolRegistration_fromCbor_def
        PoolRegistration_new_def kinded_bytes_def expectKind_def write_all_def encode_def rd_simps)
qed (auto simp: PoolRegistration_fromCbor_def PoolRegistration_toCbor_def dest!: expectArray_nonempty)

end
