(* ===== verification/Metadata.thy ===== *)
theory Metadata
  imports Tx_Output
begin

text \<open>
  Transaction metadata (\<open>core/src/Serialization/AuxiliaryData/TransactionMetadata\<close>): a
  \<open>TransactionMetadatum\<close> is a map, a list, an integer, a byte string or a text of at most 64
  bytes, with the bytes it was read from; \<open>GeneralTransactionMetadata\<close> maps labels to metadata.
  Entries of a \<open>MetadatumMap\<close> are kept in insertion order (its keys are fresh objects, so no
  insertion replaces another). A core metadatum is a \<open>bigint\<close>, a string, a \<open>Uint8Array\<close>, an array or
  a \<open>Map\<close>.
\<close>

text \<open>\<open>MUnset\<close> is an object of kind \<open>Map\<close> whose \<open>#map\<close> was never set.\<close>

datatype TransactionMetadatum = TransactionMetadatum metadatum_value "bytes option"
  and metadatum_value =
    MMap "(TransactionMetadatum \<times> TransactionMetadatum) list" bool
  | MList "TransactionMetadatum list" bool
  | MInteger int
  | MBytes bytes
  | MText js_string
  | MUnset

subsection \<open>Writing\<close>

text \<open>\<open>check64Length\<close>, on the bytes of a string or of a \<open>Uint8Array\<close>.\<close>

definition check64Length :: "bytes \<Rightarrow> unit result" where
  "check64Length metadatum = throw_if (64 < length metadatum) SerializationError"

definition MetadatumList_write :: "bool \<Rightarrow> bytes list \<Rightarrow> bytes result" where
  "MetadatumList_write useIndefiniteEncoding bs =
     write_all ([writeStartArray (if useIndefiniteEncoding then None else Some (length bs))]
       @ map writeEncodedValue bs
       @ (if useIndefiniteEncoding then [writeEndArray] else []))"

definition MetadatumMap_write :: "bool \<Rightarrow> (bytes \<times> bytes) list \<Rightarrow> bytes result" where
  "MetadatumMap_write useIndefiniteEncoding kvs =
     write_all ([writeStartMap (if useIndefiniteEncoding then None else Some (length kvs))]
       @ map writeEncodedValue (flat kvs)
       @ (if useIndefiniteEncoding then [writeEndMap] else []))"

definition writeMetadatumInteger :: "int \<Rightarrow> writer_op" where
  "writeMetadatumInteger i =
     (if (0 \<le> i \<and> i \<le> 18446744073709551615) \<or> (i < 0 \<and> - 1 - 18446744073709551615 \<le> i)
      then writeInt i else writeBigInteger i)"

fun TransactionMetadatum_toCbor :: "TransactionMetadatum \<Rightarrow> bytes result"
  and metadatum_value_toCbor :: "metadatum_value \<Rightarrow> bytes result" where
  "TransactionMetadatum_toCbor (TransactionMetadatum v original) = cached original (metadatum_value_toCbor v)"
| "metadatum_value_toCbor (MMap entries useIndefiniteEncoding) =
     ebind (emap (\<lambda>(k, v). ebind (TransactionMetadatum_toCbor k) (\<lambda>kb.
                           ebind (TransactionMetadatum_toCbor v) (\<lambda>vb. Inr (kb, vb)))) entries)
       (\<lambda>kvs. MetadatumMap_write useIndefiniteEncoding kvs)"
| "metadatum_value_toCbor (MList items useIndefiniteEncoding) =
     ebind (emap TransactionMetadatum_toCbor items) (\<lambda>bs. MetadatumList_write useIndefiniteEncoding bs)"
| "metadatum_value_toCbor (MBytes bs) = ebind (check64Length bs) (\<lambda>_. write_all [writeByteString bs])"
| "metadatum_value_toCbor (MText s) = ebind (check64Length (utf8_encode s)) (\<lambda>_. write_all [writeTextString s])"
| "metadatum_value_toCbor (MInteger i) = write_all [writeMetadatumInteger i]"
| "metadatum_value_toCbor MUnset = Inl TypeError"

subsection \<open>Reading\<close>

definition MetadatumList_fromCbor :: "(bytes \<Rightarrow> TransactionMetadatum result) \<Rightarrow> bytes \<Rightarrow> metadatum_value result" where
  "MetadatumList_fromCbor fromCbor cbor =
     ebind (readStartArray (new_reader cbor)) (\<lambda>(len, r).
     ebind (readItems EndArray fromCbor r) (\<lambda>(items, r).
     ebind (readEndArray r) (\<lambda>r. Inr (MList items (len = None)))))"

definition MetadatumMap_fromCbor :: "(bytes \<Rightarrow> TransactionMetadatum result) \<Rightarrow> bytes \<Rightarrow> metadatum_value result" where
  "MetadatumMap_fromCbor fromCbor cbor =
     ebind (readStartMap (new_reader cbor)) (\<lambda>(len, r).
     ebind (readEntries EndMap fromCbor fromCbor r) (\<lambda>(entries, r).
     ebind (readEndMap r) (\<lambda>r. Inr (MMap entries (len = None)))))"

lemma MetadatumList_fromCbor_cong [fundef_cong]:
  assumes "cbor = cbor'" and "\<And>b. length b < length cbor' \<Longrightarrow> f b = g b"
  shows "MetadatumList_fromCbor f cbor = MetadatumList_fromCbor g cbor'"
proof -
  have "readItems EndArray f r = readItems EndArray g r" if "remaining r < length cbor'" for r
    using that by (intro readItems_cong refl assms(2)) simp
  then show ?thesis
    unfolding MetadatumList_fromCbor_def assms(1)
    by (intro ebind_cong [OF refl]) (auto dest!: readStartArray_remaining)
qed

lemma MetadatumMap_fromCbor_cong [fundef_cong]:
  assumes "cbor = cbor'" and "\<And>b. length b < length cbor' \<Longrightarrow> f b = g b"
  shows "MetadatumMap_fromCbor f cbor = MetadatumMap_fromCbor g cbor'"
proof -
  have "readEntries EndMap f f r = readEntries EndMap g g r" if "remaining r < length cbor'" for r
    using that by (intro readEntries_cong refl assms(2)) simp_all
  then show ?thesis
    unfolding MetadatumMap_fromCbor_def assms(1)
    by (intro ebind_cong [OF refl]) (auto dest!: readStartMap_remaining)
qed

text \<open>A tag other than the two big-number tags is accepted, and leaves the object unset.\<close>

function TransactionMetadatum_fromCbor :: "bytes \<Rightarrow> TransactionMetadatum result" where
  "TransactionMetadatum_fromCbor cbor =
     ebind (peekState (new_reader cbor)) (\<lambda>(state, r).
     ebind
      (if state = TagState then
         ebind (peekTag r) (\<lambda>tag.
           if tag = CborTag_UnsignedBigNum then
             ebind (readTag r) (\<lambda>(_, r).
             ebind (readByteString r) (\<lambda>(bs, r). Inr (MInteger (bufferToBigint bs))))
           else if tag = CborTag_NegativeBigNum then
             ebind (readTag r) (\<lambda>(_, r).
             ebind (readByteString r) (\<lambda>(bs, r). Inr (MInteger (bufferToBigint bs * - 1))))
           else Inr MUnset)
       else if state = NegativeIntegerState \<or> state = UnsignedIntegerState then
         ebind (readInt r) (\<lambda>(i, r). Inr (MInteger i))
       else if state = StartIndefiniteLengthByteString \<or> state = ByteStringState then
         ebind (readByteString r) (\<lambda>(bs, r). Inr (MBytes bs))
       else if state = StartIndefiniteLengthTextString \<or> state = TextStringState then
         ebind (readTextString r) (\<lambda>(s, r). Inr (MText s))
       else if state = StartArray then
         ebind (readEncodedValue r) (\<lambda>(b, r). MetadatumList_fromCbor TransactionMetadatum_fromCbor b)
       else if state = StartMap then
         ebind (readEncodedValue r) (\<lambda>(b, r). MetadatumMap_fromCbor TransactionMetadatum_fromCbor b)
       else Inl GenericError)
      (\<lambda>v. Inr (TransactionMetadatum v (Some cbor))))"
  by pat_completeness auto
termination
  by (relation "measure length")
    (auto dest!: readEncodedValue_remaining(1) peekState_remaining)

declare TransactionMetadatum_fromCbor.simps [simp del]

subsection \<open>Equality and look-up\<close>

text \<open>The bytes of two byte strings are compared one by one; objects of different kinds differ.\<close>

fun TransactionMetadatum_equals :: "TransactionMetadatum \<Rightarrow> TransactionMetadatum \<Rightarrow> bool"
  and metadatum_value_equals :: "metadatum_value \<Rightarrow> metadatum_value \<Rightarrow> bool" where
  "TransactionMetadatum_equals (TransactionMetadatum v original) (TransactionMetadatum w original') =
     metadatum_value_equals v w"
| "metadatum_value_equals (MBytes bs) w = (case w of MBytes cs \<Rightarrow> PlutusList_equals (=) bs cs | _ \<Rightarrow> False)"
| "metadatum_value_equals (MInteger i) w = (case w of MInteger j \<Rightarrow> i = j | _ \<Rightarrow> False)"
| "metadatum_value_equals (MText s) w = (case w of MText t \<Rightarrow> s = t | _ \<Rightarrow> False)"
| "metadatum_value_equals (MList xs i) w =
     (case w of MList ys j \<Rightarrow> PlutusList_equals TransactionMetadatum_equals xs ys | _ \<Rightarrow> False)"
| "metadatum_value_equals (MMap xs i) w =
     (case w of MMap ys j \<Rightarrow> PlutusMap_equals TransactionMetadatum_equals xs i ys j | _ \<Rightarrow> False)"
| "metadatum_value_equals MUnset w = False"

definition MetadatumMap_get ::
    "(TransactionMetadatum \<times> TransactionMetadatum) list \<Rightarrow> TransactionMetadatum \<Rightarrow> TransactionMetadatum option" where
  "MetadatumMap_get entries key = map_option snd (find (\<lambda>e. TransactionMetadatum_equals (fst e) key) entries)"

definition MetadatumMap_getKeys ::
    "(TransactionMetadatum \<times> TransactionMetadatum) list \<Rightarrow> TransactionMetadatum list" where
  "MetadatumMap_getKeys entries = map fst entries"

lemma MetadatumMap_get_member: "MetadatumMap_get entries key = Some v \<Longrightarrow> v \<in> snd ` set entries"
  by (auto simp: MetadatumMap_get_def find_Some_iff intro!: image_eqI [OF _ nth_mem] dest!: arg_cong [of _ _ snd])

subsection \<open>The core type\<close>

text \<open>\<open>Core_NotMetadatum\<close> is a \<open>number\<close>, \<open>boolean\<close>, \<open>null\<close> or \<open>undefined\<close> where a metadatum is expected.\<close>

datatype Core_Metadatum =
    Core_MInteger int
  | Core_MText js_string
  | Core_MBytes bytes
  | Core_MList "Core_Metadatum list"
  | Core_MMap "(Core_Metadatum \<times> Core_Metadatum) list"
  | Core_NotMetadatum

text \<open>\<open>coreMap.set\<close>: numbers and strings are compared by value, other keys are fresh objects.\<close>

definition is_primitive :: "Core_Metadatum \<Rightarrow> bool" where
  "is_primitive c = (case c of Core_MInteger _ \<Rightarrow> True | Core_MText _ \<Rightarrow> True | _ \<Rightarrow> False)"

fun core_metadatum_set :: "Core_Metadatum \<Rightarrow> Core_Metadatum \<Rightarrow>
    (Core_Metadatum \<times> Core_Metadatum) list \<Rightarrow> (Core_Metadatum \<times> Core_Metadatum) list" where
  "core_metadatum_set k v [] = [(k, v)]"
| "core_metadatum_set k v ((k', v') # m) =
     (if k' = k \<and> is_primitive k then (k', v) # m else (k', v') # core_metadatum_set k v m)"

function TransactionMetadatum_toCore :: "TransactionMetadatum \<Rightarrow> Core_Metadatum result" where
  "TransactionMetadatum_toCore (TransactionMetadatum (MBytes bs) original) = Inr (Core_MBytes bs)"
| "TransactionMetadatum_toCore (TransactionMetadatum (MText s) original) = Inr (Core_MText s)"
| "TransactionMetadatum_toCore (TransactionMetadatum (MInteger i) original) = Inr (Core_MInteger i)"
| "TransactionMetadatum_toCore (TransactionMetadatum (MList items ind) original) =
     ebind (emap TransactionMetadatum_toCore items) (\<lambda>cs. Inr (Core_MList cs))"
| "TransactionMetadatum_toCore (TransactionMetadatum (MMap entries ind) original) =
     ebind (emap (\<lambda>key.
              ebind (TransactionMetadatum_toCore key) (\<lambda>k.
                case MetadatumMap_get entries key of
                  None \<Rightarrow> Inl TypeError
                | Some value \<Rightarrow> ebind (TransactionMetadatum_toCore value) (\<lambda>v. Inr (k, v))))
            (MetadatumMap_getKeys entries)) (\<lambda>kvs.
       Inr (Core_MMap (foldl (\<lambda>m (k, v). core_metadatum_set k v m) [] kvs)))"
| "TransactionMetadatum_toCore (TransactionMetadatum MUnset original) = Inl TypeError"
  by pat_completeness auto

termination
proof (relation "measure size", goal_cases)
  case (3 entries ind original key)
  then show ?case by (auto simp: MetadatumMap_getKeys_def dest: size_entry)
next
  case (4 entries ind original key a v)
  then show ?case by (auto simp: MetadatumMap_getKeys_def dest!: MetadatumMap_get_member size_entry)
qed (auto intro!: le_SucI size_list_estimation' simp: less_Suc_eq_le)

fun TransactionMetadatum_fromCore :: "Core_Metadatum \<Rightarrow> TransactionMetadatum result" where
  "TransactionMetadatum_fromCore Core_NotMetadatum = Inl SerializationError"
| "TransactionMetadatum_fromCore (Core_MInteger i) = Inr (TransactionMetadatum (MInteger i) None)"
| "TransactionMetadatum_fromCore (Core_MText s) =
     ebind (check64Length (utf8_encode s)) (\<lambda>_. Inr (TransactionMetadatum (MText s) None))"
| "TransactionMetadatum_fromCore (Core_MList items) =
     ebind (emap TransactionMetadatum_fromCore items) (\<lambda>ms. Inr (TransactionMetadatum (MList ms False) None))"
| "TransactionMetadatum_fromCore (Core_MBytes bs) =
     ebind (check64Length bs) (\<lambda>_. Inr (TransactionMetadatum (MBytes bs) None))"
| "TransactionMetadatum_fromCore (Core_MMap entries) =
     ebind (emap (\<lambda>(k, v). ebind (TransactionMetadatum_fromCore k) (\<lambda>k.
                           ebind (TransactionMetadatum_fromCore v) (\<lambda>v. Inr (k, v)))) entries)
       (\<lambda>es. Inr (TransactionMetadatum (MMap es False) None))"

subsection \<open>Round trip\<close>

fun TransactionMetadatum_strip :: "TransactionMetadatum \<Rightarrow> TransactionMetadatum"
  and metadatum_value_strip :: "metadatum_value \<Rightarrow> metadatum_value" where
  "TransactionMetadatum_strip (TransactionMetadatum v original) = TransactionMetadatum (metadatum_value_strip v) None"
| "metadatum_value_strip (MMap entries ind) =
     MMap (map (\<lambda>(k, v). (TransactionMetadatum_strip k, TransactionMetadatum_strip v)) entries) ind"
| "metadatum_value_strip (MList items ind) = MList (map TransactionMetadatum_strip items) ind"
| "metadatum_value_strip (MInteger i) = MInteger i"
| "metadatum_value_strip (MBytes bs) = MBytes bs"
| "metadatum_value_strip (MText s) = MText s"
| "metadatum_value_strip MUnset = MUnset"

definition metadatum_integer :: "int \<Rightarrow> bool" where
  "metadatum_integer i \<longleftrightarrow> cbor_int i \<or> (0 \<le> i \<and> small_bytes (magnitude_bytes (nat i)))"

text \<open>
  Freshly built metadata within the limit of 64 bytes, with integers from \<open>- 2 ^ 64\<close> upwards and
  containers of a size JavaScript can hold.
\<close>

fun TransactionMetadatum_ok :: "TransactionMetadatum \<Rightarrow> bool"
  and metadatum_value_ok :: "metadatum_value \<Rightarrow> bool" where
  "TransactionMetadatum_ok (TransactionMetadatum v original) \<longleftrightarrow> original = None \<and> metadatum_value_ok v"
| "metadatum_value_ok (MMap entries ind) \<longleftrightarrow> length entries < 9007199254740992 \<and>
     (\<forall>(k, v) \<in> set entries. TransactionMetadatum_ok k \<and> TransactionMetadatum_ok v)"
| "metadatum_value_ok (MList items ind) \<longleftrightarrow> length items < 9007199254740992 \<and>
     (\<forall>d \<in> set items. TransactionMetadatum_ok d)"
| "metadatum_value_ok (MInteger i) \<longleftrightarrow> metadatum_integer i"
| "metadatum_value_ok (MBytes bs) \<longleftrightarrow> length bs \<le> 64"
| "metadatum_value_ok (MText s) \<longleftrightarrow> length (utf8_encode s) \<le> 64 \<and> well_formed_utf16 s"
| "metadatum_value_ok MUnset \<longleftrightarrow> False"

definition metadatum_roundtrip :: "TransactionMetadatum \<Rightarrow> bool" where
  "metadatum_roundtrip d \<longleftrightarrow> (\<exists>b. TransactionMetadatum_toCbor d = Inr b \<and> cbor_item b \<and>
     (\<exists>y. TransactionMetadatum_fromCbor b = Inr y \<and> TransactionMetadatum_strip y = TransactionMetadatum_strip d))"

lemma metadatum_roundtripI:
  assumes "metadatum_value_toCbor v = Inr b" and "cbor_item b"
    and "TransactionMetadatum_fromCbor b = Inr (TransactionMetadatum w (Some b))"
    and "metadatum_value_strip w = metadatum_value_strip v"
  shows "metadatum_roundtrip (TransactionMetadatum v None)"
  using assms by (simp add: metadatum_roundtrip_def)

lemma peekStateCore_text [rd_simps]:
  "length (utf8_encode s) < 18446744073709551616 \<Longrightarrow> open_frame fr \<Longrightarrow>
   peekStateCore (rd c pre (enc_text s @ bs) fr stk tag) = Inr TextStringState"
  using head_peek(3) [OF is_head_enc_head] head_info(1,2) [OF is_head_enc_head]
  by (simp add: state_of_initial_byte_def enc_text_def peekStateCore_rd)

lemma enc_bounded_short: "length bs \<le> 64 \<Longrightarrow> enc_bytes bs = enc_bounded bs"
  by (simp add: enc_bounded_def)

lemma metadatum_fromCbor_bytes:
  assumes "length bs \<le> 64"
  shows "TransactionMetadatum_fromCbor (enc_bytes bs) = Inr (TransactionMetadatum (MBytes bs) (Some (enc_bytes bs)))"
  using peekStateCore_values(2) [of root_frame U "[]" bs "[]" "[]" False]
    readByteString_bounded [of root_frame _ "[]" bs "[]" "[]" False] assms
  by (subst TransactionMetadatum_fromCbor.simps) (simp add: rd_simps enc_bounded_short)

lemma metadatum_fromCbor_text:
  assumes "length (utf8_encode s) \<le> 64" and "well_formed_utf16 s"
  shows "TransactionMetadatum_fromCbor (enc_text s) = Inr (TransactionMetadatum (MText s) (Some (enc_text s)))"
  using peekStateCore_text [of s root_frame U "[]" "[]" "[]" False] assms
  by (subst TransactionMetadatum_fromCbor.simps) (simp add: rd_simps rd_last)

lemma metadatum_fromCbor_int:
  assumes "cbor_int i"
  shows "TransactionMetadatum_fromCbor (enc_int i) = Inr (TransactionMetadatum (MInteger i) (Some (enc_int i)))"
  using peekStateCore_values(1) [OF _ assms, of root_frame U "[]" "[]" "[]" False]
  by (subst TransactionMetadatum_fromCbor.simps) (simp add: rd_simps rd_last assms)

lemma metadatum_fromCbor_bignum:
  assumes "small_bytes p"
  shows "TransactionMetadatum_fromCbor (enc_head TagType 2 @ enc_bytes p) =
     Inr (TransactionMetadatum (MInteger (int (be_nat p))) (Some (enc_head TagType 2 @ enc_bytes p)))"
    and "TransactionMetadatum_fromCbor (enc_head TagType 3 @ enc_bytes p) =
     Inr (TransactionMetadatum (MInteger (- int (be_nat p))) (Some (enc_head TagType 3 @ enc_bytes p)))"
  using readByteString_rd [of p root_frame _ _ "[]" "[]"] assms
  by (subst TransactionMetadatum_fromCbor.simps, simp add: rd_simps bufferToBigint_be_nat)+

lemma metadatum_roundtrip_integer:
  assumes "metadatum_integer i"
  shows "metadatum_roundtrip (TransactionMetadatum (MInteger i) None)"
proof (cases "cbor_int i")
  case True
  then have "writeMetadatumInteger i = writeInt i" by (auto simp: writeMetadatumInteger_def cbor_int_def)
  with True show ?thesis
    by (intro metadatum_roundtripI [of _ "enc_int i" "MInteger i"])
      (simp_all add: write_all_def encode_def metadatum_fromCbor_int)
next
  case False
  let ?p = "magnitude_bytes (nat i)"
  from False assms have i: "0 \<le> i" "small_bytes ?p" "18446744073709551615 < i"
    by (auto simp: metadatum_integer_def cbor_int_def)
  then have "writeMetadatumInteger i w = Inr (w @ enc_head TagType 2 @ enc_bytes ?p)" for w
    by (simp add: writeMetadatumInteger_def writeBigInteger_def enc_bytes_def Let_def)
  with i metadatum_fromCbor_bignum(1) [OF i(2)] show ?thesis
    by (intro metadatum_roundtripI [of _ "enc_head TagType 2 @ enc_bytes ?p" "MInteger i"])
      (simp_all add: write_all_def encode_def cbor_items)
qed

text \<open>Lists and maps, in either encoding.\<close>

definition enc_array :: "bool \<Rightarrow> bytes list \<Rightarrow> bytes" where
  "enc_array ind bs = (if ind then 0x9f # concat bs @ [0xff] else enc_head ArrayType (length bs) @ concat bs)"

lemma metadatum_roundtrip_list:
  assumes "\<forall>d \<in> set ds. metadatum_roundtrip d" and "length ds < 9007199254740992"
  shows "metadatum_roundtrip (TransactionMetadatum (MList ds ind) None)"
proof -
  have "cbor_codec TransactionMetadatum_toCbor TransactionMetadatum_fromCbor metadatum_roundtrip TransactionMetadatum_strip"
    by unfold_locales (simp add: metadatum_roundtrip_def)
  from cbor_codec.encode_list [OF this assms(1)] assms(2) obtain bs ys where bs: "emap TransactionMetadatum_toCbor ds = Inr bs"
    "\<forall>b \<in> set bs. cbor_item b" "length bs < 9007199254740992" "list_all2 (\<lambda>b y. TransactionMetadatum_fromCbor b = Inr y) bs ys"
    "map TransactionMetadatum_strip ys = map TransactionMetadatum_strip ds"
    by auto
  let ?b = "enc_array ind bs"
  have item: "cbor_item ?b" using bs cbor_item_array [of bs] ci_array_indef [of bs] by (auto simp: enc_array_def)
  have peek: "peekStateCore (rd U [] ?b root_frame [] False) = Inr StartArray"
    using bs(3) peekStateCore_item [OF item, of root_frame U "[]" "[]" "[]" False] array_state [of "length bs" "concat bs"]
      peekStateCore_values(3) [of root_frame U "[]" "concat bs @ [0xff]"]
    by (auto simp: enc_array_def)
  have "MetadatumList_fromCbor TransactionMetadatum_fromCbor ?b = Inr (MList ys ind)"
    using bs by (auto simp: MetadatumList_fromCbor_def enc_array_def rd_simps rd_last)
  with peek item have "TransactionMetadatum_fromCbor ?b = Inr (TransactionMetadatum (MList ys ind) (Some ?b))"
    by (subst TransactionMetadatum_fromCbor.simps) (simp add: rd_simps rd_last)
  with bs item show ?thesis
    by (intro metadatum_roundtripI [of _ ?b "MList ys ind"])
      (simp_all add: MetadatumList_write_def enc_array_def write_all_def run_ops_append encode_def)
qed

lemma metadatum_roundtrip_map:
  assumes "\<forall>(k, v) \<in> set es. metadatum_roundtrip k \<and> metadatum_roundtrip v" and "length es < 9007199254740992"
  shows "metadatum_roundtrip (TransactionMetadatum (MMap es ind) None)"
proof -
  have codec: "entry_codec TransactionMetadatum_toCbor TransactionMetadatum_fromCbor metadatum_roundtrip TransactionMetadatum_strip
      TransactionMetadatum_toCbor TransactionMetadatum_fromCbor metadatum_roundtrip TransactionMetadatum_strip"
    by unfold_locales (simp_all add: metadatum_roundtrip_def)
  obtain kvs ys where kvs: "emap (\<lambda>(k, v). ebind (TransactionMetadatum_toCbor k)
      (\<lambda>kb. ebind (TransactionMetadatum_toCbor v) (\<lambda>vb. Inr (kb, vb)))) es = Inr kvs"
    "\<forall>b \<in> set (flat kvs). cbor_item b" "length kvs < 9007199254740992"
    "list_all2 (\<lambda>(kx, vx) (k, v). TransactionMetadatum_fromCbor kx = Inr k \<and> TransactionMetadatum_fromCbor vx = Inr v) kvs ys"
    "map (map_prod TransactionMetadatum_strip TransactionMetadatum_strip) ys =
      map (map_prod TransactionMetadatum_strip TransactionMetadatum_strip) es"
    using entry_codec.encode_entries [OF codec assms(1)] assms(2) by auto
  let ?b = "enc_map ind kvs"
  have item: "cbor_item ?b" by (rule cbor_item_enc_map [OF kvs(2,3)])
  have "MetadatumMap_fromCbor TransactionMetadatum_fromCbor ?b = Inr (MMap ys ind)"
    using kvs length_concat_items [OF kvs(2)]
    by (auto simp: MetadatumMap_fromCbor_def enc_map_def rd_simps rd_last)
  then have "TransactionMetadatum_fromCbor ?b = Inr (TransactionMetadatum (MMap ys ind) (Some ?b))"
    using item peekStateCore_enc_map [OF kvs(3), of root_frame U "[]" ind "[]" "[]" False]
    by (subst TransactionMetadatum_fromCbor.simps) (simp add: rd_simps rd_last)
  with kvs item show ?thesis
    by (intro metadatum_roundtripI [of _ ?b "MMap ys ind"])
      (simp_all add: MetadatumMap_write_def enc_map_def write_all_def run_ops_append encode_def map_prod_def)
qed

lemma TransactionMetadatum_ok_roundtrip: "TransactionMetadatum_ok d \<Longrightarrow> metadatum_roundtrip d"
  and metadatum_value_ok_roundtrip: "metadatum_value_ok v \<Longrightarrow> metadatum_roundtrip (TransactionMetadatum v None)"
proof (induction d and v rule: TransactionMetadatum_ok_metadatum_value_ok.induct)
  case (2 entries ind)
  then show ?case by (intro metadatum_roundtrip_map) fastforce+
next
  case (5 bs)
  then show ?case
    by (intro metadatum_roundtripI [of _ "enc_bytes bs" "MBytes bs"])
      (simp_all add: check64Length_def write_all_def encode_def metadatum_fromCbor_bytes)
next
  case (6 s)
  then show ?case
    by (intro metadatum_roundtripI [of _ "enc_text s" "MText s"])
      (simp_all add: check64Length_def write_all_def encode_def metadatum_fromCbor_text)
qed (auto intro: metadatum_roundtrip_list metadatum_roundtrip_integer)

lemma TransactionMetadatum_keeps_bytes:
  assumes "TransactionMetadatum_fromCbor b = Inr y"
  shows "TransactionMetadatum_toCbor y = Inr b"
proof -
  have "TransactionMetadatum_fromCbor [] = Inl GenericError"
    by (simp add: TransactionMetadatum_fromCbor.simps)
  with assms have "b \<noteq> []" by auto
  with assms show ?thesis by (auto simp: TransactionMetadatum_fromCbor.simps)
qed

interpretation metadatum: caching_codec TransactionMetadatum_toCbor TransactionMetadatum_fromCbor
  TransactionMetadatum_ok TransactionMetadatum_strip
  by unfold_locales
    (use TransactionMetadatum_ok_roundtrip in \<open>auto simp: metadatum_roundtrip_def TransactionMetadatum_keeps_bytes\<close>)

subsection \<open>Core metadata\<close>

text \<open>What \<open>fromCore\<close> accepts: every leaf is a metadatum and no string is longer than 64 bytes.\<close>

fun within_limits :: "Core_Metadatum \<Rightarrow> bool" where
  "within_limits (Core_MInteger i) \<longleftrightarrow> True"
| "within_limits (Core_MText s) \<longleftrightarrow> length (utf8_encode s) \<le> 64"
| "within_limits (Core_MBytes bs) \<longleftrightarrow> length bs \<le> 64"
| "within_limits (Core_MList items) \<longleftrightarrow> (\<forall>c \<in> set items. within_limits c)"
| "within_limits (Core_MMap entries) \<longleftrightarrow> (\<forall>(k, v) \<in> set entries. within_limits k \<and> within_limits v)"
| "within_limits Core_NotMetadatum \<longleftrightarrow> False"

text \<open>The object that \<open>fromCore\<close> builds.\<close>

fun metadatum_of :: "Core_Metadatum \<Rightarrow> TransactionMetadatum" where
  "metadatum_of (Core_MInteger i) = TransactionMetadatum (MInteger i) None"
| "metadatum_of (Core_MText s) = TransactionMetadatum (MText s) None"
| "metadatum_of (Core_MBytes bs) = TransactionMetadatum (MBytes bs) None"
| "metadatum_of (Core_MList items) = TransactionMetadatum (MList (map metadatum_of items) False) None"
| "metadatum_of (Core_MMap entries) =
     TransactionMetadatum (MMap (map (\<lambda>(k, v). (metadatum_of k, metadatum_of v)) entries) False) None"
| "metadatum_of Core_NotMetadatum = TransactionMetadatum MUnset None"

lemma emap_Inl:
  assumes "\<exists>x \<in> set xs. f x = Inl e" and "\<And>x. x \<in> set xs \<Longrightarrow> f x = Inl e \<or> (\<exists>y. f x = Inr y)"
  shows "emap f xs = Inl e"
  using assms
proof (induction xs)
  case (Cons x xs)
  show ?case
  proof (cases "f x = Inl e")
    case False
    with Cons.prems obtain y where "f x = Inr y" "\<exists>x \<in> set xs. f x = Inl e" by fastforce
    with Cons show ?thesis by simp
  qed simp
qed simp

lemma fromCore_decides:
  "TransactionMetadatum_fromCore c = (if within_limits c then Inr (metadatum_of c) else Inl SerializationError)"
proof (induction c rule: within_limits.induct)
  case (4 items)
  show ?case
  proof (cases "within_limits (Core_MList items)")
    case True
    then have "emap TransactionMetadatum_fromCore items = Inr (map metadatum_of items)"
      using 4 by (intro emap_Inr) simp
    with True show ?thesis by simp
  next
    case False
    then have "emap TransactionMetadatum_fromCore items = Inl SerializationError"
      using 4 by (intro emap_Inl) auto
    with False show ?thesis by simp
  qed
next
  case (5 entries)
  let ?f = "\<lambda>(k, v). ebind (TransactionMetadatum_fromCore k) (\<lambda>k. ebind (TransactionMetadatum_fromCore v) (\<lambda>v. Inr (k, v)))"
  have f: "?f e = (if within_limits (fst e) \<and> within_limits (snd e) then Inr (metadatum_of (fst e), metadatum_of (snd e))
      else Inl SerializationError)" if "e \<in> set entries" for e
  proof -
    obtain k v where e: "e = (k, v)" by force
    show ?thesis using 5 [OF that e [symmetric]] by (simp add: e)
  qed
  show ?case
  proof (cases "within_limits (Core_MMap entries)")
    case True
    then have "emap ?f entries = Inr (map (\<lambda>(k, v). (metadatum_of k, metadatum_of v)) entries)"
      using f by (intro emap_Inr) (fastforce simp: case_prod_beta)
    with True show ?thesis by simp
  next
    case False
    then have "emap ?f entries = Inl SerializationError"
      using f by (intro emap_Inl) (auto simp: case_prod_beta)
    with False show ?thesis by simp
  qed
qed (simp_all add: check64Length_def)

text \<open>Comparison and conversion do not look at the cached bytes.\<close>

lemma metadatum_equals_strip:
  "TransactionMetadatum_equals (TransactionMetadatum_strip d) e = TransactionMetadatum_equals d e"
  "metadatum_value_equals (metadatum_value_strip v) w = metadatum_value_equals v w"
proof (induction d e and v w rule: TransactionMetadatum_equals_metadatum_value_equals.induct)
  case (5 xs i w)
  then show ?case by (cases w) (auto simp: PlutusList_equals_def)
next
  case (6 xs i w)
  then show ?case
  proof (cases w)
    case (MMap ys j)
    have "TransactionMetadatum_equals (TransactionMetadatum_strip (fst (xs ! n))) (fst (ys ! n)) =
        TransactionMetadatum_equals (fst (xs ! n)) (fst (ys ! n)) \<and>
      TransactionMetadatum_equals (TransactionMetadatum_strip (snd (xs ! n))) (snd (ys ! n)) =
        TransactionMetadatum_equals (snd (xs ! n)) (snd (ys ! n))" if "n < length xs" for n
      using 6(1,2) [OF MMap, of "fst (xs ! n)" "snd (xs ! n)"] that nth_mem [OF that] by simp
    then show ?thesis using MMap by (auto simp: PlutusMap_equals_def case_prod_beta)
  qed simp_all
qed (auto split: metadatum_value.splits)

lemma metadatum_equals_strip_right:
  "TransactionMetadatum_equals d (TransactionMetadatum_strip e) = TransactionMetadatum_equals d e"
  "metadatum_value_equals v (metadatum_value_strip w) = metadatum_value_equals v w"
proof (induction d e and v w rule: TransactionMetadatum_equals_metadatum_value_equals.induct)
  case (5 xs i w)
  then show ?case by (cases w) (auto simp: PlutusList_equals_def)
next
  case (6 xs i w)
  then show ?case
  proof (cases w)
    case (MMap ys j)
    have "TransactionMetadatum_equals (fst (xs ! n)) (TransactionMetadatum_strip (fst (ys ! n))) =
        TransactionMetadatum_equals (fst (xs ! n)) (fst (ys ! n)) \<and>
      TransactionMetadatum_equals (snd (xs ! n)) (TransactionMetadatum_strip (snd (ys ! n))) =
        TransactionMetadatum_equals (snd (xs ! n)) (snd (ys ! n))" if "n < length xs" for n
      using 6(1,2) [OF MMap, of "fst (xs ! n)" "snd (xs ! n)"] that nth_mem [OF that] by simp
    then show ?thesis using MMap by (auto simp: PlutusMap_equals_def case_prod_beta)
  qed simp_all
qed (auto split: metadatum_value.splits)

lemma MetadatumMap_get_strip:
  "MetadatumMap_get (map (\<lambda>(k, v). (TransactionMetadatum_strip k, TransactionMetadatum_strip v)) es) (TransactionMetadatum_strip key) =
     map_option TransactionMetadatum_strip (MetadatumMap_get es key)"
  by (induction es) (auto simp: MetadatumMap_get_def metadatum_equals_strip metadatum_equals_strip_right)

lemma emap_map: "emap f (map g xs) = emap (\<lambda>x. f (g x)) xs"
  by (induction xs) simp_all

lemma toCore_strip: "TransactionMetadatum_toCore (TransactionMetadatum_strip d) = TransactionMetadatum_toCore d"
proof (induction d rule: TransactionMetadatum_toCore.induct)
  case (4 items ind original)
  then show ?case by (auto simp: emap_map cong: emap_cong)
next
  case (5 entries ind original)
  have keys: "MetadatumMap_getKeys (map (\<lambda>(k, v). (TransactionMetadatum_strip k, TransactionMetadatum_strip v)) entries) =
      map TransactionMetadatum_strip (MetadatumMap_getKeys entries)"
    by (simp add: MetadatumMap_getKeys_def case_prod_beta)
  show ?case
    by (simp add: keys emap_map MetadatumMap_get_strip)
      (rule arg_cong [where f = "\<lambda>m. ebind m _"], rule emap_cong [OF refl],
       auto intro!: ebind_cong simp: 5 split: option.splits)
qed simp_all

text \<open>
  Core metadata that a transaction can hold: within the limits, with integers the encoding can
  express, well-formed texts, and maps without two equal keys.
\<close>

fun core_metadatum_ok :: "Core_Metadatum \<Rightarrow> bool" where
  "core_metadatum_ok (Core_MInteger i) \<longleftrightarrow> metadatum_integer i"
| "core_metadatum_ok (Core_MText s) \<longleftrightarrow> length (utf8_encode s) \<le> 64 \<and> well_formed_utf16 s"
| "core_metadatum_ok (Core_MBytes bs) \<longleftrightarrow> length bs \<le> 64"
| "core_metadatum_ok (Core_MList items) \<longleftrightarrow> length items < 9007199254740992 \<and> (\<forall>c \<in> set items. core_metadatum_ok c)"
| "core_metadatum_ok (Core_MMap entries) \<longleftrightarrow> length entries < 9007199254740992 \<and> distinct (map fst entries) \<and>
     (\<forall>(k, v) \<in> set entries. core_metadatum_ok k \<and> core_metadatum_ok v)"
| "core_metadatum_ok Core_NotMetadatum \<longleftrightarrow> False"

lemma core_ok_within_limits: "core_metadatum_ok c \<Longrightarrow> within_limits c"
  by (induction c rule: core_metadatum_ok.induct) auto

lemma core_ok_metadatum: "core_metadatum_ok c \<Longrightarrow> TransactionMetadatum_ok (metadatum_of c)"
  by (induction c rule: core_metadatum_ok.induct) fastforce+

lemma metadatum_of_equals:
  "within_limits c \<Longrightarrow> TransactionMetadatum_equals (metadatum_of c) (metadatum_of c') \<longleftrightarrow> c = c'"
proof (induction c arbitrary: c' rule: within_limits.induct)
  case (3 bs)
  then show ?case by (cases c') (auto simp: PlutusList_equals_strip [where f = id and g = id])
next
  case (4 items)
  show ?case
  proof (cases c')
    case (Core_MList cs)
    have "TransactionMetadatum_equals (metadatum_of (items ! n)) (metadatum_of (cs ! n)) \<longleftrightarrow> items ! n = cs ! n"
      if "n < length items" for n
      using "4.IH" [OF nth_mem [OF that]] "4.prems" nth_mem [OF that] by simp
    then show ?thesis using Core_MList by (auto simp: PlutusList_equals_def list_eq_iff_nth_eq)
  qed simp_all
next
  case (5 entries)
  show ?case
  proof (cases c')
    case (Core_MMap es)
    have "TransactionMetadatum_equals (metadatum_of (fst (entries ! n))) (metadatum_of (fst (es ! n))) \<and>
        TransactionMetadatum_equals (metadatum_of (snd (entries ! n))) (metadatum_of (snd (es ! n))) \<longleftrightarrow>
      entries ! n = es ! n" if "n < length entries" for n
      using "5.IH"(1,2) [of "entries ! n" "fst (entries ! n)" "snd (entries ! n)"] "5.prems" that nth_mem [OF that]
      by (fastforce simp: prod_eq_iff)
    then show ?thesis using Core_MMap by (auto simp: PlutusMap_equals_def list_eq_iff_nth_eq case_prod_beta)
  qed simp_all
qed (auto split: Core_Metadatum.splits; case_tac c'; simp)+

lemma core_metadatum_set_fresh: "k \<notin> fst ` set m \<Longrightarrow> core_metadatum_set k v m = m @ [(k, v)]"
  by (induction m) auto

lemma foldl_core_metadatum_set:
  "distinct (map fst (m @ es)) \<Longrightarrow> foldl (\<lambda>m (k, v). core_metadatum_set k v m) m es = m @ es"
proof (induction es arbitrary: m)
  case (Cons e es)
  then show ?case using Cons.IH [of "m @ [e]"] by (cases e) (auto simp: core_metadatum_set_fresh)
qed simp

lemma metadatum_of_get:
  assumes "distinct (map fst es)" and "(k, v) \<in> set es" and "\<forall>(k, v) \<in> set es. within_limits k"
  shows "MetadatumMap_get (map (\<lambda>(k, v). (metadatum_of k, metadatum_of v)) es) (metadatum_of k) = Some (metadatum_of v)"
  using assms
  by (induction es) (force simp: MetadatumMap_get_def metadatum_of_equals)+

lemma toCore_metadatum_of: "core_metadatum_ok c \<Longrightarrow> TransactionMetadatum_toCore (metadatum_of c) = Inr c"
proof (induction c rule: core_metadatum_ok.induct)
  case (4 items)
  then have "emap (\<lambda>x. TransactionMetadatum_toCore (metadatum_of x)) items = Inr (map id items)" by (intro emap_Inr) simp
  then show ?case by (simp add: emap_map)
next
  case (5 entries)
  let ?es = "map (\<lambda>(k, v). (metadatum_of k, metadatum_of v)) entries"
  have "emap (\<lambda>e. ebind (TransactionMetadatum_toCore (metadatum_of (fst e))) (\<lambda>k.
      case MetadatumMap_get ?es (metadatum_of (fst e)) of None \<Rightarrow> Inl TypeError
      | Some value \<Rightarrow> ebind (TransactionMetadatum_toCore value) (\<lambda>v. Inr (k, v)))) entries = Inr (map id entries)"
  proof (intro emap_Inr, goal_cases)
    case (1 e)
    obtain k v where e: "e = (k, v)" by force
    have "MetadatumMap_get ?es (metadatum_of k) = Some (metadatum_of v)"
      using "5.prems" 1 e by (intro metadatum_of_get) (auto dest: core_ok_within_limits)
    moreover have "core_metadatum_ok k" "core_metadatum_ok v" using "5.prems" 1 e by auto
    ultimately show ?case using "5.IH" [OF 1 e [symmetric]] by (simp add: e)
  qed
  then show ?case using foldl_core_metadatum_set [of "[]" entries] "5.prems"
    by (simp add: MetadatumMap_getKeys_def emap_map case_prod_beta comp_def)
qed simp_all

subsection \<open>Properties\<close>

text \<open>\<open>TransactionMetadatum.fromCore\<close> accepts exactly the values of which every leaf is a metadatum of at
  most 64 bytes, and throws a \<open>SerializationError\<close> for every other value.\<close>

theorem metadatum_limit_enforced:
  "TransactionMetadatum_fromCore c = (if within_limits c then Inr (metadatum_of c) else Inl SerializationError)"
  by (rule fromCore_decides)

text \<open>Metadata of a transaction survive the way to the chain and back: a core metadatum is converted,
  written, read and converted back to itself, nested to any depth.\<close>

theorem core_metadatum_roundtrip:
  assumes "core_metadatum_ok c"
  shows "\<exists>m b y. TransactionMetadatum_fromCore c = Inr m \<and> TransactionMetadatum_toCbor m = Inr b \<and>
    TransactionMetadatum_fromCbor b = Inr y \<and> TransactionMetadatum_toCore y = Inr c"
proof -
  obtain b y where b: "TransactionMetadatum_toCbor (metadatum_of c) = Inr b" "TransactionMetadatum_fromCbor b = Inr y"
    "TransactionMetadatum_strip y = TransactionMetadatum_strip (metadatum_of c)"
    using metadatum.encodes [OF core_ok_metadatum [OF assms]] by blast
  have "TransactionMetadatum_toCore y = Inr c"
    using toCore_strip [of y] toCore_strip [of "metadatum_of c"] b(3) toCore_metadatum_of [OF assms] by simp
  with b fromCore_decides [of c] core_ok_within_limits [OF assms] show ?thesis by simp
qed

theorem core_metadatum_roundtrip_witness:
  "\<exists>m b y. TransactionMetadatum_fromCore (Core_MMap [(Core_MInteger 1, Core_MList [Core_MBytes [1, 2]]), (Core_MInteger 2, Core_MInteger (- 5))]) = Inr m \<and>
    TransactionMetadatum_toCbor m = Inr b \<and> TransactionMetadatum_fromCbor b = Inr y \<and>
    TransactionMetadatum_toCore y = Inr (Core_MMap [(Core_MInteger 1, Core_MList [Core_MBytes [1, 2]]), (Core_MInteger 2, Core_MInteger (- 5))])"
  by (rule core_metadatum_roundtrip) (simp add: metadatum_integer_def cbor_int_def)

text \<open>An object that was read from any other tag is unset: it is written with its bytes, but has no core value.\<close>

lemma unknown_tag_has_no_core:
  "TransactionMetadatum_toCore (TransactionMetadatum MUnset original) = Inl TypeError"
  by simp

end
