(* ===== verification/Cbor_Fields.thy ===== *)
theory Cbor_Fields
  imports Cbor_Loops
begin

text \<open>
  Classes that are a map of numbered fields. \<open>toCbor\<close> writes a number and a value per field that is
  present; \<open>fromCbor\<close> loops over the entries, reads the number and, by a \<open>switch\<close> on it, the value.
  \<open>fields_to step con ops n g\<close> is the contract of a group of such fields: the operations write
  \<open>n\<close> entries, and the rounds that read them do to the content of the state (\<open>con\<close>: the state without
  the bytes its parts were read from) what \<open>g\<close> says. The contracts compose field by field.
\<close>

definition readField ::
    "(CborReader \<Rightarrow> ('a \<times> CborReader) result) \<Rightarrow> ('a \<Rightarrow> 's \<Rightarrow> 's) \<Rightarrow> 's \<Rightarrow> CborReader \<Rightarrow> ('s \<times> CborReader) result" where
  "readField read upd s r = ebind (read r) (\<lambda>(x, r). Inr (upd x s, r))"

definition readKeyed ::
    "(int \<Rightarrow> 's \<Rightarrow> CborReader \<Rightarrow> ('s \<times> CborReader) result) \<Rightarrow> 's \<Rightarrow> CborReader \<Rightarrow> ('s \<times> CborReader) result" where
  "readKeyed fld s r = ebind (readInt r) (\<lambda>(key, r). fld key s r)"

definition writeField :: "int \<Rightarrow> writer_op \<Rightarrow> writer_op" where
  "writeField key w = run_ops [writeInt key, w]"

text \<open>Arrays of objects, \<open>writer.writeStartArray(xs.length)\<close> and the loop that reads them.\<close>

definition writeArrayOf :: "('a \<Rightarrow> bytes result) \<Rightarrow> 'a list \<Rightarrow> writer_op" where
  "writeArrayOf toCbor xs = run_ops (writeStartArray (Some (length xs)) # map (\<lambda>x. writeObject (toCbor x)) xs)"

definition readArrayOf :: "(bytes \<Rightarrow> 'a result) \<Rightarrow> CborReader \<Rightarrow> ('a list \<times> CborReader) result" where
  "readArrayOf fromCbor r =
     ebind (readStartArray r) (\<lambda>(_, r).
     ebind (readItems EndArray fromCbor r) (\<lambda>(xs, r).
     ebind (readEndArray r) (\<lambda>r. Inr (xs, r))))"

text \<open>\<open>xs !== undefined && xs.length > 0\<close>\<close>

definition nonempty :: "'a list option \<Rightarrow> 'a list option" where
  "nonempty x = (case x of Some (a # as) \<Rightarrow> Some (a # as) | _ \<Rightarrow> None)"

lemma nonempty_simps [simp]: "nonempty None = None" "nonempty (Some []) = None" "nonempty (Some (a # as)) = Some (a # as)"
  by (simp_all add: nonempty_def)

lemma nonempty_eq_Some [simp]: "nonempty x = Some xs \<longleftrightarrow> x = Some xs \<and> xs \<noteq> []"
  by (auto simp: nonempty_def split: option.splits list.splits)

definition or_empty :: "'a list option \<Rightarrow> 'a list" where
  "or_empty x = (case x of None \<Rightarrow> [] | Some xs \<Rightarrow> xs)"

lemma or_empty_simps [simp]: "or_empty None = []" "or_empty (Some xs) = xs"
  by (simp_all add: or_empty_def)

abbreviation present :: "'a option \<Rightarrow> nat" where
  "present x \<equiv> (if x = None then 0 else 1)"

definition elements_valid :: "('a \<Rightarrow> bool) \<Rightarrow> 'a list option \<Rightarrow> bool" where
  "elements_valid valid x \<longleftrightarrow> length (or_empty x) < 9007199254740992 \<and> (\<forall>s \<in> set (or_empty x). valid s)"

subsection \<open>Fields that are objects\<close>

lemma readObject_rd:
  "cbor_item b \<Longrightarrow> f b = Inr y \<Longrightarrow> open_frame fr \<Longrightarrow>
   readObject f (rd c pre (b @ bs) fr stk tag) = Inr (y, rd U (pre @ b) bs (bumps 1 fr) stk False)"
  by (simp add: readObject_def rd_simps)

lemmas readObject_last = readObject_rd [where bs = "[]", simplified]

lemma run_objects: "emap f xs = Inr bs \<Longrightarrow> run_ops (map (\<lambda>x. writeObject (f x)) xs) w = Inr (w @ concat bs)"
  by (induction xs arbitrary: bs w) (auto simp: writeObject_def)

context cbor_codec
begin

lemma field_of_object:
  assumes "valid x"
  shows "\<exists>b y. field_ok (writeObject (toCbor x)) b (readObject fromCbor) y \<and> content y = content x"
proof -
  obtain b y where "toCbor x = Inr b" "cbor_item b" "fromCbor b = Inr y" "content y = content x"
    using encodes [OF assms] by blast
  then show ?thesis using field_object [of "toCbor x" b fromCbor y] by blast
qed

lemma field_of_array:
  assumes "\<forall>x \<in> set xs. valid x" and "length xs < 9007199254740992"
  shows "\<exists>b ys. field_ok (writeArrayOf toCbor xs) b (readArrayOf fromCbor) ys \<and> map content ys = map content xs"
proof -
  from encode_list [OF assms(1)] assms(2) obtain bs ys where bs: "emap toCbor xs = Inr bs" "\<forall>b \<in> set bs. cbor_item b"
    "length bs = length xs" "list_all2 (\<lambda>b y. fromCbor b = Inr y) bs ys" "map content ys = map content xs"
    by auto
  have "writeArrayOf toCbor xs w = Inr (w @ enc_head ArrayType (length bs) @ concat bs)" for w
    using bs(3) assms(2) run_objects [OF bs(1)] by (simp add: writeArrayOf_def)
  moreover have "cbor_item (enc_head ArrayType (length bs) @ concat bs)"
    using bs(2,3) assms(2) by (intro cbor_item_array) auto
  moreover have "readArrayOf fromCbor (rd U pre ((enc_head ArrayType (length bs) @ concat bs) @ rest) fr stk False) =
      Inr (ys, rd U (pre @ enc_head ArrayType (length bs) @ concat bs) rest (bumps 1 fr) stk False)"
    if "open_frame fr" for pre rest fr stk
    using that bs(2-4) assms(2) by (simp add: readArrayOf_def rd_simps)
  ultimately have "field_ok (writeArrayOf toCbor xs) (enc_head ArrayType (length bs) @ concat bs) (readArrayOf fromCbor) ys"
    by (simp add: field_ok_def)
  with bs(5) show ?thesis by blast
qed

end

subsection \<open>The contract of a group of fields\<close>

definition fields_to ::
    "('s \<Rightarrow> CborReader \<Rightarrow> ('s \<times> CborReader) result) \<Rightarrow> ('s \<Rightarrow> 'c) \<Rightarrow> writer_op list \<Rightarrow> nat \<Rightarrow> ('c \<Rightarrow> 'c) \<Rightarrow> bool" where
  "fields_to step con ops n g \<longleftrightarrow> (\<exists>b upd. fields_ok step ops b upd n \<and> (\<forall>s. con (upd s) = g (con s)))"

lemma fields_to_Nil: "fields_to step con [] 0 (\<lambda>c. c)"
  unfolding fields_to_def using fields_ok_Nil by blast

text \<open>One change of the content after another, in the order of the fields.\<close>

definition and_then :: "('c \<Rightarrow> 'c) \<Rightarrow> ('c \<Rightarrow> 'c) \<Rightarrow> 'c \<Rightarrow> 'c" where
  "and_then g g' = (\<lambda>c. g' (g c))"

lemma and_then_apply [simp]: "and_then g g' c = g' (g c)"
  by (simp add: and_then_def)

lemma fields_to_append:
  "fields_to step con ops n g \<Longrightarrow> fields_to step con ops' n' g' \<Longrightarrow>
   fields_to step con (ops @ ops') (n + n') (and_then g g')"
  unfolding fields_to_def and_then_def using fields_ok_append by metis

lemma keyed_entry:
  assumes "field_ok w b read y" and "fld k = readField read upd" and "cbor_int k"
  shows "entry_ok (readKeyed fld) (enc_int k, b) (upd y)"
  using assms field_okD(2,3) [OF assms(1)]
  by (simp add: entry_ok_def readKeyed_def readField_def rd_simps numeral_2_eq_2)

lemma fields_to_field:
  assumes "field_ok w b read y" and "fld k = readField read upd" and "cbor_int k" and "\<And>s. con (upd y s) = g (con s)"
  shows "fields_to (readKeyed fld) con [writeField k w] 1 g"
proof -
  have "fields_ok (readKeyed fld) [writeField k w] (enc_int k @ b) (upd y) 1"
    using keyed_entry [of w b "read" y fld k upd, OF assms(1,2,3)] field_okD(1) [OF assms(1)] assms(3)
    by (intro fields_ok_single) (simp_all add: writeField_def)
  with assms(4) show ?thesis by (auto simp: fields_to_def)
qed

text \<open>A field that is always written, and one that is written when present.\<close>

lemma fields_to_required:
  assumes "fld k = readField read upd" and "\<exists>b y. field_ok w b read y \<and> content y = c" and "cbor_int k"
    and "\<And>y s. con (upd y s) = put (content y) (con s)"
  shows "fields_to (readKeyed fld) con [writeField k w] 1 (put c)"
  using assms fields_to_field [of w _ "read" _ fld k upd con] by metis

lemma fields_to_optional:
  assumes "fld k = readField read upd"
    and "\<And>a. x = Some a \<Longrightarrow> \<exists>b y. field_ok (w a) b read y \<and> content y = content' a"
    and "cbor_int k" and "\<And>y s. con (upd y s) = put (content y) (con s)"
  shows "fields_to (readKeyed fld) con (writes (\<lambda>a. writeField k (w a)) x) (present x)
    (set_opt put (map_option content' x))"
proof (cases x)
  case None
  then show ?thesis using fields_to_Nil by (simp add: writes_def set_opt_def [abs_def])
next
  case (Some a)
  then have "fields_to (readKeyed fld) con [writeField k (w a)] 1 (put (content' a))"
    using assms by (intro fields_to_required [where content = content and upd = upd and read = "read"]) blast+
  moreover have "set_opt put (map_option content' x) = put (content' a)" using Some by (simp add: set_opt_def [abs_def])
  ultimately show ?thesis using Some by (simp add: writes_def)
qed

text \<open>A list that is written when it is not empty.\<close>

context cbor_codec
begin

lemma fields_to_elements:
  assumes "fld k = readField (readArrayOf fromCbor) upd" and "elements_valid valid x" and "cbor_int k"
    and "\<And>ys s. con (upd ys s) = put (map content ys) (con s)"
  shows "fields_to (readKeyed fld) con (writes (\<lambda>xs. writeField k (writeArrayOf toCbor xs)) (nonempty x)) (present (nonempty x))
    (set_opt put (map_option (map content) (nonempty x)))"
proof (rule fields_to_optional [where fld = fld and k = k, OF assms(1) _ assms(3)])
  fix xs assume "nonempty x = Some xs"
  then show "\<exists>b ys. field_ok (writeArrayOf toCbor xs) b (readArrayOf fromCbor) ys \<and> map content ys = map content xs"
    using assms(2) by (intro field_of_array) (auto simp: elements_valid_def)
qed (rule assms(4))

end

lemma fields_to_read:
  assumes "fields_to step con ops n g" and "n < 4503599627370496"
  obtains b s' where "\<And>w. run_ops ops w = Inr (w @ b)" and "cbor_item (enc_head MapType n @ b)"
    and "\<And>c pre bs fr stk tag. open_frame fr \<Longrightarrow>
      readMapWith step s (rd c pre (enc_head MapType n @ b @ bs) fr stk tag) =
        Inr (s', rd U (pre @ enc_head MapType n @ b) bs (bumps 1 fr) stk False)"
    and "con s' = g (con s)"
proof -
  obtain b upd where f: "fields_ok step ops b upd n" "\<forall>s. con (upd s) = g (con s)"
    using assms(1) by (auto simp: fields_to_def)
  show ?thesis
    by (rule that [of b "upd s"]) (use f assms(2) fields_read [OF f(1) assms(2)] fields_run [OF f(1)] fields_item [OF f(1)] in auto)
qed

text \<open>A class that is nothing but such a map: written, and read back from a fresh reader.\<close>

lemma fields_to_class:
  assumes "fields_to step con ops n g" and "n < 4503599627370496"
  shows "\<exists>b s'. write_all (writeStartMap (Some n) # ops) = Inr b \<and> cbor_item b \<and> b \<noteq> [] \<and>
    (\<exists>r. readMapWith step s (new_reader b) = Inr (s', r)) \<and> con s' = g (con s)"
proof -
  obtain b s' where b: "\<And>w. run_ops ops w = Inr (w @ b)" "cbor_item (enc_head MapType n @ b)"
    "\<And>c pre bs fr stk tag. open_frame fr \<Longrightarrow>
      readMapWith step s (rd c pre (enc_head MapType n @ b @ bs) fr stk tag) =
        Inr (s', rd U (pre @ enc_head MapType n @ b) bs (bumps 1 fr) stk False)" "con s' = g (con s)"
    using fields_to_read [OF assms, where s = s] by metis
  have "readMapWith step s (new_reader (enc_head MapType n @ b)) = Inr (s', rd U (enc_head MapType n @ b) [] (bumps 1 root_frame) [] False)"
    using b(3) [of root_frame U "[]" "[]" "[]" False] by (simp add: new_reader_rd)
  with b assms(2) cbor_item_hd(1) [OF b(2)] show ?thesis
    by (intro exI [of _ "enc_head MapType n @ b"] exI [of _ s']) (simp add: write_all_def encode_def)
qed

text \<open>A map of any number of entries, in order.\<close>

lemma entries_to:
  assumes "\<And>e. e \<in> set es \<Longrightarrow> \<exists>k b y. (\<forall>w. run_ops (ops e) w = Inr (w @ k @ b)) \<and>
    entry_ok step (k, b) (upd y) \<and> content y = content e"
  shows "\<exists>b ys. fields_ok step (concat (map ops es)) b (\<lambda>s. foldl (\<lambda>s y. upd y s) s ys) (length es) \<and>
    map content ys = map content es"
  using assms
proof (induction es)
  case Nil
  show ?case using fields_ok_Nil by (intro exI [of _ "[]"]) auto
next
  case (Cons e es)
  then obtain b ys where IH: "fields_ok step (concat (map ops es)) b (\<lambda>s. foldl (\<lambda>s y. upd y s) s ys) (length es)"
    "map content ys = map content es" by auto
  obtain k v y where e: "\<forall>w. run_ops (ops e) w = Inr (w @ k @ v)" "entry_ok step (k, v) (upd y)" "content y = content e"
    using Cons.prems [of e] by auto
  have "fields_ok step (ops e) (k @ v) (upd y) 1"
    unfolding fields_ok_def using e(1,2) by (intro conjI exI [of _ "[(k, v)]"] exI [of _ "[upd y]"]) simp_all
  from fields_ok_append [OF this IH(1)] IH(2) e(3) show ?case
    by (intro exI [of _ "(k @ v) @ b"] exI [of _ "y # ys"]) simp
qed

end
