(* ===== verification/Auxiliary_Data.thy ===== *)
theory Auxiliary_Data
  imports Metadata Cbor_Fields
begin

text \<open>
  Auxiliary data (\<open>core/src/Serialization/AuxiliaryData\<close>): labelled metadata and scripts. The class
  writes the most compact of three formats that can hold what it has: the metadata alone, an array
  of metadata and native scripts, or a tagged map of all fields; it reads all three.
\<close>

subsection \<open>Labelled metadata\<close>

type_synonym metadata_map = "(int \<times> TransactionMetadatum) list"

record GeneralTransactionMetadata =
  gtm_metadata :: metadata_map
  gtm_originalBytes :: "bytes option"

definition GeneralTransactionMetadata_new :: "metadata_map \<Rightarrow> GeneralTransactionMetadata" where
  "GeneralTransactionMetadata_new metadata = \<lparr>gtm_metadata = metadata, gtm_originalBytes = None\<rparr>"

definition GeneralTransactionMetadata_toCbor :: "GeneralTransactionMetadata \<Rightarrow> bytes result" where
  "GeneralTransactionMetadata_toCbor g = cached (gtm_originalBytes g)
     (write_all (writeStartMap (Some (length (gtm_metadata g))) #
        concat (map (\<lambda>(key, val). [writeInt key, writeObject (TransactionMetadatum_toCbor val)]) (gtm_metadata g))))"

definition readMetadataEntry :: "metadata_map \<Rightarrow> CborReader \<Rightarrow> (metadata_map \<times> CborReader) result" where
  "readMetadataEntry m r =
     ebind (readInt r) (\<lambda>(label, r).
     ebind (readObject TransactionMetadatum_fromCbor r) (\<lambda>(metadatum, r). Inr (map_set label metadatum m, r)))"

text \<open>The bytes are not kept.\<close>

definition GeneralTransactionMetadata_fromCbor :: "bytes \<Rightarrow> GeneralTransactionMetadata result" where
  "GeneralTransactionMetadata_fromCbor cbor =
     ebind (readMapWith readMetadataEntry [] (new_reader cbor)) (\<lambda>(m, r). Inr (GeneralTransactionMetadata_new m))"

definition GeneralTransactionMetadata_toCore :: "GeneralTransactionMetadata \<Rightarrow> (int \<times> Core_Metadatum) list result" where
  "GeneralTransactionMetadata_toCore g =
     ebind (emap (\<lambda>(k, v). ebind (TransactionMetadatum_toCore v) (\<lambda>c. Inr (k, c))) (gtm_metadata g)) (\<lambda>es. Inr (new_Map es))"

definition GeneralTransactionMetadata_fromCore :: "(int \<times> Core_Metadatum) list \<Rightarrow> GeneralTransactionMetadata result" where
  "GeneralTransactionMetadata_fromCore metadata =
     ebind (emap (\<lambda>(k, v). ebind (TransactionMetadatum_fromCore v) (\<lambda>m. Inr (k, m))) metadata) (\<lambda>es.
       Inr (GeneralTransactionMetadata_new (new_Map es)))"

definition GeneralTransactionMetadata_setMetadata :: "metadata_map \<Rightarrow> GeneralTransactionMetadata \<Rightarrow> GeneralTransactionMetadata" where
  "GeneralTransactionMetadata_setMetadata metadata g = g\<lparr>gtm_metadata := metadata, gtm_originalBytes := None\<rparr>"

definition GeneralTransactionMetadata_equals :: "GeneralTransactionMetadata \<Rightarrow> GeneralTransactionMetadata \<Rightarrow> bool" where
  "GeneralTransactionMetadata_equals g h \<longleftrightarrow>
     (if gtm_originalBytes g = gtm_originalBytes h then True
      else length (gtm_metadata g) = length (gtm_metadata h) \<and>
        (\<forall>i < length (gtm_metadata g).
           fst (gtm_metadata g ! i) = fst (gtm_metadata h ! i) \<and>
           TransactionMetadatum_equals (snd (gtm_metadata g ! i)) (snd (gtm_metadata h ! i))))"

subsection \<open>The class\<close>

record AuxiliaryData =
  ad_metadata :: "GeneralTransactionMetadata option"
  ad_nativeScripts :: "NativeScript list option"
  ad_plutusV1Scripts :: "PlutusV1Script list option"
  ad_plutusV2Scripts :: "PlutusV2Script list option"
  ad_plutusV3Scripts :: "PlutusV3Script list option"
  ad_plutusV4Scripts :: "PlutusV4Script list option"
  ad_originalBytes :: "bytes option"

definition AuxiliaryData_new :: AuxiliaryData where
  "AuxiliaryData_new = \<lparr>ad_metadata = None, ad_nativeScripts = None, ad_plutusV1Scripts = None,
     ad_plutusV2Scripts = None, ad_plutusV3Scripts = None, ad_plutusV4Scripts = None, ad_originalBytes = None\<rparr>"

definition AuxiliaryData_setMetadata :: "GeneralTransactionMetadata \<Rightarrow> AuxiliaryData \<Rightarrow> AuxiliaryData" where
  "AuxiliaryData_setMetadata metadata a = a\<lparr>ad_metadata := Some metadata, ad_originalBytes := None\<rparr>"

definition AuxiliaryData_setNativeScripts :: "NativeScript list \<Rightarrow> AuxiliaryData \<Rightarrow> AuxiliaryData" where
  "AuxiliaryData_setNativeScripts scripts a = a\<lparr>ad_nativeScripts := Some scripts, ad_originalBytes := None\<rparr>"

definition AuxiliaryData_setPlutusV1Scripts :: "PlutusV1Script list \<Rightarrow> AuxiliaryData \<Rightarrow> AuxiliaryData" where
  "AuxiliaryData_setPlutusV1Scripts scripts a = a\<lparr>ad_plutusV1Scripts := Some scripts, ad_originalBytes := None\<rparr>"

definition AuxiliaryData_setPlutusV2Scripts :: "PlutusV2Script list \<Rightarrow> AuxiliaryData \<Rightarrow> AuxiliaryData" where
  "AuxiliaryData_setPlutusV2Scripts scripts a = a\<lparr>ad_plutusV2Scripts := Some scripts, ad_originalBytes := None\<rparr>"

definition AuxiliaryData_setPlutusV3Scripts :: "PlutusV3Script list \<Rightarrow> AuxiliaryData \<Rightarrow> AuxiliaryData" where
  "AuxiliaryData_setPlutusV3Scripts scripts a = a\<lparr>ad_plutusV3Scripts := Some scripts, ad_originalBytes := None\<rparr>"

definition AuxiliaryData_setPlutusV4Scripts :: "PlutusV4Script list \<Rightarrow> AuxiliaryData \<Rightarrow> AuxiliaryData" where
  "AuxiliaryData_setPlutusV4Scripts scripts a = a\<lparr>ad_plutusV4Scripts := Some scripts, ad_originalBytes := None\<rparr>"

lemmas aux_setters = AuxiliaryData_setMetadata_def AuxiliaryData_setNativeScripts_def AuxiliaryData_setPlutusV1Scripts_def
  AuxiliaryData_setPlutusV2Scripts_def AuxiliaryData_setPlutusV3Scripts_def AuxiliaryData_setPlutusV4Scripts_def

text \<open>\<open>this.#metadata !== undefined && this.#metadata.metadata()!.size > 0\<close>\<close>

definition some_metadata :: "GeneralTransactionMetadata option \<Rightarrow> GeneralTransactionMetadata option" where
  "some_metadata x = (case x of None \<Rightarrow> None | Some g \<Rightarrow> if 0 < length (gtm_metadata g) then Some g else None)"

definition AuxiliaryData_getMapSize :: "AuxiliaryData \<Rightarrow> nat" where
  "AuxiliaryData_getMapSize a = present (some_metadata (ad_metadata a)) + present (nonempty (ad_nativeScripts a)) +
     present (nonempty (ad_plutusV1Scripts a)) + present (nonempty (ad_plutusV2Scripts a)) +
     present (nonempty (ad_plutusV3Scripts a)) + present (nonempty (ad_plutusV4Scripts a))"

definition ALONZO_AUX_TAG :: nat where "ALONZO_AUX_TAG = 259"

definition AuxiliaryData_fields :: "AuxiliaryData \<Rightarrow> writer_op list" where
  "AuxiliaryData_fields a =
     writes (\<lambda>g. writeField 0 (writeObject (GeneralTransactionMetadata_toCbor g))) (some_metadata (ad_metadata a)) @
     writes (\<lambda>ss. writeField 1 (writeArrayOf NativeScript_toCbor ss)) (nonempty (ad_nativeScripts a)) @
     writes (\<lambda>ss. writeField 2 (writeArrayOf PlutusV1Script_toCbor ss)) (nonempty (ad_plutusV1Scripts a)) @
     writes (\<lambda>ss. writeField 3 (writeArrayOf PlutusV2Script_toCbor ss)) (nonempty (ad_plutusV2Scripts a)) @
     writes (\<lambda>ss. writeField 4 (writeArrayOf PlutusV3Script_toCbor ss)) (nonempty (ad_plutusV3Scripts a)) @
     writes (\<lambda>ss. writeField 5 (writeArrayOf PlutusV4Script_toCbor ss)) (nonempty (ad_plutusV4Scripts a))"

definition AuxiliaryData_toCbor :: "AuxiliaryData \<Rightarrow> bytes result" where
  "AuxiliaryData_toCbor a = cached (ad_originalBytes a)
     (let elementsSize = AuxiliaryData_getMapSize a;
          metadata = some_metadata (ad_metadata a);
          nativeScripts = nonempty (ad_nativeScripts a) in
      if elementsSize = 1 \<and> metadata \<noteq> None
      then write_all (writes (\<lambda>g. writeObject (GeneralTransactionMetadata_toCbor g)) metadata)
      else if elementsSize = 2 \<and> metadata \<noteq> None \<and> nativeScripts \<noteq> None
      then write_all (writeStartArray (Some elementsSize) #
             writes (\<lambda>g. writeObject (GeneralTransactionMetadata_toCbor g)) metadata @
             writes (writeArrayOf NativeScript_toCbor) nativeScripts)
      else write_all (writeTag (int ALONZO_AUX_TAG) # writeStartMap (Some elementsSize) # AuxiliaryData_fields a))"

text \<open>A key that is not known is passed over, but not the value behind it.\<close>

definition readAuxField :: "int \<Rightarrow> AuxiliaryData \<Rightarrow> CborReader \<Rightarrow> (AuxiliaryData \<times> CborReader) result" where
  "readAuxField key =
     (if key = 0 then readField (readObject GeneralTransactionMetadata_fromCbor) (\<lambda>g a. a\<lparr>ad_metadata := Some g\<rparr>)
      else if key = 1 then readField (readArrayOf NativeScript_fromCbor) AuxiliaryData_setNativeScripts
      else if key = 2 then readField (readArrayOf PlutusV1Script_fromCbor) AuxiliaryData_setPlutusV1Scripts
      else if key = 3 then readField (readArrayOf PlutusV2Script_fromCbor) AuxiliaryData_setPlutusV2Scripts
      else if key = 4 then readField (readArrayOf PlutusV3Script_fromCbor) AuxiliaryData_setPlutusV3Scripts
      else if key = 5 then readField (readArrayOf PlutusV4Script_fromCbor) AuxiliaryData_setPlutusV4Scripts
      else (\<lambda>a r. Inr (a, r)))"

definition AuxiliaryData_fromCbor :: "bytes \<Rightarrow> AuxiliaryData result" where
  "AuxiliaryData_fromCbor cbor =
     ebind (peekState (new_reader cbor)) (\<lambda>(state, r).
     ebind
      (if state = StartMap then
         ebind (readObject GeneralTransactionMetadata_fromCbor r) (\<lambda>(g, r). Inr (AuxiliaryData_new\<lparr>ad_metadata := Some g\<rparr>))
       else if state = TagState then
         ebind (readTag r) (\<lambda>(tag, r).
         ebind (throw_if (tag \<noteq> ALONZO_AUX_TAG) InvalidArgumentError) (\<lambda>_.
         ebind (readMapWith (readKeyed readAuxField) AuxiliaryData_new r) (\<lambda>(a, r). Inr a)))
       else
         ebind (readStartArray r) (\<lambda>(_, r).
         ebind (readObject GeneralTransactionMetadata_fromCbor r) (\<lambda>(g, r).
         ebind (readArrayOf NativeScript_fromCbor r) (\<lambda>(ss, r).
           Inr (AuxiliaryData_setNativeScripts ss (AuxiliaryData_new\<lparr>ad_metadata := Some g\<rparr>))))))
      (\<lambda>a. Inr (a\<lparr>ad_originalBytes := Some cbor\<rparr>)))"

subsection \<open>Core objects\<close>

record Core_AuxiliaryData =
  cad_blob :: "(int \<times> Core_Metadatum) list option"
  cad_scripts :: "Core_Script list option"

definition AuxiliaryData_getCoreScripts :: "AuxiliaryData \<Rightarrow> Core_Script list" where
  "AuxiliaryData_getCoreScripts a =
     map (Core_Plutus \<circ> PlutusV1Script_toCore) (or_empty (ad_plutusV1Scripts a)) @
     map (Core_Plutus \<circ> PlutusV2Script_toCore) (or_empty (ad_plutusV2Scripts a)) @
     map (Core_Plutus \<circ> PlutusV3Script_toCore) (or_empty (ad_plutusV3Scripts a)) @
     map (Core_Plutus \<circ> PlutusV4Script_toCore) (or_empty (ad_plutusV4Scripts a)) @
     map (Core_Native \<circ> NativeScript_toCore) (or_empty (ad_nativeScripts a))"

definition AuxiliaryData_toCore :: "AuxiliaryData \<Rightarrow> Core_AuxiliaryData result" where
  "AuxiliaryData_toCore a =
     (let scripts = AuxiliaryData_getCoreScripts a in
      ebind (optional GeneralTransactionMetadata_toCore (ad_metadata a)) (\<lambda>blob.
        Inr \<lparr>cad_blob = blob, cad_scripts = (if 0 < length scripts then Some scripts else None)\<rparr>))"

text \<open>\<open>#getCddlScripts\<close>: the scripts of each language, \<open>undefined\<close> for a language without one.\<close>

definition push_opt :: "'a \<Rightarrow> 'a list option \<Rightarrow> 'a list option" where
  "push_opt x xs = Some (or_empty xs @ [x])"

record CddlScripts =
  cs_native :: "NativeScript list option"
  cs_plutusV1 :: "PlutusV1Script list option"
  cs_plutusV2 :: "PlutusV2Script list option"
  cs_plutusV3 :: "PlutusV3Script list option"
  cs_plutusV4 :: "PlutusV4Script list option"

definition add_cddl_script :: "CddlScripts \<Rightarrow> Core_Script \<Rightarrow> CddlScripts result" where
  "add_cddl_script cs script = (case script of
       Core_Native s \<Rightarrow> Inr (cs\<lparr>cs_native := push_opt (NativeScript_fromCore s) (cs_native cs)\<rparr>)
     | Core_Plutus s \<Rightarrow> (case cps_version s of
         V1 \<Rightarrow> ebind (PlutusV1Script_fromCore s) (\<lambda>p. Inr (cs\<lparr>cs_plutusV1 := push_opt p (cs_plutusV1 cs)\<rparr>))
       | V2 \<Rightarrow> ebind (PlutusV2Script_fromCore s) (\<lambda>p. Inr (cs\<lparr>cs_plutusV2 := push_opt p (cs_plutusV2 cs)\<rparr>))
       | V3 \<Rightarrow> ebind (PlutusV3Script_fromCore s) (\<lambda>p. Inr (cs\<lparr>cs_plutusV3 := push_opt p (cs_plutusV3 cs)\<rparr>))
       | V4 \<Rightarrow> ebind (PlutusV4Script_fromCore s) (\<lambda>p. Inr (cs\<lparr>cs_plutusV4 := push_opt p (cs_plutusV4 cs)\<rparr>))))"

definition getCddlScripts :: "Core_Script list \<Rightarrow> CddlScripts result" where
  "getCddlScripts scripts = efoldl add_cddl_script
     \<lparr>cs_native = None, cs_plutusV1 = None, cs_plutusV2 = None, cs_plutusV3 = None, cs_plutusV4 = None\<rparr> scripts"

definition AuxiliaryData_fromCore :: "Core_AuxiliaryData \<Rightarrow> AuxiliaryData result" where
  "AuxiliaryData_fromCore c =
     ebind (optional GeneralTransactionMetadata_fromCore (cad_blob c)) (\<lambda>g.
     ebind (optional getCddlScripts (cad_scripts c)) (\<lambda>scripts.
       let a = set_opt AuxiliaryData_setMetadata g AuxiliaryData_new in
       Inr (case scripts of None \<Rightarrow> a
         | Some cs \<Rightarrow> set_opt AuxiliaryData_setPlutusV4Scripts (cs_plutusV4 cs)
             (set_opt AuxiliaryData_setPlutusV3Scripts (cs_plutusV3 cs)
             (set_opt AuxiliaryData_setPlutusV2Scripts (cs_plutusV2 cs)
             (set_opt AuxiliaryData_setPlutusV1Scripts (cs_plutusV1 cs)
             (set_opt AuxiliaryData_setNativeScripts (cs_native cs) a)))))))"

text \<open>\<open>computeAuxiliaryDataHash\<close> of \<open>core/src/Cardano/types/AuxiliaryData.ts\<close>.\<close>

definition computeAuxiliaryDataHash :: "blake2b \<Rightarrow> Core_AuxiliaryData option \<Rightarrow> bytes option result" where
  "computeAuxiliaryDataHash blake2b data =
     optional (\<lambda>d. ebind (AuxiliaryData_fromCore d) (\<lambda>a. ebind (AuxiliaryData_toCbor a) (\<lambda>cbor. Inr (blake2b cbor 32)))) data"

subsection \<open>Metadata are read back\<close>

definition gtm_content :: "GeneralTransactionMetadata \<Rightarrow> metadata_map" where
  "gtm_content g = map (map_prod id TransactionMetadatum_strip) (gtm_metadata g)"

definition GeneralTransactionMetadata_valid :: "GeneralTransactionMetadata \<Rightarrow> bool" where
  "GeneralTransactionMetadata_valid g \<longleftrightarrow> gtm_originalBytes g = None \<and> distinct (map fst (gtm_metadata g)) \<and>
     length (gtm_metadata g) < 4503599627370496 \<and>
     (\<forall>(label, m) \<in> set (gtm_metadata g). cbor_int label \<and> TransactionMetadatum_ok m)"

lemma gtm_encodes:
  assumes "GeneralTransactionMetadata_valid g"
  shows "\<exists>b y. GeneralTransactionMetadata_toCbor g = Inr (enc_head MapType (length (gtm_metadata g)) @ b) \<and>
    cbor_item (enc_head MapType (length (gtm_metadata g)) @ b) \<and>
    GeneralTransactionMetadata_fromCbor (enc_head MapType (length (gtm_metadata g)) @ b) = Inr y \<and>
    gtm_content y = gtm_content g \<and> gtm_originalBytes y = None"
proof -
  let ?es = "gtm_metadata g"
  have "\<exists>k b y. (\<forall>w. run_ops ((\<lambda>(key, val). [writeInt key, writeObject (TransactionMetadatum_toCbor val)]) e) w = Inr (w @ k @ b)) \<and>
      entry_ok readMetadataEntry (k, b) ((\<lambda>(label, m). map_set label m) y) \<and>
      map_prod id TransactionMetadatum_strip y = map_prod id TransactionMetadatum_strip e" if "e \<in> set ?es" for e
  proof -
    obtain l m where e: "e = (l, m)" by force
    with that assms have "cbor_int l" "TransactionMetadatum_ok m" by (auto simp: GeneralTransactionMetadata_valid_def)
    moreover obtain b y where "TransactionMetadatum_toCbor m = Inr b" "cbor_item b"
      "TransactionMetadatum_fromCbor b = Inr y" "TransactionMetadatum_strip y = TransactionMetadatum_strip m"
      using metadatum.encodes [OF calculation(2)] by blast
    ultimately show ?thesis unfolding e
      by (intro exI [of _ "enc_int l"] exI [of _ b] exI [of _ "(l, y)"])
        (simp add: writeObject_def entry_ok_def readMetadataEntry_def readObject_def rd_simps numeral_2_eq_2)
  qed
  then have "\<exists>b ys. fields_ok readMetadataEntry (concat (map (\<lambda>(key, val). [writeInt key, writeObject (TransactionMetadatum_toCbor val)]) ?es)) b
      (\<lambda>s. foldl (\<lambda>s y. (\<lambda>(label, m). map_set label m) y s) s ys) (length ?es) \<and>
      map (map_prod id TransactionMetadatum_strip) ys = map (map_prod id TransactionMetadatum_strip) ?es"
    by (rule entries_to)
  then obtain b ys where f: "fields_ok readMetadataEntry (concat (map (\<lambda>(key, val). [writeInt key, writeObject (TransactionMetadatum_toCbor val)]) ?es)) b
      (\<lambda>s. foldl (\<lambda>s y. (\<lambda>(label, m). map_set label m) y s) s ys) (length ?es)"
    and ys: "map (map_prod id TransactionMetadatum_strip) ys = map (map_prod id TransactionMetadatum_strip) ?es" by blast
  have n: "length ?es < 4503599627370496" using assms by (simp add: GeneralTransactionMetadata_valid_def)
  have "map fst ys = map fst ?es" using arg_cong [OF ys, of "map fst"] by simp
  then have "foldl (\<lambda>s y. (\<lambda>(label, m). map_set label m) y s) [] ys = ys"
    using foldl_map_set_fresh [of "[]" ys] assms by (simp add: GeneralTransactionMetadata_valid_def case_prod_unfold)
  then have "GeneralTransactionMetadata_fromCbor (enc_head MapType (length ?es) @ b) = Inr (GeneralTransactionMetadata_new ys)"
    using fields_read [OF f n, of root_frame "[]" U "[]" "[]" "[]" False]
    by (simp add: GeneralTransactionMetadata_fromCbor_def new_reader_rd)
  with ys fields_run [OF f] fields_item [OF f n] n assms show ?thesis
    by (intro exI [of _ b] exI [of _ "GeneralTransactionMetadata_new ys"])
      (simp add: GeneralTransactionMetadata_toCbor_def GeneralTransactionMetadata_new_def gtm_content_def write_all_def encode_def
        GeneralTransactionMetadata_valid_def)
qed

interpretation general_metadata: cbor_codec GeneralTransactionMetadata_toCbor GeneralTransactionMetadata_fromCbor
  GeneralTransactionMetadata_valid gtm_content
  using gtm_encodes by unfold_locales blast

subsection \<open>Auxiliary data are read back\<close>

record AuxContent =
  ac_metadata :: metadata_map
  ac_nativeScripts :: "Core_NativeScript list"
  ac_plutusV1Scripts :: "Core_PlutusScript list"
  ac_plutusV2Scripts :: "Core_PlutusScript list"
  ac_plutusV3Scripts :: "Core_PlutusScript list"
  ac_plutusV4Scripts :: "Core_PlutusScript list"

text \<open>A field that is missing means the same as an empty one.\<close>

definition aux_content :: "AuxiliaryData \<Rightarrow> AuxContent" where
  "aux_content a = \<lparr>ac_metadata = or_empty (map_option gtm_content (ad_metadata a)),
     ac_nativeScripts = map NativeScript_toCore (or_empty (ad_nativeScripts a)),
     ac_plutusV1Scripts = map PlutusV1Script_toCore (or_empty (ad_plutusV1Scripts a)),
     ac_plutusV2Scripts = map PlutusV2Script_toCore (or_empty (ad_plutusV2Scripts a)),
     ac_plutusV3Scripts = map PlutusV3Script_toCore (or_empty (ad_plutusV3Scripts a)),
     ac_plutusV4Scripts = map PlutusV4Script_toCore (or_empty (ad_plutusV4Scripts a))\<rparr>"

definition native_valid :: "NativeScript \<Rightarrow> bool" where
  "native_valid s \<longleftrightarrow> (\<exists>c. core_script_ok c \<and> s = NativeScript_fromCore c)"

definition AuxiliaryData_valid :: "AuxiliaryData \<Rightarrow> bool" where
  "AuxiliaryData_valid a \<longleftrightarrow> ad_originalBytes a = None \<and> pred_option GeneralTransactionMetadata_valid (ad_metadata a) \<and>
     elements_valid native_valid (ad_nativeScripts a) \<and>
     elements_valid PlutusV1Script_valid (ad_plutusV1Scripts a) \<and> elements_valid PlutusV2Script_valid (ad_plutusV2Scripts a) \<and>
     elements_valid PlutusV3Script_valid (ad_plutusV3Scripts a) \<and> elements_valid PlutusV4Script_valid (ad_plutusV4Scripts a)"

lemma aux_reads:
  "readAuxField 0 = readField (readObject GeneralTransactionMetadata_fromCbor) (\<lambda>g a. a\<lparr>ad_metadata := Some g\<rparr>)"
  "readAuxField 1 = readField (readArrayOf NativeScript_fromCbor) AuxiliaryData_setNativeScripts"
  "readAuxField 2 = readField (readArrayOf PlutusV1Script_fromCbor) AuxiliaryData_setPlutusV1Scripts"
  "readAuxField 3 = readField (readArrayOf PlutusV2Script_fromCbor) AuxiliaryData_setPlutusV2Scripts"
  "readAuxField 4 = readField (readArrayOf PlutusV3Script_fromCbor) AuxiliaryData_setPlutusV3Scripts"
  "readAuxField 5 = readField (readArrayOf PlutusV4Script_fromCbor) AuxiliaryData_setPlutusV4Scripts"
  by (simp_all add: readAuxField_def)

lemma aux_puts:
  "aux_content (a\<lparr>ad_metadata := Some g\<rparr>) = (aux_content a)\<lparr>ac_metadata := gtm_content g\<rparr>"
  "aux_content (AuxiliaryData_setNativeScripts ns a) = (aux_content a)\<lparr>ac_nativeScripts := map NativeScript_toCore ns\<rparr>"
  "aux_content (AuxiliaryData_setPlutusV1Scripts p1 a) = (aux_content a)\<lparr>ac_plutusV1Scripts := map PlutusV1Script_toCore p1\<rparr>"
  "aux_content (AuxiliaryData_setPlutusV2Scripts p2 a) = (aux_content a)\<lparr>ac_plutusV2Scripts := map PlutusV2Script_toCore p2\<rparr>"
  "aux_content (AuxiliaryData_setPlutusV3Scripts p3 a) = (aux_content a)\<lparr>ac_plutusV3Scripts := map PlutusV3Script_toCore p3\<rparr>"
  "aux_content (AuxiliaryData_setPlutusV4Scripts p4 a) = (aux_content a)\<lparr>ac_plutusV4Scripts := map PlutusV4Script_toCore p4\<rparr>"
  by (simp_all add: aux_content_def aux_setters)

lemma some_metadata_valid:
  "pred_option GeneralTransactionMetadata_valid x \<Longrightarrow> some_metadata x = Some g \<Longrightarrow> GeneralTransactionMetadata_valid g \<and> gtm_metadata g \<noteq> []"
  by (auto simp: some_metadata_def split: option.splits if_splits)

lemma aux_metadata_field:
  assumes "pred_option GeneralTransactionMetadata_valid x"
  shows "fields_to (readKeyed readAuxField) aux_content
    (writes (\<lambda>g. writeField 0 (writeObject (GeneralTransactionMetadata_toCbor g))) (some_metadata x)) (present (some_metadata x))
    (set_opt (\<lambda>m c. c\<lparr>ac_metadata := m\<rparr>) (map_option gtm_content (some_metadata x)))"
  by (rule fields_to_optional [where fld = readAuxField and k = 0, OF aux_reads(1)])
    (use some_metadata_valid [OF assms] general_metadata.field_of_object in \<open>auto simp: aux_puts\<close>)

lemma native_codec: "cbor_codec NativeScript_toCbor NativeScript_fromCbor native_valid NativeScript_toCore"
  unfolding native_valid_def by (rule native_script.cbor_codec_axioms)

lemma aux_fields:
  assumes "AuxiliaryData_valid a"
  shows "fields_to (readKeyed readAuxField) aux_content (AuxiliaryData_fields a) (AuxiliaryData_getMapSize a)
    (and_then (set_opt (\<lambda>m c. c\<lparr>ac_metadata := m\<rparr>) (map_option gtm_content (some_metadata (ad_metadata a))))
    (and_then (set_opt (\<lambda>ss c. c\<lparr>ac_nativeScripts := ss\<rparr>) (map_option (map NativeScript_toCore) (nonempty (ad_nativeScripts a))))
    (and_then (set_opt (\<lambda>ss c. c\<lparr>ac_plutusV1Scripts := ss\<rparr>) (map_option (map PlutusV1Script_toCore) (nonempty (ad_plutusV1Scripts a))))
    (and_then (set_opt (\<lambda>ss c. c\<lparr>ac_plutusV2Scripts := ss\<rparr>) (map_option (map PlutusV2Script_toCore) (nonempty (ad_plutusV2Scripts a))))
    (and_then (set_opt (\<lambda>ss c. c\<lparr>ac_plutusV3Scripts := ss\<rparr>) (map_option (map PlutusV3Script_toCore) (nonempty (ad_plutusV3Scripts a))))
    (set_opt (\<lambda>ss c. c\<lparr>ac_plutusV4Scripts := ss\<rparr>) (map_option (map PlutusV4Script_toCore) (nonempty (ad_plutusV4Scripts a)))))))))"
  using assms unfolding AuxiliaryData_valid_def AuxiliaryData_fields_def AuxiliaryData_getMapSize_def add.assoc
  by (intro fields_to_append aux_metadata_field cbor_codec.fields_to_elements [where fld = readAuxField and k = 1, OF native_codec aux_reads(2)]
      cbor_codec.fields_to_elements [where fld = readAuxField and k = 2, OF plutus_v1.cbor_codec_axioms aux_reads(3)] cbor_codec.fields_to_elements [where fld = readAuxField and k = 3, OF plutus_v2.cbor_codec_axioms aux_reads(4)]
      cbor_codec.fields_to_elements [where fld = readAuxField and k = 4, OF plutus_v3.cbor_codec_axioms aux_reads(5)] cbor_codec.fields_to_elements [where fld = readAuxField and k = 5, OF plutus_v4.cbor_codec_axioms aux_reads(6)]) (auto simp: aux_puts)

lemma aux_sets:
  "ac_metadata c = [] \<Longrightarrow> set_opt (\<lambda>m c. c\<lparr>ac_metadata := m\<rparr>) (map_option gtm_content (some_metadata m)) c =
     c\<lparr>ac_metadata := or_empty (map_option gtm_content m)\<rparr>"
  "ac_nativeScripts c = [] \<Longrightarrow> set_opt (\<lambda>ss c. c\<lparr>ac_nativeScripts := ss\<rparr>) (map_option (map f) (nonempty x)) c =
     c\<lparr>ac_nativeScripts := map f (or_empty x)\<rparr>"
  "ac_plutusV1Scripts c = [] \<Longrightarrow> set_opt (\<lambda>ss c. c\<lparr>ac_plutusV1Scripts := ss\<rparr>) (map_option (map f1) (nonempty x1)) c =
     c\<lparr>ac_plutusV1Scripts := map f1 (or_empty x1)\<rparr>"
  "ac_plutusV2Scripts c = [] \<Longrightarrow> set_opt (\<lambda>ss c. c\<lparr>ac_plutusV2Scripts := ss\<rparr>) (map_option (map f2) (nonempty x2)) c =
     c\<lparr>ac_plutusV2Scripts := map f2 (or_empty x2)\<rparr>"
  "ac_plutusV3Scripts c = [] \<Longrightarrow> set_opt (\<lambda>ss c. c\<lparr>ac_plutusV3Scripts := ss\<rparr>) (map_option (map f3) (nonempty x3)) c =
     c\<lparr>ac_plutusV3Scripts := map f3 (or_empty x3)\<rparr>"
  "ac_plutusV4Scripts c = [] \<Longrightarrow> set_opt (\<lambda>ss c. c\<lparr>ac_plutusV4Scripts := ss\<rparr>) (map_option (map f4) (nonempty x4)) c =
     c\<lparr>ac_plutusV4Scripts := map f4 (or_empty x4)\<rparr>"
  by (cases c; auto simp: set_opt_def nonempty_def some_metadata_def gtm_content_def split: option.splits list.splits)+

lemma aux_content_new: "aux_content AuxiliaryData_new = \<lparr>ac_metadata = [], ac_nativeScripts = [], ac_plutusV1Scripts = [],
    ac_plutusV2Scripts = [], ac_plutusV3Scripts = [], ac_plutusV4Scripts = []\<rparr>"
  by (simp add: aux_content_def AuxiliaryData_new_def)

lemma aux_tagged:
  assumes "AuxiliaryData_valid a"
  shows "\<exists>b y. write_all (writeTag (int ALONZO_AUX_TAG) # writeStartMap (Some (AuxiliaryData_getMapSize a)) # AuxiliaryData_fields a) = Inr b \<and>
    cbor_item b \<and> AuxiliaryData_fromCbor b = Inr y \<and> aux_content y = aux_content a \<and>
    (\<exists>rest. b = enc_head TagType 259 @ enc_head MapType (AuxiliaryData_getMapSize a) @ rest)"
proof -
  let ?n = "AuxiliaryData_getMapSize a"
  have n: "?n < 4503599627370496" by (simp add: AuxiliaryData_getMapSize_def)
  note fields = aux_fields [OF assms]
  obtain b s' where b: "\<And>w. run_ops (AuxiliaryData_fields a) w = Inr (w @ b)" "cbor_item (enc_head MapType ?n @ b)"
    "\<And>c pre bs fr stk tag. open_frame fr \<Longrightarrow>
      readMapWith (readKeyed readAuxField) AuxiliaryData_new (rd c pre (enc_head MapType ?n @ b @ bs) fr stk tag) =
        Inr (s', rd U (pre @ enc_head MapType ?n @ b) bs (bumps 1 fr) stk False)"
    "aux_content s' = aux_content a"
    using fields_to_read [OF fields n, where s = AuxiliaryData_new]
    by (simp add: aux_sets aux_content_new aux_content_def [of a]) metis
  let ?b = "enc_head TagType 259 @ enc_head MapType ?n @ b"
  have "AuxiliaryData_fromCbor ?b = Inr (s'\<lparr>ad_originalBytes := Some ?b\<rparr>)"
    using b(3) [of root_frame U "enc_head TagType 259" "[]" "[]" True]
    by (simp add: AuxiliaryData_fromCbor_def ALONZO_AUX_TAG_def rd_simps)
  with b n show ?thesis
    by (intro exI [of _ ?b] exI [of _ "s'\<lparr>ad_originalBytes := Some ?b\<rparr>"])
      (simp add: write_all_def encode_def ALONZO_AUX_TAG_def cbor_items aux_content_def)
qed

lemma aux_only_metadata:
  assumes "GeneralTransactionMetadata_valid g"
  shows "\<exists>b y. GeneralTransactionMetadata_toCbor g = Inr b \<and> cbor_item b \<and> AuxiliaryData_fromCbor b = Inr y \<and>
    aux_content y = (aux_content AuxiliaryData_new)\<lparr>ac_metadata := gtm_content g\<rparr> \<and>
    (\<exists>rest. b = enc_head MapType (length (gtm_metadata g)) @ rest)"
proof -
  let ?n = "length (gtm_metadata g)"
  obtain b y where b: "GeneralTransactionMetadata_toCbor g = Inr (enc_head MapType ?n @ b)" "cbor_item (enc_head MapType ?n @ b)"
    "GeneralTransactionMetadata_fromCbor (enc_head MapType ?n @ b) = Inr y" "gtm_content y = gtm_content g"
    using gtm_encodes [OF assms] by blast
  let ?b = "enc_head MapType ?n @ b"
  have "?n < 18446744073709551616" using assms by (simp add: GeneralTransactionMetadata_valid_def)
  then have "AuxiliaryData_fromCbor ?b = Inr (AuxiliaryData_new\<lparr>ad_metadata := Some y, ad_originalBytes := Some ?b\<rparr>)"
    using peekState_item [OF b(2), of "[]"] map_state [of ?n b] b(2,3) readEncodedValue_rd [OF b(2), of root_frame _ "[]" "[]" "[]" False]
    by (simp add: AuxiliaryData_fromCbor_def readObject_def)
  with b show ?thesis by (auto simp: aux_content_def AuxiliaryData_new_def)
qed

lemma aux_with_natives:
  assumes "GeneralTransactionMetadata_valid g" and "\<forall>s \<in> set ss. native_valid s" and "length ss < 9007199254740992"
  shows "\<exists>b y. write_all [writeStartArray (Some 2), writeObject (GeneralTransactionMetadata_toCbor g),
      writeArrayOf NativeScript_toCbor ss] = Inr b \<and> cbor_item b \<and> AuxiliaryData_fromCbor b = Inr y \<and>
    aux_content y = (aux_content AuxiliaryData_new)\<lparr>ac_metadata := gtm_content g, ac_nativeScripts := map NativeScript_toCore ss\<rparr> \<and>
    (\<exists>rest. b = enc_head ArrayType 2 @ rest)"
proof -
  obtain b y where g: "field_ok (writeObject (GeneralTransactionMetadata_toCbor g)) b (readObject GeneralTransactionMetadata_fromCbor) y"
    "gtm_content y = gtm_content g" using general_metadata.field_of_object [OF assms(1)] by blast
  obtain bs ys where s: "field_ok (writeArrayOf NativeScript_toCbor ss) bs (readArrayOf NativeScript_fromCbor) ys"
    "map NativeScript_toCore ys = map NativeScript_toCore ss"
    using cbor_codec.field_of_array [OF native_codec assms(2,3)] by blast
  let ?b = "enc_head ArrayType 2 @ b @ bs"
  have item: "cbor_item ?b" using field_okD(2) [OF g(1)] field_okD(2) [OF s(1)] by (rule cbor_item_array2)
  have "AuxiliaryData_fromCbor ?b =
      Inr ((AuxiliaryData_setNativeScripts ys (AuxiliaryData_new\<lparr>ad_metadata := Some y\<rparr>))\<lparr>ad_originalBytes := Some ?b\<rparr>)"
    using peekState_item [OF item, of "[]"] array_state [of 2 "b @ bs"] field_okD(3) [OF g(1)] field_okD(4) [OF s(1)]
    by (simp add: AuxiliaryData_fromCbor_def rd_simps)
  with item g(2) s(2) show ?thesis using field_okD(1) [OF g(1)] field_okD(1) [OF s(1)]
    by (auto simp: aux_content_def AuxiliaryData_new_def aux_setters write_all_def encode_def)
qed

lemma present_eq_0 [simp]: "present x = 0 \<longleftrightarrow> x = None" by simp

lemma no_elements: "nonempty x = None \<longleftrightarrow> or_empty x = []"
  by (auto simp: nonempty_def split: option.splits list.splits)

text \<open>
  The format: metadata alone are a map; metadata and native scripts an array of two; anything else a
  tagged map with an entry for each part that is not empty.
\<close>

definition aux_parts :: "AuxContent \<Rightarrow> nat" where
  "aux_parts c = length (filter id [ac_metadata c \<noteq> [], ac_nativeScripts c \<noteq> [], ac_plutusV1Scripts c \<noteq> [],
     ac_plutusV2Scripts c \<noteq> [], ac_plutusV3Scripts c \<noteq> [], ac_plutusV4Scripts c \<noteq> []])"

definition aux_format :: "AuxContent \<Rightarrow> bytes \<Rightarrow> bool" where
  "aux_format c b \<longleftrightarrow>
     (if aux_parts c = 1 \<and> ac_metadata c \<noteq> [] then \<exists>rest. b = enc_head MapType (length (ac_metadata c)) @ rest
      else if aux_parts c = 2 \<and> ac_metadata c \<noteq> [] \<and> ac_nativeScripts c \<noteq> [] then \<exists>rest. b = enc_head ArrayType 2 @ rest
      else \<exists>rest. b = enc_head TagType 259 @ enc_head MapType (aux_parts c) @ rest)"

lemma aux_parts_size: "AuxiliaryData_getMapSize a = aux_parts (aux_content a)"
  "some_metadata (ad_metadata a) = None \<longleftrightarrow> ac_metadata (aux_content a) = []"
  "nonempty (ad_nativeScripts a) = None \<longleftrightarrow> ac_nativeScripts (aux_content a) = []"
proof -
  show m: "some_metadata (ad_metadata a) = None \<longleftrightarrow> ac_metadata (aux_content a) = []"
    by (auto simp: aux_content_def some_metadata_def gtm_content_def split: option.splits)
  show "nonempty (ad_nativeScripts a) = None \<longleftrightarrow> ac_nativeScripts (aux_content a) = []"
    by (simp add: aux_content_def no_elements)
  have "present x = (if x = None then 0 else 1)" for x :: "'x option" by (cases x) simp_all
  then show "AuxiliaryData_getMapSize a = aux_parts (aux_content a)"
    unfolding AuxiliaryData_getMapSize_def aux_parts_def m by (simp add: no_elements aux_content_def)
qed

lemma AuxiliaryData_formats:
  assumes "AuxiliaryData_valid a"
  shows "\<exists>b y. AuxiliaryData_toCbor a = Inr b \<and> cbor_item b \<and> AuxiliaryData_fromCbor b = Inr y \<and> aux_content y = aux_content a \<and>
    aux_format (aux_content a) b"
proof -
  let ?n = "AuxiliaryData_getMapSize a"
  have orig: "ad_originalBytes a = None" using assms by (simp add: AuxiliaryData_valid_def)
  consider (metadata) g where "?n = 1" "some_metadata (ad_metadata a) = Some g"
    | (natives) g ss where "?n = 2" "some_metadata (ad_metadata a) = Some g" "nonempty (ad_nativeScripts a) = Some ss"
    | (tagged) "\<not> (?n = 1 \<and> some_metadata (ad_metadata a) \<noteq> None)"
        "\<not> (?n = 2 \<and> some_metadata (ad_metadata a) \<noteq> None \<and> nonempty (ad_nativeScripts a) \<noteq> None)"
    by blast
  then show ?thesis
  proof cases
    case metadata
    then have "aux_content a = (aux_content AuxiliaryData_new)\<lparr>ac_metadata := gtm_content g\<rparr>"
      by (auto simp: AuxiliaryData_getMapSize_def no_elements aux_content_def AuxiliaryData_new_def some_metadata_def
          split: option.splits if_splits)
    moreover from this have "length (ac_metadata (aux_content a)) = length (gtm_metadata g)" by (simp add: gtm_content_def)
    moreover have "aux_parts (aux_content a) = 1 \<and> ac_metadata (aux_content a) \<noteq> []"
      using metadata by (simp add: aux_parts_size(1) flip: aux_parts_size(2))
    moreover have "GeneralTransactionMetadata_valid g"
      using some_metadata_valid [of "ad_metadata a" g] metadata(2) assms by (simp add: AuxiliaryData_valid_def)
    moreover have "AuxiliaryData_toCbor a = GeneralTransactionMetadata_toCbor g" if "GeneralTransactionMetadata_toCbor g = Inr b" for b
      using metadata orig that by (simp add: AuxiliaryData_toCbor_def writes_def writeObject_def write_all_def encode_def)
    ultimately show ?thesis using aux_only_metadata [of g] unfolding aux_format_def by metis
  next
    case natives
    then have c: "aux_content a = (aux_content AuxiliaryData_new)\<lparr>ac_metadata := gtm_content g, ac_nativeScripts := map NativeScript_toCore ss\<rparr>"
      by (auto simp: AuxiliaryData_getMapSize_def no_elements aux_content_def AuxiliaryData_new_def some_metadata_def
          split: option.splits if_splits)
    have "\<forall>s \<in> set ss. native_valid s" "length ss < 9007199254740992"
      using assms natives(3) by (auto simp: AuxiliaryData_valid_def elements_valid_def)
    moreover have "GeneralTransactionMetadata_valid g"
      using some_metadata_valid [of "ad_metadata a" g] natives(2) assms by (simp add: AuxiliaryData_valid_def)
    moreover have "AuxiliaryData_toCbor a = write_all [writeStartArray (Some 2), writeObject (GeneralTransactionMetadata_toCbor g),
        writeArrayOf NativeScript_toCbor ss]"
      using natives orig by (simp add: AuxiliaryData_toCbor_def writes_def Let_def del: nonempty_eq_Some)
    moreover have "aux_parts (aux_content a) = 2" "ac_metadata (aux_content a) \<noteq> []" "ac_nativeScripts (aux_content a) \<noteq> []"
      using natives by (simp_all add: aux_parts_size(1) del: nonempty_eq_Some flip: aux_parts_size(2,3))
    ultimately show ?thesis using aux_with_natives [of g ss] c unfolding aux_format_def by auto
  next
    case tagged
    have "AuxiliaryData_toCbor a = write_all (writeTag (int ALONZO_AUX_TAG) # writeStartMap (Some ?n) # AuxiliaryData_fields a)"
      unfolding AuxiliaryData_toCbor_def Let_def orig cached_None if_not_P [OF tagged(1)] if_not_P [OF tagged(2)] ..
    with aux_tagged [OF assms] tagged show ?thesis
      unfolding aux_format_def aux_parts_size by auto
  qed
qed

lemma AuxiliaryData_encodes:
  "AuxiliaryData_valid a \<Longrightarrow>
   \<exists>b y. AuxiliaryData_toCbor a = Inr b \<and> cbor_item b \<and> AuxiliaryData_fromCbor b = Inr y \<and> aux_content y = aux_content a"
  using AuxiliaryData_formats by blast

lemma AuxiliaryData_keeps_bytes: "AuxiliaryData_fromCbor b = Inr y \<Longrightarrow> AuxiliaryData_toCbor y = Inr b"
  by (cases "b = []") (auto simp: AuxiliaryData_fromCbor_def AuxiliaryData_toCbor_def)

interpretation auxiliary_data: caching_codec AuxiliaryData_toCbor AuxiliaryData_fromCbor AuxiliaryData_valid aux_content
  using AuxiliaryData_encodes AuxiliaryData_keeps_bytes by unfold_locales blast+

text \<open>C28. Auxiliary data with any selection of metadata and scripts of the five languages are read back with the same
  content, and written again with the very same bytes; the integers in the metadata are \<open>- 2 ^ 64\<close> or more. The bytes
  have the format the content calls for: metadata alone are a map with an entry for each label; metadata and
  native scripts alone an array of two; anything else is under tag 259 a map with one entry for each
  part that is not empty.\<close>

theorem auxiliary_data_roundtrip:
  assumes "AuxiliaryData_valid a"
  shows "\<exists>b y. AuxiliaryData_toCbor a = Inr b \<and> AuxiliaryData_fromCbor b = Inr y \<and>
    aux_content y = aux_content a \<and> AuxiliaryData_toCbor y = Inr b \<and>
    (let c = aux_content a;
         parts = length (filter id [ac_metadata c \<noteq> [], ac_nativeScripts c \<noteq> [], ac_plutusV1Scripts c \<noteq> [],
           ac_plutusV2Scripts c \<noteq> [], ac_plutusV3Scripts c \<noteq> [], ac_plutusV4Scripts c \<noteq> []]) in
     if parts = 1 \<and> ac_metadata c \<noteq> [] then \<exists>rest. b = enc_head MapType (length (ac_metadata c)) @ rest
     else if parts = 2 \<and> ac_metadata c \<noteq> [] \<and> ac_nativeScripts c \<noteq> [] then \<exists>rest. b = enc_head ArrayType 2 @ rest
     else \<exists>rest. b = enc_head TagType 259 @ enc_head MapType parts @ rest)"
proof -
  obtain b y where b: "AuxiliaryData_toCbor a = Inr b" "AuxiliaryData_fromCbor b = Inr y" "aux_content y = aux_content a"
    "AuxiliaryData_toCbor y = Inr b" using auxiliary_data.reencode [OF assms] by blast
  have "aux_format (aux_content a) b" using AuxiliaryData_formats [OF assms] b(1) by auto
  with b show ?thesis unfolding aux_format_def aux_parts_def Let_def by blast
qed

definition example_aux :: AuxiliaryData where
  "example_aux = AuxiliaryData_new\<lparr>ad_metadata := Some (GeneralTransactionMetadata_new [(674, TransactionMetadatum (MInteger 5) None)]),
     ad_plutusV2Scripts := Some [PlutusV2Script_new [1, 2, 3]]\<rparr>"

theorem auxiliary_data_roundtrip_witness:
  "\<exists>b y. AuxiliaryData_toCbor example_aux = Inr b \<and> AuxiliaryData_fromCbor b = Inr y \<and>
    aux_content y = aux_content example_aux \<and> AuxiliaryData_toCbor y = Inr b \<and>
    (\<exists>rest. b = enc_head TagType 259 @ enc_head MapType 2 @ rest)"
proof -
  have "AuxiliaryData_valid example_aux"
    by (simp add: example_aux_def AuxiliaryData_new_def AuxiliaryData_valid_def elements_valid_def PlutusV2Script_new_def
      GeneralTransactionMetadata_new_def GeneralTransactionMetadata_valid_def metadatum_integer_def)
  moreover have "ac_metadata (aux_content example_aux) \<noteq> []" "ac_plutusV2Scripts (aux_content example_aux) \<noteq> []"
    "ac_nativeScripts (aux_content example_aux) = []" "ac_plutusV1Scripts (aux_content example_aux) = []"
    "ac_plutusV3Scripts (aux_content example_aux) = []" "ac_plutusV4Scripts (aux_content example_aux) = []"
    by (simp_all add: example_aux_def aux_content_def AuxiliaryData_new_def GeneralTransactionMetadata_new_def gtm_content_def)
  ultimately show ?thesis using auxiliary_data_roundtrip [of example_aux] by (simp add: Let_def numeral_2_eq_2)
qed

text \<open>\<open>equals\<close> answers true for any two objects that were built or read, since none of them has cached bytes.\<close>

lemma general_metadata_equals_always:
  "GeneralTransactionMetadata_fromCbor b = Inr g \<Longrightarrow> GeneralTransactionMetadata_fromCbor b' = Inr h \<Longrightarrow>
   GeneralTransactionMetadata_equals g h"
  by (auto simp: GeneralTransactionMetadata_fromCbor_def GeneralTransactionMetadata_new_def GeneralTransactionMetadata_equals_def)

end
