(* ===== verification/Witnesses.thy ===== *)
theory Witnesses
  imports Auxiliary_Data
begin

text \<open>
  Signatures and redeemers (\<open>core/src/Serialization/TransactionWitnessSet/VkeyWitness.ts\<close>,
  \<open>BootstrapWitness.ts\<close>, \<open>Redeemer/*.ts\<close>). Redeemers are written as an array before the Conway era
  and as a map from tag and index after; both forms are read.
\<close>

subsection \<open>Sets as a codec\<close>

definition set_valid :: "('a \<Rightarrow> bool) \<Rightarrow> 'a CborSet \<Rightarrow> bool" where
  "set_valid valid s \<longleftrightarrow> (\<forall>x \<in> set (cs_values s). valid x) \<and> length (cs_values s) < 9007199254740992 \<and>
     cs_originalBytes s = None"

definition set_content :: "('a \<Rightarrow> 'c) \<Rightarrow> 'a CborSet \<Rightarrow> 'c list" where
  "set_content content s = map content (cs_values s)"

text \<open>\<open>s !== undefined && s.size() > 0\<close>\<close>

definition nonempty_set :: "'a CborSet option \<Rightarrow> 'a CborSet option" where
  "nonempty_set x = (case x of None \<Rightarrow> None | Some s \<Rightarrow> if 0 < CborSet_size s then Some s else None)"

lemma nonempty_set_SomeD: "nonempty_set x = Some s \<Longrightarrow> x = Some s"
  by (auto simp: nonempty_set_def split: option.splits if_splits)

text \<open>Sets of objects whose conversion may throw.\<close>

definition CborSet_fromCoreE :: "('c \<Rightarrow> 't result) \<Rightarrow> 'c list \<Rightarrow> 't CborSet result" where
  "CborSet_fromCoreE fromCore cs = ebind (emap fromCore cs) (\<lambda>vs. Inr \<lparr>cs_values = vs, cs_originalBytes = None\<rparr>)"

context cbor_codec
begin

lemma set_codec:
  "cbor_codec (CborSet_toCbor conway toCbor) (CborSet_fromCbor fromCbor) (set_valid valid) (set_content content)"
  using set_encodes [of _ conway] by unfold_locales (simp add: set_valid_def set_content_def)

lemma fields_to_set:
  assumes "fld k = readField (readObject (CborSet_fromCbor fromCbor)) upd" and "pred_option (set_valid valid) x" and "cbor_int k"
    and "\<And>y s. con (upd y s) = put (set_content content y) (con s)"
  shows "fields_to (readKeyed fld) con
    (writes (\<lambda>s. writeField k (writeObject (CborSet_toCbor conway toCbor s))) (nonempty_set x)) (present (nonempty_set x))
    (set_opt put (map_option (set_content content) (nonempty_set x)))"
proof (rule fields_to_optional [where fld = fld and k = k, OF assms(1) _ assms(3)])
  fix s assume "nonempty_set x = Some s"
  then have "set_valid valid s" using assms(2) nonempty_set_SomeD by fastforce
  then show "\<exists>b y. field_ok (writeObject (CborSet_toCbor conway toCbor s)) b (readObject (CborSet_fromCbor fromCbor)) y \<and>
      set_content content y = set_content content s"
    by (rule cbor_codec.field_of_object [OF set_codec])
qed (rule assms(4))

end

subsection \<open>Signatures\<close>

record VkeyWitness =
  vw_vkey :: bytes
  vw_signature :: bytes
  vw_originalBytes :: "bytes option"

definition VkeyWitness_new :: "bytes \<Rightarrow> bytes \<Rightarrow> VkeyWitness" where
  "VkeyWitness_new vkey signature = \<lparr>vw_vkey = vkey, vw_signature = signature, vw_originalBytes = None\<rparr>"

definition VkeyWitness_toCbor :: "VkeyWitness \<Rightarrow> bytes result" where
  "VkeyWitness_toCbor w = cached (vw_originalBytes w)
     (write_all [writeStartArray (Some 2), writeByteString (vw_vkey w), writeByteString (vw_signature w)])"

definition VkeyWitness_fromCbor :: "bytes \<Rightarrow> VkeyWitness result" where
  "VkeyWitness_fromCbor cbor =
     ebind (expectArray 2 (new_reader cbor)) (\<lambda>r.
     ebind (readByteString r) (\<lambda>(vkey, r).
     ebind (readByteString r) (\<lambda>(signature, r).
     ebind (readEndArray r) (\<lambda>r. Inr ((VkeyWitness_new vkey signature)\<lparr>vw_originalBytes := Some cbor\<rparr>)))))"

definition VkeyWitness_toCore :: "VkeyWitness \<Rightarrow> bytes \<times> bytes" where
  "VkeyWitness_toCore w = (vw_vkey w, vw_signature w)"

definition VkeyWitness_fromCore :: "bytes \<times> bytes \<Rightarrow> VkeyWitness" where
  "VkeyWitness_fromCore e = VkeyWitness_new (fst e) (snd e)"

definition VkeyWitness_setVkey :: "bytes \<Rightarrow> VkeyWitness \<Rightarrow> VkeyWitness" where
  "VkeyWitness_setVkey vkey w = w\<lparr>vw_vkey := vkey, vw_originalBytes := None\<rparr>"

definition VkeyWitness_setSignature :: "bytes \<Rightarrow> VkeyWitness \<Rightarrow> VkeyWitness" where
  "VkeyWitness_setSignature signature w = w\<lparr>vw_signature := signature, vw_originalBytes := None\<rparr>"

definition VkeyWitness_valid :: "VkeyWitness \<Rightarrow> bool" where
  "VkeyWitness_valid w \<longleftrightarrow> small_bytes (vw_vkey w) \<and> small_bytes (vw_signature w) \<and> vw_originalBytes w = None"

interpretation vkey_witness: caching_codec VkeyWitness_toCbor VkeyWitness_fromCbor VkeyWitness_valid VkeyWitness_toCore
proof (unfold_locales, goal_cases)
  case (1 w)
  then show ?case
    by (simp add: VkeyWitness_valid_def VkeyWitness_toCbor_def VkeyWitness_fromCbor_def VkeyWitness_new_def
        VkeyWitness_toCore_def write_all_def encode_def rd_simps rd_last cbor_items)
next
  case (2 b y)
  then show ?case
    by (auto simp: VkeyWitness_toCbor_def VkeyWitness_fromCbor_def dest!: expectArray_nonempty)
qed

subsection \<open>Bootstrap witnesses\<close>

record BootstrapWitness =
  bw_vkey :: bytes
  bw_signature :: bytes
  bw_chainCode :: bytes
  bw_attributes :: bytes
  bw_originalBytes :: "bytes option"

definition assertChainCodeSize :: "bytes \<Rightarrow> unit result" where
  "assertChainCodeSize chainCode = throw_if (length chainCode \<noteq> 32) InvalidStateError"

definition BootstrapWitness_new :: "bytes \<Rightarrow> bytes \<Rightarrow> bytes \<Rightarrow> bytes \<Rightarrow> BootstrapWitness" where
  "BootstrapWitness_new vkey signature chainCode attributes = \<lparr>bw_vkey = vkey, bw_signature = signature,
     bw_chainCode = chainCode, bw_attributes = attributes, bw_originalBytes = None\<rparr>"

definition BootstrapWitness_toCbor :: "BootstrapWitness \<Rightarrow> bytes result" where
  "BootstrapWitness_toCbor w = cached (bw_originalBytes w)
     (ebind (assertChainCodeSize (bw_chainCode w)) (\<lambda>_.
        write_all [writeStartArray (Some 4), writeByteString (bw_vkey w), writeByteString (bw_signature w),
                   writeByteString (bw_chainCode w), writeByteString (bw_attributes w)]))"

definition BootstrapWitness_fromCbor :: "bytes \<Rightarrow> BootstrapWitness result" where
  "BootstrapWitness_fromCbor cbor =
     ebind (expectArray 4 (new_reader cbor)) (\<lambda>r.
     ebind (readByteString r) (\<lambda>(vkey, r).
     ebind (readByteString r) (\<lambda>(signature, r).
     ebind (readByteString r) (\<lambda>(chainCode, r).
     ebind (readByteString r) (\<lambda>(attributes, r).
     ebind (readEndArray r) (\<lambda>r.
       Inr ((BootstrapWitness_new vkey signature chainCode attributes)\<lparr>bw_originalBytes := Some cbor\<rparr>)))))))"

text \<open>The base64 string of the attributes denotes their bytes.\<close>

record Core_BootstrapWitness =
  cbw_signature :: bytes
  cbw_chainCode :: "bytes option"
  cbw_addressAttributes :: "bytes option"
  cbw_key :: bytes

definition BootstrapWitness_toCore :: "BootstrapWitness \<Rightarrow> Core_BootstrapWitness" where
  "BootstrapWitness_toCore w = \<lparr>cbw_signature = bw_signature w, cbw_chainCode = Some (bw_chainCode w),
     cbw_addressAttributes = Some (bw_attributes w), cbw_key = bw_vkey w\<rparr>"

definition EMPTY_ATTRIBUTES_CBOR :: bytes where
  "EMPTY_ATTRIBUTES_CBOR = [0xa0]"

definition BootstrapWitness_fromCore :: "Core_BootstrapWitness \<Rightarrow> BootstrapWitness result" where
  "BootstrapWitness_fromCore c =
     (if \<not> truthy_bytes (cbw_chainCode c) then Inl InvalidStateError
      else ebind (assertChainCodeSize (the (cbw_chainCode c))) (\<lambda>_.
        Inr (BootstrapWitness_new (cbw_key c) (cbw_signature c) (the (cbw_chainCode c))
          (if truthy_bytes (cbw_addressAttributes c) then the (cbw_addressAttributes c) else EMPTY_ATTRIBUTES_CBOR))))"

definition BootstrapWitness_setVkey :: "bytes \<Rightarrow> BootstrapWitness \<Rightarrow> BootstrapWitness" where
  "BootstrapWitness_setVkey vkey w = w\<lparr>bw_vkey := vkey, bw_originalBytes := None\<rparr>"

definition BootstrapWitness_setSignature :: "bytes \<Rightarrow> BootstrapWitness \<Rightarrow> BootstrapWitness" where
  "BootstrapWitness_setSignature signature w = w\<lparr>bw_signature := signature, bw_originalBytes := None\<rparr>"

definition BootstrapWitness_setChainCode :: "bytes \<Rightarrow> BootstrapWitness \<Rightarrow> BootstrapWitness result" where
  "BootstrapWitness_setChainCode chainCode w =
     ebind (assertChainCodeSize chainCode) (\<lambda>_. Inr (w\<lparr>bw_chainCode := chainCode, bw_originalBytes := None\<rparr>))"

definition BootstrapWitness_setAttributes :: "bytes \<Rightarrow> BootstrapWitness \<Rightarrow> BootstrapWitness" where
  "BootstrapWitness_setAttributes attributes w = w\<lparr>bw_attributes := attributes, bw_originalBytes := None\<rparr>"

definition BootstrapWitness_valid :: "BootstrapWitness \<Rightarrow> bool" where
  "BootstrapWitness_valid w \<longleftrightarrow> small_bytes (bw_vkey w) \<and> small_bytes (bw_signature w) \<and>
     length (bw_chainCode w) = 32 \<and> small_bytes (bw_attributes w) \<and> bw_originalBytes w = None"

interpretation bootstrap_witness: caching_codec BootstrapWitness_toCbor BootstrapWitness_fromCbor BootstrapWitness_valid
  BootstrapWitness_toCore
proof (unfold_locales, goal_cases)
  case (1 w)
  then show ?case
    by (simp add: BootstrapWitness_valid_def BootstrapWitness_toCbor_def BootstrapWitness_fromCbor_def BootstrapWitness_new_def
        BootstrapWitness_toCore_def assertChainCodeSize_def write_all_def encode_def rd_simps rd_last cert_items)
next
  case (2 b y)
  then show ?case
    by (auto simp: BootstrapWitness_toCbor_def BootstrapWitness_fromCbor_def dest!: expectArray_nonempty)
qed

text \<open>A chain code of another size can be read, and is only refused when it would be written anew.\<close>

lemma bootstrap_chain_code_checked:
  "bw_originalBytes w = None \<Longrightarrow> length (bw_chainCode w) \<noteq> 32 \<Longrightarrow> BootstrapWitness_toCbor w = Inl InvalidStateError"
  by (simp add: BootstrapWitness_toCbor_def assertChainCodeSize_def)

subsection \<open>Redeemers\<close>

datatype RedeemerPurpose = spend | mint | certificate | withdrawal | propose | vote | guarding

record Redeemer =
  rdm_tag :: int
  rdm_index :: int
  rdm_data :: PlutusData
  rdm_exUnits :: ExUnits
  rdm_originalBytes :: "bytes option"

definition Redeemer_new :: "int \<Rightarrow> int \<Rightarrow> PlutusData \<Rightarrow> ExUnits \<Rightarrow> Redeemer" where
  "Redeemer_new tag index data exUnits = \<lparr>rdm_tag = tag, rdm_index = index, rdm_data = data, rdm_exUnits = exUnits,
     rdm_originalBytes = None\<rparr>"

definition Redeemer_toCbor :: "Redeemer \<Rightarrow> bytes result" where
  "Redeemer_toCbor x = cached (rdm_originalBytes x)
     (write_all [writeStartArray (Some 4), writeInt (rdm_tag x), writeInt (rdm_index x),
        writeObject (PlutusData_toCbor (rdm_data x)), writeObject (ExUnits_toCbor (rdm_exUnits x))])"

definition Redeemer_fromCbor :: "bytes \<Rightarrow> Redeemer result" where
  "Redeemer_fromCbor cbor =
     ebind (expectArray 4 (new_reader cbor)) (\<lambda>r.
     ebind (readUInt r) (\<lambda>(tag, r).
     ebind (readUInt r) (\<lambda>(index, r).
     ebind (readObject PlutusData_fromCbor r) (\<lambda>(data, r).
     ebind (readObject ExUnits_fromCbor r) (\<lambda>(exUnits, r).
     ebind (readEndArray r) (\<lambda>r.
       Inr ((Redeemer_new (int (js_Number tag)) (int index) data exUnits)\<lparr>rdm_originalBytes := Some cbor\<rparr>)))))))"

text \<open>\<open>RedeemerTag\<close> and the purposes of the core type.\<close>

definition purpose_of_tag :: "int \<Rightarrow> RedeemerPurpose result" where
  "purpose_of_tag tag =
     (if tag = 0 then Inr spend else if tag = 1 then Inr mint else if tag = 2 then Inr certificate
      else if tag = 3 then Inr withdrawal else if tag = 4 then Inr vote else if tag = 5 then Inr propose
      else if tag = 6 then Inr guarding else Inl InvalidStateError)"

fun RedeemerTag :: "RedeemerPurpose \<Rightarrow> int" where
  "RedeemerTag spend = 0"
| "RedeemerTag mint = 1"
| "RedeemerTag certificate = 2"
| "RedeemerTag withdrawal = 3"
| "RedeemerTag vote = 4"
| "RedeemerTag propose = 5"
| "RedeemerTag guarding = 6"

record Core_Redeemer =
  crd_index :: int
  crd_purpose :: RedeemerPurpose
  crd_data :: Core_PlutusData
  crd_executionUnits :: Core_ExUnits

definition Redeemer_toCore :: "Redeemer \<Rightarrow> Core_Redeemer result" where
  "Redeemer_toCore x =
     ebind (purpose_of_tag (rdm_tag x)) (\<lambda>purpose.
     ebind (PlutusData_toCore (rdm_data x)) (\<lambda>data.
       Inr \<lparr>crd_index = js_Number_int (rdm_index x), crd_purpose = purpose, crd_data = data,
            crd_executionUnits = ExUnits_toCore (rdm_exUnits x)\<rparr>))"

definition Redeemer_fromCore :: "Core_Redeemer \<Rightarrow> Redeemer result" where
  "Redeemer_fromCore c =
     ebind (PlutusData_fromCore (crd_data c)) (\<lambda>data.
       Inr (Redeemer_new (RedeemerTag (crd_purpose c)) (crd_index c) data (ExUnits_fromCore (crd_executionUnits c))))"

definition Redeemer_setTag :: "int \<Rightarrow> Redeemer \<Rightarrow> Redeemer" where
  "Redeemer_setTag tag x = x\<lparr>rdm_tag := tag, rdm_originalBytes := None\<rparr>"

definition Redeemer_setIndex :: "int \<Rightarrow> Redeemer \<Rightarrow> Redeemer" where
  "Redeemer_setIndex index x = x\<lparr>rdm_index := index, rdm_originalBytes := None\<rparr>"

definition Redeemer_setData :: "PlutusData \<Rightarrow> Redeemer \<Rightarrow> Redeemer" where
  "Redeemer_setData data x = x\<lparr>rdm_data := data, rdm_originalBytes := None\<rparr>"

definition Redeemer_setExUnits :: "ExUnits \<Rightarrow> Redeemer \<Rightarrow> Redeemer" where
  "Redeemer_setExUnits exUnits x = x\<lparr>rdm_exUnits := exUnits, rdm_originalBytes := None\<rparr>"

definition Redeemer_hash :: "blake2b \<Rightarrow> Redeemer \<Rightarrow> bytes result" where
  "Redeemer_hash blake2b x = ebind (Redeemer_toCbor x) (\<lambda>cbor. Inr (blake2b cbor 32))"

lemma purpose_of_RedeemerTag: "purpose_of_tag (RedeemerTag p) = Inr p"
  by (cases p) (simp_all add: purpose_of_tag_def)

record Redeemers =
  rds_values :: "Redeemer list"
  rds_originalBytes :: "bytes option"

definition Redeemers_new :: "Redeemer list \<Rightarrow> Redeemers" where
  "Redeemers_new redeemers = \<lparr>rds_values = redeemers, rds_originalBytes = None\<rparr>"

text \<open>The key of the map of redeemers is the text of tag and index.\<close>

definition redeemersMap :: "Redeemer list \<Rightarrow> ((int \<times> int) \<times> Redeemer) list" where
  "redeemersMap values = new_Map (map (\<lambda>x. ((rdm_tag x, rdm_index x), x)) values)"

definition writeRedeemerEntry :: "Redeemer \<Rightarrow> writer_op list" where
  "writeRedeemerEntry x = [writeStartArray (Some 2), writeInt (rdm_tag x), writeInt (rdm_index x),
     writeStartArray (Some 2), writeObject (PlutusData_toCbor (rdm_data x)), writeObject (ExUnits_toCbor (rdm_exUnits x))]"

definition Redeemers_toCbor :: "bool \<Rightarrow> Redeemers \<Rightarrow> bytes result" where
  "Redeemers_toCbor inConwayEra x = cached (rds_originalBytes x)
     (if inConwayEra then
        let m = redeemersMap (rds_values x) in
        write_all (writeStartMap (Some (length m)) # concat (map (\<lambda>(k, redeemer). writeRedeemerEntry redeemer) m))
      else write_all [writeArrayOf Redeemer_toCbor (rds_values x)])"

definition readRedeemerEntry :: "Redeemer list \<Rightarrow> CborReader \<Rightarrow> (Redeemer list \<times> CborReader) result" where
  "readRedeemerEntry redeemers r =
     ebind (expectArray 2 r) (\<lambda>r.
     ebind (readUInt r) (\<lambda>(tag, r).
     ebind (readUInt r) (\<lambda>(index, r).
     ebind (readEndArray r) (\<lambda>r.
     ebind (expectArray 2 r) (\<lambda>r.
     ebind (readObject PlutusData_fromCbor r) (\<lambda>(data, r).
     ebind (readObject ExUnits_fromCbor r) (\<lambda>(exUnits, r).
     ebind (readEndArray r) (\<lambda>r.
       Inr (redeemers @ [Redeemer_new (int (js_Number tag)) (int index) data exUnits], r)))))))))"

definition Redeemers_fromCbor :: "bytes \<Rightarrow> Redeemers result" where
  "Redeemers_fromCbor cbor =
     ebind (peekState (new_reader cbor)) (\<lambda>(state, r).
     ebind (if state = StartMap then readMapWith readRedeemerEntry [] r else readArrayOf Redeemer_fromCbor r) (\<lambda>(redeemers, r).
       Inr ((Redeemers_new redeemers)\<lparr>rds_originalBytes := Some cbor\<rparr>)))"

definition Redeemers_toCore :: "Redeemers \<Rightarrow> Core_Redeemer list result" where
  "Redeemers_toCore x = emap Redeemer_toCore (rds_values x)"

definition Redeemers_fromCore :: "Core_Redeemer list \<Rightarrow> Redeemers result" where
  "Redeemers_fromCore redeemers = ebind (emap Redeemer_fromCore redeemers) (\<lambda>rs. Inr (Redeemers_new rs))"

definition Redeemers_setValues :: "Redeemer list \<Rightarrow> Redeemers \<Rightarrow> Redeemers" where
  "Redeemers_setValues redeemers x = \<lparr>rds_values = redeemers, rds_originalBytes = None\<rparr>"

definition Redeemers_size :: "Redeemers \<Rightarrow> nat" where
  "Redeemers_size x = length (rds_values x)"

subsection \<open>Redeemers are read back\<close>

definition redeemer_content :: "Redeemer \<Rightarrow> (int \<times> int) \<times> PlutusData \<times> int \<times> int" where
  "redeemer_content x = ((rdm_tag x, rdm_index x), PlutusData_strip (rdm_data x), eu_mem (rdm_exUnits x), eu_steps (rdm_exUnits x))"

definition Redeemer_valid :: "Redeemer \<Rightarrow> bool" where
  "Redeemer_valid x \<longleftrightarrow> 0 \<le> rdm_tag x \<and> rdm_tag x \<le> 6 \<and> uint64 (rdm_index x) \<and> PlutusData_ok (rdm_data x) \<and>
     ExUnits_valid (rdm_exUnits x) \<and> rdm_originalBytes x = None"

lemma redeemer_fields:
  assumes "Redeemer_valid x"
  obtains db d eb e where "PlutusData_toCbor (rdm_data x) = Inr db" "cbor_item db" "PlutusData_fromCbor db = Inr d"
    "PlutusData_strip d = PlutusData_strip (rdm_data x)" "ExUnits_toCbor (rdm_exUnits x) = Inr eb" "cbor_item eb"
    "ExUnits_fromCbor eb = Inr e" "eu_mem e = eu_mem (rdm_exUnits x)" "eu_steps e = eu_steps (rdm_exUnits x)"
  using plutus_data.encodes [of "rdm_data x"] ex_units.encodes [of "rdm_exUnits x"] assms
  by (auto simp: Redeemer_valid_def)

interpretation redeemer: caching_codec Redeemer_toCbor Redeemer_fromCbor Redeemer_valid redeemer_content
proof (unfold_locales, goal_cases)
  case (1 x)
  from redeemer_fields [OF 1] obtain db d eb e where f: "PlutusData_toCbor (rdm_data x) = Inr db" "cbor_item db" "PlutusData_fromCbor db = Inr d"
    "PlutusData_strip d = PlutusData_strip (rdm_data x)" "ExUnits_toCbor (rdm_exUnits x) = Inr eb" "cbor_item eb"
    "ExUnits_fromCbor eb = Inr e" "eu_mem e = eu_mem (rdm_exUnits x)" "eu_steps e = eu_steps (rdm_exUnits x)" .
  from 1 have x: "0 \<le> rdm_tag x" "rdm_tag x \<le> 6" "uint64 (rdm_index x)" "rdm_originalBytes x = None"
    by (simp_all add: Redeemer_valid_def)
  let ?b = "enc_head ArrayType 4 @ enc_int (rdm_tag x) @ enc_int (rdm_index x) @ db @ eb"
  have "Redeemer_toCbor x = Inr ?b"
    using f x by (simp add: Redeemer_toCbor_def writeObject_def write_all_def encode_def cbor_int_def)
  moreover have "cbor_item ?b" using f x by (intro cbor_item_array4) (auto simp: cbor_int_def)
  moreover have "Redeemer_fromCbor ?b = Inr ((Redeemer_new (rdm_tag x) (rdm_index x) d e)\<lparr>rdm_originalBytes := Some ?b\<rparr>)"
    using f x by (simp add: Redeemer_fromCbor_def readObject_def rd_simps rd_last)
  ultimately show ?case using f by (simp add: redeemer_content_def Redeemer_new_def)
next
  case (2 b y)
  then show ?case
    by (auto simp: Redeemer_toCbor_def Redeemer_fromCbor_def dest!: expectArray_nonempty)
qed

definition redeemers_content :: "Redeemers \<Rightarrow> ((int \<times> int) \<times> PlutusData \<times> int \<times> int) list" where
  "redeemers_content x = map redeemer_content (rds_values x)"

definition Redeemers_valid :: "Redeemers \<Rightarrow> bool" where
  "Redeemers_valid x \<longleftrightarrow> (\<forall>y \<in> set (rds_values x). Redeemer_valid y) \<and>
     distinct (map (\<lambda>y. (rdm_tag y, rdm_index y)) (rds_values x)) \<and>
     length (rds_values x) < 4503599627370496 \<and> rds_originalBytes x = None"

lemma redeemersMap_distinct:
  "distinct (map (\<lambda>y. (rdm_tag y, rdm_index y)) vs) \<Longrightarrow> redeemersMap vs = map (\<lambda>x. ((rdm_tag x, rdm_index x), x)) vs"
  unfolding redeemersMap_def by (rule new_Map_distinct) (simp add: comp_def)

lemma redeemer_entry:
  assumes "Redeemer_valid x"
  shows "\<exists>k b y. (\<forall>w. run_ops (writeRedeemerEntry x) w = Inr (w @ k @ b)) \<and>
    entry_ok readRedeemerEntry (k, b) (\<lambda>rs. rs @ [y]) \<and> redeemer_content y = redeemer_content x"
proof -
  from redeemer_fields [OF assms] obtain db d eb e where f: "PlutusData_toCbor (rdm_data x) = Inr db" "cbor_item db" "PlutusData_fromCbor db = Inr d"
    "PlutusData_strip d = PlutusData_strip (rdm_data x)" "ExUnits_toCbor (rdm_exUnits x) = Inr eb" "cbor_item eb"
    "ExUnits_fromCbor eb = Inr e" "eu_mem e = eu_mem (rdm_exUnits x)" "eu_steps e = eu_steps (rdm_exUnits x)" .
  from assms have x: "0 \<le> rdm_tag x" "rdm_tag x \<le> 6" "uint64 (rdm_index x)" by (simp_all add: Redeemer_valid_def)
  let ?k = "enc_head ArrayType 2 @ enc_int (rdm_tag x) @ enc_int (rdm_index x)" and ?b = "enc_head ArrayType 2 @ db @ eb"
  have "run_ops (writeRedeemerEntry x) w = Inr (w @ ?k @ ?b)" for w
    using f x by (simp add: writeRedeemerEntry_def writeObject_def cbor_int_def)
  moreover have "entry_ok readRedeemerEntry (?k, ?b) (\<lambda>rs. rs @ [Redeemer_new (rdm_tag x) (rdm_index x) d e])"
    using f x by (simp add: entry_ok_def readRedeemerEntry_def readObject_def cbor_int_def rd_simps cbor_item_array2 numeral_2_eq_2 [symmetric])
  ultimately show ?thesis using f(4,8,9)
    by (intro exI [of _ ?k] exI [of _ ?b] exI [of _ "Redeemer_new (rdm_tag x) (rdm_index x) d e"])
      (simp add: redeemer_content_def Redeemer_new_def)
qed

lemma redeemers_as_map:
  assumes "Redeemers_valid x"
  shows "\<exists>b y. Redeemers_toCbor True x = Inr b \<and> cbor_item b \<and> Redeemers_fromCbor b = Inr y \<and>
    redeemers_content y = redeemers_content x"
proof -
  let ?vs = "rds_values x"
  have x: "\<forall>y \<in> set ?vs. Redeemer_valid y" "redeemersMap ?vs = map (\<lambda>x. ((rdm_tag x, rdm_index x), x)) ?vs"
    "length ?vs < 4503599627370496" "rds_originalBytes x = None"
    using assms redeemersMap_distinct by (simp_all add: Redeemers_valid_def)
  obtain b ys where f: "fields_ok readRedeemerEntry (concat (map writeRedeemerEntry ?vs)) b (\<lambda>s. foldl (\<lambda>s y. s @ [y]) s ys) (length ?vs)"
    and ys: "map redeemer_content ys = map redeemer_content ?vs"
    using entries_to [where es = ?vs and upd = "\<lambda>y rs. rs @ [y]" and content = redeemer_content, OF redeemer_entry] x(1) by blast
  let ?b = "enc_head MapType (length ?vs) @ b"
  have "foldl (\<lambda>s y. s @ [y]) zs ys = zs @ ys" for zs by (induction ys arbitrary: zs) simp_all
  moreover have "length ?vs < 18446744073709551616" using x(3) by simp
  ultimately have "Redeemers_fromCbor ?b = Inr ((Redeemers_new ys)\<lparr>rds_originalBytes := Some ?b\<rparr>)"
    using fields_read [OF f x(3), of root_frame "[]" StartMap "[]" "[]" "[]" False] fields_item [OF f x(3)]
      peekState_item [OF fields_item [OF f x(3)], of "[]"] map_state [of "length ?vs" b]
    by (simp add: Redeemers_fromCbor_def)
  moreover have "Redeemers_toCbor True x = Inr ?b"
    using x fields_run [OF f] by (simp add: Redeemers_toCbor_def write_all_def encode_def comp_def)
  ultimately show ?thesis using ys fields_item [OF f x(3)] by (simp add: redeemers_content_def Redeemers_new_def)
qed

lemma redeemers_as_array:
  assumes "Redeemers_valid x"
  shows "\<exists>b y. Redeemers_toCbor False x = Inr b \<and> cbor_item b \<and> Redeemers_fromCbor b = Inr y \<and>
    redeemers_content y = redeemers_content x"
proof -
  let ?vs = "rds_values x"
  obtain bs ys where bs: "emap Redeemer_toCbor ?vs = Inr bs" "\<forall>b \<in> set bs. cbor_item b" "length bs = length ?vs"
    "list_all2 (\<lambda>b y. Redeemer_fromCbor b = Inr y) bs ys" "map redeemer_content ys = map redeemer_content ?vs"
    using redeemer.encode_list [of ?vs] assms by (auto simp: Redeemers_valid_def)
  let ?b = "enc_head ArrayType (length bs) @ concat bs"
  have n: "length bs < 9007199254740992" using assms bs(3) by (simp add: Redeemers_valid_def)
  have item: "cbor_item ?b" using bs(2) n by (intro cbor_item_array) auto
  have "Redeemers_fromCbor ?b = Inr ((Redeemers_new ys)\<lparr>rds_originalBytes := Some ?b\<rparr>)"
    using bs(2,4) n peekState_item [OF item, of "[]"] array_state [of "length bs" "concat bs"]
    by (simp add: Redeemers_fromCbor_def readArrayOf_def rd_simps rd_last)
  moreover have "Redeemers_toCbor False x = Inr ?b"
    using assms bs(3) n run_objects [OF bs(1)]
    by (simp add: Redeemers_toCbor_def Redeemers_valid_def writeArrayOf_def write_all_def encode_def)
  ultimately show ?thesis using bs(5) item by (simp add: redeemers_content_def Redeemers_new_def)
qed

interpretation redeemers: caching_codec "Redeemers_toCbor conway" Redeemers_fromCbor Redeemers_valid redeemers_content
  for conway
proof (unfold_locales, goal_cases)
  case (1 x)
  then show ?case using redeemers_as_map redeemers_as_array by (cases conway) auto
next
  case (2 b y)
  then show ?case by (cases "b = []") (auto simp: Redeemers_fromCbor_def Redeemers_toCbor_def readArrayOf_def)
qed

text \<open>Before they are written as a map, redeemers for the same purpose and index are reduced to the last one.\<close>

lemma redeemersMap_keys: "distinct (map fst (redeemersMap vs))"
proof -
  have "distinct (map fst m) \<Longrightarrow> distinct (map fst (foldl (\<lambda>m (k, v). map_set k v m) m es))" for m :: "((int \<times> int) \<times> Redeemer) list" and es
    by (induction es arbitrary: m) auto
  then show ?thesis by (simp add: redeemersMap_def new_Map_def)
qed

end
