(* ===== verification/Witness_Set.thy ===== *)
theory Witness_Set
  imports Witnesses
begin

text \<open>
  The witness set of a transaction
  (\<open>core/src/Serialization/TransactionWitnessSet/TransactionWitnessSet.ts\<close>). Writing it first drops
  the signatures of a key that is already there, in the object itself: \<open>toCbor\<close> returns the bytes
  and the changed object. The function \<open>uniqWith\<close> that does so is third-party code and a parameter.
\<close>

record TransactionWitnessSet =
  ws_vkeywitnesses :: "VkeyWitness CborSet option"
  ws_nativeScripts :: "NativeScript CborSet option"
  ws_bootstrapWitnesses :: "BootstrapWitness CborSet option"
  ws_plutusV1Scripts :: "PlutusV1Script CborSet option"
  ws_plutusData :: "PlutusData CborSet option"
  ws_redeemers :: "Redeemers option"
  ws_plutusV2Scripts :: "PlutusV2Script CborSet option"
  ws_plutusV3Scripts :: "PlutusV3Script CborSet option"
  ws_originalBytes :: "bytes option"

definition TransactionWitnessSet_new :: TransactionWitnessSet where
  "TransactionWitnessSet_new = \<lparr>ws_vkeywitnesses = None, ws_nativeScripts = None, ws_bootstrapWitnesses = None,
     ws_plutusV1Scripts = None, ws_plutusData = None, ws_redeemers = None, ws_plutusV2Scripts = None,
     ws_plutusV3Scripts = None, ws_originalBytes = None\<rparr>"

subsection \<open>Setters\<close>

definition TransactionWitnessSet_setVkeys :: "VkeyWitness CborSet \<Rightarrow> TransactionWitnessSet \<Rightarrow> TransactionWitnessSet" where
  "TransactionWitnessSet_setVkeys vkeys w = w\<lparr>ws_vkeywitnesses := Some vkeys, ws_originalBytes := None\<rparr>"

definition TransactionWitnessSet_setNativeScripts :: "NativeScript CborSet \<Rightarrow> TransactionWitnessSet \<Rightarrow> TransactionWitnessSet" where
  "TransactionWitnessSet_setNativeScripts s w = w\<lparr>ws_nativeScripts := Some s, ws_originalBytes := None\<rparr>"

definition TransactionWitnessSet_setBootstraps :: "BootstrapWitness CborSet \<Rightarrow> TransactionWitnessSet \<Rightarrow> TransactionWitnessSet" where
  "TransactionWitnessSet_setBootstraps s w = w\<lparr>ws_bootstrapWitnesses := Some s, ws_originalBytes := None\<rparr>"

definition TransactionWitnessSet_setPlutusV1Scripts :: "PlutusV1Script CborSet \<Rightarrow> TransactionWitnessSet \<Rightarrow> TransactionWitnessSet" where
  "TransactionWitnessSet_setPlutusV1Scripts s w = w\<lparr>ws_plutusV1Scripts := Some s, ws_originalBytes := None\<rparr>"

definition TransactionWitnessSet_setPlutusData :: "PlutusData CborSet \<Rightarrow> TransactionWitnessSet \<Rightarrow> TransactionWitnessSet" where
  "TransactionWitnessSet_setPlutusData s w = w\<lparr>ws_plutusData := Some s, ws_originalBytes := None\<rparr>"

definition TransactionWitnessSet_setRedeemers :: "Redeemers \<Rightarrow> TransactionWitnessSet \<Rightarrow> TransactionWitnessSet" where
  "TransactionWitnessSet_setRedeemers redeemers w = w\<lparr>ws_redeemers := Some redeemers, ws_originalBytes := None\<rparr>"

definition TransactionWitnessSet_setPlutusV2Scripts :: "PlutusV2Script CborSet \<Rightarrow> TransactionWitnessSet \<Rightarrow> TransactionWitnessSet" where
  "TransactionWitnessSet_setPlutusV2Scripts s w = w\<lparr>ws_plutusV2Scripts := Some s, ws_originalBytes := None\<rparr>"

definition TransactionWitnessSet_setPlutusV3Scripts :: "PlutusV3Script CborSet \<Rightarrow> TransactionWitnessSet \<Rightarrow> TransactionWitnessSet" where
  "TransactionWitnessSet_setPlutusV3Scripts s w = w\<lparr>ws_plutusV3Scripts := Some s, ws_originalBytes := None\<rparr>"

lemmas ws_setters = TransactionWitnessSet_setVkeys_def TransactionWitnessSet_setNativeScripts_def
  TransactionWitnessSet_setBootstraps_def TransactionWitnessSet_setPlutusV1Scripts_def TransactionWitnessSet_setPlutusData_def
  TransactionWitnessSet_setRedeemers_def TransactionWitnessSet_setPlutusV2Scripts_def TransactionWitnessSet_setPlutusV3Scripts_def

subsection \<open>Writing\<close>

text \<open>\<open>uniqWith\<close> of the package lodash, as it is called here: at two types, with the comparison of keys.\<close>

record uniq_lib =
  uniq_vkeys :: "VkeyWitness list \<Rightarrow> VkeyWitness list"
  uniq_bootstraps :: "BootstrapWitness list \<Rightarrow> BootstrapWitness list"

text \<open>Its documented behaviour: the first of the elements that compare equal is kept, in order.\<close>

fun firsts :: "('a \<Rightarrow> 'k) \<Rightarrow> 'a list \<Rightarrow> 'a list" where
  "firsts key [] = []"
| "firsts key (x # xs) = x # filter (\<lambda>y. key y \<noteq> key x) (firsts key xs)"

definition uniq_ok :: "uniq_lib \<Rightarrow> bool" where
  "uniq_ok lib \<longleftrightarrow> uniq_vkeys lib = firsts vw_vkey \<and> uniq_bootstraps lib = firsts bw_vkey"

definition some_redeemers :: "Redeemers option \<Rightarrow> Redeemers option" where
  "some_redeemers x = (case x of None \<Rightarrow> None | Some rs \<Rightarrow> if 0 < Redeemers_size rs then Some rs else None)"

definition TransactionWitnessSet_getMapSize :: "TransactionWitnessSet \<Rightarrow> nat" where
  "TransactionWitnessSet_getMapSize w = present (nonempty_set (ws_vkeywitnesses w)) + present (nonempty_set (ws_nativeScripts w)) +
     present (nonempty_set (ws_bootstrapWitnesses w)) + present (nonempty_set (ws_plutusV1Scripts w)) +
     present (nonempty_set (ws_plutusData w)) + present (some_redeemers (ws_redeemers w)) +
     present (nonempty_set (ws_plutusV2Scripts w)) + present (nonempty_set (ws_plutusV3Scripts w))"

text \<open>The values of a set that is not empty are replaced.\<close>

definition dedupe :: "('a list \<Rightarrow> 'a list) \<Rightarrow> 'a CborSet option \<Rightarrow> 'a CborSet option" where
  "dedupe u x = (case nonempty_set x of None \<Rightarrow> x | Some s \<Rightarrow> Some (CborSet_setValues (u (cs_values s)) s))"

definition TransactionWitnessSet_unique :: "uniq_lib \<Rightarrow> TransactionWitnessSet \<Rightarrow> TransactionWitnessSet" where
  "TransactionWitnessSet_unique lib w = w\<lparr>ws_vkeywitnesses := dedupe (uniq_vkeys lib) (ws_vkeywitnesses w),
     ws_bootstrapWitnesses := dedupe (uniq_bootstraps lib) (ws_bootstrapWitnesses w)\<rparr>"

definition TransactionWitnessSet_fields :: "bool \<Rightarrow> TransactionWitnessSet \<Rightarrow> writer_op list" where
  "TransactionWitnessSet_fields conway w =
     writes (\<lambda>s. writeField 0 (writeObject (CborSet_toCbor conway VkeyWitness_toCbor s))) (nonempty_set (ws_vkeywitnesses w)) @
     writes (\<lambda>s. writeField 1 (writeObject (CborSet_toCbor conway NativeScript_toCbor s))) (nonempty_set (ws_nativeScripts w)) @
     writes (\<lambda>s. writeField 2 (writeObject (CborSet_toCbor conway BootstrapWitness_toCbor s))) (nonempty_set (ws_bootstrapWitnesses w)) @
     writes (\<lambda>s. writeField 3 (writeObject (CborSet_toCbor conway PlutusV1Script_toCbor s))) (nonempty_set (ws_plutusV1Scripts w)) @
     writes (\<lambda>s. writeField 4 (writeObject (CborSet_toCbor conway PlutusData_toCbor s))) (nonempty_set (ws_plutusData w)) @
     writes (\<lambda>s. writeField 5 (writeObject (Redeemers_toCbor conway s))) (some_redeemers (ws_redeemers w)) @
     writes (\<lambda>s. writeField 6 (writeObject (CborSet_toCbor conway PlutusV2Script_toCbor s))) (nonempty_set (ws_plutusV2Scripts w)) @
     writes (\<lambda>s. writeField 7 (writeObject (CborSet_toCbor conway PlutusV3Script_toCbor s))) (nonempty_set (ws_plutusV3Scripts w))"

definition TransactionWitnessSet_toCbor ::
    "uniq_lib \<Rightarrow> bool \<Rightarrow> TransactionWitnessSet \<Rightarrow> (bytes \<times> TransactionWitnessSet) result" where
  "TransactionWitnessSet_toCbor lib conway w = (case ws_originalBytes w of
       Some (b # bs) \<Rightarrow> Inr (b # bs, w)
     | _ \<Rightarrow> let u = TransactionWitnessSet_unique lib w in
         ebind (write_all (writeStartMap (Some (TransactionWitnessSet_getMapSize w)) # TransactionWitnessSet_fields conway u))
           (\<lambda>cbor. Inr (cbor, u)))"

subsection \<open>Reading\<close>

definition readWitnessField ::
    "bool \<Rightarrow> int \<Rightarrow> TransactionWitnessSet \<Rightarrow> CborReader \<Rightarrow> (TransactionWitnessSet \<times> CborReader) result" where
  "readWitnessField strict key =
     (if key = 0 then readField (readObject (CborSet_fromCbor VkeyWitness_fromCbor)) TransactionWitnessSet_setVkeys
      else if key = 1 then readField (readObject (CborSet_fromCbor NativeScript_fromCbor)) TransactionWitnessSet_setNativeScripts
      else if key = 2 then readField (readObject (CborSet_fromCbor BootstrapWitness_fromCbor)) TransactionWitnessSet_setBootstraps
      else if key = 3 then readField (readObject (CborSet_fromCbor PlutusV1Script_fromCbor)) TransactionWitnessSet_setPlutusV1Scripts
      else if key = 4 then readField (readObject (CborSet_fromCbor PlutusData_fromCbor)) TransactionWitnessSet_setPlutusData
      else if key = 5 then readField (readObject Redeemers_fromCbor) TransactionWitnessSet_setRedeemers
      else if key = 6 then readField (readObject (CborSet_fromCbor PlutusV2Script_fromCbor)) TransactionWitnessSet_setPlutusV2Scripts
      else if key = 7 then readField (readObject (CborSet_fromCbor PlutusV3Script_fromCbor)) TransactionWitnessSet_setPlutusV3Scripts
      else if strict then (\<lambda>w r. Inl SerializationError)
      else (\<lambda>w r. ebind (skipValue r) (\<lambda>r. Inr (w, r))))"

definition TransactionWitnessSet_fromCbor :: "bool \<Rightarrow> bytes \<Rightarrow> TransactionWitnessSet result" where
  "TransactionWitnessSet_fromCbor strict cbor =
     ebind (readMapWith (readKeyed (readWitnessField strict)) TransactionWitnessSet_new (new_reader cbor)) (\<lambda>(w, r).
       Inr (w\<lparr>ws_originalBytes := Some cbor\<rparr>))"

subsection \<open>Core objects\<close>

record Core_Witness =
  cw_redeemers :: "Core_Redeemer list option"
  cw_signatures :: "(bytes \<times> bytes) list"
  cw_scripts :: "Core_Script list option"
  cw_bootstrap :: "Core_BootstrapWitness list option"
  cw_datums :: "Core_PlutusData list option"

definition set_core :: "('t \<Rightarrow> 'c) \<Rightarrow> 't CborSet option \<Rightarrow> 'c list" where
  "set_core toCore x = (case x of None \<Rightarrow> [] | Some s \<Rightarrow> CborSet_toCore toCore s)"

definition TransactionWitnessSet_getCoreScripts :: "TransactionWitnessSet \<Rightarrow> Core_Script list" where
  "TransactionWitnessSet_getCoreScripts w =
     map Core_Plutus (set_core PlutusV1Script_toCore (ws_plutusV1Scripts w)) @
     map Core_Plutus (set_core PlutusV2Script_toCore (ws_plutusV2Scripts w)) @
     map Core_Plutus (set_core PlutusV3Script_toCore (ws_plutusV3Scripts w)) @
     map Core_Native (set_core NativeScript_toCore (ws_nativeScripts w))"

definition TransactionWitnessSet_toCore :: "TransactionWitnessSet \<Rightarrow> Core_Witness result" where
  "TransactionWitnessSet_toCore w =
     (let scripts = TransactionWitnessSet_getCoreScripts w in
      ebind (optional (\<lambda>s. emap PlutusData_toCore (cs_values s)) (ws_plutusData w)) (\<lambda>datums.
      ebind (optional Redeemers_toCore (some_redeemers (ws_redeemers w))) (\<lambda>redeemers.
        Inr \<lparr>cw_redeemers = redeemers, cw_signatures = new_Map (set_core VkeyWitness_toCore (ws_vkeywitnesses w)),
             cw_scripts = (if 0 < length scripts then Some scripts else None),
             cw_bootstrap = map_option (CborSet_toCore BootstrapWitness_toCore) (ws_bootstrapWitnesses w),
             cw_datums = datums\<rparr>)))"

text \<open>The scripts by language; a witness set has no place for scripts of the fourth Plutus version.\<close>

type_synonym sorted_scripts =
  "Core_NativeScript list option \<times> Core_PlutusScript list option \<times> Core_PlutusScript list option \<times> Core_PlutusScript list option"

definition sort_script :: "sorted_scripts \<Rightarrow> Core_Script \<Rightarrow> sorted_scripts result" where
  "sort_script acc script = (case acc of (native, v1, v2, v3) \<Rightarrow>
     (case script of
        Core_Native s \<Rightarrow> Inr (push_opt s native, v1, v2, v3)
      | Core_Plutus s \<Rightarrow> (case cps_version s of
          V1 \<Rightarrow> Inr (native, push_opt s v1, v2, v3)
        | V2 \<Rightarrow> Inr (native, v1, push_opt s v2, v3)
        | V3 \<Rightarrow> Inr (native, v1, v2, push_opt s v3)
        | V4 \<Rightarrow> Inl SerializationError)))"

definition TransactionWitnessSet_getCddlScripts :: "Core_Script list \<Rightarrow>
    (NativeScript CborSet option \<times> PlutusV1Script CborSet option \<times> PlutusV2Script CborSet option \<times> PlutusV3Script CborSet option) result" where
  "TransactionWitnessSet_getCddlScripts scripts =
     ebind (efoldl sort_script (None, None, None, None) scripts) (\<lambda>(native, v1, v2, v3).
     ebind (optional (CborSet_fromCoreE PlutusV1Script_fromCore) v1) (\<lambda>s1.
     ebind (optional (CborSet_fromCoreE PlutusV2Script_fromCore) v2) (\<lambda>s2.
     ebind (optional (CborSet_fromCoreE PlutusV3Script_fromCore) v3) (\<lambda>s3.
       Inr (map_option (CborSet_fromCore NativeScript_fromCore) native, s1, s2, s3)))))"

definition TransactionWitnessSet_fromCore :: "Core_Witness \<Rightarrow> TransactionWitnessSet result" where
  "TransactionWitnessSet_fromCore c =
     (let w = TransactionWitnessSet_setVkeys (CborSet_fromCore VkeyWitness_fromCore (cw_signatures c)) TransactionWitnessSet_new in
      ebind (case cw_scripts c of None \<Rightarrow> Inr w
        | Some scripts \<Rightarrow> ebind (TransactionWitnessSet_getCddlScripts scripts) (\<lambda>(native, v1, v2, v3).
            Inr (set_opt TransactionWitnessSet_setPlutusV3Scripts v3
              (set_opt TransactionWitnessSet_setPlutusV2Scripts v2
              (set_opt TransactionWitnessSet_setPlutusV1Scripts v1
              (set_opt TransactionWitnessSet_setNativeScripts native w)))))) (\<lambda>w.
      ebind (optional Redeemers_fromCore (cw_redeemers c)) (\<lambda>rs.
      ebind (optional (CborSet_fromCoreE PlutusData_fromCore) (cw_datums c)) (\<lambda>ds.
      ebind (optional (CborSet_fromCoreE BootstrapWitness_fromCore) (cw_bootstrap c)) (\<lambda>bs.
        Inr (set_opt TransactionWitnessSet_setBootstraps bs
          (set_opt TransactionWitnessSet_setPlutusData ds
          (set_opt TransactionWitnessSet_setRedeemers rs w))))))))"

subsection \<open>Witness sets are read back\<close>

record WitnessContent =
  wc_vkeywitnesses :: "(bytes \<times> bytes) list"
  wc_nativeScripts :: "Core_NativeScript list"
  wc_bootstrapWitnesses :: "Core_BootstrapWitness list"
  wc_plutusV1Scripts :: "Core_PlutusScript list"
  wc_plutusData :: "PlutusData list"
  wc_redeemers :: "((int \<times> int) \<times> PlutusData \<times> int \<times> int) list"
  wc_plutusV2Scripts :: "Core_PlutusScript list"
  wc_plutusV3Scripts :: "Core_PlutusScript list"

definition witness_content :: "TransactionWitnessSet \<Rightarrow> WitnessContent" where
  "witness_content w = \<lparr>wc_vkeywitnesses = or_empty (map_option (set_content VkeyWitness_toCore) (ws_vkeywitnesses w)),
     wc_nativeScripts = or_empty (map_option (set_content NativeScript_toCore) (ws_nativeScripts w)),
     wc_bootstrapWitnesses = or_empty (map_option (set_content BootstrapWitness_toCore) (ws_bootstrapWitnesses w)),
     wc_plutusV1Scripts = or_empty (map_option (set_content PlutusV1Script_toCore) (ws_plutusV1Scripts w)),
     wc_plutusData = or_empty (map_option (set_content PlutusData_strip) (ws_plutusData w)),
     wc_redeemers = or_empty (map_option redeemers_content (ws_redeemers w)),
     wc_plutusV2Scripts = or_empty (map_option (set_content PlutusV2Script_toCore) (ws_plutusV2Scripts w)),
     wc_plutusV3Scripts = or_empty (map_option (set_content PlutusV3Script_toCore) (ws_plutusV3Scripts w))\<rparr>"

definition TransactionWitnessSet_valid :: "TransactionWitnessSet \<Rightarrow> bool" where
  "TransactionWitnessSet_valid w \<longleftrightarrow> ws_originalBytes w = None \<and>
     pred_option (set_valid VkeyWitness_valid) (ws_vkeywitnesses w) \<and> pred_option (set_valid native_valid) (ws_nativeScripts w) \<and>
     pred_option (set_valid BootstrapWitness_valid) (ws_bootstrapWitnesses w) \<and>
     pred_option (set_valid PlutusV1Script_valid) (ws_plutusV1Scripts w) \<and> pred_option (set_valid PlutusData_ok) (ws_plutusData w) \<and>
     pred_option Redeemers_valid (ws_redeemers w) \<and> pred_option (set_valid PlutusV2Script_valid) (ws_plutusV2Scripts w) \<and>
     pred_option (set_valid PlutusV3Script_valid) (ws_plutusV3Scripts w)"

lemma witness_reads:
  "readWitnessField strict 0 = readField (readObject (CborSet_fromCbor VkeyWitness_fromCbor)) TransactionWitnessSet_setVkeys"
  "readWitnessField strict 1 = readField (readObject (CborSet_fromCbor NativeScript_fromCbor)) TransactionWitnessSet_setNativeScripts"
  "readWitnessField strict 2 = readField (readObject (CborSet_fromCbor BootstrapWitness_fromCbor)) TransactionWitnessSet_setBootstraps"
  "readWitnessField strict 3 = readField (readObject (CborSet_fromCbor PlutusV1Script_fromCbor)) TransactionWitnessSet_setPlutusV1Scripts"
  "readWitnessField strict 4 = readField (readObject (CborSet_fromCbor PlutusData_fromCbor)) TransactionWitnessSet_setPlutusData"
  "readWitnessField strict 5 = readField (readObject Redeemers_fromCbor) TransactionWitnessSet_setRedeemers"
  "readWitnessField strict 6 = readField (readObject (CborSet_fromCbor PlutusV2Script_fromCbor)) TransactionWitnessSet_setPlutusV2Scripts"
  "readWitnessField strict 7 = readField (readObject (CborSet_fromCbor PlutusV3Script_fromCbor)) TransactionWitnessSet_setPlutusV3Scripts"
  by (simp_all add: readWitnessField_def)

lemma witness_puts:
  "witness_content (TransactionWitnessSet_setVkeys x0 w) = (witness_content w)\<lparr>wc_vkeywitnesses := set_content VkeyWitness_toCore x0\<rparr>"
  "witness_content (TransactionWitnessSet_setNativeScripts x1 w) = (witness_content w)\<lparr>wc_nativeScripts := set_content NativeScript_toCore x1\<rparr>"
  "witness_content (TransactionWitnessSet_setBootstraps x2 w) = (witness_content w)\<lparr>wc_bootstrapWitnesses := set_content BootstrapWitness_toCore x2\<rparr>"
  "witness_content (TransactionWitnessSet_setPlutusV1Scripts x3 w) = (witness_content w)\<lparr>wc_plutusV1Scripts := set_content PlutusV1Script_toCore x3\<rparr>"
  "witness_content (TransactionWitnessSet_setPlutusData x4 w) = (witness_content w)\<lparr>wc_plutusData := set_content PlutusData_strip x4\<rparr>"
  "witness_content (TransactionWitnessSet_setRedeemers x5 w) = (witness_content w)\<lparr>wc_redeemers := redeemers_content x5\<rparr>"
  "witness_content (TransactionWitnessSet_setPlutusV2Scripts x6 w) = (witness_content w)\<lparr>wc_plutusV2Scripts := set_content PlutusV2Script_toCore x6\<rparr>"
  "witness_content (TransactionWitnessSet_setPlutusV3Scripts x7 w) = (witness_content w)\<lparr>wc_plutusV3Scripts := set_content PlutusV3Script_toCore x7\<rparr>"
  by (simp_all add: witness_content_def ws_setters)

lemma witness_sets:
  "wc_vkeywitnesses c = [] \<Longrightarrow> set_opt (\<lambda>x c. c\<lparr>wc_vkeywitnesses := x\<rparr>) (map_option (set_content f0) (nonempty_set y0)) c = c\<lparr>wc_vkeywitnesses := or_empty (map_option (set_content f0) y0)\<rparr>"
  "wc_nativeScripts c = [] \<Longrightarrow> set_opt (\<lambda>x c. c\<lparr>wc_nativeScripts := x\<rparr>) (map_option (set_content f1) (nonempty_set y1)) c = c\<lparr>wc_nativeScripts := or_empty (map_option (set_content f1) y1)\<rparr>"
  "wc_bootstrapWitnesses c = [] \<Longrightarrow> set_opt (\<lambda>x c. c\<lparr>wc_bootstrapWitnesses := x\<rparr>) (map_option (set_content f2) (nonempty_set y2)) c = c\<lparr>wc_bootstrapWitnesses := or_empty (map_option (set_content f2) y2)\<rparr>"
  "wc_plutusV1Scripts c = [] \<Longrightarrow> set_opt (\<lambda>x c. c\<lparr>wc_plutusV1Scripts := x\<rparr>) (map_option (set_content f3) (nonempty_set y3)) c = c\<lparr>wc_plutusV1Scripts := or_empty (map_option (set_content f3) y3)\<rparr>"
  "wc_plutusData c = [] \<Longrightarrow> set_opt (\<lambda>x c. c\<lparr>wc_plutusData := x\<rparr>) (map_option (set_content f4) (nonempty_set y4)) c = c\<lparr>wc_plutusData := or_empty (map_option (set_content f4) y4)\<rparr>"
  "wc_redeemers c = [] \<Longrightarrow> set_opt (\<lambda>x c. c\<lparr>wc_redeemers := x\<rparr>) (map_option redeemers_content (some_redeemers y5)) c = c\<lparr>wc_redeemers := or_empty (map_option redeemers_content y5)\<rparr>"
  "wc_plutusV2Scripts c = [] \<Longrightarrow> set_opt (\<lambda>x c. c\<lparr>wc_plutusV2Scripts := x\<rparr>) (map_option (set_content f6) (nonempty_set y6)) c = c\<lparr>wc_plutusV2Scripts := or_empty (map_option (set_content f6) y6)\<rparr>"
  "wc_plutusV3Scripts c = [] \<Longrightarrow> set_opt (\<lambda>x c. c\<lparr>wc_plutusV3Scripts := x\<rparr>) (map_option (set_content f7) (nonempty_set y7)) c = c\<lparr>wc_plutusV3Scripts := or_empty (map_option (set_content f7) y7)\<rparr>"
  by (cases c; auto simp: set_opt_def nonempty_set_def some_redeemers_def set_content_def redeemers_content_def CborSet_size_def
      Redeemers_size_def split: option.splits)+

lemma some_redeemers_SomeD: "some_redeemers x = Some s \<Longrightarrow> x = Some s"
  by (auto simp: some_redeemers_def split: option.splits if_splits)

lemma witness_redeemers:
  assumes "pred_option Redeemers_valid x"
  shows "fields_to (readKeyed (readWitnessField strict)) witness_content
    (writes (\<lambda>s. writeField 5 (writeObject (Redeemers_toCbor conway s))) (some_redeemers x)) (present (some_redeemers x))
    (set_opt (\<lambda>x c. c\<lparr>wc_redeemers := x\<rparr>) (map_option redeemers_content (some_redeemers x)))"
proof (rule fields_to_optional [where fld = "readWitnessField strict" and k = 5, OF witness_reads(6)])
  fix s assume "some_redeemers x = Some s"
  then have "Redeemers_valid s" using assms some_redeemers_SomeD by fastforce
  then show "\<exists>b y. field_ok (writeObject (Redeemers_toCbor conway s)) b (readObject Redeemers_fromCbor) y \<and>
      redeemers_content y = redeemers_content s"
    by (rule redeemers.field_of_object)
qed (simp_all add: witness_puts)

lemma witness_fields:
  assumes "TransactionWitnessSet_valid w"
  shows "fields_to (readKeyed (readWitnessField strict)) witness_content (TransactionWitnessSet_fields conway w)
    (TransactionWitnessSet_getMapSize w)
    (and_then (set_opt (\<lambda>x c. c\<lparr>wc_vkeywitnesses := x\<rparr>) (map_option (set_content VkeyWitness_toCore) (nonempty_set (ws_vkeywitnesses w))))
    (and_then (set_opt (\<lambda>x c. c\<lparr>wc_nativeScripts := x\<rparr>) (map_option (set_content NativeScript_toCore) (nonempty_set (ws_nativeScripts w))))
    (and_then (set_opt (\<lambda>x c. c\<lparr>wc_bootstrapWitnesses := x\<rparr>) (map_option (set_content BootstrapWitness_toCore) (nonempty_set (ws_bootstrapWitnesses w))))
    (and_then (set_opt (\<lambda>x c. c\<lparr>wc_plutusV1Scripts := x\<rparr>) (map_option (set_content PlutusV1Script_toCore) (nonempty_set (ws_plutusV1Scripts w))))
    (and_then (set_opt (\<lambda>x c. c\<lparr>wc_plutusData := x\<rparr>) (map_option (set_content PlutusData_strip) (nonempty_set (ws_plutusData w))))
    (and_then (set_opt (\<lambda>x c. c\<lparr>wc_redeemers := x\<rparr>) (map_option redeemers_content (some_redeemers (ws_redeemers w))))
    (and_then (set_opt (\<lambda>x c. c\<lparr>wc_plutusV2Scripts := x\<rparr>) (map_option (set_content PlutusV2Script_toCore) (nonempty_set (ws_plutusV2Scripts w))))
    (set_opt (\<lambda>x c. c\<lparr>wc_plutusV3Scripts := x\<rparr>) (map_option (set_content PlutusV3Script_toCore) (nonempty_set (ws_plutusV3Scripts w)))))))))))"
  using assms unfolding TransactionWitnessSet_valid_def TransactionWitnessSet_fields_def TransactionWitnessSet_getMapSize_def add.assoc
  by (intro fields_to_append cbor_codec.fields_to_set [where fld = "readWitnessField strict" and k = 0, OF vkey_witness.cbor_codec_axioms witness_reads(1)]
      cbor_codec.fields_to_set [where fld = "readWitnessField strict" and k = 1, OF native_codec witness_reads(2)]
      cbor_codec.fields_to_set [where fld = "readWitnessField strict" and k = 2, OF bootstrap_witness.cbor_codec_axioms witness_reads(3)]
      cbor_codec.fields_to_set [where fld = "readWitnessField strict" and k = 3, OF plutus_v1.cbor_codec_axioms witness_reads(4)]
      cbor_codec.fields_to_set [where fld = "readWitnessField strict" and k = 4, OF plutus_data.cbor_codec_axioms witness_reads(5)]
      witness_redeemers
      cbor_codec.fields_to_set [where fld = "readWitnessField strict" and k = 6, OF plutus_v2.cbor_codec_axioms witness_reads(7)]
      cbor_codec.fields_to_set [where fld = "readWitnessField strict" and k = 7, OF plutus_v3.cbor_codec_axioms witness_reads(8)]) (auto simp: witness_puts)

lemma witness_content_new: "witness_content TransactionWitnessSet_new = \<lparr>wc_vkeywitnesses = [], wc_nativeScripts = [],
    wc_bootstrapWitnesses = [], wc_plutusV1Scripts = [], wc_plutusData = [], wc_redeemers = [], wc_plutusV2Scripts = [],
    wc_plutusV3Scripts = []\<rparr>"
  by (simp add: witness_content_def TransactionWitnessSet_new_def)

lemma witness_written:
  assumes "TransactionWitnessSet_valid w"
  shows "\<exists>b y. write_all (writeStartMap (Some (TransactionWitnessSet_getMapSize w)) # TransactionWitnessSet_fields conway w) = Inr b \<and>
    cbor_item b \<and> b \<noteq> [] \<and> TransactionWitnessSet_fromCbor strict b = Inr y \<and> witness_content y = witness_content w \<and>
    ws_originalBytes y = Some b"
proof -
  have n: "TransactionWitnessSet_getMapSize w < 4503599627370496" by (simp add: TransactionWitnessSet_getMapSize_def)
  obtain b s' r where b: "write_all (writeStartMap (Some (TransactionWitnessSet_getMapSize w)) # TransactionWitnessSet_fields conway w) = Inr b"
    "cbor_item b" "b \<noteq> []" "readMapWith (readKeyed (readWitnessField strict)) TransactionWitnessSet_new (new_reader b) = Inr (s', r)"
    "witness_content s' = witness_content w"
    using fields_to_class [OF witness_fields [OF assms, of strict conway] n, of TransactionWitnessSet_new]
    by (simp add: witness_sets witness_content_new witness_content_def [of w]) blast
  then show ?thesis
    by (intro exI [of _ b] exI [of _ "s'\<lparr>ws_originalBytes := Some b\<rparr>"])
      (simp add: TransactionWitnessSet_fromCbor_def witness_content_def)
qed

subsection \<open>Signatures of the same key\<close>

lemma set_firsts_subset: "set (firsts key xs) \<subseteq> set xs"
  by (induction xs) auto

lemma length_firsts: "length (firsts key xs) \<le> length xs"
  by (induction xs) (auto intro: order_trans [OF length_filter_le])

lemma distinct_firsts: "distinct (map key (firsts key xs))"
  by (induction xs) (auto intro: distinct_map_filter)

lemma map_firsts:
  assumes "\<And>x. key' (f x) = key x"
  shows "map f (firsts key xs) = firsts key' (map f xs)"
proof (induction xs)
  case (Cons x xs)
  then show ?case using assms by (simp add: filter_map comp_def flip: Cons.IH)
qed simp

lemma firsts_Nil [simp]: "firsts key xs = [] \<longleftrightarrow> xs = []"
  by (cases xs) auto

lemma dedupe_valid:
  assumes "pred_option (set_valid valid) x"
  shows "pred_option (set_valid valid) (dedupe (firsts key) x)"
  using assms set_firsts_subset [of key] length_firsts [of key]
  by (fastforce simp: dedupe_def nonempty_set_def set_valid_def CborSet_setValues_def intro: le_less_trans split: option.splits)

lemma dedupe_present: "present (nonempty_set (dedupe (firsts key) x)) = present (nonempty_set x)"
  by (auto simp: dedupe_def nonempty_set_def CborSet_setValues_def CborSet_size_def split: option.splits)

lemma unique_valid:
  "uniq_ok lib \<Longrightarrow> TransactionWitnessSet_valid w \<Longrightarrow> TransactionWitnessSet_valid (TransactionWitnessSet_unique lib w)"
  by (simp add: TransactionWitnessSet_valid_def TransactionWitnessSet_unique_def uniq_ok_def dedupe_valid)

lemma unique_size:
  "uniq_ok lib \<Longrightarrow> TransactionWitnessSet_getMapSize (TransactionWitnessSet_unique lib w) = TransactionWitnessSet_getMapSize w"
  by (simp add: TransactionWitnessSet_getMapSize_def TransactionWitnessSet_unique_def uniq_ok_def dedupe_present)

lemma unique_signatures:
  assumes "uniq_ok lib"
  shows "wc_vkeywitnesses (witness_content (TransactionWitnessSet_unique lib w)) =
    firsts fst (wc_vkeywitnesses (witness_content w))"
proof -
  have "map VkeyWitness_toCore (firsts vw_vkey vs) = firsts fst (map VkeyWitness_toCore vs)" for vs
    by (rule map_firsts) (simp add: VkeyWitness_toCore_def)
  with assms show ?thesis
    by (auto simp: witness_content_def TransactionWitnessSet_unique_def uniq_ok_def dedupe_def nonempty_set_def set_content_def
        CborSet_setValues_def CborSet_size_def split: option.splits)
qed

text \<open>What is kept of the content: the first signature of each key.\<close>

definition unique_content :: "WitnessContent \<Rightarrow> WitnessContent" where
  "unique_content c = c\<lparr>wc_vkeywitnesses := firsts fst (wc_vkeywitnesses c),
     wc_bootstrapWitnesses := firsts cbw_key (wc_bootstrapWitnesses c)\<rparr>"

lemma firsts_distinct: "distinct (map key xs) \<Longrightarrow> firsts key xs = xs"
  by (induction xs) (auto intro!: filter_True simp: image_iff)

lemma unique_content_idem [simp]: "unique_content (unique_content c) = unique_content c"
  by (simp add: unique_content_def firsts_distinct distinct_firsts)

lemma unique_witness_content:
  assumes "uniq_ok lib"
  shows "witness_content (TransactionWitnessSet_unique lib w) = unique_content (witness_content w)"
proof -
  have "map BootstrapWitness_toCore (firsts bw_vkey vs) = firsts cbw_key (map BootstrapWitness_toCore vs)" for vs
    by (rule map_firsts) (simp add: BootstrapWitness_toCore_def)
  then have "wc_bootstrapWitnesses (witness_content (TransactionWitnessSet_unique lib w)) = firsts cbw_key (wc_bootstrapWitnesses (witness_content w))"
    using assms
    by (auto simp: witness_content_def TransactionWitnessSet_unique_def uniq_ok_def dedupe_def nonempty_set_def set_content_def
        CborSet_setValues_def CborSet_size_def split: option.splits)
  with unique_signatures [OF assms, of w] show ?thesis
    by (simp add: witness_content_def TransactionWitnessSet_unique_def unique_content_def)
qed

lemma witness_set_encodes:
  assumes "uniq_ok lib" and "TransactionWitnessSet_valid w"
  obtains b y where "TransactionWitnessSet_toCbor lib conway w = Inr (b, TransactionWitnessSet_unique lib w)" and "cbor_item b"
    and "TransactionWitnessSet_fromCbor strict b = Inr y" and "witness_content y = unique_content (witness_content w)"
    and "TransactionWitnessSet_toCbor lib conway y = Inr (b, y)"
proof -
  let ?u = "TransactionWitnessSet_unique lib w"
  obtain b y where b: "write_all (writeStartMap (Some (TransactionWitnessSet_getMapSize w)) # TransactionWitnessSet_fields conway ?u) = Inr b"
    "cbor_item b" "b \<noteq> []" "TransactionWitnessSet_fromCbor strict b = Inr y" "witness_content y = witness_content ?u" "ws_originalBytes y = Some b"
    using witness_written [OF unique_valid [OF assms], of conway strict] unique_size [OF assms(1)] by auto
  have "ws_originalBytes w = None" using assms(2) by (simp add: TransactionWitnessSet_valid_def)
  then have "TransactionWitnessSet_toCbor lib conway w = Inr (b, ?u)"
    using b(1) by (simp add: TransactionWitnessSet_toCbor_def)
  moreover have "TransactionWitnessSet_toCbor lib conway y = Inr (b, y)"
    using b(3,6) by (auto simp: TransactionWitnessSet_toCbor_def split: list.splits)
  ultimately show ?thesis using b(2,4,5) that unique_witness_content [OF assms(1), of w] by simp
qed

text \<open>Writing a set again after the signatures were dropped from the object gives the same bytes.\<close>

lemma dedupe_idem: "dedupe (firsts key) (dedupe (firsts key) x) = dedupe (firsts key) x"
  by (auto simp: dedupe_def nonempty_set_def CborSet_setValues_def CborSet_size_def firsts_distinct distinct_firsts split: option.splits)

lemma witness_set_again:
  assumes "uniq_ok lib" and "TransactionWitnessSet_toCbor lib conway w = Inr (b, u)"
  shows "TransactionWitnessSet_toCbor lib conway u = Inr (b, u)"
proof -
  have "TransactionWitnessSet_unique lib (TransactionWitnessSet_unique lib w) = TransactionWitnessSet_unique lib w"
    using assms(1) by (simp add: TransactionWitnessSet_unique_def uniq_ok_def dedupe_idem)
  moreover have "ws_originalBytes (TransactionWitnessSet_unique lib w) = ws_originalBytes w" by (simp add: TransactionWitnessSet_unique_def)
  ultimately show ?thesis using assms unique_size [OF assms(1), of w]
    by (auto simp: TransactionWitnessSet_toCbor_def Let_def split: option.splits list.splits elim!: ebind_InrE)
qed

subsection \<open>Properties\<close>

text \<open>C19. A witness set with any selection of signatures, scripts, datums and redeemers is written, in either
  era's encoding and whether or not unknown fields are tolerated, and read back with the same content, except
  that of several signatures of one key only the first is kept, in the bytes and in the object; the
  object that was read is written with the same bytes.\<close>

theorem witness_set_roundtrip:
  assumes "uniq_ok lib" and "TransactionWitnessSet_valid w"
  shows "\<exists>b u y. TransactionWitnessSet_toCbor lib conway w = Inr (b, u) \<and> TransactionWitnessSet_fromCbor strict b = Inr y \<and>
    witness_content y = witness_content u \<and>
    witness_content u = (witness_content w)\<lparr>wc_vkeywitnesses := firsts fst (wc_vkeywitnesses (witness_content w)),
      wc_bootstrapWitnesses := firsts cbw_key (wc_bootstrapWitnesses (witness_content w))\<rparr> \<and>
    distinct (map fst (wc_vkeywitnesses (witness_content y))) \<and>
    TransactionWitnessSet_toCbor lib conway y = Inr (b, y)"
proof -
  obtain b y where b: "TransactionWitnessSet_toCbor lib conway w = Inr (b, TransactionWitnessSet_unique lib w)"
    "TransactionWitnessSet_fromCbor strict b = Inr y" "witness_content y = unique_content (witness_content w)"
    "TransactionWitnessSet_toCbor lib conway y = Inr (b, y)" by (rule witness_set_encodes [OF assms])
  with unique_witness_content [OF assms(1), of w] distinct_firsts [of fst "wc_vkeywitnesses (witness_content w)"]
  show ?thesis by (auto simp: unique_content_def)
qed

definition example_witness :: TransactionWitnessSet where
  "example_witness = TransactionWitnessSet_setVkeys \<lparr>cs_values = [VkeyWitness_new [1] [2], VkeyWitness_new [1] [3], VkeyWitness_new [4] [5]],
       cs_originalBytes = None\<rparr>
     (TransactionWitnessSet_setRedeemers (Redeemers_new [Redeemer_new 0 0 (PlutusData (PInteger 7) None) (ExUnits_new 1 2)]) TransactionWitnessSet_new)"

theorem witness_set_roundtrip_witness:
  "\<exists>b u y. TransactionWitnessSet_toCbor \<lparr>uniq_vkeys = firsts vw_vkey, uniq_bootstraps = firsts bw_vkey\<rparr> True example_witness = Inr (b, u) \<and>
    TransactionWitnessSet_fromCbor True b = Inr y \<and> wc_vkeywitnesses (witness_content y) = [([1], [2]), ([4], [5])]"
proof -
  have "wc_vkeywitnesses (witness_content example_witness) = [([1], [2]), ([1], [3]), ([4], [5])]"
    by (simp add: witness_content_def example_witness_def ws_setters TransactionWitnessSet_new_def set_content_def VkeyWitness_toCore_def VkeyWitness_new_def)
  moreover have "uniq_ok \<lparr>uniq_vkeys = firsts vw_vkey, uniq_bootstraps = firsts bw_vkey\<rparr>" by (simp add: uniq_ok_def)
  moreover have "TransactionWitnessSet_valid example_witness"
    by (simp add: example_witness_def ws_setters TransactionWitnessSet_valid_def TransactionWitnessSet_new_def set_valid_def VkeyWitness_valid_def
        VkeyWitness_new_def Redeemers_valid_def Redeemers_new_def Redeemer_valid_def Redeemer_new_def ExUnits_valid_def ExUnits_new_def)
  ultimately show ?thesis
    using witness_set_roundtrip [of "\<lparr>uniq_vkeys = firsts vw_vkey, uniq_bootstraps = firsts bw_vkey\<rparr>" example_witness True True] by auto
qed

end
