(* ===== verification/Protocol_Params.thy ===== *)
theory Protocol_Params
  imports Witness_Set
begin

text \<open>
  Parts of protocol parameters (\<open>core/src/Serialization/Update\<close>): execution prices and voting
  thresholds. The conversion of prices to floating-point numbers is not modelled.
\<close>

abbreviation interval_content :: "UnitInterval \<Rightarrow> int \<times> int" where
  "interval_content u \<equiv> (ui_numerator u, ui_denominator u)"

subsection \<open>Execution prices\<close>

record ExUnitPrices =
  eup_memPrice :: UnitInterval
  eup_stepsPrice :: UnitInterval
  eup_originalBytes :: "bytes option"

definition ExUnitPrices_new :: "UnitInterval \<Rightarrow> UnitInterval \<Rightarrow> ExUnitPrices" where
  "ExUnitPrices_new memPrices stepsPrices = \<lparr>eup_memPrice = memPrices, eup_stepsPrice = stepsPrices, eup_originalBytes = None\<rparr>"

definition ExUnitPrices_toCbor :: "ExUnitPrices \<Rightarrow> bytes result" where
  "ExUnitPrices_toCbor p = cached (eup_originalBytes p)
     (write_all [writeStartArray (Some 2), writeObject (UnitInterval_toCbor (eup_memPrice p)),
        writeObject (UnitInterval_toCbor (eup_stepsPrice p))])"

definition ExUnitPrices_fromCbor :: "bytes \<Rightarrow> ExUnitPrices result" where
  "ExUnitPrices_fromCbor cbor =
     ebind (expectArray 2 (new_reader cbor)) (\<lambda>r.
     ebind (readObject UnitInterval_fromCbor r) (\<lambda>(memPrices, r).
     ebind (readObject UnitInterval_fromCbor r) (\<lambda>(stepPrices, r).
     ebind (readEndArray r) (\<lambda>r.
       Inr ((ExUnitPrices_new memPrices stepPrices)\<lparr>eup_originalBytes := Some cbor\<rparr>)))))"

definition ExUnitPrices_setMemPrice :: "UnitInterval \<Rightarrow> ExUnitPrices \<Rightarrow> ExUnitPrices" where
  "ExUnitPrices_setMemPrice memPrice p = p\<lparr>eup_memPrice := memPrice, eup_originalBytes := None\<rparr>"

definition ExUnitPrices_setStepsPrice :: "UnitInterval \<Rightarrow> ExUnitPrices \<Rightarrow> ExUnitPrices" where
  "ExUnitPrices_setStepsPrice stepsPrice p = p\<lparr>eup_stepsPrice := stepsPrice, eup_originalBytes := None\<rparr>"

definition ExUnitPrices_valid :: "ExUnitPrices \<Rightarrow> bool" where
  "ExUnitPrices_valid p \<longleftrightarrow> UnitInterval_valid (eup_memPrice p) \<and> UnitInterval_valid (eup_stepsPrice p) \<and> eup_originalBytes p = None"

definition prices_content :: "ExUnitPrices \<Rightarrow> (int \<times> int) \<times> int \<times> int" where
  "prices_content p = (interval_content (eup_memPrice p), interval_content (eup_stepsPrice p))"

interpretation prices: caching_codec ExUnitPrices_toCbor ExUnitPrices_fromCbor ExUnitPrices_valid prices_content
proof (unfold_locales, goal_cases)
  case (1 p)
  obtain b y where m: "UnitInterval_toCbor (eup_memPrice p) = Inr b" "cbor_item b" "UnitInterval_fromCbor b = Inr y"
    "interval_content y = interval_content (eup_memPrice p)"
    using unit_interval.encodes [of "eup_memPrice p"] 1 by (auto simp: ExUnitPrices_valid_def)
  obtain b' y' where s: "UnitInterval_toCbor (eup_stepsPrice p) = Inr b'" "cbor_item b'" "UnitInterval_fromCbor b' = Inr y'"
    "interval_content y' = interval_content (eup_stepsPrice p)"
    using unit_interval.encodes [of "eup_stepsPrice p"] 1 by (auto simp: ExUnitPrices_valid_def)
  from m s 1 show ?case
    by (simp add: ExUnitPrices_valid_def ExUnitPrices_toCbor_def ExUnitPrices_fromCbor_def ExUnitPrices_new_def prices_content_def
        writeObject_def write_all_def encode_def rd_simps readObject_rd readObject_last cbor_items)
next
  case (2 b y)
  then show ?case by (auto simp: ExUnitPrices_toCbor_def ExUnitPrices_fromCbor_def dest!: expectArray_nonempty)
qed

subsection \<open>Voting thresholds\<close>

record PoolVotingThresholds =
  pvt_motionNoConfidence :: UnitInterval
  pvt_committeeNormal :: UnitInterval
  pvt_committeeNoConfidence :: UnitInterval
  pvt_hardForkInitiation :: UnitInterval
  pvt_securityRelevantParam :: UnitInterval
  pvt_originalBytes :: "bytes option"

definition PoolVotingThresholds_new ::
    "UnitInterval \<Rightarrow> UnitInterval \<Rightarrow> UnitInterval \<Rightarrow> UnitInterval \<Rightarrow> UnitInterval \<Rightarrow> PoolVotingThresholds" where
  "PoolVotingThresholds_new motionNoConfidence committeeNormal committeeNoConfidence hardForkInitiation securityRelevantParam =
     \<lparr>pvt_motionNoConfidence = motionNoConfidence, pvt_committeeNormal = committeeNormal, pvt_committeeNoConfidence = committeeNoConfidence, pvt_hardForkInitiation = hardForkInitiation, pvt_securityRelevantParam = securityRelevantParam, pvt_originalBytes = None\<rparr>"

definition PoolVotingThresholds_toCbor :: "PoolVotingThresholds \<Rightarrow> bytes result" where
  "PoolVotingThresholds_toCbor t = cached (pvt_originalBytes t)
     (write_all [writeStartArray (Some 5),
        writeObject (UnitInterval_toCbor (pvt_motionNoConfidence t)),
        writeObject (UnitInterval_toCbor (pvt_committeeNormal t)),
        writeObject (UnitInterval_toCbor (pvt_committeeNoConfidence t)),
        writeObject (UnitInterval_toCbor (pvt_hardForkInitiation t)),
        writeObject (UnitInterval_toCbor (pvt_securityRelevantParam t))])"

definition PoolVotingThresholds_fromCbor :: "bytes \<Rightarrow> PoolVotingThresholds result" where
  "PoolVotingThresholds_fromCbor cbor =
     ebind (expectArray 5 (new_reader cbor)) (\<lambda>r.
     ebind (readObject UnitInterval_fromCbor r) (\<lambda>(motionNoConfidence, r).
     ebind (readObject UnitInterval_fromCbor r) (\<lambda>(committeeNormal, r).
     ebind (readObject UnitInterval_fromCbor r) (\<lambda>(committeeNoConfidence, r).
     ebind (readObject UnitInterval_fromCbor r) (\<lambda>(hardForkInitiation, r).
     ebind (readObject UnitInterval_fromCbor r) (\<lambda>(securityRelevantParam, r).
     ebind (readEndArray r) (\<lambda>r.
       Inr ((PoolVotingThresholds_new motionNoConfidence committeeNormal committeeNoConfidence hardForkInitiation securityRelevantParam)
         \<lparr>pvt_originalBytes := Some cbor\<rparr>))))))))"

record Core_PoolVotingThresholds =
  cpvt_committeeNoConfidence :: Core_Fraction
  cpvt_committeeNormal :: Core_Fraction
  cpvt_hardForkInitiation :: Core_Fraction
  cpvt_motionNoConfidence :: Core_Fraction
  cpvt_securityRelevantParamVotingThreshold :: Core_Fraction

definition PoolVotingThresholds_toCore :: "PoolVotingThresholds \<Rightarrow> Core_PoolVotingThresholds" where
  "PoolVotingThresholds_toCore t = \<lparr>cpvt_committeeNoConfidence = UnitInterval_toCore (pvt_committeeNoConfidence t),
     cpvt_committeeNormal = UnitInterval_toCore (pvt_committeeNormal t),
     cpvt_hardForkInitiation = UnitInterval_toCore (pvt_hardForkInitiation t),
     cpvt_motionNoConfidence = UnitInterval_toCore (pvt_motionNoConfidence t),
     cpvt_securityRelevantParamVotingThreshold = UnitInterval_toCore (pvt_securityRelevantParam t)\<rparr>"

definition PoolVotingThresholds_fromCore :: "Core_PoolVotingThresholds \<Rightarrow> PoolVotingThresholds" where
  "PoolVotingThresholds_fromCore c = PoolVotingThresholds_new
     (UnitInterval_fromCore (cpvt_motionNoConfidence c))
     (UnitInterval_fromCore (cpvt_committeeNormal c))
     (UnitInterval_fromCore (cpvt_committeeNoConfidence c))
     (UnitInterval_fromCore (cpvt_hardForkInitiation c))
     (UnitInterval_fromCore (cpvt_securityRelevantParamVotingThreshold c))"

definition PoolVotingThresholds_setMotionNoConfidence :: "UnitInterval \<Rightarrow> PoolVotingThresholds \<Rightarrow> PoolVotingThresholds" where
  "PoolVotingThresholds_setMotionNoConfidence threshold t = t\<lparr>pvt_motionNoConfidence := threshold, pvt_originalBytes := None\<rparr>"

definition PoolVotingThresholds_setCommitteeNormal :: "UnitInterval \<Rightarrow> PoolVotingThresholds \<Rightarrow> PoolVotingThresholds" where
  "PoolVotingThresholds_setCommitteeNormal threshold t = t\<lparr>pvt_committeeNormal := threshold, pvt_originalBytes := None\<rparr>"

definition PoolVotingThresholds_setCommitteeNoConfidence :: "UnitInterval \<Rightarrow> PoolVotingThresholds \<Rightarrow> PoolVotingThresholds" where
  "PoolVotingThresholds_setCommitteeNoConfidence threshold t = t\<lparr>pvt_committeeNoConfidence := threshold, pvt_originalBytes := None\<rparr>"

definition PoolVotingThresholds_setHardForkInitiation :: "UnitInterval \<Rightarrow> PoolVotingThresholds \<Rightarrow> PoolVotingThresholds" where
  "PoolVotingThresholds_setHardForkInitiation threshold t = t\<lparr>pvt_hardForkInitiation := threshold, pvt_originalBytes := None\<rparr>"

definition pvt_list :: "PoolVotingThresholds \<Rightarrow> UnitInterval list" where
  "pvt_list t = [pvt_motionNoConfidence t, pvt_committeeNormal t, pvt_committeeNoConfidence t, pvt_hardForkInitiation t, pvt_securityRelevantParam t]"

definition PoolVotingThresholds_valid :: "PoolVotingThresholds \<Rightarrow> bool" where
  "PoolVotingThresholds_valid t \<longleftrightarrow> (\<forall>u \<in> set (pvt_list t). UnitInterval_valid u) \<and> pvt_originalBytes t = None"

lemma PoolVotingThresholds_encodes:
  assumes "PoolVotingThresholds_valid t"
  shows "\<exists>b. PoolVotingThresholds_toCbor t = Inr b \<and> cbor_item b \<and>
    (\<exists>y. PoolVotingThresholds_fromCbor b = Inr y \<and> map interval_content (pvt_list y) = map interval_content (pvt_list t))"
proof -
  have len: "length (pvt_list t) = 5" by (simp add: pvt_list_def)
  obtain bs us where e: "emap UnitInterval_toCbor (pvt_list t) = Inr bs" "\<forall>b \<in> set bs. cbor_item b" "length bs = 5"
    "list_all2 (\<lambda>b y. UnitInterval_fromCbor b = Inr y) bs us" "map interval_content us = map interval_content (pvt_list t)"
    using unit_interval.encode_list [of "pvt_list t"] len assms by (auto simp: PoolVotingThresholds_valid_def)
  have "PoolVotingThresholds_toCbor t = Inr (enc_head ArrayType 5 @ concat bs)"
    using assms run_objects [OF e(1)] by (simp add: PoolVotingThresholds_toCbor_def PoolVotingThresholds_valid_def pvt_list_def write_all_def encode_def)
  moreover have "cbor_item (enc_head ArrayType 5 @ concat bs)"
    using cbor_item_array [of bs] e(2,3) by simp
  moreover obtain b0 b1 b2 b3 b4 where bs: "bs = [b0, b1, b2, b3, b4]"
    using e(3) by (auto simp: length_Suc_conv eval_nat_numeral)
  moreover obtain y0 y1 y2 y3 y4 where us: "us = [y0, y1, y2, y3, y4]"
    using e(4) bs by (auto simp: list_all2_Cons1)
  moreover have "PoolVotingThresholds_fromCbor (enc_head ArrayType 5 @ concat bs) =
      Inr ((PoolVotingThresholds_new y0 y1 y2 y3 y4)\<lparr>pvt_originalBytes := Some (enc_head ArrayType 5 @ concat bs)\<rparr>)"
    using e(2,4) bs us by (simp add: PoolVotingThresholds_fromCbor_def rd_simps rd_last readObject_rd readObject_last)
  ultimately show ?thesis using e(5) by (simp add: PoolVotingThresholds_new_def pvt_list_def)
qed

interpretation pool_thresholds: caching_codec PoolVotingThresholds_toCbor PoolVotingThresholds_fromCbor PoolVotingThresholds_valid
  "\<lambda>t. map interval_content (pvt_list t)"
proof (unfold_locales, goal_cases)
  case (2 b y)
  then show ?case by (auto simp: PoolVotingThresholds_toCbor_def PoolVotingThresholds_fromCbor_def dest!: expectArray_nonempty)
qed (rule PoolVotingThresholds_encodes)

record DrepVotingThresholds =
  dvt_motionNoConfidence :: UnitInterval
  dvt_committeeNormal :: UnitInterval
  dvt_committeeNoConfidence :: UnitInterval
  dvt_updateConstitution :: UnitInterval
  dvt_hardForkInitiation :: UnitInterval
  dvt_ppNetworkGroup :: UnitInterval
  dvt_ppEconomicGroup :: UnitInterval
  dvt_ppTechnicalGroup :: UnitInterval
  dvt_ppGovernanceGroup :: UnitInterval
  dvt_treasuryWithdrawal :: UnitInterval
  dvt_originalBytes :: "bytes option"

definition DrepVotingThresholds_new ::
    "UnitInterval \<Rightarrow> UnitInterval \<Rightarrow> UnitInterval \<Rightarrow> UnitInterval \<Rightarrow> UnitInterval \<Rightarrow> UnitInterval \<Rightarrow> UnitInterval \<Rightarrow> UnitInterval \<Rightarrow> UnitInterval \<Rightarrow> UnitInterval \<Rightarrow> DrepVotingThresholds" where
  "DrepVotingThresholds_new motionNoConfidence committeeNormal committeeNoConfidence updateConstitution hardForkInitiation ppNetworkGroup ppEconomicGroup ppTechnicalGroup ppGovernanceGroup treasuryWithdrawal =
     \<lparr>dvt_motionNoConfidence = motionNoConfidence, dvt_committeeNormal = committeeNormal, dvt_committeeNoConfidence = committeeNoConfidence, dvt_updateConstitution = updateConstitution, dvt_hardForkInitiation = hardForkInitiation, dvt_ppNetworkGroup = ppNetworkGroup, dvt_ppEconomicGroup = ppEconomicGroup, dvt_ppTechnicalGroup = ppTechnicalGroup, dvt_ppGovernanceGroup = ppGovernanceGroup, dvt_treasuryWithdrawal = treasuryWithdrawal, dvt_originalBytes = None\<rparr>"

definition DrepVotingThresholds_toCbor :: "DrepVotingThresholds \<Rightarrow> bytes result" where
  "DrepVotingThresholds_toCbor t = cached (dvt_originalBytes t)
     (write_all [writeStartArray (Some 10),
        writeObject (UnitInterval_toCbor (dvt_motionNoConfidence t)),
        writeObject (UnitInterval_toCbor (dvt_committeeNormal t)),
        writeObject (UnitInterval_toCbor (dvt_committeeNoConfidence t)),
        writeObject (UnitInterval_toCbor (dvt_updateConstitution t)),
        writeObject (UnitInterval_toCbor (dvt_hardForkInitiation t)),
        writeObject (UnitInterval_toCbor (dvt_ppNetworkGroup t)),
        writeObject (UnitInterval_toCbor (dvt_ppEconomicGroup t)),
        writeObject (UnitInterval_toCbor (dvt_ppTechnicalGroup t)),
        writeObject (UnitInterval_toCbor (dvt_ppGovernanceGroup t)),
        writeObject (UnitInterval_toCbor (dvt_treasuryWithdrawal t))])"

definition DrepVotingThresholds_fromCbor :: "bytes \<Rightarrow> DrepVotingThresholds result" where
  "DrepVotingThresholds_fromCbor cbor =
     ebind (expectArray 10 (new_reader cbor)) (\<lambda>r.
     ebind (readObject UnitInterval_fromCbor r) (\<lambda>(motionNoConfidence, r).
     ebind (readObject UnitInterval_fromCbor r) (\<lambda>(committeeNormal, r).
     ebind (readObject UnitInterval_fromCbor r) (\<lambda>(committeeNoConfidence, r).
     ebind (readObject UnitInterval_fromCbor r) (\<lambda>(updateConstitution, r).
     ebind (readObject UnitInterval_fromCbor r) (\<lambda>(hardForkInitiation, r).
     ebind (readObject UnitInterval_fromCbor r) (\<lambda>(ppNetworkGroup, r).
     ebind (readObject UnitInterval_fromCbor r) (\<lambda>(ppEconomicGroup, r).
     ebind (readObject UnitInterval_fromCbor r) (\<lambda>(ppTechnicalGroup, r).
     ebind (readObject UnitInterval_fromCbor r) (\<lambda>(ppGovernanceGroup, r).
     ebind (readObject UnitInterval_fromCbor r) (\<lambda>(treasuryWithdrawal, r).
     ebind (readEndArray r) (\<lambda>r.
       Inr ((DrepVotingThresholds_new motionNoConfidence committeeNormal committeeNoConfidence updateConstitution hardForkInitiation ppNetworkGroup ppEconomicGroup ppTechnicalGroup ppGovernanceGroup treasuryWithdrawal)
         \<lparr>dvt_originalBytes := Some cbor\<rparr>)))))))))))))"

record Core_DrepVotingThresholds =
  cdvt_committeeNoConfidence :: Core_Fraction
  cdvt_committeeNormal :: Core_Fraction
  cdvt_hardForkInitiation :: Core_Fraction
  cdvt_motionNoConfidence :: Core_Fraction
  cdvt_ppEconomicGroup :: Core_Fraction
  cdvt_ppGovernanceGroup :: Core_Fraction
  cdvt_ppNetworkGroup :: Core_Fraction
  cdvt_ppTechnicalGroup :: Core_Fraction
  cdvt_treasuryWithdrawal :: Core_Fraction
  cdvt_updateConstitution :: Core_Fraction

definition DrepVotingThresholds_toCore :: "DrepVotingThresholds \<Rightarrow> Core_DrepVotingThresholds" where
  "DrepVotingThresholds_toCore t = \<lparr>cdvt_committeeNoConfidence = UnitInterval_toCore (dvt_committeeNoConfidence t),
     cdvt_committeeNormal = UnitInterval_toCore (dvt_committeeNormal t),
     cdvt_hardForkInitiation = UnitInterval_toCore (dvt_hardForkInitiation t),
     cdvt_motionNoConfidence = UnitInterval_toCore (dvt_motionNoConfidence t),
     cdvt_ppEconomicGroup = UnitInterval_toCore (dvt_ppEconomicGroup t),
     cdvt_ppGovernanceGroup = UnitInterval_toCore (dvt_ppGovernanceGroup t),
     cdvt_ppNetworkGroup = UnitInterval_toCore (dvt_ppNetworkGroup t),
     cdvt_ppTechnicalGroup = UnitInterval_toCore (dvt_ppTechnicalGroup t),
     cdvt_treasuryWithdrawal = UnitInterval_toCore (dvt_treasuryWithdrawal t),
     cdvt_updateConstitution = UnitInterval_toCore (dvt_updateConstitution t)\<rparr>"

definition DrepVotingThresholds_fromCore :: "Core_DrepVotingThresholds \<Rightarrow> DrepVotingThresholds" where
  "DrepVotingThresholds_fromCore c = DrepVotingThresholds_new
     (UnitInterval_fromCore (cdvt_motionNoConfidence c))
     (UnitInterval_fromCore (cdvt_committeeNormal c))
     (UnitInterval_fromCore (cdvt_committeeNoConfidence c))
     (UnitInterval_fromCore (cdvt_updateConstitution c))
     (UnitInterval_fromCore (cdvt_hardForkInitiation c))
     (UnitInterval_fromCore (cdvt_ppNetworkGroup c))
     (UnitInterval_fromCore (cdvt_ppEconomicGroup c))
     (UnitInterval_fromCore (cdvt_ppTechnicalGroup c))
     (UnitInterval_fromCore (cdvt_ppGovernanceGroup c))
     (UnitInterval_fromCore (cdvt_treasuryWithdrawal c))"

definition DrepVotingThresholds_setMotionNoConfidence :: "UnitInterval \<Rightarrow> DrepVotingThresholds \<Rightarrow> DrepVotingThresholds" where
  "DrepVotingThresholds_setMotionNoConfidence threshold t = t\<lparr>dvt_motionNoConfidence := threshold, dvt_originalBytes := None\<rparr>"

definition DrepVotingThresholds_setCommitteeNormal :: "UnitInterval \<Rightarrow> DrepVotingThresholds \<Rightarrow> DrepVotingThresholds" where
  "DrepVotingThresholds_setCommitteeNormal threshold t = t\<lparr>dvt_committeeNormal := threshold, dvt_originalBytes := None\<rparr>"

definition DrepVotingThresholds_setCommitteeNoConfidence :: "UnitInterval \<Rightarrow> DrepVotingThresholds \<Rightarrow> DrepVotingThresholds" where
  "DrepVotingThresholds_setCommitteeNoConfidence threshold t = t\<lparr>dvt_committeeNoConfidence := threshold, dvt_originalBytes := None\<rparr>"

definition DrepVotingThresholds_setUpdateConstitution :: "UnitInterval \<Rightarrow> DrepVotingThresholds \<Rightarrow> DrepVotingThresholds" where
  "DrepVotingThresholds_setUpdateConstitution threshold t = t\<lparr>dvt_updateConstitution := threshold, dvt_originalBytes := None\<rparr>"

definition DrepVotingThresholds_setHardForkInitiation :: "UnitInterval \<Rightarrow> DrepVotingThresholds \<Rightarrow> DrepVotingThresholds" where
  "DrepVotingThresholds_setHardForkInitiation threshold t = t\<lparr>dvt_hardForkInitiation := threshold, dvt_originalBytes := None\<rparr>"

definition DrepVotingThresholds_setPpNetworkGroup :: "UnitInterval \<Rightarrow> DrepVotingThresholds \<Rightarrow> DrepVotingThresholds" where
  "DrepVotingThresholds_setPpNetworkGroup threshold t = t\<lparr>dvt_ppNetworkGroup := threshold, dvt_originalBytes := None\<rparr>"

definition DrepVotingThresholds_setPpEconomicGroup :: "UnitInterval \<Rightarrow> DrepVotingThresholds \<Rightarrow> DrepVotingThresholds" where
  "DrepVotingThresholds_setPpEconomicGroup threshold t = t\<lparr>dvt_ppEconomicGroup := threshold, dvt_originalBytes := None\<rparr>"

definition DrepVotingThresholds_setPpTechnicalGroup :: "UnitInterval \<Rightarrow> DrepVotingThresholds \<Rightarrow> DrepVotingThresholds" where
  "DrepVotingThresholds_setPpTechnicalGroup threshold t = t\<lparr>dvt_ppTechnicalGroup := threshold, dvt_originalBytes := None\<rparr>"

definition DrepVotingThresholds_setPpGovernanceGroup :: "UnitInterval \<Rightarrow> DrepVotingThresholds \<Rightarrow> DrepVotingThresholds" where
  "DrepVotingThresholds_setPpGovernanceGroup threshold t = t\<lparr>dvt_ppGovernanceGroup := threshold, dvt_originalBytes := None\<rparr>"

definition DrepVotingThresholds_setTreasuryWithdrawal :: "UnitInterval \<Rightarrow> DrepVotingThresholds \<Rightarrow> DrepVotingThresholds" where
  "DrepVotingThresholds_setTreasuryWithdrawal threshold t = t\<lparr>dvt_treasuryWithdrawal := threshold, dvt_originalBytes := None\<rparr>"

definition dvt_list :: "DrepVotingThresholds \<Rightarrow> UnitInterval list" where
  "dvt_list t = [dvt_motionNoConfidence t, dvt_committeeNormal t, dvt_committeeNoConfidence t, dvt_updateConstitution t, dvt_hardForkInitiation t, dvt_ppNetworkGroup t, dvt_ppEconomicGroup t, dvt_ppTechnicalGroup t, dvt_ppGovernanceGroup t, dvt_treasuryWithdrawal t]"

definition DrepVotingThresholds_valid :: "DrepVotingThresholds \<Rightarrow> bool" where
  "DrepVotingThresholds_valid t \<longleftrightarrow> (\<forall>u \<in> set (dvt_list t). UnitInterval_valid u) \<and> dvt_originalBytes t = None"

lemma DrepVotingThresholds_encodes:
  assumes "DrepVotingThresholds_valid t"
  shows "\<exists>b. DrepVotingThresholds_toCbor t = Inr b \<and> cbor_item b \<and>
    (\<exists>y. DrepVotingThresholds_fromCbor b = Inr y \<and> map interval_content (dvt_list y) = map interval_content (dvt_list t))"
proof -
  have len: "length (dvt_list t) = 10" by (simp add: dvt_list_def)
  obtain bs us where e: "emap UnitInterval_toCbor (dvt_list t) = Inr bs" "\<forall>b \<in> set bs. cbor_item b" "length bs = 10"
    "list_all2 (\<lambda>b y. UnitInterval_fromCbor b = Inr y) bs us" "map interval_content us = map interval_content (dvt_list t)"
    using unit_interval.encode_list [of "dvt_list t"] len assms by (auto simp: DrepVotingThresholds_valid_def)
  have "DrepVotingThresholds_toCbor t = Inr (enc_head ArrayType 10 @ concat bs)"
    using assms run_objects [OF e(1)] by (simp add: DrepVotingThresholds_toCbor_def DrepVotingThresholds_valid_def dvt_list_def write_all_def encode_def)
  moreover have "cbor_item (enc_head ArrayType 10 @ concat bs)"
    using cbor_item_array [of bs] e(2,3) by simp
  moreover obtain b0 b1 b2 b3 b4 b5 b6 b7 b8 b9 where bs: "bs = [b0, b1, b2, b3, b4, b5, b6, b7, b8, b9]"
    using e(3) by (auto simp: length_Suc_conv eval_nat_numeral)
  moreover obtain y0 y1 y2 y3 y4 y5 y6 y7 y8 y9 where us: "us = [y0, y1, y2, y3, y4, y5, y6, y7, y8, y9]"
    using e(4) bs by (auto simp: list_all2_Cons1)
  moreover have "DrepVotingThresholds_fromCbor (enc_head ArrayType 10 @ concat bs) =
      Inr ((DrepVotingThresholds_new y0 y1 y2 y3 y4 y5 y6 y7 y8 y9)\<lparr>dvt_originalBytes := Some (enc_head ArrayType 10 @ concat bs)\<rparr>)"
    using e(2,4) bs us by (simp add: DrepVotingThresholds_fromCbor_def rd_simps rd_last readObject_rd readObject_last)
  ultimately show ?thesis using e(5) by (simp add: DrepVotingThresholds_new_def dvt_list_def)
qed

interpretation drep_thresholds: caching_codec DrepVotingThresholds_toCbor DrepVotingThresholds_fromCbor DrepVotingThresholds_valid
  "\<lambda>t. map interval_content (dvt_list t)"
proof (unfold_locales, goal_cases)
  case (2 b y)
  then show ?case by (auto simp: DrepVotingThresholds_toCbor_def DrepVotingThresholds_fromCbor_def dest!: expectArray_nonempty)
qed (rule DrepVotingThresholds_encodes)


end
