(* ===== verification/Field_Table.thy ===== *)
theory Field_Table
  imports Cert_Fields Cbor_Fields Js_Collections
begin

text \<open>
  Classes with many numbered fields. The abstract view of such a class is a finite map from field
  numbers to the contents of the fields (\<open>table_content\<close> of a table with a row per field); each row of
  the class keeps \<open>row_ok\<close>, and \<open>table_class\<close> gives the round trip of the class from its rows.
\<close>

definition table_content :: "(int \<times> 'v option) list \<Rightarrow> int \<rightharpoonup> 'v" where
  "table_content t k = (case map_of t k of None \<Rightarrow> None | Some v \<Rightarrow> v)"

lemma table_content_Nil [simp]: "table_content [] = Map.empty"
  by (simp add: table_content_def fun_eq_iff)

lemma table_content_Cons: "table_content ((k, v) # t) = (table_content t)(k := v)"
  by (simp add: table_content_def fun_eq_iff)

text \<open>A row: what writes the field, the number of entries it makes, its number and its content.\<close>

type_synonym 'v row = "writer_op list \<times> nat \<times> int \<times> 'v option"

definition put_field :: "int \<Rightarrow> 'v \<Rightarrow> (int \<rightharpoonup> 'v) \<Rightarrow> int \<rightharpoonup> 'v" where
  "put_field k v c = c(k \<mapsto> v)"

definition row_ok :: "('s \<Rightarrow> CborReader \<Rightarrow> ('s \<times> CborReader) result) \<Rightarrow> ('s \<Rightarrow> int \<rightharpoonup> 'v) \<Rightarrow> 'v row \<Rightarrow> bool" where
  "row_ok step con row = (case row of (ops, n, k, v) \<Rightarrow> n \<le> 1 \<and> fields_to step con ops n (set_opt (put_field k) v))"

definition row_ops :: "'v row \<Rightarrow> writer_op list" where
  "row_ops = (\<lambda>(ops, n, k, v). ops)"

definition row_size :: "'v row \<Rightarrow> nat" where
  "row_size = (\<lambda>(ops, n, k, v). n)"

definition row_field :: "'v row \<Rightarrow> int \<times> 'v option" where
  "row_field = (\<lambda>(ops, n, k, v). (k, v))"

lemma row_simps [simp]: "row_ops (ops, n, k, v) = ops" "row_size (ops, n, k, v) = n" "row_field (ops, n, k, v) = (k, v)"
  by (simp_all add: row_ops_def row_size_def row_field_def)

lemma table_content_notin: "k \<notin> fst ` set t \<Longrightarrow> table_content t k = None"
  using map_of_eq_None_iff [of t k] by (simp add: table_content_def)

lemma put_rows:
  assumes "distinct (map fst t)" and "\<And>k. (k, None) \<in> set t \<Longrightarrow> c k = None"
  shows "foldl (\<lambda>c (k, v). set_opt (put_field k) v c) c t = (\<lambda>k. if k \<in> fst ` set t then table_content t k else c k)"
  using assms
proof (induction t arbitrary: c)
  case (Cons r t)
  obtain k v where r: "r = (k, v)" by (cases r)
  have c: "set_opt (put_field k) v c = c(k := v)" using Cons.prems(2) [of k] r by (cases v) (auto simp: set_opt_def put_field_def)
  have "foldl (\<lambda>c (k, v). set_opt (put_field k) v c) (c(k := v)) t = (\<lambda>x. if x \<in> fst ` set t then table_content t x else (c(k := v)) x)"
    using Cons.prems r by (intro Cons.IH) (auto simp: rev_image_eqI)
  then have "foldl (\<lambda>c (k, v). set_opt (put_field k) v c) c (r # t) = (\<lambda>x. if x \<in> fst ` set t then table_content t x else (c(k := v)) x)"
    by (simp only: foldl_Cons r c prod.case)
  also have "\<dots> = (\<lambda>x. if x \<in> fst ` set (r # t) then table_content (r # t) x else c x)"
    using r Cons.prems(1) by (auto simp: table_content_Cons fun_eq_iff)
  finally show ?case .
qed simp

lemma rows_written:
  assumes "\<forall>row \<in> set rows. row_ok step con row"
  shows "fields_to step con (concat (map row_ops rows)) (sum_list (map row_size rows))
    (\<lambda>c. foldl (\<lambda>c (k, v). set_opt (put_field k) v c) c (map row_field rows)) \<and> sum_list (map row_size rows) \<le> length rows"
  using assms
proof (induction rows)
  case Nil
  then show ?case using fields_to_Nil by simp
next
  case (Cons row rows)
  obtain ops n k v where row: "row = (ops, n, k, v)" by (cases row)
  have "fields_to step con ops n (set_opt (put_field k) v)" "n \<le> 1" using Cons.prems row by (auto simp: row_ok_def)
  moreover have "fields_to step con (concat (map row_ops rows)) (sum_list (map row_size rows))
      (\<lambda>c. foldl (\<lambda>c (k, v). set_opt (put_field k) v c) c (map row_field rows))" "sum_list (map row_size rows) \<le> length rows"
    using Cons by simp_all
  ultimately show ?case using fields_to_append row by (fastforce simp: and_then_def)
qed

text \<open>A class that is a map of rows: what is written is read back with the same content.\<close>

lemma table_class:
  assumes "\<forall>row \<in> set rows. row_ok step con row" and "length rows < 4503599627370496"
    and "distinct (map fst (map row_field rows))" and "con s = Map.empty"
  shows "\<exists>b s'. write_all (writeStartMap (Some (sum_list (map row_size rows))) # concat (map row_ops rows)) = Inr b \<and> cbor_item b \<and> b \<noteq> [] \<and>
    (\<exists>r. readMapWith step s (new_reader b) = Inr (s', r)) \<and> con s' = table_content (map row_field rows)"
proof -
  note w = rows_written [OF assms(1)]
  have "sum_list (map row_size rows) < 4503599627370496" using w assms(2) by simp
  moreover have "foldl (\<lambda>c (k, v). set_opt (put_field k) v c) (con s) (map row_field rows) = table_content (map row_field rows)"
    unfolding assms(4) using put_rows [OF assms(3), of Map.empty] table_content_notin [of _ "map row_field rows"] by (simp add: fun_eq_iff)
  ultimately show ?thesis using fields_to_class [OF conjunct1 [OF w], of s] by simp
qed

subsection \<open>Kinds of rows\<close>

definition field_row :: "int \<Rightarrow> ('a \<Rightarrow> writer_op) \<Rightarrow> ('a \<Rightarrow> 'v) \<Rightarrow> 'a option \<Rightarrow> 'v row" where
  "field_row k w content x = (writes (\<lambda>a. writeField k (w a)) x, present x, k, map_option content x)"

lemma field_row_ok:
  assumes "fld k = readField read upd" and "\<And>a. x = Some a \<Longrightarrow> \<exists>b y. field_ok (w a) b read y \<and> content y = content a"
    and "cbor_int k" and "\<And>y s. con (upd y s) = put_field k (content y) (con s)"
  shows "row_ok (readKeyed fld) con (field_row k w content x)"
proof -
  have "fields_to (readKeyed fld) con (writes (\<lambda>a. writeField k (w a)) x) (present x) (set_opt (put_field k) (map_option content x))"
    by (rule fields_to_optional [where fld = fld and k = k and w = w and upd = upd and read = "read" and content = content])
      (use assms in blast)+
  then show ?thesis unfolding row_ok_def field_row_def by simp
qed

lemma int_row:
  assumes "fld k = readField readInt upd" and "pred_option cbor_int x" and "cbor_int k"
    and "\<And>y s. con (upd y s) = put_field k (content y) (con s)"
  shows "row_ok (readKeyed fld) con (field_row k writeInt content x)"
  by (rule field_row_ok [where fld = fld and k = k, OF assms(1) _ assms(3,4)]) (use assms(2) field_int in fastforce)

lemma number_row:
  assumes "fld k = readField readNumber upd" and "pred_option (\<lambda>i. safe_int i) x" and "cbor_int k"
    and "\<And>y s. con (upd y s) = put_field k (content y) (con s)"
  shows "row_ok (readKeyed fld) con (field_row k writeInt content x)"
  by (rule field_row_ok [where fld = fld and k = k, OF assms(1) _ assms(3,4)]) (use assms(2) field_number in fastforce)

lemma hash_row:
  assumes "fld k = readField (readHash n) upd" and "pred_option (\<lambda>h. length h = n) x" and "n < 9007199254740992" and "cbor_int k"
    and "\<And>y s. con (upd y s) = put_field k (content y) (con s)"
  shows "row_ok (readKeyed fld) con (field_row k writeByteString content x)"
  by (rule field_row_ok [where fld = fld and k = k, OF assms(1) _ assms(4,5)]) (use assms(2,3) field_hash in fastforce)

context cbor_codec
begin

lemma object_row:
  assumes "fld k = readField (readObject fromCbor) upd" and "pred_option valid x" and "cbor_int k"
    and "\<And>y s. con (upd y s) = put_field k (tag (content y)) (con s)"
  shows "row_ok (readKeyed fld) con (field_row k (\<lambda>a. writeObject (toCbor a)) (\<lambda>a. tag (content a)) x)"
proof (rule field_row_ok [where fld = fld and k = k, OF assms(1) _ assms(3,4)])
  fix a assume "x = Some a"
  then have "valid a" using assms(2) by simp
  from field_of_object [OF this] obtain b y where "field_ok (writeObject (toCbor a)) b (readObject fromCbor) y" "content y = content a" by blast
  then show "\<exists>b y. field_ok (writeObject (toCbor a)) b (readObject fromCbor) y \<and> tag (content y) = tag (content a)"
    by (intro exI [of _ b] exI [of _ y]) simp
qed

end

text \<open>A check before a value is written.\<close>

definition checked :: "unit result \<Rightarrow> writer_op \<Rightarrow> writer_op" where
  "checked c op w = ebind c (\<lambda>_. op w)"

lemma checked_ok [simp]: "checked (Inr u) op = op"
  by (simp add: checked_def fun_eq_iff)

subsection \<open>Maps of entries\<close>

text \<open>
  A \<open>Map\<close> is written entry by entry and read into a new \<open>Map\<close> in the same order; its content is the
  function from keys to the contents of the values.
\<close>

definition map_content :: "('v \<Rightarrow> 'c) \<Rightarrow> ('k \<times> 'v) list \<Rightarrow> 'k \<rightharpoonup> 'c" where
  "map_content content ms k = map_option content (map_of ms k)"

lemma map_content_cong:
  assumes "map (\<lambda>e. (fst e, content (snd e))) xs = map (\<lambda>e. (fst e, content (snd e))) ys"
  shows "map_content content xs = map_content content ys"
proof -
  have "map_content content zs k = map_of (map (\<lambda>e. (fst e, content (snd e))) zs) k" for zs k
    by (induction zs) (auto simp: map_content_def)
  from this [of xs] this [of ys] assms show ?thesis by (simp add: fun_eq_iff)
qed

lemma map_content_mset:
  assumes "distinct (map fst xs)" and "mset xs = mset ys" shows "map_content content xs = map_content content ys"
proof -
  have "set xs = set ys" "distinct (map fst ys)"
    using assms mset_eq_setD [OF assms(2)] mset_eq_imp_distinct_iff [of "map fst xs" "map fst ys"] arg_cong [OF assms(2), of "image_mset fst"]
    by simp_all
  then have "map_of xs = map_of ys" using map_of_inject_set [OF assms(1)] by blast
  then show ?thesis by (simp add: map_content_def fun_eq_iff)
qed

definition writeMapOf :: "('k \<times> 'v \<Rightarrow> writer_op list) \<Rightarrow> ('k \<times> 'v) list \<Rightarrow> writer_op" where
  "writeMapOf ops ms = run_ops (writeStartMap (Some (length ms)) # concat (map ops ms))"

lemma field_map:
  assumes "\<And>e. e \<in> set ms \<Longrightarrow> \<exists>k b y. (\<forall>w. run_ops (ops e) w = Inr (w @ k @ b)) \<and> entry_ok step (k, b) (map_set (fst e) y) \<and>
      content y = content (snd e)"
    and "distinct (map fst ms)" and "length ms < 4503599627370496"
  shows "\<exists>b ys. field_ok (writeMapOf ops ms) b (readMapWith step []) ys \<and> map fst ys = map fst ms \<and>
    map_content content ys = map_content content ms"
proof -
  let ?c = "\<lambda>e. (fst e, content (snd e))"
  have entry: "\<exists>k b y. (\<forall>w. run_ops (ops e) w = Inr (w @ k @ b)) \<and> entry_ok step (k, b) (map_set (fst y) (snd y)) \<and> ?c y = ?c e"
    if "e \<in> set ms" for e
  proof -
    from assms(1) [OF that] obtain k b y where "\<forall>w. run_ops (ops e) w = Inr (w @ k @ b)" "entry_ok step (k, b) (map_set (fst e) y)"
      "content y = content (snd e)" by (elim exE conjE) (rule that)
    then show ?thesis by (intro exI [of _ k] exI [of _ b] exI [of _ "(fst e, y)"]) simp
  qed
  obtain b ys where f: "fields_ok step (concat (map ops ms)) b (\<lambda>s. foldl (\<lambda>s y. map_set (fst y) (snd y) s) s ys) (length ms)"
    and ys: "map ?c ys = map ?c ms"
    using entries_to [where es = ms and step = step and ops = ops and content = ?c and upd = "\<lambda>y. map_set (fst y) (snd y)", OF entry] by blast
  have keys: "map fst ys = map fst ms" using arg_cong [OF ys, of "map fst"] by (simp add: comp_def)
  moreover have "(\<lambda>(m :: ('a \<times> 'b) list) (k, v). map_set k v m) = (\<lambda>s y. map_set (fst y) (snd y) s)" by (simp add: fun_eq_iff)
  ultimately have "foldl (\<lambda>s y. map_set (fst y) (snd y) s) [] ys = ys"
    using foldl_map_set_fresh [of "[]" ys] assms(2) by simp
  then have "field_ok (writeMapOf ops ms) (enc_head MapType (length ms) @ b) (readMapWith step []) ys"
    using fields_run [OF f] fields_item [OF f assms(3)] fields_read [OF f assms(3)] assms(3)
    by (simp add: field_ok_def writeMapOf_def)
  with keys map_content_cong [OF ys] show ?thesis by blast
qed

text \<open>A field that is the whole of the bytes.\<close>

lemma field_whole:
  assumes "field_ok w b read y"
  shows "write_all [w] = Inr b" "cbor_item b" "b \<noteq> []" "\<exists>r. read (new_reader b) = Inr (y, r)"
proof -
  note f = field_okD [OF assms]
  show "write_all [w] = Inr b" "cbor_item b" "b \<noteq> []" using f(1,2) cbor_item_hd(1) [OF f(2)] by (simp_all add: write_all_def encode_def)
  show "\<exists>r. read (new_reader b) = Inr (y, r)" using f(3) [of root_frame "[]" "[]" "[]"] by (simp add: new_reader_rd)
qed

lemma write_all_run: "write_all [run_ops ops] = write_all ops"
  by (cases "run_ops ops []") (simp_all add: write_all_def)

lemma map_whole:
  assumes "field_ok (writeMapOf ops ms) b read y"
  shows "write_all (writeStartMap (Some (length ms)) # concat (map ops ms)) = Inr b"
  using field_whole(1) [OF assms] by (simp only: writeMapOf_def write_all_run)

end
