(* ===== verification/Cost_Models.thy ===== *)
theory Cost_Models
  imports Protocol_Params Field_Table
begin

text \<open>
  Cost models (\<open>core/src/Serialization/Update/Costmdls\<close>) with the language views that enter the
  script data hash.
\<close>

subsection \<open>Cost models\<close>

record CostModel =
  cm_language :: int
  cm_costs :: "int list"

definition CostModel_new :: "int \<Rightarrow> int list \<Rightarrow> CostModel" where
  "CostModel_new language costs = \<lparr>cm_language = language, cm_costs = costs\<rparr>"

definition CostModel_isOperationValid :: "int \<Rightarrow> bool" where
  "CostModel_isOperationValid operation \<longleftrightarrow> 0 \<le> operation"

text \<open>
  An array that is written beyond its end is extended; the elements in between are missing
  (\<open>undefined\<close>), which the writer cannot encode. They are \<open>None\<close> in the result of \<open>set\<close>.
\<close>

definition js_assign :: "nat \<Rightarrow> 'a \<Rightarrow> 'a list \<Rightarrow> 'a option list" where
  "js_assign i x xs = (if i < length xs then map Some (xs[i := x])
     else map Some xs @ replicate (i - length xs) None @ [Some x])"

definition CostModel_set :: "int \<Rightarrow> int \<Rightarrow> CostModel \<Rightarrow> int option list result" where
  "CostModel_set operation cost m =
     (if \<not> CostModel_isOperationValid operation then Inl InvalidArgumentError
      else Inr (js_assign (nat operation) cost (cm_costs m)))"

definition CostModel_get :: "int \<Rightarrow> CostModel \<Rightarrow> int option result" where
  "CostModel_get operation m =
     (if \<not> CostModel_isOperationValid operation then Inl InvalidArgumentError
      else Inr (if nat operation < length (cm_costs m) then Some (cm_costs m ! nat operation) else None))"

type_synonym models = "(int \<times> CostModel) list"

record Costmdls =
  cms_models :: models
  cms_originalBytes :: "bytes option"

definition Costmdls_new :: "models \<Rightarrow> Costmdls" where
  "Costmdls_new models = \<lparr>cms_models = models, cms_originalBytes = None\<rparr>"

text \<open>
  The entries \<open>[key, model]\<close> are compared with \<open>>\<close>, that is by their texts: the number in decimal
  notation, a comma and \<open>[object Object]\<close>.
\<close>

fun decimal :: "nat \<Rightarrow> string" where
  "decimal n = (if n < 10 then [char_of (48 + n)] else decimal (n div 10) @ [char_of (48 + n mod 10)])"

declare decimal.simps [simp del]

definition number_text :: "int \<Rightarrow> string" where
  "number_text i = (if i < 0 then ''-'' @ decimal (nat (- i)) else decimal (nat i))"

definition entry_text :: "string \<Rightarrow> nat list" where
  "entry_text key = map of_char (key @ '',[object Object]'')"

definition by_text :: "('k \<Rightarrow> string) \<Rightarrow> 'k \<times> 'v \<Rightarrow> 'k \<times> 'v \<Rightarrow> int" where
  "by_text f a b = (if ord_class.lexordp (entry_text (f (fst b))) (entry_text (f (fst a))) then 1 else - 1)"

definition writeCosts :: "int list \<Rightarrow> writer_op" where
  "writeCosts costs = run_ops (writeStartArray (Some (length costs)) # map writeInt costs)"

definition writeCostModel :: "int \<times> CostModel \<Rightarrow> writer_op list" where
  "writeCostModel e = [writeInt (fst e), writeCosts (cm_costs (snd e))]"

definition Costmdls_toCbor :: "Costmdls \<Rightarrow> bytes result" where
  "Costmdls_toCbor c = cached (cms_originalBytes c)
     (let sortedCanonically = new_Map (js_sort (by_text number_text) (cms_models c))
      in write_all (writeStartMap (Some (length sortedCanonically)) # concat (map writeCostModel sortedCanonically)))"

definition readCost :: "int list \<Rightarrow> CborReader \<Rightarrow> (int list \<times> CborReader) result" where
  "readCost costs r = ebind (readNumber r) (\<lambda>(cost, r). Inr (costs @ [cost], r))"

definition readCostModel :: "models \<Rightarrow> CborReader \<Rightarrow> (models \<times> CborReader) result" where
  "readCostModel models r =
     ebind (readNumber r) (\<lambda>(language, r).
     ebind (readArrayWith readCost [] r) (\<lambda>(costs, r).
       Inr (map_set language (CostModel_new language costs) models, r)))"

definition Costmdls_fromCbor :: "bytes \<Rightarrow> Costmdls result" where
  "Costmdls_fromCbor cbor =
     ebind (readMapWith readCostModel [] (new_reader cbor)) (\<lambda>(models, r).
       Inr ((Costmdls_new models)\<lparr>cms_originalBytes := Some cbor\<rparr>))"

definition Costmdls_toCore :: "Costmdls \<Rightarrow> (int \<times> int list) list" where
  "Costmdls_toCore c = new_Map (map (\<lambda>(key, value). (key, cm_costs value)) (cms_models c))"

definition Costmdls_fromCore :: "(int \<times> int list) list \<Rightarrow> Costmdls" where
  "Costmdls_fromCore costModels = Costmdls_new (new_Map (map (\<lambda>(key, value). (key, CostModel_new key value)) costModels))"

definition Costmdls_size :: "Costmdls \<Rightarrow> nat" where
  "Costmdls_size c = length (cms_models c)"

definition Costmdls_insert :: "CostModel \<Rightarrow> Costmdls \<Rightarrow> Costmdls" where
  "Costmdls_insert value c = \<lparr>cms_models = map_set (cm_language value) value (cms_models c), cms_originalBytes = None\<rparr>"

definition Costmdls_get :: "int \<Rightarrow> Costmdls \<Rightarrow> CostModel option" where
  "Costmdls_get key c = map_of (cms_models c) key"

definition Costmdls_keys :: "Costmdls \<Rightarrow> int list" where
  "Costmdls_keys c = map fst (cms_models c)"

text \<open>
  The language views: the key of the first Plutus version is a byte string, so it is sorted by the
  head of that encoding, and its costs are an indefinite-length list inside a byte string.
\<close>

definition view_key :: "int \<Rightarrow> int" where
  "view_key language = (if language = 0 then 0x41 else language)"

definition by_view_key :: "int \<times> CostModel \<Rightarrow> int \<times> CostModel \<Rightarrow> int" where
  "by_view_key a b = (if view_key (fst b) < view_key (fst a) then 1 else - 1)"

definition writeLanguageView :: "int \<times> CostModel \<Rightarrow> writer_op list result" where
  "writeLanguageView e =
     (if fst e = 0 then
        ebind (write_all (writeStartArray None # map writeInt (cm_costs (snd e)) @ [writeEndArray])) (\<lambda>innerCbor.
          Inr [writeByteString [0], writeByteString innerCbor])
      else if fst e \<in> {1, 2, 3} then Inr (writeCostModel e)
      else Inl InvalidStateError)"

definition Costmdls_languageViewsEncoding :: "Costmdls \<Rightarrow> bytes result" where
  "Costmdls_languageViewsEncoding c =
     (let sortedCanonically = new_Map (js_sort by_view_key (cms_models c)) in
      ebind (emap writeLanguageView sortedCanonically) (\<lambda>views.
        write_all (writeStartMap (Some (length sortedCanonically)) # concat views)))"

subsection \<open>Cost models are read back\<close>

definition costs_valid :: "int list \<Rightarrow> bool" where
  "costs_valid costs \<longleftrightarrow> (\<forall>c \<in> set costs. safe_int c) \<and> length costs < 9007199254740992"

lemma run_ints: "\<forall>c \<in> set cs. cbor_int c \<Longrightarrow> run_ops (map writeInt cs) w = Inr (w @ concat (map enc_int cs))"
  by (induction cs arbitrary: w) auto

lemma safe_cbor_int: "safe_int i \<Longrightarrow> cbor_int i"
  by (simp add: cbor_int_def)

lemma field_costs:
  assumes "costs_valid costs"
  shows "field_ok (writeCosts costs) (enc_head ArrayType (length costs) @ concat (map enc_int costs)) (readArrayWith readCost []) costs"
proof -
  have ok: "list_all2 (item_ok readCost) (map enc_int costs) (map (\<lambda>c cs. cs @ [c]) costs)"
    using assms by (auto simp: costs_valid_def list_all2_map1 list_all2_map2 list_all2_same item_ok_def readCost_def readNumber_def rd_simps
        safe_cbor_int)
  have fold: "foldl (\<lambda>s upd. upd s) zs (map (\<lambda>c cs. cs @ [c]) costs) = zs @ costs" for zs :: "int list"
    by (induction costs arbitrary: zs) simp_all
  have "\<forall>c \<in> set costs. cbor_int c" using assms safe_cbor_int by (auto simp: costs_valid_def)
  then have "writeCosts costs w = Inr (w @ enc_head ArrayType (length costs) @ concat (map enc_int costs))" for w
    using assms run_ints [of costs] by (simp add: writeCosts_def costs_valid_def)
  moreover have "cbor_item (enc_head ArrayType (length costs) @ concat (map enc_int costs))"
    using cbor_item_array [of "map enc_int costs"] items_items [OF ok] assms by (simp add: costs_valid_def)
  moreover have "readArrayWith readCost [] (rd U pre ((enc_head ArrayType (length costs) @ concat (map enc_int costs)) @ bs) fr stk False) =
      Inr (costs, rd U (pre @ enc_head ArrayType (length costs) @ concat (map enc_int costs)) bs (bumps 1 fr) stk False)"
    if "open_frame fr" for pre bs fr stk
    using readArrayWith_rd [OF ok _ that, of "[]" U pre bs stk False] fold [of "[]"] assms by (simp add: costs_valid_def)
  ultimately show ?thesis by (simp add: field_ok_def)
qed

definition costs_content :: "Costmdls \<Rightarrow> int \<rightharpoonup> int list" where
  "costs_content c = map_content cm_costs (cms_models c)"

definition models_valid :: "models \<Rightarrow> bool" where
  "models_valid ms \<longleftrightarrow> distinct (map fst ms) \<and> length ms < 4503599627370496 \<and>
     (\<forall>(k, m) \<in> set ms. safe_int k \<and> costs_valid (cm_costs m))"

definition Costmdls_valid :: "Costmdls \<Rightarrow> bool" where
  "Costmdls_valid c \<longleftrightarrow> models_valid (cms_models c) \<and> cms_originalBytes c = None"

lemma cost_model_entry:
  assumes "safe_int (fst e)" and "costs_valid (cm_costs (snd e))"
  shows "\<exists>k b y. (\<forall>w. run_ops (writeCostModel e) w = Inr (w @ k @ b)) \<and>
    entry_ok readCostModel (k, b) (map_set (fst e) y) \<and> cm_costs y = cm_costs (snd e)"
proof -
  note f = field_costs [OF assms(2)]
  let ?b = "enc_head ArrayType (length (cm_costs (snd e))) @ concat (map enc_int (cm_costs (snd e)))"
  let ?y = "CostModel_new (fst e) (cm_costs (snd e))"
  have "entry_ok readCostModel (enc_int (fst e), ?b) (map_set (fst e) ?y)"
    using assms safe_cbor_int field_okD(2) [OF f] field_okD(3) [OF f]
    by (simp add: entry_ok_def readCostModel_def readNumber_def rd_simps numeral_2_eq_2 [symmetric])
  moreover have "run_ops (writeCostModel e) w = Inr (w @ enc_int (fst e) @ ?b)" for w
    using assms(1) safe_cbor_int field_okD(1) [OF f] by (simp add: writeCostModel_def)
  moreover have "cm_costs ?y = cm_costs (snd e)" by (simp add: CostModel_new_def)
  ultimately show ?thesis by blast
qed

lemma sorted_models_valid:
  assumes "models_valid ms" and "mset ms' = mset ms"
  shows "models_valid ms'"
proof -
  have "set ms' = set ms" "length ms' = length ms" "distinct (map fst ms')"
    using assms mset_eq_setD mset_eq_length distinct_keys_mset [OF assms(2)] by (auto simp: models_valid_def)
  with assms(1) show ?thesis by (simp add: models_valid_def)
qed

interpretation cost_models: caching_codec Costmdls_toCbor Costmdls_fromCbor Costmdls_valid costs_content
proof (unfold_locales, goal_cases)
  case (1 c)
  let ?ms = "js_sort (by_text number_text) (cms_models c)"
  have v: "models_valid ?ms" by (rule sorted_models_valid [of "cms_models c"]) (use 1 in \<open>simp_all add: Costmdls_valid_def\<close>)
  then have distinct: "distinct (map fst ?ms)" and n: "length ?ms < 4503599627370496" unfolding models_valid_def by blast+
  from v have entries: "\<exists>k b y. (\<forall>w. run_ops (writeCostModel e) w = Inr (w @ k @ b)) \<and> entry_ok readCostModel (k, b) (map_set (fst e) y) \<and>
      cm_costs y = cm_costs (snd e)" if "e \<in> set ?ms" for e
    using that by (intro cost_model_entry) (auto simp: models_valid_def)
  obtain b ys where f: "field_ok (writeMapOf writeCostModel ?ms) b (readMapWith readCostModel []) ys"
    and ys: "map_content cm_costs ys = map_content cm_costs ?ms"
    using field_map [OF entries distinct n] by blast
  have "map_content cm_costs ?ms = map_content cm_costs (cms_models c)" by (rule map_content_mset [OF distinct]) simp
  moreover have "cms_originalBytes c = None" "new_Map ?ms = ?ms"
    using 1 distinct by (simp_all add: Costmdls_valid_def)
  then have "Costmdls_toCbor c = Inr b"
    using map_whole [OF f] by (simp add: Costmdls_toCbor_def Let_def)
  ultimately show ?case using field_whole(2,4) [OF f] ys
    by (auto simp: Costmdls_fromCbor_def costs_content_def Costmdls_new_def)
next
  case (2 b y)
  then show ?case by (cases "b = []") (auto simp: Costmdls_toCbor_def Costmdls_fromCbor_def)
qed

subsection \<open>Language views\<close>

interpretation view_order: comparator "\<lambda>_ :: unit. by_view_key" "\<lambda>_. True"
  by unfold_locales (simp_all add: by_view_key_def split: if_splits)

lemma view_order_antisym:
  "fst x \<in> {0..3} \<Longrightarrow> fst y \<in> {0..3} \<Longrightarrow> by_view_key x y \<le> 0 \<Longrightarrow> by_view_key y x \<le> 0 \<Longrightarrow> fst x = fst y"
  by (auto simp: by_view_key_def view_key_def split: if_splits)

lemma views_sorted_unique:
  assumes "distinct (map fst ms)" and "fst ` set ms \<subseteq> {0..3}" and "mset ms' = mset ms"
  shows "js_sort by_view_key ms' = js_sort by_view_key ms"
proof (rule sorted_wrt_unique)
  show "sorted_wrt (\<lambda>x y. by_view_key x y \<le> 0) (js_sort by_view_key ms')"
    and "sorted_wrt (\<lambda>x y. by_view_key x y \<le> 0) (js_sort by_view_key ms)"
    by (rule view_order.sorted_js_sort [OF TrueI])+
  show "mset (js_sort by_view_key ms') = mset (js_sort by_view_key ms)" using assms(3) by simp
  show "x = y" if "x \<in> set (js_sort by_view_key ms')" "y \<in> set (js_sort by_view_key ms')"
    "by_view_key x y \<le> 0" "by_view_key y x \<le> 0" for x y
  proof -
    have "x \<in> set ms" "y \<in> set ms" using that(1,2) mset_eq_setD [OF assms(3)] by simp_all
    moreover from this have "fst x = fst y" using that(3,4) assms(2) by (intro view_order_antisym) auto
    ultimately show ?thesis using assms(1) by (auto simp: distinct_map inj_on_def)
  qed
qed

lemma view_key_inj: "x \<in> {0..3} \<Longrightarrow> y \<in> {0..3} \<Longrightarrow> view_key x = view_key y \<Longrightarrow> x = y"
  by (simp add: view_key_def split: if_splits)

lemma views_order: "k \<in> {0..3} \<Longrightarrow> k \<in> {1, 2, 3, 0 :: int}"
  by auto

lemma sorted_view_keys:
  assumes "sorted_wrt (\<lambda>x y. by_view_key x y \<le> 0) ms"
  shows "sorted_wrt (\<lambda>x y. view_key x \<le> view_key y) (map fst ms)"
  using assms unfolding sorted_wrt_map
  by (rule sorted_wrt_mono_rel [rotated]) (simp add: by_view_key_def split: if_splits)

lemma filter_views: "K \<subseteq> {0..3} \<Longrightarrow> K = set (filter (\<lambda>k. k \<in> K) [1, 2, 3, 0 :: int])"
  using views_order [OF subsetD, of K] by (simp only: set_filter list.set set_eq_iff mem_Collect_eq) blast

lemma view_keys_sorted:
  assumes "distinct (map fst ms)" and "fst ` set ms \<subseteq> {0..3}"
  shows "map fst (js_sort by_view_key ms) = filter (\<lambda>k. k \<in> fst ` set ms) [1, 2, 3, 0]" (is "?keys = ?expected")
proof (rule sorted_wrt_unique [where R = "\<lambda>x y. view_key x \<le> view_key y"])
  show "sorted_wrt (\<lambda>x y. view_key x \<le> view_key y) ?keys"
    by (rule sorted_view_keys) (rule view_order.sorted_js_sort [OF TrueI])
  show "sorted_wrt (\<lambda>x y. view_key x \<le> view_key y) ?expected"
    by (rule sorted_wrt_filter) (simp add: view_key_def)
  have keys: "set ?keys = fst ` set ms" by simp
  have "distinct ?keys" "distinct ?expected" using assms(1) distinct_js_sort distinct_filter by (blast, simp)
  moreover have "set ?keys = set ?expected" unfolding keys by (rule filter_views [OF assms(2)])
  ultimately show "mset ?keys = mset ?expected" using set_eq_iff_mset_eq_distinct by blast
  show "x = y" if "x \<in> set ?keys" "y \<in> set ?keys" "view_key x \<le> view_key y" "view_key y \<le> view_key x" for x y
  proof -
    have "x \<in> {0..3}" "y \<in> {0..3}" using that(1,2) assms(2) unfolding keys by blast+
    then show ?thesis by (rule view_key_inj) (use that(3,4) in simp)
  qed
qed

text \<open>C27. The language views, which enter the hash that binds a transaction to its scripts, depend only on
  the cost models and not on the order in which they were inserted or read: the versions 2, 3 and 4
  come first and version 1, whose key is a byte string, last.\<close>

theorem language_views_canonical:
  assumes "distinct (map fst (cms_models c))" and "fst ` set (cms_models c) \<subseteq> {0..3}"
    and "mset (cms_models d) = mset (cms_models c)"
  shows "Costmdls_languageViewsEncoding d = Costmdls_languageViewsEncoding c \<and>
    map fst (js_sort by_view_key (cms_models c)) = filter (\<lambda>k. k \<in> fst ` set (cms_models c)) [1, 2, 3, 0]"
proof
  show "Costmdls_languageViewsEncoding d = Costmdls_languageViewsEncoding c"
    using views_sorted_unique [OF assms] by (simp add: Costmdls_languageViewsEncoding_def)
  show "map fst (js_sort by_view_key (cms_models c)) = filter (\<lambda>k. k \<in> fst ` set (cms_models c)) [1, 2, 3, 0]"
    by (rule view_keys_sorted [OF assms(1,2)])
qed

theorem language_views_canonical_witness:
  "Costmdls_languageViewsEncoding (Costmdls_new [(1, CostModel_new 1 [5]), (0, CostModel_new 0 [7])]) =
     Costmdls_languageViewsEncoding (Costmdls_new [(0, CostModel_new 0 [7]), (1, CostModel_new 1 [5])])"
  using language_views_canonical [of "Costmdls_new [(0, CostModel_new 0 [7]), (1, CostModel_new 1 [5])]"
      "Costmdls_new [(1, CostModel_new 1 [5]), (0, CostModel_new 0 [7])]"] by (simp add: Costmdls_new_def)

end
