(* ===== verification/Param_Update.thy ===== *)
theory Param_Update
  imports Cost_Models Field_Table
begin

text \<open>
  Proposals to change protocol parameters (\<open>core/src/Serialization/Update/ProtocolParamUpdate.ts\<close>):
  a map with a number for each of 37 optional parameters. The abstract view of a proposal is the map
  from parameter numbers to values (\<open>param_content\<close>). Values are integers and fractions; their
  conversion to floating-point numbers is not modelled.
\<close>

record ProtocolParamUpdate =
  pu_minFeeA :: "int option"
  pu_minFeeB :: "int option"
  pu_maxBlockBodySize :: "int option"
  pu_maxTxSize :: "int option"
  pu_maxBlockHeaderSize :: "int option"
  pu_keyDeposit :: "int option"
  pu_poolDeposit :: "int option"
  pu_maxEpoch :: "int option"
  pu_nOpt :: "int option"
  pu_poolPledgeInfluence :: "UnitInterval option"
  pu_expansionRate :: "UnitInterval option"
  pu_treasuryGrowthRate :: "UnitInterval option"
  pu_d :: "UnitInterval option"
  pu_extraEntropy :: "bytes option"
  pu_protocolVersion :: "ProtocolVersion option"
  pu_minPoolCost :: "int option"
  pu_adaPerUtxoByte :: "int option"
  pu_costModels :: "Costmdls option"
  pu_executionCosts :: "ExUnitPrices option"
  pu_maxTxExUnits :: "ExUnits option"
  pu_maxBlockExUnits :: "ExUnits option"
  pu_maxValueSize :: "int option"
  pu_collateralPercentage :: "int option"
  pu_maxCollateralInputs :: "int option"
  pu_poolVotingThresholds :: "PoolVotingThresholds option"
  pu_drepVotingThresholds :: "DrepVotingThresholds option"
  pu_minCommitteeSize :: "int option"
  pu_committeeTermLimit :: "int option"
  pu_governanceActionValidityPeriod :: "int option"
  pu_governanceActionDeposit :: "int option"
  pu_drepDeposit :: "int option"
  pu_drepInactivityPeriod :: "int option"
  pu_minFeeRefScriptCostPerByte :: "UnitInterval option"
  pu_maxRefScriptSizePerBlock :: "int option"
  pu_maxRefScriptSizePerTx :: "int option"
  pu_refScriptCostStride :: "int option"
  pu_refScriptCostMultiplier :: "UnitInterval option"
  pu_originalBytes :: "bytes option"

definition ProtocolParamUpdate_new :: ProtocolParamUpdate where
  "ProtocolParamUpdate_new = \<lparr>pu_minFeeA = None, pu_minFeeB = None, pu_maxBlockBodySize = None, pu_maxTxSize = None, pu_maxBlockHeaderSize = None, pu_keyDeposit = None, pu_poolDeposit = None, pu_maxEpoch = None, pu_nOpt = None, pu_poolPledgeInfluence = None, pu_expansionRate = None, pu_treasuryGrowthRate = None, pu_d = None, pu_extraEntropy = None, pu_protocolVersion = None, pu_minPoolCost = None, pu_adaPerUtxoByte = None, pu_costModels = None, pu_executionCosts = None, pu_maxTxExUnits = None, pu_maxBlockExUnits = None, pu_maxValueSize = None, pu_collateralPercentage = None, pu_maxCollateralInputs = None, pu_poolVotingThresholds = None, pu_drepVotingThresholds = None, pu_minCommitteeSize = None, pu_committeeTermLimit = None, pu_governanceActionValidityPeriod = None, pu_governanceActionDeposit = None, pu_drepDeposit = None, pu_drepInactivityPeriod = None, pu_minFeeRefScriptCostPerByte = None, pu_maxRefScriptSizePerBlock = None, pu_maxRefScriptSizePerTx = None, pu_refScriptCostStride = None, pu_refScriptCostMultiplier = None, pu_originalBytes = None\<rparr>"

definition MAX_WORD32 :: int where
  "MAX_WORD32 = 4294967295"

definition assertUint32 :: "int \<Rightarrow> unit result" where
  "assertUint32 value = (if value < 0 \<or> value > MAX_WORD32 then Inl InvalidArgumentError else Inr ())"

definition assertPositiveWord32 :: "int \<Rightarrow> unit result" where
  "assertPositiveWord32 value = (if value < 1 \<or> value > MAX_WORD32 then Inl InvalidArgumentError else Inr ())"

definition assertPositiveInterval :: "UnitInterval \<Rightarrow> unit result" where
  "assertPositiveInterval value = (if ui_numerator value < 1 \<or> ui_denominator value < 1 then Inl InvalidArgumentError else Inr ())"

text \<open>The extra entropy is an array: \<open>[0]\<close> when it is empty and \<open>[1, bytes]\<close> otherwise.\<close>

definition writeEntropy :: "bytes \<Rightarrow> writer_op" where
  "writeEntropy extraEntropy =
     (if length extraEntropy = 0 then run_ops [writeStartArray (Some 1), writeInt 0]
      else run_ops [writeStartArray (Some 2), writeInt 1, writeByteString extraEntropy])"

definition readEntropy :: "CborReader \<Rightarrow> (bytes \<times> CborReader) result" where
  "readEntropy r =
     ebind (readStartArray r) (\<lambda>(length, r).
     if length = Some 1 then
       ebind (readEncodedValue r) (\<lambda>(_, r).
       ebind (readEndArray r) (\<lambda>r. Inr ([], r)))
     else
       ebind (readEncodedValue r) (\<lambda>(_, r).
       ebind (readByteString r) (\<lambda>(extraEntropy, r).
       ebind (readEndArray r) (\<lambda>r. Inr (extraEntropy, r)))))"

definition ProtocolParamUpdate_getMapSize :: "ProtocolParamUpdate \<Rightarrow> nat" where
  "ProtocolParamUpdate_getMapSize p = sum_list
     [present (pu_minFeeA p),
      present (pu_minFeeB p),
      present (pu_maxBlockBodySize p),
      present (pu_maxTxSize p),
      present (pu_maxBlockHeaderSize p),
      present (pu_keyDeposit p),
      present (pu_poolDeposit p),
      present (pu_maxEpoch p),
      present (pu_nOpt p),
      present (pu_poolPledgeInfluence p),
      present (pu_expansionRate p),
      present (pu_treasuryGrowthRate p),
      present (pu_d p),
      present (pu_extraEntropy p),
      present (pu_protocolVersion p),
      present (pu_minPoolCost p),
      present (pu_adaPerUtxoByte p),
      present (pu_costModels p),
      present (pu_executionCosts p),
      present (pu_maxTxExUnits p),
      present (pu_maxBlockExUnits p),
      present (pu_maxValueSize p),
      present (pu_collateralPercentage p),
      present (pu_maxCollateralInputs p),
      present (pu_poolVotingThresholds p),
      present (pu_drepVotingThresholds p),
      present (pu_minCommitteeSize p),
      present (pu_committeeTermLimit p),
      present (pu_governanceActionValidityPeriod p),
      present (pu_governanceActionDeposit p),
      present (pu_drepDeposit p),
      present (pu_drepInactivityPeriod p),
      present (pu_minFeeRefScriptCostPerByte p),
      present (pu_maxRefScriptSizePerBlock p),
      present (pu_maxRefScriptSizePerTx p),
      present (pu_refScriptCostStride p),
      present (pu_refScriptCostMultiplier p)]"

definition ProtocolParamUpdate_fields :: "ProtocolParamUpdate \<Rightarrow> writer_op list" where
  "ProtocolParamUpdate_fields p = concat
     [writes (\<lambda>a. writeField 0 (writeInt a)) (pu_minFeeA p),
      writes (\<lambda>a. writeField 1 (writeInt a)) (pu_minFeeB p),
      writes (\<lambda>a. writeField 2 (writeInt a)) (pu_maxBlockBodySize p),
      writes (\<lambda>a. writeField 3 (writeInt a)) (pu_maxTxSize p),
      writes (\<lambda>a. writeField 4 (writeInt a)) (pu_maxBlockHeaderSize p),
      writes (\<lambda>a. writeField 5 (writeInt a)) (pu_keyDeposit p),
      writes (\<lambda>a. writeField 6 (writeInt a)) (pu_poolDeposit p),
      writes (\<lambda>a. writeField 7 (writeInt a)) (pu_maxEpoch p),
      writes (\<lambda>a. writeField 8 (writeInt a)) (pu_nOpt p),
      writes (\<lambda>a. writeField 9 (writeObject (UnitInterval_toCbor a))) (pu_poolPledgeInfluence p),
      writes (\<lambda>a. writeField 10 (writeObject (UnitInterval_toCbor a))) (pu_expansionRate p),
      writes (\<lambda>a. writeField 11 (writeObject (UnitInterval_toCbor a))) (pu_treasuryGrowthRate p),
      writes (\<lambda>a. writeField 12 (writeObject (UnitInterval_toCbor a))) (pu_d p),
      writes (\<lambda>a. writeField 13 (writeEntropy a)) (pu_extraEntropy p),
      writes (\<lambda>a. writeField 14 (writeObject (ProtocolVersion_toCbor a))) (pu_protocolVersion p),
      writes (\<lambda>a. writeField 16 (writeInt a)) (pu_minPoolCost p),
      writes (\<lambda>a. writeField 17 (writeInt a)) (pu_adaPerUtxoByte p),
      writes (\<lambda>a. writeField 18 (writeObject (Costmdls_toCbor a))) (pu_costModels p),
      writes (\<lambda>a. writeField 19 (writeObject (ExUnitPrices_toCbor a))) (pu_executionCosts p),
      writes (\<lambda>a. writeField 20 (writeObject (ExUnits_toCbor a))) (pu_maxTxExUnits p),
      writes (\<lambda>a. writeField 21 (writeObject (ExUnits_toCbor a))) (pu_maxBlockExUnits p),
      writes (\<lambda>a. writeField 22 (writeInt a)) (pu_maxValueSize p),
      writes (\<lambda>a. writeField 23 (writeInt a)) (pu_collateralPercentage p),
      writes (\<lambda>a. writeField 24 (writeInt a)) (pu_maxCollateralInputs p),
      writes (\<lambda>a. writeField 25 (writeObject (PoolVotingThresholds_toCbor a))) (pu_poolVotingThresholds p),
      writes (\<lambda>a. writeField 26 (writeObject (DrepVotingThresholds_toCbor a))) (pu_drepVotingThresholds p),
      writes (\<lambda>a. writeField 27 (writeInt a)) (pu_minCommitteeSize p),
      writes (\<lambda>a. writeField 28 (writeInt a)) (pu_committeeTermLimit p),
      writes (\<lambda>a. writeField 29 (writeInt a)) (pu_governanceActionValidityPeriod p),
      writes (\<lambda>a. writeField 30 (writeInt a)) (pu_governanceActionDeposit p),
      writes (\<lambda>a. writeField 31 (writeInt a)) (pu_drepDeposit p),
      writes (\<lambda>a. writeField 32 (writeInt a)) (pu_drepInactivityPeriod p),
      writes (\<lambda>a. writeField 33 (writeObject (UnitInterval_toCbor a))) (pu_minFeeRefScriptCostPerByte p),
      writes (\<lambda>a. checked (assertUint32 a) (writeField 34 (writeInt a))) (pu_maxRefScriptSizePerBlock p),
      writes (\<lambda>a. checked (assertUint32 a) (writeField 35 (writeInt a))) (pu_maxRefScriptSizePerTx p),
      writes (\<lambda>a. checked (assertPositiveWord32 a) (writeField 36 (writeInt a))) (pu_refScriptCostStride p),
      writes (\<lambda>a. checked (assertPositiveInterval a) (writeField 37 (writeObject (UnitInterval_toCbor a)))) (pu_refScriptCostMultiplier p)]"

definition ProtocolParamUpdate_toCbor :: "ProtocolParamUpdate \<Rightarrow> bytes result" where
  "ProtocolParamUpdate_toCbor p = cached (pu_originalBytes p)
     (write_all (writeStartMap (Some (ProtocolParamUpdate_getMapSize p)) # ProtocolParamUpdate_fields p))"

text \<open>An unknown number is passed over and its value is read as the next number.\<close>

definition readParam :: "int \<Rightarrow> ProtocolParamUpdate \<Rightarrow> CborReader \<Rightarrow> (ProtocolParamUpdate \<times> CborReader) result" where
  "readParam key =
     (if key = 0 then readField readInt (\<lambda>x p. p\<lparr>pu_minFeeA := Some x\<rparr>)
      else if key = 1 then readField readInt (\<lambda>x p. p\<lparr>pu_minFeeB := Some x\<rparr>)
      else if key = 2 then readField readNumber (\<lambda>x p. p\<lparr>pu_maxBlockBodySize := Some x\<rparr>)
      else if key = 3 then readField readNumber (\<lambda>x p. p\<lparr>pu_maxTxSize := Some x\<rparr>)
      else if key = 4 then readField readNumber (\<lambda>x p. p\<lparr>pu_maxBlockHeaderSize := Some x\<rparr>)
      else if key = 5 then readField readInt (\<lambda>x p. p\<lparr>pu_keyDeposit := Some x\<rparr>)
      else if key = 6 then readField readInt (\<lambda>x p. p\<lparr>pu_poolDeposit := Some x\<rparr>)
      else if key = 7 then readField readNumber (\<lambda>x p. p\<lparr>pu_maxEpoch := Some x\<rparr>)
      else if key = 8 then readField readNumber (\<lambda>x p. p\<lparr>pu_nOpt := Some x\<rparr>)
      else if key = 9 then readField (readObject UnitInterval_fromCbor) (\<lambda>x p. p\<lparr>pu_poolPledgeInfluence := Some x\<rparr>)
      else if key = 10 then readField (readObject UnitInterval_fromCbor) (\<lambda>x p. p\<lparr>pu_expansionRate := Some x\<rparr>)
      else if key = 11 then readField (readObject UnitInterval_fromCbor) (\<lambda>x p. p\<lparr>pu_treasuryGrowthRate := Some x\<rparr>)
      else if key = 12 then readField (readObject UnitInterval_fromCbor) (\<lambda>x p. p\<lparr>pu_d := Some x\<rparr>)
      else if key = 13 then readField readEntropy (\<lambda>x p. p\<lparr>pu_extraEntropy := Some x\<rparr>)
      else if key = 14 then readField (readObject ProtocolVersion_fromCbor) (\<lambda>x p. p\<lparr>pu_protocolVersion := Some x\<rparr>)
      else if key = 16 then readField readInt (\<lambda>x p. p\<lparr>pu_minPoolCost := Some x\<rparr>)
      else if key = 17 then readField readInt (\<lambda>x p. p\<lparr>pu_adaPerUtxoByte := Some x\<rparr>)
      else if key = 18 then readField (readObject Costmdls_fromCbor) (\<lambda>x p. p\<lparr>pu_costModels := Some x\<rparr>)
      else if key = 19 then readField (readObject ExUnitPrices_fromCbor) (\<lambda>x p. p\<lparr>pu_executionCosts := Some x\<rparr>)
      else if key = 20 then readField (readObject ExUnits_fromCbor) (\<lambda>x p. p\<lparr>pu_maxTxExUnits := Some x\<rparr>)
      else if key = 21 then readField (readObject ExUnits_fromCbor) (\<lambda>x p. p\<lparr>pu_maxBlockExUnits := Some x\<rparr>)
      else if key = 22 then readField readNumber (\<lambda>x p. p\<lparr>pu_maxValueSize := Some x\<rparr>)
      else if key = 23 then readField readNumber (\<lambda>x p. p\<lparr>pu_collateralPercentage := Some x\<rparr>)
      else if key = 24 then readField readNumber (\<lambda>x p. p\<lparr>pu_maxCollateralInputs := Some x\<rparr>)
      else if key = 25 then readField (readObject PoolVotingThresholds_fromCbor) (\<lambda>x p. p\<lparr>pu_poolVotingThresholds := Some x\<rparr>)
      else if key = 26 then readField (readObject DrepVotingThresholds_fromCbor) (\<lambda>x p. p\<lparr>pu_drepVotingThresholds := Some x\<rparr>)
      else if key = 27 then readField readNumber (\<lambda>x p. p\<lparr>pu_minCommitteeSize := Some x\<rparr>)
      else if key = 28 then readField readNumber (\<lambda>x p. p\<lparr>pu_committeeTermLimit := Some x\<rparr>)
      else if key = 29 then readField readNumber (\<lambda>x p. p\<lparr>pu_governanceActionValidityPeriod := Some x\<rparr>)
      else if key = 30 then readField readNumber (\<lambda>x p. p\<lparr>pu_governanceActionDeposit := Some x\<rparr>)
      else if key = 31 then readField readNumber (\<lambda>x p. p\<lparr>pu_drepDeposit := Some x\<rparr>)
      else if key = 32 then readField readNumber (\<lambda>x p. p\<lparr>pu_drepInactivityPeriod := Some x\<rparr>)
      else if key = 33 then readField (readObject UnitInterval_fromCbor) (\<lambda>x p. p\<lparr>pu_minFeeRefScriptCostPerByte := Some x\<rparr>)
      else if key = 34 then readField readNumber (\<lambda>x p. p\<lparr>pu_maxRefScriptSizePerBlock := Some x\<rparr>)
      else if key = 35 then readField readNumber (\<lambda>x p. p\<lparr>pu_maxRefScriptSizePerTx := Some x\<rparr>)
      else if key = 36 then readField readNumber (\<lambda>x p. p\<lparr>pu_refScriptCostStride := Some x\<rparr>)
      else if key = 37 then readField (readObject UnitInterval_fromCbor) (\<lambda>x p. p\<lparr>pu_refScriptCostMultiplier := Some x\<rparr>)
      else (\<lambda>p r. Inr (p, r)))"

definition ProtocolParamUpdate_fromCbor :: "bytes \<Rightarrow> ProtocolParamUpdate result" where
  "ProtocolParamUpdate_fromCbor cbor =
     ebind (readMapWith (readKeyed readParam) ProtocolParamUpdate_new (new_reader cbor)) (\<lambda>(params, r).
       Inr (params\<lparr>pu_originalBytes := Some cbor\<rparr>))"

subsection \<open>Setters\<close>

definition ProtocolParamUpdate_setMinFeeA :: "int \<Rightarrow> ProtocolParamUpdate \<Rightarrow> ProtocolParamUpdate" where
  "ProtocolParamUpdate_setMinFeeA minFeeA p = p\<lparr>pu_minFeeA := Some minFeeA\<rparr>"

definition ProtocolParamUpdate_setMinFeeB :: "int \<Rightarrow> ProtocolParamUpdate \<Rightarrow> ProtocolParamUpdate" where
  "ProtocolParamUpdate_setMinFeeB minFeeB p = p\<lparr>pu_minFeeB := Some minFeeB, pu_originalBytes := None\<rparr>"

definition ProtocolParamUpdate_setMaxBlockBodySize :: "int \<Rightarrow> ProtocolParamUpdate \<Rightarrow> ProtocolParamUpdate" where
  "ProtocolParamUpdate_setMaxBlockBodySize maxBlockBodySize p = p\<lparr>pu_maxBlockBodySize := Some maxBlockBodySize, pu_originalBytes := None\<rparr>"

definition ProtocolParamUpdate_setMaxTxSize :: "int \<Rightarrow> ProtocolParamUpdate \<Rightarrow> ProtocolParamUpdate" where
  "ProtocolParamUpdate_setMaxTxSize maxTxSize p = p\<lparr>pu_maxTxSize := Some maxTxSize, pu_originalBytes := None\<rparr>"

definition ProtocolParamUpdate_setMaxBlockHeaderSize :: "int \<Rightarrow> ProtocolParamUpdate \<Rightarrow> ProtocolParamUpdate" where
  "ProtocolParamUpdate_setMaxBlockHeaderSize maxBlockHeaderSize p = p\<lparr>pu_maxBlockHeaderSize := Some maxBlockHeaderSize, pu_originalBytes := None\<rparr>"

definition ProtocolParamUpdate_setKeyDeposit :: "int \<Rightarrow> ProtocolParamUpdate \<Rightarrow> ProtocolParamUpdate" where
  "ProtocolParamUpdate_setKeyDeposit keyDeposit p = p\<lparr>pu_keyDeposit := Some keyDeposit, pu_originalBytes := None\<rparr>"

definition ProtocolParamUpdate_setPoolDeposit :: "int \<Rightarrow> ProtocolParamUpdate \<Rightarrow> ProtocolParamUpdate" where
  "ProtocolParamUpdate_setPoolDeposit poolDeposit p = p\<lparr>pu_poolDeposit := Some poolDeposit, pu_originalBytes := None\<rparr>"

definition ProtocolParamUpdate_setMaxEpoch :: "int \<Rightarrow> ProtocolParamUpdate \<Rightarrow> ProtocolParamUpdate" where
  "ProtocolParamUpdate_setMaxEpoch maxEpoch p = p\<lparr>pu_maxEpoch := Some maxEpoch, pu_originalBytes := None\<rparr>"

definition ProtocolParamUpdate_setNOpt :: "int \<Rightarrow> ProtocolParamUpdate \<Rightarrow> ProtocolParamUpdate" where
  "ProtocolParamUpdate_setNOpt nOpt p = p\<lparr>pu_nOpt := Some nOpt, pu_originalBytes := None\<rparr>"

definition ProtocolParamUpdate_setPoolPledgeInfluence :: "UnitInterval \<Rightarrow> ProtocolParamUpdate \<Rightarrow> ProtocolParamUpdate" where
  "ProtocolParamUpdate_setPoolPledgeInfluence poolPledgeInfluence p = p\<lparr>pu_poolPledgeInfluence := Some poolPledgeInfluence, pu_originalBytes := None\<rparr>"

definition ProtocolParamUpdate_setExpansionRate :: "UnitInterval \<Rightarrow> ProtocolParamUpdate \<Rightarrow> ProtocolParamUpdate" where
  "ProtocolParamUpdate_setExpansionRate expansionRate p = p\<lparr>pu_expansionRate := Some expansionRate, pu_originalBytes := None\<rparr>"

definition ProtocolParamUpdate_setTreasuryGrowthRate :: "UnitInterval \<Rightarrow> ProtocolParamUpdate \<Rightarrow> ProtocolParamUpdate" where
  "ProtocolParamUpdate_setTreasuryGrowthRate treasuryGrowthRate p = p\<lparr>pu_treasuryGrowthRate := Some treasuryGrowthRate, pu_originalBytes := None\<rparr>"

definition ProtocolParamUpdate_setD :: "UnitInterval \<Rightarrow> ProtocolParamUpdate \<Rightarrow> ProtocolParamUpdate" where
  "ProtocolParamUpdate_setD d p = p\<lparr>pu_d := Some d, pu_originalBytes := None\<rparr>"

definition ProtocolParamUpdate_setExtraEntropy :: "bytes \<Rightarrow> ProtocolParamUpdate \<Rightarrow> ProtocolParamUpdate" where
  "ProtocolParamUpdate_setExtraEntropy extraEntropy p = p\<lparr>pu_extraEntropy := Some extraEntropy, pu_originalBytes := None\<rparr>"

definition ProtocolParamUpdate_setProtocolVersion :: "ProtocolVersion \<Rightarrow> ProtocolParamUpdate \<Rightarrow> ProtocolParamUpdate" where
  "ProtocolParamUpdate_setProtocolVersion protocolVersion p = p\<lparr>pu_protocolVersion := Some protocolVersion, pu_originalBytes := None\<rparr>"

definition ProtocolParamUpdate_setMinPoolCost :: "int \<Rightarrow> ProtocolParamUpdate \<Rightarrow> ProtocolParamUpdate" where
  "ProtocolParamUpdate_setMinPoolCost minPoolCost p = p\<lparr>pu_minPoolCost := Some minPoolCost, pu_originalBytes := None\<rparr>"

definition ProtocolParamUpdate_setAdaPerUtxoByte :: "int \<Rightarrow> ProtocolParamUpdate \<Rightarrow> ProtocolParamUpdate" where
  "ProtocolParamUpdate_setAdaPerUtxoByte adaPerUtxoByte p = p\<lparr>pu_adaPerUtxoByte := Some adaPerUtxoByte, pu_originalBytes := None\<rparr>"

definition ProtocolParamUpdate_setCostModels :: "Costmdls \<Rightarrow> ProtocolParamUpdate \<Rightarrow> ProtocolParamUpdate" where
  "ProtocolParamUpdate_setCostModels costModels p = p\<lparr>pu_costModels := Some costModels, pu_originalBytes := None\<rparr>"

definition ProtocolParamUpdate_setExecutionCosts :: "ExUnitPrices \<Rightarrow> ProtocolParamUpdate \<Rightarrow> ProtocolParamUpdate" where
  "ProtocolParamUpdate_setExecutionCosts executionCosts p = p\<lparr>pu_executionCosts := Some executionCosts, pu_originalBytes := None\<rparr>"

definition ProtocolParamUpdate_setMaxTxExUnits :: "ExUnits \<Rightarrow> ProtocolParamUpdate \<Rightarrow> ProtocolParamUpdate" where
  "ProtocolParamUpdate_setMaxTxExUnits maxTxExUnits p = p\<lparr>pu_maxTxExUnits := Some maxTxExUnits, pu_originalBytes := None\<rparr>"

definition ProtocolParamUpdate_setMaxBlockExUnits :: "ExUnits \<Rightarrow> ProtocolParamUpdate \<Rightarrow> ProtocolParamUpdate" where
  "ProtocolParamUpdate_setMaxBlockExUnits maxBlockExUnits p = p\<lparr>pu_maxBlockExUnits := Some maxBlockExUnits, pu_originalBytes := None\<rparr>"

definition ProtocolParamUpdate_setMaxValueSize :: "int \<Rightarrow> ProtocolParamUpdate \<Rightarrow> ProtocolParamUpdate" where
  "ProtocolParamUpdate_setMaxValueSize maxValueSize p = p\<lparr>pu_maxValueSize := Some maxValueSize, pu_originalBytes := None\<rparr>"

definition ProtocolParamUpdate_setCollateralPercentage :: "int \<Rightarrow> ProtocolParamUpdate \<Rightarrow> ProtocolParamUpdate" where
  "ProtocolParamUpdate_setCollateralPercentage collateralPercentage p = p\<lparr>pu_collateralPercentage := Some collateralPercentage, pu_originalBytes := None\<rparr>"

definition ProtocolParamUpdate_setMaxCollateralInputs :: "int \<Rightarrow> ProtocolParamUpdate \<Rightarrow> ProtocolParamUpdate" where
  "ProtocolParamUpdate_setMaxCollateralInputs maxCollateralInputs p = p\<lparr>pu_maxCollateralInputs := Some maxCollateralInputs, pu_originalBytes := None\<rparr>"

definition ProtocolParamUpdate_setPoolVotingThresholds :: "PoolVotingThresholds \<Rightarrow> ProtocolParamUpdate \<Rightarrow> ProtocolParamUpdate" where
  "ProtocolParamUpdate_setPoolVotingThresholds poolVotingThresholds p = p\<lparr>pu_poolVotingThresholds := Some poolVotingThresholds, pu_originalBytes := None\<rparr>"

definition ProtocolParamUpdate_setDrepVotingThresholds :: "DrepVotingThresholds \<Rightarrow> ProtocolParamUpdate \<Rightarrow> ProtocolParamUpdate" where
  "ProtocolParamUpdate_setDrepVotingThresholds drepVotingThresholds p = p\<lparr>pu_drepVotingThresholds := Some drepVotingThresholds, pu_originalBytes := None\<rparr>"

definition ProtocolParamUpdate_setMinCommitteeSize :: "int \<Rightarrow> ProtocolParamUpdate \<Rightarrow> ProtocolParamUpdate" where
  "ProtocolParamUpdate_setMinCommitteeSize minCommitteeSize p = p\<lparr>pu_minCommitteeSize := Some minCommitteeSize, pu_originalBytes := None\<rparr>"

definition ProtocolParamUpdate_setCommitteeTermLimit :: "int \<Rightarrow> ProtocolParamUpdate \<Rightarrow> ProtocolParamUpdate" where
  "ProtocolParamUpdate_setCommitteeTermLimit committeeTermLimit p = p\<lparr>pu_committeeTermLimit := Some committeeTermLimit, pu_originalBytes := None\<rparr>"

definition ProtocolParamUpdate_setGovernanceActionValidityPeriod :: "int \<Rightarrow> ProtocolParamUpdate \<Rightarrow> ProtocolParamUpdate" where
  "ProtocolParamUpdate_setGovernanceActionValidityPeriod governanceActionValidityPeriod p = p\<lparr>pu_governanceActionValidityPeriod := Some governanceActionValidityPeriod, pu_originalBytes := None\<rparr>"

definition ProtocolParamUpdate_setGovernanceActionDeposit :: "int \<Rightarrow> ProtocolParamUpdate \<Rightarrow> ProtocolParamUpdate" where
  "ProtocolParamUpdate_setGovernanceActionDeposit governanceActionDeposit p = p\<lparr>pu_governanceActionDeposit := Some governanceActionDeposit, pu_originalBytes := None\<rparr>"

definition ProtocolParamUpdate_setDrepDeposit :: "int \<Rightarrow> ProtocolParamUpdate \<Rightarrow> ProtocolParamUpdate" where
  "ProtocolParamUpdate_setDrepDeposit drepDeposit p = p\<lparr>pu_drepDeposit := Some drepDeposit, pu_originalBytes := None\<rparr>"

definition ProtocolParamUpdate_setDrepInactivityPeriod :: "int \<Rightarrow> ProtocolParamUpdate \<Rightarrow> ProtocolParamUpdate" where
  "ProtocolParamUpdate_setDrepInactivityPeriod drepInactivityPeriod p = p\<lparr>pu_drepInactivityPeriod := Some drepInactivityPeriod, pu_originalBytes := None\<rparr>"

definition ProtocolParamUpdate_setMaxRefScriptSizePerBlock :: "int \<Rightarrow> ProtocolParamUpdate \<Rightarrow> ProtocolParamUpdate result" where
  "ProtocolParamUpdate_setMaxRefScriptSizePerBlock maxRefScriptSizePerBlock p =
     ebind (assertUint32 maxRefScriptSizePerBlock) (\<lambda>_. Inr (p\<lparr>pu_maxRefScriptSizePerBlock := Some maxRefScriptSizePerBlock, pu_originalBytes := None\<rparr>))"

definition ProtocolParamUpdate_setMaxRefScriptSizePerTx :: "int \<Rightarrow> ProtocolParamUpdate \<Rightarrow> ProtocolParamUpdate result" where
  "ProtocolParamUpdate_setMaxRefScriptSizePerTx maxRefScriptSizePerTx p =
     ebind (assertUint32 maxRefScriptSizePerTx) (\<lambda>_. Inr (p\<lparr>pu_maxRefScriptSizePerTx := Some maxRefScriptSizePerTx, pu_originalBytes := None\<rparr>))"

definition ProtocolParamUpdate_setRefScriptCostStride :: "int \<Rightarrow> ProtocolParamUpdate \<Rightarrow> ProtocolParamUpdate result" where
  "ProtocolParamUpdate_setRefScriptCostStride refScriptCostStride p =
     ebind (assertPositiveWord32 refScriptCostStride) (\<lambda>_. Inr (p\<lparr>pu_refScriptCostStride := Some refScriptCostStride, pu_originalBytes := None\<rparr>))"

definition ProtocolParamUpdate_setRefScriptCostMultiplier :: "UnitInterval \<Rightarrow> ProtocolParamUpdate \<Rightarrow> ProtocolParamUpdate result" where
  "ProtocolParamUpdate_setRefScriptCostMultiplier refScriptCostMultiplier p =
     ebind (assertPositiveInterval refScriptCostMultiplier) (\<lambda>_. Inr (p\<lparr>pu_refScriptCostMultiplier := Some refScriptCostMultiplier, pu_originalBytes := None\<rparr>))"

subsection \<open>The content of a proposal\<close>

abbreviation units_content :: "ExUnits \<Rightarrow> int \<times> int" where
  "units_content u \<equiv> (eu_mem u, eu_steps u)"

abbreviation version_content :: "ProtocolVersion \<Rightarrow> int \<times> int" where
  "version_content v \<equiv> (pv_major v, pv_minor v)"

abbreviation pool_thresholds_content :: "PoolVotingThresholds \<Rightarrow> (int \<times> int) list" where
  "pool_thresholds_content t \<equiv> map interval_content (pvt_list t)"

abbreviation drep_thresholds_content :: "DrepVotingThresholds \<Rightarrow> (int \<times> int) list" where
  "drep_thresholds_content t \<equiv> map interval_content (dvt_list t)"

datatype param_value = Quantity int | Ratio "int \<times> int" | Entropy bytes | Version "int \<times> int" | Costs "int \<rightharpoonup> int list"
  | Prices "(int \<times> int) \<times> int \<times> int" | Units "int \<times> int" | Thresholds "(int \<times> int) list"

definition param_rows :: "ProtocolParamUpdate \<Rightarrow> param_value row list" where
  "param_rows p =
     [field_row 0 writeInt Quantity (pu_minFeeA p),
      field_row 1 writeInt Quantity (pu_minFeeB p),
      field_row 2 writeInt Quantity (pu_maxBlockBodySize p),
      field_row 3 writeInt Quantity (pu_maxTxSize p),
      field_row 4 writeInt Quantity (pu_maxBlockHeaderSize p),
      field_row 5 writeInt Quantity (pu_keyDeposit p),
      field_row 6 writeInt Quantity (pu_poolDeposit p),
      field_row 7 writeInt Quantity (pu_maxEpoch p),
      field_row 8 writeInt Quantity (pu_nOpt p),
      field_row 9 (\<lambda>a. writeObject (UnitInterval_toCbor a)) (\<lambda>a. Ratio (interval_content a)) (pu_poolPledgeInfluence p),
      field_row 10 (\<lambda>a. writeObject (UnitInterval_toCbor a)) (\<lambda>a. Ratio (interval_content a)) (pu_expansionRate p),
      field_row 11 (\<lambda>a. writeObject (UnitInterval_toCbor a)) (\<lambda>a. Ratio (interval_content a)) (pu_treasuryGrowthRate p),
      field_row 12 (\<lambda>a. writeObject (UnitInterval_toCbor a)) (\<lambda>a. Ratio (interval_content a)) (pu_d p),
      field_row 13 writeEntropy Entropy (pu_extraEntropy p),
      field_row 14 (\<lambda>a. writeObject (ProtocolVersion_toCbor a)) (\<lambda>a. Version (version_content a)) (pu_protocolVersion p),
      field_row 16 writeInt Quantity (pu_minPoolCost p),
      field_row 17 writeInt Quantity (pu_adaPerUtxoByte p),
      field_row 18 (\<lambda>a. writeObject (Costmdls_toCbor a)) (\<lambda>a. Costs (costs_content a)) (pu_costModels p),
      field_row 19 (\<lambda>a. writeObject (ExUnitPrices_toCbor a)) (\<lambda>a. Prices (prices_content a)) (pu_executionCosts p),
      field_row 20 (\<lambda>a. writeObject (ExUnits_toCbor a)) (\<lambda>a. Units (units_content a)) (pu_maxTxExUnits p),
      field_row 21 (\<lambda>a. writeObject (ExUnits_toCbor a)) (\<lambda>a. Units (units_content a)) (pu_maxBlockExUnits p),
      field_row 22 writeInt Quantity (pu_maxValueSize p),
      field_row 23 writeInt Quantity (pu_collateralPercentage p),
      field_row 24 writeInt Quantity (pu_maxCollateralInputs p),
      field_row 25 (\<lambda>a. writeObject (PoolVotingThresholds_toCbor a)) (\<lambda>a. Thresholds (pool_thresholds_content a)) (pu_poolVotingThresholds p),
      field_row 26 (\<lambda>a. writeObject (DrepVotingThresholds_toCbor a)) (\<lambda>a. Thresholds (drep_thresholds_content a)) (pu_drepVotingThresholds p),
      field_row 27 writeInt Quantity (pu_minCommitteeSize p),
      field_row 28 writeInt Quantity (pu_committeeTermLimit p),
      field_row 29 writeInt Quantity (pu_governanceActionValidityPeriod p),
      field_row 30 writeInt Quantity (pu_governanceActionDeposit p),
      field_row 31 writeInt Quantity (pu_drepDeposit p),
      field_row 32 writeInt Quantity (pu_drepInactivityPeriod p),
      field_row 33 (\<lambda>a. writeObject (UnitInterval_toCbor a)) (\<lambda>a. Ratio (interval_content a)) (pu_minFeeRefScriptCostPerByte p),
      field_row 34 writeInt Quantity (pu_maxRefScriptSizePerBlock p),
      field_row 35 writeInt Quantity (pu_maxRefScriptSizePerTx p),
      field_row 36 writeInt Quantity (pu_refScriptCostStride p),
      field_row 37 (\<lambda>a. writeObject (UnitInterval_toCbor a)) (\<lambda>a. Ratio (interval_content a)) (pu_refScriptCostMultiplier p)]"

definition param_content :: "ProtocolParamUpdate \<Rightarrow> int \<rightharpoonup> param_value" where
  "param_content p = table_content (map row_field (param_rows p))"

definition ProtocolParamUpdate_valid :: "ProtocolParamUpdate \<Rightarrow> bool" where
  "ProtocolParamUpdate_valid p \<longleftrightarrow> pu_originalBytes p = None \<and>
     pred_option cbor_int (pu_minFeeA p) \<and>
     pred_option cbor_int (pu_minFeeB p) \<and>
     pred_option (\<lambda>i. safe_int i) (pu_maxBlockBodySize p) \<and>
     pred_option (\<lambda>i. safe_int i) (pu_maxTxSize p) \<and>
     pred_option (\<lambda>i. safe_int i) (pu_maxBlockHeaderSize p) \<and>
     pred_option cbor_int (pu_keyDeposit p) \<and>
     pred_option cbor_int (pu_poolDeposit p) \<and>
     pred_option (\<lambda>i. safe_int i) (pu_maxEpoch p) \<and>
     pred_option (\<lambda>i. safe_int i) (pu_nOpt p) \<and>
     pred_option UnitInterval_valid (pu_poolPledgeInfluence p) \<and>
     pred_option UnitInterval_valid (pu_expansionRate p) \<and>
     pred_option UnitInterval_valid (pu_treasuryGrowthRate p) \<and>
     pred_option UnitInterval_valid (pu_d p) \<and>
     pred_option (\<lambda>e. length e < 9007199254740992) (pu_extraEntropy p) \<and>
     pred_option ProtocolVersion_valid (pu_protocolVersion p) \<and>
     pred_option cbor_int (pu_minPoolCost p) \<and>
     pred_option cbor_int (pu_adaPerUtxoByte p) \<and>
     pred_option Costmdls_valid (pu_costModels p) \<and>
     pred_option ExUnitPrices_valid (pu_executionCosts p) \<and>
     pred_option ExUnits_valid (pu_maxTxExUnits p) \<and>
     pred_option ExUnits_valid (pu_maxBlockExUnits p) \<and>
     pred_option (\<lambda>i. safe_int i) (pu_maxValueSize p) \<and>
     pred_option (\<lambda>i. safe_int i) (pu_collateralPercentage p) \<and>
     pred_option (\<lambda>i. safe_int i) (pu_maxCollateralInputs p) \<and>
     pred_option PoolVotingThresholds_valid (pu_poolVotingThresholds p) \<and>
     pred_option DrepVotingThresholds_valid (pu_drepVotingThresholds p) \<and>
     pred_option (\<lambda>i. safe_int i) (pu_minCommitteeSize p) \<and>
     pred_option (\<lambda>i. safe_int i) (pu_committeeTermLimit p) \<and>
     pred_option (\<lambda>i. safe_int i) (pu_governanceActionValidityPeriod p) \<and>
     pred_option (\<lambda>i. safe_int i) (pu_governanceActionDeposit p) \<and>
     pred_option (\<lambda>i. safe_int i) (pu_drepDeposit p) \<and>
     pred_option (\<lambda>i. safe_int i) (pu_drepInactivityPeriod p) \<and>
     pred_option UnitInterval_valid (pu_minFeeRefScriptCostPerByte p) \<and>
     pred_option (\<lambda>i. 0 \<le> i \<and> i \<le> 4294967295) (pu_maxRefScriptSizePerBlock p) \<and>
     pred_option (\<lambda>i. 0 \<le> i \<and> i \<le> 4294967295) (pu_maxRefScriptSizePerTx p) \<and>
     pred_option (\<lambda>i. 1 \<le> i \<and> i \<le> 4294967295) (pu_refScriptCostStride p) \<and>
     pred_option (\<lambda>i. UnitInterval_valid i \<and> 1 \<le> ui_numerator i \<and> 1 \<le> ui_denominator i) (pu_refScriptCostMultiplier p)"

lemma field_row_simps [simp]:
  "row_ops (field_row k w content x) = writes (\<lambda>a. writeField k (w a)) x" "row_size (field_row k w content x) = present x"
  "row_field (field_row k w content x) = (k, map_option content x)"
  by (simp_all add: field_row_def)

lemma writes_checked: "pred_option (\<lambda>a. check a = Inr ()) x \<Longrightarrow> writes (\<lambda>a. checked (check a) (op a)) x = writes op x"
  by (cases x) (simp_all add: writes_def)

lemma uint32_ok:
  "pred_option (\<lambda>i. 0 \<le> i \<and> i \<le> 4294967295) x \<Longrightarrow> writes (\<lambda>a. checked (assertUint32 a) (op a)) x = writes op x"
  by (rule writes_checked) (cases x; simp add: assertUint32_def MAX_WORD32_def)

lemma positive_word32_ok:
  "pred_option (\<lambda>i. 1 \<le> i \<and> i \<le> 4294967295) x \<Longrightarrow> writes (\<lambda>a. checked (assertPositiveWord32 a) (op a)) x = writes op x"
  by (rule writes_checked) (cases x; simp add: assertPositiveWord32_def MAX_WORD32_def)

lemma positive_interval_ok:
  "pred_option (\<lambda>i. UnitInterval_valid i \<and> 1 \<le> ui_numerator i \<and> 1 \<le> ui_denominator i) x \<Longrightarrow>
   writes (\<lambda>a. checked (assertPositiveInterval a) (op a)) x = writes op x"
  by (rule writes_checked) (cases x; simp add: assertPositiveInterval_def)

lemma param_reads:
  "readParam 0 = readField readInt (\<lambda>x p. p\<lparr>pu_minFeeA := Some x\<rparr>)"
  "readParam 1 = readField readInt (\<lambda>x p. p\<lparr>pu_minFeeB := Some x\<rparr>)"
  "readParam 2 = readField readNumber (\<lambda>x p. p\<lparr>pu_maxBlockBodySize := Some x\<rparr>)"
  "readParam 3 = readField readNumber (\<lambda>x p. p\<lparr>pu_maxTxSize := Some x\<rparr>)"
  "readParam 4 = readField readNumber (\<lambda>x p. p\<lparr>pu_maxBlockHeaderSize := Some x\<rparr>)"
  "readParam 5 = readField readInt (\<lambda>x p. p\<lparr>pu_keyDeposit := Some x\<rparr>)"
  "readParam 6 = readField readInt (\<lambda>x p. p\<lparr>pu_poolDeposit := Some x\<rparr>)"
  "readParam 7 = readField readNumber (\<lambda>x p. p\<lparr>pu_maxEpoch := Some x\<rparr>)"
  "readParam 8 = readField readNumber (\<lambda>x p. p\<lparr>pu_nOpt := Some x\<rparr>)"
  "readParam 9 = readField (readObject UnitInterval_fromCbor) (\<lambda>x p. p\<lparr>pu_poolPledgeInfluence := Some x\<rparr>)"
  "readParam 10 = readField (readObject UnitInterval_fromCbor) (\<lambda>x p. p\<lparr>pu_expansionRate := Some x\<rparr>)"
  "readParam 11 = readField (readObject UnitInterval_fromCbor) (\<lambda>x p. p\<lparr>pu_treasuryGrowthRate := Some x\<rparr>)"
  "readParam 12 = readField (readObject UnitInterval_fromCbor) (\<lambda>x p. p\<lparr>pu_d := Some x\<rparr>)"
  "readParam 13 = readField readEntropy (\<lambda>x p. p\<lparr>pu_extraEntropy := Some x\<rparr>)"
  "readParam 14 = readField (readObject ProtocolVersion_fromCbor) (\<lambda>x p. p\<lparr>pu_protocolVersion := Some x\<rparr>)"
  "readParam 16 = readField readInt (\<lambda>x p. p\<lparr>pu_minPoolCost := Some x\<rparr>)"
  "readParam 17 = readField readInt (\<lambda>x p. p\<lparr>pu_adaPerUtxoByte := Some x\<rparr>)"
  "readParam 18 = readField (readObject Costmdls_fromCbor) (\<lambda>x p. p\<lparr>pu_costModels := Some x\<rparr>)"
  "readParam 19 = readField (readObject ExUnitPrices_fromCbor) (\<lambda>x p. p\<lparr>pu_executionCosts := Some x\<rparr>)"
  "readParam 20 = readField (readObject ExUnits_fromCbor) (\<lambda>x p. p\<lparr>pu_maxTxExUnits := Some x\<rparr>)"
  "readParam 21 = readField (readObject ExUnits_fromCbor) (\<lambda>x p. p\<lparr>pu_maxBlockExUnits := Some x\<rparr>)"
  "readParam 22 = readField readNumber (\<lambda>x p. p\<lparr>pu_maxValueSize := Some x\<rparr>)"
  "readParam 23 = readField readNumber (\<lambda>x p. p\<lparr>pu_collateralPercentage := Some x\<rparr>)"
  "readParam 24 = readField readNumber (\<lambda>x p. p\<lparr>pu_maxCollateralInputs := Some x\<rparr>)"
  "readParam 25 = readField (readObject PoolVotingThresholds_fromCbor) (\<lambda>x p. p\<lparr>pu_poolVotingThresholds := Some x\<rparr>)"
  "readParam 26 = readField (readObject DrepVotingThresholds_fromCbor) (\<lambda>x p. p\<lparr>pu_drepVotingThresholds := Some x\<rparr>)"
  "readParam 27 = readField readNumber (\<lambda>x p. p\<lparr>pu_minCommitteeSize := Some x\<rparr>)"
  "readParam 28 = readField readNumber (\<lambda>x p. p\<lparr>pu_committeeTermLimit := Some x\<rparr>)"
  "readParam 29 = readField readNumber (\<lambda>x p. p\<lparr>pu_governanceActionValidityPeriod := Some x\<rparr>)"
  "readParam 30 = readField readNumber (\<lambda>x p. p\<lparr>pu_governanceActionDeposit := Some x\<rparr>)"
  "readParam 31 = readField readNumber (\<lambda>x p. p\<lparr>pu_drepDeposit := Some x\<rparr>)"
  "readParam 32 = readField readNumber (\<lambda>x p. p\<lparr>pu_drepInactivityPeriod := Some x\<rparr>)"
  "readParam 33 = readField (readObject UnitInterval_fromCbor) (\<lambda>x p. p\<lparr>pu_minFeeRefScriptCostPerByte := Some x\<rparr>)"
  "readParam 34 = readField readNumber (\<lambda>x p. p\<lparr>pu_maxRefScriptSizePerBlock := Some x\<rparr>)"
  "readParam 35 = readField readNumber (\<lambda>x p. p\<lparr>pu_maxRefScriptSizePerTx := Some x\<rparr>)"
  "readParam 36 = readField readNumber (\<lambda>x p. p\<lparr>pu_refScriptCostStride := Some x\<rparr>)"
  "readParam 37 = readField (readObject UnitInterval_fromCbor) (\<lambda>x p. p\<lparr>pu_refScriptCostMultiplier := Some x\<rparr>)"
  by (simp_all add: readParam_def)

lemma param_puts:
  "param_content (p\<lparr>pu_minFeeA := Some y0\<rparr>) = put_field 0 (Quantity y0) (param_content p)"
  "param_content (p\<lparr>pu_minFeeB := Some y0\<rparr>) = put_field 1 (Quantity y0) (param_content p)"
  "param_content (p\<lparr>pu_maxBlockBodySize := Some y0\<rparr>) = put_field 2 (Quantity y0) (param_content p)"
  "param_content (p\<lparr>pu_maxTxSize := Some y0\<rparr>) = put_field 3 (Quantity y0) (param_content p)"
  "param_content (p\<lparr>pu_maxBlockHeaderSize := Some y0\<rparr>) = put_field 4 (Quantity y0) (param_content p)"
  "param_content (p\<lparr>pu_keyDeposit := Some y0\<rparr>) = put_field 5 (Quantity y0) (param_content p)"
  "param_content (p\<lparr>pu_poolDeposit := Some y0\<rparr>) = put_field 6 (Quantity y0) (param_content p)"
  "param_content (p\<lparr>pu_maxEpoch := Some y0\<rparr>) = put_field 7 (Quantity y0) (param_content p)"
  "param_content (p\<lparr>pu_nOpt := Some y0\<rparr>) = put_field 8 (Quantity y0) (param_content p)"
  "param_content (p\<lparr>pu_poolPledgeInfluence := Some y1\<rparr>) = put_field 9 (Ratio (interval_content y1)) (param_content p)"
  "param_content (p\<lparr>pu_expansionRate := Some y1\<rparr>) = put_field 10 (Ratio (interval_content y1)) (param_content p)"
  "param_content (p\<lparr>pu_treasuryGrowthRate := Some y1\<rparr>) = put_field 11 (Ratio (interval_content y1)) (param_content p)"
  "param_content (p\<lparr>pu_d := Some y1\<rparr>) = put_field 12 (Ratio (interval_content y1)) (param_content p)"
  "param_content (p\<lparr>pu_extraEntropy := Some y2\<rparr>) = put_field 13 (Entropy y2) (param_content p)"
  "param_content (p\<lparr>pu_protocolVersion := Some y3\<rparr>) = put_field 14 (Version (version_content y3)) (param_content p)"
  "param_content (p\<lparr>pu_minPoolCost := Some y0\<rparr>) = put_field 16 (Quantity y0) (param_content p)"
  "param_content (p\<lparr>pu_adaPerUtxoByte := Some y0\<rparr>) = put_field 17 (Quantity y0) (param_content p)"
  "param_content (p\<lparr>pu_costModels := Some y4\<rparr>) = put_field 18 (Costs (costs_content y4)) (param_content p)"
  "param_content (p\<lparr>pu_executionCosts := Some y5\<rparr>) = put_field 19 (Prices (prices_content y5)) (param_content p)"
  "param_content (p\<lparr>pu_maxTxExUnits := Some y6\<rparr>) = put_field 20 (Units (units_content y6)) (param_content p)"
  "param_content (p\<lparr>pu_maxBlockExUnits := Some y6\<rparr>) = put_field 21 (Units (units_content y6)) (param_content p)"
  "param_content (p\<lparr>pu_maxValueSize := Some y0\<rparr>) = put_field 22 (Quantity y0) (param_content p)"
  "param_content (p\<lparr>pu_collateralPercentage := Some y0\<rparr>) = put_field 23 (Quantity y0) (param_content p)"
  "param_content (p\<lparr>pu_maxCollateralInputs := Some y0\<rparr>) = put_field 24 (Quantity y0) (param_content p)"
  "param_content (p\<lparr>pu_poolVotingThresholds := Some y7\<rparr>) = put_field 25 (Thresholds (pool_thresholds_content y7)) (param_content p)"
  "param_content (p\<lparr>pu_drepVotingThresholds := Some y8\<rparr>) = put_field 26 (Thresholds (drep_thresholds_content y8)) (param_content p)"
  "param_content (p\<lparr>pu_minCommitteeSize := Some y0\<rparr>) = put_field 27 (Quantity y0) (param_content p)"
  "param_content (p\<lparr>pu_committeeTermLimit := Some y0\<rparr>) = put_field 28 (Quantity y0) (param_content p)"
  "param_content (p\<lparr>pu_governanceActionValidityPeriod := Some y0\<rparr>) = put_field 29 (Quantity y0) (param_content p)"
  "param_content (p\<lparr>pu_governanceActionDeposit := Some y0\<rparr>) = put_field 30 (Quantity y0) (param_content p)"
  "param_content (p\<lparr>pu_drepDeposit := Some y0\<rparr>) = put_field 31 (Quantity y0) (param_content p)"
  "param_content (p\<lparr>pu_drepInactivityPeriod := Some y0\<rparr>) = put_field 32 (Quantity y0) (param_content p)"
  "param_content (p\<lparr>pu_minFeeRefScriptCostPerByte := Some y1\<rparr>) = put_field 33 (Ratio (interval_content y1)) (param_content p)"
  "param_content (p\<lparr>pu_maxRefScriptSizePerBlock := Some y0\<rparr>) = put_field 34 (Quantity y0) (param_content p)"
  "param_content (p\<lparr>pu_maxRefScriptSizePerTx := Some y0\<rparr>) = put_field 35 (Quantity y0) (param_content p)"
  "param_content (p\<lparr>pu_refScriptCostStride := Some y0\<rparr>) = put_field 36 (Quantity y0) (param_content p)"
  "param_content (p\<lparr>pu_refScriptCostMultiplier := Some y1\<rparr>) = put_field 37 (Ratio (interval_content y1)) (param_content p)"
  by (simp_all add: param_content_def param_rows_def table_content_Cons put_field_def fun_upd_twist)

subsection \<open>Proposals are read back\<close>

lemma field_entropy:
  assumes "length e < 9007199254740992"
  shows "\<exists>b. field_ok (writeEntropy e) b readEntropy e"
proof (cases "e = []")
  case True
  have "field_ok (writeEntropy e) (enc_head ArrayType 1 @ enc_int 0) readEntropy e"
    using True cbor_item_array [of "[enc_int 0]"]
    by (simp add: field_ok_def writeEntropy_def readEntropy_def rd_simps cbor_items)
  then show ?thesis by blast
next
  case False
  have "field_ok (writeEntropy e) (enc_head ArrayType 2 @ enc_int 1 @ enc_bytes e) readEntropy e"
    using False assms cbor_item_array [of "[enc_int 1, enc_bytes e]"]
    by (simp add: field_ok_def writeEntropy_def readEntropy_def rd_simps cbor_items)
  then show ?thesis by blast
qed

lemma entropy_row:
  assumes "fld k = readField readEntropy upd" and "pred_option (\<lambda>e. length e < 9007199254740992) x" and "cbor_int k"
    and "\<And>y s. con (upd y s) = put_field k (content y) (con s)"
  shows "row_ok (readKeyed fld) con (field_row k writeEntropy content x)"
  by (rule field_row_ok [where fld = fld and k = k, OF assms(1) _ assms(3,4)]) (use assms(2) field_entropy in fastforce)

lemma pred_option_checks:
  "pred_option (\<lambda>i. 0 \<le> i \<and> i \<le> 4294967295) x \<Longrightarrow> pred_option (\<lambda>i. safe_int i) x"
  "pred_option (\<lambda>i. 1 \<le> i \<and> i \<le> 4294967295) x \<Longrightarrow> pred_option (\<lambda>i. safe_int i) x"
  "pred_option (\<lambda>i. UnitInterval_valid i \<and> 1 \<le> ui_numerator i \<and> 1 \<le> ui_denominator i) y \<Longrightarrow> pred_option UnitInterval_valid y"
  by (auto elim!: option.pred_mono_strong)

lemma param_rows_ok:
  assumes "ProtocolParamUpdate_valid p"
  shows "list_all (row_ok (readKeyed readParam) param_content) (param_rows p)"
  using assms unfolding ProtocolParamUpdate_valid_def param_rows_def list.pred_inject
  by (elim conjE) (intro conjI TrueI
      int_row [where fld = readParam and k = 0, OF param_reads(1)]
      int_row [where fld = readParam and k = 1, OF param_reads(2)]
      number_row [where fld = readParam and k = 2, OF param_reads(3)]
      number_row [where fld = readParam and k = 3, OF param_reads(4)]
      number_row [where fld = readParam and k = 4, OF param_reads(5)]
      int_row [where fld = readParam and k = 5, OF param_reads(6)]
      int_row [where fld = readParam and k = 6, OF param_reads(7)]
      number_row [where fld = readParam and k = 7, OF param_reads(8)]
      number_row [where fld = readParam and k = 8, OF param_reads(9)]
      cbor_codec.object_row [where fld = readParam and k = 9 and tag = Ratio, OF unit_interval.cbor_codec_axioms param_reads(10)]
      cbor_codec.object_row [where fld = readParam and k = 10 and tag = Ratio, OF unit_interval.cbor_codec_axioms param_reads(11)]
      cbor_codec.object_row [where fld = readParam and k = 11 and tag = Ratio, OF unit_interval.cbor_codec_axioms param_reads(12)]
      cbor_codec.object_row [where fld = readParam and k = 12 and tag = Ratio, OF unit_interval.cbor_codec_axioms param_reads(13)]
      entropy_row [where fld = readParam and k = 13, OF param_reads(14)]
      cbor_codec.object_row [where fld = readParam and k = 14 and tag = Version, OF protocol_version.cbor_codec_axioms param_reads(15)]
      int_row [where fld = readParam and k = 16, OF param_reads(16)]
      int_row [where fld = readParam and k = 17, OF param_reads(17)]
      cbor_codec.object_row [where fld = readParam and k = 18 and tag = Costs, OF cost_models.cbor_codec_axioms param_reads(18)]
      cbor_codec.object_row [where fld = readParam and k = 19 and tag = Prices, OF prices.cbor_codec_axioms param_reads(19)]
      cbor_codec.object_row [where fld = readParam and k = 20 and tag = Units, OF ex_units.cbor_codec_axioms param_reads(20)]
      cbor_codec.object_row [where fld = readParam and k = 21 and tag = Units, OF ex_units.cbor_codec_axioms param_reads(21)]
      number_row [where fld = readParam and k = 22, OF param_reads(22)]
      number_row [where fld = readParam and k = 23, OF param_reads(23)]
      number_row [where fld = readParam and k = 24, OF param_reads(24)]
      cbor_codec.object_row [where fld = readParam and k = 25 and tag = Thresholds, OF pool_thresholds.cbor_codec_axioms param_reads(25)]
      cbor_codec.object_row [where fld = readParam and k = 26 and tag = Thresholds, OF drep_thresholds.cbor_codec_axioms param_reads(26)]
      number_row [where fld = readParam and k = 27, OF param_reads(27)]
      number_row [where fld = readParam and k = 28, OF param_reads(28)]
      number_row [where fld = readParam and k = 29, OF param_reads(29)]
      number_row [where fld = readParam and k = 30, OF param_reads(30)]
      number_row [where fld = readParam and k = 31, OF param_reads(31)]
      number_row [where fld = readParam and k = 32, OF param_reads(32)]
      cbor_codec.object_row [where fld = readParam and k = 33 and tag = Ratio, OF unit_interval.cbor_codec_axioms param_reads(33)]
      number_row [where fld = readParam and k = 34, OF param_reads(34)]
      number_row [where fld = readParam and k = 35, OF param_reads(35)]
      number_row [where fld = readParam and k = 36, OF param_reads(36)]
      cbor_codec.object_row [where fld = readParam and k = 37 and tag = Ratio, OF unit_interval.cbor_codec_axioms param_reads(37)];
      (assumption | rule param_puts | rule pred_option_checks, assumption | simp))

lemma param_fields_rows:
  assumes "ProtocolParamUpdate_valid p"
  shows "ProtocolParamUpdate_fields p = concat (map row_ops (param_rows p))"
  using assms unfolding ProtocolParamUpdate_valid_def
  by (elim conjE) (simp add: ProtocolParamUpdate_fields_def param_rows_def uint32_ok positive_word32_ok positive_interval_ok)

lemma param_size_rows: "ProtocolParamUpdate_getMapSize p = sum_list (map row_size (param_rows p))"
  by (simp only: ProtocolParamUpdate_getMapSize_def param_rows_def list.map field_row_simps)

lemma param_content_new: "param_content ProtocolParamUpdate_new = Map.empty"
  by (simp add: param_content_def param_rows_def ProtocolParamUpdate_new_def table_content_Cons fun_upd_def fun_eq_iff)

lemma param_keys: "distinct (map fst (map row_field (param_rows p)))" "length (param_rows p) = 37"
  by (simp_all add: param_rows_def)

interpretation param_update: caching_codec ProtocolParamUpdate_toCbor ProtocolParamUpdate_fromCbor ProtocolParamUpdate_valid param_content
proof (unfold_locales, goal_cases)
  case (1 p)
  have rows: "\<forall>row \<in> set (param_rows p). row_ok (readKeyed readParam) param_content row"
    using param_rows_ok [OF 1] by (simp add: list_all_iff)
  have "pu_originalBytes p = None" using 1 unfolding ProtocolParamUpdate_valid_def by blast
  moreover from table_class [OF rows _ param_keys(1) param_content_new] obtain b s' r
    where "write_all (writeStartMap (Some (sum_list (map row_size (param_rows p)))) # concat (map row_ops (param_rows p))) = Inr b"
      "cbor_item b" "readMapWith (readKeyed readParam) ProtocolParamUpdate_new (new_reader b) = Inr (s', r)"
      "param_content s' = param_content p"
    unfolding param_content_def [of p] param_keys(2) by auto
  moreover have "param_content (s'\<lparr>pu_originalBytes := Some b\<rparr>) = param_content s'" for s' b
    by (simp add: param_content_def param_rows_def)
  ultimately show ?case
    by (simp add: ProtocolParamUpdate_toCbor_def ProtocolParamUpdate_fromCbor_def param_fields_rows [OF 1] param_size_rows)
next
  case (2 b y)
  then show ?case by (cases "b = []") (auto simp: ProtocolParamUpdate_toCbor_def ProtocolParamUpdate_fromCbor_def)
qed

end
