(* ===== verification/Update.thy ===== *)
theory Update
  imports Param_Update
begin

text \<open>
  Update proposals of the genesis delegates (\<open>core/src/Serialization/Update\<close>): the proposals of an
  epoch by delegate key hash. A key hash is the bytes its hex string denotes.
\<close>

record ProposedProtocolParameterUpdates =
  ppu_proposedUpdates :: "(bytes \<times> ProtocolParamUpdate) list"
  ppu_originalBytes :: "bytes option"

definition ProposedProtocolParameterUpdates_new :: "(bytes \<times> ProtocolParamUpdate) list \<Rightarrow> ProposedProtocolParameterUpdates" where
  "ProposedProtocolParameterUpdates_new proposedUpdates = \<lparr>ppu_proposedUpdates = proposedUpdates, ppu_originalBytes = None\<rparr>"

definition hex_digit_char :: "nat \<Rightarrow> char" where
  "hex_digit_char n = char_of (if n < 10 then 48 + n else 87 + n)"

definition hex_text :: "bytes \<Rightarrow> string" where
  "hex_text b = concat (map (\<lambda>x. [hex_digit_char (unat x div 16), hex_digit_char (unat x mod 16)]) b)"

definition writeProposal :: "bytes \<times> ProtocolParamUpdate \<Rightarrow> writer_op list" where
  "writeProposal e = [writeByteString (fst e), writeObject (ProtocolParamUpdate_toCbor (snd e))]"

definition ProposedProtocolParameterUpdates_toCbor :: "ProposedProtocolParameterUpdates \<Rightarrow> bytes result" where
  "ProposedProtocolParameterUpdates_toCbor u = cached (ppu_originalBytes u)
     (let sortedCanonically = new_Map (js_sort (by_text hex_text) (ppu_proposedUpdates u))
      in write_all (writeStartMap (Some (length sortedCanonically)) # concat (map writeProposal sortedCanonically)))"

definition readProposal ::
    "(bytes \<times> ProtocolParamUpdate) list \<Rightarrow> CborReader \<Rightarrow> ((bytes \<times> ProtocolParamUpdate) list \<times> CborReader) result" where
  "readProposal proposedUpdates r =
     ebind (readHash 28 r) (\<lambda>(genesisHash, r).
     ebind (readObject ProtocolParamUpdate_fromCbor r) (\<lambda>(params, r).
       Inr (map_set genesisHash params proposedUpdates, r)))"

definition ProposedProtocolParameterUpdates_fromCbor :: "bytes \<Rightarrow> ProposedProtocolParameterUpdates result" where
  "ProposedProtocolParameterUpdates_fromCbor cbor =
     ebind (readMapWith readProposal [] (new_reader cbor)) (\<lambda>(proposedUpdates, r).
       Inr ((ProposedProtocolParameterUpdates_new proposedUpdates)\<lparr>ppu_originalBytes := Some cbor\<rparr>))"

definition ProposedProtocolParameterUpdates_size :: "ProposedProtocolParameterUpdates \<Rightarrow> nat" where
  "ProposedProtocolParameterUpdates_size u = length (ppu_proposedUpdates u)"

text \<open>Inserting keeps the bytes the object was read from.\<close>

definition ProposedProtocolParameterUpdates_insert ::
    "bytes \<Rightarrow> ProtocolParamUpdate \<Rightarrow> ProposedProtocolParameterUpdates \<Rightarrow> ProposedProtocolParameterUpdates" where
  "ProposedProtocolParameterUpdates_insert key value u = u\<lparr>ppu_proposedUpdates := map_set key value (ppu_proposedUpdates u)\<rparr>"

definition ProposedProtocolParameterUpdates_get :: "bytes \<Rightarrow> ProposedProtocolParameterUpdates \<Rightarrow> ProtocolParamUpdate option" where
  "ProposedProtocolParameterUpdates_get key u = map_of (ppu_proposedUpdates u) key"

definition ProposedProtocolParameterUpdates_keys :: "ProposedProtocolParameterUpdates \<Rightarrow> bytes list" where
  "ProposedProtocolParameterUpdates_keys u = map fst (ppu_proposedUpdates u)"

record Update =
  up_epoch :: int
  up_updates :: ProposedProtocolParameterUpdates
  up_originalBytes :: "bytes option"

definition Update_new :: "ProposedProtocolParameterUpdates \<Rightarrow> int \<Rightarrow> Update" where
  "Update_new updates epoch = \<lparr>up_epoch = epoch, up_updates = updates, up_originalBytes = None\<rparr>"

definition Update_toCbor :: "Update \<Rightarrow> bytes result" where
  "Update_toCbor u = cached (up_originalBytes u)
     (write_all [writeStartArray (Some 2), writeObject (ProposedProtocolParameterUpdates_toCbor (up_updates u)),
        writeInt (up_epoch u)])"

definition Update_fromCbor :: "bytes \<Rightarrow> Update result" where
  "Update_fromCbor cbor =
     ebind (expectArray 2 (new_reader cbor)) (\<lambda>r.
     ebind (readObject ProposedProtocolParameterUpdates_fromCbor r) (\<lambda>(updates, r).
     ebind (readInt r) (\<lambda>(epoch, r).
     ebind (readEndArray r) (\<lambda>r.
       Inr ((Update_new updates (js_Number_int epoch))\<lparr>up_originalBytes := Some cbor\<rparr>)))))"

definition Update_setEpoch :: "int \<Rightarrow> Update \<Rightarrow> Update" where
  "Update_setEpoch epoch u = u\<lparr>up_epoch := epoch, up_originalBytes := None\<rparr>"

definition Update_setProposedProtocolParameterUpdates :: "ProposedProtocolParameterUpdates \<Rightarrow> Update \<Rightarrow> Update" where
  "Update_setProposedProtocolParameterUpdates updates u = u\<lparr>up_updates := updates, up_originalBytes := None\<rparr>"

subsection \<open>Proposals and updates are read back\<close>

definition proposals_content :: "ProposedProtocolParameterUpdates \<Rightarrow> bytes \<rightharpoonup> int \<rightharpoonup> param_value" where
  "proposals_content u = map_content param_content (ppu_proposedUpdates u)"

definition ProposedProtocolParameterUpdates_valid :: "ProposedProtocolParameterUpdates \<Rightarrow> bool" where
  "ProposedProtocolParameterUpdates_valid u \<longleftrightarrow> ppu_originalBytes u = None \<and> distinct (map fst (ppu_proposedUpdates u)) \<and>
     length (ppu_proposedUpdates u) < 4503599627370496 \<and>
     (\<forall>e \<in> set (ppu_proposedUpdates u). length (fst e) = 28 \<and> ProtocolParamUpdate_valid (snd e))"

lemma proposal_entry:
  assumes "length (fst e) = 28" and "ProtocolParamUpdate_valid (snd e)"
  shows "\<exists>k b y. (\<forall>w. run_ops (writeProposal e) w = Inr (w @ k @ b)) \<and>
    entry_ok readProposal (k, b) (map_set (fst e) y) \<and> param_content y = param_content (snd e)"
proof -
  note h = field_hash [OF assms(1), simplified]
  obtain b y where f: "field_ok (writeObject (ProtocolParamUpdate_toCbor (snd e))) b (readObject ProtocolParamUpdate_fromCbor) y"
    "param_content y = param_content (snd e)"
    using param_update.field_of_object [OF assms(2)] by blast
  have "entry_ok readProposal (enc_bytes (fst e), b) (map_set (fst e) y)"
    using assms(1) field_okD(2) [OF f(1)] field_okD(3) [OF f(1)] field_okD(2) [OF h]
    by (simp add: entry_ok_def readProposal_def readHash_def typedHash_def rd_simps numeral_2_eq_2 [symmetric])
  moreover have "run_ops (writeProposal e) w = Inr (w @ enc_bytes (fst e) @ b)" for w
    using field_okD(1) [OF f(1)] field_okD(1) [OF h] by (simp add: writeProposal_def)
  ultimately show ?thesis using f(2) by blast
qed

interpretation proposals: caching_codec ProposedProtocolParameterUpdates_toCbor ProposedProtocolParameterUpdates_fromCbor
  ProposedProtocolParameterUpdates_valid proposals_content
proof (unfold_locales, goal_cases)
  case (1 u)
  let ?ms = "js_sort (by_text hex_text) (ppu_proposedUpdates u)"
  have distinct: "distinct (map fst ?ms)" and n: "length ?ms < 4503599627370496"
    using 1 by (simp_all add: ProposedProtocolParameterUpdates_valid_def)
  have entries: "\<exists>k b y. (\<forall>w. run_ops (writeProposal e) w = Inr (w @ k @ b)) \<and> entry_ok readProposal (k, b) (map_set (fst e) y) \<and>
      param_content y = param_content (snd e)" if "e \<in> set ?ms" for e
    using 1 that by (intro proposal_entry) (auto simp: ProposedProtocolParameterUpdates_valid_def)
  obtain b ys where f: "field_ok (writeMapOf writeProposal ?ms) b (readMapWith readProposal []) ys"
    and ys: "map_content param_content ys = map_content param_content ?ms"
    using field_map [OF entries distinct n] by blast
  have "map_content param_content ?ms = map_content param_content (ppu_proposedUpdates u)" by (rule map_content_mset [OF distinct]) simp
  moreover have "ppu_originalBytes u = None" "new_Map ?ms = ?ms"
    using 1 distinct by (simp_all add: ProposedProtocolParameterUpdates_valid_def)
  then have "ProposedProtocolParameterUpdates_toCbor u = Inr b"
    using map_whole [OF f] by (simp add: ProposedProtocolParameterUpdates_toCbor_def Let_def)
  ultimately show ?case using field_whole(2,4) [OF f] ys
    by (auto simp: ProposedProtocolParameterUpdates_fromCbor_def proposals_content_def ProposedProtocolParameterUpdates_new_def)
next
  case (2 b y)
  then show ?case
    by (cases "b = []") (auto simp: ProposedProtocolParameterUpdates_toCbor_def ProposedProtocolParameterUpdates_fromCbor_def)
qed

definition update_content :: "Update \<Rightarrow> int \<times> (bytes \<rightharpoonup> int \<rightharpoonup> param_value)" where
  "update_content u = (up_epoch u, proposals_content (up_updates u))"

definition Update_valid :: "Update \<Rightarrow> bool" where
  "Update_valid u \<longleftrightarrow> up_originalBytes u = None \<and> safe_int (up_epoch u) \<and> ProposedProtocolParameterUpdates_valid (up_updates u)"

interpretation update: caching_codec Update_toCbor Update_fromCbor Update_valid update_content
proof (unfold_locales, goal_cases)
  case (1 u)
  obtain b y where "ProposedProtocolParameterUpdates_toCbor (up_updates u) = Inr b" "cbor_item b"
    "ProposedProtocolParameterUpdates_fromCbor b = Inr y" "proposals_content y = proposals_content (up_updates u)"
    using proposals.encodes [of "up_updates u"] 1 by (auto simp: Update_valid_def)
  with 1 show ?case
    by (simp add: Update_valid_def Update_toCbor_def Update_fromCbor_def Update_new_def update_content_def
        writeObject_def write_all_def encode_def rd_simps rd_last readObject_rd cbor_items)
next
  case (2 b y)
  then show ?case by (auto simp: Update_toCbor_def Update_fromCbor_def dest!: expectArray_nonempty)
qed

subsection \<open>Properties\<close>

text \<open>C26. An update proposal, with any selection of the 37 protocol parameters for each genesis delegate, is
  written and read back as the same map from delegates to the numbers and values of the parameters,
  whatever the order of the delegates; the object that was read is written with the same bytes.\<close>

theorem update_roundtrip:
  assumes "Update_valid u"
  shows "\<exists>b y. Update_toCbor u = Inr b \<and> Update_fromCbor b = Inr y \<and> update_content y = update_content u \<and> Update_toCbor y = Inr b"
  by (rule update.reencode [OF assms])

theorem update_roundtrip_witness:
  "\<exists>b y. Update_toCbor (Update_new (ProposedProtocolParameterUpdates_new
        [(replicate 28 0, ProtocolParamUpdate_new\<lparr>pu_minFeeA := Some 44, pu_extraEntropy := Some [], pu_refScriptCostStride := Some 25600\<rparr>)]) 7) = Inr b \<and>
     Update_fromCbor b = Inr y"
proof -
  have "Update_valid (Update_new (ProposedProtocolParameterUpdates_new
      [(replicate 28 0, ProtocolParamUpdate_new\<lparr>pu_minFeeA := Some 44, pu_extraEntropy := Some [], pu_refScriptCostStride := Some 25600\<rparr>)]) 7)"
    by (simp add: Update_valid_def Update_new_def ProposedProtocolParameterUpdates_valid_def ProposedProtocolParameterUpdates_new_def
        ProtocolParamUpdate_valid_def ProtocolParamUpdate_new_def)
  from update_roundtrip [OF this] show ?thesis by blast
qed

text \<open>Parameters out of their range are refused by the setters: the sizes of reference scripts are 32-bit
  numbers, their cost stride is positive and their cost multiplier is a positive fraction.\<close>

theorem reference_script_parameters_checked:
  "((\<exists>q. ProtocolParamUpdate_setMaxRefScriptSizePerBlock i p = Inr q) \<longleftrightarrow> 0 \<le> i \<and> i < 2 ^ 32) \<and>
   ((\<exists>q. ProtocolParamUpdate_setMaxRefScriptSizePerTx i p = Inr q) \<longleftrightarrow> 0 \<le> i \<and> i < 2 ^ 32) \<and>
   ((\<exists>q. ProtocolParamUpdate_setRefScriptCostStride i p = Inr q) \<longleftrightarrow> 0 < i \<and> i < 2 ^ 32) \<and>
   ((\<exists>q. ProtocolParamUpdate_setRefScriptCostMultiplier u p = Inr q) \<longleftrightarrow> 0 < ui_numerator u \<and> 0 < ui_denominator u)"
  by (auto simp: ProtocolParamUpdate_setMaxRefScriptSizePerBlock_def ProtocolParamUpdate_setMaxRefScriptSizePerTx_def
      ProtocolParamUpdate_setRefScriptCostStride_def ProtocolParamUpdate_setRefScriptCostMultiplier_def
      assertUint32_def assertPositiveWord32_def assertPositiveInterval_def MAX_WORD32_def)

text \<open>A setter that does not forget the bytes the proposal was read from has no effect on what is written.\<close>

theorem setMinFeeA_keeps_stale_bytes:
  assumes "ProtocolParamUpdate_fromCbor b = Inr p"
  shows "ProtocolParamUpdate_toCbor (ProtocolParamUpdate_setMinFeeA i p) = Inr b \<and>
    ProposedProtocolParameterUpdates_toCbor (ProposedProtocolParameterUpdates_insert k p
      ((ProposedProtocolParameterUpdates_new ups)\<lparr>ppu_originalBytes := Some [c]\<rparr>)) = Inr [c]"
proof -
  have "b \<noteq> []" using assms by (auto simp: ProtocolParamUpdate_fromCbor_def)
  then show ?thesis using assms
    by (auto simp: ProtocolParamUpdate_fromCbor_def ProtocolParamUpdate_toCbor_def ProtocolParamUpdate_setMinFeeA_def
        ProposedProtocolParameterUpdates_toCbor_def ProposedProtocolParameterUpdates_insert_def)
qed

end
