(* ===== verification/Voting.thy ===== *)
theory Voting
  imports Field_Table
begin

text \<open>
  Votes on governance actions (\<open>core/src/Serialization/TransactionBody/VotingProcedures\<close>): voters,
  the vote of a voter on an action, and all votes of a transaction.
\<close>

subsection \<open>Voters\<close>

datatype VoterKind = ConstitutionalCommitteeKeyHash | ConstitutionalCommitteeScriptHash | DrepKeyHash | DRepScriptHash | StakePoolKeyHash

fun voterKind_num :: "VoterKind \<Rightarrow> int" where
  "voterKind_num ConstitutionalCommitteeKeyHash = 0"
| "voterKind_num ConstitutionalCommitteeScriptHash = 1"
| "voterKind_num DrepKeyHash = 2"
| "voterKind_num DRepScriptHash = 3"
| "voterKind_num StakePoolKeyHash = 4"

record Voter =
  vo_kind :: VoterKind
  vo_credential :: Credential
  vo_originalBytes :: "bytes option"

definition Voter_new :: "VoterKind \<Rightarrow> Credential \<Rightarrow> Voter" where
  "Voter_new kind credential = \<lparr>vo_kind = kind, vo_credential = credential, vo_originalBytes = None\<rparr>"

definition Voter_toCbor :: "Voter \<Rightarrow> bytes result" where
  "Voter_toCbor v = cached (vo_originalBytes v)
     (write_all [writeStartArray (Some 2), writeInt (voterKind_num (vo_kind v)), writeByteString (cred_hash (vo_credential v))])"

text \<open>The \<open>switch\<close> of \<open>fromCbor\<close>: the kind tells the type of the credential.\<close>

definition voter_of_kind :: "int \<Rightarrow> bytes \<Rightarrow> Voter result" where
  "voter_of_kind kind hash =
     (if kind = 0 then Inr (Voter_new ConstitutionalCommitteeKeyHash \<lparr>cred_type = KeyHash, cred_hash = hash\<rparr>)
      else if kind = 2 then Inr (Voter_new DrepKeyHash \<lparr>cred_type = KeyHash, cred_hash = hash\<rparr>)
      else if kind = 4 then Inr (Voter_new StakePoolKeyHash \<lparr>cred_type = KeyHash, cred_hash = hash\<rparr>)
      else if kind = 1 then Inr (Voter_new ConstitutionalCommitteeScriptHash \<lparr>cred_type = ScriptHash, cred_hash = hash\<rparr>)
      else if kind = 3 then Inr (Voter_new DRepScriptHash \<lparr>cred_type = ScriptHash, cred_hash = hash\<rparr>)
      else Inl InvalidStateError)"

definition Voter_fromCbor :: "bytes \<Rightarrow> Voter result" where
  "Voter_fromCbor cbor =
     ebind (expectArray 2 (new_reader cbor)) (\<lambda>r.
     ebind (readNumber r) (\<lambda>(kind, r).
     ebind (readByteString r) (\<lambda>(hash, r).
     ebind (voter_of_kind kind hash) (\<lambda>voter.
       Inr (voter\<lparr>vo_originalBytes := Some cbor\<rparr>)))))"

datatype Core_Voter = CcHotKeyHash Credential | CcHotScriptHash Credential | Core_DRepKeyHash Credential
  | Core_DRepScriptHash Credential | Core_StakePoolKeyHash Credential

definition Voter_toCore :: "Voter \<Rightarrow> Core_Voter" where
  "Voter_toCore v =
     (let key = \<lparr>cred_type = KeyHash, cred_hash = cred_hash (vo_credential v)\<rparr>;
          script = \<lparr>cred_type = ScriptHash, cred_hash = cred_hash (vo_credential v)\<rparr>
      in case vo_kind v of
           ConstitutionalCommitteeKeyHash \<Rightarrow> CcHotKeyHash key
         | ConstitutionalCommitteeScriptHash \<Rightarrow> CcHotScriptHash script
         | DrepKeyHash \<Rightarrow> Core_DRepKeyHash key
         | DRepScriptHash \<Rightarrow> Core_DRepScriptHash script
         | StakePoolKeyHash \<Rightarrow> Core_StakePoolKeyHash key)"

definition Voter_newConstitutionalCommitteeHotKey :: "Credential \<Rightarrow> Voter" where
  "Voter_newConstitutionalCommitteeHotKey credential =
     Voter_new (if cred_type credential = KeyHash then ConstitutionalCommitteeKeyHash else ConstitutionalCommitteeScriptHash) credential"

definition Voter_newDrep :: "Credential \<Rightarrow> Voter" where
  "Voter_newDrep credential = Voter_new (if cred_type credential = KeyHash then DrepKeyHash else DRepScriptHash) credential"

definition Voter_newStakingPool :: "bytes \<Rightarrow> Voter" where
  "Voter_newStakingPool keyHash = Voter_new StakePoolKeyHash \<lparr>cred_type = KeyHash, cred_hash = keyHash\<rparr>"

definition Voter_fromCore :: "Core_Voter \<Rightarrow> Voter" where
  "Voter_fromCore v = (case v of
       CcHotKeyHash c \<Rightarrow> Voter_newConstitutionalCommitteeHotKey c
     | CcHotScriptHash c \<Rightarrow> Voter_newConstitutionalCommitteeHotKey c
     | Core_DRepKeyHash c \<Rightarrow> Voter_newDrep c
     | Core_DRepScriptHash c \<Rightarrow> Voter_newDrep c
     | Core_StakePoolKeyHash c \<Rightarrow> Voter_newStakingPool (cred_hash c))"

definition Voter_toConstitutionalCommitteeHotCred :: "Voter \<Rightarrow> Credential option" where
  "Voter_toConstitutionalCommitteeHotCred v =
     (if vo_kind v \<in> {ConstitutionalCommitteeKeyHash, ConstitutionalCommitteeScriptHash} then Some (vo_credential v) else None)"

definition Voter_toDrepCred :: "Voter \<Rightarrow> Credential option" where
  "Voter_toDrepCred v = (if vo_kind v \<in> {DrepKeyHash, DRepScriptHash} then Some (vo_credential v) else None)"

definition Voter_toStakingPoolKeyHash :: "Voter \<Rightarrow> bytes option" where
  "Voter_toStakingPoolKeyHash v = (if vo_kind v = StakePoolKeyHash then Some (cred_hash (vo_credential v)) else None)"

definition Voter_equals :: "Voter \<Rightarrow> Voter \<Rightarrow> bool" where
  "Voter_equals v u \<longleftrightarrow> vo_kind v = vo_kind u \<and> cred_type (vo_credential v) = cred_type (vo_credential u) \<and>
     cred_hash (vo_credential v) = cred_hash (vo_credential u)"

text \<open>The invariant of the class: the type of the credential is the one the kind tells.\<close>

definition Voter_wf :: "Voter \<Rightarrow> bool" where
  "Voter_wf v \<longleftrightarrow> cred_type (vo_credential v) =
     (if vo_kind v \<in> {ConstitutionalCommitteeScriptHash, DRepScriptHash} then ScriptHash else KeyHash)"

definition Voter_valid :: "Voter \<Rightarrow> bool" where
  "Voter_valid v \<longleftrightarrow> Voter_wf v \<and> small_bytes (cred_hash (vo_credential v)) \<and> vo_originalBytes v = None"

lemma voter_of_num:
  "Voter_wf v \<Longrightarrow> voter_of_kind (voterKind_num (vo_kind v)) (cred_hash (vo_credential v)) = Inr (v\<lparr>vo_originalBytes := None\<rparr>)"
  by (cases "vo_kind v"; cases v) (simp_all add: voter_of_kind_def Voter_new_def Voter_wf_def)

lemma safe_voterKind: "safe_int (voterKind_num k)" "0 \<le> voterKind_num k" "voterKind_num k < 5"
  by (cases k; simp)+

abbreviation voter_content :: "Voter \<Rightarrow> VoterKind \<times> Credential" where
  "voter_content v \<equiv> (vo_kind v, vo_credential v)"

interpretation voter: caching_codec Voter_toCbor Voter_fromCbor Voter_valid voter_content
proof (unfold_locales, goal_cases)
  case (1 v)
  then show ?case using safe_voterKind [of "vo_kind v"]
    by (simp add: Voter_valid_def Voter_toCbor_def Voter_fromCbor_def readNumber_def voter_of_num
        write_all_def encode_def rd_simps rd_last cbor_items)
next
  case (2 b y)
  then show ?case by (auto simp: Voter_toCbor_def Voter_fromCbor_def dest!: expectArray_nonempty)
qed

lemma not_key: "cred_type c \<noteq> KeyHash \<longleftrightarrow> cred_type c = ScriptHash"
  by (cases "cred_type c") simp_all

lemma voter_fromCore_wf: "Voter_wf (Voter_fromCore v)"
  by (cases v) (simp_all add: Voter_wf_def Voter_fromCore_def Voter_newConstitutionalCommitteeHotKey_def Voter_newDrep_def
      Voter_newStakingPool_def Voter_new_def not_key)

lemma voter_of_kind_wf: "voter_of_kind k h = Inr y \<Longrightarrow> Voter_wf y"
  by (auto simp: voter_of_kind_def Voter_wf_def Voter_new_def split: if_splits)

lemma voter_fromCbor_wf: "Voter_fromCbor b = Inr y \<Longrightarrow> Voter_wf y"
  by (auto simp: Voter_fromCbor_def dest!: voter_of_kind_wf) (simp add: Voter_wf_def)

lemma voter_core_roundtrip: "Voter_wf v \<Longrightarrow> vo_originalBytes v = None \<Longrightarrow> Voter_fromCore (Voter_toCore v) = v"
  by (cases v; cases "vo_kind v")
    (simp_all add: Voter_wf_def Voter_fromCore_def Voter_toCore_def Voter_newConstitutionalCommitteeHotKey_def Voter_newDrep_def
      Voter_newStakingPool_def Voter_new_def Let_def)

subsection \<open>A vote\<close>

datatype Vote = Vote_no | Vote_yes | Vote_abstain

fun vote_num :: "Vote \<Rightarrow> int" where
  "vote_num Vote_no = 0" | "vote_num Vote_yes = 1" | "vote_num Vote_abstain = 2"

record VotingProcedure =
  vp_vote :: Vote
  vp_anchor :: "Anchor option"
  vp_originalBytes :: "bytes option"

definition VotingProcedure_new :: "Vote \<Rightarrow> Anchor option \<Rightarrow> VotingProcedure" where
  "VotingProcedure_new vote anchor = \<lparr>vp_vote = vote, vp_anchor = anchor, vp_originalBytes = None\<rparr>"

definition VotingProcedure_toCbor :: "VotingProcedure \<Rightarrow> bytes result" where
  "VotingProcedure_toCbor p = cached (vp_originalBytes p)
     (write_all [writeStartArray (Some 2), writeInt (vote_num (vp_vote p)), writeNullable Anchor_toCbor (vp_anchor p)])"

definition vote_of_num :: "int \<Rightarrow> Vote result" where
  "vote_of_num vote = (if vote = 0 then Inr Vote_no else if vote = 1 then Inr Vote_yes
     else if vote = 2 then Inr Vote_abstain else Inl InvalidStateError)"

text \<open>Neither the length nor the end of the array is checked.\<close>

definition VotingProcedure_fromCbor :: "bytes \<Rightarrow> VotingProcedure result" where
  "VotingProcedure_fromCbor cbor =
     ebind (readStartArray (new_reader cbor)) (\<lambda>(_, r).
     ebind (readNumber r) (\<lambda>(vote, r).
     ebind (vote_of_num vote) (\<lambda>vote.
     ebind (readNullable Anchor_fromCbor r) (\<lambda>(anchor, r).
       Inr ((VotingProcedure_new vote anchor)\<lparr>vp_originalBytes := Some cbor\<rparr>)))))"

definition VotingProcedure_setVote :: "Vote \<Rightarrow> VotingProcedure \<Rightarrow> VotingProcedure" where
  "VotingProcedure_setVote vote p = p\<lparr>vp_vote := vote, vp_originalBytes := None\<rparr>"

definition VotingProcedure_setAnchor :: "Anchor option \<Rightarrow> VotingProcedure \<Rightarrow> VotingProcedure" where
  "VotingProcedure_setAnchor anchor p = p\<lparr>vp_anchor := anchor, vp_originalBytes := None\<rparr>"

definition vote_content :: "VotingProcedure \<Rightarrow> Vote \<times> (js_string \<times> bytes) option" where
  "vote_content p = (vp_vote p, map_option anchor_content (vp_anchor p))"

definition VotingProcedure_valid :: "VotingProcedure \<Rightarrow> bool" where
  "VotingProcedure_valid p \<longleftrightarrow> pred_option Anchor_valid (vp_anchor p) \<and> vp_originalBytes p = None"

lemma vote_of_vote_num [simp]: "vote_of_num (vote_num v) = Inr v" "safe_int (vote_num v)" "cbor_int (vote_num v)"
  by (cases v; simp add: vote_of_num_def)+

lemma readStartArray_empty: "readStartArray (new_reader []) = Inl (CborContentException UnexpectedEndOfBuffer)"
  by simp

interpretation voting_procedure: caching_codec VotingProcedure_toCbor VotingProcedure_fromCbor VotingProcedure_valid vote_content
proof (unfold_locales, goal_cases)
  case (1 p)
  then have "\<forall>a. vp_anchor p = Some a \<longrightarrow> Anchor_valid a" by (auto simp: VotingProcedure_valid_def)
  then obtain b y where f: "field_ok (writeNullable Anchor_toCbor (vp_anchor p)) b (readNullable Anchor_fromCbor) y"
    "map_option anchor_content y = map_option anchor_content (vp_anchor p)"
    using field_anchor [of "vp_anchor p"] by blast
  with 1 show ?case using field_okD [OF f(1)]
    by (simp add: VotingProcedure_valid_def VotingProcedure_toCbor_def VotingProcedure_fromCbor_def VotingProcedure_new_def vote_content_def
        readNumber_def write_all_def encode_def rd_simps cbor_items)
next
  case (2 b y)
  then show ?case by (cases "b = []") (auto simp: VotingProcedure_toCbor_def VotingProcedure_fromCbor_def)
qed

subsection \<open>Loops whose rounds may fail\<close>

text \<open>
  A round that inserts into the state fails on a duplicate, so what it does depends on the state it
  finds. \<open>reads_path step xs s s'\<close>: from \<open>s\<close> on, the rounds read the entries \<open>xs\<close> and end in \<open>s'\<close>.
\<close>

definition entry_at ::
    "('s \<Rightarrow> CborReader \<Rightarrow> ('s \<times> CborReader) result) \<Rightarrow> bytes \<times> bytes \<Rightarrow> 's \<Rightarrow> 's \<Rightarrow> bool" where
  "entry_at step kv s s' \<longleftrightarrow> cbor_item (fst kv) \<and> cbor_item (snd kv) \<and>
     (\<forall>c pre bs fr stk. open_frame fr \<longrightarrow> open_frame (bumps 1 fr) \<longrightarrow>
        step s (rd c pre (fst kv @ snd kv @ bs) fr stk False) =
          Inr (s', rd U (pre @ fst kv @ snd kv) bs (bumps 2 fr) stk False))"

inductive reads_path ::
    "('s \<Rightarrow> CborReader \<Rightarrow> ('s \<times> CborReader) result) \<Rightarrow> (bytes \<times> bytes) list \<Rightarrow> 's \<Rightarrow> 's \<Rightarrow> bool"
  for step where
  path_Nil: "reads_path step [] s s"
| path_Cons: "entry_at step x s s1 \<Longrightarrow> reads_path step xs s1 s' \<Longrightarrow> reads_path step (x # xs) s s'"

lemma readLoop_entry_at:
  assumes "entry_at step kv s s'" and "open_frame fr" and "open_frame (bumps 1 fr)"
  shows "readLoop EndMap step s (rd U pre (fst kv @ snd kv @ bs) fr stk False) =
    readLoop EndMap step s' (rd U (pre @ fst kv @ snd kv) bs (bumps 2 fr) stk False)"
proof -
  have "reader_size (rd U pre (fst kv @ snd kv @ bs) fr stk False) >
      reader_size (rd U (pre @ fst kv @ snd kv) bs (bumps 2 fr) stk False)"
    using assms(1) cbor_item_hd(1) [of "fst kv"] by (simp add: entry_at_def reader_size_def rd_def)
  with assms show ?thesis
    by (subst readLoop.simps) (auto simp: entry_at_def peekState_rd peekStateCore_item)
qed

lemma readLoop_path:
  assumes "reads_path step xs s s'" and "n = k + 2 * length xs"
  shows "readLoop EndMap step s (rd U pre (concat (flat xs) @ bs) (map_frame off (Some n) k) stk False) =
    Inr (s', rd EndMap (pre @ concat (flat xs)) bs (map_frame off (Some n) n) stk False)"
  using assms
proof (induction arbitrary: pre k rule: reads_path.induct)
  case (path_Nil s)
  then show ?case by (subst readLoop.simps) (simp add: peekState_rd peekStateCore_ends)
next
  case (path_Cons x s s1 xs s')
  have "flat (x # xs) = fst x # snd x # flat xs" by (cases x) simp
  with path_Cons show ?case by (simp add: readLoop_entry_at)
qed

lemma path_items: "reads_path step xs s s' \<Longrightarrow> \<forall>x \<in> set (flat xs). cbor_item x"
  by (induction rule: reads_path.induct) (auto simp: entry_at_def)

lemma path_map_item:
  assumes "reads_path step xs s s'" and "length xs < 4503599627370496"
  shows "cbor_item (enc_head MapType (length xs) @ concat (flat xs))"
  using ci_map [of "length xs" _ "flat xs"] path_items [OF assms(1)] assms(2) by simp

lemma readMapWith_path:
  assumes "reads_path step xs s s'" and "length xs < 4503599627370496" and "open_frame fr"
  shows "readMapWith step s (rd c pre (enc_head MapType (length xs) @ concat (flat xs) @ bs) fr stk tag) =
    Inr (s', rd U (pre @ enc_head MapType (length xs) @ concat (flat xs)) bs (bumps 1 fr) stk False)"
proof -
  have "2 * length xs \<le> length (concat (flat xs))"
    using length_concat_items [OF path_items [OF assms(1)]] by simp
  with assms show ?thesis by (simp add: readMapWith_def rd_simps readLoop_path)
qed

subsection \<open>All votes of a transaction\<close>

type_synonym votes = "(GovernanceActionId \<times> VotingProcedure) list"

record VotingProcedures =
  vps_procedures :: "(Voter \<times> votes) list"
  vps_originalBytes :: "bytes option"

definition VotingProcedures_new :: VotingProcedures where
  "VotingProcedures_new = \<lparr>vps_procedures = [], vps_originalBytes = None\<rparr>"

text \<open>\<open>Array.prototype.find\<close> of a voter and of an action.\<close>

definition find_voter :: "Voter \<Rightarrow> (Voter \<times> votes) list \<Rightarrow> (Voter \<times> votes) option" where
  "find_voter voter = List.find (\<lambda>e. Voter_equals (fst e) voter)"

definition find_vote :: "GovernanceActionId \<Rightarrow> votes \<Rightarrow> (GovernanceActionId \<times> VotingProcedure) option" where
  "find_vote actionId = List.find (\<lambda>e. GovernanceActionId_equals (fst e) actionId)"

text \<open>The votes of the first entry of the voter are extended.\<close>

fun push_vote :: "Voter \<Rightarrow> GovernanceActionId \<times> VotingProcedure \<Rightarrow> (Voter \<times> votes) list \<Rightarrow> (Voter \<times> votes) list" where
  "push_vote voter vote [] = []"
| "push_vote voter vote (e # es) = (if Voter_equals (fst e) voter then (fst e, snd e @ [vote]) # es else e # push_vote voter vote es)"

definition VotingProcedures_insert ::
    "Voter \<Rightarrow> GovernanceActionId \<Rightarrow> VotingProcedure \<Rightarrow> VotingProcedures \<Rightarrow> VotingProcedures result" where
  "VotingProcedures_insert voter actionId votingProcedure p =
     (case find_voter voter (vps_procedures p) of
        None \<Rightarrow> Inr (p\<lparr>vps_procedures := vps_procedures p @ [(voter, [(actionId, votingProcedure)])]\<rparr>)
      | Some foundVoter \<Rightarrow>
          (case find_vote actionId (snd foundVoter) of
             Some _ \<Rightarrow> Inl InvalidArgumentError
           | None \<Rightarrow> Inr (p\<lparr>vps_procedures := push_vote voter (actionId, votingProcedure) (vps_procedures p),
                            vps_originalBytes := None\<rparr>)))"

definition VotingProcedures_get :: "Voter \<Rightarrow> GovernanceActionId \<Rightarrow> VotingProcedures \<Rightarrow> VotingProcedure option" where
  "VotingProcedures_get voter governanceActionId p =
     (case find_voter voter (vps_procedures p) of None \<Rightarrow> None
      | Some foundVoter \<Rightarrow> map_option snd (find_vote governanceActionId (snd foundVoter)))"

definition VotingProcedures_getVoters :: "VotingProcedures \<Rightarrow> Voter list" where
  "VotingProcedures_getVoters p = map fst (vps_procedures p)"

definition VotingProcedures_getGovernanceActionIdsByVoter :: "Voter \<Rightarrow> VotingProcedures \<Rightarrow> GovernanceActionId list" where
  "VotingProcedures_getGovernanceActionIdsByVoter voter p =
     (case find_voter voter (vps_procedures p) of None \<Rightarrow> [] | Some foundVoter \<Rightarrow> map fst (snd foundVoter))"

definition writeVote :: "VotingProcedures \<Rightarrow> Voter \<Rightarrow> GovernanceActionId \<Rightarrow> writer_op list" where
  "writeVote p voter actionId =
     [writeObject (GovernanceActionId_toCbor actionId),
      writeObject (case VotingProcedures_get voter actionId p of None \<Rightarrow> Inl InvalidStateError | Some vote \<Rightarrow> VotingProcedure_toCbor vote)]"

definition writeVotes :: "VotingProcedures \<Rightarrow> Voter \<Rightarrow> writer_op list" where
  "writeVotes p voter =
     (let governanceActionIds = VotingProcedures_getGovernanceActionIdsByVoter voter p in
      if governanceActionIds = [] then [\<lambda>w. Inl InvalidStateError]
      else writeObject (Voter_toCbor voter) # writeStartMap (Some (length governanceActionIds)) #
        concat (map (writeVote p voter) governanceActionIds))"

definition VotingProcedures_toCbor :: "VotingProcedures \<Rightarrow> bytes result" where
  "VotingProcedures_toCbor p = cached (vps_originalBytes p)
     (let voters = VotingProcedures_getVoters p in
      if voters = [] then Inl InvalidStateError
      else write_all (writeStartMap (Some (length voters)) # concat (map (writeVotes p) voters)))"

definition readVote :: "Voter \<Rightarrow> VotingProcedures \<Rightarrow> CborReader \<Rightarrow> (VotingProcedures \<times> CborReader) result" where
  "readVote voter p r =
     ebind (readObject GovernanceActionId_fromCbor r) (\<lambda>(actionId, r).
     ebind (readObject VotingProcedure_fromCbor r) (\<lambda>(vote, r).
     ebind (VotingProcedures_insert voter actionId vote p) (\<lambda>p. Inr (p, r))))"

definition readVotes :: "VotingProcedures \<Rightarrow> CborReader \<Rightarrow> (VotingProcedures \<times> CborReader) result" where
  "readVotes p r = ebind (readObject Voter_fromCbor r) (\<lambda>(voter, r). readMapWith (readVote voter) p r)"

definition VotingProcedures_fromCbor :: "bytes \<Rightarrow> VotingProcedures result" where
  "VotingProcedures_fromCbor cbor =
     ebind (readMapWith readVotes VotingProcedures_new (new_reader cbor)) (\<lambda>(p, r). Inr (p\<lparr>vps_originalBytes := Some cbor\<rparr>))"

subsection \<open>Votes are read back\<close>

abbreviation action_content :: "GovernanceActionId \<Rightarrow> bytes \<times> int" where
  "action_content g \<equiv> (ga_id g, ga_index g)"

definition ballot_content ::
    "GovernanceActionId \<times> VotingProcedure \<Rightarrow> (bytes \<times> int) \<times> Vote \<times> (js_string \<times> bytes) option" where
  "ballot_content e = (action_content (fst e), vote_content (snd e))"

definition votes_content where
  "votes_content p = map (\<lambda>e. (voter_content (fst e), map ballot_content (snd e))) (vps_procedures p)"

definition votes_valid :: "Voter \<times> votes \<Rightarrow> bool" where
  "votes_valid e \<longleftrightarrow> Voter_valid (fst e) \<and> snd e \<noteq> [] \<and> length (snd e) < 4503599627370496 \<and>
     distinct (map (action_content \<circ> fst) (snd e)) \<and>
     (\<forall>b \<in> set (snd e). GovernanceActionId_valid (fst b) \<and> VotingProcedure_valid (snd b))"

definition VotingProcedures_valid :: "VotingProcedures \<Rightarrow> bool" where
  "VotingProcedures_valid p \<longleftrightarrow> vps_originalBytes p = None \<and> vps_procedures p \<noteq> [] \<and> length (vps_procedures p) < 4503599627370496 \<and>
     distinct (map (voter_content \<circ> fst) (vps_procedures p)) \<and> (\<forall>e \<in> set (vps_procedures p). votes_valid e)"

lemma Voter_equals_content: "Voter_equals v u \<longleftrightarrow> voter_content v = voter_content u"
  by (cases "vo_credential v"; cases "vo_credential u") (auto simp: Voter_equals_def)

lemma Action_equals_content: "GovernanceActionId_equals g h \<longleftrightarrow> action_content g = action_content h"
  by (auto simp: GovernanceActionId_equals_def)

lemma find_by_key:
  assumes "distinct (map f xs)" and "e \<in> set xs"
  shows "List.find (\<lambda>x. f x = f e) xs = Some e"
  using assms by (induction xs) (auto simp: rev_image_eqI)

lemma find_voter_member: "distinct (map (voter_content \<circ> fst) es) \<Longrightarrow> e \<in> set es \<Longrightarrow> find_voter (fst e) es = Some e"
  using find_by_key [of "voter_content \<circ> fst" es e] by (simp add: find_voter_def Voter_equals_content)

lemma find_vote_member: "distinct (map (action_content \<circ> fst) bs) \<Longrightarrow> b \<in> set bs \<Longrightarrow> find_vote (fst b) bs = Some b"
  using find_by_key [of "action_content \<circ> fst" bs b] by (simp add: find_vote_def Action_equals_content)

definition ballot_ops :: "GovernanceActionId \<times> VotingProcedure \<Rightarrow> writer_op list" where
  "ballot_ops b = [writeObject (GovernanceActionId_toCbor (fst b)), writeObject (VotingProcedure_toCbor (snd b))]"

definition voter_ops :: "Voter \<times> votes \<Rightarrow> writer_op list" where
  "voter_ops e = writeObject (Voter_toCbor (fst e)) # writeStartMap (Some (length (snd e))) # concat (map ballot_ops (snd e))"

lemma writeVotes_entry:
  assumes "VotingProcedures_valid p" and "e \<in> set (vps_procedures p)"
  shows "writeVotes p (fst e) = voter_ops e"
proof -
  have f: "find_voter (fst e) (vps_procedures p) = Some e"
    using assms by (intro find_voter_member) (auto simp: VotingProcedures_valid_def)
  have v: "votes_valid e" using assms by (auto simp: VotingProcedures_valid_def)
  then have "map (writeVote p (fst e) \<circ> fst) (snd e) = map ballot_ops (snd e)"
    using f find_vote_member [of "snd e"]
    by (auto simp: writeVote_def ballot_ops_def VotingProcedures_get_def votes_valid_def)
  then have "concat (map (writeVote p (fst e) \<circ> fst) (snd e)) = concat (map ballot_ops (snd e))" by (rule arg_cong)
  with f v show ?thesis
    by (simp add: writeVotes_def voter_ops_def VotingProcedures_getGovernanceActionIdsByVoter_def Let_def votes_valid_def)
qed

text \<open>The bytes of a ballot and of a list of ballots.\<close>

definition ballot_bytes :: "bytes \<times> bytes \<Rightarrow> GovernanceActionId \<times> VotingProcedure \<Rightarrow> bool" where
  "ballot_bytes x y \<longleftrightarrow> cbor_item (fst x) \<and> cbor_item (snd x) \<and> GovernanceActionId_fromCbor (fst x) = Inr (fst y) \<and>
     VotingProcedure_fromCbor (snd x) = Inr (snd y)"

lemma ballot_written:
  assumes "GovernanceActionId_valid (fst b)" and "VotingProcedure_valid (snd b)"
  shows "\<exists>x y. (\<forall>w. run_ops (ballot_ops b) w = Inr (w @ fst x @ snd x)) \<and> ballot_bytes x y \<and> ballot_content y = ballot_content b"
proof -
  obtain k g where k: "GovernanceActionId_toCbor (fst b) = Inr k" "cbor_item k" "GovernanceActionId_fromCbor k = Inr g"
    "action_content g = action_content (fst b)" using governance_action_id.encodes [OF assms(1)] by auto
  obtain v p where v: "VotingProcedure_toCbor (snd b) = Inr v" "cbor_item v" "VotingProcedure_fromCbor v = Inr p"
    "vote_content p = vote_content (snd b)" using voting_procedure.encodes [OF assms(2)] by auto
  show ?thesis using k v
    by (intro exI [of _ "(k, v)"] exI [of _ "(g, p)"]) (simp add: ballot_ops_def writeObject_def ballot_bytes_def ballot_content_def)
qed

lemma ballots_written:
  assumes "\<forall>b \<in> set bs. GovernanceActionId_valid (fst b) \<and> VotingProcedure_valid (snd b)"
  shows "\<exists>xs ys. (\<forall>w. run_ops (concat (map ballot_ops bs)) w = Inr (w @ concat (flat xs))) \<and>
    list_all2 ballot_bytes xs ys \<and> map ballot_content ys = map ballot_content bs"
  using assms
proof (induction bs)
  case (Cons b bs)
  then obtain xs ys where IH: "\<forall>w. run_ops (concat (map ballot_ops bs)) w = Inr (w @ concat (flat xs))"
    "list_all2 ballot_bytes xs ys" "map ballot_content ys = map ballot_content bs" by auto
  obtain x y where x: "\<forall>w. run_ops (ballot_ops b) w = Inr (w @ fst x @ snd x)" "ballot_bytes x y" "ballot_content y = ballot_content b"
    using ballot_written [of b] Cons.prems by auto
  have "flat (x # xs) = fst x # snd x # flat xs" by (cases x) simp
  with IH x show ?case by (intro exI [of _ "x # xs"] exI [of _ "y # ys"]) (simp add: run_ops_append)
qed (rule exI [of _ "[]"], simp)

text \<open>The states of the loop: the voters that were read, and the voter whose ballots are being read.\<close>

definition votes_state :: "(Voter \<times> votes) list \<Rightarrow> VotingProcedures" where
  "votes_state es = \<lparr>vps_procedures = es, vps_originalBytes = None\<rparr>"

definition with_ballots :: "(Voter \<times> votes) list \<Rightarrow> Voter \<Rightarrow> votes \<Rightarrow> (Voter \<times> votes) list" where
  "with_ballots es v bs = (if bs = [] then es else es @ [(v, bs)])"

lemma find_voter_fresh: "voter_content v \<notin> set (map (voter_content \<circ> fst) es) \<Longrightarrow> find_voter v es = None"
  by (induction es) (auto simp: find_voter_def Voter_equals_content)

lemma find_voter_last: "voter_content v \<notin> set (map (voter_content \<circ> fst) es) \<Longrightarrow> find_voter v (es @ [(v, bs)]) = Some (v, bs)"
  by (induction es) (auto simp: find_voter_def Voter_equals_content)

lemma push_vote_last:
  "voter_content v \<notin> set (map (voter_content \<circ> fst) es) \<Longrightarrow> push_vote v b (es @ [(v, bs)]) = es @ [(v, bs @ [b])]"
  by (induction es) (auto simp: Voter_equals_content)

lemma find_vote_fresh: "action_content g \<notin> set (map (action_content \<circ> fst) bs) \<Longrightarrow> find_vote g bs = None"
  by (induction bs) (auto simp: find_vote_def Action_equals_content)

lemma insert_ballot:
  assumes "voter_content v \<notin> set (map (voter_content \<circ> fst) es)" and "action_content (fst b) \<notin> set (map (action_content \<circ> fst) bs)"
  shows "VotingProcedures_insert v (fst b) (snd b) (votes_state (with_ballots es v bs)) = Inr (votes_state (with_ballots es v (bs @ [b])))"
  using find_voter_fresh [OF assms(1)] find_voter_last [OF assms(1)] push_vote_last [OF assms(1)] find_vote_fresh [OF assms(2)]
  by (simp add: VotingProcedures_insert_def votes_state_def with_ballots_def)

lemma ballots_path:
  assumes "list_all2 ballot_bytes xs ys" and "voter_content v \<notin> set (map (voter_content \<circ> fst) es)"
    and "distinct (map (action_content \<circ> fst) (bs @ ys))"
  shows "reads_path (readVote v) xs (votes_state (with_ballots es v bs)) (votes_state (with_ballots es v (bs @ ys)))"
  using assms(1,3)
proof (induction xs ys arbitrary: bs rule: list_all2_induct)
  case (Cons x xs y ys)
  have fresh: "action_content (fst y) \<notin> set (map (action_content \<circ> fst) bs)" using Cons.prems by auto
  have "entry_at (readVote v) x (votes_state (with_ballots es v bs)) (votes_state (with_ballots es v (bs @ [y])))"
    using Cons.hyps(1) insert_ballot [OF assms(2) fresh]
    by (simp add: entry_at_def ballot_bytes_def readVote_def readObject_rd numeral_2_eq_2 [symmetric])
  moreover have "reads_path (readVote v) xs (votes_state (with_ballots es v (bs @ [y]))) (votes_state (with_ballots es v ((bs @ [y]) @ ys)))"
    using Cons.prems by (intro Cons.IH) simp
  ultimately show ?case using path_Cons by fastforce
qed (simp add: path_Nil)

lemma voters_path:
  assumes "\<forall>e \<in> set es. votes_valid e" and "distinct (map (voter_content \<circ> fst) (ds @ es))"
  shows "\<exists>xs ps. (\<forall>w. run_ops (concat (map voter_ops es)) w = Inr (w @ concat (flat xs))) \<and> length xs = length es \<and>
    reads_path readVotes xs (votes_state ds) (votes_state (ds @ ps)) \<and>
    map (\<lambda>e. (voter_content (fst e), map ballot_content (snd e))) ps = map (\<lambda>e. (voter_content (fst e), map ballot_content (snd e))) es"
  using assms
proof (induction es arbitrary: ds)
  case Nil
  then show ?case by (intro exI [of _ "[]"]) (simp add: path_Nil)
next
  case (Cons e es)
  have e: "Voter_valid (fst e)" "snd e \<noteq> []" "length (snd e) < 4503599627370496" "distinct (map (action_content \<circ> fst) (snd e))"
    "\<forall>b \<in> set (snd e). GovernanceActionId_valid (fst b) \<and> VotingProcedure_valid (snd b)"
    using Cons.prems(1) by (simp_all add: votes_valid_def)
  obtain vb v where v: "Voter_toCbor (fst e) = Inr vb" "cbor_item vb" "Voter_fromCbor vb = Inr v" "voter_content v = voter_content (fst e)"
    using voter.encodes [OF e(1)] by auto
  obtain bx ys where b: "\<forall>w. run_ops (concat (map ballot_ops (snd e))) w = Inr (w @ concat (flat bx))" "list_all2 ballot_bytes bx ys"
    "map ballot_content ys = map ballot_content (snd e)" using ballots_written [OF e(5)] by blast
  have len: "length ys = length (snd e)" "length bx = length (snd e)"
    using map_eq_imp_length_eq [OF b(3)] list_all2_lengthD [OF b(2)] by simp_all
  have "map (action_content \<circ> fst) ys = map (action_content \<circ> fst) (snd e)"
    using arg_cong [OF b(3), of "map fst"] by (simp add: comp_def ballot_content_def)
  then have "reads_path (readVote v) bx (votes_state (with_ballots ds v [])) (votes_state (with_ballots ds v ([] @ ys)))"
    using Cons.prems(2) e(4) v(4) by (intro ballots_path [OF b(2)]) auto
  then have path: "reads_path (readVote v) bx (votes_state ds) (votes_state (ds @ [(v, ys)]))"
    using e(2) len(1) by (cases ys) (simp_all add: with_ballots_def)
  let ?x = "(vb, enc_head MapType (length bx) @ concat (flat bx))"
  have n: "length bx < 4503599627370496" using e(3) len(2) by simp
  have at: "entry_at readVotes ?x (votes_state ds) (votes_state (ds @ [(v, ys)]))"
    using v(2,3) readMapWith_path [OF path n] path_map_item [OF path n]
    by (simp add: entry_at_def readVotes_def readObject_rd numeral_2_eq_2 [symmetric])
  have d: "distinct (map (voter_content \<circ> fst) ((ds @ [(v, ys)]) @ es))" using Cons.prems(2) v(4) by (simp add: comp_def)
  have "\<forall>e \<in> set es. votes_valid e" using Cons.prems(1) by simp
  from Cons.IH [OF this d] obtain xs ps where IH: "\<forall>w. run_ops (concat (map voter_ops es)) w = Inr (w @ concat (flat xs))" "length xs = length es"
    "reads_path readVotes xs (votes_state (ds @ [(v, ys)])) (votes_state ((ds @ [(v, ys)]) @ ps))"
    "map (\<lambda>e. (voter_content (fst e), map ballot_content (snd e))) ps = map (\<lambda>e. (voter_content (fst e), map ballot_content (snd e))) es"
    by (elim exE conjE) (rule that)
  have "run_ops (voter_ops e) w = Inr (w @ fst ?x @ snd ?x)" for w
    using v(1) b(1) len(2) e(3) by (simp add: voter_ops_def writeObject_def)
  then show ?case using IH path_Cons [OF at IH(3)] v(4) b(3)
    by (intro exI [of _ "?x # xs"] exI [of _ "(v, ys) # ps"]) (simp add: run_ops_append)
qed

interpretation voting_procedures: caching_codec VotingProcedures_toCbor VotingProcedures_fromCbor VotingProcedures_valid votes_content
proof (unfold_locales, goal_cases)
  case (1 p)
  let ?es = "vps_procedures p"
  have p: "vps_originalBytes p = None" "?es \<noteq> []" "length ?es < 4503599627370496" "distinct (map (voter_content \<circ> fst) ([] @ ?es))"
    "\<forall>e \<in> set ?es. votes_valid e" using 1 by (simp_all add: VotingProcedures_valid_def)
  from voters_path [OF p(5,4)] obtain xs ps
    where w: "\<forall>w. run_ops (concat (map voter_ops ?es)) w = Inr (w @ concat (flat xs))" and n: "length xs = length ?es"
      and path: "reads_path readVotes xs (votes_state []) (votes_state ([] @ ps))"
      and c: "map (\<lambda>e. (voter_content (fst e), map ballot_content (snd e))) ps = map (\<lambda>e. (voter_content (fst e), map ballot_content (snd e))) ?es"
    by (elim exE conjE) (rule that)
  let ?b = "enc_head MapType (length xs) @ concat (flat xs)"
  have len: "length xs < 4503599627370496" using n p(3) by simp
  have ops: "concat (map (writeVotes p) (VotingProcedures_getVoters p)) = concat (map voter_ops ?es)"
    using writeVotes_entry [OF 1] by (auto simp: VotingProcedures_getVoters_def intro!: arg_cong [of _ _ concat])
  have "VotingProcedures_toCbor p = Inr ?b"
    using w n p(1,2,3) ops by (simp add: VotingProcedures_toCbor_def VotingProcedures_getVoters_def Let_def write_all_def encode_def)
  moreover have "cbor_item ?b" by (rule path_map_item [OF path len])
  moreover have "readMapWith readVotes (votes_state []) (new_reader ?b) = Inr (votes_state ps, rd U ?b [] (bumps 1 root_frame) [] False)"
    using readMapWith_path [OF path len, of root_frame U "[]" "[]" "[]" False] by (simp add: new_reader_rd)
  ultimately show ?case using c
    by (simp add: VotingProcedures_fromCbor_def VotingProcedures_new_def votes_state_def [of "[]", symmetric] votes_content_def)
      (simp add: votes_state_def)
next
  case (2 b y)
  then show ?case by (cases "b = []") (auto simp: VotingProcedures_toCbor_def VotingProcedures_fromCbor_def)
qed

subsection \<open>Properties\<close>

text \<open>C25. The votes of a transaction, with at least one ballot for each voter and at most one for each voter and
  action, are written and read back with the same voters, actions, votes and anchors in the same order;
  the object that was read is written with the same bytes.\<close>

theorem votes_roundtrip:
  assumes "VotingProcedures_valid p"
  shows "\<exists>b y. VotingProcedures_toCbor p = Inr b \<and> VotingProcedures_fromCbor b = Inr y \<and> votes_content y = votes_content p \<and>
    VotingProcedures_toCbor y = Inr b"
  by (rule voting_procedures.reencode [OF assms])

definition example_votes :: VotingProcedures where
  "example_votes = \<lparr>vps_procedures =
     [(Voter_newDrep \<lparr>cred_type = ScriptHash, cred_hash = replicate 28 1\<rparr>,
        [(GovernanceActionId_new (replicate 32 2) 0, VotingProcedure_new Vote_yes None)]),
      (Voter_newStakingPool (replicate 28 3), [(GovernanceActionId_new (replicate 32 2) 0, VotingProcedure_new Vote_no None)])],
     vps_originalBytes = None\<rparr>"

theorem votes_roundtrip_witness:
  "\<exists>b y. VotingProcedures_toCbor example_votes = Inr b \<and> VotingProcedures_fromCbor b = Inr y \<and> length (vps_procedures y) = 2"
proof -
  have "VotingProcedures_valid example_votes"
    by (simp add: example_votes_def VotingProcedures_valid_def votes_valid_def Voter_valid_def Voter_wf_def Voter_newDrep_def
        Voter_newStakingPool_def Voter_new_def GovernanceActionId_valid_def GovernanceActionId_new_def VotingProcedure_valid_def
        VotingProcedure_new_def)
  from votes_roundtrip [OF this] obtain b y where b: "VotingProcedures_toCbor example_votes = Inr b" "VotingProcedures_fromCbor b = Inr y"
    "votes_content y = votes_content example_votes" by blast
  moreover from b(3) have "length (vps_procedures y) = 2"
    using map_eq_imp_length_eq by (fastforce simp: votes_content_def example_votes_def)
  ultimately show ?thesis by blast
qed

definition VotingProcedures_wf :: "VotingProcedures \<Rightarrow> bool" where
  "VotingProcedures_wf p \<longleftrightarrow> distinct (map (voter_content \<circ> fst) (vps_procedures p)) \<and>
     (\<forall>e \<in> set (vps_procedures p). snd e \<noteq> [] \<and> distinct (map (action_content \<circ> fst) (snd e)))"

lemma find_voter_snoc: "find_voter u (es @ [e]) = (case find_voter u es of Some x \<Rightarrow> Some x | None \<Rightarrow> if Voter_equals (fst e) u then Some e else None)"
  by (induction es) (auto simp: find_voter_def)

lemma find_vote_snoc:
  "find_vote h (bs @ [b]) = (case find_vote h bs of Some x \<Rightarrow> Some x | None \<Rightarrow> if GovernanceActionId_equals (fst b) h then Some b else None)"
  by (induction bs) (auto simp: find_vote_def)

lemma find_voter_push:
  "find_voter u (push_vote v b es) =
     (if Voter_equals v u then map_option (\<lambda>e. (fst e, snd e @ [b])) (find_voter u es) else find_voter u es)"
  by (induction es) (auto simp: find_voter_def Voter_equals_content)

lemma push_vote_keys [simp]: "map (voter_content \<circ> fst) (push_vote v b es) = map (voter_content \<circ> fst) es"
  by (induction es) auto

lemma push_vote_members:
  assumes "e \<in> set (push_vote v b es)"
  shows "e \<in> set es \<or> (\<exists>d. find_voter v es = Some d \<and> d \<in> set es \<and> e = (fst d, snd d @ [b]))"
  using assms by (induction es) (auto simp: find_voter_def split: if_splits)

lemma find_vote_None: "find_vote g bs = None \<Longrightarrow> action_content g \<notin> set (map (action_content \<circ> fst) bs)"
  by (induction bs) (auto simp: find_vote_def Action_equals_content split: if_splits)

lemma find_voter_None: "find_voter v es = None \<Longrightarrow> voter_content v \<notin> set (map (voter_content \<circ> fst) es)"
  by (induction es) (auto simp: find_voter_def Voter_equals_content split: if_splits)

lemma equal_voters: "Voter_equals v u \<Longrightarrow> find_voter u es = find_voter v es"
  by (simp add: find_voter_def Voter_equals_content)

lemma equal_actions: "GovernanceActionId_equals g h \<Longrightarrow> find_vote h bs = find_vote g bs"
  by (simp add: find_vote_def Action_equals_content)

lemma insert_wf:
  assumes "VotingProcedures_wf p" and "VotingProcedures_insert v g vote p = Inr q"
  shows "VotingProcedures_wf q"
proof (cases "find_voter v (vps_procedures p)")
  case None
  then show ?thesis using assms find_voter_None [OF None]
    by (auto simp: VotingProcedures_insert_def VotingProcedures_wf_def)
next
  case (Some d)
  with assms(2) have vote: "find_vote g (snd d) = None" and q: "q = p\<lparr>vps_procedures := push_vote v (g, vote) (vps_procedures p), vps_originalBytes := None\<rparr>"
    by (auto simp: VotingProcedures_insert_def split: option.splits)
  have "snd e \<noteq> [] \<and> distinct (map (action_content \<circ> fst) (snd e))" if "e \<in> set (push_vote v (g, vote) (vps_procedures p))" for e
    using push_vote_members [OF that] assms(1) Some find_vote_None [OF vote] by (auto simp: VotingProcedures_wf_def)
  with assms(1) q show ?thesis by (simp add: VotingProcedures_wf_def)
qed

text \<open>C24. A voter casts at most one ballot on an action: inserting a second one is an error. Otherwise the ballot
  can be looked up afterwards, every other lookup is unchanged, and the voters and the actions of each
  voter stay distinct.\<close>

theorem insert_ballot_spec:
  assumes "VotingProcedures_wf p"
  shows "case VotingProcedures_get v g p of
      Some _ \<Rightarrow> VotingProcedures_insert v g vote p = Inl InvalidArgumentError
    | None \<Rightarrow> \<exists>q. VotingProcedures_insert v g vote p = Inr q \<and> VotingProcedures_wf q \<and>
        (\<forall>u h. VotingProcedures_get u h q =
           (if Voter_equals v u \<and> GovernanceActionId_equals g h then Some vote else VotingProcedures_get u h p))"
proof (cases "find_voter v (vps_procedures p)")
  case None
  let ?q = "p\<lparr>vps_procedures := vps_procedures p @ [(v, [(g, vote)])]\<rparr>"
  have "VotingProcedures_get u h ?q =
      (if Voter_equals v u \<and> GovernanceActionId_equals g h then Some vote else VotingProcedures_get u h p)" for u h
    using None equal_voters [of v u "vps_procedures p"]
    by (auto simp: VotingProcedures_get_def find_voter_snoc find_vote_def split: option.splits)
  moreover have "VotingProcedures_insert v g vote p = Inr ?q" using None by (simp add: VotingProcedures_insert_def)
  ultimately show ?thesis using None insert_wf [OF assms] by (simp add: VotingProcedures_get_def [of v g p])
next
  case (Some d)
  show ?thesis
  proof (cases "find_vote g (snd d)")
    case None
    let ?q = "p\<lparr>vps_procedures := push_vote v (g, vote) (vps_procedures p), vps_originalBytes := None\<rparr>"
    have "VotingProcedures_get u h ?q =
        (if Voter_equals v u \<and> GovernanceActionId_equals g h then Some vote else VotingProcedures_get u h p)" for u h
      using Some None equal_voters [of v u "vps_procedures p"] equal_actions [of g h "snd d"]
      by (auto simp: VotingProcedures_get_def find_voter_push find_vote_snoc split: option.splits)
    moreover have "VotingProcedures_insert v g vote p = Inr ?q" using Some None by (simp add: VotingProcedures_insert_def)
    ultimately show ?thesis using Some None insert_wf [OF assms] by (simp add: VotingProcedures_get_def [of v g p])
  qed (use Some in \<open>simp add: VotingProcedures_insert_def VotingProcedures_get_def\<close>)
qed

theorem insert_ballot_spec_witness:
  "\<exists>q. VotingProcedures_insert (Voter_new DrepKeyHash \<lparr>cred_type = KeyHash, cred_hash = [1]\<rparr>) (GovernanceActionId_new [2] 0)
     (VotingProcedure_new Vote_abstain None) example_votes = Inr q \<and> VotingProcedures_wf q"
proof -
  let ?v = "Voter_new DrepKeyHash \<lparr>cred_type = KeyHash, cred_hash = [1]\<rparr>"
  have "VotingProcedures_wf example_votes"
    by (simp add: example_votes_def VotingProcedures_wf_def Voter_newDrep_def Voter_newStakingPool_def Voter_new_def)
  from insert_ballot_spec [OF this, of ?v "GovernanceActionId_new [2] 0" "VotingProcedure_new Vote_abstain None"]
  show ?thesis
    by (auto simp: VotingProcedures_get_def find_voter_def example_votes_def Voter_equals_def Voter_newDrep_def Voter_newStakingPool_def
        Voter_new_def)
qed

text \<open>A new voter is inserted without forgetting the bytes the votes were read from.\<close>

theorem new_voter_keeps_stale_bytes:
  assumes "VotingProcedures_fromCbor b = Inr p" and "find_voter v (vps_procedures p) = None"
  shows "\<exists>q. VotingProcedures_insert v g vote p = Inr q \<and> q \<noteq> p \<and> VotingProcedures_toCbor q = Inr b"
proof -
  have "b \<noteq> []" using assms(1) by (auto simp: VotingProcedures_fromCbor_def)
  moreover have "vps_originalBytes p = Some b" using assms(1) by (auto simp: VotingProcedures_fromCbor_def)
  moreover have "p\<lparr>vps_procedures := vps_procedures p @ [e]\<rparr> \<noteq> p" for e by (cases p) simp
  ultimately show ?thesis using assms(2) by (simp add: VotingProcedures_insert_def VotingProcedures_toCbor_def)
qed

end
