(* ===== verification/Gov_Fields.thy ===== *)
theory Gov_Fields
  imports Pool_Params Address_Text Update Voting
begin

text \<open>
  What governance actions and transaction bodies share: reward accounts as text, hashes or \<open>null\<close>,
  maps that are read into a list of pairs; with the classes \<open>Constitution\<close> and \<open>Committee\<close>
  (\<open>core/src/Serialization/TransactionBody/ProposalProcedure\<close>).
\<close>

subsection \<open>Fields\<close>

definition expectKindU :: "int \<Rightarrow> CborReader \<Rightarrow> CborReader result" where
  "expectKindU kind r =
     ebind (readUInt r) (\<lambda>(i, r).
     ebind (throw_if (js_Number_int (int i) \<noteq> kind) InvalidArgumentError) (\<lambda>_. Inr r))"

text \<open>\<open>hash ? writer.writeByteString(hexToBytes(hash)) : writer.writeNull()\<close>: an empty string is written as \<open>null\<close>.\<close>

definition writeNullableHash :: "bytes option \<Rightarrow> writer_op" where
  "writeNullableHash x = (case x of None \<Rightarrow> writeNull | Some h \<Rightarrow> if h = [] then writeNull else writeByteString h)"

definition readNullableBytes :: "CborReader \<Rightarrow> (bytes option \<times> CborReader) result" where
  "readNullableBytes r =
     ebind (peekState r) (\<lambda>(state, r).
       if state = NullState then ebind (readNull r) (\<lambda>r. Inr (None, r))
       else ebind (readByteString r) (\<lambda>(b, r). Inr (Some b, r)))"

definition hash_valid :: "bytes option \<Rightarrow> bool" where
  "hash_valid x \<longleftrightarrow> pred_option (\<lambda>h. h \<noteq> [] \<and> small_bytes h) x"

lemma bytes_headed: "small_bytes h \<Longrightarrow> enc_bytes h \<noteq> [] \<and> state_of_initial_byte (hd (enc_bytes h)) \<noteq> NullState"
  using head_info [OF is_head_enc_head [of "length h" ByteString]] by (auto simp: enc_bytes_def state_of_initial_byte_def)

lemma field_nullable_hash:
  assumes "hash_valid x"
  shows "\<exists>b. field_ok (writeNullableHash x) b readNullableBytes x"
proof (cases x)
  case None
  have "field_ok (writeNullableHash x) [0xf6] readNullableBytes x"
    using None by (simp add: field_ok_def writeNullableHash_def readNullableBytes_def null_byte peekState_rd peekStateCore_rd readNull_rd)
  then show ?thesis by blast
next
  case (Some h)
  have h: "small_bytes h" "h \<noteq> []" using assms Some by (simp_all add: hash_valid_def)
  have "field_ok (writeNullableHash x) (enc_bytes h) readNullableBytes x"
    using Some h bytes_headed [OF h(1)]
    by (simp add: field_ok_def writeNullableHash_def readNullableBytes_def peekState_rd peekStateCore_item rd_simps)
  then show ?thesis by blast
qed

lemma Action_object:
  assumes "GovernanceActionId_valid g"
  shows "\<exists>b y. GovernanceActionId_toCbor g = Inr b \<and> cbor_item b \<and> array_headed b \<and> GovernanceActionId_fromCbor b = Inr y \<and>
    action_content y = action_content g"
proof -
  obtain b y where "GovernanceActionId_toCbor g = Inr b" "cbor_item b" "GovernanceActionId_fromCbor b = Inr y"
    "action_content y = action_content g" using governance_action_id.encodes [OF assms] by blast
  moreover have "array_headed b"
    using calculation(1) assms by (auto simp: GovernanceActionId_toCbor_def GovernanceActionId_valid_def write_all_def encode_def)
  ultimately show ?thesis by blast
qed

lemma field_action_id:
  assumes "pred_option GovernanceActionId_valid x"
  shows "\<exists>b y. field_ok (writeNullable GovernanceActionId_toCbor x) b (readNullable GovernanceActionId_fromCbor) y \<and>
    map_option action_content y = map_option action_content x"
proof (rule field_nullable [where content = action_content])
  fix a assume "x = Some a"
  with assms have "GovernanceActionId_valid a" by simp
  then show "\<exists>b y. GovernanceActionId_toCbor a = Inr b \<and> cbor_item b \<and> array_headed b \<and> GovernanceActionId_fromCbor b = Inr y \<and>
      action_content y = action_content a" by (rule Action_object)
qed

text \<open>A map that is read into a list of pairs, duplicates included.\<close>

lemma field_pairs:
  assumes "\<And>e. e \<in> set es \<Longrightarrow> \<exists>k b. (\<forall>w. run_ops (ops e) w = Inr (w @ k @ b)) \<and> entry_ok step (k, b) (\<lambda>s. s @ [e])"
    and "length es < 4503599627370496"
  shows "\<exists>b. field_ok (writeMapOf ops es) b (readMapWith step []) es"
proof -
  have entry: "\<exists>k b y. (\<forall>w. run_ops (ops e) w = Inr (w @ k @ b)) \<and> entry_ok step (k, b) (\<lambda>s. s @ [y]) \<and> y = e" if "e \<in> set es" for e
    using assms(1) [OF that] by blast
  obtain b ys where f: "fields_ok step (concat (map ops es)) b (\<lambda>s. foldl (\<lambda>s y. s @ [y]) s ys) (length es)" and ys: "map (\<lambda>x. x) ys = map (\<lambda>x. x) es"
    using entries_to [where es = es and step = step and ops = ops and content = "\<lambda>x. x" and upd = "\<lambda>y s. s @ [y]", OF entry] by blast
  have "foldl (\<lambda>s y. s @ [y]) zs xs = zs @ xs" for zs xs :: "('a \<times> 'b) list" by (induction xs arbitrary: zs) simp_all
  then have "field_ok (writeMapOf ops es) (enc_head MapType (length es) @ b) (readMapWith step []) es"
    using fields_run [OF f] fields_item [OF f assms(2)] fields_read [OF f assms(2)] assms(2) ys
    by (simp add: field_ok_def writeMapOf_def)
  then show ?thesis by blast
qed

subsection \<open>Reward accounts as text\<close>

text \<open>
  A reward account is kept in its bech32 form. It is parsed to be written, and it is read by parsing
  the bytes and printing the address; the encoders of bech32 are the parameter \<open>lib\<close>.
\<close>

definition accountBytes :: "string_codecs \<Rightarrow> string \<Rightarrow> bytes result" where
  "accountBytes lib account =
     ebind (Address_fromBech32 lib account) (\<lambda>a.
     (case RewardAddress_fromAddress a of None \<Rightarrow> Inl SerializationError
      | Some rewardAddress \<Rightarrow> Address_toBytes (crc32 lib) rewardAddress))"

definition writeRewardText :: "string_codecs \<Rightarrow> string \<Rightarrow> writer_op" where
  "writeRewardText lib account w = ebind (accountBytes lib account) (\<lambda>b. writeByteString b w)"

definition readRewardText :: "string_codecs \<Rightarrow> CborReader \<Rightarrow> (string \<times> CborReader) result" where
  "readRewardText lib r =
     ebind (readByteString r) (\<lambda>(b, r).
     ebind (Address_fromBytes (crc32 lib) b) (\<lambda>a.
     ebind (Address_toBech32 lib a) (\<lambda>account. Inr (account, r))))"

text \<open>The text is the bech32 form of a reward address.\<close>

definition account_valid :: "string_codecs \<Rightarrow> string \<Rightarrow> bool" where
  "account_valid lib account \<longleftrightarrow> (case Address_fromBech32 lib account of Inl _ \<Rightarrow> False
     | Inr a \<Rightarrow> reward_valid (Some a) \<and> Address_toBech32 lib a = Inr account)"

lemma account_bytes:
  assumes "account_valid lib account"
  shows "\<exists>b. accountBytes lib account = Inr b \<and> length b = 29 \<and>
    (\<forall>c pre bs fr stk tag. open_frame fr \<longrightarrow> readRewardText lib (rd c pre (enc_bytes b @ bs) fr stk tag) =
      Inr (account, rd U (pre @ enc_bytes b) bs (bumps 1 fr) stk False))"
proof -
  obtain a where a: "Address_fromBech32 lib account = Inr a" "shelley_valid a" "ap_type a \<in> {RewardKey, RewardScript}"
    "Address_toBech32 lib a = Inr account"
    using assms by (auto simp: account_valid_def reward_valid_def split: sum.splits)
  obtain b where b: "Address_toBytes (crc32 lib) a = Inr b" "Address_fromBytes (crc32 lib) b = Inr a" "length b = 29"
    using shelley_roundtrip [of a "crc32 lib"] a(2,3) by auto
  have "RewardAddress_fromAddress a = Some a"
    using reward_address_new [OF a(2,3)] a(3) by (simp add: RewardAddress_fromAddress_def)
  with a b show ?thesis
    by (intro exI [of _ b]) (simp add: accountBytes_def readRewardText_def rd_simps)
qed

lemma field_account:
  assumes "account_valid lib account"
  shows "\<exists>b. (\<forall>w. writeRewardText lib account w = Inr (w @ enc_bytes b)) \<and> length b = 29 \<and>
    (\<forall>c pre bs fr stk tag. open_frame fr \<longrightarrow> readRewardText lib (rd c pre (enc_bytes b @ bs) fr stk tag) =
      Inr (account, rd U (pre @ enc_bytes b) bs (bumps 1 fr) stk False))"
proof -
  obtain b where "accountBytes lib account = Inr b" "length b = 29"
    "\<forall>c pre bs fr stk tag. open_frame fr \<longrightarrow> readRewardText lib (rd c pre (enc_bytes b @ bs) fr stk tag) =
      Inr (account, rd U (pre @ enc_bytes b) bs (bumps 1 fr) stk False)" using account_bytes [OF assms] by blast
  then show ?thesis by (intro exI [of _ b]) (simp add: writeRewardText_def)
qed

text \<open>Different accounts have different bytes.\<close>

lemma account_bytes_inj:
  assumes "account_valid lib x" and "account_valid lib y" and "accountBytes lib x = accountBytes lib y"
  shows "x = y"
proof -
  obtain b where "accountBytes lib x = Inr b"
    "\<forall>c pre bs fr stk tag. open_frame fr \<longrightarrow> readRewardText lib (rd c pre (enc_bytes b @ bs) fr stk tag) =
      Inr (x, rd U (pre @ enc_bytes b) bs (bumps 1 fr) stk False)" using account_bytes [OF assms(1)] by blast
  moreover obtain b' where "accountBytes lib y = Inr b'"
    "\<forall>c pre bs fr stk tag. open_frame fr \<longrightarrow> readRewardText lib (rd c pre (enc_bytes b' @ bs) fr stk tag) =
      Inr (y, rd U (pre @ enc_bytes b') bs (bumps 1 fr) stk False)" using account_bytes [OF assms(2)] by blast
  moreover have "open_frame root_frame" by simp
  ultimately show ?thesis using assms(3) by (metis Inr_inject prod.inject)
qed

text \<open>Printing a reward address gives such a text.\<close>

lemma printed_account_valid:
  assumes "codecs_ok lib" and "reward_valid (Some a)" and "Address_toBech32 lib a = Inr account"
  shows "account_valid lib account"
proof -
  have a: "shelley_valid a" "ap_type a \<in> {RewardKey, RewardScript}" using assms(2) by (simp_all add: reward_valid_def)
  from a(1) have "ap_pointer a = None"
  proof (cases rule: shelley_validE)
    case (pointer n p ptr)
    with a(2) show ?thesis by (cases "cred_type p") simp_all
  qed simp_all
  then have "\<forall>p. ap_pointer a = Some p \<longrightarrow> ptr_slot p < 18446744073709551616" by simp
  from bech32_address [OF assms(1) a(1) this] obtain s where "Address_toBech32 lib a = Inr s" "Address_fromBech32 lib s = Inr a" .
  then have "Address_fromBech32 lib account = Inr a" using assms(3) by simp
  with assms(2,3) show ?thesis by (simp add: account_valid_def)
qed

subsection \<open>Constitution\<close>

record Constitution =
  con_anchor :: Anchor
  con_scriptHash :: "bytes option"
  con_originalBytes :: "bytes option"

definition Constitution_new :: "Anchor \<Rightarrow> bytes option \<Rightarrow> Constitution" where
  "Constitution_new anchor scriptHash = \<lparr>con_anchor = anchor, con_scriptHash = scriptHash, con_originalBytes = None\<rparr>"

definition Constitution_toCbor :: "Constitution \<Rightarrow> bytes result" where
  "Constitution_toCbor c = cached (con_originalBytes c)
     (write_all [writeStartArray (Some 2), writeObject (Anchor_toCbor (con_anchor c)), writeNullableHash (con_scriptHash c)])"

definition Constitution_fromCbor :: "bytes \<Rightarrow> Constitution result" where
  "Constitution_fromCbor cbor =
     ebind (expectArray 2 (new_reader cbor)) (\<lambda>r.
     ebind (readObject Anchor_fromCbor r) (\<lambda>(anchor, r).
     ebind (readNullableBytes r) (\<lambda>(scriptHash, r).
     ebind (readEndArray r) (\<lambda>r.
       Inr ((Constitution_new anchor scriptHash)\<lparr>con_originalBytes := Some cbor\<rparr>)))))"

definition Constitution_setAnchor :: "Anchor \<Rightarrow> Constitution \<Rightarrow> Constitution" where
  "Constitution_setAnchor anchor c = c\<lparr>con_anchor := anchor, con_originalBytes := None\<rparr>"

definition Constitution_setScriptHash :: "bytes option \<Rightarrow> Constitution \<Rightarrow> Constitution" where
  "Constitution_setScriptHash scriptHash c = c\<lparr>con_scriptHash := scriptHash, con_originalBytes := None\<rparr>"

definition constitution_content :: "Constitution \<Rightarrow> (js_string \<times> bytes) \<times> bytes option" where
  "constitution_content c = (anchor_content (con_anchor c), con_scriptHash c)"

definition Constitution_valid :: "Constitution \<Rightarrow> bool" where
  "Constitution_valid c \<longleftrightarrow> Anchor_valid (con_anchor c) \<and> hash_valid (con_scriptHash c) \<and> con_originalBytes c = None"

interpretation constitution: caching_codec Constitution_toCbor Constitution_fromCbor Constitution_valid constitution_content
proof (unfold_locales, goal_cases)
  case (1 c)
  then have v: "Anchor_valid (con_anchor c)" "hash_valid (con_scriptHash c)" "con_originalBytes c = None"
    by (simp_all add: Constitution_valid_def)
  obtain b y where f: "field_ok (writeObject (Anchor_toCbor (con_anchor c))) b (readObject Anchor_fromCbor) y"
    "anchor_content y = anchor_content (con_anchor c)" using anchor.field_of_object [OF v(1)] by blast
  obtain h where g: "field_ok (writeNullableHash (con_scriptHash c)) h readNullableBytes (con_scriptHash c)"
    using field_nullable_hash [OF v(2)] by blast
  show ?case using v(3) f(2) field_okD [OF f(1)] field_okD [OF g]
    by (simp add: Constitution_toCbor_def Constitution_fromCbor_def Constitution_new_def constitution_content_def
        write_all_def encode_def rd_simps cbor_items)
next
  case (2 b y)
  then show ?case by (auto simp: Constitution_toCbor_def Constitution_fromCbor_def dest!: expectArray_nonempty)
qed

subsection \<open>Committee\<close>

record Committee =
  com_quorumThreshold :: UnitInterval
  com_committeeColdCredentials :: "(Credential \<times> int) list"
  com_originalBytes :: "bytes option"

definition Committee_new :: "UnitInterval \<Rightarrow> Committee" where
  "Committee_new quorumThreshold = \<lparr>com_quorumThreshold = quorumThreshold, com_committeeColdCredentials = [], com_originalBytes = None\<rparr>"

definition writeMember :: "Credential \<times> int \<Rightarrow> writer_op list" where
  "writeMember entry = [writeCredential (fst entry), writeInt (snd entry)]"

definition Committee_toCbor :: "Committee \<Rightarrow> bytes result" where
  "Committee_toCbor c = cached (com_originalBytes c)
     (if com_committeeColdCredentials c = [] then Inl InvalidStateError
      else write_all [writeStartArray (Some 2), writeMapOf writeMember (com_committeeColdCredentials c),
        writeObject (UnitInterval_toCbor (com_quorumThreshold c))])"

text \<open>Unlike \<open>readCredential\<close>, the length of the hash is not checked.\<close>

definition readMemberCredential :: "CborReader \<Rightarrow> (Credential \<times> CborReader) result" where
  "readMemberCredential r =
     ebind (expectArray 2 r) (\<lambda>r.
     ebind (readCredentialType r) (\<lambda>(type, r).
     ebind (readByteString r) (\<lambda>(hash, r).
     ebind (readEndArray r) (\<lambda>r. Inr (\<lparr>cred_type = type, cred_hash = hash\<rparr>, r)))))"

definition readMember :: "(Credential \<times> int) list \<Rightarrow> CborReader \<Rightarrow> ((Credential \<times> int) list \<times> CborReader) result" where
  "readMember members r =
     ebind (readMemberCredential r) (\<lambda>(credential, r).
     ebind (readUInt r) (\<lambda>(epoch, r). Inr (members @ [(credential, js_Number_int (int epoch))], r)))"

text \<open>Adding a member keeps the bytes the committee was read from.\<close>

definition Committee_addMember :: "Credential \<Rightarrow> int \<Rightarrow> Committee \<Rightarrow> Committee result" where
  "Committee_addMember committeeColdCredential epoch c =
     (if List.find (\<lambda>entry. fst entry = committeeColdCredential) (com_committeeColdCredentials c) \<noteq> None then Inl InvalidArgumentError
      else Inr (c\<lparr>com_committeeColdCredentials := com_committeeColdCredentials c @ [(committeeColdCredential, epoch)]\<rparr>))"

fun addMembers :: "(Credential \<times> int) list \<Rightarrow> Committee \<Rightarrow> Committee result" where
  "addMembers [] c = Inr c"
| "addMembers (m # ms) c = ebind (Committee_addMember (fst m) (snd m) c) (addMembers ms)"

definition Committee_fromCbor :: "bytes \<Rightarrow> Committee result" where
  "Committee_fromCbor cbor =
     ebind (expectArray 2 (new_reader cbor)) (\<lambda>r.
     ebind (readMapWith readMember [] r) (\<lambda>(members, r).
     ebind (readObject UnitInterval_fromCbor r) (\<lambda>(quorumThreshold, r).
     ebind (addMembers members (Committee_new quorumThreshold)) (\<lambda>committee.
       Inr (committee\<lparr>com_originalBytes := Some cbor\<rparr>)))))"

definition Committee_toCore :: "Committee \<Rightarrow> ((Credential \<times> int) list \<times> Core_Fraction) result" where
  "Committee_toCore c =
     (if com_committeeColdCredentials c = [] then Inl InvalidStateError
      else Inr (com_committeeColdCredentials c, UnitInterval_toCore (com_quorumThreshold c)))"

definition Committee_fromCore :: "(Credential \<times> int) list \<times> Core_Fraction \<Rightarrow> Committee result" where
  "Committee_fromCore core = addMembers (fst core) (Committee_new (UnitInterval_fromCore (snd core)))"

definition Committee_membersKeys :: "Committee \<Rightarrow> Credential list" where
  "Committee_membersKeys c = map fst (com_committeeColdCredentials c)"

definition Committee_getMemberEpoch :: "Credential \<Rightarrow> Committee \<Rightarrow> int option" where
  "Committee_getMemberEpoch committeeColdCredential c =
     map_option snd (List.find (\<lambda>entry. fst entry = committeeColdCredential) (com_committeeColdCredentials c))"

definition member_valid :: "Credential \<times> int \<Rightarrow> bool" where
  "member_valid m \<longleftrightarrow> small_bytes (cred_hash (fst m)) \<and> 0 \<le> snd m \<and> safe_int (snd m)"

definition committee_content :: "Committee \<Rightarrow> (int \<times> int) \<times> (Credential \<times> int) list" where
  "committee_content c = (interval_content (com_quorumThreshold c), com_committeeColdCredentials c)"

definition Committee_valid :: "Committee \<Rightarrow> bool" where
  "Committee_valid c \<longleftrightarrow> com_originalBytes c = None \<and> com_committeeColdCredentials c \<noteq> [] \<and>
     length (com_committeeColdCredentials c) < 4503599627370496 \<and> distinct (map fst (com_committeeColdCredentials c)) \<and>
     (\<forall>m \<in> set (com_committeeColdCredentials c). member_valid m) \<and> UnitInterval_valid (com_quorumThreshold c)"

lemma credentialType_read [simp]: "credentialType_num t = 0 \<longleftrightarrow> t = KeyHash" "credentialType_num t = 1 \<longleftrightarrow> t = ScriptHash"
  "safe_int (credentialType_num t)" "cbor_int (credentialType_num t)"
  by (cases t; simp)+

lemma member_entry:
  assumes "member_valid m"
  shows "\<exists>k b. (\<forall>w. run_ops (writeMember m) w = Inr (w @ k @ b)) \<and> entry_ok readMember (k, b) (\<lambda>ms. ms @ [m])"
proof -
  let ?k = "enc_head ArrayType 2 @ enc_int (credentialType_num (cred_type (fst m))) @ enc_bytes (cred_hash (fst m))"
  have m: "small_bytes (cred_hash (fst m))" "0 \<le> snd m" "safe_int (snd m)" using assms by (simp_all add: member_valid_def)
  have "entry_ok readMember (?k, enc_int (snd m)) (\<lambda>ms. ms @ [m])"
    using m by (cases m; cases "fst m"; cases "cred_type (fst m)")
      (simp_all add: entry_ok_def readMember_def readMemberCredential_def readCredentialType_def rd_simps cbor_items numeral_2_eq_2 [symmetric])
  moreover have "run_ops (writeMember m) w = Inr (w @ ?k @ enc_int (snd m))" for w
    using m by (simp add: writeMember_def writeCredential_def)
  ultimately show ?thesis by blast
qed

lemma field_members:
  assumes "\<forall>m \<in> set ms. member_valid m" and "length ms < 4503599627370496"
  shows "\<exists>b. field_ok (writeMapOf writeMember ms) b (readMapWith readMember []) ms"
  by (rule field_pairs [OF _ assms(2)]) (use assms(1) member_entry in blast)

lemma find_fresh_key: "k \<notin> fst ` set xs \<Longrightarrow> List.find (\<lambda>entry. fst entry = k) xs = None"
  by (induction xs) auto

lemma addMembers_fresh:
  "distinct (map fst (com_committeeColdCredentials c @ ms)) \<Longrightarrow>
   addMembers ms c = Inr (c\<lparr>com_committeeColdCredentials := com_committeeColdCredentials c @ ms\<rparr>)"
proof (induction ms arbitrary: c)
  case (Cons m ms)
  have "List.find (\<lambda>entry. fst entry = fst m) (com_committeeColdCredentials c) = None"
    using Cons.prems by (intro find_fresh_key) auto
  then show ?case using Cons by (simp add: Committee_addMember_def)
qed simp

interpretation committee: caching_codec Committee_toCbor Committee_fromCbor Committee_valid committee_content
proof (unfold_locales, goal_cases)
  case (1 c)
  let ?ms = "com_committeeColdCredentials c"
  have v: "com_originalBytes c = None" "?ms \<noteq> []" "length ?ms < 4503599627370496" "distinct (map fst ?ms)"
    "\<forall>m \<in> set ?ms. member_valid m" "UnitInterval_valid (com_quorumThreshold c)" using 1 by (simp_all add: Committee_valid_def)
  obtain b where f: "field_ok (writeMapOf writeMember ?ms) b (readMapWith readMember []) ?ms"
    using field_members [OF v(5,3)] by blast
  obtain q y where g: "field_ok (writeObject (UnitInterval_toCbor (com_quorumThreshold c))) q (readObject UnitInterval_fromCbor) y"
    "interval_content y = interval_content (com_quorumThreshold c)" using unit_interval.field_of_object [OF v(6)] by blast
  have "addMembers ?ms (Committee_new y) = Inr ((Committee_new y)\<lparr>com_committeeColdCredentials := ?ms\<rparr>)"
    using v(4) by (simp add: addMembers_fresh Committee_new_def)
  then show ?case using v(1,2) g(2) field_okD [OF f] field_okD [OF g(1)]
    by (simp add: Committee_toCbor_def Committee_fromCbor_def committee_content_def Committee_new_def
        write_all_def encode_def rd_simps cbor_items)
next
  case (2 b y)
  then show ?case by (auto simp: Committee_toCbor_def Committee_fromCbor_def dest!: expectArray_nonempty)
qed

end
