(* ===== verification/Gov_Actions.thy ===== *)
theory Gov_Actions
  imports Gov_Fields Witnesses
begin

text \<open>
  Governance actions (\<open>core/src/Serialization/TransactionBody/ProposalProcedure\<close>): each class is an
  array of its kind and its fields and keeps the contract \<open>kinded_codec\<close>. Some classes do not check
  that the array ends after the last field.
\<close>

subsection \<open>ParameterChangeAction\<close>

record ParameterChangeAction =
  pca_protocolParamUpdate :: "ProtocolParamUpdate"
  pca_govActionId :: "GovernanceActionId option"
  pca_policyHash :: "bytes option"
  pca_originalBytes :: "bytes option"

definition ParameterChangeAction_new :: "ProtocolParamUpdate \<Rightarrow> (GovernanceActionId option) \<Rightarrow> (bytes option) \<Rightarrow> ParameterChangeAction" where
  "ParameterChangeAction_new protocolParamUpdate govActionId policyHash = \<lparr>pca_protocolParamUpdate = protocolParamUpdate, pca_govActionId = govActionId, pca_policyHash = policyHash, pca_originalBytes = None\<rparr>"

definition ParameterChangeAction_toCbor :: "ParameterChangeAction \<Rightarrow> bytes result" where
  "ParameterChangeAction_toCbor x = cached (pca_originalBytes x)
     (write_all [writeStartArray (Some 4), writeInt 0,
        writeNullable GovernanceActionId_toCbor (pca_govActionId x),
        writeObject (ProtocolParamUpdate_toCbor (pca_protocolParamUpdate x)),
        writeNullableHash (pca_policyHash x)])"

definition ParameterChangeAction_fromCbor :: "bytes \<Rightarrow> ParameterChangeAction result" where
  "ParameterChangeAction_fromCbor cbor =
     ebind (expectArray 4 (new_reader cbor)) (\<lambda>r.
     ebind (expectKindU 0 r) (\<lambda>r.
     ebind (readNullable GovernanceActionId_fromCbor r) (\<lambda>(govActionId, r).
     ebind (readObject ProtocolParamUpdate_fromCbor r) (\<lambda>(protocolParamUpdate, r).
     ebind (readNullableBytes r) (\<lambda>(policyHash, r).
     ebind (readEndArray r) (\<lambda>r.
       Inr ((ParameterChangeAction_new protocolParamUpdate govActionId policyHash)\<lparr>pca_originalBytes := Some cbor\<rparr>)))))))"

definition parameter_change_content where
  "parameter_change_content x = (map_option action_content (pca_govActionId x), param_content (pca_protocolParamUpdate x), pca_policyHash x)"

definition ParameterChangeAction_valid :: "ParameterChangeAction \<Rightarrow> bool" where
  "ParameterChangeAction_valid x \<longleftrightarrow> pred_option GovernanceActionId_valid (pca_govActionId x) \<and> ProtocolParamUpdate_valid (pca_protocolParamUpdate x) \<and> hash_valid (pca_policyHash x) \<and> pca_originalBytes x = None"

interpretation parameter_change: kinded_codec ParameterChangeAction_toCbor ParameterChangeAction_fromCbor ParameterChangeAction_valid parameter_change_content 4 0
proof
  fix x assume "ParameterChangeAction_valid x"
  then have v: "pred_option GovernanceActionId_valid (pca_govActionId x)"
    "ProtocolParamUpdate_valid (pca_protocolParamUpdate x)"
    "hash_valid (pca_policyHash x)" "pca_originalBytes x = None" by (simp_all add: ParameterChangeAction_valid_def)
  obtain b0 y0 where f0: "field_ok (writeNullable GovernanceActionId_toCbor (pca_govActionId x)) b0 (readNullable GovernanceActionId_fromCbor) y0"
    "map_option action_content (y0) = map_option action_content (pca_govActionId x)"
    using field_action_id [OF v(1)] by blast
  obtain b1 y1 where f1: "field_ok (writeObject (ProtocolParamUpdate_toCbor (pca_protocolParamUpdate x))) b1 (readObject ProtocolParamUpdate_fromCbor) y1"
    "param_content (y1) = param_content (pca_protocolParamUpdate x)"
    using param_update.field_of_object [OF v(2)] by blast
  obtain b2 where f2: "field_ok (writeNullableHash (pca_policyHash x)) b2 (readNullableBytes) (pca_policyHash x)"
    using field_nullable_hash [OF v(3)] by blast
  show "\<exists>rest y. ParameterChangeAction_toCbor x = Inr (kinded_bytes 4 0 rest) \<and> cbor_item (kinded_bytes 4 0 rest) \<and>
      ParameterChangeAction_fromCbor (kinded_bytes 4 0 rest) = Inr y \<and> parameter_change_content y = parameter_change_content x"
    using v(4) field_okD [OF f0(1)] f0(2) field_okD [OF f1(1)] f1(2) field_okD [OF f2]
    by (intro exI [of _ "b0 @ b1 @ b2"])
      (simp add: kinded_bytes_def ParameterChangeAction_toCbor_def ParameterChangeAction_fromCbor_def ParameterChangeAction_new_def parameter_change_content_def expectKindU_def
        cert_items cbor_item_array1 write_all_def encode_def rd_simps rd_last)
qed (auto simp: ParameterChangeAction_fromCbor_def ParameterChangeAction_toCbor_def dest!: expectArray_nonempty)

subsection \<open>HardForkInitiationAction\<close>

record HardForkInitiationAction =
  hfi_protocolVersion :: "ProtocolVersion"
  hfi_govActionId :: "GovernanceActionId option"
  hfi_originalBytes :: "bytes option"

definition HardForkInitiationAction_new :: "ProtocolVersion \<Rightarrow> (GovernanceActionId option) \<Rightarrow> HardForkInitiationAction" where
  "HardForkInitiationAction_new protocolVersion govActionId = \<lparr>hfi_protocolVersion = protocolVersion, hfi_govActionId = govActionId, hfi_originalBytes = None\<rparr>"

definition HardForkInitiationAction_toCbor :: "HardForkInitiationAction \<Rightarrow> bytes result" where
  "HardForkInitiationAction_toCbor x = cached (hfi_originalBytes x)
     (write_all [writeStartArray (Some 3), writeInt 1,
        writeNullable GovernanceActionId_toCbor (hfi_govActionId x),
        writeObject (ProtocolVersion_toCbor (hfi_protocolVersion x))])"

definition HardForkInitiationAction_fromCbor :: "bytes \<Rightarrow> HardForkInitiationAction result" where
  "HardForkInitiationAction_fromCbor cbor =
     ebind (expectArray 3 (new_reader cbor)) (\<lambda>r.
     ebind (expectKindU 1 r) (\<lambda>r.
     ebind (readNullable GovernanceActionId_fromCbor r) (\<lambda>(govActionId, r).
     ebind (readObject ProtocolVersion_fromCbor r) (\<lambda>(protocolVersion, r).
       Inr ((HardForkInitiationAction_new protocolVersion govActionId)\<lparr>hfi_originalBytes := Some cbor\<rparr>)))))"

definition hard_fork_content where
  "hard_fork_content x = (map_option action_content (hfi_govActionId x), version_content (hfi_protocolVersion x))"

definition HardForkInitiationAction_valid :: "HardForkInitiationAction \<Rightarrow> bool" where
  "HardForkInitiationAction_valid x \<longleftrightarrow> pred_option GovernanceActionId_valid (hfi_govActionId x) \<and> ProtocolVersion_valid (hfi_protocolVersion x) \<and> hfi_originalBytes x = None"

interpretation hard_fork: kinded_codec HardForkInitiationAction_toCbor HardForkInitiationAction_fromCbor HardForkInitiationAction_valid hard_fork_content 3 1
proof
  fix x assume "HardForkInitiationAction_valid x"
  then have v: "pred_option GovernanceActionId_valid (hfi_govActionId x)"
    "ProtocolVersion_valid (hfi_protocolVersion x)" "hfi_originalBytes x = None" by (simp_all add: HardForkInitiationAction_valid_def)
  obtain b0 y0 where f0: "field_ok (writeNullable GovernanceActionId_toCbor (hfi_govActionId x)) b0 (readNullable GovernanceActionId_fromCbor) y0"
    "map_option action_content (y0) = map_option action_content (hfi_govActionId x)"
    using field_action_id [OF v(1)] by blast
  obtain b1 y1 where f1: "field_ok (writeObject (ProtocolVersion_toCbor (hfi_protocolVersion x))) b1 (readObject ProtocolVersion_fromCbor) y1"
    "version_content (y1) = version_content (hfi_protocolVersion x)"
    using protocol_version.field_of_object [OF v(2)] by blast
  show "\<exists>rest y. HardForkInitiationAction_toCbor x = Inr (kinded_bytes 3 1 rest) \<and> cbor_item (kinded_bytes 3 1 rest) \<and>
      HardForkInitiationAction_fromCbor (kinded_bytes 3 1 rest) = Inr y \<and> hard_fork_content y = hard_fork_content x"
    using v(3) field_okD [OF f0(1)] f0(2) field_okD [OF f1(1)] f1(2)
    by (intro exI [of _ "b0 @ b1"])
      (simp add: kinded_bytes_def HardForkInitiationAction_toCbor_def HardForkInitiationAction_fromCbor_def HardForkInitiationAction_new_def hard_fork_content_def expectKindU_def
        cert_items cbor_item_array1 write_all_def encode_def rd_simps rd_last)
qed (auto simp: HardForkInitiationAction_fromCbor_def HardForkInitiationAction_toCbor_def dest!: expectArray_nonempty)

subsection \<open>Withdrawals\<close>

text \<open>
  The entries \<open>[account, amount]\<close> are sorted by their texts, and the accounts are written as the bytes of
  their addresses.
\<close>

definition withdrawal_text :: "string \<times> int \<Rightarrow> nat list" where
  "withdrawal_text e = map of_char (fst e @ '','' @ number_text (snd e))"

definition by_withdrawal_text :: "string \<times> int \<Rightarrow> string \<times> int \<Rightarrow> int" where
  "by_withdrawal_text a b = (if ord_class.lexordp (withdrawal_text b) (withdrawal_text a) then 1 else - 1)"

definition writeWithdrawal :: "string_codecs \<Rightarrow> string \<times> int \<Rightarrow> writer_op list" where
  "writeWithdrawal lib e = [writeRewardText lib (fst e), writeInt (snd e)]"

definition writeWithdrawals :: "string_codecs \<Rightarrow> (string \<times> int) list \<Rightarrow> writer_op" where
  "writeWithdrawals lib withdrawals = writeMapOf (writeWithdrawal lib) (new_Map (js_sort by_withdrawal_text withdrawals))"

definition readWithdrawal :: "string_codecs \<Rightarrow> (string \<times> int) list \<Rightarrow> CborReader \<Rightarrow> ((string \<times> int) list \<times> CborReader) result" where
  "readWithdrawal lib amounts r =
     ebind (readRewardText lib r) (\<lambda>(account, r).
     ebind (readInt r) (\<lambda>(amount, r). Inr (map_set account amount amounts, r)))"

definition withdrawals_valid :: "string_codecs \<Rightarrow> (string \<times> int) list \<Rightarrow> bool" where
  "withdrawals_valid lib ws \<longleftrightarrow> distinct (map fst ws) \<and> length ws < 4503599627370496 \<and>
     (\<forall>e \<in> set ws. account_valid lib (fst e) \<and> cbor_int (snd e))"

lemma withdrawal_entry:
  assumes "account_valid lib (fst e)" and "cbor_int (snd e)"
  shows "\<exists>k b y. (\<forall>w. run_ops (writeWithdrawal lib e) w = Inr (w @ k @ b)) \<and> entry_ok (readWithdrawal lib) (k, b) (map_set (fst e) y) \<and>
    y = snd e"
proof -
  obtain a where a: "\<forall>w. writeRewardText lib (fst e) w = Inr (w @ enc_bytes a)" "length a = 29"
    "\<forall>c pre bs fr stk tag. open_frame fr \<longrightarrow> readRewardText lib (rd c pre (enc_bytes a @ bs) fr stk tag) =
      Inr (fst e, rd U (pre @ enc_bytes a) bs (bumps 1 fr) stk False)"
    using field_account [OF assms(1)] by blast
  show ?thesis using a assms(2)
    by (intro exI [of _ "enc_bytes a"] exI [of _ "enc_int (snd e)"] exI [of _ "snd e"])
      (simp add: writeWithdrawal_def readWithdrawal_def entry_ok_def rd_simps cbor_items numeral_2_eq_2 [symmetric])
qed

lemma field_withdrawals:
  assumes "withdrawals_valid lib ws"
  shows "\<exists>b ys. field_ok (writeWithdrawals lib ws) b (readMapWith (readWithdrawal lib) []) ys \<and>
    map_content (\<lambda>c. c) ys = map_content (\<lambda>c. c) ws"
proof -
  let ?ms = "js_sort by_withdrawal_text ws"
  have d: "distinct (map fst ?ms)" and n: "length ?ms < 4503599627370496" using assms by (simp_all add: withdrawals_valid_def)
  have entries: "\<exists>k b y. (\<forall>w. run_ops (writeWithdrawal lib e) w = Inr (w @ k @ b)) \<and> entry_ok (readWithdrawal lib) (k, b) (map_set (fst e) y) \<and>
      y = snd e" if "e \<in> set ?ms" for e
    using assms that by (intro withdrawal_entry) (auto simp: withdrawals_valid_def)
  obtain b ys where "field_ok (writeMapOf (writeWithdrawal lib) ?ms) b (readMapWith (readWithdrawal lib) []) ys"
    "map_content (\<lambda>c. c) ys = map_content (\<lambda>c. c) ?ms"
    using field_map [where content = "\<lambda>c. c", OF entries d n] by blast
  moreover have "map_content (\<lambda>c. c) ?ms = map_content (\<lambda>c. c) ws" by (rule map_content_mset [OF d]) simp
  moreover have "new_Map ?ms = ?ms" using d by simp
  ultimately show ?thesis by (auto simp: writeWithdrawals_def)
qed

subsection \<open>TreasuryWithdrawalsAction\<close>

record TreasuryWithdrawalsAction =
  twa_withdrawals :: "(string \<times> int) list"
  twa_policyHash :: "bytes option"
  twa_originalBytes :: "bytes option"

definition TreasuryWithdrawalsAction_new :: "((string \<times> int) list) \<Rightarrow> (bytes option) \<Rightarrow> TreasuryWithdrawalsAction" where
  "TreasuryWithdrawalsAction_new withdrawals policyHash = \<lparr>twa_withdrawals = withdrawals, twa_policyHash = policyHash, twa_originalBytes = None\<rparr>"

definition TreasuryWithdrawalsAction_toCbor :: "string_codecs \<Rightarrow> TreasuryWithdrawalsAction \<Rightarrow> bytes result" where
  "TreasuryWithdrawalsAction_toCbor lib x = cached (twa_originalBytes x)
     (write_all [writeStartArray (Some 3), writeInt 2,
        writeWithdrawals lib (twa_withdrawals x),
        writeNullableHash (twa_policyHash x)])"

definition TreasuryWithdrawalsAction_fromCbor :: "string_codecs \<Rightarrow> bytes \<Rightarrow> TreasuryWithdrawalsAction result" where
  "TreasuryWithdrawalsAction_fromCbor lib cbor =
     ebind (expectArray 3 (new_reader cbor)) (\<lambda>r.
     ebind (expectKindU 2 r) (\<lambda>r.
     ebind (readMapWith (readWithdrawal lib) [] r) (\<lambda>(withdrawals, r).
     ebind (readNullableBytes r) (\<lambda>(policyHash, r).
     ebind (readEndArray r) (\<lambda>r.
       Inr ((TreasuryWithdrawalsAction_new withdrawals policyHash)\<lparr>twa_originalBytes := Some cbor\<rparr>))))))"

definition treasury_withdrawals_content where
  "treasury_withdrawals_content x = (map_content (\<lambda>c. c) (twa_withdrawals x), twa_policyHash x)"

definition TreasuryWithdrawalsAction_valid :: "string_codecs \<Rightarrow> TreasuryWithdrawalsAction \<Rightarrow> bool" where
  "TreasuryWithdrawalsAction_valid lib x \<longleftrightarrow> withdrawals_valid lib (twa_withdrawals x) \<and> hash_valid (twa_policyHash x) \<and> twa_originalBytes x = None"

interpretation treasury_withdrawals: kinded_codec "TreasuryWithdrawalsAction_toCbor lib" "TreasuryWithdrawalsAction_fromCbor lib" "TreasuryWithdrawalsAction_valid lib" treasury_withdrawals_content 3 2 for lib
proof
  fix x assume "TreasuryWithdrawalsAction_valid lib x"
  then have v: "withdrawals_valid lib (twa_withdrawals x)"
    "hash_valid (twa_policyHash x)" "twa_originalBytes x = None" by (simp_all add: TreasuryWithdrawalsAction_valid_def)
  obtain b0 y0 where f0: "field_ok (writeWithdrawals lib (twa_withdrawals x)) b0 (readMapWith (readWithdrawal lib) []) y0"
    "map_content (\<lambda>c. c) (y0) = map_content (\<lambda>c. c) (twa_withdrawals x)"
    using field_withdrawals [OF v(1)] by blast
  obtain b1 where f1: "field_ok (writeNullableHash (twa_policyHash x)) b1 (readNullableBytes) (twa_policyHash x)"
    using field_nullable_hash [OF v(2)] by blast
  show "\<exists>rest y. TreasuryWithdrawalsAction_toCbor lib x = Inr (kinded_bytes 3 2 rest) \<and> cbor_item (kinded_bytes 3 2 rest) \<and>
      TreasuryWithdrawalsAction_fromCbor lib (kinded_bytes 3 2 rest) = Inr y \<and> treasury_withdrawals_content y = treasury_withdrawals_content x"
    using v(3) field_okD [OF f0(1)] f0(2) field_okD [OF f1]
    by (intro exI [of _ "b0 @ b1"])
      (simp add: kinded_bytes_def TreasuryWithdrawalsAction_toCbor_def TreasuryWithdrawalsAction_fromCbor_def TreasuryWithdrawalsAction_new_def treasury_withdrawals_content_def expectKindU_def
        cert_items cbor_item_array1 write_all_def encode_def rd_simps rd_last)
qed (auto simp: TreasuryWithdrawalsAction_fromCbor_def TreasuryWithdrawalsAction_toCbor_def dest!: expectArray_nonempty)

subsection \<open>NoConfidence\<close>

record NoConfidence =
  nco_govActionId :: "GovernanceActionId option"
  nco_originalBytes :: "bytes option"

definition NoConfidence_new :: "(GovernanceActionId option) \<Rightarrow> NoConfidence" where
  "NoConfidence_new govActionId = \<lparr>nco_govActionId = govActionId, nco_originalBytes = None\<rparr>"

definition NoConfidence_toCbor :: "NoConfidence \<Rightarrow> bytes result" where
  "NoConfidence_toCbor x = cached (nco_originalBytes x)
     (write_all [writeStartArray (Some 2), writeInt 3,
        writeNullable GovernanceActionId_toCbor (nco_govActionId x)])"

definition NoConfidence_fromCbor :: "bytes \<Rightarrow> NoConfidence result" where
  "NoConfidence_fromCbor cbor =
     ebind (expectArray 2 (new_reader cbor)) (\<lambda>r.
     ebind (expectKindU 3 r) (\<lambda>r.
     ebind (readNullable GovernanceActionId_fromCbor r) (\<lambda>(govActionId, r).
       Inr ((NoConfidence_new govActionId)\<lparr>nco_originalBytes := Some cbor\<rparr>))))"

definition no_confidence_content where
  "no_confidence_content x = (map_option action_content (nco_govActionId x))"

definition NoConfidence_valid :: "NoConfidence \<Rightarrow> bool" where
  "NoConfidence_valid x \<longleftrightarrow> pred_option GovernanceActionId_valid (nco_govActionId x) \<and> nco_originalBytes x = None"

interpretation no_confidence: kinded_codec NoConfidence_toCbor NoConfidence_fromCbor NoConfidence_valid no_confidence_content 2 3
proof
  fix x assume "NoConfidence_valid x"
  then have v: "pred_option GovernanceActionId_valid (nco_govActionId x)" "nco_originalBytes x = None" by (simp_all add: NoConfidence_valid_def)
  obtain b0 y0 where f0: "field_ok (writeNullable GovernanceActionId_toCbor (nco_govActionId x)) b0 (readNullable GovernanceActionId_fromCbor) y0"
    "map_option action_content (y0) = map_option action_content (nco_govActionId x)"
    using field_action_id [OF v(1)] by blast
  show "\<exists>rest y. NoConfidence_toCbor x = Inr (kinded_bytes 2 3 rest) \<and> cbor_item (kinded_bytes 2 3 rest) \<and>
      NoConfidence_fromCbor (kinded_bytes 2 3 rest) = Inr y \<and> no_confidence_content y = no_confidence_content x"
    using v(2) field_okD [OF f0(1)] f0(2)
    by (intro exI [of _ "b0"])
      (simp add: kinded_bytes_def NoConfidence_toCbor_def NoConfidence_fromCbor_def NoConfidence_new_def no_confidence_content_def expectKindU_def
        cert_items cbor_item_array1 write_all_def encode_def rd_simps rd_last)
qed (auto simp: NoConfidence_fromCbor_def NoConfidence_toCbor_def dest!: expectArray_nonempty)

subsection \<open>Members of a committee update\<close>

text \<open>The type of a credential is read as a number and not checked.\<close>

definition writeNewMember :: "(int \<times> bytes) \<times> int \<Rightarrow> writer_op list" where
  "writeNewMember entry =
     [run_ops [writeStartArray (Some 2), writeInt (fst (fst entry)), writeByteString (snd (fst entry))], writeInt (snd entry)]"

definition readNewMember ::
    "((int \<times> bytes) \<times> int) list \<Rightarrow> CborReader \<Rightarrow> (((int \<times> bytes) \<times> int) list \<times> CborReader) result" where
  "readNewMember members r =
     ebind (expectArray 2 r) (\<lambda>r.
     ebind (readUInt r) (\<lambda>(type, r).
     ebind (readByteString r) (\<lambda>(hash, r).
     ebind (readEndArray r) (\<lambda>r.
     ebind (readUInt r) (\<lambda>(epoch, r).
       Inr (members @ [((js_Number_int (int type), hash), js_Number_int (int epoch))], r))))))"

definition new_members_valid :: "((int \<times> bytes) \<times> int) list \<Rightarrow> bool" where
  "new_members_valid ms \<longleftrightarrow> length ms < 4503599627370496 \<and>
     (\<forall>m \<in> set ms. small_bytes (snd (fst m)) \<and> 0 \<le> fst (fst m) \<and> safe_int (fst (fst m)) \<and> 0 \<le> snd m \<and> safe_int (snd m))"

lemma new_member_entry:
  assumes "small_bytes (snd (fst m))" and "0 \<le> fst (fst m)" and "safe_int (fst (fst m))" and "0 \<le> snd m" and "safe_int (snd m)"
  shows "\<exists>k b. (\<forall>w. run_ops (writeNewMember m) w = Inr (w @ k @ b)) \<and> entry_ok readNewMember (k, b) (\<lambda>ms. ms @ [m])"
proof -
  let ?k = "enc_head ArrayType 2 @ enc_int (fst (fst m)) @ enc_bytes (snd (fst m))"
  have "entry_ok readNewMember (?k, enc_int (snd m)) (\<lambda>ms. ms @ [m])"
    using assms by (cases m; cases "fst m")
      (simp add: entry_ok_def readNewMember_def rd_simps cbor_items numeral_2_eq_2 [symmetric])
  moreover have "run_ops (writeNewMember m) w = Inr (w @ ?k @ enc_int (snd m))" for w
    using assms by (simp add: writeNewMember_def)
  ultimately show ?thesis by blast
qed

lemma field_new_members:
  assumes "new_members_valid ms"
  shows "\<exists>b. field_ok (writeMapOf writeNewMember ms) b (readMapWith readNewMember []) ms"
proof (rule field_pairs)
  fix m assume "m \<in> set ms"
  then show "\<exists>k b. (\<forall>w. run_ops (writeNewMember m) w = Inr (w @ k @ b)) \<and> entry_ok readNewMember (k, b) (\<lambda>ms. ms @ [m])"
    using assms by (intro new_member_entry) (auto simp: new_members_valid_def)
qed (use assms in \<open>simp add: new_members_valid_def\<close>)

lemma credential_set:
  assumes "set_valid Credential_valid s"
  shows "\<exists>b y. field_ok (writeObject (CborSet_toCbor conway Credential_toCbor s)) b (readObject (CborSet_fromCbor Credential_fromCbor)) y \<and>
    set_content (\<lambda>c. c) y = set_content (\<lambda>c. c) s"
  by (rule cbor_codec.field_of_object [OF cbor_codec.set_codec [OF credential_codec.cbor_codec_axioms] assms])

subsection \<open>UpdateCommittee\<close>

record UpdateCommittee =
  uco_membersToBeRemoved :: "Credential CborSet"
  uco_membersToBeAdded :: "((int \<times> bytes) \<times> int) list"
  uco_newQuorum :: "UnitInterval"
  uco_govActionId :: "GovernanceActionId option"
  uco_originalBytes :: "bytes option"

definition UpdateCommittee_new :: "(Credential CborSet) \<Rightarrow> (((int \<times> bytes) \<times> int) list) \<Rightarrow> UnitInterval \<Rightarrow> (GovernanceActionId option) \<Rightarrow> UpdateCommittee" where
  "UpdateCommittee_new membersToBeRemoved membersToBeAdded newQuorum govActionId = \<lparr>uco_membersToBeRemoved = membersToBeRemoved, uco_membersToBeAdded = membersToBeAdded, uco_newQuorum = newQuorum, uco_govActionId = govActionId, uco_originalBytes = None\<rparr>"

definition UpdateCommittee_toCbor :: "bool \<Rightarrow> UpdateCommittee \<Rightarrow> bytes result" where
  "UpdateCommittee_toCbor conway x = cached (uco_originalBytes x)
     (write_all [writeStartArray (Some 5), writeInt 4,
        writeNullable GovernanceActionId_toCbor (uco_govActionId x),
        writeObject (CborSet_toCbor conway Credential_toCbor (uco_membersToBeRemoved x)),
        writeMapOf writeNewMember (uco_membersToBeAdded x),
        writeObject (UnitInterval_toCbor (uco_newQuorum x))])"

definition UpdateCommittee_fromCbor :: "bytes \<Rightarrow> UpdateCommittee result" where
  "UpdateCommittee_fromCbor cbor =
     ebind (expectArray 5 (new_reader cbor)) (\<lambda>r.
     ebind (expectKindU 4 r) (\<lambda>r.
     ebind (readNullable GovernanceActionId_fromCbor r) (\<lambda>(govActionId, r).
     ebind (readObject (CborSet_fromCbor Credential_fromCbor) r) (\<lambda>(membersToBeRemoved, r).
     ebind (readMapWith readNewMember [] r) (\<lambda>(membersToBeAdded, r).
     ebind (readObject UnitInterval_fromCbor r) (\<lambda>(newQuorum, r).
       Inr ((UpdateCommittee_new membersToBeRemoved membersToBeAdded newQuorum govActionId)\<lparr>uco_originalBytes := Some cbor\<rparr>)))))))"

definition update_committee_content where
  "update_committee_content x = (map_option action_content (uco_govActionId x), set_content (\<lambda>c. c) (uco_membersToBeRemoved x), uco_membersToBeAdded x, interval_content (uco_newQuorum x))"

definition UpdateCommittee_valid :: "UpdateCommittee \<Rightarrow> bool" where
  "UpdateCommittee_valid x \<longleftrightarrow> pred_option GovernanceActionId_valid (uco_govActionId x) \<and> set_valid Credential_valid (uco_membersToBeRemoved x) \<and> new_members_valid (uco_membersToBeAdded x) \<and> UnitInterval_valid (uco_newQuorum x) \<and> uco_originalBytes x = None"

interpretation update_committee: kinded_codec "UpdateCommittee_toCbor conway" UpdateCommittee_fromCbor UpdateCommittee_valid update_committee_content 5 4 for conway
proof
  fix x assume "UpdateCommittee_valid x"
  then have v: "pred_option GovernanceActionId_valid (uco_govActionId x)"
    "set_valid Credential_valid (uco_membersToBeRemoved x)"
    "new_members_valid (uco_membersToBeAdded x)"
    "UnitInterval_valid (uco_newQuorum x)" "uco_originalBytes x = None" by (simp_all add: UpdateCommittee_valid_def)
  obtain b0 y0 where f0: "field_ok (writeNullable GovernanceActionId_toCbor (uco_govActionId x)) b0 (readNullable GovernanceActionId_fromCbor) y0"
    "map_option action_content (y0) = map_option action_content (uco_govActionId x)"
    using field_action_id [OF v(1)] by blast
  obtain b1 y1 where f1: "field_ok (writeObject (CborSet_toCbor conway Credential_toCbor (uco_membersToBeRemoved x))) b1 (readObject (CborSet_fromCbor Credential_fromCbor)) y1"
    "set_content (\<lambda>c. c) (y1) = set_content (\<lambda>c. c) (uco_membersToBeRemoved x)"
    using credential_set [OF v(2)] by blast
  obtain b2 where f2: "field_ok (writeMapOf writeNewMember (uco_membersToBeAdded x)) b2 (readMapWith readNewMember []) (uco_membersToBeAdded x)"
    using field_new_members [OF v(3)] by blast
  obtain b3 y3 where f3: "field_ok (writeObject (UnitInterval_toCbor (uco_newQuorum x))) b3 (readObject UnitInterval_fromCbor) y3"
    "interval_content (y3) = interval_content (uco_newQuorum x)"
    using unit_interval.field_of_object [OF v(4)] by blast
  show "\<exists>rest y. UpdateCommittee_toCbor conway x = Inr (kinded_bytes 5 4 rest) \<and> cbor_item (kinded_bytes 5 4 rest) \<and>
      UpdateCommittee_fromCbor (kinded_bytes 5 4 rest) = Inr y \<and> update_committee_content y = update_committee_content x"
    using v(5) field_okD [OF f0(1)] f0(2) field_okD [OF f1(1)] f1(2) field_okD [OF f2] field_okD [OF f3(1)] f3(2)
    by (intro exI [of _ "b0 @ b1 @ b2 @ b3"])
      (simp add: kinded_bytes_def UpdateCommittee_toCbor_def UpdateCommittee_fromCbor_def UpdateCommittee_new_def update_committee_content_def expectKindU_def
        cert_items cbor_item_array1 write_all_def encode_def rd_simps rd_last)
qed (auto simp: UpdateCommittee_fromCbor_def UpdateCommittee_toCbor_def dest!: expectArray_nonempty)

subsection \<open>NewConstitution\<close>

record NewConstitution =
  nwc_constitution :: "Constitution"
  nwc_govActionId :: "GovernanceActionId option"
  nwc_originalBytes :: "bytes option"

definition NewConstitution_new :: "Constitution \<Rightarrow> (GovernanceActionId option) \<Rightarrow> NewConstitution" where
  "NewConstitution_new constitution govActionId = \<lparr>nwc_constitution = constitution, nwc_govActionId = govActionId, nwc_originalBytes = None\<rparr>"

definition NewConstitution_toCbor :: "NewConstitution \<Rightarrow> bytes result" where
  "NewConstitution_toCbor x = cached (nwc_originalBytes x)
     (write_all [writeStartArray (Some 3), writeInt 5,
        writeNullable GovernanceActionId_toCbor (nwc_govActionId x),
        writeObject (Constitution_toCbor (nwc_constitution x))])"

definition NewConstitution_fromCbor :: "bytes \<Rightarrow> NewConstitution result" where
  "NewConstitution_fromCbor cbor =
     ebind (expectArray 3 (new_reader cbor)) (\<lambda>r.
     ebind (expectKindU 5 r) (\<lambda>r.
     ebind (readNullable GovernanceActionId_fromCbor r) (\<lambda>(govActionId, r).
     ebind (readObject Constitution_fromCbor r) (\<lambda>(constitution, r).
       Inr ((NewConstitution_new constitution govActionId)\<lparr>nwc_originalBytes := Some cbor\<rparr>)))))"

definition new_constitution_content where
  "new_constitution_content x = (map_option action_content (nwc_govActionId x), constitution_content (nwc_constitution x))"

definition NewConstitution_valid :: "NewConstitution \<Rightarrow> bool" where
  "NewConstitution_valid x \<longleftrightarrow> pred_option GovernanceActionId_valid (nwc_govActionId x) \<and> Constitution_valid (nwc_constitution x) \<and> nwc_originalBytes x = None"

interpretation new_constitution: kinded_codec NewConstitution_toCbor NewConstitution_fromCbor NewConstitution_valid new_constitution_content 3 5
proof
  fix x assume "NewConstitution_valid x"
  then have v: "pred_option GovernanceActionId_valid (nwc_govActionId x)"
    "Constitution_valid (nwc_constitution x)" "nwc_originalBytes x = None" by (simp_all add: NewConstitution_valid_def)
  obtain b0 y0 where f0: "field_ok (writeNullable GovernanceActionId_toCbor (nwc_govActionId x)) b0 (readNullable GovernanceActionId_fromCbor) y0"
    "map_option action_content (y0) = map_option action_content (nwc_govActionId x)"
    using field_action_id [OF v(1)] by blast
  obtain b1 y1 where f1: "field_ok (writeObject (Constitution_toCbor (nwc_constitution x))) b1 (readObject Constitution_fromCbor) y1"
    "constitution_content (y1) = constitution_content (nwc_constitution x)"
    using constitution.field_of_object [OF v(2)] by blast
  show "\<exists>rest y. NewConstitution_toCbor x = Inr (kinded_bytes 3 5 rest) \<and> cbor_item (kinded_bytes 3 5 rest) \<and>
      NewConstitution_fromCbor (kinded_bytes 3 5 rest) = Inr y \<and> new_constitution_content y = new_constitution_content x"
    using v(3) field_okD [OF f0(1)] f0(2) field_okD [OF f1(1)] f1(2)
    by (intro exI [of _ "b0 @ b1"])
      (simp add: kinded_bytes_def NewConstitution_toCbor_def NewConstitution_fromCbor_def NewConstitution_new_def new_constitution_content_def expectKindU_def
        cert_items cbor_item_array1 write_all_def encode_def rd_simps rd_last)
qed (auto simp: NewConstitution_fromCbor_def NewConstitution_toCbor_def dest!: expectArray_nonempty)

subsection \<open>InfoAction\<close>

record InfoAction =
  inf_originalBytes :: "bytes option"

definition InfoAction_new :: "InfoAction" where
  "InfoAction_new = \<lparr>inf_originalBytes = None\<rparr>"

definition InfoAction_toCbor :: "InfoAction \<Rightarrow> bytes result" where
  "InfoAction_toCbor x = cached (inf_originalBytes x)
     (write_all [writeStartArray (Some 1), writeInt 6])"

definition InfoAction_fromCbor :: "bytes \<Rightarrow> InfoAction result" where
  "InfoAction_fromCbor cbor =
     ebind (expectArray 1 (new_reader cbor)) (\<lambda>r.
     ebind (expectKindU 6 r) (\<lambda>r.
       Inr ((InfoAction_new)\<lparr>inf_originalBytes := Some cbor\<rparr>)))"

definition info_action_content where
  "info_action_content x = (())"

definition InfoAction_valid :: "InfoAction \<Rightarrow> bool" where
  "InfoAction_valid x \<longleftrightarrow> inf_originalBytes x = None"

interpretation info_action: kinded_codec InfoAction_toCbor InfoAction_fromCbor InfoAction_valid info_action_content 1 6
proof
  fix x assume "InfoAction_valid x"
  then have v:  "inf_originalBytes x = None" by (simp_all add: InfoAction_valid_def)
  show "\<exists>rest y. InfoAction_toCbor x = Inr (kinded_bytes 1 6 rest) \<and> cbor_item (kinded_bytes 1 6 rest) \<and>
      InfoAction_fromCbor (kinded_bytes 1 6 rest) = Inr y \<and> info_action_content y = info_action_content x"
    using v(1) 
    by (intro exI [of _ "[]"])
      (simp add: kinded_bytes_def InfoAction_toCbor_def InfoAction_fromCbor_def InfoAction_new_def info_action_content_def expectKindU_def
        cert_items cbor_item_array1 write_all_def encode_def rd_simps rd_last)
qed (auto simp: InfoAction_fromCbor_def InfoAction_toCbor_def dest!: expectArray_nonempty)

end
