(* ===== verification/Proposal.thy ===== *)
theory Proposal
  imports Gov_Actions
begin

text \<open>
  Proposals of governance actions
  (\<open>core/src/Serialization/TransactionBody/ProposalProcedure/ProposalProcedure.ts\<close>). The kind of a
  proposal and the action its constructor sets are one value of \<open>GovernanceAction\<close>. The flag
  \<open>conway\<close> is the module variable that makes sets be written with their tag.
\<close>

datatype GovernanceAction =
   ParameterChange ParameterChangeAction
  | HardForkInitiation HardForkInitiationAction
  | TreasuryWithdrawals TreasuryWithdrawalsAction
  | NoConfidenceAction NoConfidence
  | UpdateCommitteeAction UpdateCommittee
  | NewConstitutionAction NewConstitution
  | Info InfoAction

record ProposalProcedure =
  prp_action :: GovernanceAction
  prp_deposit :: int
  prp_rewardAccount :: string
  prp_anchor :: Anchor
  prp_originalBytes :: "bytes option"

definition ProposalProcedure_newParameterChangeAction :: "int \<Rightarrow> string \<Rightarrow> Anchor \<Rightarrow> ParameterChangeAction \<Rightarrow> ProposalProcedure" where
  "ProposalProcedure_newParameterChangeAction deposit rewardAccount anchor action =
     \<lparr>prp_action = ParameterChange action, prp_deposit = deposit, prp_rewardAccount = rewardAccount, prp_anchor = anchor, prp_originalBytes = None\<rparr>"

definition ProposalProcedure_newHardForkInitiationAction :: "int \<Rightarrow> string \<Rightarrow> Anchor \<Rightarrow> HardForkInitiationAction \<Rightarrow> ProposalProcedure" where
  "ProposalProcedure_newHardForkInitiationAction deposit rewardAccount anchor action =
     \<lparr>prp_action = HardForkInitiation action, prp_deposit = deposit, prp_rewardAccount = rewardAccount, prp_anchor = anchor, prp_originalBytes = None\<rparr>"

definition ProposalProcedure_newTreasuryWithdrawalsAction :: "int \<Rightarrow> string \<Rightarrow> Anchor \<Rightarrow> TreasuryWithdrawalsAction \<Rightarrow> ProposalProcedure" where
  "ProposalProcedure_newTreasuryWithdrawalsAction deposit rewardAccount anchor action =
     \<lparr>prp_action = TreasuryWithdrawals action, prp_deposit = deposit, prp_rewardAccount = rewardAccount, prp_anchor = anchor, prp_originalBytes = None\<rparr>"

definition ProposalProcedure_newNoConfidence :: "int \<Rightarrow> string \<Rightarrow> Anchor \<Rightarrow> NoConfidence \<Rightarrow> ProposalProcedure" where
  "ProposalProcedure_newNoConfidence deposit rewardAccount anchor action =
     \<lparr>prp_action = NoConfidenceAction action, prp_deposit = deposit, prp_rewardAccount = rewardAccount, prp_anchor = anchor, prp_originalBytes = None\<rparr>"

definition ProposalProcedure_newUpdateCommittee :: "int \<Rightarrow> string \<Rightarrow> Anchor \<Rightarrow> UpdateCommittee \<Rightarrow> ProposalProcedure" where
  "ProposalProcedure_newUpdateCommittee deposit rewardAccount anchor action =
     \<lparr>prp_action = UpdateCommitteeAction action, prp_deposit = deposit, prp_rewardAccount = rewardAccount, prp_anchor = anchor, prp_originalBytes = None\<rparr>"

definition ProposalProcedure_newNewConstitution :: "int \<Rightarrow> string \<Rightarrow> Anchor \<Rightarrow> NewConstitution \<Rightarrow> ProposalProcedure" where
  "ProposalProcedure_newNewConstitution deposit rewardAccount anchor action =
     \<lparr>prp_action = NewConstitutionAction action, prp_deposit = deposit, prp_rewardAccount = rewardAccount, prp_anchor = anchor, prp_originalBytes = None\<rparr>"

definition ProposalProcedure_newInfoAction :: "int \<Rightarrow> string \<Rightarrow> Anchor \<Rightarrow> InfoAction \<Rightarrow> ProposalProcedure" where
  "ProposalProcedure_newInfoAction deposit rewardAccount anchor action =
     \<lparr>prp_action = Info action, prp_deposit = deposit, prp_rewardAccount = rewardAccount, prp_anchor = anchor, prp_originalBytes = None\<rparr>"

lemmas proposal_news = ProposalProcedure_newParameterChangeAction_def ProposalProcedure_newHardForkInitiationAction_def ProposalProcedure_newTreasuryWithdrawalsAction_def ProposalProcedure_newNoConfidence_def ProposalProcedure_newUpdateCommittee_def ProposalProcedure_newNewConstitution_def ProposalProcedure_newInfoAction_def

definition actionToCbor :: "string_codecs \<Rightarrow> bool \<Rightarrow> GovernanceAction \<Rightarrow> bytes result" where
  "actionToCbor lib conway action = (case action of
       ParameterChange a \<Rightarrow> ParameterChangeAction_toCbor a
     | HardForkInitiation a \<Rightarrow> HardForkInitiationAction_toCbor a
     | TreasuryWithdrawals a \<Rightarrow> TreasuryWithdrawalsAction_toCbor lib a
     | NoConfidenceAction a \<Rightarrow> NoConfidence_toCbor a
     | UpdateCommitteeAction a \<Rightarrow> UpdateCommittee_toCbor conway a
     | NewConstitutionAction a \<Rightarrow> NewConstitution_toCbor a
     | Info a \<Rightarrow> InfoAction_toCbor a)"

definition ProposalProcedure_toCbor :: "string_codecs \<Rightarrow> bool \<Rightarrow> ProposalProcedure \<Rightarrow> bytes result" where
  "ProposalProcedure_toCbor lib conway p = cached (prp_originalBytes p)
     (ebind (actionToCbor lib conway (prp_action p)) (\<lambda>actionCbor.
        write_all [writeStartArray (Some 4), writeInt (prp_deposit p), writeRewardText lib (prp_rewardAccount p),
          writeEncodedValue actionCbor, writeObject (Anchor_toCbor (prp_anchor p))]))"

definition proposalOfKind :: "string_codecs \<Rightarrow> int \<Rightarrow> bytes \<Rightarrow> int \<Rightarrow> string \<Rightarrow> Anchor \<Rightarrow> ProposalProcedure result" where
  "proposalOfKind lib kind actionCbor deposit rewardAccount anchor =
     (if kind = 0 then ebind (ParameterChangeAction_fromCbor actionCbor) (\<lambda>action. Inr (ProposalProcedure_newParameterChangeAction deposit rewardAccount anchor action))
      else if kind = 1 then ebind (HardForkInitiationAction_fromCbor actionCbor) (\<lambda>action. Inr (ProposalProcedure_newHardForkInitiationAction deposit rewardAccount anchor action))
      else if kind = 2 then ebind (TreasuryWithdrawalsAction_fromCbor lib actionCbor) (\<lambda>action. Inr (ProposalProcedure_newTreasuryWithdrawalsAction deposit rewardAccount anchor action))
      else if kind = 3 then ebind (NoConfidence_fromCbor actionCbor) (\<lambda>action. Inr (ProposalProcedure_newNoConfidence deposit rewardAccount anchor action))
      else if kind = 4 then ebind (UpdateCommittee_fromCbor actionCbor) (\<lambda>action. Inr (ProposalProcedure_newUpdateCommittee deposit rewardAccount anchor action))
      else if kind = 5 then ebind (NewConstitution_fromCbor actionCbor) (\<lambda>action. Inr (ProposalProcedure_newNewConstitution deposit rewardAccount anchor action))
      else if kind = 6 then ebind (InfoAction_fromCbor actionCbor) (\<lambda>action. Inr (ProposalProcedure_newInfoAction deposit rewardAccount anchor action))
      else Inl InvalidStateError)"

definition ProposalProcedure_fromCbor :: "string_codecs \<Rightarrow> bytes \<Rightarrow> ProposalProcedure result" where
  "ProposalProcedure_fromCbor lib cbor =
     ebind (readStartArray (new_reader cbor)) (\<lambda>(_, r).
     ebind (readInt r) (\<lambda>(deposit, r).
     ebind (readRewardText lib r) (\<lambda>(rewardAccount, r).
     ebind (readEncodedValue r) (\<lambda>(actionCbor, r).
     ebind (readObject Anchor_fromCbor r) (\<lambda>(anchor, r).
     ebind (readEndArray r) (\<lambda>r.
     ebind (kindOf actionCbor) (\<lambda>kind.
     ebind (proposalOfKind lib kind actionCbor deposit rewardAccount anchor) (\<lambda>proposalProcedure.
       Inr (proposalProcedure\<lparr>prp_originalBytes := Some cbor\<rparr>)))))))))"

definition ProposalProcedure_kind :: "ProposalProcedure \<Rightarrow> int" where
  "ProposalProcedure_kind p = (case prp_action p of ParameterChange _ \<Rightarrow> 0 | HardForkInitiation _ \<Rightarrow> 1 | TreasuryWithdrawals _ \<Rightarrow> 2 | NoConfidenceAction _ \<Rightarrow> 3 | UpdateCommitteeAction _ \<Rightarrow> 4 | NewConstitutionAction _ \<Rightarrow> 5 | Info _ \<Rightarrow> 6)"

subsection \<open>Proposals are read back\<close>

datatype action_content =
   ParameterChange_c "(bytes \<times> int) option \<times> (int \<rightharpoonup> param_value) \<times> bytes option"
  | HardForkInitiation_c "(bytes \<times> int) option \<times> int \<times> int"
  | TreasuryWithdrawals_c "(string \<rightharpoonup> int) \<times> bytes option"
  | NoConfidenceAction_c "(bytes \<times> int) option"
  | UpdateCommitteeAction_c "(bytes \<times> int) option \<times> Credential list \<times> ((int \<times> bytes) \<times> int) list \<times> int \<times> int"
  | NewConstitutionAction_c "(bytes \<times> int) option \<times> (js_string \<times> bytes) \<times> bytes option"
  | Info_c "unit"

fun gov_content :: "GovernanceAction \<Rightarrow> action_content" where
  "gov_content (ParameterChange a) = ParameterChange_c (parameter_change_content a)"
| "gov_content (HardForkInitiation a) = HardForkInitiation_c (hard_fork_content a)"
| "gov_content (TreasuryWithdrawals a) = TreasuryWithdrawals_c (treasury_withdrawals_content a)"
| "gov_content (NoConfidenceAction a) = NoConfidenceAction_c (no_confidence_content a)"
| "gov_content (UpdateCommitteeAction a) = UpdateCommitteeAction_c (update_committee_content a)"
| "gov_content (NewConstitutionAction a) = NewConstitutionAction_c (new_constitution_content a)"
| "gov_content (Info a) = Info_c (info_action_content a)"

fun gov_valid :: "string_codecs \<Rightarrow> GovernanceAction \<Rightarrow> bool" where
  "gov_valid lib (ParameterChange a) \<longleftrightarrow> ParameterChangeAction_valid a"
| "gov_valid lib (HardForkInitiation a) \<longleftrightarrow> HardForkInitiationAction_valid a"
| "gov_valid lib (TreasuryWithdrawals a) \<longleftrightarrow> TreasuryWithdrawalsAction_valid lib a"
| "gov_valid lib (NoConfidenceAction a) \<longleftrightarrow> NoConfidence_valid a"
| "gov_valid lib (UpdateCommitteeAction a) \<longleftrightarrow> UpdateCommittee_valid a"
| "gov_valid lib (NewConstitutionAction a) \<longleftrightarrow> NewConstitution_valid a"
| "gov_valid lib (Info a) \<longleftrightarrow> InfoAction_valid a"

lemma action_read:
  assumes "gov_valid lib action"
  shows "\<exists>b k action'. actionToCbor lib conway action = Inr b \<and> cbor_item b \<and> kindOf b = Inr k \<and>
    (\<forall>deposit account anchor. proposalOfKind lib k b deposit account anchor =
       Inr \<lparr>prp_action = action', prp_deposit = deposit, prp_rewardAccount = account, prp_anchor = anchor, prp_originalBytes = None\<rparr>) \<and>
    gov_content action' = gov_content action"
proof (cases action)
  case (ParameterChange a)
  then have "ParameterChangeAction_valid a" using assms by simp
  from parameter_change.kind_read [OF this] obtain b y where "ParameterChangeAction_toCbor a = Inr b" "cbor_item b" "kindOf b = Inr 0"
    "ParameterChangeAction_fromCbor b = Inr y" "parameter_change_content y = parameter_change_content a" by blast
  then show ?thesis using ParameterChange
    by (intro exI [of _ b] exI [of _ "0 :: int"] exI [of _ "ParameterChange y"]) (simp add: actionToCbor_def proposalOfKind_def proposal_news)
next
  case (HardForkInitiation a)
  then have "HardForkInitiationAction_valid a" using assms by simp
  from hard_fork.kind_read [OF this] obtain b y where "HardForkInitiationAction_toCbor a = Inr b" "cbor_item b" "kindOf b = Inr 1"
    "HardForkInitiationAction_fromCbor b = Inr y" "hard_fork_content y = hard_fork_content a" by blast
  then show ?thesis using HardForkInitiation
    by (intro exI [of _ b] exI [of _ "1 :: int"] exI [of _ "HardForkInitiation y"]) (simp add: actionToCbor_def proposalOfKind_def proposal_news)
next
  case (TreasuryWithdrawals a)
  then have "TreasuryWithdrawalsAction_valid lib a" using assms by simp
  from treasury_withdrawals.kind_read [OF this] obtain b y where "TreasuryWithdrawalsAction_toCbor lib a = Inr b" "cbor_item b" "kindOf b = Inr 2"
    "TreasuryWithdrawalsAction_fromCbor lib b = Inr y" "treasury_withdrawals_content y = treasury_withdrawals_content a" by blast
  then show ?thesis using TreasuryWithdrawals
    by (intro exI [of _ b] exI [of _ "2 :: int"] exI [of _ "TreasuryWithdrawals y"]) (simp add: actionToCbor_def proposalOfKind_def proposal_news)
next
  case (NoConfidenceAction a)
  then have "NoConfidence_valid a" using assms by simp
  from no_confidence.kind_read [OF this] obtain b y where "NoConfidence_toCbor a = Inr b" "cbor_item b" "kindOf b = Inr 3"
    "NoConfidence_fromCbor b = Inr y" "no_confidence_content y = no_confidence_content a" by blast
  then show ?thesis using NoConfidenceAction
    by (intro exI [of _ b] exI [of _ "3 :: int"] exI [of _ "NoConfidenceAction y"]) (simp add: actionToCbor_def proposalOfKind_def proposal_news)
next
  case (UpdateCommitteeAction a)
  then have "UpdateCommittee_valid a" using assms by simp
  from update_committee.kind_read [OF this, of conway] obtain b y where "UpdateCommittee_toCbor conway a = Inr b" "cbor_item b" "kindOf b = Inr 4"
    "UpdateCommittee_fromCbor b = Inr y" "update_committee_content y = update_committee_content a" by blast
  then show ?thesis using UpdateCommitteeAction
    by (intro exI [of _ b] exI [of _ "4 :: int"] exI [of _ "UpdateCommitteeAction y"]) (simp add: actionToCbor_def proposalOfKind_def proposal_news)
next
  case (NewConstitutionAction a)
  then have "NewConstitution_valid a" using assms by simp
  from new_constitution.kind_read [OF this] obtain b y where "NewConstitution_toCbor a = Inr b" "cbor_item b" "kindOf b = Inr 5"
    "NewConstitution_fromCbor b = Inr y" "new_constitution_content y = new_constitution_content a" by blast
  then show ?thesis using NewConstitutionAction
    by (intro exI [of _ b] exI [of _ "5 :: int"] exI [of _ "NewConstitutionAction y"]) (simp add: actionToCbor_def proposalOfKind_def proposal_news)
next
  case (Info a)
  then have "InfoAction_valid a" using assms by simp
  from info_action.kind_read [OF this] obtain b y where "InfoAction_toCbor a = Inr b" "cbor_item b" "kindOf b = Inr 6"
    "InfoAction_fromCbor b = Inr y" "info_action_content y = info_action_content a" by blast
  then show ?thesis using Info
    by (intro exI [of _ b] exI [of _ "6 :: int"] exI [of _ "Info y"]) (simp add: actionToCbor_def proposalOfKind_def proposal_news)
qed

definition proposal_content where
  "proposal_content p = (gov_content (prp_action p), prp_deposit p, prp_rewardAccount p, anchor_content (prp_anchor p))"

definition ProposalProcedure_valid :: "string_codecs \<Rightarrow> ProposalProcedure \<Rightarrow> bool" where
  "ProposalProcedure_valid lib p \<longleftrightarrow> gov_valid lib (prp_action p) \<and> cbor_int (prp_deposit p) \<and> account_valid lib (prp_rewardAccount p) \<and>
     Anchor_valid (prp_anchor p) \<and> prp_originalBytes p = None"

interpretation proposal: caching_codec "ProposalProcedure_toCbor lib conway" "ProposalProcedure_fromCbor lib" "ProposalProcedure_valid lib"
  proposal_content for lib conway
proof (unfold_locales, goal_cases)
  case (1 p)
  then have v: "gov_valid lib (prp_action p)" "cbor_int (prp_deposit p)" "account_valid lib (prp_rewardAccount p)"
    "Anchor_valid (prp_anchor p)" "prp_originalBytes p = None" by (simp_all add: ProposalProcedure_valid_def)
  obtain ab k action where a: "actionToCbor lib conway (prp_action p) = Inr ab" "cbor_item ab" "kindOf ab = Inr k"
    "\<forall>deposit account anchor. proposalOfKind lib k ab deposit account anchor =
       Inr \<lparr>prp_action = action, prp_deposit = deposit, prp_rewardAccount = account, prp_anchor = anchor, prp_originalBytes = None\<rparr>"
    "gov_content action = gov_content (prp_action p)" using action_read [OF v(1)] by blast
  obtain rb where r: "\<forall>w. writeRewardText lib (prp_rewardAccount p) w = Inr (w @ enc_bytes rb)" "length rb = 29"
    "\<forall>c pre bs fr stk tag. open_frame fr \<longrightarrow> readRewardText lib (rd c pre (enc_bytes rb @ bs) fr stk tag) =
      Inr (prp_rewardAccount p, rd U (pre @ enc_bytes rb) bs (bumps 1 fr) stk False)"
    using field_account [OF v(3)] by blast
  obtain nb n where f: "field_ok (writeObject (Anchor_toCbor (prp_anchor p))) nb (readObject Anchor_fromCbor) n"
    "anchor_content n = anchor_content (prp_anchor p)" using anchor.field_of_object [OF v(4)] by blast
  show ?case using v(2,5) a r field_okD [OF f(1)] f(2)
    by (simp add: ProposalProcedure_toCbor_def ProposalProcedure_fromCbor_def proposal_content_def write_all_def encode_def rd_simps
        cert_items cbor_items)
next
  case (2 b y)
  then show ?case by (cases "b = []") (auto simp: ProposalProcedure_toCbor_def ProposalProcedure_fromCbor_def)
qed

subsection \<open>Properties\<close>

text \<open>C23. A proposal of any of the seven governance actions is written and read back as a proposal of the same
  kind with the same deposit, reward account, anchor and action content; the object that was read is
  written with the same bytes.\<close>

theorem proposal_roundtrip:
  assumes "ProposalProcedure_valid lib p"
  shows "\<exists>b y. ProposalProcedure_toCbor lib conway p = Inr b \<and> ProposalProcedure_fromCbor lib b = Inr y \<and>
    proposal_content y = proposal_content p \<and> ProposalProcedure_kind y = ProposalProcedure_kind p \<and>
    ProposalProcedure_toCbor lib conway y = Inr b"
proof -
  have "ProposalProcedure_kind y = ProposalProcedure_kind p" if "gov_content (prp_action y) = gov_content (prp_action p)" for y
    using that by (cases "prp_action y"; cases "prp_action p") (simp_all add: ProposalProcedure_kind_def)
  moreover obtain b y where b: "ProposalProcedure_toCbor lib conway p = Inr b" "ProposalProcedure_fromCbor lib b = Inr y"
    "proposal_content y = proposal_content p" "ProposalProcedure_toCbor lib conway y = Inr b"
    using proposal.reencode [OF assms, of conway] by blast
  moreover from b(3) have "gov_content (prp_action y) = gov_content (prp_action p)" by (simp add: proposal_content_def)
  ultimately show ?thesis by blast
qed

lemma example_account:
  "\<exists>s. Address_toBech32 example_codecs (RewardAddress_fromCredentials 1 \<lparr>cred_type = KeyHash, cred_hash = replicate 28 7\<rparr>) = Inr s \<and>
     account_valid example_codecs s"
proof -
  let ?a = "RewardAddress_fromCredentials 1 \<lparr>cred_type = KeyHash, cred_hash = replicate 28 7\<rparr>"
  have v: "shelley_valid ?a" by (rule fromCredentials_valid) simp_all
  have "\<forall>p. ap_pointer ?a = Some p \<longrightarrow> ptr_slot p < 18446744073709551616"
    by (simp add: RewardAddress_fromCredentials_def RewardAddress_new_def)
  from bech32_address [OF example_codecs_ok v this] obtain s where s: "Address_toBech32 example_codecs ?a = Inr s" .
  have "reward_valid (Some ?a)" using v by (simp add: reward_valid_def RewardAddress_fromCredentials_def RewardAddress_new_def)
  from printed_account_valid [OF example_codecs_ok this s] s show ?thesis by blast
qed

definition example_anchor :: Anchor where
  "example_anchor = \<lparr>an_url = [], an_dataHash = replicate 32 5, an_originalBytes = None\<rparr>"

theorem proposal_roundtrip_witness:
  "\<exists>s b y. Address_toBech32 example_codecs (RewardAddress_fromCredentials 1 \<lparr>cred_type = KeyHash, cred_hash = replicate 28 7\<rparr>) = Inr s \<and>
     ProposalProcedure_toCbor example_codecs True (ProposalProcedure_newHardForkInitiationAction 500 s example_anchor
       (HardForkInitiationAction_new (ProtocolVersion_new 10 0) None)) = Inr b \<and>
     ProposalProcedure_fromCbor example_codecs b = Inr y \<and> ProposalProcedure_kind y = 1"
proof -
  obtain s where s: "Address_toBech32 example_codecs (RewardAddress_fromCredentials 1 \<lparr>cred_type = KeyHash, cred_hash = replicate 28 7\<rparr>) = Inr s"
    "account_valid example_codecs s" using example_account by blast
  let ?p = "ProposalProcedure_newHardForkInitiationAction 500 s example_anchor (HardForkInitiationAction_new (ProtocolVersion_new 10 0) None)"
  have "ProposalProcedure_valid example_codecs ?p"
    using s(2) by (simp add: ProposalProcedure_valid_def proposal_news HardForkInitiationAction_new_def HardForkInitiationAction_valid_def
        ProtocolVersion_valid_def ProtocolVersion_new_def example_anchor_def Anchor_valid_def)
  from proposal_roundtrip [OF this, of True] obtain b y where "ProposalProcedure_toCbor example_codecs True ?p = Inr b"
    "ProposalProcedure_fromCbor example_codecs b = Inr y" "ProposalProcedure_kind y = ProposalProcedure_kind ?p" by blast
  moreover have "ProposalProcedure_kind ?p = 1" by (simp add: ProposalProcedure_kind_def proposal_news)
  ultimately show ?thesis using s(1) by (intro exI [of _ s] exI [of _ b] exI [of _ y]) simp
qed

end
