(* ===== verification/Certificates.thy ===== *)
theory Certificates
  imports Cert_Fields
begin

text \<open>
  The certificate classes of \<open>core/src/Serialization/Certificates\<close> whose fields are credentials,
  hashes, coins, DReps and anchors. A class is a record with its private fields; a method is a
  definition \<open>Class_method\<close>. A certificate is an array of its kind and its fields
  (\<open>kinded_bytes\<close>). Each class interprets the contract \<open>kinded_codec\<close>, from which the
  dispatching class \<open>Certificate\<close> gets what it needs.
\<close>

text \<open>A class with one, two, three or four fields after the kind.\<close>

lemma cert_shape1:
  assumes "field_ok w1 b1 r1 y1"
    and "toCbor = cached orig (write_all [writeStartArray (Some 2), writeInt kind, w1])" and "orig = None"
    and "\<And>cbor. fromCbor cbor = ebind (expectArray 2 (new_reader cbor)) (\<lambda>r. ebind (expectKind kind r) (\<lambda>r.
      ebind (r1 r) (\<lambda>(v1, r). ebind (readEndArray r) (\<lambda>r. Inr (f cbor v1)))))"
    and "safe_int kind" and "\<And>cbor. content (f cbor y1) = result"
  shows "\<exists>rest y. toCbor = Inr (kinded_bytes 2 kind rest) \<and> cbor_item (kinded_bytes 2 kind rest) \<and>
    fromCbor (kinded_bytes 2 kind rest) = Inr y \<and> content y = result"
  using assms field_okD [OF assms(1)]
  by (intro exI [of _ b1] exI [of _ "f (kinded_bytes 2 kind b1) y1"])
    (simp add: kinded_bytes_def cert_items write_all_def encode_def expectKind_def rd_simps)

lemma cert_shape2:
  assumes "field_ok w1 b1 r1 y1" and "field_ok w2 b2 r2 y2"
    and "toCbor = cached orig (write_all [writeStartArray (Some 3), writeInt kind, w1, w2])" and "orig = None"
    and "\<And>cbor. fromCbor cbor = ebind (expectArray 3 (new_reader cbor)) (\<lambda>r. ebind (expectKind kind r) (\<lambda>r.
      ebind (r1 r) (\<lambda>(v1, r). ebind (r2 r) (\<lambda>(v2, r). ebind (readEndArray r) (\<lambda>r. Inr (f cbor v1 v2))))))"
    and "safe_int kind" and "\<And>cbor. content (f cbor y1 y2) = result"
  shows "\<exists>rest y. toCbor = Inr (kinded_bytes 3 kind rest) \<and> cbor_item (kinded_bytes 3 kind rest) \<and>
    fromCbor (kinded_bytes 3 kind rest) = Inr y \<and> content y = result"
  using assms field_okD [OF assms(1)] field_okD [OF assms(2)]
  by (intro exI [of _ "b1 @ b2"] exI [of _ "f (kinded_bytes 3 kind (b1 @ b2)) y1 y2"])
    (simp add: kinded_bytes_def cert_items write_all_def encode_def expectKind_def rd_simps)

lemma cert_shape3:
  assumes "field_ok w1 b1 r1 y1" and "field_ok w2 b2 r2 y2" and "field_ok w3 b3 r3 y3"
    and "toCbor = cached orig (write_all [writeStartArray (Some 4), writeInt kind, w1, w2, w3])" and "orig = None"
    and "\<And>cbor. fromCbor cbor = ebind (expectArray 4 (new_reader cbor)) (\<lambda>r. ebind (expectKind kind r) (\<lambda>r.
      ebind (r1 r) (\<lambda>(v1, r). ebind (r2 r) (\<lambda>(v2, r). ebind (r3 r) (\<lambda>(v3, r).
      ebind (readEndArray r) (\<lambda>r. Inr (f cbor v1 v2 v3)))))))"
    and "safe_int kind" and "\<And>cbor. content (f cbor y1 y2 y3) = result"
  shows "\<exists>rest y. toCbor = Inr (kinded_bytes 4 kind rest) \<and> cbor_item (kinded_bytes 4 kind rest) \<and>
    fromCbor (kinded_bytes 4 kind rest) = Inr y \<and> content y = result"
  using assms field_okD [OF assms(1)] field_okD [OF assms(2)] field_okD [OF assms(3)]
  by (intro exI [of _ "b1 @ b2 @ b3"] exI [of _ "f (kinded_bytes 4 kind (b1 @ b2 @ b3)) y1 y2 y3"])
    (simp add: kinded_bytes_def cert_items write_all_def encode_def expectKind_def rd_simps)

lemma cert_shape4:
  assumes "field_ok w1 b1 r1 y1" and "field_ok w2 b2 r2 y2" and "field_ok w3 b3 r3 y3" and "field_ok w4 b4 r4 y4"
    and "toCbor = cached orig (write_all [writeStartArray (Some 5), writeInt kind, w1, w2, w3, w4])" and "orig = None"
    and "\<And>cbor. fromCbor cbor = ebind (expectArray 5 (new_reader cbor)) (\<lambda>r. ebind (expectKind kind r) (\<lambda>r.
      ebind (r1 r) (\<lambda>(v1, r). ebind (r2 r) (\<lambda>(v2, r). ebind (r3 r) (\<lambda>(v3, r). ebind (r4 r) (\<lambda>(v4, r).
      ebind (readEndArray r) (\<lambda>r. Inr (f cbor v1 v2 v3 v4))))))))"
    and "safe_int kind" and "\<And>cbor. content (f cbor y1 y2 y3 y4) = result"
  shows "\<exists>rest y. toCbor = Inr (kinded_bytes 5 kind rest) \<and> cbor_item (kinded_bytes 5 kind rest) \<and>
    fromCbor (kinded_bytes 5 kind rest) = Inr y \<and> content y = result"
  using assms field_okD [OF assms(1)] field_okD [OF assms(2)] field_okD [OF assms(3)] field_okD [OF assms(4)]
  by (intro exI [of _ "b1 @ b2 @ b3 @ b4"] exI [of _ "f (kinded_bytes 5 kind (b1 @ b2 @ b3 @ b4)) y1 y2 y3 y4"])
    (simp add: kinded_bytes_def cert_items write_all_def encode_def expectKind_def rd_simps)

subsection \<open>StakeRegistration\<close>

record StakeRegistration =
  srg_credential :: Credential
  srg_originalBytes :: "bytes option"

definition StakeRegistration_new :: "Credential \<Rightarrow> StakeRegistration" where
  "StakeRegistration_new credential = \<lparr>srg_credential = credential, srg_originalBytes = None\<rparr>"

definition StakeRegistration_toCbor :: "StakeRegistration \<Rightarrow> bytes result" where
  "StakeRegistration_toCbor x = cached (srg_originalBytes x)
     (write_all [writeStartArray (Some 2), writeInt 0, writeCredential (srg_credential x)])"

definition StakeRegistration_fromCbor :: "bytes \<Rightarrow> StakeRegistration result" where
  "StakeRegistration_fromCbor cbor =
     ebind (expectArray 2 (new_reader cbor)) (\<lambda>r.
     ebind (expectKind 0 r) (\<lambda>r.
     ebind (readCredential r) (\<lambda>(credential, r).
     ebind (readEndArray r) (\<lambda>r.
       Inr ((StakeRegistration_new credential)\<lparr>srg_originalBytes := Some cbor\<rparr>)))))"

definition StakeRegistration_setStakeCredential :: "Credential \<Rightarrow> StakeRegistration \<Rightarrow> StakeRegistration" where
  "StakeRegistration_setStakeCredential v x = x\<lparr>srg_credential := v, srg_originalBytes := None\<rparr>"

definition StakeRegistration_valid :: "StakeRegistration \<Rightarrow> bool" where
  "StakeRegistration_valid x \<longleftrightarrow> length (cred_hash (srg_credential x)) = 28 \<and> srg_originalBytes x = None"

interpretation stake_registration: kinded_codec StakeRegistration_toCbor StakeRegistration_fromCbor StakeRegistration_valid
  "\<lambda>x. srg_credential x" 2 0
proof
  fix x assume v: "StakeRegistration_valid x"
  obtain b1 where f1: "field_ok (writeCredential (srg_credential x)) b1 (readCredential) (srg_credential x)"
    using v field_credential by (auto simp: StakeRegistration_valid_def)
  show "\<exists>rest y. StakeRegistration_toCbor x = Inr (kinded_bytes 2 0 rest) \<and> cbor_item (kinded_bytes 2 0 rest) \<and>
      StakeRegistration_fromCbor (kinded_bytes 2 0 rest) = Inr y \<and> (\<lambda>x. srg_credential x) y = (\<lambda>x. srg_credential x) x"
    using v by (intro cert_shape1 [OF f1 StakeRegistration_toCbor_def _ StakeRegistration_fromCbor_def]) (simp_all add: StakeRegistration_valid_def StakeRegistration_new_def)
qed (auto simp: StakeRegistration_fromCbor_def StakeRegistration_toCbor_def dest!: expectArray_nonempty)

subsection \<open>StakeDeregistration\<close>

record StakeDeregistration =
  sdr_credential :: Credential
  sdr_originalBytes :: "bytes option"

definition StakeDeregistration_new :: "Credential \<Rightarrow> StakeDeregistration" where
  "StakeDeregistration_new credential = \<lparr>sdr_credential = credential, sdr_originalBytes = None\<rparr>"

definition StakeDeregistration_toCbor :: "StakeDeregistration \<Rightarrow> bytes result" where
  "StakeDeregistration_toCbor x = cached (sdr_originalBytes x)
     (write_all [writeStartArray (Some 2), writeInt 1, writeCredential (sdr_credential x)])"

definition StakeDeregistration_fromCbor :: "bytes \<Rightarrow> StakeDeregistration result" where
  "StakeDeregistration_fromCbor cbor =
     ebind (expectArray 2 (new_reader cbor)) (\<lambda>r.
     ebind (expectKind 1 r) (\<lambda>r.
     ebind (readCredential r) (\<lambda>(credential, r).
     ebind (readEndArray r) (\<lambda>r.
       Inr ((StakeDeregistration_new credential)\<lparr>sdr_originalBytes := Some cbor\<rparr>)))))"

definition StakeDeregistration_setStakeCredential :: "Credential \<Rightarrow> StakeDeregistration \<Rightarrow> StakeDeregistration" where
  "StakeDeregistration_setStakeCredential v x = x\<lparr>sdr_credential := v, sdr_originalBytes := None\<rparr>"

definition StakeDeregistration_valid :: "StakeDeregistration \<Rightarrow> bool" where
  "StakeDeregistration_valid x \<longleftrightarrow> length (cred_hash (sdr_credential x)) = 28 \<and> sdr_originalBytes x = None"

interpretation stake_deregistration: kinded_codec StakeDeregistration_toCbor StakeDeregistration_fromCbor StakeDeregistration_valid
  "\<lambda>x. sdr_credential x" 2 1
proof
  fix x assume v: "StakeDeregistration_valid x"
  obtain b1 where f1: "field_ok (writeCredential (sdr_credential x)) b1 (readCredential) (sdr_credential x)"
    using v field_credential by (auto simp: StakeDeregistration_valid_def)
  show "\<exists>rest y. StakeDeregistration_toCbor x = Inr (kinded_bytes 2 1 rest) \<and> cbor_item (kinded_bytes 2 1 rest) \<and>
      StakeDeregistration_fromCbor (kinded_bytes 2 1 rest) = Inr y \<and> (\<lambda>x. sdr_credential x) y = (\<lambda>x. sdr_credential x) x"
    using v by (intro cert_shape1 [OF f1 StakeDeregistration_toCbor_def _ StakeDeregistration_fromCbor_def]) (simp_all add: StakeDeregistration_valid_def StakeDeregistration_new_def)
qed (auto simp: StakeDeregistration_fromCbor_def StakeDeregistration_toCbor_def dest!: expectArray_nonempty)

subsection \<open>StakeDelegation\<close>

record StakeDelegation =
  sdl_credential :: Credential
  sdl_poolKeyHash :: bytes
  sdl_originalBytes :: "bytes option"

definition StakeDelegation_new :: "Credential \<Rightarrow> bytes \<Rightarrow> StakeDelegation" where
  "StakeDelegation_new credential poolKeyHash = \<lparr>sdl_credential = credential, sdl_poolKeyHash = poolKeyHash, sdl_originalBytes = None\<rparr>"

definition StakeDelegation_toCbor :: "StakeDelegation \<Rightarrow> bytes result" where
  "StakeDelegation_toCbor x = cached (sdl_originalBytes x)
     (write_all [writeStartArray (Some 3), writeInt 2, writeCredential (sdl_credential x), writeByteString (sdl_poolKeyHash x)])"

definition StakeDelegation_fromCbor :: "bytes \<Rightarrow> StakeDelegation result" where
  "StakeDelegation_fromCbor cbor =
     ebind (expectArray 3 (new_reader cbor)) (\<lambda>r.
     ebind (expectKind 2 r) (\<lambda>r.
     ebind (readCredential r) (\<lambda>(credential, r).
     ebind (readHash 28 r) (\<lambda>(poolKeyHash, r).
     ebind (readEndArray r) (\<lambda>r.
       Inr ((StakeDelegation_new credential poolKeyHash)\<lparr>sdl_originalBytes := Some cbor\<rparr>))))))"

definition StakeDelegation_setStakeCredential :: "Credential \<Rightarrow> StakeDelegation \<Rightarrow> StakeDelegation" where
  "StakeDelegation_setStakeCredential v x = x\<lparr>sdl_credential := v, sdl_originalBytes := None\<rparr>"

definition StakeDelegation_setPoolKeyHash :: "bytes \<Rightarrow> StakeDelegation \<Rightarrow> StakeDelegation" where
  "StakeDelegation_setPoolKeyHash v x = x\<lparr>sdl_poolKeyHash := v, sdl_originalBytes := None\<rparr>"

definition StakeDelegation_valid :: "StakeDelegation \<Rightarrow> bool" where
  "StakeDelegation_valid x \<longleftrightarrow> length (cred_hash (sdl_credential x)) = 28 \<and> length (sdl_poolKeyHash x) = 28 \<and> sdl_originalBytes x = None"

interpretation stake_delegation: kinded_codec StakeDelegation_toCbor StakeDelegation_fromCbor StakeDelegation_valid
  "\<lambda>x. (sdl_credential x, sdl_poolKeyHash x)" 3 2
proof
  fix x assume v: "StakeDelegation_valid x"
  obtain b1 where f1: "field_ok (writeCredential (sdl_credential x)) b1 (readCredential) (sdl_credential x)"
    using v field_credential by (auto simp: StakeDelegation_valid_def)
  have f2: "field_ok (writeByteString (sdl_poolKeyHash x)) (enc_bytes (sdl_poolKeyHash x)) (readHash 28) (sdl_poolKeyHash x)"
    using v by (auto simp: StakeDelegation_valid_def intro!: field_hash)
  show "\<exists>rest y. StakeDelegation_toCbor x = Inr (kinded_bytes 3 2 rest) \<and> cbor_item (kinded_bytes 3 2 rest) \<and>
      StakeDelegation_fromCbor (kinded_bytes 3 2 rest) = Inr y \<and> (\<lambda>x. (sdl_credential x, sdl_poolKeyHash x)) y = (\<lambda>x. (sdl_credential x, sdl_poolKeyHash x)) x"
    using v by (intro cert_shape2 [OF f1 f2 StakeDelegation_toCbor_def _ StakeDelegation_fromCbor_def]) (simp_all add: StakeDelegation_valid_def StakeDelegation_new_def)
qed (auto simp: StakeDelegation_fromCbor_def StakeDelegation_toCbor_def dest!: expectArray_nonempty)

subsection \<open>PoolRetirement\<close>

record PoolRetirement =
  prt_poolKeyHash :: bytes
  prt_epoch :: int
  prt_originalBytes :: "bytes option"

definition PoolRetirement_new :: "bytes \<Rightarrow> int \<Rightarrow> PoolRetirement" where
  "PoolRetirement_new poolKeyHash epoch = \<lparr>prt_poolKeyHash = poolKeyHash, prt_epoch = epoch, prt_originalBytes = None\<rparr>"

definition PoolRetirement_toCbor :: "PoolRetirement \<Rightarrow> bytes result" where
  "PoolRetirement_toCbor x = cached (prt_originalBytes x)
     (write_all [writeStartArray (Some 3), writeInt 4, writeByteString (prt_poolKeyHash x), writeInt (prt_epoch x)])"

definition PoolRetirement_fromCbor :: "bytes \<Rightarrow> PoolRetirement result" where
  "PoolRetirement_fromCbor cbor =
     ebind (expectArray 3 (new_reader cbor)) (\<lambda>r.
     ebind (expectKind 4 r) (\<lambda>r.
     ebind (readHash 28 r) (\<lambda>(poolKeyHash, r).
     ebind (readNumber r) (\<lambda>(epoch, r).
     ebind (readEndArray r) (\<lambda>r.
       Inr ((PoolRetirement_new poolKeyHash epoch)\<lparr>prt_originalBytes := Some cbor\<rparr>))))))"

definition PoolRetirement_setPoolKeyHash :: "bytes \<Rightarrow> PoolRetirement \<Rightarrow> PoolRetirement" where
  "PoolRetirement_setPoolKeyHash v x = x\<lparr>prt_poolKeyHash := v, prt_originalBytes := None\<rparr>"

definition PoolRetirement_setEpoch :: "int \<Rightarrow> PoolRetirement \<Rightarrow> PoolRetirement" where
  "PoolRetirement_setEpoch v x = x\<lparr>prt_epoch := v, prt_originalBytes := None\<rparr>"

definition PoolRetirement_valid :: "PoolRetirement \<Rightarrow> bool" where
  "PoolRetirement_valid x \<longleftrightarrow> length (prt_poolKeyHash x) = 28 \<and> safe_int (prt_epoch x) \<and> prt_originalBytes x = None"

interpretation pool_retirement: kinded_codec PoolRetirement_toCbor PoolRetirement_fromCbor PoolRetirement_valid
  "\<lambda>x. (prt_poolKeyHash x, prt_epoch x)" 3 4
proof
  fix x assume v: "PoolRetirement_valid x"
  have f1: "field_ok (writeByteString (prt_poolKeyHash x)) (enc_bytes (prt_poolKeyHash x)) (readHash 28) (prt_poolKeyHash x)"
    using v by (auto simp: PoolRetirement_valid_def intro!: field_hash)
  have f2: "field_ok (writeInt (prt_epoch x)) (enc_int (prt_epoch x)) (readNumber) (prt_epoch x)"
    using v by (auto simp: PoolRetirement_valid_def intro!: field_number)
  show "\<exists>rest y. PoolRetirement_toCbor x = Inr (kinded_bytes 3 4 rest) \<and> cbor_item (kinded_bytes 3 4 rest) \<and>
      PoolRetirement_fromCbor (kinded_bytes 3 4 rest) = Inr y \<and> (\<lambda>x. (prt_poolKeyHash x, prt_epoch x)) y = (\<lambda>x. (prt_poolKeyHash x, prt_epoch x)) x"
    using v by (intro cert_shape2 [OF f1 f2 PoolRetirement_toCbor_def _ PoolRetirement_fromCbor_def]) (simp_all add: PoolRetirement_valid_def PoolRetirement_new_def)
qed (auto simp: PoolRetirement_fromCbor_def PoolRetirement_toCbor_def dest!: expectArray_nonempty)

subsection \<open>GenesisKeyDelegation\<close>

record GenesisKeyDelegation =
  gkd_genesisHash :: bytes
  gkd_genesisDelegateHash :: bytes
  gkd_vrfKeyHash :: bytes
  gkd_originalBytes :: "bytes option"

definition GenesisKeyDelegation_new :: "bytes \<Rightarrow> bytes \<Rightarrow> bytes \<Rightarrow> GenesisKeyDelegation" where
  "GenesisKeyDelegation_new genesisHash genesisDelegateHash vrfKeyHash = \<lparr>gkd_genesisHash = genesisHash, gkd_genesisDelegateHash = genesisDelegateHash, gkd_vrfKeyHash = vrfKeyHash, gkd_originalBytes = None\<rparr>"

definition GenesisKeyDelegation_toCbor :: "GenesisKeyDelegation \<Rightarrow> bytes result" where
  "GenesisKeyDelegation_toCbor x = cached (gkd_originalBytes x)
     (write_all [writeStartArray (Some 4), writeInt 5, writeByteString (gkd_genesisHash x), writeByteString (gkd_genesisDelegateHash x), writeByteString (gkd_vrfKeyHash x)])"

definition GenesisKeyDelegation_fromCbor :: "bytes \<Rightarrow> GenesisKeyDelegation result" where
  "GenesisKeyDelegation_fromCbor cbor =
     ebind (expectArray 4 (new_reader cbor)) (\<lambda>r.
     ebind (expectKind 5 r) (\<lambda>r.
     ebind (readHash 28 r) (\<lambda>(genesisHash, r).
     ebind (readHash 28 r) (\<lambda>(genesisDelegateHash, r).
     ebind (readHash 32 r) (\<lambda>(vrfKeyHash, r).
     ebind (readEndArray r) (\<lambda>r.
       Inr ((GenesisKeyDelegation_new genesisHash genesisDelegateHash vrfKeyHash)\<lparr>gkd_originalBytes := Some cbor\<rparr>)))))))"

definition GenesisKeyDelegation_setGenesisHash :: "bytes \<Rightarrow> GenesisKeyDelegation \<Rightarrow> GenesisKeyDelegation" where
  "GenesisKeyDelegation_setGenesisHash v x = x\<lparr>gkd_genesisHash := v, gkd_originalBytes := None\<rparr>"

definition GenesisKeyDelegation_setGenesisDelegateHash :: "bytes \<Rightarrow> GenesisKeyDelegation \<Rightarrow> GenesisKeyDelegation" where
  "GenesisKeyDelegation_setGenesisDelegateHash v x = x\<lparr>gkd_genesisDelegateHash := v, gkd_originalBytes := None\<rparr>"

definition GenesisKeyDelegation_setVrfKeyHash :: "bytes \<Rightarrow> GenesisKeyDelegation \<Rightarrow> GenesisKeyDelegation" where
  "GenesisKeyDelegation_setVrfKeyHash v x = x\<lparr>gkd_vrfKeyHash := v, gkd_originalBytes := None\<rparr>"

definition GenesisKeyDelegation_valid :: "GenesisKeyDelegation \<Rightarrow> bool" where
  "GenesisKeyDelegation_valid x \<longleftrightarrow> length (gkd_genesisHash x) = 28 \<and> length (gkd_genesisDelegateHash x) = 28 \<and> length (gkd_vrfKeyHash x) = 32 \<and> gkd_originalBytes x = None"

interpretation genesis_key_delegation: kinded_codec GenesisKeyDelegation_toCbor GenesisKeyDelegation_fromCbor GenesisKeyDelegation_valid
  "\<lambda>x. (gkd_genesisHash x, gkd_genesisDelegateHash x, gkd_vrfKeyHash x)" 4 5
proof
  fix x assume v: "GenesisKeyDelegation_valid x"
  have f1: "field_ok (writeByteString (gkd_genesisHash x)) (enc_bytes (gkd_genesisHash x)) (readHash 28) (gkd_genesisHash x)"
    using v by (auto simp: GenesisKeyDelegation_valid_def intro!: field_hash)
  have f2: "field_ok (writeByteString (gkd_genesisDelegateHash x)) (enc_bytes (gkd_genesisDelegateHash x)) (readHash 28) (gkd_genesisDelegateHash x)"
    using v by (auto simp: GenesisKeyDelegation_valid_def intro!: field_hash)
  have f3: "field_ok (writeByteString (gkd_vrfKeyHash x)) (enc_bytes (gkd_vrfKeyHash x)) (readHash 32) (gkd_vrfKeyHash x)"
    using v by (auto simp: GenesisKeyDelegation_valid_def intro!: field_hash)
  show "\<exists>rest y. GenesisKeyDelegation_toCbor x = Inr (kinded_bytes 4 5 rest) \<and> cbor_item (kinded_bytes 4 5 rest) \<and>
      GenesisKeyDelegation_fromCbor (kinded_bytes 4 5 rest) = Inr y \<and> (\<lambda>x. (gkd_genesisHash x, gkd_genesisDelegateHash x, gkd_vrfKeyHash x)) y = (\<lambda>x. (gkd_genesisHash x, gkd_genesisDelegateHash x, gkd_vrfKeyHash x)) x"
    using v by (intro cert_shape3 [OF f1 f2 f3 GenesisKeyDelegation_toCbor_def _ GenesisKeyDelegation_fromCbor_def]) (simp_all add: GenesisKeyDelegation_valid_def GenesisKeyDelegation_new_def)
qed (auto simp: GenesisKeyDelegation_fromCbor_def GenesisKeyDelegation_toCbor_def dest!: expectArray_nonempty)

subsection \<open>Registration\<close>

record Registration =
  reg_credential :: Credential
  reg_deposit :: int
  reg_originalBytes :: "bytes option"

definition Registration_new :: "Credential \<Rightarrow> int \<Rightarrow> Registration" where
  "Registration_new credential deposit = \<lparr>reg_credential = credential, reg_deposit = deposit, reg_originalBytes = None\<rparr>"

definition Registration_toCbor :: "Registration \<Rightarrow> bytes result" where
  "Registration_toCbor x = cached (reg_originalBytes x)
     (write_all [writeStartArray (Some 3), writeInt 7, writeCredential (reg_credential x), writeInt (reg_deposit x)])"

definition Registration_fromCbor :: "bytes \<Rightarrow> Registration result" where
  "Registration_fromCbor cbor =
     ebind (expectArray 3 (new_reader cbor)) (\<lambda>r.
     ebind (expectKind 7 r) (\<lambda>r.
     ebind (readCredential r) (\<lambda>(credential, r).
     ebind (readInt r) (\<lambda>(deposit, r).
     ebind (readEndArray r) (\<lambda>r.
       Inr ((Registration_new credential deposit)\<lparr>reg_originalBytes := Some cbor\<rparr>))))))"

definition Registration_setStakeCredential :: "Credential \<Rightarrow> Registration \<Rightarrow> Registration" where
  "Registration_setStakeCredential v x = x\<lparr>reg_credential := v, reg_originalBytes := None\<rparr>"

definition Registration_setDeposit :: "int \<Rightarrow> Registration \<Rightarrow> Registration" where
  "Registration_setDeposit v x = x\<lparr>reg_deposit := v, reg_originalBytes := None\<rparr>"

definition Registration_valid :: "Registration \<Rightarrow> bool" where
  "Registration_valid x \<longleftrightarrow> length (cred_hash (reg_credential x)) = 28 \<and> cbor_int (reg_deposit x) \<and> reg_originalBytes x = None"

interpretation registration: kinded_codec Registration_toCbor Registration_fromCbor Registration_valid
  "\<lambda>x. (reg_credential x, reg_deposit x)" 3 7
proof
  fix x assume v: "Registration_valid x"
  obtain b1 where f1: "field_ok (writeCredential (reg_credential x)) b1 (readCredential) (reg_credential x)"
    using v field_credential by (auto simp: Registration_valid_def)
  have f2: "field_ok (writeInt (reg_deposit x)) (enc_int (reg_deposit x)) (readInt) (reg_deposit x)"
    using v by (auto simp: Registration_valid_def intro!: field_int)
  show "\<exists>rest y. Registration_toCbor x = Inr (kinded_bytes 3 7 rest) \<and> cbor_item (kinded_bytes 3 7 rest) \<and>
      Registration_fromCbor (kinded_bytes 3 7 rest) = Inr y \<and> (\<lambda>x. (reg_credential x, reg_deposit x)) y = (\<lambda>x. (reg_credential x, reg_deposit x)) x"
    using v by (intro cert_shape2 [OF f1 f2 Registration_toCbor_def _ Registration_fromCbor_def]) (simp_all add: Registration_valid_def Registration_new_def)
qed (auto simp: Registration_fromCbor_def Registration_toCbor_def dest!: expectArray_nonempty)

subsection \<open>Unregistration\<close>

record Unregistration =
  unr_credential :: Credential
  unr_deposit :: int
  unr_originalBytes :: "bytes option"

definition Unregistration_new :: "Credential \<Rightarrow> int \<Rightarrow> Unregistration" where
  "Unregistration_new credential deposit = \<lparr>unr_credential = credential, unr_deposit = deposit, unr_originalBytes = None\<rparr>"

definition Unregistration_toCbor :: "Unregistration \<Rightarrow> bytes result" where
  "Unregistration_toCbor x = cached (unr_originalBytes x)
     (write_all [writeStartArray (Some 3), writeInt 8, writeCredential (unr_credential x), writeInt (unr_deposit x)])"

definition Unregistration_fromCbor :: "bytes \<Rightarrow> Unregistration result" where
  "Unregistration_fromCbor cbor =
     ebind (expectArray 3 (new_reader cbor)) (\<lambda>r.
     ebind (expectKind 8 r) (\<lambda>r.
     ebind (readCredential r) (\<lambda>(credential, r).
     ebind (readInt r) (\<lambda>(deposit, r).
     ebind (readEndArray r) (\<lambda>r.
       Inr ((Unregistration_new credential deposit)\<lparr>unr_originalBytes := Some cbor\<rparr>))))))"

definition Unregistration_setStakeCredential :: "Credential \<Rightarrow> Unregistration \<Rightarrow> Unregistration" where
  "Unregistration_setStakeCredential v x = x\<lparr>unr_credential := v, unr_originalBytes := None\<rparr>"

definition Unregistration_setDeposit :: "int \<Rightarrow> Unregistration \<Rightarrow> Unregistration" where
  "Unregistration_setDeposit v x = x\<lparr>unr_deposit := v, unr_originalBytes := None\<rparr>"

definition Unregistration_valid :: "Unregistration \<Rightarrow> bool" where
  "Unregistration_valid x \<longleftrightarrow> length (cred_hash (unr_credential x)) = 28 \<and> cbor_int (unr_deposit x) \<and> unr_originalBytes x = None"

interpretation unregistration: kinded_codec Unregistration_toCbor Unregistration_fromCbor Unregistration_valid
  "\<lambda>x. (unr_credential x, unr_deposit x)" 3 8
proof
  fix x assume v: "Unregistration_valid x"
  obtain b1 where f1: "field_ok (writeCredential (unr_credential x)) b1 (readCredential) (unr_credential x)"
    using v field_credential by (auto simp: Unregistration_valid_def)
  have f2: "field_ok (writeInt (unr_deposit x)) (enc_int (unr_deposit x)) (readInt) (unr_deposit x)"
    using v by (auto simp: Unregistration_valid_def intro!: field_int)
  show "\<exists>rest y. Unregistration_toCbor x = Inr (kinded_bytes 3 8 rest) \<and> cbor_item (kinded_bytes 3 8 rest) \<and>
      Unregistration_fromCbor (kinded_bytes 3 8 rest) = Inr y \<and> (\<lambda>x. (unr_credential x, unr_deposit x)) y = (\<lambda>x. (unr_credential x, unr_deposit x)) x"
    using v by (intro cert_shape2 [OF f1 f2 Unregistration_toCbor_def _ Unregistration_fromCbor_def]) (simp_all add: Unregistration_valid_def Unregistration_new_def)
qed (auto simp: Unregistration_fromCbor_def Unregistration_toCbor_def dest!: expectArray_nonempty)

subsection \<open>VoteDelegation\<close>

record VoteDelegation =
  vdl_credential :: Credential
  vdl_dRep :: DRep
  vdl_originalBytes :: "bytes option"

definition VoteDelegation_new :: "Credential \<Rightarrow> DRep \<Rightarrow> VoteDelegation" where
  "VoteDelegation_new credential dRep = \<lparr>vdl_credential = credential, vdl_dRep = dRep, vdl_originalBytes = None\<rparr>"

definition VoteDelegation_toCbor :: "VoteDelegation \<Rightarrow> bytes result" where
  "VoteDelegation_toCbor x = cached (vdl_originalBytes x)
     (write_all [writeStartArray (Some 3), writeInt 9, writeCredential (vdl_credential x), writeObject (DRep_toCbor (vdl_dRep x))])"

definition VoteDelegation_fromCbor :: "bytes \<Rightarrow> VoteDelegation result" where
  "VoteDelegation_fromCbor cbor =
     ebind (expectArray 3 (new_reader cbor)) (\<lambda>r.
     ebind (expectKind 9 r) (\<lambda>r.
     ebind (readCredential r) (\<lambda>(credential, r).
     ebind (readObject DRep_fromCbor r) (\<lambda>(dRep, r).
     ebind (readEndArray r) (\<lambda>r.
       Inr ((VoteDelegation_new credential dRep)\<lparr>vdl_originalBytes := Some cbor\<rparr>))))))"

definition VoteDelegation_valid :: "VoteDelegation \<Rightarrow> bool" where
  "VoteDelegation_valid x \<longleftrightarrow> length (cred_hash (vdl_credential x)) = 28 \<and> DRep_valid (vdl_dRep x) \<and> vdl_originalBytes x = None"

interpretation vote_delegation: kinded_codec VoteDelegation_toCbor VoteDelegation_fromCbor VoteDelegation_valid
  "\<lambda>x. (vdl_credential x, vdl_dRep x)" 3 9
proof
  fix x assume v: "VoteDelegation_valid x"
  obtain b1 where f1: "field_ok (writeCredential (vdl_credential x)) b1 (readCredential) (vdl_credential x)"
    using v field_credential by (auto simp: VoteDelegation_valid_def)
  obtain b2 where f2: "field_ok (writeObject (DRep_toCbor (vdl_dRep x))) b2 (readObject DRep_fromCbor) (vdl_dRep x)"
    using v field_drep by (auto simp: VoteDelegation_valid_def)
  show "\<exists>rest y. VoteDelegation_toCbor x = Inr (kinded_bytes 3 9 rest) \<and> cbor_item (kinded_bytes 3 9 rest) \<and>
      VoteDelegation_fromCbor (kinded_bytes 3 9 rest) = Inr y \<and> (\<lambda>x. (vdl_credential x, vdl_dRep x)) y = (\<lambda>x. (vdl_credential x, vdl_dRep x)) x"
    using v by (intro cert_shape2 [OF f1 f2 VoteDelegation_toCbor_def _ VoteDelegation_fromCbor_def]) (simp_all add: VoteDelegation_valid_def VoteDelegation_new_def)
qed (auto simp: VoteDelegation_fromCbor_def VoteDelegation_toCbor_def dest!: expectArray_nonempty)

subsection \<open>StakeVoteDelegation\<close>

record StakeVoteDelegation =
  svd_credential :: Credential
  svd_poolKeyHash :: bytes
  svd_dRep :: DRep
  svd_originalBytes :: "bytes option"

definition StakeVoteDelegation_new :: "Credential \<Rightarrow> bytes \<Rightarrow> DRep \<Rightarrow> StakeVoteDelegation" where
  "StakeVoteDelegation_new credential poolKeyHash dRep = \<lparr>svd_credential = credential, svd_poolKeyHash = poolKeyHash, svd_dRep = dRep, svd_originalBytes = None\<rparr>"

definition StakeVoteDelegation_toCbor :: "StakeVoteDelegation \<Rightarrow> bytes result" where
  "StakeVoteDelegation_toCbor x = cached (svd_originalBytes x)
     (write_all [writeStartArray (Some 4), writeInt 10, writeCredential (svd_credential x), writeByteString (svd_poolKeyHash x), writeObject (DRep_toCbor (svd_dRep x))])"

definition StakeVoteDelegation_fromCbor :: "bytes \<Rightarrow> StakeVoteDelegation result" where
  "StakeVoteDelegation_fromCbor cbor =
     ebind (expectArray 4 (new_reader cbor)) (\<lambda>r.
     ebind (expectKind 10 r) (\<lambda>r.
     ebind (readCredential r) (\<lambda>(credential, r).
     ebind (readHash 28 r) (\<lambda>(poolKeyHash, r).
     ebind (readObject DRep_fromCbor r) (\<lambda>(dRep, r).
     ebind (readEndArray r) (\<lambda>r.
       Inr ((StakeVoteDelegation_new credential poolKeyHash dRep)\<lparr>svd_originalBytes := Some cbor\<rparr>)))))))"

definition StakeVoteDelegation_valid :: "StakeVoteDelegation \<Rightarrow> bool" where
  "StakeVoteDelegation_valid x \<longleftrightarrow> length (cred_hash (svd_credential x)) = 28 \<and> length (svd_poolKeyHash x) = 28 \<and> DRep_valid (svd_dRep x) \<and> svd_originalBytes x = None"

interpretation stake_vote_delegation: kinded_codec StakeVoteDelegation_toCbor StakeVoteDelegation_fromCbor StakeVoteDelegation_valid
  "\<lambda>x. (svd_credential x, svd_poolKeyHash x, svd_dRep x)" 4 10
proof
  fix x assume v: "StakeVoteDelegation_valid x"
  obtain b1 where f1: "field_ok (writeCredential (svd_credential x)) b1 (readCredential) (svd_credential x)"
    using v field_credential by (auto simp: StakeVoteDelegation_valid_def)
  have f2: "field_ok (writeByteString (svd_poolKeyHash x)) (enc_bytes (svd_poolKeyHash x)) (readHash 28) (svd_poolKeyHash x)"
    using v by (auto simp: StakeVoteDelegation_valid_def intro!: field_hash)
  obtain b3 where f3: "field_ok (writeObject (DRep_toCbor (svd_dRep x))) b3 (readObject DRep_fromCbor) (svd_dRep x)"
    using v field_drep by (auto simp: StakeVoteDelegation_valid_def)
  show "\<exists>rest y. StakeVoteDelegation_toCbor x = Inr (kinded_bytes 4 10 rest) \<and> cbor_item (kinded_bytes 4 10 rest) \<and>
      StakeVoteDelegation_fromCbor (kinded_bytes 4 10 rest) = Inr y \<and> (\<lambda>x. (svd_credential x, svd_poolKeyHash x, svd_dRep x)) y = (\<lambda>x. (svd_credential x, svd_poolKeyHash x, svd_dRep x)) x"
    using v by (intro cert_shape3 [OF f1 f2 f3 StakeVoteDelegation_toCbor_def _ StakeVoteDelegation_fromCbor_def]) (simp_all add: StakeVoteDelegation_valid_def StakeVoteDelegation_new_def)
qed (auto simp: StakeVoteDelegation_fromCbor_def StakeVoteDelegation_toCbor_def dest!: expectArray_nonempty)

subsection \<open>StakeRegistrationDelegation\<close>

record StakeRegistrationDelegation =
  srd_credential :: Credential
  srd_poolKeyHash :: bytes
  srd_deposit :: int
  srd_originalBytes :: "bytes option"

definition StakeRegistrationDelegation_new :: "Credential \<Rightarrow> bytes \<Rightarrow> int \<Rightarrow> StakeRegistrationDelegation" where
  "StakeRegistrationDelegation_new credential poolKeyHash deposit = \<lparr>srd_credential = credential, srd_poolKeyHash = poolKeyHash, srd_deposit = deposit, srd_originalBytes = None\<rparr>"

definition StakeRegistrationDelegation_toCbor :: "StakeRegistrationDelegation \<Rightarrow> bytes result" where
  "StakeRegistrationDelegation_toCbor x = cached (srd_originalBytes x)
     (write_all [writeStartArray (Some 4), writeInt 11, writeCredential (srd_credential x), writeByteString (srd_poolKeyHash x), writeInt (srd_deposit x)])"

definition StakeRegistrationDelegation_fromCbor :: "bytes \<Rightarrow> StakeRegistrationDelegation result" where
  "StakeRegistrationDelegation_fromCbor cbor =
     ebind (expectArray 4 (new_reader cbor)) (\<lambda>r.
     ebind (expectKind 11 r) (\<lambda>r.
     ebind (readCredential r) (\<lambda>(credential, r).
     ebind (readHash 28 r) (\<lambda>(poolKeyHash, r).
     ebind (readInt r) (\<lambda>(deposit, r).
     ebind (readEndArray r) (\<lambda>r.
       Inr ((StakeRegistrationDelegation_new credential poolKeyHash deposit)\<lparr>srd_originalBytes := Some cbor\<rparr>)))))))"

definition StakeRegistrationDelegation_valid :: "StakeRegistrationDelegation \<Rightarrow> bool" where
  "StakeRegistrationDelegation_valid x \<longleftrightarrow> length (cred_hash (srd_credential x)) = 28 \<and> length (srd_poolKeyHash x) = 28 \<and> cbor_int (srd_deposit x) \<and> srd_originalBytes x = None"

interpretation stake_registration_delegation: kinded_codec StakeRegistrationDelegation_toCbor StakeRegistrationDelegation_fromCbor StakeRegistrationDelegation_valid
  "\<lambda>x. (srd_credential x, srd_poolKeyHash x, srd_deposit x)" 4 11
proof
  fix x assume v: "StakeRegistrationDelegation_valid x"
  obtain b1 where f1: "field_ok (writeCredential (srd_credential x)) b1 (readCredential) (srd_credential x)"
    using v field_credential by (auto simp: StakeRegistrationDelegation_valid_def)
  have f2: "field_ok (writeByteString (srd_poolKeyHash x)) (enc_bytes (srd_poolKeyHash x)) (readHash 28) (srd_poolKeyHash x)"
    using v by (auto simp: StakeRegistrationDelegation_valid_def intro!: field_hash)
  have f3: "field_ok (writeInt (srd_deposit x)) (enc_int (srd_deposit x)) (readInt) (srd_deposit x)"
    using v by (auto simp: StakeRegistrationDelegation_valid_def intro!: field_int)
  show "\<exists>rest y. StakeRegistrationDelegation_toCbor x = Inr (kinded_bytes 4 11 rest) \<and> cbor_item (kinded_bytes 4 11 rest) \<and>
      StakeRegistrationDelegation_fromCbor (kinded_bytes 4 11 rest) = Inr y \<and> (\<lambda>x. (srd_credential x, srd_poolKeyHash x, srd_deposit x)) y = (\<lambda>x. (srd_credential x, srd_poolKeyHash x, srd_deposit x)) x"
    using v by (intro cert_shape3 [OF f1 f2 f3 StakeRegistrationDelegation_toCbor_def _ StakeRegistrationDelegation_fromCbor_def]) (simp_all add: StakeRegistrationDelegation_valid_def StakeRegistrationDelegation_new_def)
qed (auto simp: StakeRegistrationDelegation_fromCbor_def StakeRegistrationDelegation_toCbor_def dest!: expectArray_nonempty)

subsection \<open>VoteRegistrationDelegation\<close>

record VoteRegistrationDelegation =
  vrd_credential :: Credential
  vrd_dRep :: DRep
  vrd_deposit :: int
  vrd_originalBytes :: "bytes option"

definition VoteRegistrationDelegation_new :: "Credential \<Rightarrow> DRep \<Rightarrow> int \<Rightarrow> VoteRegistrationDelegation" where
  "VoteRegistrationDelegation_new credential dRep deposit = \<lparr>vrd_credential = credential, vrd_dRep = dRep, vrd_deposit = deposit, vrd_originalBytes = None\<rparr>"

definition VoteRegistrationDelegation_toCbor :: "VoteRegistrationDelegation \<Rightarrow> bytes result" where
  "VoteRegistrationDelegation_toCbor x = cached (vrd_originalBytes x)
     (write_all [writeStartArray (Some 4), writeInt 12, writeCredential (vrd_credential x), writeObject (DRep_toCbor (vrd_dRep x)), writeInt (vrd_deposit x)])"

definition VoteRegistrationDelegation_fromCbor :: "bytes \<Rightarrow> VoteRegistrationDelegation result" where
  "VoteRegistrationDelegation_fromCbor cbor =
     ebind (expectArray 4 (new_reader cbor)) (\<lambda>r.
     ebind (expectKind 12 r) (\<lambda>r.
     ebind (readCredential r) (\<lambda>(credential, r).
     ebind (readObject DRep_fromCbor r) (\<lambda>(dRep, r).
     ebind (readInt r) (\<lambda>(deposit, r).
     ebind (readEndArray r) (\<lambda>r.
       Inr ((VoteRegistrationDelegation_new credential dRep deposit)\<lparr>vrd_originalBytes := Some cbor\<rparr>)))))))"

definition VoteRegistrationDelegation_valid :: "VoteRegistrationDelegation \<Rightarrow> bool" where
  "VoteRegistrationDelegation_valid x \<longleftrightarrow> length (cred_hash (vrd_credential x)) = 28 \<and> DRep_valid (vrd_dRep x) \<and> cbor_int (vrd_deposit x) \<and> vrd_originalBytes x = None"

interpretation vote_registration_delegation: kinded_codec VoteRegistrationDelegation_toCbor VoteRegistrationDelegation_fromCbor VoteRegistrationDelegation_valid
  "\<lambda>x. (vrd_credential x, vrd_dRep x, vrd_deposit x)" 4 12
proof
  fix x assume v: "VoteRegistrationDelegation_valid x"
  obtain b1 where f1: "field_ok (writeCredential (vrd_credential x)) b1 (readCredential) (vrd_credential x)"
    using v field_credential by (auto simp: VoteRegistrationDelegation_valid_def)
  obtain b2 where f2: "field_ok (writeObject (DRep_toCbor (vrd_dRep x))) b2 (readObject DRep_fromCbor) (vrd_dRep x)"
    using v field_drep by (auto simp: VoteRegistrationDelegation_valid_def)
  have f3: "field_ok (writeInt (vrd_deposit x)) (enc_int (vrd_deposit x)) (readInt) (vrd_deposit x)"
    using v by (auto simp: VoteRegistrationDelegation_valid_def intro!: field_int)
  show "\<exists>rest y. VoteRegistrationDelegation_toCbor x = Inr (kinded_bytes 4 12 rest) \<and> cbor_item (kinded_bytes 4 12 rest) \<and>
      VoteRegistrationDelegation_fromCbor (kinded_bytes 4 12 rest) = Inr y \<and> (\<lambda>x. (vrd_credential x, vrd_dRep x, vrd_deposit x)) y = (\<lambda>x. (vrd_credential x, vrd_dRep x, vrd_deposit x)) x"
    using v by (intro cert_shape3 [OF f1 f2 f3 VoteRegistrationDelegation_toCbor_def _ VoteRegistrationDelegation_fromCbor_def]) (simp_all add: VoteRegistrationDelegation_valid_def VoteRegistrationDelegation_new_def)
qed (auto simp: VoteRegistrationDelegation_fromCbor_def VoteRegistrationDelegation_toCbor_def dest!: expectArray_nonempty)

subsection \<open>StakeVoteRegistrationDelegation\<close>

record StakeVoteRegistrationDelegation =
  svr_credential :: Credential
  svr_poolKeyHash :: bytes
  svr_dRep :: DRep
  svr_deposit :: int
  svr_originalBytes :: "bytes option"

definition StakeVoteRegistrationDelegation_new :: "Credential \<Rightarrow> bytes \<Rightarrow> DRep \<Rightarrow> int \<Rightarrow> StakeVoteRegistrationDelegation" where
  "StakeVoteRegistrationDelegation_new credential poolKeyHash dRep deposit = \<lparr>svr_credential = credential, svr_poolKeyHash = poolKeyHash, svr_dRep = dRep, svr_deposit = deposit, svr_originalBytes = None\<rparr>"

definition StakeVoteRegistrationDelegation_toCbor :: "StakeVoteRegistrationDelegation \<Rightarrow> bytes result" where
  "StakeVoteRegistrationDelegation_toCbor x = cached (svr_originalBytes x)
     (write_all [writeStartArray (Some 5), writeInt 13, writeCredential (svr_credential x), writeByteString (svr_poolKeyHash x), writeObject (DRep_toCbor (svr_dRep x)), writeInt (svr_deposit x)])"

definition StakeVoteRegistrationDelegation_fromCbor :: "bytes \<Rightarrow> StakeVoteRegistrationDelegation result" where
  "StakeVoteRegistrationDelegation_fromCbor cbor =
     ebind (expectArray 5 (new_reader cbor)) (\<lambda>r.
     ebind (expectKind 13 r) (\<lambda>r.
     ebind (readCredential r) (\<lambda>(credential, r).
     ebind (readHash 28 r) (\<lambda>(poolKeyHash, r).
     ebind (readObject DRep_fromCbor r) (\<lambda>(dRep, r).
     ebind (readInt r) (\<lambda>(deposit, r).
     ebind (readEndArray r) (\<lambda>r.
       Inr ((StakeVoteRegistrationDelegation_new credential poolKeyHash dRep deposit)\<lparr>svr_originalBytes := Some cbor\<rparr>))))))))"

definition StakeVoteRegistrationDelegation_valid :: "StakeVoteRegistrationDelegation \<Rightarrow> bool" where
  "StakeVoteRegistrationDelegation_valid x \<longleftrightarrow> length (cred_hash (svr_credential x)) = 28 \<and> length (svr_poolKeyHash x) = 28 \<and> DRep_valid (svr_dRep x) \<and> cbor_int (svr_deposit x) \<and> svr_originalBytes x = None"

interpretation stake_vote_registration_delegation: kinded_codec StakeVoteRegistrationDelegation_toCbor StakeVoteRegistrationDelegation_fromCbor StakeVoteRegistrationDelegation_valid
  "\<lambda>x. (svr_credential x, svr_poolKeyHash x, svr_dRep x, svr_deposit x)" 5 13
proof
  fix x assume v: "StakeVoteRegistrationDelegation_valid x"
  obtain b1 where f1: "field_ok (writeCredential (svr_credential x)) b1 (readCredential) (svr_credential x)"
    using v field_credential by (auto simp: StakeVoteRegistrationDelegation_valid_def)
  have f2: "field_ok (writeByteString (svr_poolKeyHash x)) (enc_bytes (svr_poolKeyHash x)) (readHash 28) (svr_poolKeyHash x)"
    using v by (auto simp: StakeVoteRegistrationDelegation_valid_def intro!: field_hash)
  obtain b3 where f3: "field_ok (writeObject (DRep_toCbor (svr_dRep x))) b3 (readObject DRep_fromCbor) (svr_dRep x)"
    using v field_drep by (auto simp: StakeVoteRegistrationDelegation_valid_def)
  have f4: "field_ok (writeInt (svr_deposit x)) (enc_int (svr_deposit x)) (readInt) (svr_deposit x)"
    using v by (auto simp: StakeVoteRegistrationDelegation_valid_def intro!: field_int)
  show "\<exists>rest y. StakeVoteRegistrationDelegation_toCbor x = Inr (kinded_bytes 5 13 rest) \<and> cbor_item (kinded_bytes 5 13 rest) \<and>
      StakeVoteRegistrationDelegation_fromCbor (kinded_bytes 5 13 rest) = Inr y \<and> (\<lambda>x. (svr_credential x, svr_poolKeyHash x, svr_dRep x, svr_deposit x)) y = (\<lambda>x. (svr_credential x, svr_poolKeyHash x, svr_dRep x, svr_deposit x)) x"
    using v by (intro cert_shape4 [OF f1 f2 f3 f4 StakeVoteRegistrationDelegation_toCbor_def _ StakeVoteRegistrationDelegation_fromCbor_def]) (simp_all add: StakeVoteRegistrationDelegation_valid_def StakeVoteRegistrationDelegation_new_def)
qed (auto simp: StakeVoteRegistrationDelegation_fromCbor_def StakeVoteRegistrationDelegation_toCbor_def dest!: expectArray_nonempty)

subsection \<open>AuthCommitteeHot\<close>

record AuthCommitteeHot =
  ach_coldCredential :: Credential
  ach_hotCredential :: Credential
  ach_originalBytes :: "bytes option"

definition AuthCommitteeHot_new :: "Credential \<Rightarrow> Credential \<Rightarrow> AuthCommitteeHot" where
  "AuthCommitteeHot_new coldCredential hotCredential = \<lparr>ach_coldCredential = coldCredential, ach_hotCredential = hotCredential, ach_originalBytes = None\<rparr>"

definition AuthCommitteeHot_toCbor :: "AuthCommitteeHot \<Rightarrow> bytes result" where
  "AuthCommitteeHot_toCbor x = cached (ach_originalBytes x)
     (write_all [writeStartArray (Some 3), writeInt 14, writeCredential (ach_coldCredential x), writeCredential (ach_hotCredential x)])"

definition AuthCommitteeHot_fromCbor :: "bytes \<Rightarrow> AuthCommitteeHot result" where
  "AuthCommitteeHot_fromCbor cbor =
     ebind (expectArray 3 (new_reader cbor)) (\<lambda>r.
     ebind (expectKind 14 r) (\<lambda>r.
     ebind (readCredential r) (\<lambda>(coldCredential, r).
     ebind (readCredential r) (\<lambda>(hotCredential, r).
     ebind (readEndArray r) (\<lambda>r.
       Inr ((AuthCommitteeHot_new coldCredential hotCredential)\<lparr>ach_originalBytes := Some cbor\<rparr>))))))"

definition AuthCommitteeHot_valid :: "AuthCommitteeHot \<Rightarrow> bool" where
  "AuthCommitteeHot_valid x \<longleftrightarrow> length (cred_hash (ach_coldCredential x)) = 28 \<and> length (cred_hash (ach_hotCredential x)) = 28 \<and> ach_originalBytes x = None"

interpretation auth_committee_hot: kinded_codec AuthCommitteeHot_toCbor AuthCommitteeHot_fromCbor AuthCommitteeHot_valid
  "\<lambda>x. (ach_coldCredential x, ach_hotCredential x)" 3 14
proof
  fix x assume v: "AuthCommitteeHot_valid x"
  obtain b1 where f1: "field_ok (writeCredential (ach_coldCredential x)) b1 (readCredential) (ach_coldCredential x)"
    using v field_credential by (auto simp: AuthCommitteeHot_valid_def)
  obtain b2 where f2: "field_ok (writeCredential (ach_hotCredential x)) b2 (readCredential) (ach_hotCredential x)"
    using v field_credential by (auto simp: AuthCommitteeHot_valid_def)
  show "\<exists>rest y. AuthCommitteeHot_toCbor x = Inr (kinded_bytes 3 14 rest) \<and> cbor_item (kinded_bytes 3 14 rest) \<and>
      AuthCommitteeHot_fromCbor (kinded_bytes 3 14 rest) = Inr y \<and> (\<lambda>x. (ach_coldCredential x, ach_hotCredential x)) y = (\<lambda>x. (ach_coldCredential x, ach_hotCredential x)) x"
    using v by (intro cert_shape2 [OF f1 f2 AuthCommitteeHot_toCbor_def _ AuthCommitteeHot_fromCbor_def]) (simp_all add: AuthCommitteeHot_valid_def AuthCommitteeHot_new_def)
qed (auto simp: AuthCommitteeHot_fromCbor_def AuthCommitteeHot_toCbor_def dest!: expectArray_nonempty)

subsection \<open>ResignCommitteeCold\<close>

record ResignCommitteeCold =
  rcc_coldCredential :: Credential
  rcc_anchor :: "Anchor option"
  rcc_originalBytes :: "bytes option"

definition ResignCommitteeCold_new :: "Credential \<Rightarrow> (Anchor option) \<Rightarrow> ResignCommitteeCold" where
  "ResignCommitteeCold_new coldCredential anchor = \<lparr>rcc_coldCredential = coldCredential, rcc_anchor = anchor, rcc_originalBytes = None\<rparr>"

definition ResignCommitteeCold_toCbor :: "ResignCommitteeCold \<Rightarrow> bytes result" where
  "ResignCommitteeCold_toCbor x = cached (rcc_originalBytes x)
     (write_all [writeStartArray (Some 3), writeInt 15, writeCredential (rcc_coldCredential x), writeNullable Anchor_toCbor (rcc_anchor x)])"

definition ResignCommitteeCold_fromCbor :: "bytes \<Rightarrow> ResignCommitteeCold result" where
  "ResignCommitteeCold_fromCbor cbor =
     ebind (expectArray 3 (new_reader cbor)) (\<lambda>r.
     ebind (expectKind 15 r) (\<lambda>r.
     ebind (readCredential r) (\<lambda>(coldCredential, r).
     ebind (readNullable Anchor_fromCbor r) (\<lambda>(anchor, r).
     ebind (readEndArray r) (\<lambda>r.
       Inr ((ResignCommitteeCold_new coldCredential anchor)\<lparr>rcc_originalBytes := Some cbor\<rparr>))))))"

definition ResignCommitteeCold_valid :: "ResignCommitteeCold \<Rightarrow> bool" where
  "ResignCommitteeCold_valid x \<longleftrightarrow> length (cred_hash (rcc_coldCredential x)) = 28 \<and> (\<forall>a. rcc_anchor x = Some a \<longrightarrow> Anchor_valid a) \<and> rcc_originalBytes x = None"

interpretation resign_committee_cold: kinded_codec ResignCommitteeCold_toCbor ResignCommitteeCold_fromCbor ResignCommitteeCold_valid
  "\<lambda>x. (rcc_coldCredential x, map_option anchor_content (rcc_anchor x))" 3 15
proof
  fix x assume v: "ResignCommitteeCold_valid x"
  obtain b1 where f1: "field_ok (writeCredential (rcc_coldCredential x)) b1 (readCredential) (rcc_coldCredential x)"
    using v field_credential by (auto simp: ResignCommitteeCold_valid_def)
  obtain b2 y2 where f2: "field_ok (writeNullable Anchor_toCbor (rcc_anchor x)) b2 (readNullable Anchor_fromCbor) y2"
    and a2: "map_option anchor_content y2 = map_option anchor_content (rcc_anchor x)"
    using v field_anchor [of "rcc_anchor x"] by (auto simp: ResignCommitteeCold_valid_def)
  show "\<exists>rest y. ResignCommitteeCold_toCbor x = Inr (kinded_bytes 3 15 rest) \<and> cbor_item (kinded_bytes 3 15 rest) \<and>
      ResignCommitteeCold_fromCbor (kinded_bytes 3 15 rest) = Inr y \<and> (\<lambda>x. (rcc_coldCredential x, map_option anchor_content (rcc_anchor x))) y = (\<lambda>x. (rcc_coldCredential x, map_option anchor_content (rcc_anchor x))) x"
    using v a2 by (intro cert_shape2 [OF f1 f2 ResignCommitteeCold_toCbor_def _ ResignCommitteeCold_fromCbor_def]) (simp_all add: ResignCommitteeCold_valid_def ResignCommitteeCold_new_def)
qed (auto simp: ResignCommitteeCold_fromCbor_def ResignCommitteeCold_toCbor_def dest!: expectArray_nonempty)

subsection \<open>RegisterDelegateRepresentative\<close>

record RegisterDelegateRepresentative =
  rdr_drepCredential :: Credential
  rdr_deposit :: int
  rdr_anchor :: "Anchor option"
  rdr_originalBytes :: "bytes option"

definition RegisterDelegateRepresentative_new :: "Credential \<Rightarrow> int \<Rightarrow> (Anchor option) \<Rightarrow> RegisterDelegateRepresentative" where
  "RegisterDelegateRepresentative_new drepCredential deposit anchor = \<lparr>rdr_drepCredential = drepCredential, rdr_deposit = deposit, rdr_anchor = anchor, rdr_originalBytes = None\<rparr>"

definition RegisterDelegateRepresentative_toCbor :: "RegisterDelegateRepresentative \<Rightarrow> bytes result" where
  "RegisterDelegateRepresentative_toCbor x = cached (rdr_originalBytes x)
     (write_all [writeStartArray (Some 4), writeInt 16, writeCredential (rdr_drepCredential x), writeInt (rdr_deposit x), writeNullable Anchor_toCbor (rdr_anchor x)])"

definition RegisterDelegateRepresentative_fromCbor :: "bytes \<Rightarrow> RegisterDelegateRepresentative result" where
  "RegisterDelegateRepresentative_fromCbor cbor =
     ebind (expectArray 4 (new_reader cbor)) (\<lambda>r.
     ebind (expectKind 16 r) (\<lambda>r.
     ebind (readCredential r) (\<lambda>(drepCredential, r).
     ebind (readInt r) (\<lambda>(deposit, r).
     ebind (readNullable Anchor_fromCbor r) (\<lambda>(anchor, r).
     ebind (readEndArray r) (\<lambda>r.
       Inr ((RegisterDelegateRepresentative_new drepCredential deposit anchor)\<lparr>rdr_originalBytes := Some cbor\<rparr>)))))))"

definition RegisterDelegateRepresentative_valid :: "RegisterDelegateRepresentative \<Rightarrow> bool" where
  "RegisterDelegateRepresentative_valid x \<longleftrightarrow> length (cred_hash (rdr_drepCredential x)) = 28 \<and> cbor_int (rdr_deposit x) \<and> (\<forall>a. rdr_anchor x = Some a \<longrightarrow> Anchor_valid a) \<and> rdr_originalBytes x = None"

interpretation register_delegate_representative: kinded_codec RegisterDelegateRepresentative_toCbor RegisterDelegateRepresentative_fromCbor RegisterDelegateRepresentative_valid
  "\<lambda>x. (rdr_drepCredential x, rdr_deposit x, map_option anchor_content (rdr_anchor x))" 4 16
proof
  fix x assume v: "RegisterDelegateRepresentative_valid x"
  obtain b1 where f1: "field_ok (writeCredential (rdr_drepCredential x)) b1 (readCredential) (rdr_drepCredential x)"
    using v field_credential by (auto simp: RegisterDelegateRepresentative_valid_def)
  have f2: "field_ok (writeInt (rdr_deposit x)) (enc_int (rdr_deposit x)) (readInt) (rdr_deposit x)"
    using v by (auto simp: RegisterDelegateRepresentative_valid_def intro!: field_int)
  obtain b3 y3 where f3: "field_ok (writeNullable Anchor_toCbor (rdr_anchor x)) b3 (readNullable Anchor_fromCbor) y3"
    and a3: "map_option anchor_content y3 = map_option anchor_content (rdr_anchor x)"
    using v field_anchor [of "rdr_anchor x"] by (auto simp: RegisterDelegateRepresentative_valid_def)
  show "\<exists>rest y. RegisterDelegateRepresentative_toCbor x = Inr (kinded_bytes 4 16 rest) \<and> cbor_item (kinded_bytes 4 16 rest) \<and>
      RegisterDelegateRepresentative_fromCbor (kinded_bytes 4 16 rest) = Inr y \<and> (\<lambda>x. (rdr_drepCredential x, rdr_deposit x, map_option anchor_content (rdr_anchor x))) y = (\<lambda>x. (rdr_drepCredential x, rdr_deposit x, map_option anchor_content (rdr_anchor x))) x"
    using v a3 by (intro cert_shape3 [OF f1 f2 f3 RegisterDelegateRepresentative_toCbor_def _ RegisterDelegateRepresentative_fromCbor_def]) (simp_all add: RegisterDelegateRepresentative_valid_def RegisterDelegateRepresentative_new_def)
qed (auto simp: RegisterDelegateRepresentative_fromCbor_def RegisterDelegateRepresentative_toCbor_def dest!: expectArray_nonempty)

subsection \<open>UnregisterDelegateRepresentative\<close>

record UnregisterDelegateRepresentative =
  udr_drepCredential :: Credential
  udr_deposit :: int
  udr_originalBytes :: "bytes option"

definition UnregisterDelegateRepresentative_new :: "Credential \<Rightarrow> int \<Rightarrow> UnregisterDelegateRepresentative" where
  "UnregisterDelegateRepresentative_new drepCredential deposit = \<lparr>udr_drepCredential = drepCredential, udr_deposit = deposit, udr_originalBytes = None\<rparr>"

definition UnregisterDelegateRepresentative_toCbor :: "UnregisterDelegateRepresentative \<Rightarrow> bytes result" where
  "UnregisterDelegateRepresentative_toCbor x = cached (udr_originalBytes x)
     (write_all [writeStartArray (Some 3), writeInt 17, writeCredential (udr_drepCredential x), writeInt (udr_deposit x)])"

definition UnregisterDelegateRepresentative_fromCbor :: "bytes \<Rightarrow> UnregisterDelegateRepresentative result" where
  "UnregisterDelegateRepresentative_fromCbor cbor =
     ebind (expectArray 3 (new_reader cbor)) (\<lambda>r.
     ebind (expectKind 17 r) (\<lambda>r.
     ebind (readCredential r) (\<lambda>(drepCredential, r).
     ebind (readInt r) (\<lambda>(deposit, r).
     ebind (readEndArray r) (\<lambda>r.
       Inr ((UnregisterDelegateRepresentative_new drepCredential deposit)\<lparr>udr_originalBytes := Some cbor\<rparr>))))))"

definition UnregisterDelegateRepresentative_valid :: "UnregisterDelegateRepresentative \<Rightarrow> bool" where
  "UnregisterDelegateRepresentative_valid x \<longleftrightarrow> length (cred_hash (udr_drepCredential x)) = 28 \<and> cbor_int (udr_deposit x) \<and> udr_originalBytes x = None"

interpretation unregister_delegate_representative: kinded_codec UnregisterDelegateRepresentative_toCbor UnregisterDelegateRepresentative_fromCbor UnregisterDelegateRepresentative_valid
  "\<lambda>x. (udr_drepCredential x, udr_deposit x)" 3 17
proof
  fix x assume v: "UnregisterDelegateRepresentative_valid x"
  obtain b1 where f1: "field_ok (writeCredential (udr_drepCredential x)) b1 (readCredential) (udr_drepCredential x)"
    using v field_credential by (auto simp: UnregisterDelegateRepresentative_valid_def)
  have f2: "field_ok (writeInt (udr_deposit x)) (enc_int (udr_deposit x)) (readInt) (udr_deposit x)"
    using v by (auto simp: UnregisterDelegateRepresentative_valid_def intro!: field_int)
  show "\<exists>rest y. UnregisterDelegateRepresentative_toCbor x = Inr (kinded_bytes 3 17 rest) \<and> cbor_item (kinded_bytes 3 17 rest) \<and>
      UnregisterDelegateRepresentative_fromCbor (kinded_bytes 3 17 rest) = Inr y \<and> (\<lambda>x. (udr_drepCredential x, udr_deposit x)) y = (\<lambda>x. (udr_drepCredential x, udr_deposit x)) x"
    using v by (intro cert_shape2 [OF f1 f2 UnregisterDelegateRepresentative_toCbor_def _ UnregisterDelegateRepresentative_fromCbor_def]) (simp_all add: UnregisterDelegateRepresentative_valid_def UnregisterDelegateRepresentative_new_def)
qed (auto simp: UnregisterDelegateRepresentative_fromCbor_def UnregisterDelegateRepresentative_toCbor_def dest!: expectArray_nonempty)

subsection \<open>UpdateDelegateRepresentative\<close>

record UpdateDelegateRepresentative =
  upd_drepCredential :: Credential
  upd_anchor :: "Anchor option"
  upd_originalBytes :: "bytes option"

definition UpdateDelegateRepresentative_new :: "Credential \<Rightarrow> (Anchor option) \<Rightarrow> UpdateDelegateRepresentative" where
  "UpdateDelegateRepresentative_new drepCredential anchor = \<lparr>upd_drepCredential = drepCredential, upd_anchor = anchor, upd_originalBytes = None\<rparr>"

definition UpdateDelegateRepresentative_toCbor :: "UpdateDelegateRepresentative \<Rightarrow> bytes result" where
  "UpdateDelegateRepresentative_toCbor x = cached (upd_originalBytes x)
     (write_all [writeStartArray (Some 3), writeInt 18, writeCredential (upd_drepCredential x), writeNullable Anchor_toCbor (upd_anchor x)])"

definition UpdateDelegateRepresentative_fromCbor :: "bytes \<Rightarrow> UpdateDelegateRepresentative result" where
  "UpdateDelegateRepresentative_fromCbor cbor =
     ebind (expectArray 3 (new_reader cbor)) (\<lambda>r.
     ebind (expectKind 18 r) (\<lambda>r.
     ebind (readCredential r) (\<lambda>(drepCredential, r).
     ebind (readNullable Anchor_fromCbor r) (\<lambda>(anchor, r).
     ebind (readEndArray r) (\<lambda>r.
       Inr ((UpdateDelegateRepresentative_new drepCredential anchor)\<lparr>upd_originalBytes := Some cbor\<rparr>))))))"

definition UpdateDelegateRepresentative_valid :: "UpdateDelegateRepresentative \<Rightarrow> bool" where
  "UpdateDelegateRepresentative_valid x \<longleftrightarrow> length (cred_hash (upd_drepCredential x)) = 28 \<and> (\<forall>a. upd_anchor x = Some a \<longrightarrow> Anchor_valid a) \<and> upd_originalBytes x = None"

interpretation update_delegate_representative: kinded_codec UpdateDelegateRepresentative_toCbor UpdateDelegateRepresentative_fromCbor UpdateDelegateRepresentative_valid
  "\<lambda>x. (upd_drepCredential x, map_option anchor_content (upd_anchor x))" 3 18
proof
  fix x assume v: "UpdateDelegateRepresentative_valid x"
  obtain b1 where f1: "field_ok (writeCredential (upd_drepCredential x)) b1 (readCredential) (upd_drepCredential x)"
    using v field_credential by (auto simp: UpdateDelegateRepresentative_valid_def)
  obtain b2 y2 where f2: "field_ok (writeNullable Anchor_toCbor (upd_anchor x)) b2 (readNullable Anchor_fromCbor) y2"
    and a2: "map_option anchor_content y2 = map_option anchor_content (upd_anchor x)"
    using v field_anchor [of "upd_anchor x"] by (auto simp: UpdateDelegateRepresentative_valid_def)
  show "\<exists>rest y. UpdateDelegateRepresentative_toCbor x = Inr (kinded_bytes 3 18 rest) \<and> cbor_item (kinded_bytes 3 18 rest) \<and>
      UpdateDelegateRepresentative_fromCbor (kinded_bytes 3 18 rest) = Inr y \<and> (\<lambda>x. (upd_drepCredential x, map_option anchor_content (upd_anchor x))) y = (\<lambda>x. (upd_drepCredential x, map_option anchor_content (upd_anchor x))) x"
    using v a2 by (intro cert_shape2 [OF f1 f2 UpdateDelegateRepresentative_toCbor_def _ UpdateDelegateRepresentative_fromCbor_def]) (simp_all add: UpdateDelegateRepresentative_valid_def UpdateDelegateRepresentative_new_def)
qed (auto simp: UpdateDelegateRepresentative_fromCbor_def UpdateDelegateRepresentative_toCbor_def dest!: expectArray_nonempty)

end
