(* ===== verification/Mir.thy ===== *)
theory Mir
  imports Cert_Fields "HOL-Library.Multiset"
begin

text \<open>
  Move-instantaneous-rewards certificates
  (\<open>core/src/Serialization/Certificates/MoveInstantaneousReward\<close>). The entries of a distribution to
  stake credentials are a list (the \<open>Map\<close> is keyed by credential objects, so nothing is merged).
  The code sorts them before writing with a comparison that turns the entries into strings and never
  answers "equal"; the order that results depends on the engine and is the parameter \<open>sortEntries\<close>,
  of which only is used that it rearranges the entries.
\<close>

datatype MirCertificatePot = Reserves | Treasury

definition pot_num :: "MirCertificatePot \<Rightarrow> int" where
  "pot_num pot = (if pot = Reserves then 0 else 1)"

definition pot_of :: "int \<Rightarrow> MirCertificatePot" where
  "pot_of n = (if n = 0 then Reserves else Treasury)"

subsection \<open>To the other pot\<close>

record MoveInstantaneousRewardToOtherPot =
  mop_pot :: MirCertificatePot
  mop_amount :: int
  mop_originalBytes :: "bytes option"

definition MirToOtherPot_toCbor :: "MoveInstantaneousRewardToOtherPot \<Rightarrow> bytes result" where
  "MirToOtherPot_toCbor x = cached (mop_originalBytes x)
     (write_all [writeStartArray (Some 2), writeInt (pot_num (mop_pot x)), writeInt (mop_amount x)])"

definition MirToOtherPot_fromCbor :: "bytes \<Rightarrow> MoveInstantaneousRewardToOtherPot result" where
  "MirToOtherPot_fromCbor cbor =
     ebind (expectArray 2 (new_reader cbor)) (\<lambda>r.
     ebind (readNumber r) (\<lambda>(pot, r).
     ebind (readInt r) (\<lambda>(amount, r).
     ebind (throw_if (pot < 0 \<or> 1 < pot) InvalidArgumentError) (\<lambda>_.
       Inr \<lparr>mop_pot = pot_of pot, mop_amount = amount, mop_originalBytes = Some cbor\<rparr>))))"

definition MirToOtherPot_setPot :: "MirCertificatePot \<Rightarrow> MoveInstantaneousRewardToOtherPot \<Rightarrow> MoveInstantaneousRewardToOtherPot" where
  "MirToOtherPot_setPot v x = x\<lparr>mop_pot := v, mop_originalBytes := None\<rparr>"

definition MirToOtherPot_setAmount :: "int \<Rightarrow> MoveInstantaneousRewardToOtherPot \<Rightarrow> MoveInstantaneousRewardToOtherPot" where
  "MirToOtherPot_setAmount v x = x\<lparr>mop_amount := v, mop_originalBytes := None\<rparr>"

subsection \<open>To stake credentials\<close>

type_synonym mir_entry = "Credential \<times> int"

record MoveInstantaneousRewardToStakeCreds =
  msc_pot :: MirCertificatePot
  msc_credentials :: "mir_entry list"
  msc_originalBytes :: "bytes option"

definition writeMirEntry :: "mir_entry \<Rightarrow> writer_op" where
  "writeMirEntry e = run_ops [writeCredential (fst e), writeInt (snd e)]"

definition MirToStakeCreds_toCbor :: "(mir_entry list \<Rightarrow> mir_entry list) \<Rightarrow> MoveInstantaneousRewardToStakeCreds \<Rightarrow> bytes result" where
  "MirToStakeCreds_toCbor sortEntries x = cached (msc_originalBytes x)
     (let sortedCanonically = sortEntries (msc_credentials x)
      in write_all ([writeStartArray (Some 2), writeInt (pot_num (msc_pot x)),
           writeStartMap (Some (length sortedCanonically))] @ map writeMirEntry sortedCanonically))"

definition readMirEntry :: "CborReader \<Rightarrow> (mir_entry \<times> CborReader) result" where
  "readMirEntry r =
     ebind (readStartArray r) (\<lambda>(_, r).
     ebind (readNumber r) (\<lambda>(credentialType, r).
     ebind (throw_if (credentialType < 0 \<or> 1 < credentialType) InvalidArgumentError) (\<lambda>_.
     ebind (readHash 28 r) (\<lambda>(credHash, r).
     ebind (readEndArray r) (\<lambda>r.
     ebind (readInt r) (\<lambda>(amount, r).
       Inr ((\<lparr>cred_type = (if credentialType = 0 then KeyHash else ScriptHash), cred_hash = credHash\<rparr>, amount), r)))))))"

lemma readMirEntry_progress: "readMirEntry r = Inr (e, r') \<Longrightarrow> progress r r'"
  by (auto simp: readMirEntry_def readNumber_def readHash_def dest!: progress_intros)
    (meson progress_trans)

function readMirEntries :: "CborReader \<Rightarrow> (mir_entry list \<times> CborReader) result" where
  "readMirEntries r =
     ebind (peekState r) (\<lambda>(state, r1).
       if state = EndMap then Inr ([], r1)
       else ebind (readMirEntry r1) (\<lambda>(e, r2).
            ebind (readMirEntries r2) (\<lambda>(es, r3). Inr (e # es, r3))))"
  by pat_completeness auto
termination
  by (relation "measure reader_size")
    (auto dest!: readMirEntry_progress peekState_reader_size simp: progress_def)

declare readMirEntries.simps [simp del]

definition MirToStakeCreds_fromCbor :: "bytes \<Rightarrow> MoveInstantaneousRewardToStakeCreds result" where
  "MirToStakeCreds_fromCbor cbor =
     ebind (expectArray 2 (new_reader cbor)) (\<lambda>r.
     ebind (readNumber r) (\<lambda>(pot, r).
     ebind (throw_if (pot < 0 \<or> 1 < pot) InvalidArgumentError) (\<lambda>_.
     ebind (readStartMap r) (\<lambda>(_, r).
     ebind (readMirEntries r) (\<lambda>(amounts, r).
     ebind (readEndMap r) (\<lambda>r.
       Inr \<lparr>msc_pot = pot_of pot, msc_credentials = amounts, msc_originalBytes = Some cbor\<rparr>))))))"

definition MirToStakeCreds_setPot :: "MirCertificatePot \<Rightarrow> MoveInstantaneousRewardToStakeCreds \<Rightarrow> MoveInstantaneousRewardToStakeCreds" where
  "MirToStakeCreds_setPot v x = x\<lparr>msc_pot := v, msc_originalBytes := None\<rparr>"

definition MirToStakeCreds_setStakeCreds :: "mir_entry list \<Rightarrow> MoveInstantaneousRewardToStakeCreds \<Rightarrow> MoveInstantaneousRewardToStakeCreds" where
  "MirToStakeCreds_setStakeCreds v x = x\<lparr>msc_credentials := v, msc_originalBytes := None\<rparr>"

subsection \<open>The certificate\<close>

datatype MirBody =
    MirToOtherPot MoveInstantaneousRewardToOtherPot
  | MirToStakeCreds MoveInstantaneousRewardToStakeCreds

record MoveInstantaneousReward =
  mir_body :: MirBody
  mir_originalBytes :: "bytes option"

definition MoveInstantaneousReward_toCbor :: "(mir_entry list \<Rightarrow> mir_entry list) \<Rightarrow> MoveInstantaneousReward \<Rightarrow> bytes result" where
  "MoveInstantaneousReward_toCbor sortEntries x = cached (mir_originalBytes x)
     (ebind (case mir_body x of
               MirToOtherPot p \<Rightarrow> MirToOtherPot_toCbor p
             | MirToStakeCreds c \<Rightarrow> MirToStakeCreds_toCbor sortEntries c) (\<lambda>cbor.
        write_all [writeStartArray (Some 2), writeInt 6, writeEncodedValue cbor]))"

text \<open>The look ahead behind the pot in the embedded array.\<close>

definition embeddedState :: "bytes \<Rightarrow> CborReaderState result" where
  "embeddedState embeddedCbor =
     ebind (expectArray 2 (new_reader embeddedCbor)) (\<lambda>r.
     ebind (readInt r) (\<lambda>(_, r).
     ebind (peekState r) (\<lambda>(state, r). Inr state)))"

definition MoveInstantaneousReward_fromCbor :: "bytes \<Rightarrow> MoveInstantaneousReward result" where
  "MoveInstantaneousReward_fromCbor cbor =
     ebind (expectArray 2 (new_reader cbor)) (\<lambda>r.
     ebind (expectKind 6 r) (\<lambda>r.
     ebind (readEncodedValue r) (\<lambda>(embeddedCbor, r).
     ebind (embeddedState embeddedCbor) (\<lambda>state.
     ebind (if state = UnsignedIntegerState
            then ebind (MirToOtherPot_fromCbor embeddedCbor) (\<lambda>p. Inr (MirToOtherPot p))
            else if state = StartArray \<or> state = StartMap
            then ebind (MirToStakeCreds_fromCbor embeddedCbor) (\<lambda>c. Inr (MirToStakeCreds c))
            else Inl InvalidArgumentError) (\<lambda>body.
       Inr \<lparr>mir_body = body, mir_originalBytes = Some cbor\<rparr>)))))"

subsection \<open>Certificates are read back\<close>

definition mir_entry_bytes :: "mir_entry \<Rightarrow> bytes \<times> bytes" where
  "mir_entry_bytes e = (enc_head ArrayType 2 @ enc_int (credentialType_num (cred_type (fst e))) @ enc_bytes (cred_hash (fst e)),
     enc_int (snd e))"

definition mir_entry_valid :: "mir_entry \<Rightarrow> bool" where
  "mir_entry_valid e \<longleftrightarrow> length (cred_hash (fst e)) = 28 \<and> cbor_int (snd e)"

lemma writeMirEntry_bytes:
  "mir_entry_valid e \<Longrightarrow> writeMirEntry e w = Inr (w @ fst (mir_entry_bytes e) @ snd (mir_entry_bytes e))"
  by (cases "cred_type (fst e)")
    (simp_all add: writeMirEntry_def writeCredential_def mir_entry_bytes_def mir_entry_valid_def)

lemma flat_Cons: "flat (e # es) = fst e # snd e # flat es"
  by (cases e) simp

lemma writeMirEntries_bytes:
  "list_all mir_entry_valid es \<Longrightarrow>
   run_ops (map writeMirEntry es) w = Inr (w @ concat (flat (map mir_entry_bytes es)))"
  by (induction es arbitrary: w) (simp_all add: writeMirEntry_bytes flat_Cons)

lemma mir_entry_items:
  "mir_entry_valid e \<Longrightarrow> cbor_item (fst (mir_entry_bytes e)) \<and> cbor_item (snd (mir_entry_bytes e))"
  by (cases "cred_type (fst e)") (simp_all add: mir_entry_bytes_def mir_entry_valid_def cbor_items)

lemma readMirEntry_bytes:
  assumes "mir_entry_valid e" and "open_frame fr" and "open_frame (bumps 1 fr)"
  shows "readMirEntry (rd c pre (fst (mir_entry_bytes e) @ snd (mir_entry_bytes e) @ bs) fr stk False) =
    Inr (e, rd U (pre @ fst (mir_entry_bytes e) @ snd (mir_entry_bytes e)) bs (bumps 2 fr) stk False)"
  using assms by (cases e; cases "fst e"; cases "cred_type (fst e)")
    (simp_all add: readMirEntry_def readNumber_def readHash_def typedHash_def mir_entry_bytes_def mir_entry_valid_def
      rd_simps numeral_2_eq_2)

lemma readMirEntries_bytes:
  assumes "list_all mir_entry_valid es" and "n = k + 2 * length es"
  shows "readMirEntries (rd U pre (concat (flat (map mir_entry_bytes es)) @ bs) (map_frame off (Some n) k) stk False) =
    Inr (es, rd EndMap (pre @ concat (flat (map mir_entry_bytes es))) bs (map_frame off (Some n) n) stk False)"
  using assms
proof (induction es arbitrary: pre k)
  case Nil
  then show ?case by (subst readMirEntries.simps) (simp add: peekState_rd peekStateCore_ends)
next
  case (Cons e es)
  obtain x y where e: "mir_entry_bytes e = (x, y)" by force
  have items: "cbor_item x" "cbor_item y" using Cons.prems(1) mir_entry_items [of e] e by simp_all
  with Cons.prems Cons.IH [of "k + 2" "pre @ x @ y"] readMirEntry_bytes [of e] show ?case
    by (subst readMirEntries.simps) (simp add: e peekState_rd peekStateCore_item)
qed

text \<open>What a certificate says, up to the order of the entries.\<close>

fun mir_content :: "MirBody \<Rightarrow> MirCertificatePot \<times> (int + mir_entry multiset)" where
  "mir_content (MirToOtherPot p) = (mop_pot p, Inl (mop_amount p))"
| "mir_content (MirToStakeCreds c) = (msc_pot c, Inr (mset (msc_credentials c)))"

text \<open>The sorting rearranges the entries of the certificate.\<close>

fun mir_body_valid :: "(mir_entry list \<Rightarrow> mir_entry list) \<Rightarrow> MirBody \<Rightarrow> bool" where
  "mir_body_valid sortEntries (MirToOtherPot p) \<longleftrightarrow> uint64 (mop_amount p) \<and> mop_originalBytes p = None"
| "mir_body_valid sortEntries (MirToStakeCreds c) \<longleftrightarrow> mset (sortEntries (msc_credentials c)) = mset (msc_credentials c) \<and>
     list_all mir_entry_valid (msc_credentials c) \<and>
     length (msc_credentials c) < 4503599627370496 \<and> msc_originalBytes c = None"

definition MoveInstantaneousReward_valid :: "(mir_entry list \<Rightarrow> mir_entry list) \<Rightarrow> MoveInstantaneousReward \<Rightarrow> bool" where
  "MoveInstantaneousReward_valid sortEntries x \<longleftrightarrow> mir_body_valid sortEntries (mir_body x) \<and> mir_originalBytes x = None"

lemma pot_roundtrip [simp]: "pot_of (pot_num p) = p" "cbor_int (pot_num p)" "0 \<le> pot_num p" "pot_num p \<le> 1"
  "safe_int (pot_num p)" "\<not> pot_num p < 0" "\<not> 1 < pot_num p"
  by (cases p; simp add: pot_of_def pot_num_def)+

lemma other_pot_body:
  assumes "uint64 (mop_amount p)" and "mop_originalBytes p = None"
  shows "\<exists>b y. MirToOtherPot_toCbor p = Inr b \<and> cbor_item b \<and> MirToOtherPot_fromCbor b = Inr y \<and>
    (mop_pot y, mop_amount y) = (mop_pot p, mop_amount p) \<and>
    b = enc_head ArrayType 2 @ enc_int (pot_num (mop_pot p)) @ enc_int (mop_amount p)"
  using assms by (simp add: MirToOtherPot_toCbor_def MirToOtherPot_fromCbor_def readNumber_def write_all_def encode_def
      rd_simps rd_last cbor_items not_less)

lemma flat_items: "list_all mir_entry_valid es \<Longrightarrow> \<forall>x \<in> set (flat (map mir_entry_bytes es)). cbor_item x"
  using mir_entry_items by (induction es) (auto simp: flat_Cons)

lemma stake_creds_body:
  assumes "list_all mir_entry_valid (msc_credentials c)" and "length (msc_credentials c) < 4503599627370496"
    and "msc_originalBytes c = None" and "mset (sortEntries (msc_credentials c)) = mset (msc_credentials c)"
  shows "\<exists>b y rest. MirToStakeCreds_toCbor sortEntries c = Inr b \<and> cbor_item b \<and> MirToStakeCreds_fromCbor b = Inr y \<and>
    (msc_pot y, mset (msc_credentials y)) = (msc_pot c, mset (msc_credentials c)) \<and>
    b = enc_head ArrayType 2 @ enc_int (pot_num (msc_pot c)) @ enc_head MapType (length (msc_credentials c)) @ rest"
proof -
  let ?es = "sortEntries (msc_credentials c)"
  let ?flat = "flat (map mir_entry_bytes ?es)"
  have len: "length ?es = length (msc_credentials c)" using assms(4) by (metis size_mset)
  have "set ?es = set (msc_credentials c)" using assms(4) by (metis set_mset_mset)
  then have valid: "list_all mir_entry_valid ?es" using assms(1) by (simp add: list_all_iff)
  note items = flat_items [OF valid]
  have m: "cbor_item (enc_head MapType (length ?es) @ concat ?flat)"
    using ci_map [of "length ?es" _ ?flat] items assms(2) len by simp
  have "2 * length ?es \<le> length (concat ?flat)" using length_concat_items [OF items] by simp
  with assms len valid m show ?thesis
    by (simp add: MirToStakeCreds_toCbor_def MirToStakeCreds_fromCbor_def Let_def write_all_def encode_def run_ops_append
        writeMirEntries_bytes readNumber_def rd_simps cbor_items not_less
        readMirEntries_bytes [where bs = "[]", simplified])
qed

lemma peekStateCore_int:
  "uint64 i \<Longrightarrow> open_frame fr \<Longrightarrow> peekStateCore (rd c pre (enc_int i) fr stk tag) = Inr UnsignedIntegerState"
  using head_info [OF is_head_enc_head [of "nat i" UnsignedInteger]]
    head_peek(3) [of UnsignedInteger "nat i" "enc_int i" fr c pre "[]" stk tag]
  by (simp add: enc_int_def state_of_initial_byte_def nat_less_iff)

lemma embeddedState_bytes:
  "safe_int p \<Longrightarrow> uint64 i \<Longrightarrow> embeddedState (enc_head ArrayType 2 @ enc_int p @ enc_int i) = Inr UnsignedIntegerState"
  "safe_int p \<Longrightarrow> n < 18446744073709551616 \<Longrightarrow>
     embeddedState (enc_head ArrayType 2 @ enc_int p @ enc_head MapType n @ bs) = Inr StartMap"
  by (simp_all add: embeddedState_def rd_simps peekStateCore_int)

lemma mir_shape:
  assumes "m = Inr b" and "cbor_item b" and "embeddedState b = Inr state"
    and "(if state = UnsignedIntegerState then ebind (MirToOtherPot_fromCbor b) (\<lambda>p. Inr (MirToOtherPot p))
      else if state = StartArray \<or> state = StartMap then ebind (MirToStakeCreds_fromCbor b) (\<lambda>c. Inr (MirToStakeCreds c))
      else Inl InvalidArgumentError) = Inr body"
  shows "ebind m (\<lambda>cbor. write_all [writeStartArray (Some 2), writeInt 6, writeEncodedValue cbor]) = Inr (kinded_bytes 2 6 b)"
    and "cbor_item (kinded_bytes 2 6 b)"
    and "MoveInstantaneousReward_fromCbor (kinded_bytes 2 6 b) =
      Inr \<lparr>mir_body = body, mir_originalBytes = Some (kinded_bytes 2 6 b)\<rparr>"
  using assms by (simp_all add: kinded_bytes_def writeEncodedValue_def write_all_def encode_def cbor_items
      MoveInstantaneousReward_fromCbor_def expectKind_def rd_simps rd_last)

interpretation mir: kinded_codec "MoveInstantaneousReward_toCbor sortEntries" MoveInstantaneousReward_fromCbor
  "MoveInstantaneousReward_valid sortEntries" "\<lambda>x. mir_content (mir_body x)" 2 6 for sortEntries
proof
  fix x assume v: "MoveInstantaneousReward_valid sortEntries x"
  show "\<exists>rest y. MoveInstantaneousReward_toCbor sortEntries x = Inr (kinded_bytes 2 6 rest) \<and>
      cbor_item (kinded_bytes 2 6 rest) \<and> MoveInstantaneousReward_fromCbor (kinded_bytes 2 6 rest) = Inr y \<and>
      mir_content (mir_body y) = mir_content (mir_body x)"
  proof (cases "mir_body x")
    case (MirToOtherPot p)
    with v have p: "uint64 (mop_amount p)" "mop_originalBytes p = None" "mir_originalBytes x = None"
      by (simp_all add: MoveInstantaneousReward_valid_def)
    then obtain b y where b: "MirToOtherPot_toCbor p = Inr b" "cbor_item b" "MirToOtherPot_fromCbor b = Inr y"
      "(mop_pot y, mop_amount y) = (mop_pot p, mop_amount p)" "embeddedState b = Inr UnsignedIntegerState"
      using other_pot_body [of p] embeddedState_bytes(1) [of "pot_num (mop_pot p)" "mop_amount p"] by auto
    with mir_shape [OF b(1,2,5), of "MirToOtherPot y"] p MirToOtherPot show ?thesis
      by (intro exI [of _ b]) (simp add: MoveInstantaneousReward_toCbor_def)
  next
    case (MirToStakeCreds c)
    with v have c: "list_all mir_entry_valid (msc_credentials c)" "length (msc_credentials c) < 4503599627370496"
      "msc_originalBytes c = None" "mset (sortEntries (msc_credentials c)) = mset (msc_credentials c)" "mir_originalBytes x = None"
      by (simp_all add: MoveInstantaneousReward_valid_def)
    from stake_creds_body [where sortEntries = sortEntries, OF c(1-4)] obtain b y rest where b: "MirToStakeCreds_toCbor sortEntries c = Inr b" "cbor_item b"
      "MirToStakeCreds_fromCbor b = Inr y" "msc_pot y = msc_pot c" "mset (msc_credentials y) = mset (msc_credentials c)"
      "b = enc_head ArrayType 2 @ enc_int (pot_num (msc_pot c)) @ enc_head MapType (length (msc_credentials c)) @ rest"
      by auto
    have "embeddedState b = Inr StartMap" unfolding b(6) using c(2) by (intro embeddedState_bytes) simp_all
    from mir_shape [OF b(1,2) this, of "MirToStakeCreds y"] b(3-5) c(5) MirToStakeCreds show ?thesis
      by (intro exI [of _ b]) (simp add: MoveInstantaneousReward_toCbor_def)
  qed
qed (auto simp: MoveInstantaneousReward_fromCbor_def MoveInstantaneousReward_toCbor_def dest!: expectArray_nonempty)

end
