(* ===== verification/Certificate_Union.thy ===== *)
theory Certificate_Union
  imports Certificates Pool_Params Mir
begin

text \<open>
  The class \<open>Certificate\<close> (\<open>core/src/Serialization/Certificates/Certificate.ts\<close>): one of the
  nineteen certificate classes, told apart by the kind that every certificate's array starts with.
  The fields \<open>#stakeRegistration\<close>, \<open>#stakeDelegation\<close> and so on, of which \<open>#kind\<close> selects one, are
  the constructors of \<open>CertificateBody\<close>.
\<close>

datatype CertificateBody =
    CertStakeRegistration StakeRegistration
  | CertStakeDeregistration StakeDeregistration
  | CertStakeDelegation StakeDelegation
  | CertPoolRegistration PoolRegistration
  | CertPoolRetirement PoolRetirement
  | CertGenesisKeyDelegation GenesisKeyDelegation
  | CertMoveInstantaneousReward MoveInstantaneousReward
  | CertRegistration Registration
  | CertUnregistration Unregistration
  | CertVoteDelegation VoteDelegation
  | CertStakeVoteDelegation StakeVoteDelegation
  | CertStakeRegistrationDelegation StakeRegistrationDelegation
  | CertVoteRegistrationDelegation VoteRegistrationDelegation
  | CertStakeVoteRegistrationDelegation StakeVoteRegistrationDelegation
  | CertAuthCommitteeHot AuthCommitteeHot
  | CertResignCommitteeCold ResignCommitteeCold
  | CertRegisterDelegateRepresentative RegisterDelegateRepresentative
  | CertUnregisterDelegateRepresentative UnregisterDelegateRepresentative
  | CertUpdateDelegateRepresentative UpdateDelegateRepresentative

record Certificate =
  cert_body :: CertificateBody
  cert_originalBytes :: "bytes option"

fun CertificateKind :: "CertificateBody \<Rightarrow> int" where
  "CertificateKind (CertStakeRegistration x) = 0"
| "CertificateKind (CertStakeDeregistration x) = 1"
| "CertificateKind (CertStakeDelegation x) = 2"
| "CertificateKind (CertPoolRegistration x) = 3"
| "CertificateKind (CertPoolRetirement x) = 4"
| "CertificateKind (CertGenesisKeyDelegation x) = 5"
| "CertificateKind (CertMoveInstantaneousReward x) = 6"
| "CertificateKind (CertRegistration x) = 7"
| "CertificateKind (CertUnregistration x) = 8"
| "CertificateKind (CertVoteDelegation x) = 9"
| "CertificateKind (CertStakeVoteDelegation x) = 10"
| "CertificateKind (CertStakeRegistrationDelegation x) = 11"
| "CertificateKind (CertVoteRegistrationDelegation x) = 12"
| "CertificateKind (CertStakeVoteRegistrationDelegation x) = 13"
| "CertificateKind (CertAuthCommitteeHot x) = 14"
| "CertificateKind (CertResignCommitteeCold x) = 15"
| "CertificateKind (CertRegisterDelegateRepresentative x) = 16"
| "CertificateKind (CertUnregisterDelegateRepresentative x) = 17"
| "CertificateKind (CertUpdateDelegateRepresentative x) = 18"

fun CertificateBody_toCbor :: "pool_env \<Rightarrow> (mir_entry list \<Rightarrow> mir_entry list) \<Rightarrow> CertificateBody \<Rightarrow> bytes result" where
  "CertificateBody_toCbor env sortEntries (CertStakeRegistration x) = StakeRegistration_toCbor x"
| "CertificateBody_toCbor env sortEntries (CertStakeDeregistration x) = StakeDeregistration_toCbor x"
| "CertificateBody_toCbor env sortEntries (CertStakeDelegation x) = StakeDelegation_toCbor x"
| "CertificateBody_toCbor env sortEntries (CertPoolRegistration x) = PoolRegistration_toCbor env x"
| "CertificateBody_toCbor env sortEntries (CertPoolRetirement x) = PoolRetirement_toCbor x"
| "CertificateBody_toCbor env sortEntries (CertGenesisKeyDelegation x) = GenesisKeyDelegation_toCbor x"
| "CertificateBody_toCbor env sortEntries (CertMoveInstantaneousReward x) = MoveInstantaneousReward_toCbor sortEntries x"
| "CertificateBody_toCbor env sortEntries (CertRegistration x) = Registration_toCbor x"
| "CertificateBody_toCbor env sortEntries (CertUnregistration x) = Unregistration_toCbor x"
| "CertificateBody_toCbor env sortEntries (CertVoteDelegation x) = VoteDelegation_toCbor x"
| "CertificateBody_toCbor env sortEntries (CertStakeVoteDelegation x) = StakeVoteDelegation_toCbor x"
| "CertificateBody_toCbor env sortEntries (CertStakeRegistrationDelegation x) = StakeRegistrationDelegation_toCbor x"
| "CertificateBody_toCbor env sortEntries (CertVoteRegistrationDelegation x) = VoteRegistrationDelegation_toCbor x"
| "CertificateBody_toCbor env sortEntries (CertStakeVoteRegistrationDelegation x) = StakeVoteRegistrationDelegation_toCbor x"
| "CertificateBody_toCbor env sortEntries (CertAuthCommitteeHot x) = AuthCommitteeHot_toCbor x"
| "CertificateBody_toCbor env sortEntries (CertResignCommitteeCold x) = ResignCommitteeCold_toCbor x"
| "CertificateBody_toCbor env sortEntries (CertRegisterDelegateRepresentative x) = RegisterDelegateRepresentative_toCbor x"
| "CertificateBody_toCbor env sortEntries (CertUnregisterDelegateRepresentative x) = UnregisterDelegateRepresentative_toCbor x"
| "CertificateBody_toCbor env sortEntries (CertUpdateDelegateRepresentative x) = UpdateDelegateRepresentative_toCbor x"

definition Certificate_toCbor :: "pool_env \<Rightarrow> (mir_entry list \<Rightarrow> mir_entry list) \<Rightarrow> Certificate \<Rightarrow> bytes result" where
  "Certificate_toCbor env sortEntries c = cached (cert_originalBytes c) (CertificateBody_toCbor env sortEntries (cert_body c))"

text \<open>The \<open>switch\<close> of \<open>fromCbor\<close>.\<close>

definition CertificateBody_fromCbor :: "pool_env \<Rightarrow> int \<Rightarrow> bytes \<Rightarrow> CertificateBody result" where
  "CertificateBody_fromCbor env kind cbor =
     (if kind = 0 then ebind (StakeRegistration_fromCbor cbor) (\<lambda>x. Inr (CertStakeRegistration x))
      else if kind = 1 then ebind (StakeDeregistration_fromCbor cbor) (\<lambda>x. Inr (CertStakeDeregistration x))
      else if kind = 2 then ebind (StakeDelegation_fromCbor cbor) (\<lambda>x. Inr (CertStakeDelegation x))
      else if kind = 3 then ebind (PoolRegistration_fromCbor env cbor) (\<lambda>x. Inr (CertPoolRegistration x))
      else if kind = 4 then ebind (PoolRetirement_fromCbor cbor) (\<lambda>x. Inr (CertPoolRetirement x))
      else if kind = 5 then ebind (GenesisKeyDelegation_fromCbor cbor) (\<lambda>x. Inr (CertGenesisKeyDelegation x))
      else if kind = 6 then ebind (MoveInstantaneousReward_fromCbor cbor) (\<lambda>x. Inr (CertMoveInstantaneousReward x))
      else if kind = 7 then ebind (Registration_fromCbor cbor) (\<lambda>x. Inr (CertRegistration x))
      else if kind = 8 then ebind (Unregistration_fromCbor cbor) (\<lambda>x. Inr (CertUnregistration x))
      else if kind = 9 then ebind (VoteDelegation_fromCbor cbor) (\<lambda>x. Inr (CertVoteDelegation x))
      else if kind = 10 then ebind (StakeVoteDelegation_fromCbor cbor) (\<lambda>x. Inr (CertStakeVoteDelegation x))
      else if kind = 11 then ebind (StakeRegistrationDelegation_fromCbor cbor) (\<lambda>x. Inr (CertStakeRegistrationDelegation x))
      else if kind = 12 then ebind (VoteRegistrationDelegation_fromCbor cbor) (\<lambda>x. Inr (CertVoteRegistrationDelegation x))
      else if kind = 13 then ebind (StakeVoteRegistrationDelegation_fromCbor cbor) (\<lambda>x. Inr (CertStakeVoteRegistrationDelegation x))
      else if kind = 14 then ebind (AuthCommitteeHot_fromCbor cbor) (\<lambda>x. Inr (CertAuthCommitteeHot x))
      else if kind = 15 then ebind (ResignCommitteeCold_fromCbor cbor) (\<lambda>x. Inr (CertResignCommitteeCold x))
      else if kind = 16 then ebind (RegisterDelegateRepresentative_fromCbor cbor) (\<lambda>x. Inr (CertRegisterDelegateRepresentative x))
      else if kind = 17 then ebind (UnregisterDelegateRepresentative_fromCbor cbor) (\<lambda>x. Inr (CertUnregisterDelegateRepresentative x))
      else if kind = 18 then ebind (UpdateDelegateRepresentative_fromCbor cbor) (\<lambda>x. Inr (CertUpdateDelegateRepresentative x))
      else Inl InvalidStateError)"

definition Certificate_fromCbor :: "pool_env \<Rightarrow> bytes \<Rightarrow> Certificate result" where
  "Certificate_fromCbor env cbor =
     ebind (kindOf cbor) (\<lambda>kind.
     ebind (CertificateBody_fromCbor env kind cbor) (\<lambda>body.
       Inr \<lparr>cert_body = body, cert_originalBytes = Some cbor\<rparr>))"

subsection \<open>Certificates are read back\<close>

fun CertificateBody_valid :: "pool_env \<Rightarrow> (mir_entry list \<Rightarrow> mir_entry list) \<Rightarrow> CertificateBody \<Rightarrow> bool" where
  "CertificateBody_valid env sortEntries (CertStakeRegistration x) \<longleftrightarrow> StakeRegistration_valid x"
| "CertificateBody_valid env sortEntries (CertStakeDeregistration x) \<longleftrightarrow> StakeDeregistration_valid x"
| "CertificateBody_valid env sortEntries (CertStakeDelegation x) \<longleftrightarrow> StakeDelegation_valid x"
| "CertificateBody_valid env sortEntries (CertPoolRegistration x) \<longleftrightarrow> PoolParams_valid env (prg_params x) \<and> prg_originalBytes x = None"
| "CertificateBody_valid env sortEntries (CertPoolRetirement x) \<longleftrightarrow> PoolRetirement_valid x"
| "CertificateBody_valid env sortEntries (CertGenesisKeyDelegation x) \<longleftrightarrow> GenesisKeyDelegation_valid x"
| "CertificateBody_valid env sortEntries (CertMoveInstantaneousReward x) \<longleftrightarrow> MoveInstantaneousReward_valid sortEntries x"
| "CertificateBody_valid env sortEntries (CertRegistration x) \<longleftrightarrow> Registration_valid x"
| "CertificateBody_valid env sortEntries (CertUnregistration x) \<longleftrightarrow> Unregistration_valid x"
| "CertificateBody_valid env sortEntries (CertVoteDelegation x) \<longleftrightarrow> VoteDelegation_valid x"
| "CertificateBody_valid env sortEntries (CertStakeVoteDelegation x) \<longleftrightarrow> StakeVoteDelegation_valid x"
| "CertificateBody_valid env sortEntries (CertStakeRegistrationDelegation x) \<longleftrightarrow> StakeRegistrationDelegation_valid x"
| "CertificateBody_valid env sortEntries (CertVoteRegistrationDelegation x) \<longleftrightarrow> VoteRegistrationDelegation_valid x"
| "CertificateBody_valid env sortEntries (CertStakeVoteRegistrationDelegation x) \<longleftrightarrow> StakeVoteRegistrationDelegation_valid x"
| "CertificateBody_valid env sortEntries (CertAuthCommitteeHot x) \<longleftrightarrow> AuthCommitteeHot_valid x"
| "CertificateBody_valid env sortEntries (CertResignCommitteeCold x) \<longleftrightarrow> ResignCommitteeCold_valid x"
| "CertificateBody_valid env sortEntries (CertRegisterDelegateRepresentative x) \<longleftrightarrow> RegisterDelegateRepresentative_valid x"
| "CertificateBody_valid env sortEntries (CertUnregisterDelegateRepresentative x) \<longleftrightarrow> UnregisterDelegateRepresentative_valid x"
| "CertificateBody_valid env sortEntries (CertUpdateDelegateRepresentative x) \<longleftrightarrow> UpdateDelegateRepresentative_valid x"

text \<open>Certificates of the same kind whose fields say the same, cached bytes and (for rewards) the order
  of the entries apart.\<close>

definition same_certificate :: "CertificateBody \<Rightarrow> CertificateBody \<Rightarrow> bool" where
  "same_certificate c d = (case c of
       CertStakeRegistration x \<Rightarrow> (case d of CertStakeRegistration y \<Rightarrow> (srg_credential x) = (srg_credential y) | _ \<Rightarrow> False)
     | CertStakeDeregistration x \<Rightarrow> (case d of CertStakeDeregistration y \<Rightarrow> (sdr_credential x) = (sdr_credential y) | _ \<Rightarrow> False)
     | CertStakeDelegation x \<Rightarrow> (case d of CertStakeDelegation y \<Rightarrow> (sdl_credential x, sdl_poolKeyHash x) = (sdl_credential y, sdl_poolKeyHash y) | _ \<Rightarrow> False)
     | CertPoolRegistration x \<Rightarrow> (case d of CertPoolRegistration y \<Rightarrow> pool_content (prg_params x) = pool_content (prg_params y) | _ \<Rightarrow> False)
     | CertPoolRetirement x \<Rightarrow> (case d of CertPoolRetirement y \<Rightarrow> (prt_poolKeyHash x, prt_epoch x) = (prt_poolKeyHash y, prt_epoch y) | _ \<Rightarrow> False)
     | CertGenesisKeyDelegation x \<Rightarrow> (case d of CertGenesisKeyDelegation y \<Rightarrow> (gkd_genesisHash x, gkd_genesisDelegateHash x, gkd_vrfKeyHash x) = (gkd_genesisHash y, gkd_genesisDelegateHash y, gkd_vrfKeyHash y) | _ \<Rightarrow> False)
     | CertMoveInstantaneousReward x \<Rightarrow> (case d of CertMoveInstantaneousReward y \<Rightarrow> mir_content (mir_body x) = mir_content (mir_body y) | _ \<Rightarrow> False)
     | CertRegistration x \<Rightarrow> (case d of CertRegistration y \<Rightarrow> (reg_credential x, reg_deposit x) = (reg_credential y, reg_deposit y) | _ \<Rightarrow> False)
     | CertUnregistration x \<Rightarrow> (case d of CertUnregistration y \<Rightarrow> (unr_credential x, unr_deposit x) = (unr_credential y, unr_deposit y) | _ \<Rightarrow> False)
     | CertVoteDelegation x \<Rightarrow> (case d of CertVoteDelegation y \<Rightarrow> (vdl_credential x, vdl_dRep x) = (vdl_credential y, vdl_dRep y) | _ \<Rightarrow> False)
     | CertStakeVoteDelegation x \<Rightarrow> (case d of CertStakeVoteDelegation y \<Rightarrow> (svd_credential x, svd_poolKeyHash x, svd_dRep x) = (svd_credential y, svd_poolKeyHash y, svd_dRep y) | _ \<Rightarrow> False)
     | CertStakeRegistrationDelegation x \<Rightarrow> (case d of CertStakeRegistrationDelegation y \<Rightarrow> (srd_credential x, srd_poolKeyHash x, srd_deposit x) = (srd_credential y, srd_poolKeyHash y, srd_deposit y) | _ \<Rightarrow> False)
     | CertVoteRegistrationDelegation x \<Rightarrow> (case d of CertVoteRegistrationDelegation y \<Rightarrow> (vrd_credential x, vrd_dRep x, vrd_deposit x) = (vrd_credential y, vrd_dRep y, vrd_deposit y) | _ \<Rightarrow> False)
     | CertStakeVoteRegistrationDelegation x \<Rightarrow> (case d of CertStakeVoteRegistrationDelegation y \<Rightarrow> (svr_credential x, svr_poolKeyHash x, svr_dRep x, svr_deposit x) = (svr_credential y, svr_poolKeyHash y, svr_dRep y, svr_deposit y) | _ \<Rightarrow> False)
     | CertAuthCommitteeHot x \<Rightarrow> (case d of CertAuthCommitteeHot y \<Rightarrow> (ach_coldCredential x, ach_hotCredential x) = (ach_coldCredential y, ach_hotCredential y) | _ \<Rightarrow> False)
     | CertResignCommitteeCold x \<Rightarrow> (case d of CertResignCommitteeCold y \<Rightarrow> (rcc_coldCredential x, map_option anchor_content (rcc_anchor x)) = (rcc_coldCredential y, map_option anchor_content (rcc_anchor y)) | _ \<Rightarrow> False)
     | CertRegisterDelegateRepresentative x \<Rightarrow> (case d of CertRegisterDelegateRepresentative y \<Rightarrow> (rdr_drepCredential x, rdr_deposit x, map_option anchor_content (rdr_anchor x)) = (rdr_drepCredential y, rdr_deposit y, map_option anchor_content (rdr_anchor y)) | _ \<Rightarrow> False)
     | CertUnregisterDelegateRepresentative x \<Rightarrow> (case d of CertUnregisterDelegateRepresentative y \<Rightarrow> (udr_drepCredential x, udr_deposit x) = (udr_drepCredential y, udr_deposit y) | _ \<Rightarrow> False)
     | CertUpdateDelegateRepresentative x \<Rightarrow> (case d of CertUpdateDelegateRepresentative y \<Rightarrow> (upd_drepCredential x, map_option anchor_content (upd_anchor x)) = (upd_drepCredential y, map_option anchor_content (upd_anchor y)) | _ \<Rightarrow> False))"

text \<open>What the contract of each class says of its kind.\<close>

lemma certificate_bodies:
  assumes "CertificateBody_valid env sortEntries body"
  shows "\<exists>b y. CertificateBody_toCbor env sortEntries body = Inr b \<and> cbor_item b \<and> kindOf b = Inr (CertificateKind body) \<and>
    CertificateBody_fromCbor env (CertificateKind body) b = Inr y \<and> same_certificate y body"
proof (cases body)
  case (CertStakeRegistration x)
  with assms stake_registration.kind_read [of x] show ?thesis
    by (auto simp: CertificateBody_fromCbor_def same_certificate_def)
next
  case (CertStakeDeregistration x)
  with assms stake_deregistration.kind_read [of x] show ?thesis
    by (auto simp: CertificateBody_fromCbor_def same_certificate_def)
next
  case (CertStakeDelegation x)
  with assms stake_delegation.kind_read [of x] show ?thesis
    by (auto simp: CertificateBody_fromCbor_def same_certificate_def)
next
  case (CertPoolRegistration x)
  with assms pool_registration.kind_read [of env x] show ?thesis
    by (auto simp: CertificateBody_fromCbor_def same_certificate_def)
next
  case (CertPoolRetirement x)
  with assms pool_retirement.kind_read [of x] show ?thesis
    by (auto simp: CertificateBody_fromCbor_def same_certificate_def)
next
  case (CertGenesisKeyDelegation x)
  with assms genesis_key_delegation.kind_read [of x] show ?thesis
    by (auto simp: CertificateBody_fromCbor_def same_certificate_def)
next
  case (CertMoveInstantaneousReward x)
  with assms mir.kind_read [of sortEntries x] show ?thesis
    by (auto simp: CertificateBody_fromCbor_def same_certificate_def)
next
  case (CertRegistration x)
  with assms registration.kind_read [of x] show ?thesis
    by (auto simp: CertificateBody_fromCbor_def same_certificate_def)
next
  case (CertUnregistration x)
  with assms unregistration.kind_read [of x] show ?thesis
    by (auto simp: CertificateBody_fromCbor_def same_certificate_def)
next
  case (CertVoteDelegation x)
  with assms vote_delegation.kind_read [of x] show ?thesis
    by (auto simp: CertificateBody_fromCbor_def same_certificate_def)
next
  case (CertStakeVoteDelegation x)
  with assms stake_vote_delegation.kind_read [of x] show ?thesis
    by (auto simp: CertificateBody_fromCbor_def same_certificate_def)
next
  case (CertStakeRegistrationDelegation x)
  with assms stake_registration_delegation.kind_read [of x] show ?thesis
    by (auto simp: CertificateBody_fromCbor_def same_certificate_def)
next
  case (CertVoteRegistrationDelegation x)
  with assms vote_registration_delegation.kind_read [of x] show ?thesis
    by (auto simp: CertificateBody_fromCbor_def same_certificate_def)
next
  case (CertStakeVoteRegistrationDelegation x)
  with assms stake_vote_registration_delegation.kind_read [of x] show ?thesis
    by (auto simp: CertificateBody_fromCbor_def same_certificate_def)
next
  case (CertAuthCommitteeHot x)
  with assms auth_committee_hot.kind_read [of x] show ?thesis
    by (auto simp: CertificateBody_fromCbor_def same_certificate_def)
next
  case (CertResignCommitteeCold x)
  with assms resign_committee_cold.kind_read [of x] show ?thesis
    by (auto simp: CertificateBody_fromCbor_def same_certificate_def)
next
  case (CertRegisterDelegateRepresentative x)
  with assms register_delegate_representative.kind_read [of x] show ?thesis
    by (auto simp: CertificateBody_fromCbor_def same_certificate_def)
next
  case (CertUnregisterDelegateRepresentative x)
  with assms unregister_delegate_representative.kind_read [of x] show ?thesis
    by (auto simp: CertificateBody_fromCbor_def same_certificate_def)
next
  case (CertUpdateDelegateRepresentative x)
  with assms update_delegate_representative.kind_read [of x] show ?thesis
    by (auto simp: CertificateBody_fromCbor_def same_certificate_def)
qed

subsection \<open>Properties\<close>

text \<open>C34. A certificate of any of the nineteen kinds with fields in range is written to CBOR and read
  back as a certificate of the same kind with the same fields, although the dispatch only looks at
  the number the array starts with; writing the certificate that was read gives the same bytes. Fields in
  range means for a relay that the text of an IP address is the one its bytes are converted back to, and that
  its port is not 0, which the code drops.\<close>

theorem certificate_roundtrip:
  assumes "CertificateBody_valid env sortEntries (cert_body c)" and "cert_originalBytes c = None"
  shows "\<exists>b d. Certificate_toCbor env sortEntries c = Inr b \<and> Certificate_fromCbor env b = Inr d \<and>
    CertificateKind (cert_body d) = CertificateKind (cert_body c) \<and> same_certificate (cert_body d) (cert_body c) \<and>
    Certificate_toCbor env sortEntries d = Inr b"
proof -
  obtain b y where b: "CertificateBody_toCbor env sortEntries (cert_body c) = Inr b" "cbor_item b"
    "kindOf b = Inr (CertificateKind (cert_body c))"
    "CertificateBody_fromCbor env (CertificateKind (cert_body c)) b = Inr y" "same_certificate y (cert_body c)"
    using certificate_bodies [OF assms(1)] by blast
  have "CertificateKind y = CertificateKind (cert_body c)"
    using b(5) by (auto simp: same_certificate_def split: CertificateBody.splits)
  with b assms(2) cbor_item_hd [OF b(2)] show ?thesis
    by (auto simp: Certificate_toCbor_def Certificate_fromCbor_def)
qed

definition example_env :: pool_env where
  "example_env = \<lparr>env_conway = True, env_crc32 = example_crc32,
     env_ip = \<lparr>ipv4_isValid = \<lambda>_. True, ipv6_isValid = \<lambda>_. False, ipv6_toUnsignedByteArray = \<lambda>_. [],
       ipv6_canonicalForm = \<lambda>_. Inl InvalidArgumentError\<rparr>\<rparr>"

definition example_pool :: PoolParams where
  "example_pool = \<lparr>pp_operator = replicate 28 1, pp_vrfKeyHash = replicate 32 2, pp_pledge = 500000000, pp_cost = 340000000,
     pp_margin = UnitInterval_new 1 20,
     pp_rewardAccount = Some (RewardAddress_fromCredentials 1 \<lparr>cred_type = KeyHash, cred_hash = replicate 28 3\<rparr>),
     pp_poolOwners = \<lparr>cs_values = [replicate 28 4], cs_originalBytes = None\<rparr>,
     pp_relays = [\<lparr>rel_body = RelaySingleHostAddr (SingleHostAddr_new (Some 3001) (Some ''10.1.2.3'') None), rel_originalBytes = None\<rparr>],
     pp_poolMetadata = Some \<lparr>pm_url = [0x68, 0x74], pm_hash = replicate 32 5, pm_originalBytes = None\<rparr>,
     pp_originalBytes = None\<rparr>"

lemma example_relay_valid: "list_all (Relay_valid (env_ip example_env)) (pp_relays example_pool)"
proof -
  have ip: "byteArrayToIpV4String [10, 1, 2, 3] = Inr ''10.1.2.3''" by code_simp
  then have "ipV4StringToByteArray (env_ip example_env) ''10.1.2.3'' = Inr [10, 1, 2, 3]"
    by (rule ipv4_roundtrip) (simp add: example_env_def)
  with ip show ?thesis
    by (simp add: example_pool_def Relay_valid_def SingleHostAddr_valid_def SingleHostAddr_new_def port_valid_def ip_valid_def)
qed

lemma example_pool_valid: "PoolParams_valid example_env example_pool"
proof -
  have "reward_valid (pp_rewardAccount example_pool)"
    using fromCredentials_valid(3) [of 1 "\<lparr>cred_type = KeyHash, cred_hash = replicate 28 3\<rparr>"]
      fromCredentials_views(3) [of 1 "\<lparr>cred_type = KeyHash, cred_hash = replicate 28 3\<rparr>"]
    by (simp add: reward_valid_def example_pool_def)
  then show ?thesis
    using example_relay_valid by (simp add: PoolParams_valid_def example_pool_def UnitInterval_valid_def UnitInterval_new_def
        owners_valid_def PoolMetadata_valid_def dns_valid_def is_high_def is_low_def)
qed

theorem certificate_roundtrip_witness:
  "\<exists>b d. Certificate_toCbor example_env id \<lparr>cert_body = CertPoolRegistration (PoolRegistration_new example_pool), cert_originalBytes = None\<rparr> = Inr b \<and>
    Certificate_fromCbor example_env b = Inr d \<and>
    same_certificate (cert_body d) (CertPoolRegistration (PoolRegistration_new example_pool))"
  using certificate_roundtrip [of example_env id "\<lparr>cert_body = CertPoolRegistration (PoolRegistration_new example_pool), cert_originalBytes = None\<rparr>"]
    example_pool_valid by (auto simp: PoolRegistration_new_def)

text \<open>Whatever bytes a certificate was read from, it is written with exactly those bytes.\<close>

theorem certificate_keeps_bytes:
  assumes "Certificate_fromCbor env b = Inr c"
  shows "Certificate_toCbor env' sortEntries c = Inr b"
proof -
  have "b \<noteq> []" using assms by (auto simp: Certificate_fromCbor_def dest!: kindOf_nonempty)
  with assms show ?thesis by (auto simp: Certificate_fromCbor_def Certificate_toCbor_def)
qed

definition example_vote_certificate :: Certificate where
  "example_vote_certificate = \<lparr>cert_body = CertVoteDelegation (VoteDelegation_new
     \<lparr>cred_type = KeyHash, cred_hash = replicate 28 6\<rparr> DRep_newAlwaysAbstain), cert_originalBytes = None\<rparr>"

theorem certificate_keeps_bytes_witness:
  "\<exists>b c. Certificate_toCbor example_env id example_vote_certificate = Inr b \<and> Certificate_fromCbor example_env b = Inr c \<and>
    Certificate_toCbor example_env rev c = Inr b"
proof -
  have "CertificateBody_valid example_env id (cert_body example_vote_certificate)"
    by (simp add: example_vote_certificate_def VoteDelegation_valid_def VoteDelegation_new_def DRep_valid_def DRep_defs)
  then obtain b y where "CertificateBody_toCbor example_env id (cert_body example_vote_certificate) = Inr b"
    "kindOf b = Inr (CertificateKind (cert_body example_vote_certificate))"
    "CertificateBody_fromCbor example_env (CertificateKind (cert_body example_vote_certificate)) b = Inr y"
    using certificate_bodies by blast
  then have "Certificate_toCbor example_env id example_vote_certificate = Inr b"
    "Certificate_fromCbor example_env b = Inr \<lparr>cert_body = y, cert_originalBytes = Some b\<rparr>"
    by (simp_all add: Certificate_toCbor_def Certificate_fromCbor_def example_vote_certificate_def)
  with certificate_keeps_bytes [of example_env b _ example_env rev] show ?thesis by blast
qed

end
