(* ===== verification/Body_Fields.thy ===== *)
theory Body_Fields
  imports Proposal Certificate_Union Tx_Output
begin

text \<open>
  What the bodies of transactions and of sub transactions share: the classes
  \<open>AccountBalanceInterval\<close> and \<open>Guards\<close> (\<open>core/src/Serialization/TransactionBody\<close>), the maps from
  reward accounts to amounts, from credentials to objects, and the mint.
\<close>

subsection \<open>AccountBalanceInterval\<close>

record AccountBalanceInterval =
  abi_inclusiveLowerBound :: "int option"
  abi_exclusiveUpperBound :: "int option"
  abi_originalBytes :: "bytes option"

definition AccountBalanceInterval_new :: "int option \<Rightarrow> int option \<Rightarrow> AccountBalanceInterval" where
  "AccountBalanceInterval_new lower upper =
     \<lparr>abi_inclusiveLowerBound = lower, abi_exclusiveUpperBound = upper, abi_originalBytes = None\<rparr>"

definition writeNullableInt :: "int option \<Rightarrow> writer_op" where
  "writeNullableInt x = (case x of None \<Rightarrow> writeNull | Some i \<Rightarrow> writeInt i)"

definition readNullableInt :: "CborReader \<Rightarrow> (int option \<times> CborReader) result" where
  "readNullableInt r =
     ebind (peekState r) (\<lambda>(state, r).
       if state = NullState then ebind (readNull r) (\<lambda>r. Inr (None, r))
       else ebind (readInt r) (\<lambda>(i, r). Inr (Some i, r)))"

definition AccountBalanceInterval_toCbor :: "AccountBalanceInterval \<Rightarrow> bytes result" where
  "AccountBalanceInterval_toCbor a = cached (abi_originalBytes a)
     (if abi_inclusiveLowerBound a = None \<and> abi_exclusiveUpperBound a = None then Inl InvalidStateError
      else write_all [writeStartArray (Some 2), writeNullableInt (abi_inclusiveLowerBound a), writeNullableInt (abi_exclusiveUpperBound a)])"

definition AccountBalanceInterval_fromCbor :: "bytes \<Rightarrow> AccountBalanceInterval result" where
  "AccountBalanceInterval_fromCbor cbor =
     ebind (readStartArray (new_reader cbor)) (\<lambda>(length, r).
     ebind (throw_if (length \<noteq> Some 2) SerializationError) (\<lambda>_.
     ebind (readNullableInt r) (\<lambda>(lower, r).
     ebind (readNullableInt r) (\<lambda>(upper, r).
     ebind (readEndArray r) (\<lambda>r.
     ebind (throw_if (lower = None \<and> upper = None) SerializationError) (\<lambda>_.
       Inr ((AccountBalanceInterval_new lower upper)\<lparr>abi_originalBytes := Some cbor\<rparr>)))))))"

text \<open>The core object has the two bounds as optional fields.\<close>

type_synonym Core_AccountBalanceInterval = "int option \<times> int option"

definition AccountBalanceInterval_toCore :: "AccountBalanceInterval \<Rightarrow> Core_AccountBalanceInterval" where
  "AccountBalanceInterval_toCore a = (abi_inclusiveLowerBound a, abi_exclusiveUpperBound a)"

definition AccountBalanceInterval_fromCore :: "Core_AccountBalanceInterval \<Rightarrow> AccountBalanceInterval result" where
  "AccountBalanceInterval_fromCore interval =
     ebind (throw_if (fst interval = None \<and> snd interval = None) InvalidArgumentError) (\<lambda>_.
       Inr (AccountBalanceInterval_new (fst interval) (snd interval)))"

definition AccountBalanceInterval_setInclusiveLowerBound :: "int option \<Rightarrow> AccountBalanceInterval \<Rightarrow> AccountBalanceInterval" where
  "AccountBalanceInterval_setInclusiveLowerBound lower a = a\<lparr>abi_inclusiveLowerBound := lower, abi_originalBytes := None\<rparr>"

definition AccountBalanceInterval_setExclusiveUpperBound :: "int option \<Rightarrow> AccountBalanceInterval \<Rightarrow> AccountBalanceInterval" where
  "AccountBalanceInterval_setExclusiveUpperBound upper a = a\<lparr>abi_exclusiveUpperBound := upper, abi_originalBytes := None\<rparr>"

definition AccountBalanceInterval_valid :: "AccountBalanceInterval \<Rightarrow> bool" where
  "AccountBalanceInterval_valid a \<longleftrightarrow> pred_option cbor_int (abi_inclusiveLowerBound a) \<and> pred_option cbor_int (abi_exclusiveUpperBound a) \<and>
     (abi_inclusiveLowerBound a \<noteq> None \<or> abi_exclusiveUpperBound a \<noteq> None) \<and> abi_originalBytes a = None"

lemma int_headed: "cbor_int i \<Longrightarrow> state_of_initial_byte (hd (enc_int i)) \<noteq> NullState"
  using head_info [OF is_head_enc_head [of "nat i" UnsignedInteger]] head_info [OF is_head_enc_head [of "nat (- i - 1)" NegativeInteger]]
  by (auto simp: enc_int_def state_of_initial_byte_def cbor_int_def nat_less_iff)

lemma field_nullable_int:
  assumes "pred_option cbor_int x"
  shows "\<exists>b. field_ok (writeNullableInt x) b readNullableInt x"
proof (cases x)
  case None
  have "field_ok (writeNullableInt x) [0xf6] readNullableInt x"
    using None by (simp add: field_ok_def writeNullableInt_def readNullableInt_def null_byte peekState_rd peekStateCore_rd readNull_rd)
  then show ?thesis by blast
next
  case (Some i)
  have i: "cbor_int i" using assms Some by simp
  have "field_ok (writeNullableInt x) (enc_int i) readNullableInt x"
    using Some i int_headed [OF i]
    by (simp add: field_ok_def writeNullableInt_def readNullableInt_def peekState_rd peekStateCore_item cbor_items rd_simps)
  then show ?thesis by blast
qed

interpretation balance_interval: caching_codec AccountBalanceInterval_toCbor AccountBalanceInterval_fromCbor
  AccountBalanceInterval_valid AccountBalanceInterval_toCore
proof (unfold_locales, goal_cases)
  case (1 a)
  then have v: "pred_option cbor_int (abi_inclusiveLowerBound a)" "pred_option cbor_int (abi_exclusiveUpperBound a)"
    "\<not> (abi_inclusiveLowerBound a = None \<and> abi_exclusiveUpperBound a = None)" "abi_originalBytes a = None"
    by (auto simp: AccountBalanceInterval_valid_def)
  obtain l where l: "field_ok (writeNullableInt (abi_inclusiveLowerBound a)) l readNullableInt (abi_inclusiveLowerBound a)"
    using field_nullable_int [OF v(1)] by blast
  obtain u where u: "field_ok (writeNullableInt (abi_exclusiveUpperBound a)) u readNullableInt (abi_exclusiveUpperBound a)"
    using field_nullable_int [OF v(2)] by blast
  show ?case using v(3,4) field_okD [OF l] field_okD [OF u]
    by (cases "abi_inclusiveLowerBound a"; cases "abi_exclusiveUpperBound a") (simp_all add: AccountBalanceInterval_toCbor_def AccountBalanceInterval_fromCbor_def AccountBalanceInterval_new_def
        AccountBalanceInterval_toCore_def write_all_def encode_def rd_simps cbor_items)
next
  case (2 b y)
  then have "b \<noteq> []" by (auto simp: AccountBalanceInterval_fromCbor_def new_reader_def root_frame_def readStartArray_def peekInitialByte_def
      at_definite_end_def)
  with 2 show ?case by (auto simp: AccountBalanceInterval_toCbor_def AccountBalanceInterval_fromCbor_def)
qed

subsection \<open>Guards\<close>

text \<open>One of the two sets is present in an object made by the factories or read.\<close>

record Guards =
  gu_keyHashes :: "bytes CborSet option"
  gu_credentials :: "Credential CborSet option"

datatype GuardsKind = GuardsKeyHashes | GuardsCredentials

definition Guards_toCbor :: "bool \<Rightarrow> Guards \<Rightarrow> bytes result" where
  "Guards_toCbor conway g = (case gu_keyHashes g of
       Some s \<Rightarrow> CborSet_toCbor conway Hash_toCbor s
     | None \<Rightarrow> (case gu_credentials g of
         Some s \<Rightarrow> CborSet_toCbor conway Credential_toCbor s
       | None \<Rightarrow> Inl InvalidStateError))"

definition Guards_fromCbor :: "bytes \<Rightarrow> Guards result" where
  "Guards_fromCbor cbor =
     ebind (peekState (new_reader cbor)) (\<lambda>(state, r).
     ebind (if state = TagState
            then ebind (peekTag r) (\<lambda>tag. if tag = CborTag_Set then ebind (readTag r) (\<lambda>(_, r). Inr r) else Inr r)
            else Inr r) (\<lambda>r.
     ebind (readStartArray r) (\<lambda>(_, r).
     ebind (peekState r) (\<lambda>(state, r).
       if state = StartArray
       then ebind (CborSet_fromCbor Credential_fromCbor cbor) (\<lambda>s. Inr \<lparr>gu_keyHashes = None, gu_credentials = Some s\<rparr>)
       else ebind (CborSet_fromCbor Hash_fromCbor cbor) (\<lambda>s. Inr \<lparr>gu_keyHashes = Some s, gu_credentials = None\<rparr>)))))"

definition Guards_fromKeyHashes :: "bytes list \<Rightarrow> Guards" where
  "Guards_fromKeyHashes keyHashes = \<lparr>gu_keyHashes = Some (CborSet_fromCore (\<lambda>h. h) keyHashes), gu_credentials = None\<rparr>"

definition Guards_fromCredentials :: "Credential list \<Rightarrow> Guards result" where
  "Guards_fromCredentials credentials =
     ebind (throw_if (length credentials = 0) InvalidArgumentError) (\<lambda>_.
       Inr \<lparr>gu_keyHashes = None, gu_credentials = Some (CborSet_fromCore (\<lambda>c. c) credentials)\<rparr>)"

definition Guards_kind :: "Guards \<Rightarrow> GuardsKind" where
  "Guards_kind g = (if gu_keyHashes g \<noteq> None then GuardsKeyHashes else GuardsCredentials)"

definition Guards_keyHashes :: "Guards \<Rightarrow> bytes list option" where
  "Guards_keyHashes g = map_option (CborSet_toCore (\<lambda>h. h)) (gu_keyHashes g)"

definition Guards_credentials :: "Guards \<Rightarrow> Credential list option" where
  "Guards_credentials g = map_option (CborSet_toCore (\<lambda>c. c)) (gu_credentials g)"

definition Guards_size :: "Guards \<Rightarrow> nat" where
  "Guards_size g = (case gu_keyHashes g of Some s \<Rightarrow> CborSet_size s
     | None \<Rightarrow> (case gu_credentials g of Some s \<Rightarrow> CborSet_size s | None \<Rightarrow> 0))"

definition guards_content :: "Guards \<Rightarrow> bytes list option \<times> Credential list option" where
  "guards_content g = (Guards_keyHashes g, Guards_credentials g)"

text \<open>An empty set of credentials is written like an empty set of key hashes.\<close>

definition Guards_valid :: "Guards \<Rightarrow> bool" where
  "Guards_valid g \<longleftrightarrow> (case gu_keyHashes g of
       Some s \<Rightarrow> set_valid (\<lambda>b. small_bytes b) s \<and> gu_credentials g = None
     | None \<Rightarrow> (case gu_credentials g of Some s \<Rightarrow> set_valid Credential_valid s \<and> cs_values s \<noteq> [] | None \<Rightarrow> False))"

text \<open>What the array of a set starts with.\<close>

definition set_head :: "bool \<Rightarrow> nat \<Rightarrow> bytes" where
  "set_head conway n = (if conway then enc_head TagType 258 else []) @ enc_head ArrayType n"

lemma set_bytes:
  assumes "CborSet_toCbor conway toCbor s = Inr b" and "cs_originalBytes s = None" and "length (cs_values s) < 9007199254740992"
  shows "\<exists>bs. emap toCbor (cs_values s) = Inr bs \<and> b = set_head conway (length (cs_values s)) @ concat bs"
proof -
  from assms(1,2) obtain bs where bs: "emap toCbor (cs_values s) = Inr bs"
    by (auto simp: CborSet_toCbor_def elim!: ebind_InrE)
  have "run_ops (map writeEncodedValue bs) w = Inr (w @ concat bs)" for w by (induction bs arbitrary: w) simp_all
  with bs assms show ?thesis
    by (cases conway) (auto simp: CborSet_toCbor_def set_head_def write_all_def run_ops_append encode_def)
qed

lemma guards_choice:
  assumes "\<forall>b \<in> set bs. cbor_item b" and "length bs < 9007199254740992" and "cbor = set_head conway (length bs) @ concat bs"
  shows "Guards_fromCbor cbor =
    (if bs \<noteq> [] \<and> state_of_initial_byte (hd (hd bs)) = StartArray
     then ebind (CborSet_fromCbor Credential_fromCbor cbor) (\<lambda>s. Inr \<lparr>gu_keyHashes = None, gu_credentials = Some s\<rparr>)
     else ebind (CborSet_fromCbor Hash_fromCbor cbor) (\<lambda>s. Inr \<lparr>gu_keyHashes = Some s, gu_credentials = None\<rparr>))"
proof (cases bs)
  case Nil
  then show ?thesis unfolding assms(3)
    using readStartArray_rd [of 0 root_frame _ _ "[]"] peekStateCore_enc_head(2) [of 0 root_frame _ _ "[]"]
    by (cases conway) (simp_all add: Guards_fromCbor_def set_head_def rd_simps rd_last)
next
  case (Cons b cs)
  then show ?thesis using assms(1,2) unfolding assms(3)
    by (cases conway) (simp_all add: Guards_fromCbor_def set_head_def rd_simps rd_last peekState_rd peekStateCore_item)
qed

lemma guards_hashes:
  assumes "set_valid (\<lambda>b. small_bytes b) s"
  shows "\<exists>b t. CborSet_toCbor conway Hash_toCbor s = Inr b \<and> cbor_item b \<and>
    Guards_fromCbor b = Inr \<lparr>gu_keyHashes = Some t, gu_credentials = None\<rparr> \<and> cs_values t = cs_values s"
proof -
  have v: "\<forall>h \<in> set (cs_values s). small_bytes h" "length (cs_values s) < 9007199254740992" "cs_originalBytes s = None"
    using assms by (auto simp: set_valid_def)
  obtain b t where b: "CborSet_toCbor conway Hash_toCbor s = Inr b" "cbor_item b" "CborSet_fromCbor Hash_fromCbor b = Inr t"
    "cs_values t = cs_values s" using hash_codec.set_encodes [OF v, of conway] by auto
  have hashes: "emap Hash_toCbor hs = Inr (map enc_bytes hs)" if "\<forall>h \<in> set hs. small_bytes h" for hs
    using that by (induction hs) (simp_all add: Hash_toCbor_def write_all_def encode_def)
  let ?bs = "map enc_bytes (cs_values s)"
  have eq: "b = set_head conway (length ?bs) @ concat ?bs"
    using set_bytes [OF b(1) v(3,2)] hashes [OF v(1)] by simp
  have items: "\<forall>x \<in> set ?bs. cbor_item x" using v(1) by (auto simp: cbor_items)
  have "state_of_initial_byte (hd (enc_bytes h)) \<noteq> StartArray" if "small_bytes h" for h
    using head_info [OF is_head_enc_head [of "length h" ByteString]] that by (auto simp: enc_bytes_def state_of_initial_byte_def)
  then have "\<not> (?bs \<noteq> [] \<and> state_of_initial_byte (hd (hd ?bs)) = StartArray)"
    using v(1) by (cases "cs_values s") auto
  with guards_choice [OF items _ eq] v(2) b show ?thesis by auto
qed

lemma guards_credentials:
  assumes "set_valid Credential_valid s" and "cs_values s \<noteq> []"
  shows "\<exists>b t. CborSet_toCbor conway Credential_toCbor s = Inr b \<and> cbor_item b \<and>
    Guards_fromCbor b = Inr \<lparr>gu_keyHashes = None, gu_credentials = Some t\<rparr> \<and> cs_values t = cs_values s"
proof -
  have v: "\<forall>c \<in> set (cs_values s). Credential_valid c" "length (cs_values s) < 9007199254740992" "cs_originalBytes s = None"
    using assms by (auto simp: set_valid_def)
  obtain b t where b: "CborSet_toCbor conway Credential_toCbor s = Inr b" "cbor_item b" "CborSet_fromCbor Credential_fromCbor b = Inr t"
    "cs_values t = cs_values s" using credential_codec.set_encodes [OF v, of conway] by auto
  obtain bs where bs: "emap Credential_toCbor (cs_values s) = Inr bs" "\<forall>b \<in> set bs. cbor_item b" "length bs = length (cs_values s)"
    using credential_codec.encode_list [OF v(1)] by blast
  have eq: "b = set_head conway (length bs) @ concat bs"
    using set_bytes [OF b(1) v(3,2)] bs(1,3) by simp
  obtain c cs where c: "cs_values s = c # cs" using assms(2) by (cases "cs_values s") auto
  obtain x xs where x: "bs = x # xs" "Credential_toCbor c = Inr x" using bs(1) c by (auto elim!: ebind_InrE)
  have "\<exists>y. x = enc_head ArrayType 2 @ y"
    using x(2) v(1) c by (cases "cred_type c") (auto simp: Credential_toCbor_def Credential_valid_def write_all_def encode_def)
  then have "state_of_initial_byte (hd (hd bs)) = StartArray" using x(1) array_state [of 2] by auto
  with guards_choice [OF bs(2) _ eq] bs(3) v(2) b x(1) show ?thesis by auto
qed

interpretation guards: caching_codec "Guards_toCbor conway" Guards_fromCbor Guards_valid guards_content for conway
proof (unfold_locales, goal_cases)
  case (1 g)
  show ?case
  proof (cases "gu_keyHashes g")
    case (Some s)
    with 1 have v: "set_valid (\<lambda>b. small_bytes b) s" "gu_credentials g = None" by (simp_all add: Guards_valid_def)
    obtain b t where "CborSet_toCbor conway Hash_toCbor s = Inr b" "cbor_item b"
      "Guards_fromCbor b = Inr \<lparr>gu_keyHashes = Some t, gu_credentials = None\<rparr>" "cs_values t = cs_values s"
      using guards_hashes [OF v(1)] by blast
    with Some v(2) show ?thesis
      by (simp add: Guards_toCbor_def guards_content_def Guards_keyHashes_def Guards_credentials_def CborSet_toCore_def)
  next
    case None
    with 1 obtain s where s: "gu_credentials g = Some s" "set_valid Credential_valid s" "cs_values s \<noteq> []"
      by (auto simp: Guards_valid_def split: option.splits)
    obtain b t where "CborSet_toCbor conway Credential_toCbor s = Inr b" "cbor_item b"
      "Guards_fromCbor b = Inr \<lparr>gu_keyHashes = None, gu_credentials = Some t\<rparr>" "cs_values t = cs_values s"
      using guards_credentials [OF s(2,3)] by blast
    with None s(1) show ?thesis
      by (simp add: Guards_toCbor_def guards_content_def Guards_keyHashes_def Guards_credentials_def CborSet_toCore_def)
  qed
next
  case (2 b y)
  then show ?case
    by (auto simp: Guards_fromCbor_def Guards_toCbor_def elim!: ebind_InrE dest!: CborSet_keeps_bytes split: if_splits)
qed

subsection \<open>Maps from reward accounts to amounts\<close>

text \<open>
  The accounts are replaced by the bytes of their addresses, the entries sorted as the texts
  \<open>address,amount\<close>, which is how the comparison \<open>a > b\<close> sees the pairs, and written.
\<close>

definition by_account_text :: "bytes \<times> int \<Rightarrow> bytes \<times> int \<Rightarrow> int" where
  "by_account_text a b = by_withdrawal_text (hex_text (fst a), snd a) (hex_text (fst b), snd b)"

definition writeAccount :: "bytes \<times> int \<Rightarrow> writer_op list" where
  "writeAccount e = [writeByteString (fst e), writeInt (snd e)]"

definition withAddressBytes :: "string_codecs \<Rightarrow> (string \<times> int) list \<Rightarrow> (bytes \<times> int) list result" where
  "withAddressBytes lib accounts =
     ebind (emap (\<lambda>(key, value). ebind (accountBytes lib key) (\<lambda>b. Inr (b, value))) accounts) (\<lambda>es. Inr (new_Map es))"

definition writeAccounts :: "string_codecs \<Rightarrow> (string \<times> int) list \<Rightarrow> writer_op" where
  "writeAccounts lib accounts w =
     ebind (withAddressBytes lib accounts) (\<lambda>m. writeMapOf writeAccount (js_sort by_account_text m) w)"

text \<open>The map of direct deposits may not be empty.\<close>

definition readDeposits :: "string_codecs \<Rightarrow> CborReader \<Rightarrow> ((string \<times> int) list \<times> CborReader) result" where
  "readDeposits lib r =
     ebind (readMapWith (readWithdrawal lib) [] r) (\<lambda>(directDeposits, r).
     ebind (throw_if (length directDeposits = 0) SerializationError) (\<lambda>_. Inr (directDeposits, r)))"

lemma insort_cmp_map: "insort_cmp cmp (g x) (map g xs) = map g (insort_cmp (\<lambda>a b. cmp (g a) (g b)) x xs)"
  by (induction xs) simp_all

lemma js_sort_map: "js_sort cmp (map g xs) = map g (js_sort (\<lambda>a b. cmp (g a) (g b)) xs)"
  by (induction xs) (simp_all add: js_sort_def insort_cmp_map)

lemma writeMapOf_map: "writeMapOf ops (map g xs) = writeMapOf (\<lambda>e. ops (g e)) (xs :: ('k \<times> 'v) list)"
  by (simp add: writeMapOf_def comp_def)

lemma emap_keys:
  assumes "\<And>e. e \<in> set xs \<Longrightarrow> f (fst e) = Inr (g (fst e))"
  shows "emap (\<lambda>(k, v). ebind (f k) (\<lambda>b. Inr (b, v))) xs = Inr (map (\<lambda>e. (g (fst e), snd e)) xs)"
  using assms
proof (induction xs)
  case (Cons e xs)
  have "f (fst e) = Inr (g (fst e))" using Cons.prems [of e] by simp
  with Cons show ?case by (cases e) simp
qed simp

lemma field_accounts:
  assumes "withdrawals_valid lib ws"
  shows "\<exists>b ys. field_ok (writeAccounts lib ws) b (readMapWith (readWithdrawal lib) []) ys \<and>
    map_content (\<lambda>c. c) ys = map_content (\<lambda>c. c) ws \<and> length ys = length ws"
proof -
  define g where "g k = (case accountBytes lib k of Inr b \<Rightarrow> b | Inl _ \<Rightarrow> [])" for k
  let ?g = "\<lambda>e. (g (fst e), snd e)"
  let ?cmp = "\<lambda>a b. by_account_text (?g a) (?g b)"
  let ?ms = "js_sort ?cmp ws"
  have valid: "account_valid lib (fst e)" "cbor_int (snd e)" if "e \<in> set ws" for e
    using assms that by (auto simp: withdrawals_valid_def)
  have acc: "accountBytes lib (fst e) = Inr (g (fst e))" if "e \<in> set ws" for e
    using account_bytes [OF valid(1) [OF that]] by (auto simp: g_def)
  have "inj_on g (fst ` set ws)"
  proof (rule inj_onI)
    fix x y assume "x \<in> fst ` set ws" and "y \<in> fst ` set ws" and eq: "g x = g y"
    then obtain e d where "e \<in> set ws" "x = fst e" "d \<in> set ws" "y = fst d" by blast
    with valid(1) [of e] valid(1) [of d] acc [of e] acc [of d] eq show "x = y" by (intro account_bytes_inj [of lib]) simp_all
  qed
  then have "distinct (map fst (map ?g ws))"
    using assms distinct_map [of g "map fst ws"] by (simp add: withdrawals_valid_def comp_def)
  then have "new_Map (map ?g ws) = map ?g ws" by simp
  then have m: "withAddressBytes lib ws = Inr (map ?g ws)"
    unfolding withAddressBytes_def using emap_keys [of ws "accountBytes lib" g, OF acc] by simp
  have d: "distinct (map fst ?ms)" and n: "length ?ms < 4503599627370496" using assms by (simp_all add: withdrawals_valid_def)
  have entries: "\<exists>k b y. (\<forall>w. run_ops (writeAccount (?g e)) w = Inr (w @ k @ b)) \<and> entry_ok (readWithdrawal lib) (k, b) (map_set (fst e) y) \<and>
      y = snd e" if "e \<in> set ?ms" for e
  proof -
    have e: "e \<in> set ws" using that by simp
    have "writeRewardText lib (fst e) w = writeByteString (g (fst e)) w" for w using acc [OF e] by (simp add: writeRewardText_def)
    then have "run_ops (writeAccount (?g e)) w = run_ops (writeWithdrawal lib e) w" for w
      by (simp add: writeAccount_def writeWithdrawal_def)
    with withdrawal_entry [OF valid [OF e]] show ?thesis by simp
  qed
  obtain b ys where f: "field_ok (writeMapOf (\<lambda>e. writeAccount (?g e)) ?ms) b (readMapWith (readWithdrawal lib) []) ys"
    "map fst ys = map fst ?ms" "map_content (\<lambda>c. c) ys = map_content (\<lambda>c. c) ?ms"
    using field_map [where content = "\<lambda>c. c", OF entries d n] by blast
  have "writeAccounts lib ws = writeMapOf (\<lambda>e. writeAccount (?g e)) ?ms"
    by (simp add: writeAccounts_def fun_eq_iff m js_sort_map writeMapOf_map)
  moreover have "map_content (\<lambda>c. c) ?ms = map_content (\<lambda>c. c) ws" by (rule map_content_mset [OF d]) simp
  moreover have "length ys = length ws" using arg_cong [OF f(2), of length] by simp
  ultimately show ?thesis using f by auto
qed

lemma field_deposits:
  assumes "withdrawals_valid lib ws" and "ws \<noteq> []"
  shows "\<exists>b ys. field_ok (writeAccounts lib ws) b (readDeposits lib) ys \<and> map_content (\<lambda>c. c) ys = map_content (\<lambda>c. c) ws"
proof -
  obtain b ys where f: "field_ok (writeAccounts lib ws) b (readMapWith (readWithdrawal lib) []) ys"
    "map_content (\<lambda>c. c) ys = map_content (\<lambda>c. c) ws" "length ys = length ws" using field_accounts [OF assms(1)] by blast
  have "ys \<noteq> []" using f(3) assms(2) by auto
  then have "field_ok (writeAccounts lib ws) b (readDeposits lib) ys"
    using field_okD [OF f(1)] by (simp add: field_ok_def readDeposits_def)
  with f(2) show ?thesis by blast
qed

subsection \<open>Maps from credentials to objects\<close>

text \<open>
  The keys of these maps are objects: a map that is read has an entry for every entry in the bytes,
  also for equal credentials. To be written, the entries are keyed and sorted by the bytes of the
  credentials.
\<close>

definition by_hex :: "bytes \<times> 'v \<Rightarrow> bytes \<times> 'v \<Rightarrow> int" where
  "by_hex a b = (if ord_class.lexordp (map of_char (hex_text (fst b)) :: nat list) (map of_char (hex_text (fst a))) then 1 else - 1)"

definition withCredentialBytes :: "(Credential \<times> 'v) list \<Rightarrow> (bytes \<times> 'v) list result" where
  "withCredentialBytes m =
     ebind (emap (\<lambda>(credential, v). ebind (Credential_toCbor credential) (\<lambda>b. Inr (b, v))) m) (\<lambda>es. Inr (new_Map es))"

definition writeCredentialEntry :: "('v \<Rightarrow> writer_op) \<Rightarrow> bytes \<times> 'v \<Rightarrow> writer_op list" where
  "writeCredentialEntry write e = [writeEncodedValue (fst e), write (snd e)]"

definition writeCredentialMap :: "('v \<Rightarrow> writer_op) \<Rightarrow> (Credential \<times> 'v) list \<Rightarrow> writer_op" where
  "writeCredentialMap write m w =
     ebind (withCredentialBytes m) (\<lambda>es. writeMapOf (writeCredentialEntry write) (js_sort by_hex es) w)"

definition readCredentialEntry ::
    "(CborReader \<Rightarrow> ('v \<times> CborReader) result) \<Rightarrow> (Credential \<times> 'v) list \<Rightarrow> CborReader \<Rightarrow> ((Credential \<times> 'v) list \<times> CborReader) result" where
  "readCredentialEntry read m r =
     ebind (readObject Credential_fromCbor r) (\<lambda>(credential, r).
     ebind (read r) (\<lambda>(v, r). Inr (m @ [(credential, v)], r)))"

definition readCredentialMap ::
    "(CborReader \<Rightarrow> ('v \<times> CborReader) result) \<Rightarrow> CborReader \<Rightarrow> ((Credential \<times> 'v) list \<times> CborReader) result" where
  "readCredentialMap read r =
     ebind (readMapWith (readCredentialEntry read) [] r) (\<lambda>(m, r).
     ebind (throw_if (length m = 0) SerializationError) (\<lambda>_. Inr (m, r)))"

definition credential_map_valid :: "('v \<Rightarrow> bool) \<Rightarrow> (Credential \<times> 'v) list \<Rightarrow> bool" where
  "credential_map_valid valid m \<longleftrightarrow> distinct (map fst m) \<and> length m < 4503599627370496 \<and>
     (\<forall>e \<in> set m. Credential_valid (fst e) \<and> valid (snd e))"

lemma credential_bytes:
  assumes "Credential_valid c"
  shows "\<exists>b. Credential_toCbor c = Inr b \<and> cbor_item b \<and> Credential_fromCbor b = Inr c"
  using credential_codec.encodes [OF assms] by blast

lemma field_appended:
  assumes "\<And>e. e \<in> set ms \<Longrightarrow> \<exists>k b y. (\<forall>w. run_ops (ops e) w = Inr (w @ k @ b)) \<and> entry_ok step (k, b) (\<lambda>s. s @ [(fst e, y)]) \<and>
      content y = content (snd e)"
    and "length ms < 4503599627370496"
  shows "\<exists>b ys. field_ok (writeMapOf ops ms) b (readMapWith step []) ys \<and> length ys = length ms \<and>
    map_content content ys = map_content content ms"
proof -
  let ?c = "\<lambda>e. (fst e, content (snd e))"
  have entry: "\<exists>k b y. (\<forall>w. run_ops (ops e) w = Inr (w @ k @ b)) \<and> entry_ok step (k, b) (\<lambda>s. s @ [y]) \<and> ?c y = ?c e" if "e \<in> set ms" for e
  proof -
    from assms(1) [OF that] obtain k b y where "\<forall>w. run_ops (ops e) w = Inr (w @ k @ b)" "entry_ok step (k, b) (\<lambda>s. s @ [(fst e, y)])"
      "content y = content (snd e)" by (elim exE conjE) (rule that)
    then show ?thesis by (intro exI [of _ k] exI [of _ b] exI [of _ "(fst e, y)"]) simp
  qed
  obtain b ys where f: "fields_ok step (concat (map ops ms)) b (\<lambda>s. foldl (\<lambda>s y. s @ [y]) s ys) (length ms)" and ys: "map ?c ys = map ?c ms"
    using entries_to [where es = ms and step = step and ops = ops and content = ?c and upd = "\<lambda>y s. s @ [y]", OF entry] by blast
  have "foldl (\<lambda>s y. s @ [y]) zs xs = zs @ xs" for zs xs :: "('a \<times> 'b) list" by (induction xs arbitrary: zs) simp_all
  then have "field_ok (writeMapOf ops ms) (enc_head MapType (length ms) @ b) (readMapWith step []) ys"
    using fields_run [OF f] fields_item [OF f assms(2)] fields_read [OF f assms(2)] assms(2)
    by (simp add: field_ok_def writeMapOf_def)
  with map_content_cong [OF ys] arg_cong [OF ys, of length] show ?thesis by auto
qed

lemma field_credentials:
  assumes "credential_map_valid valid m" and "m \<noteq> []"
    and "\<And>v. valid v \<Longrightarrow> \<exists>b y. field_ok (write v) b read y \<and> content y = content v"
  shows "\<exists>b ys. field_ok (writeCredentialMap write m) b (readCredentialMap read) ys \<and> ys \<noteq> [] \<and>
    map_content content ys = map_content content m"
proof -
  define g where "g c = (case Credential_toCbor c of Inr b \<Rightarrow> b | Inl _ \<Rightarrow> [])" for c
  let ?g = "\<lambda>e. (g (fst e), snd e)"
  let ?ms = "js_sort (\<lambda>a b. by_hex (?g a) (?g b)) m"
  have v: "Credential_valid (fst e)" "valid (snd e)" if "e \<in> set m" for e
    using assms(1) that by (auto simp: credential_map_valid_def)
  have b: "Credential_toCbor (fst e) = Inr (g (fst e))" "cbor_item (g (fst e))" "Credential_fromCbor (g (fst e)) = Inr (fst e)"
    if mem: "e \<in> set m" for e
  proof -
    obtain x where "Credential_toCbor (fst e) = Inr x" "cbor_item x" "Credential_fromCbor x = Inr (fst e)"
      using credential_bytes [OF v(1) [OF mem]] by blast
    then show "Credential_toCbor (fst e) = Inr (g (fst e))" "cbor_item (g (fst e))" "Credential_fromCbor (g (fst e)) = Inr (fst e)"
      by (simp_all add: g_def)
  qed
  have "inj_on g (fst ` set m)"
  proof (rule inj_onI)
    fix x y assume "x \<in> fst ` set m" and "y \<in> fst ` set m" and eq: "g x = g y"
    then obtain e d where "e \<in> set m" "x = fst e" "d \<in> set m" "y = fst d" by (elim imageE) (rule that)
    then have "Credential_fromCbor (g x) = Inr x" "Credential_fromCbor (g y) = Inr y" using b(3) by blast+
    then show "x = y" unfolding eq by (metis Inr_inject)
  qed
  then have "distinct (map fst (map ?g m))"
    using assms(1) distinct_map [of g "map fst m"] by (simp add: credential_map_valid_def comp_def)
  then have m: "withCredentialBytes m = Inr (map ?g m)"
    unfolding withCredentialBytes_def using emap_keys [of m Credential_toCbor g, OF b(1)] by simp
  have d: "distinct (map fst ?ms)" and n: "length ?ms < 4503599627370496" using assms(1) by (simp_all add: credential_map_valid_def)
  have entries: "\<exists>k b y. (\<forall>w. run_ops (writeCredentialEntry write (?g e)) w = Inr (w @ k @ b)) \<and>
      entry_ok (readCredentialEntry read) (k, b) (\<lambda>s. s @ [(fst e, y)]) \<and> content y = content (snd e)" if "e \<in> set ?ms" for e
  proof -
    have e: "e \<in> set m" using that by simp
    obtain x y where f: "field_ok (write (snd e)) x read y" "content y = content (snd e)" 
      using assms(3) [OF v(2) [OF e]] by (elim exE conjE) (rule that)
    note f' = field_okD [OF f(1)]
    have "run_ops (writeCredentialEntry write (?g e)) w = Inr (w @ g (fst e) @ x)" for w
      using f'(1) by (simp add: writeCredentialEntry_def writeEncodedValue_def)
    moreover have "entry_ok (readCredentialEntry read) (g (fst e), x) (\<lambda>s. s @ [(fst e, y)])"
      using b [OF e] f'(2,3) by (simp add: entry_ok_def readCredentialEntry_def readObject_rd numeral_2_eq_2)
    ultimately show ?thesis using f(2) by (intro exI [of _ "g (fst e)"] exI [of _ x] exI [of _ y]) simp
  qed
  have "\<exists>x ys. field_ok (writeMapOf (\<lambda>e. writeCredentialEntry write (?g e)) ?ms) x (readMapWith (readCredentialEntry read) []) ys \<and>
      length ys = length ?ms \<and> map_content content ys = map_content content ?ms"
    by (rule field_appended) (rule entries, assumption, rule n)
  then obtain x ys where f: "field_ok (writeMapOf (\<lambda>e. writeCredentialEntry write (?g e)) ?ms) x (readMapWith (readCredentialEntry read) []) ys"
    "length ys = length ?ms" "map_content content ys = map_content content ?ms" by blast
  have ne: "ys \<noteq> []" using f(2) assms(2) by auto
  have "writeCredentialMap write m = writeMapOf (\<lambda>e. writeCredentialEntry write (?g e)) ?ms"
    by (simp add: writeCredentialMap_def fun_eq_iff m js_sort_map writeMapOf_map)
  moreover have "field_ok (writeMapOf (\<lambda>e. writeCredentialEntry write (?g e)) ?ms) x (readCredentialMap read) ys"
    using ne field_okD [OF f(1)] by (simp add: field_ok_def readCredentialMap_def)
  moreover have "map_content content ?ms = map_content content m" by (rule map_content_mset [OF d]) simp
  ultimately show ?thesis using f(3) ne by (intro exI [of _ x] exI [of _ ys]) simp
qed

text \<open>A datum or \<open>null\<close>.\<close>

lemma plutus_headed:
  assumes "PlutusData_fromCbor b = Inr y" and "cbor_item b"
  shows "array_headed b"
proof -
  have "state_of_initial_byte (hd b) \<noteq> NullState"
    using assms peekState_item [OF assms(2), of "[]"] by (auto simp: PlutusData_fromCbor.simps [of b])
  with cbor_item_hd(1) [OF assms(2)] show ?thesis by (simp add: array_headed_def)
qed

lemma field_datum:
  assumes "pred_option PlutusData_ok x"
  shows "\<exists>b y. field_ok (writeNullable PlutusData_toCbor x) b (readNullable PlutusData_fromCbor) y \<and>
    map_option PlutusData_strip y = map_option PlutusData_strip x"
proof (rule field_nullable)
  fix a assume "x = Some a"
  with assms have "PlutusData_ok a" by simp
  from plutus_data.encodes [OF this] obtain b y where "PlutusData_toCbor a = Inr b" "cbor_item b" "PlutusData_fromCbor b = Inr y"
    "PlutusData_strip y = PlutusData_strip a" by blast
  then show "\<exists>b y. PlutusData_toCbor a = Inr b \<and> cbor_item b \<and> array_headed b \<and> PlutusData_fromCbor b = Inr y \<and>
      PlutusData_strip y = PlutusData_strip a" using plutus_headed by blast
qed

subsection \<open>Mint\<close>

interpretation mint_amounts: token_amounts readInt cbor_int
  by unfold_locales (auto simp: rd_simps dest!: progress_intros)

definition writeMint :: "tokens \<Rightarrow> writer_op" where
  "writeMint minted w = ebind (tokenMapToMultiAsset minted) (\<lambda>multiassets. writeMultiassets multiassets w)"

definition readMint :: "CborReader \<Rightarrow> (tokens \<times> CborReader) result" where
  "readMint r =
     ebind (readMapWith (readPolicy readInt) [] r) (\<lambda>(multiassets, r).
     ebind (multiAssetsToTokenMap multiassets) (\<lambda>minted. Inr (minted, r)))"

text \<open>\<open>setMint\<close> brings the policies and assets into canonical order.\<close>

definition readCanonicalMint :: "CborReader \<Rightarrow> (tokens \<times> CborReader) result" where
  "readCanonicalMint r = ebind (readMint r) (\<lambda>(minted, r). ebind (normalizeTokens minted) (\<lambda>minted. Inr (minted, r)))"

definition mint_valid :: "tokens \<Rightarrow> bool" where
  "mint_valid tm \<longleftrightarrow> tokens_ok tm \<and> length tm < 4503599627370496 \<and> list_all (\<lambda>(i, q). cbor_int q) tm"

lemma field_mint:
  assumes "mint_valid tm"
  shows "\<exists>b y. field_ok (writeMint tm) b readCanonicalMint y \<and> map_of y = map_of tm"
proof -
  have v: "tokens_ok tm" "length tm < 4503599627370496" "list_all (\<lambda>(i, q). cbor_int q) tm"
    using assms by (simp_all add: mint_valid_def)
  obtain m where m: "tokenMapToMultiAsset tm = Inr m" "ma_ok m" "mset (flatten m) = mset tm"
    using tokenMapToMultiAsset_ok [OF v(1)] by blast
  have ma: "ma_valid cbor_int m" by (rule mint_amounts.grouped_valid [OF v(3,2) m(2,3)])
  have w: "ma_ok (written m)" "mset (flatten (written m)) = mset tm" using written_ok [OF m(2)] m(3) by simp_all
  have ok: "tokens_ok (flatten (written m))" using tokens_ok_mset [OF w(2)] v(1) by simp
  obtain y where y: "normalizeTokens (flatten (written m)) = Inr y" "mset y = mset (flatten (written m))" "tokens_ok y"
    using normalizeTokens_ok [OF ok] by blast
  have "field_ok (writeMint tm) (ma_bytes m) readCanonicalMint y"
    using m(1) mint_amounts.writeMultiassets_bytes [OF ma] mint_amounts.ma_bytes_item [OF ma] multiAssetsToTokenMap_ok [OF w(1)] y(1)
    by (simp add: field_ok_def writeMint_def readCanonicalMint_def readMint_def)
  moreover have "map_of y = map_of tm"
  proof (rule map_of_inject_set [THEN iffD2])
    show "distinct (map fst y)" "distinct (map fst tm)" using y(3) v(1) by (simp_all add: tokens_ok_def)
    show "set y = set tm" using y(2) w(2) by (metis set_mset_mset)
  qed
  ultimately show ?thesis by blast
qed

end
