(* ===== verification/Body_Rows.thy ===== *)
theory Body_Rows
  imports Body_Fields Witness_Set
begin

text \<open>
  The bodies of transactions and of sub transactions as tables of fields: the third-party functions
  they depend on, the contents of their fields, and the rows of fields that are left out when they
  are empty. The outputs are appended to those read before; \<open>body_class\<close> gives the round trip of a
  class with such a field.
\<close>

record tx_lib =
  tl_codecs :: string_codecs
  tl_ip :: ip_lib
  tl_sortEntries :: "mir_entry list \<Rightarrow> mir_entry list"
  tl_uniq :: uniq_lib
  tl_blake2b :: blake2b

definition pool_env_of :: "tx_lib \<Rightarrow> bool \<Rightarrow> pool_env" where
  "pool_env_of L conway = \<lparr>env_conway = conway, env_crc32 = crc32 (tl_codecs L), env_ip = tl_ip L\<rparr>"

abbreviation writeCertificate :: "tx_lib \<Rightarrow> bool \<Rightarrow> Certificate \<Rightarrow> bytes result" where
  "writeCertificate L conway \<equiv> Certificate_toCbor (pool_env_of L conway) (tl_sortEntries L)"

abbreviation readCertificate :: "tx_lib \<Rightarrow> bool \<Rightarrow> bytes \<Rightarrow> Certificate result" where
  "readCertificate L conway \<equiv> Certificate_fromCbor (pool_env_of L conway)"

text \<open>The content of a certificate is the class of the bodies with the same fields.\<close>

definition certificate_content :: "Certificate \<Rightarrow> CertificateBody set" where
  "certificate_content c = {d. same_certificate d (cert_body c)}"

definition certificate_valid :: "tx_lib \<Rightarrow> bool \<Rightarrow> Certificate \<Rightarrow> bool" where
  "certificate_valid L conway c \<longleftrightarrow> CertificateBody_valid (pool_env_of L conway) (tl_sortEntries L) (cert_body c) \<and> cert_originalBytes c = None"

lemma same_certificate_class: "same_certificate y x \<Longrightarrow> {d. same_certificate d y} = {d. same_certificate d x}"
  by (cases y; cases x) (auto simp: same_certificate_def split: CertificateBody.splits)

interpretation certificate: cbor_codec "writeCertificate L conway" "readCertificate L conway" "certificate_valid L conway" certificate_content
  for L conway
proof
  fix c assume c: "certificate_valid L conway c"
  obtain b y where b: "CertificateBody_toCbor (pool_env_of L conway) (tl_sortEntries L) (cert_body c) = Inr b" "cbor_item b"
    "kindOf b = Inr (CertificateKind (cert_body c))"
    "CertificateBody_fromCbor (pool_env_of L conway) (CertificateKind (cert_body c)) b = Inr y" "same_certificate y (cert_body c)"
    using certificate_bodies c unfolding certificate_valid_def by blast
  with c same_certificate_class [OF b(5)] show "\<exists>b. writeCertificate L conway c = Inr b \<and> cbor_item b \<and>
      (\<exists>y. readCertificate L conway b = Inr y \<and> certificate_content y = certificate_content c)"
    by (simp add: Certificate_toCbor_def Certificate_fromCbor_def certificate_valid_def certificate_content_def)
qed

subsection \<open>Contents of fields\<close>

type_synonym input_content = "bytes \<times> int"
type_synonym output_view = "AddressProps \<times> (int \<times> tokens option) \<times> (bytes option \<times> PlutusData option) option \<times> Core_Script option"

type_synonym vote_view = "((VoterKind \<times> Credential) \<times> ((bytes \<times> int) \<times> Vote \<times> (js_string \<times> bytes) option) list) list"
type_synonym proposal_view = "action_content \<times> int \<times> string \<times> js_string \<times> bytes"

datatype 'sub body_value =
    InputsOf "input_content list"
  | OutputsOf "output_view list"
  | AmountOf int
  | CertsOf "CertificateBody set list"
  | AccountsOf "string \<rightharpoonup> int"
  | UpdateOf "int \<times> (bytes \<rightharpoonup> int \<rightharpoonup> param_value)"
  | HashOf bytes
  | MintOf "asset \<rightharpoonup> int"
  | GuardsOf "bytes list option \<times> Credential list option"
  | OutputOf output_view
  | VotesOf vote_view
  | ProposalsOf "proposal_view list"
  | SubsOf "'sub list"
  | DatumsOf "Credential \<rightharpoonup> PlutusData option"
  | IntervalsOf "Credential \<rightharpoonup> int option \<times> int option"
  | Seen

subsection \<open>Rows\<close>

lemma eq_put_field:
  assumes "c' k = Some v" and "\<And>x. x \<noteq> k \<Longrightarrow> c' x = c x" shows "c' = put_field k v c"
  using assms by (simp add: put_field_def fun_eq_iff)

text \<open>A field whose content is kept only if it is not empty.\<close>

lemma guarded_row_ok:
  assumes "fld k = readField read upd"
    and "\<And>a. x = Some a \<Longrightarrow> \<exists>b y. field_ok (w a) b read y \<and> content y = content a \<and> good y"
    and "cbor_int k" and "\<And>y s. good y \<Longrightarrow> con (upd y s) = put_field k (content y) (con s)"
  shows "row_ok (readKeyed fld) con (field_row k w content x)"
proof (cases x)
  case None
  then show ?thesis using fields_to_Nil by (simp add: row_ok_def field_row_def writes_def set_opt_def [abs_def])
next
  case (Some a)
  then obtain b y where f: "field_ok (w a) b read y" "content y = content a" "good y" using assms(2) by blast
  have "fields_to (readKeyed fld) con [writeField k (w a)] 1 (put_field k (content a))"
    by (rule fields_to_field [where fld = fld, OF f(1) assms(1,3)]) (simp add: assms(4) [OF f(3)] f(2))
  with Some show ?thesis by (simp add: row_ok_def field_row_def writes_def set_opt_def [abs_def])
qed

lemma bytes_row:
  assumes "fld k = readField readByteString upd" and "pred_option (\<lambda>b. small_bytes b) x" and "cbor_int k"
    and "\<And>y s. con (upd y s) = put_field k (content y) (con s)"
  shows "row_ok (readKeyed fld) con (field_row k writeByteString content x)"
proof (rule field_row_ok [where fld = fld and k = k, OF assms(1) _ assms(3,4)])
  fix b assume "x = Some b"
  with assms(2) have "field_ok (writeByteString b) (enc_bytes b) readByteString b" by (simp add: field_ok_def rd_simps cbor_items)
  then show "\<exists>c y. field_ok (writeByteString b) c readByteString y \<and> content y = content b" by blast
qed

context cbor_codec
begin

lemma set_row:
  assumes "fld k = readField (readObject (CborSet_fromCbor fromCbor)) upd" and "pred_option (set_valid valid) x" and "cbor_int k"
    and "\<And>y s. cs_values y \<noteq> [] \<Longrightarrow> con (upd y s) = put_field k (tag (set_content content y)) (con s)"
  shows "row_ok (readKeyed fld) con
    (field_row k (\<lambda>s. writeObject (CborSet_toCbor conway toCbor s)) (\<lambda>s. tag (set_content content s)) (nonempty_set x))"
proof (rule guarded_row_ok [where fld = fld and k = k and good = "\<lambda>y. cs_values y \<noteq> []", OF assms(1) _ assms(3,4)])
  fix s assume s: "nonempty_set x = Some s"
  then have "set_valid valid s" using assms(2) nonempty_set_SomeD by fastforce
  from cbor_codec.field_of_object [OF set_codec this, of conway] obtain b y
    where f: "field_ok (writeObject (CborSet_toCbor conway toCbor s)) b (readObject (CborSet_fromCbor fromCbor)) y"
      "set_content content y = set_content content s" by blast
  have "cs_values s \<noteq> []" using s by (auto simp: nonempty_set_def CborSet_size_def split: option.splits if_splits)
  then have "cs_values y \<noteq> []" using f(2) by (auto simp: set_content_def)
  with f show "\<exists>b y. field_ok (writeObject (CborSet_toCbor conway toCbor s)) b (readObject (CborSet_fromCbor fromCbor)) y \<and>
      tag (set_content content y) = tag (set_content content s) \<and> cs_values y \<noteq> []"
    by (intro exI [of _ b] exI [of _ y]) simp
qed

end

lemma accounts_row:
  assumes "fld k = readField (readMapWith (readWithdrawal lib) []) upd" and "pred_option (withdrawals_valid lib) x" and "cbor_int k"
    and "\<And>y s. y \<noteq> [] \<Longrightarrow> con (upd y s) = put_field k (AccountsOf (map_content (\<lambda>c. c) y)) (con s)"
  shows "row_ok (readKeyed fld) con (field_row k (writeAccounts lib) (\<lambda>m. AccountsOf (map_content (\<lambda>c. c) m)) (nonempty x))"
proof (rule guarded_row_ok [where fld = fld and k = k and good = "\<lambda>y. y \<noteq> []", OF assms(1) _ assms(3,4)])
  fix m assume m: "nonempty x = Some m"
  then have "withdrawals_valid lib m" using assms(2) by simp
  from field_accounts [OF this] obtain b y where "field_ok (writeAccounts lib m) b (readMapWith (readWithdrawal lib) []) y"
    "map_content (\<lambda>c. c) y = map_content (\<lambda>c. c) m" "length y = length m" by blast
  with m show "\<exists>b y. field_ok (writeAccounts lib m) b (readMapWith (readWithdrawal lib) []) y \<and>
      AccountsOf (map_content (\<lambda>c. c) y) = AccountsOf (map_content (\<lambda>c. c) m) \<and> y \<noteq> []"
    by (intro exI [of _ b] exI [of _ y]) auto
qed

lemma deposits_row:
  assumes "fld k = readField (readDeposits lib) upd" and "pred_option (withdrawals_valid lib) x" and "cbor_int k"
    and "\<And>y s. y \<noteq> [] \<Longrightarrow> con (upd y s) = put_field k (AccountsOf (map_content (\<lambda>c. c) y)) (con s)"
  shows "row_ok (readKeyed fld) con (field_row k (writeAccounts lib) (\<lambda>m. AccountsOf (map_content (\<lambda>c. c) m)) (nonempty x))"
proof (rule guarded_row_ok [where fld = fld and k = k and good = "\<lambda>y. y \<noteq> []", OF assms(1) _ assms(3,4)])
  fix m assume m: "nonempty x = Some m"
  then have "withdrawals_valid lib m" "m \<noteq> []" using assms(2) by simp_all
  from field_deposits [OF this] obtain b y where f: "field_ok (writeAccounts lib m) b (readDeposits lib) y"
    "map_content (\<lambda>c. c) y = map_content (\<lambda>c. c) m" by blast
  have "map_content (\<lambda>c. c) m \<noteq> Map.empty"
    using \<open>m \<noteq> []\<close> by (cases m) (auto simp: map_content_def fun_eq_iff)
  then have "y \<noteq> []" using f(2) by (auto simp: map_content_def fun_eq_iff)
  with f show "\<exists>b y. field_ok (writeAccounts lib m) b (readDeposits lib) y \<and>
      AccountsOf (map_content (\<lambda>c. c) y) = AccountsOf (map_content (\<lambda>c. c) m) \<and> y \<noteq> []"
    by (intro exI [of _ b] exI [of _ y]) simp
qed

lemma mint_row:
  assumes "fld k = readField readCanonicalMint upd" and "pred_option mint_valid x" and "cbor_int k"
    and "\<And>y s. y \<noteq> [] \<Longrightarrow> con (upd y s) = put_field k (MintOf (map_of y)) (con s)"
  shows "row_ok (readKeyed fld) con (field_row k writeMint (\<lambda>m. MintOf (map_of m)) (nonempty x))"
proof (rule guarded_row_ok [where fld = fld and k = k and good = "\<lambda>y. y \<noteq> []", OF assms(1) _ assms(3,4)])
  fix m assume m: "nonempty x = Some m"
  then have "mint_valid m" "m \<noteq> []" using assms(2) by simp_all
  from field_mint [OF this(1)] obtain b y where f: "field_ok (writeMint m) b readCanonicalMint y" "map_of y = map_of m" by blast
  have "y \<noteq> []" using f(2) \<open>m \<noteq> []\<close> by (cases m) (auto simp: fun_eq_iff split: if_splits)
  with f show "\<exists>b y. field_ok (writeMint m) b readCanonicalMint y \<and> MintOf (map_of y) = MintOf (map_of m) \<and> y \<noteq> []"
    by (intro exI [of _ b] exI [of _ y]) simp
qed

lemma credentials_row:
  assumes "fld k = readField (readCredentialMap read) upd" and "pred_option (credential_map_valid valid) x" and "cbor_int k"
    and "\<And>v. valid v \<Longrightarrow> \<exists>b y. field_ok (write v) b read y \<and> content y = content v"
    and "\<And>y s. y \<noteq> [] \<Longrightarrow> con (upd y s) = put_field k (tag (map_content content y)) (con s)"
  shows "row_ok (readKeyed fld) con (field_row k (writeCredentialMap write) (\<lambda>m. tag (map_content content m)) (nonempty x))"
proof (rule guarded_row_ok [where fld = fld and k = k and good = "\<lambda>y. y \<noteq> []", OF assms(1) _ assms(3,5)])
  fix m assume m: "nonempty x = Some m"
  then have v: "credential_map_valid valid m" "m \<noteq> []" using assms(2) by simp_all
  have "\<exists>b ys. field_ok (writeCredentialMap write m) b (readCredentialMap read) ys \<and> ys \<noteq> [] \<and> map_content content ys = map_content content m"
    by (rule field_credentials [OF v]) (rule assms(4))
  then obtain b y where "field_ok (writeCredentialMap write m) b (readCredentialMap read) y" "y \<noteq> []"
    "map_content content y = map_content content m" by blast
  then show "\<exists>b y. field_ok (writeCredentialMap write m) b (readCredentialMap read) y \<and>
      tag (map_content content y) = tag (map_content content m) \<and> y \<noteq> []"
    by (intro exI [of _ b] exI [of _ y]) simp
qed

subsection \<open>A class with a table of fields and outputs\<close>

lemma body_class:
  assumes first: "row_ok step con row0" and outs: "fields_to step con ops n g" "n \<le> 1"
    and rows: "\<forall>row \<in> set rows. row_ok step con row" "length rows < 100" "distinct (map fst (map row_field rows))"
    and start: "c = g (set_opt (put_field (fst (row_field row0))) (snd (row_field row0)) (con s))"
      "\<And>k. (k, None) \<in> set (map row_field rows) \<Longrightarrow> c k = None"
  shows "\<exists>b s'. write_all (writeStartMap (Some (row_size row0 + (n + sum_list (map row_size rows)))) #
      (row_ops row0 @ ops @ concat (map row_ops rows))) = Inr b \<and> cbor_item b \<and> b \<noteq> [] \<and>
    (\<exists>r. readMapWith step s (new_reader b) = Inr (s', r)) \<and>
    con s' = (\<lambda>k. if k \<in> fst ` set (map row_field rows) then table_content (map row_field rows) k else c k)"
proof -
  obtain ops0 n0 k0 v0 where row0: "row0 = (ops0, n0, k0, v0)" by (cases row0)
  have 1: "fields_to step con ops0 n0 (set_opt (put_field k0) v0)" "n0 \<le> 1" using first row0 by (auto simp: row_ok_def)
  note w = rows_written [OF rows(1)]
  have "fields_to step con (ops0 @ ops @ concat (map row_ops rows)) (n0 + (n + sum_list (map row_size rows)))
      (and_then (set_opt (put_field k0) v0) (and_then g (\<lambda>c. foldl (\<lambda>c (k, v). set_opt (put_field k) v c) c (map row_field rows))))"
    by (intro fields_to_append 1(1) outs(1) conjunct1 [OF w])
  moreover have "n0 + (n + sum_list (map row_size rows)) < 4503599627370496" using w 1(2) outs(2) rows(2) by simp
  moreover have "and_then (set_opt (put_field k0) v0) (and_then g (\<lambda>c. foldl (\<lambda>c (k, v). set_opt (put_field k) v c) c (map row_field rows))) (con s) =
      (\<lambda>k. if k \<in> fst ` set (map row_field rows) then table_content (map row_field rows) k else c k)"
    using put_rows [OF rows(3), of c] start row0 by simp
  ultimately show ?thesis using fields_to_class [of step con _ _ _ s] row0 by fastforce
qed

text \<open>The outputs are appended to those that are there; \<open>writeArrayOf\<close> writes them all.\<close>

definition appended :: "output_view list \<Rightarrow> (int \<rightharpoonup> 's body_value) \<Rightarrow> int \<rightharpoonup> 's body_value" where
  "appended os c = (if os = [] then c
     else c(1 \<mapsto> OutputsOf ((case c 1 of Some (OutputsOf old) \<Rightarrow> old | _ \<Rightarrow> []) @ os)))"

lemma outputs_field:
  assumes "fld 1 = readField (readArrayOf (TransactionOutput_fromCbor crc strict)) upd"
    and "\<forall>out \<in> set outs. TransactionOutput_valid crc out" and "length outs < 9007199254740992"
    and "\<And>ys s. con (upd ys s) = g (map output_content ys) (con s)"
  shows "fields_to (readKeyed fld) con [writeField 1 (writeArrayOf (TransactionOutput_toCbor crc) outs)] 1 (g (map output_content outs))"
proof -
  obtain b ys where f: "field_ok (writeArrayOf (TransactionOutput_toCbor crc) outs) b (readArrayOf (TransactionOutput_fromCbor crc strict)) ys"
    "map output_content ys = map output_content outs" 
    using cbor_codec.field_of_array [OF tx_output.cbor_codec_axioms assms(2,3)] by blast
  show ?thesis
    by (rule fields_to_field [where fld = fld, OF f(1) assms(1)]) (simp_all add: assms(4) f(2) cbor_int_def)
qed

text \<open>\<open>guards !== undefined && guards.size() > 0\<close>\<close>

definition nonempty_guards :: "Guards option \<Rightarrow> Guards option" where
  "nonempty_guards x = (case x of None \<Rightarrow> None | Some g \<Rightarrow> if 0 < Guards_size g then Some g else None)"

lemma nonempty_guards_SomeD: "nonempty_guards x = Some g \<Longrightarrow> x = Some g \<and> 0 < Guards_size g"
  by (auto simp: nonempty_guards_def split: option.splits if_splits)

lemma guards_size_content: 
  assumes "guards_content y = guards_content g"
  shows "Guards_size y = Guards_size g"
proof -
  have size: "Guards_size a = (case fst (guards_content a) of Some hs \<Rightarrow> length hs
      | None \<Rightarrow> (case snd (guards_content a) of Some cs \<Rightarrow> length cs | None \<Rightarrow> 0))" for a
    by (simp add: guards_content_def Guards_size_def Guards_keyHashes_def Guards_credentials_def CborSet_size_def CborSet_toCore_def
        split: option.splits)
  show ?thesis unfolding size assms ..
qed

lemma guards_row:
  assumes "fld k = readField (readObject Guards_fromCbor) upd" and "pred_option Guards_valid x" and "cbor_int k"
    and "\<And>y s. 0 < Guards_size y \<Longrightarrow> con (upd y s) = put_field k (GuardsOf (guards_content y)) (con s)"
  shows "row_ok (readKeyed fld) con (field_row k (\<lambda>a. writeObject (Guards_toCbor conway a)) (\<lambda>a. GuardsOf (guards_content a)) (nonempty_guards x))"
proof (rule guarded_row_ok [where fld = fld and k = k and good = "\<lambda>y. 0 < Guards_size y", OF assms(1) _ assms(3,4)])
  fix g assume "nonempty_guards x = Some g"
  note g = nonempty_guards_SomeD [OF this]
  then have "Guards_valid g" using assms(2) by simp
  from guards.field_of_object [OF this, of conway] obtain b y
    where f: "field_ok (writeObject (Guards_toCbor conway g)) b (readObject Guards_fromCbor) y" "guards_content y = guards_content g"
    by (elim exE conjE) (rule that)
  with g guards_size_content [OF f(2)] show "\<exists>b y. field_ok (writeObject (Guards_toCbor conway g)) b (readObject Guards_fromCbor) y \<and>
      GuardsOf (guards_content y) = GuardsOf (guards_content g) \<and> 0 < Guards_size y"
    by (intro exI [of _ b] exI [of _ y]) simp
qed

lemma table_content_append:
  assumes "fst ` set pre \<inter> fst ` set t = {}"
  shows "table_content (pre @ t) = (\<lambda>k. if k \<in> fst ` set t then table_content t k else table_content pre k)"
  using assms
proof (induction pre)
  case Nil
  then show ?case using table_content_notin [of _ t] by (intro ext) simp
next
  case (Cons e pre)
  obtain j v where e: "e = (j, v)" by (cases e)
  have "j \<notin> fst ` set t" using Cons.prems e by simp
  moreover have "table_content (pre @ t) = (\<lambda>k. if k \<in> fst ` set t then table_content t k else table_content pre k)"
    using Cons.prems by (intro Cons.IH) simp
  ultimately show ?case unfolding e append_Cons table_content_Cons by (intro ext) auto
qed

abbreviation input_view :: "TransactionInput \<Rightarrow> input_content" where
  "input_view i \<equiv> (ti_id i, ti_index i)"

end
