(* ===== verification/Sub_Body.thy ===== *)
theory Sub_Body
  imports Body_Rows
begin

text \<open>
  The body of a sub transaction (\<open>core/src/Serialization/TransactionBody/SubTransactionBody.ts\<close>).
  Inputs and outputs are required; the keys that only a top-level transaction may have, and unknown
  ones, are refused.
\<close>

record SubTransactionBody =
  stb_inputs :: "TransactionInput CborSet"
  stb_outputs :: "TransactionOutput list"
  stb_ttl :: "(int) option"
  stb_certs :: "(Certificate CborSet) option"
  stb_withdrawals :: "((string \<times> int) list) option"
  stb_auxiliaryDataHash :: "(bytes) option"
  stb_validityStartInterval :: "(int) option"
  stb_mint :: "(tokens) option"
  stb_scriptDataHash :: "(bytes) option"
  stb_guards :: "(Guards) option"
  stb_networkId :: "(int) option"
  stb_referenceInputs :: "(TransactionInput CborSet) option"
  stb_votingProcedures :: "(VotingProcedures) option"
  stb_proposalProcedures :: "(ProposalProcedure CborSet) option"
  stb_currentTreasuryValue :: "(int) option"
  stb_donation :: "(int) option"
  stb_requiredTopLevelGuards :: "((Credential \<times> PlutusData option) list) option"
  stb_directDeposits :: "((string \<times> int) list) option"
  stb_accountBalanceIntervals :: "((Credential \<times> AccountBalanceInterval) list) option"
  stb_originalBytes :: "bytes option"

definition SubTransactionBody_new :: "TransactionInput CborSet \<Rightarrow> TransactionOutput list \<Rightarrow> SubTransactionBody" where
  "SubTransactionBody_new inputs outputs = \<lparr>stb_inputs = inputs, stb_outputs = outputs,
     stb_ttl = None, stb_certs = None, stb_withdrawals = None, stb_auxiliaryDataHash = None, stb_validityStartInterval = None, stb_mint = None, stb_scriptDataHash = None, stb_guards = None, stb_networkId = None, stb_referenceInputs = None, stb_votingProcedures = None, stb_proposalProcedures = None, stb_currentTreasuryValue = None, stb_donation = None, stb_requiredTopLevelGuards = None, stb_directDeposits = None, stb_accountBalanceIntervals = None, stb_originalBytes = None\<rparr>"

subsection \<open>Setters\<close>

definition SubTransactionBody_setInputs :: "TransactionInput CborSet \<Rightarrow> SubTransactionBody \<Rightarrow> SubTransactionBody" where
  "SubTransactionBody_setInputs inputs b = b\<lparr>stb_inputs := inputs, stb_originalBytes := None\<rparr>"

definition SubTransactionBody_setOutputs :: "TransactionOutput list \<Rightarrow> SubTransactionBody \<Rightarrow> SubTransactionBody" where
  "SubTransactionBody_setOutputs outputs b = b\<lparr>stb_outputs := outputs, stb_originalBytes := None\<rparr>"

definition SubTransactionBody_setTtl :: "int \<Rightarrow> SubTransactionBody \<Rightarrow> SubTransactionBody" where
  "SubTransactionBody_setTtl x b = b\<lparr>stb_ttl := Some x, stb_originalBytes := None\<rparr>"

definition SubTransactionBody_setCerts :: "(Certificate CborSet) \<Rightarrow> SubTransactionBody \<Rightarrow> SubTransactionBody" where
  "SubTransactionBody_setCerts x b = b\<lparr>stb_certs := Some x, stb_originalBytes := None\<rparr>"

definition SubTransactionBody_setWithdrawals :: "((string \<times> int) list) \<Rightarrow> SubTransactionBody \<Rightarrow> SubTransactionBody" where
  "SubTransactionBody_setWithdrawals x b = b\<lparr>stb_withdrawals := Some x, stb_originalBytes := None\<rparr>"

definition SubTransactionBody_setAuxiliaryDataHash :: "bytes \<Rightarrow> SubTransactionBody \<Rightarrow> SubTransactionBody" where
  "SubTransactionBody_setAuxiliaryDataHash x b = b\<lparr>stb_auxiliaryDataHash := Some x, stb_originalBytes := None\<rparr>"

definition SubTransactionBody_setValidityStartInterval :: "int \<Rightarrow> SubTransactionBody \<Rightarrow> SubTransactionBody" where
  "SubTransactionBody_setValidityStartInterval x b = b\<lparr>stb_validityStartInterval := Some x, stb_originalBytes := None\<rparr>"

text \<open>The token map is brought into canonical order.\<close>

definition SubTransactionBody_setMint :: "tokens \<Rightarrow> SubTransactionBody \<Rightarrow> SubTransactionBody result" where
  "SubTransactionBody_setMint minted b =
     ebind (normalizeTokens minted) (\<lambda>minted. Inr (b\<lparr>stb_mint := Some minted, stb_originalBytes := None\<rparr>))"

definition SubTransactionBody_setScriptDataHash :: "bytes \<Rightarrow> SubTransactionBody \<Rightarrow> SubTransactionBody" where
  "SubTransactionBody_setScriptDataHash x b = b\<lparr>stb_scriptDataHash := Some x, stb_originalBytes := None\<rparr>"

definition SubTransactionBody_setGuards :: "Guards \<Rightarrow> SubTransactionBody \<Rightarrow> SubTransactionBody" where
  "SubTransactionBody_setGuards x b = b\<lparr>stb_guards := Some x, stb_originalBytes := None\<rparr>"

definition SubTransactionBody_setNetworkId :: "int \<Rightarrow> SubTransactionBody \<Rightarrow> SubTransactionBody" where
  "SubTransactionBody_setNetworkId x b = b\<lparr>stb_networkId := Some x, stb_originalBytes := None\<rparr>"

definition SubTransactionBody_setReferenceInputs :: "(TransactionInput CborSet) \<Rightarrow> SubTransactionBody \<Rightarrow> SubTransactionBody" where
  "SubTransactionBody_setReferenceInputs x b = b\<lparr>stb_referenceInputs := Some x, stb_originalBytes := None\<rparr>"

definition SubTransactionBody_setVotingProcedures :: "VotingProcedures \<Rightarrow> SubTransactionBody \<Rightarrow> SubTransactionBody" where
  "SubTransactionBody_setVotingProcedures x b = b\<lparr>stb_votingProcedures := Some x, stb_originalBytes := None\<rparr>"

definition SubTransactionBody_setProposalProcedures :: "(ProposalProcedure CborSet) \<Rightarrow> SubTransactionBody \<Rightarrow> SubTransactionBody" where
  "SubTransactionBody_setProposalProcedures x b = b\<lparr>stb_proposalProcedures := Some x, stb_originalBytes := None\<rparr>"

definition SubTransactionBody_setCurrentTreasuryValue :: "int \<Rightarrow> SubTransactionBody \<Rightarrow> SubTransactionBody" where
  "SubTransactionBody_setCurrentTreasuryValue x b = b\<lparr>stb_currentTreasuryValue := Some x, stb_originalBytes := None\<rparr>"

definition SubTransactionBody_setDonation :: "int \<Rightarrow> SubTransactionBody \<Rightarrow> SubTransactionBody" where
  "SubTransactionBody_setDonation x b = b\<lparr>stb_donation := Some x, stb_originalBytes := None\<rparr>"

definition SubTransactionBody_setRequiredTopLevelGuards :: "((Credential \<times> PlutusData option) list) \<Rightarrow> SubTransactionBody \<Rightarrow> SubTransactionBody" where
  "SubTransactionBody_setRequiredTopLevelGuards x b = b\<lparr>stb_requiredTopLevelGuards := Some x, stb_originalBytes := None\<rparr>"

definition SubTransactionBody_setDirectDeposits :: "((string \<times> int) list) \<Rightarrow> SubTransactionBody \<Rightarrow> SubTransactionBody" where
  "SubTransactionBody_setDirectDeposits x b = b\<lparr>stb_directDeposits := Some x, stb_originalBytes := None\<rparr>"

definition SubTransactionBody_setAccountBalanceIntervals :: "((Credential \<times> AccountBalanceInterval) list) \<Rightarrow> SubTransactionBody \<Rightarrow> SubTransactionBody" where
  "SubTransactionBody_setAccountBalanceIntervals x b = b\<lparr>stb_accountBalanceIntervals := Some x, stb_originalBytes := None\<rparr>"

lemmas stb_setters = SubTransactionBody_setInputs_def SubTransactionBody_setTtl_def SubTransactionBody_setCerts_def SubTransactionBody_setWithdrawals_def SubTransactionBody_setAuxiliaryDataHash_def SubTransactionBody_setValidityStartInterval_def SubTransactionBody_setScriptDataHash_def SubTransactionBody_setGuards_def SubTransactionBody_setNetworkId_def SubTransactionBody_setReferenceInputs_def SubTransactionBody_setVotingProcedures_def SubTransactionBody_setProposalProcedures_def SubTransactionBody_setCurrentTreasuryValue_def SubTransactionBody_setDonation_def SubTransactionBody_setRequiredTopLevelGuards_def SubTransactionBody_setDirectDeposits_def SubTransactionBody_setAccountBalanceIntervals_def

subsection \<open>Writing and reading\<close>

definition SubTransactionBody_getMapSize :: "SubTransactionBody \<Rightarrow> nat" where
  "SubTransactionBody_getMapSize b = 2 + sum_list
     [present (stb_ttl b),
      present (nonempty_set (stb_certs b)),
      present (nonempty (stb_withdrawals b)),
      present (stb_auxiliaryDataHash b),
      present (stb_validityStartInterval b),
      present (nonempty (stb_mint b)),
      present (stb_scriptDataHash b),
      present (nonempty_guards (stb_guards b)),
      present (stb_networkId b),
      present (nonempty_set (stb_referenceInputs b)),
      present (stb_votingProcedures b),
      present (nonempty_set (stb_proposalProcedures b)),
      present (stb_currentTreasuryValue b),
      present (stb_donation b),
      present (nonempty (stb_requiredTopLevelGuards b)),
      present (nonempty (stb_directDeposits b)),
      present (nonempty (stb_accountBalanceIntervals b))]"

definition SubTransactionBody_fields :: "tx_lib \<Rightarrow> bool \<Rightarrow> SubTransactionBody \<Rightarrow> writer_op list" where
  "SubTransactionBody_fields L conway b =
     [writeField 0 (writeObject (CborSet_toCbor conway TransactionInput_toCbor (stb_inputs b))),
      writeField 1 (writeArrayOf (TransactionOutput_toCbor (crc32 (tl_codecs L))) (stb_outputs b))] @
     writes (\<lambda>a. writeField 3 (writeInt a)) (stb_ttl b) @
     writes (\<lambda>a. writeField 4 ((\<lambda>a. writeObject (CborSet_toCbor conway (writeCertificate L conway) a)) a)) (nonempty_set (stb_certs b)) @
     writes (\<lambda>a. writeField 5 ((writeAccounts (tl_codecs L)) a)) (nonempty (stb_withdrawals b)) @
     writes (\<lambda>a. writeField 7 (writeByteString a)) (stb_auxiliaryDataHash b) @
     writes (\<lambda>a. writeField 8 (writeInt a)) (stb_validityStartInterval b) @
     writes (\<lambda>a. writeField 9 (writeMint a)) (nonempty (stb_mint b)) @
     writes (\<lambda>a. writeField 11 (writeByteString a)) (stb_scriptDataHash b) @
     writes (\<lambda>a. writeField 14 ((\<lambda>a. writeObject (Guards_toCbor conway a)) a)) (nonempty_guards (stb_guards b)) @
     writes (\<lambda>a. writeField 15 (writeInt a)) (stb_networkId b) @
     writes (\<lambda>a. writeField 18 ((\<lambda>a. writeObject (CborSet_toCbor conway TransactionInput_toCbor a)) a)) (nonempty_set (stb_referenceInputs b)) @
     writes (\<lambda>a. writeField 19 ((\<lambda>a. writeObject (VotingProcedures_toCbor a)) a)) (stb_votingProcedures b) @
     writes (\<lambda>a. writeField 20 ((\<lambda>a. writeObject (CborSet_toCbor conway (ProposalProcedure_toCbor (tl_codecs L) conway) a)) a)) (nonempty_set (stb_proposalProcedures b)) @
     writes (\<lambda>a. writeField 21 (writeInt a)) (stb_currentTreasuryValue b) @
     writes (\<lambda>a. writeField 22 (writeInt a)) (stb_donation b) @
     writes (\<lambda>a. writeField 24 ((writeCredentialMap (writeNullable PlutusData_toCbor)) a)) (nonempty (stb_requiredTopLevelGuards b)) @
     writes (\<lambda>a. writeField 25 ((writeAccounts (tl_codecs L)) a)) (nonempty (stb_directDeposits b)) @
     writes (\<lambda>a. writeField 26 ((writeCredentialMap (\<lambda>a. writeObject (AccountBalanceInterval_toCbor a))) a)) (nonempty (stb_accountBalanceIntervals b))"

definition SubTransactionBody_toCbor :: "tx_lib \<Rightarrow> bool \<Rightarrow> SubTransactionBody \<Rightarrow> bytes result" where
  "SubTransactionBody_toCbor L conway b = cached (stb_originalBytes b)
     (write_all (writeStartMap (Some (SubTransactionBody_getMapSize b)) # SubTransactionBody_fields L conway b))"

text \<open>While the map is read the state is the body with the flags \<open>hasInputs\<close> and \<open>hasOutputs\<close>.\<close>

type_synonym sub_state = "SubTransactionBody \<times> bool \<times> bool"

definition on_body :: "('a \<Rightarrow> SubTransactionBody \<Rightarrow> SubTransactionBody) \<Rightarrow> 'a \<Rightarrow> sub_state \<Rightarrow> sub_state" where
  "on_body upd x s = (case s of (b, hasInputs, hasOutputs) \<Rightarrow> (upd x b, hasInputs, hasOutputs))"

definition inputs_read :: "TransactionInput CborSet \<Rightarrow> sub_state \<Rightarrow> sub_state" where
  "inputs_read x s = (case s of (b, hasInputs, hasOutputs) \<Rightarrow> (SubTransactionBody_setInputs x b, True, hasOutputs))"

definition outputs_read :: "TransactionOutput list \<Rightarrow> sub_state \<Rightarrow> sub_state" where
  "outputs_read xs s = (case s of (b, hasInputs, hasOutputs) \<Rightarrow> (b\<lparr>stb_outputs := stb_outputs b @ xs\<rparr>, hasInputs, True))"

definition mint_read :: "sub_state \<Rightarrow> CborReader \<Rightarrow> (sub_state \<times> CborReader) result" where
  "mint_read s r = (case s of (b, hasInputs, hasOutputs) \<Rightarrow>
     ebind (readMint r) (\<lambda>(minted, r).
     ebind (SubTransactionBody_setMint minted b) (\<lambda>b. Inr ((b, hasInputs, hasOutputs), r))))"

definition readSubField :: "tx_lib \<Rightarrow> bool \<Rightarrow> bool \<Rightarrow> int \<Rightarrow> sub_state \<Rightarrow> CborReader \<Rightarrow> (sub_state \<times> CborReader) result" where
  "readSubField L conway strict key =
     (if key = 0 then readField (readObject (CborSet_fromCbor TransactionInput_fromCbor)) inputs_read
      else if key = 1 then readField (readArrayOf (TransactionOutput_fromCbor (crc32 (tl_codecs L)) strict)) outputs_read
      else if key = 3 then readField readNumber (on_body SubTransactionBody_setTtl)
      else if key = 4 then readField (readObject (CborSet_fromCbor (readCertificate L conway))) (on_body SubTransactionBody_setCerts)
      else if key = 5 then readField (readMapWith (readWithdrawal (tl_codecs L)) []) (on_body SubTransactionBody_setWithdrawals)
      else if key = 7 then readField readByteString (on_body SubTransactionBody_setAuxiliaryDataHash)
      else if key = 8 then readField readNumber (on_body SubTransactionBody_setValidityStartInterval)
      else if key = 9 then mint_read
      else if key = 11 then readField readByteString (on_body SubTransactionBody_setScriptDataHash)
      else if key = 14 then readField (readObject Guards_fromCbor) (on_body SubTransactionBody_setGuards)
      else if key = 15 then readField readNumber (on_body SubTransactionBody_setNetworkId)
      else if key = 18 then readField (readObject (CborSet_fromCbor TransactionInput_fromCbor)) (on_body SubTransactionBody_setReferenceInputs)
      else if key = 19 then readField (readObject VotingProcedures_fromCbor) (on_body SubTransactionBody_setVotingProcedures)
      else if key = 20 then readField (readObject (CborSet_fromCbor (ProposalProcedure_fromCbor (tl_codecs L)))) (on_body SubTransactionBody_setProposalProcedures)
      else if key = 21 then readField readInt (on_body SubTransactionBody_setCurrentTreasuryValue)
      else if key = 22 then readField readInt (on_body SubTransactionBody_setDonation)
      else if key = 24 then readField (readCredentialMap (readNullable PlutusData_fromCbor)) (on_body SubTransactionBody_setRequiredTopLevelGuards)
      else if key = 25 then readField (readDeposits (tl_codecs L)) (on_body SubTransactionBody_setDirectDeposits)
      else if key = 26 then readField (readCredentialMap (readObject AccountBalanceInterval_fromCbor)) (on_body SubTransactionBody_setAccountBalanceIntervals)
      else (\<lambda>s r. Inl SerializationError))"

definition SubTransactionBody_fromCbor :: "tx_lib \<Rightarrow> bool \<Rightarrow> bool \<Rightarrow> bytes \<Rightarrow> SubTransactionBody result" where
  "SubTransactionBody_fromCbor L conway strict cbor =
     ebind (readMapWith (readKeyed (readSubField L conway strict))
       (SubTransactionBody_new \<lparr>cs_values = [], cs_originalBytes = None\<rparr> [], False, False) (new_reader cbor))
       (\<lambda>((b, hasInputs, hasOutputs), r).
     ebind (throw_if (\<not> hasInputs) SerializationError) (\<lambda>_.
     ebind (throw_if (\<not> hasOutputs) SerializationError) (\<lambda>_.
       Inr (b\<lparr>stb_originalBytes := Some cbor\<rparr>))))"

subsection \<open>Content\<close>

definition sub_values :: "SubTransactionBody \<Rightarrow> (int \<times> unit body_value option) list" where
  "sub_values b =
     [(3, map_option AmountOf (stb_ttl b)),
      (4, map_option (\<lambda>s. CertsOf (set_content certificate_content s)) (nonempty_set (stb_certs b))),
      (5, map_option (\<lambda>m. AccountsOf (map_content (\<lambda>c. c) m)) (nonempty (stb_withdrawals b))),
      (7, map_option HashOf (stb_auxiliaryDataHash b)),
      (8, map_option AmountOf (stb_validityStartInterval b)),
      (9, map_option (\<lambda>m. MintOf (map_of m)) (nonempty (stb_mint b))),
      (11, map_option HashOf (stb_scriptDataHash b)),
      (14, map_option (\<lambda>a. GuardsOf (guards_content a)) (nonempty_guards (stb_guards b))),
      (15, map_option AmountOf (stb_networkId b)),
      (18, map_option (\<lambda>s. InputsOf (set_content input_view s)) (nonempty_set (stb_referenceInputs b))),
      (19, map_option (\<lambda>a. VotesOf (votes_content a)) (stb_votingProcedures b)),
      (20, map_option (\<lambda>s. ProposalsOf (set_content proposal_content s)) (nonempty_set (stb_proposalProcedures b))),
      (21, map_option AmountOf (stb_currentTreasuryValue b)),
      (22, map_option AmountOf (stb_donation b)),
      (24, map_option (\<lambda>m. DatumsOf (map_content (map_option PlutusData_strip) m)) (nonempty (stb_requiredTopLevelGuards b))),
      (25, map_option (\<lambda>m. AccountsOf (map_content (\<lambda>c. c) m)) (nonempty (stb_directDeposits b))),
      (26, map_option (\<lambda>m. IntervalsOf (map_content AccountBalanceInterval_toCore m)) (nonempty (stb_accountBalanceIntervals b)))]"

definition sub_rows :: "tx_lib \<Rightarrow> bool \<Rightarrow> SubTransactionBody \<Rightarrow> unit body_value row list" where
  "sub_rows L conway b =
     [field_row 3 writeInt AmountOf (stb_ttl b),
      field_row 4 (\<lambda>a. writeObject (CborSet_toCbor conway (writeCertificate L conway) a)) (\<lambda>s. CertsOf (set_content certificate_content s)) (nonempty_set (stb_certs b)),
      field_row 5 (writeAccounts (tl_codecs L)) (\<lambda>m. AccountsOf (map_content (\<lambda>c. c) m)) (nonempty (stb_withdrawals b)),
      field_row 7 writeByteString HashOf (stb_auxiliaryDataHash b),
      field_row 8 writeInt AmountOf (stb_validityStartInterval b),
      field_row 9 writeMint (\<lambda>m. MintOf (map_of m)) (nonempty (stb_mint b)),
      field_row 11 writeByteString HashOf (stb_scriptDataHash b),
      field_row 14 (\<lambda>a. writeObject (Guards_toCbor conway a)) (\<lambda>a. GuardsOf (guards_content a)) (nonempty_guards (stb_guards b)),
      field_row 15 writeInt AmountOf (stb_networkId b),
      field_row 18 (\<lambda>a. writeObject (CborSet_toCbor conway TransactionInput_toCbor a)) (\<lambda>s. InputsOf (set_content input_view s)) (nonempty_set (stb_referenceInputs b)),
      field_row 19 (\<lambda>a. writeObject (VotingProcedures_toCbor a)) (\<lambda>a. VotesOf (votes_content a)) (stb_votingProcedures b),
      field_row 20 (\<lambda>a. writeObject (CborSet_toCbor conway (ProposalProcedure_toCbor (tl_codecs L) conway) a)) (\<lambda>s. ProposalsOf (set_content proposal_content s)) (nonempty_set (stb_proposalProcedures b)),
      field_row 21 writeInt AmountOf (stb_currentTreasuryValue b),
      field_row 22 writeInt AmountOf (stb_donation b),
      field_row 24 (writeCredentialMap (writeNullable PlutusData_toCbor)) (\<lambda>m. DatumsOf (map_content (map_option PlutusData_strip) m)) (nonempty (stb_requiredTopLevelGuards b)),
      field_row 25 (writeAccounts (tl_codecs L)) (\<lambda>m. AccountsOf (map_content (\<lambda>c. c) m)) (nonempty (stb_directDeposits b)),
      field_row 26 (writeCredentialMap (\<lambda>a. writeObject (AccountBalanceInterval_toCbor a))) (\<lambda>m. IntervalsOf (map_content AccountBalanceInterval_toCore m)) (nonempty (stb_accountBalanceIntervals b))]"

text \<open>The entry at \<open>-1\<close> stands for the flag \<open>hasOutputs\<close>, and inputs count once they were read.\<close>

definition sub_heads :: "SubTransactionBody \<Rightarrow> bool \<Rightarrow> bool \<Rightarrow> (int \<times> unit body_value option) list" where
  "sub_heads b hasInputs hasOutputs =
     [(- 1, if hasOutputs then Some Seen else None),
      (0, if hasInputs then Some (InputsOf (set_content input_view (stb_inputs b))) else None),
      (1, map_option (\<lambda>outs. OutputsOf (map output_content outs)) (nonempty (Some (stb_outputs b))))]"

definition sub_state_content :: "sub_state \<Rightarrow> int \<rightharpoonup> unit body_value" where
  "sub_state_content s = (case s of (b, hasInputs, hasOutputs) \<Rightarrow> table_content (sub_heads b hasInputs hasOutputs @ sub_values b))"

definition sub_body_content :: "SubTransactionBody \<Rightarrow> int \<rightharpoonup> unit body_value" where
  "sub_body_content b = sub_state_content (b, True, True)"

definition SubTransactionBody_valid :: "tx_lib \<Rightarrow> bool \<Rightarrow> SubTransactionBody \<Rightarrow> bool" where
  "SubTransactionBody_valid L conway b \<longleftrightarrow> stb_originalBytes b = None \<and> set_valid TransactionInput_valid (stb_inputs b) \<and>
     (\<forall>out \<in> set (stb_outputs b). TransactionOutput_valid (crc32 (tl_codecs L)) out) \<and> length (stb_outputs b) < 9007199254740992 \<and>
     pred_option (\<lambda>i. safe_int i) (stb_ttl b) \<and>
     pred_option (set_valid (certificate_valid L conway)) (stb_certs b) \<and>
     pred_option (withdrawals_valid (tl_codecs L)) (stb_withdrawals b) \<and>
     pred_option (\<lambda>h. small_bytes h) (stb_auxiliaryDataHash b) \<and>
     pred_option (\<lambda>i. safe_int i) (stb_validityStartInterval b) \<and>
     pred_option mint_valid (stb_mint b) \<and>
     pred_option (\<lambda>h. small_bytes h) (stb_scriptDataHash b) \<and>
     pred_option Guards_valid (stb_guards b) \<and>
     pred_option (\<lambda>i. safe_int i) (stb_networkId b) \<and>
     pred_option (set_valid TransactionInput_valid) (stb_referenceInputs b) \<and>
     pred_option VotingProcedures_valid (stb_votingProcedures b) \<and>
     pred_option (set_valid (ProposalProcedure_valid (tl_codecs L))) (stb_proposalProcedures b) \<and>
     pred_option cbor_int (stb_currentTreasuryValue b) \<and>
     pred_option cbor_int (stb_donation b) \<and>
     pred_option (credential_map_valid (pred_option PlutusData_ok)) (stb_requiredTopLevelGuards b) \<and>
     pred_option (withdrawals_valid (tl_codecs L)) (stb_directDeposits b) \<and>
     pred_option (credential_map_valid AccountBalanceInterval_valid) (stb_accountBalanceIntervals b)"

lemma sub_row_values: "map row_field (sub_rows L conway b) = sub_values b"
  by (simp add: sub_rows_def sub_values_def)

lemma sub_keys: "map fst (sub_values b) = [3, 4, 5, 7, 8, 9, 11, 14, 15, 18, 19, 20, 21, 22, 24, 25, 26]" "length (sub_rows L conway b) = 17"
  by (simp_all add: sub_values_def sub_rows_def)

lemma sub_key_set: "fst ` set (sub_values b) = {3, 4, 5, 7, 8, 9, 11, 14, 15, 18, 19, 20, 21, 22, 24, 25, 26}"
  unfolding set_map [symmetric] sub_keys by simp

lemma sub_reads:
  "readSubField L conway strict 3 = readField readNumber (on_body SubTransactionBody_setTtl)"
  "readSubField L conway strict 4 = readField (readObject (CborSet_fromCbor (readCertificate L conway))) (on_body SubTransactionBody_setCerts)"
  "readSubField L conway strict 5 = readField (readMapWith (readWithdrawal (tl_codecs L)) []) (on_body SubTransactionBody_setWithdrawals)"
  "readSubField L conway strict 7 = readField readByteString (on_body SubTransactionBody_setAuxiliaryDataHash)"
  "readSubField L conway strict 8 = readField readNumber (on_body SubTransactionBody_setValidityStartInterval)"
  "readSubField L conway strict 9 = readField readCanonicalMint (on_body (\<lambda>x b. b\<lparr>stb_mint := Some x, stb_originalBytes := None\<rparr>))"
  "readSubField L conway strict 11 = readField readByteString (on_body SubTransactionBody_setScriptDataHash)"
  "readSubField L conway strict 14 = readField (readObject Guards_fromCbor) (on_body SubTransactionBody_setGuards)"
  "readSubField L conway strict 15 = readField readNumber (on_body SubTransactionBody_setNetworkId)"
  "readSubField L conway strict 18 = readField (readObject (CborSet_fromCbor TransactionInput_fromCbor)) (on_body SubTransactionBody_setReferenceInputs)"
  "readSubField L conway strict 19 = readField (readObject VotingProcedures_fromCbor) (on_body SubTransactionBody_setVotingProcedures)"
  "readSubField L conway strict 20 = readField (readObject (CborSet_fromCbor (ProposalProcedure_fromCbor (tl_codecs L)))) (on_body SubTransactionBody_setProposalProcedures)"
  "readSubField L conway strict 21 = readField readInt (on_body SubTransactionBody_setCurrentTreasuryValue)"
  "readSubField L conway strict 22 = readField readInt (on_body SubTransactionBody_setDonation)"
  "readSubField L conway strict 24 = readField (readCredentialMap (readNullable PlutusData_fromCbor)) (on_body SubTransactionBody_setRequiredTopLevelGuards)"
  "readSubField L conway strict 25 = readField (readDeposits (tl_codecs L)) (on_body SubTransactionBody_setDirectDeposits)"
  "readSubField L conway strict 26 = readField (readCredentialMap (readObject AccountBalanceInterval_fromCbor)) (on_body SubTransactionBody_setAccountBalanceIntervals)"
  by (simp_all add: readSubField_def mint_read_def readField_def [abs_def] on_body_def readCanonicalMint_def SubTransactionBody_setMint_def
      ebind_assoc case_prod_unfold fun_eq_iff split: prod.splits)

lemma sub_puts:
  "sub_state_content (on_body SubTransactionBody_setTtl y3 s) = put_field 3 (AmountOf y3) (sub_state_content s)"
  "cs_values y4 \<noteq> [] \<Longrightarrow> sub_state_content (on_body SubTransactionBody_setCerts y4 s) = put_field 4 (CertsOf (set_content certificate_content y4)) (sub_state_content s)"
  "y5 \<noteq> [] \<Longrightarrow> sub_state_content (on_body SubTransactionBody_setWithdrawals y5 s) = put_field 5 (AccountsOf (map_content (\<lambda>c. c) y5)) (sub_state_content s)"
  "sub_state_content (on_body SubTransactionBody_setAuxiliaryDataHash y7 s) = put_field 7 (HashOf y7) (sub_state_content s)"
  "sub_state_content (on_body SubTransactionBody_setValidityStartInterval y8 s) = put_field 8 (AmountOf y8) (sub_state_content s)"
  "y9 \<noteq> [] \<Longrightarrow> sub_state_content (on_body (\<lambda>x b. b\<lparr>stb_mint := Some x, stb_originalBytes := None\<rparr>) y9 s) = put_field 9 (MintOf (map_of y9)) (sub_state_content s)"
  "sub_state_content (on_body SubTransactionBody_setScriptDataHash y11 s) = put_field 11 (HashOf y11) (sub_state_content s)"
  "0 < Guards_size y14 \<Longrightarrow> sub_state_content (on_body SubTransactionBody_setGuards y14 s) = put_field 14 (GuardsOf (guards_content y14)) (sub_state_content s)"
  "sub_state_content (on_body SubTransactionBody_setNetworkId y15 s) = put_field 15 (AmountOf y15) (sub_state_content s)"
  "cs_values y18 \<noteq> [] \<Longrightarrow> sub_state_content (on_body SubTransactionBody_setReferenceInputs y18 s) = put_field 18 (InputsOf (set_content input_view y18)) (sub_state_content s)"
  "sub_state_content (on_body SubTransactionBody_setVotingProcedures y19 s) = put_field 19 (VotesOf (votes_content y19)) (sub_state_content s)"
  "cs_values y20 \<noteq> [] \<Longrightarrow> sub_state_content (on_body SubTransactionBody_setProposalProcedures y20 s) = put_field 20 (ProposalsOf (set_content proposal_content y20)) (sub_state_content s)"
  "sub_state_content (on_body SubTransactionBody_setCurrentTreasuryValue y21 s) = put_field 21 (AmountOf y21) (sub_state_content s)"
  "sub_state_content (on_body SubTransactionBody_setDonation y22 s) = put_field 22 (AmountOf y22) (sub_state_content s)"
  "y24 \<noteq> [] \<Longrightarrow> sub_state_content (on_body SubTransactionBody_setRequiredTopLevelGuards y24 s) = put_field 24 (DatumsOf (map_content (map_option PlutusData_strip) y24)) (sub_state_content s)"
  "y25 \<noteq> [] \<Longrightarrow> sub_state_content (on_body SubTransactionBody_setDirectDeposits y25 s) = put_field 25 (AccountsOf (map_content (\<lambda>c. c) y25)) (sub_state_content s)"
  "y26 \<noteq> [] \<Longrightarrow> sub_state_content (on_body SubTransactionBody_setAccountBalanceIntervals y26 s) = put_field 26 (IntervalsOf (map_content AccountBalanceInterval_toCore y26)) (sub_state_content s)"
  by (rule eq_put_field; cases s; simp add: sub_state_content_def sub_heads_def sub_values_def on_body_def stb_setters table_content_Cons
      nonempty_set_def nonempty_guards_def CborSet_size_def nonempty_def split: list.splits)+

lemma sub_rows_ok:
  assumes "SubTransactionBody_valid L conway b"
  shows "list_all (row_ok (readKeyed (readSubField L conway strict)) sub_state_content) (sub_rows L conway b)"
  using assms unfolding SubTransactionBody_valid_def sub_rows_def list.pred_inject
  by (elim conjE) (intro conjI TrueI
      number_row [where fld = "readSubField L conway strict" and k = 3, OF sub_reads(1)]
      cbor_codec.set_row [where fld = "readSubField L conway strict" and k = 4 and tag = CertsOf, OF certificate.cbor_codec_axioms sub_reads(2)]
      accounts_row [where fld = "readSubField L conway strict" and k = 5, OF sub_reads(3)]
      bytes_row [where fld = "readSubField L conway strict" and k = 7, OF sub_reads(4)]
      number_row [where fld = "readSubField L conway strict" and k = 8, OF sub_reads(5)]
      mint_row [where fld = "readSubField L conway strict" and k = 9, OF sub_reads(6)]
      bytes_row [where fld = "readSubField L conway strict" and k = 11, OF sub_reads(7)]
      guards_row [where fld = "readSubField L conway strict" and k = 14, OF sub_reads(8)]
      number_row [where fld = "readSubField L conway strict" and k = 15, OF sub_reads(9)]
      cbor_codec.set_row [where fld = "readSubField L conway strict" and k = 18 and tag = InputsOf, OF tx_input.cbor_codec_axioms sub_reads(10)]
      cbor_codec.object_row [where fld = "readSubField L conway strict" and k = 19 and tag = VotesOf, OF voting_procedures.cbor_codec_axioms sub_reads(11)]
      cbor_codec.set_row [where fld = "readSubField L conway strict" and k = 20 and tag = ProposalsOf, OF proposal.cbor_codec_axioms sub_reads(12)]
      int_row [where fld = "readSubField L conway strict" and k = 21, OF sub_reads(13)]
      int_row [where fld = "readSubField L conway strict" and k = 22, OF sub_reads(14)]
      credentials_row [where fld = "readSubField L conway strict" and k = 24 and tag = DatumsOf and valid = "pred_option PlutusData_ok", OF sub_reads(15)]
      deposits_row [where fld = "readSubField L conway strict" and k = 25, OF sub_reads(16)]
      credentials_row [where fld = "readSubField L conway strict" and k = 26 and tag = IntervalsOf and valid = AccountBalanceInterval_valid, OF sub_reads(17)];
      (assumption | erule sub_puts | rule sub_puts | rule field_datum, assumption | rule balance_interval.field_of_object, assumption | simp add: cbor_int_def))

lemma sub_inputs_row:
  assumes "set_valid TransactionInput_valid x"
  shows "row_ok (readKeyed (readSubField L conway strict)) sub_state_content
    (field_row 0 (\<lambda>s. writeObject (CborSet_toCbor conway TransactionInput_toCbor s)) (\<lambda>s. InputsOf (set_content input_view s)) (Some x))"
proof (rule field_row_ok [where fld = "readSubField L conway strict"])
  show "readSubField L conway strict 0 = readField (readObject (CborSet_fromCbor TransactionInput_fromCbor)) inputs_read"
    by (simp add: readSubField_def)
  fix a assume "Some x = Some a"
  with cbor_codec.field_of_object [OF cbor_codec.set_codec [OF tx_input.cbor_codec_axioms], of a conway] assms
  show "\<exists>b y. field_ok (writeObject (CborSet_toCbor conway TransactionInput_toCbor a)) b (readObject (CborSet_fromCbor TransactionInput_fromCbor)) y \<and>
      InputsOf (set_content input_view y) = InputsOf (set_content input_view a)" by auto
next
  fix y s
  show "sub_state_content (inputs_read y s) = put_field 0 (InputsOf (set_content input_view y)) (sub_state_content s)"
    by (rule eq_put_field; cases s; simp add: sub_state_content_def sub_heads_def sub_values_def inputs_read_def stb_setters table_content_Cons)
qed (simp add: cbor_int_def)

lemma sub_outputs_put:
  "sub_state_content (outputs_read ys s) = (\<lambda>c. (appended (map output_content ys) c)(- 1 \<mapsto> Seen)) (sub_state_content s)"
proof -
  obtain b i h where s: "s = (b, i, h)" by (cases s)
  have one: "sub_state_content (b, j, l) 1 = map_option (\<lambda>outs. OutputsOf (map output_content outs)) (nonempty (Some (stb_outputs b)))" for b j l
    by (simp add: sub_state_content_def sub_heads_def table_content_Cons)
  have other: "sub_state_content (outputs_read ys s) x = sub_state_content s x" if "x \<noteq> 1" "x \<noteq> - 1" for x
    using that by (simp add: s sub_state_content_def sub_heads_def sub_values_def outputs_read_def table_content_Cons)
  have seen: "sub_state_content (outputs_read ys s) (- 1) = Some Seen"
    by (simp add: s sub_state_content_def sub_heads_def outputs_read_def table_content_Cons)
  have first: "sub_state_content (outputs_read ys s) 1 = appended (map output_content ys) (sub_state_content s) 1"
    by (cases ys; cases "stb_outputs b") (simp_all add: one s outputs_read_def appended_def)
  have "sub_state_content (outputs_read ys s) x = ((appended (map output_content ys) (sub_state_content s))(- 1 \<mapsto> Seen)) x" for x
    using other [of x] seen first by (cases "x = 1 \<or> x = - 1") (auto simp: appended_def)
  then show ?thesis by (simp add: fun_eq_iff)
qed

lemma sub_start: "sub_state_content (SubTransactionBody_new \<lparr>cs_values = [], cs_originalBytes = None\<rparr> [], False, False) = Map.empty"
  by (simp add: sub_state_content_def sub_heads_def sub_values_def SubTransactionBody_new_def table_content_Cons nonempty_set_def
      nonempty_guards_def fun_eq_iff)

lemma sub_fields_rows:
  "SubTransactionBody_fields L conway b =
     row_ops (field_row 0 (\<lambda>s. writeObject (CborSet_toCbor conway TransactionInput_toCbor s)) (\<lambda>s. InputsOf (set_content input_view s)) (Some (stb_inputs b)) ::
       unit body_value row) @
     [writeField 1 (writeArrayOf (TransactionOutput_toCbor (crc32 (tl_codecs L))) (stb_outputs b))] @ concat (map row_ops (sub_rows L conway b))"
  by (simp add: SubTransactionBody_fields_def sub_rows_def writes_def)

lemma sub_size_rows: "SubTransactionBody_getMapSize b = 1 + (1 + sum_list (map row_size (sub_rows L conway b)))"
  by (simp only: SubTransactionBody_getMapSize_def sub_rows_def list.map field_row_simps)

lemma sub_body_encodes:
  assumes "SubTransactionBody_valid L conway b"
  shows "\<exists>cbor y. SubTransactionBody_toCbor L conway b = Inr cbor \<and> cbor_item cbor \<and> SubTransactionBody_fromCbor L conway strict cbor = Inr y \<and>
    sub_body_content y = sub_body_content b \<and> stb_originalBytes y = Some cbor \<and> cbor \<noteq> []"
proof -
  let ?s0 = "(SubTransactionBody_new \<lparr>cs_values = [], cs_originalBytes = None\<rparr> [], False, False)"
  let ?step = "readKeyed (readSubField L conway strict)"
  let ?row0 = "field_row 0 (\<lambda>s. writeObject (CborSet_toCbor conway TransactionInput_toCbor s)) (\<lambda>s. InputsOf (set_content input_view s)) (Some (stb_inputs b)) :: unit body_value row"
  let ?outs = "map output_content (stb_outputs b)"
  define c where "c = (\<lambda>c. (appended ?outs c)(- 1 \<mapsto> Seen)) (set_opt (put_field 0) (Some (InputsOf (set_content input_view (stb_inputs b)))) (sub_state_content ?s0))"
  have v: "set_valid TransactionInput_valid (stb_inputs b)" "\<forall>out \<in> set (stb_outputs b). TransactionOutput_valid (crc32 (tl_codecs L)) out"
    "length (stb_outputs b) < 9007199254740992" "stb_originalBytes b = None"
    using assms unfolding SubTransactionBody_valid_def by blast+
  have outs: "fields_to ?step sub_state_content [writeField 1 (writeArrayOf (TransactionOutput_toCbor (crc32 (tl_codecs L))) (stb_outputs b))] 1
      (\<lambda>c. (appended ?outs c)(- 1 \<mapsto> Seen))"
    by (rule outputs_field [where g = "\<lambda>os c. (appended os c)(- 1 \<mapsto> Seen)", OF _ v(2,3) sub_outputs_put]) (simp add: readSubField_def)
  have rows: "\<forall>row \<in> set (sub_rows L conway b). row_ok ?step sub_state_content row"
    using sub_rows_ok [OF assms] by (simp add: list_all_iff)
  have heads: "c = table_content (sub_heads b True True)"
    unfolding c_def sub_start by (cases "stb_outputs b") (auto simp: set_opt_def put_field_def appended_def sub_heads_def table_content_Cons fun_eq_iff)
  have none: "c k = None" if "k \<in> fst ` set (sub_values b)" for k
    using that unfolding sub_key_set heads by (auto simp: sub_heads_def table_content_Cons)
  have "\<exists>cbor s'. write_all (writeStartMap (Some (row_size ?row0 + (1 + sum_list (map row_size (sub_rows L conway b))))) #
      (row_ops ?row0 @ [writeField 1 (writeArrayOf (TransactionOutput_toCbor (crc32 (tl_codecs L))) (stb_outputs b))] @
        concat (map row_ops (sub_rows L conway b)))) = Inr cbor \<and> cbor_item cbor \<and> cbor \<noteq> [] \<and>
    (\<exists>r. readMapWith ?step ?s0 (new_reader cbor) = Inr (s', r)) \<and>
    sub_state_content s' = (\<lambda>k. if k \<in> fst ` set (map row_field (sub_rows L conway b))
      then table_content (map row_field (sub_rows L conway b)) k else c k)"
  proof (rule body_class [OF sub_inputs_row [OF v(1)] outs _ rows])
    show "c k = None" if "(k, None) \<in> set (map row_field (sub_rows L conway b))" for k
      using that none [of k] unfolding sub_row_values by (force simp: image_iff)
  qed (simp_all add: sub_keys sub_row_values c_def fun_upd_def)
  then obtain cbor s' r where w: "write_all (writeStartMap (Some (SubTransactionBody_getMapSize b)) # SubTransactionBody_fields L conway b) = Inr cbor"
    "cbor_item cbor" "cbor \<noteq> []" "readMapWith ?step ?s0 (new_reader cbor) = Inr (s', r)"
    "sub_state_content s' = (\<lambda>k. if k \<in> fst ` set (sub_values b) then table_content (sub_values b) k else c k)"
    unfolding sub_fields_rows sub_size_rows [of b L conway] sub_row_values by auto
  have "sub_body_content b = table_content (sub_heads b True True @ sub_values b)"
    by (simp add: sub_body_content_def sub_state_content_def)
  also have "\<dots> = sub_state_content s'"
    unfolding w(5) heads by (rule table_content_append) (simp add: sub_key_set sub_heads_def)
  finally have "sub_state_content s' = sub_body_content b" ..
  moreover obtain y i h where s': "s' = (y, i, h)" by (cases s')
  ultimately have con: "sub_state_content (y, i, h) = sub_state_content (b, True, True)" by (simp add: sub_body_content_def)
  have "i" "h" using fun_cong [OF con, of 0] fun_cong [OF con, of "- 1"]
    by (auto simp: sub_state_content_def sub_heads_def table_content_Cons split: if_splits)
  moreover have "sub_body_content (y\<lparr>stb_originalBytes := Some cbor\<rparr>) = sub_state_content (y, True, True)"
    by (simp add: sub_body_content_def sub_state_content_def sub_heads_def sub_values_def)
  ultimately show ?thesis using w(1-4) v(4) con s'
    by (simp add: SubTransactionBody_toCbor_def SubTransactionBody_fromCbor_def sub_body_content_def)
qed

interpretation sub_body: caching_codec "SubTransactionBody_toCbor L conway" "SubTransactionBody_fromCbor L conway strict"
  "SubTransactionBody_valid L conway" sub_body_content for L conway strict
proof (unfold_locales, goal_cases)
  case (1 b)
  from sub_body_encodes [OF this, of strict] show ?case by blast
next
  case (2 b y)
  then show ?case by (cases "b = []") (auto simp: SubTransactionBody_toCbor_def SubTransactionBody_fromCbor_def elim!: ebind_InrE)
qed

end
