(* ===== verification/Sub_Transaction.thy ===== *)
theory Sub_Transaction
  imports Sub_Body Auxiliary_Data
begin

text \<open>
  Sub transactions (\<open>core/src/Serialization/SubTransaction.ts\<close>): a body, a witness set and auxiliary
  data. Writing one drops repeated signatures from its witness set, so \<open>toCbor\<close> returns the bytes and
  the changed object.
\<close>

record SubTransaction =
  st_body :: SubTransactionBody
  st_witnessSet :: TransactionWitnessSet
  st_auxiliaryData :: "AuxiliaryData option"
  st_originalBytes :: "bytes option"

definition SubTransaction_new :: "SubTransactionBody \<Rightarrow> TransactionWitnessSet \<Rightarrow> AuxiliaryData option \<Rightarrow> SubTransaction" where
  "SubTransaction_new body witnessSet auxiliaryData =
     \<lparr>st_body = body, st_witnessSet = witnessSet, st_auxiliaryData = auxiliaryData, st_originalBytes = None\<rparr>"

definition SubTransaction_toCbor :: "tx_lib \<Rightarrow> bool \<Rightarrow> SubTransaction \<Rightarrow> (bytes \<times> SubTransaction) result" where
  "SubTransaction_toCbor L conway s = (case st_originalBytes s of
       Some (b # bs) \<Rightarrow> Inr (b # bs, s)
     | _ \<Rightarrow>
       ebind (SubTransactionBody_toCbor L conway (st_body s)) (\<lambda>body.
       ebind (TransactionWitnessSet_toCbor (tl_uniq L) conway (st_witnessSet s)) (\<lambda>(witnessSet, w).
       ebind (write_all [writeStartArray (Some 3), writeEncodedValue body, writeEncodedValue witnessSet,
           writeNullable AuxiliaryData_toCbor (st_auxiliaryData s)]) (\<lambda>cbor.
         Inr (cbor, s\<lparr>st_witnessSet := w\<rparr>)))))"

definition SubTransaction_fromCbor :: "tx_lib \<Rightarrow> bool \<Rightarrow> bool \<Rightarrow> bytes \<Rightarrow> SubTransaction result" where
  "SubTransaction_fromCbor L conway strict cbor =
     ebind (readStartArray (new_reader cbor)) (\<lambda>(length, r).
     ebind (throw_if (length \<noteq> None \<and> length \<noteq> Some 3) SerializationError) (\<lambda>_.
     ebind (readObject (SubTransactionBody_fromCbor L conway strict) r) (\<lambda>(body, r).
     ebind (readObject (TransactionWitnessSet_fromCbor strict) r) (\<lambda>(witnessSet, r).
     ebind (readNullable AuxiliaryData_fromCbor r) (\<lambda>(auxData, r).
     ebind (readEndArray r) (\<lambda>r.
       Inr ((SubTransaction_new body witnessSet auxData)\<lparr>st_originalBytes := Some cbor\<rparr>)))))))"

text \<open>The accessors return copies, made by writing and reading.\<close>

definition SubTransaction_body :: "tx_lib \<Rightarrow> bool \<Rightarrow> SubTransaction \<Rightarrow> SubTransactionBody result" where
  "SubTransaction_body L conway s =
     ebind (SubTransactionBody_toCbor L conway (st_body s)) (\<lambda>cbor. SubTransactionBody_fromCbor L conway False cbor)"

definition SubTransaction_witnessSet :: "tx_lib \<Rightarrow> bool \<Rightarrow> SubTransaction \<Rightarrow> (TransactionWitnessSet \<times> SubTransaction) result" where
  "SubTransaction_witnessSet L conway s =
     ebind (TransactionWitnessSet_toCbor (tl_uniq L) conway (st_witnessSet s)) (\<lambda>(cbor, w).
     ebind (TransactionWitnessSet_fromCbor False cbor) (\<lambda>copy. Inr (copy, s\<lparr>st_witnessSet := w\<rparr>)))"

definition SubTransaction_auxiliaryData :: "SubTransaction \<Rightarrow> AuxiliaryData option result" where
  "SubTransaction_auxiliaryData s =
     optional (\<lambda>a. ebind (AuxiliaryData_toCbor a) AuxiliaryData_fromCbor) (st_auxiliaryData s)"

definition SubTransaction_setBody :: "SubTransactionBody \<Rightarrow> SubTransaction \<Rightarrow> SubTransaction" where
  "SubTransaction_setBody body s = s\<lparr>st_body := body, st_originalBytes := None\<rparr>"

definition SubTransaction_setWitnessSet :: "TransactionWitnessSet \<Rightarrow> SubTransaction \<Rightarrow> SubTransaction" where
  "SubTransaction_setWitnessSet witnessSet s = s\<lparr>st_witnessSet := witnessSet, st_originalBytes := None\<rparr>"

definition SubTransaction_setAuxiliaryData :: "AuxiliaryData option \<Rightarrow> SubTransaction \<Rightarrow> SubTransaction" where
  "SubTransaction_setAuxiliaryData auxiliaryData s = s\<lparr>st_auxiliaryData := auxiliaryData, st_originalBytes := None\<rparr>"

definition SubTransaction_getId :: "tx_lib \<Rightarrow> bool \<Rightarrow> SubTransaction \<Rightarrow> bytes result" where
  "SubTransaction_getId L conway s =
     ebind (SubTransactionBody_toCbor L conway (st_body s)) (\<lambda>cbor. Inr (tl_blake2b L cbor 32))"

definition SubTransaction_clone :: "tx_lib \<Rightarrow> bool \<Rightarrow> SubTransaction \<Rightarrow> SubTransaction result" where
  "SubTransaction_clone L conway s =
     ebind (SubTransaction_toCbor L conway s) (\<lambda>(cbor, _). SubTransaction_fromCbor L conway False cbor)"

subsection \<open>Auxiliary data or \<open>null\<close>\<close>

lemma null_is_simple: "state_of_initial_byte b = NullState \<Longrightarrow> getMajorType b = Simple"
  by (cases "getMajorType b") (auto simp: state_of_initial_byte_def split: if_splits)

lemma readStartArray_major:
  assumes "readStartArray (rd c [] b root_frame [] tag) = Inr x" and "b \<noteq> []"
  shows "getMajorType (hd b) = ArrayType"
proof (rule ccontr)
  assume "getMajorType (hd b) \<noteq> ArrayType"
  with assms show False by (cases b) (auto simp: readStartArray_def peekInitialByte_def rd_def root_frame_def at_definite_end_def Let_def)
qed

lemma aux_headed:
  assumes "AuxiliaryData_fromCbor b = Inr y" and "cbor_item b"
  shows "array_headed b"
proof -
  have ne: "b \<noteq> []" using cbor_item_hd(1) [OF assms(2)] by simp
  have "state_of_initial_byte (hd b) \<noteq> NullState"
  proof
    assume n: "state_of_initial_byte (hd b) = NullState"
    obtain x where "readStartArray (rd NullState [] b root_frame [] False) = Inr x"
      using assms(1) peekState_item [OF assms(2), of "[]"] n by (auto simp: AuxiliaryData_fromCbor_def elim!: ebind_InrE)
    from readStartArray_major [OF this ne] null_is_simple [OF n] show False by simp
  qed
  with ne show ?thesis by (simp add: array_headed_def)
qed

lemma field_auxiliary:
  assumes "pred_option AuxiliaryData_valid x"
  shows "\<exists>b y. field_ok (writeNullable AuxiliaryData_toCbor x) b (readNullable AuxiliaryData_fromCbor) y \<and>
    map_option aux_content y = map_option aux_content x"
proof (rule field_nullable)
  fix a assume "x = Some a"
  with assms have "AuxiliaryData_valid a" by simp
  from auxiliary_data.encodes [OF this] obtain b y where "AuxiliaryData_toCbor a = Inr b" "cbor_item b" "AuxiliaryData_fromCbor b = Inr y"
    "aux_content y = aux_content a" by blast
  then show "\<exists>b y. AuxiliaryData_toCbor a = Inr b \<and> cbor_item b \<and> array_headed b \<and> AuxiliaryData_fromCbor b = Inr y \<and>
      aux_content y = aux_content a" using aux_headed by blast
qed

subsection \<open>Sub transactions are read back\<close>

text \<open>The bytes of the body, which its id is the hash of, are part of the content.\<close>

type_synonym sub_view = "(int \<rightharpoonup> unit body_value) \<times> bytes result \<times> WitnessContent \<times> AuxContent option"

definition sub_content :: "tx_lib \<Rightarrow> bool \<Rightarrow> SubTransaction \<Rightarrow> sub_view" where
  "sub_content L conway s = (sub_body_content (st_body s), SubTransactionBody_toCbor L conway (st_body s),
     unique_content (witness_content (st_witnessSet s)), map_option aux_content (st_auxiliaryData s))"

definition SubTransaction_valid :: "tx_lib \<Rightarrow> bool \<Rightarrow> SubTransaction \<Rightarrow> bool" where
  "SubTransaction_valid L conway s \<longleftrightarrow> uniq_ok (tl_uniq L) \<and> SubTransactionBody_valid L conway (st_body s) \<and>
     TransactionWitnessSet_valid (st_witnessSet s) \<and> pred_option AuxiliaryData_valid (st_auxiliaryData s) \<and> st_originalBytes s = None"

text \<open>The bytes alone.\<close>

definition SubTransaction_bytes :: "tx_lib \<Rightarrow> bool \<Rightarrow> SubTransaction \<Rightarrow> bytes result" where
  "SubTransaction_bytes L conway s = ebind (SubTransaction_toCbor L conway s) (\<lambda>(cbor, _). Inr cbor)"

lemma sub_transaction_encodes:
  assumes "SubTransaction_valid L conway s"
  obtains cbor y where "SubTransaction_toCbor L conway s = Inr (cbor, s\<lparr>st_witnessSet := TransactionWitnessSet_unique (tl_uniq L) (st_witnessSet s)\<rparr>)"
    and "cbor_item cbor" and "SubTransaction_fromCbor L conway strict cbor = Inr y" and "sub_content L conway y = sub_content L conway s"
    and "st_originalBytes y = Some cbor"
proof -
  have v: "uniq_ok (tl_uniq L)" "SubTransactionBody_valid L conway (st_body s)" "TransactionWitnessSet_valid (st_witnessSet s)"
    "pred_option AuxiliaryData_valid (st_auxiliaryData s)" "st_originalBytes s = None"
    using assms by (simp_all add: SubTransaction_valid_def)
  obtain b body where b: "SubTransactionBody_toCbor L conway (st_body s) = Inr b" "cbor_item b"
    "SubTransactionBody_fromCbor L conway strict b = Inr body" "sub_body_content body = sub_body_content (st_body s)"
    using sub_body.encodes [OF v(2), of strict] by blast
  obtain w ws where w: "TransactionWitnessSet_toCbor (tl_uniq L) conway (st_witnessSet s) = Inr (w, TransactionWitnessSet_unique (tl_uniq L) (st_witnessSet s))"
    "cbor_item w" "TransactionWitnessSet_fromCbor strict w = Inr ws" "witness_content ws = unique_content (witness_content (st_witnessSet s))"
    by (rule witness_set_encodes [OF v(1,3)])
  obtain a aux where a: "field_ok (writeNullable AuxiliaryData_toCbor (st_auxiliaryData s)) a (readNullable AuxiliaryData_fromCbor) aux"
    "map_option aux_content aux = map_option aux_content (st_auxiliaryData s)" using field_auxiliary [OF v(4)] by blast
  note a' = field_okD [OF a(1)]
  let ?c = "enc_head ArrayType 3 @ b @ w @ a"
  have "SubTransaction_toCbor L conway s = Inr (?c, s\<lparr>st_witnessSet := TransactionWitnessSet_unique (tl_uniq L) (st_witnessSet s)\<rparr>)"
    using v(5) b(1) w(1) a'(1) by (simp add: SubTransaction_toCbor_def write_all_def encode_def writeEncodedValue_def)
  moreover have "cbor_item ?c" using b(2) w(2) a'(2) cbor_item_array [of "[b, w, a]"] by (auto simp: numeral_3_eq_3)
  moreover have "SubTransaction_fromCbor L conway strict ?c = Inr ((SubTransaction_new body ws aux)\<lparr>st_originalBytes := Some ?c\<rparr>)"
    using b(2,3) w(2,3) a'(3,4) by (simp add: SubTransaction_fromCbor_def readObject_rd rd_simps)
  moreover have "SubTransactionBody_toCbor L conway body = Inr b" by (rule sub_body.keeps_bytes [OF b(3)])
  ultimately show ?thesis using b(1,4) w(4) a(2)
    by (intro that [of ?c "(SubTransaction_new body ws aux)\<lparr>st_originalBytes := Some ?c\<rparr>"])
      (simp_all add: sub_content_def SubTransaction_new_def)
qed

interpretation sub_transaction: caching_codec "SubTransaction_bytes L conway" "SubTransaction_fromCbor L conway strict"
  "SubTransaction_valid L conway" "sub_content L conway" for L conway strict
proof (unfold_locales, goal_cases)
  case (1 s)
  then obtain cbor y where "SubTransaction_toCbor L conway s = Inr (cbor, s\<lparr>st_witnessSet := TransactionWitnessSet_unique (tl_uniq L) (st_witnessSet s)\<rparr>)"
    "cbor_item cbor" "SubTransaction_fromCbor L conway strict cbor = Inr y" "sub_content L conway y = sub_content L conway s"
    by (rule sub_transaction_encodes)
  then show ?case by (simp add: SubTransaction_bytes_def)
next
  case (2 b y)
  then have "b \<noteq> []" using readStartArray_empty by (auto simp: SubTransaction_fromCbor_def)
  with 2 show ?case
    by (cases b) (auto simp: SubTransaction_fromCbor_def SubTransaction_bytes_def SubTransaction_toCbor_def elim!: ebind_InrE)
qed

text \<open>Writing a sub transaction again, after the first time changed its witness set, gives the same bytes.\<close>

lemma sub_transaction_again:
  assumes "uniq_ok (tl_uniq L)" and "SubTransaction_toCbor L conway s = Inr (cbor, t)"
  shows "SubTransaction_toCbor L conway t = Inr (cbor, t)"
  using assms(2) witness_set_again [OF assms(1)]
  by (auto simp: SubTransaction_toCbor_def split: option.splits list.splits elim!: ebind_InrE)

end
