(* ===== verification/Tx_Body.thy ===== *)
theory Tx_Body
  imports Sub_Transaction
begin

text \<open>
  The body of a transaction (\<open>core/src/Serialization/TransactionBody/TransactionBody.ts\<close>), a map of
  numbered fields. The abstract view of a body is the map from field numbers to the contents of the
  fields that are not empty (\<open>tx_body_content\<close>). Writing a body writes its sub transactions, which drops
  repeated signatures from the witness sets of those objects; this effect on the nested objects is
  not part of the result, since writing them again gives the same bytes (\<open>sub_transaction_again\<close>).
\<close>

record TransactionBody =
  tb_inputs :: "TransactionInput CborSet"
  tb_outputs :: "TransactionOutput list"
  tb_fee :: int
  tb_ttl :: "(int) option"
  tb_certs :: "(Certificate CborSet) option"
  tb_withdrawals :: "((string \<times> int) list) option"
  tb_update :: "(Update) option"
  tb_auxiliaryDataHash :: "(bytes) option"
  tb_validityStartInterval :: "(int) option"
  tb_mint :: "(tokens) option"
  tb_scriptDataHash :: "(bytes) option"
  tb_collateral :: "(TransactionInput CborSet) option"
  tb_requiredSigners :: "(bytes CborSet) option"
  tb_guards :: "Guards option"
  tb_networkId :: "(int) option"
  tb_collateralReturn :: "(TransactionOutput) option"
  tb_totalCollateral :: "(int) option"
  tb_referenceInputs :: "(TransactionInput CborSet) option"
  tb_votingProcedures :: "(VotingProcedures) option"
  tb_proposalProcedures :: "(ProposalProcedure CborSet) option"
  tb_currentTreasuryValue :: "(int) option"
  tb_donation :: "(int) option"
  tb_subTransactions :: "(SubTransaction CborSet) option"
  tb_directDeposits :: "((string \<times> int) list) option"
  tb_accountBalanceIntervals :: "((Credential \<times> AccountBalanceInterval) list) option"
  tb_originalBytes :: "bytes option"

definition TransactionBody_new :: "TransactionInput CborSet \<Rightarrow> TransactionOutput list \<Rightarrow> int \<Rightarrow> int option \<Rightarrow> TransactionBody" where
  "TransactionBody_new inputs outputs fee ttl = \<lparr>tb_inputs = inputs, tb_outputs = outputs, tb_fee = fee, tb_ttl = ttl,
     tb_certs = None, tb_withdrawals = None, tb_update = None, tb_auxiliaryDataHash = None, tb_validityStartInterval = None, tb_mint = None, tb_scriptDataHash = None, tb_collateral = None, tb_requiredSigners = None, tb_guards = None, tb_networkId = None, tb_collateralReturn = None, tb_totalCollateral = None, tb_referenceInputs = None, tb_votingProcedures = None, tb_proposalProcedures = None, tb_currentTreasuryValue = None, tb_donation = None, tb_subTransactions = None, tb_directDeposits = None, tb_accountBalanceIntervals = None, tb_originalBytes = None\<rparr>"

subsection \<open>Setters\<close>

definition TransactionBody_setInputs :: "TransactionInput CborSet \<Rightarrow> TransactionBody \<Rightarrow> TransactionBody" where
  "TransactionBody_setInputs inputs b = b\<lparr>tb_inputs := inputs, tb_originalBytes := None\<rparr>"

definition TransactionBody_setOutputs :: "TransactionOutput list \<Rightarrow> TransactionBody \<Rightarrow> TransactionBody" where
  "TransactionBody_setOutputs outputs b = b\<lparr>tb_outputs := outputs, tb_originalBytes := None\<rparr>"

definition TransactionBody_setFee :: "int \<Rightarrow> TransactionBody \<Rightarrow> TransactionBody" where
  "TransactionBody_setFee fee b = b\<lparr>tb_fee := fee, tb_originalBytes := None\<rparr>"

definition TransactionBody_setTtl :: "int \<Rightarrow> TransactionBody \<Rightarrow> TransactionBody" where
  "TransactionBody_setTtl x b = b\<lparr>tb_ttl := Some x, tb_originalBytes := None\<rparr>"

definition TransactionBody_setCerts :: "(Certificate CborSet) \<Rightarrow> TransactionBody \<Rightarrow> TransactionBody" where
  "TransactionBody_setCerts x b = b\<lparr>tb_certs := Some x, tb_originalBytes := None\<rparr>"

definition TransactionBody_setWithdrawals :: "((string \<times> int) list) \<Rightarrow> TransactionBody \<Rightarrow> TransactionBody" where
  "TransactionBody_setWithdrawals x b = b\<lparr>tb_withdrawals := Some x, tb_originalBytes := None\<rparr>"

definition TransactionBody_setUpdate :: "Update \<Rightarrow> TransactionBody \<Rightarrow> TransactionBody" where
  "TransactionBody_setUpdate x b = b\<lparr>tb_update := Some x, tb_originalBytes := None\<rparr>"

definition TransactionBody_setAuxiliaryDataHash :: "bytes \<Rightarrow> TransactionBody \<Rightarrow> TransactionBody" where
  "TransactionBody_setAuxiliaryDataHash x b = b\<lparr>tb_auxiliaryDataHash := Some x, tb_originalBytes := None\<rparr>"

definition TransactionBody_setValidityStartInterval :: "int \<Rightarrow> TransactionBody \<Rightarrow> TransactionBody" where
  "TransactionBody_setValidityStartInterval x b = b\<lparr>tb_validityStartInterval := Some x, tb_originalBytes := None\<rparr>"

text \<open>The token map is brought into canonical order.\<close>

definition TransactionBody_setMint :: "tokens \<Rightarrow> TransactionBody \<Rightarrow> TransactionBody result" where
  "TransactionBody_setMint minted b =
     ebind (normalizeTokens minted) (\<lambda>minted. Inr (b\<lparr>tb_mint := Some minted, tb_originalBytes := None\<rparr>))"

definition TransactionBody_setScriptDataHash :: "bytes \<Rightarrow> TransactionBody \<Rightarrow> TransactionBody" where
  "TransactionBody_setScriptDataHash x b = b\<lparr>tb_scriptDataHash := Some x, tb_originalBytes := None\<rparr>"

definition TransactionBody_setCollateral :: "(TransactionInput CborSet) \<Rightarrow> TransactionBody \<Rightarrow> TransactionBody" where
  "TransactionBody_setCollateral x b = b\<lparr>tb_collateral := Some x, tb_originalBytes := None\<rparr>"

text \<open>Required signers and guards exclude each other; guards that are key hashes become required signers.\<close>

definition TransactionBody_setRequiredSigners :: "bytes CborSet \<Rightarrow> TransactionBody \<Rightarrow> TransactionBody" where
  "TransactionBody_setRequiredSigners requiredSigners b =
     b\<lparr>tb_requiredSigners := Some requiredSigners, tb_guards := None, tb_originalBytes := None\<rparr>"

definition TransactionBody_setGuards :: "bool \<Rightarrow> Guards \<Rightarrow> TransactionBody \<Rightarrow> TransactionBody result" where
  "TransactionBody_setGuards conway guards b =
     (if Guards_kind guards = GuardsKeyHashes
      then ebind (Guards_toCbor conway guards) (\<lambda>cbor.
           ebind (CborSet_fromCbor Hash_fromCbor cbor) (\<lambda>s.
             Inr (b\<lparr>tb_requiredSigners := Some s, tb_guards := None, tb_originalBytes := None\<rparr>)))
      else Inr (b\<lparr>tb_guards := Some guards, tb_requiredSigners := None, tb_originalBytes := None\<rparr>))"

definition TransactionBody_setNetworkId :: "int \<Rightarrow> TransactionBody \<Rightarrow> TransactionBody" where
  "TransactionBody_setNetworkId x b = b\<lparr>tb_networkId := Some x, tb_originalBytes := None\<rparr>"

definition TransactionBody_setCollateralReturn :: "TransactionOutput \<Rightarrow> TransactionBody \<Rightarrow> TransactionBody" where
  "TransactionBody_setCollateralReturn x b = b\<lparr>tb_collateralReturn := Some x, tb_originalBytes := None\<rparr>"

definition TransactionBody_setTotalCollateral :: "int \<Rightarrow> TransactionBody \<Rightarrow> TransactionBody" where
  "TransactionBody_setTotalCollateral x b = b\<lparr>tb_totalCollateral := Some x, tb_originalBytes := None\<rparr>"

definition TransactionBody_setReferenceInputs :: "(TransactionInput CborSet) \<Rightarrow> TransactionBody \<Rightarrow> TransactionBody" where
  "TransactionBody_setReferenceInputs x b = b\<lparr>tb_referenceInputs := Some x, tb_originalBytes := None\<rparr>"

definition TransactionBody_setVotingProcedures :: "VotingProcedures \<Rightarrow> TransactionBody \<Rightarrow> TransactionBody" where
  "TransactionBody_setVotingProcedures x b = b\<lparr>tb_votingProcedures := Some x, tb_originalBytes := None\<rparr>"

definition TransactionBody_setProposalProcedures :: "(ProposalProcedure CborSet) \<Rightarrow> TransactionBody \<Rightarrow> TransactionBody" where
  "TransactionBody_setProposalProcedures x b = b\<lparr>tb_proposalProcedures := Some x, tb_originalBytes := None\<rparr>"

definition TransactionBody_setCurrentTreasuryValue :: "int \<Rightarrow> TransactionBody \<Rightarrow> TransactionBody" where
  "TransactionBody_setCurrentTreasuryValue x b = b\<lparr>tb_currentTreasuryValue := Some x, tb_originalBytes := None\<rparr>"

definition TransactionBody_setDonation :: "int \<Rightarrow> TransactionBody \<Rightarrow> TransactionBody" where
  "TransactionBody_setDonation x b = b\<lparr>tb_donation := Some x, tb_originalBytes := None\<rparr>"

definition TransactionBody_setSubTransactions :: "(SubTransaction CborSet) \<Rightarrow> TransactionBody \<Rightarrow> TransactionBody" where
  "TransactionBody_setSubTransactions x b = b\<lparr>tb_subTransactions := Some x, tb_originalBytes := None\<rparr>"

definition TransactionBody_setDirectDeposits :: "((string \<times> int) list) \<Rightarrow> TransactionBody \<Rightarrow> TransactionBody" where
  "TransactionBody_setDirectDeposits x b = b\<lparr>tb_directDeposits := Some x, tb_originalBytes := None\<rparr>"

definition TransactionBody_setAccountBalanceIntervals :: "((Credential \<times> AccountBalanceInterval) list) \<Rightarrow> TransactionBody \<Rightarrow> TransactionBody" where
  "TransactionBody_setAccountBalanceIntervals x b = b\<lparr>tb_accountBalanceIntervals := Some x, tb_originalBytes := None\<rparr>"

lemmas tb_setters = TransactionBody_setInputs_def TransactionBody_setFee_def TransactionBody_setTtl_def TransactionBody_setCerts_def TransactionBody_setWithdrawals_def TransactionBody_setUpdate_def TransactionBody_setAuxiliaryDataHash_def TransactionBody_setValidityStartInterval_def TransactionBody_setScriptDataHash_def TransactionBody_setCollateral_def TransactionBody_setNetworkId_def TransactionBody_setCollateralReturn_def TransactionBody_setTotalCollateral_def TransactionBody_setReferenceInputs_def TransactionBody_setVotingProcedures_def TransactionBody_setProposalProcedures_def TransactionBody_setCurrentTreasuryValue_def TransactionBody_setDonation_def TransactionBody_setSubTransactions_def TransactionBody_setDirectDeposits_def TransactionBody_setAccountBalanceIntervals_def

subsection \<open>Writing\<close>

definition TransactionBody_getMapSize :: "TransactionBody \<Rightarrow> nat" where
  "TransactionBody_getMapSize b = present (nonempty_set (Some (tb_inputs b))) + (1 + sum_list
     [1,
      present (tb_ttl b),
      present (nonempty_set (tb_certs b)),
      present (nonempty (tb_withdrawals b)),
      present (tb_update b),
      present (tb_auxiliaryDataHash b),
      present (tb_validityStartInterval b),
      present (nonempty (tb_mint b)),
      present (tb_scriptDataHash b),
      present (nonempty_set (tb_collateral b)),
      (if nonempty_set (tb_requiredSigners b) \<noteq> None \<or> nonempty_guards (tb_guards b) \<noteq> None then 1 else 0),
      present (tb_networkId b),
      present (tb_collateralReturn b),
      present (tb_totalCollateral b),
      present (nonempty_set (tb_referenceInputs b)),
      present (tb_votingProcedures b),
      present (nonempty_set (tb_proposalProcedures b)),
      present (tb_currentTreasuryValue b),
      present (tb_donation b),
      present (nonempty_set (tb_subTransactions b)),
      present (nonempty (tb_directDeposits b)),
      present (nonempty (tb_accountBalanceIntervals b))])"

definition TransactionBody_fields :: "tx_lib \<Rightarrow> bool \<Rightarrow> TransactionBody \<Rightarrow> writer_op list" where
  "TransactionBody_fields L conway b =
     writes (\<lambda>a. writeField 0 (writeObject (CborSet_toCbor conway TransactionInput_toCbor a))) (nonempty_set (Some (tb_inputs b))) @
     [writeField 1 (writeArrayOf (TransactionOutput_toCbor (crc32 (tl_codecs L))) (tb_outputs b))] @
     [writeField 2 (writeInt (tb_fee b))] @
     writes (\<lambda>a. writeField 3 (writeInt a)) (tb_ttl b) @
     writes (\<lambda>a. writeField 4 ((\<lambda>a. writeObject (CborSet_toCbor conway (writeCertificate L conway) a)) a)) (nonempty_set (tb_certs b)) @
     writes (\<lambda>a. writeField 5 ((writeAccounts (tl_codecs L)) a)) (nonempty (tb_withdrawals b)) @
     writes (\<lambda>a. writeField 6 ((\<lambda>a. writeObject (Update_toCbor a)) a)) (tb_update b) @
     writes (\<lambda>a. writeField 7 (writeByteString a)) (tb_auxiliaryDataHash b) @
     writes (\<lambda>a. writeField 8 (writeInt a)) (tb_validityStartInterval b) @
     writes (\<lambda>a. writeField 9 (writeMint a)) (nonempty (tb_mint b)) @
     writes (\<lambda>a. writeField 11 (writeByteString a)) (tb_scriptDataHash b) @
     writes (\<lambda>a. writeField 13 ((\<lambda>a. writeObject (CborSet_toCbor conway TransactionInput_toCbor a)) a)) (nonempty_set (tb_collateral b)) @
     (case nonempty_set (tb_requiredSigners b) of
        Some s \<Rightarrow> [writeField 14 (writeObject (CborSet_toCbor conway Hash_toCbor s))]
      | None \<Rightarrow> writes (\<lambda>a. writeField 14 (writeObject (Guards_toCbor conway a))) (nonempty_guards (tb_guards b))) @
     writes (\<lambda>a. writeField 15 (writeInt a)) (tb_networkId b) @
     writes (\<lambda>a. writeField 16 ((\<lambda>a. writeObject ((TransactionOutput_toCbor (crc32 (tl_codecs L))) a)) a)) (tb_collateralReturn b) @
     writes (\<lambda>a. writeField 17 (writeInt a)) (tb_totalCollateral b) @
     writes (\<lambda>a. writeField 18 ((\<lambda>a. writeObject (CborSet_toCbor conway TransactionInput_toCbor a)) a)) (nonempty_set (tb_referenceInputs b)) @
     writes (\<lambda>a. writeField 19 ((\<lambda>a. writeObject (VotingProcedures_toCbor a)) a)) (tb_votingProcedures b) @
     writes (\<lambda>a. writeField 20 ((\<lambda>a. writeObject (CborSet_toCbor conway (ProposalProcedure_toCbor (tl_codecs L) conway) a)) a)) (nonempty_set (tb_proposalProcedures b)) @
     writes (\<lambda>a. writeField 21 (writeInt a)) (tb_currentTreasuryValue b) @
     writes (\<lambda>a. writeField 22 (writeInt a)) (tb_donation b) @
     writes (\<lambda>a. writeField 23 ((\<lambda>a. writeObject (CborSet_toCbor conway (SubTransaction_bytes L conway) a)) a)) (nonempty_set (tb_subTransactions b)) @
     writes (\<lambda>a. writeField 25 ((writeAccounts (tl_codecs L)) a)) (nonempty (tb_directDeposits b)) @
     writes (\<lambda>a. writeField 26 ((writeCredentialMap (\<lambda>a. writeObject (AccountBalanceInterval_toCbor a))) a)) (nonempty (tb_accountBalanceIntervals b))"

definition TransactionBody_toCbor :: "tx_lib \<Rightarrow> bool \<Rightarrow> TransactionBody \<Rightarrow> bytes result" where
  "TransactionBody_toCbor L conway b = cached (tb_originalBytes b)
     (write_all (writeStartMap (Some (TransactionBody_getMapSize b)) # TransactionBody_fields L conway b))"

subsection \<open>Reading\<close>

text \<open>The sub transactions must be there and have different ids.\<close>

definition readSubTransactions ::
    "tx_lib \<Rightarrow> bool \<Rightarrow> bool \<Rightarrow> CborReader \<Rightarrow> (SubTransaction CborSet \<times> CborReader) result" where
  "readSubTransactions L conway strict r =
     ebind (readObject (CborSet_fromCbor (SubTransaction_fromCbor L conway strict)) r) (\<lambda>(subTransactions, r).
     ebind (throw_if (CborSet_size subTransactions = 0) SerializationError) (\<lambda>_.
     ebind (emap (SubTransaction_getId L conway) (cs_values subTransactions)) (\<lambda>ids.
     ebind (throw_if (length (remdups ids) \<noteq> CborSet_size subTransactions) SerializationError) (\<lambda>_.
       Inr (subTransactions, r)))))"

definition outputs_pushed :: "TransactionOutput list \<Rightarrow> TransactionBody \<Rightarrow> TransactionBody" where
  "outputs_pushed xs b = b\<lparr>tb_outputs := tb_outputs b @ xs\<rparr>"

definition readBodyField ::
    "tx_lib \<Rightarrow> bool \<Rightarrow> bool \<Rightarrow> int \<Rightarrow> TransactionBody \<Rightarrow> CborReader \<Rightarrow> (TransactionBody \<times> CborReader) result" where
  "readBodyField L conway strict key =
     (if key = 0 then readField (readObject (CborSet_fromCbor TransactionInput_fromCbor)) TransactionBody_setInputs
      else if key = 1 then readField (readArrayOf (TransactionOutput_fromCbor (crc32 (tl_codecs L)) strict)) outputs_pushed
      else if key = 2 then readField readInt TransactionBody_setFee
      else if key = 3 then readField readNumber TransactionBody_setTtl
      else if key = 4 then readField (readObject (CborSet_fromCbor (readCertificate L conway))) TransactionBody_setCerts
      else if key = 5 then readField (readMapWith (readWithdrawal (tl_codecs L)) []) TransactionBody_setWithdrawals
      else if key = 6 then readField (readObject Update_fromCbor) TransactionBody_setUpdate
      else if key = 7 then readField readByteString TransactionBody_setAuxiliaryDataHash
      else if key = 8 then readField readNumber TransactionBody_setValidityStartInterval
      else if key = 9 then (\<lambda>b r. ebind (readMint r) (\<lambda>(minted, r). ebind (TransactionBody_setMint minted b) (\<lambda>b. Inr (b, r))))
      else if key = 11 then readField readByteString TransactionBody_setScriptDataHash
      else if key = 13 then readField (readObject (CborSet_fromCbor TransactionInput_fromCbor)) TransactionBody_setCollateral
      else if key = 14 then (\<lambda>b r. ebind (readObject Guards_fromCbor r) (\<lambda>(g, r). ebind (TransactionBody_setGuards conway g b) (\<lambda>b. Inr (b, r))))
      else if key = 15 then readField readNumber TransactionBody_setNetworkId
      else if key = 16 then readField (readObject (TransactionOutput_fromCbor (crc32 (tl_codecs L)) strict)) TransactionBody_setCollateralReturn
      else if key = 17 then readField readInt TransactionBody_setTotalCollateral
      else if key = 18 then readField (readObject (CborSet_fromCbor TransactionInput_fromCbor)) TransactionBody_setReferenceInputs
      else if key = 19 then readField (readObject VotingProcedures_fromCbor) TransactionBody_setVotingProcedures
      else if key = 20 then readField (readObject (CborSet_fromCbor (ProposalProcedure_fromCbor (tl_codecs L)))) TransactionBody_setProposalProcedures
      else if key = 21 then readField readInt TransactionBody_setCurrentTreasuryValue
      else if key = 22 then readField readInt TransactionBody_setDonation
      else if key = 23 then readField (readSubTransactions L conway strict) TransactionBody_setSubTransactions
      else if key = 25 then readField (readDeposits (tl_codecs L)) TransactionBody_setDirectDeposits
      else if key = 26 then readField (readCredentialMap (readObject AccountBalanceInterval_fromCbor)) TransactionBody_setAccountBalanceIntervals
      else if strict then (\<lambda>b r. Inl SerializationError)
      else (\<lambda>b r. ebind (skipValue r) (\<lambda>r. Inr (b, r))))"

definition TransactionBody_fromCbor :: "tx_lib \<Rightarrow> bool \<Rightarrow> bool \<Rightarrow> bytes \<Rightarrow> TransactionBody result" where
  "TransactionBody_fromCbor L conway strict cbor =
     ebind (readMapWith (readKeyed (readBodyField L conway strict))
       (TransactionBody_new \<lparr>cs_values = [], cs_originalBytes = None\<rparr> [] 0 None) (new_reader cbor)) (\<lambda>(b, r).
       Inr (b\<lparr>tb_originalBytes := Some cbor\<rparr>))"

definition TransactionBody_hash :: "tx_lib \<Rightarrow> bool \<Rightarrow> TransactionBody \<Rightarrow> bytes result" where
  "TransactionBody_hash L conway b = ebind (TransactionBody_toCbor L conway b) (\<lambda>cbor. Inr (tl_blake2b L cbor 32))"

definition TransactionBody_hasTaggedSets :: "bool \<Rightarrow> TransactionBody \<Rightarrow> bool result" where
  "TransactionBody_hasTaggedSets conway b =
     ebind (CborSet_toCbor conway TransactionInput_toCbor (tb_inputs b)) (\<lambda>cbor.
     ebind (peekState (new_reader cbor)) (\<lambda>(state, r).
       if state = TagState then ebind (peekTag r) (\<lambda>tag. Inr (tag = CborTag_Set)) else Inr False))"

definition TransactionBody_hasBabbageOutput :: "tx_lib \<Rightarrow> TransactionBody \<Rightarrow> bool result" where
  "TransactionBody_hasBabbageOutput L b = (case tb_outputs b of
       [] \<Rightarrow> Inr False
     | out # _ \<Rightarrow>
       ebind (TransactionOutput_toCbor (crc32 (tl_codecs L)) out) (\<lambda>cbor.
       ebind (peekState (new_reader cbor)) (\<lambda>(state, r). Inr (state = StartMap))))"

subsection \<open>Content\<close>

text \<open>Field 14 is what the required signers or else the guards say.\<close>

definition signers_or_guards :: "bytes CborSet option \<Rightarrow> Guards option \<Rightarrow> Guards option" where
  "signers_or_guards signers guards = (case nonempty_set signers of
       Some s \<Rightarrow> Some \<lparr>gu_keyHashes = Some s, gu_credentials = None\<rparr>
     | None \<Rightarrow> nonempty_guards guards)"

definition splitGuards :: "bool \<Rightarrow> Guards \<Rightarrow> (bytes CborSet option \<times> Guards option) result" where
  "splitGuards conway g =
     (if Guards_kind g = GuardsKeyHashes
      then ebind (Guards_toCbor conway g) (\<lambda>cbor. ebind (CborSet_fromCbor Hash_fromCbor cbor) (\<lambda>s. Inr (Some s, None)))
      else Inr (None, Some g))"

definition readSigners :: "bool \<Rightarrow> CborReader \<Rightarrow> ((bytes CborSet option \<times> Guards option) \<times> CborReader) result" where
  "readSigners conway r = ebind (readObject Guards_fromCbor r) (\<lambda>(g, r). ebind (splitGuards conway g) (\<lambda>x. Inr (x, r)))"

definition put_signers :: "bytes CborSet option \<times> Guards option \<Rightarrow> TransactionBody \<Rightarrow> TransactionBody" where
  "put_signers x b = b\<lparr>tb_requiredSigners := fst x, tb_guards := snd x, tb_originalBytes := None\<rparr>"

definition tx_values :: "tx_lib \<Rightarrow> bool \<Rightarrow> TransactionBody \<Rightarrow> (int \<times> sub_view body_value option) list" where
  "tx_values L conway b =
     [(2, map_option AmountOf (Some (tb_fee b))),
      (3, map_option AmountOf (tb_ttl b)),
      (4, map_option (\<lambda>s. CertsOf (set_content certificate_content s)) (nonempty_set (tb_certs b))),
      (5, map_option (\<lambda>m. AccountsOf (map_content (\<lambda>c. c) m)) (nonempty (tb_withdrawals b))),
      (6, map_option (\<lambda>a. UpdateOf (update_content a)) (tb_update b)),
      (7, map_option HashOf (tb_auxiliaryDataHash b)),
      (8, map_option AmountOf (tb_validityStartInterval b)),
      (9, map_option (\<lambda>m. MintOf (map_of m)) (nonempty (tb_mint b))),
      (11, map_option HashOf (tb_scriptDataHash b)),
      (13, map_option (\<lambda>s. InputsOf (set_content input_view s)) (nonempty_set (tb_collateral b))),
      (14, map_option (\<lambda>a. GuardsOf (guards_content a)) (signers_or_guards (tb_requiredSigners b) (tb_guards b))),
      (15, map_option AmountOf (tb_networkId b)),
      (16, map_option (\<lambda>a. OutputOf (output_content a)) (tb_collateralReturn b)),
      (17, map_option AmountOf (tb_totalCollateral b)),
      (18, map_option (\<lambda>s. InputsOf (set_content input_view s)) (nonempty_set (tb_referenceInputs b))),
      (19, map_option (\<lambda>a. VotesOf (votes_content a)) (tb_votingProcedures b)),
      (20, map_option (\<lambda>s. ProposalsOf (set_content proposal_content s)) (nonempty_set (tb_proposalProcedures b))),
      (21, map_option AmountOf (tb_currentTreasuryValue b)),
      (22, map_option AmountOf (tb_donation b)),
      (23, map_option (\<lambda>s. SubsOf (set_content (sub_content L conway) s)) (nonempty_set (tb_subTransactions b))),
      (25, map_option (\<lambda>m. AccountsOf (map_content (\<lambda>c. c) m)) (nonempty (tb_directDeposits b))),
      (26, map_option (\<lambda>m. IntervalsOf (map_content AccountBalanceInterval_toCore m)) (nonempty (tb_accountBalanceIntervals b)))]"

definition tx_rows :: "tx_lib \<Rightarrow> bool \<Rightarrow> TransactionBody \<Rightarrow> sub_view body_value row list" where
  "tx_rows L conway b =
     [field_row 2 writeInt AmountOf (Some (tb_fee b)),
      field_row 3 writeInt AmountOf (tb_ttl b),
      field_row 4 (\<lambda>a. writeObject (CborSet_toCbor conway (writeCertificate L conway) a)) (\<lambda>s. CertsOf (set_content certificate_content s)) (nonempty_set (tb_certs b)),
      field_row 5 (writeAccounts (tl_codecs L)) (\<lambda>m. AccountsOf (map_content (\<lambda>c. c) m)) (nonempty (tb_withdrawals b)),
      field_row 6 (\<lambda>a. writeObject (Update_toCbor a)) (\<lambda>a. UpdateOf (update_content a)) (tb_update b),
      field_row 7 writeByteString HashOf (tb_auxiliaryDataHash b),
      field_row 8 writeInt AmountOf (tb_validityStartInterval b),
      field_row 9 writeMint (\<lambda>m. MintOf (map_of m)) (nonempty (tb_mint b)),
      field_row 11 writeByteString HashOf (tb_scriptDataHash b),
      field_row 13 (\<lambda>a. writeObject (CborSet_toCbor conway TransactionInput_toCbor a)) (\<lambda>s. InputsOf (set_content input_view s)) (nonempty_set (tb_collateral b)),
      field_row 14 (\<lambda>a. writeObject (Guards_toCbor conway a)) (\<lambda>a. GuardsOf (guards_content a)) (signers_or_guards (tb_requiredSigners b) (tb_guards b)),
      field_row 15 writeInt AmountOf (tb_networkId b),
      field_row 16 (\<lambda>a. writeObject ((TransactionOutput_toCbor (crc32 (tl_codecs L))) a)) (\<lambda>a. OutputOf (output_content a)) (tb_collateralReturn b),
      field_row 17 writeInt AmountOf (tb_totalCollateral b),
      field_row 18 (\<lambda>a. writeObject (CborSet_toCbor conway TransactionInput_toCbor a)) (\<lambda>s. InputsOf (set_content input_view s)) (nonempty_set (tb_referenceInputs b)),
      field_row 19 (\<lambda>a. writeObject (VotingProcedures_toCbor a)) (\<lambda>a. VotesOf (votes_content a)) (tb_votingProcedures b),
      field_row 20 (\<lambda>a. writeObject (CborSet_toCbor conway (ProposalProcedure_toCbor (tl_codecs L) conway) a)) (\<lambda>s. ProposalsOf (set_content proposal_content s)) (nonempty_set (tb_proposalProcedures b)),
      field_row 21 writeInt AmountOf (tb_currentTreasuryValue b),
      field_row 22 writeInt AmountOf (tb_donation b),
      field_row 23 (\<lambda>a. writeObject (CborSet_toCbor conway (SubTransaction_bytes L conway) a)) (\<lambda>s. SubsOf (set_content (sub_content L conway) s)) (nonempty_set (tb_subTransactions b)),
      field_row 25 (writeAccounts (tl_codecs L)) (\<lambda>m. AccountsOf (map_content (\<lambda>c. c) m)) (nonempty (tb_directDeposits b)),
      field_row 26 (writeCredentialMap (\<lambda>a. writeObject (AccountBalanceInterval_toCbor a))) (\<lambda>m. IntervalsOf (map_content AccountBalanceInterval_toCore m)) (nonempty (tb_accountBalanceIntervals b))]"

definition tx_heads :: "TransactionBody \<Rightarrow> (int \<times> sub_view body_value option) list" where
  "tx_heads b =
     [(0, map_option (\<lambda>s. InputsOf (set_content input_view s)) (nonempty_set (Some (tb_inputs b)))),
      (1, map_option (\<lambda>outs. OutputsOf (map output_content outs)) (nonempty (Some (tb_outputs b))))]"

definition tx_body_content :: "tx_lib \<Rightarrow> bool \<Rightarrow> TransactionBody \<Rightarrow> int \<rightharpoonup> sub_view body_value" where
  "tx_body_content L conway b = table_content (tx_heads b @ tx_values L conway b)"

definition subs_valid :: "tx_lib \<Rightarrow> bool \<Rightarrow> SubTransaction CborSet \<Rightarrow> bool" where
  "subs_valid L conway s \<longleftrightarrow> set_valid (SubTransaction_valid L conway) s \<and>
     (\<exists>ids. emap (SubTransaction_getId L conway) (cs_values s) = Inr ids \<and> distinct ids)"

definition TransactionBody_valid :: "tx_lib \<Rightarrow> bool \<Rightarrow> TransactionBody \<Rightarrow> bool" where
  "TransactionBody_valid L conway b \<longleftrightarrow> tb_originalBytes b = None \<and> set_valid TransactionInput_valid (tb_inputs b) \<and>
     (\<forall>out \<in> set (tb_outputs b). TransactionOutput_valid (crc32 (tl_codecs L)) out) \<and> length (tb_outputs b) < 9007199254740992 \<and>
     cbor_int (tb_fee b) \<and>
     pred_option (\<lambda>i. safe_int i) (tb_ttl b) \<and>
     pred_option (set_valid (certificate_valid L conway)) (tb_certs b) \<and>
     pred_option (withdrawals_valid (tl_codecs L)) (tb_withdrawals b) \<and>
     pred_option Update_valid (tb_update b) \<and>
     pred_option (\<lambda>h. small_bytes h) (tb_auxiliaryDataHash b) \<and>
     pred_option (\<lambda>i. safe_int i) (tb_validityStartInterval b) \<and>
     pred_option mint_valid (tb_mint b) \<and>
     pred_option (\<lambda>h. small_bytes h) (tb_scriptDataHash b) \<and>
     pred_option (set_valid TransactionInput_valid) (tb_collateral b) \<and>
     pred_option (set_valid (\<lambda>h. small_bytes h)) (tb_requiredSigners b) \<and> pred_option Guards_valid (tb_guards b) \<and>
     pred_option (\<lambda>i. safe_int i) (tb_networkId b) \<and>
     pred_option (TransactionOutput_valid (crc32 (tl_codecs L))) (tb_collateralReturn b) \<and>
     pred_option cbor_int (tb_totalCollateral b) \<and>
     pred_option (set_valid TransactionInput_valid) (tb_referenceInputs b) \<and>
     pred_option VotingProcedures_valid (tb_votingProcedures b) \<and>
     pred_option (set_valid (ProposalProcedure_valid (tl_codecs L))) (tb_proposalProcedures b) \<and>
     pred_option cbor_int (tb_currentTreasuryValue b) \<and>
     pred_option cbor_int (tb_donation b) \<and>
     pred_option (subs_valid L conway) (tb_subTransactions b) \<and>
     pred_option (withdrawals_valid (tl_codecs L)) (tb_directDeposits b) \<and>
     pred_option (credential_map_valid AccountBalanceInterval_valid) (tb_accountBalanceIntervals b)"

lemma tx_row_values: "map row_field (tx_rows L conway b) = tx_values L conway b"
  by (simp add: tx_rows_def tx_values_def)

lemma tx_keys: "map fst (tx_values L conway b) = [2, 3, 4, 5, 6, 7, 8, 9, 11, 13, 14, 15, 16, 17, 18, 19, 20, 21, 22, 23, 25, 26]" "length (tx_rows L conway b) = 22"
  by (simp_all add: tx_values_def tx_rows_def)

lemma tx_key_set: "fst ` set (tx_values L conway b) = {2, 3, 4, 5, 6, 7, 8, 9, 11, 13, 14, 15, 16, 17, 18, 19, 20, 21, 22, 23, 25, 26}"
  unfolding set_map [symmetric] tx_keys by simp

lemma setGuards_split: "TransactionBody_setGuards conway g b = ebind (splitGuards conway g) (\<lambda>x. Inr (put_signers x b))"
  by (simp add: TransactionBody_setGuards_def splitGuards_def put_signers_def ebind_assoc)

lemma tx_reads:
  "readBodyField L conway strict 2 = readField readInt TransactionBody_setFee"
  "readBodyField L conway strict 3 = readField readNumber TransactionBody_setTtl"
  "readBodyField L conway strict 4 = readField (readObject (CborSet_fromCbor (readCertificate L conway))) TransactionBody_setCerts"
  "readBodyField L conway strict 5 = readField (readMapWith (readWithdrawal (tl_codecs L)) []) TransactionBody_setWithdrawals"
  "readBodyField L conway strict 6 = readField (readObject Update_fromCbor) TransactionBody_setUpdate"
  "readBodyField L conway strict 7 = readField readByteString TransactionBody_setAuxiliaryDataHash"
  "readBodyField L conway strict 8 = readField readNumber TransactionBody_setValidityStartInterval"
  "readBodyField L conway strict 9 = readField readCanonicalMint (\<lambda>x b. b\<lparr>tb_mint := Some x, tb_originalBytes := None\<rparr>)"
  "readBodyField L conway strict 11 = readField readByteString TransactionBody_setScriptDataHash"
  "readBodyField L conway strict 13 = readField (readObject (CborSet_fromCbor TransactionInput_fromCbor)) TransactionBody_setCollateral"
  "readBodyField L conway strict 14 = readField (readSigners conway) put_signers"
  "readBodyField L conway strict 15 = readField readNumber TransactionBody_setNetworkId"
  "readBodyField L conway strict 16 = readField (readObject (TransactionOutput_fromCbor (crc32 (tl_codecs L)) strict)) TransactionBody_setCollateralReturn"
  "readBodyField L conway strict 17 = readField readInt TransactionBody_setTotalCollateral"
  "readBodyField L conway strict 18 = readField (readObject (CborSet_fromCbor TransactionInput_fromCbor)) TransactionBody_setReferenceInputs"
  "readBodyField L conway strict 19 = readField (readObject VotingProcedures_fromCbor) TransactionBody_setVotingProcedures"
  "readBodyField L conway strict 20 = readField (readObject (CborSet_fromCbor (ProposalProcedure_fromCbor (tl_codecs L)))) TransactionBody_setProposalProcedures"
  "readBodyField L conway strict 21 = readField readInt TransactionBody_setCurrentTreasuryValue"
  "readBodyField L conway strict 22 = readField readInt TransactionBody_setDonation"
  "readBodyField L conway strict 23 = readField (readSubTransactions L conway strict) TransactionBody_setSubTransactions"
  "readBodyField L conway strict 25 = readField (readDeposits (tl_codecs L)) TransactionBody_setDirectDeposits"
  "readBodyField L conway strict 26 = readField (readCredentialMap (readObject AccountBalanceInterval_fromCbor)) TransactionBody_setAccountBalanceIntervals"
  by (simp_all add: readBodyField_def readField_def [abs_def] readCanonicalMint_def TransactionBody_setMint_def readSigners_def
      setGuards_split ebind_assoc case_prod_unfold fun_eq_iff)

lemma tx_puts:
  "tx_body_content L conway (TransactionBody_setFee y2 b) = put_field 2 (AmountOf y2) (tx_body_content L conway b)"
  "tx_body_content L conway (TransactionBody_setTtl y3 b) = put_field 3 (AmountOf y3) (tx_body_content L conway b)"
  "cs_values y4 \<noteq> [] \<Longrightarrow> tx_body_content L conway (TransactionBody_setCerts y4 b) = put_field 4 (CertsOf (set_content certificate_content y4)) (tx_body_content L conway b)"
  "y5 \<noteq> [] \<Longrightarrow> tx_body_content L conway (TransactionBody_setWithdrawals y5 b) = put_field 5 (AccountsOf (map_content (\<lambda>c. c) y5)) (tx_body_content L conway b)"
  "tx_body_content L conway (TransactionBody_setUpdate y6 b) = put_field 6 (UpdateOf (update_content y6)) (tx_body_content L conway b)"
  "tx_body_content L conway (TransactionBody_setAuxiliaryDataHash y7 b) = put_field 7 (HashOf y7) (tx_body_content L conway b)"
  "tx_body_content L conway (TransactionBody_setValidityStartInterval y8 b) = put_field 8 (AmountOf y8) (tx_body_content L conway b)"
  "y9 \<noteq> [] \<Longrightarrow> tx_body_content L conway ((\<lambda>x b. b\<lparr>tb_mint := Some x, tb_originalBytes := None\<rparr>) y9 b) = put_field 9 (MintOf (map_of y9)) (tx_body_content L conway b)"
  "tx_body_content L conway (TransactionBody_setScriptDataHash y11 b) = put_field 11 (HashOf y11) (tx_body_content L conway b)"
  "cs_values y13 \<noteq> [] \<Longrightarrow> tx_body_content L conway (TransactionBody_setCollateral y13 b) = put_field 13 (InputsOf (set_content input_view y13)) (tx_body_content L conway b)"
  "signers_or_guards (fst y14) (snd y14) = Some g \<Longrightarrow> tx_body_content L conway (put_signers y14 b) = put_field 14 (GuardsOf (guards_content g)) (tx_body_content L conway b)"
  "tx_body_content L conway (TransactionBody_setNetworkId y15 b) = put_field 15 (AmountOf y15) (tx_body_content L conway b)"
  "tx_body_content L conway (TransactionBody_setCollateralReturn y16 b) = put_field 16 (OutputOf (output_content y16)) (tx_body_content L conway b)"
  "tx_body_content L conway (TransactionBody_setTotalCollateral y17 b) = put_field 17 (AmountOf y17) (tx_body_content L conway b)"
  "cs_values y18 \<noteq> [] \<Longrightarrow> tx_body_content L conway (TransactionBody_setReferenceInputs y18 b) = put_field 18 (InputsOf (set_content input_view y18)) (tx_body_content L conway b)"
  "tx_body_content L conway (TransactionBody_setVotingProcedures y19 b) = put_field 19 (VotesOf (votes_content y19)) (tx_body_content L conway b)"
  "cs_values y20 \<noteq> [] \<Longrightarrow> tx_body_content L conway (TransactionBody_setProposalProcedures y20 b) = put_field 20 (ProposalsOf (set_content proposal_content y20)) (tx_body_content L conway b)"
  "tx_body_content L conway (TransactionBody_setCurrentTreasuryValue y21 b) = put_field 21 (AmountOf y21) (tx_body_content L conway b)"
  "tx_body_content L conway (TransactionBody_setDonation y22 b) = put_field 22 (AmountOf y22) (tx_body_content L conway b)"
  "cs_values y23 \<noteq> [] \<Longrightarrow> tx_body_content L conway (TransactionBody_setSubTransactions y23 b) = put_field 23 (SubsOf (set_content (sub_content L conway) y23)) (tx_body_content L conway b)"
  "y25 \<noteq> [] \<Longrightarrow> tx_body_content L conway (TransactionBody_setDirectDeposits y25 b) = put_field 25 (AccountsOf (map_content (\<lambda>c. c) y25)) (tx_body_content L conway b)"
  "y26 \<noteq> [] \<Longrightarrow> tx_body_content L conway (TransactionBody_setAccountBalanceIntervals y26 b) = put_field 26 (IntervalsOf (map_content AccountBalanceInterval_toCore y26)) (tx_body_content L conway b)"
  by (rule eq_put_field; simp add: tx_body_content_def tx_heads_def tx_values_def tb_setters put_signers_def table_content_Cons
      nonempty_set_def nonempty_guards_def CborSet_size_def nonempty_def split: list.splits)+

subsection \<open>Transaction bodies are read back\<close>

lemma signers_row:
  assumes "fld k = readField (readSigners conway) upd"
    and "pred_option (set_valid (\<lambda>h. small_bytes h)) signers" and "pred_option Guards_valid guards" and "cbor_int k"
    and "\<And>y s g. signers_or_guards (fst y) (snd y) = Some g \<Longrightarrow> con (upd y s) = put_field k (GuardsOf (guards_content g)) (con s)"
  shows "row_ok (readKeyed fld) con
    (field_row k (\<lambda>a. writeObject (Guards_toCbor conway a)) (\<lambda>a. GuardsOf (guards_content a)) (signers_or_guards signers guards))"
proof (cases "signers_or_guards signers guards")
  case None
  then show ?thesis using fields_to_Nil by (simp add: row_ok_def field_row_def writes_def set_opt_def [abs_def])
next
  case (Some g)
  have "Guards_valid g \<and> 0 < Guards_size g"
  proof (cases "nonempty_set signers")
    case None
    with Some have "nonempty_guards guards = Some g" by (simp add: signers_or_guards_def)
    with assms(3) nonempty_guards_SomeD [of guards g] show ?thesis by simp
  next
    case (Some s)
    with \<open>signers_or_guards signers guards = Some g\<close> have "g = \<lparr>gu_keyHashes = Some s, gu_credentials = None\<rparr>"
      by (simp add: signers_or_guards_def)
    moreover have "signers = Some s" "0 < CborSet_size s" using Some by (auto simp: nonempty_set_def split: option.splits if_splits)
    ultimately show ?thesis using assms(2) by (simp add: Guards_valid_def Guards_size_def)
  qed
  then have g: "Guards_valid g" "0 < Guards_size g" by simp_all
  from guards.encodes [OF g(1), of conway] obtain b y where b: "Guards_toCbor conway g = Inr b" "cbor_item b" "Guards_fromCbor b = Inr y"
    "guards_content y = guards_content g" by (elim exE conjE) (rule that)
  have size: "0 < Guards_size y" using guards_size_content [OF b(4)] g(2) by simp
  have kept: "Guards_toCbor conway y = Inr b" by (rule guards.keeps_bytes [OF b(3)])
  obtain x where x: "splitGuards conway y = Inr x" "signers_or_guards (fst x) (snd x) = Some y"
  proof (cases "gu_keyHashes y")
    case None
    with size show ?thesis
      by (intro that [of "(None, Some y)"]) (simp_all add: splitGuards_def Guards_kind_def signers_or_guards_def nonempty_set_def nonempty_guards_def)
  next
    case (Some s)
    with b(3) have "CborSet_fromCbor Hash_fromCbor b = Inr s" "gu_credentials y = None"
      by (auto simp: Guards_fromCbor_def elim!: ebind_InrE split: if_splits)
    with Some size kept show ?thesis
      by (intro that [of "(Some s, None)"])
        (simp_all add: splitGuards_def Guards_kind_def signers_or_guards_def nonempty_set_def Guards_size_def)
  qed
  have "field_ok (writeObject (Guards_toCbor conway g)) b (readSigners conway) x"
    using b(1-3) x(1) by (simp add: field_ok_def writeObject_def writeEncodedValue_def readSigners_def readObject_rd)
  from fields_to_field [where fld = fld and g = "put_field k (GuardsOf (guards_content g))" and con = con, OF this assms(1,4)]
  have "fields_to (readKeyed fld) con [writeField k (writeObject (Guards_toCbor conway g))] 1 (put_field k (GuardsOf (guards_content g)))"
    using assms(5) [OF x(2)] b(4) by simp
  with Some show ?thesis by (simp add: row_ok_def field_row_def writes_def set_opt_def [abs_def])
qed

lemma sub_ids:
  assumes "map (sub_content L conway) xs = map (sub_content L conway) ys"
  shows "emap (SubTransaction_getId L conway) xs = emap (SubTransaction_getId L conway) ys"
  using assms
proof (induction xs arbitrary: ys)
  case (Cons x xs)
  then obtain y zs where "ys = y # zs" "sub_content L conway x = sub_content L conway y" by (cases ys) auto
  with Cons show ?case by (simp add: SubTransaction_getId_def sub_content_def)
qed simp

lemma subs_row:
  assumes "fld k = readField (readSubTransactions L conway strict) upd" and "pred_option (subs_valid L conway) x" and "cbor_int k"
    and "\<And>y s. cs_values y \<noteq> [] \<Longrightarrow> con (upd y s) = put_field k (SubsOf (set_content (sub_content L conway) y)) (con s)"
  shows "row_ok (readKeyed fld) con (field_row k (\<lambda>a. writeObject (CborSet_toCbor conway (SubTransaction_bytes L conway) a))
    (\<lambda>s. SubsOf (set_content (sub_content L conway) s)) (nonempty_set x))"
proof (rule guarded_row_ok [where fld = fld and k = k and good = "\<lambda>y. cs_values y \<noteq> []", OF assms(1) _ assms(3,4)])
  fix s assume s: "nonempty_set x = Some s"
  then have v: "subs_valid L conway s" using assms(2) nonempty_set_SomeD by fastforce
  then obtain ids where ids: "emap (SubTransaction_getId L conway) (cs_values s) = Inr ids" "distinct ids" by (auto simp: subs_valid_def)
  from v have "set_valid (SubTransaction_valid L conway) s" by (simp add: subs_valid_def)
  from cbor_codec.field_of_object [OF cbor_codec.set_codec [OF sub_transaction.cbor_codec_axioms [where strict = strict]] this, where conway1 = conway] obtain b y
    where f: "field_ok (writeObject (CborSet_toCbor conway (SubTransaction_bytes L conway) s)) b
        (readObject (CborSet_fromCbor (SubTransaction_fromCbor L conway strict))) y"
      "set_content (sub_content L conway) y = set_content (sub_content L conway) s" by (elim exE conjE) (rule that)
  have ne: "cs_values s \<noteq> []" using s by (auto simp: nonempty_set_def CborSet_size_def split: option.splits if_splits)
  have eq: "map (sub_content L conway) (cs_values y) = map (sub_content L conway) (cs_values s)" using f(2) by (simp add: set_content_def)
  have len: "length (cs_values y) = length (cs_values s)" using arg_cong [OF eq, of length] by simp
  have getId: "emap (SubTransaction_getId L conway) (cs_values y) = Inr ids" using sub_ids [OF eq] ids(1) by simp
  have "length ids = length (cs_values y)" using list_all2_lengthD [OF emap_eq_Inr [THEN iffD1, OF ids(1)]] len by simp
  then have "length (remdups ids) = length (cs_values y)" unfolding distinct_remdups_id [OF ids(2)] .
  moreover have "cs_values y \<noteq> []" using len ne by auto
  ultimately have "field_ok (writeObject (CborSet_toCbor conway (SubTransaction_bytes L conway) s)) b (readSubTransactions L conway strict) y"
    using field_okD [OF f(1)] getId by (simp add: field_ok_def readSubTransactions_def CborSet_size_def)
  with f(2) \<open>cs_values y \<noteq> []\<close>
  show "\<exists>b y. field_ok (writeObject (CborSet_toCbor conway (SubTransaction_bytes L conway) s)) b (readSubTransactions L conway strict) y \<and>
      SubsOf (set_content (sub_content L conway) y) = SubsOf (set_content (sub_content L conway) s) \<and> cs_values y \<noteq> []"
    by (intro exI [of _ b] exI [of _ y]) simp
qed

lemma tx_rows_ok:
  assumes "TransactionBody_valid L conway b"
  shows "list_all (row_ok (readKeyed (readBodyField L conway strict)) (tx_body_content L conway)) (tx_rows L conway b)"
  using assms unfolding TransactionBody_valid_def tx_rows_def list.pred_inject
  by (elim conjE) (intro conjI TrueI
      int_row [where fld = "readBodyField L conway strict" and k = 2, OF tx_reads(1)]
      number_row [where fld = "readBodyField L conway strict" and k = 3, OF tx_reads(2)]
      cbor_codec.set_row [where fld = "readBodyField L conway strict" and k = 4 and tag = CertsOf, OF certificate.cbor_codec_axioms tx_reads(3)]
      accounts_row [where fld = "readBodyField L conway strict" and k = 5, OF tx_reads(4)]
      cbor_codec.object_row [where fld = "readBodyField L conway strict" and k = 6 and tag = UpdateOf, OF update.cbor_codec_axioms tx_reads(5)]
      bytes_row [where fld = "readBodyField L conway strict" and k = 7, OF tx_reads(6)]
      number_row [where fld = "readBodyField L conway strict" and k = 8, OF tx_reads(7)]
      mint_row [where fld = "readBodyField L conway strict" and k = 9, OF tx_reads(8)]
      bytes_row [where fld = "readBodyField L conway strict" and k = 11, OF tx_reads(9)]
      cbor_codec.set_row [where fld = "readBodyField L conway strict" and k = 13 and tag = InputsOf, OF tx_input.cbor_codec_axioms tx_reads(10)]
      signers_row [where fld = "readBodyField L conway strict" and k = 14, OF tx_reads(11)]
      number_row [where fld = "readBodyField L conway strict" and k = 15, OF tx_reads(12)]
      cbor_codec.object_row [where fld = "readBodyField L conway strict" and k = 16 and tag = OutputOf, OF tx_output.cbor_codec_axioms tx_reads(13)]
      int_row [where fld = "readBodyField L conway strict" and k = 17, OF tx_reads(14)]
      cbor_codec.set_row [where fld = "readBodyField L conway strict" and k = 18 and tag = InputsOf, OF tx_input.cbor_codec_axioms tx_reads(15)]
      cbor_codec.object_row [where fld = "readBodyField L conway strict" and k = 19 and tag = VotesOf, OF voting_procedures.cbor_codec_axioms tx_reads(16)]
      cbor_codec.set_row [where fld = "readBodyField L conway strict" and k = 20 and tag = ProposalsOf, OF proposal.cbor_codec_axioms tx_reads(17)]
      int_row [where fld = "readBodyField L conway strict" and k = 21, OF tx_reads(18)]
      int_row [where fld = "readBodyField L conway strict" and k = 22, OF tx_reads(19)]
      subs_row [where fld = "readBodyField L conway strict" and k = 23, OF tx_reads(20)]
      deposits_row [where fld = "readBodyField L conway strict" and k = 25, OF tx_reads(21)]
      credentials_row [where fld = "readBodyField L conway strict" and k = 26 and tag = IntervalsOf and valid = AccountBalanceInterval_valid, OF tx_reads(22)];
      (assumption | erule tx_puts | rule tx_puts | rule balance_interval.field_of_object, assumption | simp add: cbor_int_def))

lemma tx_inputs_row:
  assumes "set_valid TransactionInput_valid x"
  shows "row_ok (readKeyed (readBodyField L conway strict)) (tx_body_content L conway)
    (field_row 0 (\<lambda>s. writeObject (CborSet_toCbor conway TransactionInput_toCbor s)) (\<lambda>s. InputsOf (set_content input_view s)) (nonempty_set (Some x)))"
proof (rule cbor_codec.set_row [where fld = "readBodyField L conway strict" and tag = InputsOf, OF tx_input.cbor_codec_axioms])
  show "readBodyField L conway strict 0 = readField (readObject (CborSet_fromCbor TransactionInput_fromCbor)) TransactionBody_setInputs"
    by (simp add: readBodyField_def)
  fix y :: "TransactionInput CborSet" and s assume "cs_values y \<noteq> []"
  then show "tx_body_content L conway (TransactionBody_setInputs y s) = put_field 0 (InputsOf (set_content input_view y)) (tx_body_content L conway s)"
    by (intro eq_put_field) (simp_all add: tx_body_content_def tx_heads_def tx_values_def tb_setters table_content_Cons nonempty_set_def CborSet_size_def)
qed (simp_all add: assms cbor_int_def)

lemma tx_outputs_put: "tx_body_content L conway (outputs_pushed ys b) = appended (map output_content ys) (tx_body_content L conway b)"
proof -
  have one: "tx_body_content L conway b 1 = map_option (\<lambda>outs. OutputsOf (map output_content outs)) (nonempty (Some (tb_outputs b)))" for b
    by (simp add: tx_body_content_def tx_heads_def table_content_Cons)
  have other: "tx_body_content L conway (outputs_pushed ys b) x = tx_body_content L conway b x" if "x \<noteq> 1" for x
    using that by (simp add: tx_body_content_def tx_heads_def tx_values_def outputs_pushed_def table_content_Cons)
  have first: "tx_body_content L conway (outputs_pushed ys b) 1 = appended (map output_content ys) (tx_body_content L conway b) 1"
    by (cases ys; cases "tb_outputs b") (simp_all add: one outputs_pushed_def appended_def)
  have "tx_body_content L conway (outputs_pushed ys b) x = appended (map output_content ys) (tx_body_content L conway b) x" for x
    using other [of x] first by (cases "x = 1") (auto simp: appended_def)
  then show ?thesis by (simp add: fun_eq_iff)
qed

lemma tx_start: "tx_body_content L conway (TransactionBody_new \<lparr>cs_values = [], cs_originalBytes = None\<rparr> [] 0 None) = [2 \<mapsto> AmountOf 0]"
  by (simp add: tx_body_content_def tx_heads_def tx_values_def TransactionBody_new_def table_content_Cons nonempty_set_def CborSet_size_def
      signers_or_guards_def nonempty_guards_def fun_eq_iff)

lemma signers_written:
  "(case nonempty_set signers of
      Some s \<Rightarrow> [writeField 14 (writeObject (CborSet_toCbor conway Hash_toCbor s))]
    | None \<Rightarrow> writes (\<lambda>a. writeField 14 (writeObject (Guards_toCbor conway a))) (nonempty_guards guards)) =
   writes (\<lambda>a. writeField 14 (writeObject (Guards_toCbor conway a))) (signers_or_guards signers guards)"
  "(if nonempty_set signers \<noteq> None \<or> nonempty_guards guards \<noteq> None then 1 else 0) = present (signers_or_guards signers guards)"
  by (auto simp: signers_or_guards_def writes_def Guards_toCbor_def split: option.splits)

lemma tx_fields_rows:
  "TransactionBody_fields L conway b =
     row_ops (field_row 0 (\<lambda>s. writeObject (CborSet_toCbor conway TransactionInput_toCbor s)) (\<lambda>s. InputsOf (set_content input_view s)) (nonempty_set (Some (tb_inputs b))) ::
       sub_view body_value row) @
     [writeField 1 (writeArrayOf (TransactionOutput_toCbor (crc32 (tl_codecs L))) (tb_outputs b))] @ concat (map row_ops (tx_rows L conway b))"
  unfolding TransactionBody_fields_def signers_written by (simp add: tx_rows_def writes_def [of _ "Some (tb_fee b)"])

lemma tx_size_rows:
  "TransactionBody_getMapSize b =
     row_size (field_row 0 (\<lambda>s. writeObject (CborSet_toCbor conway TransactionInput_toCbor s)) (\<lambda>s. InputsOf (set_content input_view s)) (nonempty_set (Some (tb_inputs b))) ::
       sub_view body_value row) + (1 + sum_list (map row_size (tx_rows L conway b)))"
  unfolding TransactionBody_getMapSize_def signers_written(2) by (simp add: tx_rows_def)

lemma tx_body_encodes:
  assumes "TransactionBody_valid L conway b"
  shows "\<exists>cbor y. TransactionBody_toCbor L conway b = Inr cbor \<and> cbor_item cbor \<and> TransactionBody_fromCbor L conway strict cbor = Inr y \<and>
    tx_body_content L conway y = tx_body_content L conway b \<and> tb_originalBytes y = Some cbor \<and> cbor \<noteq> []"
proof -
  let ?con = "tx_body_content L conway"
  let ?s0 = "TransactionBody_new \<lparr>cs_values = [], cs_originalBytes = None\<rparr> [] 0 None"
  let ?step = "readKeyed (readBodyField L conway strict)"
  let ?row0 = "field_row 0 (\<lambda>s. writeObject (CborSet_toCbor conway TransactionInput_toCbor s)) (\<lambda>s. InputsOf (set_content input_view s)) (nonempty_set (Some (tb_inputs b))) :: sub_view body_value row"
  let ?outs = "map output_content (tb_outputs b)"
  define c where "c = appended ?outs (set_opt (put_field 0) (map_option (\<lambda>s. InputsOf (set_content input_view s)) (nonempty_set (Some (tb_inputs b)))) (?con ?s0))"
  have v: "set_valid TransactionInput_valid (tb_inputs b)" "\<forall>out \<in> set (tb_outputs b). TransactionOutput_valid (crc32 (tl_codecs L)) out"
    "length (tb_outputs b) < 9007199254740992" "tb_originalBytes b = None"
    using assms unfolding TransactionBody_valid_def by blast+
  have outs: "fields_to ?step ?con [writeField 1 (writeArrayOf (TransactionOutput_toCbor (crc32 (tl_codecs L))) (tb_outputs b))] 1 (appended ?outs)"
    by (rule outputs_field [where g = appended and con = ?con and upd = outputs_pushed and fld = "readBodyField L conway strict",
          OF _ v(2,3) tx_outputs_put]) (simp add: readBodyField_def)
  have rows: "\<forall>row \<in> set (tx_rows L conway b). row_ok ?step ?con row"
    using tx_rows_ok [OF assms] by (simp add: list_all_iff)
  have heads: "c = (table_content (tx_heads b))(2 \<mapsto> AmountOf 0)"
    unfolding c_def tx_start by (cases "tb_outputs b"; cases "nonempty_set (Some (tb_inputs b))")
      (auto simp: set_opt_def put_field_def appended_def tx_heads_def table_content_Cons fun_eq_iff)
  have fee: "(2, None) \<notin> set (tx_values L conway b)" by (simp add: tx_values_def)
  have none: "c k = None" if "(k, None) \<in> set (tx_values L conway b)" for k
  proof -
    from that have "k \<in> fst ` set (tx_values L conway b)" "k \<noteq> 2" using fee by (force simp: image_iff)+
    then show ?thesis unfolding tx_key_set heads by (auto simp: tx_heads_def table_content_Cons)
  qed
  have "\<exists>cbor s'. write_all (writeStartMap (Some (row_size ?row0 + (1 + sum_list (map row_size (tx_rows L conway b))))) #
      (row_ops ?row0 @ [writeField 1 (writeArrayOf (TransactionOutput_toCbor (crc32 (tl_codecs L))) (tb_outputs b))] @
        concat (map row_ops (tx_rows L conway b)))) = Inr cbor \<and> cbor_item cbor \<and> cbor \<noteq> [] \<and>
    (\<exists>r. readMapWith ?step ?s0 (new_reader cbor) = Inr (s', r)) \<and>
    ?con s' = (\<lambda>k. if k \<in> fst ` set (map row_field (tx_rows L conway b)) then table_content (map row_field (tx_rows L conway b)) k else c k)"
  proof (rule body_class [OF tx_inputs_row [OF v(1)] outs _ rows])
    show "c k = None" if "(k, None) \<in> set (map row_field (tx_rows L conway b))" for k
      using that none [of k] unfolding tx_row_values by simp
  qed (simp_all add: tx_keys tx_row_values c_def)
  then obtain cbor s' r where w: "write_all (writeStartMap (Some (TransactionBody_getMapSize b)) # TransactionBody_fields L conway b) = Inr cbor"
    "cbor_item cbor" "cbor \<noteq> []" "readMapWith ?step ?s0 (new_reader cbor) = Inr (s', r)"
    "?con s' = (\<lambda>k. if k \<in> fst ` set (tx_values L conway b) then table_content (tx_values L conway b) k else c k)"
    unfolding tx_fields_rows tx_size_rows [of b conway L] tx_row_values by auto
  have "?con b = (\<lambda>k. if k \<in> fst ` set (tx_values L conway b) then table_content (tx_values L conway b) k else table_content (tx_heads b) k)"
    unfolding tx_body_content_def by (rule table_content_append) (simp add: tx_key_set tx_heads_def)
  also have "\<dots> = ?con s'" unfolding w(5) heads by (intro ext) (simp add: tx_key_set)
  finally have con: "?con b = ?con s'" .
  moreover have "?con (s'\<lparr>tb_originalBytes := Some cbor\<rparr>) = ?con s'"
    by (simp add: tx_body_content_def tx_heads_def tx_values_def)
  ultimately show ?thesis using w(1-4) v(4)
    by (simp add: TransactionBody_toCbor_def TransactionBody_fromCbor_def)
qed

interpretation tx_body: caching_codec "TransactionBody_toCbor L conway" "TransactionBody_fromCbor L conway strict"
  "TransactionBody_valid L conway" "tx_body_content L conway" for L conway strict
proof (unfold_locales, goal_cases)
  case (1 b)
  from tx_body_encodes [OF this, of strict] show ?case by blast
next
  case (2 b y)
  then show ?case by (cases "b = []") (auto simp: TransactionBody_toCbor_def TransactionBody_fromCbor_def elim!: ebind_InrE)
qed

end
