(* ===== verification/Transaction.thy ===== *)
theory Transaction
  imports Tx_Body
begin

text \<open>
  Transactions (\<open>core/src/Serialization/Transaction.ts\<close>) and unspent outputs
  (\<open>TransactionUnspentOutput.ts\<close>). Writing a transaction drops repeated signatures from its witness
  set, so \<open>toCbor\<close> returns the bytes and the changed object. The reader takes the frame of Mary
  (three elements) and of Alonzo (four, with the flag \<open>isValid\<close>).
\<close>

record Transaction =
  tx_body :: TransactionBody
  tx_witnessSet :: TransactionWitnessSet
  tx_auxiliaryData :: "AuxiliaryData option"
  tx_isValid :: bool
  tx_originalBytes :: "bytes option"

definition ALONZO_ERA_TX_FRAME_SIZE :: nat where
  "ALONZO_ERA_TX_FRAME_SIZE = 4"

definition Transaction_new :: "TransactionBody \<Rightarrow> TransactionWitnessSet \<Rightarrow> AuxiliaryData option \<Rightarrow> Transaction" where
  "Transaction_new body witnessSet auxiliaryData =
     \<lparr>tx_body = body, tx_witnessSet = witnessSet, tx_auxiliaryData = auxiliaryData, tx_isValid = True, tx_originalBytes = None\<rparr>"

definition Transaction_toCbor :: "tx_lib \<Rightarrow> bool \<Rightarrow> Transaction \<Rightarrow> (bytes \<times> Transaction) result" where
  "Transaction_toCbor L conway t = (case tx_originalBytes t of
       Some (b # bs) \<Rightarrow> Inr (b # bs, t)
     | _ \<Rightarrow>
       ebind (TransactionBody_toCbor L conway (tx_body t)) (\<lambda>body.
       ebind (TransactionWitnessSet_toCbor (tl_uniq L) conway (tx_witnessSet t)) (\<lambda>(witnessSet, w).
       ebind (write_all [writeStartArray (Some ALONZO_ERA_TX_FRAME_SIZE), writeEncodedValue body, writeEncodedValue witnessSet,
           writeBoolean (tx_isValid t), writeNullable AuxiliaryData_toCbor (tx_auxiliaryData t)]) (\<lambda>cbor.
         Inr (cbor, t\<lparr>tx_witnessSet := w\<rparr>)))))"

text \<open>
  The auxiliary data is the last element of a transaction. A \<open>null\<close> there is not consumed, and the end of
  the array is not looked at.
\<close>

definition readAuxiliary :: "CborReader \<Rightarrow> AuxiliaryData option result" where
  "readAuxiliary r = ebind (peekState r) (\<lambda>(state, r).
     if state \<noteq> NullState then ebind (readObject AuxiliaryData_fromCbor r) (\<lambda>(a, r). Inr (Some a)) else Inr None)"

definition Transaction_fromCbor :: "tx_lib \<Rightarrow> bool \<Rightarrow> bool \<Rightarrow> bytes \<Rightarrow> Transaction result" where
  "Transaction_fromCbor L conway strict cbor =
     ebind (readStartArray (new_reader cbor)) (\<lambda>(length, r).
     ebind (readObject (TransactionBody_fromCbor L conway strict) r) (\<lambda>(body, r).
     ebind (readObject (TransactionWitnessSet_fromCbor strict) r) (\<lambda>(witnessSet, r).
     ebind (if length = Some ALONZO_ERA_TX_FRAME_SIZE then readBoolean r else Inr (True, r)) (\<lambda>(isValid, r).
     ebind (readAuxiliary r) (\<lambda>auxData.
       Inr ((Transaction_new body witnessSet auxData)\<lparr>tx_isValid := isValid, tx_originalBytes := Some cbor\<rparr>))))))"

text \<open>The accessors return copies, made by writing and reading.\<close>

definition Transaction_body :: "tx_lib \<Rightarrow> bool \<Rightarrow> Transaction \<Rightarrow> TransactionBody result" where
  "Transaction_body L conway t =
     ebind (TransactionBody_toCbor L conway (tx_body t)) (\<lambda>cbor. TransactionBody_fromCbor L conway False cbor)"

definition Transaction_witnessSet :: "tx_lib \<Rightarrow> bool \<Rightarrow> Transaction \<Rightarrow> (TransactionWitnessSet \<times> Transaction) result" where
  "Transaction_witnessSet L conway t =
     ebind (TransactionWitnessSet_toCbor (tl_uniq L) conway (tx_witnessSet t)) (\<lambda>(cbor, w).
     ebind (TransactionWitnessSet_fromCbor False cbor) (\<lambda>copy. Inr (copy, t\<lparr>tx_witnessSet := w\<rparr>)))"

definition Transaction_auxiliaryData :: "Transaction \<Rightarrow> AuxiliaryData option result" where
  "Transaction_auxiliaryData t =
     optional (\<lambda>a. ebind (AuxiliaryData_toCbor a) AuxiliaryData_fromCbor) (tx_auxiliaryData t)"

definition Transaction_setBody :: "TransactionBody \<Rightarrow> Transaction \<Rightarrow> Transaction" where
  "Transaction_setBody body t = t\<lparr>tx_body := body, tx_originalBytes := None\<rparr>"

definition Transaction_setWitnessSet :: "TransactionWitnessSet \<Rightarrow> Transaction \<Rightarrow> Transaction" where
  "Transaction_setWitnessSet witnessSet t = t\<lparr>tx_witnessSet := witnessSet, tx_originalBytes := None\<rparr>"

definition Transaction_setAuxiliaryData :: "AuxiliaryData option \<Rightarrow> Transaction \<Rightarrow> Transaction" where
  "Transaction_setAuxiliaryData auxiliaryData t = t\<lparr>tx_auxiliaryData := auxiliaryData, tx_originalBytes := None\<rparr>"

definition Transaction_getId :: "tx_lib \<Rightarrow> bool \<Rightarrow> Transaction \<Rightarrow> bytes result" where
  "Transaction_getId L conway t = TransactionBody_hash L conway (tx_body t)"

definition Transaction_clone :: "tx_lib \<Rightarrow> bool \<Rightarrow> Transaction \<Rightarrow> Transaction result" where
  "Transaction_clone L conway t =
     ebind (Transaction_toCbor L conway t) (\<lambda>(cbor, _). Transaction_fromCbor L conway False cbor)"

text \<open>The bytes of the body in the bytes of a transaction.\<close>

definition TxBodyCBOR_fromTxCBOR :: "tx_lib \<Rightarrow> bool \<Rightarrow> bytes \<Rightarrow> bytes result" where
  "TxBodyCBOR_fromTxCBOR L conway txCbor =
     ebind (Transaction_fromCbor L conway False txCbor) (\<lambda>t.
     ebind (Transaction_body L conway t) (TransactionBody_toCbor L conway))"

record TransactionUnspentOutput =
  uo_input :: TransactionInput
  uo_output :: TransactionOutput
  uo_originalBytes :: "bytes option"

definition TransactionUnspentOutput_new :: "TransactionInput \<Rightarrow> TransactionOutput \<Rightarrow> TransactionUnspentOutput" where
  "TransactionUnspentOutput_new input output = \<lparr>uo_input = input, uo_output = output, uo_originalBytes = None\<rparr>"

definition TransactionUnspentOutput_toCbor :: "tx_lib \<Rightarrow> TransactionUnspentOutput \<Rightarrow> bytes result" where
  "TransactionUnspentOutput_toCbor L u = cached (uo_originalBytes u)
     (write_all [writeStartArray (Some 2), writeObject (TransactionInput_toCbor (uo_input u)),
       writeObject (TransactionOutput_toCbor (crc32 (tl_codecs L)) (uo_output u))])"

definition TransactionUnspentOutput_fromCbor :: "tx_lib \<Rightarrow> bytes \<Rightarrow> TransactionUnspentOutput result" where
  "TransactionUnspentOutput_fromCbor L cbor =
     ebind (expectArray 2 (new_reader cbor)) (\<lambda>r.
     ebind (readObject TransactionInput_fromCbor r) (\<lambda>(input, r).
     ebind (readObject (TransactionOutput_fromCbor (crc32 (tl_codecs L)) False) r) (\<lambda>(output, r).
       Inr ((TransactionUnspentOutput_new input output)\<lparr>uo_originalBytes := Some cbor\<rparr>))))"

definition TransactionUnspentOutput_setInput :: "TransactionInput \<Rightarrow> TransactionUnspentOutput \<Rightarrow> TransactionUnspentOutput" where
  "TransactionUnspentOutput_setInput input u = u\<lparr>uo_input := input, uo_originalBytes := None\<rparr>"

definition TransactionUnspentOutput_setOutput :: "TransactionOutput \<Rightarrow> TransactionUnspentOutput \<Rightarrow> TransactionUnspentOutput" where
  "TransactionUnspentOutput_setOutput output u = u\<lparr>uo_output := output, uo_originalBytes := None\<rparr>"

subsection \<open>Unspent outputs are read back\<close>

definition TransactionUnspentOutput_valid :: "tx_lib \<Rightarrow> TransactionUnspentOutput \<Rightarrow> bool" where
  "TransactionUnspentOutput_valid L u \<longleftrightarrow> TransactionInput_valid (uo_input u) \<and>
     TransactionOutput_valid (crc32 (tl_codecs L)) (uo_output u) \<and> uo_originalBytes u = None"

interpretation unspent_output: caching_codec "TransactionUnspentOutput_toCbor L" "TransactionUnspentOutput_fromCbor L"
  "TransactionUnspentOutput_valid L" "\<lambda>u. (input_view (uo_input u), output_content (uo_output u))" for L
proof (unfold_locales, goal_cases)
  case (1 u)
  then have v: "TransactionInput_valid (uo_input u)" "TransactionOutput_valid (crc32 (tl_codecs L)) (uo_output u)" "uo_originalBytes u = None"
    by (simp_all add: TransactionUnspentOutput_valid_def)
  obtain i x where i: "TransactionInput_toCbor (uo_input u) = Inr i" "cbor_item i" "TransactionInput_fromCbor i = Inr x"
    "input_view x = input_view (uo_input u)" using tx_input.encodes [OF v(1)] by blast
  obtain out y where out: "TransactionOutput_toCbor (crc32 (tl_codecs L)) (uo_output u) = Inr out" "cbor_item out"
    "TransactionOutput_fromCbor (crc32 (tl_codecs L)) False out = Inr y" "output_content y = output_content (uo_output u)"
    using tx_output.encodes [OF v(2), of False] by blast
  let ?c = "enc_head ArrayType 2 @ i @ out"
  have "cbor_item ?c" using i(2) out(2) cbor_item_array [of "[i, out]"] by (auto simp: numeral_2_eq_2)
  moreover have "TransactionUnspentOutput_toCbor L u = Inr ?c"
    using v(3) i(1) out(1) by (simp add: TransactionUnspentOutput_toCbor_def write_all_def encode_def writeObject_def writeEncodedValue_def)
  moreover have "TransactionUnspentOutput_fromCbor L ?c = Inr ((TransactionUnspentOutput_new x y)\<lparr>uo_originalBytes := Some ?c\<rparr>)"
    using i(2,3) out(2,3) by (simp add: TransactionUnspentOutput_fromCbor_def expectArray_def readObject_rd readObject_last rd_simps)
  ultimately show ?case using i(4) out(4) by (simp add: TransactionUnspentOutput_new_def)
next
  case (2 b y)
  then have "b \<noteq> []" using expectArray_nonempty by (auto simp: TransactionUnspentOutput_fromCbor_def elim!: ebind_InrE)
  with 2 show ?case
    by (cases b) (auto simp: TransactionUnspentOutput_fromCbor_def TransactionUnspentOutput_toCbor_def elim!: ebind_InrE)
qed

subsection \<open>Transactions are read back\<close>

abbreviation bool_byte :: "bool \<Rightarrow> byte" where
  "bool_byte b \<equiv> (if b then 0xf5 else 0xf4)"

lemma bool_byte_facts: "cbor_item [bool_byte b]" "getMajorType (bool_byte b) = Simple"
  "getAdditionalInfo (bool_byte b) = (if b then AdditionalTrue else AdditionalFalse)"
proof -
  have b: "bool_byte b = initial_byte Simple (if b then 21 else 20)" by (simp add: initial_byte_def byte_of_def)
  show "cbor_item [bool_byte b]" unfolding b by (rule ci_simple) simp
  show "getMajorType (bool_byte b) = Simple" unfolding b by simp
  show "getAdditionalInfo (bool_byte b) = (if b then AdditionalTrue else AdditionalFalse)" unfolding b
    by simp
qed

lemma readBoolean_rd:
  "open_frame fr \<Longrightarrow> readBoolean (rd c pre (bool_byte b # bs) fr stk tag) = Inr (b, rd U (pre @ [bool_byte b]) bs (bumps 1 fr) stk False)"
  using bool_byte_facts [of b] by (simp add: readBoolean_def peekInitialByte_rd)

lemma readAuxiliary_nullable: "readNullable AuxiliaryData_fromCbor r = Inr (y, r') \<Longrightarrow> readAuxiliary r = Inr y"
  by (auto simp: readNullable_def readAuxiliary_def elim!: ebind_InrE split: if_splits)

lemma transaction_frames:
  assumes "cbor_item b" and "TransactionBody_fromCbor L conway strict b = Inr body"
    and "cbor_item w" and "TransactionWitnessSet_fromCbor strict w = Inr ws"
    and "field_ok (writeNullable AuxiliaryData_toCbor x) a (readNullable AuxiliaryData_fromCbor) aux"
  shows "Transaction_fromCbor L conway strict (enc_head ArrayType 4 @ b @ w @ [bool_byte v] @ a) =
      Inr ((Transaction_new body ws aux)\<lparr>tx_isValid := v, tx_originalBytes := Some (enc_head ArrayType 4 @ b @ w @ [bool_byte v] @ a)\<rparr>)"
    and "Transaction_fromCbor L conway strict (enc_head ArrayType 3 @ b @ w @ a) =
      Inr ((Transaction_new body ws aux)\<lparr>tx_originalBytes := Some (enc_head ArrayType 3 @ b @ w @ a)\<rparr>)"
proof -
  have aux: "open_frame fr \<Longrightarrow> readAuxiliary (rd U pre a fr stk False) = Inr aux" for pre fr stk
    using field_okD(4) [OF assms(5)] readAuxiliary_nullable by blast
  note [simp] = Transaction_fromCbor_def ALONZO_ERA_TX_FRAME_SIZE_def
  show "Transaction_fromCbor L conway strict (enc_head ArrayType 4 @ b @ w @ [bool_byte v] @ a) =
      Inr ((Transaction_new body ws aux)\<lparr>tx_isValid := v, tx_originalBytes := Some (enc_head ArrayType 4 @ b @ w @ [bool_byte v] @ a)\<rparr>)"
    using assms(1-4) aux readBoolean_rd [of _ _ _ v] by (simp add: readObject_rd rd_simps del: if_split)
  show "Transaction_fromCbor L conway strict (enc_head ArrayType 3 @ b @ w @ a) =
      Inr ((Transaction_new body ws aux)\<lparr>tx_originalBytes := Some (enc_head ArrayType 3 @ b @ w @ a)\<rparr>)"
    using assms(1-4) aux by (simp add: readObject_rd rd_simps Transaction_new_def)
qed

lemma transaction_cached: "tx_originalBytes t = Some cbor \<Longrightarrow> cbor \<noteq> [] \<Longrightarrow> Transaction_toCbor L conway t = Inr (cbor, t)"
  by (cases cbor) (simp_all add: Transaction_toCbor_def)

text \<open>Writing a transaction again, after the first time changed its witness set, gives the same bytes.\<close>

lemma transaction_again:
  assumes "uniq_ok (tl_uniq L)" and "Transaction_toCbor L conway t = Inr (cbor, u)"
  shows "Transaction_toCbor L conway u = Inr (cbor, u)"
  using assms(2) witness_set_again [OF assms(1)]
  by (auto simp: Transaction_toCbor_def split: option.splits list.splits elim!: ebind_InrE)

text \<open>Writing and reading, from what the body is written as.\<close>

lemma transaction_written:
  assumes "TransactionBody_toCbor L conway (tx_body t) = Inr b" and "cbor_item b" and "TransactionBody_fromCbor L conway strict b = Inr body"
    and "uniq_ok (tl_uniq L)" and "TransactionWitnessSet_valid (tx_witnessSet t)"
    and "pred_option AuxiliaryData_valid (tx_auxiliaryData t)" and "tx_originalBytes t = None"
  obtains cbor y where "Transaction_toCbor L conway t = Inr (cbor, t\<lparr>tx_witnessSet := TransactionWitnessSet_unique (tl_uniq L) (tx_witnessSet t)\<rparr>)"
    and "cbor_item cbor" and "Transaction_fromCbor L conway strict cbor = Inr y" and "tx_body y = body"
    and "witness_content (tx_witnessSet y) = unique_content (witness_content (tx_witnessSet t))"
    and "map_option aux_content (tx_auxiliaryData y) = map_option aux_content (tx_auxiliaryData t)"
    and "tx_isValid y = tx_isValid t" and "Transaction_toCbor L conway y = Inr (cbor, y)"
proof -
  obtain w ws where w: "TransactionWitnessSet_toCbor (tl_uniq L) conway (tx_witnessSet t) = Inr (w, TransactionWitnessSet_unique (tl_uniq L) (tx_witnessSet t))"
    "cbor_item w" "TransactionWitnessSet_fromCbor strict w = Inr ws" "witness_content ws = unique_content (witness_content (tx_witnessSet t))"
    by (rule witness_set_encodes [OF assms(4,5)])
  obtain a aux where a: "field_ok (writeNullable AuxiliaryData_toCbor (tx_auxiliaryData t)) a (readNullable AuxiliaryData_fromCbor) aux"
    "map_option aux_content aux = map_option aux_content (tx_auxiliaryData t)" using field_auxiliary [OF assms(6)] by blast
  note a' = field_okD [OF a(1)]
  define v where "v = [bool_byte (tx_isValid t)]"
  have v: "cbor_item v" using bool_byte_facts(1) v_def by simp
  let ?c = "enc_head ArrayType 4 @ b @ w @ v @ a"
  let ?y = "(Transaction_new body ws aux)\<lparr>tx_isValid := tx_isValid t, tx_originalBytes := Some ?c\<rparr>"
  have written: "Transaction_toCbor L conway t = Inr (?c, t\<lparr>tx_witnessSet := TransactionWitnessSet_unique (tl_uniq L) (tx_witnessSet t)\<rparr>)"
    using assms(1,7) w(1) a'(1) by (simp add: Transaction_toCbor_def ALONZO_ERA_TX_FRAME_SIZE_def write_all_def encode_def writeEncodedValue_def v_def)
  have item: "cbor_item ?c" by (rule cbor_item_array4 [OF assms(2) w(2) v a'(2)])
  have "?c \<noteq> []" using cbor_item_hd(1) [OF assms(2)] by simp
  then have kept: "Transaction_toCbor L conway ?y = Inr (?c, ?y)" by (intro transaction_cached) simp_all
  have "Transaction_fromCbor L conway strict ?c = Inr ?y"
    using transaction_frames(1) [OF assms(2,3) w(2,3) a(1), of "tx_isValid t"] unfolding v_def .
  then show ?thesis by (rule that [OF written item _ _ _ _ _ kept]) (simp_all add: Transaction_new_def w(4) a(2))
qed

definition Transaction_valid :: "tx_lib \<Rightarrow> bool \<Rightarrow> Transaction \<Rightarrow> bool" where
  "Transaction_valid L conway t \<longleftrightarrow> uniq_ok (tl_uniq L) \<and> TransactionBody_valid L conway (tx_body t) \<and>
     TransactionWitnessSet_valid (tx_witnessSet t) \<and> pred_option AuxiliaryData_valid (tx_auxiliaryData t) \<and> tx_originalBytes t = None"

subsection \<open>Properties\<close>

text \<open>C20. A transaction, with any selection of the twenty-four fields of its body, is written as one CBOR item and
  read back, whether or not unknown fields are tolerated, as a transaction with the same body content, the same
  id, the same validity flag and auxiliary data, and the witness set less the repeated signatures. Writing the
  transaction that was read gives the same bytes.\<close>

theorem transaction_roundtrip:
  assumes "Transaction_valid L conway t"
  shows "\<exists>cbor u y. Transaction_toCbor L conway t = Inr (cbor, u) \<and> Transaction_fromCbor L conway strict cbor = Inr y \<and>
    tx_body_content L conway (tx_body y) = tx_body_content L conway (tx_body t) \<and>
    Transaction_getId L conway y = Transaction_getId L conway t \<and> tx_isValid y = tx_isValid t \<and>
    witness_content (tx_witnessSet y) = unique_content (witness_content (tx_witnessSet t)) \<and>
    witness_content (tx_witnessSet u) = unique_content (witness_content (tx_witnessSet t)) \<and>
    map_option aux_content (tx_auxiliaryData y) = map_option aux_content (tx_auxiliaryData t) \<and>
    Transaction_toCbor L conway y = Inr (cbor, y) \<and> Transaction_toCbor L conway u = Inr (cbor, u)"
proof -
  have v: "uniq_ok (tl_uniq L)" "TransactionBody_valid L conway (tx_body t)" "TransactionWitnessSet_valid (tx_witnessSet t)"
    "pred_option AuxiliaryData_valid (tx_auxiliaryData t)" "tx_originalBytes t = None"
    using assms by (simp_all add: Transaction_valid_def)
  obtain b body where b: "TransactionBody_toCbor L conway (tx_body t) = Inr b" "cbor_item b" "TransactionBody_fromCbor L conway strict b = Inr body"
    "tx_body_content L conway body = tx_body_content L conway (tx_body t)" using tx_body.encodes [OF v(2), of strict] by blast
  have id: "TransactionBody_hash L conway body = TransactionBody_hash L conway (tx_body t)"
    using b(1) tx_body.keeps_bytes [OF b(3)] by (simp add: TransactionBody_hash_def)
  show ?thesis
  proof (rule transaction_written [OF b(1-3) v(1,3-5)], goal_cases)
    case (1 cbor y)
    then show ?case using b(4) id unique_witness_content [OF v(1), of "tx_witnessSet t"] transaction_again [OF v(1) 1(1)]
      by (intro exI [of _ cbor] exI [of _ "t\<lparr>tx_witnessSet := TransactionWitnessSet_unique (tl_uniq L) (tx_witnessSet t)\<rparr>"] exI [of _ y])
        (simp add: Transaction_getId_def)
  qed
qed

definition example_lib :: tx_lib where
  "example_lib = \<lparr>tl_codecs = example_codecs,
     tl_ip = \<lparr>ipv4_isValid = \<lambda>s. True, ipv6_isValid = \<lambda>s. True, ipv6_toUnsignedByteArray = \<lambda>s. [], ipv6_canonicalForm = \<lambda>b. Inr []\<rparr>,
     tl_sortEntries = \<lambda>xs. xs, tl_uniq = \<lparr>uniq_vkeys = firsts vw_vkey, uniq_bootstraps = firsts bw_vkey\<rparr>,
     tl_blake2b = \<lambda>b n. take n (b @ replicate n 0)\<rparr>"

definition example_body :: TransactionBody where
  "example_body = TransactionBody_setRequiredSigners \<lparr>cs_values = [replicate 28 9], cs_originalBytes = None\<rparr>
     (TransactionBody_new \<lparr>cs_values = [TransactionInput_new (replicate 32 1) 0, TransactionInput_new (replicate 32 2) 1], cs_originalBytes = None\<rparr>
       [example_output] 170000 (Some 5000))"

lemma example_body_valid: "TransactionBody_valid example_lib conway example_body"
  using example_output_valid
  by (simp add: TransactionBody_valid_def example_body_def TransactionBody_setRequiredSigners_def TransactionBody_new_def set_valid_def
      TransactionInput_valid_def TransactionInput_new_def cbor_int_def)

lemma example_witness_valid: "TransactionWitnessSet_valid example_witness" "uniq_ok (tl_uniq example_lib)"
  by (simp_all add: example_witness_def ws_setters TransactionWitnessSet_valid_def TransactionWitnessSet_new_def set_valid_def VkeyWitness_valid_def
      VkeyWitness_new_def Redeemers_valid_def Redeemers_new_def Redeemer_valid_def Redeemer_new_def ExUnits_valid_def ExUnits_new_def
      uniq_ok_def example_lib_def)

theorem transaction_roundtrip_witness:
  "\<exists>cbor u y. Transaction_toCbor example_lib True (Transaction_new example_body example_witness None) = Inr (cbor, u) \<and>
    Transaction_fromCbor example_lib True True cbor = Inr y \<and> tx_body_content example_lib True (tx_body y) 2 = Some (AmountOf 170000) \<and>
    length (wc_vkeywitnesses (witness_content (tx_witnessSet y))) = 2"
proof -
  let ?t = "Transaction_new example_body example_witness None"
  have "Transaction_valid example_lib True ?t"
    using example_body_valid example_witness_valid by (simp add: Transaction_valid_def Transaction_new_def)
  from transaction_roundtrip [OF this, of True] obtain cbor u y where "Transaction_toCbor example_lib True ?t = Inr (cbor, u)"
    "Transaction_fromCbor example_lib True True cbor = Inr y"
    "tx_body_content example_lib True (tx_body y) = tx_body_content example_lib True (tx_body ?t)"
    "witness_content (tx_witnessSet y) = unique_content (witness_content (tx_witnessSet ?t))" by blast
  moreover have "tx_body_content example_lib True (tx_body ?t) 2 = Some (AmountOf 170000)"
    by (simp add: Transaction_new_def tx_body_content_def tx_heads_def tx_values_def table_content_Cons example_body_def
        TransactionBody_setRequiredSigners_def TransactionBody_new_def)
  moreover have "wc_vkeywitnesses (unique_content (witness_content (tx_witnessSet ?t))) = [([1], [2]), ([4], [5])]"
    by (simp add: Transaction_new_def unique_content_def witness_content_def example_witness_def ws_setters TransactionWitnessSet_new_def
        set_content_def VkeyWitness_toCore_def VkeyWitness_new_def)
  ultimately show ?thesis by (intro exI [of _ cbor] exI [of _ u] exI [of _ y]) simp
qed

text \<open>C21. Signing keeps the transaction: whatever CBOR item the body was read from, canonical or not, a transaction
  with that body is written, with any witness set and auxiliary data, with these bytes of the body in it, so
  that its id stays the hash of these bytes and the reader gives back the body and these bytes.\<close>

theorem signing_keeps_body:
  assumes "cbor_item b" and "TransactionBody_fromCbor L conway False b = Inr body" and "uniq_ok (tl_uniq L)"
    and "TransactionWitnessSet_valid w" and "pred_option AuxiliaryData_valid aux"
  shows "\<exists>cbor u y. Transaction_toCbor L conway (Transaction_setWitnessSet w (Transaction_new body w' aux)) = Inr (cbor, u) \<and>
    Transaction_fromCbor L conway False cbor = Inr y \<and> tx_body y = body \<and>
    Transaction_getId L conway y = Inr (tl_blake2b L b 32) \<and> TxBodyCBOR_fromTxCBOR L conway cbor = Inr b"
proof -
  have kept: "TransactionBody_toCbor L conway body = Inr b" by (rule tx_body.keeps_bytes [OF assms(2)])
  let ?t = "Transaction_setWitnessSet w (Transaction_new body w' aux)"
  have t: "tx_body ?t = body" "tx_witnessSet ?t = w" "tx_auxiliaryData ?t = aux" "tx_originalBytes ?t = None"
    by (simp_all add: Transaction_setWitnessSet_def Transaction_new_def)
  show ?thesis
  proof (rule transaction_written [of L conway ?t b False body], unfold t, goal_cases)
    case (8 cbor y)
    then show ?case using kept assms(2)
      by (auto simp: Transaction_getId_def TransactionBody_hash_def TxBodyCBOR_fromTxCBOR_def Transaction_body_def)
  qed (use kept assms in simp_all)
qed

theorem signing_keeps_body_witness:
  "\<exists>b body cbor u y. TransactionBody_toCbor example_lib True example_body = Inr b \<and>
    TransactionBody_fromCbor example_lib True False b = Inr body \<and>
    Transaction_toCbor example_lib True (Transaction_setWitnessSet example_witness (Transaction_new body TransactionWitnessSet_new None)) = Inr (cbor, u) \<and>
    Transaction_fromCbor example_lib True False cbor = Inr y \<and> Transaction_getId example_lib True y = Inr (tl_blake2b example_lib b 32)"
proof -
  obtain b body where b: "TransactionBody_toCbor example_lib True example_body = Inr b" "cbor_item b"
    "TransactionBody_fromCbor example_lib True False b = Inr body" using tx_body.encodes [OF example_body_valid, of True False] by blast
  have "pred_option AuxiliaryData_valid None" by simp
  from signing_keeps_body [OF b(2,3) example_witness_valid(2,1) this, of TransactionWitnessSet_new] b show ?thesis by blast
qed

lemma flag_is_not_auxiliary:
  shows "state_of_initial_byte (bool_byte v) = BooleanState" and "\<exists>e. AuxiliaryData_fromCbor [bool_byte v] = Inl e"
proof -
  show state: "state_of_initial_byte (bool_byte v) = BooleanState"
    using bool_byte_facts [of v] by (simp add: state_of_initial_byte_def mapSimpleValueDataToReaderState_def)
  show "\<exists>e. AuxiliaryData_fromCbor [bool_byte v] = Inl e"
  proof (cases "AuxiliaryData_fromCbor [bool_byte v]")
    case (Inr y)
    then obtain x where "readStartArray (rd BooleanState [] [bool_byte v] root_frame [] False) = Inr x"
      using peekState_item [OF bool_byte_facts(1) [of v], of "[]"] state by (auto simp: AuxiliaryData_fromCbor_def elim!: ebind_InrE)
    from readStartArray_major [OF this] bool_byte_facts(2) [of v] show ?thesis by simp
  qed blast
qed

text \<open>C39. The flag is read from the four-element frame of Alonzo; the three-element frame of Mary is read as a valid
  transaction. An indefinite-length frame that has the flag is not read at all: the flag is taken for the
  auxiliary data, which fails.\<close>

theorem transaction_frame_flags:
  assumes "cbor_item b" and "TransactionBody_fromCbor L conway strict b = Inr body"
    and "cbor_item w" and "TransactionWitnessSet_fromCbor strict w = Inr ws"
  shows "(\<exists>y. Transaction_fromCbor L conway strict (enc_head ArrayType 4 @ b @ w @ [bool_byte v] @ [0xf6]) = Inr y \<and> tx_isValid y = v) \<and>
    (\<exists>y. Transaction_fromCbor L conway strict (enc_head ArrayType 3 @ b @ w @ [0xf6]) = Inr y \<and> tx_isValid y) \<and>
    (\<exists>e. Transaction_fromCbor L conway strict ((0x9f # b @ w @ [bool_byte v] @ [0xf6]) @ [0xff]) = Inl e)"
proof (intro conjI)
  have null: "field_ok (writeNullable AuxiliaryData_toCbor None) [0xf6] (readNullable AuxiliaryData_fromCbor) None"
    by (simp add: field_ok_def writeNullable_def readNullable_def null_byte peekState_rd peekStateCore_rd readNull_rd)
  show "\<exists>y. Transaction_fromCbor L conway strict (enc_head ArrayType 4 @ b @ w @ [bool_byte v] @ [0xf6]) = Inr y \<and> tx_isValid y = v"
    unfolding transaction_frames(1) [OF assms null, of v] by simp
  show "\<exists>y. Transaction_fromCbor L conway strict (enc_head ArrayType 3 @ b @ w @ [0xf6]) = Inr y \<and> tx_isValid y"
    unfolding transaction_frames(2) [OF assms null] by (simp add: Transaction_new_def)
  define f where "f = [bool_byte v]"
  have f: "cbor_item f" "\<exists>e. AuxiliaryData_fromCbor f = Inl e" "state_of_initial_byte (hd f) = BooleanState"
    unfolding f_def using bool_byte_facts(1) flag_is_not_auxiliary [of v] by simp_all
  show "\<exists>e. Transaction_fromCbor L conway strict ((0x9f # b @ w @ [bool_byte v] @ [0xf6]) @ [0xff]) = Inl e"
    unfolding f_def [symmetric] using assms f
    by (auto simp: Transaction_fromCbor_def ALONZO_ERA_TX_FRAME_SIZE_def readAuxiliary_def readObject_def rd_simps peekState_rd peekStateCore_item)
qed

theorem transaction_frame_flags_witness:
  "\<exists>b w y e. TransactionBody_toCbor example_lib True example_body = Inr b \<and>
    Transaction_fromCbor example_lib True False (enc_head ArrayType 4 @ b @ w @ [bool_byte False] @ [0xf6]) = Inr y \<and> \<not> tx_isValid y \<and>
    Transaction_fromCbor example_lib True False ((0x9f # b @ w @ [bool_byte False] @ [0xf6]) @ [0xff]) = Inl e"
proof -
  obtain b body where b: "TransactionBody_toCbor example_lib True example_body = Inr b" "cbor_item b"
    "TransactionBody_fromCbor example_lib True False b = Inr body" using tx_body.encodes [OF example_body_valid, of True False] by blast
  obtain w ws where w: "cbor_item w" "TransactionWitnessSet_fromCbor False w = Inr ws"
    by (rule witness_set_encodes [OF example_witness_valid(2,1)])
  from transaction_frame_flags [OF b(2,3) w, of False] b(1) show ?thesis by blast
qed

end
