(* ===== verification/Body_States.thy ===== *)
theory Body_States
  imports Transaction
begin

text \<open>
  The states a transaction body can be in: built by the constructor or read from bytes, and changed by the
  setters in any order. The invariant says that field 14 has one form at a time and that cached
  bytes are never stale.
\<close>

subsection \<open>What a loop keeps\<close>

lemma readLoop_keeps:
  assumes "\<And>s r s' r'. step s r = Inr (s', r') \<Longrightarrow> P s \<Longrightarrow> P s'" and "readLoop stop step s r = Inr (s', r')" and "P s"
  shows "P s'"
  using assms
proof (induction stop step s r rule: readLoop.induct)
  case (1 stop step s r)
  from "1.prems"(2) obtain state r1 where peek: "peekState r = Inr (state, r1)"
    and rest: "(if state = stop then Inr (s, r1)
      else ebind (step s r1) (\<lambda>(s', r2). if reader_size r2 < reader_size r then readLoop stop step s' r2 else Inl InvalidStateError)) = Inr (s', r')"
    by (subst (asm) readLoop.simps) auto
  show ?case
  proof (cases "state = stop")
    case True
    with rest "1.prems"(3) show ?thesis by simp
  next
    case False
    with rest obtain s2 r2 where step: "step s r1 = Inr (s2, r2)" "reader_size r2 < reader_size r" "readLoop stop step s2 r2 = Inr (s', r')"
      by (auto split: if_splits)
    from "1.IH" [OF peek refl False step(1) refl step(2) "1.prems"(1) step(3) "1.prems"(1) [OF step(1) "1.prems"(3)]]
    show ?thesis .
  qed
qed

lemma readMapWith_keeps:
  assumes "readMapWith step s r = Inr (s', r')" and "\<And>s r s' r'. step s r = Inr (s', r') \<Longrightarrow> P s \<Longrightarrow> P s'" and "P s"
  shows "P s'"
proof -
  from assms(1) obtain r1 r2 where "readLoop EndMap step s r1 = Inr (s', r2)" by (auto simp: readMapWith_def elim!: ebind_InrE)
  from readLoop_keeps [where P = P and step = step, OF _ this assms(3)] assms(2) show ?thesis by blast
qed

subsection \<open>Reachable bodies\<close>

inductive body_reach :: "tx_lib \<Rightarrow> bool \<Rightarrow> TransactionBody \<Rightarrow> bool" for L conway where
  bs_new: "body_reach L conway (TransactionBody_new inputs outputs fee ttl)"
| bs_fromCbor: "TransactionBody_fromCbor L conway strict cbor = Inr b \<Longrightarrow> body_reach L conway b"
| bs_setInputs: "body_reach L conway b \<Longrightarrow> body_reach L conway (TransactionBody_setInputs x b)"
| bs_setOutputs: "body_reach L conway b \<Longrightarrow> body_reach L conway (TransactionBody_setOutputs x b)"
| bs_setFee: "body_reach L conway b \<Longrightarrow> body_reach L conway (TransactionBody_setFee x b)"
| bs_setTtl: "body_reach L conway b \<Longrightarrow> body_reach L conway (TransactionBody_setTtl x b)"
| bs_setCerts: "body_reach L conway b \<Longrightarrow> body_reach L conway (TransactionBody_setCerts x b)"
| bs_setWithdrawals: "body_reach L conway b \<Longrightarrow> body_reach L conway (TransactionBody_setWithdrawals x b)"
| bs_setUpdate: "body_reach L conway b \<Longrightarrow> body_reach L conway (TransactionBody_setUpdate x b)"
| bs_setAuxiliaryDataHash: "body_reach L conway b \<Longrightarrow> body_reach L conway (TransactionBody_setAuxiliaryDataHash x b)"
| bs_setValidityStartInterval: "body_reach L conway b \<Longrightarrow> body_reach L conway (TransactionBody_setValidityStartInterval x b)"
| bs_setScriptDataHash: "body_reach L conway b \<Longrightarrow> body_reach L conway (TransactionBody_setScriptDataHash x b)"
| bs_setCollateral: "body_reach L conway b \<Longrightarrow> body_reach L conway (TransactionBody_setCollateral x b)"
| bs_setRequiredSigners: "body_reach L conway b \<Longrightarrow> body_reach L conway (TransactionBody_setRequiredSigners x b)"
| bs_setNetworkId: "body_reach L conway b \<Longrightarrow> body_reach L conway (TransactionBody_setNetworkId x b)"
| bs_setCollateralReturn: "body_reach L conway b \<Longrightarrow> body_reach L conway (TransactionBody_setCollateralReturn x b)"
| bs_setTotalCollateral: "body_reach L conway b \<Longrightarrow> body_reach L conway (TransactionBody_setTotalCollateral x b)"
| bs_setReferenceInputs: "body_reach L conway b \<Longrightarrow> body_reach L conway (TransactionBody_setReferenceInputs x b)"
| bs_setVotingProcedures: "body_reach L conway b \<Longrightarrow> body_reach L conway (TransactionBody_setVotingProcedures x b)"
| bs_setProposalProcedures: "body_reach L conway b \<Longrightarrow> body_reach L conway (TransactionBody_setProposalProcedures x b)"
| bs_setCurrentTreasuryValue: "body_reach L conway b \<Longrightarrow> body_reach L conway (TransactionBody_setCurrentTreasuryValue x b)"
| bs_setDonation: "body_reach L conway b \<Longrightarrow> body_reach L conway (TransactionBody_setDonation x b)"
| bs_setSubTransactions: "body_reach L conway b \<Longrightarrow> body_reach L conway (TransactionBody_setSubTransactions x b)"
| bs_setDirectDeposits: "body_reach L conway b \<Longrightarrow> body_reach L conway (TransactionBody_setDirectDeposits x b)"
| bs_setAccountBalanceIntervals: "body_reach L conway b \<Longrightarrow> body_reach L conway (TransactionBody_setAccountBalanceIntervals x b)"
| bs_setMint: "body_reach L conway b \<Longrightarrow> TransactionBody_setMint x b = Inr b' \<Longrightarrow> body_reach L conway b'"
| bs_setGuards: "body_reach L conway b \<Longrightarrow> TransactionBody_setGuards conway x b = Inr b' \<Longrightarrow> body_reach L conway b'"

text \<open>Required signers and guards are not there together, and guards are a set of credentials.\<close>

definition one_form :: "TransactionBody \<Rightarrow> bool" where
  "one_form b \<longleftrightarrow> (tb_guards b = None \<or> tb_requiredSigners b = None \<and> Guards_kind (the (tb_guards b)) = GuardsCredentials)"

text \<open>The cached bytes are those the body was read from.\<close>

definition cache_fresh :: "tx_lib \<Rightarrow> bool \<Rightarrow> TransactionBody \<Rightarrow> bool" where
  "cache_fresh L conway b \<longleftrightarrow> (case tb_originalBytes b of None \<Rightarrow> True
     | Some cbor \<Rightarrow> TransactionBody_fromCbor L conway True cbor = Inr b \<or> TransactionBody_fromCbor L conway False cbor = Inr b)"

lemma setters_one_form:
  "one_form b \<Longrightarrow> one_form (outputs_pushed outs b)"
  "one_form b \<Longrightarrow> one_form (TransactionBody_setInputs x0 b)"
  "one_form b \<Longrightarrow> one_form (TransactionBody_setOutputs x1 b)"
  "one_form b \<Longrightarrow> one_form (TransactionBody_setFee x2 b)"
  "one_form b \<Longrightarrow> one_form (TransactionBody_setTtl x3 b)"
  "one_form b \<Longrightarrow> one_form (TransactionBody_setCerts x4 b)"
  "one_form b \<Longrightarrow> one_form (TransactionBody_setWithdrawals x5 b)"
  "one_form b \<Longrightarrow> one_form (TransactionBody_setUpdate x6 b)"
  "one_form b \<Longrightarrow> one_form (TransactionBody_setAuxiliaryDataHash x7 b)"
  "one_form b \<Longrightarrow> one_form (TransactionBody_setValidityStartInterval x8 b)"
  "one_form b \<Longrightarrow> one_form (TransactionBody_setScriptDataHash x9 b)"
  "one_form b \<Longrightarrow> one_form (TransactionBody_setCollateral x10 b)"
  "one_form b \<Longrightarrow> one_form (TransactionBody_setRequiredSigners x11 b)"
  "one_form b \<Longrightarrow> one_form (TransactionBody_setNetworkId x12 b)"
  "one_form b \<Longrightarrow> one_form (TransactionBody_setCollateralReturn x13 b)"
  "one_form b \<Longrightarrow> one_form (TransactionBody_setTotalCollateral x14 b)"
  "one_form b \<Longrightarrow> one_form (TransactionBody_setReferenceInputs x15 b)"
  "one_form b \<Longrightarrow> one_form (TransactionBody_setVotingProcedures x16 b)"
  "one_form b \<Longrightarrow> one_form (TransactionBody_setProposalProcedures x17 b)"
  "one_form b \<Longrightarrow> one_form (TransactionBody_setCurrentTreasuryValue x18 b)"
  "one_form b \<Longrightarrow> one_form (TransactionBody_setDonation x19 b)"
  "one_form b \<Longrightarrow> one_form (TransactionBody_setSubTransactions x20 b)"
  "one_form b \<Longrightarrow> one_form (TransactionBody_setDirectDeposits x21 b)"
  "one_form b \<Longrightarrow> one_form (TransactionBody_setAccountBalanceIntervals x22 b)"
  by (simp_all add: one_form_def tb_setters outputs_pushed_def TransactionBody_setOutputs_def TransactionBody_setRequiredSigners_def)

lemma new_one_form: "one_form (TransactionBody_new inputs outputs fee ttl)"
  by (simp add: one_form_def TransactionBody_new_def)

lemma set_mint_guards_one_form:
  "TransactionBody_setMint m b = Inr b' \<Longrightarrow> one_form b \<Longrightarrow> one_form b'"
  "TransactionBody_setGuards conway g b = Inr b' \<Longrightarrow> one_form b'"
  by (auto simp: one_form_def TransactionBody_setMint_def TransactionBody_setGuards_def Guards_kind_def elim!: ebind_InrE split: if_splits option.splits)

lemma readBodyField_one_form:
  assumes "readBodyField L conway strict key b r = Inr (b', r')" and "one_form b"
  shows "one_form b'"
  using assms by (auto simp: readBodyField_def readField_def elim!: ebind_InrE split: if_splits
      intro: setters_one_form set_mint_guards_one_form)

lemma fromCbor_one_form:
  assumes "TransactionBody_fromCbor L conway strict cbor = Inr b"
  shows "one_form b"
proof -
  from assms obtain s r where s: "readMapWith (readKeyed (readBodyField L conway strict))
      (TransactionBody_new \<lparr>cs_values = [], cs_originalBytes = None\<rparr> [] 0 None) (new_reader cbor) = Inr (s, r)"
    and b: "b = s\<lparr>tb_originalBytes := Some cbor\<rparr>" by (auto simp: TransactionBody_fromCbor_def elim!: ebind_InrE)
  have "one_form s"
    by (rule readMapWith_keeps [OF s]) (auto simp: readKeyed_def new_one_form elim!: ebind_InrE intro: readBodyField_one_form)
  then show ?thesis by (simp add: b one_form_def)
qed

lemma fromCbor_fresh:
  assumes "TransactionBody_fromCbor L conway strict cbor = Inr b"
  shows "cache_fresh L conway b"
proof -
  have "tb_originalBytes b = Some cbor" using assms by (auto simp: TransactionBody_fromCbor_def elim!: ebind_InrE)
  with assms show ?thesis by (cases strict) (simp_all add: cache_fresh_def)
qed

lemma no_cache_fresh: "tb_originalBytes b = None \<Longrightarrow> cache_fresh L conway b"
  by (simp add: cache_fresh_def)

lemma setters_drop_cache:
  "tb_originalBytes (TransactionBody_new inputs outputs fee ttl) = None"
  "tb_originalBytes (TransactionBody_setInputs x0 b) = None"
  "tb_originalBytes (TransactionBody_setOutputs x1 b) = None"
  "tb_originalBytes (TransactionBody_setFee x2 b) = None"
  "tb_originalBytes (TransactionBody_setTtl x3 b) = None"
  "tb_originalBytes (TransactionBody_setCerts x4 b) = None"
  "tb_originalBytes (TransactionBody_setWithdrawals x5 b) = None"
  "tb_originalBytes (TransactionBody_setUpdate x6 b) = None"
  "tb_originalBytes (TransactionBody_setAuxiliaryDataHash x7 b) = None"
  "tb_originalBytes (TransactionBody_setValidityStartInterval x8 b) = None"
  "tb_originalBytes (TransactionBody_setScriptDataHash x9 b) = None"
  "tb_originalBytes (TransactionBody_setCollateral x10 b) = None"
  "tb_originalBytes (TransactionBody_setRequiredSigners x11 b) = None"
  "tb_originalBytes (TransactionBody_setNetworkId x12 b) = None"
  "tb_originalBytes (TransactionBody_setCollateralReturn x13 b) = None"
  "tb_originalBytes (TransactionBody_setTotalCollateral x14 b) = None"
  "tb_originalBytes (TransactionBody_setReferenceInputs x15 b) = None"
  "tb_originalBytes (TransactionBody_setVotingProcedures x16 b) = None"
  "tb_originalBytes (TransactionBody_setProposalProcedures x17 b) = None"
  "tb_originalBytes (TransactionBody_setCurrentTreasuryValue x18 b) = None"
  "tb_originalBytes (TransactionBody_setDonation x19 b) = None"
  "tb_originalBytes (TransactionBody_setSubTransactions x20 b) = None"
  "tb_originalBytes (TransactionBody_setDirectDeposits x21 b) = None"
  "tb_originalBytes (TransactionBody_setAccountBalanceIntervals x22 b) = None"
  "TransactionBody_setMint m b = Inr b' \<Longrightarrow> tb_originalBytes b' = None"
  "TransactionBody_setGuards conway g b = Inr b' \<Longrightarrow> tb_originalBytes b' = None"
  by (auto simp: TransactionBody_setMint_def TransactionBody_setGuards_def tb_setters TransactionBody_setOutputs_def
      TransactionBody_setRequiredSigners_def TransactionBody_new_def elim!: ebind_InrE split: if_splits)

subsection \<open>Properties\<close>

text \<open>C22. Whatever setters are called in whatever order on a transaction body, new or read from bytes, it never has
  required signers and guards together, its guards are credentials (guards that are key hashes were
  made required signers), and when it keeps bytes these are bytes it is read from as it is, and what
  it is written as.\<close>

theorem reachable_body_well_formed:
  assumes "body_reach L conway b"
  shows "one_form b \<and> cache_fresh L conway b \<and>
    (case tb_originalBytes b of None \<Rightarrow> True | Some cbor \<Rightarrow> TransactionBody_toCbor L conway b = Inr cbor)"
proof -
  from assms have inv: "one_form b \<and> cache_fresh L conway b"
    by induction (auto simp: new_one_form setters_one_form set_mint_guards_one_form fromCbor_one_form
      intro: fromCbor_fresh no_cache_fresh setters_drop_cache)
  moreover have "TransactionBody_toCbor L conway b = Inr cbor" if "tb_originalBytes b = Some cbor" for cbor
    using inv that tx_body.keeps_bytes by (auto simp: cache_fresh_def)
  ultimately show ?thesis by (simp split: option.splits)
qed

definition example_guards :: Guards where
  "example_guards = \<lparr>gu_keyHashes = None, gu_credentials = Some \<lparr>cs_values = [\<lparr>cred_type = ScriptHash, cred_hash = replicate 28 3\<rparr>],
     cs_originalBytes = None\<rparr>\<rparr>"

theorem reachable_body_well_formed_witness:
  "\<exists>b. TransactionBody_setGuards True example_guards example_body = Inr b \<and> body_reach example_lib True b \<and>
     one_form b \<and> tb_guards b \<noteq> None \<and> tb_requiredSigners example_body \<noteq> None"
proof -
  let ?b = "example_body\<lparr>tb_guards := Some example_guards, tb_requiredSigners := None, tb_originalBytes := None\<rparr>"
  have start: "body_reach example_lib True example_body" unfolding example_body_def by (intro bs_setRequiredSigners bs_new)
  have signers: "tb_requiredSigners example_body \<noteq> None" by (simp add: example_body_def TransactionBody_setRequiredSigners_def)
  have set: "TransactionBody_setGuards True example_guards example_body = Inr ?b"
    by (simp add: TransactionBody_setGuards_def example_guards_def Guards_kind_def)
  have reach: "body_reach example_lib True ?b" by (rule bs_setGuards [OF start set])
  from reachable_body_well_formed [OF reach] have "one_form ?b" by (rule conjunct1)
  with set reach signers show ?thesis by (intro exI [of _ ?b]) simp
qed

end
