(* ===== verification/Core_Certificates.thy ===== *)
theory Core_Certificates
  imports Certificate_Union Voting Address_Text Scripts
begin

text \<open>
  Certificates as plain objects (\<open>core/src/Cardano/types/Certificate.ts\<close>), with the groups of
  certificate types and the functions that make and filter them, pool ids
  (\<open>types/StakePool/primitives.ts\<close>), and the parts of a transaction body that the functions on deposits
  and signers read. Hashes are their bytes, as in the other theories.
\<close>

datatype CertificateType =
    StakeRegistration | StakeDeregistration | PoolRegistration | PoolRetirement | StakeDelegation | MIR | GenesisKeyDelegation
  | Registration | Unregistration | VoteDelegation | StakeVoteDelegation | StakeRegistrationDelegation
  | VoteRegistrationDelegation | StakeVoteRegistrationDelegation | AuthorizeCommitteeHot | ResignCommitteeCold
  | RegisterDelegateRepresentative | UnregisterDelegateRepresentative | UpdateDelegateRepresentative

datatype MirCertificateKind = ToOtherPot | ToStakeCreds

text \<open>The URL and the hash of an anchor, or of the metadata of a pool; \<open>None\<close> is \<open>null\<close> or \<open>undefined\<close>.\<close>

type_synonym core_anchor = "(js_string \<times> bytes) option"

text \<open>Relays, with their port and addresses or name (\<open>types/StakePool/Relay.ts\<close>).\<close>

datatype Core_Relay =
    RelayByAddress "string option" "string option" "int option"
  | RelayByName js_string "int option"
  | RelayByNameMultihost js_string

text \<open>The parameters of a pool, without the content of its metadata (fetched from the network).\<close>

record PoolParameters =
  pl_id :: string
  pl_vrf :: bytes
  pl_pledge :: int
  pl_cost :: int
  pl_margin :: Core_Fraction
  pl_rewardAccount :: string
  pl_owners :: "string list"
  pl_relays :: "Core_Relay list"
  pl_metadataJson :: core_anchor

datatype Core_Certificate =
    StakeAddressCertificate bool Credential
  | PoolRegistrationCertificate PoolParameters
  | PoolRetirementCertificate string int
  | StakeDelegationCertificate Credential string
  | MirCertificate MirCertificateKind "Credential option" int MirCertificatePot
  | GenesisKeyDelegationCertificate bytes bytes bytes
  | NewStakeAddressCertificate bool Credential int
  | VoteDelegationCertificate Credential Core_DelegateRepresentative
  | StakeVoteDelegationCertificate Credential string Core_DelegateRepresentative
  | StakeRegistrationDelegationCertificate Credential string int
  | VoteRegistrationDelegationCertificate Credential Core_DelegateRepresentative int
  | StakeVoteRegistrationDelegationCertificate Credential string Core_DelegateRepresentative int
  | AuthorizeCommitteeHotCertificate Credential Credential
  | ResignCommitteeColdCertificate Credential core_anchor
  | RegisterDelegateRepresentativeCertificate Credential int core_anchor
  | UnRegisterDelegateRepresentativeCertificate Credential int
  | UpdateDelegateRepresentativeCertificate Credential core_anchor

text \<open>The field \<open>__typename\<close>; two interfaces stand for two types each (\<open>True\<close>: the registration).\<close>

fun typename :: "Core_Certificate \<Rightarrow> CertificateType" where
  "typename (StakeAddressCertificate reg _) = (if reg then StakeRegistration else StakeDeregistration)"
| "typename (PoolRegistrationCertificate _) = PoolRegistration"
| "typename (PoolRetirementCertificate _ _) = PoolRetirement"
| "typename (StakeDelegationCertificate _ _) = StakeDelegation"
| "typename (MirCertificate _ _ _ _) = MIR"
| "typename (GenesisKeyDelegationCertificate _ _ _) = GenesisKeyDelegation"
| "typename (NewStakeAddressCertificate reg _ _) = (if reg then Registration else Unregistration)"
| "typename (VoteDelegationCertificate _ _) = VoteDelegation"
| "typename (StakeVoteDelegationCertificate _ _ _) = StakeVoteDelegation"
| "typename (StakeRegistrationDelegationCertificate _ _ _) = StakeRegistrationDelegation"
| "typename (VoteRegistrationDelegationCertificate _ _ _) = VoteRegistrationDelegation"
| "typename (StakeVoteRegistrationDelegationCertificate _ _ _ _) = StakeVoteRegistrationDelegation"
| "typename (AuthorizeCommitteeHotCertificate _ _) = AuthorizeCommitteeHot"
| "typename (ResignCommitteeColdCertificate _ _) = ResignCommitteeCold"
| "typename (RegisterDelegateRepresentativeCertificate _ _ _) = RegisterDelegateRepresentative"
| "typename (UnRegisterDelegateRepresentativeCertificate _ _) = UnregisterDelegateRepresentative"
| "typename (UpdateDelegateRepresentativeCertificate _ _) = UpdateDelegateRepresentative"

definition PostConwayStakeRegistrationCertificateTypes :: "CertificateType list" where
  "PostConwayStakeRegistrationCertificateTypes =
     [Registration, VoteRegistrationDelegation, StakeRegistrationDelegation, StakeVoteRegistrationDelegation]"

definition StakeRegistrationCertificateTypes :: "CertificateType list" where
  "StakeRegistrationCertificateTypes = StakeRegistration # PostConwayStakeRegistrationCertificateTypes"

definition StakeDelegationCertificateTypes :: "CertificateType list" where
  "StakeDelegationCertificateTypes = [StakeDelegation, StakeVoteDelegation, StakeRegistrationDelegation, StakeVoteRegistrationDelegation]"

definition RegAndDeregCertificateTypes :: "CertificateType list" where
  "RegAndDeregCertificateTypes = StakeRegistrationCertificateTypes @ [Unregistration, StakeDeregistration]"

definition StakeCredentialCertificateTypes :: "CertificateType list" where
  "StakeCredentialCertificateTypes = RegAndDeregCertificateTypes @ StakeDelegationCertificateTypes @ [VoteDelegation]"

definition VoteDelegationCredentialCertificateTypes :: "CertificateType list" where
  "VoteDelegationCredentialCertificateTypes =
     [VoteDelegation, VoteRegistrationDelegation, StakeVoteDelegation, StakeVoteRegistrationDelegation]"

definition isCertType :: "Core_Certificate \<Rightarrow> CertificateType list \<Rightarrow> bool" where
  "isCertType certificate certificateTypes \<longleftrightarrow> typename certificate \<in> set certificateTypes"

definition key_of_account :: "string_codecs \<Rightarrow> string \<Rightarrow> Credential result" where
  "key_of_account lib rewardAccount = ebind (RewardAccount_toHash lib rewardAccount) (\<lambda>h. Inr \<lparr>cred_type = KeyHash, cred_hash = h\<rparr>)"

definition createStakeRegistrationCert :: "string_codecs \<Rightarrow> string \<Rightarrow> Core_Certificate result" where
  "createStakeRegistrationCert lib rewardAccount =
     ebind (key_of_account lib rewardAccount) (\<lambda>c. Inr (StakeAddressCertificate True c))"

definition createStakeDeregistrationCert :: "string_codecs \<Rightarrow> string \<Rightarrow> int option \<Rightarrow> Core_Certificate result" where
  "createStakeDeregistrationCert lib rewardAccount deposit =
     ebind (key_of_account lib rewardAccount) (\<lambda>c. Inr (case deposit of
         None \<Rightarrow> StakeAddressCertificate False c
       | Some deposit \<Rightarrow> NewStakeAddressCertificate False c deposit))"

definition createDelegationCert :: "string_codecs \<Rightarrow> string \<Rightarrow> string \<Rightarrow> Core_Certificate result" where
  "createDelegationCert lib rewardAccount poolId =
     ebind (key_of_account lib rewardAccount) (\<lambda>c. Inr (StakeDelegationCertificate c poolId))"

definition stakeKeyCertificates :: "Core_Certificate list option \<Rightarrow> Core_Certificate list" where
  "stakeKeyCertificates certificates = (case certificates of None \<Rightarrow> []
     | Some certificates \<Rightarrow> filter (\<lambda>cert. isCertType cert RegAndDeregCertificateTypes) certificates)"

definition includesAnyCertificate :: "Core_Certificate list \<Rightarrow> CertificateType list \<Rightarrow> bool" where
  "includesAnyCertificate haystack needle = list_ex (\<lambda>cert. typename cert \<in> set needle) haystack"

text \<open>
  Pool ids are printed with the package \<open>bech32\<close>; \<open>bech32.encode(prefix, bech32.toWords(bytes))\<close> is the
  parameter. Different key hashes give different strings. They are read with the package \<open>@scure/base\<close>.
\<close>

type_synonym package_bech32 = "string \<Rightarrow> bytes \<Rightarrow> string result"

definition PoolId_fromKeyHash :: "package_bech32 \<Rightarrow> bytes \<Rightarrow> string result" where
  "PoolId_fromKeyHash toTyped value = toTyped ''pool'' value"

definition pool_ids_ok :: "package_bech32 \<Rightarrow> bool" where
  "pool_ids_ok toTyped \<longleftrightarrow> (\<forall>h. length h = 28 \<longrightarrow> (\<exists>s. toTyped ''pool'' h = Inr s)) \<and>
     (\<forall>h h' s. toTyped ''pool'' h = Inr s \<longrightarrow> toTyped ''pool'' h' = Inr s \<longrightarrow> h = h')"

definition PoolId_toKeyHash :: "string_codecs \<Rightarrow> string \<Rightarrow> bytes result" where
  "PoolId_toKeyHash lib poolId =
     ebind (bech32_decode lib poolId MAX_BECH32_LENGTH_LIMIT) (\<lambda>(_, words).
     ebind (bech32_fromWords lib words) (typedHash 28))"

record Withdrawal =
  wd_stakeAddress :: string
  wd_quantity :: int

record Core_ProposalProcedure =
  cpr_deposit :: int
  cpr_rewardAccount :: string

record Core_TxBody =
  cb_certificates :: "Core_Certificate list option"
  cb_withdrawals :: "Withdrawal list option"
  cb_proposalProcedures :: "Core_ProposalProcedure list option"
  cb_requiredExtraSignatures :: "bytes list option"
  cb_votingProcedures :: "Core_Voter list option"

text \<open>A reward account is read back as the address of its credential.\<close>

lemma reward_account_text:
  assumes "codecs_ok lib" and "length (cred_hash c) = 28" and "n < 16" and "RewardAccount_fromCredential lib c n = Inr s"
  shows "Address_fromBech32 lib s = Inr (RewardAddress_fromCredentials n c)"
proof -
  let ?a = "RewardAddress_fromCredentials n c"
  have ptr: "\<forall>p. ap_pointer ?a = Some p \<longrightarrow> ptr_slot p < 18446744073709551616"
    by (simp add: RewardAddress_fromCredentials_def RewardAddress_new_def)
  obtain s' where s': "Address_toBech32 lib ?a = Inr s'" "Address_fromBech32 lib s' = Inr ?a"
    by (rule bech32_address [OF assms(1) fromCredentials_valid(3) [OF assms(3,2)] ptr])
  have "s = s'" using assms(4) s'(1)
    by (auto simp: RewardAccount_fromCredential_def RewardAccount_def typedBech32_def elim!: ebind_InrE)
  with s'(2) show ?thesis by simp
qed

end
