(* ===== verification/Implicit_Coin.thy ===== *)
theory Implicit_Coin
  imports Core_Certificates Input_Selection
begin

text \<open>
  The implicit coin of a transaction (\<open>core/src/Cardano/util/computeImplicitCoin.ts\<close>): deposits, reclaimed
  deposits and withdrawals, all of them or those of given reward accounts and a given DRep.
\<close>

record Deposits =
  dp_deposit :: int
  dp_reclaimDeposit :: int

record DepositProtocolParams =
  dpp_stakeKeyDeposit :: int
  dpp_poolDeposit :: "int option"

definition stakeCredentialInRewardAccounts :: "string_codecs \<Rightarrow> Credential \<Rightarrow> string list \<Rightarrow> bool result" where
  "stakeCredentialInRewardAccounts lib stakeCredential rewardAccounts = (case rewardAccounts of
       [] \<Rightarrow> Inr True
     | first # _ \<Rightarrow>
         ebind (RewardAccount_toNetworkId lib first) (\<lambda>networkId.
         ebind (the_field networkId) (\<lambda>networkId.
         ebind (RewardAccount_fromCredential lib stakeCredential networkId) (\<lambda>account.
           Inr (account \<in> set rewardAccounts)))))"

definition add_deposit :: "int \<Rightarrow> Deposits \<Rightarrow> Deposits" where
  "add_deposit n d = d\<lparr>dp_deposit := dp_deposit d + n\<rparr>"

definition add_reclaim :: "int \<Rightarrow> Deposits \<Rightarrow> Deposits" where
  "add_reclaim n d = d\<lparr>dp_reclaimDeposit := dp_reclaimDeposit d + n\<rparr>"

definition when_own :: "bool result \<Rightarrow> (Deposits \<Rightarrow> Deposits) \<Rightarrow> Deposits \<Rightarrow> Deposits result" where
  "when_own own f d = ebind own (\<lambda>own. Inr (if own then f d else d))"

fun shelleyDeposit :: "string_codecs \<Rightarrow> int \<Rightarrow> int \<Rightarrow> string list \<Rightarrow> string list \<Rightarrow> Deposits \<Rightarrow> Core_Certificate \<Rightarrow> Deposits result" where
  "shelleyDeposit lib stakeKeyDeposit poolDeposit rewardAccounts poolIds d (StakeAddressCertificate reg stakeCredential) =
     when_own (stakeCredentialInRewardAccounts lib stakeCredential rewardAccounts)
       (if reg then add_deposit stakeKeyDeposit else add_reclaim stakeKeyDeposit) d"
| "shelleyDeposit lib stakeKeyDeposit poolDeposit rewardAccounts poolIds d (PoolRegistrationCertificate poolParameters) =
     when_own (Inr (rewardAccounts = [] \<or> list_ex (\<lambda>acct. acct \<in> set (pl_owners poolParameters)) rewardAccounts)) (add_deposit poolDeposit) d"
| "shelleyDeposit lib stakeKeyDeposit poolDeposit rewardAccounts poolIds d (PoolRetirementCertificate poolId _) =
     when_own (Inr (rewardAccounts = [] \<or> poolId \<in> set poolIds)) (add_reclaim poolDeposit) d"
| "shelleyDeposit lib stakeKeyDeposit poolDeposit rewardAccounts poolIds d _ = Inr d"

definition accountPoolId :: "string_codecs \<Rightarrow> package_bech32 \<Rightarrow> string \<Rightarrow> string result" where
  "accountPoolId lib toTyped account =
     ebind (RewardAccount_toHash lib account) (\<lambda>h. ebind (typedHash 28 h) (PoolId_fromKeyHash toTyped))"

definition computeShellyDeposits :: "string_codecs \<Rightarrow> package_bech32 \<Rightarrow> int \<Rightarrow> int \<Rightarrow> Core_Certificate list \<Rightarrow> string list \<Rightarrow> Deposits result" where
  "computeShellyDeposits lib toTyped stakeKeyDeposit poolDeposit certificates rewardAccounts =
     ebind (emap (accountPoolId lib toTyped) rewardAccounts) (\<lambda>poolIds.
       efoldl (shelleyDeposit lib stakeKeyDeposit poolDeposit rewardAccounts poolIds) \<lparr>dp_deposit = 0, dp_reclaimDeposit = 0\<rparr> certificates)"

definition ownDRep :: "bytes option \<Rightarrow> Credential \<Rightarrow> bool" where
  "ownDRep dRepKeyHash dRepCredential = (case dRepKeyHash of None \<Rightarrow> True
     | Some h \<Rightarrow> cred_type dRepCredential = KeyHash \<and> cred_hash dRepCredential = h)"

fun conwayDeposit :: "string_codecs \<Rightarrow> string list \<Rightarrow> bytes option \<Rightarrow> Deposits \<Rightarrow> Core_Certificate \<Rightarrow> Deposits result" where
  "conwayDeposit lib rewardAccounts dRepKeyHash d (NewStakeAddressCertificate reg stakeCredential deposit) =
     when_own (stakeCredentialInRewardAccounts lib stakeCredential rewardAccounts)
       (if reg then add_deposit deposit else add_reclaim deposit) d"
| "conwayDeposit lib rewardAccounts dRepKeyHash d (StakeRegistrationDelegationCertificate stakeCredential _ deposit) =
     when_own (stakeCredentialInRewardAccounts lib stakeCredential rewardAccounts) (add_deposit deposit) d"
| "conwayDeposit lib rewardAccounts dRepKeyHash d (VoteRegistrationDelegationCertificate stakeCredential _ deposit) =
     when_own (stakeCredentialInRewardAccounts lib stakeCredential rewardAccounts) (add_deposit deposit) d"
| "conwayDeposit lib rewardAccounts dRepKeyHash d (StakeVoteRegistrationDelegationCertificate stakeCredential _ _ deposit) =
     when_own (stakeCredentialInRewardAccounts lib stakeCredential rewardAccounts) (add_deposit deposit) d"
| "conwayDeposit lib rewardAccounts dRepKeyHash d (RegisterDelegateRepresentativeCertificate dRepCredential deposit _) =
     when_own (Inr (ownDRep dRepKeyHash dRepCredential)) (add_deposit deposit) d"
| "conwayDeposit lib rewardAccounts dRepKeyHash d (UnRegisterDelegateRepresentativeCertificate dRepCredential deposit) =
     when_own (Inr (ownDRep dRepKeyHash dRepCredential)) (add_reclaim deposit) d"
| "conwayDeposit lib rewardAccounts dRepKeyHash d _ = Inr d"

definition computeConwayDeposits :: "string_codecs \<Rightarrow> Core_Certificate list \<Rightarrow> string list \<Rightarrow> bytes option \<Rightarrow>
    Core_ProposalProcedure list option \<Rightarrow> Deposits result" where
  "computeConwayDeposits lib certificates rewardAccounts dRepKeyHash proposalProcedures =
     ebind (efoldl (conwayDeposit lib rewardAccounts dRepKeyHash) \<lparr>dp_deposit = 0, dp_reclaimDeposit = 0\<rparr> certificates) (\<lambda>d.
       Inr (case proposalProcedures of None \<Rightarrow> d
            | Some proposals \<Rightarrow> foldl (\<lambda>d proposal. add_deposit (cpr_deposit proposal) d) d proposals))"

definition getTxDeposits :: "string_codecs \<Rightarrow> package_bech32 \<Rightarrow> DepositProtocolParams \<Rightarrow> Core_Certificate list \<Rightarrow> string list \<Rightarrow> bytes option \<Rightarrow>
    Core_ProposalProcedure list option \<Rightarrow> Deposits result" where
  "getTxDeposits lib toTyped params certificates rewardAccounts dRepKeyHash proposalProcedures =
     (if certificates = [] \<and> (proposalProcedures = None \<or> proposalProcedures = Some []) then Inr \<lparr>dp_deposit = 0, dp_reclaimDeposit = 0\<rparr>
      else
        ebind (computeShellyDeposits lib toTyped (dpp_stakeKeyDeposit params) (or_zero (dpp_poolDeposit params)) certificates rewardAccounts) (\<lambda>shelley.
        ebind (computeConwayDeposits lib certificates rewardAccounts dRepKeyHash proposalProcedures) (\<lambda>conway.
          Inr \<lparr>dp_deposit = dp_deposit shelley + dp_deposit conway, dp_reclaimDeposit = dp_reclaimDeposit shelley + dp_reclaimDeposit conway\<rparr>)))"

definition getOwnWithdrawalsTotal :: "Withdrawal list \<Rightarrow> string list \<Rightarrow> int" where
  "getOwnWithdrawalsTotal withdrawals rewardAccounts =
     bigint_sum (map wd_quantity (filter (\<lambda>w. wd_stakeAddress w \<in> set rewardAccounts) withdrawals))"

definition computeImplicitCoin :: "string_codecs \<Rightarrow> package_bech32 \<Rightarrow> DepositProtocolParams \<Rightarrow> Core_TxBody \<Rightarrow> string list option \<Rightarrow> bytes option \<Rightarrow>
    PartialImplicitCoin result" where
  "computeImplicitCoin lib toTyped params body rewardAccounts dRepKeyHash =
     ebind (getTxDeposits lib toTyped params (case cb_certificates body of None \<Rightarrow> [] | Some cs \<Rightarrow> cs)
       (case rewardAccounts of None \<Rightarrow> [] | Some accounts \<Rightarrow> accounts) dRepKeyHash (cb_proposalProcedures body)) (\<lambda>d.
       let withdrawals = (case cb_withdrawals body of None \<Rightarrow> [] | Some ws \<Rightarrow> ws);
           withdrawalsTotal = (case rewardAccounts of
               Some (a # as) \<Rightarrow> getOwnWithdrawalsTotal withdrawals (a # as)
             | _ \<Rightarrow> bigint_sum (map wd_quantity withdrawals)) in
       Inr \<lparr>pc_deposit = Some (dp_deposit d), pc_input = Some (withdrawalsTotal + dp_reclaimDeposit d),
         pc_reclaimDeposit = Some (dp_reclaimDeposit d), pc_withdrawals = Some withdrawalsTotal\<rparr>)"

subsection \<open>What one certificate contributes\<close>

text \<open>
  The reference: the deposit and the reclaimed deposit of one certificate, where the first four arguments
  say which credentials, pool owners, pools and DReps are counted.
\<close>

fun contribution :: "(Credential \<Rightarrow> bool) \<Rightarrow> (string list \<Rightarrow> bool) \<Rightarrow> (string \<Rightarrow> bool) \<Rightarrow> (Credential \<Rightarrow> bool) \<Rightarrow> int \<Rightarrow> int \<Rightarrow>
    Core_Certificate \<Rightarrow> int \<times> int" where
  "contribution own owners pool drep key pl (StakeAddressCertificate reg c) = (if own c then if reg then (key, 0) else (0, key) else (0, 0))"
| "contribution own owners pool drep key pl (PoolRegistrationCertificate p) = (if owners (pl_owners p) then (pl, 0) else (0, 0))"
| "contribution own owners pool drep key pl (PoolRetirementCertificate p _) = (if pool p then (0, pl) else (0, 0))"
| "contribution own owners pool drep key pl (NewStakeAddressCertificate reg c n) = (if own c then if reg then (n, 0) else (0, n) else (0, 0))"
| "contribution own owners pool drep key pl (StakeRegistrationDelegationCertificate c _ n) = (if own c then (n, 0) else (0, 0))"
| "contribution own owners pool drep key pl (VoteRegistrationDelegationCertificate c _ n) = (if own c then (n, 0) else (0, 0))"
| "contribution own owners pool drep key pl (StakeVoteRegistrationDelegationCertificate c _ _ n) = (if own c then (n, 0) else (0, 0))"
| "contribution own owners pool drep key pl (RegisterDelegateRepresentativeCertificate c n _) = (if drep c then (n, 0) else (0, 0))"
| "contribution own owners pool drep key pl (UnRegisterDelegateRepresentativeCertificate c n) = (if drep c then (0, n) else (0, 0))"
| "contribution own owners pool drep key pl _ = (0, 0)"

text \<open>The stake credential of a certificate that has one.\<close>

fun stake_credential :: "Core_Certificate \<Rightarrow> Credential option" where
  "stake_credential (StakeAddressCertificate _ c) = Some c"
| "stake_credential (StakeDelegationCertificate c _) = Some c"
| "stake_credential (NewStakeAddressCertificate _ c _) = Some c"
| "stake_credential (VoteDelegationCertificate c _) = Some c"
| "stake_credential (StakeVoteDelegationCertificate c _ _) = Some c"
| "stake_credential (StakeRegistrationDelegationCertificate c _ _) = Some c"
| "stake_credential (VoteRegistrationDelegationCertificate c _ _) = Some c"
| "stake_credential (StakeVoteRegistrationDelegationCertificate c _ _ _) = Some c"
| "stake_credential _ = None"

definition add_both :: "int \<times> int \<Rightarrow> Deposits \<Rightarrow> Deposits" where
  "add_both n d = add_deposit (fst n) (add_reclaim (snd n) d)"

lemma add_both_simps [simp]:
  "add_deposit 0 d = d" "add_reclaim 0 d = d" "add_both (0, 0) d = d" "add_both (n, 0) d = add_deposit n d" "add_both (0, n) d = add_reclaim n d"
  "dp_deposit (add_both x d) = dp_deposit d + fst x" "dp_reclaimDeposit (add_both x d) = dp_reclaimDeposit d + snd x"
  by (simp_all add: add_both_def add_deposit_def add_reclaim_def)

abbreviation shelley_types :: "CertificateType list" where
  "shelley_types \<equiv> [StakeRegistration, StakeDeregistration, PoolRegistration, PoolRetirement]"

definition counted :: "string_codecs \<Rightarrow> string list \<Rightarrow> string list \<Rightarrow> bytes option \<Rightarrow> (Credential \<Rightarrow> bool) \<Rightarrow> int \<Rightarrow> int \<Rightarrow> Core_Certificate \<Rightarrow> int \<times> int" where
  "counted lib accounts pools drep own = contribution own (\<lambda>os. accounts = [] \<or> list_ex (\<lambda>acct. acct \<in> set os) accounts)
     (\<lambda>p. accounts = [] \<or> p \<in> set pools) (ownDRep drep)"

text \<open>Each certificate is counted by one of the two loops.\<close>

lemma deposit_steps:
  assumes "pred_option (\<lambda>c. stakeCredentialInRewardAccounts lib c accounts = Inr (own c)) (stake_credential cert)"
  shows "shelleyDeposit lib key pl accounts pools d cert =
      Inr (add_both (if isCertType cert shelley_types then counted lib accounts pools drep own key pl cert else (0, 0)) d)"
    and "conwayDeposit lib accounts drep d cert =
      Inr (add_both (if isCertType cert shelley_types then (0, 0) else counted lib accounts pools drep own key pl cert) d)"
proof -
  show "shelleyDeposit lib key pl accounts pools d cert =
      Inr (add_both (if isCertType cert shelley_types then counted lib accounts pools drep own key pl cert else (0, 0)) d)"
    using assms by (cases cert) (simp_all add: when_own_def isCertType_def counted_def)
  show "conwayDeposit lib accounts drep d cert =
      Inr (add_both (if isCertType cert shelley_types then (0, 0) else counted lib accounts pools drep own key pl cert) d)"
    using assms by (cases cert) (simp_all add: when_own_def isCertType_def counted_def)
qed

lemma efoldl_deposits:
  assumes "\<And>cert d. cert \<in> set certs \<Longrightarrow> f d cert = Inr (add_both (g cert) d)"
  shows "\<exists>e. efoldl f d certs = Inr e \<and> dp_deposit e = dp_deposit d + sum_list (map (fst \<circ> g) certs) \<and>
    dp_reclaimDeposit e = dp_reclaimDeposit d + sum_list (map (snd \<circ> g) certs)"
  using assms
proof (induction certs arbitrary: d)
  case (Cons c certs)
  from Cons.IH [of "add_both (g c) d"] Cons.prems show ?case by (auto simp: algebra_simps)
qed simp

lemma foldl_proposals:
  "dp_deposit (foldl (\<lambda>d proposal. add_deposit (cpr_deposit proposal) d) d ps) = dp_deposit d + sum_list (map cpr_deposit ps)"
  "dp_reclaimDeposit (foldl (\<lambda>d proposal. add_deposit (cpr_deposit proposal) d) d ps) = dp_reclaimDeposit d"
  by (induction ps arbitrary: d) (simp_all add: add_deposit_def)

lemma split_sum: "sum_list (map (\<lambda>c. f (if P c then g c else (0, 0 :: int))) cs) + sum_list (map (\<lambda>c. f (if P c then (0, 0) else g c)) cs) =
    sum_list (map (\<lambda>c. f (g c)) cs)" if "f (0, 0) = (0 :: int)"
  using that by (induction cs) auto

definition proposals_of :: "Core_ProposalProcedure list option \<Rightarrow> Core_ProposalProcedure list" where
  "proposals_of ps = (case ps of None \<Rightarrow> [] | Some ps \<Rightarrow> ps)"

lemma tx_deposits:
  assumes "\<forall>cert \<in> set certs. pred_option (\<lambda>c. stakeCredentialInRewardAccounts lib c accounts = Inr (own c)) (stake_credential cert)"
    and "emap (accountPoolId lib toTyped) accounts = Inr pools"
  shows "getTxDeposits lib toTyped params certs accounts drep proposals =
    (let n = counted lib accounts pools drep own (dpp_stakeKeyDeposit params) (or_zero (dpp_poolDeposit params)) in
     Inr \<lparr>dp_deposit = sum_list (map (\<lambda>c. fst (n c)) certs) + sum_list (map cpr_deposit (proposals_of proposals)),
          dp_reclaimDeposit = sum_list (map (\<lambda>c. snd (n c)) certs)\<rparr>)"
proof -
  let ?key = "dpp_stakeKeyDeposit params" and ?pl = "or_zero (dpp_poolDeposit params)"
  let ?zero = "\<lparr>dp_deposit = 0, dp_reclaimDeposit = 0\<rparr>"
  let ?n = "counted lib accounts pools drep own ?key ?pl"
  obtain s where s: "efoldl (shelleyDeposit lib ?key ?pl accounts pools) ?zero certs = Inr s"
    "dp_deposit s = sum_list (map (\<lambda>c. fst (if isCertType c shelley_types then ?n c else (0, 0))) certs)"
    "dp_reclaimDeposit s = sum_list (map (\<lambda>c. snd (if isCertType c shelley_types then ?n c else (0, 0))) certs)"
    using efoldl_deposits [of certs "shelleyDeposit lib ?key ?pl accounts pools" "\<lambda>c. if isCertType c shelley_types then ?n c else (0, 0)" ?zero]
      deposit_steps(1) assms(1) by (auto simp: comp_def)
  obtain c where c: "efoldl (conwayDeposit lib accounts drep) ?zero certs = Inr c"
    "dp_deposit c = sum_list (map (\<lambda>c. fst (if isCertType c shelley_types then (0, 0) else ?n c)) certs)"
    "dp_reclaimDeposit c = sum_list (map (\<lambda>c. snd (if isCertType c shelley_types then (0, 0) else ?n c)) certs)"
    using efoldl_deposits [of certs "conwayDeposit lib accounts drep" "\<lambda>c. if isCertType c shelley_types then (0, 0) else ?n c" ?zero]
      deposit_steps(2) assms(1) by (auto simp: comp_def)
  have sums: "dp_deposit s + dp_deposit c = sum_list (map (\<lambda>c. fst (?n c)) certs)"
    "dp_reclaimDeposit s + dp_reclaimDeposit c = sum_list (map (\<lambda>c. snd (?n c)) certs)"
    unfolding s(2,3) c(2,3) using split_sum [where f = fst] split_sum [where f = snd] by simp_all
  show ?thesis
  proof (cases "certs = [] \<and> (proposals = None \<or> proposals = Some [])")
    case True
    then show ?thesis by (auto simp: getTxDeposits_def proposals_of_def)
  next
    case False
    with sums s(1) c(1) assms(2) show ?thesis unfolding getTxDeposits_def
      by (cases proposals) (simp_all add: computeShellyDeposits_def computeConwayDeposits_def proposals_of_def foldl_proposals Let_def algebra_simps)
  qed
qed

subsection \<open>Own accounts\<close>

lemma reward_account_inj:
  assumes "codecs_ok lib" and "length (cred_hash c) = 28" and "length (cred_hash c') = 28" and "n < 16"
    and "RewardAccount_fromCredential lib c n = Inr s" and "RewardAccount_fromCredential lib c' n = Inr s"
  shows "c = c'"
proof -
  have "RewardAddress_fromCredentials n c = RewardAddress_fromCredentials n c'"
    using reward_account_text [OF assms(1,2,4,5)] reward_account_text [OF assms(1,3,4,6)] by simp
  then have "ap_paymentPart (RewardAddress_fromCredentials n c) = ap_paymentPart (RewardAddress_fromCredentials n c')" by simp
  then show ?thesis by (simp add: RewardAddress_fromCredentials_def RewardAddress_new_def)
qed

text \<open>The accounts of the credentials \<open>own\<close> on one network.\<close>

definition accounts_of :: "string_codecs \<Rightarrow> nat \<Rightarrow> Credential list \<Rightarrow> string list \<Rightarrow> bool" where
  "accounts_of lib n own accounts \<longleftrightarrow> n < 16 \<and> (\<forall>c \<in> set own. length (cred_hash c) = 28) \<and>
     emap (\<lambda>c. RewardAccount_fromCredential lib c n) own = Inr accounts"

lemma in_own_accounts:
  assumes "codecs_ok lib" and "accounts_of lib n own accounts" and "length (cred_hash c) = 28"
  shows "stakeCredentialInRewardAccounts lib c accounts = Inr (own = [] \<or> c \<in> set own)"
proof (cases own)
  case Nil
  with assms(2) show ?thesis by (simp add: accounts_of_def stakeCredentialInRewardAccounts_def)
next
  case (Cons c0 cs)
  have all: "list_all2 (\<lambda>c s. RewardAccount_fromCredential lib c n = Inr s) own accounts" "n < 16" "\<forall>c \<in> set own. length (cred_hash c) = 28"
    using assms(2) by (simp_all add: accounts_of_def emap_eq_Inr)
  then obtain a as where a: "accounts = a # as" "RewardAccount_fromCredential lib c0 n = Inr a" using Cons by (auto simp: list_all2_Cons1)
  obtain s where s: "RewardAccount_fromCredential lib c n = Inr s" using reward_account_ids [OF assms(1,3) all(2)] by blast
  have "RewardAccount_toNetworkId lib a = Inr (Some n)"
    using reward_account_ids [OF assms(1) _ all(2), of c0] all(3) Cons a(2) by auto
  moreover have "s \<in> set accounts \<longleftrightarrow> c \<in> set own"
  proof
    assume "s \<in> set accounts"
    then obtain c' where "c' \<in> set own" "RewardAccount_fromCredential lib c' n = Inr s"
      using all(1) by (fastforce simp: list_all2_conv_all_nth in_set_conv_nth)
    then show "c \<in> set own" using reward_account_inj [OF assms(1,3) _ all(2) s] all(3) by blast
  next
    assume "c \<in> set own"
    then obtain s' where "s' \<in> set accounts" "RewardAccount_fromCredential lib c n = Inr s'"
      using all(1) by (fastforce simp: list_all2_conv_all_nth in_set_conv_nth)
    with s show "s \<in> set accounts" by simp
  qed
  ultimately show ?thesis using a(1) s Cons by (simp add: stakeCredentialInRewardAccounts_def)
qed

lemma own_pools:
  assumes "codecs_ok lib" and "pool_ids_ok toTyped" and "accounts_of lib n own accounts"
  shows "\<exists>pools. emap (accountPoolId lib toTyped) accounts = Inr pools \<and> emap (\<lambda>c. PoolId_fromKeyHash toTyped (cred_hash c)) own = Inr pools"
proof -
  have own: "n < 16" "\<forall>c \<in> set own. length (cred_hash c) = 28" "list_all2 (\<lambda>c s. RewardAccount_fromCredential lib c n = Inr s) own accounts"
    using assms(3) by (simp_all add: accounts_of_def emap_eq_Inr)
  from own(3,2) show ?thesis
  proof (induction rule: list_all2_induct)
    case (Cons c cs a as)
    have h: "length (cred_hash c) = 28" using Cons.prems by simp
    then obtain p where "toTyped ''pool'' (cred_hash c) = Inr p" using assms(2) by (auto simp: pool_ids_ok_def)
    moreover have "RewardAccount_toHash lib a = Inr (cred_hash c)" using reward_account_ids [OF assms(1) h own(1)] Cons.hyps(1) by auto
    ultimately show ?case using Cons.IH Cons.prems h by (auto simp: accountPoolId_def PoolId_fromKeyHash_def typedHash_def)
  qed simp
qed

subsection \<open>Properties\<close>

definition list_of :: "'a list option \<Rightarrow> 'a list" where
  "list_of xs = (case xs of None \<Rightarrow> [] | Some xs \<Rightarrow> xs)"

lemma list_of_simps [simp]: "list_of None = []" "list_of (Some xs) = xs"
  by (simp_all add: list_of_def)

text \<open>C7. The implicit coin is what the certificates, proposals and withdrawals say, each counted once although two
  loops look at the certificates: with the reward accounts of some credentials (or none, for everything),
  a deposit or a reclaimed deposit of a certificate counts when its credential is one of these, a pool registration when
  one of the accounts is an owner, a pool retirement when the pool id is that of one of the keys, a
  DRep certificate when it is of the given DRep, and a withdrawal when it is from one of the accounts. The deposits of
  all proposals count, whoever made them.\<close>

theorem implicit_coin_counts_own:
  assumes "codecs_ok lib" and "pool_ids_ok toTyped" and "accounts_of lib n own accounts"
    and "\<forall>cert \<in> set (list_of (cb_certificates body)). pred_option (\<lambda>c. length (cred_hash c) = 28) (stake_credential cert)"
  shows "\<exists>pools coin. emap (\<lambda>c. PoolId_fromKeyHash toTyped (cred_hash c)) own = Inr pools \<and>
    computeImplicitCoin lib toTyped params body (Some accounts) drep = Inr coin \<and>
    (let n = contribution (\<lambda>c. own = [] \<or> c \<in> set own) (\<lambda>owners. own = [] \<or> set owners \<inter> set accounts \<noteq> {})
           (\<lambda>p. own = [] \<or> p \<in> set pools) (\<lambda>c. drep = None \<or> c = \<lparr>cred_type = KeyHash, cred_hash = the drep\<rparr>)
           (dpp_stakeKeyDeposit params) (or_zero (dpp_poolDeposit params));
         ws = filter (\<lambda>w. own = [] \<or> wd_stakeAddress w \<in> set accounts) (list_of (cb_withdrawals body)) in
     pc_deposit coin = Some (sum_list (map (\<lambda>c. fst (n c)) (list_of (cb_certificates body))) +
       sum_list (map cpr_deposit (list_of (cb_proposalProcedures body)))) \<and>
     pc_reclaimDeposit coin = Some (sum_list (map (\<lambda>c. snd (n c)) (list_of (cb_certificates body)))) \<and>
     pc_withdrawals coin = Some (sum_list (map wd_quantity ws)) \<and>
     pc_input coin = Some (sum_list (map wd_quantity ws) + sum_list (map (\<lambda>c. snd (n c)) (list_of (cb_certificates body)))))"
proof -
  obtain pools where pools: "emap (accountPoolId lib toTyped) accounts = Inr pools" "emap (\<lambda>c. PoolId_fromKeyHash toTyped (cred_hash c)) own = Inr pools"
    using own_pools [OF assms(1-3)] by blast
  have empty: "accounts = [] \<longleftrightarrow> own = []"
    using assms(3) by (auto simp: accounts_of_def emap_eq_Inr)
  have "\<forall>cert \<in> set (list_of (cb_certificates body)). pred_option
      (\<lambda>c. stakeCredentialInRewardAccounts lib c accounts = Inr (own = [] \<or> c \<in> set own)) (stake_credential cert)"
    using assms(4) in_own_accounts [OF assms(1,3)] by (auto simp: option.pred_set)
  note deposits = tx_deposits [OF this pools(1), of params drep "cb_proposalProcedures body"]
  have n: "counted lib accounts pools drep (\<lambda>c. own = [] \<or> c \<in> set own) =
      contribution (\<lambda>c. own = [] \<or> c \<in> set own) (\<lambda>owners. own = [] \<or> set owners \<inter> set accounts \<noteq> {})
           (\<lambda>p. own = [] \<or> p \<in> set pools) (\<lambda>c. drep = None \<or> c = \<lparr>cred_type = KeyHash, cred_hash = the drep\<rparr>)"
  proof -
    have owners: "(\<lambda>os. accounts = [] \<or> list_ex (\<lambda>acct. acct \<in> set os) accounts) = (\<lambda>owners. own = [] \<or> set owners \<inter> set accounts \<noteq> {})"
      by (auto simp: fun_eq_iff empty list_ex_iff)
    have dreps: "ownDRep drep = (\<lambda>c. drep = None \<or> c = \<lparr>cred_type = KeyHash, cred_hash = the drep\<rparr>)"
      by (auto simp: fun_eq_iff ownDRep_def split: option.splits)
    show ?thesis unfolding counted_def owners dreps by (simp add: empty)
  qed
  have withdrawals: "(case Some accounts of Some (a # as) \<Rightarrow> getOwnWithdrawalsTotal ws (a # as) | _ \<Rightarrow> bigint_sum (map wd_quantity ws)) =
      sum_list (map wd_quantity (filter (\<lambda>w. own = [] \<or> wd_stakeAddress w \<in> set accounts) ws))" for ws
    using empty by (cases accounts) (simp_all add: getOwnWithdrawalsTotal_def tm_simps)
  show ?thesis using pools(2) deposits unfolding n computeImplicitCoin_def withdrawals Let_def list_of_def [symmetric] proposals_of_def
    by simp
qed

definition example_key :: Credential where
  "example_key = \<lparr>cred_type = KeyHash, cred_hash = replicate 28 7\<rparr>"

definition example_tx_parts :: Core_TxBody where
  "example_tx_parts = \<lparr>cb_certificates = Some [StakeAddressCertificate True example_key,
       NewStakeAddressCertificate False \<lparr>cred_type = KeyHash, cred_hash = replicate 28 8\<rparr> 3, NewStakeAddressCertificate False example_key 5],
     cb_withdrawals = None, cb_proposalProcedures = None, cb_requiredExtraSignatures = None, cb_votingProcedures = None\<rparr>"

lemma pool_ids_example: "pool_ids_ok (\<lambda>p b. Inr (p @ map (\<lambda>x. char_of (unat x)) b))"
proof -
  have "inj (\<lambda>x :: byte. char_of (unat x) :: char)"
  proof (rule injI)
    fix x y :: byte assume "(char_of (unat x) :: char) = char_of (unat y)"
    then have "(of_char (char_of (unat x) :: char) :: nat) = of_char (char_of (unat y) :: char)" by simp
    then show "x = y" by (simp add: mod_less word_unat_eq_iff)
  qed
  then show ?thesis by (auto simp: pool_ids_ok_def inj_map_eq_map)
qed

theorem implicit_coin_counts_own_witness:
  "\<exists>account coin. RewardAccount_fromCredential example_codecs example_key 1 = Inr account \<and>
    computeImplicitCoin example_codecs (\<lambda>p b. Inr (p @ map (\<lambda>x. char_of (unat x)) b)) \<lparr>dpp_stakeKeyDeposit = 2, dpp_poolDeposit = None\<rparr>
      example_tx_parts (Some [account]) None = Inr coin \<and> pc_deposit coin = Some 2 \<and> pc_reclaimDeposit coin = Some 5"
proof -
  obtain account where a: "RewardAccount_fromCredential example_codecs example_key 1 = Inr account"
    using reward_account_ids [OF example_codecs_ok, of example_key 1] by (auto simp: example_key_def)
  have own: "accounts_of example_codecs 1 [example_key] [account]" using a by (simp add: accounts_of_def example_key_def)
  have certs: "\<forall>cert \<in> set (list_of (cb_certificates example_tx_parts)). pred_option (\<lambda>c. length (cred_hash c) = 28) (stake_credential cert)"
    by (simp add: example_tx_parts_def example_key_def)
  from implicit_coin_counts_own [OF example_codecs_ok pool_ids_example own certs, of "\<lparr>dpp_stakeKeyDeposit = 2, dpp_poolDeposit = None\<rparr>" None]
  show ?thesis using a by (auto simp: Let_def example_tx_parts_def example_key_def)
qed

end
