(* ===== verification/Key_Paths.thy ===== *)
theory Key_Paths
  imports Implicit_Coin Witness_Set Cost_Models
begin

text \<open>
  Which of its keys a wallet has to sign a transaction with
  (\<open>key-management/src/util/ownSignatureKeyPaths.ts\<close>). The known addresses come with the derivation
  paths of their keys; lodash's \<open>uniqWith\<close> and \<open>uniqBy\<close> are parameters.
\<close>

record AccountKeyDerivationPath =
  kp_role :: nat
  kp_index :: nat

record GroupedAddress =
  ga_type :: nat
  ga_index :: nat
  ga_networkId :: nat
  ga_accountIndex :: nat
  ga_address :: string
  ga_rewardAccount :: string
  ga_stakeKeyDerivationPath :: "AccountKeyDerivationPath option"

definition DREP_KEY_DERIVATION_PATH :: AccountKeyDerivationPath where
  "DREP_KEY_DERIVATION_PATH = \<lparr>kp_role = 3, kp_index = 0\<rparr>"

record StakeKeySignerData =
  sd_poolId :: string
  sd_rewardAccount :: string
  sd_stakeKeyHash :: bytes
  sd_derivationPath :: AccountKeyDerivationPath

record SignatureCheck =
  sc_derivationPaths :: "AccountKeyDerivationPath list"
  sc_requiresForeignSignatures :: bool

record path_lib =
  pu_codecs :: string_codecs
  pu_toTyped :: package_bech32
  pu_uniqPaths :: "AccountKeyDerivationPath list \<Rightarrow> AccountKeyDerivationPath list"
  pu_uniqByAccount :: "GroupedAddress list \<Rightarrow> GroupedAddress list"

text \<open>Of equal elements the first stays.\<close>

definition path_lib_ok :: "path_lib \<Rightarrow> bool" where
  "path_lib_ok lib \<longleftrightarrow> pu_uniqPaths lib = js_uniq \<and> pu_uniqByAccount lib = firsts ga_rewardAccount"

subsection \<open>Checks\<close>

definition no_check :: SignatureCheck where
  "no_check = \<lparr>sc_derivationPaths = [], sc_requiresForeignSignatures = False\<rparr>"

definition push_path :: "AccountKeyDerivationPath \<Rightarrow> SignatureCheck \<Rightarrow> SignatureCheck" where
  "push_path p c = c\<lparr>sc_derivationPaths := sc_derivationPaths c @ [p]\<rparr>"

definition foreign :: "SignatureCheck \<Rightarrow> SignatureCheck" where
  "foreign c = c\<lparr>sc_requiresForeignSignatures := True\<rparr>"

text \<open>The signature of the account, or else a foreign one.\<close>

definition sign_with :: "StakeKeySignerData option \<Rightarrow> SignatureCheck \<Rightarrow> SignatureCheck" where
  "sign_with account c = (case account of Some acct \<Rightarrow> push_path (sd_derivationPath acct) c | None \<Rightarrow> foreign c)"

definition checkWithdrawals :: "Core_TxBody \<Rightarrow> StakeKeySignerData list \<Rightarrow> SignatureCheck" where
  "checkWithdrawals body accounts = (case cb_withdrawals body of None \<Rightarrow> no_check
     | Some withdrawals \<Rightarrow> foldl (\<lambda>c w. sign_with (find (\<lambda>acct. sd_rewardAccount acct = wd_stakeAddress w) accounts) c) no_check withdrawals)"

definition checkStakeKeyHashCertificate :: "Core_Certificate \<Rightarrow> StakeKeySignerData list \<Rightarrow> SignatureCheck" where
  "checkStakeKeyHashCertificate cert accounts =
     (if isCertType cert [VoteDelegation, StakeVoteDelegation, StakeRegistrationDelegation, VoteRegistrationDelegation,
          StakeVoteRegistrationDelegation, Registration, Unregistration, StakeDeregistration, StakeDelegation] then
        (case stake_credential cert of
           None \<Rightarrow> no_check
         | Some c \<Rightarrow> sign_with (find (\<lambda>acct. cred_type c = KeyHash \<and> sd_stakeKeyHash acct = cred_hash c) accounts) no_check)
      else no_check)"

definition checkPoolRegistrationCertificate :: "Core_Certificate \<Rightarrow> StakeKeySignerData list \<Rightarrow> SignatureCheck" where
  "checkPoolRegistrationCertificate cert accounts = (case cert of
       PoolRegistrationCertificate poolParameters \<Rightarrow>
         foldl (\<lambda>c owner. sign_with (find (\<lambda>acct. sd_rewardAccount acct = owner) accounts) c) no_check (pl_owners poolParameters)
     | _ \<Rightarrow> no_check)"

definition checkPoolRetirementCertificate :: "Core_Certificate \<Rightarrow> StakeKeySignerData list \<Rightarrow> SignatureCheck" where
  "checkPoolRetirementCertificate cert accounts = (case cert of
       PoolRetirementCertificate poolId _ \<Rightarrow> sign_with (find (\<lambda>acct. sd_poolId acct = poolId) accounts) no_check
     | _ \<Rightarrow> no_check)"

text \<open>The credential of a cert to stake credentials is only looked at when there are accounts.\<close>

definition checkMirCertificate :: "Core_Certificate \<Rightarrow> StakeKeySignerData list \<Rightarrow> SignatureCheck result" where
  "checkMirCertificate cert accounts = (case cert of
       MirCertificate ToStakeCreds (Some c) _ _ \<Rightarrow> Inr (sign_with (find (\<lambda>acct. sd_stakeKeyHash acct = cred_hash c) accounts) no_check)
     | MirCertificate ToStakeCreds None _ _ \<Rightarrow> if accounts = [] then Inr (foreign no_check) else Inl TypeError
     | MirCertificate ToOtherPot _ _ _ \<Rightarrow> Inr (foreign no_check)
     | _ \<Rightarrow> Inr no_check)"

definition combineSignatureChecks :: "SignatureCheck \<Rightarrow> SignatureCheck \<Rightarrow> SignatureCheck" where
  "combineSignatureChecks a b = \<lparr>sc_derivationPaths = sc_derivationPaths a @ sc_derivationPaths b,
     sc_requiresForeignSignatures = (sc_requiresForeignSignatures a \<or> sc_requiresForeignSignatures b)\<rparr>"

definition checkCertificate :: "StakeKeySignerData list \<Rightarrow> SignatureCheck \<Rightarrow> Core_Certificate \<Rightarrow> SignatureCheck result" where
  "checkCertificate accounts check cert =
     ebind (checkMirCertificate cert accounts) (\<lambda>mirCheck.
       Inr (combineSignatureChecks (combineSignatureChecks (combineSignatureChecks (combineSignatureChecks check
         (checkStakeKeyHashCertificate cert accounts)) (checkPoolRegistrationCertificate cert accounts))
         (checkPoolRetirementCertificate cert accounts)) mirCheck))"

definition checkStakeCredentialCertificates :: "path_lib \<Rightarrow> StakeKeySignerData list \<Rightarrow> Core_TxBody \<Rightarrow> SignatureCheck result" where
  "checkStakeCredentialCertificates lib accounts body =
     ebind (efoldl (checkCertificate accounts) no_check (list_of (cb_certificates body))) (\<lambda>check.
       Inr (if list_of (cb_certificates body) = [] then check else check\<lparr>sc_derivationPaths := pu_uniqPaths lib (sc_derivationPaths check)\<rparr>))"

subsection \<open>Signers\<close>

definition signerData :: "path_lib \<Rightarrow> GroupedAddress \<Rightarrow> (AccountKeyDerivationPath option \<times> string \<times> string \<times> bytes) result" where
  "signerData lib groupedAddress =
     ebind (RewardAccount_toHash (pu_codecs lib) (ga_rewardAccount groupedAddress)) (\<lambda>stakeKeyHash.
     ebind (PoolId_fromKeyHash (pu_toTyped lib) stakeKeyHash) (\<lambda>poolId.
       Inr (ga_stakeKeyDerivationPath groupedAddress, poolId, ga_rewardAccount groupedAddress, stakeKeyHash)))"

definition getSignersData :: "path_lib \<Rightarrow> GroupedAddress list \<Rightarrow> StakeKeySignerData list result" where
  "getSignersData lib groupedAddresses =
     ebind (emap (signerData lib) (pu_uniqByAccount lib groupedAddresses)) (\<lambda>ds.
       Inr (List.map_filter (\<lambda>(path, poolId, account, h). map_option (\<lambda>path. \<lparr>sd_poolId = poolId, sd_rewardAccount = account,
         sd_stakeKeyHash = h, sd_derivationPath = path\<rparr>) path) ds))"

text \<open>
  A path is an object, and a JavaScript \<open>Set\<close> of objects keeps two equal ones that are not the same; the model takes
  equal paths for the same. The caller removes equal paths from what it gets.
\<close>

definition getStakeCredentialKeyPaths :: "path_lib \<Rightarrow> GroupedAddress list \<Rightarrow> Core_TxBody \<Rightarrow> SignatureCheck result" where
  "getStakeCredentialKeyPaths lib groupedAddresses body =
     ebind (getSignersData lib groupedAddresses) (\<lambda>uniqueAccounts.
     ebind (checkStakeCredentialCertificates lib uniqueAccounts body) (\<lambda>certificatesCheck.
       let check = combineSignatureChecks (checkWithdrawals body uniqueAccounts) certificatesCheck in
       Inr (check\<lparr>sc_derivationPaths := js_uniq (sc_derivationPaths check)\<rparr>)))"

definition checkVoter :: "StakeKeySignerData list \<Rightarrow> bytes option \<Rightarrow> SignatureCheck \<Rightarrow> Core_Voter \<Rightarrow> SignatureCheck" where
  "checkVoter accounts dRepKeyHash check voter = (case voter of
       Core_DRepKeyHash c \<Rightarrow> if dRepKeyHash = Some (cred_hash c) then push_path DREP_KEY_DERIVATION_PATH check else foreign check
     | Core_StakePoolKeyHash c \<Rightarrow> sign_with (find (\<lambda>acct. sd_stakeKeyHash acct = cred_hash c) accounts) check
     | _ \<Rightarrow> foreign check)"

definition getVotingProcedureKeyPaths :: "path_lib \<Rightarrow> GroupedAddress list \<Rightarrow> bytes option \<Rightarrow> Core_TxBody \<Rightarrow> SignatureCheck result" where
  "getVotingProcedureKeyPaths lib groupedAddresses dRepKeyHash body =
     ebind (getSignersData lib groupedAddresses) (\<lambda>accounts.
       Inr (foldl (checkVoter accounts dRepKeyHash) no_check (list_of (cb_votingProcedures body))))"

subsection \<open>Required signers and scripts\<close>

definition paymentPath :: "GroupedAddress \<Rightarrow> AccountKeyDerivationPath" where
  "paymentPath address = \<lparr>kp_role = ga_type address, kp_index = ga_index address\<rparr>"

text \<open>The hash of the payment credential of a base address.\<close>

definition paymentHash :: "path_lib \<Rightarrow> GroupedAddress \<Rightarrow> bytes option result" where
  "paymentHash lib address =
     ebind (Address_fromBech32 (pu_codecs lib) (ga_address address)) (\<lambda>a.
       case BaseAddress_fromAddress a of None \<Rightarrow> Inr None
       | Some b \<Rightarrow> ebind (the_field (ap_paymentPart b)) (\<lambda>c. Inr (Some (cred_hash c))))"

definition signerPaths :: "path_lib \<Rightarrow> bytes \<Rightarrow> GroupedAddress \<Rightarrow> AccountKeyDerivationPath list result" where
  "signerPaths lib keyHash address =
     ebind (paymentHash lib address) (\<lambda>payment.
     ebind (RewardAccount_toHash (pu_codecs lib) (ga_rewardAccount address)) (\<lambda>stake.
       Inr ((if payment = Some keyHash then [paymentPath address] else []) @
         (case ga_stakeKeyDerivationPath address of Some p \<Rightarrow> if stake = keyHash then [p] else [] | None \<Rightarrow> []))))"

definition getRequiredSignersKeyPaths :: "path_lib \<Rightarrow> GroupedAddress list \<Rightarrow> bytes list option \<Rightarrow> AccountKeyDerivationPath list result" where
  "getRequiredSignersKeyPaths lib groupedAddresses keyHashes = (case keyHashes of None \<Rightarrow> Inr []
     | Some keyHashes \<Rightarrow> ebind (emap (\<lambda>keyHash. ebind (emap (signerPaths lib keyHash) groupedAddresses) (\<lambda>ps. Inr (concat ps))) keyHashes) (\<lambda>ps.
         Inr (concat ps)))"

definition checkStakeCredential :: "path_lib \<Rightarrow> bytes \<Rightarrow> GroupedAddress \<Rightarrow> SignatureCheck result" where
  "checkStakeCredential lib keyHash address = (case ga_stakeKeyDerivationPath address of
       None \<Rightarrow> Inr (foreign no_check)
     | Some p \<Rightarrow> ebind (RewardAccount_toHash (pu_codecs lib) (ga_rewardAccount address)) (\<lambda>h.
         Inr (if h = keyHash then push_path p no_check else foreign no_check)))"

definition checkPaymentCredential :: "path_lib \<Rightarrow> bytes \<Rightarrow> GroupedAddress \<Rightarrow> SignatureCheck result" where
  "checkPaymentCredential lib keyHash address =
     ebind (paymentHash lib address) (\<lambda>payment.
       Inr (if payment = Some keyHash then push_path (paymentPath address) no_check else foreign no_check))"

definition processSignatureScript :: "path_lib \<Rightarrow> GroupedAddress list \<Rightarrow> bytes \<Rightarrow> SignatureCheck result" where
  "processSignatureScript lib groupedAddresses keyHash =
     efoldl (\<lambda>check address.
       ebind (if ga_stakeKeyDerivationPath address \<noteq> None
              then ebind (checkStakeCredential lib keyHash address) (\<lambda>c. Inr (combineSignatureChecks check c)) else Inr check) (\<lambda>check.
       ebind (checkPaymentCredential lib keyHash address) (\<lambda>c. Inr (combineSignatureChecks check c)))) no_check groupedAddresses"

fun processScript :: "path_lib \<Rightarrow> GroupedAddress list \<Rightarrow> Core_NativeScript \<Rightarrow> SignatureCheck result"
  and processScripts :: "path_lib \<Rightarrow> GroupedAddress list \<Rightarrow> SignatureCheck \<Rightarrow> Core_NativeScript list \<Rightarrow> SignatureCheck result" where
  "processScript lib addresses (RequireSignatureScript keyHash) = processSignatureScript lib addresses keyHash"
| "processScript lib addresses (RequireAllOfScript scripts) = processScripts lib addresses no_check scripts"
| "processScript lib addresses (RequireAnyOfScript scripts) = processScripts lib addresses no_check scripts"
| "processScript lib addresses (RequireAtLeastScript _ scripts) = processScripts lib addresses no_check scripts"
| "processScript lib addresses (RequireTimeAfterScript _) = Inr no_check"
| "processScript lib addresses (RequireTimeBeforeScript _) = Inr no_check"
| "processScript lib addresses (RequireGuardScript credential) =
     (if cred_type credential = KeyHash then processSignatureScript lib addresses (cred_hash credential) else Inr no_check)"
| "processScripts lib addresses check [] = Inr check"
| "processScripts lib addresses check (script # scripts) =
     ebind (processScript lib addresses script) (\<lambda>c. processScripts lib addresses (combineSignatureChecks check c) scripts)"

definition getNativeScriptKeyPaths :: "path_lib \<Rightarrow> GroupedAddress list \<Rightarrow> Core_Script list option \<Rightarrow> SignatureCheck result" where
  "getNativeScriptKeyPaths lib addresses scripts =
     efoldl (\<lambda>check script. case script of
         Core_Native s \<Rightarrow> ebind (processScript lib addresses s) (\<lambda>c. Inr (combineSignatureChecks check c))
       | Core_Plutus _ \<Rightarrow> Inr (combineSignatureChecks check no_check)) no_check (list_of scripts)"

fun checkDRepCertificate :: "bytes option \<Rightarrow> SignatureCheck \<Rightarrow> Core_Certificate \<Rightarrow> SignatureCheck" where
  "checkDRepCertificate dRepKeyHash check cert =
     (case (case cert of UnRegisterDelegateRepresentativeCertificate c _ \<Rightarrow> Some c
              | UpdateDelegateRepresentativeCertificate c _ \<Rightarrow> Some c
              | RegisterDelegateRepresentativeCertificate c _ _ \<Rightarrow> Some c | _ \<Rightarrow> None) of
        None \<Rightarrow> check
      | Some c \<Rightarrow> if cred_type c = ScriptHash \<or> dRepKeyHash = None \<or> Some (cred_hash c) \<noteq> dRepKeyHash then foreign check
                 else check\<lparr>sc_derivationPaths := [DREP_KEY_DERIVATION_PATH]\<rparr>)"

definition getDRepCredentialKeyPaths :: "bytes option \<Rightarrow> Core_TxBody \<Rightarrow> SignatureCheck" where
  "getDRepCredentialKeyPaths dRepKeyHash body = foldl (checkDRepCertificate dRepKeyHash) no_check (list_of (cb_certificates body))"

subsection \<open>Inputs\<close>

type_synonym TxInKeyPathMap = "(string \<times> AccountKeyDerivationPath option) list"

definition TxInId :: "TxIn \<Rightarrow> string" where
  "TxInId txIn = txId txIn @ ''_'' @ number_text (int (txIndex txIn))"

text \<open>
  The inputs are resolved concurrently; each writes its own key, so the map does not depend on the order, and
  the model takes the order of the inputs.
\<close>

definition createTxInKeyPathMap :: "(TxIn \<Rightarrow> TxOut option result) \<Rightarrow> GroupedAddress list \<Rightarrow> TxIn list \<Rightarrow> TxIn list option \<Rightarrow>
    TxInKeyPathMap result" where
  "createTxInKeyPathMap resolveInput knownAddresses inputs collaterals =
     efoldl (\<lambda>m txIn.
       ebind (resolveInput txIn) (\<lambda>resolution.
         Inr (case resolution of None \<Rightarrow> m
              | Some out \<Rightarrow> (case find (\<lambda>a. ga_address a = out_address out) knownAddresses of
                  None \<Rightarrow> m | Some ownAddress \<Rightarrow> map_set (TxInId txIn) (Some (paymentPath ownAddress)) m))))
       [] (inputs @ list_of collaterals)"

definition ownSignatureKeyPaths :: "path_lib \<Rightarrow> Core_TxBody \<Rightarrow> GroupedAddress list \<Rightarrow> TxInKeyPathMap \<Rightarrow> bytes option \<Rightarrow>
    Core_Script list option \<Rightarrow> AccountKeyDerivationPath list result" where
  "ownSignatureKeyPaths lib body knownAddresses txInKeyPathMap dRepKeyHash scripts =
     ebind (getStakeCredentialKeyPaths lib knownAddresses body) (\<lambda>stake.
     ebind (getRequiredSignersKeyPaths lib knownAddresses (cb_requiredExtraSignatures body)) (\<lambda>signers.
     ebind (getVotingProcedureKeyPaths lib knownAddresses dRepKeyHash body) (\<lambda>voting.
     ebind (getNativeScriptKeyPaths lib knownAddresses scripts) (\<lambda>native.
       Inr (pu_uniqPaths lib (List.map_filter snd txInKeyPathMap @ sc_derivationPaths stake @
         sc_derivationPaths (getDRepCredentialKeyPaths dRepKeyHash body) @ signers @ sc_derivationPaths voting @ sc_derivationPaths native))))))"

subsection \<open>Required paths\<close>

fun script_keys :: "Core_NativeScript \<Rightarrow> bytes set" where
  "script_keys (RequireSignatureScript keyHash) = {keyHash}"
| "script_keys (RequireAllOfScript scripts) = (\<Union>s \<in> set scripts. script_keys s)"
| "script_keys (RequireAnyOfScript scripts) = (\<Union>s \<in> set scripts. script_keys s)"
| "script_keys (RequireAtLeastScript _ scripts) = (\<Union>s \<in> set scripts. script_keys s)"
| "script_keys (RequireGuardScript credential) = (if cred_type credential = KeyHash then {cred_hash credential} else {})"
| "script_keys _ = {}"

text \<open>The key hashes a transaction and its scripts ask for directly.\<close>

definition key_hashes :: "Core_TxBody \<Rightarrow> Core_Script list option \<Rightarrow> bytes set" where
  "key_hashes body scripts = set (list_of (cb_requiredExtraSignatures body)) \<union> (\<Union>s \<in> {s. Core_Native s \<in> set (list_of scripts)}. script_keys s)"

fun drep_credential :: "Core_Certificate \<Rightarrow> Credential option" where
  "drep_credential (UnRegisterDelegateRepresentativeCertificate c _) = Some c"
| "drep_credential (UpdateDelegateRepresentativeCertificate c _) = Some c"
| "drep_credential (RegisterDelegateRepresentativeCertificate c _ _) = Some c"
| "drep_credential _ = None"

text \<open>
  The stake keys that sign a certificate. Registering a stake key in the old way needs no signature;
  all that delegate, vote, or register and deregister in the new way are signed by their key, and so are
  rewards moved to a credential.
\<close>

inductive cert_key :: "Core_Certificate \<Rightarrow> bytes \<Rightarrow> bool" where
  "cred_type c = KeyHash \<Longrightarrow> cert_key (StakeAddressCertificate False c) (cred_hash c)"
| "cred_type c = KeyHash \<Longrightarrow> cert_key (NewStakeAddressCertificate registers c deposit) (cred_hash c)"
| "cred_type c = KeyHash \<Longrightarrow> cert_key (StakeDelegationCertificate c poolId) (cred_hash c)"
| "cred_type c = KeyHash \<Longrightarrow> cert_key (VoteDelegationCertificate c rep) (cred_hash c)"
| "cred_type c = KeyHash \<Longrightarrow> cert_key (StakeVoteDelegationCertificate c poolId rep) (cred_hash c)"
| "cred_type c = KeyHash \<Longrightarrow> cert_key (StakeRegistrationDelegationCertificate c poolId deposit) (cred_hash c)"
| "cred_type c = KeyHash \<Longrightarrow> cert_key (VoteRegistrationDelegationCertificate c rep deposit) (cred_hash c)"
| "cred_type c = KeyHash \<Longrightarrow> cert_key (StakeVoteRegistrationDelegationCertificate c poolId rep deposit) (cred_hash c)"
| "cert_key (MirCertificate ToStakeCreds (Some c) quantity pot) (cred_hash c)"

text \<open>The stake key of a known address is known with its path.\<close>

definition own_path :: "GroupedAddress list \<Rightarrow> (GroupedAddress \<Rightarrow> bool) \<Rightarrow> AccountKeyDerivationPath \<Rightarrow> bool" where
  "own_path known P p \<longleftrightarrow> (\<exists>a \<in> set known. ga_stakeKeyDerivationPath a = Some p \<and> P a)"

text \<open>
  The reasons to sign with the key of a path; \<open>pay\<close> and \<open>stake\<close> are the key hashes of a known address, \<open>pool\<close> is the
  id of the pool with its stake key.
\<close>

inductive required_path :: "(GroupedAddress \<Rightarrow> bytes option) \<Rightarrow> (GroupedAddress \<Rightarrow> bytes) \<Rightarrow> (GroupedAddress \<Rightarrow> string) \<Rightarrow> Core_TxBody \<Rightarrow>
    GroupedAddress list \<Rightarrow> TxInKeyPathMap \<Rightarrow> bytes option \<Rightarrow> Core_Script list option \<Rightarrow> AccountKeyDerivationPath \<Rightarrow> bool"
  for pay stake pool body known inputs drep scripts where
  spends: "(i, Some p) \<in> set inputs \<Longrightarrow> required_path pay stake pool body known inputs drep scripts p"
| withdraws: "w \<in> set (list_of (cb_withdrawals body)) \<Longrightarrow> own_path known (\<lambda>a. ga_rewardAccount a = wd_stakeAddress w) p \<Longrightarrow>
    required_path pay stake pool body known inputs drep scripts p"
| certifies: "cert \<in> set (list_of (cb_certificates body)) \<Longrightarrow> own_path known (\<lambda>a. cert_key cert (stake a)) p \<Longrightarrow>
    required_path pay stake pool body known inputs drep scripts p"
| owns_pool: "PoolRegistrationCertificate params \<in> set (list_of (cb_certificates body)) \<Longrightarrow>
    own_path known (\<lambda>a. ga_rewardAccount a \<in> set (pl_owners params)) p \<Longrightarrow> required_path pay stake pool body known inputs drep scripts p"
| retires_pool: "PoolRetirementCertificate poolId epoch \<in> set (list_of (cb_certificates body)) \<Longrightarrow>
    own_path known (\<lambda>a. pool a = poolId) p \<Longrightarrow> required_path pay stake pool body known inputs drep scripts p"
| represents: "cert \<in> set (list_of (cb_certificates body)) \<Longrightarrow> drep_credential cert = Some c \<Longrightarrow> cred_type c = KeyHash \<Longrightarrow>
    drep = Some (cred_hash c) \<Longrightarrow> required_path pay stake pool body known inputs drep scripts DREP_KEY_DERIVATION_PATH"
| pays: "h \<in> key_hashes body scripts \<Longrightarrow> a \<in> set known \<Longrightarrow> pay a = Some h \<Longrightarrow>
    required_path pay stake pool body known inputs drep scripts (paymentPath a)"
| stakes: "h \<in> key_hashes body scripts \<Longrightarrow> own_path known (\<lambda>a. stake a = h) p \<Longrightarrow>
    required_path pay stake pool body known inputs drep scripts p"
| votes_drep: "Core_DRepKeyHash c \<in> set (list_of (cb_votingProcedures body)) \<Longrightarrow> drep = Some (cred_hash c) \<Longrightarrow>
    required_path pay stake pool body known inputs drep scripts DREP_KEY_DERIVATION_PATH"
| votes_pool: "Core_StakePoolKeyHash c \<in> set (list_of (cb_votingProcedures body)) \<Longrightarrow> own_path known (\<lambda>a. stake a = cred_hash c) p \<Longrightarrow>
    required_path pay stake pool body known inputs drep scripts p"

subsection \<open>The checks find the paths of accounts\<close>

definition account_path :: "StakeKeySignerData list \<Rightarrow> (StakeKeySignerData \<Rightarrow> bool) \<Rightarrow> AccountKeyDerivationPath \<Rightarrow> bool" where
  "account_path accounts P p \<longleftrightarrow> map_option sd_derivationPath (find P accounts) = Some p"

inductive cert_path :: "StakeKeySignerData list \<Rightarrow> Core_Certificate \<Rightarrow> AccountKeyDerivationPath \<Rightarrow> bool" for accounts where
  stake_key: "cert_key cert h \<Longrightarrow> account_path accounts (\<lambda>a. sd_stakeKeyHash a = h) p \<Longrightarrow> cert_path accounts cert p"
| pool_owner: "owner \<in> set (pl_owners params) \<Longrightarrow> account_path accounts (\<lambda>a. sd_rewardAccount a = owner) p \<Longrightarrow>
    cert_path accounts (PoolRegistrationCertificate params) p"
| pool_key: "account_path accounts (\<lambda>a. sd_poolId a = poolId) p \<Longrightarrow> cert_path accounts (PoolRetirementCertificate poolId epoch) p"

inductive voter_path :: "StakeKeySignerData list \<Rightarrow> bytes option \<Rightarrow> Core_Voter \<Rightarrow> AccountKeyDerivationPath \<Rightarrow> bool" for accounts drep where
  own_drep: "drep = Some (cred_hash c) \<Longrightarrow> voter_path accounts drep (Core_DRepKeyHash c) DREP_KEY_DERIVATION_PATH"
| own_pool: "account_path accounts (\<lambda>a. sd_stakeKeyHash a = cred_hash c) p \<Longrightarrow> voter_path accounts drep (Core_StakePoolKeyHash c) p"

lemma sign_with_paths [simp]: "p \<in> set (sc_derivationPaths (sign_with (find P accounts) c)) \<longleftrightarrow> p \<in> set (sc_derivationPaths c) \<or> account_path accounts P p"
  by (cases "find P accounts") (auto simp: sign_with_def push_path_def foreign_def account_path_def)

lemma no_accounts [simp]: "sc_derivationPaths (sign_with None c) = sc_derivationPaths c" "\<not> account_path [] P p"
  by (simp_all add: sign_with_def foreign_def account_path_def)

lemma account_path_conj [simp]: "account_path accounts (\<lambda>a. b \<and> P a) p \<longleftrightarrow> b \<and> account_path accounts P p"
proof -
  have "find (\<lambda>_. False) accounts = None" by (induction accounts) simp_all
  then show ?thesis by (cases b) (simp_all add: account_path_def)
qed

lemma check_paths [simp]: "sc_derivationPaths no_check = []" "sc_derivationPaths (foreign c) = sc_derivationPaths c"
  "sc_derivationPaths (push_path p c) = sc_derivationPaths c @ [p]"
  "sc_derivationPaths (combineSignatureChecks a b) = sc_derivationPaths a @ sc_derivationPaths b"
  by (simp_all add: no_check_def foreign_def push_path_def combineSignatureChecks_def)

lemma foldl_paths:
  assumes "\<And>c x. p \<in> set (sc_derivationPaths (f c x)) \<longleftrightarrow> p \<in> set (sc_derivationPaths c) \<or> Q x"
  shows "p \<in> set (sc_derivationPaths (foldl f c xs)) \<longleftrightarrow> p \<in> set (sc_derivationPaths c) \<or> (\<exists>x \<in> set xs. Q x)"
  by (induction xs arbitrary: c) (auto simp: assms)

lemma withdrawal_paths:
  "p \<in> set (sc_derivationPaths (checkWithdrawals body accounts)) \<longleftrightarrow>
     (\<exists>w \<in> set (list_of (cb_withdrawals body)). account_path accounts (\<lambda>a. sd_rewardAccount a = wd_stakeAddress w) p)"
  by (cases "cb_withdrawals body") (auto simp: checkWithdrawals_def foldl_paths)

text \<open>A certificate that moves rewards to stake credentials and names none.\<close>

fun mir_unnamed :: "Core_Certificate \<Rightarrow> bool" where
  "mir_unnamed (MirCertificate ToStakeCreds c _ _) \<longleftrightarrow> c = None"
| "mir_unnamed _ \<longleftrightarrow> False"

lemma mir_unnamed_iff: "mir_unnamed cert \<longleftrightarrow> (\<exists>quantity pot. cert = MirCertificate ToStakeCreds None quantity pot)"
  by (cases cert rule: mir_unnamed.cases) auto

lemma certificate_paths:
  assumes "\<not> mir_unnamed cert \<or> accounts = []"
  shows "\<exists>check'. checkCertificate accounts check cert = Inr check' \<and>
    (\<forall>p. p \<in> set (sc_derivationPaths check') \<longleftrightarrow> p \<in> set (sc_derivationPaths check) \<or> cert_path accounts cert p)"
  using assms by (cases cert)
    (auto simp: checkCertificate_def checkStakeKeyHashCertificate_def checkPoolRegistrationCertificate_def checkPoolRetirementCertificate_def
      checkMirCertificate_def cert_path.simps cert_key.simps foldl_paths isCertType_def split: MirCertificateKind.splits option.splits)

lemma efoldl_paths:
  assumes "\<And>c x. x \<in> set xs \<Longrightarrow> \<exists>c'. f c x = Inr c' \<and> (\<forall>p. p \<in> set (sc_derivationPaths c') \<longleftrightarrow> p \<in> set (sc_derivationPaths c) \<or> Q x p)"
  shows "\<exists>c'. efoldl f c xs = Inr c' \<and> (\<forall>p. p \<in> set (sc_derivationPaths c') \<longleftrightarrow> p \<in> set (sc_derivationPaths c) \<or> (\<exists>x \<in> set xs. Q x p))"
  using assms
proof (induction xs arbitrary: c)
  case (Cons x xs)
  obtain d where d: "f c x = Inr d" "\<forall>p. p \<in> set (sc_derivationPaths d) \<longleftrightarrow> p \<in> set (sc_derivationPaths c) \<or> Q x p"
    using Cons.prems [of x c] by auto
  with Cons.IH [of d] Cons.prems show ?case by auto
qed simp

lemma certificates_paths:
  assumes "\<forall>cert \<in> set certs. \<not> mir_unnamed cert \<or> accounts = []"
  shows "\<exists>c. efoldl (checkCertificate accounts) check certs = Inr c \<and>
    (\<forall>p. p \<in> set (sc_derivationPaths c) \<longleftrightarrow> p \<in> set (sc_derivationPaths check) \<or> (\<exists>cert \<in> set certs. cert_path accounts cert p))"
  using assms by (intro efoldl_paths certificate_paths) blast

text \<open>An unnamed one is looked at only when there is an account, and then the code fails.\<close>

lemma certificates_fail:
  assumes "accounts \<noteq> []" and "\<exists>cert \<in> set certs. mir_unnamed cert"
  shows "efoldl (checkCertificate accounts) check certs = Inl TypeError"
  using assms(2)
proof (induction certs arbitrary: check)
  case (Cons cert certs)
  show ?case
  proof (cases "mir_unnamed cert")
    case True
    with assms(1) show ?thesis by (auto simp: mir_unnamed_iff checkCertificate_def checkMirCertificate_def)
  next
    case False
    with certificate_paths [of cert accounts check] obtain c where "checkCertificate accounts check cert = Inr c" by blast
    with Cons False show ?thesis by simp
  qed
qed simp

lemma drep_paths:
  "p \<in> set (sc_derivationPaths (getDRepCredentialKeyPaths drep body)) \<longleftrightarrow> p = DREP_KEY_DERIVATION_PATH \<and>
     (\<exists>cert \<in> set (list_of (cb_certificates body)). \<exists>c. drep_credential cert = Some c \<and> cred_type c = KeyHash \<and> drep = Some (cred_hash c))"
proof -
  let ?signs = "\<lambda>cert. \<exists>c. drep_credential cert = Some c \<and> cred_type c = KeyHash \<and> drep = Some (cred_hash c)"
  have step: "sc_derivationPaths (checkDRepCertificate drep check cert) = (if ?signs cert then [DREP_KEY_DERIVATION_PATH] else sc_derivationPaths check)" for check cert
    by (cases cert) (auto simp: foreign_def intro: CredentialType.exhaust)
  have "sc_derivationPaths (foldl (checkDRepCertificate drep) check certs) =
      (if \<exists>cert \<in> set certs. ?signs cert then [DREP_KEY_DERIVATION_PATH] else sc_derivationPaths check)" for check certs
    by (induction certs arbitrary: check) (auto simp: step simp del: checkDRepCertificate.simps)
  then show ?thesis by (auto simp: getDRepCredentialKeyPaths_def)
qed

text \<open>The known addresses can be read, with these key hashes and pool ids.\<close>

definition known_ok :: "path_lib \<Rightarrow> (GroupedAddress \<Rightarrow> bytes option) \<Rightarrow> (GroupedAddress \<Rightarrow> bytes) \<Rightarrow> (GroupedAddress \<Rightarrow> string) \<Rightarrow>
    GroupedAddress list \<Rightarrow> bool" where
  "known_ok lib pay stake pool known \<longleftrightarrow> (\<forall>a \<in> set known. paymentHash lib a = Inr (pay a) \<and>
     RewardAccount_toHash (pu_codecs lib) (ga_rewardAccount a) = Inr (stake a) \<and> PoolId_fromKeyHash (pu_toTyped lib) (stake a) = Inr (pool a))"

text \<open>A stake key has one path, whichever address it is known from.\<close>

definition one_path :: "(GroupedAddress \<Rightarrow> bytes) \<Rightarrow> GroupedAddress list \<Rightarrow> bool" where
  "one_path stake known \<longleftrightarrow>
     (\<forall>a \<in> set known. \<forall>b \<in> set known. stake a = stake b \<longrightarrow> ga_stakeKeyDerivationPath a = ga_stakeKeyDerivationPath b)"

lemma firsts_subset: "set (firsts key xs) \<subseteq> set xs"
  by (induction key xs rule: firsts.induct) auto

lemma firsts_complete: "x \<in> set xs \<Longrightarrow> \<exists>y \<in> set (firsts key xs). key y = key x"
proof (induction key xs rule: firsts.induct)
  case (2 key y ys)
  show ?case
  proof (cases "key x = key y")
    case False
    with 2 obtain z where "z \<in> set (firsts key ys)" "key z = key x" by auto
    with False show ?thesis by auto
  qed simp
qed simp

lemma account_path_unique:
  assumes "\<And>d d'. d \<in> set accounts \<Longrightarrow> d' \<in> set accounts \<Longrightarrow> P d \<Longrightarrow> P d' \<Longrightarrow> sd_derivationPath d = sd_derivationPath d'"
  shows "account_path accounts P p \<longleftrightarrow> (\<exists>d \<in> set accounts. P d \<and> sd_derivationPath d = p)"
proof (cases "find P accounts")
  case None
  then have "\<not> (\<exists>d \<in> set accounts. P d)" by (simp add: find_None_iff)
  with None show ?thesis by (auto simp: account_path_def)
next
  case (Some d)
  then have "d \<in> set accounts" "P d" by (auto simp: find_Some_iff)
  then have "(\<exists>x \<in> set accounts. P x \<and> sd_derivationPath x = p) \<longleftrightarrow> sd_derivationPath d = p" using assms by blast
  with Some show ?thesis by (simp add: account_path_def)
qed

definition signer :: "(GroupedAddress \<Rightarrow> bytes) \<Rightarrow> (GroupedAddress \<Rightarrow> string) \<Rightarrow> GroupedAddress \<Rightarrow> AccountKeyDerivationPath \<Rightarrow> StakeKeySignerData" where
  "signer stake pool a p = \<lparr>sd_poolId = pool a, sd_rewardAccount = ga_rewardAccount a, sd_stakeKeyHash = stake a, sd_derivationPath = p\<rparr>"

lemma map_filter_mem: "y \<in> set (List.map_filter f xs) \<longleftrightarrow> (\<exists>x \<in> set xs. f x = Some y)"
  by (force simp: List.map_filter_def)

lemma signers_data:
  assumes "path_lib_ok lib" and "known_ok lib pay stake pool known"
  shows "\<exists>accounts. getSignersData lib known = Inr accounts \<and> (\<forall>d. d \<in> set accounts \<longleftrightarrow>
    (\<exists>a \<in> set (firsts ga_rewardAccount known). \<exists>p. ga_stakeKeyDerivationPath a = Some p \<and> d = signer stake pool a p))"
proof -
  have "emap (signerData lib) (firsts ga_rewardAccount known) =
      Inr (map (\<lambda>a. (ga_stakeKeyDerivationPath a, pool a, ga_rewardAccount a, stake a)) (firsts ga_rewardAccount known))"
    using assms(2) firsts_subset [of ga_rewardAccount known] by (intro emap_Inr) (auto simp: known_ok_def signerData_def)
  with assms(1) show ?thesis by (fastforce simp: getSignersData_def path_lib_ok_def map_filter_mem signer_def)
qed

text \<open>What the first account with some property is known by: any known address with it.\<close>

lemma account_paths:
  assumes "known_ok lib pay stake pool known" and "one_path stake known"
    and accounts: "\<forall>d. d \<in> set accounts \<longleftrightarrow>
      (\<exists>a \<in> set (firsts ga_rewardAccount known). \<exists>p. ga_stakeKeyDerivationPath a = Some p \<and> d = signer stake pool a p)"
    and P: "\<And>a b p. a \<in> set known \<Longrightarrow> b \<in> set known \<Longrightarrow> P (signer stake pool a p) \<Longrightarrow> P (signer stake pool b p) \<Longrightarrow> stake a = stake b"
    and indep: "\<And>a p q. P (signer stake pool a p) \<Longrightarrow> P (signer stake pool a q)"
  shows "account_path accounts P p \<longleftrightarrow> own_path known (\<lambda>a. P (signer stake pool a p)) p"
proof -
  note sub = firsts_subset [of ga_rewardAccount known]
  have same_path: "sd_derivationPath d = sd_derivationPath d'" if "d \<in> set accounts" "d' \<in> set accounts" "P d" "P d'" for d d'
  proof -
    from that(1) accounts obtain a q where a: "a \<in> set known" "ga_stakeKeyDerivationPath a = Some q" "d = signer stake pool a q" using sub by blast
    from that(2) accounts obtain b r where b: "b \<in> set known" "ga_stakeKeyDerivationPath b = Some r" "d' = signer stake pool b r" using sub by blast
    have "stake a = stake b" using P [OF a(1) b(1), of q] that(3,4) indep a(3) b(3) by blast
    with assms(2) a b show ?thesis unfolding one_path_def by (metis option.inject signer_def StakeKeySignerData.select_convs(4))
  qed
  have unique: "account_path accounts P p \<longleftrightarrow> (\<exists>d \<in> set accounts. P d \<and> sd_derivationPath d = p)"
    by (rule account_path_unique) (rule same_path)
  have "\<exists>d \<in> set accounts. P d \<and> sd_derivationPath d = p" if "a \<in> set known" "ga_stakeKeyDerivationPath a = Some p" "P (signer stake pool a p)" for a
  proof -
    note a = that
    obtain b where b: "b \<in> set (firsts ga_rewardAccount known)" "ga_rewardAccount b = ga_rewardAccount a"
      using firsts_complete [OF a(1), of ga_rewardAccount] by blast
    then have kb: "b \<in> set known" using sub by blast
    have eq: "stake b = stake a" using assms(1) kb a(1) b(2) unfolding known_ok_def by (metis sum.inject(2))
    then have "pool b = pool a" using assms(1) kb a(1) unfolding known_ok_def by (metis sum.inject(2))
    then have same: "signer stake pool b p = signer stake pool a p" using b(2) eq by (simp add: signer_def)
    have "ga_stakeKeyDerivationPath b = Some p" using assms(2) kb a(1,2) eq unfolding one_path_def by metis
    then have "signer stake pool b p \<in> set accounts" using accounts b(1) by blast
    with same a(3) show ?thesis by (intro bexI [of _ "signer stake pool b p"]) (simp_all add: signer_def)
  qed
  moreover have "own_path known (\<lambda>a. P (signer stake pool a p)) p" if "d \<in> set accounts" "P d" "sd_derivationPath d = p" for d
  proof -
    from that(1) accounts obtain a q where a: "a \<in> set known" "ga_stakeKeyDerivationPath a = Some q" "d = signer stake pool a q" using sub by blast
    then have "q = p" using that(3) by (simp add: signer_def)
    with a that(2) show ?thesis unfolding own_path_def by blast
  qed
  ultimately show ?thesis unfolding unique own_path_def by blast
qed

lemma same_stake:
  assumes "known_ok lib pay stake pool known" and "a \<in> set known" and "b \<in> set known"
  shows "ga_rewardAccount a = ga_rewardAccount b \<Longrightarrow> stake a = stake b"
    and "pool_ids_ok (pu_toTyped lib) \<Longrightarrow> pool a = pool b \<Longrightarrow> stake a = stake b"
proof -
  have r: "RewardAccount_toHash (pu_codecs lib) (ga_rewardAccount x) = Inr (stake x)"
    and p: "pu_toTyped lib ''pool'' (stake x) = Inr (pool x)" if "x \<in> set known" for x
    using assms(1) that by (simp_all add: known_ok_def PoolId_fromKeyHash_def)
  show "stake a = stake b" if "ga_rewardAccount a = ga_rewardAccount b" using r [OF assms(2)] r [OF assms(3)] that by simp
  show "stake a = stake b" if "pool_ids_ok (pu_toTyped lib)" "pool a = pool b"
    using p [OF assms(2)] p [OF assms(3)] that unfolding pool_ids_ok_def by metis
qed

lemma no_accounts_known:
  assumes "known_ok lib pay stake pool known" and "one_path stake known"
    and acc: "\<forall>d. d \<in> set accounts \<longleftrightarrow>
      (\<exists>a \<in> set (firsts ga_rewardAccount known). \<exists>p. ga_stakeKeyDerivationPath a = Some p \<and> d = signer stake pool a p)"
  shows "accounts = [] \<longleftrightarrow> (\<forall>a \<in> set known. ga_stakeKeyDerivationPath a = None)"
proof
  assume empty: "accounts = []"
  show "\<forall>a \<in> set known. ga_stakeKeyDerivationPath a = None"
  proof
    fix a assume a: "a \<in> set known"
    obtain b where b: "b \<in> set (firsts ga_rewardAccount known)" "ga_rewardAccount b = ga_rewardAccount a"
      using firsts_complete [OF a, of ga_rewardAccount] by blast
    from firsts_subset [THEN subsetD, OF b(1)] have kb: "b \<in> set known" .
    then have "stake a = stake b" using same_stake(1) [OF assms(1) a kb] b(2) by simp
    then have eq: "ga_stakeKeyDerivationPath a = ga_stakeKeyDerivationPath b" using assms(2) [unfolded one_path_def, rule_format, OF a kb] by simp
    show "ga_stakeKeyDerivationPath a = None"
    proof (cases "ga_stakeKeyDerivationPath b")
      case (Some p)
      with b(1) have "signer stake pool b p \<in> set accounts" by (intro acc [rule_format, THEN iffD2]) blast
      with empty show ?thesis by simp
    qed (simp add: eq)
  qed
next
  assume none: "\<forall>a \<in> set known. ga_stakeKeyDerivationPath a = None"
  show "accounts = []"
  proof (rule ccontr)
    assume "accounts \<noteq> []"
    then have "hd accounts \<in> set accounts" by simp
    from acc [rule_format, THEN iffD1, OF this] obtain a p where a: "a \<in> set (firsts ga_rewardAccount known)"
      "ga_stakeKeyDerivationPath a = Some p" by blast
    from firsts_subset [THEN subsetD, OF a(1)] have "a \<in> set known" .
    with none a(2) show False by simp
  qed
qed

lemma accounts_by:
  assumes "path_lib_ok lib" and "known_ok lib pay stake pool known" and "one_path stake known" and "pool_ids_ok (pu_toTyped lib)"
  shows "\<exists>accounts. getSignersData lib known = Inr accounts \<and> (accounts = [] \<longleftrightarrow> (\<forall>a \<in> set known. ga_stakeKeyDerivationPath a = None)) \<and>
    (\<forall>r p. account_path accounts (\<lambda>d. sd_rewardAccount d = r) p \<longleftrightarrow> own_path known (\<lambda>a. ga_rewardAccount a = r) p) \<and>
    (\<forall>h p. account_path accounts (\<lambda>d. sd_stakeKeyHash d = h) p \<longleftrightarrow> own_path known (\<lambda>a. stake a = h) p) \<and>
    (\<forall>i p. account_path accounts (\<lambda>d. sd_poolId d = i) p \<longleftrightarrow> own_path known (\<lambda>a. pool a = i) p)"
proof -
  obtain accounts where acc: "getSignersData lib known = Inr accounts" "\<forall>d. d \<in> set accounts \<longleftrightarrow>
      (\<exists>a \<in> set (firsts ga_rewardAccount known). \<exists>p. ga_stakeKeyDerivationPath a = Some p \<and> d = signer stake pool a p)"
    using signers_data [OF assms(1,2)] by blast
  note paths = account_paths [OF assms(2,3) acc(2)]
  have fields: "sd_rewardAccount (signer stake pool a p) = ga_rewardAccount a" "sd_stakeKeyHash (signer stake pool a p) = stake a"
    "sd_poolId (signer stake pool a p) = pool a" for a p by (simp_all add: signer_def)
  show ?thesis
  proof (intro exI [of _ accounts] conjI allI)
    fix r p show "account_path accounts (\<lambda>d. sd_rewardAccount d = r) p \<longleftrightarrow> own_path known (\<lambda>a. ga_rewardAccount a = r) p"
      by (rule paths [where P = "\<lambda>d. sd_rewardAccount d = r", unfolded fields]) (erule (1) same_stake(1) [OF assms(2)], simp)
  next
    fix h p show "account_path accounts (\<lambda>d. sd_stakeKeyHash d = h) p \<longleftrightarrow> own_path known (\<lambda>a. stake a = h) p"
      by (rule paths [where P = "\<lambda>d. sd_stakeKeyHash d = h", unfolded fields]) simp
  next
    fix i p show "account_path accounts (\<lambda>d. sd_poolId d = i) p \<longleftrightarrow> own_path known (\<lambda>a. pool a = i) p"
      by (rule paths [where P = "\<lambda>d. sd_poolId d = i", unfolded fields]) (erule (1) same_stake(2) [OF assms(2) _ _ assms(4)], simp)
  qed (rule acc(1), rule no_accounts_known [OF assms(2,3) acc(2)])
qed

definition hash_path :: "(GroupedAddress \<Rightarrow> bytes option) \<Rightarrow> (GroupedAddress \<Rightarrow> bytes) \<Rightarrow> GroupedAddress list \<Rightarrow> bytes \<Rightarrow> AccountKeyDerivationPath \<Rightarrow> bool" where
  "hash_path pay stake known h p \<longleftrightarrow> (\<exists>a \<in> set known. pay a = Some h \<and> p = paymentPath a \<or> stake a = h \<and> ga_stakeKeyDerivationPath a = Some p)"

lemma required_signer_paths:
  assumes "known_ok lib pay stake pool known"
  shows "\<exists>ps. getRequiredSignersKeyPaths lib known hs = Inr ps \<and> (\<forall>p. p \<in> set ps \<longleftrightarrow> (\<exists>h \<in> set (list_of hs). hash_path pay stake known h p))"
proof -
  let ?paths = "\<lambda>h a. (if pay a = Some h then [paymentPath a] else []) @ (case ga_stakeKeyDerivationPath a of Some p \<Rightarrow> if stake a = h then [p] else [] | None \<Rightarrow> [])"
  have one: "emap (signerPaths lib h) known = Inr (map (?paths h) known)" for h
    using assms by (intro emap_Inr) (simp add: signerPaths_def known_ok_def)
  have address_paths: "p \<in> set (?paths h a) \<longleftrightarrow> pay a = Some h \<and> p = paymentPath a \<or> stake a = h \<and> ga_stakeKeyDerivationPath a = Some p" for h p a
    by (cases "ga_stakeKeyDerivationPath a") auto
  have set_paths: "p \<in> set (concat (map (?paths h) known)) \<longleftrightarrow> hash_path pay stake known h p" for h p
    unfolding hash_path_def address_paths [symmetric] by simp
  have "emap (\<lambda>keyHash. ebind (emap (signerPaths lib keyHash) known) (\<lambda>ps. Inr (concat ps))) hs' = Inr (map (\<lambda>h. concat (map (?paths h) known)) hs')" for hs'
    by (intro emap_Inr) (simp add: one)
  then show ?thesis by (cases hs) (simp_all add: getRequiredSignersKeyPaths_def set_paths [symmetric])
qed

lemma signature_script_paths:
  assumes "known_ok lib pay stake pool known"
  shows "\<exists>c. processSignatureScript lib known h = Inr c \<and> (\<forall>p. p \<in> set (sc_derivationPaths c) \<longleftrightarrow> hash_path pay stake known h p)"
proof -
  let ?f = "\<lambda>check address.
       ebind (if ga_stakeKeyDerivationPath address \<noteq> None
              then ebind (checkStakeCredential lib h address) (\<lambda>c. Inr (combineSignatureChecks check c)) else Inr check) (\<lambda>check.
       ebind (checkPaymentCredential lib h address) (\<lambda>c. Inr (combineSignatureChecks check c)))"
  let ?Q = "\<lambda>a p. pay a = Some h \<and> p = paymentPath a \<or> stake a = h \<and> ga_stakeKeyDerivationPath a = Some p"
  have "\<exists>c'. ?f c a = Inr c' \<and> (\<forall>p. p \<in> set (sc_derivationPaths c') \<longleftrightarrow> p \<in> set (sc_derivationPaths c) \<or> ?Q a p)" if "a \<in> set known" for c a
    using that assms by (cases "ga_stakeKeyDerivationPath a") (auto simp: known_ok_def checkStakeCredential_def checkPaymentCredential_def)
  from efoldl_paths [where f = ?f and Q = ?Q, OF this, of known no_check] show ?thesis
    unfolding processSignatureScript_def hash_path_def by simp
qed

lemma script_paths:
  shows "known_ok lib pay stake pool known \<Longrightarrow> \<exists>c. processScript lib known script = Inr c \<and> (\<forall>p. p \<in> set (sc_derivationPaths c) \<longleftrightarrow> (\<exists>h \<in> script_keys script. hash_path pay stake known h p))"
    and "known_ok lib pay stake pool known \<Longrightarrow> \<exists>c. processScripts lib known check scripts = Inr c \<and>
      (\<forall>p. p \<in> set (sc_derivationPaths c) \<longleftrightarrow> p \<in> set (sc_derivationPaths check) \<or> (\<exists>s \<in> set scripts. \<exists>h \<in> script_keys s. hash_path pay stake known h p))"
proof (induction lib known script and lib known check scripts rule: processScript_processScripts.induct)
  case (9 lib addresses check script scripts)
  then obtain c where c: "processScript lib addresses script = Inr c"
    "\<forall>p. p \<in> set (sc_derivationPaths c) \<longleftrightarrow> (\<exists>h \<in> script_keys script. hash_path pay stake addresses h p)" by auto
  from 9(2) [OF c(1) 9(3)] c show ?case by auto
qed (use signature_script_paths in \<open>auto\<close>)

lemma native_script_paths:
  assumes "known_ok lib pay stake pool known"
  shows "\<exists>c. getNativeScriptKeyPaths lib known scripts = Inr c \<and> (\<forall>p. p \<in> set (sc_derivationPaths c) \<longleftrightarrow>
    (\<exists>s. Core_Native s \<in> set (list_of scripts) \<and> (\<exists>h \<in> script_keys s. hash_path pay stake known h p)))"
proof -
  let ?f = "\<lambda>check script. case script of
         Core_Native s \<Rightarrow> ebind (processScript lib known s) (\<lambda>c. Inr (combineSignatureChecks check c))
       | Core_Plutus _ \<Rightarrow> Inr (combineSignatureChecks check no_check)"
  let ?Q = "\<lambda>script p. \<exists>s. script = Core_Native s \<and> (\<exists>h \<in> script_keys s. hash_path pay stake known h p)"
  have "\<exists>c'. ?f c script = Inr c' \<and> (\<forall>p. p \<in> set (sc_derivationPaths c') \<longleftrightarrow> p \<in> set (sc_derivationPaths c) \<or> ?Q script p)" for c script
  proof (cases script)
    case (Core_Native s)
    with script_paths(1) [OF assms, of s] show ?thesis by auto
  qed simp
  from efoldl_paths [where f = ?f and Q = ?Q and xs = "list_of scripts" and c = no_check, OF this]
  obtain c where c: "getNativeScriptKeyPaths lib known scripts = Inr c"
    "\<forall>p. p \<in> set (sc_derivationPaths c) \<longleftrightarrow> (\<exists>x \<in> set (list_of scripts). ?Q x p)"
    unfolding getNativeScriptKeyPaths_def by auto
  have "(\<exists>x \<in> set (list_of scripts). ?Q x p) \<longleftrightarrow>
      (\<exists>s. Core_Native s \<in> set (list_of scripts) \<and> (\<exists>h \<in> script_keys s. hash_path pay stake known h p))" for p by blast
  with c show ?thesis by simp
qed

lemma voter_paths:
  assumes "getSignersData lib known = Inr accounts"
  shows "\<exists>c. getVotingProcedureKeyPaths lib known drep body = Inr c \<and> (\<forall>p. p \<in> set (sc_derivationPaths c) \<longleftrightarrow>
    (\<exists>voter \<in> set (list_of (cb_votingProcedures body)). voter_path accounts drep voter p))"
proof -
  have "p \<in> set (sc_derivationPaths (checkVoter accounts drep check voter)) \<longleftrightarrow> p \<in> set (sc_derivationPaths check) \<or> voter_path accounts drep voter p" for p check voter
    by (cases voter) (auto simp: checkVoter_def voter_path.simps)
  note foldl_paths [where f = "checkVoter accounts drep", OF this]
  with assms show ?thesis by (simp add: getVotingProcedureKeyPaths_def)
qed

lemma stake_paths:
  assumes "path_lib_ok lib" and "getSignersData lib known = Inr accounts" and "\<forall>cert \<in> set (list_of (cb_certificates body)). \<not> mir_unnamed cert \<or> accounts = []"
  shows "\<exists>c. getStakeCredentialKeyPaths lib known body = Inr c \<and> (\<forall>p. p \<in> set (sc_derivationPaths c) \<longleftrightarrow>
    (\<exists>w \<in> set (list_of (cb_withdrawals body)). account_path accounts (\<lambda>a. sd_rewardAccount a = wd_stakeAddress w) p) \<or>
    (\<exists>cert \<in> set (list_of (cb_certificates body)). cert_path accounts cert p))"
proof -
  obtain c where "efoldl (checkCertificate accounts) no_check (list_of (cb_certificates body)) = Inr c"
    "\<forall>p. p \<in> set (sc_derivationPaths c) \<longleftrightarrow> (\<exists>cert \<in> set (list_of (cb_certificates body)). cert_path accounts cert p)"
    using certificates_paths [OF assms(3), of no_check] by auto
  with assms(1,2) show ?thesis
    by (auto simp: getStakeCredentialKeyPaths_def checkStakeCredentialCertificates_def path_lib_ok_def withdrawal_paths Let_def)
qed

lemma stake_fails:
  assumes "getSignersData lib known = Inr accounts" and "accounts \<noteq> []" and "\<exists>cert \<in> set (list_of (cb_certificates body)). mir_unnamed cert"
  shows "getStakeCredentialKeyPaths lib known body = Inl TypeError"
  using certificates_fail [OF assms(2,3)] assms(1) by (simp add: getStakeCredentialKeyPaths_def checkStakeCredentialCertificates_def)

lemma key_hashesI:
  "h \<in> set (list_of (cb_requiredExtraSignatures body)) \<Longrightarrow> h \<in> key_hashes body scripts"
  "Core_Native s \<in> set (list_of scripts) \<Longrightarrow> h \<in> script_keys s \<Longrightarrow> h \<in> key_hashes body scripts"
  by (auto simp: key_hashes_def)

lemma own_pathI: "a \<in> set known \<Longrightarrow> ga_stakeKeyDerivationPath a = Some p \<Longrightarrow> P a \<Longrightarrow> own_path known P p"
  by (auto simp: own_path_def)

lemma required_pathI_hash:
  assumes "h \<in> key_hashes body scripts" and "hash_path pay stake known h p"
  shows "required_path pay stake pool body known inputs drep scripts p"
  using assms by (auto simp: hash_path_def intro: pays stakes own_pathI)

lemma own_cert_path:
  assumes "\<forall>r p. account_path accounts (\<lambda>d. sd_rewardAccount d = r) p \<longleftrightarrow> own_path known (\<lambda>a. ga_rewardAccount a = r) p"
    and "\<forall>h p. account_path accounts (\<lambda>d. sd_stakeKeyHash d = h) p \<longleftrightarrow> own_path known (\<lambda>a. stake a = h) p"
    and "\<forall>i p. account_path accounts (\<lambda>d. sd_poolId d = i) p \<longleftrightarrow> own_path known (\<lambda>a. pool a = i) p"
  shows "cert_path accounts cert p \<longleftrightarrow> own_path known (\<lambda>a. cert_key cert (stake a)) p \<or>
    (\<exists>params. cert = PoolRegistrationCertificate params \<and> own_path known (\<lambda>a. ga_rewardAccount a \<in> set (pl_owners params)) p) \<or>
    (\<exists>poolId epoch. cert = PoolRetirementCertificate poolId epoch \<and> own_path known (\<lambda>a. pool a = poolId) p)"
  unfolding cert_path.simps assms [rule_format] by (auto simp: own_path_def)

subsection \<open>Properties\<close>

text \<open>C6. When the known addresses can be read and a stake key is known under one path, the signing paths are found, each
  once, and they are exactly those the transaction asks for: of the inputs; of the own accounts that withdraw or
  own a pool that is registered; of the own stake keys whose certificates are signed (all that delegate, vote or deregister,
  and the registrations of the new kind), that rewards are moved to, or that are the key of a pool that retires or votes;
  of the own DRep that certifies or votes; and of every key hash that is a required signer or stands anywhere
  in a native script. The one exception is a certificate that moves rewards to stake credentials without
  naming one: with an own account the code then fails with a \<open>TypeError\<close>.\<close>

theorem own_paths_exact:
  assumes "path_lib_ok lib" and "known_ok lib pay stake pool known" and "one_path stake known" and "pool_ids_ok (pu_toTyped lib)"
  shows "if (\<exists>quantity pot. MirCertificate ToStakeCreds None quantity pot \<in> set (list_of (cb_certificates body))) \<and>
       (\<exists>a \<in> set known. ga_stakeKeyDerivationPath a \<noteq> None)
     then ownSignatureKeyPaths lib body known inputs drep scripts = Inl TypeError
     else \<exists>ps. ownSignatureKeyPaths lib body known inputs drep scripts = Inr ps \<and>
       distinct ps \<and> set ps = {p. required_path pay stake pool body known inputs drep scripts p}"
proof -
  obtain accounts where accounts: "getSignersData lib known = Inr accounts"
    "accounts = [] \<longleftrightarrow> (\<forall>a \<in> set known. ga_stakeKeyDerivationPath a = None)"
    and by_account: "\<forall>r p. account_path accounts (\<lambda>d. sd_rewardAccount d = r) p \<longleftrightarrow> own_path known (\<lambda>a. ga_rewardAccount a = r) p"
    and by_key: "\<forall>h p. account_path accounts (\<lambda>d. sd_stakeKeyHash d = h) p \<longleftrightarrow> own_path known (\<lambda>a. stake a = h) p"
    and by_pool: "\<forall>i p. account_path accounts (\<lambda>d. sd_poolId d = i) p \<longleftrightarrow> own_path known (\<lambda>a. pool a = i) p"
    using accounts_by [OF assms] by blast
  have unnamed: "(\<exists>quantity pot. MirCertificate ToStakeCreds None quantity pot \<in> set certs) \<longleftrightarrow> (\<exists>cert \<in> set certs. mir_unnamed cert)" for certs
    by (auto simp: mir_unnamed_iff)
  show ?thesis
  proof (cases "(\<exists>cert \<in> set (list_of (cb_certificates body)). mir_unnamed cert) \<and> accounts \<noteq> []")
    case True
    then have "getStakeCredentialKeyPaths lib known body = Inl TypeError" using stake_fails [OF accounts(1)] by blast
    with True accounts(2) show ?thesis by (simp add: unnamed ownSignatureKeyPaths_def)
  next
    case False
    then have certs: "\<forall>cert \<in> set (list_of (cb_certificates body)). \<not> mir_unnamed cert \<or> accounts = []" by blast
    obtain st where st: "getStakeCredentialKeyPaths lib known body = Inr st"
      "\<And>p. p \<in> set (sc_derivationPaths st) \<longleftrightarrow>
        (\<exists>w \<in> set (list_of (cb_withdrawals body)). own_path known (\<lambda>a. ga_rewardAccount a = wd_stakeAddress w) p) \<or>
        (\<exists>cert \<in> set (list_of (cb_certificates body)). cert_path accounts cert p)"
      using stake_paths [OF assms(1) accounts(1) certs] by_account by auto
    obtain sg where sg: "getRequiredSignersKeyPaths lib known (cb_requiredExtraSignatures body) = Inr sg"
      "\<And>p. p \<in> set sg \<longleftrightarrow> (\<exists>h \<in> set (list_of (cb_requiredExtraSignatures body)). hash_path pay stake known h p)"
      using required_signer_paths [OF assms(2)] by metis
    obtain vo where vo: "getVotingProcedureKeyPaths lib known drep body = Inr vo"
      "\<And>p. p \<in> set (sc_derivationPaths vo) \<longleftrightarrow> (\<exists>voter \<in> set (list_of (cb_votingProcedures body)). voter_path accounts drep voter p)"
      using voter_paths [OF accounts(1)] by metis
    obtain na where na: "getNativeScriptKeyPaths lib known scripts = Inr na"
      "\<And>p. p \<in> set (sc_derivationPaths na) \<longleftrightarrow>
        (\<exists>s. Core_Native s \<in> set (list_of scripts) \<and> (\<exists>h \<in> script_keys s. hash_path pay stake known h p))"
      using native_script_paths [OF assms(2)] by metis
    let ?ps = "List.map_filter snd inputs @ sc_derivationPaths st @ sc_derivationPaths (getDRepCredentialKeyPaths drep body) @ sg @
      sc_derivationPaths vo @ sc_derivationPaths na"
    have inputs: "p \<in> set (List.map_filter snd inputs) \<longleftrightarrow> (\<exists>i. (i, Some p) \<in> set inputs)" for p
      by (force simp: List.map_filter_def)
    note own = own_cert_path [OF by_account by_key by_pool] voter_path.simps by_key [rule_format]
    have "required_path pay stake pool body known inputs drep scripts p" if "p \<in> set ?ps" for p
      using that unfolding set_append Un_iff inputs st(2) sg(2) vo(2) na(2) drep_paths own
      by (elim disjE bexE exE conjE) (auto intro: required_path.intros required_pathI_hash key_hashesI)
    moreover have "p \<in> set ?ps" if "required_path pay stake pool body known inputs drep scripts p" for p
      using that
    proof cases
      case (pays h a)
      then have "hash_path pay stake known h p" by (auto simp: hash_path_def)
      with pays(2) sg(2) na(2) show ?thesis by (auto simp: key_hashes_def)
    next
      case (stakes h)
      then have "hash_path pay stake known h p" by (auto simp: hash_path_def own_path_def)
      with stakes(1) sg(2) na(2) show ?thesis by (auto simp: key_hashes_def)
    qed (use st(2) vo(2) drep_paths inputs own in fastforce)+
    ultimately have "set ?ps = {p. required_path pay stake pool body known inputs drep scripts p}" by blast
    with False accounts st(1) sg(1) vo(1) na(1) assms(1) show ?thesis by (auto simp: unnamed ownSignatureKeyPaths_def path_lib_ok_def)
  qed
qed

definition example_paths :: path_lib where
  "example_paths = \<lparr>pu_codecs = example_codecs, pu_toTyped = \<lambda>p b. Inr (p @ map (\<lambda>x. char_of (unat x)) b),
     pu_uniqPaths = js_uniq, pu_uniqByAccount = firsts ga_rewardAccount\<rparr>"

definition example_known :: "string \<Rightarrow> string \<Rightarrow> GroupedAddress" where
  "example_known address account = \<lparr>ga_type = 0, ga_index = 4, ga_networkId = 1, ga_accountIndex = 0, ga_address = address,
     ga_rewardAccount = account, ga_stakeKeyDerivationPath = Some \<lparr>kp_role = 2, kp_index = 0\<rparr>\<rparr>"

text \<open>One known address: its payment key is in a native script, its account is deregistered; another account delegates.\<close>

theorem own_paths_exact_witness:
  "\<exists>address account ps. ownSignatureKeyPaths example_paths
      \<lparr>cb_certificates = Some [StakeDelegationCertificate \<lparr>cred_type = KeyHash, cred_hash = replicate 28 8\<rparr> ''pool'',
         NewStakeAddressCertificate False example_key 2], cb_withdrawals = None, cb_proposalProcedures = None,
       cb_requiredExtraSignatures = None, cb_votingProcedures = None\<rparr>
      [example_known address account] [(''a'', Some \<lparr>kp_role = 1, kp_index = 9\<rparr>)] None
      (Some [Core_Native (RequireAnyOfScript [RequireTimeAfterScript 5, RequireSignatureScript (replicate 28 6)])]) = Inr ps \<and>
    distinct ps \<and> set ps = {\<lparr>kp_role = 1, kp_index = 9\<rparr>, \<lparr>kp_role = 0, kp_index = 4\<rparr>, \<lparr>kp_role = 2, kp_index = 0\<rparr>}"
proof -
  let ?pay = "\<lparr>cred_type = KeyHash, cred_hash = replicate 28 6\<rparr>"
  let ?a = "BaseAddress_fromCredentials 1 ?pay example_key"
  have len: "length (cred_hash ?pay) = 28" "length (cred_hash example_key) = 28" by (simp_all add: example_key_def)
  obtain account where account: "RewardAccount_toHash example_codecs account = Inr (replicate 28 7)"
    using reward_account_ids [OF example_codecs_ok len(2), of 1] by (auto simp: example_key_def)
  have valid: "shelley_valid ?a" by (rule fromCredentials_valid(1) [OF _ len(1) len(2)]) simp
  have ptr: "\<forall>p. ap_pointer ?a = Some p \<longrightarrow> ptr_slot p < 18446744073709551616"
    by (simp add: BaseAddress_fromCredentials_def BaseAddress_new_def Let_def)
  obtain address where address: "Address_fromBech32 example_codecs address = Inr ?a" by (rule bech32_address [OF example_codecs_ok valid ptr])
  let ?known = "[example_known address account]"
  have "map_option (\<lambda>x. (ap_paymentPart x, ap_delegationPart x)) (BaseAddress_fromAddress ?a) = Some (Some ?pay, Some example_key)"
    using fromCredentials_views(1) [of 1 ?pay example_key] by blast
  then obtain b where "BaseAddress_fromAddress ?a = Some b" "ap_paymentPart b = Some ?pay" by auto
  let ?id = "''pool'' @ map (\<lambda>x. char_of (unat x)) (replicate 28 (7 :: byte))"
  from \<open>BaseAddress_fromAddress ?a = Some b\<close> \<open>ap_paymentPart b = Some ?pay\<close> have known: "known_ok example_paths (\<lambda>_. Some (replicate 28 6)) (\<lambda>_. replicate 28 7)
      (\<lambda>_. ?id) ?known"
    using account address by (simp add: known_ok_def example_paths_def example_known_def paymentHash_def PoolId_fromKeyHash_def typedHash_def)
  have one: "one_path (\<lambda>_. replicate 28 7) ?known" by (simp add: one_path_def)
  have pools: "pool_ids_ok (pu_toTyped example_paths)" using pool_ids_example by (simp add: example_paths_def)
  have lib: "path_lib_ok example_paths" by (simp add: path_lib_ok_def example_paths_def)
  let ?body = "\<lparr>cb_certificates = Some [StakeDelegationCertificate \<lparr>cred_type = KeyHash, cred_hash = replicate 28 8\<rparr> ''pool'',
         NewStakeAddressCertificate False example_key 2], cb_withdrawals = None, cb_proposalProcedures = None,
       cb_requiredExtraSignatures = None, cb_votingProcedures = None\<rparr>"
  let ?inputs = "[(''a'', Some \<lparr>kp_role = 1, kp_index = 9\<rparr>)]"
  let ?scripts = "Some [Core_Native (RequireAnyOfScript [RequireTimeAfterScript 5, RequireSignatureScript (replicate 28 6)])]"
  have own: "own_path ?known P p \<longleftrightarrow> p = \<lparr>kp_role = 2, kp_index = 0\<rparr> \<and> P (example_known address account)" for P p
    by (auto simp: own_path_def example_known_def)
  have keys: "key_hashes ?body ?scripts = {replicate 28 6}" by (auto simp: key_hashes_def)
  have certs: "(\<exists>cert \<in> set (list_of (cb_certificates ?body)). cert_key cert (replicate 28 7))"
    "(\<forall>cert \<in> set (list_of (cb_certificates ?body)). drep_credential cert = None)"
    using cert_key.intros(2) [of example_key False 2] by (simp_all add: example_key_def)
  have req: "required_path (\<lambda>_. Some (replicate 28 6)) (\<lambda>_. replicate 28 7) (\<lambda>_. ?id) ?body ?known ?inputs None ?scripts p \<longleftrightarrow>
      p \<in> {\<lparr>kp_role = 1, kp_index = 9\<rparr>, \<lparr>kp_role = 0, kp_index = 4\<rparr>, \<lparr>kp_role = 2, kp_index = 0\<rparr>}" for p
    unfolding required_path.simps own keys using certs by (auto simp: paymentPath_def example_known_def)
  have named: "MirCertificate ToStakeCreds None quantity pot \<notin> set (list_of (cb_certificates ?body))" for quantity pot by simp
  have "\<exists>ps. ownSignatureKeyPaths example_paths ?body ?known ?inputs None ?scripts = Inr ps \<and> distinct ps \<and>
      set ps = {p. p \<in> {\<lparr>kp_role = 1, kp_index = 9\<rparr>, \<lparr>kp_role = 0, kp_index = 4\<rparr>, \<lparr>kp_role = 2, kp_index = 0\<rparr>}}"
    using own_paths_exact [OF lib known one pools, of ?body ?inputs None ?scripts] named unfolding req by presburger
  then show ?thesis unfolding Collect_mem_eq by blast
qed

end
