(* ===== verification/Cert_Core.thy ===== *)
theory Cert_Core
  imports Core_Certificates
begin

text \<open>
  The conversions between the certificate classes and the plain certificates: \<open>toCore\<close> and \<open>fromCore\<close>
  of every class of \<open>core/src/Serialization/Certificates\<close>. The optional fields that a plain object
  leaves out are \<open>None\<close>. A DRep of one of the two kinds with a credential always has one; without it,
  \<open>toCore\<close> would give \<open>undefined\<close>, which is \<open>TypeError\<close> here.
\<close>

definition Anchor_toCore :: "Anchor \<Rightarrow> js_string \<times> bytes" where
  "Anchor_toCore a = (an_url a, an_dataHash a)"

definition Anchor_fromCore :: "js_string \<times> bytes \<Rightarrow> Anchor result" where
  "Anchor_fromCore anchor = Anchor_new (fst anchor) (snd anchor)"

definition nullable_anchor :: "core_anchor \<Rightarrow> Anchor option result" where
  "nullable_anchor anchor = (case anchor of None \<Rightarrow> Inr None | Some a \<Rightarrow> ebind (Anchor_fromCore a) (\<lambda>a. Inr (Some a)))"

definition core_dRep :: "DRep \<Rightarrow> Core_DelegateRepresentative result" where
  "core_dRep dRep = the_field (DRep_toCore dRep)"

subsection \<open>Stake keys\<close>

definition StakeRegistration_toCore :: "StakeRegistration \<Rightarrow> Core_Certificate" where
  "StakeRegistration_toCore x = StakeAddressCertificate True (srg_credential x)"

definition StakeRegistration_fromCore :: "Credential \<Rightarrow> StakeRegistration" where
  "StakeRegistration_fromCore stakeCredential = StakeRegistration_new stakeCredential"

definition StakeDeregistration_toCore :: "StakeDeregistration \<Rightarrow> Core_Certificate" where
  "StakeDeregistration_toCore x = StakeAddressCertificate False (sdr_credential x)"

definition StakeDeregistration_fromCore :: "Credential \<Rightarrow> StakeDeregistration" where
  "StakeDeregistration_fromCore stakeCredential = StakeDeregistration_new stakeCredential"

definition Registration_toCore :: "Registration \<Rightarrow> Core_Certificate" where
  "Registration_toCore x = NewStakeAddressCertificate True (reg_credential x) (reg_deposit x)"

definition Registration_fromCore :: "Credential \<Rightarrow> int \<Rightarrow> Registration" where
  "Registration_fromCore stakeCredential deposit = Registration_new stakeCredential deposit"

definition Unregistration_toCore :: "Unregistration \<Rightarrow> Core_Certificate" where
  "Unregistration_toCore x = NewStakeAddressCertificate False (unr_credential x) (unr_deposit x)"

definition Unregistration_fromCore :: "Credential \<Rightarrow> int \<Rightarrow> Unregistration" where
  "Unregistration_fromCore stakeCredential deposit = Unregistration_new stakeCredential deposit"

definition GenesisKeyDelegation_toCore :: "GenesisKeyDelegation \<Rightarrow> Core_Certificate" where
  "GenesisKeyDelegation_toCore x =
     GenesisKeyDelegationCertificate (gkd_genesisHash x) (gkd_genesisDelegateHash x) (gkd_vrfKeyHash x)"

definition GenesisKeyDelegation_fromCore :: "bytes \<Rightarrow> bytes \<Rightarrow> bytes \<Rightarrow> GenesisKeyDelegation" where
  "GenesisKeyDelegation_fromCore genesisHash genesisDelegateHash vrfKeyHash =
     GenesisKeyDelegation_new genesisHash genesisDelegateHash vrfKeyHash"

subsection \<open>Delegation\<close>

definition StakeDelegation_toCore :: "package_bech32 \<Rightarrow> StakeDelegation \<Rightarrow> Core_Certificate result" where
  "StakeDelegation_toCore toTyped x =
     ebind (PoolId_fromKeyHash toTyped (sdl_poolKeyHash x)) (\<lambda>poolId. Inr (StakeDelegationCertificate (sdl_credential x) poolId))"

definition StakeDelegation_fromCore :: "string_codecs \<Rightarrow> Credential \<Rightarrow> string \<Rightarrow> StakeDelegation result" where
  "StakeDelegation_fromCore lib stakeCredential poolId =
     ebind (PoolId_toKeyHash lib poolId) (\<lambda>h. Inr (StakeDelegation_new stakeCredential h))"

definition VoteDelegation_toCore :: "VoteDelegation \<Rightarrow> Core_Certificate result" where
  "VoteDelegation_toCore x = ebind (core_dRep (vdl_dRep x)) (\<lambda>dRep. Inr (VoteDelegationCertificate (vdl_credential x) dRep))"

definition VoteDelegation_fromCore :: "Credential \<Rightarrow> Core_DelegateRepresentative \<Rightarrow> VoteDelegation" where
  "VoteDelegation_fromCore stakeCredential dRep = VoteDelegation_new stakeCredential (DRep_fromCore dRep)"

definition StakeVoteDelegation_toCore :: "package_bech32 \<Rightarrow> StakeVoteDelegation \<Rightarrow> Core_Certificate result" where
  "StakeVoteDelegation_toCore toTyped x =
     ebind (core_dRep (svd_dRep x)) (\<lambda>dRep.
     ebind (PoolId_fromKeyHash toTyped (svd_poolKeyHash x)) (\<lambda>poolId.
       Inr (StakeVoteDelegationCertificate (svd_credential x) poolId dRep)))"

definition StakeVoteDelegation_fromCore :: "string_codecs \<Rightarrow> Credential \<Rightarrow> string \<Rightarrow> Core_DelegateRepresentative \<Rightarrow>
    StakeVoteDelegation result" where
  "StakeVoteDelegation_fromCore lib stakeCredential poolId dRep =
     ebind (PoolId_toKeyHash lib poolId) (\<lambda>h. Inr (StakeVoteDelegation_new stakeCredential h (DRep_fromCore dRep)))"

definition StakeRegistrationDelegation_toCore :: "package_bech32 \<Rightarrow> StakeRegistrationDelegation \<Rightarrow> Core_Certificate result" where
  "StakeRegistrationDelegation_toCore toTyped x =
     ebind (PoolId_fromKeyHash toTyped (srd_poolKeyHash x)) (\<lambda>poolId.
       Inr (StakeRegistrationDelegationCertificate (srd_credential x) poolId (srd_deposit x)))"

definition StakeRegistrationDelegation_fromCore :: "string_codecs \<Rightarrow> Credential \<Rightarrow> string \<Rightarrow> int \<Rightarrow> StakeRegistrationDelegation result" where
  "StakeRegistrationDelegation_fromCore lib stakeCredential poolId deposit =
     ebind (PoolId_toKeyHash lib poolId) (\<lambda>h. Inr (StakeRegistrationDelegation_new stakeCredential h deposit))"

definition VoteRegistrationDelegation_toCore :: "VoteRegistrationDelegation \<Rightarrow> Core_Certificate result" where
  "VoteRegistrationDelegation_toCore x =
     ebind (core_dRep (vrd_dRep x)) (\<lambda>dRep. Inr (VoteRegistrationDelegationCertificate (vrd_credential x) dRep (vrd_deposit x)))"

definition VoteRegistrationDelegation_fromCore :: "Credential \<Rightarrow> Core_DelegateRepresentative \<Rightarrow> int \<Rightarrow> VoteRegistrationDelegation" where
  "VoteRegistrationDelegation_fromCore stakeCredential dRep deposit =
     VoteRegistrationDelegation_new stakeCredential (DRep_fromCore dRep) deposit"

definition StakeVoteRegistrationDelegation_toCore :: "package_bech32 \<Rightarrow> StakeVoteRegistrationDelegation \<Rightarrow> Core_Certificate result" where
  "StakeVoteRegistrationDelegation_toCore toTyped x =
     ebind (core_dRep (svr_dRep x)) (\<lambda>dRep.
     ebind (PoolId_fromKeyHash toTyped (svr_poolKeyHash x)) (\<lambda>poolId.
       Inr (StakeVoteRegistrationDelegationCertificate (svr_credential x) poolId dRep (svr_deposit x))))"

definition StakeVoteRegistrationDelegation_fromCore :: "string_codecs \<Rightarrow> Credential \<Rightarrow> string \<Rightarrow> Core_DelegateRepresentative \<Rightarrow> int \<Rightarrow>
    StakeVoteRegistrationDelegation result" where
  "StakeVoteRegistrationDelegation_fromCore lib stakeCredential poolId dRep deposit =
     ebind (PoolId_toKeyHash lib poolId) (\<lambda>h.
       Inr (StakeVoteRegistrationDelegation_new stakeCredential h (DRep_fromCore dRep) deposit))"

subsection \<open>Governance\<close>

definition AuthCommitteeHot_toCore :: "AuthCommitteeHot \<Rightarrow> Core_Certificate" where
  "AuthCommitteeHot_toCore x = AuthorizeCommitteeHotCertificate (ach_coldCredential x) (ach_hotCredential x)"

definition AuthCommitteeHot_fromCore :: "Credential \<Rightarrow> Credential \<Rightarrow> AuthCommitteeHot" where
  "AuthCommitteeHot_fromCore coldCredential hotCredential = AuthCommitteeHot_new coldCredential hotCredential"

definition ResignCommitteeCold_toCore :: "ResignCommitteeCold \<Rightarrow> Core_Certificate" where
  "ResignCommitteeCold_toCore x = ResignCommitteeColdCertificate (rcc_coldCredential x) (map_option Anchor_toCore (rcc_anchor x))"

definition ResignCommitteeCold_fromCore :: "Credential \<Rightarrow> core_anchor \<Rightarrow> ResignCommitteeCold result" where
  "ResignCommitteeCold_fromCore coldCredential anchor = ebind (nullable_anchor anchor) (\<lambda>a. Inr (ResignCommitteeCold_new coldCredential a))"

definition RegisterDelegateRepresentative_toCore :: "RegisterDelegateRepresentative \<Rightarrow> Core_Certificate" where
  "RegisterDelegateRepresentative_toCore x =
     RegisterDelegateRepresentativeCertificate (rdr_drepCredential x) (rdr_deposit x) (map_option Anchor_toCore (rdr_anchor x))"

definition RegisterDelegateRepresentative_fromCore :: "Credential \<Rightarrow> int \<Rightarrow> core_anchor \<Rightarrow> RegisterDelegateRepresentative result" where
  "RegisterDelegateRepresentative_fromCore dRepCredential deposit anchor =
     ebind (nullable_anchor anchor) (\<lambda>a. Inr (RegisterDelegateRepresentative_new dRepCredential deposit a))"

definition UnregisterDelegateRepresentative_toCore :: "UnregisterDelegateRepresentative \<Rightarrow> Core_Certificate" where
  "UnregisterDelegateRepresentative_toCore x = UnRegisterDelegateRepresentativeCertificate (udr_drepCredential x) (udr_deposit x)"

definition UnregisterDelegateRepresentative_fromCore :: "Credential \<Rightarrow> int \<Rightarrow> UnregisterDelegateRepresentative" where
  "UnregisterDelegateRepresentative_fromCore dRepCredential deposit = UnregisterDelegateRepresentative_new dRepCredential deposit"

definition UpdateDelegateRepresentative_toCore :: "UpdateDelegateRepresentative \<Rightarrow> Core_Certificate" where
  "UpdateDelegateRepresentative_toCore x =
     UpdateDelegateRepresentativeCertificate (upd_drepCredential x) (map_option Anchor_toCore (upd_anchor x))"

definition UpdateDelegateRepresentative_fromCore :: "Credential \<Rightarrow> core_anchor \<Rightarrow> UpdateDelegateRepresentative result" where
  "UpdateDelegateRepresentative_fromCore dRepCredential anchor =
     ebind (nullable_anchor anchor) (\<lambda>a. Inr (UpdateDelegateRepresentative_new dRepCredential a))"

subsection \<open>Pools\<close>

definition PoolRetirement_toCore :: "package_bech32 \<Rightarrow> PoolRetirement \<Rightarrow> Core_Certificate result" where
  "PoolRetirement_toCore toTyped x =
     ebind (PoolId_fromKeyHash toTyped (prt_poolKeyHash x)) (\<lambda>poolId. Inr (PoolRetirementCertificate poolId (prt_epoch x)))"

definition PoolRetirement_fromCore :: "string_codecs \<Rightarrow> string \<Rightarrow> int \<Rightarrow> PoolRetirement result" where
  "PoolRetirement_fromCore lib poolId epoch = ebind (PoolId_toKeyHash lib poolId) (\<lambda>h. Inr (PoolRetirement_new h epoch))"

definition SingleHostAddr_toCore :: "SingleHostAddr \<Rightarrow> Core_Relay" where
  "SingleHostAddr_toCore x = RelayByAddress (sha_ipV4 x) (sha_ipV6 x) (sha_port x)"

definition SingleHostAddr_fromCore :: "string option \<Rightarrow> string option \<Rightarrow> int option \<Rightarrow> SingleHostAddr" where
  "SingleHostAddr_fromCore ipv4 ipv6 port = SingleHostAddr_new port ipv4 ipv6"

definition SingleHostName_toCore :: "SingleHostName \<Rightarrow> Core_Relay" where
  "SingleHostName_toCore x = RelayByName (shn_dnsName x) (shn_port x)"

definition SingleHostName_fromCore :: "js_string \<Rightarrow> int option \<Rightarrow> SingleHostName result" where
  "SingleHostName_fromCore hostname port = SingleHostName_new hostname port"

definition MultiHostName_toCore :: "MultiHostName \<Rightarrow> Core_Relay" where
  "MultiHostName_toCore x = RelayByNameMultihost (mhn_dnsName x)"

definition MultiHostName_fromCore :: "js_string \<Rightarrow> MultiHostName result" where
  "MultiHostName_fromCore dnsName = MultiHostName_new dnsName"

definition Relay_toCore :: "Relay \<Rightarrow> Core_Relay" where
  "Relay_toCore x = (case rel_body x of
       RelaySingleHostAddr a \<Rightarrow> SingleHostAddr_toCore a
     | RelaySingleHostName n \<Rightarrow> SingleHostName_toCore n
     | RelayMultiHostName n \<Rightarrow> MultiHostName_toCore n)"

definition Relay_fromCore :: "Core_Relay \<Rightarrow> Relay result" where
  "Relay_fromCore coreRelay =
     ebind (case coreRelay of
         RelayByAddress ipv4 ipv6 port \<Rightarrow> Inr (RelaySingleHostAddr (SingleHostAddr_fromCore ipv4 ipv6 port))
       | RelayByName hostname port \<Rightarrow> ebind (SingleHostName_fromCore hostname port) (\<lambda>n. Inr (RelaySingleHostName n))
       | RelayByNameMultihost dnsName \<Rightarrow> ebind (MultiHostName_fromCore dnsName) (\<lambda>n. Inr (RelayMultiHostName n)))
       (\<lambda>body. Inr \<lparr>rel_body = body, rel_originalBytes = None\<rparr>)"

definition PoolMetadata_toCore :: "PoolMetadata \<Rightarrow> js_string \<times> bytes" where
  "PoolMetadata_toCore x = (pm_url x, pm_hash x)"

definition PoolMetadata_fromCore :: "js_string \<times> bytes \<Rightarrow> PoolMetadata result" where
  "PoolMetadata_fromCore metadata = PoolMetadata_new (fst metadata) (snd metadata)"

definition PoolParams_toCore :: "string_codecs \<Rightarrow> package_bech32 \<Rightarrow> PoolParams \<Rightarrow> PoolParameters result" where
  "PoolParams_toCore lib toTyped p =
     ebind (the_field (pp_rewardAccount p)) (\<lambda>rewardAccountAddress.
     ebind (PoolId_fromKeyHash toTyped (pp_operator p)) (\<lambda>id.
     ebind (emap (\<lambda>keyHash. ebind (the_field (Address_getNetworkId rewardAccountAddress)) (createRewardAccount lib keyHash))
       (CborSet_toCore (\<lambda>h. h) (pp_poolOwners p))) (\<lambda>owners.
     ebind (Address_toBech32 lib rewardAccountAddress) (\<lambda>rewardAccount.
       Inr \<lparr>pl_id = id, pl_vrf = pp_vrfKeyHash p, pl_pledge = pp_pledge p, pl_cost = pp_cost p,
         pl_margin = UnitInterval_toCore (pp_margin p), pl_rewardAccount = rewardAccount, pl_owners = owners,
         pl_relays = map Relay_toCore (pp_relays p), pl_metadataJson = map_option PoolMetadata_toCore (pp_poolMetadata p)\<rparr>))))"

definition owner_key :: "string_codecs \<Rightarrow> string \<Rightarrow> bytes result" where
  "owner_key lib owner =
     ebind (Address_fromBech32 lib owner) (\<lambda>a.
     ebind (the_field (RewardAddress_fromAddress a)) (\<lambda>reward.
     ebind (the_field (ap_paymentPart reward)) (\<lambda>c. typedHash 28 (cred_hash c))))"

definition PoolParams_fromCore :: "string_codecs \<Rightarrow> PoolParameters \<Rightarrow> PoolParams result" where
  "PoolParams_fromCore lib params =
     ebind (PoolId_toKeyHash lib (pl_id params)) (\<lambda>operator.
     ebind (Address_fromBech32 lib (pl_rewardAccount params)) (\<lambda>rewardAccount.
     ebind (emap (owner_key lib) (pl_owners params)) (\<lambda>owners.
     ebind (emap Relay_fromCore (pl_relays params)) (\<lambda>relays.
     ebind (case pl_metadataJson params of None \<Rightarrow> Inr None | Some m \<Rightarrow> ebind (PoolMetadata_fromCore m) (\<lambda>m. Inr (Some m))) (\<lambda>metadata.
       Inr \<lparr>pp_operator = operator, pp_vrfKeyHash = pl_vrf params, pp_pledge = pl_pledge params, pp_cost = pl_cost params,
         pp_margin = UnitInterval_fromCore (pl_margin params), pp_rewardAccount = RewardAddress_fromAddress rewardAccount,
         pp_poolOwners = CborSet_fromCore (\<lambda>h. h) owners, pp_relays = relays, pp_poolMetadata = metadata,
         pp_originalBytes = None\<rparr>)))))"

definition PoolRegistration_toCore :: "string_codecs \<Rightarrow> package_bech32 \<Rightarrow> PoolRegistration \<Rightarrow> Core_Certificate result" where
  "PoolRegistration_toCore lib toTyped x =
     ebind (PoolParams_toCore lib toTyped (prg_params x)) (\<lambda>params. Inr (PoolRegistrationCertificate params))"

definition PoolRegistration_fromCore :: "string_codecs \<Rightarrow> PoolParameters \<Rightarrow> PoolRegistration result" where
  "PoolRegistration_fromCore lib poolParameters =
     ebind (PoolParams_fromCore lib poolParameters) (\<lambda>params. Inr (PoolRegistration_new params))"

subsection \<open>Rewards\<close>

definition MirToOtherPot_toCore :: "MoveInstantaneousRewardToOtherPot \<Rightarrow> Core_Certificate" where
  "MirToOtherPot_toCore x = MirCertificate ToOtherPot None (mop_amount x) (mop_pot x)"

definition MirToOtherPot_fromCore :: "MirCertificateKind \<Rightarrow> int \<Rightarrow> MirCertificatePot \<Rightarrow> MoveInstantaneousRewardToOtherPot result" where
  "MirToOtherPot_fromCore kind quantity pot =
     (if kind \<noteq> ToOtherPot then Inl InvalidArgumentError
      else Inr \<lparr>mop_pot = pot, mop_amount = quantity, mop_originalBytes = None\<rparr>)"

text \<open>Only the first entry of the map is kept.\<close>

definition MirToStakeCreds_toCore :: "MoveInstantaneousRewardToStakeCreds \<Rightarrow> Core_Certificate result" where
  "MirToStakeCreds_toCore x = (case msc_credentials x of
       [] \<Rightarrow> Inl InvalidStateError
     | (stakeCredential, quantity) # _ \<Rightarrow> Inr (MirCertificate ToStakeCreds (Some stakeCredential) quantity (msc_pot x)))"

definition MirToStakeCreds_fromCore :: "MirCertificateKind \<Rightarrow> Credential option \<Rightarrow> int \<Rightarrow> MirCertificatePot \<Rightarrow>
    MoveInstantaneousRewardToStakeCreds result" where
  "MirToStakeCreds_fromCore kind stakeCredential quantity pot =
     (if kind \<noteq> ToStakeCreds then Inl InvalidArgumentError
      else case stakeCredential of None \<Rightarrow> Inl InvalidArgumentError
        | Some c \<Rightarrow> Inr \<lparr>msc_pot = pot, msc_credentials = [(c, quantity)], msc_originalBytes = None\<rparr>)"

definition MoveInstantaneousReward_toCore :: "MoveInstantaneousReward \<Rightarrow> Core_Certificate result" where
  "MoveInstantaneousReward_toCore x = (case mir_body x of
       MirToOtherPot p \<Rightarrow> Inr (MirToOtherPot_toCore p)
     | MirToStakeCreds c \<Rightarrow> MirToStakeCreds_toCore c)"

definition MoveInstantaneousReward_fromCore :: "MirCertificateKind \<Rightarrow> Credential option \<Rightarrow> int \<Rightarrow> MirCertificatePot \<Rightarrow>
    MoveInstantaneousReward result" where
  "MoveInstantaneousReward_fromCore kind stakeCredential quantity pot =
     ebind (case kind of
         ToOtherPot \<Rightarrow> ebind (MirToOtherPot_fromCore kind quantity pot) (\<lambda>p. Inr (MirToOtherPot p))
       | ToStakeCreds \<Rightarrow> ebind (MirToStakeCreds_fromCore kind stakeCredential quantity pot) (\<lambda>c. Inr (MirToStakeCreds c)))
       (\<lambda>body. Inr \<lparr>mir_body = body, mir_originalBytes = None\<rparr>)"

subsection \<open>Certificates\<close>

fun CertificateBody_toCore :: "string_codecs \<Rightarrow> package_bech32 \<Rightarrow> CertificateBody \<Rightarrow> Core_Certificate result" where
  "CertificateBody_toCore lib toTyped (CertStakeRegistration x) = Inr (StakeRegistration_toCore x)"
| "CertificateBody_toCore lib toTyped (CertStakeDeregistration x) = Inr (StakeDeregistration_toCore x)"
| "CertificateBody_toCore lib toTyped (CertStakeDelegation x) = StakeDelegation_toCore toTyped x"
| "CertificateBody_toCore lib toTyped (CertPoolRegistration x) = PoolRegistration_toCore lib toTyped x"
| "CertificateBody_toCore lib toTyped (CertPoolRetirement x) = PoolRetirement_toCore toTyped x"
| "CertificateBody_toCore lib toTyped (CertGenesisKeyDelegation x) = Inr (GenesisKeyDelegation_toCore x)"
| "CertificateBody_toCore lib toTyped (CertMoveInstantaneousReward x) = MoveInstantaneousReward_toCore x"
| "CertificateBody_toCore lib toTyped (CertRegistration x) = Inr (Registration_toCore x)"
| "CertificateBody_toCore lib toTyped (CertUnregistration x) = Inr (Unregistration_toCore x)"
| "CertificateBody_toCore lib toTyped (CertVoteDelegation x) = VoteDelegation_toCore x"
| "CertificateBody_toCore lib toTyped (CertStakeVoteDelegation x) = StakeVoteDelegation_toCore toTyped x"
| "CertificateBody_toCore lib toTyped (CertStakeRegistrationDelegation x) = StakeRegistrationDelegation_toCore toTyped x"
| "CertificateBody_toCore lib toTyped (CertVoteRegistrationDelegation x) = VoteRegistrationDelegation_toCore x"
| "CertificateBody_toCore lib toTyped (CertStakeVoteRegistrationDelegation x) = StakeVoteRegistrationDelegation_toCore toTyped x"
| "CertificateBody_toCore lib toTyped (CertAuthCommitteeHot x) = Inr (AuthCommitteeHot_toCore x)"
| "CertificateBody_toCore lib toTyped (CertResignCommitteeCold x) = Inr (ResignCommitteeCold_toCore x)"
| "CertificateBody_toCore lib toTyped (CertRegisterDelegateRepresentative x) = Inr (RegisterDelegateRepresentative_toCore x)"
| "CertificateBody_toCore lib toTyped (CertUnregisterDelegateRepresentative x) = Inr (UnregisterDelegateRepresentative_toCore x)"
| "CertificateBody_toCore lib toTyped (CertUpdateDelegateRepresentative x) = Inr (UpdateDelegateRepresentative_toCore x)"

definition Certificate_toCore :: "string_codecs \<Rightarrow> package_bech32 \<Rightarrow> Certificate \<Rightarrow> Core_Certificate result" where
  "Certificate_toCore lib toTyped c = CertificateBody_toCore lib toTyped (cert_body c)"

fun CertificateBody_fromCore :: "string_codecs \<Rightarrow> Core_Certificate \<Rightarrow> CertificateBody result" where
  "CertificateBody_fromCore lib (StakeAddressCertificate reg c) = Inr (if reg then CertStakeRegistration (StakeRegistration_fromCore c)
     else CertStakeDeregistration (StakeDeregistration_fromCore c))"
| "CertificateBody_fromCore lib (StakeDelegationCertificate c poolId) =
     ebind (StakeDelegation_fromCore lib c poolId) (\<lambda>x. Inr (CertStakeDelegation x))"
| "CertificateBody_fromCore lib (PoolRetirementCertificate poolId epoch) =
     ebind (PoolRetirement_fromCore lib poolId epoch) (\<lambda>x. Inr (CertPoolRetirement x))"
| "CertificateBody_fromCore lib (PoolRegistrationCertificate params) =
     ebind (PoolRegistration_fromCore lib params) (\<lambda>x. Inr (CertPoolRegistration x))"
| "CertificateBody_fromCore lib (MirCertificate kind c quantity pot) =
     ebind (MoveInstantaneousReward_fromCore kind c quantity pot) (\<lambda>x. Inr (CertMoveInstantaneousReward x))"
| "CertificateBody_fromCore lib (GenesisKeyDelegationCertificate g d v) = Inr (CertGenesisKeyDelegation (GenesisKeyDelegation_fromCore g d v))"
| "CertificateBody_fromCore lib (NewStakeAddressCertificate reg c deposit) = Inr (if reg then CertRegistration (Registration_fromCore c deposit)
     else CertUnregistration (Unregistration_fromCore c deposit))"
| "CertificateBody_fromCore lib (VoteDelegationCertificate c dRep) = Inr (CertVoteDelegation (VoteDelegation_fromCore c dRep))"
| "CertificateBody_fromCore lib (StakeVoteDelegationCertificate c poolId dRep) =
     ebind (StakeVoteDelegation_fromCore lib c poolId dRep) (\<lambda>x. Inr (CertStakeVoteDelegation x))"
| "CertificateBody_fromCore lib (StakeRegistrationDelegationCertificate c poolId deposit) =
     ebind (StakeRegistrationDelegation_fromCore lib c poolId deposit) (\<lambda>x. Inr (CertStakeRegistrationDelegation x))"
| "CertificateBody_fromCore lib (VoteRegistrationDelegationCertificate c dRep deposit) =
     Inr (CertVoteRegistrationDelegation (VoteRegistrationDelegation_fromCore c dRep deposit))"
| "CertificateBody_fromCore lib (StakeVoteRegistrationDelegationCertificate c poolId dRep deposit) =
     ebind (StakeVoteRegistrationDelegation_fromCore lib c poolId dRep deposit) (\<lambda>x. Inr (CertStakeVoteRegistrationDelegation x))"
| "CertificateBody_fromCore lib (AuthorizeCommitteeHotCertificate cold hot) = Inr (CertAuthCommitteeHot (AuthCommitteeHot_fromCore cold hot))"
| "CertificateBody_fromCore lib (ResignCommitteeColdCertificate cold anchor) =
     ebind (ResignCommitteeCold_fromCore cold anchor) (\<lambda>x. Inr (CertResignCommitteeCold x))"
| "CertificateBody_fromCore lib (RegisterDelegateRepresentativeCertificate c deposit anchor) =
     ebind (RegisterDelegateRepresentative_fromCore c deposit anchor) (\<lambda>x. Inr (CertRegisterDelegateRepresentative x))"
| "CertificateBody_fromCore lib (UnRegisterDelegateRepresentativeCertificate c deposit) =
     Inr (CertUnregisterDelegateRepresentative (UnregisterDelegateRepresentative_fromCore c deposit))"
| "CertificateBody_fromCore lib (UpdateDelegateRepresentativeCertificate c anchor) =
     ebind (UpdateDelegateRepresentative_fromCore c anchor) (\<lambda>x. Inr (CertUpdateDelegateRepresentative x))"

definition Certificate_fromCore :: "string_codecs \<Rightarrow> Core_Certificate \<Rightarrow> Certificate result" where
  "Certificate_fromCore lib certificate =
     ebind (CertificateBody_fromCore lib certificate) (\<lambda>body. Inr \<lparr>cert_body = body, cert_originalBytes = None\<rparr>)"

subsection \<open>Plain certificates are converted back\<close>

text \<open>
  The two bech32 packages agree: what the one prints of a key hash, the other reads as the words of the hash.
\<close>

definition pool_codec_ok :: "string_codecs \<Rightarrow> package_bech32 \<Rightarrow> bool" where
  "pool_codec_ok lib toTyped \<longleftrightarrow> (\<forall>h. length h = 28 \<longrightarrow>
     (\<exists>s. toTyped ''pool'' h = Inr s \<and> bech32_decode lib s MAX_BECH32_LENGTH_LIMIT = Inr (''pool'', bech32_toWords lib h)))"

definition pool_id :: "package_bech32 \<Rightarrow> string \<Rightarrow> bool" where
  "pool_id toTyped s \<longleftrightarrow> (\<exists>h. length h = 28 \<and> PoolId_fromKeyHash toTyped h = Inr s)"

lemma pool_id_keyE:
  assumes "codecs_ok lib" and "pool_codec_ok lib toTyped" and "pool_id toTyped s"
  obtains h where "length h = 28" "PoolId_toKeyHash lib s = Inr h" "PoolId_fromKeyHash toTyped h = Inr s"
proof -
  obtain h where h: "length h = 28" "toTyped ''pool'' h = Inr s" using assms(3) by (auto simp: pool_id_def PoolId_fromKeyHash_def)
  then have "bech32_decode lib s 1023 = Inr (''pool'', bech32_toWords lib h)" using assms(2) by (fastforce simp: pool_codec_ok_def)
  then have "PoolId_toKeyHash lib s = Inr h" using h(1) assms(1) by (simp add: PoolId_toKeyHash_def codecs_ok_def typedHash_def)
  with h that show thesis by (simp add: PoolId_fromKeyHash_def)
qed

fun relay_ok :: "Core_Relay \<Rightarrow> bool" where
  "relay_ok (RelayByAddress _ _ _) \<longleftrightarrow> True"
| "relay_ok (RelayByName hostname _) \<longleftrightarrow> length hostname \<le> 64"
| "relay_ok (RelayByNameMultihost dnsName) \<longleftrightarrow> length dnsName \<le> 64"

definition fraction_ok :: "Core_Fraction \<Rightarrow> bool" where
  "fraction_ok f \<longleftrightarrow> \<bar>core_numerator f\<bar> < 9007199254740992 \<and> \<bar>core_denominator f\<bar> < 9007199254740992"

text \<open>
  The parameters of a pool name strings that stand for keys: the id, the reward account, and owners that are
  key accounts on the network of the reward account.
\<close>

definition pool_params_ok :: "string_codecs \<Rightarrow> package_bech32 \<Rightarrow> PoolParameters \<Rightarrow> bool" where
  "pool_params_ok lib toTyped p \<longleftrightarrow> pool_id toTyped (pl_id p) \<and> fraction_ok (pl_margin p) \<and> list_all relay_ok (pl_relays p) \<and>
     pred_option (\<lambda>m. length (fst m) \<le> 64) (pl_metadataJson p) \<and>
     (\<exists>c n. length (cred_hash c) = 28 \<and> n < 16 \<and> RewardAccount_fromCredential lib c n = Inr (pl_rewardAccount p) \<and>
        list_all (\<lambda>owner. \<exists>h. length h = 28 \<and> createRewardAccount lib h n = Inr owner) (pl_owners p))"

definition anchor_ok :: "core_anchor \<Rightarrow> bool" where
  "anchor_ok anchor \<longleftrightarrow> pred_option (\<lambda>a. length (fst a) \<le> 128) anchor"

fun core_cert_ok :: "string_codecs \<Rightarrow> package_bech32 \<Rightarrow> Core_Certificate \<Rightarrow> bool" where
  "core_cert_ok lib toTyped (PoolRegistrationCertificate params) \<longleftrightarrow> pool_params_ok lib toTyped params"
| "core_cert_ok lib toTyped (PoolRetirementCertificate poolId _) \<longleftrightarrow> pool_id toTyped poolId"
| "core_cert_ok lib toTyped (StakeDelegationCertificate _ poolId) \<longleftrightarrow> pool_id toTyped poolId"
| "core_cert_ok lib toTyped (StakeVoteDelegationCertificate _ poolId _) \<longleftrightarrow> pool_id toTyped poolId"
| "core_cert_ok lib toTyped (StakeRegistrationDelegationCertificate _ poolId _) \<longleftrightarrow> pool_id toTyped poolId"
| "core_cert_ok lib toTyped (StakeVoteRegistrationDelegationCertificate _ poolId _ _) \<longleftrightarrow> pool_id toTyped poolId"
| "core_cert_ok lib toTyped (MirCertificate kind c _ _) \<longleftrightarrow> (kind = ToOtherPot \<longleftrightarrow> c = None)"
| "core_cert_ok lib toTyped (ResignCommitteeColdCertificate _ anchor) \<longleftrightarrow> anchor_ok anchor"
| "core_cert_ok lib toTyped (RegisterDelegateRepresentativeCertificate _ _ anchor) \<longleftrightarrow> anchor_ok anchor"
| "core_cert_ok lib toTyped (UpdateDelegateRepresentativeCertificate _ anchor) \<longleftrightarrow> anchor_ok anchor"
| "core_cert_ok lib toTyped _ \<longleftrightarrow> True"

lemma core_dRep_fromCore [simp]: "core_dRep (DRep_fromCore d) = Inr d"
proof (cases d)
  case (Core_DRepCredential c)
  have "c = \<lparr>cred_type = cred_type c, cred_hash = cred_hash c\<rparr>" by simp
  with Core_DRepCredential show ?thesis
    by (cases "cred_type c") (simp_all add: core_dRep_def DRep_toCore_def DRep_fromCore_def DRep_defs)
qed (simp_all add: core_dRep_def DRep_toCore_def DRep_fromCore_def DRep_defs)

lemma anchor_okE:
  assumes "anchor_ok anchor"
  obtains a where "nullable_anchor anchor = Inr a" "map_option Anchor_toCore a = anchor"
proof (cases anchor)
  case None
  then show thesis using that [of None] by (simp add: nullable_anchor_def)
next
  case (Some a)
  with assms that [of "Some \<lparr>an_url = fst a, an_dataHash = snd a, an_originalBytes = None\<rparr>"] show thesis
    by (simp add: nullable_anchor_def anchor_ok_def Anchor_fromCore_def Anchor_new_def Anchor_toCore_def)
qed

lemma relay_core: "relay_ok r \<Longrightarrow> \<exists>x. Relay_fromCore r = Inr x \<and> Relay_toCore x = r"
  by (cases r) (simp_all add: Relay_fromCore_def Relay_toCore_def SingleHostAddr_fromCore_def SingleHostAddr_toCore_def SingleHostAddr_new_def
      SingleHostName_fromCore_def SingleHostName_toCore_def SingleHostName_new_def MultiHostName_fromCore_def MultiHostName_toCore_def MultiHostName_new_def)

lemma emap_back:
  assumes "\<And>x. x \<in> set xs \<Longrightarrow> \<exists>y. f x = Inr y \<and> g y = Inr x"
  shows "\<exists>ys. emap f xs = Inr ys \<and> emap g ys = Inr xs"
  using assms
proof (induction xs)
  case (Cons x xs)
  obtain y ys where "f x = Inr y" "g y = Inr x" "emap f xs = Inr ys" "emap g ys = Inr xs"
    using Cons.IH Cons.prems by (metis list.set_intros(1,2))
  then show ?case by (intro exI [of _ "y # ys"]) simp
qed simp

lemma owner_core:
  assumes "codecs_ok lib" and "length h = 28" and "n < 16" and "createRewardAccount lib h n = Inr owner"
  shows "owner_key lib owner = Inr h"
proof -
  let ?c = "\<lparr>cred_type = KeyHash, cred_hash = h\<rparr>"
  have "RewardAccount_fromCredential lib ?c n = Inr owner"
    using assms(2,4) by (simp add: createRewardAccount_def RewardAccount_fromCredential_def typedHash_def)
  then have "Address_fromBech32 lib owner = Inr (RewardAddress_fromCredentials n ?c)" using assms(1-3) by (intro reward_account_text) simp_all
  then show ?thesis using assms(2) fromCredentials_views(3) [of n ?c] by (auto simp: owner_key_def typedHash_def)
qed

lemma pool_params_core:
  assumes "codecs_ok lib" and "pool_codec_ok lib toTyped" and "pool_params_ok lib toTyped p"
  shows "\<exists>x. PoolParams_fromCore lib p = Inr x \<and> PoolParams_toCore lib toTyped x = Inr p"
proof -
  obtain id where id: "PoolId_toKeyHash lib (pl_id p) = Inr id" "PoolId_fromKeyHash toTyped id = Inr (pl_id p)"
    using assms by (auto simp: pool_params_ok_def elim: pool_id_keyE)
  obtain c n where cn: "length (cred_hash c) = 28" "n < 16" "RewardAccount_fromCredential lib c n = Inr (pl_rewardAccount p)"
    "\<forall>owner \<in> set (pl_owners p). \<exists>h. length h = 28 \<and> createRewardAccount lib h n = Inr owner"
    using assms(3) by (auto simp: pool_params_ok_def list_all_iff)
  let ?a = "RewardAddress_fromCredentials n c"
  have account: "Address_fromBech32 lib (pl_rewardAccount p) = Inr ?a" by (rule reward_account_text [OF assms(1) cn(1-3)])
  have reward: "RewardAddress_fromAddress ?a = Some ?a" "Address_getNetworkId ?a = Some n"
    using fromCredentials_views(3) [of n c]
    by (auto simp: RewardAddress_fromAddress_def RewardAddress_new_def RewardAddress_fromCredentials_def split: if_splits)
  have print: "Address_toBech32 lib ?a = Inr (pl_rewardAccount p)"
    using cn(3) by (auto simp: RewardAccount_fromCredential_def RewardAccount_def typedBech32_def elim!: ebind_InrE)
  obtain owners where owners: "emap (owner_key lib) (pl_owners p) = Inr owners" "emap (\<lambda>h. createRewardAccount lib h n) owners = Inr (pl_owners p)"
    using emap_back [of "pl_owners p" "owner_key lib" "\<lambda>h. createRewardAccount lib h n"] cn(4) owner_core [OF assms(1) _ cn(2)] by blast
  have "\<exists>ys. emap Relay_fromCore rs = Inr ys \<and> map Relay_toCore ys = rs" if "list_all relay_ok rs" for rs
    using that by (induction rs) (auto dest!: relay_core)
  then obtain relays where relays: "emap Relay_fromCore (pl_relays p) = Inr relays" "map Relay_toCore relays = pl_relays p"
    using assms(3) by (auto simp: pool_params_ok_def)
  obtain m where m: "(case pl_metadataJson p of None \<Rightarrow> Inr None | Some m \<Rightarrow> ebind (PoolMetadata_fromCore m) (\<lambda>m. Inr (Some m))) = Inr m"
    "map_option PoolMetadata_toCore m = pl_metadataJson p"
    using assms(3) by (cases "pl_metadataJson p") (auto simp: pool_params_ok_def PoolMetadata_fromCore_def PoolMetadata_new_def PoolMetadata_toCore_def)
  have margin: "UnitInterval_toCore (UnitInterval_fromCore (pl_margin p)) = pl_margin p"
    using assms(3) by (simp add: pool_params_ok_def fraction_ok_def UnitInterval_toCore_def UnitInterval_fromCore_def UnitInterval_new_def abs_less_iff)
  show ?thesis
    using id account reward print owners relays m margin
    by (simp add: PoolParams_fromCore_def PoolParams_toCore_def CborSet_fromCore_def CborSet_toCore_def)
qed

lemmas cert_core_defs =
  StakeRegistration_toCore_def StakeRegistration_fromCore_def StakeRegistration_new_def
  StakeDeregistration_toCore_def StakeDeregistration_fromCore_def StakeDeregistration_new_def
  Registration_toCore_def Registration_fromCore_def Registration_new_def
  Unregistration_toCore_def Unregistration_fromCore_def Unregistration_new_def
  GenesisKeyDelegation_toCore_def GenesisKeyDelegation_fromCore_def GenesisKeyDelegation_new_def
  StakeDelegation_toCore_def StakeDelegation_fromCore_def StakeDelegation_new_def
  VoteDelegation_toCore_def VoteDelegation_fromCore_def VoteDelegation_new_def
  StakeVoteDelegation_toCore_def StakeVoteDelegation_fromCore_def StakeVoteDelegation_new_def
  StakeRegistrationDelegation_toCore_def StakeRegistrationDelegation_fromCore_def StakeRegistrationDelegation_new_def
  VoteRegistrationDelegation_toCore_def VoteRegistrationDelegation_fromCore_def VoteRegistrationDelegation_new_def
  StakeVoteRegistrationDelegation_toCore_def StakeVoteRegistrationDelegation_fromCore_def StakeVoteRegistrationDelegation_new_def
  AuthCommitteeHot_toCore_def AuthCommitteeHot_fromCore_def AuthCommitteeHot_new_def
  ResignCommitteeCold_toCore_def ResignCommitteeCold_fromCore_def ResignCommitteeCold_new_def
  RegisterDelegateRepresentative_toCore_def RegisterDelegateRepresentative_fromCore_def RegisterDelegateRepresentative_new_def
  UnregisterDelegateRepresentative_toCore_def UnregisterDelegateRepresentative_fromCore_def UnregisterDelegateRepresentative_new_def
  UpdateDelegateRepresentative_toCore_def UpdateDelegateRepresentative_fromCore_def UpdateDelegateRepresentative_new_def
  PoolRetirement_toCore_def PoolRetirement_fromCore_def PoolRetirement_new_def
  PoolRegistration_toCore_def PoolRegistration_fromCore_def PoolRegistration_new_def
  MoveInstantaneousReward_toCore_def MoveInstantaneousReward_fromCore_def
  MirToOtherPot_toCore_def MirToOtherPot_fromCore_def MirToStakeCreds_toCore_def MirToStakeCreds_fromCore_def

lemma certificate_core:
  assumes "codecs_ok lib" and "pool_codec_ok lib toTyped" and "core_cert_ok lib toTyped c"
  shows "\<exists>body. CertificateBody_fromCore lib c = Inr body \<and> CertificateBody_toCore lib toTyped body = Inr c"
proof (cases c)
  case (PoolRegistrationCertificate params)
  with pool_params_core [OF assms(1,2), of params] assms(3) show ?thesis by (auto simp: cert_core_defs)
next
  case (MirCertificate kind cred q pot)
  with assms(3) show ?thesis by (cases kind) (auto simp: cert_core_defs)
qed (use assms in \<open>auto simp: cert_core_defs elim!: pool_id_keyE [OF assms(1,2)] anchor_okE\<close>)

text \<open>The plain certificate depends only on the content of the class; of several rewarded credentials one would be lost.\<close>

fun one_entry :: "CertificateBody \<Rightarrow> bool" where
  "one_entry (CertMoveInstantaneousReward x) \<longleftrightarrow> (case mir_body x of MirToOtherPot _ \<Rightarrow> True | MirToStakeCreds c \<Rightarrow> length (msc_credentials c) = 1)"
| "one_entry _ \<longleftrightarrow> True"

lemma fromCore_one_entry: "CertificateBody_fromCore lib c = Inr body \<Longrightarrow> one_entry body"
  by (cases c) (auto simp: cert_core_defs split: MirCertificateKind.splits option.splits if_splits)

lemma relay_core_content: "Relay_toCore \<lparr>rel_body = relay_content (rel_body r), rel_originalBytes = None\<rparr> = Relay_toCore r"
  by (cases "rel_body r") (simp_all add: Relay_toCore_def SingleHostAddr_toCore_def SingleHostName_toCore_def MultiHostName_toCore_def)

lemma pool_core_content: "PoolParams_toCore lib toTyped (pool_content p) = PoolParams_toCore lib toTyped p"
  by (simp add: PoolParams_toCore_def pool_content_def UnitInterval_toCore_def CborSet_toCore_def relay_core_content comp_def
      PoolMetadata_toCore_def [abs_def] option.map_comp)

lemma same_pool: "pool_content p = pool_content q \<Longrightarrow> PoolParams_toCore lib toTyped p = PoolParams_toCore lib toTyped q"
  by (metis pool_core_content)

lemma same_mir:
  assumes "mir_content m = mir_content m'" and "case m' of MirToOtherPot _ \<Rightarrow> True | MirToStakeCreds c \<Rightarrow> length (msc_credentials c) = 1"
  shows "MoveInstantaneousReward_toCore \<lparr>mir_body = m, mir_originalBytes = a\<rparr> = MoveInstantaneousReward_toCore \<lparr>mir_body = m', mir_originalBytes = b\<rparr>"
proof (cases m')
  case (MirToOtherPot p)
  with assms show ?thesis by (cases m) (auto simp: cert_core_defs)
next
  case (MirToStakeCreds c)
  with assms(2) obtain e where e: "msc_credentials c = [e]" by (auto simp: length_Suc_conv)
  from MirToStakeCreds assms(1) obtain c' where "m = MirToStakeCreds c'" "msc_pot c' = msc_pot c" "mset (msc_credentials c') = {#e#}"
    using e by (cases m) auto
  with MirToStakeCreds e show ?thesis by (simp add: cert_core_defs)
qed

lemma same_core:
  assumes "same_certificate y x" and "one_entry x"
  shows "CertificateBody_toCore lib toTyped y = CertificateBody_toCore lib toTyped x"
proof (cases x)
  case (CertMoveInstantaneousReward m)
  with assms(1) obtain m' where m': "y = CertMoveInstantaneousReward m'" "mir_content (mir_body m') = mir_content (mir_body m)"
    by (auto simp: same_certificate_def split: CertificateBody.splits)
  with same_mir [OF m'(2), of "mir_originalBytes m'" "mir_originalBytes m"] assms(2) CertMoveInstantaneousReward show ?thesis
    by (cases m; cases m') (simp add: cert_core_defs)
qed (use assms(1) in \<open>auto simp: same_certificate_def cert_core_defs Anchor_toCore_def [abs_def] dest!: same_pool [of _ _ lib toTyped] split: CertificateBody.splits\<close>)

subsection \<open>Properties\<close>

text \<open>C35. A plain certificate is converted to its class and back to itself, also when it is written to CBOR and read in
  between: pool ids, reward accounts and owners are the same strings again, DReps, anchors, relays and
  metadata the same objects.\<close>

theorem core_certificate_roundtrip:
  assumes "codecs_ok lib" and "pool_codec_ok lib toTyped" and "core_cert_ok lib toTyped c"
  shows "\<exists>cert. Certificate_fromCore lib c = Inr cert \<and> Certificate_toCore lib toTyped cert = Inr c \<and>
    (CertificateBody_valid env sortEntries (cert_body cert) \<longrightarrow>
      (\<exists>b d. Certificate_toCbor env sortEntries cert = Inr b \<and> Certificate_fromCbor env b = Inr d \<and> Certificate_toCore lib toTyped d = Inr c))"
proof -
  obtain body where body: "CertificateBody_fromCore lib c = Inr body" "CertificateBody_toCore lib toTyped body = Inr c"
    using certificate_core [OF assms] by blast
  have "\<exists>b d. Certificate_toCbor env sortEntries \<lparr>cert_body = body, cert_originalBytes = None\<rparr> = Inr b \<and> Certificate_fromCbor env b = Inr d \<and>
      Certificate_toCore lib toTyped d = Inr c" if valid: "CertificateBody_valid env sortEntries body"
  proof -
    obtain b y where b: "CertificateBody_toCbor env sortEntries body = Inr b" "kindOf b = Inr (CertificateKind body)"
      "CertificateBody_fromCbor env (CertificateKind body) b = Inr y" "same_certificate y body"
      using certificate_bodies [OF valid] by blast
    with same_core [OF b(4) fromCore_one_entry [OF body(1)]] body(2) show ?thesis
      by (simp add: Certificate_toCbor_def Certificate_fromCbor_def Certificate_toCore_def)
  qed
  with body show ?thesis by (simp add: Certificate_fromCore_def Certificate_toCore_def)
qed

definition example_toTyped :: package_bech32 where
  "example_toTyped p h = Inr (p @ ''1'' @ unary_encode (bech32_toWords example_codecs h))"

lemma example_pool_codec: "pool_codec_ok example_codecs example_toTyped"
proof -
  have "bech32_decode example_codecs (''pool'' @ ''1'' @ unary_encode w) n = Inr (''pool'', w)" for w n
    using example_decode_encode [of "''pool''" w n] by (simp add: example_codecs_def)
  then show ?thesis by (auto simp: pool_codec_ok_def example_toTyped_def)
qed

theorem core_certificate_roundtrip_witness:
  "\<exists>poolId cert b d. PoolId_fromKeyHash example_toTyped (replicate 28 5) = Inr poolId \<and>
    Certificate_fromCore example_codecs (StakeVoteDelegationCertificate \<lparr>cred_type = ScriptHash, cred_hash = replicate 28 6\<rparr> poolId AlwaysAbstain) = Inr cert \<and>
    Certificate_toCbor example_env id cert = Inr b \<and> Certificate_fromCbor example_env b = Inr d \<and>
    Certificate_toCore example_codecs example_toTyped d =
      Inr (StakeVoteDelegationCertificate \<lparr>cred_type = ScriptHash, cred_hash = replicate 28 6\<rparr> poolId AlwaysAbstain)"
proof -
  obtain poolId where p: "PoolId_fromKeyHash example_toTyped (replicate 28 5) = Inr poolId" by (simp add: PoolId_fromKeyHash_def example_toTyped_def)
  have id: "pool_id example_toTyped poolId" unfolding pool_id_def by (intro exI [of _ "replicate 28 5"]) (use p in simp)
  let ?c = "StakeVoteDelegationCertificate \<lparr>cred_type = ScriptHash, cred_hash = replicate 28 6\<rparr> poolId AlwaysAbstain"
  obtain cert where cert: "Certificate_fromCore example_codecs ?c = Inr cert"
    "CertificateBody_valid example_env id (cert_body cert) \<longrightarrow> (\<exists>b d. Certificate_toCbor example_env id cert = Inr b \<and>
      Certificate_fromCbor example_env b = Inr d \<and> Certificate_toCore example_codecs example_toTyped d = Inr ?c)"
    using core_certificate_roundtrip [OF example_codecs_ok example_pool_codec, of ?c example_env id] id by auto
  obtain h where "length h = 28" "PoolId_toKeyHash example_codecs poolId = Inr h" by (rule pool_id_keyE [OF example_codecs_ok example_pool_codec id])
  with cert(1) have "CertificateBody_valid example_env id (cert_body cert)"
    by (auto simp: Certificate_fromCore_def cert_core_defs StakeVoteDelegation_valid_def DRep_fromCore_def DRep_valid_def DRep_defs)
  with cert p show ?thesis by blast
qed

text \<open>A distribution of rewards to several stake credentials loses all entries but the first.\<close>

theorem mir_core_keeps_first:
  "MoveInstantaneousReward_toCore \<lparr>mir_body = MirToStakeCreds \<lparr>msc_pot = pot, msc_credentials = (c, q) # rest, msc_originalBytes = a\<rparr>, mir_originalBytes = b\<rparr> =
     MoveInstantaneousReward_toCore \<lparr>mir_body = MirToStakeCreds \<lparr>msc_pot = pot, msc_credentials = [(c, q)], msc_originalBytes = a\<rparr>, mir_originalBytes = b\<rparr>"
  by (simp add: cert_core_defs)

end
