(* ===== verification/Spec2Isabelle.thy ===== *)
theory Spec2Isabelle
  imports Cbor_Reader_Inv Native_Script Plutus_Core Greedy Slot_Calc Min_Ada Body_States Key_Paths Cert_Core
begin

text \<open>
  A verification library for the Cardano JavaScript SDK (packages \<open>core\<close>,
  \<open>input-selection\<close> and \<open>tx-construction\<close>).

  \<^bold>\<open>The program.\<close>  The SDK turns a user's intent into a ledger transaction and back.
  Its own logic is in three layers.  The lowest is a CBOR codec: \<open>CborWriter\<close> appends encoded
  items to a buffer, \<open>CborReader\<close> is a state machine over a buffer with a stack of open
  containers.  On it stand the serialization classes (\<open>core/src/Serialization\<close>), one per
  ledger type, each with \<open>toCbor\<close>, \<open>fromCbor\<close>, \<open>toCore\<close>, \<open>fromCore\<close>
  and a cache of the bytes it was read from; beside them are the addresses
  (\<open>core/src/Cardano/Address\<close>), with a binary format of their own.  On top, the input
  selectors (\<open>input-selection/src\<close>) choose the unspent outputs that pay for a transaction
  and compute its change and fee.

  \<^bold>\<open>Theories and sources.\<close>
  \<^item> \<open>Prelude\<close>: results as sums, generic lemmas on lists, options and bytes; \<open>Utf8\<close>: the
    text codec of the language's standard library.
  \<^item> \<open>Cbor_Types\<close>, \<open>Cbor_Writer\<close>, \<open>Cbor_Reader\<close>: \<open>CBOR/CborMajorType.ts\<close>,
    \<open>CborInitialByte.ts\<close>, \<open>CborReaderState.ts\<close>, \<open>CborWriter.ts\<close> and
    \<open>CborReader.ts\<close>.  A writer is the list of bytes written; a reader is a record with the
    fields of the class (data, offset, stack of nested items, cached state, tag context), and an
    operation returns an error or a value with the next reader.
  \<^item> \<open>Cbor_Item\<close>: what each read does on the bytes that each write produces, and
    \<open>readEncodedValue\<close> on every well-formed item.  \<open>Cbor_Reader_Inv\<close>: the invariant of
    reachable readers, the abstract machine they refine, and the absence of internal errors.
  \<^item> \<open>Cbor_Codec\<close>: the interfaces.  \<open>cbor_codec\<close> is a pair of functions that round-trip
    in any context of the reader, \<open>caching_codec\<close> adds the cached bytes, \<open>entry_codec\<close>
    gives the loops that read arrays and maps of elements.  Every serialization class below is
    an interpretation of one of them.
  \<^item> \<open>Common\<close> (\<open>Serialization/Common\<close>), \<open>Native_Script\<close>
    (\<open>Scripts/NativeScript\<close>), \<open>Plutus_Data\<close> and \<open>Plutus_Core\<close>
    (\<open>PlutusData\<close>).
  \<^item> \<open>Cert_Fields\<close>, \<open>Certificates\<close>, \<open>Pool_Params\<close>, \<open>Mir\<close>,
    \<open>Certificate_Union\<close> (\<open>Serialization/Certificates\<close>): the fields, the nineteen
    classes over the interface \<open>kinded_codec\<close>, and the dispatching class.
  \<^item> \<open>Cbor_Loops\<close>: the loops that fold the items of an array or the numbered fields of a map
    into a state, with the interface \<open>fields_ok\<close> for classes with optional fields.
    \<open>Js_Collections\<close>: the standard library's sort and insertion-ordered maps.
  \<^item> \<open>Multi_Asset\<close> and \<open>Tx_Value\<close> (asset ids, token maps and the class \<open>Value\<close>),
    \<open>Scripts\<close> (\<open>Scripts/*.ts\<close>), \<open>Tx_Output\<close> (\<open>Datum\<close>,
    \<open>TransactionInput\<close>, \<open>TransactionOutput\<close>), \<open>Min_Ada\<close>
    (\<open>tx-construction/src/fees/fees.ts\<close>), \<open>Slot_Calc\<close>
    (\<open>core/src/util/slotCalc.ts\<close>).
  \<^item> \<open>Cbor_Fields\<close>, \<open>Field_Table\<close>: what the classes with optional numbered fields share; a
    table of rows (number, how the field is written, read and viewed) gives the round trip of a
    whole class, and \<open>row_ok\<close> is what each row promises.  \<open>Asset_Maps\<close>: maps of policies to
    amounts of assets, over the interface \<open>token_amounts\<close>.
  \<^item> \<open>Metadata\<close>, \<open>Auxiliary_Data\<close> (\<open>Serialization/AuxiliaryData\<close>),
    \<open>Witnesses\<close>, \<open>Witness_Set\<close> (\<open>TransactionWitnessSet\<close>).
  \<^item> \<open>Protocol_Params\<close>, \<open>Cost_Models\<close>, \<open>Param_Update\<close>, \<open>Update\<close>
    (\<open>Serialization/Update\<close>): prices, thresholds, cost models, the record of 37 optional
    parameters and the maps of proposed updates.
  \<^item> \<open>Voting\<close> (\<open>TransactionBody/VotingProcedures\<close>), \<open>Gov_Fields\<close>, \<open>Gov_Actions\<close> and
    \<open>Proposal\<close> (\<open>TransactionBody/ProposalProcedure\<close>): voters, ballots, constitution,
    committee, the seven governance actions over \<open>kinded_codec\<close>, and the class that
    dispatches on their kind.
  \<^item> \<open>Body_Fields\<close>, \<open>Body_Rows\<close> (\<open>TransactionBody/Guards.ts\<close>,
    \<open>AccountBalanceInterval.ts\<close> and the formats of the fields that both kinds of bodies share),
    \<open>Sub_Body\<close> (\<open>SubTransactionBody.ts\<close>), \<open>Sub_Transaction\<close> (\<open>SubTransaction.ts\<close>),
    \<open>Tx_Body\<close> (\<open>TransactionBody.ts\<close>) and \<open>Transaction\<close> (\<open>Transaction.ts\<close>,
    \<open>TransactionUnspentOutput.ts\<close>).  A body is a table of 24 numbered fields; its abstract view is
    the map from numbers to contents.  \<open>Body_States\<close>: the states that the setters of a body reach.
    Writing a transaction drops repeated signatures from its witness set, so \<open>toCbor\<close> returns the
    changed object; for sub transactions inside a body this change is left out of the result, since
    it does not change what is written (\<open>sub_transaction_again\<close>).
  \<^item> \<open>Address\<close>, \<open>Address_Text\<close> (\<open>Cardano/Address\<close>): the five address kinds,
    their bytes and strings, and the identifiers derived from them.
  \<^item> \<open>Token_Map\<close> (\<open>coalesceValueQuantities.ts\<close>, \<open>coalesceTokenMaps.ts\<close>, the token
    arithmetic of \<open>input-selection/src/util.ts\<close>), \<open>Input_Selection\<close> (preprocessing, the
    balance checks and \<open>RoundRobinRandomImprove/roundRobin.ts\<close>), \<open>Change\<close>
    (\<open>change.ts\<close>) with the proofs about it in \<open>Change_Balance\<close>,
    \<open>Change_Totals\<close> and \<open>Change_Loop\<close>, \<open>Selection\<close> (types, sort orders, change
    address resolver), \<open>Round_Robin\<close>, \<open>Large_First\<close> and \<open>Greedy\<close> (the three selectors).  The
    interface \<open>utxo_picker\<close> is what the change computation asks of the callback that adds
    an input; \<open>change_address_resolver\<close> and \<open>comparator\<close> are the other two.
  \<^item> \<open>Core_Certificates\<close> (\<open>Cardano/types/Certificate.ts\<close>): certificates as plain objects;
    \<open>Cert_Core\<close>: the conversions \<open>toCore\<close> and \<open>fromCore\<close> between them and the classes;
    \<open>Implicit_Coin\<close> (\<open>Cardano/util/computeImplicitCoin.ts\<close>): the deposits, reclaimed deposits
    and withdrawals of a transaction; \<open>Key_Paths\<close>
    (\<open>key-management/src/util/ownSignatureKeyPaths.ts\<close>): the derivation paths of the keys that
    have to sign it.

  \<^bold>\<open>What is shown.\<close>
  \<^item> Reader: it stays inside its buffer and keeps a consistent stack; no public operation on a
    reachable reader raises one of its internal errors; it refines a machine of
    pushes, pops and advances; it skips exactly one well-formed item.
  \<^item> Serialization: what is written is read back, and what was read is written with the very
    same bytes, for common types, native scripts, Plutus data, certificates, outputs, witness
    sets, auxiliary data, parameter updates, votes, proposals and whole transactions; bounds of
    heads and byte strings; equality and lookup in Plutus data.
  \<^item> Transactions: a transaction is read back with the same body, id, flag, auxiliary data and
    signatures; exchanging the signatures of a transaction keeps the bytes of its body, so its id,
    whatever encoding it was read in; in every state that the setters of a body reach, required signers and
    guards exclude each other and cached bytes are those the body was read from.
  \<^item> Plain certificates are converted to their classes and back, also through CBOR.
  \<^item> Addresses: bytes, strings and credentials round-trip.
  \<^item> Selection: the round-robin loop ends and covers what is asked; the three selectors return (a
    selection or one of the documented errors) and a selection balances coin and every
    asset; those of the first two take each input once from the entries given, are sorted, within
    the limit, and have change outputs within the size limit and with the minimum coin, which for an output that was
    split off is computed without its coin (\<open>min_ada_ignores_amount\<close>: the minimum of \<open>fees.ts\<close> is then the same).
    Entries are objects with references (\<open>TxIn\<close> in \<open>Input_Selection\<close>), since the selectors compare
    objects: a copy of a preselected entry is another input for the greedy selector and stays
    remaining for the large-first one.
  \<^item> Deposits and signatures: the implicit coin is the sum over the certificates and withdrawals of the
    given accounts and over all proposals, each counted once; the paths to sign with are exactly those
    the transaction asks for, unless a certificate that moves rewards to credentials names none.
  \<^item> Slots: the slots of an epoch have that epoch, and every slot from the first era on has one.
    Fees: the search for the minimum coin of an output ends with a consistent amount, which is the same
    whatever the output holds.
  \<^item> Governance: a voter has at most one ballot on an action; the language views of the cost models
    do not depend on the order of insertion.
  \<^item> Where the code deviates from its format the deviation is proved as such
    (negative big numbers, pointer addresses of scripts).

  \<^bold>\<open>Parameters.\<close>  Third-party packages are arguments: \<open>crc32\<close> of Byron addresses,
  the record of bech32 and base58 functions (hypothesis \<open>codecs_ok\<close>, with an instance), the
  IP address parser, the hash \<open>blake2b\<close>,
  lodash's \<open>uniqWith\<close> (\<open>uniq_ok\<close>: the first of equal elements stays), the selection constraints (fee, minimum coin, bundle size, input limit), and
  the random numbers (\<open>random_ok\<close>: between 0 and 1).  What a transaction needs of them is the record
  \<open>tx_lib\<close>.  The greedy selector takes the arithmetic of weights and of \<open>bignumber.js\<close> (\<open>big_lib\<close>,
  \<open>big_ok\<close>: rounding up, and no negative results from numbers without a negative sign), pool ids the package \<open>bech32\<close> (\<open>pool_ids_ok\<close>: injective;
  \<open>pool_codec_ok\<close>: read back by \<open>@scure/base\<close>), key
  paths lodash's \<open>uniqWith\<close> and \<open>uniqBy\<close> (\<open>path_lib_ok\<close>).

  \<^bold>\<open>Termination.\<close>  Recursion of the code that is not structural is a \<open>function\<close>
  with a measure.  Parsers of nested data recurse on the length of the encoded value they take
  from the reader; the recursion of \<open>computeChangeAndAdjustForFee\<close> is a partial function,
  and the properties state that it returns for both pickers, since each takes an entry from a
  finite list; so is the loop that splits a change output, which ends because its amount halves.

  \<^bold>\<open>Not modelled.\<close>  Floats (conversion of doubles), hashes and signatures (third-party
  cryptography), trivial getters, the core conversions of transaction bodies and
  parameter updates (casts between the class and its plain object), key agents, and the packages
  that are I/O: services, providers, wallet observables, projections, hardware devices and the
  browser connector.
\<close>

end
